(* ===== verification/Prelude.thy ===== *)
theory Prelude
  imports Main "HOL-Library.Word"
begin

text \<open>
  Shared material of the development: the named theorem collections, the synonyms for the
  program's scalar types, and the generic list lemmas that several components use.

  Scalar types. Device ids are opaque 64-bit registry numbers that the code only compares, so
  they are \<open>nat\<close>. Usage pages and usages are \<open>int32_t\<close> numbers the code only compares, so
  they are \<open>int\<close>. Time points and durations are 64-bit tick counts (\<open>int\<close> here: the sums the
  code forms stay far below \<open>2 ^ 63\<close> ticks, some 290 years). \<open>double\<close> values that
  the code only stores and compares are \<open>rat\<close>.
\<close>

named_theorems frame \<open>fields an operation leaves alone\<close>
named_theorems preserved \<open>invariants an operation keeps\<close>

type_synonym device_id = nat
type_synonym usage_page = int
type_synonym usage = int
type_synonym absolute_time_point = int
type_synonym absolute_time_duration = int
type_synonym milliseconds = int

subsection \<open>The erase-remove idiom\<close>

text \<open>
  \<open>v.erase(std::remove_if(begin, end, p), end)\<close> drops the elements that satisfy \<open>p\<close> and keeps
  the order of the rest.
\<close>

definition erase_if :: "('a \<Rightarrow> bool) \<Rightarrow> 'a list \<Rightarrow> 'a list" where
  "erase_if p xs = filter (\<lambda>x. \<not> p x) xs"

lemma erase_if_Nil [simp]: "erase_if p [] = []"
  by (simp add: erase_if_def)

lemma erase_if_Cons [simp]:
  "erase_if p (x # xs) = (if p x then erase_if p xs else x # erase_if p xs)"
  by (simp add: erase_if_def)

lemma erase_if_append [simp]: "erase_if p (xs @ ys) = erase_if p xs @ erase_if p ys"
  by (simp add: erase_if_def)

lemma set_erase_if [simp]: "set (erase_if p xs) = {x \<in> set xs. \<not> p x}"
  by (auto simp: erase_if_def)

lemma erase_if_none: "(\<And>x. x \<in> set xs \<Longrightarrow> \<not> p x) \<Longrightarrow> erase_if p xs = xs"
  by (induction xs) auto

lemma erase_if_idem [simp]: "erase_if p (erase_if p xs) = erase_if p xs"
  by (induction xs) auto

lemma length_erase_if_le: "length (erase_if p xs) \<le> length xs"
  by (simp add: erase_if_def)

lemma distinct_erase_if: "distinct xs \<Longrightarrow> distinct (erase_if p xs)"
  by (simp add: erase_if_def)

subsection \<open>Erasing one position of a vector\<close>

definition erase_at :: "nat \<Rightarrow> 'a list \<Rightarrow> 'a list" where
  "erase_at i xs = take i xs @ drop (Suc i) xs"

lemma erase_at_0 [simp]: "erase_at 0 (x # xs) = xs"
  by (simp add: erase_at_def)

lemma erase_at_Suc [simp]: "erase_at (Suc i) (x # xs) = x # erase_at i xs"
  by (simp add: erase_at_def)

lemma length_erase_at: "i < length xs \<Longrightarrow> length (erase_at i xs) = length xs - 1"
  by (simp add: erase_at_def)

lemma erase_at_append1: "i < length xs \<Longrightarrow> erase_at i (xs @ ys) = erase_at i xs @ ys"
  by (simp add: erase_at_def)

lemma erase_at_last: "erase_at (length xs) (xs @ [x]) = xs"
  by (simp add: erase_at_def)

lemma set_erase_at_subset: "set (erase_at i xs) \<subseteq> set xs"
  by (auto simp: erase_at_def dest: in_set_takeD in_set_dropD)

lemma sum_list_erase_at:
  fixes f :: "'a \<Rightarrow> int"
  assumes "i < length xs"
  shows "sum_list (map f (erase_at i xs)) = sum_list (map f xs) - f (xs ! i)"
proof -
  have "xs = take i xs @ xs ! i # drop (Suc i) xs"
    using assms by (rule id_take_nth_drop)
  then have "sum_list (map f xs) = sum_list (map f (take i xs @ xs ! i # drop (Suc i) xs))"
    by simp
  then show ?thesis by (simp add: erase_at_def)
qed

subsection \<open>Signed counts\<close>

text \<open>Sums over the members of a list that satisfy a test: the loops \<open>if (p(f)) count += g(f)\<close>.\<close>

definition count_where :: "('a \<Rightarrow> bool) \<Rightarrow> ('a \<Rightarrow> int) \<Rightarrow> 'a list \<Rightarrow> int" where
  "count_where p g xs = sum_list (map (\<lambda>x. if p x then g x else 0) xs)"

lemma count_where_Nil [simp]: "count_where p g [] = 0"
  by (simp add: count_where_def)

lemma count_where_Cons [simp]:
  "count_where p g (x # xs) = (if p x then g x else 0) + count_where p g xs"
  by (simp add: count_where_def)

lemma count_where_append [simp]:
  "count_where p g (xs @ ys) = count_where p g xs + count_where p g ys"
  by (simp add: count_where_def)

lemma count_where_erase_at:
  "i < length xs \<Longrightarrow>
   count_where p g (erase_at i xs) = count_where p g xs - (if p (xs ! i) then g (xs ! i) else 0)"
  by (simp add: count_where_def sum_list_erase_at)

lemma count_where_cong:
  "(\<And>x. x \<in> set xs \<Longrightarrow> p x = q x) \<Longrightarrow> count_where p g xs = count_where q g xs"
  by (induction xs) auto

lemma count_where_none: "(\<And>x. x \<in> set xs \<Longrightarrow> \<not> p x) \<Longrightarrow> count_where p g xs = 0"
  by (induction xs) auto

lemma count_where_erase_if_disjoint:
  "(\<And>x. x \<in> set xs \<Longrightarrow> p x \<Longrightarrow> \<not> q x) \<Longrightarrow> count_where p g (erase_if q xs) = count_where p g xs"
  by (induction xs) auto

lemma count_where_erase_if_all:
  "(\<And>x. x \<in> set xs \<Longrightarrow> p x \<Longrightarrow> q x) \<Longrightarrow> count_where p g (erase_if q xs) = 0"
  by (induction xs) auto

lemma count_where_split:
  "count_where p g xs = count_where (\<lambda>x. p x \<and> q x) g xs + count_where (\<lambda>x. p x \<and> \<not> q x) g xs"
  by (induction xs) auto

subsection \<open>Options\<close>

lemma not_None_Some: "x \<noteq> None \<Longrightarrow> \<exists>y. x = Some y"
  by simp

end
