(* ===== verification/Types.thy ===== *)
theory Types
  imports Prelude Complex_Main
begin

text \<open>
  The value types of \<open>src/share/types\<close>: event types, validity, modifier flags, usage pairs,
  momentary switch events (keys, consumer keys, pointing buttons, d-pad), pointing motions,
  mouse keys and the payloads of the virtual events. Constructors keep the source's names with
  a short prefix where two enumerations share a name.
\<close>

subsection \<open>Enumerations\<close>

datatype event_type = key_down | key_up | single

datatype validity = invalid | valid

datatype led_state = led_on | led_off

datatype device_state = seized | observed

datatype modifier_flag =
    mf_zero | mf_caps_lock
  | mf_left_control | mf_left_shift | mf_left_option | mf_left_command
  | mf_right_control | mf_right_shift | mf_right_option | mf_right_command
  | mf_fn | mf_end

datatype sticky_modifier_type = sm_on | sm_off | sm_toggle

text \<open>
  The driver's \<open>hid_report::modifier\<close> enumeration is named by the eight flags
  \<open>make_hid_report_modifier\<close> maps to it.
\<close>

datatype hid_report_modifier =
    hid_left_control | hid_left_shift | hid_left_option | hid_left_command
  | hid_right_control | hid_right_shift | hid_right_option | hid_right_command

fun make_hid_report_modifier :: "modifier_flag \<Rightarrow> hid_report_modifier option" where
  "make_hid_report_modifier mf_left_control = Some hid_left_control"
| "make_hid_report_modifier mf_left_shift = Some hid_left_shift"
| "make_hid_report_modifier mf_left_option = Some hid_left_option"
| "make_hid_report_modifier mf_left_command = Some hid_left_command"
| "make_hid_report_modifier mf_right_control = Some hid_right_control"
| "make_hid_report_modifier mf_right_shift = Some hid_right_shift"
| "make_hid_report_modifier mf_right_option = Some hid_right_option"
| "make_hid_report_modifier mf_right_command = Some hid_right_command"
| "make_hid_report_modifier _ = None"

fun get_modifier_flag_name :: "modifier_flag \<Rightarrow> string option" where
  "get_modifier_flag_name mf_zero = Some ''zero''"
| "get_modifier_flag_name mf_caps_lock = Some ''caps_lock''"
| "get_modifier_flag_name mf_left_control = Some ''left_control''"
| "get_modifier_flag_name mf_left_shift = Some ''left_shift''"
| "get_modifier_flag_name mf_left_option = Some ''left_option''"
| "get_modifier_flag_name mf_left_command = Some ''left_command''"
| "get_modifier_flag_name mf_right_control = Some ''right_control''"
| "get_modifier_flag_name mf_right_shift = Some ''right_shift''"
| "get_modifier_flag_name mf_right_option = Some ''right_option''"
| "get_modifier_flag_name mf_right_command = Some ''right_command''"
| "get_modifier_flag_name mf_fn = Some ''fn''"
| "get_modifier_flag_name mf_end = None"

text \<open>
  The loops \<open>for (i = zero + 1; i != end_; ++i)\<close> run over the ten real flags in the order of
  the enumeration; \<open>make_modifier_flags\<close> and \<open>scoped_modifier_flags\<close> list the same ten.
\<close>

definition all_modifier_flags :: "modifier_flag list" where
  "all_modifier_flags =
     [mf_caps_lock, mf_left_control, mf_left_shift, mf_left_option, mf_left_command,
      mf_right_control, mf_right_shift, mf_right_option, mf_right_command, mf_fn]"

lemma distinct_all_modifier_flags [simp]: "distinct all_modifier_flags"
  by (simp add: all_modifier_flags_def)

lemma set_all_modifier_flags: "set all_modifier_flags = UNIV - {mf_zero, mf_end}"
  unfolding all_modifier_flags_def
proof (rule set_eqI)
  fix m show "m \<in> set [mf_caps_lock, mf_left_control, mf_left_shift, mf_left_option,
      mf_left_command, mf_right_control, mf_right_shift, mf_right_option, mf_right_command, mf_fn]
      \<longleftrightarrow> m \<in> UNIV - {mf_zero, mf_end}"
    by (cases m) auto
qed

subsection \<open>HID usages\<close>

text \<open>The numbers of \<open>pqrs/hid/usage_page.hpp\<close> and \<open>pqrs/hid/usage.hpp\<close> the code names.\<close>

abbreviation (input) page_undefined :: usage_page where "page_undefined \<equiv> 0"
abbreviation (input) page_generic_desktop :: usage_page where "page_generic_desktop \<equiv> 1"
abbreviation (input) page_keyboard_or_keypad :: usage_page where "page_keyboard_or_keypad \<equiv> 7"
abbreviation (input) page_leds :: usage_page where "page_leds \<equiv> 8"
abbreviation (input) page_button :: usage_page where "page_button \<equiv> 9"
abbreviation (input) page_consumer :: usage_page where "page_consumer \<equiv> 12"
abbreviation (input) page_apple_vendor_keyboard :: usage_page where "page_apple_vendor_keyboard \<equiv> 65281"
abbreviation (input) page_apple_vendor_top_case :: usage_page where "page_apple_vendor_top_case \<equiv> 255"

abbreviation (input) usage_undefined :: usage where "usage_undefined \<equiv> 0"
abbreviation (input) usage_caps_lock :: usage where "usage_caps_lock \<equiv> 57"
abbreviation (input) usage_left_control :: usage where "usage_left_control \<equiv> 224"
abbreviation (input) usage_left_shift :: usage where "usage_left_shift \<equiv> 225"
abbreviation (input) usage_left_alt :: usage where "usage_left_alt \<equiv> 226"
abbreviation (input) usage_left_gui :: usage where "usage_left_gui \<equiv> 227"
abbreviation (input) usage_right_control :: usage where "usage_right_control \<equiv> 228"
abbreviation (input) usage_right_shift :: usage where "usage_right_shift \<equiv> 229"
abbreviation (input) usage_right_alt :: usage where "usage_right_alt \<equiv> 230"
abbreviation (input) usage_right_gui :: usage where "usage_right_gui \<equiv> 231"
abbreviation (input) usage_function :: usage where "usage_function \<equiv> 3"
abbreviation (input) usage_keyboard_fn :: usage where "usage_keyboard_fn \<equiv> 3"
abbreviation (input) usage_button_1 :: usage where "usage_button_1 \<equiv> 1"
abbreviation (input) usage_button_32 :: usage where "usage_button_32 \<equiv> 32"
abbreviation (input) usage_gd_x :: usage where "usage_gd_x \<equiv> 48"
abbreviation (input) usage_gd_y :: usage where "usage_gd_y \<equiv> 49"
abbreviation (input) usage_gd_wheel :: usage where "usage_gd_wheel \<equiv> 56"
abbreviation (input) usage_gd_hat_switch :: usage where "usage_gd_hat_switch \<equiv> 57"
abbreviation (input) usage_dpad_up :: usage where "usage_dpad_up \<equiv> 144"
abbreviation (input) usage_dpad_down :: usage where "usage_dpad_down \<equiv> 145"
abbreviation (input) usage_dpad_right :: usage where "usage_dpad_right \<equiv> 146"
abbreviation (input) usage_dpad_left :: usage where "usage_dpad_left \<equiv> 147"
abbreviation (input) usage_ac_pan :: usage where "usage_ac_pan \<equiv> 568"
abbreviation (input) usage_led_caps_lock :: usage where "usage_led_caps_lock \<equiv> 2"

datatype usage_pair = Usage_Pair (get_usage_page: usage_page) (get_usage: usage)

text \<open>The defaulted \<open>operator<=>\<close> compares the page first, then the usage.\<close>

instantiation usage_pair :: linorder
begin

definition less_eq_usage_pair :: "usage_pair \<Rightarrow> usage_pair \<Rightarrow> bool" where
  "less_eq_usage_pair a b \<longleftrightarrow>
     get_usage_page a < get_usage_page b
     \<or> get_usage_page a = get_usage_page b \<and> get_usage a \<le> get_usage b"

definition less_usage_pair :: "usage_pair \<Rightarrow> usage_pair \<Rightarrow> bool" where
  "less_usage_pair a b \<longleftrightarrow>
     get_usage_page a < get_usage_page b
     \<or> get_usage_page a = get_usage_page b \<and> get_usage a < get_usage b"

instance
  by standard (auto simp: less_eq_usage_pair_def less_usage_pair_def intro: usage_pair.expand)

end

subsection \<open>Momentary switch events\<close>

datatype momentary_switch_event = MSE (get_usage_pair: usage_pair)

instantiation momentary_switch_event :: linorder
begin

definition less_eq_momentary_switch_event ::
    "momentary_switch_event \<Rightarrow> momentary_switch_event \<Rightarrow> bool" where
  "less_eq_momentary_switch_event a b \<longleftrightarrow> get_usage_pair a \<le> get_usage_pair b"

definition less_momentary_switch_event ::
    "momentary_switch_event \<Rightarrow> momentary_switch_event \<Rightarrow> bool" where
  "less_momentary_switch_event a b \<longleftrightarrow> get_usage_pair a < get_usage_pair b"

instance
  by standard
     (auto simp: less_eq_momentary_switch_event_def less_momentary_switch_event_def
           intro: momentary_switch_event.expand)

end

definition mse :: "usage_page \<Rightarrow> usage \<Rightarrow> momentary_switch_event" where
  "mse page u = MSE (Usage_Pair page u)"

fun mse_of_modifier_flag :: "modifier_flag \<Rightarrow> momentary_switch_event" where
  "mse_of_modifier_flag mf_zero = mse page_undefined usage_undefined"
| "mse_of_modifier_flag mf_caps_lock = mse page_keyboard_or_keypad usage_caps_lock"
| "mse_of_modifier_flag mf_left_control = mse page_keyboard_or_keypad usage_left_control"
| "mse_of_modifier_flag mf_left_shift = mse page_keyboard_or_keypad usage_left_shift"
| "mse_of_modifier_flag mf_left_option = mse page_keyboard_or_keypad usage_left_alt"
| "mse_of_modifier_flag mf_left_command = mse page_keyboard_or_keypad usage_left_gui"
| "mse_of_modifier_flag mf_right_control = mse page_keyboard_or_keypad usage_right_control"
| "mse_of_modifier_flag mf_right_shift = mse page_keyboard_or_keypad usage_right_shift"
| "mse_of_modifier_flag mf_right_option = mse page_keyboard_or_keypad usage_right_alt"
| "mse_of_modifier_flag mf_right_command = mse page_keyboard_or_keypad usage_right_gui"
| "mse_of_modifier_flag mf_fn = mse page_apple_vendor_top_case usage_keyboard_fn"
| "mse_of_modifier_flag mf_end = mse page_undefined usage_undefined"

definition mse_page :: "momentary_switch_event \<Rightarrow> usage_page" where
  "mse_page e = get_usage_page (get_usage_pair e)"

definition mse_usage :: "momentary_switch_event \<Rightarrow> usage" where
  "mse_usage e = get_usage (get_usage_pair e)"

lemma mse_page_mse [simp]: "mse_page (mse p u) = p"
  by (simp add: mse_page_def mse_def)

lemma mse_usage_mse [simp]: "mse_usage (mse p u) = u"
  by (simp add: mse_usage_def mse_def)

lemma mse_eq_iff [simp]: "mse p u = mse p' u' \<longleftrightarrow> p = p' \<and> u = u'"
  by (simp add: mse_def)

lemma mse_collapse: "mse (mse_page e) (mse_usage e) = e"
  by (simp add: mse_def mse_page_def mse_usage_def)

definition make_modifier_flag :: "momentary_switch_event \<Rightarrow> modifier_flag option" where
  "make_modifier_flag e =
     (let p = mse_page e; u = mse_usage e in
      if p = page_keyboard_or_keypad then
        (if u = usage_left_control then Some mf_left_control
         else if u = usage_left_shift then Some mf_left_shift
         else if u = usage_left_alt then Some mf_left_option
         else if u = usage_left_gui then Some mf_left_command
         else if u = usage_right_control then Some mf_right_control
         else if u = usage_right_shift then Some mf_right_shift
         else if u = usage_right_alt then Some mf_right_option
         else if u = usage_right_gui then Some mf_right_command
         else None)
      else if p = page_apple_vendor_keyboard then
        (if u = usage_function then Some mf_fn else None)
      else if p = page_apple_vendor_top_case then
        (if u = usage_keyboard_fn then Some mf_fn else None)
      else None)"

definition mse_valid :: "momentary_switch_event \<Rightarrow> bool" where
  "mse_valid e \<longleftrightarrow> mse_page e \<noteq> page_undefined \<and> mse_usage e \<noteq> usage_undefined"

definition mse_is_modifier :: "momentary_switch_event \<Rightarrow> bool" where
  "mse_is_modifier e \<longleftrightarrow> make_modifier_flag e \<noteq> None"

definition mse_is_caps_lock :: "momentary_switch_event \<Rightarrow> bool" where
  "mse_is_caps_lock e \<longleftrightarrow> mse_page e = page_keyboard_or_keypad \<and> mse_usage e = usage_caps_lock"

definition mse_is_pointing_button :: "momentary_switch_event \<Rightarrow> bool" where
  "mse_is_pointing_button e \<longleftrightarrow> mse_page e = page_button"

definition interrupts_key_repeat :: "momentary_switch_event \<Rightarrow> bool" where
  "interrupts_key_repeat e \<longleftrightarrow>
     \<not> (\<not> mse_valid e \<or> mse_is_modifier e \<or> mse_is_caps_lock e \<or> mse_is_pointing_button e
        \<or> mse_page e = page_generic_desktop)"

lemmas mse_test_defs =
  mse_valid_def mse_is_modifier_def mse_is_caps_lock_def mse_is_pointing_button_def
  make_modifier_flag_def

lemma make_modifier_flag_of_modifier_flag:
  "make_modifier_flag (mse_of_modifier_flag m) =
     (if m \<in> {mf_zero, mf_caps_lock, mf_end} then None else Some m)"
  by (cases m) (simp_all add: make_modifier_flag_def Let_def)

lemma mse_is_modifier_of_modifier_flag [simp]:
  "mse_is_modifier (mse_of_modifier_flag m) \<longleftrightarrow> m \<notin> {mf_zero, mf_caps_lock, mf_end}"
  by (cases m) (simp_all add: mse_is_modifier_def make_modifier_flag_def Let_def)

lemma mse_valid_of_modifier_flag [simp]:
  "mse_valid (mse_of_modifier_flag m) \<longleftrightarrow> m \<notin> {mf_zero, mf_end}"
  by (cases m) (simp_all add: mse_valid_def)

lemma mse_is_caps_lock_of_modifier_flag [simp]:
  "mse_is_caps_lock (mse_of_modifier_flag m) \<longleftrightarrow> m = mf_caps_lock"
  by (cases m) (simp_all add: mse_is_caps_lock_def)

lemma mse_is_pointing_button_of_modifier_flag [simp]:
  "\<not> mse_is_pointing_button (mse_of_modifier_flag m)"
  by (cases m) (simp_all add: mse_is_pointing_button_def)

lemma mse_of_modifier_flag_inj:
  "m \<notin> {mf_zero, mf_end} \<Longrightarrow> mse_of_modifier_flag m = mse_of_modifier_flag m' \<longleftrightarrow> m = m'"
  by (cases m; cases m') simp_all

lemma make_modifier_flag_not_caps_lock: "make_modifier_flag e \<noteq> Some mf_caps_lock"
  by (simp add: make_modifier_flag_def Let_def)

lemma make_modifier_flag_range:
  "make_modifier_flag e = Some m \<Longrightarrow> m \<notin> {mf_zero, mf_caps_lock, mf_end}"
  by (auto simp: make_modifier_flag_def Let_def split: if_splits)

subsection \<open>Pointing motions and mouse keys\<close>

record pointing_motion =
  pm_x :: int
  pm_y :: int
  pm_vertical_wheel :: int
  pm_horizontal_wheel :: int

definition pm_is_zero :: "pointing_motion \<Rightarrow> bool" where
  "pm_is_zero m \<longleftrightarrow>
     pm_x m = 0 \<and> pm_y m = 0 \<and> pm_vertical_wheel m = 0 \<and> pm_horizontal_wheel m = 0"

record mouse_key =
  mk_x :: int
  mk_y :: int
  mk_vertical_wheel :: int
  mk_horizontal_wheel :: int
  mk_speed_multiplier :: rat

definition mouse_key_default :: mouse_key where
  "mouse_key_default =
     \<lparr>mk_x = 0, mk_y = 0, mk_vertical_wheel = 0, mk_horizontal_wheel = 0, mk_speed_multiplier = 1\<rparr>"

definition mk_is_zero :: "mouse_key \<Rightarrow> bool" where
  "mk_is_zero m \<longleftrightarrow>
     mk_x m = 0 \<and> mk_y m = 0 \<and> mk_vertical_wheel m = 0 \<and> mk_horizontal_wheel m = 0"

definition mk_is_speed_multiplier :: "mouse_key \<Rightarrow> bool" where
  "mk_is_speed_multiplier m \<longleftrightarrow> mk_is_zero m"

definition mk_invert_wheel :: "mouse_key \<Rightarrow> mouse_key" where
  "mk_invert_wheel m =
     m\<lparr>mk_vertical_wheel := - mk_vertical_wheel m, mk_horizontal_wheel := - mk_horizontal_wheel m\<rparr>"

subsection \<open>Payloads of the virtual events\<close>

record notification_message =
  nm_id :: string
  nm_text :: string

record virtual_hid_devices_state =
  virtual_hid_keyboard_ready :: bool
  virtual_hid_pointing_ready :: bool

end
