(* ===== verification/Scoped_Modifier_Flags.thy ===== *)
theory Scoped_Modifier_Flags
  imports Modifier_Flag_Manager
begin

text \<open>
  \<open>src/share/modifier_flag_manager/scoped_modifier_flags.hpp\<close>: the guard object that forces the
  modifier flags to a given set while it lives. The constructor pushes flags of device 0 until
  every flag has the wanted state and records them, the destructor pushes their inverses.

  The theory shows that the constructor's \<open>while\<close> loop ends, that the flags are exactly the
  requested ones afterwards, and that the destructor restores every counter, provided no
  \<open>increase_lock\<close> or \<open>decrease_lock\<close> entry is present; with such entries of two devices the
  constructor does not release the flag.
\<close>

subsection \<open>Constructor and destructor\<close>

type_synonym scoped_state = "active_modifier_flag list \<times> active_modifier_flag list"

text \<open>The pair is the manager's vector and \<open>scoped_active_modifier_flags_\<close>.\<close>

definition scoped_push :: "active_modifier_flag \<Rightarrow> scoped_state \<Rightarrow> scoped_state" where
  "scoped_push f s = (push_back_active_modifier_flag f (fst s), snd s @ [f])"

text \<open>\<open>while (!is_pressed(m))\<close> is not bounded in the code, so not returning is the value \<open>None\<close>.\<close>

partial_function (option) scoped_press :: "modifier_flag \<Rightarrow> scoped_state \<Rightarrow> scoped_state option" where
  "scoped_press m s =
     (if \<not> is_pressed m (fst s)
      then scoped_press m (scoped_push (make_active_modifier_flag increase m 0) s)
      else Some s)"

definition scoped_release :: "modifier_flag \<Rightarrow> scoped_state \<Rightarrow> scoped_state" where
  "scoped_release m s =
     foldl (\<lambda>s f. if amf_flag f = m
                   then scoped_push
                          (make_active_modifier_flag (get_inverse_type (amf_type f)) (amf_flag f) 0) s
                   else s)
       s (fst s)"

definition scoped_step ::
    "modifier_flag set \<Rightarrow> modifier_flag \<Rightarrow> scoped_state \<Rightarrow> scoped_state option" where
  "scoped_step flags m s =
     (if m \<in> flags then scoped_press m s
      else if is_pressed m (fst s) then Some (scoped_release m s) else Some s)"

fun scoped_loop ::
    "modifier_flag set \<Rightarrow> modifier_flag list \<Rightarrow> scoped_state \<Rightarrow> scoped_state option" where
  "scoped_loop flags [] s = Some s"
| "scoped_loop flags (m # ms) s =
     (case scoped_step flags m s of None \<Rightarrow> None | Some s' \<Rightarrow> scoped_loop flags ms s')"

definition scoped_modifier_flags ::
    "modifier_flag set \<Rightarrow> active_modifier_flag list \<Rightarrow> scoped_state option" where
  "scoped_modifier_flags flags fs = scoped_loop flags all_modifier_flags (fs, [])"

definition get_inverse_active_modifier_flags ::
    "active_modifier_flag list \<Rightarrow> active_modifier_flag list" where
  "get_inverse_active_modifier_flags scoped =
     map (\<lambda>f. make_active_modifier_flag (get_inverse_type (amf_type f)) (amf_flag f) (amf_device f))
       scoped"

definition scoped_modifier_flags_destructor :: "scoped_state \<Rightarrow> active_modifier_flag list" where
  "scoped_modifier_flags_destructor s =
     foldl (\<lambda>fs f. push_back_active_modifier_flag f fs) (fst s)
       (get_inverse_active_modifier_flags (snd s))"

subsection \<open>How a push acts on the tests\<close>

definition not_key_lock :: "active_modifier_flag \<Rightarrow> bool" where
  "not_key_lock f \<longleftrightarrow> amf_type f \<notin> {increase_lock, decrease_lock}"

definition no_key_locks :: "active_modifier_flag list \<Rightarrow> bool" where
  "no_key_locks fs \<longleftrightarrow> (\<forall>f\<in>set fs. not_key_lock f)"

lemma not_key_lock_cases:
  "not_key_lock f \<Longrightarrow> \<not> any_lock f \<or> amf_type f = decrease_led_lock \<or> amf_type f = increase_led_lock"
  by (cases "amf_type f") (simp_all add: not_key_lock_def any_lock_def)

lemma push_set:
  "pair_free fs \<Longrightarrow> set (push_back_active_modifier_flag f fs) \<subseteq> insert f (set fs)"
  using set_remove1_subset[of "inverse_flag f" fs]
    set_remove1_subset[of "inverse_flag f" "erase_if (\<lambda>g. g = f) fs"]
  by (cases "any_lock f"; cases "amf_type f = decrease_led_lock")
     (auto simp: push_not_lock push_lock push_decrease_led split: if_splits)

lemma no_key_locks_push:
  "mfm_inv fs \<Longrightarrow> no_key_locks fs \<Longrightarrow> not_key_lock f \<Longrightarrow>
   no_key_locks (push_back_active_modifier_flag f fs)"
  using push_set[OF mfm_inv_pair_free, of fs f] by (auto simp: no_key_locks_def)

lemma filter_erase_if: "filter p (erase_if q xs) = erase_if q (filter p xs)"
  by (induction xs) auto

lemma filter_push_other:
  assumes "pair_free fs" "amf_flag f \<noteq> m"
  shows "filter (\<lambda>g. amf_flag g = m) (push_back_active_modifier_flag f fs) =
    filter (\<lambda>g. amf_flag g = m) fs"
proof -
  have e: "filter (\<lambda>g. amf_flag g = m) (erase_if (\<lambda>g. g = f') fs) = filter (\<lambda>g. amf_flag g = m) fs"
    if "amf_flag f' = amf_flag f" for f'
    using assms(2) that by (simp add: filter_erase_if) (rule erase_if_none, auto)
  show ?thesis
    using assms
    by (cases "any_lock f"; cases "amf_type f = decrease_led_lock")
       (auto simp: push_not_lock push_lock push_decrease_led filter_remove1 remove1_idem e)
qed

lemma is_pressed_filter_cong:
  assumes "filter (\<lambda>g. amf_flag g = m) fs = filter (\<lambda>g. amf_flag g = m) gs"
  shows "is_pressed m fs = is_pressed m gs"
proof -
  have "is_pressed_loop m hs acc = is_pressed_loop m (filter (\<lambda>g. amf_flag g = m) hs) acc" for hs acc
    by (induction hs arbitrary: acc) auto
  from this[of fs] this[of gs] show ?thesis by (simp add: is_pressed_def assms)
qed

lemma is_pressed_push_other:
  "pair_free fs \<Longrightarrow> amf_flag f \<noteq> m \<Longrightarrow>
   is_pressed m (push_back_active_modifier_flag f fs) = is_pressed m fs"
  by (rule is_pressed_filter_cong) (rule filter_push_other)

lemma nonled_count_erase_led:
  "led_lock f \<Longrightarrow> nonled_count m (erase_if (\<lambda>g. g = f) fs) = nonled_count m fs"
  by (auto simp: nonled_count_def intro: count_where_erase_if_disjoint)

lemma nonled_count_push:
  assumes inv: "mfm_inv fs" and f: "not_key_lock f"
  shows "nonled_count m (push_back_active_modifier_flag f fs) =
    nonled_count m fs + (if amf_flag f = m \<and> \<not> led_lock f then get_count f else 0)"
proof -
  note pf = mfm_inv_pair_free[OF inv]
  consider "\<not> any_lock f" | "amf_type f = decrease_led_lock" | "amf_type f = increase_led_lock"
    using not_key_lock_cases[OF f] by blast
  then show ?thesis
  proof cases
    case 1
    then have "\<not> led_lock f" using led_lock_any_lock by blast
    then show ?thesis
      by (simp add: push_not_lock[OF pf 1] nonled_count_def count_where_remove1)
  next
    case 2
    then have "led_lock f" by (simp add: led_lock_def)
    then show ?thesis using 2 by (simp add: push_decrease_led nonled_count_erase_led)
  next
    case 3
    then have l: "led_lock f" "any_lock f" by (simp_all add: led_lock_def any_lock_def)
    have "inverse_flag f \<notin> set fs"
      using mfm_inv_no_decrease_led[OF inv, of "inverse_flag f"] 3 by auto
    then have "nonled_count m (push_back_active_modifier_flag f fs) =
        nonled_count m (erase_if (\<lambda>g. g = f) fs @ [f])"
      using 3 l by (simp add: push_lock[OF pf])
    also have "\<dots> = nonled_count m fs"
      using l nonled_count_erase_led[of f m fs] by (simp add: nonled_count_def)
    finally show ?thesis using l by simp
  qed
qed

subsection \<open>Restorable states\<close>

text \<open>
  The state reached from the counters \<open>c\<close> by pushing the recorded flags: a counter that is not
  of the LED kind moved by the sum of the recorded flags, an LED counter was 1 and is 0 when its
  decrease is recorded, and unchanged otherwise.
\<close>

definition restorable :: "amf_table \<Rightarrow> scoped_state \<Rightarrow> bool" where
  "restorable c s \<longleftrightarrow>
     mfm_inv (fst s) \<and> no_key_locks (fst s)
     \<and> (\<forall>f\<in>set (snd s). wf_amf f \<and> not_key_lock f \<and> amf_type f \<noteq> increase_led_lock)
     \<and> (\<forall>f\<in>set (snd s). amf_type f = decrease_led_lock \<longrightarrow> c (amf_key f) = 1)
     \<and> (\<forall>key. fst key \<noteq> led_kind \<longrightarrow> amf_abs (fst s) key = c key + amf_abs (snd s) key)
     \<and> (\<forall>key. fst key = led_kind \<longrightarrow>
          amf_abs (fst s) key = (if key \<in> amf_key ` set (snd s) then 0 else c key))"

lemma restorable_push:
  assumes r: "restorable c s" and f: "wf_amf f" "not_key_lock f" "amf_type f \<noteq> increase_led_lock"
    and led: "amf_type f = decrease_led_lock \<Longrightarrow> c (amf_key f) = 1"
  shows "restorable c (scoped_push f s)"
proof -
  have inv: "mfm_inv (fst s)" using r by (simp add: restorable_def)
  have abs: "amf_abs (push_back_active_modifier_flag f (fst s)) = table_push f (amf_abs (fst s))"
    using inv by (rule amf_abs_push)
  have push: "table_push f d = d(amf_key f := (if led_lock f then 0 else d (amf_key f) + get_count f))"
    for d using f by (cases "amf_type f") (auto simp: table_push_def get_count_def led_lock_def not_key_lock_def)
  show ?thesis
    unfolding restorable_def scoped_push_def fst_conv snd_conv
  proof (intro conjI allI impI)
    show "mfm_inv (push_back_active_modifier_flag f (fst s))" using inv f(1) by (rule mfm_inv_push)
    show "no_key_locks (push_back_active_modifier_flag f (fst s))"
      using r f(2) by (simp add: restorable_def no_key_locks_push)
  next
    fix key :: amf_key assume "fst key \<noteq> led_kind"
    then show "amf_abs (push_back_active_modifier_flag f (fst s)) key = c key + amf_abs (snd s @ [f]) key"
      using r by (auto simp: abs push restorable_def amf_abs_snoc led_lock_key simp del: split_paired_All)
  next
    fix key :: amf_key assume "fst key = led_kind"
    then show "amf_abs (push_back_active_modifier_flag f (fst s)) key =
        (if key \<in> amf_key ` set (snd s @ [f]) then 0 else c key)"
      using r by (auto simp: abs push restorable_def led_lock_key simp del: split_paired_All)
  qed (use r f led in \<open>auto simp: restorable_def\<close>)
qed

lemma restorable_nonled_pushes:
  assumes "restorable c s" "wf_amf f" "not_key_lock f" "\<not> led_lock f"
  shows "restorable c (scoped_push f s)"
  using assms by (intro restorable_push) (auto simp: led_lock_def)

lemma restorable_initial:
  "mfm_inv fs \<Longrightarrow> no_key_locks fs \<Longrightarrow> restorable (amf_abs fs) (fs, [])"
  by (simp add: restorable_def amf_abs_Nil)

subsection \<open>The constructor reaches the requested flags\<close>

lemma make_increase:
  "not_key_lock (make_active_modifier_flag increase m d)"
  "\<not> led_lock (make_active_modifier_flag increase m d)"
  "amf_flag (make_active_modifier_flag t m d) = m"
  "amf_type (make_active_modifier_flag t m d) = t"
  "get_count (make_active_modifier_flag increase m d) = 1"
  by (simp_all add: make_active_modifier_flag_def not_key_lock_def led_lock_def get_count_def)

lemma scoped_press_returns:
  assumes "restorable c s"
  shows "\<exists>s'. scoped_press m s = Some s' \<and> restorable c s' \<and> is_pressed m (fst s') \<and>
    (\<forall>m'. m' \<noteq> m \<longrightarrow> is_pressed m' (fst s') = is_pressed m' (fst s))"
  using assms
proof (induction "nat (1 - nonled_count m (fst s))" arbitrary: s rule: less_induct)
  case less
  show ?case
  proof (cases "is_pressed m (fst s)")
    case True
    then show ?thesis using less.prems by (subst scoped_press.simps) simp
  next
    case False
    let ?f = "make_active_modifier_flag increase m 0"
    let ?s = "scoped_push ?f s"
    have inv: "mfm_inv (fst s)" using less.prems by (simp add: restorable_def)
    have r: "restorable c ?s"
      using less.prems by (intro restorable_nonled_pushes) (simp_all add: make_increase)
    have "nonled_count m (fst ?s) = nonled_count m (fst s) + 1"
      by (simp add: scoped_push_def nonled_count_push[OF inv] make_increase)
    moreover have "nonled_count m (fst s) \<le> 0"
      using False nonled_count_pressed[of m "fst s"] by linarith
    ultimately have "nat (1 - nonled_count m (fst ?s)) < nat (1 - nonled_count m (fst s))"
      by simp
    from less.hyps[OF this r] obtain s' where s': "scoped_press m ?s = Some s'" "restorable c s'"
        "is_pressed m (fst s')" "\<forall>m'. m' \<noteq> m \<longrightarrow> is_pressed m' (fst s') = is_pressed m' (fst ?s)"
      by blast
    have "scoped_press m s = Some s'"
      using False s'(1) by (subst scoped_press.simps) simp
    moreover have "is_pressed m' (fst ?s) = is_pressed m' (fst s)" if "m' \<noteq> m" for m'
      using that by (simp add: scoped_push_def is_pressed_push_other[OF mfm_inv_pair_free[OF inv]] make_increase)
    ultimately show ?thesis using s' by auto
  qed
qed

definition release_flag :: "active_modifier_flag \<Rightarrow> active_modifier_flag" where
  "release_flag f = make_active_modifier_flag (get_inverse_type (amf_type f)) (amf_flag f) 0"

lemma release_flag_simps [simp]:
  "amf_flag (release_flag f) = amf_flag f" "wf_amf (release_flag f)"
  "amf_type (release_flag f) = get_inverse_type (amf_type f)"
  "led_lock (release_flag f) = led_lock f" "not_key_lock (release_flag f) = not_key_lock f"
  "get_count (release_flag f) = - get_count f"
  by (cases "amf_type f"; simp add: release_flag_def make_active_modifier_flag_def led_lock_def
        not_key_lock_def get_count_def wf_amf_def)+

lemma release_flag_led_key:
  "mfm_inv fs \<Longrightarrow> f \<in> set fs \<Longrightarrow> led_lock f \<Longrightarrow> amf_key (release_flag f) = amf_key f"
  by (auto simp: mfm_inv_def release_flag_def amf_key_def make_active_modifier_flag_def)

lemma scoped_release_unfold:
  "scoped_release m s =
     foldl (\<lambda>s f. if amf_flag f = m then scoped_push (release_flag f) s else s) s (fst s)"
  unfolding scoped_release_def release_flag_def ..

text \<open>The loop over the copy, for any suffix \<open>fs\<close> of it and any state.\<close>

lemma scoped_release_loop:
  fixes m :: modifier_flag
  defines "step \<equiv> \<lambda>s f. if amf_flag f = m then scoped_push (release_flag f) s else s"
  assumes "restorable c s" "no_key_locks fs"
    and "\<forall>f\<in>set fs. led_lock f \<longrightarrow> amf_type f = increase_led_lock \<and> amf_device f = 0"
    and "\<forall>f\<in>set fs. led_lock f \<and> amf_flag f = m \<longrightarrow> c (amf_key f) = 1"
  shows "restorable c (foldl step s fs) \<and>
    nonled_count m (fst (foldl step s fs)) = nonled_count m (fst s) - nonled_count m fs \<and>
    (\<forall>m'. m' \<noteq> m \<longrightarrow> is_pressed m' (fst (foldl step s fs)) = is_pressed m' (fst s)) \<and>
    amf_abs (fst (foldl step s fs)) (led_kind, m, 0) =
      (if \<exists>f\<in>set fs. amf_flag f = m \<and> led_lock f then 0 else amf_abs (fst s) (led_kind, m, 0))"
  using assms(2-)
proof (induction fs arbitrary: s)
  case Nil
  then show ?case by (simp add: nonled_count_def)
next
  case (Cons f fs)
  have inv: "mfm_inv (fst s)" using Cons.prems by (simp add: restorable_def)
  have nk: "not_key_lock f" "no_key_locks fs"
    using Cons.prems by (simp_all add: no_key_locks_def)
  have nd: "amf_type f \<noteq> decrease_led_lock"
    using Cons.prems by (auto simp: led_lock_def)
  have key: "amf_key (release_flag f) = (led_kind, m, 0)"
    if "led_lock f" "amf_flag f = m"
    using that Cons.prems by (simp add: amf_key_def release_flag_def make_active_modifier_flag_def)
  have fkey: "amf_key f = (led_kind, m, 0)" if "led_lock f" "amf_flag f = m"
    using that Cons.prems by (simp add: amf_key_def)
  have r: "restorable c (step s f)"
  proof (cases "amf_flag f = m")
    case True
    show ?thesis
      unfolding step_def if_P[OF True]
    proof (rule restorable_push)
      show "restorable c s" by (rule Cons.prems)
      show "amf_type (release_flag f) \<noteq> increase_led_lock"
        using nd by (cases "amf_type f") auto
      assume "amf_type (release_flag f) = decrease_led_lock"
      then have l: "led_lock f" by (cases "amf_type f") (simp_all add: led_lock_def)
      then show "c (amf_key (release_flag f)) = 1"
        using Cons.prems True key[OF l True] fkey[OF l True] by auto
    qed (use nk in simp_all)
  next
    case False
    then show ?thesis using Cons.prems by (simp add: step_def)
  qed
  have nc: "nonled_count m (fst (step s f)) =
      nonled_count m (fst s) - (if amf_flag f = m \<and> \<not> led_lock f then get_count f else 0)"
    using nk by (simp add: step_def scoped_push_def nonled_count_push[OF inv])
  have other: "is_pressed m' (fst (step s f)) = is_pressed m' (fst s)" if "m' \<noteq> m" for m'
    using that by (auto simp: step_def scoped_push_def is_pressed_push_other[OF mfm_inv_pair_free[OF inv]])
  have led: "amf_abs (fst (step s f)) (led_kind, m, 0) =
      (if amf_flag f = m \<and> led_lock f then 0 else amf_abs (fst s) (led_kind, m, 0))"
  proof (cases "amf_flag f = m \<and> led_lock f")
    case True
    then have "amf_type f = increase_led_lock" using Cons.prems by simp
    then show ?thesis
      using True key by (simp add: step_def scoped_push_def amf_abs_push[OF inv] table_push_def)
  next
    case False
    then have "amf_flag f = m \<Longrightarrow> amf_key (release_flag f) \<noteq> (led_kind, m, 0)"
      using led_lock_key[of "release_flag f"] by auto
    then show ?thesis
      using False by (auto simp: step_def scoped_push_def amf_abs_push[OF inv] table_push_def)
  qed
  have prems: "\<forall>f\<in>set fs. led_lock f \<longrightarrow> amf_type f = increase_led_lock \<and> amf_device f = 0"
      "\<forall>f\<in>set fs. led_lock f \<and> amf_flag f = m \<longrightarrow> c (amf_key f) = 1"
    using Cons.prems by simp_all
  note IH = Cons.IH[OF r nk(2) prems]
  show ?case using IH nc other led by (auto simp: nonled_count_def)
qed

lemma scoped_release_releases:
  assumes r: "restorable c s"
  shows "restorable c (scoped_release m s) \<and> \<not> is_pressed m (fst (scoped_release m s)) \<and>
    (\<forall>m'. m' \<noteq> m \<longrightarrow> is_pressed m' (fst (scoped_release m s)) = is_pressed m' (fst s))"
proof -
  let ?s' = "scoped_release m s"
  have inv: "mfm_inv (fst s)" and nk: "no_key_locks (fst s)"
    using r by (simp_all add: restorable_def)
  have led_key: "amf_key f = (led_kind, amf_flag f, 0)" "amf_type f = increase_led_lock"
    if "f \<in> set (fst s)" "led_lock f" for f
    using inv that by (auto simp: mfm_inv_def amf_key_def)
  have c1: "c (amf_key f) = 1" if "f \<in> set (fst s)" "led_lock f" for f
  proof -
    have "amf_abs (fst s) (amf_key f) = 1"
      using amf_abs_present[OF mfm_inv_pair_free[OF inv] that(1)] led_key[OF that]
        mfm_inv_lock_count[OF inv led_lock_any_lock[OF that(2)]] that
      by (simp add: get_count_def)
    then show ?thesis using r led_key[OF that] by (auto simp: restorable_def split: if_splits)
  qed
  have loop: "restorable c ?s' \<and>
    nonled_count m (fst ?s') = nonled_count m (fst s) - nonled_count m (fst s) \<and>
    (\<forall>m'. m' \<noteq> m \<longrightarrow> is_pressed m' (fst ?s') = is_pressed m' (fst s)) \<and>
    amf_abs (fst ?s') (led_kind, m, 0) =
      (if \<exists>f\<in>set (fst s). amf_flag f = m \<and> led_lock f then 0 else amf_abs (fst s) (led_kind, m, 0))"
    unfolding scoped_release_unfold
    by (rule scoped_release_loop) (use r nk c1 inv in \<open>auto simp: mfm_inv_def\<close>)
  have "amf_abs (fst s) (led_kind, m, 0) = 0"
    if "\<not> (\<exists>f\<in>set (fst s). amf_flag f = m \<and> led_lock f)"
    using amf_abs_nonzero_iff[OF mfm_inv_pair_free[OF inv], of "(led_kind, m, 0)"] that
    by (auto simp: amf_key_def led_lock_key)
  then have led: "amf_abs (fst ?s') (led_kind, m, 0) = 0"
    using loop by auto
  have "mfm_inv (fst ?s')" using loop by (simp add: restorable_def)
  then have "\<not> is_pressed m (fst ?s')"
    using loop led by (simp add: is_pressed_eq led_count_eq)
  then show ?thesis using loop by simp
qed

lemma scoped_step_reaches:
  assumes "restorable c s"
  shows "\<exists>s'. scoped_step flags m s = Some s' \<and> restorable c s' \<and>
    is_pressed m (fst s') = (m \<in> flags) \<and>
    (\<forall>m'. m' \<noteq> m \<longrightarrow> is_pressed m' (fst s') = is_pressed m' (fst s))"
proof (cases "m \<in> flags")
  case True
  then show ?thesis using scoped_press_returns[OF assms, of m] by (simp add: scoped_step_def)
next
  case False
  then show ?thesis using scoped_release_releases[OF assms, of m] assms
    by (cases "is_pressed m (fst s)") (simp_all add: scoped_step_def del: split_paired_Ex)
qed

lemma scoped_loop_reaches:
  assumes "restorable c s" "distinct ms"
  shows "\<exists>s'. scoped_loop flags ms s = Some s' \<and> restorable c s' \<and>
    (\<forall>m. is_pressed m (fst s') = (if m \<in> set ms then m \<in> flags else is_pressed m (fst s)))"
  using assms
proof (induction ms arbitrary: s)
  case Nil then show ?case by simp
next
  case (Cons m ms)
  obtain s1 where s1: "scoped_step flags m s = Some s1" "restorable c s1"
      "is_pressed m (fst s1) = (m \<in> flags)"
      "\<forall>m'. m' \<noteq> m \<longrightarrow> is_pressed m' (fst s1) = is_pressed m' (fst s)"
    using scoped_step_reaches[OF Cons.prems(1)] by blast
  from Cons.IH[OF s1(2)] Cons.prems(2) obtain s' where
      "scoped_loop flags ms s1 = Some s'" "restorable c s'"
      "\<forall>m. is_pressed m (fst s') = (if m \<in> set ms then m \<in> flags else is_pressed m (fst s1))"
    by auto
  then show ?case using s1 Cons.prems(2) by auto
qed

lemma scoped_modifier_flags_reaches:
  assumes "mfm_inv fs" "no_key_locks fs"
  shows "\<exists>s. scoped_modifier_flags flags fs = Some s \<and> restorable (amf_abs fs) s \<and>
    (\<forall>m. m \<in> set all_modifier_flags \<longrightarrow> is_pressed m (fst s) = (m \<in> flags))"
proof -
  obtain s where "scoped_loop flags all_modifier_flags (fs, []) = Some s"
      "restorable (amf_abs fs) s"
      "\<forall>m. is_pressed m (fst s) = (if m \<in> set all_modifier_flags then m \<in> flags
         else is_pressed m (fst (fs, [] :: active_modifier_flag list)))"
    using scoped_loop_reaches[OF restorable_initial[OF assms] distinct_all_modifier_flags, of flags]
    by (elim exE conjE) (rule that)
  then show ?thesis by (simp add: scoped_modifier_flags_def)
qed

subsection \<open>The destructor restores the counters\<close>

lemma make_inverse_flag:
  "wf_amf f \<Longrightarrow>
   make_active_modifier_flag (get_inverse_type (amf_type f)) (amf_flag f) (amf_device f) = inverse_flag f"
  by (cases "amf_type f")
     (simp_all add: make_active_modifier_flag_def inverse_flag_def wf_amf_def led_lock_def)

lemma get_inverse_eq:
  "\<forall>f\<in>set fs. wf_amf f \<Longrightarrow> get_inverse_active_modifier_flags fs = map inverse_flag fs"
  by (simp add: get_inverse_active_modifier_flags_def make_inverse_flag)

lemma restore_pushes:
  assumes "mfm_inv fs"
    and "\<forall>f\<in>set sc. wf_amf f \<and> not_key_lock f \<and> amf_type f \<noteq> increase_led_lock"
  shows "mfm_inv (foldl (\<lambda>fs f. push_back_active_modifier_flag f fs) fs (map inverse_flag sc)) \<and>
    amf_abs (foldl (\<lambda>fs f. push_back_active_modifier_flag f fs) fs (map inverse_flag sc)) key =
      (if fst key = led_kind then (if key \<in> amf_key ` set sc then 1 else amf_abs fs key)
       else amf_abs fs key - amf_abs sc key)"
  using assms
proof (induction sc arbitrary: fs)
  case Nil then show ?case by (simp add: amf_abs_Nil)
next
  case (Cons f sc)
  let ?fs = "push_back_active_modifier_flag (inverse_flag f) fs"
  have inv: "mfm_inv ?fs" using Cons.prems by (simp add: mfm_inv_push)
  have "amf_abs ?fs = (amf_abs fs)(amf_key f :=
      (if led_lock f then 1 else amf_abs fs (amf_key f) - get_count f))"
    using Cons.prems
    by (cases "amf_type f")
       (auto simp: amf_abs_push table_push_def led_lock_def not_key_lock_def get_count_def)
  then show ?case
    using Cons.IH[OF inv] Cons.prems by (auto simp: led_lock_key amf_abs_def)
qed

lemma scoped_destructor_restores:
  assumes r: "restorable c s"
  shows "mfm_inv (scoped_modifier_flags_destructor s) \<and> amf_abs (scoped_modifier_flags_destructor s) = c"
proof -
  have sc: "\<forall>f\<in>set (snd s). wf_amf f \<and> not_key_lock f \<and> amf_type f \<noteq> increase_led_lock"
    and inv: "mfm_inv (fst s)"
    using r by (simp_all add: restorable_def)
  have eq: "scoped_modifier_flags_destructor s =
      foldl (\<lambda>fs f. push_back_active_modifier_flag f fs) (fst s) (map inverse_flag (snd s))"
    using sc by (simp add: scoped_modifier_flags_destructor_def get_inverse_eq)
  have led: "c (amf_key f) = 1" if "f \<in> set (snd s)" "fst (amf_key f) = led_kind" for f
  proof -
    have "amf_type f = decrease_led_lock"
      using that sc by (cases "amf_type f") (auto simp: amf_key_def)
    then show ?thesis using r that by (simp add: restorable_def)
  qed
  have "amf_abs (scoped_modifier_flags_destructor s) key = c key" for key
    using restore_pushes[OF inv sc, of key] r led
    by (auto simp: eq restorable_def simp del: split_paired_All)
  then show ?thesis using restore_pushes[OF inv sc] by (simp add: eq fun_eq_iff)
qed

subsection \<open>Properties\<close>

text \<open>
  C9. For a manager in any reachable state without key lock entries the constructor of
  \<open>scoped_modifier_flags\<close> returns (its \<open>while\<close> loop ends), each of the ten modifier flags is then
  pressed exactly when it was requested, and the destructor restores the pressed state of every
  modifier flag.
\<close>

theorem scoped_modifier_flags_sets_and_restores:
  assumes "fs = foldl mfm_step [] ops" "no_key_locks fs"
  shows "\<exists>s. scoped_modifier_flags flags fs = Some s
    \<and> (\<forall>m. m \<in> set all_modifier_flags \<longrightarrow> is_pressed m (fst s) = (m \<in> flags))
    \<and> (\<forall>m. is_pressed m (scoped_modifier_flags_destructor s) = is_pressed m fs)"
proof -
  have inv: "mfm_inv fs" using mfm_run_refines[of "[]" ops] assms(1) by simp
  from scoped_modifier_flags_reaches[OF inv assms(2), of flags] obtain s where
      s: "scoped_modifier_flags flags fs = Some s" "restorable (amf_abs fs) s"
      "\<forall>m. m \<in> set all_modifier_flags \<longrightarrow> is_pressed m (fst s) = (m \<in> flags)"
    by blast
  then show ?thesis
    using scoped_destructor_restores[OF s(2)] inv by (auto simp: is_pressed_table)
qed

theorem scoped_modifier_flags_sets_and_restores_witness:
  "let fs = foldl mfm_step []
       [Push_back increase mf_left_shift 1, Push_back decrease mf_fn 2,
        Push_back increase_led_lock mf_caps_lock 1] in
   \<exists>s. scoped_modifier_flags {mf_fn} fs = Some s
    \<and> (\<forall>m. m \<in> set all_modifier_flags \<longrightarrow> is_pressed m (fst s) = (m \<in> {mf_fn}))
    \<and> (\<forall>m. is_pressed m (scoped_modifier_flags_destructor s) = is_pressed m fs)"
  unfolding Let_def
proof (rule scoped_modifier_flags_sets_and_restores[OF refl])
  show "no_key_locks (foldl mfm_step []
       [Push_back increase mf_left_shift 1, Push_back decrease mf_fn 2,
        Push_back increase_led_lock mf_caps_lock 1])"
    by code_simp
qed

text \<open>
  The proviso is needed: with \<open>increase_lock\<close> entries of two devices the constructor leaves
  the flag pressed although it was asked to release it, because both inverses are pushed for
  device 0 and the second erases the first.
\<close>

theorem scoped_modifier_flags_keeps_two_locks:
  "\<exists>s. scoped_modifier_flags {}
       (foldl mfm_step [] [Push_back increase_lock mf_fn 1, Push_back increase_lock mf_fn 2]) = Some s
    \<and> is_pressed mf_fn (fst s)"
proof -
  let ?fs = "foldl mfm_step [] [Push_back increase_lock mf_fn 1, Push_back increase_lock mf_fn 2]"
  have "scoped_modifier_flags {} ?fs = Some (foldl (\<lambda>s m. scoped_release m s) (?fs, []) [mf_fn])"
    by code_simp
  moreover have "is_pressed mf_fn (fst (foldl (\<lambda>s m. scoped_release m s) (?fs, []) [mf_fn]))"
    by code_simp
  ultimately show ?thesis by blast
qed

end
