(* ===== verification/Pointing_Button_Manager.thy ===== *)
theory Pointing_Button_Manager
  imports Types
begin

text \<open>
  \<open>src/share/pointing_button_manager.hpp\<close>. The state is the vector \<open>active_pointing_buttons_\<close>.
  A press appends an entry; a release erases every entry of the button, whatever device pressed
  it. The theory shows that the vector implements a set of (button, device) pairs and that the
  HID report holds exactly the pressed buttons 1 to 32.
\<close>

subsection \<open>active_pointing_button\<close>

datatype apb_type = apb_increase | apb_decrease

record active_pointing_button =
  apb_type :: apb_type
  apb_usage_pair :: usage_pair
  apb_device :: device_id

fun apb_inverse_type :: "apb_type \<Rightarrow> apb_type" where
  "apb_inverse_type apb_increase = apb_decrease"
| "apb_inverse_type apb_decrease = apb_increase"

definition apb_count :: "active_pointing_button \<Rightarrow> int" where
  "apb_count b = (if apb_type b = apb_increase then 1 else -1)"

definition apb_is_paired :: "active_pointing_button \<Rightarrow> active_pointing_button \<Rightarrow> bool" where
  "apb_is_paired a b \<longleftrightarrow>
     apb_type a = apb_inverse_type (apb_type b) \<and> apb_usage_pair a = apb_usage_pair b"

subsection \<open>The manager's operations\<close>

definition push_back_active_pointing_button ::
    "active_pointing_button \<Rightarrow> active_pointing_button list \<Rightarrow> active_pointing_button list" where
  "push_back_active_pointing_button b bs =
     (if get_usage (apb_usage_pair b) = usage_undefined then bs
      else case apb_type b of
             apb_increase \<Rightarrow> bs @ [b]
           | apb_decrease \<Rightarrow> erase_if (\<lambda>a. apb_is_paired a b) bs)"

definition erase_all_active_pointing_buttons ::
    "device_id \<Rightarrow> active_pointing_button list \<Rightarrow> active_pointing_button list" where
  "erase_all_active_pointing_buttons d bs = erase_if (\<lambda>b. apb_device b = d) bs"

definition erase_all_active_pointing_buttons_except_lock ::
    "device_id \<Rightarrow> active_pointing_button list \<Rightarrow> active_pointing_button list" where
  "erase_all_active_pointing_buttons_except_lock d bs = erase_all_active_pointing_buttons d bs"

definition pbm_reset :: "active_pointing_button list \<Rightarrow> active_pointing_button list" where
  "pbm_reset bs = []"

definition pbm_is_pressed :: "usage_pair \<Rightarrow> active_pointing_button list \<Rightarrow> bool" where
  "pbm_is_pressed p bs \<longleftrightarrow>
     foldl (\<lambda>count b. if apb_usage_pair b = p then count + apb_count b else count) 0 bs > 0"

text \<open>
  The report's \<open>buttons\<close> type belongs to the driver package: its empty value and \<open>insert\<close> are
  parameters. The loop runs while the usage is at most button 32.
\<close>

function hid_report_buttons_from ::
    "(usage \<Rightarrow> 'r \<Rightarrow> 'r) \<Rightarrow> active_pointing_button list \<Rightarrow> usage \<Rightarrow> 'r \<Rightarrow> 'r" where
  "hid_report_buttons_from insert_button bs u r =
     (if u \<le> usage_button_32
      then hid_report_buttons_from insert_button bs (u + 1)
             (if pbm_is_pressed (Usage_Pair page_button u) bs then insert_button u r else r)
      else r)"
  by pat_completeness auto
termination by (relation "measure (\<lambda>(_, _, u, _). nat (33 - u))") auto

declare hid_report_buttons_from.simps [simp del]

definition make_hid_report_buttons ::
    "'r \<Rightarrow> (usage \<Rightarrow> 'r \<Rightarrow> 'r) \<Rightarrow> active_pointing_button list \<Rightarrow> 'r" where
  "make_hid_report_buttons empty_buttons insert_button bs =
     hid_report_buttons_from insert_button bs usage_button_1 empty_buttons"

subsection \<open>The vector implements a set of pressed buttons\<close>

definition pbm_inv :: "active_pointing_button list \<Rightarrow> bool" where
  "pbm_inv bs \<longleftrightarrow> (\<forall>b\<in>set bs. apb_type b = apb_increase)"

definition pbm_abs :: "active_pointing_button list \<Rightarrow> (usage_pair \<times> device_id) set" where
  "pbm_abs bs = (\<lambda>b. (apb_usage_pair b, apb_device b)) ` set bs"

datatype pbm_op =
    Pbm_push apb_type usage_pair device_id
  | Pbm_erase_all device_id
  | Pbm_erase_all_except_lock device_id
  | Pbm_reset

fun pbm_step :: "active_pointing_button list \<Rightarrow> pbm_op \<Rightarrow> active_pointing_button list" where
  "pbm_step bs (Pbm_push t p d) =
     push_back_active_pointing_button \<lparr>apb_type = t, apb_usage_pair = p, apb_device = d\<rparr> bs"
| "pbm_step bs (Pbm_erase_all d) = erase_all_active_pointing_buttons d bs"
| "pbm_step bs (Pbm_erase_all_except_lock d) = erase_all_active_pointing_buttons_except_lock d bs"
| "pbm_step bs Pbm_reset = pbm_reset bs"

fun button_set_step ::
    "(usage_pair \<times> device_id) set \<Rightarrow> pbm_op \<Rightarrow> (usage_pair \<times> device_id) set" where
  "button_set_step S (Pbm_push apb_increase p d) =
     (if get_usage p = usage_undefined then S else insert (p, d) S)"
| "button_set_step S (Pbm_push apb_decrease p d) =
     (if get_usage p = usage_undefined then S else {(p', d') \<in> S. p' \<noteq> p})"
| "button_set_step S (Pbm_erase_all d) = {(p', d') \<in> S. d' \<noteq> d}"
| "button_set_step S (Pbm_erase_all_except_lock d) = {(p', d') \<in> S. d' \<noteq> d}"
| "button_set_step S Pbm_reset = {}"

lemma pbm_inv_Nil [simp]: "pbm_inv []"
  by (simp add: pbm_inv_def)

lemma apb_is_paired_decrease:
  "apb_type a = apb_increase \<Longrightarrow> apb_type b = apb_decrease \<Longrightarrow>
   apb_is_paired a b \<longleftrightarrow> apb_usage_pair a = apb_usage_pair b"
  by (simp add: apb_is_paired_def)

lemma pbm_step_refines:
  assumes "pbm_inv bs"
  shows "pbm_inv (pbm_step bs op) \<and> pbm_abs (pbm_step bs op) = button_set_step (pbm_abs bs) op"
proof (cases op)
  case (Pbm_push t p d)
  show ?thesis
  proof (cases t)
    case apb_increase
    then show ?thesis using assms Pbm_push
      by (auto simp: pbm_inv_def pbm_abs_def push_back_active_pointing_button_def)
  next
    case apb_decrease
    then show ?thesis using assms Pbm_push
      by (auto simp: pbm_inv_def pbm_abs_def push_back_active_pointing_button_def
          apb_is_paired_decrease image_iff)
  qed
qed (use assms in \<open>auto simp: pbm_inv_def pbm_abs_def erase_all_active_pointing_buttons_def
       erase_all_active_pointing_buttons_except_lock_def pbm_reset_def image_iff\<close>)

lemma pbm_run_refines:
  "pbm_inv bs \<Longrightarrow>
   pbm_inv (foldl pbm_step bs ops) \<and>
   pbm_abs (foldl pbm_step bs ops) = foldl button_set_step (pbm_abs bs) ops"
  by (induction ops arbitrary: bs) (auto simp: pbm_step_refines)

lemma pbm_count_eq:
  "foldl (\<lambda>count b. if apb_usage_pair b = p then count + apb_count b else count) c bs =
     c + count_where (\<lambda>b. apb_usage_pair b = p) apb_count bs"
  by (induction bs arbitrary: c) auto

lemma pbm_is_pressed_iff:
  assumes "pbm_inv bs"
  shows "pbm_is_pressed p bs \<longleftrightarrow> (\<exists>d. (p, d) \<in> pbm_abs bs)"
proof -
  have "count_where (\<lambda>b. apb_usage_pair b = p) apb_count bs =
      int (length (filter (\<lambda>b. apb_usage_pair b = p) bs))"
    using assms by (induction bs) (auto simp: pbm_inv_def apb_count_def)
  then have "pbm_is_pressed p bs \<longleftrightarrow> (\<exists>b\<in>set bs. apb_usage_pair b = p)"
    by (auto simp: pbm_is_pressed_def pbm_count_eq filter_empty_conv)
  then show ?thesis by (auto simp: pbm_abs_def)
qed

lemma hid_report_buttons_from_set:
  "hid_report_buttons_from insert bs u r =
     r \<union> {v. u \<le> v \<and> v \<le> usage_button_32 \<and> pbm_is_pressed (Usage_Pair page_button v) bs}"
proof (induction "nat (33 - u)" arbitrary: u r rule: less_induct)
  case less
  have split: "u \<le> v \<longleftrightarrow> v = u \<or> u + 1 \<le> v" for v by linarith
  show ?case
  proof (cases "u \<le> usage_button_32")
    case True
    then show ?thesis
      by (subst hid_report_buttons_from.simps) (auto simp: less split)
  next
    case False
    then show ?thesis by (subst hid_report_buttons_from.simps) auto
  qed
qed

subsection \<open>Properties\<close>

text \<open>
  After any sequence of operations on an empty manager a button is pressed exactly when the
  set semantics says so (a press of some device that no later release of the button, erasure of
  that device or reset removed), and the HID report, with sets for the driver's \<open>buttons\<close>, holds
  exactly the pressed buttons 1 to 32.
\<close>

theorem pointing_button_manager_refines_set:
  "pbm_is_pressed p (foldl pbm_step [] ops) =
     (\<exists>d. (p, d) \<in> foldl button_set_step {} ops) \<and>
   make_hid_report_buttons {} insert (foldl pbm_step [] ops) =
     {u. 1 \<le> u \<and> u \<le> 32 \<and> (\<exists>d. (Usage_Pair page_button u, d) \<in> foldl button_set_step {} ops)}"
proof -
  have "pbm_inv (foldl pbm_step [] ops) \<and>
      pbm_abs (foldl pbm_step [] ops) = foldl button_set_step {} ops"
    using pbm_run_refines[of "[]" ops] by (simp add: pbm_abs_def)
  then show ?thesis
    by (auto simp: pbm_is_pressed_iff make_hid_report_buttons_def hid_report_buttons_from_set)
qed

end
