(* ===== verification/Key_Trackers.thy ===== *)
theory Key_Trackers
  imports Types "HOL-Library.Word"
begin

unbundle bit_operations_syntax

text \<open>
  Three small trackers of pressed keys: \<open>src/share/pressed_keys_manager.hpp\<close> (a set of events),
  \<open>src/share/keyboard_repeat_detector.hpp\<close> (the key that repeats) and
  \<open>src/share/hat_switch_convert.hpp\<close> (hat switch values to d-pad key events).
\<close>

subsection \<open>pressed_keys_manager\<close>

type_synonym pressed_keys = "momentary_switch_event set"

definition pressed_keys_insert :: "momentary_switch_event \<Rightarrow> pressed_keys \<Rightarrow> pressed_keys" where
  "pressed_keys_insert e s = insert e s"

definition pressed_keys_erase :: "momentary_switch_event \<Rightarrow> pressed_keys \<Rightarrow> pressed_keys" where
  "pressed_keys_erase e s = s - {e}"

definition pressed_keys_empty :: "pressed_keys \<Rightarrow> bool" where
  "pressed_keys_empty s \<longleftrightarrow> s = {}"

subsection \<open>keyboard_repeat_detector\<close>

type_synonym keyboard_repeat_detector = "momentary_switch_event option"

definition krd_set ::
    "momentary_switch_event \<Rightarrow> event_type \<Rightarrow> keyboard_repeat_detector \<Rightarrow> keyboard_repeat_detector" where
  "krd_set e t r =
     (if \<not> mse_valid e then r
      else case t of
             key_down \<Rightarrow> if \<not> mse_is_modifier e then Some e else r
           | key_up \<Rightarrow> if r = Some e then None else r
           | single \<Rightarrow> r)"

definition krd_clear :: "keyboard_repeat_detector \<Rightarrow> keyboard_repeat_detector" where
  "krd_clear r = None"

definition krd_is_repeating :: "keyboard_repeat_detector \<Rightarrow> bool" where
  "krd_is_repeating r \<longleftrightarrow> r \<noteq> None"

lemma krd_set_not_modifier:
  "(\<forall>e. r = Some e \<longrightarrow> mse_valid e \<and> \<not> mse_is_modifier e) \<Longrightarrow>
   krd_set e' t r = Some e \<Longrightarrow> mse_valid e \<and> \<not> mse_is_modifier e"
  by (auto simp: krd_set_def split: event_type.splits if_splits)

text \<open>The repeating key after a history: the last press of a plain key that was not released.\<close>

definition krd_run :: "(momentary_switch_event \<times> event_type) list \<Rightarrow> keyboard_repeat_detector" where
  "krd_run hist = foldl (\<lambda>r (e, t). krd_set e t r) None hist"

lemma krd_run_snoc: "krd_run (hist @ [(e, t)]) = krd_set e t (krd_run hist)"
  by (simp add: krd_run_def)

text \<open>An event of the history that leaves a repeating key \<open>e\<close> alone.\<close>

definition krd_keeps :: "momentary_switch_event \<Rightarrow> momentary_switch_event \<times> event_type \<Rightarrow> bool" where
  "krd_keeps e x \<longleftrightarrow>
     \<not> (fst x = e \<and> snd x = key_up) \<and>
     (snd x = key_down \<longrightarrow> fst x \<noteq> e \<longrightarrow> \<not> mse_valid (fst x) \<or> mse_is_modifier (fst x))"

definition krd_last_press ::
    "momentary_switch_event \<Rightarrow> (momentary_switch_event \<times> event_type) list \<Rightarrow> bool" where
  "krd_last_press e hist \<longleftrightarrow>
     (\<exists>before after. hist = before @ (e, key_down) # after \<and> list_all (krd_keeps e) after)"

lemma krd_last_press_snoc:
  "krd_last_press e (hist @ [x]) \<longleftrightarrow> x = (e, key_down) \<or> krd_last_press e hist \<and> krd_keeps e x"
  (is "?A \<longleftrightarrow> ?B")
proof
  assume ?A
  then obtain bf af where d: "hist @ [x] = bf @ (e, key_down) # af" "list_all (krd_keeps e) af"
    by (auto simp: krd_last_press_def)
  show ?B
  proof (cases af rule: rev_cases)
    case Nil then show ?thesis using d by simp
  next
    case (snoc af' y)
    then have "y = x" "hist = bf @ (e, key_down) # af'" "list_all (krd_keeps e) af'" "krd_keeps e y"
      using d by auto
    then show ?thesis by (auto simp: krd_last_press_def)
  qed
next
  assume ?B
  then show ?A
  proof (elim disjE conjE)
    assume "x = (e, key_down)"
    then show ?A unfolding krd_last_press_def by (intro exI[of _ hist] exI[of _ "[]"]) simp
  next
    assume "krd_last_press e hist" "krd_keeps e x"
    then obtain bf af where "hist = bf @ (e, key_down) # af" "list_all (krd_keeps e) af"
      by (auto simp: krd_last_press_def)
    then show ?A using \<open>krd_keeps e x\<close>
      unfolding krd_last_press_def by (intro exI[of _ bf] exI[of _ "af @ [x]"]) simp
  qed
qed

lemma krd_run_iff:
  "krd_run hist = Some e \<longleftrightarrow> mse_valid e \<and> \<not> mse_is_modifier e \<and> krd_last_press e hist"
proof (induction hist rule: rev_induct)
  case Nil then show ?case by (simp add: krd_run_def krd_last_press_def)
next
  case (snoc x hist)
  obtain e' t where x: "x = (e', t)" by force
  show ?case
    unfolding krd_last_press_snoc unfolding x krd_run_snoc using snoc.IH
    by (cases t) (auto simp: krd_set_def krd_keeps_def)
qed

subsection \<open>hat_switch_converter\<close>

text \<open>A direction is a bit mask; \<open>last_directions_\<close> is an unordered map.\<close>

type_synonym direction = "32 word"
type_synonym hat_switch_converter = "device_id \<rightharpoonup> direction"

abbreviation (input) dir_up :: direction where "dir_up \<equiv> 1"
abbreviation (input) dir_down :: direction where "dir_down \<equiv> 2"
abbreviation (input) dir_right :: direction where "dir_right \<equiv> 4"
abbreviation (input) dir_left :: direction where "dir_left \<equiv> 8"

definition hat_erase_device :: "device_id \<Rightarrow> hat_switch_converter \<Rightarrow> hat_switch_converter" where
  "hat_erase_device d m = m(d := None)"

definition hat_clear :: "hat_switch_converter \<Rightarrow> hat_switch_converter" where
  "hat_clear m = Map.empty"

definition hat_direction :: "int \<Rightarrow> direction" where
  "hat_direction v =
     (if v = 0 then dir_up
      else if v = 1 then dir_up OR dir_right
      else if v = 2 then dir_right
      else if v = 3 then dir_down OR dir_right
      else if v = 4 then dir_down
      else if v = 5 then dir_down OR dir_left
      else if v = 6 then dir_left
      else if v = 7 then dir_up OR dir_left
      else 0)"

definition dpad_pairs :: "(direction \<times> usage) list" where
  "dpad_pairs =
     [(dir_up, usage_dpad_up), (dir_down, usage_dpad_down),
      (dir_right, usage_dpad_right), (dir_left, usage_dpad_left)]"

definition dpad_events_of ::
    "direction \<Rightarrow> direction \<Rightarrow> direction \<times> usage \<Rightarrow> (momentary_switch_event \<times> event_type) list" where
  "dpad_events_of last_dir current d =
     (if last_dir AND fst d = 0 \<and> current AND fst d \<noteq> 0
      then [(mse page_generic_desktop (snd d), key_down)] else []) @
     (if last_dir AND fst d \<noteq> 0 \<and> current AND fst d = 0
      then [(mse page_generic_desktop (snd d), key_up)] else [])"

definition to_dpad_events ::
    "device_id \<Rightarrow> int \<Rightarrow> hat_switch_converter \<Rightarrow>
     (momentary_switch_event \<times> event_type) list \<times> hat_switch_converter" where
  "to_dpad_events d v m =
     (let last_dir = (case m d of Some x \<Rightarrow> x | None \<Rightarrow> 0);
          current = hat_direction v
      in (concat (map (dpad_events_of last_dir current) dpad_pairs), m(d \<mapsto> current)))"

text \<open>The d-pad keys a direction stands for, and the effect of key events on a set of pressed keys.\<close>

definition dpad_keys :: "direction \<Rightarrow> momentary_switch_event set" where
  "dpad_keys dir = {mse page_generic_desktop (snd d) | d. d \<in> set dpad_pairs \<and> dir AND fst d \<noteq> 0}"

fun press_step ::
    "momentary_switch_event set option \<Rightarrow> momentary_switch_event \<times> event_type \<Rightarrow>
     momentary_switch_event set option" where
  "press_step None _ = None"
| "press_step (Some S) (e, key_down) = (if e \<in> S then None else Some (insert e S))"
| "press_step (Some S) (e, key_up) = (if e \<in> S then Some (S - {e}) else None)"
| "press_step (Some S) (e, single) = None"

lemma dpad_keys_eq:
  "dpad_keys dir =
     (if dir AND dir_up \<noteq> 0 then {mse page_generic_desktop usage_dpad_up} else {}) \<union>
     (if dir AND dir_down \<noteq> 0 then {mse page_generic_desktop usage_dpad_down} else {}) \<union>
     (if dir AND dir_right \<noteq> 0 then {mse page_generic_desktop usage_dpad_right} else {}) \<union>
     (if dir AND dir_left \<noteq> 0 then {mse page_generic_desktop usage_dpad_left} else {})"
  by (auto simp: dpad_keys_def dpad_pairs_def)

lemma dpad_keys_0 [simp]: "dpad_keys 0 = {}"
  by (simp add: dpad_keys_def)

text \<open>
  The emitted events turn the keys of the last direction into those of the current one, and each
  is a real change: no key goes down twice or up without being down.
\<close>

lemma press_step_dpad_events_of:
  assumes "mse page_generic_desktop (snd p) \<in> S \<longleftrightarrow> l AND fst p \<noteq> 0"
  shows "foldl press_step (Some S) (dpad_events_of l c p) =
    Some (S - {mse page_generic_desktop (snd p)} \<union>
      (if c AND fst p \<noteq> 0 then {mse page_generic_desktop (snd p)} else {}))"
  using assms by (auto simp: dpad_events_of_def)

lemma step_image_sets:
  assumes "f p \<notin> f ` P"
  shows "S - {f p} \<union> (if c p then {f p} else {}) - f ` P \<union> f ` {q \<in> P. c q} =
    S - f ` insert p P \<union> f ` {q \<in> insert p P. c q}"
proof -
  have "f q \<noteq> f p" if "q \<in> P" for q using assms that by (metis imageI)
  then show ?thesis by auto
qed

lemma press_steps_dpad_events:
  assumes "distinct (map snd ps)"
    and "\<forall>p\<in>set ps. mse page_generic_desktop (snd p) \<in> S \<longleftrightarrow> l AND fst p \<noteq> 0"
  shows "foldl press_step (Some S) (concat (map (dpad_events_of l c) ps)) =
    Some (S - (\<lambda>p. mse page_generic_desktop (snd p)) ` set ps \<union>
      (\<lambda>p. mse page_generic_desktop (snd p)) ` {p \<in> set ps. c AND fst p \<noteq> 0})"
  using assms
proof (induction ps arbitrary: S)
  case Nil then show ?case by simp
next
  case (Cons p ps)
  let ?k = "\<lambda>p. mse page_generic_desktop (snd p)"
  let ?S = "S - {?k p} \<union> (if c AND fst p \<noteq> 0 then {?k p} else {})"
  have inv: "\<forall>q\<in>set ps. ?k q \<in> ?S \<longleftrightarrow> l AND fst q \<noteq> 0"
    using Cons.prems by (auto simp: image_iff)
  have "?k p \<notin> ?k ` set ps" using Cons.prems(1) by (auto simp: image_iff)
  then have set_eq: "?S - ?k ` set ps \<union> ?k ` {p \<in> set ps. c AND fst p \<noteq> 0} =
      S - ?k ` set (p # ps) \<union> ?k ` {q \<in> set (p # ps). c AND fst q \<noteq> 0}"
    unfolding list.set by (rule step_image_sets)
  moreover have IH: "foldl press_step (Some ?S) (concat (map (dpad_events_of l c) ps)) =
      Some (?S - ?k ` set ps \<union> ?k ` {p \<in> set ps. c AND fst p \<noteq> 0})"
    by (rule Cons.IH) (use Cons.prems(1) inv in simp_all)
  ultimately show ?case
    using Cons.prems(2) unfolding set_eq[symmetric]
    by (simp only: list.map concat.simps foldl_append press_step_dpad_events_of list.set_intros)
qed

lemma dpad_events_change:
  "foldl press_step (Some (dpad_keys l)) (concat (map (dpad_events_of l c) dpad_pairs)) =
     Some (dpad_keys c)"
proof -
  have d: "distinct (map snd dpad_pairs)" by (simp add: dpad_pairs_def)
  have "\<forall>p\<in>set dpad_pairs. mse page_generic_desktop (snd p) \<in> dpad_keys l \<longleftrightarrow> l AND fst p \<noteq> 0"
    by (simp add: dpad_pairs_def dpad_keys_eq)
  moreover have "dpad_keys l - (\<lambda>p. mse page_generic_desktop (snd p)) ` set dpad_pairs = {}"
      "dpad_keys c = (\<lambda>p. mse page_generic_desktop (snd p)) ` {p \<in> set dpad_pairs. c AND fst p \<noteq> 0}"
    unfolding dpad_keys_def by force+
  ultimately show ?thesis
    using press_steps_dpad_events[OF d, of "dpad_keys l" l c] by auto
qed

definition hat_run ::
    "device_id \<Rightarrow> int list \<Rightarrow> hat_switch_converter \<Rightarrow>
     (momentary_switch_event \<times> event_type) list \<times> hat_switch_converter" where
  "hat_run d vs m =
     foldl (\<lambda>(es, m) v. let (es', m') = to_dpad_events d v m in (es @ es', m')) ([], m) vs"

lemma hat_run_snoc:
  "hat_run d (vs @ [v]) m =
     (let (es, m1) = hat_run d vs m; (es', m') = to_dpad_events d v m1 in (es @ es', m'))"
  by (simp add: hat_run_def split: prod.splits)

lemma hat_direction_cases:
  "dpad_keys (hat_direction v) =
     (\<lambda>u. mse page_generic_desktop u) `
       (if v = 0 then {usage_dpad_up} else if v = 1 then {usage_dpad_up, usage_dpad_right}
        else if v = 2 then {usage_dpad_right} else if v = 3 then {usage_dpad_down, usage_dpad_right}
        else if v = 4 then {usage_dpad_down} else if v = 5 then {usage_dpad_down, usage_dpad_left}
        else if v = 6 then {usage_dpad_left} else if v = 7 then {usage_dpad_up, usage_dpad_left}
        else {})"
  unfolding hat_direction_def dpad_keys_eq by auto

lemma hat_run_keys:
  "m d = None \<Longrightarrow>
   foldl press_step (Some {}) (fst (hat_run d vs m)) =
     Some (case snd (hat_run d vs m) d of Some dir \<Rightarrow> dpad_keys dir | None \<Rightarrow> {}) \<and>
   (vs \<noteq> [] \<longrightarrow> snd (hat_run d vs m) d = Some (hat_direction (last vs)))"
proof (induction vs rule: rev_induct)
  case Nil then show ?case by (simp add: hat_run_def)
next
  case (snoc v vs)
  then show ?case
    by (auto simp: hat_run_snoc to_dpad_events_def Let_def dpad_events_change
        dpad_events_change[of 0, simplified] split: prod.splits option.splits)
qed

subsection \<open>Properties\<close>

text \<open>
  The key the detector reports as repeating is the last valid plain key that went down and
  has not gone up since, with no other valid plain key pressed in between; modifiers, events
  without usage and the release of other keys do not interrupt it.
\<close>

theorem keyboard_repeat_detector_tracks_last_press:
  "krd_run hist = Some e \<longleftrightarrow> mse_valid e \<and> \<not> mse_is_modifier e \<and> krd_last_press e hist"
  by (rule krd_run_iff)

text \<open>
  Whatever sequence of hat switch values a device sends, the d-pad key events emitted for it
  press only released keys and release only pressed keys, and after each value exactly the keys
  of that value's direction are down (none for the neutral values).
\<close>

theorem hat_switch_dpad_events_consistent:
  "foldl press_step (Some {}) (fst (hat_run d (vs @ [v]) Map.empty)) =
     Some (dpad_keys (hat_direction v))"
  using hat_run_keys[of Map.empty d "vs @ [v]"] by simp

end
