(* ===== verification/Probable_Stuck_Events.thy ===== *)
theory Probable_Stuck_Events
  imports Types
begin

text \<open>
  \<open>probable_stuck_events_manager.hpp\<close> of the grabber: which keys were probably held down before
  a device was seized. The four \<open>std::set\<close> members are finite sets; \<open>*begin\<close> is the minimum.

  The theory shows that keys typed normally on a seized device are never reported, that a key
  released without a press is, that a key which keeps sending releases stops being reported, and
  the invariant that ties the four sets together.
\<close>

subsection \<open>State and operations\<close>

record probable_stuck_events_manager =
  probable_stuck_events :: "momentary_switch_event set"
  key_down_arrived_events :: "momentary_switch_event set"
  key_up_events :: "momentary_switch_event set"
  exceptional_key_up_events :: "momentary_switch_event set"

definition psem_initial :: probable_stuck_events_manager where
  "psem_initial =
     \<lparr>probable_stuck_events = {}, key_down_arrived_events = {}, key_up_events = {},
      exceptional_key_up_events = {}\<rparr>"

definition find_probable_stuck_event ::
    "probable_stuck_events_manager \<Rightarrow> momentary_switch_event option" where
  "find_probable_stuck_event s =
     (if probable_stuck_events s \<noteq> {} then Some (Min (probable_stuck_events s)) else None)"

definition erase_except_modifier_flags ::
    "usage_page \<Rightarrow> momentary_switch_event set \<Rightarrow> momentary_switch_event set" where
  "erase_except_modifier_flags p S = {e \<in> S. \<not> (mse_page e = p \<and> \<not> mse_is_modifier e)}"

definition psem_handle_key_down ::
    "momentary_switch_event \<Rightarrow> device_state \<Rightarrow> probable_stuck_events_manager \<Rightarrow>
     probable_stuck_events_manager" where
  "psem_handle_key_down e st s =
     s\<lparr>key_down_arrived_events := insert e (key_down_arrived_events s),
       key_up_events := key_up_events s - {e},
       exceptional_key_up_events := exceptional_key_up_events s - {e},
       probable_stuck_events :=
         (if st = observed then
            insert e (if interrupts_key_repeat e
                      then erase_except_modifier_flags (mse_page e) (probable_stuck_events s)
                      else probable_stuck_events s)
          else probable_stuck_events s)\<rparr>"

definition psem_handle_key_up ::
    "momentary_switch_event \<Rightarrow> probable_stuck_events_manager \<Rightarrow> probable_stuck_events_manager" where
  "psem_handle_key_up e s =
     (let s1 =
        (if e \<in> key_up_events s then
           s\<lparr>exceptional_key_up_events := insert e (exceptional_key_up_events s),
             probable_stuck_events := probable_stuck_events s - {e}\<rparr>
         else if e \<notin> key_down_arrived_events s \<and> e \<notin> exceptional_key_up_events s then
           s\<lparr>probable_stuck_events := insert e (probable_stuck_events s)\<rparr>
         else s\<lparr>probable_stuck_events := probable_stuck_events s - {e}\<rparr>)
      in s1\<lparr>key_up_events := insert e (key_up_events s1)\<rparr>)"

definition psem_update ::
    "momentary_switch_event \<Rightarrow> event_type \<Rightarrow> device_state \<Rightarrow> probable_stuck_events_manager \<Rightarrow>
     bool \<times> probable_stuck_events_manager" where
  "psem_update e t st s =
     (if \<not> mse_valid e then (False, s)
      else
        let s' = (case t of
                    key_down \<Rightarrow> psem_handle_key_down e st s
                  | key_up \<Rightarrow> psem_handle_key_up e s
                  | single \<Rightarrow> s)
        in (find_probable_stuck_event s' \<noteq> find_probable_stuck_event s, s'))"

definition psem_clear :: "probable_stuck_events_manager \<Rightarrow> probable_stuck_events_manager" where
  "psem_clear s =
     s\<lparr>probable_stuck_events := {}, key_down_arrived_events := {}, key_up_events := {}\<rparr>"

subsection \<open>Invariant\<close>

text \<open>Reported keys were seen, and no reported key is exceptional.\<close>

definition psem_inv :: "probable_stuck_events_manager \<Rightarrow> bool" where
  "psem_inv s \<longleftrightarrow>
     finite (probable_stuck_events s)
     \<and> probable_stuck_events s \<subseteq> key_down_arrived_events s \<union> key_up_events s
     \<and> probable_stuck_events s \<inter> exceptional_key_up_events s = {}"

lemma psem_inv_initial: "psem_inv psem_initial"
  by (simp add: psem_inv_def psem_initial_def)

lemma psem_inv_clear [preserved]: "psem_inv s \<Longrightarrow> psem_inv (psem_clear s)"
  by (simp add: psem_inv_def psem_clear_def)

lemma psem_inv_update [preserved]: "psem_inv s \<Longrightarrow> psem_inv (snd (psem_update e t st s))"
  by (cases t)
     (auto simp: psem_inv_def psem_update_def psem_handle_key_down_def psem_handle_key_up_def Let_def
        erase_except_modifier_flags_def)

lemma find_probable_stuck_event_Some:
  "psem_inv s \<Longrightarrow> find_probable_stuck_event s = Some e \<Longrightarrow>
   e \<in> probable_stuck_events s \<and> (\<forall>e'\<in>probable_stuck_events s. e \<le> e')"
  by (auto simp: find_probable_stuck_event_def psem_inv_def intro: Min_in split: if_splits)

subsection \<open>Runs on a seized device\<close>

type_synonym key_history = "(momentary_switch_event \<times> event_type) list"

definition psem_seized_run ::
    "probable_stuck_events_manager \<Rightarrow> key_history \<Rightarrow> probable_stuck_events_manager" where
  "psem_seized_run s hist = foldl (\<lambda>s (e, t). snd (psem_update e t seized s)) s hist"

definition transitions_of :: "momentary_switch_event \<Rightarrow> key_history \<Rightarrow> event_type list" where
  "transitions_of e hist = map snd (filter (\<lambda>x. fst x = e \<and> snd x \<noteq> single) hist)"

lemma transitions_of_snoc:
  "transitions_of e (hist @ [(e', t)]) =
     transitions_of e hist @ (if e' = e \<and> t \<noteq> single then [t] else [])"
  by (simp add: transitions_of_def)

lemma psem_seized_run_snoc:
  "psem_seized_run s (hist @ [(e, t)]) = snd (psem_update e t seized (psem_seized_run s hist))"
  by (simp add: psem_seized_run_def)

lemma psem_update_other:
  assumes "e' \<noteq> e"
  shows "e \<in> probable_stuck_events (snd (psem_update e' t seized s)) \<longleftrightarrow> e \<in> probable_stuck_events s"
    "e \<in> key_down_arrived_events (snd (psem_update e' t seized s)) \<longleftrightarrow> e \<in> key_down_arrived_events s"
    "e \<in> key_up_events (snd (psem_update e' t seized s)) \<longleftrightarrow> e \<in> key_up_events s"
    "e \<in> exceptional_key_up_events (snd (psem_update e' t seized s)) \<longleftrightarrow> e \<in> exceptional_key_up_events s"
  using assms
  by (cases t; auto simp: psem_update_def psem_handle_key_down_def psem_handle_key_up_def Let_def)+

lemma psem_update_single [simp]: "snd (psem_update e single st s) = s"
  by (simp add: psem_update_def)

lemma psem_update_seized_down:
  "mse_valid e \<Longrightarrow> snd (psem_update e key_down seized s) = psem_handle_key_down e seized s"
  by (simp add: psem_update_def Let_def)

lemma psem_update_up:
  "mse_valid e \<Longrightarrow> snd (psem_update e key_up st s) = psem_handle_key_up e s"
  by (simp add: psem_update_def Let_def)

definition released_once :: "event_type list \<Rightarrow> bool" where
  "released_once ts \<longleftrightarrow> (\<exists>n. ts = key_up # replicate n key_down)"

lemma released_once_Nil [simp]: "\<not> released_once []"
  by (simp add: released_once_def)

lemma released_once_snoc_up: "released_once (ts @ [key_up]) \<longleftrightarrow> ts = []"
  by (auto simp: released_once_def Cons_eq_append_conv append_eq_Cons_conv)
     (metis event_type.distinct(1) in_set_replicate in_set_conv_decomp)

lemma released_once_snoc_down: "released_once (ts @ [key_down]) \<longleftrightarrow> released_once ts"
proof
  assume "released_once (ts @ [key_down])"
  then obtain n where n: "ts @ [key_down] = key_up # replicate n key_down"
    by (auto simp: released_once_def)
  then obtain us where us: "ts = key_up # us" by (cases ts) auto
  with n have eq: "us @ [key_down] = replicate n key_down" by simp
  then have "\<forall>x\<in>set us. x = key_down" by (metis Un_iff in_set_replicate set_append)
  then have "us = replicate (length us) key_down" by (simp add: replicate_length_same)
  then show "released_once ts" using us by (auto simp: released_once_def)
next
  assume "released_once ts"
  then show "released_once (ts @ [key_down])"
    by (auto simp: released_once_def) (metis replicate_Suc replicate_append_same)
qed

lemma psem_seized_run_state:
  assumes v: "mse_valid e"
    and s0: "e \<notin> probable_stuck_events s0" "e \<notin> key_down_arrived_events s0" "e \<notin> key_up_events s0"
  shows
    "(e \<in> key_down_arrived_events (psem_seized_run s0 hist) \<longleftrightarrow> key_down \<in> set (transitions_of e hist)) \<and>
     (e \<in> key_up_events (psem_seized_run s0 hist) \<longleftrightarrow>
        transitions_of e hist \<noteq> [] \<and> last (transitions_of e hist) = key_up) \<and>
     (transitions_of e hist = [] \<longrightarrow>
        (e \<in> exceptional_key_up_events (psem_seized_run s0 hist) \<longleftrightarrow> e \<in> exceptional_key_up_events s0)) \<and>
     (e \<in> probable_stuck_events (psem_seized_run s0 hist) \<longleftrightarrow>
        e \<notin> exceptional_key_up_events s0 \<and> released_once (transitions_of e hist))"
proof (induction hist rule: rev_induct)
  case Nil
  then show ?case using s0 by (simp add: psem_seized_run_def transitions_of_def)
next
  case (snoc x hist)
  obtain e' t where x: "x = (e', t)" by force
  let ?s = "psem_seized_run s0 hist"
  have ts: "t' \<in> {key_down, key_up}" if "t' \<in> set (transitions_of e hist)" for t'
  proof -
    have "t' \<noteq> single" using that by (auto simp: transitions_of_def)
    then show ?thesis by (cases t') simp_all
  qed
  show ?case
  proof (cases "e' = e \<and> t \<noteq> single")
    case False
    then consider "e' \<noteq> e" | "t = single" by blast
    then show ?thesis
      using snoc.IH unfolding x psem_seized_run_snoc transitions_of_snoc
      by cases (simp_all add: psem_update_other)
  next
    case True
    show ?thesis
    proof (cases t)
      case key_down
      then show ?thesis
        using snoc.IH True v unfolding x psem_seized_run_snoc transitions_of_snoc
        by (simp add: psem_update_seized_down psem_handle_key_down_def released_once_snoc_down)
    next
      case key_up
      have step: "psem_seized_run s0 (hist @ [x]) = psem_handle_key_up e ?s"
          "transitions_of e (hist @ [x]) = transitions_of e hist @ [event_type.key_up]"
        unfolding x psem_seized_run_snoc transitions_of_snoc
        using True v key_up by (simp_all add: psem_update_up)
      show ?thesis
      proof (cases "transitions_of e hist = []")
        case True
        then show ?thesis
          using snoc.IH unfolding step
          by (cases "e \<in> exceptional_key_up_events s0")
             (simp_all add: psem_handle_key_up_def Let_def released_once_snoc_up[of "[]", simplified])
      next
        case False
        then have "e \<in> key_down_arrived_events ?s \<or> e \<in> key_up_events ?s"
          using snoc.IH ts[OF last_in_set[OF False]] last_in_set[OF False] False
          by (metis insert_iff singletonD)
        then have "e \<notin> probable_stuck_events (psem_handle_key_up e ?s) \<and>
            e \<in> key_up_events (psem_handle_key_up e ?s) \<and>
            (e \<in> key_down_arrived_events (psem_handle_key_up e ?s) \<longleftrightarrow> e \<in> key_down_arrived_events ?s)"
          by (auto simp: psem_handle_key_up_def Let_def)
        then show ?thesis
          using snoc.IH False unfolding step by (simp add: released_once_snoc_up)
      qed
    next
      case single
      then show ?thesis using True by simp
    qed
  qed
qed

subsection \<open>Properties\<close>

text \<open>
  After \<open>clear\<close>, on a seized device, a key with a usage is reported as probably stuck exactly
  when its history is one release followed by presses only, and it was not known to send releases
  without presses: a key that is pressed first, as in normal typing, is never reported, and a
  second release takes the report back for good.
\<close>

theorem probable_stuck_iff_released_once:
  assumes "mse_valid e"
  shows "e \<in> probable_stuck_events (psem_seized_run (psem_clear s) hist) \<longleftrightarrow>
    e \<notin> exceptional_key_up_events s \<and> released_once (transitions_of e hist)"
  using psem_seized_run_state[OF assms, of "psem_clear s" hist] by (simp add: psem_clear_def)

theorem probable_stuck_iff_released_once_witness:
  "mse 7 4 \<in> probable_stuck_events
     (psem_seized_run (psem_clear psem_initial) [(mse 7 5, key_down), (mse 7 4, key_up)])"
  using probable_stuck_iff_released_once[of "mse 7 4" psem_initial
      "[(mse 7 5, key_down), (mse 7 4, key_up)]"]
  by (simp add: mse_valid_def psem_initial_def transitions_of_def released_once_def)

text \<open>
  A key that interrupts key repeat and goes down while the device is only observed takes every
  plain key of its usage page off the list and is itself on it; reported modifiers and keys of
  other pages stay. No reported key is ever an exceptional one.
\<close>

theorem probable_stuck_observed_key_down:
  assumes "psem_inv s" "interrupts_key_repeat e"
  defines "s' \<equiv> snd (psem_update e key_down observed s)"
  shows "probable_stuck_events s' =
      insert e {e' \<in> probable_stuck_events s. mse_page e' \<noteq> mse_page e \<or> mse_is_modifier e'}
    \<and> probable_stuck_events s' \<inter> exceptional_key_up_events s' = {}"
proof -
  have "mse_valid e" using assms(2) by (simp add: interrupts_key_repeat_def)
  then have "probable_stuck_events s' =
      insert e {e' \<in> probable_stuck_events s. mse_page e' \<noteq> mse_page e \<or> mse_is_modifier e'}"
    using assms(2)
    by (auto simp: s'_def psem_update_def psem_handle_key_down_def erase_except_modifier_flags_def Let_def)
  moreover have "psem_inv s'" unfolding s'_def by (rule psem_inv_update) (rule assms(1))
  ultimately show ?thesis by (simp add: psem_inv_def)
qed

theorem probable_stuck_observed_key_down_witness:
  "probable_stuck_events (snd (psem_update (mse 7 4) key_down observed
      (snd (psem_update (mse 7 5) key_up seized psem_initial)))) = {mse 7 4}"
proof -
  let ?s = "snd (psem_update (mse 7 5) key_up seized psem_initial)"
  have "psem_inv ?s" by (intro psem_inv_update psem_inv_initial)
  moreover have "interrupts_key_repeat (mse 7 4)"
    by (simp add: interrupts_key_repeat_def mse_test_defs Let_def)
  moreover have "probable_stuck_events ?s = {mse 7 5}"
    by (simp add: psem_update_def psem_handle_key_up_def psem_initial_def mse_valid_def Let_def)
  ultimately show ?thesis
    using probable_stuck_observed_key_down[of ?s "mse 7 4"]
    by (simp add: mse_is_modifier_def make_modifier_flag_def Let_def Collect_conv_if)
qed

end
