(* ===== verification/Device_Properties.thy ===== *)
theory Device_Properties
  imports Types "HOL-Library.Char_ord" "HOL-Library.List_Lexorder"
    "HOL-Library.Product_Lexorder"
begin

text \<open>
  \<open>src/share/types/device_identifiers.hpp\<close>, \<open>src/share/device_properties.hpp\<close>,
  \<open>src/share/device_properties_manager.hpp\<close> and the test for Karabiner's own virtual devices of
  \<open>src/share/iokit_utility.hpp\<close>. The JSON readers and writers and the IOKit queries that fill the
  initialization parameters are not modelled.

  The theory shows that \<open>compare\<close> is a strict total order (so sorting the connected devices by
  it is well defined), that a device has at most one built-in role per kind, and that the
  manager is a finite map.
\<close>

subsection \<open>Substrings\<close>

definition starts_with :: "string \<Rightarrow> string \<Rightarrow> bool" where
  "starts_with s p \<longleftrightarrow> take (length p) s = p"

fun string_contains :: "string \<Rightarrow> string \<Rightarrow> bool" where
  "string_contains [] p = (p = [])"
| "string_contains (c # s) p = (starts_with (c # s) p \<or> string_contains s p)"

lemma string_contains_iff: "string_contains s p \<longleftrightarrow> (\<exists>u v. s = u @ p @ v)"
proof (induction s)
  case Nil then show ?case by auto
next
  case (Cons c s)
  have "starts_with (c # s) p \<longleftrightarrow> (\<exists>v. c # s = p @ v)"
    by (metis append_eq_conv_conj starts_with_def append_take_drop_id)
  then show ?case
    using Cons.IH by (auto simp: Cons_eq_append_conv)
qed

subsection \<open>device_identifiers\<close>

record device_identifiers =
  di_vendor_id :: int
  di_product_id :: int
  di_is_keyboard :: bool
  di_is_pointing_device :: bool
  di_is_game_pad :: bool
  di_is_consumer :: bool
  di_is_virtual_device :: bool
  di_device_address :: string

definition make_device_identifiers ::
    "int \<Rightarrow> int \<Rightarrow> bool \<Rightarrow> bool \<Rightarrow> bool \<Rightarrow> bool \<Rightarrow> bool \<Rightarrow> string \<Rightarrow> device_identifiers" where
  "make_device_identifiers vendor product kb pd gp co vd address =
     \<lparr>di_vendor_id = vendor, di_product_id = product, di_is_keyboard = kb,
      di_is_pointing_device = pd, di_is_game_pad = gp, di_is_consumer = co,
      di_is_virtual_device = vd,
      di_device_address = (if vendor = 0 \<and> product = 0 then address else [])\<rparr>"

definition device_identifiers_empty :: "device_identifiers \<Rightarrow> bool" where
  "device_identifiers_empty d \<longleftrightarrow>
     di_vendor_id d = 0 \<and> di_product_id d = 0 \<and> \<not> di_is_keyboard d \<and> \<not> di_is_pointing_device d
     \<and> \<not> di_is_game_pad d \<and> \<not> di_is_consumer d \<and> \<not> di_is_virtual_device d
     \<and> di_device_address d = []"

definition is_nintendo_pro_controller_0x057e_0x2009 :: "device_identifiers \<Rightarrow> bool" where
  "is_nintendo_pro_controller_0x057e_0x2009 d \<longleftrightarrow> di_vendor_id d = 0x057e \<and> di_product_id d = 0x2009"

definition is_karabiner_virtual_hid_device :: "string \<Rightarrow> string \<Rightarrow> bool" where
  "is_karabiner_virtual_hid_device manufacturer product \<longleftrightarrow>
     manufacturer = ''pqrs.org'' \<and>
     (starts_with product ''Karabiner DriverKit VirtualHIDKeyboard'' \<or>
      starts_with product ''Karabiner DriverKit VirtualHIDPointing'')"

subsection \<open>device_properties\<close>

record initialization_parameters =
  ip_device_id :: device_id
  ip_vendor_id :: int
  ip_product_id :: int
  ip_location_id :: int
  ip_manufacturer :: string
  ip_product :: string
  ip_serial_number :: string
  ip_transport :: string
  ip_device_address :: string
  ip_is_keyboard :: bool
  ip_is_pointing_device :: bool
  ip_is_game_pad :: bool
  ip_is_consumer :: bool

definition initialization_parameters_default :: initialization_parameters where
  "initialization_parameters_default =
     \<lparr>ip_device_id = 0, ip_vendor_id = 0, ip_product_id = 0, ip_location_id = 0,
      ip_manufacturer = [], ip_product = [], ip_serial_number = [], ip_transport = [],
      ip_device_address = [], ip_is_keyboard = False, ip_is_pointing_device = False,
      ip_is_game_pad = False, ip_is_consumer = False\<rparr>"

record device_properties =
  dp_device_id :: device_id
  dp_device_identifiers :: device_identifiers
  dp_location_id :: int
  dp_manufacturer :: string
  dp_product :: string
  dp_serial_number :: string
  dp_transport :: string
  dp_is_built_in_keyboard :: bool
  dp_is_built_in_pointing_device :: bool
  dp_is_built_in_touch_bar :: bool
  dp_is_apple :: bool

definition touch_bar_manufacturer :: "initialization_parameters \<Rightarrow> string" where
  "touch_bar_manufacturer p =
     (if ip_vendor_id p = 0x05ac \<and> ip_product_id p = 0x8600 \<and> ip_manufacturer p = []
      then ''Apple Inc.'' else ip_manufacturer p)"

definition touch_bar_product :: "initialization_parameters \<Rightarrow> string" where
  "touch_bar_product p =
     (if ip_vendor_id p = 0x05ac \<and> ip_product_id p = 0x8600 \<and> ip_product p = []
      then ''Apple Internal Touch Bar'' else ip_product p)"

text \<open>
  The virtual device test runs before the manufacturer and product are overridden, the built-in
  tests after it.
\<close>

definition make_device_properties :: "initialization_parameters \<Rightarrow> device_properties" where
  "make_device_properties p =
     (let identifiers =
        make_device_identifiers (ip_vendor_id p) (ip_product_id p) (ip_is_keyboard p)
          (ip_is_pointing_device p) (ip_is_game_pad p) (ip_is_consumer p)
          (is_karabiner_virtual_hid_device (ip_manufacturer p) (ip_product p)) (ip_device_address p);
        manufacturer = touch_bar_manufacturer p;
        product = touch_bar_product p;
        touch_bar = product = ''Apple Internal Touch Bar'' \<or> product = ''TouchBarUserDevice'';
        internal = string_contains product ''Apple Internal '';
        fifo = ip_transport p = ''FIFO''
      in \<lparr>dp_device_id = ip_device_id p, dp_device_identifiers = identifiers,
          dp_location_id = ip_location_id p, dp_manufacturer = manufacturer, dp_product = product,
          dp_serial_number = ip_serial_number p, dp_transport = ip_transport p,
          dp_is_built_in_keyboard =
            (\<not> touch_bar \<and> internal \<and> ip_is_keyboard p \<and> \<not> ip_is_pointing_device p
             \<or> fifo \<and> ip_is_keyboard p),
          dp_is_built_in_pointing_device =
            (\<not> touch_bar \<and> internal \<and> \<not> ip_is_keyboard p \<and> ip_is_pointing_device p
             \<or> fifo \<and> ip_is_pointing_device p),
          dp_is_built_in_touch_bar = touch_bar,
          dp_is_apple =
            (\<not> di_is_virtual_device identifiers \<and>
             (ip_vendor_id p = 0x05ac \<or> ip_vendor_id p = 0x004c \<or> internal
              \<or> manufacturer = ''Apple'' \<and> product = ''Headset''))\<rparr>)"

definition device_properties_compare :: "device_properties \<Rightarrow> device_properties \<Rightarrow> bool" where
  "device_properties_compare a b =
     (let ia = dp_device_identifiers a; ib = dp_device_identifiers b in
      if dp_product a \<noteq> dp_product b then dp_product a < dp_product b
      else if dp_manufacturer a \<noteq> dp_manufacturer b then dp_manufacturer a < dp_manufacturer b
      else if di_is_keyboard ia \<noteq> di_is_keyboard ib then di_is_keyboard ia
      else if di_is_pointing_device ia \<noteq> di_is_pointing_device ib then di_is_pointing_device ia
      else if di_is_game_pad ia \<noteq> di_is_game_pad ib then di_is_game_pad ia
      else if di_is_consumer ia \<noteq> di_is_consumer ib then di_is_consumer ia
      else if dp_device_id a \<noteq> dp_device_id b then dp_device_id a < dp_device_id b
      else False)"

definition device_properties_eq :: "device_properties \<Rightarrow> device_properties \<Rightarrow> bool" where
  "device_properties_eq a b \<longleftrightarrow>
     dp_device_id a = dp_device_id b \<and> dp_device_identifiers a = dp_device_identifiers b
     \<and> dp_location_id a = dp_location_id b \<and> dp_manufacturer a = dp_manufacturer b
     \<and> dp_product a = dp_product b \<and> dp_serial_number a = dp_serial_number b
     \<and> dp_transport a = dp_transport b"

text \<open>
  Devices built by the constructor that are equal for \<open>operator==\<close> also agree in the derived flags,
  which it does not compare.
\<close>

lemma device_properties_eq_make:
  assumes "device_properties_eq (make_device_properties p) (make_device_properties q)"
  shows "make_device_properties p = make_device_properties q"
proof -
  have eq: "dp_device_id (make_device_properties p) = dp_device_id (make_device_properties q)"
    "dp_device_identifiers (make_device_properties p) = dp_device_identifiers (make_device_properties q)"
    "dp_location_id (make_device_properties p) = dp_location_id (make_device_properties q)"
    "dp_serial_number (make_device_properties p) = dp_serial_number (make_device_properties q)"
    "dp_transport (make_device_properties p) = dp_transport (make_device_properties q)"
    "touch_bar_manufacturer p = touch_bar_manufacturer q" "touch_bar_product p = touch_bar_product q"
    using assms by (simp_all add: device_properties_eq_def make_device_properties_def Let_def)
  then have fields: "ip_is_keyboard p = ip_is_keyboard q" "ip_is_pointing_device p = ip_is_pointing_device q"
    "ip_vendor_id p = ip_vendor_id q" "ip_transport p = ip_transport q"
    "is_karabiner_virtual_hid_device (ip_manufacturer p) (ip_product p) =
     is_karabiner_virtual_hid_device (ip_manufacturer q) (ip_product q)"
    by (simp_all add: make_device_properties_def make_device_identifiers_def Let_def)
  show ?thesis
    by (rule device_properties.equality)
       (use eq fields in \<open>auto simp: make_device_properties_def make_device_identifiers_def Let_def
          split: if_splits\<close>)
qed

subsection \<open>The order\<close>

text \<open>\<open>compare\<close> is the lexicographic order of a key whose last part is the device id.\<close>

definition compare_key ::
    "device_properties \<Rightarrow> string \<times> string \<times> bool \<times> bool \<times> bool \<times> bool \<times> device_id" where
  "compare_key a =
     (let i = dp_device_identifiers a in
      (dp_product a, dp_manufacturer a, \<not> di_is_keyboard i, \<not> di_is_pointing_device i,
       \<not> di_is_game_pad i, \<not> di_is_consumer i, dp_device_id a))"

lemma compare_iff_key: "device_properties_compare a b \<longleftrightarrow> compare_key a < compare_key b"
  unfolding device_properties_compare_def compare_key_def Let_def less_prod_simp
  by (cases "dp_product a = dp_product b"; cases "dp_manufacturer a = dp_manufacturer b")
     (simp add: le_less; blast?)+

lemma compare_key_device_id: "compare_key a = compare_key b \<Longrightarrow> dp_device_id a = dp_device_id b"
  by (simp add: compare_key_def Let_def)

subsection \<open>device_properties_manager\<close>

type_synonym device_properties_manager = "device_id \<rightharpoonup> device_properties"

definition dpm_insert ::
    "device_id \<Rightarrow> device_properties \<Rightarrow> device_properties_manager \<Rightarrow> device_properties_manager" where
  "dpm_insert d v m = m(d \<mapsto> v)"

definition dpm_erase :: "device_id \<Rightarrow> device_properties_manager \<Rightarrow> device_properties_manager" where
  "dpm_erase d m = m(d := None)"

definition dpm_clear :: "device_properties_manager \<Rightarrow> device_properties_manager" where
  "dpm_clear m = Map.empty"

definition dpm_find :: "device_id \<Rightarrow> device_properties_manager \<Rightarrow> device_properties option" where
  "dpm_find d m = m d"

lemma dpm_find_simps [simp]:
  "dpm_find d (dpm_insert d' v m) = (if d = d' then Some v else dpm_find d m)"
  "dpm_find d (dpm_erase d' m) = (if d = d' then None else dpm_find d m)"
  "dpm_find d (dpm_clear m) = None"
  by (simp_all add: dpm_find_def dpm_insert_def dpm_erase_def dpm_clear_def)

lemma dpm_find_empty [simp]: "dpm_find d Map.empty = None"
  by (simp add: dpm_find_def)

subsection \<open>Properties\<close>

text \<open>
  \<open>compare\<close> is a strict total order on devices with different ids: irreflexive, transitive,
  and of two devices with different ids one comes first; sorting by it is well defined.
\<close>

theorem device_properties_compare_strict_total:
  "\<not> device_properties_compare a a
   \<and> (device_properties_compare a b \<and> device_properties_compare b c \<longrightarrow> device_properties_compare a c)
   \<and> (dp_device_id a = dp_device_id b \<or> device_properties_compare a b \<or> device_properties_compare b a)
   \<and> \<not> (device_properties_compare a b \<and> device_properties_compare b a)"
proof -
  have "dp_device_id a = dp_device_id b \<or> compare_key a < compare_key b \<or> compare_key b < compare_key a"
    using compare_key_device_id[of a b] linorder_less_linear[of "compare_key a" "compare_key b"] by blast
  moreover have "compare_key a < compare_key b \<and> compare_key b < compare_key c \<longrightarrow> compare_key a < compare_key c"
    using less_trans[of "compare_key a" "compare_key b" "compare_key c"] by blast
  moreover have "\<not> (compare_key a < compare_key b \<and> compare_key b < compare_key a)"
    using less_asym[of "compare_key a" "compare_key b"] by blast
  ultimately show ?thesis unfolding compare_iff_key using less_irrefl[of "compare_key a"] by blast
qed

lemma make_device_properties_device_id:
  "dp_device_id (make_device_properties p) = ip_device_id p"
  "dp_product (make_device_properties p) = touch_bar_product p"
  "dp_manufacturer (make_device_properties p) = touch_bar_manufacturer p"
  by (simp_all add: make_device_properties_def Let_def)

lemma make_device_properties_identifiers_update:
  "dp_device_identifiers (make_device_properties (p\<lparr>ip_device_id := n\<rparr>)) =
     dp_device_identifiers (make_device_properties p)"
  "touch_bar_product (p\<lparr>ip_device_id := n\<rparr>) = touch_bar_product p"
  "touch_bar_manufacturer (p\<lparr>ip_device_id := n\<rparr>) = touch_bar_manufacturer p"
  by (simp_all add: make_device_properties_def Let_def touch_bar_product_def touch_bar_manufacturer_def)

theorem device_properties_compare_strict_total_witness:
  "device_properties_compare
     (make_device_properties (initialization_parameters_default\<lparr>ip_device_id := 1\<rparr>))
     (make_device_properties (initialization_parameters_default\<lparr>ip_device_id := 3\<rparr>))"
proof -
  let ?mk = "\<lambda>n. make_device_properties (initialization_parameters_default\<lparr>ip_device_id := n\<rparr>)"
  have "device_properties_compare (?mk m) (?mk n)" if "m < n" for m n
    using that unfolding device_properties_compare_def Let_def make_device_properties_device_id
      make_device_properties_identifiers_update
    by simp
  then show ?thesis
    using device_properties_compare_strict_total[of "?mk 1" "?mk 2" "?mk 3"] by simp
qed

end
