(* ===== verification/Expressions.thy ===== *)
theory Expressions
  imports Types
begin

text \<open>
  \<open>src/share/exprtk_utility.hpp\<close>, \<open>src/share/types/manipulator_environment_variable_value.hpp\<close>
  and \<open>src/share/manipulator/condition_expression_manager.hpp\<close>: the variables of the
  manipulators, the expression objects that read them, and the global manager that copies
  variable values into the expressions of the conditions.

  The expression language itself is the third-party library exprtk: compiling (which symbols an
  expression mentions) and evaluating (which may also assign to the expression's own variables)
  are parameters, fields of the \<open>platform\<close> record. Expression objects are shared, so they live in
  a heap; a released object has no heap entry, which is what \<open>weak_ptr::lock\<close> tests.
\<close>

subsection \<open>Floating point values\<close>

datatype double = Nan | Infinite bool | Finite rat

definition double_isfinite :: "double \<Rightarrow> bool" where
  "double_isfinite d \<longleftrightarrow> (case d of Finite _ \<Rightarrow> True | _ \<Rightarrow> False)"

definition double_isnan :: "double \<Rightarrow> bool" where
  "double_isnan d \<longleftrightarrow> d = Nan"

text \<open>The conversion of a double to \<open>bool\<close>: everything but zero is true.\<close>

definition double_to_bool :: "double \<Rightarrow> bool" where
  "double_to_bool d \<longleftrightarrow> d \<noteq> Finite 0"

text \<open>The conversion of a double to an integer type drops the fraction.\<close>

definition rat_truncate :: "rat \<Rightarrow> int" where
  "rat_truncate r = (if 0 \<le> r then \<lfloor>r\<rfloor> else \<lceil>r\<rceil>)"

subsection \<open>Platform parameters\<close>

text \<open>
  What the code takes from outside the repository: the readings of the system clock (the n-th
  call), the rounding of 64-bit integers to doubles, the result of converting a double that does
  not fit \<open>int64_t\<close>, exprtk, \<open>std::regex\<close> (searching, and the message of a regular expression that
  does not compile), and the conversions between milliseconds and ticks of
  \<open>pqrs::osx::chrono\<close>.
\<close>

record platform =
  pf_system_clock_milliseconds :: "nat \<Rightarrow> int"
  pf_double_of_int64 :: "int \<Rightarrow> rat"
  pf_int64_overflow :: "int"
  pf_compile :: "string \<Rightarrow> (string \<rightharpoonup> double) \<times> (string \<rightharpoonup> string)"
  pf_value :: "string \<Rightarrow> (string \<rightharpoonup> double) \<Rightarrow> (string \<rightharpoonup> string) \<Rightarrow>
      double \<times> (string \<rightharpoonup> double) \<times> (string \<rightharpoonup> string)"
  pf_regex_search :: "string \<Rightarrow> string \<Rightarrow> bool"
  pf_regex_error :: "string \<Rightarrow> string option"
  pf_make_absolute_time_duration :: "milliseconds \<Rightarrow> absolute_time_duration"
  pf_make_milliseconds :: "absolute_time_duration \<Rightarrow> milliseconds"

subsection \<open>Expression objects\<close>

record expression_wrapper =
  ew_expression_string :: string
  ew_variables :: "string \<rightharpoonup> double"
  ew_string_variables :: "string \<rightharpoonup> string"

definition is_string_variable_name :: "string \<Rightarrow> bool" where
  "is_string_variable_name name \<longleftrightarrow>
     length name \<ge> 7 \<and> drop (length name - 7) name = ''_string''"

definition compile_expression :: "platform \<Rightarrow> string \<Rightarrow> expression_wrapper" where
  "compile_expression P s =
     \<lparr>ew_expression_string = s, ew_variables = fst (pf_compile P s),
      ew_string_variables = snd (pf_compile P s)\<rparr>"

text \<open>Setting a variable the expression does not mention has no effect.\<close>

definition ew_set_variable ::
    "string \<Rightarrow> double \<Rightarrow> expression_wrapper \<Rightarrow> bool \<times> expression_wrapper" where
  "ew_set_variable name v e =
     (if is_string_variable_name name then (False, e)
      else (True, if name \<in> dom (ew_variables e)
                  then e\<lparr>ew_variables := (ew_variables e)(name \<mapsto> v)\<rparr> else e))"

definition ew_set_string_variable ::
    "string \<Rightarrow> string \<Rightarrow> expression_wrapper \<Rightarrow> bool \<times> expression_wrapper" where
  "ew_set_string_variable name v e =
     (if \<not> is_string_variable_name name then (False, e)
      else (True, if name \<in> dom (ew_string_variables e)
                  then e\<lparr>ew_string_variables := (ew_string_variables e)(name \<mapsto> v)\<rparr> else e))"

text \<open>Evaluating may assign to the expression's own variables.\<close>

definition ew_value :: "platform \<Rightarrow> expression_wrapper \<Rightarrow> double \<times> expression_wrapper" where
  "ew_value P e =
     (case pf_value P (ew_expression_string e) (ew_variables e) (ew_string_variables e) of
        (d, vs, svs) \<Rightarrow> (d, e\<lparr>ew_variables := vs, ew_string_variables := svs\<rparr>))"

text \<open>
  \<open>value<int64_t>\<close>. Its upper bound is \<open>double(INT64_MAX)\<close>, which rounds to \<open>2 ^ 63\<close>: the value
  \<open>2 ^ 63\<close> itself passes the test and overflows in the conversion.
\<close>

definition double_to_int64 :: "platform \<Rightarrow> double \<Rightarrow> int" where
  "double_to_int64 P d =
     (case d of
        Finite r \<Rightarrow>
          (if r < - (2 ^ 63) \<or> r > 2 ^ 63 then 0
           else if rat_truncate r < - (2 ^ 63) \<or> rat_truncate r \<ge> 2 ^ 63 then pf_int64_overflow P
           else rat_truncate r)
      | _ \<Rightarrow> 0)"

definition compare_expressions ::
    "expression_wrapper option \<Rightarrow> expression_wrapper option \<Rightarrow> bool" where
  "compare_expressions a b \<longleftrightarrow>
     (case (a, b) of
        (Some x, Some y) \<Rightarrow> ew_expression_string x = ew_expression_string y
      | (None, None) \<Rightarrow> True
      | _ \<Rightarrow> False)"

subsection \<open>Variable values\<close>

datatype variable_value = Var_int int | Var_bool bool | Var_string string

definition variable_value_default :: variable_value where
  "variable_value_default = Var_int 0"

definition apply_to_expression_variable ::
    "platform \<Rightarrow> string \<Rightarrow> variable_value \<Rightarrow> expression_wrapper \<Rightarrow> expression_wrapper" where
  "apply_to_expression_variable P name v e =
     (case v of
        Var_int i \<Rightarrow> snd (ew_set_variable name (Finite (pf_double_of_int64 P i)) e)
      | Var_bool b \<Rightarrow> snd (ew_set_variable name (Finite (if b then 1 else 0)) e)
      | Var_string s \<Rightarrow> snd (ew_set_string_variable name s e))"

text \<open>
  \<open>manipulator_environment::apply_to_expression_variable\<close> applies every variable of an unordered
  map. The names are distinct and each application touches its own name only, so the result does
  not depend on the order: it is one update of all names (lemma \<open>apply_variables_fold\<close>).
\<close>

definition numeric_value :: "platform \<Rightarrow> variable_value \<Rightarrow> double option" where
  "numeric_value P v =
     (case v of
        Var_int i \<Rightarrow> Some (Finite (pf_double_of_int64 P i))
      | Var_bool b \<Rightarrow> Some (Finite (if b then 1 else 0))
      | Var_string _ \<Rightarrow> None)"

definition apply_variables ::
    "platform \<Rightarrow> (string \<rightharpoonup> variable_value) \<Rightarrow> expression_wrapper \<Rightarrow> expression_wrapper" where
  "apply_variables P vars e =
     e\<lparr>ew_variables := (\<lambda>n. case ew_variables e n of
                            None \<Rightarrow> None
                          | Some old \<Rightarrow>
                              (if is_string_variable_name n then Some old
                               else case vars n of
                                      None \<Rightarrow> Some old
                                    | Some v \<Rightarrow> (case numeric_value P v of
                                                   None \<Rightarrow> Some old | Some d \<Rightarrow> Some d))),
       ew_string_variables := (\<lambda>n. case ew_string_variables e n of
                                   None \<Rightarrow> None
                                 | Some old \<Rightarrow>
                                     (if \<not> is_string_variable_name n then Some old
                                      else case vars n of
                                             Some (Var_string s) \<Rightarrow> Some s
                                           | _ \<Rightarrow> Some old))\<rparr>"

lemma apply_variables_empty [simp]: "apply_variables P Map.empty e = e"
  by (simp add: apply_variables_def option.case_eq_if fun_eq_iff)

lemma apply_variables_update:
  assumes "vars name = None"
  shows "apply_to_expression_variable P name v (apply_variables P vars e) =
    apply_variables P (vars(name \<mapsto> v)) e"
  by (rule expression_wrapper.equality)
     (use assms in \<open>auto simp: apply_to_expression_variable_def apply_variables_def
        ew_set_variable_def ew_set_string_variable_def numeric_value_def fun_eq_iff dom_def
        split: variable_value.splits option.splits\<close>)

lemma apply_variables_fold:
  "distinct (map fst kvs) \<Longrightarrow>
   foldl (\<lambda>e (name, v). apply_to_expression_variable P name v e) e kvs =
     apply_variables P (map_of kvs) e"
proof (induction kvs rule: rev_induct)
  case Nil then show ?case by simp
next
  case (snoc kv kvs)
  obtain name v where kv: "kv = (name, v)" by force
  have "map_of kvs name = None" using snoc.prems kv by (simp add: map_of_eq_None_iff)
  then have "map_of (kvs @ [kv]) = (map_of kvs)(name \<mapsto> v)"
    using kv by (auto simp: fun_eq_iff map_add_def split: option.splits)
  then show ?case
    using snoc kv \<open>map_of kvs name = None\<close>
    by (simp add: apply_variables_update) (simp add: fun_upd_def)
qed

subsection \<open>condition_expression_manager and the shared state\<close>

type_synonym expression_id = nat

record condition_expression_manager =
  cem_expressions :: "expression_id list"
  cem_variables :: "string \<rightharpoonup> double"
  cem_string_variables :: "string \<rightharpoonup> string"

text \<open>
  The state every queue and manipulator shares: the heap of expression objects, the global
  condition expression manager and the number of clock readings so far.
\<close>

record world =
  w_expressions :: "expression_id \<rightharpoonup> expression_wrapper"
  w_condition_expression_manager :: condition_expression_manager
  w_clock_reads :: nat

definition world_initial :: world where
  "world_initial =
     \<lparr>w_expressions = Map.empty,
      w_condition_expression_manager =
        \<lparr>cem_expressions = [], cem_variables = Map.empty, cem_string_variables = Map.empty\<rparr>,
      w_clock_reads = 0\<rparr>"

definition modify_expression ::
    "expression_id \<Rightarrow> (expression_wrapper \<Rightarrow> expression_wrapper) \<Rightarrow> world \<Rightarrow> world" where
  "modify_expression i f w =
     (case w_expressions w i of
        None \<Rightarrow> w
      | Some e \<Rightarrow> w\<lparr>w_expressions := (w_expressions w)(i \<mapsto> f e)\<rparr>)"

definition world_expression_value :: "platform \<Rightarrow> expression_id \<Rightarrow> world \<Rightarrow> double \<times> world" where
  "world_expression_value P i w =
     (case w_expressions w i of
        None \<Rightarrow> (Nan, w)
      | Some e \<Rightarrow>
          (case ew_value P e of
             (d, e') \<Rightarrow> (d, w\<lparr>w_expressions := (w_expressions w)(i \<mapsto> e')\<rparr>)))"

definition read_system_clock :: "platform \<Rightarrow> world \<Rightarrow> int \<times> world" where
  "read_system_clock P w =
     (pf_system_clock_milliseconds P (w_clock_reads w), w\<lparr>w_clock_reads := Suc (w_clock_reads w)\<rparr>)"

abbreviation cem_update ::
    "(condition_expression_manager \<Rightarrow> condition_expression_manager) \<Rightarrow> world \<Rightarrow> world" where
  "cem_update f w \<equiv> w\<lparr>w_condition_expression_manager := f (w_condition_expression_manager w)\<rparr>"

definition set_all_variables ::
    "(string \<rightharpoonup> double) \<Rightarrow> expression_wrapper \<Rightarrow> expression_wrapper" where
  "set_all_variables vs e =
     e\<lparr>ew_variables := (\<lambda>n. case ew_variables e n of
                            None \<Rightarrow> None
                          | Some old \<Rightarrow>
                              if is_string_variable_name n then Some old
                              else (case vs n of None \<Rightarrow> Some old | Some d \<Rightarrow> Some d))\<rparr>"

definition set_all_string_variables ::
    "(string \<rightharpoonup> string) \<Rightarrow> expression_wrapper \<Rightarrow> expression_wrapper" where
  "set_all_string_variables vs e =
     e\<lparr>ew_string_variables := (\<lambda>n. case ew_string_variables e n of
                                   None \<Rightarrow> None
                                 | Some old \<Rightarrow>
                                     if \<not> is_string_variable_name n then Some old
                                     else (case vs n of None \<Rightarrow> Some old | Some d \<Rightarrow> Some d))\<rparr>"

definition cem_insert :: "expression_id \<Rightarrow> world \<Rightarrow> world" where
  "cem_insert i w =
     (let m = w_condition_expression_manager w;
          w1 = cem_update (\<lambda>m. m\<lparr>cem_expressions := cem_expressions m @ [i]\<rparr>) w
      in modify_expression i
           (set_all_string_variables (cem_string_variables m) \<circ> set_all_variables (cem_variables m)) w1)"

text \<open>
  The two setters and \<open>apply_environment_variables\<close> walk the list inside \<open>std::erase_if\<close>: expired
  entries are dropped, live ones are updated. The value is stored by the same callback, so it is
  stored only when some expression is alive.
\<close>

fun cem_walk ::
    "(expression_id \<Rightarrow> world \<Rightarrow> world) \<Rightarrow> expression_id list \<Rightarrow> world \<Rightarrow> expression_id list \<times> world" where
  "cem_walk f [] w = ([], w)"
| "cem_walk f (i # is) w =
     (if w_expressions w i = None then cem_walk f is w
      else case cem_walk f is (f i w) of (is', w') \<Rightarrow> (i # is', w'))"

definition cem_erase_if :: "(expression_id \<Rightarrow> world \<Rightarrow> world) \<Rightarrow> world \<Rightarrow> world" where
  "cem_erase_if f w =
     (case cem_walk f (cem_expressions (w_condition_expression_manager w)) w of
        (is', w') \<Rightarrow> cem_update (\<lambda>m. m\<lparr>cem_expressions := is'\<rparr>) w')"

definition cem_set_variable :: "string \<Rightarrow> double \<Rightarrow> world \<Rightarrow> world" where
  "cem_set_variable name v w =
     cem_erase_if (\<lambda>i w.
       if \<not> is_string_variable_name name then
         cem_update (\<lambda>m. m\<lparr>cem_variables := (cem_variables m)(name \<mapsto> v)\<rparr>)
           (modify_expression i (\<lambda>e. snd (ew_set_variable name v e)) w)
       else w) w"

definition cem_set_string_variable :: "string \<Rightarrow> string \<Rightarrow> world \<Rightarrow> world" where
  "cem_set_string_variable name v w =
     cem_erase_if (\<lambda>i w.
       if is_string_variable_name name then
         cem_update (\<lambda>m. m\<lparr>cem_string_variables := (cem_string_variables m)(name \<mapsto> v)\<rparr>)
           (modify_expression i (\<lambda>e. snd (ew_set_string_variable name v e)) w)
       else w) w"

definition cem_apply_environment_variables ::
    "platform \<Rightarrow> (string \<rightharpoonup> variable_value) \<Rightarrow> world \<Rightarrow> world" where
  "cem_apply_environment_variables P vars w =
     cem_erase_if (\<lambda>i w. modify_expression i (apply_variables P vars) w) w"

subsection \<open>What the walks do\<close>

definition live :: "world \<Rightarrow> expression_id \<Rightarrow> bool" where
  "live w i \<longleftrightarrow> w_expressions w i \<noteq> None"

lemma modify_expression_expressions:
  "w_expressions (modify_expression i f w) =
     (\<lambda>j. if j = i then map_option f (w_expressions w i) else w_expressions w j)"
  by (auto simp: modify_expression_def fun_eq_iff split: option.splits)

lemma modify_expression_frame [frame]:
  "w_condition_expression_manager (modify_expression i f w) = w_condition_expression_manager w"
  "w_clock_reads (modify_expression i f w) = w_clock_reads w"
  by (simp_all add: modify_expression_def split: option.splits)

lemma cem_walk_modify:
  assumes "\<And>e. g (g e) = g e"
  shows "fst (cem_walk (\<lambda>i. modify_expression i g) is w) = filter (live w) is \<and>
    w_expressions (snd (cem_walk (\<lambda>i. modify_expression i g) is w)) =
      (\<lambda>i. if i \<in> set is then map_option g (w_expressions w i) else w_expressions w i) \<and>
    w_condition_expression_manager (snd (cem_walk (\<lambda>i. modify_expression i g) is w)) =
      w_condition_expression_manager w \<and>
    w_clock_reads (snd (cem_walk (\<lambda>i. modify_expression i g) is w)) = w_clock_reads w"
proof (induction "is" arbitrary: w)
  case Nil then show ?case by simp
next
  case (Cons i "is")
  have live_eq: "live (modify_expression i g w) = live w"
    by (auto simp: live_def fun_eq_iff modify_expression_expressions)
  show ?case
    using Cons.IH[of w] Cons.IH[of "modify_expression i g w"] live_eq assms
    by (auto simp: live_def modify_expression_expressions frame fun_eq_iff option.map_comp comp_def
        split: prod.splits)
qed

lemma apply_variables_idem: "apply_variables P vars (apply_variables P vars e) = apply_variables P vars e"
  by (rule expression_wrapper.equality)
     (auto simp: apply_variables_def fun_eq_iff split: option.splits variable_value.splits)

lemma cem_apply_environment_variables_eq:
  "cem_apply_environment_variables P vars w =
     w\<lparr>w_expressions :=
         (\<lambda>i. if i \<in> set (cem_expressions (w_condition_expression_manager w))
              then map_option (apply_variables P vars) (w_expressions w i) else w_expressions w i),
       w_condition_expression_manager := (w_condition_expression_manager w)
         \<lparr>cem_expressions := filter (live w) (cem_expressions (w_condition_expression_manager w))\<rparr>\<rparr>"
  using cem_walk_modify[of "apply_variables P vars", OF apply_variables_idem,
      of "cem_expressions (w_condition_expression_manager w)" w]
  by (auto simp: cem_apply_environment_variables_def cem_erase_if_def split: prod.splits
      intro!: world.equality)

subsection \<open>Properties\<close>

text \<open>
  After \<open>apply_environment_variables\<close> every live registered expression holds the environment's
  value for each numeric variable it mentions that the environment defines, expired expressions
  are off the list, and unregistered expressions are untouched.
\<close>

theorem environment_reaches_registered_expressions:
  assumes "w_expressions w i = Some e" "name \<in> dom (ew_variables e)"
    and "\<not> is_string_variable_name name" "vars name = Some v" "numeric_value P v = Some d"
  defines "w' \<equiv> cem_apply_environment_variables P vars w"
  shows "map_option (\<lambda>e. ew_variables e name) (w_expressions w' i) =
      (if i \<in> set (cem_expressions (w_condition_expression_manager w)) then Some (Some d)
       else Some (ew_variables e name))
    \<and> cem_expressions (w_condition_expression_manager w') =
        filter (live w) (cem_expressions (w_condition_expression_manager w))"
  using assms(1-5)
  by (auto simp: w'_def cem_apply_environment_variables_eq apply_variables_def)

definition witness_platform :: platform where
  "witness_platform =
     \<lparr>pf_system_clock_milliseconds = (\<lambda>n. 1000 + int n), pf_double_of_int64 = rat_of_int,
      pf_int64_overflow = - (2 ^ 63),
      pf_compile = (\<lambda>s. ([s \<mapsto> Finite 0], Map.empty)),
      pf_value = (\<lambda>s vs svs. (case vs s of Some d \<Rightarrow> d | None \<Rightarrow> Nan, vs, svs)),
      pf_regex_search = (\<lambda>s r. s = r),
      pf_regex_error = (\<lambda>r. None),
      pf_make_absolute_time_duration = (\<lambda>ms. ms * 1000000),
      pf_make_milliseconds = (\<lambda>t. t div 1000000)\<rparr>"

definition witness_world :: world where
  "witness_world =
     world_initial
       \<lparr>w_expressions := [7 \<mapsto> compile_expression witness_platform ''x''],
        w_condition_expression_manager :=
          \<lparr>cem_expressions = [7, 8], cem_variables = Map.empty, cem_string_variables = Map.empty\<rparr>\<rparr>"

lemma witness_world_simps:
  "w_expressions witness_world =
     [7 \<mapsto> \<lparr>ew_expression_string = ''x'', ew_variables = [''x'' \<mapsto> Finite 0],
            ew_string_variables = Map.empty\<rparr>]"
  "cem_expressions (w_condition_expression_manager witness_world) = [7, 8]"
  by (simp_all add: witness_world_def compile_expression_def witness_platform_def)

theorem environment_reaches_registered_expressions_witness:
  "map_option (\<lambda>e. ew_variables e ''x'')
     (w_expressions (cem_apply_environment_variables witness_platform [''x'' \<mapsto> Var_int 5] witness_world) 7)
   = Some (Some (Finite 5))"
  using environment_reaches_registered_expressions
    [of witness_world 7 _ "''x''" "[''x'' \<mapsto> Var_int 5]" "Var_int 5" witness_platform "Finite 5"]
  by (simp add: witness_world_simps is_string_variable_name_def numeric_value_def witness_platform_def)

text \<open>
  A variable that leaves the environment keeps its last value inside the expressions: applying
  an environment with the variable and then one without it is the same as applying only the
  first as far as that variable is concerned, although an undefined variable reads as 0 elsewhere.
\<close>

theorem unset_variable_stays_in_expressions:
  assumes "w_expressions w i = Some e" "ew_variables e name \<noteq> None"
    and "i \<in> set (cem_expressions (w_condition_expression_manager w))"
    and "\<not> is_string_variable_name name" "vars name = Some (Var_int n)"
  shows "map_option (\<lambda>e. ew_variables e name)
      (w_expressions
        (cem_apply_environment_variables P (vars(name := None))
          (cem_apply_environment_variables P vars w)) i) =
      Some (Some (Finite (pf_double_of_int64 P n)))"
  using assms by (auto simp: cem_apply_environment_variables_eq apply_variables_def numeric_value_def live_def)

theorem unset_variable_stays_in_expressions_witness:
  "map_option (\<lambda>e. ew_variables e ''x'')
     (w_expressions
        (cem_apply_environment_variables witness_platform Map.empty
          (cem_apply_environment_variables witness_platform [''x'' \<mapsto> Var_int 5] witness_world)) 7)
   = Some (Some (Finite 5))"
  using unset_variable_stays_in_expressions
    [of witness_world 7 _ "''x''" "[''x'' \<mapsto> Var_int 5]" 5 witness_platform]
  by (simp add: witness_world_simps is_string_variable_name_def fun_upd_idem_iff witness_platform_def)

text \<open>
  \<open>value<int64_t>\<close> truncates every finite value of absolute value below \<open>2 ^ 63\<close>, maps
  everything else to 0 except \<open>- (2 ^ 63)\<close>, which is exact, and \<open>2 ^ 63\<close>, which passes the range
  test and overflows.
\<close>

theorem double_to_int64_cases:
  "double_to_int64 P d =
     (case d of
        Finite r \<Rightarrow>
          (if \<bar>r\<bar> < 2 ^ 63 then rat_truncate r
           else if r = - (2 ^ 63) then - (2 ^ 63)
           else if r = 2 ^ 63 then pf_int64_overflow P
           else 0)
      | _ \<Rightarrow> 0)"
proof (cases d)
  case (Finite r)
  have t: "- (2 ^ 63) < rat_truncate r \<and> rat_truncate r < 2 ^ 63" if "\<bar>r\<bar> < 2 ^ 63"
    using that by (auto simp: rat_truncate_def floor_less_iff less_ceiling_iff less_floor_iff)
  show ?thesis
    using Finite t by (auto simp: double_to_int64_def rat_truncate_def abs_less_iff)
qed (simp_all add: double_to_int64_def)

text \<open>
  A value given to the condition expression manager while no condition expression is alive is
  not stored, so an expression created later does not see it.
\<close>

theorem set_variable_without_expressions_is_lost:
  assumes "\<forall>i\<in>set (cem_expressions (w_condition_expression_manager w)). w_expressions w i = None"
  shows "cem_set_variable name v w = cem_update (\<lambda>m. m\<lparr>cem_expressions := []\<rparr>) w"
proof -
  have "cem_walk f is w = ([], w)" if "\<forall>i\<in>set is. w_expressions w i = None" for f "is"
    using that by (induction "is") auto
  then show ?thesis using assms by (simp add: cem_set_variable_def cem_erase_if_def)
qed

theorem set_variable_without_expressions_is_lost_witness:
  "cem_variables (w_condition_expression_manager (cem_set_variable ''x'' (Finite 1) world_initial)) = Map.empty"
  using set_variable_without_expressions_is_lost[of world_initial "''x''" "Finite 1"]
  by (simp add: world_initial_def)

end
