(* ===== verification/Event_Queue.thy ===== *)
theory Event_Queue
  imports Modifier_Flag_Manager Pointing_Button_Manager Device_Properties Expressions
    "HOL-Library.Multiset"
begin

text \<open>
  \<open>src/share/event_queue/event.hpp\<close>, \<open>entry.hpp\<close>, \<open>event_time_stamp.hpp\<close>, \<open>state.hpp\<close> and
  \<open>queue.hpp\<close>, with \<open>src/share/manipulator/manipulator_environment.hpp\<close>, whose state every queue
  owns. Appending an entry updates the queue's modifier flags, pointing buttons and environment.

  The theory shows that appending keeps the modifier flag invariant and what it does to the
  flags for each kind of event, that the reordering loop \<open>sort_events\<close> ends with a permutation
  in which no neighbours are out of order and which keeps the order within modifiers and within
  other events, and that consumed queues forget their time stamp delay.
\<close>

subsection \<open>Payloads\<close>

record application =
  app_bundle_identifier :: "string option"
  app_bundle_path :: "string option"
  app_file_path :: "string option"
  app_pid :: "int option"

record input_source_properties =
  isp_input_source_id :: "string option"
  isp_localized_name :: "string option"
  isp_input_mode_id :: "string option"
  isp_languages :: "string list"
  isp_first_language :: "string option"

record input_source_specifier =
  iss_language :: "string option"
  iss_input_source_id :: "string option"
  iss_input_mode_id :: "string option"

record system_preferences_properties =
  spp_use_fkeys_as_standard_function_keys :: bool
  spp_scroll_direction_is_natural :: bool

datatype position_type = pos_point | pos_percent

datatype software_function =
    Sf_cg_event_double_click nat
  | Sf_iokit_power_management_sleep_system milliseconds
  | Sf_open_application "string option" "string option" "nat option"
  | Sf_set_mouse_cursor_position "int \<times> position_type" "int \<times> position_type" "nat option"
  | Sf_none

datatype set_variable_type = sv_set | sv_unset

record set_variable =
  sv_name :: "string option"
  sv_value :: "variable_value option"
  sv_expression :: "expression_id option"
  sv_key_up_value :: "variable_value option"
  sv_key_up_expression :: "expression_id option"
  sv_type :: set_variable_type

subsection \<open>event, event_time_stamp, entry\<close>

text \<open>
  The code keeps a type tag next to a variant; its factory functions pair each tag with its own
  alternative, so one constructor stands for both.
\<close>

datatype event =
    Ev_none
  | Ev_momentary_switch_event momentary_switch_event
  | Ev_pointing_motion pointing_motion
  | Ev_shell_command string
  | Ev_select_input_source "input_source_specifier list"
  | Ev_set_variable set_variable
  | Ev_set_notification_message notification_message
  | Ev_mouse_key mouse_key
  | Ev_sticky_modifier modifier_flag sticky_modifier_type
  | Ev_software_function software_function
  | Ev_stop_keyboard_repeat
  | Ev_device_keys_and_pointing_buttons_are_released
  | Ev_device_grabbed device_properties
  | Ev_device_ungrabbed
  | Ev_caps_lock_state_changed int
  | Ev_pointing_device_event_from_event_tap
  | Ev_frontmost_application_changed application
  | Ev_input_source_changed input_source_properties
  | Ev_system_preferences_properties_changed system_preferences_properties
  | Ev_virtual_hid_devices_state_changed virtual_hid_devices_state

fun event_mse :: "event \<Rightarrow> momentary_switch_event option" where
  "event_mse (Ev_momentary_switch_event e) = Some e"
| "event_mse _ = None"

record event_time_stamp =
  ets_time_stamp :: absolute_time_point
  ets_input_delay_duration :: absolute_time_duration

definition make_event_time_stamp :: "absolute_time_point \<Rightarrow> event_time_stamp" where
  "make_event_time_stamp t = \<lparr>ets_time_stamp = t, ets_input_delay_duration = 0\<rparr>"

definition make_time_stamp_with_input_delay :: "event_time_stamp \<Rightarrow> absolute_time_point" where
  "make_time_stamp_with_input_delay t = ets_time_stamp t + ets_input_delay_duration t"

datatype event_state = st_original | st_manipulated | st_virtual_event

record entry =
  en_device_id :: device_id
  en_event_time_stamp :: event_time_stamp
  en_validity :: validity
  en_state :: event_state
  en_lazy :: bool
  en_event :: event
  en_event_type :: event_type
  en_original_event :: event

definition make_entry ::
    "device_id \<Rightarrow> event_time_stamp \<Rightarrow> event \<Rightarrow> event_type \<Rightarrow> event \<Rightarrow> event_state \<Rightarrow> bool \<Rightarrow> entry" where
  "make_entry d t e et oe st lz =
     \<lparr>en_device_id = d, en_event_time_stamp = t, en_validity = valid, en_state = st, en_lazy = lz,
      en_event = e, en_event_type = et, en_original_event = oe\<rparr>"

abbreviation en_time_stamp :: "entry \<Rightarrow> absolute_time_point" where
  "en_time_stamp e \<equiv> ets_time_stamp (en_event_time_stamp e)"

subsection \<open>manipulator_environment\<close>

text \<open>
  Of the core configuration the path of an event reads the following values; theory
  \<open>Device_Entry\<close> takes them from the configuration that was loaded.
\<close>

record core_configuration =
  cc_treat_as_built_in_keyboard :: "device_identifiers \<Rightarrow> bool"
  cc_keyboard_type_v2 :: string
  cc_mouse_key_xy_scale :: int
  cc_indicate_sticky_modifier_keys_state :: bool

record manipulator_environment =
  env_karabiner_machine_identifier :: string
  env_device_properties_manager :: device_properties_manager
  env_frontmost_application :: application
  env_input_source_properties :: input_source_properties
  env_variables :: "string \<rightharpoonup> variable_value"
  env_core_configuration :: core_configuration
  env_virtual_hid_devices_state :: virtual_hid_devices_state

definition get_variable :: "string \<Rightarrow> manipulator_environment \<Rightarrow> variable_value" where
  "get_variable name env =
     (case env_variables env name of Some v \<Rightarrow> v | None \<Rightarrow> variable_value_default)"

definition env_set_variable ::
    "string \<Rightarrow> variable_value \<Rightarrow> manipulator_environment \<Rightarrow> manipulator_environment" where
  "env_set_variable name v env = env\<lparr>env_variables := (env_variables env)(name \<mapsto> v)\<rparr>"

definition env_unset_variable ::
    "string \<Rightarrow> manipulator_environment \<Rightarrow> manipulator_environment" where
  "env_unset_variable name env = env\<lparr>env_variables := (env_variables env)(name := None)\<rparr>"

definition set_variable_system_now_milliseconds ::
    "platform \<Rightarrow> world \<times> manipulator_environment \<Rightarrow> world \<times> manipulator_environment" where
  "set_variable_system_now_milliseconds P s =
     (case read_system_clock P (fst s) of
        (now, w) \<Rightarrow> (w, env_set_variable ''system.now.milliseconds'' (Var_int now) (snd s)))"

definition env_insert_device_properties ::
    "device_id \<Rightarrow> device_properties \<Rightarrow> manipulator_environment \<Rightarrow> manipulator_environment" where
  "env_insert_device_properties d p env =
     env\<lparr>env_device_properties_manager := dpm_insert d p (env_device_properties_manager env)\<rparr>"

definition env_erase_device_properties ::
    "device_id \<Rightarrow> manipulator_environment \<Rightarrow> manipulator_environment" where
  "env_erase_device_properties d env =
     env\<lparr>env_device_properties_manager := dpm_erase d (env_device_properties_manager env)\<rparr>"

text \<open>\<open>device_utility::determine_is_built_in_keyboard\<close>.\<close>

definition determine_is_built_in_keyboard :: "core_configuration \<Rightarrow> device_properties \<Rightarrow> bool" where
  "determine_is_built_in_keyboard c dp \<longleftrightarrow>
     dp_is_built_in_keyboard dp \<or> cc_treat_as_built_in_keyboard c (dp_device_identifiers dp)"

lemma get_variable_set [simp]:
  "get_variable n (env_set_variable m v env) = (if n = m then v else get_variable n env)"
  by (simp add: get_variable_def env_set_variable_def)

lemma get_variable_unset [simp]:
  "get_variable n (env_unset_variable m env) =
     (if n = m then variable_value_default else get_variable n env)"
  by (simp add: get_variable_def env_unset_variable_def)

subsection \<open>The queue\<close>

record event_queue =
  q_events :: "entry list"
  q_modifier_flags :: "active_modifier_flag list"
  q_pointing_buttons :: "active_pointing_button list"
  q_environment :: manipulator_environment
  q_time_stamp_delay :: absolute_time_duration

text \<open>
  The update of the modifier flag manager: a modifier key pushes an increase or decrease flag; a
  valid press of any other key erases the sticky flags; a sticky modifier event pushes a sticky
  flag; a caps lock LED change pushes an LED lock flag.
\<close>

definition sticky_push_type ::
    "modifier_flag \<Rightarrow> sticky_modifier_type \<Rightarrow> active_modifier_flag list \<Rightarrow> amf_type" where
  "sticky_push_type m t fs =
     (case t of
        sm_toggle \<Rightarrow> if sticky_size m fs > 0 then decrease_sticky else increase_sticky
      | sm_on \<Rightarrow> increase_sticky
      | sm_off \<Rightarrow> decrease_sticky)"

definition queue_update_modifier_flags ::
    "entry \<Rightarrow> active_modifier_flag list \<Rightarrow> active_modifier_flag list" where
  "queue_update_modifier_flags en fs =
     (case en_event en of
        Ev_momentary_switch_event e \<Rightarrow>
          (let fs1 =
             (case make_modifier_flag e of
                Some m \<Rightarrow>
                  push_back_active_modifier_flag
                    (make_active_modifier_flag
                       (if en_event_type en = key_down then increase else decrease) m
                       (en_device_id en)) fs
              | None \<Rightarrow> fs)
           in if en_event_type en = key_down \<and> en_validity en = valid \<and> \<not> mse_is_modifier e
              then erase_all_sticky_modifier_flags fs1 else fs1)
      | Ev_sticky_modifier m t \<Rightarrow>
          (if en_event_type en = key_down \<or> en_event_type en = single
           then push_back_active_modifier_flag
                  (make_active_modifier_flag (sticky_push_type m t fs) m (en_device_id en)) fs
           else fs)
      | Ev_caps_lock_state_changed v \<Rightarrow>
          push_back_active_modifier_flag
            (make_active_modifier_flag (if v \<noteq> 0 then increase_led_lock else decrease_led_lock)
               mf_caps_lock (en_device_id en)) fs
      | _ \<Rightarrow> fs)"

definition queue_update_pointing_buttons ::
    "entry \<Rightarrow> active_pointing_button list \<Rightarrow> active_pointing_button list" where
  "queue_update_pointing_buttons en bs =
     (case en_event en of
        Ev_momentary_switch_event e \<Rightarrow>
          (if mse_is_pointing_button e
           then push_back_active_pointing_button
                  \<lparr>apb_type = (if en_event_type en = key_down then apb_increase else apb_decrease),
                   apb_usage_pair = get_usage_pair e, apb_device = en_device_id en\<rparr> bs
           else bs)
      | _ \<Rightarrow> bs)"

text \<open>
  The two assignments of a \<open>set_variable\<close> event: the constant first, then the expression, which is
  evaluated with the current variables and clock.
\<close>

definition env_assign_value ::
    "string \<Rightarrow> variable_value option \<Rightarrow> world \<times> manipulator_environment \<Rightarrow>
     world \<times> manipulator_environment" where
  "env_assign_value n v s =
     (case v of None \<Rightarrow> s | Some x \<Rightarrow> (fst s, env_set_variable n x (snd s)))"

definition env_assign_expression ::
    "platform \<Rightarrow> string \<Rightarrow> expression_id option \<Rightarrow> world \<times> manipulator_environment \<Rightarrow>
     world \<times> manipulator_environment" where
  "env_assign_expression P n x s =
     (case x of
        None \<Rightarrow> s
      | Some i \<Rightarrow>
          (let s1 = set_variable_system_now_milliseconds P s;
               w2 = modify_expression i (apply_variables P (env_variables (snd s1))) (fst s1)
           in case world_expression_value P i w2 of
                (d, w3) \<Rightarrow> (w3, env_set_variable n (Var_int (double_to_int64 P d)) (snd s1))))"

definition queue_update_set_variable ::
    "platform \<Rightarrow> set_variable \<Rightarrow> event_type \<Rightarrow> world \<times> manipulator_environment \<Rightarrow>
     world \<times> manipulator_environment" where
  "queue_update_set_variable P sv t s =
     (case sv_name sv of
        None \<Rightarrow> s
      | Some n \<Rightarrow>
          (case t of
             key_down \<Rightarrow>
               (case sv_type sv of
                  sv_set \<Rightarrow> env_assign_expression P n (sv_expression sv) (env_assign_value n (sv_value sv) s)
                | sv_unset \<Rightarrow> (fst s, env_unset_variable n (snd s)))
           | key_up \<Rightarrow>
               (case sv_type sv of
                  sv_set \<Rightarrow> env_assign_expression P n (sv_key_up_expression sv)
                              (env_assign_value n (sv_key_up_value sv) s)
                | sv_unset \<Rightarrow> s)
           | single \<Rightarrow> s))"

definition queue_update_environment ::
    "platform \<Rightarrow> entry \<Rightarrow> world \<times> manipulator_environment \<Rightarrow> world \<times> manipulator_environment" where
  "queue_update_environment P en s =
     (case en_event en of
        Ev_device_grabbed dp \<Rightarrow> (fst s, env_insert_device_properties (en_device_id en) dp (snd s))
      | Ev_device_ungrabbed \<Rightarrow> (fst s, env_erase_device_properties (en_device_id en) (snd s))
      | Ev_frontmost_application_changed a \<Rightarrow> (fst s, (snd s)\<lparr>env_frontmost_application := a\<rparr>)
      | Ev_input_source_changed p \<Rightarrow> (fst s, (snd s)\<lparr>env_input_source_properties := p\<rparr>)
      | Ev_set_variable sv \<Rightarrow> queue_update_set_variable P sv (en_event_type en) s
      | Ev_system_preferences_properties_changed p \<Rightarrow>
          (fst s, env_set_variable ''system.scroll_direction_is_natural''
                    (Var_bool (spp_scroll_direction_is_natural p))
                    (env_set_variable ''system.use_fkeys_as_standard_function_keys''
                       (Var_bool (spp_use_fkeys_as_standard_function_keys p)) (snd s)))
      | Ev_virtual_hid_devices_state_changed v \<Rightarrow> (fst s, (snd s)\<lparr>env_virtual_hid_devices_state := v\<rparr>)
      | _ \<Rightarrow> s)"

definition delay_entry :: "absolute_time_duration \<Rightarrow> entry \<Rightarrow> entry" where
  "delay_entry delay en =
     en\<lparr>en_event_time_stamp := (en_event_time_stamp en)\<lparr>ets_time_stamp := en_time_stamp en + delay\<rparr>\<rparr>"

text \<open>\<open>emplace_back_entry\<close> and \<open>push_back_entry\<close>, which passes the fields of an entry to it.\<close>

definition emplace_back_entry ::
    "platform \<Rightarrow> entry \<Rightarrow> world \<times> event_queue \<Rightarrow> world \<times> event_queue" where
  "emplace_back_entry P en s =
     (case queue_update_environment P en (fst s, q_environment (snd s)) of
        (w, env) \<Rightarrow>
          (w, (snd s)
             \<lparr>q_events := q_events (snd s) @ [delay_entry (q_time_stamp_delay (snd s)) en],
              q_modifier_flags := queue_update_modifier_flags en (q_modifier_flags (snd s)),
              q_pointing_buttons := queue_update_pointing_buttons en (q_pointing_buttons (snd s)),
              q_environment := env\<rparr>))"

definition clear_events :: "event_queue \<Rightarrow> event_queue" where
  "clear_events q = q\<lparr>q_events := [], q_time_stamp_delay := 0\<rparr>"

text \<open>Defined for a queue that is not empty, as in the code.\<close>

definition erase_front_event :: "event_queue \<Rightarrow> event_queue" where
  "erase_front_event q =
     (let q1 = q\<lparr>q_events := tl (q_events q)\<rparr>
      in if q_events q1 = [] then q1\<lparr>q_time_stamp_delay := 0\<rparr> else q1)"

definition queue_empty :: "event_queue \<Rightarrow> bool" where
  "queue_empty q \<longleftrightarrow> q_events q = []"

definition increase_time_stamp_delay :: "absolute_time_duration \<Rightarrow> event_queue \<Rightarrow> event_queue" where
  "increase_time_stamp_delay d q = q\<lparr>q_time_stamp_delay := q_time_stamp_delay q + d\<rparr>"

definition queue_erase_all_active_modifier_flags :: "device_id \<Rightarrow> event_queue \<Rightarrow> event_queue" where
  "queue_erase_all_active_modifier_flags d q =
     q\<lparr>q_modifier_flags := mfm_erase_all_active_modifier_flags d (q_modifier_flags q)\<rparr>"

definition queue_erase_all_active_modifier_flags_except_lock_and_sticky ::
    "device_id \<Rightarrow> event_queue \<Rightarrow> event_queue" where
  "queue_erase_all_active_modifier_flags_except_lock_and_sticky d q =
     q\<lparr>q_modifier_flags :=
         mfm_erase_all_active_modifier_flags_except_lock_and_sticky d (q_modifier_flags q)\<rparr>"

definition queue_erase_all_active_pointing_buttons :: "device_id \<Rightarrow> event_queue \<Rightarrow> event_queue" where
  "queue_erase_all_active_pointing_buttons d q =
     q\<lparr>q_pointing_buttons := erase_all_active_pointing_buttons d (q_pointing_buttons q)\<rparr>"

definition queue_erase_all_active_pointing_buttons_except_lock ::
    "device_id \<Rightarrow> event_queue \<Rightarrow> event_queue" where
  "queue_erase_all_active_pointing_buttons_except_lock d q =
     q\<lparr>q_pointing_buttons := erase_all_active_pointing_buttons_except_lock d (q_pointing_buttons q)\<rparr>"

subsection \<open>sort_events\<close>

definition needs_swap :: "entry \<Rightarrow> entry \<Rightarrow> bool" where
  "needs_swap v1 v2 =
     (if en_time_stamp v1 = en_time_stamp v2 then
        (case (event_mse (en_event v1), event_mse (en_event v2)) of
           (Some e1, Some e2) \<Rightarrow>
             (if make_modifier_flag e1 = None \<and> make_modifier_flag e2 \<noteq> None
              then en_event_type v2 \<noteq> key_up
              else if make_modifier_flag e1 \<noteq> None \<and> make_modifier_flag e2 = None
              then en_event_type v1 = key_up
              else False)
         | _ \<Rightarrow> False)
      else False)"

definition swap_at :: "nat \<Rightarrow> 'a list \<Rightarrow> 'a list" where
  "swap_at i xs = xs[i := xs ! Suc i, Suc i := xs ! i]"

text \<open>The number of pairs the loop still has to exchange: each exchange lowers it by one.\<close>

fun swap_count :: "entry list \<Rightarrow> nat" where
  "swap_count [] = 0"
| "swap_count (x # xs) = length (filter (needs_swap x) xs) + swap_count xs"

lemma swap_at_Suc [simp]: "swap_at (Suc i) (x # xs) = x # swap_at i xs"
  by (simp add: swap_at_def)

lemma swap_at_0 [simp]: "swap_at 0 (x # y # xs) = y # x # xs"
  by (simp add: swap_at_def)

lemma length_swap_at [simp]: "length (swap_at i xs) = length xs"
  by (simp add: swap_at_def)

lemma needs_swap_asym: "needs_swap x y \<Longrightarrow> \<not> needs_swap y x"
  by (auto simp: needs_swap_def split: option.splits if_splits)

lemma swap_at_append: "swap_at (length us) (us @ x # y # vs) = us @ y # x # vs"
  by (induction us) simp_all

lemma two_at:
  assumes "Suc i < length xs"
  obtains us vs where "xs = us @ xs ! i # xs ! Suc i # vs" "length us = i"
proof
  show "xs = take i xs @ xs ! i # xs ! Suc i # drop (Suc (Suc i)) xs"
    using assms by (simp add: Cons_nth_drop_Suc id_take_nth_drop[symmetric])
  show "length (take i xs) = i" using assms by simp
qed

lemma swap_count_append:
  "swap_count (us @ vs) =
     swap_count us + swap_count vs + (\<Sum>u\<leftarrow>us. length (filter (needs_swap u) vs))"
  by (induction us) simp_all

lemma swap_count_swap_at:
  assumes "Suc i < length xs" "needs_swap (xs ! i) (xs ! Suc i)"
  shows "Suc (swap_count (swap_at i xs)) = swap_count xs"
proof -
  obtain us vs where xs: "xs = us @ xs ! i # xs ! Suc i # vs" and len: "length us = i"
    using two_at[OF assms(1)] .
  define a b where "a = xs ! i" and "b = xs ! Suc i"
  have xs': "xs = us @ a # b # vs" using xs by (simp add: a_def b_def)
  have ab: "needs_swap a b" "\<not> needs_swap b a"
    using assms(2) needs_swap_asym by (auto simp: a_def b_def)
  have "swap_at i xs = us @ b # a # vs"
    using swap_at_append[of us a b vs] len xs' by simp
  moreover have "(\<Sum>u\<leftarrow>us. length (filter (needs_swap u) (b # a # vs))) =
      (\<Sum>u\<leftarrow>us. length (filter (needs_swap u) (a # b # vs)))"
    by (rule arg_cong[where f = sum_list]) simp
  ultimately show ?thesis using ab by (simp add: xs' swap_count_append)
qed

text \<open>The loop of \<open>sort_events\<close> at index \<open>i\<close>.\<close>

function sort_events_from :: "nat \<Rightarrow> entry list \<Rightarrow> entry list" where
  "sort_events_from i es =
     (if i < length es - 1 then
        (if needs_swap (es ! i) (es ! Suc i)
         then sort_events_from (if i > 0 then i - 1 else i) (swap_at i es)
         else sort_events_from (Suc i) es)
      else es)"
  by pat_completeness auto
termination
proof (relation "measures [\<lambda>(i, es). swap_count es, \<lambda>(i, es). length es - i]", goal_cases)
  case 1 show ?case by simp
next
  case (2 i es)
  then have "Suc i < length es" by simp
  then have "Suc (swap_count (swap_at i es)) = swap_count es" using 2 by (intro swap_count_swap_at) simp
  then have "swap_count (swap_at i es) < swap_count es" by linarith
  then show ?case by simp
next
  case (3 i es) then show ?case by simp
qed

declare sort_events_from.simps [simp del]

definition sort_events :: "event_queue \<Rightarrow> event_queue" where
  "sort_events q =
     (if q_events q = [] then q else q\<lparr>q_events := sort_events_from 0 (q_events q)\<rparr>)"

definition in_order :: "nat \<Rightarrow> entry list \<Rightarrow> bool" where
  "in_order n es \<longleftrightarrow> (\<forall>k. Suc k \<le> n \<longrightarrow> Suc k < length es \<longrightarrow> \<not> needs_swap (es ! k) (es ! Suc k))"

lemma swap_at_nth:
  "Suc i < length xs \<Longrightarrow>
   swap_at i xs ! k = (if k = i then xs ! Suc i else if k = Suc i then xs ! i else xs ! k)"
  by (auto simp: swap_at_def nth_list_update)

lemma mset_swap_at: "Suc i < length xs \<Longrightarrow> mset (swap_at i xs) = mset xs"
  using mset_swap[of i xs "Suc i"] by (simp add: swap_at_def list_update_swap)

lemma filter_swap_at:
  assumes "Suc i < length xs" "\<not> (P (xs ! i) \<and> P (xs ! Suc i))"
  shows "filter P (swap_at i xs) = filter P xs"
proof -
  obtain us vs where xs: "xs = us @ xs ! i # xs ! Suc i # vs" and len: "length us = i"
    using two_at[OF assms(1)] .
  have "swap_at i xs = us @ xs ! Suc i # xs ! i # vs"
    using swap_at_append[of us "xs ! i" "xs ! Suc i" vs] len xs by simp
  then have "filter P (swap_at i xs) = filter P (us @ xs ! Suc i # xs ! i # vs)" by simp
  also have "\<dots> = filter P (us @ xs ! i # xs ! Suc i # vs)" using assms(2) by auto
  also have "\<dots> = filter P xs" using xs by simp
  finally show ?thesis .
qed

definition is_modifier_entry :: "entry \<Rightarrow> bool" where
  "is_modifier_entry v \<longleftrightarrow>
     (case event_mse (en_event v) of Some e \<Rightarrow> make_modifier_flag e \<noteq> None | None \<Rightarrow> False)"

lemma needs_swap_kinds: "needs_swap v1 v2 \<Longrightarrow> is_modifier_entry v1 \<noteq> is_modifier_entry v2"
  by (auto simp: needs_swap_def is_modifier_entry_def split: option.splits if_splits)

lemma needs_swap_time_stamp: "needs_swap v1 v2 \<Longrightarrow> en_time_stamp v1 = en_time_stamp v2"
  by (auto simp: needs_swap_def split: if_splits)

lemma swap_at_same_map:
  "Suc i < length xs \<Longrightarrow> f (xs ! i) = f (xs ! Suc i) \<Longrightarrow> map f (swap_at i xs) = map f xs"
  by (rule nth_equalityI) (auto simp: swap_at_nth)

lemma in_order_swap_at:
  assumes "in_order i es" "Suc i < length es"
  shows "in_order (if i > 0 then i - 1 else i) (swap_at i es)"
  unfolding in_order_def
proof (intro allI impI)
  fix k assume k: "Suc k \<le> (if i > 0 then i - 1 else i)" "Suc k < length (swap_at i es)"
  then have "k < i" "Suc k < i \<or> i = 0" by (auto split: if_splits)
  then show "\<not> needs_swap (swap_at i es ! k) (swap_at i es ! Suc k)"
    using assms k by (auto simp: in_order_def swap_at_nth)
qed

lemma sort_events_from_spec:
  assumes "in_order i es"
  shows "mset (sort_events_from i es) = mset es \<and>
    in_order (length es) (sort_events_from i es) \<and>
    filter is_modifier_entry (sort_events_from i es) = filter is_modifier_entry es \<and>
    filter (\<lambda>v. \<not> is_modifier_entry v) (sort_events_from i es) = filter (\<lambda>v. \<not> is_modifier_entry v) es \<and>
    map en_time_stamp (sort_events_from i es) = map en_time_stamp es"
  using assms
proof (induction i es rule: sort_events_from.induct)
  case (1 i es)
  show ?case
  proof (cases "i < length es - 1")
    case False
    then have "in_order (length es) es" using 1(3) by (auto simp: in_order_def)
    with False show ?thesis by (subst (1 2 3 4 5) sort_events_from.simps) simp
  next
    case less: True
    then have len: "Suc i < length es" by simp
    show ?thesis
    proof (cases "needs_swap (es ! i) (es ! Suc i)")
      case True
      have eq: "sort_events_from i es =
          sort_events_from (if i > 0 then i - 1 else i) (swap_at i es)"
        using less True by (subst sort_events_from.simps) simp
      have kinds: "is_modifier_entry (es ! i) \<noteq> is_modifier_entry (es ! Suc i)"
        using True by (rule needs_swap_kinds)
      have "filter is_modifier_entry (swap_at i es) = filter is_modifier_entry es"
        "filter (\<lambda>v. \<not> is_modifier_entry v) (swap_at i es) = filter (\<lambda>v. \<not> is_modifier_entry v) es"
        using kinds by (auto intro!: filter_swap_at[OF len])
      moreover have "map en_time_stamp (swap_at i es) = map en_time_stamp es"
        using swap_at_same_map[OF len, of en_time_stamp] needs_swap_time_stamp[OF True] by simp
      ultimately show ?thesis
        using 1(1)[OF less True in_order_swap_at[OF 1(3) len]] mset_swap_at[OF len]
        unfolding eq by simp
    next
      case False
      have "in_order (Suc i) es"
        using 1(3) False by (auto simp: in_order_def le_Suc_eq)
      moreover have "sort_events_from i es = sort_events_from (Suc i) es"
        using less False by (subst sort_events_from.simps) simp
      ultimately show ?thesis using 1(2)[OF less False] by simp
    qed
  qed
qed

lemma sort_events_from_start: "in_order 0 es"
  by (simp add: in_order_def)

subsection \<open>What appending does to the managers\<close>

definition queue_inv :: "event_queue \<Rightarrow> bool" where
  "queue_inv q \<longleftrightarrow> mfm_inv (q_modifier_flags q) \<and> pbm_inv (q_pointing_buttons q)"

lemma emplace_back_entry_fields:
  "q_events (snd (emplace_back_entry P en s)) =
     q_events (snd s) @ [delay_entry (q_time_stamp_delay (snd s)) en]"
  "q_modifier_flags (snd (emplace_back_entry P en s)) =
     queue_update_modifier_flags en (q_modifier_flags (snd s))"
  "q_pointing_buttons (snd (emplace_back_entry P en s)) =
     queue_update_pointing_buttons en (q_pointing_buttons (snd s))"
  "q_time_stamp_delay (snd (emplace_back_entry P en s)) = q_time_stamp_delay (snd s)"
  "q_environment (snd (emplace_back_entry P en s)) =
     snd (queue_update_environment P en (fst s, q_environment (snd s)))"
  "fst (emplace_back_entry P en s) =
     fst (queue_update_environment P en (fst s, q_environment (snd s)))"
  by (simp_all add: emplace_back_entry_def split: prod.splits)

lemma mfm_inv_queue_update [preserved]:
  "mfm_inv fs \<Longrightarrow> mfm_inv (queue_update_modifier_flags en fs)"
  by (auto simp: queue_update_modifier_flags_def Let_def preserved split: event.splits option.splits)

lemma pbm_inv_push: "pbm_inv bs \<Longrightarrow> pbm_inv (push_back_active_pointing_button b bs)"
  using pbm_step_refines[of bs "Pbm_push (apb_type b) (apb_usage_pair b) (apb_device b)"]
  by (cases b) simp

lemma pbm_inv_queue_update [preserved]:
  "pbm_inv bs \<Longrightarrow> pbm_inv (queue_update_pointing_buttons en bs)"
  by (auto simp: queue_update_pointing_buttons_def pbm_inv_push split: event.splits)

lemma queue_inv_emplace [preserved]:
  "queue_inv (snd s) \<Longrightarrow> queue_inv (snd (emplace_back_entry P en s))"
  by (simp add: queue_inv_def emplace_back_entry_fields preserved)

lemma queue_inv_other [preserved]:
  assumes "queue_inv q"
  shows "queue_inv (clear_events q)" "queue_inv (erase_front_event q)"
    "queue_inv (increase_time_stamp_delay d q)" "queue_inv (sort_events q)"
    "queue_inv (queue_erase_all_active_modifier_flags dev q)"
    "queue_inv (queue_erase_all_active_modifier_flags_except_lock_and_sticky dev q)"
    "queue_inv (queue_erase_all_active_pointing_buttons dev q)"
    "queue_inv (queue_erase_all_active_pointing_buttons_except_lock dev q)"
  using assms
  by (simp_all add: queue_inv_def clear_events_def erase_front_event_def increase_time_stamp_delay_def
      sort_events_def queue_erase_all_active_modifier_flags_def Let_def preserved
      queue_erase_all_active_modifier_flags_except_lock_and_sticky_def
      queue_erase_all_active_pointing_buttons_def queue_erase_all_active_pointing_buttons_except_lock_def
      erase_all_active_pointing_buttons_def erase_all_active_pointing_buttons_except_lock_def pbm_inv_def)

definition push_all :: "platform \<Rightarrow> entry list \<Rightarrow> world \<times> event_queue \<Rightarrow> world \<times> event_queue" where
  "push_all P ens s = foldl (\<lambda>s en. emplace_back_entry P en s) s ens"

lemma push_all_simps [simp]:
  "push_all P [] s = s"
  "push_all P (en # ens) s = push_all P ens (emplace_back_entry P en s)"
  by (simp_all add: push_all_def)

lemma push_all_append: "push_all P (xs @ ys) s = push_all P ys (push_all P xs s)"
  by (simp add: push_all_def)

lemma queue_inv_push_all [preserved]: "queue_inv (snd s) \<Longrightarrow> queue_inv (snd (push_all P ens s))"
  by (induction ens arbitrary: s) (auto simp: preserved)

lemma modifier_press_flags:
  assumes "en_event en = Ev_momentary_switch_event e" "make_modifier_flag e = Some m"
  shows "queue_update_modifier_flags en fs =
    push_back_active_modifier_flag
      (make_active_modifier_flag (if en_event_type en = key_down then increase else decrease) m
         (en_device_id en)) fs"
  using assms by (simp add: queue_update_modifier_flags_def mse_is_modifier_def Let_def)

lemma count_where_remove1_other: "\<not> p x \<Longrightarrow> count_where p g (remove1 x xs) = count_where p g xs"
  by (induction xs) auto

lemma count_where_push_other:
  "pair_free fs \<Longrightarrow> \<not> any_lock g \<Longrightarrow> \<not> p g \<Longrightarrow> \<not> p (inverse_flag g) \<Longrightarrow>
   count_where p c (push_back_active_modifier_flag g fs) = count_where p c fs"
  by (simp add: push_not_lock count_where_remove1_other)

lemma no_sticky_after_erase: "\<not> is_sticky_active m (erase_all_sticky_modifier_flags fs)"
proof -
  have "foldl (\<lambda>count f. if amf_flag f = m \<and> sticky f then count + get_count f else count) c
      (erase_all_sticky_modifier_flags fs) = c" for c
    by (induction fs) (auto simp: erase_all_sticky_modifier_flags_def)
  then show ?thesis by (simp add: is_sticky_active_def)
qed

lemma is_sticky_active_count:
  "is_sticky_active m fs \<longleftrightarrow> count_where (\<lambda>f. amf_flag f = m \<and> sticky f) get_count fs > 0"
proof -
  have "foldl (\<lambda>count f. if amf_flag f = m \<and> sticky f then count + get_count f else count) c fs =
      c + count_where (\<lambda>f. amf_flag f = m \<and> sticky f) get_count fs" for c
    by (induction fs arbitrary: c) auto
  then show ?thesis by (simp add: is_sticky_active_def)
qed

subsection \<open>Properties\<close>

text \<open>
  C37. \<open>sort_events\<close> ends, permutes the queue, and leaves no neighbours with equal time stamps where
  a pressed modifier follows a plain key or a released modifier precedes one; the order among
  modifiers, the order among other events and the sequence of time stamps stay as they were, and
  nothing else in the queue changes.
\<close>

theorem sort_events_sorts:
  "mset (q_events (sort_events q)) = mset (q_events q)
   \<and> (\<forall>k. Suc k < length (q_events q) \<longrightarrow>
        \<not> needs_swap (q_events (sort_events q) ! k) (q_events (sort_events q) ! Suc k))
   \<and> filter is_modifier_entry (q_events (sort_events q)) = filter is_modifier_entry (q_events q)
   \<and> filter (\<lambda>v. \<not> is_modifier_entry v) (q_events (sort_events q)) =
       filter (\<lambda>v. \<not> is_modifier_entry v) (q_events q)
   \<and> map en_time_stamp (q_events (sort_events q)) = map en_time_stamp (q_events q)
   \<and> (sort_events q)\<lparr>q_events := q_events q\<rparr> = q"
proof (cases "q_events q = []")
  case True then show ?thesis by (simp add: sort_events_def)
next
  case False
  have s: "mset (sort_events_from 0 (q_events q)) = mset (q_events q)"
    "in_order (length (q_events q)) (sort_events_from 0 (q_events q))"
    "filter is_modifier_entry (sort_events_from 0 (q_events q)) = filter is_modifier_entry (q_events q)"
    "filter (\<lambda>v. \<not> is_modifier_entry v) (sort_events_from 0 (q_events q)) =
       filter (\<lambda>v. \<not> is_modifier_entry v) (q_events q)"
    "map en_time_stamp (sort_events_from 0 (q_events q)) = map en_time_stamp (q_events q)"
    using sort_events_from_spec[OF sort_events_from_start, of "q_events q"] by simp_all
  have "length (sort_events_from 0 (q_events q)) = length (q_events q)"
    using mset_eq_length[OF s(1)] .
  then have "\<forall>k. Suc k < length (q_events q) \<longrightarrow>
      \<not> needs_swap (sort_events_from 0 (q_events q) ! k) (sort_events_from 0 (q_events q) ! Suc k)"
    using s(2) by (simp add: in_order_def)
  then show ?thesis using s False by (simp add: sort_events_def)
qed

definition sample_environment :: manipulator_environment where
  "sample_environment =
     \<lparr>env_karabiner_machine_identifier = ''empty'',
      env_device_properties_manager = Map.empty,
      env_frontmost_application =
        \<lparr>app_bundle_identifier = None, app_bundle_path = None, app_file_path = None, app_pid = None\<rparr>,
      env_input_source_properties =
        \<lparr>isp_input_source_id = None, isp_localized_name = None, isp_input_mode_id = None,
         isp_languages = [], isp_first_language = None\<rparr>,
      env_variables = Map.empty,
      env_core_configuration =
        \<lparr>cc_treat_as_built_in_keyboard = (\<lambda>_. False), cc_keyboard_type_v2 = ''ansi'',
         cc_mouse_key_xy_scale = 100, cc_indicate_sticky_modifier_keys_state = True\<rparr>,
      env_virtual_hid_devices_state =
        \<lparr>virtual_hid_keyboard_ready = True, virtual_hid_pointing_ready = True\<rparr>\<rparr>"

definition sample_queue :: event_queue where
  "sample_queue =
     \<lparr>q_events = [], q_modifier_flags = [], q_pointing_buttons = [],
      q_environment = sample_environment, q_time_stamp_delay = 0\<rparr>"

definition sample_key_entry ::
    "momentary_switch_event \<Rightarrow> event_type \<Rightarrow> absolute_time_point \<Rightarrow> entry" where
  "sample_key_entry e t ts =
     make_entry 1 (make_event_time_stamp ts) (Ev_momentary_switch_event e) t
       (Ev_momentary_switch_event e) st_original False"

lemma queue_inv_sample [simp]: "queue_inv sample_queue"
  by (simp add: queue_inv_def sample_queue_def)

theorem sort_events_sorts_witness:
  "let es = [sample_key_entry (mse 7 82) key_down 5, sample_key_entry (mse 7 224) key_down 5];
       q = sample_queue\<lparr>q_events := es\<rparr>
   in needs_swap (es ! 0) (es ! 1) \<and>
      \<not> needs_swap (q_events (sort_events q) ! 0) (q_events (sort_events q) ! 1)"
proof -
  let ?es = "[sample_key_entry (mse 7 82) key_down 5, sample_key_entry (mse 7 224) key_down 5]"
  have "needs_swap (?es ! 0) (?es ! 1)"
    by (simp add: needs_swap_def sample_key_entry_def make_entry_def make_modifier_flag_def Let_def)
  moreover have "\<not> needs_swap (q_events (sort_events (sample_queue\<lparr>q_events := ?es\<rparr>)) ! 0)
      (q_events (sort_events (sample_queue\<lparr>q_events := ?es\<rparr>)) ! 1)"
    using sort_events_sorts[of "sample_queue\<lparr>q_events := ?es\<rparr>"] by simp
  ultimately show ?thesis by (simp add: Let_def)
qed

text \<open>
  Appending the press of a modifier key and later its release by the same device, with any
  events of other kinds or other keys in between that are themselves modifier presses or releases,
  leaves the pressed state of every modifier as if the two had not happened.
\<close>

theorem modifier_press_release_cancel:
  assumes inv: "queue_inv (snd s)"
    and press: "en_event press = Ev_momentary_switch_event e" "en_event_type press = key_down"
    and release: "en_event release = Ev_momentary_switch_event e" "en_event_type release = key_up"
    and dev: "en_device_id release = en_device_id press"
    and modifier: "mse_is_modifier e"
    and between: "\<forall>en\<in>set ens. \<exists>e'. en_event en = Ev_momentary_switch_event e' \<and> mse_is_modifier e'"
  shows "is_pressed m (q_modifier_flags (snd (push_all P (press # ens @ [release]) s))) =
    is_pressed m (q_modifier_flags (snd (push_all P ens s)))"
proof -
  obtain mf where mf: "make_modifier_flag e = Some mf" using modifier by (auto simp: mse_is_modifier_def)
  define f where "f = make_active_modifier_flag increase mf (en_device_id press)"
  define flag_of where "flag_of = (\<lambda>en :: entry. make_active_modifier_flag
      (if en_event_type en = key_down then increase else decrease)
      (the (make_modifier_flag (the (event_mse (en_event en))))) (en_device_id en))"
  have flags: "q_modifier_flags (snd (push_all P xs s')) =
      foldl (\<lambda>fs f. push_back_active_modifier_flag f fs) (q_modifier_flags (snd s')) (map flag_of xs)"
    if "\<forall>en\<in>set xs. \<exists>e'. en_event en = Ev_momentary_switch_event e' \<and> mse_is_modifier e'" for xs s'
    using that
  proof (induction xs arbitrary: s')
    case (Cons en xs)
    then obtain e' m' where "en_event en = Ev_momentary_switch_event e'" "make_modifier_flag e' = Some m'"
      by (auto simp: mse_is_modifier_def)
    then show ?case
      using Cons by (simp add: emplace_back_entry_fields modifier_press_flags flag_of_def)
  qed simp
  have fl: "flag_of press = f" "flag_of release = inverse_flag f"
    using press release dev mf
    by (simp_all add: flag_of_def f_def make_active_modifier_flag_def inverse_flag_def)
  have wf: "list_all wf_amf (map flag_of xs)" for xs
    by (simp add: flag_of_def list_all_iff)
  have step: "table_push (flag_of en) c key =
      c key + (if key = amf_key (flag_of en) then get_count (flag_of en) else 0)" for en c key
    by (auto simp: table_push_def flag_of_def make_active_modifier_flag_def get_count_def)
  have sum: "foldl (\<lambda>c f. table_push f c) c (map flag_of xs) key = c key + amf_abs (map flag_of xs) key"
    for c xs key
    by (induction xs arbitrary: c) (auto simp: amf_abs_Nil amf_abs_def step)
  have mods: "\<forall>en\<in>set (press # ens @ [release]).
      \<exists>e'. en_event en = Ev_momentary_switch_event e' \<and> mse_is_modifier e'"
    using press release modifier between by auto
  have "foldl (\<lambda>c f. table_push f c) c (map flag_of (press # ens @ [release])) =
      foldl (\<lambda>c f. table_push f c) c (map flag_of ens)" for c
    unfolding fun_eq_iff sum by (simp add: amf_abs_def fl)
  moreover have "is_pressed m (q_modifier_flags (snd (push_all P xs s))) =
      table_is_pressed m (foldl (\<lambda>c f. table_push f c) (amf_abs (q_modifier_flags (snd s))) (map flag_of xs))"
    if "\<forall>en\<in>set xs. \<exists>e'. en_event en = Ev_momentary_switch_event e' \<and> mse_is_modifier e'" for xs
    unfolding flags[OF that]
    by (rule mfm.pressed_pushes) (use inv wf in \<open>simp_all add: queue_inv_def\<close>)
  ultimately show ?thesis using mods between by (simp only:)
qed

theorem modifier_press_release_cancel_witness:
  "\<not> is_pressed mf_left_shift
     (q_modifier_flags (snd (push_all witness_platform
        [sample_key_entry (mse 7 225) key_down 1, sample_key_entry (mse 7 224) key_down 2,
         sample_key_entry (mse 7 225) key_up 3] (world_initial, sample_queue))))"
proof -
  have "is_pressed mf_left_shift
     (q_modifier_flags (snd (push_all witness_platform
        (sample_key_entry (mse 7 225) key_down 1 # [sample_key_entry (mse 7 224) key_down 2] @
         [sample_key_entry (mse 7 225) key_up 3]) (world_initial, sample_queue)))) =
     is_pressed mf_left_shift
     (q_modifier_flags (snd (push_all witness_platform [sample_key_entry (mse 7 224) key_down 2]
        (world_initial, sample_queue))))"
    by (rule modifier_press_release_cancel[where e = "mse 7 225"])
       (simp_all add: sample_key_entry_def make_entry_def mse_is_modifier_def make_modifier_flag_def Let_def)
  moreover have "\<not> is_pressed mf_left_shift
     (q_modifier_flags (snd (push_all witness_platform [sample_key_entry (mse 7 224) key_down 2]
        (world_initial, sample_queue))))"
    by (simp add: emplace_back_entry_fields queue_update_modifier_flags_def sample_key_entry_def
        make_entry_def make_modifier_flag_def Let_def mse_is_modifier_def sample_queue_def
        push_not_lock any_lock_def make_active_modifier_flag_def is_pressed_eq nonled_size_def led_count_def)
  ultimately show ?thesis by simp
qed

text \<open>
  The life of a sticky modifier on a queue without sticky entries for it: an \<open>on\<close> or
  \<open>toggle\<close> event makes it sticky, pressing another modifier key keeps it, and the next valid press
  of any key that is no modifier ends it.
\<close>

theorem sticky_modifier_lives_until_next_key:
  assumes inv: "queue_inv (snd s)" and free: "sticky_size m (q_modifier_flags (snd s)) = 0"
    and sticky_en: "en_event en1 = Ev_sticky_modifier m t" "t \<noteq> sm_off" "en_event_type en1 \<noteq> key_up"
    and modifier: "en_event en2 = Ev_momentary_switch_event e2" "mse_is_modifier e2"
    and key: "en_event en3 = Ev_momentary_switch_event e3" "\<not> mse_is_modifier e3"
      "en_event_type en3 = key_down" "en_validity en3 = valid"
  shows "is_sticky_active m (q_modifier_flags (snd (push_all P [en1] s)))
    \<and> is_sticky_active m (q_modifier_flags (snd (push_all P [en1, en2] s)))
    \<and> \<not> is_sticky_active m (q_modifier_flags (snd (push_all P [en1, en2, en3] s)))"
proof -
  let ?fs = "q_modifier_flags (snd s)"
  let ?f = "make_active_modifier_flag increase_sticky m (en_device_id en1)"
  have pf: "pair_free ?fs" using inv by (simp add: queue_inv_def mfm_inv_def)
  have none: "\<forall>f\<in>set ?fs. \<not> (amf_flag f = m \<and> sticky f)"
    using free by (auto simp: sticky_size_def filter_empty_conv)
  have f: "sticky ?f" "\<not> any_lock ?f" "amf_flag ?f = m" "get_count ?f = 1"
    by (simp_all add: make_active_modifier_flag_def sticky_def any_lock_def get_count_def)
  have "inverse_flag ?f \<notin> set ?fs" using none f by force
  then have fs1: "q_modifier_flags (snd (push_all P [en1] s)) = ?fs @ [?f]"
    using sticky_en free pf f
    by (cases t; cases "en_event_type en1")
       (simp_all add: emplace_back_entry_fields queue_update_modifier_flags_def sticky_push_type_def
          push_not_lock)
  have "count_where (\<lambda>f. amf_flag f = m \<and> sticky f) get_count ?fs = 0"
    by (rule count_where_none) (use none in auto)
  then have c1: "count_where (\<lambda>f. amf_flag f = m \<and> sticky f) get_count (?fs @ [?f]) = 1"
    using f by simp
  obtain m2 where m2: "make_modifier_flag e2 = Some m2" using modifier by (auto simp: mse_is_modifier_def)
  define g where "g = make_active_modifier_flag
      (if en_event_type en2 = key_down then increase else decrease) m2 (en_device_id en2)"
  have g: "\<not> sticky g" "\<not> any_lock g"
    by (simp_all add: g_def make_active_modifier_flag_def sticky_def any_lock_def)
  have pf1: "pair_free (?fs @ [?f])"
    using pf \<open>inverse_flag ?f \<notin> set ?fs\<close> by (simp add: pair_free_snoc)
  have fs2: "q_modifier_flags (snd (push_all P [en1, en2] s)) =
      push_back_active_modifier_flag g (?fs @ [?f])"
    using fs1 modifier m2 by (simp add: emplace_back_entry_fields modifier_press_flags g_def)
  have "count_where (\<lambda>f. amf_flag f = m \<and> sticky f) get_count
      (push_back_active_modifier_flag g (?fs @ [?f])) = 1"
    using c1 g by (subst count_where_push_other[OF pf1]) (simp_all del: count_where_append)
  moreover have "\<not> is_sticky_active m (q_modifier_flags (snd (push_all P [en1, en2, en3] s)))"
    using key no_sticky_after_erase
    by (simp add: emplace_back_entry_fields queue_update_modifier_flags_def mse_is_modifier_def)
  ultimately show ?thesis
    using fs1 fs2 c1 by (simp add: is_sticky_active_count del: push_all_simps)
qed

theorem sticky_modifier_lives_until_next_key_witness:
  "let en1 = make_entry 1 (make_event_time_stamp 1) (Ev_sticky_modifier mf_fn sm_toggle) single
               (Ev_sticky_modifier mf_fn sm_toggle) st_original False
   in is_sticky_active mf_fn
        (q_modifier_flags (snd (push_all witness_platform
           [en1, sample_key_entry (mse 7 225) key_down 2] (world_initial, sample_queue))))"
  unfolding Let_def
  using sticky_modifier_lives_until_next_key
    [of "(world_initial, sample_queue)" mf_fn
       "make_entry 1 (make_event_time_stamp 1) (Ev_sticky_modifier mf_fn sm_toggle) single
          (Ev_sticky_modifier mf_fn sm_toggle) st_original False" sm_toggle
       "sample_key_entry (mse 7 225) key_down 2" "mse 7 225"
       "sample_key_entry (mse 7 4) key_down 3" "mse 7 4" witness_platform]
  by (simp add: sample_key_entry_def make_entry_def mse_is_modifier_def make_modifier_flag_def Let_def
      sticky_size_def sample_queue_def queue_inv_def)

end
