(* ===== verification/Key_Codes.thy ===== *)
theory Key_Codes
  imports Types
begin

text \<open>
  The name tables of \<open>src/share/types/momentary_switch_event_details\<close> (\<open>key_code.hpp\<close>,
  \<open>consumer_key_code.hpp\<close>, \<open>apple_vendor_keyboard_key_code.hpp\<close>,
  \<open>apple_vendor_top_case_key_code.hpp\<close>, \<open>pointing_button.hpp\<close>, \<open>generic_desktop.hpp\<close>), the
  lookups of \<open>impl.hpp\<close>, and the reading and writing of \<open>momentary_switch_event\<close> as JSON. The usage
  numbers are those of \<open>pqrs/hid/usage.hpp\<close>.

  The theory shows that the names of each table are unique (so the constexpr hash maps built from
  them are the tables), that writing an event and reading it back gives the event, and the one
  exception: the name \<open>mute\<close> of the keyboard page is read as the consumer key.
\<close>

subsection \<open>The tables\<close>

definition key_code_name_value_pairs :: "(string \<times> usage) list" where
  "key_code_name_value_pairs =
     [(''left_option'', 226), (''left_command'', 227), (''right_option'', 230),
      (''right_command'', 231), (''japanese_eisuu'', 145), (''japanese_kana'', 144),
      (''japanese_pc_nfer'', 139), (''japanese_pc_xfer'', 138), (''japanese_pc_katakana'', 136),
      (''vk_none'', 0), (''a'', 4), (''b'', 5), (''c'', 6), (''d'', 7), (''e'', 8), (''f'', 9),
      (''g'', 10), (''h'', 11), (''i'', 12), (''j'', 13), (''k'', 14), (''l'', 15), (''m'', 16),
      (''n'', 17), (''o'', 18), (''p'', 19), (''q'', 20), (''r'', 21), (''s'', 22), (''t'', 23),
      (''u'', 24), (''v'', 25), (''w'', 26), (''x'', 27), (''y'', 28), (''z'', 29), (''1'', 30),
      (''2'', 31), (''3'', 32), (''4'', 33), (''5'', 34), (''6'', 35), (''7'', 36), (''8'', 37),
      (''9'', 38), (''0'', 39), (''return_or_enter'', 40), (''escape'', 41),
      (''delete_or_backspace'', 42), (''tab'', 43), (''spacebar'', 44), (''hyphen'', 45),
      (''equal_sign'', 46), (''open_bracket'', 47), (''close_bracket'', 48), (''backslash'', 49),
      (''non_us_pound'', 50), (''semicolon'', 51), (''quote'', 52),
      (''grave_accent_and_tilde'', 53), (''comma'', 54), (''period'', 55), (''slash'', 56),
      (''caps_lock'', 57), (''f1'', 58), (''f2'', 59), (''f3'', 60), (''f4'', 61), (''f5'', 62),
      (''f6'', 63), (''f7'', 64), (''f8'', 65), (''f9'', 66), (''f10'', 67), (''f11'', 68),
      (''f12'', 69), (''print_screen'', 70), (''scroll_lock'', 71), (''pause'', 72),
      (''insert'', 73), (''home'', 74), (''page_up'', 75), (''delete_forward'', 76),
      (''end'', 77), (''page_down'', 78), (''right_arrow'', 79), (''left_arrow'', 80),
      (''down_arrow'', 81), (''up_arrow'', 82), (''keypad_num_lock'', 83),
      (''keypad_slash'', 84), (''keypad_asterisk'', 85), (''keypad_hyphen'', 86),
      (''keypad_plus'', 87), (''keypad_enter'', 88), (''keypad_1'', 89), (''keypad_2'', 90),
      (''keypad_3'', 91), (''keypad_4'', 92), (''keypad_5'', 93), (''keypad_6'', 94),
      (''keypad_7'', 95), (''keypad_8'', 96), (''keypad_9'', 97), (''keypad_0'', 98),
      (''keypad_period'', 99), (''non_us_backslash'', 100), (''application'', 101),
      (''power'', 102), (''keypad_equal_sign'', 103), (''f13'', 104), (''f14'', 105),
      (''f15'', 106), (''f16'', 107), (''f17'', 108), (''f18'', 109), (''f19'', 110),
      (''f20'', 111), (''f21'', 112), (''f22'', 113), (''f23'', 114), (''f24'', 115),
      (''execute'', 116), (''help'', 117), (''menu'', 118), (''select'', 119), (''stop'', 120),
      (''again'', 121), (''undo'', 122), (''cut'', 123), (''copy'', 124), (''paste'', 125),
      (''find'', 126), (''mute'', 127), (''volume_down'', 129), (''volume_up'', 128),
      (''locking_caps_lock'', 130), (''locking_num_lock'', 131), (''locking_scroll_lock'', 132),
      (''keypad_comma'', 133), (''keypad_equal_sign_as400'', 134), (''international1'', 135),
      (''international2'', 136), (''international3'', 137), (''international4'', 138),
      (''international5'', 139), (''international6'', 140), (''international7'', 141),
      (''international8'', 142), (''international9'', 143), (''lang1'', 144), (''lang2'', 145),
      (''lang3'', 146), (''lang4'', 147), (''lang5'', 148), (''lang6'', 149), (''lang7'', 150),
      (''lang8'', 151), (''lang9'', 152), (''alternate_erase'', 153),
      (''sys_req_or_attention'', 154), (''cancel'', 155), (''clear'', 156), (''prior'', 157),
      (''return'', 158), (''separator'', 159), (''out'', 160), (''oper'', 161),
      (''clear_or_again'', 162), (''cr_sel_or_props'', 163), (''ex_sel'', 164),
      (''left_control'', 224), (''left_shift'', 225), (''left_alt'', 226), (''left_gui'', 227),
      (''right_control'', 228), (''right_shift'', 229), (''right_alt'', 230),
      (''right_gui'', 231)]"

definition consumer_key_code_name_value_pairs :: "(string \<times> usage) list" where
  "consumer_key_code_name_value_pairs =
     [(''dictation'', 207), (''microphone'', 4), (''power'', 48), (''menu'', 64),
      (''menu_pick'', 65), (''menu_up'', 66), (''menu_down'', 67), (''menu_left'', 68),
      (''menu_right'', 69), (''menu_escape'', 70), (''menu_value_increase'', 71),
      (''menu_value_decrease'', 72), (''data_on_screen'', 96), (''closed_caption'', 97),
      (''closed_caption_select'', 98), (''vcr_or_tv'', 99), (''broadcast_mode'', 100),
      (''snapshot'', 101), (''still'', 102), (''picture_in_picture_toggle'', 103),
      (''picture_in_picture_swap'', 104), (''red_menu_button'', 105),
      (''green_menu_button'', 106), (''blue_menu_button'', 107), (''yellow_menu_button'', 108),
      (''aspect'', 109), (''three_dimensional_mode_select'', 110),
      (''display_brightness_increment'', 111), (''display_brightness_decrement'', 112),
      (''selection'', 128), (''fast_forward'', 179), (''rewind'', 180),
      (''scan_next_track'', 181), (''scan_previous_track'', 182), (''stop'', 183),
      (''eject'', 184), (''play_or_pause'', 205), (''voice_command'', 207), (''mute'', 226),
      (''bass_boost'', 229), (''loudness'', 231), (''volume_increment'', 233),
      (''volume_decrement'', 234), (''bass_increment'', 338), (''bass_decrement'', 339),
      (''al_consumer_control_configuration'', 387), (''al_word_processor'', 388),
      (''al_text_editor'', 389), (''al_spreadsheet'', 390), (''al_graphics_editor'', 391),
      (''al_presentation_app'', 392), (''al_database_app'', 393), (''al_email_reader'', 394),
      (''al_newsreader'', 395), (''al_voicemail'', 396), (''al_contacts_or_address_book'', 397),
      (''al_Calendar_Or_Schedule'', 398), (''al_task_or_project_manager'', 399),
      (''al_log_or_journal_or_timecard'', 400), (''al_checkbook_or_finance'', 401),
      (''al_calculator'', 402), (''al_a_or_v_capture_or_playback'', 403),
      (''al_local_machine_browser'', 404), (''al_lan_or_wan_browser'', 405),
      (''al_internet_browser'', 406), (''al_remote_networking_or_isp_connect'', 407),
      (''al_network_conference'', 408), (''al_network_chat'', 409),
      (''al_telephony_or_dialer'', 410), (''al_logon'', 411), (''al_logoff'', 412),
      (''al_logon_or_logoff'', 413), (''al_terminal_lock_or_screensaver'', 414),
      (''al_control_panel'', 415), (''al_command_line_processor_or_run'', 416),
      (''al_process_or_task_manager'', 417), (''al_select_task_or_application'', 418),
      (''al_next_task_or_application'', 419), (''al_previous_task_or_application'', 420),
      (''al_preemptive_halt_task_or_application'', 421), (''al_integrated_help_center'', 422),
      (''al_documents'', 423), (''al_thesaurus'', 424), (''al_dictionary'', 425),
      (''al_desktop'', 426), (''al_spell_check'', 427), (''al_grammer_check'', 428),
      (''al_wireless_status'', 429), (''al_keyboard_layout'', 430),
      (''al_virus_protection'', 431), (''al_encryption'', 432), (''al_screen_saver'', 433),
      (''al_alarms'', 434), (''al_clock'', 435), (''al_file_browser'', 436),
      (''al_power_status'', 437), (''al_image_browser'', 438), (''al_audio_browser'', 439),
      (''al_movie_browser'', 440), (''al_digital_rights_manager'', 441),
      (''al_digital_wallet'', 442), (''al_instant_messaging'', 444),
      (''al_oem_feature_browser'', 445), (''al_oem_help'', 446), (''al_online_community'', 447),
      (''al_entertainment_content_browser'', 448), (''al_online_shopping_browswer'', 449),
      (''al_smart_card_information_or_help'', 450),
      (''al_market_monitor_or_finance_browser'', 451),
      (''al_customized_corporate_news_browser'', 452), (''al_online_activity_browswer'', 453),
      (''al_research_or_search_browswer'', 454), (''al_audio_player'', 455),
      (''al_message_status'', 456), (''al_contact_sync'', 457), (''al_navigation'', 458),
      (''al_contextaware_desktop_assistant'', 459), (''ac_search'', 545), (''ac_home'', 547),
      (''ac_back'', 548), (''ac_forward'', 549), (''ac_refresh'', 551), (''ac_bookmarks'', 554),
      (''ac_zoom_out'', 557), (''ac_zoom_in'', 558), (''fastforward'', 179)]"

definition apple_vendor_keyboard_name_value_pairs :: "(string \<times> usage) list" where
  "apple_vendor_keyboard_name_value_pairs =
     [(''mission_control'', 16), (''spotlight'', 1), (''dashboard'', 2), (''function'', 3),
      (''launchpad'', 4), (''expose_all'', 16), (''expose_desktop'', 17),
      (''brightness_up'', 32), (''brightness_down'', 33), (''language'', 48)]"

definition apple_vendor_top_case_name_value_pairs :: "(string \<times> usage) list" where
  "apple_vendor_top_case_name_value_pairs =
     [(''keyboard_fn'', 3), (''brightness_up'', 4), (''brightness_down'', 5),
      (''video_mirror'', 6), (''illumination_toggle'', 7), (''illumination_up'', 8),
      (''illumination_down'', 9)]"

definition pointing_button_name_value_pairs :: "(string \<times> usage) list" where
  "pointing_button_name_value_pairs =
     [(''button1'', 1), (''button2'', 2), (''button3'', 3), (''button4'', 4), (''button5'', 5),
      (''button6'', 6), (''button7'', 7), (''button8'', 8), (''button9'', 9), (''button10'', 10),
      (''button11'', 11), (''button12'', 12), (''button13'', 13), (''button14'', 14),
      (''button15'', 15), (''button16'', 16), (''button17'', 17), (''button18'', 18),
      (''button19'', 19), (''button20'', 20), (''button21'', 21), (''button22'', 22),
      (''button23'', 23), (''button24'', 24), (''button25'', 25), (''button26'', 26),
      (''button27'', 27), (''button28'', 28), (''button29'', 29), (''button30'', 30),
      (''button31'', 31), (''button32'', 32), (''button33'', 33), (''button34'', 34),
      (''button35'', 35), (''button36'', 36), (''button37'', 37), (''button38'', 38),
      (''button39'', 39), (''button40'', 40), (''button41'', 41), (''button42'', 42),
      (''button43'', 43), (''button44'', 44), (''button45'', 45), (''button46'', 46),
      (''button47'', 47), (''button48'', 48), (''button49'', 49), (''button50'', 50),
      (''button51'', 51), (''button52'', 52), (''button53'', 53), (''button54'', 54),
      (''button55'', 55), (''button56'', 56), (''button57'', 57), (''button58'', 58),
      (''button59'', 59), (''button60'', 60), (''button61'', 61), (''button62'', 62),
      (''button63'', 63), (''button64'', 64), (''button65'', 65), (''button66'', 66),
      (''button67'', 67), (''button68'', 68), (''button69'', 69), (''button70'', 70),
      (''button71'', 71), (''button72'', 72), (''button73'', 73), (''button74'', 74),
      (''button75'', 75), (''button76'', 76), (''button77'', 77), (''button78'', 78),
      (''button79'', 79), (''button80'', 80), (''button81'', 81), (''button82'', 82),
      (''button83'', 83), (''button84'', 84), (''button85'', 85), (''button86'', 86),
      (''button87'', 87), (''button88'', 88), (''button89'', 89), (''button90'', 90),
      (''button91'', 91), (''button92'', 92), (''button93'', 93), (''button94'', 94),
      (''button95'', 95), (''button96'', 96), (''button97'', 97), (''button98'', 98),
      (''button99'', 99), (''button100'', 100), (''button101'', 101), (''button102'', 102),
      (''button103'', 103), (''button104'', 104), (''button105'', 105), (''button106'', 106),
      (''button107'', 107), (''button108'', 108), (''button109'', 109), (''button110'', 110),
      (''button111'', 111), (''button112'', 112), (''button113'', 113), (''button114'', 114),
      (''button115'', 115), (''button116'', 116), (''button117'', 117), (''button118'', 118),
      (''button119'', 119), (''button120'', 120), (''button121'', 121), (''button122'', 122),
      (''button123'', 123), (''button124'', 124), (''button125'', 125), (''button126'', 126),
      (''button127'', 127), (''button128'', 128), (''button129'', 129), (''button130'', 130),
      (''button131'', 131), (''button132'', 132), (''button133'', 133), (''button134'', 134),
      (''button135'', 135), (''button136'', 136), (''button137'', 137), (''button138'', 138),
      (''button139'', 139), (''button140'', 140), (''button141'', 141), (''button142'', 142),
      (''button143'', 143), (''button144'', 144), (''button145'', 145), (''button146'', 146),
      (''button147'', 147), (''button148'', 148), (''button149'', 149), (''button150'', 150),
      (''button151'', 151), (''button152'', 152), (''button153'', 153), (''button154'', 154),
      (''button155'', 155), (''button156'', 156), (''button157'', 157), (''button158'', 158),
      (''button159'', 159), (''button160'', 160), (''button161'', 161), (''button162'', 162),
      (''button163'', 163), (''button164'', 164), (''button165'', 165), (''button166'', 166),
      (''button167'', 167), (''button168'', 168), (''button169'', 169), (''button170'', 170),
      (''button171'', 171), (''button172'', 172), (''button173'', 173), (''button174'', 174),
      (''button175'', 175), (''button176'', 176), (''button177'', 177), (''button178'', 178),
      (''button179'', 179), (''button180'', 180), (''button181'', 181), (''button182'', 182),
      (''button183'', 183), (''button184'', 184), (''button185'', 185), (''button186'', 186),
      (''button187'', 187), (''button188'', 188), (''button189'', 189), (''button190'', 190),
      (''button191'', 191), (''button192'', 192), (''button193'', 193), (''button194'', 194),
      (''button195'', 195), (''button196'', 196), (''button197'', 197), (''button198'', 198),
      (''button199'', 199), (''button200'', 200), (''button201'', 201), (''button202'', 202),
      (''button203'', 203), (''button204'', 204), (''button205'', 205), (''button206'', 206),
      (''button207'', 207), (''button208'', 208), (''button209'', 209), (''button210'', 210),
      (''button211'', 211), (''button212'', 212), (''button213'', 213), (''button214'', 214),
      (''button215'', 215), (''button216'', 216), (''button217'', 217), (''button218'', 218),
      (''button219'', 219), (''button220'', 220), (''button221'', 221), (''button222'', 222),
      (''button223'', 223), (''button224'', 224), (''button225'', 225), (''button226'', 226),
      (''button227'', 227), (''button228'', 228), (''button229'', 229), (''button230'', 230),
      (''button231'', 231), (''button232'', 232), (''button233'', 233), (''button234'', 234),
      (''button235'', 235), (''button236'', 236), (''button237'', 237), (''button238'', 238),
      (''button239'', 239), (''button240'', 240), (''button241'', 241), (''button242'', 242),
      (''button243'', 243), (''button244'', 244), (''button245'', 245), (''button246'', 246),
      (''button247'', 247), (''button248'', 248), (''button249'', 249), (''button250'', 250),
      (''button251'', 251), (''button252'', 252), (''button253'', 253), (''button254'', 254),
      (''button255'', 255)]"

definition generic_desktop_name_value_pairs :: "(string \<times> usage) list" where
  "generic_desktop_name_value_pairs =
     [(''system_sleep'', 130), (''system_app_menu'', 134), (''dpad_up'', 144),
      (''dpad_down'', 145), (''dpad_right'', 146), (''dpad_left'', 147)]"

definition key_code_other_usage_page_pairs :: "(string \<times> usage_pair) list" where
  "key_code_other_usage_page_pairs =
     [(''mute'', Usage_Pair 12 226), (''volume_decrement'', Usage_Pair 12 234),
      (''volume_increment'', Usage_Pair 12 233),
      (''display_brightness_decrement'', Usage_Pair 12 112),
      (''display_brightness_increment'', Usage_Pair 12 111), (''eject'', Usage_Pair 12 184),
      (''fastforward'', Usage_Pair 12 179), (''play_or_pause'', Usage_Pair 12 205),
      (''rewind'', Usage_Pair 12 180), (''vk_consumer_brightness_down'', Usage_Pair 12 112),
      (''vk_consumer_brightness_up'', Usage_Pair 12 111),
      (''vk_consumer_next'', Usage_Pair 12 179), (''vk_consumer_play'', Usage_Pair 12 205),
      (''vk_consumer_previous'', Usage_Pair 12 180),
      (''apple_display_brightness_decrement'', Usage_Pair 65281 33),
      (''apple_display_brightness_increment'', Usage_Pair 65281 32),
      (''dashboard'', Usage_Pair 65281 2), (''launchpad'', Usage_Pair 65281 4),
      (''mission_control'', Usage_Pair 65281 16), (''vk_dashboard'', Usage_Pair 65281 2),
      (''vk_launchpad'', Usage_Pair 65281 4), (''vk_mission_control'', Usage_Pair 65281 16),
      (''apple_top_case_display_brightness_decrement'', Usage_Pair 255 5),
      (''apple_top_case_display_brightness_increment'', Usage_Pair 255 4),
      (''fn'', Usage_Pair 255 3), (''illumination_decrement'', Usage_Pair 255 9),
      (''illumination_increment'', Usage_Pair 255 8),
      (''vk_consumer_illumination_down'', Usage_Pair 255 9),
      (''vk_consumer_illumination_up'', Usage_Pair 255 8)]"

subsection \<open>Unique names\<close>

text \<open>A hash without collisions on the names turns the comparisons into comparisons of numbers.\<close>

definition name_hash :: "string \<Rightarrow> nat" where
  "name_hash s = foldl (\<lambda>h c. h * 16 + of_char c) 0 s"

lemma distinct_by_hash: "distinct (map name_hash xs) \<Longrightarrow> distinct xs"
  by (simp add: distinct_map)

lemma key_code_name_value_pairs_hashes:
  "map name_hash (map fst key_code_name_value_pairs) =
     [
      126158866198622, 2018541656356932, 2128515569266782, 34056248905447492, 506769636312484549,
      31673102269552705, 129733026896172960962, 129733026896173001922, 8502183650667590295492673,
      2098615877, 97, 98, 99, 100, 101, 102, 103, 104, 105, 106, 107, 108, 109, 110, 111, 112,
      113, 114, 115, 116, 117, 118, 119, 120, 121, 122, 49, 50, 51, 52, 53, 54, 55, 56, 57, 48,
      8704272009059392194, 113875045, 504164122511652684457877, 31346, 32857766018, 117468862,
      7459152764894, 2083318338658756, 29896388381221316, 448726182040, 2065186863672388,
      522979009374, 7915173, 2138045328009921782847570597, 6972465, 124555348, 8005784,
      453246334363, 1681, 1682, 1683, 1684, 1685, 1686, 1687, 1688, 1689, 26944, 26945, 26946,
      2103390013918142, 133768419882395, 7769237, 117808276, 456245, 1987950272,
      480808374740048004, 27716, 508915201758, 133032222169447, 7884928227687, 7382584826215,
      33392466279, 8201168885650961819, 2002238497761432, 8201168882135503003, 32035815953559230,
      125139906098115, 2002238496856770, 30551734817, 30551734818, 30551734819, 30551734820,
      30551734821, 30551734822, 30551734823, 30551734824, 30551734825, 30551734816,
      32035815960645716, 135344086233442298008, 114861108932702, 7826882, 2099499234093171122142,
      26947, 26948, 26949, 26950, 26951, 26952, 26953, 26960, 26961, 26962, 26963, 26964,
      1827384485, 453680, 474197, 127675300, 502624, 6805502, 509103, 27332, 435833, 7768741,
      446532, 478373, 137867438700254, 538544682688, 2127869844186188887451,
      132991865264920737179, 544734680129401713472923, 2002238496728113,
      35223752142215696041245173552, 506000287136630769, 506000287136630770, 506000287136630771,
      506000287136630772, 506000287136630773, 506000287136630774, 506000287136630775,
      506000287136630776, 506000287136630777, 7505057, 7505058, 7505059, 7505060, 7505061,
      7505062, 7505063, 7505064, 7505065, 7510536642543519893, 9296394371290461074993246,
      110643644, 6957954, 7835746, 126663822, 523021880162, 30404, 485058, 478147397870409726,
      7675994303673898611, 114190780, 2018541656455516, 7884929363924, 30800500788, 30800502457,
      34056248905546076, 133032223305684, 519657117748, 519657119417]"
  by (simp add: key_code_name_value_pairs_def name_hash_def)

lemma consumer_key_code_name_value_pairs_hashes:
  "map name_hash (map fst consumer_key_code_name_value_pairs) =
     [
      459471892574, 7970006431301, 7826882, 474197, 497238306715, 1942337216, 497238259422,
      497238289364, 7955813039604, 127292995639397, 546719324955293174511765,
      546719324955291681339541, 479817418027994046, 478342234518302814,
      128404015846979557943684004, 535401236150, 475507621351540133, 32825122660, 8040492,
      9426522365377519667644644843045, 36822352989755936201736891776, 8699375331026189150,
      2039213132475564604254, 121325676287284263774, 37708850614431525944158, 109734820,
      638505098157040688496873209855749028, 34736729020901245409243980207242324,
      34736729020901245409243956316486740, 522958057566, 1909483897477252, 126672964,
      8761830371482109851, 574215327560439815702427, 502624, 7080868, 33540561007185045,
      35289492929919044, 478373, 7184026527396, 30983015587, 144564487423439682644,
      144564487399548927060, 470812392092875860, 470812368202120276,
      35439411357828521173473403924167527018590, 1921264463661374417506, 469054751271226210,
      469054377910987716, 30739087443259043810146, 491835794198327239923824, 7504589791587686512,
      7504619309252704962, 29315509372287682, 1832256127383548,
      2112353524687304359188940142777947, 32229472041839154688756005925,
      132027091097386544000012000722370, 540773870301154552359366922361084036,
      32231920843574494476827395221, 29314733060557666, 540758703683561672816451580708489115,
      515722132714364462252800010690, 125908478109458824508664258, 491827499358507056425410,
      9072794925702529261195983377317034356722596, 125909150839341626371392661,
      7504770209750032004, 2014574579330258044820882114, 27957354078, 447317665222,
      30739435897649179780550, 138440519143871024002253685337586502850, 120073396261986141372,
      2214963180395697041348594586296007551422, 132026176574537166406441333194178,
      540781977959788991844775211155632222, 2112405092550635207305675209748574,
      138439468975281735123303288442440953950, 37162061626619588958176627196499199336784638046,
      8251496188300109897812152179394, 1832178736678323, 1832245607844291, 29314833996728473,
      7156938713952, 469054324133718939, 120074560139704265627, 30740204428119465692099,
      30739323643156106905284, 491842122548348546887774, 29314924174356574, 7504855754145893570,
      447305910595, 27956753819, 7504633238688033218, 7504816518583716803, 120075034680192592322,
      120072927096790772162, 120076218991654660546, 8251392469777237290043136310722,
      1921177019778931897028, 7869239980462549191090247, 2014550978289133766483306946,
      114513965083696, 491834381903892379881657, 2214973373682379853704831165088612673986,
      2112412585325879220285144294141378, 35440725959815339703428333018156181613616,
      145162938569629929338650235021967261804456386,
      145159963225707911581780403106257636037159362, 2112412585325541744743751166635458,
      8652491918890420684772884616347299266, 7504557943563653058, 1921216647095237905347,
      7504587261617811523, 29315491744493662, 35439411358769508105688530800553830819924,
      444908406936, 1737881141, 1737852827, 7118328027268, 7118518062232, 1822274732919075,
      113898613335748, 7118663333374, 119342870681732]"
  by (simp add: consumer_key_code_name_value_pairs_def name_hash_def)

lemma apple_vendor_keyboard_name_value_pairs_hashes:
  "map name_hash (map fst apple_vendor_keyboard_name_value_pairs) =
     [
      8361672011040536924, 525977452020, 457580304516, 29465686110, 491979929204, 7488117889068,
      490741294021880672, 29713063528273600, 7606544263237973726, 30741018581]"
  by (simp add: apple_vendor_keyboard_name_value_pairs_def name_hash_def)

lemma apple_vendor_top_case_name_value_pairs_hashes:
  "map name_hash (map fst apple_vendor_top_case_name_value_pairs) =
     [
      125136380929486, 29713063528273600, 7606544263237973726, 2198663925373282,
      529859954596349864173093, 8085021279851529920, 2069765447641991591646]"
  by (simp add: apple_vendor_top_case_name_value_pairs_def name_hash_def)

lemma pointing_button_name_value_pairs_hashes:
  "map name_hash (map fst pointing_button_name_value_pairs) =
     [
      1774958097, 1774958098, 1774958099, 1774958100, 1774958101, 1774958102, 1774958103,
      1774958104, 1774958105, 28399329600, 28399329601, 28399329602, 28399329603, 28399329604,
      28399329605, 28399329606, 28399329607, 28399329608, 28399329609, 28399329616, 28399329617,
      28399329618, 28399329619, 28399329620, 28399329621, 28399329622, 28399329623, 28399329624,
      28399329625, 28399329632, 28399329633, 28399329634, 28399329635, 28399329636, 28399329637,
      28399329638, 28399329639, 28399329640, 28399329641, 28399329648, 28399329649, 28399329650,
      28399329651, 28399329652, 28399329653, 28399329654, 28399329655, 28399329656, 28399329657,
      28399329664, 28399329665, 28399329666, 28399329667, 28399329668, 28399329669, 28399329670,
      28399329671, 28399329672, 28399329673, 28399329680, 28399329681, 28399329682, 28399329683,
      28399329684, 28399329685, 28399329686, 28399329687, 28399329688, 28399329689, 28399329696,
      28399329697, 28399329698, 28399329699, 28399329700, 28399329701, 28399329702, 28399329703,
      28399329704, 28399329705, 28399329712, 28399329713, 28399329714, 28399329715, 28399329716,
      28399329717, 28399329718, 28399329719, 28399329720, 28399329721, 28399329728, 28399329729,
      28399329730, 28399329731, 28399329732, 28399329733, 28399329734, 28399329735, 28399329736,
      28399329737, 454389273648, 454389273649, 454389273650, 454389273651, 454389273652,
      454389273653, 454389273654, 454389273655, 454389273656, 454389273657, 454389273664,
      454389273665, 454389273666, 454389273667, 454389273668, 454389273669, 454389273670,
      454389273671, 454389273672, 454389273673, 454389273680, 454389273681, 454389273682,
      454389273683, 454389273684, 454389273685, 454389273686, 454389273687, 454389273688,
      454389273689, 454389273696, 454389273697, 454389273698, 454389273699, 454389273700,
      454389273701, 454389273702, 454389273703, 454389273704, 454389273705, 454389273712,
      454389273713, 454389273714, 454389273715, 454389273716, 454389273717, 454389273718,
      454389273719, 454389273720, 454389273721, 454389273728, 454389273729, 454389273730,
      454389273731, 454389273732, 454389273733, 454389273734, 454389273735, 454389273736,
      454389273737, 454389273744, 454389273745, 454389273746, 454389273747, 454389273748,
      454389273749, 454389273750, 454389273751, 454389273752, 454389273753, 454389273760,
      454389273761, 454389273762, 454389273763, 454389273764, 454389273765, 454389273766,
      454389273767, 454389273768, 454389273769, 454389273776, 454389273777, 454389273778,
      454389273779, 454389273780, 454389273781, 454389273782, 454389273783, 454389273784,
      454389273785, 454389273792, 454389273793, 454389273794, 454389273795, 454389273796,
      454389273797, 454389273798, 454389273799, 454389273800, 454389273801, 454389273904,
      454389273905, 454389273906, 454389273907, 454389273908, 454389273909, 454389273910,
      454389273911, 454389273912, 454389273913, 454389273920, 454389273921, 454389273922,
      454389273923, 454389273924, 454389273925, 454389273926, 454389273927, 454389273928,
      454389273929, 454389273936, 454389273937, 454389273938, 454389273939, 454389273940,
      454389273941, 454389273942, 454389273943, 454389273944, 454389273945, 454389273952,
      454389273953, 454389273954, 454389273955, 454389273956, 454389273957, 454389273958,
      454389273959, 454389273960, 454389273961, 454389273968, 454389273969, 454389273970,
      454389273971, 454389273972, 454389273973, 454389273974, 454389273975, 454389273976,
      454389273977, 454389273984, 454389273985, 454389273986, 454389273987, 454389273988,
      454389273989]"
  by (simp add: pointing_button_name_value_pairs_def name_hash_def)

lemma generic_desktop_name_value_pairs_hashes:
  "map name_hash (map fst generic_desktop_name_value_pairs) =
     [
      2164572306418624, 8866088162337111125, 1801955008, 461300414174, 7380807515636, 461300444116]"
  by (simp add: generic_desktop_name_value_pairs_def name_hash_def)

lemma key_code_other_usage_page_pairs_hashes:
  "map name_hash (map fst key_code_other_usage_page_pairs) =
     [
      478373, 144564487399548927060, 144564487423439682644, 34736729020901245409243956316486740,
      34736729020901245409243980207242324, 7080868, 119342870681732, 33540561007185045,
      126672964, 2537016476108769729277986229040862, 9910220609799881754992133707456,
      144212690208221973748, 144212690208221983369, 9451122865486036007192259,
      568764310505086917352890405104170570628180, 568764310505086917352890405104194461383764,
      457580304516, 491979929204, 8361672011040536924, 2200511628007556, 2200546027632244,
      36919143641999246473564, 39085186168839139752716972130014703594164574214700116,
      39085186168839139752716972130014703594164598105455700, 1742, 2170306374026648972193184852,
      2170306374026648996083940436, 649476217883845173185280727704778462,
      2537016476108770207755002842597056]"
  by (simp add: key_code_other_usage_page_pairs_def name_hash_def)

lemma distinct_key_code_name_value_pairs: "distinct (map fst key_code_name_value_pairs)"
  by (rule distinct_by_hash) (simp only: key_code_name_value_pairs_hashes, simp)

lemma distinct_consumer_key_code_name_value_pairs: "distinct (map fst consumer_key_code_name_value_pairs)"
  by (rule distinct_by_hash) (simp only: consumer_key_code_name_value_pairs_hashes, simp)

lemma distinct_apple_vendor_keyboard_name_value_pairs: "distinct (map fst apple_vendor_keyboard_name_value_pairs)"
  by (rule distinct_by_hash) (simp only: apple_vendor_keyboard_name_value_pairs_hashes, simp)

lemma distinct_apple_vendor_top_case_name_value_pairs: "distinct (map fst apple_vendor_top_case_name_value_pairs)"
  by (rule distinct_by_hash) (simp only: apple_vendor_top_case_name_value_pairs_hashes, simp)

lemma distinct_pointing_button_name_value_pairs: "distinct (map fst pointing_button_name_value_pairs)"
  by (rule distinct_by_hash) (simp only: pointing_button_name_value_pairs_hashes, simp)

lemma distinct_generic_desktop_name_value_pairs: "distinct (map fst generic_desktop_name_value_pairs)"
  by (rule distinct_by_hash) (simp only: generic_desktop_name_value_pairs_hashes, simp)

lemma distinct_key_code_other_usage_page_pairs: "distinct (map fst key_code_other_usage_page_pairs)"
  by (rule distinct_by_hash) (simp only: key_code_other_usage_page_pairs_hashes, simp)

lemma distinct_key_code_name_value_pairs_hashes:
  "distinct (map name_hash (map fst key_code_name_value_pairs))"
  by (simp only: key_code_name_value_pairs_hashes, simp)

lemma other_names_hashes_disjoint:
  "list_all (\<lambda>h. h \<notin> set (map name_hash (map fst key_code_other_usage_page_pairs)) \<or> h = name_hash ''mute'')
     (map name_hash (map fst key_code_name_value_pairs))"
proof -
  have "name_hash ''mute'' = 478373" by (simp add: name_hash_def)
  then show ?thesis
    unfolding key_code_name_value_pairs_hashes key_code_other_usage_page_pairs_hashes by simp
qed

subsection \<open>Lookups\<close>

definition find_pair :: "(string \<times> usage) list \<Rightarrow> usage \<Rightarrow> (string \<times> usage) option" where
  "find_pair pairs u = List.find (\<lambda>p. snd p = u) pairs"

definition make_name :: "(string \<times> usage) list \<Rightarrow> usage \<Rightarrow> string" where
  "make_name pairs u = (case find_pair pairs u of Some p \<Rightarrow> fst p | None \<Rightarrow> ''unsupported'')"

text \<open>\<open>name_value_map\<close> is a hash map built from the pairs.\<close>

definition find_usage :: "(string \<times> 'a) list \<Rightarrow> string \<Rightarrow> 'a option" where
  "find_usage pairs name = map_of pairs name"

datatype json_scalar = Json_string string | Json_number int | Json_other

text \<open>\<open>None\<close> stands for the \<open>unmarshal_error\<close> the code throws.\<close>

definition make_usage_pair ::
    "(string \<times> usage) list \<Rightarrow> usage_page \<Rightarrow> json_scalar \<Rightarrow> usage_pair option" where
  "make_usage_pair pairs page j =
     (case j of
        Json_string name \<Rightarrow> map_option (Usage_Pair page) (find_usage pairs name)
      | Json_number n \<Rightarrow> Some (Usage_Pair page n)
      | Json_other \<Rightarrow> None)"

definition key_code_make_usage_pair :: "json_scalar \<Rightarrow> usage_pair option" where
  "key_code_make_usage_pair j =
     (case j of
        Json_string name \<Rightarrow>
          (case find_usage key_code_other_usage_page_pairs name of
             Some p \<Rightarrow> Some p
           | None \<Rightarrow> make_usage_pair key_code_name_value_pairs page_keyboard_or_keypad j)
      | _ \<Rightarrow> make_usage_pair key_code_name_value_pairs page_keyboard_or_keypad j)"

subsection \<open>The targets\<close>

definition key_code_target :: "usage_page \<Rightarrow> usage \<Rightarrow> bool" where
  "key_code_target p u \<longleftrightarrow> p = page_keyboard_or_keypad \<and> 4 \<le> u \<and> u < 0xffff"

definition consumer_key_code_target :: "usage_page \<Rightarrow> usage \<Rightarrow> bool" where
  "consumer_key_code_target p u \<longleftrightarrow>
     p = page_consumer \<and> find_pair consumer_key_code_name_value_pairs u \<noteq> None"

definition apple_vendor_keyboard_target :: "usage_page \<Rightarrow> usage \<Rightarrow> bool" where
  "apple_vendor_keyboard_target p u \<longleftrightarrow>
     p = page_apple_vendor_keyboard \<and> find_pair apple_vendor_keyboard_name_value_pairs u \<noteq> None"

definition apple_vendor_top_case_target :: "usage_page \<Rightarrow> usage \<Rightarrow> bool" where
  "apple_vendor_top_case_target p u \<longleftrightarrow>
     p = page_apple_vendor_top_case \<and> find_pair apple_vendor_top_case_name_value_pairs u \<noteq> None"

definition pointing_button_target :: "usage_page \<Rightarrow> usage \<Rightarrow> bool" where
  "pointing_button_target p u \<longleftrightarrow> p = page_button"

definition generic_desktop_target :: "usage_page \<Rightarrow> usage \<Rightarrow> bool" where
  "generic_desktop_target p u \<longleftrightarrow>
     p = page_generic_desktop \<and> find_pair generic_desktop_name_value_pairs u \<noteq> None"

definition mse_target :: "usage_page \<Rightarrow> usage \<Rightarrow> bool" where
  "mse_target p u \<longleftrightarrow>
     key_code_target p u \<or> consumer_key_code_target p u \<or> apple_vendor_keyboard_target p u
     \<or> apple_vendor_top_case_target p u \<or> pointing_button_target p u \<or> generic_desktop_target p u"

subsection \<open>JSON of a momentary switch event\<close>

text \<open>The written object has one key; \<open>None\<close> stands for the string \<open>"unsupported"\<close>.\<close>

definition mse_to_json :: "momentary_switch_event \<Rightarrow> (string \<times> string) option" where
  "mse_to_json e =
     (let p = mse_page e; u = mse_usage e in
      if key_code_target p u then Some (''key_code'', make_name key_code_name_value_pairs u)
      else if consumer_key_code_target p u
      then Some (''consumer_key_code'', make_name consumer_key_code_name_value_pairs u)
      else if apple_vendor_keyboard_target p u
      then Some (''apple_vendor_keyboard_key_code'', make_name apple_vendor_keyboard_name_value_pairs u)
      else if apple_vendor_top_case_target p u
      then Some (''apple_vendor_top_case_key_code'', make_name apple_vendor_top_case_name_value_pairs u)
      else if pointing_button_target p u
      then Some (''pointing_button'', make_name pointing_button_name_value_pairs u)
      else if generic_desktop_target p u
      then Some (''generic_desktop'', make_name generic_desktop_name_value_pairs u)
      else None)"

definition mse_from_json_item :: "string \<Rightarrow> json_scalar \<Rightarrow> usage_pair option" where
  "mse_from_json_item k v =
     (if k = ''key_code'' then key_code_make_usage_pair v
      else if k = ''consumer_key_code''
      then make_usage_pair consumer_key_code_name_value_pairs page_consumer v
      else if k = ''apple_vendor_keyboard_key_code''
      then make_usage_pair apple_vendor_keyboard_name_value_pairs page_apple_vendor_keyboard v
      else if k = ''apple_vendor_top_case_key_code''
      then make_usage_pair apple_vendor_top_case_name_value_pairs page_apple_vendor_top_case v
      else if k = ''pointing_button''
      then make_usage_pair pointing_button_name_value_pairs page_button v
      else if k = ''generic_desktop''
      then make_usage_pair generic_desktop_name_value_pairs page_generic_desktop v
      else None)"

text \<open>The loop over the items of an object; the last item wins.\<close>

fun mse_from_json ::
    "(string \<times> json_scalar) list \<Rightarrow> momentary_switch_event \<Rightarrow> momentary_switch_event option" where
  "mse_from_json [] e = Some e"
| "mse_from_json ((k, v) # items) e =
     (case mse_from_json_item k v of None \<Rightarrow> None | Some p \<Rightarrow> mse_from_json items (MSE p))"

subsection \<open>Round trip\<close>

lemma find_pair_SomeD: "find_pair t u = Some p \<Longrightarrow> p \<in> set t \<and> snd p = u"
  by (auto simp: find_pair_def find_Some_iff)

lemma find_usage_make_name:
  assumes "distinct (map fst t)" "find_pair t u \<noteq> None"
  shows "find_usage t (make_name t u) = Some u"
proof -
  obtain p where p: "find_pair t u = Some p" using assms(2) by auto
  then have "(fst p, u) \<in> set t" using find_pair_SomeD[OF p] by (metis prod.collapse)
  then show ?thesis
    using map_of_is_SomeI[OF assms(1)] p by (simp add: find_usage_def make_name_def)
qed

lemma make_name_supported: "make_name t u \<noteq> ''unsupported'' \<Longrightarrow> find_pair t u \<noteq> None"
  by (cases "find_pair t u") (simp_all add: make_name_def)

lemma key_name_not_other:
  assumes "(n, u) \<in> set key_code_name_value_pairs" "n \<noteq> ''mute''"
  shows "find_usage key_code_other_usage_page_pairs n = None"
proof -
  have inj: "inj_on name_hash (set (map fst key_code_name_value_pairs))"
    using distinct_key_code_name_value_pairs_hashes by (simp only: distinct_map)
  have mute: "''mute'' \<in> set (map fst key_code_name_value_pairs)"
    by (simp add: key_code_name_value_pairs_def)
  have n: "n \<in> set (map fst key_code_name_value_pairs)" using assms(1) by force
  then have "name_hash n \<noteq> name_hash ''mute''" using inj mute assms(2) by (auto dest: inj_onD)
  then have "name_hash n \<notin> set (map name_hash (map fst key_code_other_usage_page_pairs))"
    using other_names_hashes_disjoint n by (auto simp: list_all_iff)
  then have "n \<notin> fst ` set key_code_other_usage_page_pairs" by auto
  then show ?thesis by (simp add: find_usage_def map_of_eq_None_iff)
qed

lemma key_code_round_trip:
  assumes "find_pair key_code_name_value_pairs u \<noteq> None" "u \<noteq> 127"
  shows "key_code_make_usage_pair (Json_string (make_name key_code_name_value_pairs u)) =
    Some (Usage_Pair page_keyboard_or_keypad u)"
proof -
  obtain p where p: "find_pair key_code_name_value_pairs u = Some p" using assms(1) by auto
  let ?n = "make_name key_code_name_value_pairs u"
  have mem: "(?n, u) \<in> set key_code_name_value_pairs"
    using find_pair_SomeD[OF p] p by (cases p) (simp add: make_name_def)
  have "(''mute'', 127) \<in> set key_code_name_value_pairs" by (simp add: key_code_name_value_pairs_def)
  then have "?n \<noteq> ''mute''"
    using mem assms(2) distinct_key_code_name_value_pairs by (metis eq_key_imp_eq_value)
  from key_name_not_other[OF mem this]
    find_usage_make_name[OF distinct_key_code_name_value_pairs assms(1)]
  show ?thesis by (simp add: key_code_make_usage_pair_def make_usage_pair_def)
qed

lemma plain_round_trip:
  "distinct (map fst t) \<Longrightarrow> find_pair t u \<noteq> None \<Longrightarrow>
   make_usage_pair t page (Json_string (make_name t u)) = Some (Usage_Pair page u)"
  by (simp add: make_usage_pair_def find_usage_make_name)

lemma MSE_collapse: "MSE (Usage_Pair (mse_page e) (mse_usage e)) = e"
  by (simp add: mse_page_def mse_usage_def)

subsection \<open>Properties\<close>

text \<open>
  An event that is written with a name is read back as the same event, whatever table its
  name comes from; the only exception is usage 0x7f of the keyboard page.
\<close>

theorem momentary_switch_event_json_round_trip:
  assumes "mse_to_json e = Some (k, n)" "n \<noteq> ''unsupported''" "e \<noteq> mse page_keyboard_or_keypad 0x7f"
  shows "mse_from_json [(k, Json_string n)] e0 = Some e"
proof -
  define p u where "p = mse_page e" and "u = mse_usage e"
  have e: "e = MSE (Usage_Pair p u)" by (simp add: p_def u_def MSE_collapse)
  have not_mute: "p = page_keyboard_or_keypad \<Longrightarrow> u \<noteq> 127"
    using assms(3) e by (auto simp: mse_def)
  note defs = mse_to_json_def Let_def p_def[symmetric] u_def[symmetric]
  note trips = key_code_round_trip plain_round_trip distinct_consumer_key_code_name_value_pairs
    distinct_apple_vendor_keyboard_name_value_pairs distinct_apple_vendor_top_case_name_value_pairs
    distinct_pointing_button_name_value_pairs distinct_generic_desktop_name_value_pairs
  consider
      (key) "key_code_target p u" "k = ''key_code''" "n = make_name key_code_name_value_pairs u"
    | (consumer) "consumer_key_code_target p u" "k = ''consumer_key_code''"
        "n = make_name consumer_key_code_name_value_pairs u"
    | (keyboard) "apple_vendor_keyboard_target p u" "k = ''apple_vendor_keyboard_key_code''"
        "n = make_name apple_vendor_keyboard_name_value_pairs u"
    | (top_case) "apple_vendor_top_case_target p u" "k = ''apple_vendor_top_case_key_code''"
        "n = make_name apple_vendor_top_case_name_value_pairs u"
    | (button) "pointing_button_target p u" "k = ''pointing_button''"
        "n = make_name pointing_button_name_value_pairs u"
    | (desktop) "generic_desktop_target p u" "k = ''generic_desktop''"
        "n = make_name generic_desktop_name_value_pairs u"
    using assms(1) unfolding defs by (auto split: if_splits)
  then have "mse_from_json_item k (Json_string n) = Some (Usage_Pair p u)"
  proof cases
    case key
    then have "find_pair key_code_name_value_pairs u \<noteq> None" using assms(2) make_name_supported by blast
    with key not_mute show ?thesis
      by (simp add: mse_from_json_item_def key_code_round_trip key_code_target_def)
  next
    case consumer
    then show ?thesis by (simp add: mse_from_json_item_def consumer_key_code_target_def trips)
  next
    case keyboard
    then show ?thesis by (simp add: mse_from_json_item_def apple_vendor_keyboard_target_def trips)
  next
    case top_case
    then show ?thesis by (simp add: mse_from_json_item_def apple_vendor_top_case_target_def trips)
  next
    case button
    then have "find_pair pointing_button_name_value_pairs u \<noteq> None"
      using assms(2) make_name_supported by blast
    with button show ?thesis by (simp add: mse_from_json_item_def pointing_button_target_def trips)
  next
    case desktop
    then show ?thesis by (simp add: mse_from_json_item_def generic_desktop_target_def trips)
  qed
  then show ?thesis by (simp add: e)
qed

theorem momentary_switch_event_json_round_trip_witness:
  "mse_from_json [(''generic_desktop'', Json_string ''dpad_up'')] (mse 0 0) = Some (mse 1 144)"
proof (rule momentary_switch_event_json_round_trip)
  show "mse_to_json (mse 1 144) = Some (''generic_desktop'', ''dpad_up'')"
    by (simp add: mse_to_json_def Let_def key_code_target_def consumer_key_code_target_def
        apple_vendor_keyboard_target_def apple_vendor_top_case_target_def pointing_button_target_def
        generic_desktop_target_def make_name_def find_pair_def generic_desktop_name_value_pairs_def)
qed simp_all

text \<open>
  Usage 0x7f of the keyboard page is written as key code \<open>mute\<close>, but key code \<open>mute\<close> is read as
  the consumer page's mute: the event does not survive a round trip.
\<close>

theorem keyboard_mute_is_read_as_consumer_mute:
  "mse_to_json (mse page_keyboard_or_keypad 0x7f) = Some (''key_code'', ''mute'')
   \<and> mse_from_json [(''key_code'', Json_string ''mute'')] e0 = Some (mse page_consumer 0xe2)"
proof
  show "mse_to_json (mse page_keyboard_or_keypad 0x7f) = Some (''key_code'', ''mute'')"
    by (simp add: mse_to_json_def key_code_target_def make_name_def find_pair_def
        key_code_name_value_pairs_def Let_def)
  show "mse_from_json [(''key_code'', Json_string ''mute'')] e0 = Some (mse page_consumer 0xe2)"
    by (simp add: mse_from_json_item_def key_code_make_usage_pair_def find_usage_def
        key_code_other_usage_page_pairs_def mse_def)
qed

end
