(* ===== verification/Event_Queue_Utility.thy ===== *)
theory Event_Queue_Utility
  imports Event_Queue Key_Trackers Key_Codes
begin

text \<open>
  \<open>src/share/event_queue/utility.hpp\<close>: the conversion of the HID values of a device to queue
  entries, and the insertion of the event that tells that all keys and buttons were released.

  Floating point: the product of a value and a multiplier is rounded by the hardware and an
  out-of-range conversion to \<open>int\<close> is undefined in C++, so both are parameters (\<open>floating_point\<close>).
\<close>

subsection \<open>HID values\<close>

record iokit_hid_value =
  hv_time_stamp :: absolute_time_point
  hv_integer_value :: int
  hv_usage_page :: "usage_page option"
  hv_usage :: "usage option"
  hv_logical_max :: "int option"
  hv_logical_min :: "int option"

definition conforms_to :: "iokit_hid_value \<Rightarrow> usage_page \<Rightarrow> usage \<Rightarrow> bool" where
  "conforms_to v p u \<longleftrightarrow> hv_usage_page v = Some p \<and> hv_usage v = Some u"

record floating_point =
  fp_multiply :: "int \<Rightarrow> rat \<Rightarrow> rat"
  fp_int_overflow :: "rat \<Rightarrow> int"

definition fp_to_int :: "floating_point \<Rightarrow> rat \<Rightarrow> int" where
  "fp_to_int F r =
     (if - (2 ^ 31) \<le> rat_truncate r \<and> rat_truncate r < 2 ^ 31 then rat_truncate r
      else fp_int_overflow F r)"

definition adjust_pointing_motion_value :: "floating_point \<Rightarrow> iokit_hid_value \<Rightarrow> rat \<Rightarrow> int" where
  "adjust_pointing_motion_value F value multiplier =
     (let integer_value = hv_integer_value value;
          v = fp_to_int F (fp_multiply F integer_value multiplier)
      in if v = 0 \<and> integer_value > 0 then 1
         else if v = 0 \<and> integer_value < 0 then -1
         else min 127 (max (-127) v))"

record make_entries_parameters =
  mep_pointing_motion_xy_multiplier :: rat
  mep_pointing_motion_wheels_multiplier :: rat

subsection \<open>make_entries\<close>

text \<open>The local variables of the loop.\<close>

record motion_accumulator =
  ma_time_stamp :: "absolute_time_point option"
  ma_x :: "int option"
  ma_y :: "int option"
  ma_vertical_wheel :: "int option"
  ma_horizontal_wheel :: "int option"

definition motion_accumulator_empty :: motion_accumulator where
  "motion_accumulator_empty =
     \<lparr>ma_time_stamp = None, ma_x = None, ma_y = None, ma_vertical_wheel = None,
      ma_horizontal_wheel = None\<rparr>"

record make_entries_state =
  mes_result :: "entry list"
  mes_motion :: motion_accumulator
  mes_hat :: hat_switch_converter

definition value_or_0 :: "int option \<Rightarrow> int" where
  "value_or_0 v = (case v of Some x \<Rightarrow> x | None \<Rightarrow> 0)"

definition accumulated_motion :: "motion_accumulator \<Rightarrow> pointing_motion" where
  "accumulated_motion a =
     \<lparr>pm_x = value_or_0 (ma_x a), pm_y = value_or_0 (ma_y a),
      pm_vertical_wheel = value_or_0 (ma_vertical_wheel a),
      pm_horizontal_wheel = value_or_0 (ma_horizontal_wheel a)\<rparr>"

definition emplace_back_pointing_motion_event ::
    "device_id \<Rightarrow> make_entries_state \<Rightarrow> make_entries_state" where
  "emplace_back_pointing_motion_event d s =
     (case ma_time_stamp (mes_motion s) of
        None \<Rightarrow> s
      | Some t \<Rightarrow>
          (let e = Ev_pointing_motion (accumulated_motion (mes_motion s))
           in s\<lparr>mes_result := mes_result s @
                   [make_entry d (make_event_time_stamp t) e single e st_original False],
                mes_motion := motion_accumulator_empty\<rparr>))"

definition push_result :: "entry \<Rightarrow> make_entries_state \<Rightarrow> make_entries_state" where
  "push_result en s = s\<lparr>mes_result := mes_result s @ [en]\<rparr>"

text \<open>
  One axis: flush when the axis already holds a value, then record the time stamp and the value.
\<close>

definition accumulate ::
    "device_id \<Rightarrow> (motion_accumulator \<Rightarrow> int option) \<Rightarrow>
     ((int option \<Rightarrow> int option) \<Rightarrow> motion_accumulator \<Rightarrow> motion_accumulator) \<Rightarrow>
     absolute_time_point \<Rightarrow> int \<Rightarrow> make_entries_state \<Rightarrow> make_entries_state" where
  "accumulate d get upd t x s =
     (let s1 = (if get (mes_motion s) \<noteq> None then emplace_back_pointing_motion_event d s else s)
      in s1\<lparr>mes_motion := upd (\<lambda>_. Some x) ((mes_motion s1)\<lparr>ma_time_stamp := Some t\<rparr>)\<rparr>)"

definition key_entry ::
    "device_id \<Rightarrow> absolute_time_point \<Rightarrow> momentary_switch_event \<Rightarrow> event_type \<Rightarrow> entry" where
  "key_entry d t e et =
     make_entry d (make_event_time_stamp t) (Ev_momentary_switch_event e) et
       (Ev_momentary_switch_event e) st_original False"

definition make_entries_step ::
    "floating_point \<Rightarrow> device_properties \<Rightarrow> make_entries_parameters \<Rightarrow> make_entries_state \<Rightarrow>
     iokit_hid_value \<Rightarrow> make_entries_state" where
  "make_entries_step F dp ps s v =
     (let d = dp_device_id dp; t = hv_time_stamp v;
          is_game_pad = di_is_game_pad (dp_device_identifiers dp);
          xy = adjust_pointing_motion_value F v (mep_pointing_motion_xy_multiplier ps);
          wheel = adjust_pointing_motion_value F v (mep_pointing_motion_wheels_multiplier ps)
      in case (hv_usage_page v, hv_usage v) of
           (Some p, Some u) \<Rightarrow>
             (if mse_target p u
              then push_result
                     (key_entry d t (mse p u) (if hv_integer_value v \<noteq> 0 then key_down else key_up)) s
              else if conforms_to v page_generic_desktop usage_gd_x \<and> \<not> is_game_pad
              then accumulate d ma_x ma_x_update t xy s
              else if conforms_to v page_generic_desktop usage_gd_y \<and> \<not> is_game_pad
              then accumulate d ma_y ma_y_update t xy s
              else if conforms_to v page_generic_desktop usage_gd_wheel
              then accumulate d ma_vertical_wheel ma_vertical_wheel_update t wheel s
              else if conforms_to v page_consumer usage_ac_pan
              then accumulate d ma_horizontal_wheel ma_horizontal_wheel_update t wheel s
              else if conforms_to v page_leds usage_led_caps_lock
              then push_result
                     (make_entry d (make_event_time_stamp t)
                        (Ev_caps_lock_state_changed (hv_integer_value v)) single
                        (Ev_caps_lock_state_changed (hv_integer_value v)) st_virtual_event False) s
              else if is_game_pad
              then (if conforms_to v page_generic_desktop usage_gd_hat_switch
                    then (case to_dpad_events d (hv_integer_value v) (mes_hat s) of
                            (pairs, hat) \<Rightarrow>
                              (foldl (\<lambda>s (e, et). push_result (key_entry d t e et) s) s pairs)
                                \<lparr>mes_hat := hat\<rparr>)
                    else s)
              else s)
         | _ \<Rightarrow> s)"

definition make_entries ::
    "floating_point \<Rightarrow> device_properties \<Rightarrow> iokit_hid_value list \<Rightarrow> make_entries_parameters \<Rightarrow>
     hat_switch_converter \<Rightarrow> entry list \<times> hat_switch_converter" where
  "make_entries F dp vs ps hat =
     (let s = emplace_back_pointing_motion_event (dp_device_id dp)
                (foldl (make_entries_step F dp ps)
                   \<lparr>mes_result = [], mes_motion = motion_accumulator_empty, mes_hat = hat\<rparr> vs)
      in (mes_result s, mes_hat s))"

subsection \<open>insert_device_keys_and_pointing_buttons_are_released_event\<close>

definition released_entry :: "device_id \<Rightarrow> event_time_stamp \<Rightarrow> entry" where
  "released_entry d t =
     make_entry d t Ev_device_keys_and_pointing_buttons_are_released single
       Ev_device_keys_and_pointing_buttons_are_released st_virtual_event False"

definition pressed_keys_of_entry :: "device_id \<Rightarrow> entry \<Rightarrow> pressed_keys \<Rightarrow> pressed_keys" where
  "pressed_keys_of_entry d en pk =
     (if en_device_id en = d then
        (case event_mse (en_event en) of
           None \<Rightarrow> pk
         | Some e \<Rightarrow>
             (if en_event_type en = key_down then pressed_keys_insert e pk
              else if en_event_type en = key_up \<and> \<not> pressed_keys_empty pk then pressed_keys_erase e pk
              else pk))
      else pk)"

fun insert_released_events ::
    "device_id \<Rightarrow> entry list \<Rightarrow> pressed_keys \<Rightarrow> entry list \<times> pressed_keys" where
  "insert_released_events d [] pk = ([], pk)"
| "insert_released_events d (en # ens) pk =
     (let pk1 = pressed_keys_of_entry d en pk;
          released =
            en_device_id en = d \<and> en_event_type en = key_up
            \<and> \<not> pressed_keys_empty pk \<and> pressed_keys_empty pk1
      in case insert_released_events d ens pk1 of
           (r, pk2) \<Rightarrow>
             (en # (if released then [released_entry d (en_event_time_stamp en)] else []) @ r, pk2))"

subsection \<open>Bounds\<close>

lemma adjust_bounds: "\<bar>adjust_pointing_motion_value F v m\<bar> \<le> 127"
  by (auto simp: adjust_pointing_motion_value_def Let_def)

lemma adjust_nonzero: "hv_integer_value v \<noteq> 0 \<Longrightarrow> adjust_pointing_motion_value F v m \<noteq> 0"
  by (auto simp: adjust_pointing_motion_value_def Let_def min_def max_def)

subsection \<open>Conservation of motion\<close>

text \<open>
  The total of one axis over a list of entries, and the total a loop state stands for: what has been
  emitted plus what is still held.
\<close>

datatype motion_axis = axis_x | axis_y | axis_vertical_wheel | axis_horizontal_wheel

fun motion_of :: "motion_axis \<Rightarrow> pointing_motion \<Rightarrow> int" where
  "motion_of axis_x m = pm_x m"
| "motion_of axis_y m = pm_y m"
| "motion_of axis_vertical_wheel m = pm_vertical_wheel m"
| "motion_of axis_horizontal_wheel m = pm_horizontal_wheel m"

definition entry_motion :: "motion_axis \<Rightarrow> entry \<Rightarrow> int" where
  "entry_motion axis en = (case en_event en of Ev_pointing_motion m \<Rightarrow> motion_of axis m | _ \<Rightarrow> 0)"

definition total_motion :: "motion_axis \<Rightarrow> entry list \<Rightarrow> int" where
  "total_motion axis ens = sum_list (map (entry_motion axis) ens)"

definition state_motion :: "motion_axis \<Rightarrow> make_entries_state \<Rightarrow> int" where
  "state_motion axis s = total_motion axis (mes_result s) + motion_of axis (accumulated_motion (mes_motion s))"

text \<open>Values are held only together with a time stamp.\<close>

definition accumulator_ok :: "motion_accumulator \<Rightarrow> bool" where
  "accumulator_ok a \<longleftrightarrow> (ma_time_stamp a = None \<longrightarrow> a = motion_accumulator_empty)"

lemma accumulated_motion_empty [simp]:
  "accumulated_motion motion_accumulator_empty =
     \<lparr>pm_x = 0, pm_y = 0, pm_vertical_wheel = 0, pm_horizontal_wheel = 0\<rparr>"
  by (simp add: accumulated_motion_def motion_accumulator_empty_def value_or_0_def)

lemma total_motion_append [simp]:
  "total_motion axis (xs @ ys) = total_motion axis xs + total_motion axis ys"
  by (simp add: total_motion_def)

lemma total_motion_key [simp]: "total_motion axis [key_entry d t e et] = 0"
  by (simp add: total_motion_def entry_motion_def key_entry_def make_entry_def)

lemma motion_of_zero [simp]:
  "motion_of axis \<lparr>pm_x = 0, pm_y = 0, pm_vertical_wheel = 0, pm_horizontal_wheel = 0\<rparr> = 0"
  by (cases axis) simp_all

lemma flush_motion:
  "state_motion axis (emplace_back_pointing_motion_event d s) = state_motion axis s"
  by (auto simp: emplace_back_pointing_motion_event_def state_motion_def total_motion_def
      entry_motion_def make_entry_def Let_def split: option.splits)

lemma flush_empty:
  "accumulator_ok (mes_motion s) \<Longrightarrow>
   mes_motion (emplace_back_pointing_motion_event d s) = motion_accumulator_empty"
  by (auto simp: emplace_back_pointing_motion_event_def accumulator_ok_def Let_def split: option.splits)

lemma state_motion_push [simp]:
  "state_motion axis (push_result en s) = state_motion axis s + entry_motion axis en"
  by (simp add: state_motion_def push_result_def total_motion_def)

lemma state_motion_dpad:
  "state_motion axis (foldl (\<lambda>s (e, et). push_result (key_entry d t e et) s) s pairs) = state_motion axis s"
  by (induction pairs arbitrary: s)
     (auto simp: entry_motion_def key_entry_def make_entry_def)

lemma mes_motion_dpad:
  "mes_motion (foldl (\<lambda>s (e, et). push_result (key_entry d t e et) s) s pairs) = mes_motion s"
  by (induction pairs arbitrary: s) (auto simp: push_result_def)

text \<open>What one HID value contributes to the motion of a device.\<close>

definition hid_value_motion ::
    "floating_point \<Rightarrow> device_properties \<Rightarrow> make_entries_parameters \<Rightarrow> iokit_hid_value \<Rightarrow> pointing_motion" where
  "hid_value_motion F dp ps v =
     (let stick = di_is_game_pad (dp_device_identifiers dp);
          xy = adjust_pointing_motion_value F v (mep_pointing_motion_xy_multiplier ps);
          wheel = adjust_pointing_motion_value F v (mep_pointing_motion_wheels_multiplier ps)
      in \<lparr>pm_x = (if conforms_to v page_generic_desktop usage_gd_x \<and> \<not> stick then xy else 0),
          pm_y = (if conforms_to v page_generic_desktop usage_gd_y \<and> \<not> stick then xy else 0),
          pm_vertical_wheel =
            (if conforms_to v page_generic_desktop usage_gd_wheel then wheel else 0),
          pm_horizontal_wheel = (if conforms_to v page_consumer usage_ac_pan then wheel else 0)\<rparr>)"

lemma mse_target_not_motion [simp]:
  "\<not> mse_target page_generic_desktop usage_gd_x" "\<not> mse_target page_generic_desktop usage_gd_y"
  "\<not> mse_target page_generic_desktop usage_gd_wheel" "\<not> mse_target page_consumer usage_ac_pan"
  "\<not> mse_target page_leds usage_led_caps_lock"
  by code_simp+

text \<open>The two facts about \<open>accumulate\<close>, per axis: it adds the value, and it keeps the state well-formed.\<close>

definition accumulator_upd ::
    "(motion_accumulator \<Rightarrow> int option) \<Rightarrow>
     ((int option \<Rightarrow> int option) \<Rightarrow> motion_accumulator \<Rightarrow> motion_accumulator) \<Rightarrow>
     motion_axis \<Rightarrow> bool" where
  "accumulator_upd get upd ax \<longleftrightarrow>
     (case ax of axis_x \<Rightarrow> get = ma_x \<and> upd = ma_x_update
      | axis_y \<Rightarrow> get = ma_y \<and> upd = ma_y_update
      | axis_vertical_wheel \<Rightarrow> get = ma_vertical_wheel \<and> upd = ma_vertical_wheel_update
      | axis_horizontal_wheel \<Rightarrow> get = ma_horizontal_wheel \<and> upd = ma_horizontal_wheel_update)"

lemma accumulate_ok:
  "accumulator_upd get upd ax \<Longrightarrow> accumulator_ok (mes_motion (accumulate d get upd t x s))"
  by (cases ax) (auto simp: accumulator_upd_def accumulate_def accumulator_ok_def Let_def)

lemma record_value:
  assumes "accumulator_upd get upd ax" "get a = None"
  shows "motion_of axis (accumulated_motion (upd (\<lambda>_. Some x) (a\<lparr>ma_time_stamp := t\<rparr>))) =
    motion_of axis (accumulated_motion a) + (if axis = ax then x else 0)"
  using assms
  by (cases ax; cases axis) (auto simp: accumulator_upd_def accumulated_motion_def value_or_0_def)

lemma accumulate_motion:
  assumes "accumulator_upd get upd ax" "accumulator_ok (mes_motion s)"
  shows "state_motion axis (accumulate d get upd t x s) =
    state_motion axis s + (if axis = ax then x else 0)"
proof -
  define s1 where
    "s1 = (if get (mes_motion s) \<noteq> None then emplace_back_pointing_motion_event d s else s)"
  have "get (mes_motion s1) = None"
    using assms(1) flush_empty[OF assms(2), of d]
    by (cases ax) (auto simp: s1_def accumulator_upd_def motion_accumulator_empty_def)
  moreover have "state_motion axis s1 = state_motion axis s"
    by (simp add: s1_def flush_motion)
  ultimately show ?thesis
    using record_value[OF assms(1), of "mes_motion s1" axis x "Some t"]
    unfolding accumulate_def s1_def[symmetric] Let_def by (simp add: state_motion_def)
qed

lemma state_motion_step:
  assumes ok: "accumulator_ok (mes_motion s)"
  shows "state_motion axis (make_entries_step F dp ps s v) =
      state_motion axis s + motion_of axis (hid_value_motion F dp ps v)"
    and "accumulator_ok (mes_motion (make_entries_step F dp ps s v))"
proof -
  have a: "accumulator_upd ma_x ma_x_update axis_x" "accumulator_upd ma_y ma_y_update axis_y"
    "accumulator_upd ma_vertical_wheel ma_vertical_wheel_update axis_vertical_wheel"
    "accumulator_upd ma_horizontal_wheel ma_horizontal_wheel_update axis_horizontal_wheel"
    by (simp_all add: accumulator_upd_def)
  have k: "entry_motion axis (key_entry d t e et) = 0" for d t e et
    by (simp add: entry_motion_def key_entry_def make_entry_def)
  have hat: "state_motion axis (s'\<lparr>mes_hat := h\<rparr>) = state_motion axis s'" for s' h
    by (simp add: state_motion_def)
  have push: "mes_motion (push_result en s) = mes_motion s" for en
    by (simp add: push_result_def)
  have ne: "conforms_to v p u \<Longrightarrow> hv_usage_page v = Some p \<and> hv_usage v = Some u" for p u
    by (simp add: conforms_to_def)
  consider (t) p u where "hv_usage_page v = Some p" "hv_usage v = Some u" "mse_target p u"
    | (x) "conforms_to v page_generic_desktop usage_gd_x"
    | (y) "conforms_to v page_generic_desktop usage_gd_y"
    | (w) "conforms_to v page_generic_desktop usage_gd_wheel"
    | (h) "conforms_to v page_consumer usage_ac_pan"
    | (n) "\<not> conforms_to v page_generic_desktop usage_gd_x" "\<not> conforms_to v page_generic_desktop usage_gd_y"
        "\<not> conforms_to v page_generic_desktop usage_gd_wheel" "\<not> conforms_to v page_consumer usage_ac_pan"
        "\<not> (\<exists>p u. hv_usage_page v = Some p \<and> hv_usage v = Some u \<and> mse_target p u)"
    by blast
  then have "state_motion axis (make_entries_step F dp ps s v) =
      state_motion axis s + motion_of axis (hid_value_motion F dp ps v)
    \<and> accumulator_ok (mes_motion (make_entries_step F dp ps s v))"
  proof cases
    case t
    have "\<not> conforms_to v page_generic_desktop usage_gd_x" "\<not> conforms_to v page_generic_desktop usage_gd_y"
        "\<not> conforms_to v page_generic_desktop usage_gd_wheel" "\<not> conforms_to v page_consumer usage_ac_pan"
      using t by (auto simp: conforms_to_def)
    then show ?thesis using t ok
      by (simp add: make_entries_step_def Let_def hid_value_motion_def push k)
  next
    case x
    then show ?thesis
      using ok accumulate_motion[OF a(1) ok] accumulate_ok[OF a(1)]
      by (cases axis) (auto simp: make_entries_step_def Let_def hid_value_motion_def conforms_to_def)
  next
    case y
    then show ?thesis
      using ok accumulate_motion[OF a(2) ok] accumulate_ok[OF a(2)]
      by (cases axis) (auto simp: make_entries_step_def Let_def hid_value_motion_def conforms_to_def)
  next
    case w
    then show ?thesis
      using ok accumulate_motion[OF a(3) ok] accumulate_ok[OF a(3)]
      by (cases axis) (auto simp: make_entries_step_def Let_def hid_value_motion_def conforms_to_def)
  next
    case h
    then show ?thesis
      using ok accumulate_motion[OF a(4) ok] accumulate_ok[OF a(4)]
      by (cases axis) (auto simp: make_entries_step_def Let_def hid_value_motion_def conforms_to_def)
  next
    case n
    then show ?thesis using ok
      by (auto simp: make_entries_step_def Let_def hid_value_motion_def hat state_motion_dpad
          mes_motion_dpad push entry_motion_def make_entry_def split: option.splits prod.splits)
  qed
  then show "state_motion axis (make_entries_step F dp ps s v) =
      state_motion axis s + motion_of axis (hid_value_motion F dp ps v)"
    and "accumulator_ok (mes_motion (make_entries_step F dp ps s v))" by blast+
qed

lemma state_motion_run:
  "accumulator_ok (mes_motion s) \<Longrightarrow>
   state_motion axis (foldl (make_entries_step F dp ps) s vs) =
     state_motion axis s + (\<Sum>v\<leftarrow>vs. motion_of axis (hid_value_motion F dp ps v))
   \<and> accumulator_ok (mes_motion (foldl (make_entries_step F dp ps) s vs))"
  by (induction vs arbitrary: s) (simp_all add: state_motion_step)

lemma accumulator_ok_empty [simp]: "accumulator_ok motion_accumulator_empty"
  by (simp add: accumulator_ok_def)

subsection \<open>Every emitted motion fits a report\<close>

definition motion_bounded :: "make_entries_state \<Rightarrow> bool" where
  "motion_bounded s \<longleftrightarrow>
     (\<forall>axis. \<forall>en\<in>set (mes_result s). \<bar>entry_motion axis en\<bar> \<le> 127)
     \<and> (\<forall>axis. \<bar>motion_of axis (accumulated_motion (mes_motion s))\<bar> \<le> 127)"

lemma motion_bounded_flush:
  "motion_bounded s \<Longrightarrow> motion_bounded (emplace_back_pointing_motion_event d s)"
  by (auto simp: motion_bounded_def emplace_back_pointing_motion_event_def Let_def entry_motion_def
      make_entry_def split: option.splits)

lemma motion_bounded_accumulate:
  assumes "motion_bounded s" "accumulator_upd get upd ax" "\<bar>x\<bar> \<le> 127"
  shows "motion_bounded (accumulate d get upd t x s)"
proof -
  define s1 where
    "s1 = (if get (mes_motion s) \<noteq> None then emplace_back_pointing_motion_event d s else s)"
  have b: "motion_bounded s1" using assms(1) by (simp add: s1_def motion_bounded_flush)
  then have m: "\<bar>motion_of a (accumulated_motion (mes_motion s1))\<bar> \<le> 127" for a
    by (simp add: motion_bounded_def)
  have "\<bar>motion_of a (accumulated_motion (upd (\<lambda>_. Some x) ((mes_motion s1)\<lparr>ma_time_stamp := Some t\<rparr>)))\<bar> \<le> 127"
    for a
    using assms(2,3) m[of a]
    by (cases ax; cases a) (auto simp: accumulator_upd_def accumulated_motion_def value_or_0_def)
  then show ?thesis
    using b unfolding accumulate_def s1_def[symmetric] Let_def by (simp add: motion_bounded_def)
qed

lemma motion_bounded_push:
  "motion_bounded s \<Longrightarrow> event_mse (en_event en) \<noteq> None \<or> (\<exists>n. en_event en = Ev_caps_lock_state_changed n)
   \<Longrightarrow> motion_bounded (push_result en s)"
  by (auto simp: motion_bounded_def push_result_def entry_motion_def split: event.splits)

lemma motion_bounded_dpad:
  "motion_bounded s \<Longrightarrow> motion_bounded (foldl (\<lambda>s (e, et). push_result (key_entry d t e et) s) s pairs)"
  by (induction pairs arbitrary: s)
     (auto simp: motion_bounded_push key_entry_def make_entry_def)

lemma motion_bounded_hat [simp]: "motion_bounded (s\<lparr>mes_hat := h\<rparr>) = motion_bounded s"
  by (simp add: motion_bounded_def)

lemma motion_bounded_step:
  assumes "motion_bounded s"
  shows "motion_bounded (make_entries_step F dp ps s v)"
proof -
  have acc: "motion_bounded (accumulate d ma_x ma_x_update t (adjust_pointing_motion_value F v m) s)"
    "motion_bounded (accumulate d ma_y ma_y_update t (adjust_pointing_motion_value F v m) s)"
    "motion_bounded (accumulate d ma_vertical_wheel ma_vertical_wheel_update t
       (adjust_pointing_motion_value F v m) s)"
    "motion_bounded (accumulate d ma_horizontal_wheel ma_horizontal_wheel_update t
       (adjust_pointing_motion_value F v m) s)" for d t m
    by (rule motion_bounded_accumulate[OF assms _ adjust_bounds, where ax = axis_x]
          motion_bounded_accumulate[OF assms _ adjust_bounds, where ax = axis_y]
          motion_bounded_accumulate[OF assms _ adjust_bounds, where ax = axis_vertical_wheel]
          motion_bounded_accumulate[OF assms _ adjust_bounds, where ax = axis_horizontal_wheel];
        simp add: accumulator_upd_def)+
  have push: "motion_bounded (push_result (key_entry d t e et) s)"
    "motion_bounded (push_result (make_entry d ts (Ev_caps_lock_state_changed n) et oe st lz) s)"
    for d t e et ts n oe st lz
    using assms by (simp_all add: motion_bounded_push key_entry_def make_entry_def)
  show ?thesis
    using assms unfolding make_entries_step_def Let_def
    by (simp add: acc push motion_bounded_dpad split_beta split: option.split)
qed

lemma motion_bounded_run:
  "motion_bounded s \<Longrightarrow> motion_bounded (foldl (make_entries_step F dp ps) s vs)"
  by (induction vs arbitrary: s) (simp_all add: motion_bounded_step)

subsection \<open>Key entries\<close>

definition is_key_entry :: "entry \<Rightarrow> bool" where
  "is_key_entry en \<longleftrightarrow> event_mse (en_event en) \<noteq> None"

definition hid_value_key_entries :: "device_properties \<Rightarrow> iokit_hid_value \<Rightarrow> entry list" where
  "hid_value_key_entries dp v =
     (case (hv_usage_page v, hv_usage v) of
        (Some p, Some u) \<Rightarrow>
          (if mse_target p u
           then [key_entry (dp_device_id dp) (hv_time_stamp v) (mse p u)
                   (if hv_integer_value v \<noteq> 0 then key_down else key_up)]
           else [])
      | _ \<Rightarrow> [])"

lemma keys_flush [simp]:
  "filter is_key_entry (mes_result (emplace_back_pointing_motion_event d s)) =
   filter is_key_entry (mes_result s)"
  by (auto simp: emplace_back_pointing_motion_event_def Let_def is_key_entry_def make_entry_def
      split: option.splits)

lemma keys_accumulate [simp]:
  "filter is_key_entry (mes_result (accumulate d get upd t x s)) = filter is_key_entry (mes_result s)"
  by (simp add: accumulate_def Let_def)

lemma keys_step:
  "\<not> di_is_game_pad (dp_device_identifiers dp) \<Longrightarrow>
   filter is_key_entry (mes_result (make_entries_step F dp ps s v)) =
   filter is_key_entry (mes_result s) @ hid_value_key_entries dp v"
  by (auto simp: make_entries_step_def Let_def hid_value_key_entries_def push_result_def
      split: option.splits) (auto simp: is_key_entry_def key_entry_def make_entry_def)

lemma keys_run:
  "\<not> di_is_game_pad (dp_device_identifiers dp) \<Longrightarrow>
   filter is_key_entry (mes_result (foldl (make_entries_step F dp ps) s vs)) =
   filter is_key_entry (mes_result s) @ concat (map (hid_value_key_entries dp) vs)"
  by (induction vs arbitrary: s) (simp_all add: keys_step)

subsection \<open>The inserted release events\<close>

definition is_released_entry :: "entry \<Rightarrow> bool" where
  "is_released_entry en \<longleftrightarrow> en_event en = Ev_device_keys_and_pointing_buttons_are_released"

definition device_press :: "device_id \<Rightarrow> entry \<Rightarrow> bool" where
  "device_press d en \<longleftrightarrow> en_device_id en = d \<and> en_event_type en = key_down \<and> is_key_entry en"

lemma insert_released_keeps:
  "\<forall>en\<in>set ens. \<not> is_released_entry en \<Longrightarrow>
   filter (\<lambda>en. \<not> is_released_entry en) (fst (insert_released_events d ens pk)) = ens"
  by (induction ens arbitrary: pk)
     (auto simp: Let_def released_entry_def is_released_entry_def make_entry_def split_beta)

lemma pressed_after_press: "device_press d en \<Longrightarrow> \<not> pressed_keys_empty (pressed_keys_of_entry d en pk)"
  by (auto simp: device_press_def is_key_entry_def pressed_keys_of_entry_def pressed_keys_insert_def
      pressed_keys_empty_def)

lemma pressed_stays:
  "pressed_keys_empty pk \<Longrightarrow> \<not> device_press d en \<Longrightarrow> pressed_keys_empty (pressed_keys_of_entry d en pk)"
  by (auto simp: device_press_def is_key_entry_def pressed_keys_of_entry_def split: option.splits)

lemma pressed_shrinks:
  "\<not> pressed_keys_empty pk \<Longrightarrow> pressed_keys_empty (pressed_keys_of_entry d en pk) \<Longrightarrow>
   en_device_id en = d \<and> en_event_type en = key_up"
  by (auto simp: pressed_keys_of_entry_def pressed_keys_insert_def pressed_keys_empty_def
      split: option.splits if_splits)

text \<open>Entries after which no key of the device goes down.\<close>

definition released_last :: "device_id \<Rightarrow> entry list \<Rightarrow> bool" where
  "released_last d r \<longleftrightarrow>
     (\<exists>before t after. r = before @ released_entry d t # after \<and> (\<forall>en\<in>set after. \<not> device_press d en))"

lemma released_last_Cons: "released_last d r \<Longrightarrow> released_last d (en # r)"
  unfolding released_last_def by (metis append_Cons)

lemma not_press_released [simp]: "\<not> device_press d (released_entry d' t)"
  by (simp add: device_press_def released_entry_def make_entry_def)

lemma insert_released_no_press:
  "(\<forall>en\<in>set ens. \<not> device_press d en) \<Longrightarrow>
   en \<in> set (fst (insert_released_events d ens pk)) \<Longrightarrow> \<not> device_press d en"
  by (induction ens arbitrary: pk) (auto simp: Let_def split_beta split: if_splits)

lemma insert_released_last:
  "pressed_keys_empty (snd (insert_released_events d ens pk)) \<Longrightarrow>
   \<not> pressed_keys_empty pk \<or> (\<exists>en\<in>set ens. device_press d en) \<Longrightarrow>
   released_last d (fst (insert_released_events d ens pk))"
proof (induction ens arbitrary: pk)
  case Nil then show ?case by simp
next
  case (Cons en ens)
  define pk1 where "pk1 = pressed_keys_of_entry d en pk"
  have rest: "pressed_keys_empty (snd (insert_released_events d ens pk1))"
    using Cons.prems(1) by (simp add: Let_def pk1_def split: prod.splits)
  show ?case
  proof (cases "\<not> pressed_keys_empty pk1 \<or> (\<exists>en\<in>set ens. device_press d en)")
    case True
    then have "released_last d (fst (insert_released_events d ens pk1))" by (rule Cons.IH[OF rest])
    then show ?thesis by (auto simp: Let_def pk1_def intro!: released_last_Cons split: prod.splits)
  next
    case False
    then have e: "pressed_keys_empty pk1" and no: "\<forall>en\<in>set ens. \<not> device_press d en" by blast+
    have "\<not> device_press d en" using e pressed_after_press pk1_def by blast
    then have ne: "\<not> pressed_keys_empty pk" using Cons.prems(2) no by auto
    then have up: "en_device_id en = d \<and> en_event_type en = key_up"
      using pressed_shrinks e pk1_def by blast
    have "fst (insert_released_events d (en # ens) pk) =
        [en] @ released_entry d (en_event_time_stamp en) # fst (insert_released_events d ens pk1)"
      using e ne up by (simp add: Let_def pk1_def split: prod.splits)
    then show ?thesis
      unfolding released_last_def using insert_released_no_press[OF no] by metis
  qed
qed

subsection \<open>Properties\<close>

text \<open>
  The pointing motion of a batch of HID values is split over queue entries without loss: for
  each axis, the sum over the emitted entries is the sum of the adjusted values reported for it.
\<close>

theorem make_entries_conserves_motion:
  "total_motion axis (fst (make_entries F dp vs ps hat)) =
     (\<Sum>v\<leftarrow>vs. motion_of axis (hid_value_motion F dp ps v))"
proof -
  let ?s = "\<lparr>mes_result = [], mes_motion = motion_accumulator_empty, mes_hat = hat\<rparr>"
  let ?r = "foldl (make_entries_step F dp ps) ?s vs"
  let ?f = "emplace_back_pointing_motion_event (dp_device_id dp) ?r"
  have run: "state_motion axis ?r = (\<Sum>v\<leftarrow>vs. motion_of axis (hid_value_motion F dp ps v))"
      "accumulator_ok (mes_motion ?r)"
    using state_motion_run[of ?s axis F dp ps vs] by (simp_all add: state_motion_def total_motion_def)
  then have "state_motion axis ?f = (\<Sum>v\<leftarrow>vs. motion_of axis (hid_value_motion F dp ps v))"
    by (simp add: flush_motion)
  then show ?thesis
    using flush_empty[OF run(2)] by (simp add: make_entries_def Let_def state_motion_def)
qed

text \<open>
  Every motion entry made from HID values keeps each axis within -127 and 127, the range of the
  signed byte of the virtual pointing report, whatever the multipliers and the floating-point
  results are.
\<close>

theorem make_entries_motion_fits_report:
  "list_all (\<lambda>en. \<bar>entry_motion axis en\<bar> \<le> 127) (fst (make_entries F dp vs ps hat))"
proof -
  let ?s = "\<lparr>mes_result = [], mes_motion = motion_accumulator_empty, mes_hat = hat\<rparr>"
  have "motion_bounded ?s" by (simp add: motion_bounded_def)
  then have "motion_bounded (emplace_back_pointing_motion_event (dp_device_id dp)
      (foldl (make_entries_step F dp ps) ?s vs))"
    by (intro motion_bounded_flush motion_bounded_run)
  then show ?thesis by (simp add: make_entries_def Let_def motion_bounded_def list_all_iff)
qed

text \<open>
  For a device that is not a game pad, the key entries made from a batch of HID values are,
  in order, one entry per value of a key, button or d-pad usage: pressed for a value other than 0,
  released for 0, with the time stamp of the value. Motion joining neither drops nor reorders them.
\<close>

theorem make_entries_key_entries:
  assumes "\<not> di_is_game_pad (dp_device_identifiers dp)"
  shows "filter is_key_entry (fst (make_entries F dp vs ps hat)) =
     concat (map (hid_value_key_entries dp) vs)"
  using keys_run[OF assms] by (simp add: make_entries_def Let_def)

definition exact_floating_point :: floating_point where
  "exact_floating_point =
     \<lparr>fp_multiply = (\<lambda>i r. of_int i * r), fp_int_overflow = (\<lambda>_. - (2 ^ 31))\<rparr>"

definition sample_hid_value :: "absolute_time_point \<Rightarrow> usage_page \<Rightarrow> usage \<Rightarrow> int \<Rightarrow> iokit_hid_value" where
  "sample_hid_value t p u n =
     \<lparr>hv_time_stamp = t, hv_integer_value = n, hv_usage_page = Some p, hv_usage = Some u,
      hv_logical_max = None, hv_logical_min = None\<rparr>"

theorem make_entries_key_entries_witness:
  "filter is_key_entry (fst (make_entries exact_floating_point
     (make_device_properties (initialization_parameters_default\<lparr>ip_device_id := 3\<rparr>))
     [sample_hid_value 1 7 4 1, sample_hid_value 2 1 48 9, sample_hid_value 3 7 4 0]
     \<lparr>mep_pointing_motion_xy_multiplier = 1, mep_pointing_motion_wheels_multiplier = 1\<rparr> Map.empty)) =
   [key_entry 3 1 (mse 7 4) key_down, key_entry 3 3 (mse 7 4) key_up]"
proof -
  let ?dp = "make_device_properties (initialization_parameters_default\<lparr>ip_device_id := 3\<rparr>)"
  have "mse_target 7 4" by code_simp
  moreover have "\<not> di_is_game_pad (dp_device_identifiers ?dp)" "dp_device_id ?dp = 3" by code_simp+
  ultimately show ?thesis
    by (simp add: make_entries_key_entries sample_hid_value_def hid_value_key_entries_def)
qed

text \<open>
  Inserting the released events keeps the entries of the batch in order and adds nothing else,
  and when the device had or got a pressed key and all its keys are up at the end of the batch, a
  released event stands behind the last key press of the device.
\<close>

theorem insert_released_events_after_last_press:
  assumes "\<forall>en\<in>set ens. \<not> is_released_entry en"
  shows "filter (\<lambda>en. \<not> is_released_entry en) (fst (insert_released_events d ens pk)) = ens \<and>
    (pressed_keys_empty (snd (insert_released_events d ens pk)) \<longrightarrow>
     \<not> pressed_keys_empty pk \<or> (\<exists>en\<in>set ens. device_press d en) \<longrightarrow>
     released_last d (fst (insert_released_events d ens pk)))"
  using insert_released_keeps[OF assms] insert_released_last by blast

theorem insert_released_events_after_last_press_witness:
  "released_last 1 (fst (insert_released_events 1
     [sample_key_entry (mse 7 4) key_down 5, sample_key_entry (mse 7 4) key_up 6] {}))"
proof -
  let ?ens = "[sample_key_entry (mse 7 4) key_down 5, sample_key_entry (mse 7 4) key_up 6]"
  have "\<forall>en\<in>set ?ens. \<not> is_released_entry en"
    by (simp add: is_released_entry_def sample_key_entry_def make_entry_def)
  moreover have "pressed_keys_empty (snd (insert_released_events 1 ?ens {}))"
    "device_press 1 (sample_key_entry (mse 7 4) key_down 5)"
    by (simp_all add: sample_key_entry_def make_entry_def pressed_keys_of_entry_def pressed_keys_insert_def
        pressed_keys_erase_def pressed_keys_empty_def device_press_def is_key_entry_def Let_def)
  ultimately show ?thesis
    using insert_released_events_after_last_press[of ?ens 1 "{}"] by (meson list.set_intros(1))
qed

end
