(* ===== verification/Conditions.thy ===== *)
theory Conditions
  imports Event_Queue
begin

text \<open>
  \<open>src/share/manipulator/conditions/*.hpp\<close> and \<open>src/share/manipulator/condition_manager.hpp\<close>: the
  conditions a manipulator puts on an entry and on the environment. Parsing them from JSON is not
  modelled; a condition is what its constructor leaves behind.

  Two kinds of conditions remember their last answer. The locale \<open>cached_test\<close> states what such a
  memory owes its client and derives that it cannot be observed; it is interpreted on both.
\<close>

subsection \<open>Remembered answers\<close>

definition cache_valid :: "('k \<Rightarrow> bool) \<Rightarrow> ('k \<times> bool) option \<Rightarrow> bool" where
  "cache_valid f c = (case c of None \<Rightarrow> True | Some (k, r) \<Rightarrow> r = f k)"

lemma cache_valid_simps [simp]:
  "cache_valid f None" "cache_valid f (Some (k, r)) \<longleftrightarrow> r = f k"
  by (simp_all add: cache_valid_def)

text \<open>The answers to a sequence of questions.\<close>

fun answers :: "('k \<Rightarrow> 'c \<Rightarrow> bool \<times> 'c) \<Rightarrow> 'k list \<Rightarrow> 'c \<Rightarrow> bool list" where
  "answers test [] c = []"
| "answers test (k # ks) c = (case test k c of (r, c') \<Rightarrow> r # answers test ks c')"

lemma answers_Cons [simp]: "answers test (k # ks) c = fst (test k c) # answers test ks (snd (test k c))"
  by (simp add: split_beta)

declare answers.simps(2) [simp del]

locale cached_test =
  fixes compute :: "'c \<Rightarrow> 'k \<Rightarrow> bool"
    and cached :: "'c \<Rightarrow> ('k \<times> bool) option"
    and test :: "'k \<Rightarrow> 'c \<Rightarrow> bool \<times> 'c"
  assumes hit: "cached c = Some (k, r) \<Longrightarrow> test k c = (r, c)"
    and miss: "(\<And>r. cached c \<noteq> Some (k, r)) \<Longrightarrow>
      fst (test k c) = compute c k \<and> cached (snd (test k c)) = Some (k, compute c k)"
    and keeps: "compute (snd (test k c)) = compute c"
begin

lemma test_correct:
  assumes "cache_valid (compute c) (cached c)"
  shows "fst (test k c) = compute c k"
    and "cache_valid (compute (snd (test k c))) (cached (snd (test k c)))"
proof -
  have "fst (test k c) = compute c k \<and> cache_valid (compute (snd (test k c))) (cached (snd (test k c)))"
  proof (cases "\<exists>r. cached c = Some (k, r)")
    case True
    then show ?thesis using assms hit by fastforce
  next
    case False
    then show ?thesis using miss[of c k] by (simp add: keeps)
  qed
  then show "fst (test k c) = compute c k"
    and "cache_valid (compute (snd (test k c))) (cached (snd (test k c)))" by blast+
qed

lemma answers_compute:
  "cache_valid (compute c) (cached c) \<Longrightarrow> answers test ks c = map (compute c) ks"
proof (induction ks arbitrary: c)
  case Nil then show ?case by simp
next
  case (Cons k ks)
  then show ?case
    using Cons.IH[OF test_correct(2)[OF Cons.prems, of k]] test_correct(1) by (simp add: keeps)
qed

end

subsection \<open>device\<close>

datatype device_condition_type = device_if | device_unless | device_exists_if | device_exists_unless

record device_definition =
  dd_vendor_id :: "int option"
  dd_product_id :: "int option"
  dd_location_id :: "int option"
  dd_device_address :: "string option"
  dd_is_keyboard :: "bool option"
  dd_is_pointing_device :: "bool option"
  dd_is_game_pad :: "bool option"
  dd_is_consumer :: "bool option"
  dd_is_touch_bar :: "bool option"
  dd_is_built_in_keyboard :: "bool option"

definition device_definition_valid :: "device_definition \<Rightarrow> bool" where
  "device_definition_valid d \<longleftrightarrow>
     dd_vendor_id d \<noteq> None \<or> dd_product_id d \<noteq> None \<or> dd_location_id d \<noteq> None
     \<or> dd_device_address d \<noteq> None \<or> dd_is_keyboard d \<noteq> None \<or> dd_is_pointing_device d \<noteq> None
     \<or> dd_is_game_pad d \<noteq> None \<or> dd_is_consumer d \<noteq> None \<or> dd_is_touch_bar d \<noteq> None
     \<or> dd_is_built_in_keyboard d \<noteq> None"

text \<open>A field that is not given accepts every device.\<close>

definition field_matches :: "'a option \<Rightarrow> 'a \<Rightarrow> bool" where
  "field_matches expected actual \<longleftrightarrow> expected = None \<or> expected = Some actual"

definition device_definition_fulfilled ::
    "core_configuration \<Rightarrow> device_properties \<Rightarrow> device_definition \<Rightarrow> bool" where
  "device_definition_fulfilled c dp d \<longleftrightarrow>
     (let ids = dp_device_identifiers dp in
      field_matches (dd_vendor_id d) (di_vendor_id ids)
      \<and> field_matches (dd_product_id d) (di_product_id ids)
      \<and> field_matches (dd_location_id d) (dp_location_id dp)
      \<and> field_matches (dd_device_address d) (di_device_address ids)
      \<and> field_matches (dd_is_keyboard d) (di_is_keyboard ids)
      \<and> field_matches (dd_is_pointing_device d) (di_is_pointing_device ids)
      \<and> field_matches (dd_is_game_pad d) (di_is_game_pad ids)
      \<and> field_matches (dd_is_consumer d) (di_is_consumer ids)
      \<and> field_matches (dd_is_touch_bar d) (dp_is_built_in_touch_bar dp)
      \<and> field_matches (dd_is_built_in_keyboard d) (determine_is_built_in_keyboard c dp))"

definition device_is_fulfilled ::
    "entry \<Rightarrow> manipulator_environment \<Rightarrow> device_condition_type \<Rightarrow> device_definition list \<Rightarrow> bool" where
  "device_is_fulfilled en env t ds =
     (let c = env_core_configuration env;
          found = (if ds = [] then False
                   else if t = device_if \<or> t = device_unless
                   then (case dpm_find (en_device_id en) (env_device_properties_manager env) of
                           None \<Rightarrow> False
                         | Some dp \<Rightarrow> list_ex (device_definition_fulfilled c dp) ds)
                   else \<exists>dp\<in>ran (env_device_properties_manager env).
                          list_ex (device_definition_fulfilled c dp) ds)
      in if found then t = device_if \<or> t = device_exists_if
         else \<not> (t = device_if \<or> t = device_exists_if))"

subsection \<open>The other conditions\<close>

text \<open>
  Each class of condition has its own enumeration of an \<open>_if\<close> and an \<open>_unless\<close> type; the class is
  the constructor of \<open>condition\<close> below.
\<close>

datatype condition_type = ct_if | ct_unless

definition found_result :: "condition_type \<Rightarrow> bool \<Rightarrow> bool" where
  "found_result t found = (case t of ct_if \<Rightarrow> found | ct_unless \<Rightarrow> \<not> found)"

definition event_changed_is_fulfilled :: "entry \<Rightarrow> condition_type \<Rightarrow> bool option \<Rightarrow> bool" where
  "event_changed_is_fulfilled en t v =
     (case v of
        None \<Rightarrow> False
      | Some b \<Rightarrow>
          (case t of
             ct_if \<Rightarrow> if b then en_state en = st_manipulated else en_state en \<noteq> st_manipulated
           | ct_unless \<Rightarrow> if b then en_state en = st_original else en_state en \<noteq> st_original))"

definition expression_is_fulfilled ::
    "platform \<Rightarrow> condition_type \<Rightarrow> expression_id option \<Rightarrow> world \<Rightarrow> bool \<times> world" where
  "expression_is_fulfilled P t x w =
     (case x of
        None \<Rightarrow> (False, w)
      | Some i \<Rightarrow>
          (case world_expression_value P i w of
             (v, w') \<Rightarrow>
               (if double_isnan v then False
                else case t of ct_if \<Rightarrow> double_to_bool v | ct_unless \<Rightarrow> \<not> double_to_bool v, w')))"

record frontmost_application_condition =
  fa_type :: condition_type
  fa_bundle_identifiers :: "string list"
  fa_file_paths :: "string list"
  fa_cached_result :: "(application \<times> bool) option"

definition some_regex_matches :: "platform \<Rightarrow> string list \<Rightarrow> string option \<Rightarrow> bool" where
  "some_regex_matches P regexes s =
     (case s of None \<Rightarrow> False | Some x \<Rightarrow> list_ex (pf_regex_search P x) regexes)"

definition frontmost_application_matches ::
    "platform \<Rightarrow> frontmost_application_condition \<Rightarrow> application \<Rightarrow> bool" where
  "frontmost_application_matches P c a =
     found_result (fa_type c)
       (some_regex_matches P (fa_bundle_identifiers c) (app_bundle_identifier a)
        \<or> some_regex_matches P (fa_file_paths c) (app_file_path a))"

definition frontmost_application_is_fulfilled ::
    "platform \<Rightarrow> application \<Rightarrow> frontmost_application_condition \<Rightarrow>
     bool \<times> frontmost_application_condition" where
  "frontmost_application_is_fulfilled P a c =
     (let computed = (let r = frontmost_application_matches P c a
                      in (r, c\<lparr>fa_cached_result := Some (a, r)\<rparr>))
      in case fa_cached_result c of
           None \<Rightarrow> computed
         | Some (a', r) \<Rightarrow> if a' = a then (r, c) else computed)"

record input_source_condition =
  is_type :: condition_type
  is_input_source_specifiers :: "input_source_specifier list"
  is_cached_result :: "(input_source_properties \<times> bool) option"

text \<open>\<open>specifier::test\<close>: a given regex must match, and needs a value to match.\<close>

definition specifier_test :: "platform \<Rightarrow> input_source_properties \<Rightarrow> input_source_specifier \<Rightarrow> bool" where
  "specifier_test P p s \<longleftrightarrow>
     (case iss_language s of
        None \<Rightarrow> True | Some r \<Rightarrow> some_regex_matches P [r] (isp_first_language p))
     \<and> (case iss_input_source_id s of
          None \<Rightarrow> True | Some r \<Rightarrow> some_regex_matches P [r] (isp_input_source_id p))
     \<and> (case iss_input_mode_id s of
          None \<Rightarrow> True | Some r \<Rightarrow> some_regex_matches P [r] (isp_input_mode_id p))"

definition input_source_matches ::
    "platform \<Rightarrow> input_source_condition \<Rightarrow> input_source_properties \<Rightarrow> bool" where
  "input_source_matches P c p =
     found_result (is_type c) (list_ex (specifier_test P p) (is_input_source_specifiers c))"

definition input_source_is_fulfilled ::
    "platform \<Rightarrow> input_source_properties \<Rightarrow> input_source_condition \<Rightarrow> bool \<times> input_source_condition" where
  "input_source_is_fulfilled P p c =
     (let computed = (let r = input_source_matches P c p
                      in (r, c\<lparr>is_cached_result := Some (p, r)\<rparr>))
      in case is_cached_result c of
           None \<Rightarrow> computed
         | Some (p', r) \<Rightarrow> if p' = p then (r, c) else computed)"

definition keyboard_type_is_fulfilled ::
    "manipulator_environment \<Rightarrow> condition_type \<Rightarrow> string list \<Rightarrow> bool" where
  "keyboard_type_is_fulfilled env t types =
     found_result t (list_ex (\<lambda>x. x = cc_keyboard_type_v2 (env_core_configuration env)) types)"

definition variable_is_fulfilled ::
    "manipulator_environment \<Rightarrow> condition_type \<Rightarrow> string \<Rightarrow> variable_value \<Rightarrow> bool" where
  "variable_is_fulfilled env t name v =
     (case t of ct_if \<Rightarrow> get_variable name env = v | ct_unless \<Rightarrow> get_variable name env \<noteq> v)"

subsection \<open>condition, condition_manager\<close>

datatype condition =
    C_nop
  | C_device device_condition_type "device_definition list"
  | C_event_changed condition_type "bool option"
  | C_expression condition_type "expression_id option"
  | C_frontmost_application frontmost_application_condition
  | C_input_source input_source_condition
  | C_keyboard_type condition_type "string list"
  | C_variable condition_type string variable_value

definition condition_is_fulfilled ::
    "platform \<Rightarrow> entry \<Rightarrow> manipulator_environment \<Rightarrow> condition \<Rightarrow> world \<Rightarrow> bool \<times> condition \<times> world" where
  "condition_is_fulfilled P en env c w =
     (case c of
        C_nop \<Rightarrow> (True, c, w)
      | C_device t ds \<Rightarrow> (device_is_fulfilled en env t ds, c, w)
      | C_event_changed t v \<Rightarrow> (event_changed_is_fulfilled en t v, c, w)
      | C_expression t x \<Rightarrow> (case expression_is_fulfilled P t x w of (r, w') \<Rightarrow> (r, c, w'))
      | C_frontmost_application f \<Rightarrow>
          (case frontmost_application_is_fulfilled P (env_frontmost_application env) f of
             (r, f') \<Rightarrow> (r, C_frontmost_application f', w))
      | C_input_source s \<Rightarrow>
          (case input_source_is_fulfilled P (env_input_source_properties env) s of
             (r, s') \<Rightarrow> (r, C_input_source s', w))
      | C_keyboard_type t ts \<Rightarrow> (keyboard_type_is_fulfilled env t ts, c, w)
      | C_variable t n v \<Rightarrow> (variable_is_fulfilled env t n v, c, w))"

text \<open>The loop evaluates every condition, also after one of them failed.\<close>

fun conditions_are_fulfilled ::
    "platform \<Rightarrow> entry \<Rightarrow> manipulator_environment \<Rightarrow> condition list \<Rightarrow> world \<Rightarrow>
     bool \<times> condition list \<times> world" where
  "conditions_are_fulfilled P en env [] w = (True, [], w)"
| "conditions_are_fulfilled P en env (c # cs) w =
     (case condition_is_fulfilled P en env c w of
        (r, c', w1) \<Rightarrow>
          (case conditions_are_fulfilled P en env cs w1 of
             (rs, cs', w2) \<Rightarrow> (r \<and> rs, c' # cs', w2)))"

definition condition_manager_is_fulfilled ::
    "platform \<Rightarrow> entry \<Rightarrow> condition list \<Rightarrow> world \<times> manipulator_environment \<Rightarrow>
     bool \<times> condition list \<times> world \<times> manipulator_environment" where
  "condition_manager_is_fulfilled P en cs s =
     (case set_variable_system_now_milliseconds P s of
        (w1, env1) \<Rightarrow>
          (let w2 = cem_apply_environment_variables P (env_variables env1) w1
           in case conditions_are_fulfilled P en env1 cs w2 of
                (r, cs', w3) \<Rightarrow> (r, cs', w3, env1)))"

subsection \<open>The memories are not observable\<close>

lemma frontmost_application_matches_cache [simp]:
  "frontmost_application_matches P (c\<lparr>fa_cached_result := x\<rparr>) = frontmost_application_matches P c"
  by (simp add: frontmost_application_matches_def fun_eq_iff)

lemma input_source_matches_cache [simp]:
  "input_source_matches P (c\<lparr>is_cached_result := x\<rparr>) = input_source_matches P c"
  by (simp add: input_source_matches_def fun_eq_iff)

interpretation fa: cached_test "frontmost_application_matches P" fa_cached_result
  "frontmost_application_is_fulfilled P" for P
  by unfold_locales
     (auto simp: frontmost_application_is_fulfilled_def Let_def split: option.splits)

interpretation inp: cached_test "input_source_matches P" is_cached_result
  "input_source_is_fulfilled P" for P
  by unfold_locales
     (auto simp: input_source_is_fulfilled_def Let_def split: option.splits)

subsection \<open>What a condition means\<close>

text \<open>The meaning of a condition, without memory: \<open>v\<close> gives the value of an expression object.\<close>

definition expression_holds :: "condition_type \<Rightarrow> double \<Rightarrow> bool" where
  "expression_holds t v \<longleftrightarrow> \<not> double_isnan v \<and> found_result t (double_to_bool v)"

definition condition_holds ::
    "platform \<Rightarrow> entry \<Rightarrow> manipulator_environment \<Rightarrow> (expression_id \<Rightarrow> double) \<Rightarrow> condition \<Rightarrow> bool" where
  "condition_holds P en env v c =
     (case c of
        C_nop \<Rightarrow> True
      | C_device t ds \<Rightarrow> device_is_fulfilled en env t ds
      | C_event_changed t b \<Rightarrow> event_changed_is_fulfilled en t b
      | C_expression t x \<Rightarrow> (case x of None \<Rightarrow> False | Some i \<Rightarrow> expression_holds t (v i))
      | C_frontmost_application f \<Rightarrow> frontmost_application_matches P f (env_frontmost_application env)
      | C_input_source s \<Rightarrow> input_source_matches P s (env_input_source_properties env)
      | C_keyboard_type t ts \<Rightarrow> keyboard_type_is_fulfilled env t ts
      | C_variable t n x \<Rightarrow> variable_is_fulfilled env t n x)"

definition condition_cache_valid :: "platform \<Rightarrow> condition \<Rightarrow> bool" where
  "condition_cache_valid P c =
     (case c of
        C_frontmost_application f \<Rightarrow> cache_valid (frontmost_application_matches P f) (fa_cached_result f)
      | C_input_source s \<Rightarrow> cache_valid (input_source_matches P s) (is_cached_result s)
      | _ \<Rightarrow> True)"

fun condition_expressions :: "condition \<Rightarrow> expression_id list" where
  "condition_expressions (C_expression t (Some i)) = [i]"
| "condition_expressions _ = []"

lemma world_expression_value_other:
  "i \<noteq> j \<Longrightarrow> fst (world_expression_value P i (snd (world_expression_value P j w))) =
     fst (world_expression_value P i w)"
  by (auto simp: world_expression_value_def split: option.splits prod.splits)

lemma condition_is_fulfilled_holds:
  assumes "condition_cache_valid P c"
  shows "fst (condition_is_fulfilled P en env c w) =
      condition_holds P en env (\<lambda>i. fst (world_expression_value P i w)) c"
    and "condition_cache_valid P (fst (snd (condition_is_fulfilled P en env c w)))"
  using assms fa.test_correct[of P] inp.test_correct[of P]
  by (auto simp: condition_is_fulfilled_def condition_holds_def condition_cache_valid_def
      expression_is_fulfilled_def expression_holds_def found_result_def split_beta
      split: condition.split option.split condition_type.split)

lemma condition_is_fulfilled_other_expressions:
  "i \<notin> set (condition_expressions c) \<Longrightarrow>
   fst (world_expression_value P i (snd (snd (condition_is_fulfilled P en env c w)))) =
     fst (world_expression_value P i w)"
  by (auto simp: condition_is_fulfilled_def expression_is_fulfilled_def split_beta
      world_expression_value_other split: condition.splits option.splits)

lemma condition_holds_cong:
  "(\<And>i. i \<in> set (condition_expressions c) \<Longrightarrow> v i = v' i) \<Longrightarrow>
   condition_holds P en env v c = condition_holds P en env v' c"
  by (auto simp: condition_holds_def split: condition.splits option.splits)

lemma conditions_are_fulfilled_all:
  "distinct (concat (map condition_expressions cs)) \<Longrightarrow> list_all (condition_cache_valid P) cs \<Longrightarrow>
   conditions_are_fulfilled P en env cs w = (r, cs', w') \<Longrightarrow>
   (r \<longleftrightarrow> list_all (condition_holds P en env (\<lambda>i. fst (world_expression_value P i w))) cs)
   \<and> list_all (condition_cache_valid P) cs'"
proof (induction cs arbitrary: w r cs' w')
  case Nil then show ?case by simp
next
  case (Cons c cs)
  obtain r0 c0 w1 where c: "condition_is_fulfilled P en env c w = (r0, c0, w1)" by (metis prod_cases3)
  obtain rs cs1 w2 where rest: "conditions_are_fulfilled P en env cs w1 = (rs, cs1, w2)"
    by (metis prod_cases3)
  have out: "r = (r0 \<and> rs)" "cs' = c0 # cs1" using Cons.prems(3) c rest by simp_all
  have valid: "condition_cache_valid P c" using Cons.prems(2) by simp
  have "r0 = condition_holds P en env (\<lambda>i. fst (world_expression_value P i w)) c"
    "condition_cache_valid P c0"
    using condition_is_fulfilled_holds[OF valid, of en env w] c by simp_all
  moreover have "condition_holds P en env (\<lambda>i. fst (world_expression_value P i w1)) c2 =
      condition_holds P en env (\<lambda>i. fst (world_expression_value P i w)) c2" if "c2 \<in> set cs" for c2
  proof (rule condition_holds_cong)
    fix i assume "i \<in> set (condition_expressions c2)"
    then have "i \<notin> set (condition_expressions c)" using Cons.prems(1) that by auto
    then show "fst (world_expression_value P i w1) = fst (world_expression_value P i w)"
      using condition_is_fulfilled_other_expressions[of i c P en env w] c by simp
  qed
  moreover have "(rs \<longleftrightarrow> list_all (condition_holds P en env (\<lambda>i. fst (world_expression_value P i w1))) cs)
      \<and> list_all (condition_cache_valid P) cs1"
    using Cons.IH[of w1 rs cs1 w2] Cons.prems(1,2) rest by simp
  ultimately show ?case using out by (auto simp: list_all_iff)
qed

subsection \<open>Properties\<close>

text \<open>
  Evaluating the conditions of a manipulator does to the environment nothing but store the
  clock, and answers whether every condition holds in that environment, with the expressions
  evaluated after all variables of the environment have been copied into them: the remembered
  answers and the order of the conditions cannot be observed, as long as the expression objects
  are distinct. The memories stay valid.
\<close>

theorem condition_manager_answers_conjunction:
  assumes "distinct (concat (map condition_expressions cs))" "list_all (condition_cache_valid P) cs"
    and "condition_manager_is_fulfilled P en cs (w, env) = (r, cs', w', env')"
  shows "env' = env_set_variable ''system.now.milliseconds''
             (Var_int (pf_system_clock_milliseconds P (w_clock_reads w))) env \<and>
    (r \<longleftrightarrow> list_all (condition_holds P en env'
       (\<lambda>i. fst (world_expression_value P i
          (cem_apply_environment_variables P (env_variables env') (snd (read_system_clock P w)))))) cs)
    \<and> list_all (condition_cache_valid P) cs'"
  using assms(3) conditions_are_fulfilled_all[OF assms(1,2)]
  by (simp add: condition_manager_is_fulfilled_def set_variable_system_now_milliseconds_def
      read_system_clock_def Let_def split: prod.splits)

theorem condition_manager_answers_conjunction_witness:
  "fst (condition_manager_is_fulfilled witness_platform (sample_key_entry (mse 7 4) key_down 5)
     [C_variable ct_if ''mode'' (Var_int 0), C_event_changed ct_if (Some False)]
     (world_initial, sample_environment))"
proof -
  let ?cs = "[C_variable ct_if ''mode'' (Var_int 0), C_event_changed ct_if (Some False)]"
  let ?en = "sample_key_entry (mse 7 4) key_down 5"
  obtain r cs' w' env' where
    e: "condition_manager_is_fulfilled witness_platform ?en ?cs (world_initial, sample_environment) =
      (r, cs', w', env')" by (metis prod_cases4)
  show ?thesis
    using condition_manager_answers_conjunction[OF _ _ e]
    unfolding e
    by (simp add: condition_cache_valid_def condition_holds_def variable_is_fulfilled_def
        event_changed_is_fulfilled_def sample_environment_def get_variable_def env_set_variable_def
        variable_value_default_def sample_key_entry_def make_entry_def)
qed

text \<open>
  A frontmost application condition answers every sequence of applications the way it would
  without its remembered answer.
\<close>

theorem frontmost_application_memory_unobservable:
  assumes "fa_cached_result c = None"
  shows "answers (frontmost_application_is_fulfilled P) apps c = map (frontmost_application_matches P c) apps"
  by (rule fa.answers_compute) (simp add: assms)

definition sample_application :: "string \<Rightarrow> application" where
  "sample_application s =
     \<lparr>app_bundle_identifier = Some s, app_bundle_path = None, app_file_path = None, app_pid = None\<rparr>"

theorem frontmost_application_memory_unobservable_witness:
  "answers (frontmost_application_is_fulfilled (witness_platform\<lparr>pf_regex_search := (\<lambda>x r. x = r)\<rparr>))
     [sample_application ''a'', sample_application ''a'', sample_application ''b'', sample_application ''a'']
     \<lparr>fa_type = ct_if, fa_bundle_identifiers = [''a''], fa_file_paths = [], fa_cached_result = None\<rparr>
   = [True, True, False, True]"
  by (subst frontmost_application_memory_unobservable)
     (simp_all add: frontmost_application_matches_def found_result_def some_regex_matches_def
       sample_application_def)

lemma unless_forms:
  "device_is_fulfilled en env device_unless ds = (\<not> device_is_fulfilled en env device_if ds)"
  "device_is_fulfilled en env device_exists_unless ds = (\<not> device_is_fulfilled en env device_exists_if ds)"
  "frontmost_application_matches P (f\<lparr>fa_type := ct_unless\<rparr>) a =
     (\<not> frontmost_application_matches P (f\<lparr>fa_type := ct_if\<rparr>) a)"
  "input_source_matches P (s\<lparr>is_type := ct_unless\<rparr>) p = (\<not> input_source_matches P (s\<lparr>is_type := ct_if\<rparr>) p)"
  "keyboard_type_is_fulfilled env ct_unless ts = (\<not> keyboard_type_is_fulfilled env ct_if ts)"
  "variable_is_fulfilled env ct_unless n v = (\<not> variable_is_fulfilled env ct_if n v)"
  "expression_holds ct_unless x = (\<not> double_isnan x \<and> \<not> expression_holds ct_if x)"
  "event_changed_is_fulfilled en ct_unless (Some True) =
     (\<not> event_changed_is_fulfilled en ct_if (Some True) \<and> en_state en \<noteq> st_virtual_event)"
  by (auto simp: device_is_fulfilled_def Let_def frontmost_application_matches_def
      input_source_matches_def found_result_def keyboard_type_is_fulfilled_def variable_is_fulfilled_def
      expression_holds_def event_changed_is_fulfilled_def) (metis event_state.exhaust)+

text \<open>
  The \<open>unless\<close> form of a condition is the negation of its \<open>if\<close> form for devices, applications,
  input sources, keyboard types and variables; for expressions both are false when the value is
  not a number; for \<open>event_changed\<close> with value true both are false for an entry that is neither
  original nor manipulated.
\<close>

theorem condition_unless_negates_if:
  "(device_is_fulfilled en env device_unless ds = (\<not> device_is_fulfilled en env device_if ds))
   \<and> (device_is_fulfilled en env device_exists_unless ds = (\<not> device_is_fulfilled en env device_exists_if ds))
   \<and> frontmost_application_matches P (f\<lparr>fa_type := ct_unless\<rparr>) a =
     (\<not> frontmost_application_matches P (f\<lparr>fa_type := ct_if\<rparr>) a)
   \<and> (input_source_matches P (s\<lparr>is_type := ct_unless\<rparr>) p = (\<not> input_source_matches P (s\<lparr>is_type := ct_if\<rparr>) p))
   \<and> (keyboard_type_is_fulfilled env ct_unless ts = (\<not> keyboard_type_is_fulfilled env ct_if ts))
   \<and> (variable_is_fulfilled env ct_unless n v = (\<not> variable_is_fulfilled env ct_if n v))
   \<and> (expression_holds ct_unless x = (\<not> double_isnan x \<and> \<not> expression_holds ct_if x))
   \<and> event_changed_is_fulfilled en ct_unless (Some True) =
     (\<not> event_changed_is_fulfilled en ct_if (Some True) \<and> en_state en \<noteq> st_virtual_event)"
  by (intro conjI unless_forms)

end
