(* ===== verification/Definitions.thy ===== *)
theory Definitions
  imports Conditions
begin

text \<open>
  The definitions a manipulator is made of: \<open>src/share/manipulator/types/modifier_definition*\<close>,
  \<open>from_modifiers_definition.hpp\<close>, \<open>event_definition.hpp\<close>, \<open>to_event_definition.hpp\<close>, and
  \<open>from_event_definition.hpp\<close> and \<open>simultaneous_options.hpp\<close> of
  \<open>src/share/manipulator/manipulators/basic\<close>.

  The lemmas give \<open>test_modifiers\<close>, the decision whether the pressed modifiers fit a definition, a
  declarative form, and show the round trip of the modifier names.
\<close>

subsection \<open>modifier_definition\<close>

datatype modifier =
    md_any | md_caps_lock | md_command | md_control | md_fn | md_left_command | md_left_control
  | md_left_option | md_left_shift | md_option | md_right_command | md_right_control
  | md_right_option | md_right_shift | md_shift | md_end

text \<open>The values below \<open>end_\<close>, in the order of the enumeration, which is the order of a \<open>std::set\<close>.\<close>

definition all_modifiers :: "modifier list" where
  "all_modifiers =
     [md_any, md_caps_lock, md_command, md_control, md_fn, md_left_command, md_left_control,
      md_left_option, md_left_shift, md_option, md_right_command, md_right_control,
      md_right_option, md_right_shift, md_shift]"

fun modifier_to_json :: "modifier \<Rightarrow> string" where
  "modifier_to_json md_any = ''any''"
| "modifier_to_json md_caps_lock = ''caps_lock''"
| "modifier_to_json md_command = ''command''"
| "modifier_to_json md_control = ''control''"
| "modifier_to_json md_fn = ''fn''"
| "modifier_to_json md_left_command = ''left_command''"
| "modifier_to_json md_left_control = ''left_control''"
| "modifier_to_json md_left_option = ''left_option''"
| "modifier_to_json md_left_shift = ''left_shift''"
| "modifier_to_json md_option = ''option''"
| "modifier_to_json md_right_command = ''right_command''"
| "modifier_to_json md_right_control = ''right_control''"
| "modifier_to_json md_right_option = ''right_option''"
| "modifier_to_json md_right_shift = ''right_shift''"
| "modifier_to_json md_shift = ''shift''"
| "modifier_to_json md_end = ''end_''"

text \<open>
  The chain of comparisons as a table; \<open>None\<close> stands for the \<open>unmarshal_error\<close> of an unknown name.
\<close>

definition modifier_names :: "(string \<times> modifier) list" where
  "modifier_names =
     [(''any'', md_any), (''caps_lock'', md_caps_lock), (''command'', md_command),
      (''control'', md_control), (''fn'', md_fn), (''left_command'', md_left_command),
      (''left_gui'', md_left_command), (''left_control'', md_left_control),
      (''left_option'', md_left_option), (''left_alt'', md_left_option),
      (''left_shift'', md_left_shift), (''option'', md_option),
      (''right_command'', md_right_command), (''right_gui'', md_right_command),
      (''right_control'', md_right_control), (''right_option'', md_right_option),
      (''right_alt'', md_right_option), (''right_shift'', md_right_shift), (''shift'', md_shift),
      (''end_'', md_end)]"

definition modifier_from_json :: "string \<Rightarrow> modifier option" where
  "modifier_from_json name = map_of modifier_names name"

fun get_modifier_flags :: "modifier \<Rightarrow> modifier_flag list" where
  "get_modifier_flags md_any = []"
| "get_modifier_flags md_caps_lock = [mf_caps_lock]"
| "get_modifier_flags md_command = [mf_left_command, mf_right_command]"
| "get_modifier_flags md_control = [mf_left_control, mf_right_control]"
| "get_modifier_flags md_fn = [mf_fn]"
| "get_modifier_flags md_left_command = [mf_left_command]"
| "get_modifier_flags md_left_control = [mf_left_control]"
| "get_modifier_flags md_left_option = [mf_left_option]"
| "get_modifier_flags md_left_shift = [mf_left_shift]"
| "get_modifier_flags md_option = [mf_left_option, mf_right_option]"
| "get_modifier_flags md_right_command = [mf_right_command]"
| "get_modifier_flags md_right_control = [mf_right_control]"
| "get_modifier_flags md_right_option = [mf_right_option]"
| "get_modifier_flags md_right_shift = [mf_right_shift]"
| "get_modifier_flags md_shift = [mf_left_shift, mf_right_shift]"
| "get_modifier_flags md_end = []"

fun get_modifier :: "modifier_flag \<Rightarrow> modifier" where
  "get_modifier mf_caps_lock = md_caps_lock"
| "get_modifier mf_fn = md_fn"
| "get_modifier mf_left_command = md_left_command"
| "get_modifier mf_left_control = md_left_control"
| "get_modifier mf_left_option = md_left_option"
| "get_modifier mf_left_shift = md_left_shift"
| "get_modifier mf_right_command = md_right_command"
| "get_modifier mf_right_control = md_right_control"
| "get_modifier mf_right_option = md_right_option"
| "get_modifier mf_right_shift = md_right_shift"
| "get_modifier mf_zero = md_end"
| "get_modifier mf_end = md_end"

subsection \<open>from_modifiers_definition\<close>

record from_modifiers_definition =
  fmd_mandatory_modifiers :: "modifier set"
  fmd_optional_modifiers :: "modifier set"

definition test_modifier :: "active_modifier_flag list \<Rightarrow> modifier \<Rightarrow> bool \<times> modifier_flag" where
  "test_modifier fs m =
     (if m = md_any then (True, mf_zero)
      else case find (\<lambda>f. is_pressed f fs) (get_modifier_flags m) of
             Some f \<Rightarrow> (True, f)
           | None \<Rightarrow> (False, mf_zero))"

text \<open>The loop over the mandatory modifiers; \<open>None\<close> is the null pointer.\<close>

fun test_mandatory ::
    "active_modifier_flag list \<Rightarrow> modifier set \<Rightarrow> modifier list \<Rightarrow> modifier_flag set \<Rightarrow>
     modifier_flag set option" where
  "test_mandatory fs mandatory [] acc = Some acc"
| "test_mandatory fs mandatory (m # ms) acc =
     (if m \<in> mandatory
      then (case test_modifier fs m of
              (ok, f) \<Rightarrow>
                (if \<not> ok then None
                 else test_mandatory fs mandatory ms (if f \<noteq> mf_zero then insert f acc else acc)))
      else test_mandatory fs mandatory ms acc)"

definition extra_modifier_flags :: "from_modifiers_definition \<Rightarrow> modifier_flag list" where
  "extra_modifier_flags d =
     foldl (\<lambda>extra m. if m \<in> fmd_mandatory_modifiers d \<or> m \<in> fmd_optional_modifiers d
                        then filter (\<lambda>f. f \<notin> set (get_modifier_flags m)) extra else extra)
       all_modifier_flags all_modifiers"

definition test_modifiers ::
    "active_modifier_flag list \<Rightarrow> from_modifiers_definition \<Rightarrow> modifier_flag set option" where
  "test_modifiers fs d =
     (if md_any \<in> fmd_mandatory_modifiers d
      then Some (set (filter (\<lambda>f. is_pressed f fs) all_modifier_flags))
      else case test_mandatory fs (fmd_mandatory_modifiers d) all_modifiers {} of
             None \<Rightarrow> None
           | Some flags \<Rightarrow>
               (if md_any \<notin> fmd_optional_modifiers d
                   \<and> list_ex (\<lambda>f. is_pressed f fs) (extra_modifier_flags d)
                then None else Some flags))"

subsection \<open>event_definition\<close>

datatype any_type =
    any_key_code | any_consumer_key_code | any_apple_vendor_keyboard_key_code
  | any_apple_vendor_top_case_key_code | any_pointing_button

text \<open>
  A sticky modifier read from an empty object has its type but no value: \<open>std::get\<close> throws
  \<open>std::bad_variant_access\<close> where it is used. Here it makes no event.
\<close>

datatype event_definition =
    Ed_none
  | Ed_momentary_switch_event momentary_switch_event
  | Ed_any any_type
  | Ed_shell_command string
  | Ed_select_input_source "input_source_specifier list"
  | Ed_set_variable set_variable
  | Ed_set_notification_message notification_message
  | Ed_mouse_key mouse_key
  | Ed_sticky_modifier modifier_flag sticky_modifier_type
  | Ed_sticky_modifier_without_value
  | Ed_software_function software_function

fun to_event :: "event_definition \<Rightarrow> event option" where
  "to_event Ed_none = None"
| "to_event (Ed_momentary_switch_event e) = Some (Ev_momentary_switch_event e)"
| "to_event (Ed_any t) = None"
| "to_event (Ed_shell_command s) = Some (Ev_shell_command s)"
| "to_event (Ed_select_input_source ss) = Some (Ev_select_input_source ss)"
| "to_event (Ed_set_variable v) = Some (Ev_set_variable v)"
| "to_event (Ed_set_notification_message m) = Some (Ev_set_notification_message m)"
| "to_event (Ed_mouse_key k) = Some (Ev_mouse_key k)"
| "to_event (Ed_sticky_modifier m t) = Some (Ev_sticky_modifier m t)"
| "to_event Ed_sticky_modifier_without_value = None"
| "to_event (Ed_software_function f) = Some (Ev_software_function f)"

definition event_definition_mse :: "event_definition \<Rightarrow> momentary_switch_event option" where
  "event_definition_mse d = (case d of Ed_momentary_switch_event e \<Rightarrow> Some e | _ \<Rightarrow> None)"

subsection \<open>to_event_definition\<close>

record to_event_definition =
  to_event_definition :: event_definition
  to_modifiers :: "modifier set"
  to_lazy :: bool
  to_repeat :: bool
  to_halt :: bool
  to_hold_down_milliseconds :: milliseconds
  to_conditions :: "condition list"

definition to_event_definition_default :: "event_definition \<Rightarrow> to_event_definition" where
  "to_event_definition_default d =
     \<lparr>to_event_definition = d, to_modifiers = {}, to_lazy = False, to_repeat = True, to_halt = False,
      to_hold_down_milliseconds = 0, to_conditions = []\<rparr>"

definition to_needs_virtual_hid_pointing :: "to_event_definition \<Rightarrow> bool" where
  "to_needs_virtual_hid_pointing t \<longleftrightarrow>
     (case to_event_definition t of
        Ed_momentary_switch_event e \<Rightarrow> mse_is_pointing_button e
      | Ed_mouse_key _ \<Rightarrow> True
      | _ \<Rightarrow> False)"

definition make_modifier_events :: "to_event_definition \<Rightarrow> momentary_switch_event list" where
  "make_modifier_events t =
     concat (map (\<lambda>m. case get_modifier_flags m of
                        [] \<Rightarrow> []
                      | f # _ \<Rightarrow> (if mse_valid (mse_of_modifier_flag f) then [mse_of_modifier_flag f] else []))
              (filter (\<lambda>m. m \<in> to_modifiers t) (all_modifiers @ [md_end])))"

subsection \<open>simultaneous_options, from_event_definition\<close>

datatype key_order = insensitive | strict | strict_inverse

datatype key_up_when = key_up_when_any | key_up_when_all

record simultaneous_options =
  so_detect_key_down_uninterruptedly :: bool
  so_key_down_order :: key_order
  so_key_up_order :: key_order
  so_key_up_when :: key_up_when
  so_to_after_key_up :: "to_event_definition list"

definition simultaneous_options_default :: simultaneous_options where
  "simultaneous_options_default =
     \<lparr>so_detect_key_down_uninterruptedly = False, so_key_down_order = insensitive,
      so_key_up_order = insensitive, so_key_up_when = key_up_when_any, so_to_after_key_up = []\<rparr>"

record from_event_definition =
  from_event_definitions :: "event_definition list"
  from_modifiers :: from_modifiers_definition
  from_simultaneous_options :: simultaneous_options

fun any_type_page :: "any_type \<Rightarrow> usage_page" where
  "any_type_page any_key_code = page_keyboard_or_keypad"
| "any_type_page any_consumer_key_code = page_consumer"
| "any_type_page any_apple_vendor_keyboard_key_code = page_apple_vendor_keyboard"
| "any_type_page any_apple_vendor_top_case_key_code = page_apple_vendor_top_case"
| "any_type_page any_pointing_button = page_button"

definition test_event :: "event \<Rightarrow> event_definition \<Rightarrow> bool" where
  "test_event ev d =
     (case event_mse ev of
        None \<Rightarrow> False
      | Some e \<Rightarrow>
          (case d of
             Ed_momentary_switch_event e' \<Rightarrow> e = e'
           | Ed_any t \<Rightarrow> mse_valid e \<and> mse_page e = any_type_page t
           | _ \<Rightarrow> False))"

definition test_from_event :: "event \<Rightarrow> from_event_definition \<Rightarrow> bool" where
  "test_from_event ev f = list_ex (test_event ev) (from_event_definitions f)"

definition test_key_order :: "event list \<Rightarrow> key_order \<Rightarrow> event_definition list \<Rightarrow> bool" where
  "test_key_order evs order ds =
     (case order of
        insensitive \<Rightarrow> True
      | strict \<Rightarrow>
          list_all (\<lambda>i. i < length ds \<longrightarrow> test_event (evs ! i) (ds ! i)) [0..<length evs]
      | strict_inverse \<Rightarrow>
          list_all (\<lambda>i. i < length ds \<longrightarrow> test_event (evs ! i) (ds ! (length ds - 1 - i)))
            [0..<length evs])"

subsection \<open>Modifiers: lemmas\<close>

lemma distinct_all_modifiers [simp]: "distinct all_modifiers"
  by (simp add: all_modifiers_def)

lemma set_all_modifiers: "set all_modifiers = UNIV - {md_end}"
proof -
  have "m \<in> set all_modifiers \<longleftrightarrow> m \<noteq> md_end" for m
    by (cases m) (simp_all add: all_modifiers_def)
  then show ?thesis by auto
qed

lemma get_modifier_flags_get_modifier:
  "f \<noteq> mf_zero \<Longrightarrow> f \<noteq> mf_end \<Longrightarrow> get_modifier_flags (get_modifier f) = [f]"
  by (cases f) simp_all

lemma get_modifier_flags_subset: "set (get_modifier_flags m) \<subseteq> set all_modifier_flags"
  by (cases m) (simp_all add: all_modifier_flags_def)

lemma get_modifier_flags_not_zero: "f \<in> set (get_modifier_flags m) \<Longrightarrow> f \<noteq> mf_zero"
  by (cases m) auto

lemma test_modifier_iff:
  "m \<noteq> md_any \<Longrightarrow>
   test_modifier fs m = (ok, f) \<Longrightarrow>
   ok = (\<exists>x\<in>set (get_modifier_flags m). is_pressed x fs) \<and>
   (ok \<longrightarrow> f \<in> set (get_modifier_flags m) \<and> is_pressed f fs \<and> f \<noteq> mf_zero)"
proof (cases "find (\<lambda>f. is_pressed f fs) (get_modifier_flags m)")
  case None
  assume "m \<noteq> md_any" "test_modifier fs m = (ok, f)"
  then show ?thesis using None by (auto simp: test_modifier_def find_None_iff)
next
  case (Some x)
  assume "m \<noteq> md_any" "test_modifier fs m = (ok, f)"
  moreover have "x \<in> set (get_modifier_flags m)" "is_pressed x fs"
    using Some by (auto simp: find_Some_iff)
  ultimately show ?thesis using Some get_modifier_flags_not_zero[of x m] by (auto simp: test_modifier_def)
qed

text \<open>What \<open>test_modifiers\<close> decides.\<close>

definition modifier_pressed :: "active_modifier_flag list \<Rightarrow> modifier \<Rightarrow> bool" where
  "modifier_pressed fs m \<longleftrightarrow> (\<exists>f\<in>set (get_modifier_flags m). is_pressed f fs)"

lemma test_mandatory_iff:
  "md_any \<notin> mandatory \<Longrightarrow>
   (test_mandatory fs mandatory ms acc \<noteq> None \<longleftrightarrow>
      (\<forall>m\<in>set ms. m \<in> mandatory \<longrightarrow> modifier_pressed fs m))"
proof (induction ms arbitrary: acc)
  case Nil then show ?case by simp
next
  case (Cons m ms)
  obtain ok f where t: "test_modifier fs m = (ok, f)" by force
  show ?case
  proof (cases "m \<in> mandatory")
    case True
    then have "ok = modifier_pressed fs m"
      using test_modifier_iff[OF _ t] Cons.prems by (auto simp: modifier_pressed_def)
    then show ?thesis using Cons.IH[OF Cons.prems] True t by simp
  qed (use Cons in simp)
qed

lemma test_mandatory_flags:
  "md_any \<notin> mandatory \<Longrightarrow> test_mandatory fs mandatory ms acc = Some flags \<Longrightarrow>
   acc \<subseteq> flags \<and>
   (\<forall>f\<in>flags - acc. is_pressed f fs \<and> (\<exists>m\<in>set ms \<inter> mandatory. f \<in> set (get_modifier_flags m))) \<and>
   (\<forall>m\<in>set ms \<inter> mandatory. \<exists>f\<in>flags. f \<in> set (get_modifier_flags m) \<and> is_pressed f fs)"
proof (induction ms arbitrary: acc)
  case Nil then show ?case by simp
next
  case (Cons m ms)
  show ?case
  proof (cases "m \<in> mandatory")
    case False
    then show ?thesis using Cons by auto
  next
    case True
    obtain ok f where t: "test_modifier fs m = (ok, f)" by force
    have m: "m \<noteq> md_any" using True Cons.prems(1) by blast
    have ok: ok "test_mandatory fs mandatory ms (if f \<noteq> mf_zero then insert f acc else acc) = Some flags"
      using Cons.prems(2) True t by (auto split: if_splits)
    then have "f \<in> set (get_modifier_flags m)" "is_pressed f fs" "f \<noteq> mf_zero"
      using test_modifier_iff[OF m t] by auto
    then show ?thesis using Cons.IH[of "insert f acc"] Cons.prems(1) ok True by auto
  qed
qed

lemma extra_modifier_flags_set:
  "set (extra_modifier_flags d) =
     {f \<in> set all_modifier_flags.
        \<forall>m\<in>set all_modifiers. m \<in> fmd_mandatory_modifiers d \<or> m \<in> fmd_optional_modifiers d \<longrightarrow>
          f \<notin> set (get_modifier_flags m)}"
proof -
  have "set (foldl (\<lambda>extra m. if m \<in> fmd_mandatory_modifiers d \<or> m \<in> fmd_optional_modifiers d
                        then filter (\<lambda>f. f \<notin> set (get_modifier_flags m)) extra else extra) xs ms) =
      {f \<in> set xs. \<forall>m\<in>set ms. m \<in> fmd_mandatory_modifiers d \<or> m \<in> fmd_optional_modifiers d \<longrightarrow>
          f \<notin> set (get_modifier_flags m)}" for xs ms
    by (induction ms arbitrary: xs) auto
  then show ?thesis by (simp add: extra_modifier_flags_def)
qed

text \<open>A modifier flag that a definition mentions, as mandatory or optional.\<close>

definition mentioned :: "from_modifiers_definition \<Rightarrow> modifier_flag \<Rightarrow> bool" where
  "mentioned d f \<longleftrightarrow>
     (\<exists>m\<in>fmd_mandatory_modifiers d \<union> fmd_optional_modifiers d. f \<in> set (get_modifier_flags m))"

lemma no_extra_pressed_iff:
  "\<not> list_ex (\<lambda>f. is_pressed f fs) (extra_modifier_flags d) \<longleftrightarrow>
   (\<forall>f\<in>set all_modifier_flags. is_pressed f fs \<longrightarrow> mentioned d f)"
proof -
  have "f \<in> set (extra_modifier_flags d) \<longleftrightarrow> f \<in> set all_modifier_flags \<and> \<not> mentioned d f" for f
  proof -
    have "m \<noteq> md_end" if "f \<in> set (get_modifier_flags m)" for m using that by auto
    then show ?thesis
      by (auto simp: extra_modifier_flags_set mentioned_def set_all_modifiers)
  qed
  then show ?thesis by (auto simp: list_ex_iff)
qed

subsection \<open>Properties\<close>

text \<open>
  C38. The pressed modifiers are accepted if and only if the mandatory modifiers contain \<open>any\<close>, or
  each of them is pressed (left or right for the two-sided ones) and, unless the optional modifiers
  contain \<open>any\<close>, no modifier outside the mandatory and optional ones is pressed. The enumerator
  \<open>end_\<close>, which the loop never reaches and no JSON names, asks for nothing.
\<close>

theorem test_modifiers_accepts:
  "test_modifiers fs d \<noteq> None \<longleftrightarrow>
    md_any \<in> fmd_mandatory_modifiers d \<or>
    (\<forall>m\<in>fmd_mandatory_modifiers d - {md_end}. modifier_pressed fs m) \<and>
    (md_any \<in> fmd_optional_modifiers d \<or>
     (\<forall>f\<in>set all_modifier_flags. is_pressed f fs \<longrightarrow> mentioned d f))"
proof (cases "md_any \<in> fmd_mandatory_modifiers d")
  case True
  then show ?thesis by (simp add: test_modifiers_def)
next
  case False
  have "test_mandatory fs (fmd_mandatory_modifiers d) all_modifiers {} \<noteq> None \<longleftrightarrow>
      (\<forall>m\<in>fmd_mandatory_modifiers d - {md_end}. modifier_pressed fs m)"
    unfolding test_mandatory_iff[OF False] set_all_modifiers by blast
  then show ?thesis
    using False no_extra_pressed_iff[of fs d] by (auto simp: test_modifiers_def split: option.splits)
qed

definition sample_from_modifiers :: from_modifiers_definition where
  "sample_from_modifiers =
     \<lparr>fmd_mandatory_modifiers = {md_shift}, fmd_optional_modifiers = {md_caps_lock}\<rparr>"

definition sample_shift_pressed :: "active_modifier_flag list" where
  "sample_shift_pressed = [make_active_modifier_flag increase mf_right_shift 1]"

lemma sample_shift_is_pressed: "is_pressed f sample_shift_pressed \<longleftrightarrow> f = mf_right_shift"
  by (cases f)
     (simp_all add: sample_shift_pressed_def is_pressed_def led_lock_def get_count_def
       make_active_modifier_flag_def)

theorem test_modifiers_accepts_witness:
  "test_modifiers sample_shift_pressed sample_from_modifiers \<noteq> None"
  using test_modifiers_accepts[of sample_shift_pressed sample_from_modifiers]
  by (auto simp: sample_from_modifiers_def modifier_pressed_def mentioned_def sample_shift_is_pressed)

text \<open>
  The flags \<open>test_modifiers\<close> returns are pressed; without \<open>any\<close> among the mandatory modifiers
  they contain one pressed flag of each mandatory modifier and no flag of another modifier. These
  are the flags a manipulator releases before it posts its events.
\<close>

theorem test_modifiers_returns_pressed:
  assumes "test_modifiers fs d = Some flags"
  shows "(\<forall>f\<in>flags. is_pressed f fs) \<and>
    (md_any \<notin> fmd_mandatory_modifiers d \<longrightarrow>
       (\<forall>f\<in>flags. \<exists>m\<in>fmd_mandatory_modifiers d. f \<in> set (get_modifier_flags m)) \<and>
       (\<forall>m\<in>fmd_mandatory_modifiers d - {md_end}. \<exists>f\<in>flags. f \<in> set (get_modifier_flags m)))"
proof (cases "md_any \<in> fmd_mandatory_modifiers d")
  case True
  then show ?thesis using assms by (auto simp: test_modifiers_def)
next
  case False
  then have "test_mandatory fs (fmd_mandatory_modifiers d) all_modifiers {} = Some flags"
    using assms by (auto simp: test_modifiers_def split: option.splits if_splits)
  from test_mandatory_flags[OF False this] show ?thesis by (auto simp: set_all_modifiers)
qed

theorem test_modifiers_returns_pressed_witness:
  "mf_right_shift \<in> the (test_modifiers sample_shift_pressed sample_from_modifiers)"
proof -
  obtain flags where f: "test_modifiers sample_shift_pressed sample_from_modifiers = Some flags"
    by (simp add: test_modifiers_def sample_from_modifiers_def sample_shift_is_pressed all_modifiers_def
        test_modifier_def extra_modifier_flags_def all_modifier_flags_def)
  have "\<exists>x\<in>flags. x \<in> set (get_modifier_flags md_shift)" "\<forall>x\<in>flags. x = mf_right_shift"
    using test_modifiers_returns_pressed[OF f] by (auto simp: sample_from_modifiers_def sample_shift_is_pressed)
  then show ?thesis using f by auto
qed

text \<open>
  Every modifier is read back from the name it is written with, and only the four \<open>gui\<close> and
  \<open>alt\<close> names are accepted besides the written names.
\<close>

theorem modifier_json_round_trip:
  "modifier_from_json s = Some m \<longleftrightarrow>
     s = modifier_to_json m
     \<or> (s, m) \<in> {(''left_gui'', md_left_command), (''left_alt'', md_left_option),
                (''right_gui'', md_right_command), (''right_alt'', md_right_option)}"
proof -
  have distinct: "distinct (map fst modifier_names)" by (simp add: modifier_names_def)
  have "modifier_from_json s = Some m \<longleftrightarrow> (s, m) \<in> set modifier_names"
    using distinct by (simp add: modifier_from_json_def)
  then show ?thesis by (cases m) (simp_all add: modifier_names_def disj_commute)
qed

end
