(* ===== verification/Event_Sender.thy ===== *)
theory Event_Sender
  imports Definitions Scoped_Modifier_Flags
begin

text \<open>
  \<open>src/share/manipulator/manipulators/base.hpp\<close> (posting of modifier key events),
  \<open>basic/manipulated_original_event/*.hpp\<close> and \<open>basic/event_sender.hpp\<close>: how a basic manipulator
  sends the events of its definitions to the output queue, and the record of a manipulated key
  that remembers what has to be sent when the key is released.

  The lemmas show that all these functions only append to the output queue, that the appended
  time stamps increase by the running delay, and that presses and releases balance: what was
  pressed is either released by the same call or recorded for the release of the key.
\<close>

subsection \<open>manipulated_original_event\<close>

record events_at_key_up_entry =
  eku_device_id :: device_id
  eku_event :: event
  eku_event_type :: event_type
  eku_original_event :: event
  eku_lazy :: bool

definition eku_make_entry :: "event_time_stamp \<Rightarrow> events_at_key_up_entry \<Rightarrow> entry" where
  "eku_make_entry t e =
     make_entry (eku_device_id e) t (eku_event e) (eku_event_type e) (eku_original_event e)
       st_manipulated (eku_lazy e)"

record from_event =
  fe_device_id :: device_id
  fe_event :: event
  fe_original_event :: event

definition from_event_of :: "entry \<Rightarrow> from_event" where
  "from_event_of en =
     \<lparr>fe_device_id = en_device_id en, fe_event = en_event en, fe_original_event = en_original_event en\<rparr>"

record manipulated_original_event =
  moe_from_events :: "from_event set"
  moe_from_mandatory_modifiers :: "modifier_flag set"
  moe_key_up_posted_from_mandatory_modifiers :: "modifier_flag set"
  moe_key_down_time_stamp :: absolute_time_point
  moe_key_down_modifier_flags :: "modifier_flag set"
  moe_alone :: bool
  moe_halted :: bool
  moe_events_at_key_up :: "events_at_key_up_entry list"
  moe_key_up_posted :: bool

definition make_manipulated_original_event ::
    "from_event set \<Rightarrow> modifier_flag set \<Rightarrow> absolute_time_point \<Rightarrow> modifier_flag set \<Rightarrow>
     manipulated_original_event" where
  "make_manipulated_original_event froms mandatory t flags =
     \<lparr>moe_from_events = froms, moe_from_mandatory_modifiers = mandatory,
      moe_key_up_posted_from_mandatory_modifiers = {}, moe_key_down_time_stamp = t,
      moe_key_down_modifier_flags = flags, moe_alone = True, moe_halted = False,
      moe_events_at_key_up = [], moe_key_up_posted = False\<rparr>"

definition from_event_exists :: "from_event \<Rightarrow> manipulated_original_event \<Rightarrow> bool" where
  "from_event_exists fe m \<longleftrightarrow> fe \<in> moe_from_events m"

definition erase_from_event :: "from_event \<Rightarrow> manipulated_original_event \<Rightarrow> manipulated_original_event" where
  "erase_from_event fe m = m\<lparr>moe_from_events := moe_from_events m - {fe}\<rparr>"

definition erase_from_events_by_device_id ::
    "device_id \<Rightarrow> manipulated_original_event \<Rightarrow> manipulated_original_event" where
  "erase_from_events_by_device_id d m =
     m\<lparr>moe_from_events := {fe \<in> moe_from_events m. fe_device_id fe \<noteq> d}\<rparr>"

definition erase_from_events_by_event ::
    "event \<Rightarrow> manipulated_original_event \<Rightarrow> manipulated_original_event" where
  "erase_from_events_by_event ev m =
     m\<lparr>moe_from_events := {fe \<in> moe_from_events m. fe_event fe \<noteq> ev}\<rparr>"

definition unset_alone :: "manipulated_original_event \<Rightarrow> manipulated_original_event" where
  "unset_alone m = m\<lparr>moe_alone := False\<rparr>"

text \<open>The argument of the setter is ignored.\<close>

definition set_key_up_posted :: "bool \<Rightarrow> manipulated_original_event \<Rightarrow> manipulated_original_event" where
  "set_key_up_posted b m = m\<lparr>moe_key_up_posted := True\<rparr>"

definition emplace_back_event_at_key_up ::
    "device_id \<Rightarrow> event \<Rightarrow> event_type \<Rightarrow> event \<Rightarrow> bool \<Rightarrow> manipulated_original_event \<Rightarrow>
     manipulated_original_event" where
  "emplace_back_event_at_key_up d ev t oe lz m =
     m\<lparr>moe_events_at_key_up := moe_events_at_key_up m @
         [\<lparr>eku_device_id = d, eku_event = ev, eku_event_type = t, eku_original_event = oe, eku_lazy = lz\<rparr>]\<rparr>"

subsection \<open>Posting\<close>

text \<open>
  The state the functions of \<open>event_sender\<close> share: the reference to the running time stamp delay,
  and the output queue with the global state.
\<close>

type_synonym sender_output = "absolute_time_duration \<times> world \<times> event_queue"

abbreviation out_queue :: "sender_output \<Rightarrow> event_queue" where
  "out_queue s \<equiv> snd (snd s)"

text \<open>An entry is built at the time stamp plus the delay, and the delay is incremented.\<close>

definition post_at ::
    "platform \<Rightarrow> event_time_stamp \<Rightarrow> (event_time_stamp \<Rightarrow> entry) \<Rightarrow> sender_output \<Rightarrow> sender_output" where
  "post_at P t mk s =
     (fst s + 1,
      emplace_back_entry P (mk (t\<lparr>ets_time_stamp := ets_time_stamp t + fst s\<rparr>)) (snd s))"

definition make_lazy_modifier_key_event ::
    "momentary_switch_event \<Rightarrow> event_type \<Rightarrow> event \<times> event_type" where
  "make_lazy_modifier_key_event e t =
     (if mse_is_caps_lock e
      then (Ev_sticky_modifier mf_caps_lock (if t = key_down then sm_on else sm_off), single)
      else (Ev_momentary_switch_event e, t))"

definition post_lazy_modifier_key_event ::
    "platform \<Rightarrow> momentary_switch_event \<Rightarrow> event_type \<Rightarrow> device_id \<Rightarrow> event_time_stamp \<Rightarrow> event \<Rightarrow>
     bool \<Rightarrow> sender_output \<Rightarrow> sender_output" where
  "post_lazy_modifier_key_event P e t d ts oe lz s =
     (if mse_valid e
      then post_at P ts
             (\<lambda>ts. make_entry d ts (fst (make_lazy_modifier_key_event e t))
                     (snd (make_lazy_modifier_key_event e t)) oe st_manipulated lz) s
      else s)"

text \<open>
  The flags arrive in an unordered set; \<open>ord\<close> gives the order in which the library walks it.
\<close>

definition post_lazy_modifier_key_events ::
    "platform \<Rightarrow> modifier_flag list \<Rightarrow> event_type \<Rightarrow> device_id \<Rightarrow> event_time_stamp \<Rightarrow> event \<Rightarrow>
     sender_output \<Rightarrow> sender_output" where
  "post_lazy_modifier_key_events P ms t d ts oe s =
     foldl (\<lambda>s m. post_lazy_modifier_key_event P (mse_of_modifier_flag m) t d ts oe True s) s ms"

subsection \<open>event_sender\<close>

type_synonym flag_order = "modifier_flag set \<Rightarrow> modifier_flag list"

text \<open>
  \<open>filter_by_conditions\<close> evaluates the conditions of every definition. It returns the accepted
  definitions and all definitions with their conditions' memories updated.
\<close>

fun filter_by_conditions ::
    "platform \<Rightarrow> to_event_definition list \<Rightarrow> entry \<Rightarrow> world \<times> manipulator_environment \<Rightarrow>
     to_event_definition list \<times> to_event_definition list \<times> world \<times> manipulator_environment" where
  "filter_by_conditions P [] en s = ([], [], s)"
| "filter_by_conditions P (t # ts) en s =
     (case condition_manager_is_fulfilled P en (to_conditions t) s of
        (r, cs, s1) \<Rightarrow>
          (case filter_by_conditions P ts en s1 of
             (accepted, all, s2) \<Rightarrow>
               (let t' = t\<lparr>to_conditions := cs\<rparr>
                in (if r then t' # accepted else accepted, t' # all, s2))))"

definition filter_on_queue ::
    "platform \<Rightarrow> to_event_definition list \<Rightarrow> entry \<Rightarrow> sender_output \<Rightarrow>
     to_event_definition list \<times> to_event_definition list \<times> sender_output" where
  "filter_on_queue P ts en s =
     (case filter_by_conditions P ts en (fst (snd s), q_environment (out_queue s)) of
        (accepted, all, w, env) \<Rightarrow> (accepted, all, fst s, w, (out_queue s)\<lparr>q_environment := env\<rparr>))"

definition is_last_to_event_modifier_key_event :: "to_event_definition list \<Rightarrow> bool" where
  "is_last_to_event_modifier_key_event ts =
     (if ts = [] then False
      else case event_definition_mse (to_event_definition (last ts)) of
             Some e \<Rightarrow> mse_is_modifier e
           | None \<Rightarrow> False)"

text \<open>
  The loop over the mandatory modifiers changes only the set of posted flags, so it collects the
  flags that are pressed and not posted yet.
\<close>

definition post_from_mandatory_modifiers_key_up ::
    "platform \<Rightarrow> flag_order \<Rightarrow> entry \<Rightarrow> manipulated_original_event \<times> sender_output \<Rightarrow>
     manipulated_original_event \<times> sender_output" where
  "post_from_mandatory_modifiers_key_up P ord en ms =
     (case ms of (m, s) \<Rightarrow>
        (let posted = moe_key_up_posted_from_mandatory_modifiers m;
             modifiers = {f \<in> moe_from_mandatory_modifiers m.
                            f \<notin> posted \<and> is_pressed f (q_modifier_flags (out_queue s))}
         in (m\<lparr>moe_key_up_posted_from_mandatory_modifiers := posted \<union> modifiers\<rparr>,
             post_lazy_modifier_key_events P (ord modifiers) key_up (en_device_id en)
               (en_event_time_stamp en) (en_original_event en) s)))"

definition post_from_mandatory_modifiers_key_down ::
    "platform \<Rightarrow> flag_order \<Rightarrow> entry \<Rightarrow> manipulated_original_event \<times> sender_output \<Rightarrow>
     manipulated_original_event \<times> sender_output" where
  "post_from_mandatory_modifiers_key_down P ord en ms =
     (case ms of (m, s) \<Rightarrow>
        (let posted = moe_key_up_posted_from_mandatory_modifiers m;
             modifiers = {f \<in> moe_from_mandatory_modifiers m. f \<in> posted}
         in (m\<lparr>moe_key_up_posted_from_mandatory_modifiers := posted - modifiers\<rparr>,
             post_lazy_modifier_key_events P (ord modifiers) key_down (en_device_id en)
               (en_event_time_stamp en) (en_original_event en) s)))"

definition is_modifier_key_event :: "event \<Rightarrow> bool" where
  "is_modifier_key_event ev =
     (case ev of
        Ev_momentary_switch_event e \<Rightarrow> mse_is_modifier e \<or> mse_is_caps_lock e
      | Ev_mouse_key k \<Rightarrow> mk_is_speed_multiplier k
      | _ \<Rightarrow> False)"

definition post_modifiers ::
    "platform \<Rightarrow> entry \<Rightarrow> momentary_switch_event list \<Rightarrow> event_type \<Rightarrow> bool \<Rightarrow> sender_output \<Rightarrow> sender_output" where
  "post_modifiers P en es t lz s =
     foldl (\<lambda>s e. post_lazy_modifier_key_event P e t (en_device_id en) (en_event_time_stamp en)
                    (en_original_event en) lz s) s es"

definition post_key ::
    "platform \<Rightarrow> entry \<Rightarrow> event \<Rightarrow> event_type \<Rightarrow> bool \<Rightarrow> sender_output \<Rightarrow> sender_output" where
  "post_key P en ev t lz s =
     post_at P (en_event_time_stamp en)
       (\<lambda>ts. make_entry (en_device_id en) ts ev t (en_original_event en) st_manipulated lz) s"

definition add_hold_down :: "platform \<Rightarrow> to_event_definition \<Rightarrow> sender_output \<Rightarrow> sender_output" where
  "add_hold_down P t s =
     (fst s + pf_make_absolute_time_duration P (to_hold_down_milliseconds t), snd s)"

definition set_halted_if :: "bool \<Rightarrow> manipulated_original_event \<Rightarrow> manipulated_original_event" where
  "set_halted_if h m = (if h then m\<lparr>moe_halted := True\<rparr> else m)"

text \<open>One iteration of the loop of \<open>post_events_at_key_down\<close>; \<open>is_last\<close> is \<open>it == end - 1\<close>.\<close>

definition post_event_at_key_down ::
    "platform \<Rightarrow> entry \<Rightarrow> bool \<Rightarrow> to_event_definition \<Rightarrow> manipulated_original_event \<times> sender_output \<Rightarrow>
     manipulated_original_event \<times> sender_output" where
  "post_event_at_key_down P en is_last t ms =
     (case to_event (to_event_definition t) of
        None \<Rightarrow> ms
      | Some ev \<Rightarrow>
          (let modifier_events = make_modifier_events t;
               lz = (\<not> is_modifier_key_event ev \<or> to_lazy t);
               s1 = post_modifiers P en modifier_events key_down lz (snd ms);
               s2 = post_key P en ev key_down (to_lazy t) s1;
               m1 = set_halted_if (to_halt t) (fst ms);
               (m2, s3) =
                 (if \<not> is_last \<or> \<not> to_repeat t
                  then (m1, post_key P en ev key_up (to_lazy t) (add_hold_down P t s2))
                  else (emplace_back_event_at_key_up (en_device_id en) ev key_up
                          (en_original_event en) (to_lazy t) m1, s2))
           in if is_last \<and> is_modifier_key_event ev
              then (foldl (\<lambda>m e. emplace_back_event_at_key_up (en_device_id en)
                                   (fst (make_lazy_modifier_key_event e key_up))
                                   (snd (make_lazy_modifier_key_event e key_up))
                                   (en_original_event en) True m) m2 modifier_events, s3)
              else (m2, post_modifiers P en modifier_events key_up True s3)))"

fun post_events_loop ::
    "platform \<Rightarrow> entry \<Rightarrow> to_event_definition list \<Rightarrow> manipulated_original_event \<times> sender_output \<Rightarrow>
     manipulated_original_event \<times> sender_output" where
  "post_events_loop P en [] ms = ms"
| "post_events_loop P en (t # ts) ms =
     post_events_loop P en ts (post_event_at_key_down P en (ts = []) t ms)"

text \<open>The first component of the result is the list of definitions with their memories updated.\<close>

definition post_events_at_key_down ::
    "platform \<Rightarrow> entry \<Rightarrow> to_event_definition list \<Rightarrow> manipulated_original_event \<times> sender_output \<Rightarrow>
     to_event_definition list \<times> manipulated_original_event \<times> sender_output" where
  "post_events_at_key_down P en ts ms =
     (if moe_halted (fst ms) then (ts, ms)
      else case filter_on_queue P ts en (snd ms) of
             (accepted, all, s) \<Rightarrow> (all, post_events_loop P en accepted (fst ms, s)))"

definition post_events_at_key_up ::
    "platform \<Rightarrow> entry \<Rightarrow> manipulated_original_event \<times> sender_output \<Rightarrow> manipulated_original_event \<times> sender_output" where
  "post_events_at_key_up P en ms =
     ((fst ms)\<lparr>moe_events_at_key_up := []\<rparr>,
      foldl (\<lambda>s e. post_at P (en_event_time_stamp en) (\<lambda>ts. eku_make_entry ts e) s)
        (snd ms) (moe_events_at_key_up (fst ms)))"

definition post_extra_to_event ::
    "platform \<Rightarrow> entry \<Rightarrow> to_event_definition \<Rightarrow> manipulated_original_event \<times> sender_output \<Rightarrow>
     manipulated_original_event \<times> sender_output" where
  "post_extra_to_event P en t ms =
     (case to_event (to_event_definition t) of
        None \<Rightarrow> ms
      | Some ev \<Rightarrow>
          (let modifier_events = make_modifier_events t;
               s1 = post_modifiers P en modifier_events key_down True (snd ms);
               s2 = post_key P en ev key_down (to_lazy t) s1;
               s3 = post_key P en ev key_up (to_lazy t) (add_hold_down P t s2)
           in (set_halted_if (to_halt t) (fst ms), post_modifiers P en modifier_events key_up True s3)))"

definition post_extra_to_events ::
    "platform \<Rightarrow> entry \<Rightarrow> to_event_definition list \<Rightarrow> manipulated_original_event \<times> sender_output \<Rightarrow>
     to_event_definition list \<times> manipulated_original_event \<times> sender_output" where
  "post_extra_to_events P en ts ms =
     (if moe_halted (fst ms) then (ts, ms)
      else case filter_on_queue P ts en (snd ms) of
             (accepted, all, s) \<Rightarrow>
               (all, foldl (\<lambda>ms t. post_extra_to_event P en t ms) (fst ms, s) accepted))"

definition post_active_modifier_flags ::
    "platform \<Rightarrow> entry \<Rightarrow> active_modifier_flag list \<Rightarrow> sender_output \<Rightarrow> sender_output" where
  "post_active_modifier_flags P en fs s =
     foldl (\<lambda>s f. post_lazy_modifier_key_event P (mse_of_modifier_flag (amf_flag f))
                    (if get_count f > 0 then key_down else key_up) (amf_device f)
                    (en_event_time_stamp en) (en_original_event en) True s) s fs"

text \<open>
  \<open>scoped_from_key_modifier_flags_state_restorer\<close>. The constructor tries the flags out on the
  output queue's manager, restores it and then posts the key events it found; the value is \<open>None\<close>
  when the trial does not end.
\<close>

definition restorer_constructor ::
    "platform \<Rightarrow> entry \<Rightarrow> manipulated_original_event \<Rightarrow> sender_output \<Rightarrow>
     (active_modifier_flag list \<times> sender_output) option" where
  "restorer_constructor P en m s =
     (case scoped_modifier_flags (moe_key_down_modifier_flags m) (q_modifier_flags (out_queue s)) of
        None \<Rightarrow> None
      | Some sc \<Rightarrow>
          (let restored = scoped_modifier_flags_destructor sc
           in Some (get_inverse_active_modifier_flags (snd sc),
                    post_active_modifier_flags P en (snd sc)
                      (fst s, fst (snd s), (out_queue s)\<lparr>q_modifier_flags := restored\<rparr>))))"

definition restorer_destructor ::
    "platform \<Rightarrow> entry \<Rightarrow> active_modifier_flag list \<Rightarrow> sender_output \<Rightarrow> sender_output" where
  "restorer_destructor P en inverse_flags s = post_active_modifier_flags P en inverse_flags s"

subsection \<open>What is posted\<close>

text \<open>
  \<open>queue_extends\<close> relates an output queue to what it becomes when entries are appended; the
  environment is left open, because conditions and variables change it. \<open>posts t\<close> adds the running
  delay: the entries carry increasing time stamps between the time stamp \<open>t\<close> plus the delay before
  and plus the delay after.
\<close>

definition queue_extends :: "event_queue \<Rightarrow> entry list \<Rightarrow> event_queue \<Rightarrow> bool" where
  "queue_extends q ens q' \<longleftrightarrow>
     q_events q' = q_events q @ map (delay_entry (q_time_stamp_delay q)) ens
     \<and> q_modifier_flags q' = foldl (\<lambda>fs en. queue_update_modifier_flags en fs) (q_modifier_flags q) ens
     \<and> q_pointing_buttons q' = foldl (\<lambda>bs en. queue_update_pointing_buttons en bs) (q_pointing_buttons q) ens
     \<and> q_time_stamp_delay q' = q_time_stamp_delay q"

definition posts :: "absolute_time_point \<Rightarrow> sender_output \<Rightarrow> entry list \<Rightarrow> sender_output \<Rightarrow> bool" where
  "posts t s ens s' \<longleftrightarrow>
     queue_extends (out_queue s) ens (out_queue s') \<and> fst s \<le> fst s'
     \<and> sorted_wrt (<) (map en_time_stamp ens)
     \<and> (\<forall>en\<in>set ens. t + fst s \<le> en_time_stamp en \<and> en_time_stamp en < t + fst s')"

lemma queue_extends_refl [simp]: "queue_extends q [] q"
  by (simp add: queue_extends_def)

lemma queue_extends_trans:
  "queue_extends q ens q1 \<Longrightarrow> queue_extends q1 ens' q2 \<Longrightarrow> queue_extends q (ens @ ens') q2"
  by (simp add: queue_extends_def)

lemma posts_refl [simp]: "posts t s [] s"
  by (simp add: posts_def)

lemma posts_trans:
  assumes "posts t s ens s1" "posts t s1 ens' s2"
  shows "posts t s (ens @ ens') s2"
proof -
  have l: "t + fst s \<le> en_time_stamp x \<and> en_time_stamp x < t + fst s1" if "x \<in> set ens" for x
    using assms(1) that by (simp add: posts_def)
  have r: "t + fst s1 \<le> en_time_stamp y \<and> en_time_stamp y < t + fst s2" if "y \<in> set ens'" for y
    using assms(2) that by (simp add: posts_def)
  have d: "fst s \<le> fst s1" "fst s1 \<le> fst s2" using assms by (simp_all add: posts_def)
  have "en_time_stamp x < en_time_stamp y" if "x \<in> set ens" "y \<in> set ens'" for x y
    using l[OF that(1)] r[OF that(2)] by linarith
  moreover have "t + fst s \<le> en_time_stamp x \<and> en_time_stamp x < t + fst s2"
    if "x \<in> set ens \<union> set ens'" for x
    using that l[of x] r[of x] d by (cases "x \<in> set ens") auto
  ultimately show ?thesis
    using assms d unfolding posts_def by (auto simp: sorted_wrt_append intro: queue_extends_trans)
qed

lemma queue_extends_emplace: "queue_extends (snd s) [en] (snd (emplace_back_entry P en s))"
  by (simp add: queue_extends_def emplace_back_entry_def split: prod.split)

lemma posts_post_at:
  assumes "\<And>ts. en_event_time_stamp (mk ts) = ts"
  shows "posts (ets_time_stamp t) s [mk (t\<lparr>ets_time_stamp := ets_time_stamp t + fst s\<rparr>)] (post_at P t mk s)"
  by (simp add: posts_def post_at_def queue_extends_emplace assms)

lemma posts_environment:
  "posts t s [] (fst s, w, (out_queue s)\<lparr>q_environment := env\<rparr>)"
  by (simp add: posts_def queue_extends_def)

lemma posts_filter:
  "filter_on_queue P ts en s = (accepted, all, s') \<Longrightarrow> posts t s [] s'"
  by (auto simp: filter_on_queue_def posts_def queue_extends_def split: prod.splits)

lemma posts_delay: "0 \<le> h \<Longrightarrow> posts t s [] (fst s + h, snd s)"
  by (simp add: posts_def)

subsection \<open>Balance of presses and releases\<close>

definition press_weight :: "event_type \<Rightarrow> int" where
  "press_weight t = (case t of key_down \<Rightarrow> 1 | key_up \<Rightarrow> -1 | single \<Rightarrow> 0)"

lemma press_weight_simps [simp]:
  "press_weight key_down = 1" "press_weight key_up = -1" "press_weight single = 0"
  by (simp_all add: press_weight_def)

text \<open>Presses minus releases of an event, over the entries of the devices that satisfy \<open>d\<close>.\<close>

definition balance :: "event \<Rightarrow> (device_id \<Rightarrow> bool) \<Rightarrow> entry list \<Rightarrow> int" where
  "balance ev d ens =
     (\<Sum>en\<leftarrow>ens. if en_event en = ev \<and> d (en_device_id en) then press_weight (en_event_type en) else 0)"

definition pending :: "event \<Rightarrow> (device_id \<Rightarrow> bool) \<Rightarrow> manipulated_original_event \<Rightarrow> int" where
  "pending ev d m =
     (\<Sum>e\<leftarrow>moe_events_at_key_up m.
        if eku_event e = ev \<and> d (eku_device_id e) then press_weight (eku_event_type e) else 0)"

lemma balance_append [simp]: "balance ev d (xs @ ys) = balance ev d xs + balance ev d ys"
  by (simp add: balance_def)

lemma balance_Nil [simp]: "balance ev d [] = 0"
  by (simp add: balance_def)

lemma balance_single [simp]:
  "balance ev d [en] =
     (if en_event en = ev \<and> d (en_device_id en) then press_weight (en_event_type en) else 0)"
  by (simp add: balance_def)

lemma pending_emplace:
  "pending ev d (emplace_back_event_at_key_up d' ev' t oe lz m) =
     pending ev d m + (if ev' = ev \<and> d d' then press_weight t else 0)"
  by (simp add: pending_def emplace_back_event_at_key_up_def)

lemma pending_halted [simp]: "pending ev d (set_halted_if h m) = pending ev d m"
  by (simp add: pending_def set_halted_if_def)

lemma sum_list_uminus: "(\<Sum>x\<leftarrow>xs. - f x) = - (\<Sum>x\<leftarrow>xs. f x :: int)"
  by (induction xs) simp_all

text \<open>The weight a lazy modifier key event contributes.\<close>

definition modifier_weight :: "event \<Rightarrow> momentary_switch_event \<Rightarrow> event_type \<Rightarrow> int" where
  "modifier_weight ev e t =
     (if mse_valid e \<and> fst (make_lazy_modifier_key_event e t) = ev
      then press_weight (snd (make_lazy_modifier_key_event e t)) else 0)"

lemma modifier_weight_opposite:
  "modifier_weight ev e key_up = - modifier_weight ev e key_down"
  by (auto simp: modifier_weight_def make_lazy_modifier_key_event_def)

text \<open>
  \<open>sends t s s' b\<close>: the step from \<open>s\<close> to \<open>s'\<close> posts entries whose balance is \<open>b\<close>.
\<close>

definition sends ::
    "absolute_time_point \<Rightarrow> sender_output \<Rightarrow> sender_output \<Rightarrow> (event \<Rightarrow> (device_id \<Rightarrow> bool) \<Rightarrow> int) \<Rightarrow> bool" where
  "sends t s s' b \<longleftrightarrow> (\<exists>ens. posts t s ens s' \<and> (\<forall>ev d. balance ev d ens = b ev d))"

lemma sends_refl [intro]: "sends t s s (\<lambda>ev d. 0)"
  by (auto simp: sends_def intro!: exI[of _ "[]"])

lemma sends_trans:
  assumes "sends t s s1 b1" "sends t s1 s2 b2" "\<And>ev d. b ev d = b1 ev d + b2 ev d"
  shows "sends t s s2 b"
proof -
  obtain e1 e2 where "posts t s e1 s1" "\<forall>ev d. balance ev d e1 = b1 ev d"
      "posts t s1 e2 s2" "\<forall>ev d. balance ev d e2 = b2 ev d"
    using assms(1,2) by (auto simp: sends_def)
  then show ?thesis
    using posts_trans assms(3) unfolding sends_def by (intro exI[of _ "e1 @ e2"]) auto
qed

lemma sends_eq: "sends t s s' b \<Longrightarrow> (\<And>ev d. b ev d = b' ev d) \<Longrightarrow> sends t s s' b'"
  by (simp add: sends_def)

lemma sends_nothing: "posts t s [] s' \<Longrightarrow> sends t s s' (\<lambda>ev d. 0)"
  by (auto simp: sends_def intro!: exI[of _ "[]"])

lemma sends_post_key:
  "sends (en_time_stamp en) s (post_key P en ev' t lz s)
     (\<lambda>ev d. if ev' = ev \<and> d (en_device_id en) then press_weight t else 0)"
  unfolding sends_def post_key_def
  by (intro exI conjI, rule posts_post_at) (simp_all add: make_entry_def)

lemma sends_lazy_modifier:
  "sends (ets_time_stamp ts) s (post_lazy_modifier_key_event P e t d' ts oe lz s)
     (\<lambda>ev d. if d d' then modifier_weight ev e t else 0)"
proof (cases "mse_valid e")
  case True
  show ?thesis
    unfolding sends_def post_lazy_modifier_key_event_def if_P[OF True]
    by (intro exI conjI, rule posts_post_at) (use True in \<open>simp_all add: make_entry_def modifier_weight_def\<close>)
next
  case False
  then show ?thesis
    unfolding post_lazy_modifier_key_event_def if_not_P[OF False]
    by (intro sends_eq[OF sends_refl]) (simp add: modifier_weight_def)
qed

lemma sends_fold:
  assumes "\<And>x s. sends t s (f s x) (b x)"
  shows "sends t s (foldl f s xs) (\<lambda>ev d. \<Sum>x\<leftarrow>xs. b x ev d)"
proof (induction xs arbitrary: s)
  case Nil then show ?case by (simp add: sends_refl)
next
  case (Cons x xs)
  show ?case
    unfolding foldl_Cons by (rule sends_trans[OF assms Cons.IH]) simp
qed

lemma modifier_weights_opposite:
  "(\<Sum>e\<leftarrow>es. if d d' then modifier_weight ev e key_up else 0) =
     - (\<Sum>e\<leftarrow>es. if d d' then modifier_weight ev e key_down else 0)"
  by (induction es) (simp_all add: modifier_weight_opposite)

lemma sends_post_modifiers:
  "sends (en_time_stamp en) s (post_modifiers P en es t lz s)
     (\<lambda>ev d. \<Sum>e\<leftarrow>es. if d (en_device_id en) then modifier_weight ev e t else 0)"
  unfolding post_modifiers_def by (rule sends_fold) (rule sends_lazy_modifier)

text \<open>The steps of the loops, and the change of what is pending for the release of the key.\<close>

definition hold_down_ok :: "platform \<Rightarrow> to_event_definition \<Rightarrow> bool" where
  "hold_down_ok P t \<longleftrightarrow> 0 \<le> pf_make_absolute_time_duration P (to_hold_down_milliseconds t)"

lemma pending_emplace_fold:
  "pending ev d (foldl (\<lambda>m e. emplace_back_event_at_key_up d'
       (fst (make_lazy_modifier_key_event e key_up)) (snd (make_lazy_modifier_key_event e key_up)) oe True m)
     m es) =
   pending ev d m + (\<Sum>e\<leftarrow>es. if fst (make_lazy_modifier_key_event e key_up) = ev \<and> d d'
       then press_weight (snd (make_lazy_modifier_key_event e key_up)) else 0)"
  by (induction es arbitrary: m) (simp_all add: pending_emplace)

lemma make_modifier_events_valid: "e \<in> set (make_modifier_events t) \<Longrightarrow> mse_valid e"
  by (auto simp: make_modifier_events_def split: list.splits if_splits)

lemma sends_post_event_at_key_down:
  assumes "hold_down_ok P t" "post_event_at_key_down P en is_last t (m, s) = (m', s')"
  shows "sends (en_time_stamp en) s s' (\<lambda>ev d. pending ev d m - pending ev d m')"
proof (cases "to_event (to_event_definition t)")
  case None
  then show ?thesis using assms by (auto simp: post_event_at_key_down_def intro: sends_refl)
next
  case (Some ev0)
  let ?es = "make_modifier_events t" and ?d = "en_device_id en"
  let ?lz = "\<not> is_modifier_key_event ev0 \<or> to_lazy t"
  let ?key = "\<lambda>ev d. if ev0 = ev \<and> d ?d then (1::int) else 0"
  let ?mods = "\<lambda>ev d. \<Sum>e\<leftarrow>?es. if d ?d then modifier_weight ev e key_down else 0"
  define s1 where "s1 = post_modifiers P en ?es key_down ?lz s"
  define s2 where "s2 = post_key P en ev0 key_down (to_lazy t) s1"
  define m1 where "m1 = set_halted_if (to_halt t) m"
  define m2 where "m2 = (if \<not> is_last \<or> \<not> to_repeat t then m1
      else emplace_back_event_at_key_up ?d ev0 key_up (en_original_event en) (to_lazy t) m1)"
  define s3 where "s3 = (if \<not> is_last \<or> \<not> to_repeat t
      then post_key P en ev0 key_up (to_lazy t) (add_hold_down P t s2) else s2)"
  have a: "sends (en_time_stamp en) s s2 (\<lambda>ev d. ?mods ev d + ?key ev d)"
    unfolding s2_def s1_def
    by (rule sends_trans[OF sends_post_modifiers sends_post_key]) simp
  have b: "sends (en_time_stamp en) s2 s3 (\<lambda>ev d. pending ev d m - pending ev d m2 - ?key ev d)"
  proof (cases "\<not> is_last \<or> \<not> to_repeat t")
    case True
    have "sends (en_time_stamp en) s2 (add_hold_down P t s2) (\<lambda>ev d. 0)"
      using assms(1) by (auto simp: add_hold_down_def hold_down_ok_def intro!: sends_nothing posts_delay)
    from sends_trans[OF this sends_post_key] show ?thesis
      using True by (simp add: s3_def m2_def m1_def)
  next
    case False
    then show ?thesis
      unfolding s3_def m2_def m1_def
      by (simp add: pending_emplace) (rule sends_trans[OF sends_refl sends_refl], simp)
  qed
  have ab: "sends (en_time_stamp en) s s3 (\<lambda>ev d. ?mods ev d + pending ev d m - pending ev d m2)"
    by (rule sends_trans[OF a b]) simp
  show ?thesis
  proof (cases "is_last \<and> is_modifier_key_event ev0")
    case True
    have s': "s' = s3" and m': "m' = foldl (\<lambda>m e. emplace_back_event_at_key_up ?d
          (fst (make_lazy_modifier_key_event e key_up)) (snd (make_lazy_modifier_key_event e key_up))
          (en_original_event en) True m) m2 ?es"
      using assms(2) Some True
      by (auto simp: post_event_at_key_down_def Let_def s1_def s2_def s3_def m1_def m2_def split: if_splits)
    have "(if fst (make_lazy_modifier_key_event e key_up) = ev \<and> d ?d
          then press_weight (snd (make_lazy_modifier_key_event e key_up)) else 0) =
        - (if d ?d then modifier_weight ev e key_down else 0)" if "e \<in> set ?es" for e ev d
      using modifier_weight_opposite[of ev e] make_modifier_events_valid[OF that]
      by (auto simp: modifier_weight_def)
    then have "pending ev d m' = pending ev d m2 - ?mods ev d" for ev d
      unfolding m' pending_emplace_fold by (simp add: sum_list_uminus cong: map_cong)
    then show ?thesis unfolding s' by (intro sends_eq[OF ab]) simp
  next
    case False
    have s': "s' = post_modifiers P en ?es key_up True s3" and m': "m' = m2"
      using assms(2) Some False
      by (auto simp: post_event_at_key_down_def Let_def s1_def s2_def s3_def m1_def m2_def split: if_splits)
    show ?thesis
      unfolding s' m' by (intro sends_trans[OF ab sends_post_modifiers]) (simp add: modifier_weights_opposite)
  qed
qed

text \<open>The part of the record the sending functions leave alone.\<close>

definition moe_frame ::
    "manipulated_original_event \<Rightarrow>
     from_event set \<times> modifier_flag set \<times> absolute_time_point \<times> modifier_flag set \<times> bool \<times> bool" where
  "moe_frame m =
     (moe_from_events m, moe_from_mandatory_modifiers m, moe_key_down_time_stamp m,
      moe_key_down_modifier_flags m, moe_alone m, moe_key_up_posted m)"

lemma moe_frame_simps [frame]:
  "moe_frame (emplace_back_event_at_key_up d ev t oe lz m) = moe_frame m"
  "moe_frame (set_halted_if h m) = moe_frame m"
  by (simp_all add: moe_frame_def emplace_back_event_at_key_up_def set_halted_if_def)

lemma halted_events_at_key_up [frame]: "moe_events_at_key_up (set_halted_if h m) = moe_events_at_key_up m"
  by (simp add: set_halted_if_def)

lemma posted_simps [frame]:
  "moe_key_up_posted_from_mandatory_modifiers (emplace_back_event_at_key_up d ev t oe lz m) =
     moe_key_up_posted_from_mandatory_modifiers m"
  "moe_key_up_posted_from_mandatory_modifiers (set_halted_if h m) =
     moe_key_up_posted_from_mandatory_modifiers m"
  by (simp_all add: emplace_back_event_at_key_up_def set_halted_if_def)

lemma foldl_frame: "(\<And>m x. F (g m x) = F m) \<Longrightarrow> F (foldl g m xs) = F m"
  by (induction xs arbitrary: m) simp_all

lemma post_event_at_key_down_frame [frame]:
  "moe_frame (fst (post_event_at_key_down P en is_last t ms)) = moe_frame (fst ms)"
  "moe_key_up_posted_from_mandatory_modifiers (fst (post_event_at_key_down P en is_last t ms)) =
     moe_key_up_posted_from_mandatory_modifiers (fst ms)"
  by (simp_all add: post_event_at_key_down_def Let_def frame split: option.split)
     (simp_all add: foldl_frame[where F = moe_frame] frame
       foldl_frame[where F = moe_key_up_posted_from_mandatory_modifiers])

lemma post_events_loop_frame [frame]:
  "moe_frame (fst (post_events_loop P en ts ms)) = moe_frame (fst ms)"
  "moe_key_up_posted_from_mandatory_modifiers (fst (post_events_loop P en ts ms)) =
     moe_key_up_posted_from_mandatory_modifiers (fst ms)"
  by (induction ts arbitrary: ms) (simp_all add: frame)

lemma post_extra_to_event_frame [frame]:
  "moe_frame (fst (post_extra_to_event P en t ms)) = moe_frame (fst ms)"
  "moe_key_up_posted_from_mandatory_modifiers (fst (post_extra_to_event P en t ms)) =
     moe_key_up_posted_from_mandatory_modifiers (fst ms)"
  "moe_events_at_key_up (fst (post_extra_to_event P en t ms)) = moe_events_at_key_up (fst ms)"
  by (simp_all add: post_extra_to_event_def Let_def frame split: option.split)

lemma sends_post_events_loop:
  "\<forall>t\<in>set ts. hold_down_ok P t \<Longrightarrow> post_events_loop P en ts (m, s) = (m', s') \<Longrightarrow>
   sends (en_time_stamp en) s s' (\<lambda>ev d. pending ev d m - pending ev d m')"
proof (induction ts arbitrary: m s)
  case Nil then show ?case by (auto intro: sends_eq[OF sends_refl])
next
  case (Cons t ts)
  obtain m1 s1 where step: "post_event_at_key_down P en (ts = []) t (m, s) = (m1, s1)"
    by (metis prod.collapse)
  have "sends (en_time_stamp en) s s1 (\<lambda>ev d. pending ev d m - pending ev d m1)"
    by (rule sends_post_event_at_key_down[OF _ step]) (use Cons.prems in simp)
  moreover have "sends (en_time_stamp en) s1 s' (\<lambda>ev d. pending ev d m1 - pending ev d m')"
    by (rule Cons.IH) (use Cons.prems step in simp_all)
  ultimately show ?case by (rule sends_trans) simp
qed

lemma filter_by_conditions_accepted:
  "filter_by_conditions P ts en s = (accepted, all, s') \<Longrightarrow>
   (\<forall>t\<in>set accepted. \<exists>t'\<in>set ts. to_hold_down_milliseconds t = to_hold_down_milliseconds t')
   \<and> map to_event_definition all = map to_event_definition ts
   \<and> map to_hold_down_milliseconds all = map to_hold_down_milliseconds ts"
  by (induction ts arbitrary: s accepted all s')
     (fastforce simp: Let_def split: prod.splits if_splits)+

lemma filter_on_queue_hold_down:
  "filter_on_queue P ts en s = (accepted, all, s') \<Longrightarrow> \<forall>t\<in>set ts. hold_down_ok P t \<Longrightarrow>
   \<forall>t\<in>set accepted. hold_down_ok P t"
  using filter_by_conditions_accepted
  by (fastforce simp: filter_on_queue_def hold_down_ok_def split: prod.splits)

lemma sends_post_events_at_key_down:
  assumes "\<forall>t\<in>set ts. hold_down_ok P t" "post_events_at_key_down P en ts (m, s) = (ts', m', s')"
  shows "sends (en_time_stamp en) s s' (\<lambda>ev d. pending ev d m - pending ev d m')"
proof (cases "moe_halted m")
  case True
  then show ?thesis using assms(2) by (auto simp: post_events_at_key_down_def intro: sends_eq[OF sends_refl])
next
  case False
  obtain accepted all s1 where f: "filter_on_queue P ts en s = (accepted, all, s1)"
    by (metis prod_cases3)
  then have "post_events_loop P en accepted (m, s1) = (m', s')"
    using assms(2) False by (simp add: post_events_at_key_down_def)
  from sends_post_events_loop[OF filter_on_queue_hold_down[OF f assms(1)] this]
  show ?thesis by (rule sends_trans[OF sends_nothing[OF posts_filter[OF f]]]) simp
qed

lemma sends_post_events_at_key_up:
  assumes "post_events_at_key_up P en (m, s) = (m', s')"
  shows "sends (en_time_stamp en) s s' (\<lambda>ev d. pending ev d m)" "moe_events_at_key_up m' = []"
proof -
  have "sends (en_time_stamp en) s (post_at P (en_event_time_stamp en) (\<lambda>ts. eku_make_entry ts e) s)
      (\<lambda>ev d. if eku_event e = ev \<and> d (eku_device_id e) then press_weight (eku_event_type e) else 0)" for e s
    unfolding sends_def
    by (intro exI conjI, rule posts_post_at) (simp_all add: eku_make_entry_def make_entry_def)
  note step = this
  have "sends (en_time_stamp en) s
      (foldl (\<lambda>s e. post_at P (en_event_time_stamp en) (\<lambda>ts. eku_make_entry ts e) s) s es)
      (\<lambda>ev d. \<Sum>e\<leftarrow>es. if eku_event e = ev \<and> d (eku_device_id e) then press_weight (eku_event_type e) else 0)"
    for es by (rule sends_fold) (rule step)
  then show "sends (en_time_stamp en) s s' (\<lambda>ev d. pending ev d m)"
    using assms by (auto simp: post_events_at_key_up_def pending_def)
  show "moe_events_at_key_up m' = []" using assms by (auto simp: post_events_at_key_up_def)
qed

lemma sends_post_extra_to_event:
  assumes "hold_down_ok P t" "post_extra_to_event P en t (m, s) = (m', s')"
  shows "sends (en_time_stamp en) s s' (\<lambda>ev d. 0)" "moe_events_at_key_up m' = moe_events_at_key_up m"
proof -
  show "moe_events_at_key_up m' = moe_events_at_key_up m"
    using assms(2) by (auto simp: post_extra_to_event_def Let_def set_halted_if_def split: option.splits)
  show "sends (en_time_stamp en) s s' (\<lambda>ev d. 0)"
  proof (cases "to_event (to_event_definition t)")
    case None
    then show ?thesis using assms by (auto simp: post_extra_to_event_def)
  next
    case (Some ev0)
    let ?es = "make_modifier_events t"
    let ?s1 = "post_modifiers P en ?es key_down True s"
    let ?s2 = "post_key P en ev0 key_down (to_lazy t) ?s1"
    have h: "sends (en_time_stamp en) ?s2 (add_hold_down P t ?s2) (\<lambda>ev d. 0)"
      using assms(1) by (auto simp: add_hold_down_def hold_down_ok_def intro!: sends_nothing posts_delay)
    have "s' = post_modifiers P en ?es key_up True
        (post_key P en ev0 key_up (to_lazy t) (add_hold_down P t ?s2))"
      using assms(2) Some by (auto simp: post_extra_to_event_def Let_def)
    then show ?thesis
      by (auto simp: modifier_weights_opposite intro!: sends_trans[OF sends_trans[OF sends_trans[OF sends_trans[OF sends_post_modifiers
            sends_post_key refl] h refl] sends_post_key refl] sends_post_modifiers])
  qed
qed

lemma sends_post_extra_to_events:
  assumes "\<forall>t\<in>set ts. hold_down_ok P t" "post_extra_to_events P en ts (m, s) = (ts', m', s')"
  shows "sends (en_time_stamp en) s s' (\<lambda>ev d. 0)" "moe_events_at_key_up m' = moe_events_at_key_up m"
proof -
  have loop: "sends (en_time_stamp en) s (snd (foldl (\<lambda>ms t. post_extra_to_event P en t ms) (m, s) ts)) (\<lambda>ev d. 0) \<and>
      moe_events_at_key_up (fst (foldl (\<lambda>ms t. post_extra_to_event P en t ms) (m, s) ts)) = moe_events_at_key_up m"
    if "\<forall>t\<in>set ts. hold_down_ok P t" for ts m s
    using that
  proof (induction ts arbitrary: m s)
    case Nil then show ?case by (simp add: sends_refl)
  next
    case (Cons t ts)
    obtain m1 s1 where step: "post_extra_to_event P en t (m, s) = (m1, s1)" by (metis prod.collapse)
    have t: "hold_down_ok P t" and ts: "\<forall>t\<in>set ts. hold_down_ok P t" using Cons.prems by simp_all
    note first = sends_post_extra_to_event[OF t step]
    note rest = Cons.IH[OF ts, of s1 m1]
    show ?case
      unfolding foldl_Cons step
      using first(2) rest sends_trans[OF first(1) conjunct1[OF rest], of "\<lambda>ev d. 0"] by simp
  qed
  have "sends (en_time_stamp en) s s' (\<lambda>ev d. 0) \<and> moe_events_at_key_up m' = moe_events_at_key_up m"
  proof (cases "moe_halted m")
    case True
    then show ?thesis using assms(2) by (auto simp: post_extra_to_events_def intro: sends_refl)
  next
    case False
    obtain accepted all s1 where f: "filter_on_queue P ts en s = (accepted, all, s1)"
      by (metis prod_cases3)
    then have r: "foldl (\<lambda>ms t. post_extra_to_event P en t ms) (m, s1) accepted = (m', s')"
      using assms(2) False by (simp add: post_extra_to_events_def)
    have "sends (en_time_stamp en) s1 s' (\<lambda>ev d. 0)" "moe_events_at_key_up m' = moe_events_at_key_up m"
      using loop[OF filter_on_queue_hold_down[OF f assms(1)], of s1 m] r by simp_all
    then show ?thesis
      using sends_trans[OF sends_nothing[OF posts_filter[OF f]], of "en_time_stamp en" s' "\<lambda>ev d. 0" "\<lambda>ev d. 0"]
      by simp
  qed
  then show "sends (en_time_stamp en) s s' (\<lambda>ev d. 0)" "moe_events_at_key_up m' = moe_events_at_key_up m"
    by blast+
qed

subsection \<open>Mandatory modifiers and restored flags\<close>

definition flag_weight :: "event \<Rightarrow> modifier_flag \<Rightarrow> event_type \<Rightarrow> int" where
  "flag_weight ev f t = modifier_weight ev (mse_of_modifier_flag f) t"

lemma sends_lazy_events:
  "sends (ets_time_stamp ts) s (post_lazy_modifier_key_events P fs t d' ts oe s)
     (\<lambda>ev d. \<Sum>f\<leftarrow>fs. if d d' then flag_weight ev f t else 0)"
  unfolding post_lazy_modifier_key_events_def flag_weight_def by (rule sends_fold) (rule sends_lazy_modifier)

text \<open>The order parameter lists the elements of a set.\<close>

definition flag_order_ok :: "flag_order \<Rightarrow> bool" where
  "flag_order_ok ord \<longleftrightarrow> (\<forall>S. distinct (ord S) \<and> set (ord S) = S)"

lemma finite_modifier_flags: "finite (S :: modifier_flag set)"
proof -
  have "(UNIV :: modifier_flag set) = insert mf_zero (insert mf_end (set all_modifier_flags))"
    by (auto simp: set_all_modifier_flags)
  then show ?thesis by (metis finite.insertI finite_set rev_finite_subset subset_UNIV)
qed

lemma sum_list_ord: "flag_order_ok ord \<Longrightarrow> (\<Sum>f\<leftarrow>ord S. g f) = sum g S"
  by (metis flag_order_ok_def sum_list_distinct_conv_sum_set)

lemma mandatory_key_up:
  assumes "flag_order_ok ord" "post_from_mandatory_modifiers_key_up P ord en (m, s) = (m', s')"
  shows "sends (en_time_stamp en) s s'
      (\<lambda>ev d. - (if d (en_device_id en)
         then (\<Sum>f\<in>moe_key_up_posted_from_mandatory_modifiers m' - moe_key_up_posted_from_mandatory_modifiers m.
                 flag_weight ev f key_down) else 0))"
    and "m' = m\<lparr>moe_key_up_posted_from_mandatory_modifiers := moe_key_up_posted_from_mandatory_modifiers m'\<rparr>"
    and "moe_key_up_posted_from_mandatory_modifiers m \<subseteq> moe_key_up_posted_from_mandatory_modifiers m'"
    and "moe_key_up_posted_from_mandatory_modifiers m' \<subseteq>
      moe_key_up_posted_from_mandatory_modifiers m \<union> moe_from_mandatory_modifiers m"
proof -
  define posted where "posted = moe_key_up_posted_from_mandatory_modifiers m"
  define mods where "mods = {f \<in> moe_from_mandatory_modifiers m.
      f \<notin> posted \<and> is_pressed f (q_modifier_flags (out_queue s))}"
  have m': "m' = m\<lparr>moe_key_up_posted_from_mandatory_modifiers := posted \<union> mods\<rparr>"
    and s': "s' = post_lazy_modifier_key_events P (ord mods) key_up (en_device_id en)
      (en_event_time_stamp en) (en_original_event en) s"
    using assms(2) by (simp_all add: post_from_mandatory_modifiers_key_up_def Let_def posted_def mods_def)
  have diff: "moe_key_up_posted_from_mandatory_modifiers m' - posted = mods"
    by (auto simp: m' mods_def)
  have opp: "flag_weight ev f key_up = - flag_weight ev f key_down" for ev f
    by (simp add: flag_weight_def modifier_weight_opposite)
  show "sends (en_time_stamp en) s s' (\<lambda>ev d. - (if d (en_device_id en)
         then (\<Sum>f\<in>moe_key_up_posted_from_mandatory_modifiers m' - moe_key_up_posted_from_mandatory_modifiers m.
                 flag_weight ev f key_down) else 0))"
    unfolding s' posted_def[symmetric] diff
    by (rule sends_eq[OF sends_lazy_events])
       (simp add: sum_list_ord[OF assms(1)] opp sum_negf)
  show "m' = m\<lparr>moe_key_up_posted_from_mandatory_modifiers := moe_key_up_posted_from_mandatory_modifiers m'\<rparr>"
    "moe_key_up_posted_from_mandatory_modifiers m \<subseteq> moe_key_up_posted_from_mandatory_modifiers m'"
    "moe_key_up_posted_from_mandatory_modifiers m' \<subseteq>
      moe_key_up_posted_from_mandatory_modifiers m \<union> moe_from_mandatory_modifiers m"
    by (auto simp: m' posted_def mods_def)
qed

lemma mandatory_key_down:
  assumes "flag_order_ok ord" "post_from_mandatory_modifiers_key_down P ord en (m, s) = (m', s')"
    and "moe_key_up_posted_from_mandatory_modifiers m \<subseteq> moe_from_mandatory_modifiers m"
  shows "sends (en_time_stamp en) s s'
      (\<lambda>ev d. if d (en_device_id en)
         then (\<Sum>f\<in>moe_key_up_posted_from_mandatory_modifiers m. flag_weight ev f key_down) else 0)"
    and "m' = m\<lparr>moe_key_up_posted_from_mandatory_modifiers := {}\<rparr>"
proof -
  have mods: "{f \<in> moe_from_mandatory_modifiers m. f \<in> moe_key_up_posted_from_mandatory_modifiers m} =
      moe_key_up_posted_from_mandatory_modifiers m"
    using assms(3) by blast
  have s': "s' = post_lazy_modifier_key_events P (ord (moe_key_up_posted_from_mandatory_modifiers m)) key_down
      (en_device_id en) (en_event_time_stamp en) (en_original_event en) s"
    using assms(2) by (simp add: post_from_mandatory_modifiers_key_down_def Let_def mods)
  show "sends (en_time_stamp en) s s' (\<lambda>ev d. if d (en_device_id en)
         then (\<Sum>f\<in>moe_key_up_posted_from_mandatory_modifiers m. flag_weight ev f key_down) else 0)"
    unfolding s' by (rule sends_eq[OF sends_lazy_events]) (simp add: sum_list_ord[OF assms(1)])
  show "m' = m\<lparr>moe_key_up_posted_from_mandatory_modifiers := {}\<rparr>"
    using assms(2) by (simp add: post_from_mandatory_modifiers_key_down_def Let_def mods)
qed

lemma sends_post_active_modifier_flags:
  "sends (en_time_stamp en) s (post_active_modifier_flags P en fs s)
     (\<lambda>ev d. \<Sum>f\<leftarrow>fs. if d (amf_device f)
        then flag_weight ev (amf_flag f) (if get_count f > 0 then key_down else key_up) else 0)"
  unfolding post_active_modifier_flags_def flag_weight_def by (rule sends_fold) (rule sends_lazy_modifier)

lemma get_count_restored:
  "get_count (make_active_modifier_flag (get_inverse_type (amf_type f)) (amf_flag f) (amf_device f)) = - get_count f"
  by (cases "amf_type f") (simp_all add: make_active_modifier_flag_def get_count_def)

lemma get_count_nonzero: "get_count f \<noteq> 0"
  by (cases "amf_type f") (simp_all add: get_count_def)

text \<open>The flags a trial pushes belong to device 0, and so do their inverses.\<close>

definition device_0 :: "active_modifier_flag list \<Rightarrow> bool" where
  "device_0 fs \<longleftrightarrow> (\<forall>f\<in>set fs. amf_device f = 0)"

lemma device_0_push: "device_0 (snd s) \<Longrightarrow> device_0 (snd (scoped_push (make_active_modifier_flag t m 0) s))"
  by (auto simp: device_0_def scoped_push_def make_active_modifier_flag_def)

lemma device_0_press:
  assumes "scoped_press m s = Some s'" shows "device_0 (snd s) \<longrightarrow> device_0 (snd s')"
proof (rule scoped_press.raw_induct[where P = "\<lambda>m s s'. device_0 (snd s) \<longrightarrow> device_0 (snd s')", OF _ assms])
  fix press m s s'
  assume IH: "\<And>m s s'. press m s = Some s' \<Longrightarrow> device_0 (snd s) \<longrightarrow> device_0 (snd s')"
    and step: "(if \<not> is_pressed m (fst s)
      then press m (scoped_push (make_active_modifier_flag increase m 0) s) else Some s) = Some s'"
  show "device_0 (snd s) \<longrightarrow> device_0 (snd s')"
  proof (cases "is_pressed m (fst s)")
    case True then show ?thesis using step by simp
  next
    case False
    then have "press m (scoped_push (make_active_modifier_flag increase m 0) s) = Some s'" using step by simp
    then show ?thesis using IH device_0_push by blast
  qed
qed

lemma device_0_release:
  assumes "device_0 (snd s)" shows "device_0 (snd (scoped_release m s))"
proof -
  have "device_0 (snd (foldl (\<lambda>s f. if amf_flag f = m
      then scoped_push (make_active_modifier_flag (get_inverse_type (amf_type f)) (amf_flag f) 0) s
      else s) s fs))" if "device_0 (snd s)" for s fs
    using that by (induction fs arbitrary: s) (simp_all add: device_0_push)
  then show ?thesis using assms by (simp add: scoped_release_def)
qed

lemma device_0_loop: "scoped_loop flags ms s = Some s' \<Longrightarrow> device_0 (snd s) \<Longrightarrow> device_0 (snd s')"
proof (induction ms arbitrary: s)
  case Nil then show ?case by simp
next
  case (Cons m ms)
  then obtain s1 where "scoped_step flags m s = Some s1" "scoped_loop flags ms s1 = Some s'"
    by (auto split: option.splits)
  then show ?case
    using Cons device_0_press device_0_release by (fastforce simp: scoped_step_def split: if_splits)
qed

lemma sends_inverse_flags:
  assumes "device_0 fs"
  shows "sends (en_time_stamp en) s
    (post_active_modifier_flags P en (get_inverse_active_modifier_flags fs) s)
    (\<lambda>ev d. - (\<Sum>f\<leftarrow>fs. if d (amf_device f)
       then flag_weight ev (amf_flag f) (if get_count f > 0 then key_down else key_up) else 0))"
proof (rule sends_eq[OF sends_post_active_modifier_flags])
  fix ev d
  let ?inv = "\<lambda>f. make_active_modifier_flag (get_inverse_type (amf_type f)) (amf_flag f) (amf_device f)"
  let ?w = "\<lambda>f. if d (amf_device f)
      then flag_weight ev (amf_flag f) (if get_count f > 0 then key_down else key_up) else 0"
  have "?w (?inv f) = - ?w f" if "f \<in> set fs" for f
  proof -
    have "amf_device f = 0" using assms that by (simp add: device_0_def)
    then have "amf_flag (?inv f) = amf_flag f" "amf_device (?inv f) = amf_device f"
      by (simp_all add: make_active_modifier_flag_def)
    then show ?thesis
      using get_count_nonzero[of f] by (auto simp: get_count_restored flag_weight_def modifier_weight_opposite)
  qed
  then have "map (\<lambda>f. ?w (?inv f)) fs = map (\<lambda>f. - ?w f) fs" by (intro map_cong refl)
  then show "(\<Sum>f\<leftarrow>get_inverse_active_modifier_flags fs. ?w f) = - (\<Sum>f\<leftarrow>fs. ?w f)"
    unfolding get_inverse_active_modifier_flags_def list.map_comp o_def sum_list_uminus[symmetric]
    by (rule arg_cong)
qed

lemma restorer_constructor_sends:
  assumes "restorer_constructor P en m s = Some (inverse_flags, s1)"
  obtains fs where "device_0 fs" "inverse_flags = get_inverse_active_modifier_flags fs"
    "\<And>ev d. balance ev d (drop (length (q_events (out_queue s))) (q_events (out_queue s1))) =
      (\<Sum>f\<leftarrow>fs. if d (amf_device f)
         then flag_weight ev (amf_flag f) (if get_count f > 0 then key_down else key_up) else 0)"
proof -
  obtain sc where sc: "scoped_modifier_flags (moe_key_down_modifier_flags m) (q_modifier_flags (out_queue s)) = Some sc"
      "inverse_flags = get_inverse_active_modifier_flags (snd sc)"
      "s1 = post_active_modifier_flags P en (snd sc)
        (fst s, fst (snd s), (out_queue s)\<lparr>q_modifier_flags := scoped_modifier_flags_destructor sc\<rparr>)"
    using assms by (auto simp: restorer_constructor_def Let_def split: option.splits)
  have "device_0 (snd sc)"
    using device_0_loop[of _ _ _ sc] sc(1) by (fastforce simp: scoped_modifier_flags_def device_0_def)
  moreover have "balance ev d (drop (length (q_events (out_queue s))) (q_events (out_queue s1))) =
      (\<Sum>f\<leftarrow>snd sc. if d (amf_device f)
         then flag_weight ev (amf_flag f) (if get_count f > 0 then key_down else key_up) else 0)" for ev d
  proof -
    let ?s0 = "(fst s, fst (snd s), (out_queue s)\<lparr>q_modifier_flags := scoped_modifier_flags_destructor sc\<rparr>)"
    from sends_post_active_modifier_flags[of en ?s0 P "snd sc"] obtain ens where
      "posts (en_time_stamp en) ?s0 ens s1"
      "balance ev d ens = (\<Sum>f\<leftarrow>snd sc. if d (amf_device f)
         then flag_weight ev (amf_flag f) (if get_count f > 0 then key_down else key_up) else 0)"
      by (auto simp: sends_def sc(3))
    moreover have "balance ev d (map (delay_entry x) es) = balance ev d es" for x es
      by (induction es) (simp_all add: balance_def delay_entry_def)
    ultimately show ?thesis by (simp add: posts_def queue_extends_def)
  qed
  ultimately show ?thesis using that sc(2) by blast
qed

subsection \<open>The entries a step appends\<close>

definition posted_entries :: "sender_output \<Rightarrow> sender_output \<Rightarrow> entry list" where
  "posted_entries s s' = drop (length (q_events (out_queue s))) (q_events (out_queue s'))"

lemma balance_delay [simp]: "balance ev d (map (delay_entry x) ens) = balance ev d ens"
  by (induction ens) (simp_all add: balance_def delay_entry_def)

lemma posts_posted_entries:
  assumes "posts t s ens s'"
  shows "posted_entries s s' = map (delay_entry (q_time_stamp_delay (out_queue s))) ens"
  using assms by (simp add: posted_entries_def posts_def queue_extends_def)

lemma sends_posted:
  assumes "sends t s s' b"
  shows "balance ev d (posted_entries s s') = b ev d"
    and "sorted_wrt (<) (map en_time_stamp (posted_entries s s'))"
    and "q_events (out_queue s') = q_events (out_queue s) @ posted_entries s s'"
proof -
  obtain ens where p: "posts t s ens s'" "\<forall>ev d. balance ev d ens = b ev d"
    using assms by (auto simp: sends_def)
  note e = posts_posted_entries[OF p(1)]
  show "balance ev d (posted_entries s s') = b ev d" using p(2) by (simp add: e)
  have "sorted_wrt (<) (map en_time_stamp ens)" using p(1) by (simp add: posts_def)
  then show "sorted_wrt (<) (map en_time_stamp (posted_entries s s'))"
    unfolding e by (simp add: delay_entry_def sorted_wrt_map)
  show "q_events (out_queue s') = q_events (out_queue s) @ posted_entries s s'"
    unfolding e using p(1) by (simp add: posts_def queue_extends_def)
qed

subsection \<open>Properties\<close>

text \<open>
  C12. What the press of a manipulated key sends is released again: for every event and device, the
  presses minus releases sent by the key down handler, plus those sent by the handler of the
  corresponding key up, are zero, whatever happens in between. So no key, button or modifier of
  the \<open>to\<close> definitions stays down, with or without \<open>halt\<close>, \<open>repeat\<close>, \<open>lazy\<close> and \<open>conditions\<close>.
\<close>

theorem to_events_are_released:
  assumes "\<forall>t\<in>set ts. hold_down_ok P t" "moe_events_at_key_up m = []"
    and "post_events_at_key_down P en ts (m, s) = (ts', m1, s1)"
    and "post_events_at_key_up P en2 (m1, s2) = (m2, s3)"
  shows "balance ev d (posted_entries s s1) + balance ev d (posted_entries s2 s3) = 0"
proof -
  have "balance ev d (posted_entries s s1) = pending ev d m - pending ev d m1"
    by (rule sends_posted(1)[OF sends_post_events_at_key_down[OF assms(1,3)]])
  moreover have "balance ev d (posted_entries s2 s3) = pending ev d m1"
    by (rule sends_posted(1)[OF sends_post_events_at_key_up(1)[OF assms(4)]])
  moreover have "pending ev d m = 0" using assms(2) by (simp add: pending_def)
  ultimately show ?thesis by simp
qed

definition sample_output :: sender_output where
  "sample_output = (0, world_initial, sample_queue)"

definition sample_moe :: manipulated_original_event where
  "sample_moe = make_manipulated_original_event {} {} 5 {}"

definition sample_to_a :: to_event_definition where
  "sample_to_a = (to_event_definition_default (Ed_momentary_switch_event (mse 7 4)))\<lparr>to_modifiers := {md_shift}\<rparr>"

text \<open>A press sends left shift, the key and the release of left shift; the release of the key is recorded.\<close>

theorem to_events_are_released_witness:
  "case post_events_at_key_down witness_platform (sample_key_entry (mse 7 5) key_down 5) [sample_to_a]
        (sample_moe, sample_output) of
     (_, m1, s1) \<Rightarrow>
       (case post_events_at_key_up witness_platform (sample_key_entry (mse 7 5) key_up 9) (m1, 0, snd s1) of
          (_, s3) \<Rightarrow>
            balance (Ev_momentary_switch_event (mse 7 4)) (\<lambda>d. d = 1) (posted_entries sample_output s1)
            + balance (Ev_momentary_switch_event (mse 7 4)) (\<lambda>d. d = 1) (posted_entries (0, snd s1) s3) = 0)"
proof -
  have "\<forall>t\<in>set [sample_to_a]. hold_down_ok witness_platform t" "moe_events_at_key_up sample_moe = []"
    by (simp_all add: sample_to_a_def to_event_definition_default_def hold_down_ok_def witness_platform_def
        sample_moe_def make_manipulated_original_event_def)
  from to_events_are_released[OF this] show ?thesis by (auto split: prod.split)
qed

text \<open>
  The key down handler only appends to the output queue, and the time stamps of what it appends
  are strictly increasing: a modifier goes down before its key and up after it also for the
  consumer that orders entries by time.
\<close>

theorem to_events_have_increasing_time_stamps:
  assumes "\<forall>t\<in>set ts. hold_down_ok P t" "post_events_at_key_down P en ts (m, s) = (ts', m1, s1)"
  shows "q_events (out_queue s1) = q_events (out_queue s) @ posted_entries s s1 \<and>
    sorted_wrt (<) (map en_time_stamp (posted_entries s s1))"
  using sends_posted(2,3)[OF sends_post_events_at_key_down[OF assms]] by blast

theorem to_events_have_increasing_time_stamps_witness:
  "case post_events_at_key_down witness_platform (sample_key_entry (mse 7 5) key_down 5) [sample_to_a]
        (sample_moe, sample_output) of
     (_, _, s1) \<Rightarrow> sorted_wrt (<) (map en_time_stamp (posted_entries sample_output s1))"
proof -
  have "\<forall>t\<in>set [sample_to_a]. hold_down_ok witness_platform t"
    by (simp_all add: sample_to_a_def to_event_definition_default_def hold_down_ok_def witness_platform_def)
  from to_events_have_increasing_time_stamps[OF this] show ?thesis by (auto split: prod.split)
qed

text \<open>
  Releasing the mandatory modifiers before the events of a manipulated key and pressing them
  afterwards is neutral: the presses restore exactly what the release took away, and the record
  is ready for the next round.
\<close>

theorem mandatory_modifiers_are_restored:
  assumes "flag_order_ok ord" "moe_key_up_posted_from_mandatory_modifiers m = {}"
    and "post_from_mandatory_modifiers_key_up P ord en (m, s) = (m1, s1)"
    and "moe_key_up_posted_from_mandatory_modifiers m2 = moe_key_up_posted_from_mandatory_modifiers m1"
    and "moe_from_mandatory_modifiers m2 = moe_from_mandatory_modifiers m1"
    and "post_from_mandatory_modifiers_key_down P ord en (m2, s2) = (m3, s3)"
  shows "balance ev d (posted_entries s s1) + balance ev d (posted_entries s2 s3) = 0 \<and>
    moe_key_up_posted_from_mandatory_modifiers m3 = {}"
proof -
  note up = mandatory_key_up[OF assms(1,3)]
  have "moe_from_mandatory_modifiers m1 = moe_from_mandatory_modifiers m" by (subst up(2)) simp
  then have "moe_key_up_posted_from_mandatory_modifiers m2 \<subseteq> moe_from_mandatory_modifiers m2"
    using up(4) assms(2,4,5) by simp
  note down = mandatory_key_down[OF assms(1,6) this]
  have "moe_key_up_posted_from_mandatory_modifiers m3 = {}" by (subst down(2)) simp
  then show ?thesis
    using sends_posted(1)[OF up(1), of ev d] sends_posted(1)[OF down(1), of ev d] assms(2,4) by simp
qed

definition enumeration_order :: flag_order where
  "enumeration_order S = filter (\<lambda>f. f \<in> S) (mf_zero # mf_end # all_modifier_flags)"

lemma enumeration_order_ok [simp]: "flag_order_ok enumeration_order"
  unfolding flag_order_ok_def
proof (intro allI conjI)
  fix S
  have all: "set (mf_zero # mf_end # all_modifier_flags) = UNIV" using set_all_modifier_flags by auto
  show "distinct (enumeration_order S)"
    unfolding enumeration_order_def by (rule distinct_filter) (simp add: all_modifier_flags_def)
  show "set (enumeration_order S) = S"
    unfolding enumeration_order_def set_filter all by simp
qed

theorem mandatory_modifiers_are_restored_witness:
  "case post_from_mandatory_modifiers_key_up witness_platform enumeration_order
        (sample_key_entry (mse 7 5) key_down 5)
        (make_manipulated_original_event {} {mf_right_shift} 5 {mf_right_shift},
         0, world_initial, sample_queue\<lparr>q_modifier_flags := sample_shift_pressed\<rparr>) of
     (m1, s1) \<Rightarrow>
       moe_key_up_posted_from_mandatory_modifiers
         (fst (post_from_mandatory_modifiers_key_down witness_platform enumeration_order
                 (sample_key_entry (mse 7 5) key_down 5) (m1, s1))) = {}"
proof -
  let ?m = "make_manipulated_original_event {} {mf_right_shift} 5 {mf_right_shift}"
  let ?s = "(0, world_initial, sample_queue\<lparr>q_modifier_flags := sample_shift_pressed\<rparr>)"
  let ?en = "sample_key_entry (mse 7 5) key_down 5"
  obtain m1 s1 where up: "post_from_mandatory_modifiers_key_up witness_platform enumeration_order ?en (?m, ?s) = (m1, s1)"
    by (metis prod.collapse)
  obtain m3 s3 where down: "post_from_mandatory_modifiers_key_down witness_platform enumeration_order ?en (m1, s1) = (m3, s3)"
    by (metis prod.collapse)
  have "moe_key_up_posted_from_mandatory_modifiers ?m = {}" by (simp add: make_manipulated_original_event_def)
  from mandatory_modifiers_are_restored[OF enumeration_order_ok this up refl refl down]
  show ?thesis by (simp add: up down)
qed

text \<open>
  The extra events (\<open>to_if_alone\<close>, \<open>to_after_key_up\<close>, the delayed actions) are complete
  key strokes: what they press they release, and they leave nothing for the release of the key.
\<close>

theorem extra_to_events_are_key_strokes:
  assumes "\<forall>t\<in>set ts. hold_down_ok P t" "post_extra_to_events P en ts (m, s) = (ts', m', s')"
  shows "balance ev d (posted_entries s s') = 0 \<and> moe_events_at_key_up m' = moe_events_at_key_up m"
  using sends_posted(1)[OF sends_post_extra_to_events(1)[OF assms]] sends_post_extra_to_events(2)[OF assms]
  by simp

theorem extra_to_events_are_key_strokes_witness:
  "case post_extra_to_events witness_platform (sample_key_entry (mse 7 5) key_up 5) [sample_to_a]
        (sample_moe, sample_output) of
     (_, _, s') \<Rightarrow> balance (Ev_momentary_switch_event (mse 7 4)) (\<lambda>d. d = 1) (posted_entries sample_output s') = 0"
proof -
  have "\<forall>t\<in>set [sample_to_a]. hold_down_ok witness_platform t"
    by (simp_all add: sample_to_a_def to_event_definition_default_def hold_down_ok_def witness_platform_def)
  from extra_to_events_are_key_strokes[OF this] show ?thesis by (auto split: prod.split)
qed

text \<open>
  The restorer that \<open>to_if_alone\<close> uses is neutral: the key events its destructor sends undo the
  ones its constructor sent to put the modifiers into their state at the key press.
\<close>

theorem modifier_state_restorer_is_neutral:
  assumes "restorer_constructor P en m s = Some (inverse_flags, s1)"
  shows "balance ev d (posted_entries s s1)
    + balance ev d (posted_entries s2 (restorer_destructor P en inverse_flags s2)) = 0"
proof -
  obtain fs where fs: "device_0 fs" "inverse_flags = get_inverse_active_modifier_flags fs"
    "balance ev d (posted_entries s s1) = (\<Sum>f\<leftarrow>fs. if d (amf_device f)
         then flag_weight ev (amf_flag f) (if get_count f > 0 then key_down else key_up) else 0)"
    by (rule restorer_constructor_sends[OF assms]) (auto simp: posted_entries_def)
  then show ?thesis
    using sends_posted(1)[OF sends_inverse_flags[OF fs(1), of en s2 P], of ev d]
    by (simp add: restorer_destructor_def)
qed

text \<open>With right shift pressed and a key that was pressed without modifiers, shift is released and pressed again.\<close>

theorem modifier_state_restorer_is_neutral_witness:
  "case restorer_constructor witness_platform (sample_key_entry (mse 7 5) key_up 5) sample_moe
      (0, world_initial, sample_queue\<lparr>q_modifier_flags := sample_shift_pressed\<rparr>) of
     None \<Rightarrow> False
   | Some (inverse_flags, s1) \<Rightarrow>
       balance (Ev_momentary_switch_event (mse_of_modifier_flag mf_right_shift)) (\<lambda>d. d = 0)
         (posted_entries (0, world_initial, sample_queue\<lparr>q_modifier_flags := sample_shift_pressed\<rparr>) s1)
       + balance (Ev_momentary_switch_event (mse_of_modifier_flag mf_right_shift)) (\<lambda>d. d = 0)
           (posted_entries s1 (restorer_destructor witness_platform (sample_key_entry (mse 7 5) key_up 5) inverse_flags s1))
       = 0"
proof -
  have fs: "foldl mfm_step [] [Push_back increase mf_right_shift 1] = sample_shift_pressed"
    "no_key_locks sample_shift_pressed"
    by code_simp+
  have "mfm_inv sample_shift_pressed"
    using mfm_run_refines[of "[]" "[Push_back increase mf_right_shift 1]"] unfolding fs(1) by simp
  from scoped_modifier_flags_reaches[OF this fs(2)] obtain sc where
    "scoped_modifier_flags {} sample_shift_pressed = Some sc" by blast
  then obtain inverse_flags s1 where
    c: "restorer_constructor witness_platform (sample_key_entry (mse 7 5) key_up 5) sample_moe
      (0, world_initial, sample_queue\<lparr>q_modifier_flags := sample_shift_pressed\<rparr>) = Some (inverse_flags, s1)"
    by (simp add: restorer_constructor_def sample_moe_def make_manipulated_original_event_def Let_def)
  from modifier_state_restorer_is_neutral[OF this] show ?thesis by (simp add: c)
qed

end
