(* ===== verification/Basic.thy ===== *)
theory Basic
  imports Event_Sender
begin

text \<open>
  \<open>src/share/manipulator/manipulators/basic/basic.hpp\<close> with \<open>to_if_held_down.hpp\<close> and
  \<open>to_delayed_action.hpp\<close>: the manipulator of \<open>complex_modifications\<close> and \<open>simple_modifications\<close>.

  The records of manipulated keys are shared between the manipulator's vector and its two timers,
  so they live in a heap (\<open>b_heap\<close>, indexed by creation order) and are referred to by index. A
  callback handed to the dispatcher is a pending pair of the id that was current and the delay; the
  dispatcher may run it at any later time, once. Waking up the consumer through
  \<open>krbn_notification_center\<close> is not modelled.
\<close>

type_synonym moe_id = nat

record to_if_held_down =
  hd_to :: "to_event_definition list"
  hd_front_input_event :: "entry option"
  hd_current_manipulated_original_event :: "moe_id option"
  hd_current_held_down_id :: int
  hd_pending :: "(int \<times> milliseconds) list"

record to_delayed_action =
  da_to_if_invoked :: "to_event_definition list"
  da_to_if_canceled :: "to_event_definition list"
  da_front_input_event :: "entry option"
  da_current_manipulated_original_event :: "moe_id option"
  da_current_delayed_action_id :: int
  da_pending :: "(int \<times> milliseconds) list"

record basic_parameters =
  bp_simultaneous_threshold_milliseconds :: milliseconds
  bp_to_if_alone_timeout_milliseconds :: milliseconds
  bp_to_if_held_down_threshold_milliseconds :: milliseconds
  bp_to_delayed_action_delay_milliseconds :: milliseconds

record basic =
  b_validity :: validity
  b_conditions :: "condition list"
  b_parameters :: basic_parameters
  b_from :: from_event_definition
  b_to :: "to_event_definition list"
  b_to_after_key_up :: "to_event_definition list"
  b_to_if_alone :: "to_event_definition list"
  b_to_if_held_down :: "to_if_held_down option"
  b_to_delayed_action :: "to_delayed_action option"
  b_manipulated_original_events :: "moe_id list"
  b_heap :: "manipulated_original_event list"

datatype manipulate_result = mr_passed | mr_manipulated | mr_needs_wait_until_time_stamp

definition update_moe ::
    "moe_id \<Rightarrow> (manipulated_original_event \<Rightarrow> manipulated_original_event) \<Rightarrow> basic \<Rightarrow> basic" where
  "update_moe i f b = b\<lparr>b_heap := (b_heap b)[i := f (b_heap b ! i)]\<rparr>"

text \<open>The objects a smart pointer keeps alive.\<close>

definition moe_alive :: "basic \<Rightarrow> moe_id \<Rightarrow> bool" where
  "moe_alive b i \<longleftrightarrow>
     i \<in> set (b_manipulated_original_events b)
     \<or> (case b_to_delayed_action b of
          None \<Rightarrow> False | Some a \<Rightarrow> da_current_manipulated_original_event a = Some i)"

subsection \<open>to_if_held_down\<close>

definition held_down_setup ::
    "platform \<Rightarrow> entry \<Rightarrow> moe_id \<Rightarrow> milliseconds \<Rightarrow> to_if_held_down \<Rightarrow> to_if_held_down" where
  "held_down_setup P en i threshold h =
     (let h1 = h\<lparr>hd_current_held_down_id := hd_current_held_down_id h + 1\<rparr>
      in if en_event_type en \<noteq> key_down \<or> hd_to h = [] then h1
         else h1\<lparr>hd_front_input_event := Some en, hd_current_manipulated_original_event := Some i,
                 hd_pending := hd_pending h @
                   [(hd_current_held_down_id h1,
                     pf_make_milliseconds P (pf_make_absolute_time_duration P threshold))]\<rparr>)"

definition held_down_cancel :: "entry \<Rightarrow> to_if_held_down \<Rightarrow> to_if_held_down" where
  "held_down_cancel en h =
     (if en_event_type en \<noteq> key_down then h
      else h\<lparr>hd_current_held_down_id := hd_current_held_down_id h + 1\<rparr>)"

text \<open>The callback: the events of \<open>to\<close> are released and those of \<open>to_if_held_down\<close> are sent.\<close>

definition held_down_fire ::
    "platform \<Rightarrow> flag_order \<Rightarrow> int \<Rightarrow> basic \<Rightarrow> world \<times> event_queue \<Rightarrow> basic \<times> world \<times> event_queue" where
  "held_down_fire P ord held_down_id b s =
     (case b_to_if_held_down b of
        None \<Rightarrow> (b, s)
      | Some h \<Rightarrow>
          (if hd_current_held_down_id h \<noteq> held_down_id then (b, s)
           else case (hd_front_input_event h, hd_current_manipulated_original_event h) of
                  (Some en, Some i) \<Rightarrow>
                    (if \<not> moe_alive b i then (b, s)
                     else
                       (let ms1 = post_events_at_key_up P en (b_heap b ! i, 0, s);
                            ms2 = post_from_mandatory_modifiers_key_down P ord en ms1;
                            ms3 = post_from_mandatory_modifiers_key_up P ord en ms2;
                            (to', ms4) = post_events_at_key_down P en (hd_to h) ms3;
                            ms5 = (if \<not> is_last_to_event_modifier_key_event (hd_to h)
                                   then post_from_mandatory_modifiers_key_down P ord en ms4 else ms4)
                        in ((update_moe i (\<lambda>_. fst ms5) b)\<lparr>b_to_if_held_down := Some (h\<lparr>hd_to := to'\<rparr>)\<rparr>,
                            snd (snd ms5))))
                | _ \<Rightarrow> (b, s)))"

subsection \<open>to_delayed_action\<close>

definition delayed_action_setup ::
    "platform \<Rightarrow> entry \<Rightarrow> moe_id \<Rightarrow> milliseconds \<Rightarrow> to_delayed_action \<Rightarrow> to_delayed_action" where
  "delayed_action_setup P en i delay a =
     (if en_event_type en \<noteq> key_down then a
      else if da_to_if_invoked a = [] \<and> da_to_if_canceled a = [] then a
      else (let n = da_current_delayed_action_id a + 1
            in a\<lparr>da_current_delayed_action_id := n, da_front_input_event := Some en,
                 da_current_manipulated_original_event := Some i,
                 da_pending := da_pending a @
                   [(n, pf_make_milliseconds P (pf_make_absolute_time_duration P delay))]\<rparr>))"

text \<open>\<open>post_events\<close> for the record \<open>m\<close>; \<open>None\<close> when the restorer does not end.\<close>

definition delayed_action_send ::
    "platform \<Rightarrow> flag_order \<Rightarrow> to_event_definition list \<Rightarrow> entry \<Rightarrow> manipulated_original_event \<Rightarrow>
     world \<times> event_queue \<Rightarrow>
     (to_event_definition list \<times> manipulated_original_event \<times> world \<times> event_queue) option" where
  "delayed_action_send P ord events en m s =
     (case restorer_constructor P en m (0, s) of
        None \<Rightarrow> None
      | Some (inverse_flags, s1) \<Rightarrow>
          (let post = (\<lambda>t s. post_lazy_modifier_key_events P (ord (moe_from_mandatory_modifiers m)) t
                               (en_device_id en) (en_event_time_stamp en) (en_original_event en) s);
               s2 = post key_up s1;
               (events', m', s3) = post_extra_to_events P en events (m, s2);
               s4 = post key_down s3
           in Some (events', m', snd (restorer_destructor P en inverse_flags s4))))"

definition delayed_action_post_events ::
    "platform \<Rightarrow> flag_order \<Rightarrow> bool \<Rightarrow> to_delayed_action \<Rightarrow> basic \<Rightarrow> world \<times> event_queue \<Rightarrow>
     (basic \<times> world \<times> event_queue) option" where
  "delayed_action_post_events P ord invoked a b s =
     (case (da_front_input_event a, da_current_manipulated_original_event a) of
        (Some en, Some i) \<Rightarrow>
          (case delayed_action_send P ord (if invoked then da_to_if_invoked a else da_to_if_canceled a)
                  en (b_heap b ! i) s of
             None \<Rightarrow> None
           | Some (events', m', s') \<Rightarrow>
               (let a' = (if invoked then a\<lparr>da_to_if_invoked := events'\<rparr>
                          else a\<lparr>da_to_if_canceled := events'\<rparr>)
                in Some ((update_moe i (\<lambda>_. m') b)
                           \<lparr>b_to_delayed_action := Some (a'\<lparr>da_current_manipulated_original_event := None\<rparr>)\<rparr>,
                         s')))
      | _ \<Rightarrow> Some (b\<lparr>b_to_delayed_action := Some (a\<lparr>da_current_manipulated_original_event := None\<rparr>)\<rparr>, s))"

definition delayed_action_cancel ::
    "platform \<Rightarrow> flag_order \<Rightarrow> entry \<Rightarrow> basic \<Rightarrow> world \<times> event_queue \<Rightarrow> (basic \<times> world \<times> event_queue) option" where
  "delayed_action_cancel P ord en b s =
     (case b_to_delayed_action b of
        None \<Rightarrow> Some (b, s)
      | Some a \<Rightarrow>
          (if en_event_type en \<noteq> key_down then Some (b, s)
           else delayed_action_post_events P ord False
                  (a\<lparr>da_current_delayed_action_id := da_current_delayed_action_id a + 1\<rparr>) b s))"

definition delayed_action_fire ::
    "platform \<Rightarrow> flag_order \<Rightarrow> int \<Rightarrow> basic \<Rightarrow> world \<times> event_queue \<Rightarrow> (basic \<times> world \<times> event_queue) option" where
  "delayed_action_fire P ord delayed_action_id b s =
     (case b_to_delayed_action b of
        None \<Rightarrow> Some (b, s)
      | Some a \<Rightarrow>
          (if da_current_delayed_action_id a \<noteq> delayed_action_id then Some (b, s)
           else delayed_action_post_events P ord True a b s))"

subsection \<open>The events of the input queue that make up a simultaneous press\<close>

definition all_from_events_found :: "from_event_definition \<Rightarrow> from_event set \<Rightarrow> bool" where
  "all_from_events_found f froms \<longleftrightarrow>
     list_all (\<lambda>d. \<exists>fe\<in>froms. test_event (fe_event fe) d) (from_event_definitions f)"

record scan_state =
  sc_is_target :: bool
  sc_from_events :: "from_event set"
  sc_key_down_events :: "event list"
  sc_key_up_events :: "event list"

definition scan_entry :: "from_event_definition \<Rightarrow> entry \<Rightarrow> scan_state \<Rightarrow> scan_state" where
  "scan_entry f en s =
     (case en_event_type en of
        key_down \<Rightarrow>
          (if test_from_event (en_event en) f
           then (if \<forall>fe\<in>sc_from_events s. fe_event fe \<noteq> en_event en
                 then s\<lparr>sc_from_events := insert (from_event_of en) (sc_from_events s),
                        sc_key_down_events := sc_key_down_events s @ [en_event en]\<rparr>
                 else s)
           else if \<not> so_detect_key_down_uninterruptedly (from_simultaneous_options f)
                   \<and> \<not> all_from_events_found f (sc_from_events s)
                then s\<lparr>sc_is_target := False\<rparr> else s)
      | key_up \<Rightarrow>
          (if from_event_of en \<in> sc_from_events s
           then (if \<not> all_from_events_found f (sc_from_events s) then s\<lparr>sc_is_target := False\<rparr>
                 else if list_all (\<lambda>e. e \<noteq> en_event en) (sc_key_up_events s)
                      then s\<lparr>sc_key_up_events := sc_key_up_events s @ [en_event en]\<rparr> else s)
           else s)
      | single \<Rightarrow> s)"

fun scan_entries ::
    "from_event_definition \<Rightarrow> absolute_time_point \<Rightarrow> entry list \<Rightarrow> scan_state \<Rightarrow> scan_state" where
  "scan_entries f end_time [] s = s"
| "scan_entries f end_time (en # ens) s =
     (if \<not> sc_is_target s then s
      else if en_validity en = invalid then scan_entries f end_time ens s
      else if end_time < en_time_stamp en then s
      else scan_entries f end_time ens (scan_entry f en s))"

subsection \<open>manipulate\<close>

definition unset_alone_if_needed :: "event \<Rightarrow> event_type \<Rightarrow> basic \<Rightarrow> basic" where
  "unset_alone_if_needed ev t b =
     (let run = (case ev of
                   Ev_momentary_switch_event _ \<Rightarrow> t = key_down
                 | Ev_pointing_motion m \<Rightarrow> pm_vertical_wheel m \<noteq> 0 \<or> pm_horizontal_wheel m \<noteq> 0
                 | _ \<Rightarrow> False)
      in if run then foldl (\<lambda>b i. update_moe i unset_alone b) b (b_manipulated_original_events b) else b)"

definition basic_already_manipulated :: "entry \<Rightarrow> basic \<Rightarrow> bool" where
  "basic_already_manipulated en b \<longleftrightarrow>
     en_event_type en = key_down
     \<and> list_ex (\<lambda>i. from_event_exists (from_event_of en) (b_heap b ! i)) (b_manipulated_original_events b)"

datatype key_down_verdict = Kd_not_target | Kd_wait | Kd_target "from_event set" "modifier_flag set"

text \<open>
  The decision for a key down event. The front event may get an input delay, the conditions are
  evaluated on the output queue, and a stop of the keyboard repeat is posted when the
  decision has to wait.
\<close>

definition decide_key_down ::
    "platform \<Rightarrow> absolute_time_point \<Rightarrow> entry \<Rightarrow> entry list \<Rightarrow> basic \<Rightarrow> world \<times> event_queue \<Rightarrow>
     key_down_verdict \<times> entry \<times> basic \<times> world \<times> event_queue" where
  "decide_key_down P now en entries b s =
     (if b_validity b = invalid then (Kd_not_target, en, b, s)
      else case test_modifiers (q_modifier_flags (snd s)) (from_modifiers (b_from b)) of
             None \<Rightarrow> (Kd_not_target, en, b, s)
           | Some mandatory \<Rightarrow>
      (case condition_manager_is_fulfilled P en (b_conditions b) (fst s, q_environment (snd s)) of
         (fulfilled, cs, w, env) \<Rightarrow>
      (let b1 = b\<lparr>b_conditions := cs\<rparr>;
           s1 = (w, (snd s)\<lparr>q_environment := env\<rparr>);
           f = b_from b;
           so = from_simultaneous_options f;
           threshold = pf_make_absolute_time_duration P
             (bp_simultaneous_threshold_milliseconds (b_parameters b));
           sc = scan_entries f (en_time_stamp en + threshold) entries
             \<lparr>sc_is_target = fulfilled, sc_from_events = {}, sc_key_down_events = [], sc_key_up_events = []\<rparr>;
           found = all_from_events_found f (sc_from_events sc);
           ordered_up = test_key_order (sc_key_up_events sc) (so_key_up_order so) (from_event_definitions f);
           needs_wait_key_up = (so_key_up_order so \<noteq> insensitive
             \<and> length (sc_key_up_events sc) < length (from_event_definitions f) - 1)
       in if \<not> sc_is_target sc \<or> sc_from_events sc = {}
             \<or> \<not> test_key_order (sc_key_down_events sc) (so_key_down_order so) (from_event_definitions f)
             \<or> \<not> ordered_up
          then (Kd_not_target, en, b1, s1)
          else if needs_wait_key_up \<or> \<not> found
          then (let ets = en_event_time_stamp en;
                    ets' = ets\<lparr>ets_input_delay_duration := max (ets_input_delay_duration ets) threshold\<rparr>;
                    en' = en\<lparr>en_event_time_stamp := ets'\<rparr>
                in if now < make_time_stamp_with_input_delay ets'
                   then (Kd_wait, en', b1,
                         emplace_back_entry P
                           (make_entry (en_device_id en) ets' Ev_stop_keyboard_repeat single
                              (en_original_event en) st_virtual_event True) s1)
                   else if \<not> found then (Kd_not_target, en', b1, s1)
                   else (Kd_target (sc_from_events sc) mandatory, en', b1, s1))
          else (Kd_target (sc_from_events sc) mandatory, en, b1, s1))))"

definition push_manipulated_original_event :: "manipulated_original_event \<Rightarrow> basic \<Rightarrow> moe_id \<times> basic" where
  "push_manipulated_original_event m b =
     (length (b_heap b),
      b\<lparr>b_manipulated_original_events := b_manipulated_original_events b @ [length (b_heap b)],
        b_heap := b_heap b @ [m]\<rparr>)"

text \<open>
  The record a key up event belongs to: the from event is erased from it, and a record without
  from events leaves the vector.
\<close>

definition take_manipulated_original_event :: "entry \<Rightarrow> basic \<Rightarrow> (moe_id \<times> basic) option" where
  "take_manipulated_original_event en b =
     (case find (\<lambda>i. from_event_exists (from_event_of en) (b_heap b ! i)) (b_manipulated_original_events b) of
        None \<Rightarrow> None
      | Some i \<Rightarrow>
          (let b1 = update_moe i (erase_from_event (from_event_of en)) b
           in Some (i, if moe_from_events (b_heap b1 ! i) = {}
                       then b1\<lparr>b_manipulated_original_events := remove1 i (b_manipulated_original_events b1)\<rparr>
                       else b1)))"

subsection \<open>Sending the events of a manipulated key\<close>

definition send_key_down ::
    "platform \<Rightarrow> flag_order \<Rightarrow> entry \<Rightarrow> moe_id \<Rightarrow> basic \<Rightarrow> sender_output \<Rightarrow> basic \<times> sender_output" where
  "send_key_down P ord en i b s =
     (let ms1 = post_from_mandatory_modifiers_key_up P ord en (b_heap b ! i, s);
          (to', ms2) = post_events_at_key_down P en (b_to b) ms1;
          ms3 = (if \<not> is_last_to_event_modifier_key_event (b_to b)
                 then post_from_mandatory_modifiers_key_down P ord en ms2 else ms2)
      in ((update_moe i (\<lambda>_. fst ms3) b)\<lparr>b_to := to'\<rparr>, snd ms3))"

text \<open>Extra events between the release and the press of the mandatory modifiers.\<close>

definition send_extra ::
    "platform \<Rightarrow> flag_order \<Rightarrow> entry \<Rightarrow> to_event_definition list \<Rightarrow>
     manipulated_original_event \<times> sender_output \<Rightarrow>
     to_event_definition list \<times> manipulated_original_event \<times> sender_output" where
  "send_extra P ord en ts ms =
     (let ms1 = post_from_mandatory_modifiers_key_up P ord en ms;
          (ts', ms2) = post_extra_to_events P en ts ms1
      in (ts', post_from_mandatory_modifiers_key_down P ord en ms2))"

definition send_if_alone ::
    "platform \<Rightarrow> flag_order \<Rightarrow> entry \<Rightarrow> basic_parameters \<Rightarrow> to_event_definition list \<Rightarrow>
     manipulated_original_event \<times> sender_output \<Rightarrow>
     (to_event_definition list \<times> manipulated_original_event \<times> sender_output) option" where
  "send_if_alone P ord en ps ts ms =
     (let duration = pf_make_milliseconds P (en_time_stamp en - moe_key_down_time_stamp (fst ms))
      in if ts \<noteq> [] \<and> moe_alone (fst ms) \<and> duration < bp_to_if_alone_timeout_milliseconds ps
         then (case restorer_constructor P en (fst ms) (snd ms) of
                 None \<Rightarrow> None
               | Some (inverse_flags, s1) \<Rightarrow>
                   (case send_extra P ord en ts (fst ms, s1) of
                      (ts', m', s2) \<Rightarrow> Some (ts', m', restorer_destructor P en inverse_flags s2)))
         else Some (ts, ms))"

definition send_key_up ::
    "platform \<Rightarrow> flag_order \<Rightarrow> entry \<Rightarrow> moe_id \<Rightarrow> basic \<Rightarrow> sender_output \<Rightarrow> (basic \<times> sender_output) option" where
  "send_key_up P ord en i b s =
     (let m = b_heap b ! i;
          so = from_simultaneous_options (b_from b)
      in if so_key_up_when so = key_up_when_all \<and> moe_from_events m \<noteq> {} then Some (b, s)
         else
           (case (if moe_key_up_posted m then Some (b_to_if_alone b, b_to_after_key_up b, m, s)
                  else
                    (let ms1 = post_events_at_key_up P en (set_key_up_posted True m, s);
                         ms2 = post_from_mandatory_modifiers_key_down P ord en ms1
                     in case send_if_alone P ord en (b_parameters b) (b_to_if_alone b) ms2 of
                          None \<Rightarrow> None
                        | Some (alone', ms3) \<Rightarrow>
                            (if b_to_after_key_up b \<noteq> []
                             then (case send_extra P ord en (b_to_after_key_up b) ms3 of
                                     (after', ms4) \<Rightarrow> Some (alone', after', ms4))
                             else Some (alone', b_to_after_key_up b, ms3)))) of
              None \<Rightarrow> None
            | Some (alone', after', ms) \<Rightarrow>
                (let (so_after', ms') =
                       (if so_to_after_key_up so \<noteq> [] \<and> moe_from_events (fst ms) = {}
                        then send_extra P ord en (so_to_after_key_up so) ms
                        else (so_to_after_key_up so, ms))
                 in Some ((update_moe i (\<lambda>_. fst ms') b)
                            \<lparr>b_to_if_alone := alone', b_to_after_key_up := after',
                             b_from := (b_from b)\<lparr>from_simultaneous_options := so\<lparr>so_to_after_key_up := so_after'\<rparr>\<rparr>\<rparr>,
                          snd ms'))))"

text \<open>The setup of the timers and the delay of the output queue, after the events have been sent.\<close>

definition finish_manipulated ::
    "platform \<Rightarrow> entry \<Rightarrow> moe_id \<Rightarrow> basic \<Rightarrow> sender_output \<Rightarrow> basic \<times> world \<times> event_queue" where
  "finish_manipulated P en i b s =
     (let ps = b_parameters b;
          b1 = b\<lparr>b_to_if_held_down :=
                   map_option (held_down_setup P en i (bp_to_if_held_down_threshold_milliseconds ps))
                     (b_to_if_held_down b),
                 b_to_delayed_action :=
                   map_option (delayed_action_setup P en i (bp_to_delayed_action_delay_milliseconds ps))
                     (b_to_delayed_action b)\<rparr>
      in (b1, fst (snd s),
          if fst s > 0 then increase_time_stamp_delay (fst s - 1) (out_queue s) else out_queue s))"

text \<open>
  \<open>manipulate\<close> for a live output queue. The result is the manipulate result, the front input event
  (whose validity and input delay it may change), the manipulator and the output queue.
\<close>

definition basic_manipulate ::
    "platform \<Rightarrow> flag_order \<Rightarrow> absolute_time_point \<Rightarrow> entry \<Rightarrow> entry list \<Rightarrow> basic \<Rightarrow>
     world \<times> event_queue \<Rightarrow> (manipulate_result \<times> entry \<times> basic \<times> world \<times> event_queue) option" where
  "basic_manipulate P ord now en entries b s =
     (let b1 = unset_alone_if_needed (en_event en) (en_event_type en) b;
          b2 = b1\<lparr>b_to_if_held_down := map_option (held_down_cancel en) (b_to_if_held_down b1)\<rparr>
      in case delayed_action_cancel P ord en b2 s of
           None \<Rightarrow> None
         | Some (b3, s3) \<Rightarrow>
      (if en_validity en = invalid \<or> \<not> test_from_event (en_event en) (b_from b3)
       then Some (mr_passed, en, b3, s3)
       else case en_event_type en of
         key_down \<Rightarrow>
           (case decide_key_down P now en entries b3 s3 of
              (Kd_not_target, en', b4, s4) \<Rightarrow> Some (mr_passed, en', b4, s4)
            | (Kd_wait, en', b4, s4) \<Rightarrow> Some (mr_needs_wait_until_time_stamp, en', b4, s4)
            | (Kd_target froms mandatory, en', b4, s4) \<Rightarrow>
                (let (i, b5) = push_manipulated_original_event
                       (make_manipulated_original_event froms mandatory (en_time_stamp en')
                          (make_modifier_flags (q_modifier_flags (snd s4)))) b4;
                     en'' = en'\<lparr>en_validity := invalid\<rparr>;
                     (b6, s6) = send_key_down P ord en'' i b5 (0, s4)
                 in Some (mr_manipulated, en'', finish_manipulated P en'' i b6 s6)))
       | key_up \<Rightarrow>
           (case take_manipulated_original_event en b3 of
              None \<Rightarrow> Some (mr_passed, en, b3, s3)
            | Some (i, b5) \<Rightarrow>
                (let en' = en\<lparr>en_validity := invalid\<rparr>
                 in case send_key_up P ord en' i b5 (0, s3) of
                      None \<Rightarrow> None
                    | Some (b6, s6) \<Rightarrow> Some (mr_manipulated, en', finish_manipulated P en' i b6 s6)))
       | single \<Rightarrow> Some (mr_passed, en, b3, s3)))"

subsection \<open>The other operations\<close>

definition basic_active :: "basic \<Rightarrow> bool" where
  "basic_active b \<longleftrightarrow> b_manipulated_original_events b \<noteq> []"

definition basic_needs_virtual_hid_pointing :: "basic \<Rightarrow> bool" where
  "basic_needs_virtual_hid_pointing b \<longleftrightarrow>
     list_ex to_needs_virtual_hid_pointing (b_to b @ b_to_after_key_up b @ b_to_if_alone b)
     \<or> (case b_to_if_held_down b of None \<Rightarrow> False | Some h \<Rightarrow> list_ex to_needs_virtual_hid_pointing (hd_to h))
     \<or> (case b_to_delayed_action b of
          None \<Rightarrow> False
        | Some a \<Rightarrow> list_ex to_needs_virtual_hid_pointing (da_to_if_invoked a @ da_to_if_canceled a))"

definition basic_handle_device_ungrabbed_event :: "device_id \<Rightarrow> basic \<Rightarrow> basic" where
  "basic_handle_device_ungrabbed_event d b =
     (let b1 = foldl (\<lambda>b i. update_moe i (erase_from_events_by_device_id d) b) b
                 (b_manipulated_original_events b)
      in b1\<lparr>b_manipulated_original_events :=
              erase_if (\<lambda>i. moe_from_events (b_heap b1 ! i) = {}) (b_manipulated_original_events b1)\<rparr>)"

definition basic_handle_pointing_device_event_from_event_tap :: "entry \<Rightarrow> basic \<Rightarrow> basic" where
  "basic_handle_pointing_device_event_from_event_tap en b =
     unset_alone_if_needed (en_original_event en) (en_event_type en) b"

text \<open>
  The verdict of \<open>decide_key_down\<close> in terms of the answers of the modifiers, the conditions and the
  scan, which the lemmas about it leave open.
\<close>

lemma decide_key_down_shape:
  assumes "b_validity b \<noteq> invalid"
    and "test_modifiers (q_modifier_flags (snd s)) (from_modifiers (b_from b)) = Some mandatory"
    and "condition_manager_is_fulfilled P en (b_conditions b) (fst s, q_environment (snd s)) = (fulfilled, cs, w, env)"
    and "ets = (en_event_time_stamp en)\<lparr>ets_input_delay_duration :=
      max (ets_input_delay_duration (en_event_time_stamp en))
        (pf_make_absolute_time_duration P (bp_simultaneous_threshold_milliseconds (b_parameters b)))\<rparr>"
    and "b1 = b\<lparr>b_conditions := cs\<rparr>" "s1 = (w, (snd s)\<lparr>q_environment := env\<rparr>)"
  shows "\<exists>A B D froms. decide_key_down P now en entries b s =
    (if A then (Kd_not_target, en, b1, s1)
     else if B
     then (if now < make_time_stamp_with_input_delay ets
           then (Kd_wait, en\<lparr>en_event_time_stamp := ets\<rparr>, b1,
                 emplace_back_entry P (make_entry (en_device_id en) ets Ev_stop_keyboard_repeat single
                   (en_original_event en) st_virtual_event True) s1)
           else if D then (Kd_not_target, en\<lparr>en_event_time_stamp := ets\<rparr>, b1, s1)
           else (Kd_target froms mandatory, en\<lparr>en_event_time_stamp := ets\<rparr>, b1, s1))
     else (Kd_target froms mandatory, en, b1, s1))"
  unfolding decide_key_down_def Let_def if_not_P[OF assms(1)] assms(2-6) option.case prod.case
  by (rule exI)+ (rule refl)

end
