(* ===== verification/Basic_Balance.thy ===== *)
theory Basic_Balance
  imports Basic
begin

text \<open>
  No stuck keys: in every run of a basic manipulator, whatever the queues, the conditions and the
  timers do, the presses it has posted and not yet released are exactly those its records of
  manipulated keys will release. When no key it manipulates is down, everything is released.

  A run is a sequence of calls of \<open>manipulate\<close> and of timer callbacks, each on an output queue that
  other manipulators may have changed in between, of devices being ungrabbed, of clicks from the
  event tap and of changes of the validity. The records that \<open>handle_device_ungrabbed_event\<close> drops
  never send their releases: the balance counts exactly what they had still to release.
\<close>

subsection \<open>What one call appends\<close>

definition logs :: "event_queue \<Rightarrow> event_queue \<Rightarrow> (event \<Rightarrow> int) \<Rightarrow> bool" where
  "logs q q' g \<longleftrightarrow>
     (\<exists>ens. q_events q' = q_events q @ ens \<and> (\<forall>ev. balance ev (\<lambda>_. True) ens = g ev))"

lemma logs_refl: "logs q q (\<lambda>_. 0)"
  by (auto simp: logs_def intro!: exI[of _ "[]"])

lemma logs_same: "q_events q' = q_events q \<Longrightarrow> logs q q' (\<lambda>_. 0)"
  by (auto simp: logs_def intro!: exI[of _ "[]"])

lemma logs_trans:
  assumes "logs q q1 g1" "logs q1 q2 g2" "\<And>ev. g ev = g1 ev + g2 ev"
  shows "logs q q2 g"
proof -
  obtain e1 e2 where "q_events q1 = q_events q @ e1" "\<forall>ev. balance ev (\<lambda>_. True) e1 = g1 ev"
    "q_events q2 = q_events q1 @ e2" "\<forall>ev. balance ev (\<lambda>_. True) e2 = g2 ev"
    using assms(1,2) by (auto simp: logs_def)
  then show ?thesis using assms(3) unfolding logs_def by (intro exI[of _ "e1 @ e2"]) simp
qed

lemma logs_eq: "logs q q' g \<Longrightarrow> (\<And>ev. g ev = g' ev) \<Longrightarrow> logs q q' g'"
  by (simp add: logs_def)

lemma logs_sends:
  assumes "sends t s s' b"
  shows "logs (out_queue s) (out_queue s') (\<lambda>ev. b ev (\<lambda>_. True))"
  using sends_posted[OF assms] unfolding logs_def by blast

subsection \<open>What a record still has to release\<close>

definition outstanding :: "event \<Rightarrow> manipulated_original_event \<Rightarrow> int" where
  "outstanding ev m =
     - pending ev (\<lambda>_. True) m
     - (\<Sum>f\<in>moe_key_up_posted_from_mandatory_modifiers m. flag_weight ev f key_down)"

definition moe_ok :: "manipulated_original_event \<Rightarrow> bool" where
  "moe_ok m \<longleftrightarrow> moe_key_up_posted_from_mandatory_modifiers m \<subseteq> moe_from_mandatory_modifiers m"

definition settled :: "manipulated_original_event \<Rightarrow> bool" where
  "settled m \<longleftrightarrow> moe_events_at_key_up m = [] \<and> moe_key_up_posted_from_mandatory_modifiers m = {}"

lemma settled_outstanding: "settled m \<Longrightarrow> outstanding ev m = 0"
  by (simp add: settled_def outstanding_def pending_def)

text \<open>
  \<open>sent q m q' m'\<close>: the queue grows by what the change from \<open>m\<close> to \<open>m'\<close> accounts for, and the rest of
  the record is untouched.
\<close>

definition sent ::
    "event_queue \<Rightarrow> manipulated_original_event \<Rightarrow> event_queue \<Rightarrow> manipulated_original_event \<Rightarrow> bool" where
  "sent q m q' m' \<longleftrightarrow>
     logs q q' (\<lambda>ev. outstanding ev m' - outstanding ev m) \<and> moe_ok m' \<and> moe_frame m' = moe_frame m"

lemma sentD:
  assumes "sent q m q' m'"
  shows "logs q q' (\<lambda>ev. outstanding ev m' - outstanding ev m)" "moe_ok m'"
    and "moe_key_up_posted m' = moe_key_up_posted m" "moe_from_events m' = moe_from_events m"
  using assms by (simp_all add: sent_def moe_frame_def)

lemma sent_refl: "moe_ok m \<Longrightarrow> sent q m q m"
  by (simp add: sent_def logs_eq[OF logs_refl])

lemma sent_trans: "sent q m q1 m1 \<Longrightarrow> sent q1 m1 q2 m2 \<Longrightarrow> sent q m q2 m2"
  unfolding sent_def by (auto intro: logs_trans)

lemma sent_logs: "sent q m q1 m1 \<Longrightarrow> logs q1 q2 (\<lambda>_. 0) \<Longrightarrow> sent q m q2 m1"
  unfolding sent_def by (auto intro: logs_trans)

lemma pending_posted [simp]:
  "pending ev d (m\<lparr>moe_key_up_posted_from_mandatory_modifiers := S\<rparr>) = pending ev d m"
  by (simp add: pending_def)

lemma moe_frame_posted [simp]:
  "moe_frame (m\<lparr>moe_key_up_posted_from_mandatory_modifiers := S\<rparr>) = moe_frame m"
  "moe_frame (m\<lparr>moe_events_at_key_up := es\<rparr>) = moe_frame m"
  by (simp_all add: moe_frame_def)

lemma moe_frame_from_mandatory:
  "moe_frame m' = moe_frame m \<Longrightarrow> moe_from_mandatory_modifiers m' = moe_from_mandatory_modifiers m"
  "moe_frame m' = moe_frame m \<Longrightarrow> moe_from_events m' = moe_from_events m"
  "moe_frame m' = moe_frame m \<Longrightarrow> moe_key_up_posted m' = moe_key_up_posted m"
  by (simp_all add: moe_frame_def)

lemma sent_mandatory_key_up:
  assumes "flag_order_ok ord" "moe_ok m" "post_from_mandatory_modifiers_key_up P ord en (m, s) = (m', s')"
  shows "sent (out_queue s) m (out_queue s') m'" "moe_events_at_key_up m' = moe_events_at_key_up m"
proof -
  note up = mandatory_key_up[OF assms(1,3)]
  let ?p = "moe_key_up_posted_from_mandatory_modifiers"
  have frame: "moe_frame m' = moe_frame m" "pending ev d m' = pending ev d m"
    "moe_events_at_key_up m' = moe_events_at_key_up m" for ev d
    by (subst up(2), simp)+
  have "(\<Sum>f\<in>?p m'. flag_weight ev f key_down) =
      (\<Sum>f\<in>?p m' - ?p m. flag_weight ev f key_down) + (\<Sum>f\<in>?p m. flag_weight ev f key_down)" for ev
    by (rule sum.subset_diff[OF up(3) finite_modifier_flags])
  then have "logs (out_queue s) (out_queue s') (\<lambda>ev. outstanding ev m' - outstanding ev m)"
    by (intro logs_eq[OF logs_sends[OF up(1)]]) (simp add: outstanding_def frame)
  moreover have "moe_ok m'"
    using up(4) assms(2) moe_frame_from_mandatory(1)[OF frame(1)] by (auto simp: moe_ok_def)
  ultimately show "sent (out_queue s) m (out_queue s') m'" by (simp add: sent_def frame)
  show "moe_events_at_key_up m' = moe_events_at_key_up m" by (rule frame(3))
qed

lemma sent_mandatory_key_down:
  assumes "flag_order_ok ord" "moe_ok m" "post_from_mandatory_modifiers_key_down P ord en (m, s) = (m', s')"
  shows "sent (out_queue s) m (out_queue s') m'" "moe_events_at_key_up m' = moe_events_at_key_up m"
    and "moe_key_up_posted_from_mandatory_modifiers m' = {}"
proof -
  note down = mandatory_key_down[OF assms(1,3) assms(2)[unfolded moe_ok_def]]
  have frame: "moe_frame m' = moe_frame m" "pending ev d m' = pending ev d m"
    "moe_events_at_key_up m' = moe_events_at_key_up m"
    "moe_key_up_posted_from_mandatory_modifiers m' = {}" for ev d
    by (subst down(2), simp)+
  then have "logs (out_queue s) (out_queue s') (\<lambda>ev. outstanding ev m' - outstanding ev m)"
    by (intro logs_eq[OF logs_sends[OF down(1)]]) (simp add: outstanding_def)
  then show "sent (out_queue s) m (out_queue s') m'" by (simp add: sent_def frame moe_ok_def)
  show "moe_events_at_key_up m' = moe_events_at_key_up m"
    "moe_key_up_posted_from_mandatory_modifiers m' = {}" by (rule frame)+
qed

lemma post_events_at_key_down_frame:
  assumes "post_events_at_key_down P en ts (m, s) = (ts', m', s')"
  shows "moe_frame m' = moe_frame m"
    and "moe_key_up_posted_from_mandatory_modifiers m' = moe_key_up_posted_from_mandatory_modifiers m"
    and "\<forall>t\<in>set ts. hold_down_ok P t \<Longrightarrow> \<forall>t\<in>set ts'. hold_down_ok P t"
proof -
  have "moe_frame m' = moe_frame m
    \<and> moe_key_up_posted_from_mandatory_modifiers m' = moe_key_up_posted_from_mandatory_modifiers m
    \<and> map to_hold_down_milliseconds ts' = map to_hold_down_milliseconds ts"
  proof (cases "moe_halted m")
    case True
    then show ?thesis using assms by (simp add: post_events_at_key_down_def)
  next
    case False
    obtain accepted all s1 where f: "filter_on_queue P ts en s = (accepted, all, s1)"
      by (metis prod_cases3)
    then have "post_events_loop P en accepted (m, s1) = (m', s')" "ts' = all"
      using assms False by (simp_all add: post_events_at_key_down_def)
    moreover have "map to_hold_down_milliseconds all = map to_hold_down_milliseconds ts"
      using f filter_by_conditions_accepted by (fastforce simp: filter_on_queue_def split: prod.splits)
    ultimately show ?thesis using post_events_loop_frame[of P en accepted "(m, s1)"] by simp
  qed
  then show "moe_frame m' = moe_frame m"
    "moe_key_up_posted_from_mandatory_modifiers m' = moe_key_up_posted_from_mandatory_modifiers m"
    "\<forall>t\<in>set ts. hold_down_ok P t \<Longrightarrow> \<forall>t\<in>set ts'. hold_down_ok P t"
    by (auto simp: hold_down_ok_def dest!: arg_cong[of "map _ _" _ set]) (metis imageE imageI)+
qed

lemma sent_post_events_at_key_down:
  assumes "\<forall>t\<in>set ts. hold_down_ok P t" "moe_ok m" "post_events_at_key_down P en ts (m, s) = (ts', m', s')"
  shows "sent (out_queue s) m (out_queue s') m'"
proof -
  note frame = post_events_at_key_down_frame(1,2)[OF assms(3)]
  have "logs (out_queue s) (out_queue s') (\<lambda>ev. outstanding ev m' - outstanding ev m)"
    by (intro logs_eq[OF logs_sends[OF sends_post_events_at_key_down[OF assms(1,3)]]])
       (simp add: outstanding_def frame)
  then show ?thesis
    using assms(2) frame moe_frame_from_mandatory(1)[OF frame(1)] by (simp add: sent_def moe_ok_def)
qed

lemma sent_post_events_at_key_up:
  assumes "moe_ok m" "post_events_at_key_up P en (m, s) = (m', s')"
  shows "sent (out_queue s) m (out_queue s') m'" "moe_events_at_key_up m' = []"
proof -
  have m': "m' = m\<lparr>moe_events_at_key_up := []\<rparr>" using assms(2) by (simp add: post_events_at_key_up_def)
  have "logs (out_queue s) (out_queue s') (\<lambda>ev. outstanding ev m' - outstanding ev m)"
    by (intro logs_eq[OF logs_sends[OF sends_post_events_at_key_up(1)[OF assms(2)]]])
       (simp add: outstanding_def m' pending_def)
  then show "sent (out_queue s) m (out_queue s') m'"
    using assms(1) by (simp add: sent_def m' moe_ok_def)
  show "moe_events_at_key_up m' = []" by (simp add: m')
qed

lemma post_extra_to_events_frame:
  assumes "post_extra_to_events P en ts (m, s) = (ts', m', s')"
  shows "moe_frame m' = moe_frame m"
    and "moe_key_up_posted_from_mandatory_modifiers m' = moe_key_up_posted_from_mandatory_modifiers m"
    and "moe_events_at_key_up m' = moe_events_at_key_up m"
    and "\<forall>t\<in>set ts. hold_down_ok P t \<Longrightarrow> \<forall>t\<in>set ts'. hold_down_ok P t"
proof -
  have fold: "moe_frame (fst (foldl (\<lambda>ms t. post_extra_to_event P en t ms) ms ts)) = moe_frame (fst ms)
    \<and> moe_key_up_posted_from_mandatory_modifiers (fst (foldl (\<lambda>ms t. post_extra_to_event P en t ms) ms ts)) =
        moe_key_up_posted_from_mandatory_modifiers (fst ms)
    \<and> moe_events_at_key_up (fst (foldl (\<lambda>ms t. post_extra_to_event P en t ms) ms ts)) =
        moe_events_at_key_up (fst ms)" for ms ts
    by (induction ts arbitrary: ms) (simp_all add: frame)
  have "moe_frame m' = moe_frame m
    \<and> moe_key_up_posted_from_mandatory_modifiers m' = moe_key_up_posted_from_mandatory_modifiers m
    \<and> moe_events_at_key_up m' = moe_events_at_key_up m
    \<and> map to_hold_down_milliseconds ts' = map to_hold_down_milliseconds ts"
  proof (cases "moe_halted m")
    case True
    then show ?thesis using assms by (simp add: post_extra_to_events_def)
  next
    case False
    obtain accepted all s1 where f: "filter_on_queue P ts en s = (accepted, all, s1)"
      by (metis prod_cases3)
    then have "foldl (\<lambda>ms t. post_extra_to_event P en t ms) (m, s1) accepted = (m', s')" "ts' = all"
      using assms False by (simp_all add: post_extra_to_events_def)
    moreover have "map to_hold_down_milliseconds all = map to_hold_down_milliseconds ts"
      using f filter_by_conditions_accepted by (fastforce simp: filter_on_queue_def split: prod.splits)
    ultimately show ?thesis using fold[of "(m, s1)" accepted] by simp
  qed
  then show "moe_frame m' = moe_frame m"
    "moe_key_up_posted_from_mandatory_modifiers m' = moe_key_up_posted_from_mandatory_modifiers m"
    "moe_events_at_key_up m' = moe_events_at_key_up m"
    "\<forall>t\<in>set ts. hold_down_ok P t \<Longrightarrow> \<forall>t\<in>set ts'. hold_down_ok P t"
    by (auto simp: hold_down_ok_def dest!: arg_cong[of "map _ _" _ set]) (metis imageE imageI)+
qed

lemma sent_post_extra_to_events:
  assumes "\<forall>t\<in>set ts. hold_down_ok P t" "moe_ok m" "post_extra_to_events P en ts (m, s) = (ts', m', s')"
  shows "sent (out_queue s) m (out_queue s') m'"
proof -
  note frame = post_extra_to_events_frame(1,2,3)[OF assms(3)]
  have "outstanding ev m' = outstanding ev m" for ev
    by (simp add: outstanding_def pending_def frame)
  then have "logs (out_queue s) (out_queue s') (\<lambda>ev. outstanding ev m' - outstanding ev m)"
    by (intro logs_eq[OF logs_sends[OF sends_post_extra_to_events(1)[OF assms(1,3)]]]) simp
  then show ?thesis
    using assms(2) frame moe_frame_from_mandatory(1)[OF frame(1)] by (simp add: sent_def moe_ok_def)
qed

subsection \<open>The composed senders\<close>

lemma sent_extra:
  assumes "flag_order_ok ord" "\<forall>t\<in>set ts. hold_down_ok P t" "moe_ok m"
    and "send_extra P ord en ts (m, s) = (ts', m', s')"
  shows "sent (out_queue s) m (out_queue s') m'" "moe_events_at_key_up m' = moe_events_at_key_up m"
    and "moe_key_up_posted_from_mandatory_modifiers m' = {}" "\<forall>t\<in>set ts'. hold_down_ok P t"
proof -
  obtain m1 s1 where 1: "post_from_mandatory_modifiers_key_up P ord en (m, s) = (m1, s1)"
    by (metis prod.collapse)
  obtain ts2 m2 s2 where 2: "post_extra_to_events P en ts (m1, s1) = (ts2, m2, s2)"
    by (metis prod.collapse)
  have 3: "post_from_mandatory_modifiers_key_down P ord en (m2, s2) = (m', s')" "ts' = ts2"
    using assms(4) by (simp_all add: send_extra_def Let_def 1 2)
  note up = sent_mandatory_key_up[OF assms(1,3) 1]
  have ok1: "moe_ok m1" using up(1) by (simp add: sent_def)
  note extra = sent_post_extra_to_events[OF assms(2) ok1 2]
  have ok2: "moe_ok m2" using extra by (simp add: sent_def)
  note down = sent_mandatory_key_down[OF assms(1) ok2 3(1)]
  show "sent (out_queue s) m (out_queue s') m'" using sent_trans[OF sent_trans[OF up(1) extra] down(1)] .
  show "moe_events_at_key_up m' = moe_events_at_key_up m"
    using down(2) post_extra_to_events_frame(3)[OF 2] up(2) by simp
  show "moe_key_up_posted_from_mandatory_modifiers m' = {}" by (rule down(3))
  show "\<forall>t\<in>set ts'. hold_down_ok P t" using post_extra_to_events_frame(4)[OF 2 assms(2)] 3(2) by simp
qed

lemma logs_restorer:
  assumes "restorer_constructor P en m s = Some (inverse_flags, s1)"
  obtains g where "logs (out_queue s) (out_queue s1) g"
    "\<And>s2. logs (out_queue s2) (out_queue (restorer_destructor P en inverse_flags s2)) (\<lambda>ev. - g ev)"
proof -
  obtain sc where sc: "scoped_modifier_flags (moe_key_down_modifier_flags m) (q_modifier_flags (out_queue s)) = Some sc"
      "inverse_flags = get_inverse_active_modifier_flags (snd sc)"
      "s1 = post_active_modifier_flags P en (snd sc)
        (fst s, fst (snd s), (out_queue s)\<lparr>q_modifier_flags := scoped_modifier_flags_destructor sc\<rparr>)"
    using assms by (auto simp: restorer_constructor_def Let_def split: option.splits)
  have d0: "device_0 (snd sc)"
    using device_0_loop[of _ _ _ sc] sc(1) by (fastforce simp: scoped_modifier_flags_def device_0_def)
  let ?g = "\<lambda>ev. \<Sum>f\<leftarrow>snd sc. if True
      then flag_weight ev (amf_flag f) (if get_count f > 0 then key_down else key_up) else 0"
  have "logs (out_queue s) (out_queue s1) ?g"
    unfolding sc(3)
    by (rule logs_trans[OF logs_same logs_sends[OF sends_post_active_modifier_flags]]) simp_all
  moreover have "logs (out_queue s2) (out_queue (restorer_destructor P en inverse_flags s2)) (\<lambda>ev. - ?g ev)" for s2
    unfolding restorer_destructor_def sc(2) by (rule logs_sends[OF sends_inverse_flags[OF d0]])
  ultimately show ?thesis by (rule that)
qed

text \<open>A step between constructor and destructor of the restorer.\<close>

lemma sent_restored:
  assumes "restorer_constructor P en m s = Some (inverse_flags, s1)" "sent (out_queue s1) m (out_queue s2) m2"
  shows "sent (out_queue s) m (out_queue (restorer_destructor P en inverse_flags s2)) m2"
proof -
  obtain g where g: "logs (out_queue s) (out_queue s1) g"
    "\<And>s2. logs (out_queue s2) (out_queue (restorer_destructor P en inverse_flags s2)) (\<lambda>ev. - g ev)"
    using logs_restorer[OF assms(1)] by blast
  have "logs (out_queue s1) (out_queue s2) (\<lambda>ev. outstanding ev m2 - outstanding ev m)"
    using assms(2) by (simp add: sent_def)
  from logs_trans[OF g(1) this, OF refl]
  have "logs (out_queue s) (out_queue s2) (\<lambda>ev. g ev + (outstanding ev m2 - outstanding ev m))" .
  from logs_trans[OF this g(2), of "\<lambda>ev. outstanding ev m2 - outstanding ev m"] show ?thesis
    using assms(2) by (simp add: sent_def)
qed

lemma sent_if_alone:
  assumes "flag_order_ok ord" "\<forall>t\<in>set ts. hold_down_ok P t" "moe_ok m"
    and "moe_key_up_posted_from_mandatory_modifiers m = {}"
    and "send_if_alone P ord en ps ts (m, s) = Some (ts', m', s')"
  shows "sent (out_queue s) m (out_queue s') m'" "moe_events_at_key_up m' = moe_events_at_key_up m"
    and "moe_key_up_posted_from_mandatory_modifiers m' = {}" "\<forall>t\<in>set ts'. hold_down_ok P t"
proof -
  have "sent (out_queue s) m (out_queue s') m' \<and> moe_events_at_key_up m' = moe_events_at_key_up m
    \<and> moe_key_up_posted_from_mandatory_modifiers m' = {} \<and> (\<forall>t\<in>set ts'. hold_down_ok P t)"
  proof (cases "ts' = ts \<and> m' = m \<and> s' = s")
    case True
    then show ?thesis using assms(2,3,4) by (simp add: sent_refl)
  next
    case False
    then obtain inverse_flags s1 s2 where r: "restorer_constructor P en m s = Some (inverse_flags, s1)"
        "send_extra P ord en ts (m, s1) = (ts', m', s2)" "s' = restorer_destructor P en inverse_flags s2"
      using assms(5) by (auto simp: send_if_alone_def Let_def split: if_splits option.splits prod.splits)
    note extra = sent_extra[OF assms(1,2,3) r(2)]
    show ?thesis using sent_restored[OF r(1) extra(1)] extra(2,3,4) r(3) by simp
  qed
  then show "sent (out_queue s) m (out_queue s') m'" "moe_events_at_key_up m' = moe_events_at_key_up m"
    "moe_key_up_posted_from_mandatory_modifiers m' = {}" "\<forall>t\<in>set ts'. hold_down_ok P t" by blast+
qed

subsection \<open>The configured events\<close>

definition all_to_events :: "basic \<Rightarrow> to_event_definition list" where
  "all_to_events b =
     b_to b @ b_to_after_key_up b @ b_to_if_alone b @ so_to_after_key_up (from_simultaneous_options (b_from b))
     @ (case b_to_if_held_down b of None \<Rightarrow> [] | Some h \<Rightarrow> hd_to h)
     @ (case b_to_delayed_action b of None \<Rightarrow> [] | Some a \<Rightarrow> da_to_if_invoked a @ da_to_if_canceled a)"

definition basic_hold_down_ok :: "platform \<Rightarrow> basic \<Rightarrow> bool" where
  "basic_hold_down_ok P b \<longleftrightarrow> (\<forall>t\<in>set (all_to_events b). hold_down_ok P t)"

definition total_outstanding :: "event \<Rightarrow> basic \<Rightarrow> int" where
  "total_outstanding ev b = (\<Sum>m\<leftarrow>b_heap b. outstanding ev m)"

lemma total_outstanding_update:
  assumes "i < length (b_heap b)" "b_heap b' = (b_heap b)[i := m]"
  shows "total_outstanding ev b' = total_outstanding ev b + (outstanding ev m - outstanding ev (b_heap b ! i))"
proof -
  have "(\<Sum>x\<leftarrow>xs[i := y]. f x) = (\<Sum>x\<leftarrow>xs. f x) + (f y - f (xs ! i))" if "i < length xs"
    for xs :: "'a list" and f :: "'a \<Rightarrow> int" and y
    using that by (induction xs arbitrary: i) (auto split: nat.splits)
  then show ?thesis using assms by (simp add: total_outstanding_def)
qed

lemma sent_key_down:
  assumes "flag_order_ok ord" "basic_hold_down_ok P b" "i < length (b_heap b)" "moe_ok (b_heap b ! i)"
    and "send_key_down P ord en i b s = (b', s')"
  obtains m to' where "b' = b\<lparr>b_heap := (b_heap b)[i := m], b_to := to'\<rparr>" "\<forall>t\<in>set to'. hold_down_ok P t"
    "sent (out_queue s) (b_heap b ! i) (out_queue s') m"
proof -
  obtain m1 s1 where 1: "post_from_mandatory_modifiers_key_up P ord en (b_heap b ! i, s) = (m1, s1)"
    by (metis prod.collapse)
  obtain to' m2 s2 where 2: "post_events_at_key_down P en (b_to b) (m1, s1) = (to', m2, s2)"
    by (metis prod.collapse)
  obtain m3 s3 where 3: "post_from_mandatory_modifiers_key_down P ord en (m2, s2) = (m3, s3)"
    by (metis prod.collapse)
  have hold: "\<forall>t\<in>set (b_to b). hold_down_ok P t"
    using assms(2) by (simp add: basic_hold_down_ok_def all_to_events_def)
  note up = sent_mandatory_key_up[OF assms(1,4) 1]
  have ok1: "moe_ok m1" using up(1) by (simp add: sent_def)
  note key = sent_post_events_at_key_down[OF hold ok1 2]
  have ok2: "moe_ok m2" using key by (simp add: sent_def)
  note down = sent_mandatory_key_down(1)[OF assms(1) ok2 3]
  note hold' = post_events_at_key_down_frame(3)[OF 2 hold]
  show ?thesis
  proof (cases "is_last_to_event_modifier_key_event (b_to b)")
    case True
    then have "b' = b\<lparr>b_heap := (b_heap b)[i := m2], b_to := to'\<rparr>" "s' = s2"
      using assms(5) by (auto simp: send_key_down_def 1 2 update_moe_def)
    then show ?thesis using that hold' sent_trans[OF up(1) key] by blast
  next
    case False
    then have "b' = b\<lparr>b_heap := (b_heap b)[i := m3], b_to := to'\<rparr>" "s' = s3"
      using assms(5) by (auto simp: send_key_down_def 1 2 3 update_moe_def)
    then show ?thesis using that hold' sent_trans[OF sent_trans[OF up(1) key] down] by blast
  qed
qed

lemma sent_key_up:
  assumes "flag_order_ok ord" "basic_hold_down_ok P b" "i < length (b_heap b)" "moe_ok (b_heap b ! i)"
    and "moe_key_up_posted (b_heap b ! i) \<Longrightarrow> settled (b_heap b ! i)"
    and "send_key_up P ord en i b s = Some (b', s')"
    and "\<not> (so_key_up_when (from_simultaneous_options (b_from b)) = key_up_when_all
         \<and> moe_from_events (b_heap b ! i) \<noteq> {})"
  obtains m alone' after' so_after' where
    "b' = b\<lparr>b_heap := (b_heap b)[i := m], b_to_if_alone := alone', b_to_after_key_up := after',
            b_from := (b_from b)\<lparr>from_simultaneous_options :=
              (from_simultaneous_options (b_from b))\<lparr>so_to_after_key_up := so_after'\<rparr>\<rparr>\<rparr>"
    "\<forall>t\<in>set (alone' @ after' @ so_after'). hold_down_ok P t"
    "logs (out_queue s) (out_queue s') (\<lambda>ev. outstanding ev m - outstanding ev (b_heap b ! i))"
    "moe_ok m" "settled m" "moe_from_events m = moe_from_events (b_heap b ! i)" "moe_key_up_posted m"
proof -
  let ?m = "b_heap b ! i" and ?so = "from_simultaneous_options (b_from b)"
  have hold: "\<forall>t\<in>set (b_to_if_alone b). hold_down_ok P t" "\<forall>t\<in>set (b_to_after_key_up b). hold_down_ok P t"
    "\<forall>t\<in>set (so_to_after_key_up ?so). hold_down_ok P t"
    using assms(2) by (simp_all add: basic_hold_down_ok_def all_to_events_def)
  define first where "first =
      (if moe_key_up_posted ?m then Some (b_to_if_alone b, b_to_after_key_up b, ?m, s)
       else
         (let ms1 = post_events_at_key_up P en (set_key_up_posted True ?m, s);
              ms2 = post_from_mandatory_modifiers_key_down P ord en ms1
          in case send_if_alone P ord en (b_parameters b) (b_to_if_alone b) ms2 of
               None \<Rightarrow> None
             | Some (alone', ms3) \<Rightarrow>
                 (if b_to_after_key_up b \<noteq> []
                  then (case send_extra P ord en (b_to_after_key_up b) ms3 of
                          (after', ms4) \<Rightarrow> Some (alone', after', ms4))
                  else Some (alone', b_to_after_key_up b, ms3))))"
  obtain alone' after' m4 s4 where f: "first = Some (alone', after', m4, s4)"
    using assms(6,7) unfolding send_key_up_def Let_def[of "b_heap b ! i"] Let_def[of ?so] first_def[symmetric]
    by (auto split: option.splits)
  have mid: "logs (out_queue s) (out_queue s4) (\<lambda>ev. outstanding ev m4 - outstanding ev ?m)
    \<and> moe_ok m4 \<and> settled m4 \<and> moe_from_events m4 = moe_from_events ?m \<and> moe_key_up_posted m4
    \<and> (\<forall>t\<in>set (alone' @ after'). hold_down_ok P t)"
  proof (cases "moe_key_up_posted ?m")
    case True
    then show ?thesis
      using f assms(4,5) hold by (auto simp: first_def logs_eq[OF logs_refl])
  next
    case False
    let ?start = "set_key_up_posted True ?m"
    have m0: "moe_ok ?start" "outstanding ev ?start = outstanding ev ?m" "moe_from_events ?start = moe_from_events ?m"
      "moe_key_up_posted ?start" for ev
      using assms(4) by (simp_all add: set_key_up_posted_def moe_ok_def outstanding_def pending_def)
    obtain m1 s1 where 1: "post_events_at_key_up P en (?start, s) = (m1, s1)" by (metis prod.collapse)
    obtain m2 s2 where 2: "post_from_mandatory_modifiers_key_down P ord en (m1, s1) = (m2, s2)"
      by (metis prod.collapse)
    obtain a3 m3 s3 where 3: "send_if_alone P ord en (b_parameters b) (b_to_if_alone b) (m2, s2) = Some (a3, m3, s3)"
      using f False by (auto simp: first_def Let_def 1 2 split: option.splits)
    note up = sent_post_events_at_key_up[OF m0(1) 1]
    have ok1: "moe_ok m1" using up(1) by (simp add: sent_def)
    note down = sent_mandatory_key_down[OF assms(1) ok1 2]
    have ok2: "moe_ok m2" using down(1) by (simp add: sent_def)
    note alone = sent_if_alone[OF assms(1) hold(1) ok2 down(3) 3]
    have ok3: "moe_ok m3" using alone(1) by (simp add: sent_def)
    note s03 = sent_trans[OF sent_trans[OF up(1) down(1)] alone(1)]
    have ev3: "moe_events_at_key_up m3 = []" using alone(2) down(2) up(2) by simp
    have "sent (out_queue s) ?start (out_queue s4) m4 \<and> settled m4 \<and> (\<forall>t\<in>set (alone' @ after'). hold_down_ok P t)"
    proof (cases "b_to_after_key_up b = []")
      case True
      then have "alone' = a3" "after' = []" "m4 = m3" "s4 = s3"
        using f False by (auto simp: first_def Let_def 1 2 3)
      then show ?thesis using s03 ev3 alone(3,4) by (auto simp: settled_def)
    next
      case nonempty: False
      then have x: "send_extra P ord en (b_to_after_key_up b) (m3, s3) = (after', m4, s4)" "alone' = a3"
        using f False by (auto simp: first_def Let_def 1 2 3 split: prod.splits)
      note extra = sent_extra[OF assms(1) hold(2) ok3 x(1)]
      show ?thesis
        using sent_trans[OF s03 extra(1)] extra(2,3,4) ev3 alone(4) x(2) by (auto simp: settled_def)
    qed
    then have x: "sent (out_queue s) ?start (out_queue s4) m4" "settled m4"
      "\<forall>t\<in>set (alone' @ after'). hold_down_ok P t" by blast+
    have "logs (out_queue s) (out_queue s4) (\<lambda>ev. outstanding ev m4 - outstanding ev ?start)"
      and ok: "moe_ok m4" and frame: "moe_frame m4 = moe_frame ?start"
      using x(1) unfolding sent_def by blast+
    then have "logs (out_queue s) (out_queue s4) (\<lambda>ev. outstanding ev m4 - outstanding ev ?m)"
      unfolding m0(2) by blast
    moreover have "moe_from_events m4 = moe_from_events ?m" "moe_key_up_posted m4"
      using moe_frame_from_mandatory(2,3)[OF frame] m0(3,4) by blast+
    ultimately show ?thesis using ok x(2,3) by blast
  qed
  define last where "last =
      (if so_to_after_key_up ?so \<noteq> [] \<and> moe_from_events m4 = {}
       then send_extra P ord en (so_to_after_key_up ?so) (m4, s4)
       else (so_to_after_key_up ?so, m4, s4))"
  obtain so_after' m5 s5 where l: "last = (so_after', m5, s5)" by (metis prod.collapse)
  have "b' = b\<lparr>b_heap := (b_heap b)[i := m5], b_to_if_alone := alone', b_to_after_key_up := after',
            b_from := (b_from b)\<lparr>from_simultaneous_options := ?so\<lparr>so_to_after_key_up := so_after'\<rparr>\<rparr>\<rparr>"
    and s': "s' = s5"
    using assms(6,7) f l
    unfolding send_key_up_def Let_def[of "b_heap b ! i"] Let_def[of ?so] first_def[symmetric]
    by (auto simp: last_def update_moe_def)
  note b' = this(1)
  have fin: "logs (out_queue s) (out_queue s5) (\<lambda>ev. outstanding ev m5 - outstanding ev ?m)
    \<and> moe_ok m5 \<and> settled m5 \<and> moe_from_events m5 = moe_from_events ?m \<and> moe_key_up_posted m5
    \<and> (\<forall>t\<in>set so_after'. hold_down_ok P t)"
  proof (cases "so_to_after_key_up ?so \<noteq> [] \<and> moe_from_events m4 = {}")
    case False
    then have "so_after' = so_to_after_key_up ?so" "m5 = m4" "s5 = s4"
      using l unfolding last_def if_not_P[OF False] by simp_all
    then show ?thesis using mid hold(3) by simp
  next
    case True
    then have x: "send_extra P ord en (so_to_after_key_up ?so) (m4, s4) = (so_after', m5, s5)"
      using l by (simp add: last_def)
    note extra = sent_extra[OF assms(1) hold(3) _ x]
    have "sent (out_queue s4) m4 (out_queue s5) m5" using extra(1) mid by blast
    then have "logs (out_queue s) (out_queue s5) (\<lambda>ev. outstanding ev m5 - outstanding ev ?m)"
      "moe_ok m5" "moe_from_events m5 = moe_from_events m4" "moe_key_up_posted m5 = moe_key_up_posted m4"
      using mid moe_frame_from_mandatory(2,3)[of m5 m4]
      by (auto simp: sent_def intro: logs_trans)
    then show ?thesis using extra(2,3,4) mid by (auto simp: settled_def)
  qed
  have hold': "\<forall>t\<in>set (alone' @ after' @ so_after'). hold_down_ok P t" using mid fin by auto
  from fin show ?thesis unfolding s'[symmetric] by (intro that[OF b' hold']) blast+
qed

lemma sent_delayed_action:
  assumes "flag_order_ok ord" "\<forall>t\<in>set ts. hold_down_ok P t" "moe_ok m"
    and "delayed_action_send P ord ts en m (w, q) = Some (ts', m', w', q')"
  shows "logs q q' (\<lambda>_. 0)" "outstanding ev m' = outstanding ev m" "moe_ok m'" "moe_frame m' = moe_frame m"
    and "settled m' = settled m" "\<forall>t\<in>set ts'. hold_down_ok P t"
proof -
  obtain inverse_flags s1 where r: "restorer_constructor P en m (0, w, q) = Some (inverse_flags, s1)"
    using assms(4) by (auto simp: delayed_action_send_def split: option.splits)
  let ?post = "\<lambda>t s. post_lazy_modifier_key_events P (ord (moe_from_mandatory_modifiers m)) t
    (en_device_id en) (en_event_time_stamp en) (en_original_event en) s"
  obtain ts3 m3 s3 where x: "post_extra_to_events P en ts (m, ?post key_up s1) = (ts3, m3, s3)"
    by (metis prod.collapse)
  have res: "ts' = ts3" "m' = m3" "(w', q') = snd (restorer_destructor P en inverse_flags (?post key_down s3))"
    using assms(4) by (simp_all add: delayed_action_send_def r Let_def x)
  note extra = sent_post_extra_to_events[OF assms(2,3) x]
  note frame = post_extra_to_events_frame[OF x]
  have out: "outstanding ev m' = outstanding ev m" for ev
    using frame(2,3) by (simp add: res outstanding_def pending_def)
  show "outstanding ev m' = outstanding ev m" by (rule out)
  show "moe_ok m'" "moe_frame m' = moe_frame m" using extra res by (simp_all add: sent_def)
  show "settled m' = settled m" using frame(2,3) res by (simp add: settled_def)
  show "\<forall>t\<in>set ts'. hold_down_ok P t" using frame(4)[OF assms(2)] res by simp
  let ?g = "\<lambda>ev. \<Sum>f\<leftarrow>ord (moe_from_mandatory_modifiers m). if True then flag_weight ev f key_up else 0"
  have opp: "(\<Sum>f\<leftarrow>fs. if True then flag_weight ev f key_up else 0) =
      - (\<Sum>f\<leftarrow>fs. if True then flag_weight ev f key_down else 0)" for fs ev
    unfolding flag_weight_def by (induction fs) (simp_all add: modifier_weight_opposite)
  have up: "logs (out_queue s1) (out_queue (?post key_up s1)) ?g" by (rule logs_sends[OF sends_lazy_events])
  have mid: "logs (out_queue (?post key_up s1)) (out_queue s3) (\<lambda>_. 0)"
    using extra out res by (simp add: sent_def)
  have down: "logs (out_queue s3) (out_queue (?post key_down s3)) (\<lambda>ev. - ?g ev)"
    by (rule logs_eq[OF logs_sends[OF sends_lazy_events]]) (simp only: opp minus_minus)
  have "logs (out_queue s1) (out_queue (?post key_down s3)) (\<lambda>_. 0)"
    by (rule logs_trans[OF logs_trans[OF up mid refl] down]) simp
  then have "sent (out_queue s1) m (out_queue (?post key_down s3)) m"
    using assms(3) by (simp add: sent_def)
  from sent_restored[OF r this] show "logs q q' (\<lambda>_. 0)"
    using res(3) by (simp add: sent_def) (metis snd_conv)
qed

subsection \<open>The invariant of a run\<close>

text \<open>
  The heap and the vector fit together; a record that has left the vector or whose key up has been
  posted is settled, except the records \<open>D\<close> that an ungrabbed device took from the vector; and a pending
  callback whose id is current belongs to a record of the vector or of \<open>D\<close> whose key up has not been
  posted.
\<close>

definition held_down_ready :: "moe_id set \<Rightarrow> basic \<Rightarrow> to_if_held_down \<Rightarrow> bool" where
  "held_down_ready D b h \<longleftrightarrow>
     (\<forall>p\<in>set (hd_pending h). fst p \<le> hd_current_held_down_id h)
     \<and> (hd_current_held_down_id h \<in> fst ` set (hd_pending h) \<longrightarrow>
          (\<exists>i. hd_current_manipulated_original_event h = Some i
               \<and> i \<in> set (b_manipulated_original_events b) \<union> D \<and> \<not> moe_key_up_posted (b_heap b ! i)))"

definition basic_inv :: "moe_id set \<Rightarrow> basic \<Rightarrow> bool" where
  "basic_inv D b \<longleftrightarrow>
     distinct (b_manipulated_original_events b)
     \<and> (\<forall>i\<in>set (b_manipulated_original_events b) \<union> D. i < length (b_heap b))
     \<and> (\<forall>i<length (b_heap b). moe_ok (b_heap b ! i)
          \<and> (i \<notin> set (b_manipulated_original_events b) \<union> D \<or> moe_key_up_posted (b_heap b ! i) \<longrightarrow>
               settled (b_heap b ! i)))
     \<and> (\<forall>a i. b_to_delayed_action b = Some a \<longrightarrow> da_current_manipulated_original_event a = Some i \<longrightarrow>
          i < length (b_heap b))
     \<and> (\<forall>h. b_to_if_held_down b = Some h \<longrightarrow> held_down_ready D b h)"

lemma basic_invI:
  assumes "distinct (b_manipulated_original_events b)"
    and "\<And>i. i \<in> set (b_manipulated_original_events b) \<union> D \<Longrightarrow> i < length (b_heap b)"
    and "\<And>i. i < length (b_heap b) \<Longrightarrow> moe_ok (b_heap b ! i)"
    and "\<And>i. i < length (b_heap b) \<Longrightarrow>
      i \<notin> set (b_manipulated_original_events b) \<union> D \<or> moe_key_up_posted (b_heap b ! i) \<Longrightarrow> settled (b_heap b ! i)"
    and "\<And>a i. b_to_delayed_action b = Some a \<Longrightarrow> da_current_manipulated_original_event a = Some i \<Longrightarrow>
      i < length (b_heap b)"
    and "\<And>h. b_to_if_held_down b = Some h \<Longrightarrow> held_down_ready D b h"
  shows "basic_inv D b"
  using assms unfolding basic_inv_def by blast

lemma basic_invD:
  assumes "basic_inv D b"
  shows "distinct (b_manipulated_original_events b)"
    and "i \<in> set (b_manipulated_original_events b) \<union> D \<Longrightarrow> i < length (b_heap b)"
    and "i < length (b_heap b) \<Longrightarrow> moe_ok (b_heap b ! i)"
    and "i < length (b_heap b) \<Longrightarrow> i \<notin> set (b_manipulated_original_events b) \<union> D \<Longrightarrow> settled (b_heap b ! i)"
    and "i < length (b_heap b) \<Longrightarrow> moe_key_up_posted (b_heap b ! i) \<Longrightarrow> settled (b_heap b ! i)"
    and "b_to_delayed_action b = Some a \<Longrightarrow> da_current_manipulated_original_event a = Some i \<Longrightarrow>
      i < length (b_heap b)"
    and "b_to_if_held_down b = Some h \<Longrightarrow> held_down_ready D b h"
  using assms unfolding basic_inv_def by blast+

text \<open>
  \<open>advances P D b q b' q'\<close>: a call preserves invariant and configuration and posts what the change of the
  outstanding releases accounts for.
\<close>

definition advances :: "platform \<Rightarrow> moe_id set \<Rightarrow> basic \<Rightarrow> event_queue \<Rightarrow> basic \<Rightarrow> event_queue \<Rightarrow> bool" where
  "advances P D b q b' q' \<longleftrightarrow>
     (basic_inv D b \<and> basic_hold_down_ok P b \<longrightarrow>
      basic_inv D b' \<and> basic_hold_down_ok P b'
      \<and> logs q q' (\<lambda>ev. total_outstanding ev b' - total_outstanding ev b))"

lemma advances_refl: "advances P D b q b q"
  by (simp add: advances_def logs_eq[OF logs_refl])

lemma advances_trans: "advances P D b q b1 q1 \<Longrightarrow> advances P D b1 q1 b2 q2 \<Longrightarrow> advances P D b q b2 q2"
  unfolding advances_def by (auto intro: logs_trans)

text \<open>Updates of records that touch nothing the invariant looks at.\<close>

definition same_releases :: "manipulated_original_event \<Rightarrow> manipulated_original_event \<Rightarrow> bool" where
  "same_releases m m' \<longleftrightarrow>
     (\<forall>ev. outstanding ev m' = outstanding ev m) \<and> (moe_ok m \<longrightarrow> moe_ok m') \<and> settled m' = settled m
     \<and> moe_key_up_posted m' = moe_key_up_posted m"

lemma heap_update_inv:
  assumes "basic_inv D b" "i < length (b_heap b)" "same_releases (b_heap b ! i) m"
  shows "basic_inv D (b\<lparr>b_heap := (b_heap b)[i := m]\<rparr>)"
    and "total_outstanding ev (b\<lparr>b_heap := (b_heap b)[i := m]\<rparr>) = total_outstanding ev b"
proof -
  have "held_down_ready D b h \<Longrightarrow> held_down_ready D (b\<lparr>b_heap := (b_heap b)[i := m]\<rparr>) h" for h
    using assms(2,3) by (auto simp: held_down_ready_def nth_list_update same_releases_def)
  then show "basic_inv D (b\<lparr>b_heap := (b_heap b)[i := m]\<rparr>)"
    using assms unfolding basic_inv_def by (auto simp: nth_list_update same_releases_def)
  show "total_outstanding ev (b\<lparr>b_heap := (b_heap b)[i := m]\<rparr>) = total_outstanding ev b"
    using total_outstanding_update[OF assms(2), of "b\<lparr>b_heap := (b_heap b)[i := m]\<rparr>" m ev] assms(3)
    by (simp add: same_releases_def)
qed

lemma hold_down_ok_heap [simp]: "basic_hold_down_ok P (b\<lparr>b_heap := x\<rparr>) = basic_hold_down_ok P b"
  by (simp add: basic_hold_down_ok_def all_to_events_def)

lemma advances_update_moe:
  assumes "basic_inv D b \<Longrightarrow> i < length (b_heap b)" "\<And>m. same_releases m (f m)"
  shows "advances P D b q (update_moe i f b) q"
  using heap_update_inv[of D b i "f (b_heap b ! i)"] assms
  by (simp add: advances_def update_moe_def logs_eq[OF logs_refl])

lemma same_releases_alone: "same_releases m (unset_alone m)"
  by (simp add: same_releases_def unset_alone_def outstanding_def pending_def settled_def moe_ok_def)

lemma same_releases_erase: "same_releases m (erase_from_event fe m)"
  by (simp add: same_releases_def erase_from_event_def outstanding_def pending_def settled_def moe_ok_def)

lemma same_releases_erase_device: "same_releases m (erase_from_events_by_device_id d m)"
  by (simp add: same_releases_def erase_from_events_by_device_id_def outstanding_def pending_def settled_def
      moe_ok_def)

lemma advances_update_moes:
  assumes "\<And>m. same_releases m (f m)" "basic_inv D b \<Longrightarrow> \<forall>i\<in>set is. i < length (b_heap b)"
  shows "advances P D b q (foldl (\<lambda>b i. update_moe i f b) b is) q"
  using assms(2)
proof (induction "is" arbitrary: b)
  case Nil then show ?case by (simp add: advances_refl)
next
  case (Cons i "is")
  have first: "advances P D b q (update_moe i f b) q"
    by (rule advances_update_moe[OF _ assms(1)]) (use Cons.prems in simp)
  show ?case
  proof (cases "basic_inv D b")
    case True
    then have "\<forall>j\<in>set is. j < length (b_heap (update_moe i f b))"
      using Cons.prems by (simp add: update_moe_def)
    then show ?thesis using advances_trans[OF first Cons.IH] by simp
  next
    case False
    then show ?thesis by (simp add: advances_def)
  qed
qed

lemma advances_unset_alone: "advances P D b q (unset_alone_if_needed ev t b) q"
  unfolding unset_alone_if_needed_def Let_def
  by (simp add: advances_refl) (intro impI advances_update_moes same_releases_alone; simp add: basic_inv_def)

lemma advances_same:
  assumes "b_manipulated_original_events b' = b_manipulated_original_events b" "b_heap b' = b_heap b"
    and "\<And>a i. b_to_delayed_action b' = Some a \<Longrightarrow> da_current_manipulated_original_event a = Some i \<Longrightarrow>
      \<exists>a0. b_to_delayed_action b = Some a0 \<and> da_current_manipulated_original_event a0 = Some i"
    and "\<And>h. b_to_if_held_down b' = Some h \<Longrightarrow> (\<And>h0. b_to_if_held_down b = Some h0 \<Longrightarrow> held_down_ready D b h0) \<Longrightarrow>
      held_down_ready D b h"
    and "basic_hold_down_ok P b \<Longrightarrow> basic_hold_down_ok P b'"
    and "logs q q' (\<lambda>_. 0)"
  shows "advances P D b q b' q'"
proof -
  have ready: "held_down_ready D b' h = held_down_ready D b h" for h
    using assms(1,2) by (simp add: held_down_ready_def)
  have "basic_inv D b \<Longrightarrow> basic_inv D b'"
    using assms(1-4) unfolding basic_inv_def ready by metis
  moreover have "total_outstanding ev b' = total_outstanding ev b" for ev
    using assms(2) by (simp add: total_outstanding_def)
  ultimately show ?thesis using assms(5,6) by (simp add: advances_def)
qed

lemma advances_held_down_cancel:
  "advances P D b q (b\<lparr>b_to_if_held_down := map_option (held_down_cancel en) (b_to_if_held_down b)\<rparr>) q"
proof (rule advances_same)
  fix h
  assume h: "b_to_if_held_down (b\<lparr>b_to_if_held_down := map_option (held_down_cancel en) (b_to_if_held_down b)\<rparr>) = Some h"
    and ready: "\<And>h0. b_to_if_held_down b = Some h0 \<Longrightarrow> held_down_ready D b h0"
  then obtain h0 where "b_to_if_held_down b = Some h0" "h = held_down_cancel en h0" by auto
  then show "held_down_ready D b h"
    using ready[of h0] by (fastforce simp: held_down_cancel_def held_down_ready_def)
next
  assume "basic_hold_down_ok P b"
  then show "basic_hold_down_ok P (b\<lparr>b_to_if_held_down := map_option (held_down_cancel en) (b_to_if_held_down b)\<rparr>)"
    by (auto simp: basic_hold_down_ok_def all_to_events_def held_down_cancel_def split: option.splits if_splits)
qed (simp_all add: logs_refl)

lemma advances_delayed_action_post_events:
  assumes "flag_order_ok ord" "b_to_delayed_action b = Some a0"
    and "da_to_if_invoked a = da_to_if_invoked a0" "da_to_if_canceled a = da_to_if_canceled a0"
    and "da_current_manipulated_original_event a = da_current_manipulated_original_event a0"
    and "delayed_action_post_events P ord invoked a b (w, q) = Some (b', w', q')"
  shows "advances P D b q b' q'"
proof (cases "\<exists>en i. da_front_input_event a = Some en \<and> da_current_manipulated_original_event a = Some i")
  case False
  then have r: "b' = b\<lparr>b_to_delayed_action := Some (a\<lparr>da_current_manipulated_original_event := None\<rparr>)\<rparr>" "q' = q"
    using assms(6) by (auto simp: delayed_action_post_events_def split: option.splits)
  show ?thesis
    unfolding r
    by (rule advances_same)
       (use assms(2-4) in \<open>auto simp: logs_refl basic_hold_down_ok_def all_to_events_def split: option.splits\<close>)
next
  case True
  then obtain en i where ei: "da_front_input_event a = Some en" "da_current_manipulated_original_event a = Some i"
    by blast
  let ?ts = "if invoked then da_to_if_invoked a else da_to_if_canceled a"
  obtain ts' m' where send: "delayed_action_send P ord ?ts en (b_heap b ! i) (w, q) = Some (ts', m', w', q')"
    using assms(6) ei by (auto simp: delayed_action_post_events_def Let_def split: option.splits)
  let ?a = "(if invoked then a\<lparr>da_to_if_invoked := ts'\<rparr> else a\<lparr>da_to_if_canceled := ts'\<rparr>)"
  have b': "b' = (update_moe i (\<lambda>_. m') b)
      \<lparr>b_to_delayed_action := Some (?a\<lparr>da_current_manipulated_original_event := None\<rparr>)\<rparr>"
    using assms(6) ei send by (auto simp: delayed_action_post_events_def Let_def)
  show ?thesis
    unfolding advances_def
  proof (intro impI)
    assume inv: "basic_inv D b \<and> basic_hold_down_ok P b"
    then have i: "i < length (b_heap b)" using assms(2,5) ei(2) by (auto simp: basic_inv_def)
    then have ok: "moe_ok (b_heap b ! i)" using inv by (simp add: basic_inv_def)
    have hold: "\<forall>t\<in>set ?ts. hold_down_ok P t"
      using inv assms(2-4) by (simp add: basic_hold_down_ok_def all_to_events_def)
    note sent = sent_delayed_action[OF assms(1) hold ok send]
    have same: "same_releases (b_heap b ! i) m'"
      using sent(2-5) moe_frame_from_mandatory(3)[OF sent(4)] by (simp add: same_releases_def)
    note heap = heap_update_inv[OF conjunct1[OF inv] i same]
    have "advances P D (update_moe i (\<lambda>_. m') b) q b' q'"
      unfolding b'
      by (rule advances_same)
         (use assms(2-4) sent(1,6) in \<open>auto simp: update_moe_def basic_hold_down_ok_def all_to_events_def
            split: option.splits if_splits\<close>)
    moreover have "advances P D b q (update_moe i (\<lambda>_. m') b) q"
      using heap by (simp add: advances_def update_moe_def logs_eq[OF logs_refl])
    ultimately show "basic_inv D b' \<and> basic_hold_down_ok P b'
        \<and> logs q q' (\<lambda>ev. total_outstanding ev b' - total_outstanding ev b)"
      using inv advances_trans unfolding advances_def by blast
  qed
qed

lemma advances_delayed_action_cancel:
  assumes "flag_order_ok ord" "delayed_action_cancel P ord en b (w, q) = Some (b', w', q')"
  shows "advances P D b q b' q'"
proof (cases "b_to_delayed_action b = None \<or> en_event_type en \<noteq> key_down")
  case True
  then have "b' = b" "q' = q" using assms(2) by (auto simp: delayed_action_cancel_def split: option.splits)
  then show ?thesis by (simp add: advances_refl)
next
  case False
  then obtain a where a: "b_to_delayed_action b = Some a" by auto
  show ?thesis
    by (rule advances_delayed_action_post_events[OF assms(1) a])
       (use assms(2) a False in \<open>auto simp: delayed_action_cancel_def\<close>)
qed

lemma advances_delayed_action_fire:
  assumes "flag_order_ok ord" "delayed_action_fire P ord n b (w, q) = Some (b', w', q')"
  shows "advances P D b q b' q'"
proof (cases "\<exists>a. b_to_delayed_action b = Some a \<and> da_current_delayed_action_id a = n")
  case False
  then have "b' = b" "q' = q"
    using assms(2) by (auto simp: delayed_action_fire_def split: option.splits if_splits)
  then show ?thesis by (simp add: advances_refl)
next
  case True
  then obtain a where a: "b_to_delayed_action b = Some a" "da_current_delayed_action_id a = n" by blast
  show ?thesis
    by (rule advances_delayed_action_post_events[OF assms(1) a(1)])
       (use assms(2) a in \<open>auto simp: delayed_action_fire_def\<close>)
qed

lemma logs_emplace_single:
  assumes "q_events (snd s) = q_events q" "en_event_type en = single"
  shows "logs q (snd (emplace_back_entry P en s)) (\<lambda>_. 0)"
  using assms unfolding logs_def by (intro exI[of _ "[delay_entry (q_time_stamp_delay (snd s)) en]"])
    (simp add: emplace_back_entry_fields delay_entry_def)

lemma advances_decide_key_down:
  assumes "decide_key_down P now en entries b (w, q) = (v, en', b', w', q')"
  shows "advances P D b q b' q'" "en_event_type en' = en_event_type en"
proof -
  have "(b' = b \<or> (\<exists>cs. b' = b\<lparr>b_conditions := cs\<rparr>)) \<and> logs q q' (\<lambda>_. 0) \<and> en_event_type en' = en_event_type en"
  proof (cases "b_validity b = invalid \<or> test_modifiers (q_modifier_flags q) (from_modifiers (b_from b)) = None")
    case True
    then show ?thesis using assms by (auto simp: decide_key_down_def logs_refl split: if_splits)
  next
    case False
    then have valid: "b_validity b \<noteq> invalid" by blast
    from False obtain mandatory where m: "test_modifiers (q_modifier_flags q) (from_modifiers (b_from b)) = Some mandatory"
      by auto
    obtain fulfilled cs w1 env where c: "condition_manager_is_fulfilled P en (b_conditions b) (w, q_environment q)
        = (fulfilled, cs, w1, env)" by (metis prod_cases4)
    let ?q = "q\<lparr>q_environment := env\<rparr>"
    let ?stop = "\<lambda>ets. emplace_back_entry P (make_entry (en_device_id en) ets Ev_stop_keyboard_repeat single
        (en_original_event en) st_virtual_event True) (w1, ?q)"
    have stop: "logs q (snd (?stop ets)) (\<lambda>_. 0)" for ets
      by (rule logs_emplace_single) (simp_all add: make_entry_def)
    have "logs q ?q (\<lambda>_. 0)" by (rule logs_same) simp
    moreover note decide_key_down_shape[OF valid _ _ refl refl refl, of "(w, q)", unfolded fst_conv snd_conv, OF m c,
        of now entries]
    then have "(\<exists>ets. (w', q') = ?stop ets) \<or> q' = ?q" "b' = b\<lparr>b_conditions := cs\<rparr>"
        "en_event_type en' = en_event_type en"
      using assms by (auto split: if_splits)
    ultimately show ?thesis using stop by (metis snd_conv)
  qed
  then show "advances P D b q b' q'" "en_event_type en' = en_event_type en"
    by (auto intro!: advances_same simp: basic_hold_down_ok_def all_to_events_def)
qed

subsection \<open>After the events have been sent\<close>

lemma held_down_setup_fields:
  "hd_to (held_down_setup P en i t h) = hd_to h"
  "hd_current_held_down_id (held_down_setup P en i t h) = hd_current_held_down_id h + 1"
  "en_event_type en \<noteq> key_down \<Longrightarrow> hd_pending (held_down_setup P en i t h) = hd_pending h"
  by (simp_all add: held_down_setup_def Let_def)

lemma delayed_action_setup_fields:
  "da_to_if_invoked (delayed_action_setup P en i t a) = da_to_if_invoked a"
  "da_to_if_canceled (delayed_action_setup P en i t a) = da_to_if_canceled a"
  "da_current_manipulated_original_event (delayed_action_setup P en i t a) \<in>
     {da_current_manipulated_original_event a} \<union> (if en_event_type en = key_down then {Some i} else {})"
  by (simp_all add: delayed_action_setup_def Let_def)

lemma finish_manipulated_queue:
  assumes "finish_manipulated P en i b s = (b', w', q')"
  shows "q_events q' = q_events (out_queue s)"
  using assms by (auto simp: finish_manipulated_def Let_def increase_time_stamp_delay_def split: if_splits)

lemma finish_manipulated_fields:
  assumes "finish_manipulated P en i b s = (b', w', q')"
  shows "b_heap b' = b_heap b" "b_manipulated_original_events b' = b_manipulated_original_events b"
    and "all_to_events b' = all_to_events b"
    and "b_to_if_held_down b' = map_option (held_down_setup P en i
           (bp_to_if_held_down_threshold_milliseconds (b_parameters b))) (b_to_if_held_down b)"
    and "b_to_delayed_action b' = map_option (delayed_action_setup P en i
           (bp_to_delayed_action_delay_milliseconds (b_parameters b))) (b_to_delayed_action b)"
  using assms
  by (auto simp: finish_manipulated_def Let_def all_to_events_def held_down_setup_fields
      delayed_action_setup_fields split: option.splits)

lemma advances_finish:
  assumes "finish_manipulated P en i b s = (b', w', q')"
    and "en_event_type en = key_down \<Longrightarrow>
      i \<in> set (b_manipulated_original_events b) \<and> \<not> moe_key_up_posted (b_heap b ! i)"
  shows "advances P D b (out_queue s) b' q'"
  unfolding advances_def
proof (intro impI)
  note fields = finish_manipulated_fields[OF assms(1)]
  assume inv: "basic_inv D b \<and> basic_hold_down_ok P b"
  have delayed: "i' < length (b_heap b)"
    if a: "b_to_delayed_action b' = Some a" "da_current_manipulated_original_event a = Some i'" for a i'
  proof -
    obtain a0 where a0: "b_to_delayed_action b = Some a0" "a = delayed_action_setup P en i
        (bp_to_delayed_action_delay_milliseconds (b_parameters b)) a0"
      using a(1)[unfolded fields(5)] by auto
    have "da_current_manipulated_original_event a0 = Some i' \<or> en_event_type en = key_down \<and> i' = i"
      using delayed_action_setup_fields(3)[of P en i "bp_to_delayed_action_delay_milliseconds (b_parameters b)" a0] a(2) a0(2) by (auto split: if_splits)
    then show ?thesis using inv a0(1) assms(2) by (auto simp: basic_inv_def)
  qed
  have held: "held_down_ready D b' h" if h: "b_to_if_held_down b' = Some h" for h
  proof -
    obtain h0 where h0: "b_to_if_held_down b = Some h0" "h = held_down_setup P en i
        (bp_to_if_held_down_threshold_milliseconds (b_parameters b)) h0"
      using h[unfolded fields(4)] by auto
    then have ids: "\<forall>p\<in>set (hd_pending h0). fst p \<le> hd_current_held_down_id h0"
      using inv by (auto simp: basic_inv_def held_down_ready_def)
    show ?thesis
      using ids assms(2)
      by (auto simp: h0(2) held_down_ready_def held_down_setup_def Let_def fields(1,2))
  qed
  have "logs (out_queue s) q' (\<lambda>ev. total_outstanding ev b' - total_outstanding ev b)"
    using logs_same[OF finish_manipulated_queue[OF assms(1)]] by (simp add: total_outstanding_def fields(1))
  moreover have "basic_inv D b'" using inv delayed held by (simp add: basic_inv_def fields(1,2))
  ultimately show "basic_inv D b' \<and> basic_hold_down_ok P b'
      \<and> logs (out_queue s) q' (\<lambda>ev. total_outstanding ev b' - total_outstanding ev b)"
    using inv by (simp add: basic_hold_down_ok_def fields(3))
qed

subsection \<open>Key down\<close>

lemma advances_push:
  assumes "settled m" "moe_ok m" "push_manipulated_original_event m b = (i, b')"
  shows "advances P D b q b' q" "i \<in> set (b_manipulated_original_events b')" "b_heap b' ! i = m"
    and "i < length (b_heap b')"
proof -
  have b': "b' = b\<lparr>b_manipulated_original_events := b_manipulated_original_events b @ [length (b_heap b)],
        b_heap := b_heap b @ [m]\<rparr>" and i: "i = length (b_heap b)"
    using assms(3) unfolding push_manipulated_original_event_def by auto
  have "basic_inv D b'" if inv: "basic_inv D b"
  proof (rule basic_invI)
    have old: "j \<in> set (b_manipulated_original_events b) \<union> D \<Longrightarrow> j < length (b_heap b)" for j
      by (rule basic_invD(2)[OF inv])
    fix h
    assume "b_to_if_held_down b' = Some h"
    then have "held_down_ready D b h" using basic_invD(7)[OF inv] by (simp add: b')
    then show "held_down_ready D b' h"
      using old by (auto simp: held_down_ready_def b' nth_append)
  next
    show "distinct (b_manipulated_original_events b')" using basic_invD(1,2)[OF inv] by (auto simp: b')
  next
    fix j
    assume "j < length (b_heap b')"
    then show "moe_ok (b_heap b' ! j)"
      using basic_invD(3)[OF inv, of j] assms(2) by (auto simp: b' nth_append less_Suc_eq)
  next
    fix j
    assume "j < length (b_heap b')" "j \<notin> set (b_manipulated_original_events b') \<union> D \<or> moe_key_up_posted (b_heap b' ! j)"
    then show "settled (b_heap b' ! j)"
      using basic_invD(4,5)[OF inv, of j] assms(1) by (auto simp: b' nth_append less_Suc_eq split: if_splits)
  qed (use basic_invD(2,6)[OF inv] in \<open>auto simp: b' intro: less_SucI\<close>)
  then show "advances P D b q b' q"
    using settled_outstanding[OF assms(1)] unfolding advances_def
    by (auto simp: b' total_outstanding_def basic_hold_down_ok_def all_to_events_def logs_eq[OF logs_refl])
  show "i \<in> set (b_manipulated_original_events b')" "b_heap b' ! i = m" "i < length (b_heap b')"
    by (simp_all add: b' i)
qed

text \<open>New contents for a record of the vector whose key up has not been posted.\<close>

lemma advances_sent:
  assumes "i \<in> set (b_manipulated_original_events b) \<union> D" "\<not> moe_key_up_posted (b_heap b ! i)"
    and "sent q (b_heap b ! i) q' m"
    and "b_heap b' = (b_heap b)[i := m]" "b_manipulated_original_events b' = b_manipulated_original_events b"
    and "\<And>a i. b_to_delayed_action b' = Some a \<Longrightarrow> da_current_manipulated_original_event a = Some i \<Longrightarrow>
      \<exists>a0. b_to_delayed_action b = Some a0 \<and> da_current_manipulated_original_event a0 = Some i"
    and "\<And>h. b_to_if_held_down b' = Some h \<Longrightarrow> \<exists>h0. b_to_if_held_down b = Some h0
      \<and> hd_pending h = hd_pending h0 \<and> hd_current_held_down_id h = hd_current_held_down_id h0
      \<and> hd_current_manipulated_original_event h = hd_current_manipulated_original_event h0"
    and "basic_hold_down_ok P b \<Longrightarrow> basic_hold_down_ok P b'"
  shows "advances P D b q b' q'"
  unfolding advances_def
proof (intro impI)
  assume inv: "basic_inv D b \<and> basic_hold_down_ok P b"
  then have i: "i < length (b_heap b)" using assms(1) by (simp add: basic_inv_def)
  have m: "moe_ok m" "\<not> moe_key_up_posted m"
    using assms(2) sentD[OF assms(3)] by simp_all
  have held: "held_down_ready D b' h" if h: "b_to_if_held_down b' = Some h" for h
  proof -
    obtain h0 where h0: "b_to_if_held_down b = Some h0" "hd_pending h = hd_pending h0"
      "hd_current_held_down_id h = hd_current_held_down_id h0"
      "hd_current_manipulated_original_event h = hd_current_manipulated_original_event h0"
      using assms(7)[OF h] by blast
    then have "held_down_ready D b h0" using inv by (simp add: basic_inv_def)
    then show ?thesis
      using h0(2-4) m(2) i by (auto simp: held_down_ready_def assms(4,5) nth_list_update)
  qed
  have delayed: "j < length (b_heap b)"
    if "b_to_delayed_action b' = Some a" "da_current_manipulated_original_event a = Some j" for a j
    using assms(6)[OF that] inv by (auto simp: basic_inv_def)
  note binv = basic_invD[OF conjunct1[OF inv]]
  have "basic_inv D b'"
  proof (rule basic_invI)
    fix j
    assume "j < length (b_heap b')"
    then show "moe_ok (b_heap b' ! j)" using binv(3)[of j] m i by (simp add: assms(4) nth_list_update)
  next
    fix j
    assume "j < length (b_heap b')" "j \<notin> set (b_manipulated_original_events b') \<union> D \<or> moe_key_up_posted (b_heap b' ! j)"
    then show "settled (b_heap b' ! j)"
      using binv(4,5)[of j] assms(1) m i by (auto simp: assms(4,5) nth_list_update split: if_splits)
  qed (use binv(1,2) held delayed in \<open>simp_all add: assms(4,5)\<close>)
  moreover have "logs q q' (\<lambda>ev. total_outstanding ev b' - total_outstanding ev b)"
    using assms(3) total_outstanding_update[OF i assms(4)] by (simp add: sent_def)
  ultimately show "basic_inv D b' \<and> basic_hold_down_ok P b'
      \<and> logs q q' (\<lambda>ev. total_outstanding ev b' - total_outstanding ev b)"
    using inv assms(8) by blast
qed

lemma advances_key_down:
  assumes "flag_order_ok ord" "settled m" "moe_ok m" "\<not> moe_key_up_posted m"
    and "push_manipulated_original_event m b = (i, b5)"
    and "send_key_down P ord en i b5 (0, w, q) = (b6, s6)"
    and "finish_manipulated P en i b6 s6 = (b', w', q')"
  shows "advances P D b q b' q'"
proof (cases "basic_inv D b \<and> basic_hold_down_ok P b")
  case False
  then show ?thesis by (auto simp: advances_def)
next
  case True
  note push = advances_push[OF assms(2,3,5)]
  have hold: "basic_hold_down_ok P b5" using push(1) True unfolding advances_def by blast
  obtain m6 to' where 6: "b6 = b5\<lparr>b_heap := (b_heap b5)[i := m6], b_to := to'\<rparr>" "\<forall>t\<in>set to'. hold_down_ok P t"
      "sent (out_queue (0, w, q)) (b_heap b5 ! i) (out_queue s6) m6"
    by (rule sent_key_down[OF assms(1) hold push(4) _ assms(6)]) (simp add: push(3) assms(3))
  have "advances P D b5 q b6 (out_queue s6)"
    by (rule advances_sent[OF UnI1[OF push(2)] _ 6(3)[unfolded snd_conv]])
       (use 6(1,2) push(3) assms(4) in \<open>auto simp: basic_hold_down_ok_def all_to_events_def\<close>)
  moreover have "moe_key_up_posted m6 = moe_key_up_posted m"
    using sentD(3)[OF 6(3)] push(3) by simp
  then have "advances P D b6 (out_queue s6) b' q'"
    by (intro advances_finish[OF assms(7)]) (use 6(1) push(2,4) assms(4) in simp)
  ultimately have "advances P D b5 q b' q'" by (rule advances_trans)
  then show ?thesis by (rule advances_trans[OF push(1)])
qed

subsection \<open>Key up\<close>

text \<open>A record of the vector becomes settled, and may leave the vector.\<close>

lemma advances_settled:
  assumes "i \<in> set (b_manipulated_original_events b)"
    and "basic_inv D b \<Longrightarrow> logs q q' (\<lambda>ev. outstanding ev m - outstanding ev (b_heap b ! i))"
    and "basic_inv D b \<Longrightarrow> moe_ok m \<and> settled m"
    and "b_heap b' = (b_heap b)[i := m]"
    and "b_manipulated_original_events b' = b_manipulated_original_events b
      \<or> b_manipulated_original_events b' = remove1 i (b_manipulated_original_events b)"
    and "\<And>a i. b_to_delayed_action b' = Some a \<Longrightarrow> da_current_manipulated_original_event a = Some i \<Longrightarrow>
      \<exists>a0. b_to_delayed_action b = Some a0 \<and> da_current_manipulated_original_event a0 = Some i"
    and "\<And>h. b_to_if_held_down b' = Some h \<Longrightarrow> \<exists>h0. b_to_if_held_down b = Some h0
      \<and> hd_pending h = hd_pending h0 \<and> hd_current_held_down_id h = hd_current_held_down_id h0 + 1"
    and "basic_inv D b \<Longrightarrow> basic_hold_down_ok P b \<Longrightarrow> basic_hold_down_ok P b'"
  shows "advances P D b q b' q'"
  unfolding advances_def
proof (intro impI)
  assume inv: "basic_inv D b \<and> basic_hold_down_ok P b"
  note binv = basic_invD[OF conjunct1[OF inv]]
  have i: "i < length (b_heap b)" using UnI1[OF assms(1)] by (rule binv(2))
  have sub: "set (b_manipulated_original_events b') \<subseteq> set (b_manipulated_original_events b)"
    using assms(5) set_remove1_subset by fastforce
  have others: "j \<in> set (b_manipulated_original_events b') \<or> j = i"
    if "j \<in> set (b_manipulated_original_events b)" for j
    using that assms(5) by auto
  have "basic_inv D b'"
  proof (rule basic_invI)
    show "distinct (b_manipulated_original_events b')" using binv(1) assms(5) by auto
  next
    fix j
    assume "j \<in> set (b_manipulated_original_events b') \<union> D"
    then show "j < length (b_heap b')" using sub binv(2) by (auto simp: assms(4))
  next
    fix j
    assume "j < length (b_heap b')"
    then show "moe_ok (b_heap b' ! j)"
      using binv(3)[of j] assms(3) inv i by (simp add: assms(4) nth_list_update)
  next
    fix j
    assume "j < length (b_heap b')" "j \<notin> set (b_manipulated_original_events b') \<union> D \<or> moe_key_up_posted (b_heap b' ! j)"
    then show "settled (b_heap b' ! j)"
      using binv(4,5)[of j] others[of j] assms(3) inv i by (auto simp: assms(4) nth_list_update split: if_splits)
  next
    fix a j
    assume "b_to_delayed_action b' = Some a" "da_current_manipulated_original_event a = Some j"
    then show "j < length (b_heap b')" using assms(6) binv(6) by (auto simp: assms(4))
  next
    fix h
    assume "b_to_if_held_down b' = Some h"
    then obtain h0 where h0: "b_to_if_held_down b = Some h0" "hd_pending h = hd_pending h0"
        "hd_current_held_down_id h = hd_current_held_down_id h0 + 1"
      using assms(7) by blast
    then have "\<forall>p\<in>set (hd_pending h0). fst p \<le> hd_current_held_down_id h0"
      using binv(7) by (simp add: held_down_ready_def)
    then show "held_down_ready D b' h" by (fastforce simp: held_down_ready_def h0(2,3))
  qed
  moreover have "logs q q' (\<lambda>ev. total_outstanding ev b' - total_outstanding ev b)"
    using assms(2) inv total_outstanding_update[OF i assms(4)] by simp
  ultimately show "basic_inv D b' \<and> basic_hold_down_ok P b'
      \<and> logs q q' (\<lambda>ev. total_outstanding ev b' - total_outstanding ev b)"
    using inv assms(8) by blast
qed

lemma take_fields:
  assumes "take_manipulated_original_event en b = Some (i, b5)"
  shows "i \<in> set (b_manipulated_original_events b)"
    and "b5 = b\<lparr>b_heap := (b_heap b)[i := erase_from_event (from_event_of en) (b_heap b ! i)],
           b_manipulated_original_events := b_manipulated_original_events b5\<rparr>"
    and "i < length (b_heap b) \<Longrightarrow> b_manipulated_original_events b5 =
      (if moe_from_events (b_heap b5 ! i) = {} then remove1 i (b_manipulated_original_events b)
       else b_manipulated_original_events b)"
  using assms
  by (auto simp: take_manipulated_original_event_def Let_def update_moe_def find_Some_iff
      split: option.splits if_splits)

lemma advances_key_up:
  assumes "flag_order_ok ord" "en_event_type en \<noteq> key_down"
    and "take_manipulated_original_event en0 b = Some (i, b5)"
    and "send_key_up P ord en i b5 (0, w, q) = Some (b6, s6)"
    and "finish_manipulated P en i b6 s6 = (b', w', q')"
  shows "advances P D b q b' q'"
proof (cases "basic_inv D b \<and> basic_hold_down_ok P b")
  case False
  then show ?thesis by (auto simp: advances_def)
next
  case True
  note binv = basic_invD[OF conjunct1[OF True]]
  note take = take_fields[OF assms(3)]
  have i: "i < length (b_heap b)" using UnI1[OF take(1)] by (rule binv(2))
  let ?e = "erase_from_event (from_event_of en0) (b_heap b ! i)"
  have b5: "b5 = b\<lparr>b_heap := (b_heap b)[i := ?e], b_manipulated_original_events := b_manipulated_original_events b5\<rparr>"
    by (rule take(2))
  have heap5: "b_heap b5 = (b_heap b)[i := ?e]" by (subst b5) simp
  then have e: "b_heap b5 ! i = ?e" using i by simp
  have vec: "b_manipulated_original_events b5 =
      (if moe_from_events ?e = {} then remove1 i (b_manipulated_original_events b)
       else b_manipulated_original_events b)"
    using take(3)[OF i] e by simp
  have same: "same_releases (b_heap b ! i) ?e" by (rule same_releases_erase)
  show ?thesis
  proof (cases "so_key_up_when (from_simultaneous_options (b_from b5)) = key_up_when_all \<and> moe_from_events ?e \<noteq> {}")
    case wait: True
    then have s6: "b6 = b5" "s6 = (0, w, q)" using assms(4) e by (simp_all add: send_key_up_def Let_def)
    have "b5 = b\<lparr>b_heap := (b_heap b)[i := ?e]\<rparr>" using b5 vec wait by simp
    then have "advances P D b q b5 q"
      using heap_update_inv[OF conjunct1[OF True] i same] True
      by (simp add: advances_def logs_eq[OF logs_refl])
    moreover have "advances P D b5 q b' q'"
      using advances_finish[OF assms(5)] assms(2) s6 by simp
    ultimately show ?thesis by (rule advances_trans)
  next
    case send: False
    have hold5: "basic_hold_down_ok P b5"
      using True by (subst b5) (simp add: basic_hold_down_ok_def all_to_events_def)
    have i5: "i < length (b_heap b5)" using i heap5 by simp
    have ok5: "moe_ok (b_heap b5 ! i)" "moe_key_up_posted (b_heap b5 ! i) \<Longrightarrow> settled (b_heap b5 ! i)"
      using same binv(3,5)[OF i] unfolding e same_releases_def by blast+
    obtain m alone' after' so_after' where
      b6: "b6 = b5\<lparr>b_heap := (b_heap b5)[i := m], b_to_if_alone := alone', b_to_after_key_up := after',
            b_from := (b_from b5)\<lparr>from_simultaneous_options :=
              (from_simultaneous_options (b_from b5))\<lparr>so_to_after_key_up := so_after'\<rparr>\<rparr>\<rparr>"
      and ok: "\<forall>t\<in>set (alone' @ after' @ so_after'). hold_down_ok P t"
      and log: "logs (out_queue (0, w, q)) (out_queue s6) (\<lambda>ev. outstanding ev m - outstanding ev (b_heap b5 ! i))"
      and m: "moe_ok m" "settled m"
      by (rule sent_key_up[OF assms(1) hold5 i5 ok5(1,2) assms(4) send[folded e]])
    note fields = finish_manipulated_fields[OF assms(5)]
    have hold: "basic_hold_down_ok P b'"
      using hold5 ok by (simp add: basic_hold_down_ok_def fields(3)) (simp add: all_to_events_def b6 ball_Un)
    have out: "outstanding ev (b_heap b5 ! i) = outstanding ev (b_heap b ! i)" for ev
      using same unfolding e same_releases_def by blast
    have "logs q q' (\<lambda>ev. outstanding ev m - outstanding ev (b_heap b ! i))"
      using logs_trans[OF log logs_same[OF finish_manipulated_queue[OF assms(5)]]] by (simp add: out)
    moreover have "b_heap b' = (b_heap b)[i := m]" by (simp add: fields(1) b6 heap5)
    moreover have vec': "b_manipulated_original_events b' = b_manipulated_original_events b
        \<or> b_manipulated_original_events b' = remove1 i (b_manipulated_original_events b)"
      by (simp add: fields(2) b6 vec)
    moreover have hd6: "b_to_if_held_down b6 = b_to_if_held_down b" "b_to_delayed_action b6 = b_to_delayed_action b"
      by (simp_all add: b6) (subst b5, simp)+
    have "\<exists>a0. b_to_delayed_action b = Some a0 \<and> da_current_manipulated_original_event a0 = Some j"
      if a: "b_to_delayed_action b' = Some a" "da_current_manipulated_original_event a = Some j" for a j
      using a[unfolded fields(5) hd6] assms(2) by (auto simp: delayed_action_setup_def)
    moreover have "\<exists>h0. b_to_if_held_down b = Some h0
        \<and> hd_pending h = hd_pending h0 \<and> hd_current_held_down_id h = hd_current_held_down_id h0 + 1"
      if h: "b_to_if_held_down b' = Some h" for h
      using h[unfolded fields(4) hd6] assms(2) by (auto simp: held_down_setup_fields)
    ultimately show ?thesis
      using hold m by (intro advances_settled[OF take(1), of D q q' m b']) blast+
  qed
qed

subsection \<open>The callback of to_if_held_down\<close>

lemma advances_held_down_fire:
  assumes "flag_order_ok ord" "b_to_if_held_down b = Some h" "(n, t) \<in> set (hd_pending h)"
    and "held_down_fire P ord n b (w, q) = (b', w', q')"
  shows "advances P D b q b' q'"
proof (cases "(basic_inv D b \<and> basic_hold_down_ok P b) \<and> (b', q') \<noteq> (b, q)")
  case False
  then show ?thesis using advances_refl by (auto simp: advances_def logs_eq[OF logs_refl])
next
  case True
  then have inv: "basic_inv D b" and hold: "\<forall>t\<in>set (hd_to h). hold_down_ok P t"
    using assms(2) by (auto simp: basic_hold_down_ok_def all_to_events_def)
  obtain en i where ei: "hd_current_held_down_id h = n" "hd_front_input_event h = Some en"
      "hd_current_manipulated_original_event h = Some i" "moe_alive b i"
    using True assms(2,4) by (auto simp: held_down_fire_def split: option.splits if_splits)
  have "held_down_ready D b h" using basic_invD(7)[OF inv assms(2)] .
  then have i: "i \<in> set (b_manipulated_original_events b) \<union> D" "\<not> moe_key_up_posted (b_heap b ! i)"
    using assms(3) ei(1,3) unfolding held_down_ready_def by force+
  then have ok: "moe_ok (b_heap b ! i)" using basic_invD(2,3)[OF inv] by blast
  obtain m1 s1 where 1: "post_events_at_key_up P en (b_heap b ! i, 0, w, q) = (m1, s1)" by (metis prod.collapse)
  obtain m2 s2 where 2: "post_from_mandatory_modifiers_key_down P ord en (m1, s1) = (m2, s2)" by (metis prod.collapse)
  obtain m3 s3 where 3: "post_from_mandatory_modifiers_key_up P ord en (m2, s2) = (m3, s3)" by (metis prod.collapse)
  obtain to' m4 s4 where 4: "post_events_at_key_down P en (hd_to h) (m3, s3) = (to', m4, s4)"
    by (metis prod.collapse)
  obtain m5 s5 where 5: "(if \<not> is_last_to_event_modifier_key_event (hd_to h)
      then post_from_mandatory_modifiers_key_down P ord en (m4, s4) else (m4, s4)) = (m5, s5)" by (metis prod.collapse)
  have res: "b' = (update_moe i (\<lambda>_. m5) b)\<lparr>b_to_if_held_down := Some (h\<lparr>hd_to := to'\<rparr>)\<rparr>" "q' = out_queue s5"
    using assms(4) by (simp_all add: held_down_fire_def assms(2) ei Let_def 1 2 3 4 5)
  note p1 = sent_post_events_at_key_up(1)[OF ok 1]
  note p2 = sent_mandatory_key_down(1)[OF assms(1) sentD(2)[OF p1] 2]
  note p3 = sent_mandatory_key_up(1)[OF assms(1) sentD(2)[OF p2] 3]
  note p4 = sent_post_events_at_key_down[OF hold sentD(2)[OF p3] 4]
  have p5: "sent (out_queue s4) m4 (out_queue s5) m5"
    using 5 sent_mandatory_key_down(1)[OF assms(1) sentD(2)[OF p4]] sent_refl[OF sentD(2)[OF p4]]
    by (auto split: if_splits)
  have "sent q (b_heap b ! i) q' m5"
    using sent_trans[OF sent_trans[OF sent_trans[OF sent_trans[OF p1 p2] p3] p4] p5] res(2) by simp
  moreover have "\<forall>t\<in>set to'. hold_down_ok P t" using post_events_at_key_down_frame(3)[OF 4 hold] .
  then have "basic_hold_down_ok P b'"
    using True assms(2) by (auto simp: basic_hold_down_ok_def all_to_events_def res(1) update_moe_def)
  ultimately show ?thesis
    by (intro advances_sent[OF i]) (auto simp: res(1) update_moe_def assms(2))
qed

subsection \<open>Runs\<close>

lemma advances_manipulate:
  assumes "flag_order_ok ord" "basic_manipulate P ord now en entries b (w, q) = Some (r, en', b', w', q')"
  shows "advances P D b q b' q'"
proof -
  define b2 where "b2 = (unset_alone_if_needed (en_event en) (en_event_type en) b)\<lparr>b_to_if_held_down :=
      map_option (held_down_cancel en) (b_to_if_held_down (unset_alone_if_needed (en_event en) (en_event_type en) b))\<rparr>"
  obtain b3 w3 q3 where c: "delayed_action_cancel P ord en b2 (w, q) = Some (b3, w3, q3)"
    using assms(2) by (auto simp: basic_manipulate_def Let_def b2_def split: option.splits)
  have "advances P D b q b2 q"
    unfolding b2_def by (rule advances_trans[OF advances_unset_alone advances_held_down_cancel])
  then have a3: "advances P D b q b3 q3"
    using advances_delayed_action_cancel[OF assms(1) c] advances_trans by blast
  have body: "(if en_validity en = invalid \<or> \<not> test_from_event (en_event en) (b_from b3)
       then Some (mr_passed, en, b3, w3, q3)
       else case en_event_type en of
         key_down \<Rightarrow>
           (case decide_key_down P now en entries b3 (w3, q3) of
              (Kd_not_target, en', b4, s4) \<Rightarrow> Some (mr_passed, en', b4, s4)
            | (Kd_wait, en', b4, s4) \<Rightarrow> Some (mr_needs_wait_until_time_stamp, en', b4, s4)
            | (Kd_target froms mandatory, en', b4, s4) \<Rightarrow>
                (let (i, b5) = push_manipulated_original_event
                       (make_manipulated_original_event froms mandatory (en_time_stamp en')
                          (make_modifier_flags (q_modifier_flags (snd s4)))) b4;
                     en'' = en'\<lparr>en_validity := invalid\<rparr>;
                     (b6, s6) = send_key_down P ord en'' i b5 (0, s4)
                 in Some (mr_manipulated, en'', finish_manipulated P en'' i b6 s6)))
       | key_up \<Rightarrow>
           (case take_manipulated_original_event en b3 of
              None \<Rightarrow> Some (mr_passed, en, b3, w3, q3)
            | Some (i, b5) \<Rightarrow>
                (let en' = en\<lparr>en_validity := invalid\<rparr>
                 in case send_key_up P ord en' i b5 (0, w3, q3) of
                      None \<Rightarrow> None
                    | Some (b6, s6) \<Rightarrow> Some (mr_manipulated, en', finish_manipulated P en' i b6 s6)))
       | single \<Rightarrow> Some (mr_passed, en, b3, w3, q3)) = Some (r, en', b', w', q')"
    using assms(2) by (simp add: basic_manipulate_def Let_def b2_def[symmetric] c cong: if_cong)
  have "advances P D b3 q3 b' q'"
  proof (cases "b' = b3 \<and> q' = q3")
    case True then show ?thesis by (simp add: advances_refl)
  next
    case False
    then have t: "\<not> (en_validity en = invalid \<or> \<not> test_from_event (en_event en) (b_from b3))" "en_event_type en \<noteq> single"
      using body by (auto split: if_splits)
    show ?thesis
    proof (cases "en_event_type en")
      case single then show ?thesis using t by simp
    next
      case key_up
      then obtain i b5 b6 s6 where k: "take_manipulated_original_event en b3 = Some (i, b5)"
          "send_key_up P ord (en\<lparr>en_validity := invalid\<rparr>) i b5 (0, w3, q3) = Some (b6, s6)"
          "finish_manipulated P (en\<lparr>en_validity := invalid\<rparr>) i b6 s6 = (b', w', q')"
        using body t False by (auto simp: Let_def split: option.splits)
      show ?thesis using advances_key_up[OF assms(1) _ k] key_up by simp
    next
      case key_down
      obtain v en4 b4 w4 q4 where d: "decide_key_down P now en entries b3 (w3, q3) = (v, en4, b4, w4, q4)"
        by (metis prod_cases5)
      note d4 = advances_decide_key_down[OF d]
      show ?thesis
      proof (cases v)
        case (Kd_target froms mandatory)
        let ?m = "make_manipulated_original_event froms mandatory (en_time_stamp en4)
            (make_modifier_flags (q_modifier_flags q4))"
        let ?en = "en4\<lparr>en_validity := invalid\<rparr>"
        obtain i b5 where p: "push_manipulated_original_event ?m b4 = (i, b5)" by (metis prod.collapse)
        obtain b6 s6 where k: "send_key_down P ord ?en i b5 (0, w4, q4) = (b6, s6)" by (metis prod.collapse)
        have f: "finish_manipulated P ?en i b6 s6 = (b', w', q')"
          using body t key_down by (auto simp: d Kd_target p k Let_def)
        have "advances P D b4 q4 b' q'"
          by (rule advances_key_down[OF assms(1) _ _ _ p k f])
             (simp_all add: make_manipulated_original_event_def settled_def moe_ok_def)
        then show ?thesis using d4(1) advances_trans by blast
      qed (use body t key_down d d4(1) in simp_all)
    qed
  qed
  then show ?thesis using a3 advances_trans by blast
qed

text \<open>The entries appended to the output queue by a call.\<close>

definition appended :: "event_queue \<Rightarrow> event_queue \<Rightarrow> entry list" where
  "appended q q' = drop (length (q_events q)) (q_events q')"

text \<open>
  The runs of one basic manipulator: the calls of its manager and the callbacks of its timers, in any
  order. \<open>ens\<close> is what they have appended, and \<open>D\<close> the records that
  \<open>handle_device_ungrabbed_event\<close> has dropped from the vector.
\<close>

definition dropped_records :: "device_id \<Rightarrow> basic \<Rightarrow> moe_id set" where
  "dropped_records d b =
     set (b_manipulated_original_events b)
     - set (b_manipulated_original_events (basic_handle_device_ungrabbed_event d b))"

inductive basic_run ::
    "platform \<Rightarrow> flag_order \<Rightarrow> basic \<Rightarrow> basic \<Rightarrow> entry list \<Rightarrow> moe_id set \<Rightarrow> bool"
  for P ord b0 where
  run_start: "basic_run P ord b0 b0 [] {}"
| run_manipulate: "basic_run P ord b0 b ens D \<Longrightarrow>
    basic_manipulate P ord now en entries b (w, q) = Some (r, en', b', w', q') \<Longrightarrow>
    basic_run P ord b0 b' (ens @ appended q q') D"
| run_held_down: "basic_run P ord b0 b ens D \<Longrightarrow>
    b_to_if_held_down b = Some h \<Longrightarrow> (n, t) \<in> set (hd_pending h) \<Longrightarrow>
    held_down_fire P ord n b (w, q) = (b', w', q') \<Longrightarrow>
    basic_run P ord b0 b' (ens @ appended q q') D"
| run_delayed_action: "basic_run P ord b0 b ens D \<Longrightarrow>
    b_to_delayed_action b = Some a \<Longrightarrow> (n, t) \<in> set (da_pending a) \<Longrightarrow>
    delayed_action_fire P ord n b (w, q) = Some (b', w', q') \<Longrightarrow>
    basic_run P ord b0 b' (ens @ appended q q') D"
| run_ungrabbed: "basic_run P ord b0 b ens D \<Longrightarrow>
    basic_run P ord b0 (basic_handle_device_ungrabbed_event d b) ens (D \<union> dropped_records d b)"
| run_event_tap: "basic_run P ord b0 b ens D \<Longrightarrow>
    basic_run P ord b0 (basic_handle_pointing_device_event_from_event_tap en b) ens D"
| run_set_validity: "basic_run P ord b0 b ens D \<Longrightarrow> basic_run P ord b0 (b\<lparr>b_validity := v\<rparr>) ens D"

text \<open>A manipulator as its constructor leaves it.\<close>

definition basic_fresh :: "basic \<Rightarrow> bool" where
  "basic_fresh b \<longleftrightarrow>
     b_heap b = [] \<and> b_manipulated_original_events b = []
     \<and> (case b_to_if_held_down b of None \<Rightarrow> True | Some h \<Rightarrow> hd_pending h = [])
     \<and> (case b_to_delayed_action b of
          None \<Rightarrow> True | Some a \<Rightarrow> da_current_manipulated_original_event a = None)"

lemma advances_appended:
  assumes "advances P D b q b' q'" "basic_inv D b \<and> basic_hold_down_ok P b"
  shows "basic_inv D b' \<and> basic_hold_down_ok P b'"
    and "balance ev (\<lambda>_. True) (appended q q') = total_outstanding ev b' - total_outstanding ev b"
  using assms by (auto simp: advances_def logs_def appended_def)

lemma advances_silently:
  assumes "advances P D b q b' q" "basic_inv D b \<and> basic_hold_down_ok P b"
  shows "basic_inv D b' \<and> basic_hold_down_ok P b'" "total_outstanding ev b' = total_outstanding ev b"
  using advances_appended[OF assms] by (simp_all add: appended_def)

lemma dropped_by_ungrab:
  assumes "basic_inv D b \<and> basic_hold_down_ok P b" "b' = basic_handle_device_ungrabbed_event d b"
  shows "basic_inv (D \<union> dropped_records d b) b' \<and> basic_hold_down_ok P b'"
    and "total_outstanding ev b' = total_outstanding ev b"
proof -
  let ?v = "b_manipulated_original_events b"
  define b1 where "b1 = foldl (\<lambda>b i. update_moe i (erase_from_events_by_device_id d) b) b ?v"
  have "b_manipulated_original_events (foldl (\<lambda>b i. update_moe i f b) c is) = b_manipulated_original_events c"
    for f c "is"
    by (induction "is" arbitrary: c) (simp_all add: update_moe_def)
  then have v1: "b_manipulated_original_events b1 = ?v" by (simp add: b1_def)
  have b': "b' = b1\<lparr>b_manipulated_original_events := erase_if (\<lambda>i. moe_from_events (b_heap b1 ! i) = {}) ?v\<rparr>"
    by (simp add: assms(2) basic_handle_device_ungrabbed_event_def Let_def b1_def[symmetric] v1)
  have "advances P D b q b1 q" for q
    unfolding b1_def by (rule advances_update_moes[OF same_releases_erase_device]) (simp add: basic_inv_def)
  note b1 = advances_silently[OF this assms(1)]
  have sub: "set (b_manipulated_original_events b') \<subseteq> set ?v" by (auto simp: b' erase_if_def)
  have all: "set (b_manipulated_original_events b') \<union> (D \<union> dropped_records d b) = set ?v \<union> D"
    using sub by (auto simp: dropped_records_def assms(2))
  have "basic_inv (D \<union> dropped_records d b) b'"
    using b1(1) unfolding basic_inv_def held_down_ready_def all v1 by (simp add: b' erase_if_def)
  moreover have "basic_hold_down_ok P b'"
    using b1(1) by (simp add: b' basic_hold_down_ok_def all_to_events_def)
  ultimately show "basic_inv (D \<union> dropped_records d b) b' \<and> basic_hold_down_ok P b'" by blast
  show "total_outstanding ev b' = total_outstanding ev b"
    using b1(2) by (simp add: b' total_outstanding_def)
qed

lemma basic_run_outstanding:
  assumes "basic_run P ord b0 b ens D" "flag_order_ok ord" "basic_fresh b0" "basic_hold_down_ok P b0"
  shows "(basic_inv D b \<and> basic_hold_down_ok P b) \<and> balance ev (\<lambda>_. True) ens = total_outstanding ev b"
  using assms(1)
proof (induction rule: basic_run.induct)
  case run_start
  have "basic_inv {} b0"
    using assms(3) by (intro basic_invI) (auto simp: basic_fresh_def held_down_ready_def split: option.splits)
  then show ?case using assms(3,4) by (simp add: basic_fresh_def total_outstanding_def)
next
  case (run_manipulate b ens D now en entries w q r en' b' w' q')
  note advances_appended[OF advances_manipulate[OF assms(2) run_manipulate.hyps(2)] conjunct1[OF run_manipulate.IH]]
  then show ?case using run_manipulate.IH by simp
next
  case (run_held_down b ens D h n t w q b' w' q')
  note advances_appended[OF advances_held_down_fire[OF assms(2) run_held_down.hyps(2-4)] conjunct1[OF run_held_down.IH]]
  then show ?case using run_held_down.IH by simp
next
  case (run_delayed_action b ens D a n t w q b' w' q')
  note advances_appended[OF advances_delayed_action_fire[OF assms(2) run_delayed_action.hyps(4)]
    conjunct1[OF run_delayed_action.IH]]
  then show ?case using run_delayed_action.IH by simp
next
  case (run_ungrabbed b ens D d)
  then show ?case using dropped_by_ungrab[OF conjunct1[OF run_ungrabbed.IH] refl, where d=d] by simp
next
  case (run_event_tap b ens D en)
  note advances_silently[OF advances_unset_alone conjunct1[OF run_event_tap.IH]]
  then show ?case
    using run_event_tap.IH by (simp add: basic_handle_pointing_device_event_from_event_tap_def)
next
  case (run_set_validity b ens D v)
  have "advances P D b q (b\<lparr>b_validity := v\<rparr>) q" for q
    by (rule advances_same) (simp_all add: basic_hold_down_ok_def all_to_events_def logs_refl)
  note advances_silently[OF this conjunct1[OF run_set_validity.IH]]
  then show ?case using run_set_validity.IH by simp
qed

text \<open>Outside the vector only the records dropped by an ungrabbed device have anything to release.\<close>

lemma total_outstanding_inactive:
  assumes "basic_inv D b" "\<not> basic_active b"
  shows "total_outstanding ev b = (\<Sum>i\<in>D. outstanding ev (b_heap b ! i))"
proof -
  have sub: "D \<subseteq> {..<length (b_heap b)}" using basic_invD(2)[OF assms(1)] by auto
  have "outstanding ev (b_heap b ! i) = 0" if "i \<in> {..<length (b_heap b)} - D" for i
    using that assms(2) basic_invD(4)[OF assms(1), of i] by (auto simp: basic_active_def settled_outstanding)
  then have "(\<Sum>i<length (b_heap b). outstanding ev (b_heap b ! i)) = (\<Sum>i\<in>D. outstanding ev (b_heap b ! i))"
    by (intro sum.mono_neutral_right[OF finite_lessThan sub]) blast
  then show ?thesis
    by (simp add: total_outstanding_def sum_list_sum_nth atLeast0LessThan)
qed

text \<open>
  C1. No stuck keys. Take a basic manipulator as its constructor leaves it, whose hold down durations
  are not negative, and let its manager call it in any order, with any input entries under any
  conditions, on an output queue other manipulators may change in between, with the callbacks of
  to_if_held_down and to_delayed_action running at any time after their setup, devices being
  ungrabbed, clicks coming from the event tap and its validity changing; sets of flags may be walked
  through in any order that enumerates them. Whenever it has no
  manipulated key left (\<open>active\<close> is false), the presses of every event it has appended exceed the
  releases by exactly what the records dropped when a device was ungrabbed had still to release.
  While no ungrabbed device took a record, releases and presses are equally many: nothing it pressed
  stays down. (What a dropped record leaves down the dispatcher releases.)
\<close>

theorem inactive_manipulator_left_nothing_pressed:
  assumes "basic_run P ord b0 b ens D" "flag_order_ok ord" "basic_fresh b0" "basic_hold_down_ok P b0"
    and "\<not> basic_active b"
  shows "balance ev (\<lambda>_. True) ens = (\<Sum>i\<in>D. outstanding ev (b_heap b ! i))
    \<and> (D = {} \<longrightarrow> balance ev (\<lambda>_. True) ens = 0)"
  using basic_run_outstanding[OF assms(1-4), of ev] total_outstanding_inactive[OF _ assms(5), of D ev]
  by auto

definition sample_basic :: basic where
  "sample_basic =
     \<lparr>b_validity = valid, b_conditions = [],
      b_parameters = \<lparr>bp_simultaneous_threshold_milliseconds = 50,
        bp_to_if_alone_timeout_milliseconds = 1000, bp_to_if_held_down_threshold_milliseconds = 500,
        bp_to_delayed_action_delay_milliseconds = 500\<rparr>,
      b_from = \<lparr>from_event_definitions = [Ed_momentary_switch_event (mse 7 5)],
        from_modifiers = \<lparr>fmd_mandatory_modifiers = {}, fmd_optional_modifiers = {md_any}\<rparr>,
        from_simultaneous_options = simultaneous_options_default\<rparr>,
      b_to = [to_event_definition_default (Ed_momentary_switch_event (mse 7 4))], b_to_after_key_up = [], b_to_if_alone = [],
      b_to_if_held_down = None, b_to_delayed_action = None,
      b_manipulated_original_events = [], b_heap = []\<rparr>"


definition sample_press :: entry where "sample_press = sample_key_entry (mse 7 5) key_down 5"
definition sample_release :: entry where "sample_release = sample_key_entry (mse 7 5) key_up 9"

text \<open>Evaluation of the handlers on concrete input, step by step.\<close>

lemmas evaluate_manipulate =
  basic_manipulate_def unset_alone_if_needed_def delayed_action_cancel_def decide_key_down_def
  push_manipulated_original_event_def take_manipulated_original_event_def send_key_down_def send_key_up_def
  finish_manipulated_def make_manipulated_original_event_def update_moe_def
  post_from_mandatory_modifiers_key_up_def post_from_mandatory_modifiers_key_down_def
  post_lazy_modifier_key_events_def post_events_at_key_down_def post_events_at_key_up_def
  filter_on_queue_def post_event_at_key_down_def post_modifiers_def post_key_def post_at_def
  send_if_alone_def set_key_up_posted_def set_halted_if_def emplace_back_event_at_key_up_def
  erase_from_event_def from_event_exists_def from_event_of_def
  is_last_to_event_modifier_key_event_def event_definition_mse_def
  all_from_events_found_def scan_entry_def test_key_order_def test_from_event_def test_event_def
  make_entry_def make_event_time_stamp_def make_modifier_events_def

lemmas evaluate_samples =
  sample_basic_def sample_press_def sample_release_def sample_key_entry_def sample_queue_def
  simultaneous_options_default_def to_event_definition_default_def

lemma enumeration_order_empty [simp]: "enumeration_order {} = []"
  by (simp add: enumeration_order_def)

lemma test_mandatory_empty: "test_mandatory fs {} ms acc = Some acc"
  by (induction ms) simp_all

lemma test_modifiers_free:
  "test_modifiers fs \<lparr>fmd_mandatory_modifiers = {}, fmd_optional_modifiers = {md_any}\<rparr> = Some {}"
  by (simp add: test_modifiers_def test_mandatory_empty)

lemma condition_manager_no_conditions:
  "condition_manager_is_fulfilled P en [] s =
     (let s1 = set_variable_system_now_milliseconds P s
      in (True, [], cem_apply_environment_variables P (env_variables (snd s1)) (fst s1), snd s1))"
  by (simp add: condition_manager_is_fulfilled_def Let_def split: prod.split)

lemma witness_platform_durations:
  "pf_make_absolute_time_duration witness_platform t = t * 1000000"
  by (simp add: witness_platform_def)

lemma sample_press_and_release:
  "case basic_manipulate witness_platform enumeration_order 5 sample_press [sample_press] sample_basic
      (world_initial, sample_queue) of
     None \<Rightarrow> False
   | Some (r, en, b, w, q) \<Rightarrow>
       (case basic_manipulate witness_platform enumeration_order 9 sample_release [sample_release] b (w, q) of
          None \<Rightarrow> False
        | Some (r', en', b', w', q') \<Rightarrow>
            basic_active b \<and> \<not> basic_active b'
            \<and> \<not> basic_active (basic_handle_device_ungrabbed_event 1 b) \<and> dropped_records 1 b = {0}
            \<and> map en_event (appended sample_queue q) = [Ev_momentary_switch_event (mse 7 4)]
            \<and> map en_event_type (appended sample_queue q @ appended q q') = [key_down, key_up])"
  by (simp add: evaluate_manipulate evaluate_samples Let_def test_modifiers_free condition_manager_no_conditions
     emplace_back_entry_def queue_update_environment_def mse_is_modifier_def is_modifier_key_event_def
     basic_active_def appended_def delay_entry_def mse_is_caps_lock_def basic_handle_device_ungrabbed_event_def
     dropped_records_def erase_from_events_by_device_id_def eku_make_entry_def
     increase_time_stamp_delay_def witness_platform_durations cong: if_cong)

text \<open>
  A key pressed and released, and the same key when its device is ungrabbed in between: the record
  dropped then accounts for the one press that is not released.
\<close>

theorem inactive_manipulator_left_nothing_pressed_witness:
  "\<exists>b b1 ens ens1. basic_run witness_platform enumeration_order sample_basic b ens {}
     \<and> map en_event_type ens = [key_down, key_up]
     \<and> balance (Ev_momentary_switch_event (mse 7 4)) (\<lambda>_. True) ens = 0
     \<and> basic_run witness_platform enumeration_order sample_basic b1 ens1 {0}
     \<and> map en_event_type ens1 = [key_down]
     \<and> outstanding (Ev_momentary_switch_event (mse 7 4)) (b_heap b1 ! 0) = 1"
proof -
  let ?ev = "Ev_momentary_switch_event (mse 7 4)"
  obtain r en b w q r' en' b' w' q' where
    1: "basic_manipulate witness_platform enumeration_order 5 sample_press [sample_press] sample_basic
      (world_initial, sample_queue) = Some (r, en, b, w, q)"
    and 2: "basic_manipulate witness_platform enumeration_order 9 sample_release [sample_release] b (w, q) =
      Some (r', en', b', w', q')"
    and 3: "\<not> basic_active b'" "map en_event_type (appended sample_queue q @ appended q q') = [key_down, key_up]"
    and 4: "\<not> basic_active (basic_handle_device_ungrabbed_event 1 b)" "dropped_records 1 b = {0}"
      "map en_event (appended sample_queue q) = [?ev]"
    using sample_press_and_release by (auto split: option.splits prod.splits)
  let ?ens = "([] @ appended sample_queue q) @ appended q q'"
  let ?b1 = "basic_handle_device_ungrabbed_event 1 b"
  have press: "basic_run witness_platform enumeration_order sample_basic b ([] @ appended sample_queue q) {}"
    by (rule run_manipulate[OF run_start 1])
  have run: "basic_run witness_platform enumeration_order sample_basic b' ?ens {}"
    by (rule run_manipulate[OF press 2])
  have run1: "basic_run witness_platform enumeration_order sample_basic ?b1 (appended sample_queue q) {0}"
    using run_ungrabbed[OF press, of 1] unfolding 4(2) by simp
  obtain e where e: "appended sample_queue q = [e]" "en_event e = ?ev" using 4(3) by auto
  then have "en_event_type e = key_down" using 3(2) by simp
  then have one: "balance ?ev (\<lambda>_. True) (appended sample_queue q) = 1" "map en_event_type (appended sample_queue q) = [key_down]"
    by (simp_all add: e)
  have ok: "basic_fresh sample_basic" "basic_hold_down_ok witness_platform sample_basic"
    by (simp_all add: basic_fresh_def basic_hold_down_ok_def all_to_events_def hold_down_ok_def evaluate_samples
        witness_platform_durations)
  have "outstanding ?ev (b_heap ?b1 ! 0) = 1"
    using inactive_manipulator_left_nothing_pressed[OF run1 enumeration_order_ok ok 4(1), of ?ev] one(1) by simp
  with inactive_manipulator_left_nothing_pressed[OF run enumeration_order_ok ok 3(1), of ?ev] run 3(2) run1 one(2)
  show ?thesis by (intro exI[of _ b'] exI[of _ ?b1] exI[of _ ?ens] exI[of _ "appended sample_queue q"]) simp
qed

end
