(* ===== verification/Basic_Decisions.thy ===== *)
theory Basic_Decisions
  imports Basic_Balance
begin

text \<open>
  What \<open>manipulate\<close> of a basic manipulator decides: a release of a key it has manipulated is always
  its own, whatever the conditions have become meanwhile, and it never asks to wait beyond the
  simultaneous threshold.
\<close>

subsection \<open>Key up\<close>

lemma unset_alone_fold_from_events:
  "length (b_heap (foldl (\<lambda>b i. update_moe i unset_alone b) b is)) = length (b_heap b)
   \<and> (\<forall>i<length (b_heap b). moe_from_events (b_heap (foldl (\<lambda>b i. update_moe i unset_alone b) b is) ! i) =
        moe_from_events (b_heap b ! i))
   \<and> b_manipulated_original_events (foldl (\<lambda>b i. update_moe i unset_alone b) b is) =
       b_manipulated_original_events b
   \<and> b_from (foldl (\<lambda>b i. update_moe i unset_alone b) b is) = b_from b
   \<and> b_parameters (foldl (\<lambda>b i. update_moe i unset_alone b) b is) = b_parameters b"
proof (induction "is" arbitrary: b)
  case Nil then show ?case by simp
next
  case (Cons i "is")
  have "moe_from_events (b_heap (update_moe i unset_alone b) ! j) = moe_from_events (b_heap b ! j)"
    if "j < length (b_heap b)" for j
    using that by (cases "i < length (b_heap b)") (auto simp: update_moe_def unset_alone_def nth_list_update)
  moreover have "length (b_heap (update_moe i unset_alone b)) = length (b_heap b)"
    "b_manipulated_original_events (update_moe i unset_alone b) = b_manipulated_original_events b"
    "b_from (update_moe i unset_alone b) = b_from b" "b_parameters (update_moe i unset_alone b) = b_parameters b"
    by (simp_all add: update_moe_def)
  ultimately show ?case using Cons.IH[of "update_moe i unset_alone b"] by simp
qed

lemma unset_alone_if_needed_fields:
  "length (b_heap (unset_alone_if_needed ev t b)) = length (b_heap b)"
  "i < length (b_heap b) \<Longrightarrow>
     moe_from_events (b_heap (unset_alone_if_needed ev t b) ! i) = moe_from_events (b_heap b ! i)"
  "b_manipulated_original_events (unset_alone_if_needed ev t b) = b_manipulated_original_events b"
  "b_from (unset_alone_if_needed ev t b) = b_from b"
  "b_parameters (unset_alone_if_needed ev t b) = b_parameters b"
  using unset_alone_fold_from_events[of b "b_manipulated_original_events b"]
  by (simp_all add: unset_alone_if_needed_def Let_def)

text \<open>
  C10. The release of a key is handled by the manipulator that handled its press: when the from
  event of a valid key up entry is recorded in one of its manipulated keys, \<open>manipulate\<close> consumes
  the entry, whether or not the conditions, the modifiers or the validity of the manipulator still
  allow a press, and nothing else about the entry changes.
\<close>

theorem recorded_key_up_is_consumed:
  assumes "basic_manipulate P ord now en entries b s = Some (r, en', b', s')"
    and "en_event_type en = key_up" "en_validity en = valid" "test_from_event (en_event en) (b_from b)"
    and "i \<in> set (b_manipulated_original_events b)" "i < length (b_heap b)"
    and "from_event_exists (from_event_of en) (b_heap b ! i)"
  shows "r = mr_manipulated \<and> en' = en\<lparr>en_validity := invalid\<rparr>"
proof -
  define b2 where "b2 = (unset_alone_if_needed (en_event en) key_up b)\<lparr>b_to_if_held_down :=
      map_option (held_down_cancel en) (b_to_if_held_down (unset_alone_if_needed (en_event en) key_up b))\<rparr>"
  have b2: "b_heap b2 = b_heap (unset_alone_if_needed (en_event en) key_up b)"
    "b_manipulated_original_events b2 = b_manipulated_original_events b" "b_from b2 = b_from b"
    by (simp_all add: b2_def unset_alone_if_needed_fields)
  have "from_event_exists (from_event_of en) (b_heap b2 ! i)"
    using assms(6,7) by (simp add: from_event_exists_def b2(1) unset_alone_if_needed_fields)
  then have "find (\<lambda>i. from_event_exists (from_event_of en) (b_heap b2 ! i)) (b_manipulated_original_events b2) \<noteq> None"
    using assms(5) by (auto simp: find_None_iff b2(2))
  then obtain j b5 where take: "take_manipulated_original_event en b2 = Some (j, b5)"
    by (auto simp: take_manipulated_original_event_def Let_def)
  have "delayed_action_cancel P ord en b2 s = Some (b2, s)"
    using assms(2) by (simp add: delayed_action_cancel_def split: option.split)
  then show ?thesis
    using assms(1-4) take
    by (auto simp: basic_manipulate_def Let_def b2_def[symmetric] b2(3) split: option.splits prod.splits)
qed

subsection \<open>Waiting\<close>

lemma decide_key_down_wait:
  assumes "decide_key_down P now en entries b s = (Kd_wait, en', b', s')"
  shows "now < en_time_stamp en + max (ets_input_delay_duration (en_event_time_stamp en))
      (pf_make_absolute_time_duration P (bp_simultaneous_threshold_milliseconds (b_parameters b)))"
    and "en_validity en' = en_validity en"
proof -
  have "now < en_time_stamp en + max (ets_input_delay_duration (en_event_time_stamp en))
      (pf_make_absolute_time_duration P (bp_simultaneous_threshold_milliseconds (b_parameters b)))
    \<and> en_validity en' = en_validity en"
  proof (cases "b_validity b = invalid \<or> test_modifiers (q_modifier_flags (snd s)) (from_modifiers (b_from b)) = None")
    case True
    then show ?thesis using assms by (auto simp: decide_key_down_def split: if_splits)
  next
    case False
    then have valid: "b_validity b \<noteq> invalid" by blast
    from False obtain mandatory where m: "test_modifiers (q_modifier_flags (snd s)) (from_modifiers (b_from b)) = Some mandatory"
      by auto
    obtain fulfilled cs w1 env where c: "condition_manager_is_fulfilled P en (b_conditions b)
        (fst s, q_environment (snd s)) = (fulfilled, cs, w1, env)" by (metis prod_cases4)
    note decide_key_down_shape[OF valid m c refl refl refl, of now entries]
    then show ?thesis using assms by (auto simp: make_time_stamp_with_input_delay_def split: if_splits)
  qed
  then show "now < en_time_stamp en + max (ets_input_delay_duration (en_event_time_stamp en))
      (pf_make_absolute_time_duration P (bp_simultaneous_threshold_milliseconds (b_parameters b)))"
    "en_validity en' = en_validity en" by blast+
qed

text \<open>
  C13. A press of a simultaneous definition is never held back for good: \<open>manipulate\<close> asks to wait only
  before the time stamp of the entry plus its input delay, which is at least the simultaneous threshold,
  so from then on it decides. While it waits the entry stays valid for the next call.
\<close>

theorem waiting_is_bounded:
  assumes "basic_manipulate P ord now en entries b s = Some (mr_needs_wait_until_time_stamp, en', b', s')"
  shows "now < en_time_stamp en + max (ets_input_delay_duration (en_event_time_stamp en))
      (pf_make_absolute_time_duration P (bp_simultaneous_threshold_milliseconds (b_parameters b)))
    \<and> en_validity en' = valid"
proof -
  define b2 where "b2 = (unset_alone_if_needed (en_event en) (en_event_type en) b)\<lparr>b_to_if_held_down :=
      map_option (held_down_cancel en) (b_to_if_held_down (unset_alone_if_needed (en_event en) (en_event_type en) b))\<rparr>"
  obtain b3 s3 where c: "delayed_action_cancel P ord en b2 s = Some (b3, s3)"
    using assms by (auto simp: basic_manipulate_def Let_def b2_def split: option.splits)
  have "b_parameters b3 = b_parameters b2"
    using c by (auto simp: delayed_action_cancel_def delayed_action_post_events_def Let_def update_moe_def
        split: option.splits if_splits prod.splits)
  then have params: "b_parameters b3 = b_parameters b"
    by (simp add: b2_def unset_alone_if_needed_fields)
  obtain v en4 b4 s4 where d: "decide_key_down P now en entries b3 s3 = (v, en4, b4, s4)"
    by (metis prod_cases4)
  have "v = Kd_wait \<and> en' = en4 \<and> en_validity en \<noteq> invalid"
    using assms d
    by (cases v) (auto simp: basic_manipulate_def Let_def b2_def[symmetric] c
        split: if_splits event_type.splits option.splits prod.splits)
  then show ?thesis using decide_key_down_wait[of P now en entries b3 s3] d params by (cases "en_validity en") auto
qed

subsection \<open>Witnesses\<close>

definition sample_manipulating :: basic where
  "sample_manipulating =
     sample_basic\<lparr>b_manipulated_original_events := [0],
       b_heap := [make_manipulated_original_event {from_event_of sample_press} {} 5 {}]\<rparr>"

theorem recorded_key_up_is_consumed_witness:
  "map_option (\<lambda>(r, en', _). (r, en_validity en'))
     (basic_manipulate witness_platform enumeration_order 9 sample_release [sample_release]
        sample_manipulating (world_initial, sample_queue)) = Some (mr_manipulated, invalid)"
proof -
  obtain r en' b' s' where m: "basic_manipulate witness_platform enumeration_order 9 sample_release [sample_release]
        sample_manipulating (world_initial, sample_queue) = Some (r, en', b', s')"
    by (simp add: evaluate_manipulate evaluate_samples sample_manipulating_def Let_def)
  have "r = mr_manipulated \<and> en' = sample_release\<lparr>en_validity := invalid\<rparr>"
    by (rule recorded_key_up_is_consumed[OF m, of 0])
      (simp_all add: sample_manipulating_def evaluate_samples make_entry_def test_from_event_def test_event_def
        make_manipulated_original_event_def from_event_exists_def from_event_of_def)
  then show ?thesis using m by simp
qed

text \<open>The first key of two that are to be pressed together.\<close>

definition sample_simultaneous :: basic where
  "sample_simultaneous =
     sample_basic\<lparr>b_from := (b_from sample_basic)
       \<lparr>from_event_definitions := [Ed_momentary_switch_event (mse 7 5), Ed_momentary_switch_event (mse 7 6)]\<rparr>\<rparr>"

theorem waiting_is_bounded_witness:
  "case basic_manipulate witness_platform enumeration_order 5 sample_press [sample_press] sample_simultaneous
      (world_initial, sample_queue) of
     None \<Rightarrow> False
   | Some (r, en', _) \<Rightarrow> r = mr_needs_wait_until_time_stamp \<and> (5::int) < 5 + max 0 50000000 \<and> en_validity en' = valid"
proof -
  obtain en' b' s' where m: "basic_manipulate witness_platform enumeration_order 5 sample_press [sample_press]
        sample_simultaneous (world_initial, sample_queue) = Some (mr_needs_wait_until_time_stamp, en', b', s')"
    by (simp add: evaluate_manipulate evaluate_samples sample_simultaneous_def Let_def test_modifiers_free
        condition_manager_no_conditions make_time_stamp_with_input_delay_def witness_platform_durations
        split: prod.split cong: if_cong)
  show ?thesis
    unfolding m using waiting_is_bounded[OF m]
    by (simp add: evaluate_samples make_entry_def make_event_time_stamp_def sample_simultaneous_def
        witness_platform_durations)
qed

end
