(* ===== verification/Post_Queue.thy ===== *)
theory Post_Queue
  imports Key_Trackers Event_Queue
begin

text \<open>
  \<open>src/share/manipulator/manipulators/post_event_to_virtual_devices/queue.hpp\<close>: the queue of HID
  reports and commands in front of the virtual devices and the user's session.

  The report types belong to the driver package. A field of a report (a set of keys, of modifiers
  or of buttons) is an opaque value of the type variable, and \<open>hid_report_ops\<close> holds the
  operations the code calls on it.

  The lemmas show that a key down is never posted within 5 ms of an earlier report, that events
  are sent in order and not before their time, and what the reports contain.
\<close>

subsection \<open>Reports and events\<close>

record 'k hid_report_ops =
  hro_keys_empty :: 'k
  hro_keys_insert :: "usage \<Rightarrow> 'k \<Rightarrow> 'k"
  hro_keys_erase :: "usage \<Rightarrow> 'k \<Rightarrow> 'k"
  hro_modifiers_empty :: 'k
  hro_modifiers_insert :: "hid_report_modifier \<Rightarrow> 'k \<Rightarrow> 'k"
  hro_modifiers_erase :: "hid_report_modifier \<Rightarrow> 'k \<Rightarrow> 'k"
  hro_buttons_empty :: 'k
  hro_buttons_insert :: "usage \<Rightarrow> 'k \<Rightarrow> 'k"
  hro_buttons_is_empty :: "'k \<Rightarrow> bool"

text \<open>The motion fields of a pointing report are single bytes.\<close>

record 'k pointing_input =
  pin_buttons :: 'k
  pin_x :: "8 word"
  pin_y :: "8 word"
  pin_vertical_wheel :: "8 word"
  pin_horizontal_wheel :: "8 word"

definition empty_pointing_input :: "'k \<Rightarrow> 'k pointing_input" where
  "empty_pointing_input buttons =
     \<lparr>pin_buttons = buttons, pin_x = 0, pin_y = 0, pin_vertical_wheel = 0, pin_horizontal_wheel = 0\<rparr>"

datatype 'k post_event_value =
    Pe_keyboard_input 'k 'k
  | Pe_consumer_input 'k
  | Pe_apple_vendor_top_case_input 'k
  | Pe_apple_vendor_keyboard_input 'k
  | Pe_generic_desktop_input 'k
  | Pe_pointing_input "'k pointing_input"
  | Pe_shell_command string
  | Pe_select_input_source "input_source_specifier list"
  | Pe_software_function software_function

record 'k post_event =
  pe_value :: "'k post_event_value"
  pe_time_stamp :: absolute_time_point

record 'k post_queue =
  pq_events :: "'k post_event list"
  pq_keyboard_repeat_detector :: keyboard_repeat_detector
  pq_last_event_type :: event_type
  pq_last_event_time_stamp :: absolute_time_point
  pq_modifiers :: 'k
  pq_keys :: 'k
  pq_consumer_keys :: 'k
  pq_apple_vendor_top_case_keys :: 'k
  pq_apple_vendor_keyboard_keys :: 'k
  pq_generic_desktop_keys :: 'k

definition post_queue_initial :: "'k hid_report_ops \<Rightarrow> 'k post_queue" where
  "post_queue_initial H =
     \<lparr>pq_events = [], pq_keyboard_repeat_detector = None, pq_last_event_type = single,
      pq_last_event_time_stamp = 0, pq_modifiers = hro_modifiers_empty H, pq_keys = hro_keys_empty H,
      pq_consumer_keys = hro_keys_empty H, pq_apple_vendor_top_case_keys = hro_keys_empty H,
      pq_apple_vendor_keyboard_keys = hro_keys_empty H, pq_generic_desktop_keys = hro_keys_empty H\<rparr>"

subsection \<open>Time stamps\<close>

definition wait_duration :: "platform \<Rightarrow> absolute_time_duration" where
  "wait_duration P = pf_make_absolute_time_duration P 5"

definition adjust_skip :: "event_type \<Rightarrow> event_type \<Rightarrow> bool \<Rightarrow> bool" where
  "adjust_skip et last_event_type is_modifier_key_event =
     (case et of
        key_down \<Rightarrow> False
      | key_up \<Rightarrow> last_event_type = key_up \<and> \<not> is_modifier_key_event
      | single \<Rightarrow> True)"

definition adjust_time_stamp ::
    "platform \<Rightarrow> absolute_time_point \<Rightarrow> event_type \<Rightarrow> bool \<Rightarrow> 'k post_queue \<Rightarrow> absolute_time_point \<times> 'k post_queue" where
  "adjust_time_stamp P t et is_modifier_key_event q =
     (let skip = adjust_skip et (pq_last_event_type q) is_modifier_key_event;
          t' = (if \<not> skip \<and> t < pq_last_event_time_stamp q + wait_duration P
                then pq_last_event_time_stamp q + wait_duration P else t)
      in (t', q\<lparr>pq_last_event_type := (if skip then pq_last_event_type q else et),
                pq_last_event_time_stamp := max (pq_last_event_time_stamp q) t'\<rparr>))"

subsection \<open>Appending\<close>

definition update_keys :: "'k hid_report_ops \<Rightarrow> usage \<Rightarrow> event_type \<Rightarrow> 'k \<Rightarrow> 'k" where
  "update_keys H u et k =
     (case et of key_down \<Rightarrow> hro_keys_insert H u k | key_up \<Rightarrow> hro_keys_erase H u k | single \<Rightarrow> k)"

definition push_post_event :: "'k post_event_value \<Rightarrow> absolute_time_point \<Rightarrow> 'k post_queue \<Rightarrow> 'k post_queue" where
  "push_post_event v t q = q\<lparr>pq_events := pq_events q @ [\<lparr>pe_value = v, pe_time_stamp = t\<rparr>]\<rparr>"

text \<open>The branch of the keyboard page: eight modifiers have a field of their own.\<close>

definition update_keyboard_input ::
    "'k hid_report_ops \<Rightarrow> momentary_switch_event \<Rightarrow> event_type \<Rightarrow> 'k post_queue \<Rightarrow> 'k post_queue" where
  "update_keyboard_input H e et q =
     (case (case make_modifier_flag e of None \<Rightarrow> None | Some m \<Rightarrow> make_hid_report_modifier m) of
        Some r \<Rightarrow>
          (case et of
             key_down \<Rightarrow> q\<lparr>pq_modifiers := hro_modifiers_insert H r (pq_modifiers q)\<rparr>
           | key_up \<Rightarrow> q\<lparr>pq_modifiers := hro_modifiers_erase H r (pq_modifiers q)\<rparr>
           | single \<Rightarrow> q)
      | None \<Rightarrow> q\<lparr>pq_keys := update_keys H (mse_usage e) et (pq_keys q)\<rparr>)"

definition emplace_back_key_event ::
    "platform \<Rightarrow> 'k hid_report_ops \<Rightarrow> momentary_switch_event \<Rightarrow> event_type \<Rightarrow> absolute_time_point \<Rightarrow>
     'k post_queue \<Rightarrow> 'k post_queue" where
  "emplace_back_key_event P H e et t q =
     (let (t', q1) = adjust_time_stamp P t et (mse_is_modifier e) q;
          p = mse_page e;
          u = mse_usage e;
          q2 =
            (if p = page_keyboard_or_keypad
             then (let q' = update_keyboard_input H e et q1
                   in push_post_event (Pe_keyboard_input (pq_modifiers q') (pq_keys q')) t' q')
             else if p = page_consumer
             then (let q' = q1\<lparr>pq_consumer_keys := update_keys H u et (pq_consumer_keys q1)\<rparr>
                   in push_post_event (Pe_consumer_input (pq_consumer_keys q')) t' q')
             else if p = page_apple_vendor_top_case
             then (let q' = q1\<lparr>pq_apple_vendor_top_case_keys := update_keys H u et (pq_apple_vendor_top_case_keys q1)\<rparr>
                   in push_post_event (Pe_apple_vendor_top_case_input (pq_apple_vendor_top_case_keys q')) t' q')
             else if p = page_apple_vendor_keyboard
             then (let q' = q1\<lparr>pq_apple_vendor_keyboard_keys := update_keys H u et (pq_apple_vendor_keyboard_keys q1)\<rparr>
                   in push_post_event (Pe_apple_vendor_keyboard_input (pq_apple_vendor_keyboard_keys q')) t' q')
             else if p = page_generic_desktop
             then (let q' = q1\<lparr>pq_generic_desktop_keys := update_keys H u et (pq_generic_desktop_keys q1)\<rparr>
                   in push_post_event (Pe_generic_desktop_input (pq_generic_desktop_keys q')) t' q')
             else q1)
      in q2\<lparr>pq_keyboard_repeat_detector := krd_set e et (pq_keyboard_repeat_detector q2)\<rparr>)"

definition emplace_back_pointing_input ::
    "platform \<Rightarrow> 'k pointing_input \<Rightarrow> event_type \<Rightarrow> absolute_time_point \<Rightarrow> 'k post_queue \<Rightarrow> 'k post_queue" where
  "emplace_back_pointing_input P report et t q =
     (case adjust_time_stamp P t et False q of
        (t', q1) \<Rightarrow> push_post_event (Pe_pointing_input report) t' q1)"

definition push_back_shell_command_event :: "string \<Rightarrow> absolute_time_point \<Rightarrow> 'k post_queue \<Rightarrow> 'k post_queue" where
  "push_back_shell_command_event s t q = push_post_event (Pe_shell_command s) t q"

definition push_back_select_input_source_event ::
    "input_source_specifier list \<Rightarrow> absolute_time_point \<Rightarrow> 'k post_queue \<Rightarrow> 'k post_queue" where
  "push_back_select_input_source_event ss t q = push_post_event (Pe_select_input_source ss) t q"

definition push_back_software_function_event ::
    "software_function \<Rightarrow> absolute_time_point \<Rightarrow> 'k post_queue \<Rightarrow> 'k post_queue" where
  "push_back_software_function_event f t q = push_post_event (Pe_software_function f) t q"

definition post_queue_empty :: "'k post_queue \<Rightarrow> bool" where
  "post_queue_empty q \<longleftrightarrow> pq_events q = []"

definition post_queue_clear :: "'k post_queue \<Rightarrow> 'k post_queue" where
  "post_queue_clear q = q\<lparr>pq_events := [], pq_keyboard_repeat_detector := krd_clear (pq_keyboard_repeat_detector q)\<rparr>"

subsection \<open>Posting\<close>

text \<open>
  The loop of the handler that \<open>async_post_events\<close> gives to the dispatcher: the values sent to the
  clients, the remaining events, and the delay after which the dispatcher runs the handler again.
  The value of \<open>now\<close> is read once before the loop. A client that is gone ignores its values.
\<close>

fun post_due_events ::
    "platform \<Rightarrow> absolute_time_point \<Rightarrow> 'k post_event list \<Rightarrow>
     'k post_event_value list \<times> 'k post_event list \<times> milliseconds option" where
  "post_due_events P now [] = ([], [], None)"
| "post_due_events P now (e # es) =
     (if pe_time_stamp e > now
      then ([], e # es,
            Some (pf_make_milliseconds P
              (min (pe_time_stamp e - now) (pf_make_absolute_time_duration P 3000))))
      else case post_due_events P now es of (sent, rest, d) \<Rightarrow> (pe_value e # sent, rest, d))"

definition async_post_events ::
    "platform \<Rightarrow> absolute_time_point \<Rightarrow> 'k post_queue \<Rightarrow>
     'k post_event_value list \<times> milliseconds option \<times> 'k post_queue" where
  "async_post_events P now q =
     (case post_due_events P now (pq_events q) of
        (sent, rest, d) \<Rightarrow> (sent, d, q\<lparr>pq_events := rest\<rparr>))"

subsection \<open>Runs\<close>

datatype 'k post_queue_op =
    Pq_key momentary_switch_event event_type absolute_time_point
  | Pq_pointing "'k pointing_input" event_type absolute_time_point
  | Pq_shell_command string absolute_time_point
  | Pq_select_input_source "input_source_specifier list" absolute_time_point
  | Pq_software_function software_function absolute_time_point
  | Pq_post absolute_time_point
  | Pq_clear

fun post_queue_step ::
    "platform \<Rightarrow> 'k hid_report_ops \<Rightarrow> 'k post_queue_op \<Rightarrow> 'k post_queue \<Rightarrow> 'k post_queue" where
  "post_queue_step P H (Pq_key e et t) q = emplace_back_key_event P H e et t q"
| "post_queue_step P H (Pq_pointing r et t) q = emplace_back_pointing_input P r et t q"
| "post_queue_step P H (Pq_shell_command s t) q = push_back_shell_command_event s t q"
| "post_queue_step P H (Pq_select_input_source ss t) q = push_back_select_input_source_event ss t q"
| "post_queue_step P H (Pq_software_function f t) q = push_back_software_function_event f t q"
| "post_queue_step P H (Pq_post now) q = snd (snd (async_post_events P now q))"
| "post_queue_step P H Pq_clear q = post_queue_clear q"

text \<open>The reports a step appends, with the event type they were made for.\<close>

fun reported_by ::
    "platform \<Rightarrow> 'k hid_report_ops \<Rightarrow> 'k post_queue_op \<Rightarrow> 'k post_queue \<Rightarrow> ('k post_event \<times> event_type) list" where
  "reported_by P H (Pq_key e et t) q =
     map (\<lambda>x. (x, et)) (drop (length (pq_events q)) (pq_events (emplace_back_key_event P H e et t q)))"
| "reported_by P H (Pq_pointing r et t) q =
     map (\<lambda>x. (x, et)) (drop (length (pq_events q)) (pq_events (emplace_back_pointing_input P r et t q)))"
| "reported_by P H _ q = []"

fun report_history ::
    "platform \<Rightarrow> 'k hid_report_ops \<Rightarrow> 'k post_queue_op list \<Rightarrow> 'k post_queue \<Rightarrow> ('k post_event \<times> event_type) list" where
  "report_history P H [] q = []"
| "report_history P H (x # xs) q =
     reported_by P H x q @ report_history P H xs (post_queue_step P H x q)"

lemma adjust_time_stamp_bounds:
  assumes "adjust_time_stamp P t et m q = (t', q')" "0 \<le> wait_duration P"
  shows "t' \<le> pq_last_event_time_stamp q'" "pq_last_event_time_stamp q \<le> pq_last_event_time_stamp q'"
    and "et = key_down \<Longrightarrow> pq_last_event_time_stamp q + wait_duration P \<le> t'"
    and "pq_events q' = pq_events q"
  using assms by (auto simp: adjust_time_stamp_def Let_def adjust_skip_def split: if_splits)

lemma push_post_event_fields [simp]:
  "pq_events (push_post_event v t q) = pq_events q @ [\<lparr>pe_value = v, pe_time_stamp = t\<rparr>]"
  "pq_last_event_time_stamp (push_post_event v t q) = pq_last_event_time_stamp q"
  by (simp_all add: push_post_event_def)

lemma update_keyboard_input_fields [simp]:
  "pq_events (update_keyboard_input H e et q) = pq_events q"
  "pq_last_event_time_stamp (update_keyboard_input H e et q) = pq_last_event_time_stamp q"
  by (simp_all add: update_keyboard_input_def split: option.splits event_type.splits)

lemma emplace_back_key_event_appends:
  assumes "adjust_time_stamp P t et (mse_is_modifier e) q = (t', q1)"
  shows "pq_last_event_time_stamp (emplace_back_key_event P H e et t q) = pq_last_event_time_stamp q1"
    and "\<exists>ens. pq_events (emplace_back_key_event P H e et t q) = pq_events q @ ens
      \<and> (ens = [] \<or> (\<exists>v. ens = [\<lparr>pe_value = v, pe_time_stamp = t'\<rparr>]))"
proof -
  have "pq_events q1 = pq_events q" using assms by (auto simp: adjust_time_stamp_def Let_def)
  then show "pq_last_event_time_stamp (emplace_back_key_event P H e et t q) = pq_last_event_time_stamp q1"
    "\<exists>ens. pq_events (emplace_back_key_event P H e et t q) = pq_events q @ ens
      \<and> (ens = [] \<or> (\<exists>v. ens = [\<lparr>pe_value = v, pe_time_stamp = t'\<rparr>]))"
    by (simp_all add: emplace_back_key_event_def assms Let_def)
qed

lemma post_queue_step_times:
  assumes "0 \<le> wait_duration P"
  shows "pq_last_event_time_stamp q \<le> pq_last_event_time_stamp (post_queue_step P H x q)"
    and "length (reported_by P H x q) \<le> 1"
    and "(b, et) \<in> set (reported_by P H x q) \<Longrightarrow>
      pe_time_stamp b \<le> pq_last_event_time_stamp (post_queue_step P H x q)
      \<and> (et = key_down \<longrightarrow> pq_last_event_time_stamp q + wait_duration P \<le> pe_time_stamp b)"
proof -
  have "pq_last_event_time_stamp q \<le> pq_last_event_time_stamp (post_queue_step P H x q)
    \<and> length (reported_by P H x q) \<le> 1
    \<and> (\<forall>(b, et)\<in>set (reported_by P H x q). pe_time_stamp b \<le> pq_last_event_time_stamp (post_queue_step P H x q)
      \<and> (et = key_down \<longrightarrow> pq_last_event_time_stamp q + wait_duration P \<le> pe_time_stamp b))"
  proof (cases x)
    case (Pq_key e et t)
    obtain t' q1 where a: "adjust_time_stamp P t et (mse_is_modifier e) q = (t', q1)" by force
    show ?thesis
      using adjust_time_stamp_bounds[OF a assms] emplace_back_key_event_appends[OF a, of H]
      by (auto simp: Pq_key)
  next
    case (Pq_pointing r et t)
    obtain t' q1 where a: "adjust_time_stamp P t et False q = (t', q1)" by force
    show ?thesis
      using adjust_time_stamp_bounds[OF a assms] by (auto simp: Pq_pointing emplace_back_pointing_input_def a)
  qed (simp_all add: push_back_shell_command_event_def push_back_select_input_source_event_def
      push_back_software_function_event_def async_post_events_def post_queue_clear_def split: prod.split)
  then show "pq_last_event_time_stamp q \<le> pq_last_event_time_stamp (post_queue_step P H x q)"
    "length (reported_by P H x q) \<le> 1"
    "(b, et) \<in> set (reported_by P H x q) \<Longrightarrow>
      pe_time_stamp b \<le> pq_last_event_time_stamp (post_queue_step P H x q)
      \<and> (et = key_down \<longrightarrow> pq_last_event_time_stamp q + wait_duration P \<le> pe_time_stamp b)"
    by auto
qed

abbreviation waits_after :: "platform \<Rightarrow> 'k post_event \<times> event_type \<Rightarrow> 'k post_event \<times> event_type \<Rightarrow> bool" where
  "waits_after P a b \<equiv> snd b = key_down \<longrightarrow> pe_time_stamp (fst a) + wait_duration P \<le> pe_time_stamp (fst b)"

lemma report_history_waits:
  assumes "0 \<le> wait_duration P"
  shows "sorted_wrt (waits_after P) (report_history P H xs q)
    \<and> (\<forall>b\<in>set (report_history P H xs q).
         snd b = key_down \<longrightarrow> pq_last_event_time_stamp q + wait_duration P \<le> pe_time_stamp (fst b))"
proof (induction xs arbitrary: q)
  case Nil then show ?case by simp
next
  case (Cons x xs)
  let ?q = "post_queue_step P H x q"
  note step = post_queue_step_times[OF assms, where q = q and H = H and x = x]
  have "sorted_wrt (waits_after P) (reported_by P H x q)"
    using step(2) by (cases "reported_by P H x q") auto
  moreover have "waits_after P a b" if "a \<in> set (reported_by P H x q)" "b \<in> set (report_history P H xs ?q)" for a b
    using that step(3)[of "fst a" "snd a"] Cons.IH[of ?q] by fastforce
  moreover have "snd b = key_down \<longrightarrow> pq_last_event_time_stamp q + wait_duration P \<le> pe_time_stamp (fst b)"
    if "b \<in> set (report_history P H (x # xs) q)" for b
  proof (cases "b \<in> set (reported_by P H x q)")
    case True
    then show ?thesis using step(3)[of "fst b" "snd b"] by simp
  next
    case False
    then have "snd b = key_down \<longrightarrow> pq_last_event_time_stamp ?q + wait_duration P \<le> pe_time_stamp (fst b)"
      using that Cons.IH[of ?q] by simp
    then show ?thesis using step(1) by linarith
  qed
  ultimately show ?case using Cons.IH[of ?q] by (simp add: sorted_wrt_append)
qed

text \<open>
  C34. The window server sees a press only after what came before: whatever is appended, posted and
  cleared, the time stamp of every report made for a key down is at least 5 milliseconds behind
  the time stamp of every earlier key or pointing report.
\<close>

theorem key_down_waits_after_earlier_reports:
  assumes "0 \<le> wait_duration P"
  shows "sorted_wrt (\<lambda>a b. snd b = key_down \<longrightarrow>
      pe_time_stamp (fst a) + wait_duration P \<le> pe_time_stamp (fst b))
    (report_history P H ops (post_queue_initial H))"
  using report_history_waits[OF assms] by blast

subsection \<open>Posting in order\<close>

fun post_repeatedly ::
    "platform \<Rightarrow> absolute_time_point list \<Rightarrow> 'k post_queue \<Rightarrow> 'k post_event_value list \<times> 'k post_queue" where
  "post_repeatedly P [] q = ([], q)"
| "post_repeatedly P (now # nows) q =
     (case async_post_events P now q of
        (sent, d, q1) \<Rightarrow> (case post_repeatedly P nows q1 of (sent', q2) \<Rightarrow> (sent @ sent', q2)))"

lemma post_due_events_split:
  "post_due_events P now es = (sent, rest, d) \<Longrightarrow>
   map pe_value es = sent @ map pe_value rest \<and> set rest \<subseteq> set es
   \<and> (d = None \<longleftrightarrow> rest = []) \<and> (rest \<noteq> [] \<longrightarrow> now < pe_time_stamp (hd rest))"
proof (induction es arbitrary: sent rest d)
  case Nil then show ?case by simp
next
  case (Cons e es)
  show ?case
  proof (cases "pe_time_stamp e > now")
    case True
    then show ?thesis using Cons.prems by auto
  next
    case False
    obtain s r x where p: "post_due_events P now es = (s, r, x)" by (metis prod_cases3)
    then show ?thesis using Cons.IH[OF p] Cons.prems False by auto
  qed
qed

text \<open>
  C35. Nothing is lost, duplicated or overtaken on the way to the clients: over any number of runs of
  the posting handler, what was sent followed by what is still queued is the queue in order, the
  handler schedules itself again as long as something is queued, and one run after the last time stamp
  sends everything.
\<close>

theorem posting_keeps_order_and_finishes:
  assumes "post_repeatedly P nows q = (sent, q')"
  shows "map pe_value (pq_events q) = sent @ map pe_value (pq_events q')
    \<and> (\<forall>now s d q2. async_post_events P now q = (s, d, q2) \<longrightarrow> (d = None \<longleftrightarrow> pq_events q2 = []))
    \<and> ((\<exists>now\<in>set nows. \<forall>e\<in>set (pq_events q). pe_time_stamp e \<le> now) \<longrightarrow> pq_events q' = [])"
proof -
  have again: "\<forall>now s d q2. async_post_events P now q = (s, d, q2) \<longrightarrow> (d = None \<longleftrightarrow> pq_events q2 = [])"
    using post_due_events_split[of P _ "pq_events q"]
    by (auto simp: async_post_events_def split: prod.splits)
  have "map pe_value (pq_events q) = sent @ map pe_value (pq_events q')
    \<and> set (pq_events q') \<subseteq> set (pq_events q)
    \<and> ((\<exists>now\<in>set nows. \<forall>e\<in>set (pq_events q). pe_time_stamp e \<le> now) \<longrightarrow> pq_events q' = [])"
    using assms
  proof (induction nows arbitrary: q sent)
    case Nil then show ?case by simp
  next
    case (Cons now nows)
    obtain s d q1 where a: "async_post_events P now q = (s, d, q1)" by (metis prod_cases3)
    obtain s' where r: "post_repeatedly P nows q1 = (s', q')" and sent: "sent = s @ s'"
      using Cons.prems a by (auto split: prod.splits)
    obtain rest where p: "post_due_events P now (pq_events q) = (s, rest, d)" "pq_events q1 = rest"
      using a by (auto simp: async_post_events_def split: prod.splits)
    note split = post_due_events_split[OF p(1)]
    have "pq_events q1 = []" if "\<forall>e\<in>set (pq_events q). pe_time_stamp e \<le> now"
    proof (rule ccontr)
      assume "pq_events q1 \<noteq> []"
      then have "now < pe_time_stamp (hd rest)" "hd rest \<in> set (pq_events q)"
        using split p(2) by (auto simp: subset_iff)
      then show False using that by fastforce
    qed
    then have "pq_events q' = []" if "\<exists>n\<in>set (now # nows). \<forall>e\<in>set (pq_events q). pe_time_stamp e \<le> n"
      using that split Cons.IH[OF r] p(2) by fastforce
    moreover have "map pe_value (pq_events q) = sent @ map pe_value (pq_events q')"
      using split Cons.IH[OF r] p(2) sent by simp
    moreover have "set (pq_events q') \<subseteq> set (pq_events q)"
      using split Cons.IH[OF r] unfolding p(2) by blast
    ultimately show ?case by blast
  qed
  then show ?thesis using again by blast
qed

subsection \<open>Witnesses\<close>

text \<open>Report fields as sets of numbers.\<close>

definition set_hid_report_ops :: "usage set hid_report_ops" where
  "set_hid_report_ops =
     \<lparr>hro_keys_empty = {}, hro_keys_insert = insert, hro_keys_erase = (\<lambda>u k. k - {u}),
      hro_modifiers_empty = {}, hro_modifiers_insert = (\<lambda>m k. k), hro_modifiers_erase = (\<lambda>m k. k),
      hro_buttons_empty = {}, hro_buttons_insert = insert, hro_buttons_is_empty = (\<lambda>k. k = {})\<rparr>"

definition sample_post_queue_ops :: "usage set post_queue_op list" where
  "sample_post_queue_ops =
     [Pq_key (mse 7 4) key_down 5, Pq_key (mse 7 4) key_up 6, Pq_key (mse 7 5) key_down 7]"

theorem key_down_waits_after_earlier_reports_witness:
  "map (\<lambda>(e, t). pe_time_stamp e)
     (report_history witness_platform set_hid_report_ops sample_post_queue_ops
       (post_queue_initial set_hid_report_ops)) = [5000000, 10000000, 15000000]
   \<and> sorted_wrt (\<lambda>a b. snd b = key_down \<longrightarrow> pe_time_stamp (fst a) + 5000000 \<le> pe_time_stamp (fst b))
     (report_history witness_platform set_hid_report_ops sample_post_queue_ops
       (post_queue_initial set_hid_report_ops))"
proof
  have w: "wait_duration witness_platform = 5000000"
    by (simp add: wait_duration_def witness_platform_def)
  show "map (\<lambda>(e, t). pe_time_stamp e)
     (report_history witness_platform set_hid_report_ops sample_post_queue_ops
       (post_queue_initial set_hid_report_ops)) = [5000000, 10000000, 15000000]"
    by (simp add: sample_post_queue_ops_def post_queue_initial_def emplace_back_key_event_def Let_def
        adjust_time_stamp_def adjust_skip_def w push_post_event_def update_keyboard_input_def
        make_modifier_flag_def)
  show "sorted_wrt (\<lambda>a b. snd b = key_down \<longrightarrow> pe_time_stamp (fst a) + 5000000 \<le> pe_time_stamp (fst b))
     (report_history witness_platform set_hid_report_ops sample_post_queue_ops
       (post_queue_initial set_hid_report_ops))"
    using key_down_waits_after_earlier_reports[of witness_platform set_hid_report_ops sample_post_queue_ops]
    by (simp add: w)
qed

definition sample_post_queue :: "usage set post_queue" where
  "sample_post_queue =
     (post_queue_initial set_hid_report_ops)
       \<lparr>pq_events := [\<lparr>pe_value = Pe_shell_command ''a'', pe_time_stamp = 5\<rparr>,
                      \<lparr>pe_value = Pe_shell_command ''b'', pe_time_stamp = 9\<rparr>]\<rparr>"

theorem posting_keeps_order_and_finishes_witness:
  "pq_events (snd (post_repeatedly witness_platform [6, 9] sample_post_queue)) = []
   \<and> fst (post_repeatedly witness_platform [6, 9] sample_post_queue) =
       [Pe_shell_command ''a'', Pe_shell_command ''b'']"
proof -
  obtain sent q' where r: "post_repeatedly witness_platform [6, 9] sample_post_queue = (sent, q')" by force
  have "\<exists>now\<in>set [6, 9]. \<forall>e\<in>set (pq_events sample_post_queue). pe_time_stamp e \<le> now"
    by (simp add: sample_post_queue_def)
  then show ?thesis
    unfolding r using posting_keeps_order_and_finishes[OF r]
    by (simp del: post_repeatedly.simps) (simp add: sample_post_queue_def)
qed

end
