(* ===== verification/Key_Event_Dispatcher.thy ===== *)
theory Key_Event_Dispatcher
  imports Post_Queue
begin

text \<open>
  \<open>src/share/manipulator/manipulators/post_event_to_virtual_devices/key_event_dispatcher.hpp\<close>: the
  keys and modifiers that are down on the virtual keyboard, and the key events sent to it.

  The lemmas show that the reports always hold exactly the keys and modifiers the dispatcher
  counts as pressed, and that dispatching the modifiers makes them those of the flag manager.
\<close>

subsection \<open>State and operations\<close>

record key_event_dispatcher =
  ked_pressed_keys :: "(device_id \<times> usage_pair) list"
  ked_pressed_modifier_flags :: "modifier_flag set"

definition key_event_dispatcher_initial :: key_event_dispatcher where
  "key_event_dispatcher_initial = \<lparr>ked_pressed_keys = [], ked_pressed_modifier_flags = {}\<rparr>"

type_synonym 'k dispatcher_state = "key_event_dispatcher \<times> 'k post_queue"

definition key_event_exists :: "usage_pair \<Rightarrow> key_event_dispatcher \<Rightarrow> bool" where
  "key_event_exists u D \<longleftrightarrow> list_ex (\<lambda>k. snd k = u) (ked_pressed_keys D)"

definition enqueue_key_event ::
    "platform \<Rightarrow> 'k hid_report_ops \<Rightarrow> usage_pair \<Rightarrow> event_type \<Rightarrow> absolute_time_point \<Rightarrow>
     'k post_queue \<Rightarrow> 'k post_queue" where
  "enqueue_key_event P H u et t q = emplace_back_key_event P H (MSE u) et t q"

definition dispatch_key_down_event ::
    "platform \<Rightarrow> 'k hid_report_ops \<Rightarrow> device_id \<Rightarrow> usage_pair \<Rightarrow> absolute_time_point \<Rightarrow>
     'k dispatcher_state \<Rightarrow> 'k dispatcher_state" where
  "dispatch_key_down_event P H d u t s =
     (case s of (D, q) \<Rightarrow>
        if \<not> key_event_exists u D
        then (D\<lparr>ked_pressed_keys := ked_pressed_keys D @ [(d, u)]\<rparr>, enqueue_key_event P H u key_down t q)
        else (D, q))"

definition dispatch_key_up_event ::
    "platform \<Rightarrow> 'k hid_report_ops \<Rightarrow> usage_pair \<Rightarrow> absolute_time_point \<Rightarrow>
     'k dispatcher_state \<Rightarrow> 'k dispatcher_state" where
  "dispatch_key_up_event P H u t s =
     (case s of (D, q) \<Rightarrow>
        if key_event_exists u D
        then (D\<lparr>ked_pressed_keys := filter (\<lambda>k. snd k \<noteq> u) (ked_pressed_keys D)\<rparr>,
              enqueue_key_event P H u key_up t q)
        else (D, q))"

definition insert_pressed_modifier_flag :: "modifier_flag \<Rightarrow> key_event_dispatcher \<Rightarrow> key_event_dispatcher" where
  "insert_pressed_modifier_flag m D =
     D\<lparr>ked_pressed_modifier_flags := insert m (ked_pressed_modifier_flags D)\<rparr>"

definition erase_pressed_modifier_flag :: "modifier_flag \<Rightarrow> key_event_dispatcher \<Rightarrow> key_event_dispatcher" where
  "erase_pressed_modifier_flag m D =
     D\<lparr>ked_pressed_modifier_flags := ked_pressed_modifier_flags D - {m}\<rparr>"

text \<open>The order of the initializer list in \<open>dispatch_modifier_key_event\<close>.\<close>

definition dispatched_modifier_flags :: "modifier_flag list" where
  "dispatched_modifier_flags =
     [mf_left_control, mf_left_shift, mf_left_option, mf_left_command, mf_right_control,
      mf_right_shift, mf_right_option, mf_right_command, mf_fn, mf_caps_lock]"

text \<open>A change of caps lock is sent as a key down and a key up, after releasing a caps lock key.\<close>

definition send_caps_lock ::
    "platform \<Rightarrow> 'k hid_report_ops \<Rightarrow> absolute_time_point \<Rightarrow> 'k dispatcher_state \<Rightarrow> 'k dispatcher_state" where
  "send_caps_lock P H t s =
     (let u = get_usage_pair (mse_of_modifier_flag mf_caps_lock)
      in case (if key_event_exists u (fst s) then dispatch_key_up_event P H u t s else s) of
           (D, q) \<Rightarrow> (D, enqueue_key_event P H u key_up t (enqueue_key_event P H u key_down t q)))"

definition send_modifier ::
    "platform \<Rightarrow> 'k hid_report_ops \<Rightarrow> modifier_flag \<Rightarrow> event_type \<Rightarrow> absolute_time_point \<Rightarrow>
     'k post_queue \<Rightarrow> 'k post_queue" where
  "send_modifier P H m et t q =
     (let e = mse_of_modifier_flag m
      in if mse_valid e then enqueue_key_event P H (get_usage_pair e) et t q else q)"

definition dispatch_modifier_flag ::
    "platform \<Rightarrow> 'k hid_report_ops \<Rightarrow> active_modifier_flag list \<Rightarrow> absolute_time_point \<Rightarrow> modifier_flag \<Rightarrow>
     'k dispatcher_state \<Rightarrow> 'k dispatcher_state" where
  "dispatch_modifier_flag P H fs t m s =
     (case s of (D, q) \<Rightarrow>
        (let pressed = (m \<in> ked_pressed_modifier_flags D);
             caps = (m = mf_caps_lock)
         in if is_pressed m fs
            then (if \<not> pressed
                  then (let s1 = (insert_pressed_modifier_flag m D,
                                  if caps then q else send_modifier P H m key_down t q)
                        in if caps then send_caps_lock P H t s1 else s1)
                  else (D, q))
            else (if pressed
                  then (let s1 = (erase_pressed_modifier_flag m D,
                                  if caps then q else send_modifier P H m key_up t q)
                        in if caps then send_caps_lock P H t s1 else s1)
                  else (D, q))))"

definition dispatch_modifier_key_event ::
    "platform \<Rightarrow> 'k hid_report_ops \<Rightarrow> active_modifier_flag list \<Rightarrow> absolute_time_point \<Rightarrow>
     'k dispatcher_state \<Rightarrow> 'k dispatcher_state" where
  "dispatch_modifier_key_event P H fs t s =
     foldl (\<lambda>s m. dispatch_modifier_flag P H fs t m s) s dispatched_modifier_flags"

lemma dispatch_key_up_event_shrinks:
  assumes "key_event_exists u D"
  shows "length (ked_pressed_keys (fst (dispatch_key_up_event P H u t (D, q)))) < length (ked_pressed_keys D)"
  using assms
  by (auto simp: dispatch_key_up_event_def key_event_exists_def list_ex_iff intro!: length_filter_less)

text \<open>The loop searches the vector anew after every erasure.\<close>

function dispatch_key_up_events_by_device_id ::
    "platform \<Rightarrow> 'k hid_report_ops \<Rightarrow> device_id \<Rightarrow> absolute_time_point \<Rightarrow>
     'k dispatcher_state \<Rightarrow> 'k dispatcher_state" where
  "dispatch_key_up_events_by_device_id P H d t s =
     (case find (\<lambda>k. fst k = d) (ked_pressed_keys (fst s)) of
        None \<Rightarrow> s
      | Some k \<Rightarrow> dispatch_key_up_events_by_device_id P H d t (dispatch_key_up_event P H (snd k) t s))"
  by pat_completeness auto
termination
proof (relation "measure (\<lambda>(P, H, d, t, s). length (ked_pressed_keys (fst s)))")
  fix P :: platform and H :: "'k hid_report_ops" and d t and s :: "'k dispatcher_state" and k
  assume "find (\<lambda>k. fst k = d) (ked_pressed_keys (fst s)) = Some k"
  then have "key_event_exists (snd k) (fst s)"
    by (auto simp: find_Some_iff key_event_exists_def list_ex_iff)
  from dispatch_key_up_event_shrinks[OF this, of P H t "snd s"]
  show "((P, H, d, t, dispatch_key_up_event P H (snd k) t s), P, H, d, t, s)
    \<in> measure (\<lambda>(P, H, d, t, s). length (ked_pressed_keys (fst s)))" by simp
qed simp

declare dispatch_key_up_events_by_device_id.simps [simp del]

subsection \<open>What the reports say\<close>

text \<open>
  The documented behaviour of the driver's report fields: a field is a set, from which anything can
  be erased and which takes further keys while it holds fewer than 32.
\<close>

definition report_fields_are_sets ::
    "'k hid_report_ops \<Rightarrow> ('k \<Rightarrow> usage set) \<Rightarrow> ('k \<Rightarrow> hid_report_modifier set) \<Rightarrow> bool" where
  "report_fields_are_sets H keys mods \<longleftrightarrow>
     keys (hro_keys_empty H) = {} \<and> mods (hro_modifiers_empty H) = {}
     \<and> (\<forall>u k. card (keys k) < 32 \<longrightarrow> keys (hro_keys_insert H u k) = insert u (keys k))
     \<and> (\<forall>u k. keys (hro_keys_erase H u k) = keys k - {u})
     \<and> (\<forall>m k. mods (hro_modifiers_insert H m k) = insert m (mods k))
     \<and> (\<forall>m k. mods (hro_modifiers_erase H m k) = mods k - {m})"

definition page_field :: "usage_page \<Rightarrow> 'k post_queue \<Rightarrow> 'k option" where
  "page_field p q =
     (if p = page_keyboard_or_keypad then Some (pq_keys q)
      else if p = page_consumer then Some (pq_consumer_keys q)
      else if p = page_apple_vendor_top_case then Some (pq_apple_vendor_top_case_keys q)
      else if p = page_apple_vendor_keyboard then Some (pq_apple_vendor_keyboard_keys q)
      else if p = page_generic_desktop then Some (pq_generic_desktop_keys q)
      else None)"

definition reported_on :: "('k \<Rightarrow> usage set) \<Rightarrow> 'k post_queue \<Rightarrow> usage_page \<Rightarrow> usage set" where
  "reported_on keys q p = (case page_field p q of None \<Rightarrow> {} | Some k \<Rightarrow> keys k)"

definition has_report :: "usage_page \<Rightarrow> bool" where
  "has_report p \<longleftrightarrow> p \<in> {page_keyboard_or_keypad, page_consumer, page_apple_vendor_top_case,
     page_apple_vendor_keyboard, page_generic_desktop}"

lemma page_field_None: "page_field p q = None \<longleftrightarrow> \<not> has_report p"
  by (auto simp: page_field_def has_report_def)

lemma page_field_Some: "page_field p q = Some k \<Longrightarrow> has_report p"
  using page_field_None[of p q] by auto

text \<open>The modifier of the report an event stands for, if any.\<close>

definition report_modifier :: "momentary_switch_event \<Rightarrow> hid_report_modifier option" where
  "report_modifier e = Option.bind (make_modifier_flag e) make_hid_report_modifier"

lemma report_modifier_keyboard:
  "report_modifier e = Some r \<Longrightarrow> mse_page e = page_keyboard_or_keypad"
  by (auto simp: report_modifier_def make_modifier_flag_def Let_def split: if_splits)

lemma adjust_time_stamp_page_field:
  assumes "adjust_time_stamp P t et m q = (t', q')"
  shows "page_field p q' = page_field p q" "pq_modifiers q' = pq_modifiers q"
  using assms by (auto simp: adjust_time_stamp_def Let_def page_field_def)

lemma push_post_event_page_field [simp]:
  "page_field p (push_post_event v t q) = page_field p q"
  "pq_modifiers (push_post_event v t q) = pq_modifiers q"
  by (simp_all add: push_post_event_def page_field_def)

lemma update_keyboard_input_key:
  assumes "report_modifier e = None"
  shows "update_keyboard_input H e et q = q\<lparr>pq_keys := update_keys H (mse_usage e) et (pq_keys q)\<rparr>"
  using assms
  by (cases "make_modifier_flag e") (simp_all add: update_keyboard_input_def report_modifier_def)

lemma emplace_back_key_event_key:
  assumes "report_modifier e = None"
  shows "page_field p (emplace_back_key_event P H e et t q) =
      (if p = mse_page e then map_option (update_keys H (mse_usage e) et) (page_field p q) else page_field p q)
    \<and> pq_modifiers (emplace_back_key_event P H e et t q) = pq_modifiers q"
proof -
  obtain t' q1 where a: "adjust_time_stamp P t et (mse_is_modifier e) q = (t', q1)" by force
  note f = adjust_time_stamp_page_field(1)[OF a, of p] adjust_time_stamp_page_field(2)[OF a]
  show ?thesis
    unfolding emplace_back_key_event_def a Let_def prod.case update_keyboard_input_key[OF assms]
      f[symmetric]
    by (simp add: page_field_def push_post_event_def)
qed

lemma emplace_back_key_event_modifier:
  assumes "report_modifier e = Some r"
  shows "page_field p (emplace_back_key_event P H e et t q) = page_field p q
    \<and> pq_modifiers (emplace_back_key_event P H e et t q) =
       (case et of key_down \<Rightarrow> hro_modifiers_insert H r (pq_modifiers q)
         | key_up \<Rightarrow> hro_modifiers_erase H r (pq_modifiers q) | single \<Rightarrow> pq_modifiers q)"
proof -
  obtain t' q1 where a: "adjust_time_stamp P t et (mse_is_modifier e) q = (t', q1)" by force
  note f = adjust_time_stamp_page_field(1)[OF a, of p] adjust_time_stamp_page_field(2)[OF a]
  obtain m where m: "make_modifier_flag e = Some m" "make_hid_report_modifier m = Some r"
    using assms by (auto simp: report_modifier_def split: bind_splits)
  show ?thesis
    unfolding emplace_back_key_event_def a Let_def prod.case f[symmetric]
    using report_modifier_keyboard[OF assms]
    by (simp add: page_field_def push_post_event_def update_keyboard_input_def m split: event_type.split)
qed

text \<open>The effect of one enqueued key event on the sets.\<close>

lemma enqueue_key:
  assumes "report_fields_are_sets H keys mods" "report_modifier (MSE u) = None"
  shows "reported_on keys (enqueue_key_event P H u key_up t q) =
      (reported_on keys q)(get_usage_page u := reported_on keys q (get_usage_page u) - {get_usage u})"
    and "card (reported_on keys q (get_usage_page u)) < 32 \<Longrightarrow>
      reported_on keys (enqueue_key_event P H u key_down t q) =
      (reported_on keys q)(get_usage_page u :=
         (if has_report (get_usage_page u) then insert (get_usage u) (reported_on keys q (get_usage_page u)) else {}))"
    and "pq_modifiers (enqueue_key_event P H u et t q) = pq_modifiers q"
  using assms(1)
  by (auto simp: enqueue_key_event_def fun_eq_iff reported_on_def emplace_back_key_event_key[OF assms(2)]
      update_keys_def mse_page_def mse_usage_def report_fields_are_sets_def page_field_None
      dest: page_field_Some split: option.splits)

lemma enqueue_modifier:
  assumes "report_fields_are_sets H keys mods" "report_modifier (MSE u) = Some r"
  shows "reported_on keys (enqueue_key_event P H u et t q) = reported_on keys q"
    and "mods (pq_modifiers (enqueue_key_event P H u key_down t q)) = insert r (mods (pq_modifiers q))"
    and "mods (pq_modifiers (enqueue_key_event P H u key_up t q)) = mods (pq_modifiers q) - {r}"
  using assms(1)
  by (simp_all add: enqueue_key_event_def fun_eq_iff reported_on_def
      emplace_back_key_event_modifier[OF assms(2)] report_fields_are_sets_def)

subsection \<open>The invariant\<close>

text \<open>What should be reported on a page: the pressed keys, and fn while it is pressed.\<close>

definition expected_on :: "key_event_dispatcher \<Rightarrow> usage_page \<Rightarrow> usage set" where
  "expected_on D p =
     (if has_report p
      then {u. Usage_Pair p u \<in> snd ` set (ked_pressed_keys D)}
        \<union> (if mf_fn \<in> ked_pressed_modifier_flags D \<and> p = page_apple_vendor_top_case
           then {usage_keyboard_fn} else {})
      else {})"

definition expected_modifiers :: "key_event_dispatcher \<Rightarrow> hid_report_modifier set" where
  "expected_modifiers D =
     {r. \<exists>m\<in>ked_pressed_modifier_flags D. make_hid_report_modifier m = Some r}"

definition dispatcher_inv ::
    "('k \<Rightarrow> usage set) \<Rightarrow> ('k \<Rightarrow> hid_report_modifier set) \<Rightarrow> 'k dispatcher_state \<Rightarrow> bool" where
  "dispatcher_inv keys mods s \<longleftrightarrow>
     reported_on keys (snd s) = expected_on (fst s)
     \<and> mods (pq_modifiers (snd s)) = expected_modifiers (fst s)
     \<and> distinct (map snd (ked_pressed_keys (fst s)))
     \<and> (\<forall>k\<in>set (ked_pressed_keys (fst s)). \<not> mse_is_modifier (MSE (snd k)))
     \<and> length (ked_pressed_keys (fst s)) \<le> 31"

text \<open>
  Everything that happens to a dispatcher and its queue: keys that are no modifiers go down (while
  fewer than 31 are down) and up, the modifiers are dispatched, a device disappears, the caps lock
  state is synchronised, and the queue is used for other events, posted and cleared.
\<close>

fun is_key_op :: "'k post_queue_op \<Rightarrow> bool" where
  "is_key_op (Pq_key e et t) = True"
| "is_key_op _ = False"

inductive dispatcher_run :: "platform \<Rightarrow> 'k hid_report_ops \<Rightarrow> 'k dispatcher_state \<Rightarrow> bool" for P H where
  run_start: "dispatcher_run P H (key_event_dispatcher_initial, post_queue_initial H)"
| run_key_down: "dispatcher_run P H s \<Longrightarrow> \<not> mse_is_modifier (MSE u) \<Longrightarrow>
    length (ked_pressed_keys (fst s)) < 31 \<Longrightarrow> dispatcher_run P H (dispatch_key_down_event P H d u t s)"
| run_key_up: "dispatcher_run P H s \<Longrightarrow> dispatcher_run P H (dispatch_key_up_event P H u t s)"
| run_modifiers: "dispatcher_run P H s \<Longrightarrow> dispatcher_run P H (dispatch_modifier_key_event P H fs t s)"
| run_device: "dispatcher_run P H s \<Longrightarrow> dispatcher_run P H (dispatch_key_up_events_by_device_id P H d t s)"
| run_caps_lock_on: "dispatcher_run P H (D, q) \<Longrightarrow>
    dispatcher_run P H (insert_pressed_modifier_flag mf_caps_lock D, q)"
| run_caps_lock_off: "dispatcher_run P H (D, q) \<Longrightarrow>
    dispatcher_run P H (erase_pressed_modifier_flag mf_caps_lock D, q)"
| run_other: "dispatcher_run P H (D, q) \<Longrightarrow> \<not> is_key_op x \<Longrightarrow>
    dispatcher_run P H (D, post_queue_step P H x q)"

lemma report_modifier_not_modifier [simp]: "\<not> mse_is_modifier e \<Longrightarrow> report_modifier e = None"
  by (simp add: mse_is_modifier_def report_modifier_def)

lemma card_expected_on:
  "card (expected_on D p) \<le> length (ked_pressed_keys D) +
     (if mf_fn \<in> ked_pressed_modifier_flags D \<and> p = page_apple_vendor_top_case then 1 else 0)"
proof -
  let ?S = "get_usage ` snd ` set (ked_pressed_keys D)"
  let ?F = "if mf_fn \<in> ked_pressed_modifier_flags D \<and> p = page_apple_vendor_top_case
    then {usage_keyboard_fn} else {}"
  have "expected_on D p \<subseteq> ?S \<union> ?F"
    by (force simp: expected_on_def split: if_splits)
  then have "card (expected_on D p) \<le> card (?S \<union> ?F)" by (intro card_mono) auto
  also have "\<dots> \<le> card ?S + card ?F" by (rule card_Un_le)
  also have "card ?S \<le> length (ked_pressed_keys D)"
    by (metis card_length length_map set_map)
  finally show ?thesis by (auto split: if_splits)
qed

lemma key_event_exists_iff: "key_event_exists u D \<longleftrightarrow> u \<in> snd ` set (ked_pressed_keys D)"
  by (auto simp: key_event_exists_def list_ex_iff)

lemma snd_filter_pairs: "snd ` set (filter (\<lambda>k. snd k \<noteq> u) ks) = snd ` set ks - {u}"
  by force

lemma inv_key_down:
  assumes sets: "report_fields_are_sets H keys mods" and inv: "dispatcher_inv keys mods (D, q)" and u: "\<not> mse_is_modifier (MSE u)"
    and room: "length (ked_pressed_keys D) < 31"
  shows "dispatcher_inv keys mods (dispatch_key_down_event P H d u t (D, q))"
proof (cases "key_event_exists u D")
  case True then show ?thesis using inv by (simp add: dispatch_key_down_event_def)
next
  case False
  let ?D = "D\<lparr>ked_pressed_keys := ked_pressed_keys D @ [(d, u)]\<rparr>"
  have r: "reported_on keys q = expected_on D" using inv by (simp add: dispatcher_inv_def)
  have "card (reported_on keys q (get_usage_page u)) < 32"
    unfolding r using card_expected_on[of D "get_usage_page u"] room by (auto split: if_splits)
  note e = enqueue_key(2)[OF sets report_modifier_not_modifier[OF u] this, of P t]
    enqueue_key(3)[OF sets report_modifier_not_modifier[OF u], of P key_down t q]
  have "reported_on keys (enqueue_key_event P H u key_down t q) = expected_on ?D"
    unfolding e(1) r by (rule ext, cases u) (auto simp: expected_on_def)
  then show ?thesis
    using inv False u room e(2)
    by (auto simp: dispatcher_inv_def dispatch_key_down_event_def expected_modifiers_def
        key_event_exists_iff)
qed

lemma inv_key_up:
  assumes sets: "report_fields_are_sets H keys mods" and inv: "dispatcher_inv keys mods (D, q)"
  shows "dispatcher_inv keys mods (dispatch_key_up_event P H u t (D, q))"
proof (cases "key_event_exists u D")
  case False then show ?thesis using inv by (simp add: dispatch_key_up_event_def)
next
  case True
  let ?D = "D\<lparr>ked_pressed_keys := filter (\<lambda>k. snd k \<noteq> u) (ked_pressed_keys D)\<rparr>"
  have r: "reported_on keys q = expected_on D" using inv by (simp add: dispatcher_inv_def)
  have u: "\<not> mse_is_modifier (MSE u)" using inv True by (auto simp: dispatcher_inv_def key_event_exists_iff)
  note e = enqueue_key(1)[OF sets report_modifier_not_modifier[OF u], of P t q]
    enqueue_key(3)[OF sets report_modifier_not_modifier[OF u], of P key_up t q]
  have fn: "u \<noteq> Usage_Pair page_apple_vendor_top_case usage_keyboard_fn"
    using u by (auto simp: mse_is_modifier_def make_modifier_flag_def mse_page_def mse_usage_def Let_def)
  have "reported_on keys (enqueue_key_event P H u key_up t q) = expected_on ?D"
    unfolding e(1) r using fn
    by (intro ext, cases u) (auto simp: expected_on_def snd_filter_pairs simp del: set_filter)
  moreover have "length (ked_pressed_keys ?D) \<le> 31"
    using inv by (auto simp: dispatcher_inv_def intro: le_trans[OF length_filter_le])
  moreover have "distinct (map snd (ked_pressed_keys ?D))"
    using inv by (simp add: dispatcher_inv_def distinct_map_filter)
  ultimately show ?thesis
    using inv True e(2)
    by (auto simp: dispatcher_inv_def dispatch_key_up_event_def expected_modifiers_def)
qed

lemma flags_key_up [simp]:
  "ked_pressed_modifier_flags (fst (dispatch_key_up_event P H u t s)) = ked_pressed_modifier_flags (fst s)"
  by (simp add: dispatch_key_up_event_def split: prod.splits)

lemma inv_caps_lock_flag:
  assumes "dispatcher_inv keys mods (D, q)"
  shows "dispatcher_inv keys mods (insert_pressed_modifier_flag mf_caps_lock D, q)"
    "dispatcher_inv keys mods (erase_pressed_modifier_flag mf_caps_lock D, q)"
  using assms
  by (auto simp: dispatcher_inv_def insert_pressed_modifier_flag_def erase_pressed_modifier_flag_def
      expected_on_def expected_modifiers_def fun_eq_iff)

lemma inv_send_caps_lock:
  assumes sets: "report_fields_are_sets H keys mods" and inv: "dispatcher_inv keys mods s"
  shows "dispatcher_inv keys mods (send_caps_lock P H t s)"
    and "ked_pressed_modifier_flags (fst (send_caps_lock P H t s)) = ked_pressed_modifier_flags (fst s)"
proof -
  let ?u = "Usage_Pair page_keyboard_or_keypad usage_caps_lock"
  let ?s = "if key_event_exists ?u (fst s) then dispatch_key_up_event P H ?u t s else s"
  obtain D q where Dq: "?s = (D, q)" by force
  have c: "report_modifier (MSE ?u) = None"
    by (simp add: report_modifier_def make_modifier_flag_def mse_page_def mse_usage_def)
  have i: "dispatcher_inv keys mods (D, q)"
    unfolding Dq[symmetric] using inv_key_up[OF sets, of "fst s" "snd s" P ?u t] inv by simp
  have gone: "?u \<notin> snd ` set (ked_pressed_keys D)"
    using Dq by (cases s) (auto simp: dispatch_key_up_event_def key_event_exists_iff split: if_splits)
  have r: "reported_on keys q = expected_on D" using i by (simp add: dispatcher_inv_def)
  have room: "card (reported_on keys q (get_usage_page ?u)) < 32"
    unfolding r using card_expected_on[of D "get_usage_page ?u"] i
    by (simp add: dispatcher_inv_def)
  let ?q1 = "enqueue_key_event P H ?u key_down t q"
  let ?q2 = "enqueue_key_event P H ?u key_up t ?q1"
  have "usage_caps_lock \<notin> reported_on keys q page_keyboard_or_keypad"
    using gone r by (simp add: expected_on_def)
  then have "reported_on keys ?q2 = reported_on keys q"
    unfolding enqueue_key(1)[OF sets c] enqueue_key(2)[OF sets c room]
    by (auto simp: fun_eq_iff has_report_def)
  moreover have "pq_modifiers ?q2 = pq_modifiers q" by (simp add: enqueue_key(3)[OF sets c])
  moreover have e: "send_caps_lock P H t s = (D, ?q2)"
    using Dq by (simp add: send_caps_lock_def mse_def Let_def)
  ultimately show "dispatcher_inv keys mods (send_caps_lock P H t s)"
    using i by (simp add: dispatcher_inv_def)
  show "ked_pressed_modifier_flags (fst (send_caps_lock P H t s)) = ked_pressed_modifier_flags (fst s)"
    using arg_cong[OF Dq, of "\<lambda>s. ked_pressed_modifier_flags (fst s)"] e by (simp split: if_splits)
qed

lemma inv_other:
  assumes "dispatcher_inv keys mods (D, q)" "\<not> is_key_op x"
  shows "dispatcher_inv keys mods (D, post_queue_step P H x q)"
proof -
  have "page_field p (post_queue_step P H x q) = page_field p q
    \<and> pq_modifiers (post_queue_step P H x q) = pq_modifiers q" for p
    using assms(2)
    by (cases x)
       (auto simp: emplace_back_pointing_input_def push_back_shell_command_event_def
         push_back_select_input_source_event_def push_back_software_function_event_def
         post_queue_clear_def async_post_events_def page_field_def push_post_event_def
         adjust_time_stamp_def Let_def split: prod.splits)
  then show ?thesis using assms(1) by (simp add: dispatcher_inv_def reported_on_def fun_eq_iff)
qed

lemma make_hid_report_modifier_inj:
  "make_hid_report_modifier m = Some r \<Longrightarrow> make_hid_report_modifier m' = Some r \<Longrightarrow> m = m'"
  by (cases m; cases m') auto

lemma report_modifier_of_flag:
  "report_modifier (mse_of_modifier_flag m) = make_hid_report_modifier m"
  by (cases m) (simp_all add: report_modifier_def make_modifier_flag_def Let_def)

text \<open>A modifier that is no lock key is sent once and then counted as pressed or released.\<close>

lemma send_modifier_eq:
  "m \<in> set dispatched_modifier_flags \<Longrightarrow>
   send_modifier P H m et t q = enqueue_key_event P H (get_usage_pair (mse_of_modifier_flag m)) et t q"
  by (auto simp: send_modifier_def dispatched_modifier_flags_def Let_def)

lemma inv_send_hid_modifier:
  assumes sets: "report_fields_are_sets H keys mods" and inv: "dispatcher_inv keys mods (D, q)"
    and m: "m \<in> set dispatched_modifier_flags" and x: "make_hid_report_modifier m = Some x"
  shows "dispatcher_inv keys mods (insert_pressed_modifier_flag m D, send_modifier P H m key_down t q)"
    and "dispatcher_inv keys mods (erase_pressed_modifier_flag m D, send_modifier P H m key_up t q)"
proof -
  let ?u = "get_usage_pair (mse_of_modifier_flag m)"
  have "report_modifier (MSE ?u) = Some x" by (simp add: report_modifier_of_flag x)
  note e = this[THEN enqueue_modifier(1)[OF sets]] this[THEN enqueue_modifier(2)[OF sets]]
    this[THEN enqueue_modifier(3)[OF sets]]
  have fn: "m \<noteq> mf_fn" using x by auto
  have on: "expected_on (insert_pressed_modifier_flag m D) = expected_on D"
    "expected_on (erase_pressed_modifier_flag m D) = expected_on D"
    using fn by (auto simp: expected_on_def insert_pressed_modifier_flag_def erase_pressed_modifier_flag_def
        fun_eq_iff)
  have mo: "expected_modifiers (insert_pressed_modifier_flag m D) = insert x (expected_modifiers D)"
    "expected_modifiers (erase_pressed_modifier_flag m D) = expected_modifiers D - {x}"
    using x
    by (auto simp: expected_modifiers_def insert_pressed_modifier_flag_def erase_pressed_modifier_flag_def
        dest: make_hid_report_modifier_inj)
  show "dispatcher_inv keys mods (insert_pressed_modifier_flag m D, send_modifier P H m key_down t q)"
    using inv unfolding dispatcher_inv_def send_modifier_eq[OF m] fst_conv snd_conv on(1) mo(1) e
    by (simp add: insert_pressed_modifier_flag_def)
  show "dispatcher_inv keys mods (erase_pressed_modifier_flag m D, send_modifier P H m key_up t q)"
    using inv unfolding dispatcher_inv_def send_modifier_eq[OF m] fst_conv snd_conv on(2) mo(2) e
    by (simp add: erase_pressed_modifier_flag_def)
qed

lemma inv_send_fn:
  assumes sets: "report_fields_are_sets H keys mods" and inv: "dispatcher_inv keys mods (D, q)"
  shows "mf_fn \<notin> ked_pressed_modifier_flags D \<Longrightarrow>
      dispatcher_inv keys mods (insert_pressed_modifier_flag mf_fn D, send_modifier P H mf_fn key_down t q)"
    and "dispatcher_inv keys mods (erase_pressed_modifier_flag mf_fn D, send_modifier P H mf_fn key_up t q)"
proof -
  let ?u = "Usage_Pair page_apple_vendor_top_case usage_keyboard_fn"
  have c: "report_modifier (MSE ?u) = None"
    by (simp add: report_modifier_def make_modifier_flag_def mse_page_def mse_usage_def)
  have s: "send_modifier P H mf_fn et t q = enqueue_key_event P H ?u et t q" for et
    by (simp add: send_modifier_eq dispatched_modifier_flags_def mse_def)
  have r: "reported_on keys q = expected_on D" using inv by (simp add: dispatcher_inv_def)
  have "mse_is_modifier (MSE ?u)"
    by (simp add: mse_is_modifier_def make_modifier_flag_def mse_page_def mse_usage_def)
  then have absent: "?u \<notin> snd ` set (ked_pressed_keys D)"
    using inv by (auto simp: dispatcher_inv_def)
  have mo: "expected_modifiers (insert_pressed_modifier_flag mf_fn D) = expected_modifiers D"
    "expected_modifiers (erase_pressed_modifier_flag mf_fn D) = expected_modifiers D"
    by (auto simp: expected_modifiers_def insert_pressed_modifier_flag_def erase_pressed_modifier_flag_def)
  show "dispatcher_inv keys mods (insert_pressed_modifier_flag mf_fn D, send_modifier P H mf_fn key_down t q)"
    if "mf_fn \<notin> ked_pressed_modifier_flags D"
  proof -
    have "card (reported_on keys q (get_usage_page ?u)) < 32"
      unfolding r using card_expected_on[of D "get_usage_page ?u"] inv that
      by (simp add: dispatcher_inv_def)
    note e = enqueue_key(2)[OF sets c this, of P t] enqueue_key(3)[OF sets c, of P key_down t q]
    have "reported_on keys (enqueue_key_event P H ?u key_down t q) =
        expected_on (insert_pressed_modifier_flag mf_fn D)"
      unfolding e(1) r
      by (rule ext) (auto simp: expected_on_def insert_pressed_modifier_flag_def has_report_def)
    then show ?thesis
      using inv e(2) mo(1) by (simp add: dispatcher_inv_def s) (simp add: insert_pressed_modifier_flag_def)
  qed
  note e = enqueue_key(1)[OF sets c, of P t q] enqueue_key(3)[OF sets c, of P key_up t q]
  have "reported_on keys (enqueue_key_event P H ?u key_up t q) =
      expected_on (erase_pressed_modifier_flag mf_fn D)"
    unfolding e(1) r using absent
    by (intro ext) (auto simp: expected_on_def erase_pressed_modifier_flag_def has_report_def)
  then show "dispatcher_inv keys mods (erase_pressed_modifier_flag mf_fn D, send_modifier P H mf_fn key_up t q)"
    using inv e(2) mo(2) by (simp add: dispatcher_inv_def s) (simp add: erase_pressed_modifier_flag_def)
qed

lemma inv_dispatch_modifier_flag:
  assumes sets: "report_fields_are_sets H keys mods" and inv: "dispatcher_inv keys mods s"
    and m: "m \<in> set dispatched_modifier_flags"
  shows "dispatcher_inv keys mods (dispatch_modifier_flag P H fs t m s)"
proof -
  obtain D q where s: "s = (D, q)" by force
  consider "m = mf_caps_lock" | "m = mf_fn" | x where "make_hid_report_modifier m = Some x"
    using m by (auto simp: dispatched_modifier_flags_def)
  then show ?thesis
  proof cases
    case 1
    note flag = inv_caps_lock_flag[OF inv[unfolded s]]
    show ?thesis
      using 1 inv inv_send_caps_lock(1)[OF sets flag(1)] inv_send_caps_lock(1)[OF sets flag(2)]
      by (simp add: s dispatch_modifier_flag_def Let_def)
  next
    case 2
    then show ?thesis
      using inv inv_send_fn[OF sets] by (simp add: s dispatch_modifier_flag_def Let_def)
  next
    case 3
    moreover have "m \<noteq> mf_caps_lock" using 3 by auto
    ultimately show ?thesis
      using inv inv_send_hid_modifier[OF sets _ m 3] by (simp add: s dispatch_modifier_flag_def Let_def)
  qed
qed

lemma flags_dispatch_modifier_flag:
  "ked_pressed_modifier_flags (fst (dispatch_modifier_flag P H fs t m s)) =
     (if is_pressed m fs then insert m (ked_pressed_modifier_flags (fst s))
      else ked_pressed_modifier_flags (fst s) - {m})"
proof -
  have caps: "ked_pressed_modifier_flags (fst (send_caps_lock P H t s)) = ked_pressed_modifier_flags (fst s)"
    for s by (cases s) (simp add: send_caps_lock_def Let_def split: prod.splits, metis flags_key_up fst_conv)
  show ?thesis
    by (cases s) (auto simp: dispatch_modifier_flag_def Let_def caps insert_pressed_modifier_flag_def
        erase_pressed_modifier_flag_def)
qed

lemma inv_dispatch_modifier_key_event:
  assumes sets: "report_fields_are_sets H keys mods" and inv: "dispatcher_inv keys mods s"
  shows "dispatcher_inv keys mods (dispatch_modifier_key_event P H fs t s)"
proof -
  have "dispatcher_inv keys mods (foldl (\<lambda>s m. dispatch_modifier_flag P H fs t m s) s ms)"
    if "set ms \<subseteq> set dispatched_modifier_flags" for ms
    using that
    by (induction ms rule: rev_induct) (simp_all add: inv inv_dispatch_modifier_flag[OF sets])
  then show ?thesis by (simp add: dispatch_modifier_key_event_def)
qed

lemma flags_dispatch_modifier_key_event:
  "ked_pressed_modifier_flags (fst (dispatch_modifier_key_event P H fs t s)) =
     (ked_pressed_modifier_flags (fst s) - set dispatched_modifier_flags)
     \<union> {m \<in> set dispatched_modifier_flags. is_pressed m fs}"
proof -
  have "ked_pressed_modifier_flags (fst (foldl (\<lambda>s m. dispatch_modifier_flag P H fs t m s) s ms)) =
     (ked_pressed_modifier_flags (fst s) - set ms) \<union> {m \<in> set ms. is_pressed m fs}" for ms
    by (induction ms rule: rev_induct) (auto simp: flags_dispatch_modifier_flag)
  then show ?thesis by (simp add: dispatch_modifier_key_event_def)
qed

lemma pressed_send_caps_lock:
  "\<exists>p. ked_pressed_keys (fst (send_caps_lock P H t s)) = filter p (ked_pressed_keys (fst s))"
proof -
  have "\<exists>p. ked_pressed_keys (fst (dispatch_key_up_event P H u t s)) = filter p (ked_pressed_keys (fst s))" for u
    by (auto simp: dispatch_key_up_event_def case_prod_beta intro: exI[of _ "\<lambda>_. True"])
  moreover have "\<exists>p. ked_pressed_keys (fst s) = filter p (ked_pressed_keys (fst s))"
    by (rule exI[of _ "\<lambda>_. True"]) simp
  ultimately show ?thesis by (simp add: send_caps_lock_def Let_def case_prod_beta)
qed

lemma pressed_dispatch_modifier_flag:
  "\<exists>p. ked_pressed_keys (fst (dispatch_modifier_flag P H fs t m s)) = filter p (ked_pressed_keys (fst s))"
proof -
  obtain D q where s: "s = (D, q)" by force
  have "\<exists>p. ked_pressed_keys D = filter p (ked_pressed_keys D)"
    by (rule exI[of _ "\<lambda>_. True"]) simp
  then show ?thesis
    using pressed_send_caps_lock[of P H t "(insert_pressed_modifier_flag m D, q)"]
      pressed_send_caps_lock[of P H t "(erase_pressed_modifier_flag m D, q)"]
    by (cases "m = mf_caps_lock") (simp_all add: s dispatch_modifier_flag_def Let_def
        insert_pressed_modifier_flag_def erase_pressed_modifier_flag_def)
qed

text \<open>Dispatching the modifiers can only release keys.\<close>

lemma pressed_dispatch_modifier_key_event:
  "\<exists>p. ked_pressed_keys (fst (dispatch_modifier_key_event P H fs t s)) = filter p (ked_pressed_keys (fst s))"
proof -
  have "\<exists>p. ked_pressed_keys (fst (foldl (\<lambda>s m. dispatch_modifier_flag P H fs t m s) s ms))
      = filter p (ked_pressed_keys (fst s))" for ms
  proof (induction ms rule: rev_induct)
    case Nil then show ?case by (intro exI[of _ "\<lambda>_. True"]) simp
  next
    case (snoc m ms)
    then show ?case
      using pressed_dispatch_modifier_flag[of P H fs t m "foldl (\<lambda>s m. dispatch_modifier_flag P H fs t m s) s ms"]
      by (auto simp: filter_filter)
  qed
  then show ?thesis by (simp add: dispatch_modifier_key_event_def)
qed

lemma pressed_dispatch_modifiers:
  "length (ked_pressed_keys (fst (dispatch_modifier_key_event P H fs t s))) \<le> length (ked_pressed_keys (fst s))"
  "set (ked_pressed_keys (fst (dispatch_modifier_key_event P H fs t s))) \<subseteq> set (ked_pressed_keys (fst s))"
  using pressed_dispatch_modifier_key_event[of P H fs t s] by auto

lemma inv_device:
  "report_fields_are_sets H keys mods \<Longrightarrow> dispatcher_inv keys mods s \<Longrightarrow>
     dispatcher_inv keys mods (dispatch_key_up_events_by_device_id P H d t s)
     \<and> d \<notin> fst ` set (ked_pressed_keys (fst (dispatch_key_up_events_by_device_id P H d t s)))"
proof (induction P H d t s rule: dispatch_key_up_events_by_device_id.induct)
  case (1 P H d t s)
  obtain D q where s: "s = (D, q)" by force
  show ?case
  proof (cases "find (\<lambda>k. fst k = d) (ked_pressed_keys (fst s))")
    case None
    then have "dispatch_key_up_events_by_device_id P H d t s = s"
      by (simp add: dispatch_key_up_events_by_device_id.simps)
    then show ?thesis using 1(3) None by (auto simp: find_None_iff)
  next
    case (Some k)
    have "dispatch_key_up_events_by_device_id P H d t s =
        dispatch_key_up_events_by_device_id P H d t (dispatch_key_up_event P H (snd k) t s)"
      by (subst dispatch_key_up_events_by_device_id.simps) (simp add: Some)
    then show ?thesis
      using 1(1)[OF Some 1(2)] inv_key_up[OF 1(2), of D q P "snd k" t] 1(3) s by simp
  qed
qed

lemma dispatcher_run_inv:
  assumes "dispatcher_run P H s" "report_fields_are_sets H keys mods"
  shows "dispatcher_inv keys mods s"
  using assms(1)
proof induction
  case run_start
  then show ?case
    using assms(2)
    by (auto simp: dispatcher_inv_def report_fields_are_sets_def key_event_dispatcher_initial_def
        post_queue_initial_def reported_on_def expected_on_def expected_modifiers_def page_field_def
        fun_eq_iff has_report_def split: option.splits)
next
  case (run_key_down s u d t)
  then show ?case using inv_key_down[OF assms(2), of "fst s" "snd s"] by simp
next
  case (run_key_up s u t)
  then show ?case using inv_key_up[OF assms(2), of "fst s" "snd s"] by simp
next
  case (run_modifiers s fs t) then show ?case using inv_dispatch_modifier_key_event[OF assms(2)] by blast
next
  case (run_device s d t) then show ?case using inv_device[OF assms(2)] by blast
next
  case run_caps_lock_on then show ?case using inv_caps_lock_flag by blast
next
  case run_caps_lock_off then show ?case using inv_caps_lock_flag by blast
next
  case run_other then show ?case using inv_other by blast
qed

text \<open>
  C4. The virtual keyboard never disagrees with the dispatcher: after any sequence of key downs and
  ups, dispatched modifiers, disappearing devices, caps lock changes and other queue operations, a
  usage is in the reports of its page exactly when the dispatcher counts it as pressed (or it is fn
  and fn is pressed), the reported modifiers are the pressed ones, and no key is counted twice.
\<close>

theorem reports_hold_what_is_pressed:
  assumes "dispatcher_run P H s" "report_fields_are_sets H keys mods"
  shows "(\<forall>p. reported_on keys (snd s) p = expected_on (fst s) p)
    \<and> mods (pq_modifiers (snd s)) = expected_modifiers (fst s)
    \<and> distinct (map snd (ked_pressed_keys (fst s)))"
  using dispatcher_run_inv[OF assms] by (simp add: dispatcher_inv_def)

lemma synchronised_reports:
  assumes "dispatcher_inv keys mods s" "report_fields_are_sets H keys mods"
  shows "mods (pq_modifiers (snd (dispatch_modifier_key_event P H fs t s))) =
      {r. \<exists>m. is_pressed m fs \<and> make_hid_report_modifier m = Some r}
    \<and> (usage_keyboard_fn \<in> reported_on keys (snd (dispatch_modifier_key_event P H fs t s))
         page_apple_vendor_top_case \<longleftrightarrow> is_pressed mf_fn fs)
    \<and> d \<notin> fst ` set (ked_pressed_keys (fst (dispatch_key_up_events_by_device_id P H d t s)))
    \<and> (\<forall>p u. u \<in> reported_on keys (snd (dispatch_key_up_events_by_device_id P H d t s)) p \<longrightarrow>
         p = page_apple_vendor_top_case \<and> u = usage_keyboard_fn
         \<or> (\<exists>d'. d' \<noteq> d \<and> (d', Usage_Pair p u) \<in>
              set (ked_pressed_keys (fst (dispatch_key_up_events_by_device_id P H d t s)))))"
proof -
  let ?s = "dispatch_modifier_key_event P H fs t s"
  let ?s' = "dispatch_key_up_events_by_device_id P H d t s"
  have i: "dispatcher_inv keys mods ?s" and i': "dispatcher_inv keys mods ?s'"
    using inv_dispatch_modifier_key_event[OF assms(2,1)] inv_device[OF assms(2,1)] by auto
  have "Usage_Pair page_apple_vendor_top_case usage_keyboard_fn \<notin> snd ` set (ked_pressed_keys (fst ?s))"
  proof -
    have "mse_is_modifier (MSE (Usage_Pair page_apple_vendor_top_case usage_keyboard_fn))"
      by (simp add: mse_is_modifier_def make_modifier_flag_def mse_page_def mse_usage_def)
    then show ?thesis using i by (auto simp: dispatcher_inv_def)
  qed
  then have fn: "usage_keyboard_fn \<in> expected_on (fst ?s) page_apple_vendor_top_case \<longleftrightarrow> is_pressed mf_fn fs"
    by (simp add: expected_on_def has_report_def flags_dispatch_modifier_key_event
        dispatched_modifier_flags_def)
  have "m \<in> set dispatched_modifier_flags" if "make_hid_report_modifier m = Some r" for m r
    using that by (cases m) (auto simp: dispatched_modifier_flags_def)
  then have mo: "expected_modifiers (fst ?s) = {r. \<exists>m. is_pressed m fs \<and> make_hid_report_modifier m = Some r}"
    unfolding expected_modifiers_def flags_dispatch_modifier_key_event by blast
  have gone: "d \<notin> fst ` set (ked_pressed_keys (fst ?s'))"
    using inv_device[OF assms(2,1)] by blast
  have r: "reported_on keys (snd ?s') = expected_on (fst ?s')" using i' by (simp add: dispatcher_inv_def)
  have "p = page_apple_vendor_top_case \<and> u = usage_keyboard_fn
      \<or> (\<exists>d'. d' \<noteq> d \<and> (d', Usage_Pair p u) \<in> set (ked_pressed_keys (fst ?s')))"
    if "u \<in> reported_on keys (snd ?s') p" for p u
    using that gone unfolding r by (force simp: expected_on_def split: if_splits)
  then show ?thesis using i fn mo gone by (simp add: dispatcher_inv_def)
qed

text \<open>
  C36. Dispatching repairs the modifiers and ungrabbing releases the keys: whatever happened before,
  after \<open>dispatch_modifier_key_event\<close> the reported modifiers, fn included, are those the flag
  manager says are pressed, and after \<open>dispatch_key_up_events_by_device_id\<close>, whose loop ends, a
  reported key belongs to another device.
\<close>

theorem dispatching_synchronises_the_reports:
  assumes "dispatcher_run P H s" "report_fields_are_sets H keys mods"
  shows "mods (pq_modifiers (snd (dispatch_modifier_key_event P H fs t s))) =
      {r. \<exists>m. is_pressed m fs \<and> make_hid_report_modifier m = Some r}
    \<and> (usage_keyboard_fn \<in> reported_on keys (snd (dispatch_modifier_key_event P H fs t s))
         page_apple_vendor_top_case \<longleftrightarrow> is_pressed mf_fn fs)
    \<and> d \<notin> fst ` set (ked_pressed_keys (fst (dispatch_key_up_events_by_device_id P H d t s)))
    \<and> (\<forall>p u. u \<in> reported_on keys (snd (dispatch_key_up_events_by_device_id P H d t s)) p \<longrightarrow>
         p = page_apple_vendor_top_case \<and> u = usage_keyboard_fn
         \<or> (\<exists>d'. d' \<noteq> d \<and> (d', Usage_Pair p u) \<in>
              set (ked_pressed_keys (fst (dispatch_key_up_events_by_device_id P H d t s)))))"
  by (rule synchronised_reports[OF dispatcher_run_inv[OF assms] assms(2)])

subsection \<open>Witnesses\<close>

text \<open>Report fields as pairs of a set of usages and a set of modifiers.\<close>

definition pair_hid_report_ops :: "(usage set \<times> hid_report_modifier set) hid_report_ops" where
  "pair_hid_report_ops =
     \<lparr>hro_keys_empty = ({}, {}), hro_keys_insert = (\<lambda>u k. (insert u (fst k), snd k)),
      hro_keys_erase = (\<lambda>u k. (fst k - {u}, snd k)),
      hro_modifiers_empty = ({}, {}), hro_modifiers_insert = (\<lambda>m k. (fst k, insert m (snd k))),
      hro_modifiers_erase = (\<lambda>m k. (fst k, snd k - {m})),
      hro_buttons_empty = ({}, {}), hro_buttons_insert = (\<lambda>u k. (insert u (fst k), snd k)),
      hro_buttons_is_empty = (\<lambda>k. fst k = {})\<rparr>"

lemma pair_hid_report_ops_are_sets: "report_fields_are_sets pair_hid_report_ops fst snd"
  by (simp add: report_fields_are_sets_def pair_hid_report_ops_def)

definition sample_dispatcher_state :: "(usage set \<times> hid_report_modifier set) dispatcher_state" where
  "sample_dispatcher_state =
     dispatch_key_down_event witness_platform pair_hid_report_ops 1
       (Usage_Pair page_keyboard_or_keypad 4) 5
       (key_event_dispatcher_initial, post_queue_initial pair_hid_report_ops)"

lemma sample_dispatcher_run: "dispatcher_run witness_platform pair_hid_report_ops sample_dispatcher_state"
  unfolding sample_dispatcher_state_def
  by (intro dispatcher_run.intros)
     (simp_all add: key_event_dispatcher_initial_def mse_is_modifier_def make_modifier_flag_def
       mse_page_def mse_usage_def)

theorem reports_hold_what_is_pressed_witness:
  "reported_on fst (snd sample_dispatcher_state) page_keyboard_or_keypad = {4}"
proof -
  have "reported_on fst (snd sample_dispatcher_state) page_keyboard_or_keypad =
      expected_on (fst sample_dispatcher_state) page_keyboard_or_keypad"
    using reports_hold_what_is_pressed[OF sample_dispatcher_run pair_hid_report_ops_are_sets] by blast
  also have "\<dots> = {4}"
    by (simp add: sample_dispatcher_state_def dispatch_key_down_event_def key_event_exists_def
        key_event_dispatcher_initial_def expected_on_def has_report_def)
  finally show ?thesis .
qed

theorem dispatching_synchronises_the_reports_witness:
  "snd (pq_modifiers (snd (dispatch_modifier_key_event witness_platform pair_hid_report_ops
      [make_active_modifier_flag increase mf_left_shift 1] 7 sample_dispatcher_state))) = {hid_left_shift}
   \<and> 1 \<notin> fst ` set (ked_pressed_keys (fst (dispatch_key_up_events_by_device_id witness_platform
       pair_hid_report_ops 1 7 sample_dispatcher_state)))"
proof -
  have "is_pressed m [make_active_modifier_flag increase mf_left_shift 1] \<longleftrightarrow> m = mf_left_shift" for m
    by (auto simp: is_pressed_def make_active_modifier_flag_def get_count_def)
  then show ?thesis
    using dispatching_synchronises_the_reports[OF sample_dispatcher_run pair_hid_report_ops_are_sets,
        of "[make_active_modifier_flag increase mf_left_shift 1]" 7 1]
    by simp
qed

end
