(* ===== verification/Mouse_Key_Handler.thy ===== *)
theory Mouse_Key_Handler
  imports Post_Queue Event_Queue_Utility "HOL-Library.Signed_Division"
begin

text \<open>
  \<open>src/share/manipulator/manipulators/post_event_to_virtual_devices/mouse_key_handler.hpp\<close> and the
  operators of \<open>src/share/types/mouse_key.hpp\<close>: the mouse keys that are held down, and the timer
  that moves the pointer every 20 milliseconds while their sum is not zero.

  The lemmas show that the loops of \<open>count_converter\<close> divide, that the handler is active exactly
  while mouse keys are held, and that the timer stops once they are released.
\<close>

subsection \<open>count_converter\<close>

record count_converter =
  ccv_threshold :: int
  ccv_count :: int

definition count_converter_of :: "int \<Rightarrow> count_converter" where
  "count_converter_of th = \<lparr>ccv_threshold = th, ccv_count = 0\<rparr>"

text \<open>The two loops, on the pair of \<open>count_\<close> and \<open>result\<close>; they may not end.\<close>

partial_function (option) negative_count_loop :: "int \<Rightarrow> int \<times> int \<Rightarrow> (int \<times> int) option" where
  "negative_count_loop th s =
     (if fst s \<le> - th
      then negative_count_loop th (fst s + th, if snd s > -127 then snd s - 1 else snd s)
      else Some s)"

partial_function (option) positive_count_loop :: "int \<Rightarrow> int \<times> int \<Rightarrow> (int \<times> int) option" where
  "positive_count_loop th s =
     (if fst s \<ge> th
      then positive_count_loop th (fst s - th, if snd s < 127 then snd s + 1 else snd s)
      else Some s)"

definition ccv_update :: "int \<Rightarrow> count_converter \<Rightarrow> (8 word \<times> count_converter) option" where
  "ccv_update value c =
     (case negative_count_loop (ccv_threshold c) (ccv_count c + value, 0) of
        None \<Rightarrow> None
      | Some s \<Rightarrow>
          (case positive_count_loop (ccv_threshold c) s of
             None \<Rightarrow> None
           | Some (n, result) \<Rightarrow> Some (word_of_int result, c\<lparr>ccv_count := n\<rparr>)))"

definition ccv_reset :: "count_converter \<Rightarrow> count_converter" where
  "ccv_reset c = c\<lparr>ccv_count := 0\<rparr>"

subsection \<open>Sums of mouse keys\<close>

text \<open>Products of doubles are rounded by the hardware, so they are parameters.\<close>

record mouse_key_arithmetic =
  mka_times :: "rat \<Rightarrow> rat \<Rightarrow> rat"
  mka_percent :: "int \<Rightarrow> rat"

definition mk_plus :: "mouse_key_arithmetic \<Rightarrow> mouse_key \<Rightarrow> mouse_key \<Rightarrow> mouse_key" where
  "mk_plus A m other =
     \<lparr>mk_x = mk_x m + mk_x other, mk_y = mk_y m + mk_y other,
      mk_vertical_wheel = mk_vertical_wheel m + mk_vertical_wheel other,
      mk_horizontal_wheel = mk_horizontal_wheel m + mk_horizontal_wheel other,
      mk_speed_multiplier = mka_times A (mk_speed_multiplier m) (mk_speed_multiplier other)\<rparr>"

subsection \<open>State\<close>

text \<open>
  The timer holds the time stamp its function captured; starting it again replaces the function.
  The first flag tells that the weak pointer to the output queue was assigned.
\<close>

record mouse_key_handler =
  mkh_output_queue_assigned :: bool
  mkh_properties :: system_preferences_properties
  mkh_entries :: "(device_id \<times> mouse_key) list"
  mkh_active :: bool
  mkh_last_mouse_key_total :: "mouse_key option"
  mkh_x :: count_converter
  mkh_y :: count_converter
  mkh_vertical_wheel :: count_converter
  mkh_horizontal_wheel :: count_converter
  mkh_timer :: "absolute_time_point option"

definition mouse_key_handler_initial :: mouse_key_handler where
  "mouse_key_handler_initial =
     \<lparr>mkh_output_queue_assigned = False,
      mkh_properties = \<lparr>spp_use_fkeys_as_standard_function_keys = False, spp_scroll_direction_is_natural = True\<rparr>,
      mkh_entries = [], mkh_active = False, mkh_last_mouse_key_total = None,
      mkh_x = count_converter_of 128, mkh_y = count_converter_of 128,
      mkh_vertical_wheel = count_converter_of 128, mkh_horizontal_wheel = count_converter_of 128,
      mkh_timer = None\<rparr>"

definition set_system_preferences_properties ::
    "system_preferences_properties \<Rightarrow> mouse_key_handler \<Rightarrow> mouse_key_handler" where
  "set_system_preferences_properties v h = h\<lparr>mkh_properties := v\<rparr>"

definition start_timer :: "absolute_time_point \<Rightarrow> mouse_key_handler \<Rightarrow> mouse_key_handler" where
  "start_timer t h = h\<lparr>mkh_timer := Some t\<rparr>"

definition mkh_erase_if :: "(device_id \<times> mouse_key \<Rightarrow> bool) \<Rightarrow> mouse_key_handler \<Rightarrow> mouse_key_handler" where
  "mkh_erase_if p h =
     (let es = filter (\<lambda>e. \<not> p e) (mkh_entries h) in h\<lparr>mkh_entries := es, mkh_active := (es \<noteq> [])\<rparr>)"

definition erase_entry :: "device_id \<Rightarrow> mouse_key \<Rightarrow> mouse_key_handler \<Rightarrow> mouse_key_handler" where
  "erase_entry d m h = mkh_erase_if (\<lambda>e. fst e = d \<and> snd e = m) h"

definition push_back_mouse_key ::
    "device_id \<Rightarrow> mouse_key \<Rightarrow> absolute_time_point \<Rightarrow> mouse_key_handler \<Rightarrow> mouse_key_handler" where
  "push_back_mouse_key d m t h =
     (let h1 = erase_entry d m h;
          es = mkh_entries h1 @ [(d, m)]
      in start_timer t
           (h1\<lparr>mkh_output_queue_assigned := True, mkh_entries := es, mkh_active := (es \<noteq> [])\<rparr>))"

definition erase_mouse_key ::
    "device_id \<Rightarrow> mouse_key \<Rightarrow> absolute_time_point \<Rightarrow> mouse_key_handler \<Rightarrow> mouse_key_handler" where
  "erase_mouse_key d m t h = start_timer t ((erase_entry d m h)\<lparr>mkh_output_queue_assigned := True\<rparr>)"

definition erase_mouse_keys_by_device_id ::
    "device_id \<Rightarrow> absolute_time_point \<Rightarrow> mouse_key_handler \<Rightarrow> mouse_key_handler" where
  "erase_mouse_keys_by_device_id d t h = start_timer t (mkh_erase_if (\<lambda>e. fst e = d) h)"

subsection \<open>The timer\<close>

definition total_mouse_key :: "mouse_key_arithmetic \<Rightarrow> mouse_key_handler \<Rightarrow> mouse_key" where
  "total_mouse_key A h =
     (let sum_key = foldl (\<lambda>m e. mk_plus A m (snd e)) mouse_key_default (mkh_entries h)
      in if \<not> spp_scroll_direction_is_natural (mkh_properties h) then mk_invert_wheel sum_key else sum_key)"

definition remember_total :: "mouse_key \<Rightarrow> mouse_key_handler \<Rightarrow> mouse_key_handler" where
  "remember_total sum_key h =
     (if mkh_last_mouse_key_total h \<noteq> Some sum_key
      then h\<lparr>mkh_last_mouse_key_total := Some sum_key, mkh_x := ccv_reset (mkh_x h),
             mkh_y := ccv_reset (mkh_y h), mkh_vertical_wheel := ccv_reset (mkh_vertical_wheel h),
             mkh_horizontal_wheel := ccv_reset (mkh_horizontal_wheel h)\<rparr>
      else h)"

text \<open>\<open>static_cast<int>(v * total.get_speed_multiplier() * xy_scale)\<close>, and without the scale.\<close>

definition scaled_motion :: "floating_point \<Rightarrow> mouse_key_arithmetic \<Rightarrow> mouse_key \<Rightarrow> rat \<Rightarrow> int \<Rightarrow> int" where
  "scaled_motion F A sum_key xy_scale v =
     fp_to_int F (mka_times A (fp_multiply F v (mk_speed_multiplier sum_key)) xy_scale)"

definition wheel_motion :: "floating_point \<Rightarrow> mouse_key \<Rightarrow> int \<Rightarrow> int" where
  "wheel_motion F sum_key v = fp_to_int F (fp_multiply F v (mk_speed_multiplier sum_key))"

text \<open>
  The report and the converters after the four updates; \<open>None\<close> when an update does not end.
\<close>

definition mouse_key_report ::
    "floating_point \<Rightarrow> mouse_key_arithmetic \<Rightarrow> mouse_key \<Rightarrow> rat \<Rightarrow> 'k \<Rightarrow> mouse_key_handler \<Rightarrow>
     ('k pointing_input \<times> mouse_key_handler) option" where
  "mouse_key_report F A sum_key xy_scale buttons h =
     (case (ccv_update (scaled_motion F A sum_key xy_scale (mk_x sum_key)) (mkh_x h),
            ccv_update (scaled_motion F A sum_key xy_scale (mk_y sum_key)) (mkh_y h),
            ccv_update (wheel_motion F sum_key (mk_vertical_wheel sum_key)) (mkh_vertical_wheel h),
            ccv_update (wheel_motion F sum_key (mk_horizontal_wheel sum_key)) (mkh_horizontal_wheel h)) of
        (Some (x, cx), Some (y, cy), Some (v, cv), Some (w, cw)) \<Rightarrow>
          Some (\<lparr>pin_buttons = buttons, pin_x = x, pin_y = y, pin_vertical_wheel = v, pin_horizontal_wheel = w\<rparr>,
                h\<lparr>mkh_x := cx, mkh_y := cy, mkh_vertical_wheel := cv, mkh_horizontal_wheel := cw\<rparr>)
      | _ \<Rightarrow> None)"

text \<open>\<open>oeq\<close> is what the weak pointer to the output queue gives when it was assigned.\<close>

definition mkh_post_event ::
    "platform \<Rightarrow> floating_point \<Rightarrow> mouse_key_arithmetic \<Rightarrow> 'k hid_report_ops \<Rightarrow> event_queue option \<Rightarrow>
     absolute_time_point \<Rightarrow> mouse_key_handler \<times> 'k post_queue \<Rightarrow>
     (bool \<times> mouse_key_handler \<times> 'k post_queue) option" where
  "mkh_post_event P F A H oeq t s =
     (case s of (h, q) \<Rightarrow>
       case (if mkh_output_queue_assigned h then oeq else None) of
         None \<Rightarrow> Some (False, h, q)
       | Some eq \<Rightarrow>
           (let sum_key = total_mouse_key A h
            in if mk_is_zero sum_key then Some (False, h\<lparr>mkh_last_mouse_key_total := None\<rparr>, q)
               else (case mouse_key_report F A sum_key
                            (mka_percent A (cc_mouse_key_xy_scale (env_core_configuration (q_environment eq))))
                            (make_hid_report_buttons (hro_buttons_empty H) (hro_buttons_insert H) (q_pointing_buttons eq))
                            (remember_total sum_key h) of
                       None \<Rightarrow> None
                     | Some (report, h') \<Rightarrow>
                         Some (True, h', emplace_back_pointing_input P report single t q))))"

text \<open>
  One run of the timer's function. The function adds 20 milliseconds to a local copy of the time
  stamp, which is then dropped, so every run posts with the captured one.
\<close>

definition mkh_timer_fire ::
    "platform \<Rightarrow> floating_point \<Rightarrow> mouse_key_arithmetic \<Rightarrow> 'k hid_report_ops \<Rightarrow> event_queue option \<Rightarrow>
     mouse_key_handler \<times> 'k post_queue \<Rightarrow> (mouse_key_handler \<times> 'k post_queue) option" where
  "mkh_timer_fire P F A H oeq s =
     (case mkh_timer (fst s) of
        None \<Rightarrow> Some s
      | Some t \<Rightarrow>
          (case mkh_post_event P F A H oeq t s of
             None \<Rightarrow> None
           | Some (posted, h, q) \<Rightarrow> Some (if posted then h else h\<lparr>mkh_timer := None\<rparr>, q)))"

subsection \<open>The loops divide\<close>

lemma div_minus_step: "0 < (th::int) \<Longrightarrow> th \<le> n \<Longrightarrow> n div th = (n - th) div th + 1"
  using div_add_self2[of th "n - th"] by simp

lemma negative_count_loop_divides:
  assumes th: "0 < th"
  shows "-127 \<le> r \<Longrightarrow> c \<le> 0 \<Longrightarrow> negative_count_loop th (c, r) =
    Some (- ((- c) mod th), max (-127) (r - (- c) div th))"
proof (induction "nat (- c)" arbitrary: c r rule: less_induct)
  case less
  show ?case
  proof (cases "c \<le> - th")
    case True
    have d: "(- c) div th = (- c - th) div th + 1" using div_minus_step[OF th, of "- c"] True by simp
    have m: "(- c) mod th = (- c - th) mod th" by (metis mod_add_self2 diff_add_cancel)
    have "negative_count_loop th (c, r) = negative_count_loop th (c + th, if r > -127 then r - 1 else r)"
      using True by (subst negative_count_loop.simps) simp
    also have "\<dots> = Some (- ((- (c + th)) mod th),
        max (-127) ((if r > -127 then r - 1 else r) - (- (c + th)) div th))"
      using less(1)[of "c + th" "if r > -127 then r - 1 else r"] True th less(2) by auto
    also have "0 \<le> (- c - th) div th" using True th by (simp add: pos_imp_zdiv_nonneg_iff)
    then have "max (-127) ((if r > -127 then r - 1 else r) - (- (c + th)) div th)
        = max (-127) (r - (- c) div th)"
      using d less(2) by (auto simp: max_def)
    also have "(- (c + th)) mod th = (- c) mod th" unfolding m by simp
    finally show ?thesis .
  next
    case False
    then show ?thesis
      using less(2,3) th by (subst negative_count_loop.simps) (simp add: div_pos_pos_trivial mod_pos_pos_trivial)
  qed
qed

lemma positive_count_loop_divides:
  assumes th: "0 < th"
  shows "r \<le> 127 \<Longrightarrow> 0 \<le> c \<Longrightarrow> positive_count_loop th (c, r) =
    Some (c mod th, min 127 (r + c div th))"
proof (induction "nat c" arbitrary: c r rule: less_induct)
  case less
  show ?case
  proof (cases "th \<le> c")
    case True
    note d = div_minus_step[OF th True]
    have m: "c mod th = (c - th) mod th" by (metis mod_add_self2 diff_add_cancel)
    have "positive_count_loop th (c, r) = positive_count_loop th (c - th, if r < 127 then r + 1 else r)"
      using True by (subst positive_count_loop.simps) simp
    also have "\<dots> = Some ((c - th) mod th, min 127 ((if r < 127 then r + 1 else r) + (c - th) div th))"
      using less(1)[of "c - th" "if r < 127 then r + 1 else r"] True th less(2) by auto
    also have "0 \<le> (c - th) div th" using True th by (simp add: pos_imp_zdiv_nonneg_iff)
    then have "min 127 ((if r < 127 then r + 1 else r) + (c - th) div th) = min 127 (r + c div th)"
      using d less(2) by (auto simp: min_def)
    finally show ?thesis unfolding m .
  next
    case False
    then show ?thesis
      using less(2,3) th by (subst positive_count_loop.simps) (simp add: div_pos_pos_trivial mod_pos_pos_trivial)
  qed
qed

text \<open>
  The loops of \<open>count_converter::update\<close> end, and together they are a truncating division: with
  a positive threshold the result is the quotient of the accumulated count, limited to what a
  report byte can carry, and the remainder is kept for the next update.
\<close>

theorem count_converter_divides:
  assumes "0 < ccv_threshold c"
  shows "ccv_update value c =
    Some (word_of_int (max (-127) (min 127 ((ccv_count c + value) sdiv ccv_threshold c))),
          c\<lparr>ccv_count := (ccv_count c + value) smod ccv_threshold c\<rparr>)"
proof -
  let ?th = "ccv_threshold c" and ?v = "ccv_count c + value"
  show ?thesis
  proof (cases "?v \<le> 0")
    case True
    let ?m = "- ((- ?v) mod ?th)" and ?r = "max (-127) (- ((- ?v) div ?th))"
    have "negative_count_loop ?th (?v, 0) = Some (?m, ?r)"
      using negative_count_loop_divides[OF assms, of 0 ?v] True by simp
    moreover have "\<not> ?th \<le> ?m" using assms pos_mod_sign[OF assms, of "- ?v"] by linarith
    then have "positive_count_loop ?th (?m, ?r) = Some (?m, ?r)"
      by (subst positive_count_loop.simps) simp
    moreover have "?v sdiv ?th = - ((- ?v) div ?th)" "?v smod ?th = ?m"
      using True assms by (auto simp: signed_divide_int_def signed_modulo_int_def sgn_if)
    moreover have "0 \<le> (- ?v) div ?th" using True assms by (simp add: pos_imp_zdiv_nonneg_iff)
    then have "min 127 (- ((- ?v) div ?th)) = - ((- ?v) div ?th)" by linarith
    ultimately show ?thesis unfolding ccv_update_def by simp
  next
    case False
    have "negative_count_loop ?th (?v, 0) = Some (?v, 0)"
      using False assms by (subst negative_count_loop.simps) simp
    moreover have "positive_count_loop ?th (?v, 0) = Some (?v mod ?th, min 127 (?v div ?th))"
      using positive_count_loop_divides[OF assms, of 0 ?v] False by simp
    moreover have "?v sdiv ?th = ?v div ?th" "?v smod ?th = ?v mod ?th"
      using False assms by (auto simp: signed_divide_int_def signed_modulo_int_def sgn_if)
    moreover have "0 \<le> ?v div ?th" using False assms by (simp add: pos_imp_zdiv_nonneg_iff)
    then have "max (-127) (min 127 (?v div ?th)) = min 127 (?v div ?th)" by linarith
    ultimately show ?thesis unfolding ccv_update_def by simp
  qed
qed

theorem count_converter_divides_witness:
  "ccv_update (-300) \<lparr>ccv_threshold = 128, ccv_count = 5\<rparr> =
     Some (254, \<lparr>ccv_threshold = 128, ccv_count = -39\<rparr>)"
  using count_converter_divides[of "\<lparr>ccv_threshold = 128, ccv_count = 5\<rparr>" "-300"] by simp

subsection \<open>The life of the handler\<close>

inductive mouse_key_run ::
    "platform \<Rightarrow> floating_point \<Rightarrow> mouse_key_arithmetic \<Rightarrow> 'k hid_report_ops \<Rightarrow>
     mouse_key_handler \<times> 'k post_queue \<Rightarrow> bool" for P F A H where
  mk_start: "mouse_key_run P F A H (mouse_key_handler_initial, post_queue_initial H)"
| mk_push: "mouse_key_run P F A H (h, q) \<Longrightarrow> mouse_key_run P F A H (push_back_mouse_key d m t h, q)"
| mk_erase: "mouse_key_run P F A H (h, q) \<Longrightarrow> mouse_key_run P F A H (erase_mouse_key d m t h, q)"
| mk_erase_device: "mouse_key_run P F A H (h, q) \<Longrightarrow>
    mouse_key_run P F A H (erase_mouse_keys_by_device_id d t h, q)"
| mk_properties: "mouse_key_run P F A H (h, q) \<Longrightarrow>
    mouse_key_run P F A H (set_system_preferences_properties v h, q)"
| mk_fire: "mouse_key_run P F A H s \<Longrightarrow> mkh_timer_fire P F A H oeq s = Some s' \<Longrightarrow>
    mouse_key_run P F A H s'"
| mk_queue: "mouse_key_run P F A H (h, q) \<Longrightarrow> mouse_key_run P F A H (h, post_queue_step P H x q)"

definition mouse_key_inv :: "mouse_key_handler \<Rightarrow> bool" where
  "mouse_key_inv h \<longleftrightarrow>
     (mkh_active h \<longleftrightarrow> mkh_entries h \<noteq> []) \<and> distinct (mkh_entries h)
     \<and> ccv_threshold (mkh_x h) = 128 \<and> ccv_threshold (mkh_y h) = 128
     \<and> ccv_threshold (mkh_vertical_wheel h) = 128 \<and> ccv_threshold (mkh_horizontal_wheel h) = 128"

lemma mouse_key_report_exists:
  assumes "mouse_key_inv h"
  shows "\<exists>r h'. mouse_key_report F A m c b h = Some (r, h') \<and> mouse_key_inv h'
    \<and> mkh_entries h' = mkh_entries h \<and> mkh_timer h' = mkh_timer h"
  using assms by (simp add: mouse_key_report_def mouse_key_inv_def count_converter_divides)

lemma remember_total_keeps [simp]:
  "mkh_entries (remember_total m h) = mkh_entries h" "mkh_timer (remember_total m h) = mkh_timer h"
  by (simp_all add: remember_total_def)

lemma mouse_key_inv_remember: "mouse_key_inv h \<Longrightarrow> mouse_key_inv (remember_total m h)"
  by (simp add: remember_total_def mouse_key_inv_def ccv_reset_def)

text \<open>One run of the timer, on every branch.\<close>

lemma mkh_timer_fire_cases:
  assumes inv: "mouse_key_inv h"
  obtains (off) "mkh_timer h = None" "mkh_timer_fire P F A H oeq (h, q) = Some (h, q)"
  | (stop) h' where "mkh_timer h \<noteq> None" "oeq = None \<or> \<not> mkh_output_queue_assigned h \<or> mk_is_zero (total_mouse_key A h)"
      "mkh_timer_fire P F A H oeq (h, q) = Some (h', q)" "mkh_timer h' = None"
      "mkh_entries h' = mkh_entries h" "mouse_key_inv h'"
  | (move) t h' r where "mkh_timer h = Some t" "oeq \<noteq> None" "mkh_output_queue_assigned h"
      "\<not> mk_is_zero (total_mouse_key A h)" "mkh_timer h' = Some t" "mkh_entries h' = mkh_entries h"
      "mouse_key_inv h'"
      "mkh_timer_fire P F A H oeq (h, q) = Some (h', emplace_back_pointing_input P r single t q)"
proof (cases "mkh_timer h")
  case None
  then show ?thesis by (intro off) (simp_all add: mkh_timer_fire_def)
next
  case (Some t)
  show ?thesis
  proof (cases "oeq = None \<or> \<not> mkh_output_queue_assigned h")
    case True
    then have "mkh_timer_fire P F A H oeq (h, q) = Some (h\<lparr>mkh_timer := None\<rparr>, q)"
      using Some by (auto simp: mkh_timer_fire_def mkh_post_event_def)
    then show ?thesis
      using stop[of "h\<lparr>mkh_timer := None\<rparr>"] Some True inv by (auto simp: mouse_key_inv_def)
  next
    case False
    then obtain eq where eq: "oeq = Some eq" "mkh_output_queue_assigned h" by auto
    show ?thesis
    proof (cases "mk_is_zero (total_mouse_key A h)")
      case True
      then have "mkh_timer_fire P F A H oeq (h, q) =
          Some (h\<lparr>mkh_last_mouse_key_total := None, mkh_timer := None\<rparr>, q)"
        using Some eq by (simp add: mkh_timer_fire_def mkh_post_event_def Let_def)
      then show ?thesis
        using stop[of "h\<lparr>mkh_last_mouse_key_total := None, mkh_timer := None\<rparr>"] Some True inv
        by (auto simp: mouse_key_inv_def)
    next
      case zero: False
      obtain r h' where r: "mouse_key_report F A (total_mouse_key A h)
          (mka_percent A (cc_mouse_key_xy_scale (env_core_configuration (q_environment eq))))
          (make_hid_report_buttons (hro_buttons_empty H) (hro_buttons_insert H) (q_pointing_buttons eq))
          (remember_total (total_mouse_key A h) h) = Some (r, h')" "mouse_key_inv h'"
          "mkh_entries h' = mkh_entries h" "mkh_timer h' = mkh_timer h"
        using mouse_key_report_exists[OF mouse_key_inv_remember[OF inv]] by (metis remember_total_keeps)
      then have "mkh_timer_fire P F A H oeq (h, q) = Some (h', emplace_back_pointing_input P r single t q)"
        using Some eq zero by (simp add: mkh_timer_fire_def mkh_post_event_def Let_def)
      then show ?thesis using move Some eq zero r by simp
    qed
  qed
qed

lemma mouse_key_inv_steps:
  assumes "mouse_key_inv h"
  shows "mouse_key_inv (push_back_mouse_key d m t h)" "mouse_key_inv (erase_mouse_key d m t h)"
    "mouse_key_inv (erase_mouse_keys_by_device_id d t h)"
    "mouse_key_inv (set_system_preferences_properties v h)"
  using assms
  by (auto simp: mouse_key_inv_def push_back_mouse_key_def erase_mouse_key_def erase_entry_def
      erase_mouse_keys_by_device_id_def mkh_erase_if_def start_timer_def
      set_system_preferences_properties_def Let_def)

lemma mouse_key_run_inv: "mouse_key_run P F A H s \<Longrightarrow> mouse_key_inv (fst s)"
proof (induction rule: mouse_key_run.induct)
  case mk_start
  then show ?case by (simp add: mouse_key_inv_def mouse_key_handler_initial_def count_converter_of_def)
next
  case (mk_fire s oeq s')
  obtain h q where s: "s = (h, q)" by force
  have inv: "mouse_key_inv h" using mk_fire.IH by (simp add: s)
  then show ?case
    by (cases rule: mkh_timer_fire_cases[of h P F A H oeq q]) (use mk_fire.hyps s inv in auto)
qed (simp_all add: mouse_key_inv_steps)

lemma total_mouse_key_no_entries: "mkh_entries h = [] \<Longrightarrow> mk_is_zero (total_mouse_key A h)"
  by (simp add: total_mouse_key_def mk_is_zero_def mouse_key_default_def mk_invert_wheel_def
      Let_def)

text \<open>
  C39. Held mouse keys move the pointer and released ones stop it: whatever happened before, the
  handler is active exactly while it holds a mouse key, none of them twice; a run of the timer
  ends and keeps them; a running timer goes on, posting one report, exactly when there is an output
  queue and the sum of the held keys is not zero, and otherwise it stops and posts nothing. Without
  held keys the sum is zero.
\<close>

theorem mouse_key_timer_follows_held_keys:
  assumes "mouse_key_run P F A H (h, q)"
  shows "(mkh_active h \<longleftrightarrow> mkh_entries h \<noteq> []) \<and> distinct (mkh_entries h)
    \<and> (mkh_entries h = [] \<longrightarrow> mk_is_zero (total_mouse_key A h))
    \<and> (\<exists>h' q'. mkh_timer_fire P F A H oeq (h, q) = Some (h', q') \<and> mkh_entries h' = mkh_entries h
        \<and> (mkh_timer h' \<noteq> None \<longleftrightarrow> mkh_timer h \<noteq> None \<and> oeq \<noteq> None \<and> mkh_output_queue_assigned h
             \<and> \<not> mk_is_zero (total_mouse_key A h))
        \<and> (\<exists>r. pq_events q' = pq_events q @ (if mkh_timer h' = None then [] else [r])))"
proof -
  have inv: "mouse_key_inv h" using mouse_key_run_inv[OF assms] by simp
  have fire: "\<exists>h' q'. mkh_timer_fire P F A H oeq (h, q) = Some (h', q') \<and> mkh_entries h' = mkh_entries h
        \<and> (mkh_timer h' \<noteq> None \<longleftrightarrow> mkh_timer h \<noteq> None \<and> oeq \<noteq> None \<and> mkh_output_queue_assigned h
             \<and> \<not> mk_is_zero (total_mouse_key A h))
        \<and> (\<exists>r. pq_events q' = pq_events q @ (if mkh_timer h' = None then [] else [r]))"
    using inv
  proof (cases rule: mkh_timer_fire_cases[of h P F A H oeq q])
    case off then show ?thesis by simp
  next
    case (stop h') then show ?thesis by auto
  next
    case (move t h' r)
    obtain t' q1 where a: "adjust_time_stamp P t single False q = (t', q1)" by force
    have "pq_events q1 = pq_events q" using a by (auto simp: adjust_time_stamp_def Let_def)
    then have "pq_events (emplace_back_pointing_input P r single t q) =
        pq_events q @ [\<lparr>pe_value = Pe_pointing_input r, pe_time_stamp = t'\<rparr>]"
      by (simp add: emplace_back_pointing_input_def a)
    then show ?thesis using move by auto
  qed
  then show ?thesis using inv total_mouse_key_no_entries by (simp add: mouse_key_inv_def)
qed

text \<open>A key that moves the pointer right is held, then its device is ungrabbed.\<close>

definition exact_arithmetic :: mouse_key_arithmetic where
  "exact_arithmetic = \<lparr>mka_times = (*), mka_percent = (\<lambda>n. of_int n / 100)\<rparr>"

definition sample_mouse_key_handler :: mouse_key_handler where
  "sample_mouse_key_handler =
     push_back_mouse_key 1 (mouse_key_default\<lparr>mk_x := 1536\<rparr>) 5 mouse_key_handler_initial"

theorem mouse_key_timer_follows_held_keys_witness:
  "(\<exists>h' q'. mkh_timer_fire witness_platform exact_floating_point exact_arithmetic set_hid_report_ops
       (Some sample_queue) (sample_mouse_key_handler, post_queue_initial set_hid_report_ops) = Some (h', q')
     \<and> mkh_timer h' \<noteq> None \<and> length (pq_events q') = 1)
   \<and> (\<exists>h' q'. mkh_timer_fire witness_platform exact_floating_point exact_arithmetic set_hid_report_ops
       (Some sample_queue) (erase_mouse_keys_by_device_id 1 9 sample_mouse_key_handler,
         post_queue_initial set_hid_report_ops) = Some (h', q')
     \<and> mkh_timer h' = None \<and> pq_events q' = [])"
proof
  let ?run = "mouse_key_run witness_platform exact_floating_point exact_arithmetic set_hid_report_ops"
  let ?q = "post_queue_initial set_hid_report_ops"
  have r1: "?run (sample_mouse_key_handler, ?q)"
    unfolding sample_mouse_key_handler_def by (intro mouse_key_run.intros)
  have h1: "mkh_timer sample_mouse_key_handler \<noteq> None \<and> mkh_output_queue_assigned sample_mouse_key_handler
      \<and> \<not> mk_is_zero (total_mouse_key exact_arithmetic sample_mouse_key_handler)"
    by (simp add: sample_mouse_key_handler_def push_back_mouse_key_def erase_entry_def mkh_erase_if_def
        start_timer_def mouse_key_handler_initial_def total_mouse_key_def mk_plus_def mk_is_zero_def
        mouse_key_default_def Let_def)
  have e: "pq_events ?q = []" by (simp add: post_queue_initial_def)
  show "\<exists>h' q'. mkh_timer_fire witness_platform exact_floating_point exact_arithmetic set_hid_report_ops
       (Some sample_queue) (sample_mouse_key_handler, ?q) = Some (h', q')
     \<and> mkh_timer h' \<noteq> None \<and> length (pq_events q') = 1"
    using mouse_key_timer_follows_held_keys[OF r1, of "Some sample_queue"] h1 e
    by (auto split: if_splits)
  have n: "mkh_entries (erase_mouse_keys_by_device_id 1 9 sample_mouse_key_handler) = []"
    by (simp add: erase_mouse_keys_by_device_id_def mkh_erase_if_def start_timer_def Let_def
        sample_mouse_key_handler_def push_back_mouse_key_def erase_entry_def mouse_key_handler_initial_def)
  show "\<exists>h' q'. mkh_timer_fire witness_platform exact_floating_point exact_arithmetic set_hid_report_ops
       (Some sample_queue) (erase_mouse_keys_by_device_id 1 9 sample_mouse_key_handler, ?q) = Some (h', q')
     \<and> mkh_timer h' = None \<and> pq_events q' = []"
    using mouse_key_timer_follows_held_keys[OF mk_erase_device[OF r1, of 1 9], of "Some sample_queue"] n e
    by (auto split: if_splits)
qed

end
