(* ===== verification/Notification_Message.thy ===== *)
theory Notification_Message
  imports Modifier_Flag_Manager "HOL-Library.Char_ord" "HOL-Library.List_Lexorder"
begin

text \<open>
  \<open>src/share/notification_message_manager.hpp\<close>: the messages shown in the notification window,
  kept per device and per identifier and joined into the text of a file.

  The lemmas show that the file always holds the current text and is written only when it
  changes, what each operation does to the text, and that clearing the sticky modifiers message
  never changes it.
\<close>

subsection \<open>Ordered maps\<close>

text \<open>\<open>std::map\<close>, iterated in the order of its keys, as a sorted association list.\<close>

fun map_assign :: "'k::linorder \<Rightarrow> 'v \<Rightarrow> ('k \<times> 'v) list \<Rightarrow> ('k \<times> 'v) list" where
  "map_assign k v [] = [(k, v)]"
| "map_assign k v ((k', v') # xs) =
     (if k < k' then (k, v) # (k', v') # xs
      else if k = k' then (k, v) # xs
      else (k', v') # map_assign k v xs)"

definition map_erase :: "'k \<Rightarrow> ('k \<times> 'v) list \<Rightarrow> ('k \<times> 'v) list" where
  "map_erase k xs = filter (\<lambda>x. fst x \<noteq> k) xs"

lemma keys_map_assign [simp]: "fst ` set (map_assign k v xs) = insert k (fst ` set xs)"
proof (induction xs)
  case (Cons x xs) then show ?case by (cases x) auto
qed simp

lemma set_map_assign:
  "sorted_wrt (<) (map fst xs) \<Longrightarrow> set (map_assign k v xs) = insert (k, v) {x \<in> set xs. fst x \<noteq> k}"
proof (induction xs)
  case (Cons x xs) then show ?case by (cases x) (auto simp: less_le_not_le)
qed simp

lemma map_assign_sorted:
  "sorted_wrt (<) (map fst xs) \<Longrightarrow> sorted_wrt (<) (map fst (map_assign k v xs))"
proof (induction xs)
  case (Cons x xs)
  obtain k' v' where x: "x = (k', v')" by force
  have "\<forall>y \<in> fst ` set (map_assign k v xs). k' < y" if "k' < k"
    unfolding keys_map_assign using Cons.prems that by (auto simp: x)
  then show ?case using Cons by (auto simp: x)
qed simp

subsection \<open>The manager\<close>

text \<open>The last field lists what was written to the notification file.\<close>

record notification_message_manager =
  nmm_device_messages :: "(device_id \<times> string) list"
  nmm_messages :: "(string \<times> string) list"
  nmm_previous_message :: string
  nmm_saved :: "string list"

definition nmm_initial :: notification_message_manager where
  "nmm_initial =
     \<lparr>nmm_device_messages = [], nmm_messages = [], nmm_previous_message = '''', nmm_saved = ['''']\<rparr>"

text \<open>The first device message that is not empty, then all other messages, one per line.\<close>

definition append_line :: "string \<Rightarrow> string \<Rightarrow> string" where
  "append_line ss body = (if ss \<noteq> [] then ss @ [CHR 0x0A] @ body else body)"

fun first_device_message :: "(device_id \<times> string) list \<Rightarrow> string \<Rightarrow> string" where
  "first_device_message [] ss = ss"
| "first_device_message (m # ms) ss =
     (if snd m \<noteq> [] then append_line ss (snd m) else first_device_message ms ss)"

definition make_message :: "notification_message_manager \<Rightarrow> string" where
  "make_message M =
     foldl (\<lambda>ss m. if snd m \<noteq> [] then append_line ss (snd m) else ss)
       (first_device_message (nmm_device_messages M) []) (nmm_messages M)"

definition save_message_if_needed :: "notification_message_manager \<Rightarrow> notification_message_manager" where
  "save_message_if_needed M =
     (let message = make_message M
      in if nmm_previous_message M \<noteq> message
         then M\<lparr>nmm_previous_message := message, nmm_saved := nmm_saved M @ [message]\<rparr> else M)"

definition assign_message :: "string \<Rightarrow> string \<Rightarrow> notification_message_manager \<Rightarrow> notification_message_manager" where
  "assign_message i body M = M\<lparr>nmm_messages := map_assign i body (nmm_messages M)\<rparr>"

definition set_device_ungrabbable_temporarily_message ::
    "device_id \<Rightarrow> string \<Rightarrow> notification_message_manager \<Rightarrow> notification_message_manager" where
  "set_device_ungrabbable_temporarily_message d body M =
     save_message_if_needed (M\<lparr>nmm_device_messages := map_assign d body (nmm_device_messages M)\<rparr>)"

definition nmm_erase_device :: "device_id \<Rightarrow> notification_message_manager \<Rightarrow> notification_message_manager" where
  "nmm_erase_device d M =
     save_message_if_needed (M\<lparr>nmm_device_messages := map_erase d (nmm_device_messages M)\<rparr>)"

definition sticky_message_flags :: "modifier_flag list" where
  "sticky_message_flags =
     [mf_left_control, mf_left_shift, mf_left_option, mf_left_command, mf_right_control,
      mf_right_shift, mf_right_option, mf_right_command, mf_fn]"

definition update_sticky_message ::
    "active_modifier_flag list \<Rightarrow> modifier_flag \<Rightarrow> notification_message_manager \<Rightarrow>
     notification_message_manager" where
  "update_sticky_message fs f M =
     (case get_modifier_flag_name f of
        None \<Rightarrow> M
      | Some name \<Rightarrow>
          assign_message (''__system__sticky_'' @ name)
            (if is_sticky_active f fs then ''sticky '' @ name else '''') M)"

text \<open>
  The flags are read when the function is called and the assignments are queued; the dispatcher
  runs them in this order.
\<close>

definition update_sticky_modifiers_message ::
    "active_modifier_flag list \<Rightarrow> notification_message_manager \<Rightarrow> notification_message_manager" where
  "update_sticky_modifiers_message fs M =
     save_message_if_needed (foldl (\<lambda>M f. update_sticky_message fs f M) M sticky_message_flags)"

definition clear_sticky_modifiers_message :: "notification_message_manager \<Rightarrow> notification_message_manager" where
  "clear_sticky_modifiers_message M =
     save_message_if_needed (assign_message ''__system__sticky_modifiers'' '''' M)"

definition nmm_set_notification_message ::
    "notification_message \<Rightarrow> notification_message_manager \<Rightarrow> notification_message_manager" where
  "nmm_set_notification_message m M =
     save_message_if_needed (assign_message (''__user__'' @ nm_id m) (nm_text m) M)"

subsection \<open>Runs\<close>

inductive nmm_run :: "notification_message_manager \<Rightarrow> bool" where
  nmm_start: "nmm_run nmm_initial"
| nmm_set_device: "nmm_run M \<Longrightarrow> nmm_run (set_device_ungrabbable_temporarily_message d body M)"
| nmm_device_erased: "nmm_run M \<Longrightarrow> nmm_run (nmm_erase_device d M)"
| nmm_sticky: "nmm_run M \<Longrightarrow> nmm_run (update_sticky_modifiers_message fs M)"
| nmm_clear: "nmm_run M \<Longrightarrow> nmm_run (clear_sticky_modifiers_message M)"
| nmm_set: "nmm_run M \<Longrightarrow> nmm_run (nmm_set_notification_message m M)"

text \<open>The lines of the text.\<close>

definition message_lines :: "notification_message_manager \<Rightarrow> string list" where
  "message_lines M =
     take 1 (filter (\<lambda>t. t \<noteq> []) (map snd (nmm_device_messages M)))
     @ filter (\<lambda>t. t \<noteq> []) (map snd (nmm_messages M))"

definition join_lines :: "string list \<Rightarrow> string" where
  "join_lines ls = foldl append_line [] ls"

lemma first_device_message_eq:
  "first_device_message ms [] = join_lines (take 1 (filter (\<lambda>t. t \<noteq> []) (map snd ms)))"
  by (induction ms) (auto simp: join_lines_def append_line_def)

lemma make_message_lines: "make_message M = join_lines (message_lines M)"
proof -
  have "foldl (\<lambda>ss m. if snd m \<noteq> [] then append_line ss (snd m) else ss) s ms =
      foldl append_line s (filter (\<lambda>t. t \<noteq> []) (map snd ms))" for s and ms :: "(string \<times> string) list"
    by (induction ms arbitrary: s) auto
  then show ?thesis
    by (simp add: make_message_def message_lines_def join_lines_def first_device_message_eq)
qed

definition nmm_inv :: "notification_message_manager \<Rightarrow> bool" where
  "nmm_inv M \<longleftrightarrow>
     sorted_wrt (<) (map fst (nmm_messages M))
     \<and> nmm_saved M \<noteq> [] \<and> last (nmm_saved M) = nmm_previous_message M \<and> distinct_adj (nmm_saved M)
     \<and> (\<forall>t. (''__system__sticky_modifiers'', t) \<in> set (nmm_messages M) \<longrightarrow> t = '''')"

lemma nmm_inv_save: "nmm_inv M \<Longrightarrow> nmm_inv (save_message_if_needed M)"
  by (auto simp: nmm_inv_def save_message_if_needed_def Let_def distinct_adj_append_iff)

lemma save_shows [simp]:
  "nmm_previous_message (save_message_if_needed M) = make_message M"
  "make_message (save_message_if_needed M) = make_message M"
  "nmm_messages (save_message_if_needed M) = nmm_messages M"
  "nmm_device_messages (save_message_if_needed M) = nmm_device_messages M"
  by (simp_all add: save_message_if_needed_def make_message_def Let_def)

lemma nmm_inv_assign:
  assumes "nmm_inv M" "i = ''__system__sticky_modifiers'' \<longrightarrow> body = ''''"
  shows "nmm_inv (assign_message i body M)"
  using assms set_map_assign[of "nmm_messages M" i body] map_assign_sorted[of "nmm_messages M" i body]
  by (auto simp: nmm_inv_def assign_message_def)

lemma nmm_inv_sticky: "nmm_inv M \<Longrightarrow> nmm_inv (update_sticky_message fs f M)"
  by (cases f) (simp_all add: update_sticky_message_def nmm_inv_assign)

lemma nmm_run_inv: "nmm_run M \<Longrightarrow> nmm_inv M \<and> nmm_previous_message M = make_message M"
proof (induction rule: nmm_run.induct)
  case nmm_start
  then show ?case by (simp add: nmm_inv_def nmm_initial_def make_message_def)
next
  case (nmm_set_device M d body)
  then have "nmm_inv (M\<lparr>nmm_device_messages := map_assign d body (nmm_device_messages M)\<rparr>)"
    by (simp add: nmm_inv_def)
  then show ?case using nmm_inv_save by (simp add: set_device_ungrabbable_temporarily_message_def)
next
  case (nmm_device_erased M d)
  then have "nmm_inv (M\<lparr>nmm_device_messages := map_erase d (nmm_device_messages M)\<rparr>)"
    by (simp add: nmm_inv_def)
  then show ?case using nmm_inv_save by (simp add: nmm_erase_device_def)
next
  case (nmm_sticky M fs)
  have "nmm_inv (foldl (\<lambda>M f. update_sticky_message fs f M) M ms)" for ms
    using nmm_sticky.IH by (induction ms rule: rev_induct) (simp_all add: nmm_inv_sticky)
  then show ?case using nmm_inv_save by (simp add: update_sticky_modifiers_message_def)
next
  case nmm_clear
  then show ?case using nmm_inv_save nmm_inv_assign by (simp add: clear_sticky_modifiers_message_def)
next
  case nmm_set
  then show ?case using nmm_inv_save nmm_inv_assign by (simp add: nmm_set_notification_message_def)
qed

text \<open>
  The notification file is never stale and never rewritten in vain: after any sequence of
  operations the last text written is the first non-empty device message followed by every other
  non-empty message, one per line, and no two consecutive writes are equal.
\<close>

theorem notification_file_is_current:
  assumes "nmm_run M"
  shows "last (nmm_saved M) = join_lines (message_lines M) \<and> distinct_adj (nmm_saved M)
    \<and> sorted_wrt (<) (map fst (nmm_messages M))"
  using nmm_run_inv[OF assms] make_message_lines[of M] by (simp add: nmm_inv_def)

lemma filter_map_assign_empty:
  assumes "sorted_wrt (<) (map fst xs)" "\<forall>t. (k, t) \<in> set xs \<longrightarrow> t = []"
  shows "filter (\<lambda>t. t \<noteq> []) (map snd (map_assign k [] xs)) = filter (\<lambda>t. t \<noteq> []) (map snd xs)"
  using assms
proof (induction xs)
  case (Cons x xs) then show ?case by (cases x) (auto simp: less_le_not_le)
qed simp

text \<open>
  \<open>async_clear_sticky_modifiers_message\<close> empties a message no operation ever sets, so the text, and
  with it the file, stays what it was: sticky modifiers that were shown are shown on.
\<close>

theorem clearing_the_sticky_message_shows_it_on:
  assumes "nmm_run M"
  shows "make_message (clear_sticky_modifiers_message M) = make_message M
    \<and> nmm_saved (clear_sticky_modifiers_message M) = nmm_saved M"
proof -
  have i: "nmm_inv M" "nmm_previous_message M = make_message M" using nmm_run_inv[OF assms] by auto
  have m: "make_message (assign_message ''__system__sticky_modifiers'' [] M) = make_message M"
    using i(1) unfolding make_message_lines
    by (simp add: message_lines_def assign_message_def nmm_inv_def filter_map_assign_empty)
  then show ?thesis
    using i(2) by (simp add: clear_sticky_modifiers_message_def save_message_if_needed_def
        assign_message_def Let_def)
qed

theorem clearing_the_sticky_message_shows_it_on_witness:
  "make_message (clear_sticky_modifiers_message (update_sticky_modifiers_message
     [make_active_modifier_flag increase_sticky mf_left_shift 1] nmm_initial)) = ''sticky left_shift''"
proof -
  have "make_message (update_sticky_modifiers_message
      [make_active_modifier_flag increase_sticky mf_left_shift 1] nmm_initial) = ''sticky left_shift''"
    by (simp add: update_sticky_modifiers_message_def sticky_message_flags_def update_sticky_message_def
        assign_message_def nmm_initial_def make_message_lines message_lines_def is_sticky_active_def
        make_active_modifier_flag_def sticky_def get_count_def join_lines_def append_line_def)
  then show ?thesis
    using clearing_the_sticky_message_shows_it_on[OF nmm_sticky[OF nmm_start]] by simp
qed

theorem notification_file_is_current_witness:
  "last (nmm_saved (nmm_set_notification_message \<lparr>nm_id = ''a'', nm_text = ''hello''\<rparr> nmm_initial)) = ''hello''"
proof -
  have "message_lines (nmm_set_notification_message \<lparr>nm_id = ''a'', nm_text = ''hello''\<rparr> nmm_initial) = [''hello'']"
    by (simp add: nmm_set_notification_message_def message_lines_def assign_message_def nmm_initial_def)
  then show ?thesis
    using notification_file_is_current[OF nmm_set[OF nmm_start, of "\<lparr>nm_id = ''a'', nm_text = ''hello''\<rparr>"]]
    by (simp add: join_lines_def append_line_def)
qed

end
