(* ===== verification/Post_Event_To_Virtual_Devices.thy ===== *)
theory Post_Event_To_Virtual_Devices
  imports Key_Event_Dispatcher Mouse_Key_Handler Notification_Message Basic
begin

text \<open>
  \<open>src/share/manipulator/manipulators/post_event_to_virtual_devices/post_event_to_virtual_devices.hpp\<close>:
  the last manipulator. It moves every entry to its output queue, which updates the modifier flags
  and pointing buttons, and turns it into reports and commands.

  The lemmas show with which modifiers keys are posted, and what is posted and remembered when a
  device is ungrabbed (\<open>device_ungrabbed_result\<close>).
\<close>

subsection \<open>State\<close>

text \<open>The last field is the notification message manager, while it exists.\<close>

record 'k poster =
  pv_queue :: "'k post_queue"
  pv_dispatcher :: key_event_dispatcher
  pv_mouse_key_handler :: mouse_key_handler
  pv_pressed_buttons :: 'k
  pv_notification :: "notification_message_manager option"

definition poster_initial :: "'k hid_report_ops \<Rightarrow> notification_message_manager option \<Rightarrow> 'k poster" where
  "poster_initial H N =
     \<lparr>pv_queue = post_queue_initial H, pv_dispatcher = key_event_dispatcher_initial,
      pv_mouse_key_handler = mouse_key_handler_initial, pv_pressed_buttons = hro_buttons_empty H,
      pv_notification = N\<rparr>"

definition with_dispatcher ::
    "('k dispatcher_state \<Rightarrow> 'k dispatcher_state) \<Rightarrow> 'k poster \<Rightarrow> 'k poster" where
  "with_dispatcher f v =
     (case f (pv_dispatcher v, pv_queue v) of (D, q) \<Rightarrow> v\<lparr>pv_dispatcher := D, pv_queue := q\<rparr>)"

definition with_queue :: "('k post_queue \<Rightarrow> 'k post_queue) \<Rightarrow> 'k poster \<Rightarrow> 'k poster" where
  "with_queue f v = v\<lparr>pv_queue := f (pv_queue v)\<rparr>"

definition with_mouse_keys :: "(mouse_key_handler \<Rightarrow> mouse_key_handler) \<Rightarrow> 'k poster \<Rightarrow> 'k poster" where
  "with_mouse_keys f v = v\<lparr>pv_mouse_key_handler := f (pv_mouse_key_handler v)\<rparr>"

subsection \<open>Parts of manipulate\<close>

definition report_buttons :: "'k hid_report_ops \<Rightarrow> event_queue \<Rightarrow> 'k" where
  "report_buttons H eq =
     make_hid_report_buttons (hro_buttons_empty H) (hro_buttons_insert H) (q_pointing_buttons eq)"

definition sync_caps_lock :: "entry \<Rightarrow> event_queue \<Rightarrow> 'k poster \<Rightarrow> 'k poster" where
  "sync_caps_lock en eq v =
     (case en_event en of
        Ev_caps_lock_state_changed state \<Rightarrow>
          (if sticky_size mf_caps_lock (q_modifier_flags eq) = 0
           then v\<lparr>pv_dispatcher :=
                    (if state \<noteq> 0 then insert_pressed_modifier_flag mf_caps_lock (pv_dispatcher v)
                     else erase_pressed_modifier_flag mf_caps_lock (pv_dispatcher v))\<rparr>
           else v)
      | _ \<Rightarrow> v)"

text \<open>
  Modifiers are not dispatched while a key repeats, a button is down or mouse keys are active.
\<close>

definition pointer_is_free :: "'k hid_report_ops \<Rightarrow> 'k poster \<Rightarrow> bool" where
  "pointer_is_free H v \<longleftrightarrow>
     \<not> krd_is_repeating (pq_keyboard_repeat_detector (pv_queue v))
     \<and> hro_buttons_is_empty H (pv_pressed_buttons v)
     \<and> \<not> mkh_active (pv_mouse_key_handler v)"

definition is_modifier_key_entry :: "entry \<Rightarrow> bool" where
  "is_modifier_key_entry en \<longleftrightarrow>
     (case event_mse (en_event en) of None \<Rightarrow> False | Some e \<Rightarrow> mse_is_modifier e)"

definition dispatches_before :: "'k hid_report_ops \<Rightarrow> entry \<Rightarrow> 'k poster \<Rightarrow> bool" where
  "dispatches_before H en v \<longleftrightarrow>
     \<not> is_modifier_key_entry en
     \<and> (en_event_type en = key_down
        \<or> (\<exists>m. en_event en = Ev_pointing_motion m) \<and> pointer_is_free H v)"

definition dispatches_after :: "entry \<Rightarrow> bool" where
  "dispatches_after en \<longleftrightarrow> is_modifier_key_entry en \<and> \<not> en_lazy en"

definition dispatch_modifiers ::
    "platform \<Rightarrow> 'k hid_report_ops \<Rightarrow> event_queue \<Rightarrow> absolute_time_point \<Rightarrow> 'k poster \<Rightarrow> 'k poster" where
  "dispatch_modifiers P H eq t v =
     with_dispatcher (dispatch_modifier_key_event P H (q_modifier_flags eq) t) v"

definition update_sticky_modifiers_notification_message :: "event_queue \<Rightarrow> 'k poster \<Rightarrow> 'k poster" where
  "update_sticky_modifiers_notification_message eq v =
     v\<lparr>pv_notification :=
         map_option
           (if cc_indicate_sticky_modifier_keys_state (env_core_configuration (q_environment eq))
            then update_sticky_modifiers_message (q_modifier_flags eq)
            else clear_sticky_modifiers_message)
           (pv_notification v)\<rparr>"

definition motion_report :: "'k \<Rightarrow> event \<Rightarrow> 'k pointing_input" where
  "motion_report buttons e =
     (case e of
        Ev_pointing_motion m \<Rightarrow>
          \<lparr>pin_buttons = buttons, pin_x = word_of_int (pm_x m), pin_y = word_of_int (pm_y m),
           pin_vertical_wheel = word_of_int (pm_vertical_wheel m),
           pin_horizontal_wheel = word_of_int (pm_horizontal_wheel m)\<rparr>
      | _ \<Rightarrow> empty_pointing_input buttons)"

definition post_pointing_input_report ::
    "platform \<Rightarrow> 'k hid_report_ops \<Rightarrow> entry \<Rightarrow> event_queue \<Rightarrow> 'k poster \<Rightarrow> 'k poster" where
  "post_pointing_input_report P H en eq v =
     (let buttons = report_buttons H eq
      in (with_queue
            (emplace_back_pointing_input P (motion_report buttons (en_event en)) (en_event_type en)
               (en_time_stamp en)) v)
         \<lparr>pv_pressed_buttons := buttons\<rparr>)"

text \<open>The branch of a momentary switch event.\<close>

definition post_momentary_switch_event ::
    "platform \<Rightarrow> 'k hid_report_ops \<Rightarrow> entry \<Rightarrow> momentary_switch_event \<Rightarrow> event_queue \<Rightarrow> 'k poster \<Rightarrow> 'k poster" where
  "post_momentary_switch_event P H en e eq v =
     (if \<not> mse_valid e then v
      else if mse_is_pointing_button e then post_pointing_input_report P H en eq v
      else if mse_is_modifier e then v
      else case en_event_type en of
             key_down \<Rightarrow>
               with_dispatcher (dispatch_key_down_event P H (en_device_id en) (get_usage_pair e) (en_time_stamp en)) v
           | key_up \<Rightarrow> with_dispatcher (dispatch_key_up_event P H (get_usage_pair e) (en_time_stamp en)) v
           | single \<Rightarrow> v)"

text \<open>The switch on the type of the front input event; \<open>eq\<close> is the output queue after the append.\<close>

definition post_front_input_event ::
    "platform \<Rightarrow> 'k hid_report_ops \<Rightarrow> entry \<Rightarrow> event_queue \<Rightarrow> 'k poster \<Rightarrow> 'k poster" where
  "post_front_input_event P H en eq v =
     (let t = en_time_stamp en; down = (en_event_type en = key_down) in
      case en_event en of
        Ev_momentary_switch_event e \<Rightarrow> post_momentary_switch_event P H en e eq v
      | Ev_pointing_motion m \<Rightarrow> post_pointing_input_report P H en eq v
      | Ev_shell_command s \<Rightarrow> if down then with_queue (push_back_shell_command_event s t) v else v
      | Ev_select_input_source ss \<Rightarrow>
          if down then with_queue (push_back_select_input_source_event ss t) v else v
      | Ev_set_notification_message m \<Rightarrow>
          v\<lparr>pv_notification := map_option (nmm_set_notification_message m) (pv_notification v)\<rparr>
      | Ev_mouse_key m \<Rightarrow>
          (case en_event_type en of
             key_down \<Rightarrow> with_mouse_keys (push_back_mouse_key (en_device_id en) m t) v
           | key_up \<Rightarrow> with_mouse_keys (erase_mouse_key (en_device_id en) m t) v
           | single \<Rightarrow> v)
      | Ev_software_function f \<Rightarrow> if down then with_queue (push_back_software_function_event f t) v else v
      | Ev_stop_keyboard_repeat \<Rightarrow>
          (case pq_keyboard_repeat_detector (pv_queue v) of
             None \<Rightarrow> v
           | Some e \<Rightarrow> with_dispatcher (dispatch_key_up_event P H (get_usage_pair e) t) v)
      | Ev_system_preferences_properties_changed p \<Rightarrow> with_mouse_keys (set_system_preferences_properties p) v
      | _ \<Rightarrow> v)"

subsection \<open>The virtual functions\<close>

text \<open>For an existing output queue, as the connector passes; the first component is the entry.\<close>

definition pv_manipulate ::
    "platform \<Rightarrow> 'k hid_report_ops \<Rightarrow> entry \<Rightarrow> world \<times> event_queue \<Rightarrow> 'k poster \<Rightarrow>
     manipulate_result \<times> entry \<times> (world \<times> event_queue) \<times> 'k poster" where
  "pv_manipulate P H en s v =
     (if en_validity en = invalid then (mr_passed, en, s, v)
      else (let t = en_time_stamp en;
                v1 = sync_caps_lock en (snd s) v;
                v2 = (if dispatches_before H en v1 then dispatch_modifiers P H (snd s) t v1 else v1);
                s' = emplace_back_entry P en s;
                v3 = update_sticky_modifiers_notification_message (snd s') v2;
                v4 = post_front_input_event P H en (snd s') v3;
                v5 = (if dispatches_after en then dispatch_modifiers P H (snd s') t v4 else v4)
            in (mr_passed, en\<lparr>en_validity := invalid\<rparr>, s', v5)))"

definition pv_active :: "'k poster \<Rightarrow> bool" where
  "pv_active v \<longleftrightarrow> \<not> post_queue_empty (pv_queue v)"

text \<open>The report of the buttons when they changed.\<close>

definition post_changed_buttons ::
    "platform \<Rightarrow> 'k hid_report_ops \<Rightarrow> event_queue \<Rightarrow> absolute_time_point \<Rightarrow> 'k poster \<Rightarrow> 'k poster" where
  "post_changed_buttons P H eq t v =
     (let buttons = report_buttons H eq
      in if pv_pressed_buttons v \<noteq> buttons
         then (with_queue (emplace_back_pointing_input P (empty_pointing_input buttons) key_up t) v)
                \<lparr>pv_pressed_buttons := buttons\<rparr>
         else v)"

definition pv_handle_device_keys_and_pointing_buttons_are_released_event ::
    "platform \<Rightarrow> 'k hid_report_ops \<Rightarrow> entry \<Rightarrow> event_queue \<Rightarrow> 'k poster \<Rightarrow> event_queue \<times> 'k poster" where
  "pv_handle_device_keys_and_pointing_buttons_are_released_event P H en eq v =
     (let t = en_time_stamp en;
          v1 = dispatch_modifiers P H eq t v;
          eq1 = eq\<lparr>q_modifier_flags := erase_caps_lock_sticky_modifier_flags (q_modifier_flags eq)\<rparr>;
          v2 = update_sticky_modifiers_notification_message eq1 v1;
          v3 = post_changed_buttons P H eq1 t v2
      in (eq1, with_mouse_keys (erase_mouse_keys_by_device_id (en_device_id en) t) v3))"

definition pv_handle_device_ungrabbed_event ::
    "platform \<Rightarrow> 'k hid_report_ops \<Rightarrow> device_id \<Rightarrow> event_queue \<Rightarrow> absolute_time_point \<Rightarrow> 'k poster \<Rightarrow> 'k poster" where
  "pv_handle_device_ungrabbed_event P H d eq t v =
     (let v1 = with_dispatcher (dispatch_key_up_events_by_device_id P H d t) v;
          v2 = post_changed_buttons P H eq t v1;
          v3 = dispatch_modifiers P H eq t v2
      in with_mouse_keys (erase_mouse_keys_by_device_id d t) v3)"

definition pv_handle_pointing_device_event_from_event_tap ::
    "platform \<Rightarrow> 'k hid_report_ops \<Rightarrow> entry \<Rightarrow> event_queue \<Rightarrow> 'k poster \<Rightarrow> 'k poster" where
  "pv_handle_pointing_device_event_from_event_tap P H en eq v =
     (if en_event_type en \<noteq> key_up \<and> pointer_is_free H v
      then dispatch_modifiers P H eq (en_time_stamp en) v else v)"

definition pv_async_post_events ::
    "platform \<Rightarrow> absolute_time_point \<Rightarrow> 'k poster \<Rightarrow> 'k post_event_value list \<times> milliseconds option \<times> 'k poster" where
  "pv_async_post_events P now v =
     (case async_post_events P now (pv_queue v) of (sent, d, q) \<Rightarrow> (sent, d, v\<lparr>pv_queue := q\<rparr>))"

definition pv_clear_queue :: "'k poster \<Rightarrow> 'k poster" where
  "pv_clear_queue v = with_queue post_queue_clear v"

text \<open>The timer of the mouse keys, which has the queue of the poster.\<close>

definition pv_mouse_key_timer ::
    "platform \<Rightarrow> floating_point \<Rightarrow> mouse_key_arithmetic \<Rightarrow> 'k hid_report_ops \<Rightarrow> event_queue option \<Rightarrow>
     'k poster \<Rightarrow> 'k poster option" where
  "pv_mouse_key_timer P F A H oeq v =
     (case mkh_timer_fire P F A H oeq (pv_mouse_key_handler v, pv_queue v) of
        None \<Rightarrow> None
      | Some (h, q) \<Rightarrow> Some (v\<lparr>pv_mouse_key_handler := h, pv_queue := q\<rparr>))"

subsection \<open>Reachable states\<close>

text \<open>Fewer than 31 keys are down when an entry is manipulated.\<close>

inductive poster_run ::
    "platform \<Rightarrow> floating_point \<Rightarrow> mouse_key_arithmetic \<Rightarrow> 'k hid_report_ops \<Rightarrow> 'k poster \<Rightarrow> bool"
    for P F A H where
  pv_start: "poster_run P F A H (poster_initial H N)"
| pv_entry: "poster_run P F A H v \<Longrightarrow> length (ked_pressed_keys (pv_dispatcher v)) < 31 \<Longrightarrow>
    pv_manipulate P H en s v = (r, en', s', v') \<Longrightarrow> poster_run P F A H v'"
| pv_released: "poster_run P F A H v \<Longrightarrow>
    pv_handle_device_keys_and_pointing_buttons_are_released_event P H en eq v = (eq', v') \<Longrightarrow>
    poster_run P F A H v'"
| pv_ungrabbed: "poster_run P F A H v \<Longrightarrow>
    poster_run P F A H (pv_handle_device_ungrabbed_event P H d eq t v)"
| pv_tap: "poster_run P F A H v \<Longrightarrow>
    poster_run P F A H (pv_handle_pointing_device_event_from_event_tap P H en eq v)"
| pv_timer: "poster_run P F A H v \<Longrightarrow> pv_mouse_key_timer P F A H oeq v = Some v' \<Longrightarrow>
    poster_run P F A H v'"
| pv_post: "poster_run P F A H v \<Longrightarrow> pv_async_post_events P now v = (sent, w, v') \<Longrightarrow>
    poster_run P F A H v'"
| pv_clear: "poster_run P F A H v \<Longrightarrow> poster_run P F A H (pv_clear_queue v)"

abbreviation keys_of :: "'k poster \<Rightarrow> 'k dispatcher_state" where
  "keys_of v \<equiv> (pv_dispatcher v, pv_queue v)"

definition poster_inv :: "platform \<Rightarrow> 'k hid_report_ops \<Rightarrow> 'k poster \<Rightarrow> bool" where
  "poster_inv P H v \<longleftrightarrow> dispatcher_run P H (keys_of v) \<and> mouse_key_inv (pv_mouse_key_handler v)"

lemma with_dispatcher_fields [simp]:
  "keys_of (with_dispatcher f v) = f (keys_of v)"
  "pv_dispatcher (with_dispatcher f v) = fst (f (keys_of v))"
  "pv_queue (with_dispatcher f v) = snd (f (keys_of v))"
  "pv_mouse_key_handler (with_dispatcher f v) = pv_mouse_key_handler v"
  "pv_pressed_buttons (with_dispatcher f v) = pv_pressed_buttons v"
  "pv_notification (with_dispatcher f v) = pv_notification v"
  by (simp_all add: with_dispatcher_def split: prod.splits)

lemma with_queue_fields [simp]:
  "pv_dispatcher (with_queue f v) = pv_dispatcher v"
  "pv_queue (with_queue f v) = f (pv_queue v)"
  "pv_mouse_key_handler (with_queue f v) = pv_mouse_key_handler v"
  "pv_pressed_buttons (with_queue f v) = pv_pressed_buttons v"
  by (simp_all add: with_queue_def)

lemma with_mouse_keys_fields [simp]:
  "pv_dispatcher (with_mouse_keys f v) = pv_dispatcher v"
  "pv_queue (with_mouse_keys f v) = pv_queue v"
  "pv_mouse_key_handler (with_mouse_keys f v) = f (pv_mouse_key_handler v)"
  "pv_pressed_buttons (with_mouse_keys f v) = pv_pressed_buttons v"
  by (simp_all add: with_mouse_keys_def)

lemma update_sticky_fields [simp]:
  "pv_dispatcher (update_sticky_modifiers_notification_message eq v) = pv_dispatcher v"
  "pv_queue (update_sticky_modifiers_notification_message eq v) = pv_queue v"
  "pv_mouse_key_handler (update_sticky_modifiers_notification_message eq v) = pv_mouse_key_handler v"
  "pv_pressed_buttons (update_sticky_modifiers_notification_message eq v) = pv_pressed_buttons v"
  by (simp_all add: update_sticky_modifiers_notification_message_def)

lemma poster_inv_cong:
  "pv_dispatcher v' = pv_dispatcher v \<Longrightarrow> pv_queue v' = pv_queue v \<Longrightarrow>
   pv_mouse_key_handler v' = pv_mouse_key_handler v \<Longrightarrow> poster_inv P H v' = poster_inv P H v"
  by (simp add: poster_inv_def)

text \<open>Every other use of the queue is one of its operations.\<close>

lemma dispatcher_run_queue:
  assumes "dispatcher_run P H (D, q)"
  shows "dispatcher_run P H (D, emplace_back_pointing_input P r et t q)"
    "dispatcher_run P H (D, push_back_shell_command_event c t q)"
    "dispatcher_run P H (D, push_back_select_input_source_event ss t q)"
    "dispatcher_run P H (D, push_back_software_function_event f t q)"
    "dispatcher_run P H (D, snd (snd (async_post_events P now q)))"
    "dispatcher_run P H (D, post_queue_clear q)"
  using run_other[OF assms, of "Pq_pointing r et t"] run_other[OF assms, of "Pq_shell_command c t"]
    run_other[OF assms, of "Pq_select_input_source ss t"] run_other[OF assms, of "Pq_software_function f t"]
    run_other[OF assms, of "Pq_post now"] run_other[OF assms, of Pq_clear]
  by simp_all

lemma poster_inv_dispatch_modifiers: "poster_inv P H v \<Longrightarrow> poster_inv P H (dispatch_modifiers P H eq t v)"
  by (simp add: poster_inv_def dispatch_modifiers_def run_modifiers)

lemma poster_inv_sync: "poster_inv P H v \<Longrightarrow> poster_inv P H (sync_caps_lock en eq v)"
  by (auto simp: poster_inv_def sync_caps_lock_def run_caps_lock_on run_caps_lock_off split: event.splits)

lemma poster_inv_pointing: "poster_inv P H v \<Longrightarrow> poster_inv P H (post_pointing_input_report P H en eq v)"
  by (simp add: poster_inv_def post_pointing_input_report_def dispatcher_run_queue Let_def)

lemma poster_inv_buttons: "poster_inv P H v \<Longrightarrow> poster_inv P H (post_changed_buttons P H eq t v)"
  by (simp add: poster_inv_def post_changed_buttons_def dispatcher_run_queue Let_def)

lemma poster_inv_front:
  assumes inv: "poster_inv P H v" and room: "length (ked_pressed_keys (pv_dispatcher v)) < 31"
  shows "poster_inv P H (post_front_input_event P H en eq v)"
proof (cases "en_event en")
  case (Ev_momentary_switch_event e)
  have "MSE (get_usage_pair e) = e" by simp
  then show ?thesis
    using inv room poster_inv_pointing[OF inv, of en eq]
    by (auto simp: Ev_momentary_switch_event post_front_input_event_def post_momentary_switch_event_def Let_def
        poster_inv_def run_key_up intro!: run_key_down split: event_type.splits)
next
  case Ev_pointing_motion
  then show ?thesis using poster_inv_pointing[OF inv] by (simp add: post_front_input_event_def Let_def)
next
  case Ev_mouse_key
  then show ?thesis
    using inv by (simp add: post_front_input_event_def poster_inv_def mouse_key_inv_steps Let_def
        split: event_type.splits)
next
  case Ev_stop_keyboard_repeat
  then show ?thesis
    using inv by (simp add: post_front_input_event_def poster_inv_def run_key_up Let_def split: option.splits)
qed (use inv in \<open>simp_all add: post_front_input_event_def poster_inv_def dispatcher_run_queue
       mouse_key_inv_steps Let_def\<close>)

lemma dispatch_modifiers_fields [simp]:
  "pv_dispatcher (dispatch_modifiers P H eq t v) =
     fst (dispatch_modifier_key_event P H (q_modifier_flags eq) t (keys_of v))"
  "pv_queue (dispatch_modifiers P H eq t v) =
     snd (dispatch_modifier_key_event P H (q_modifier_flags eq) t (keys_of v))"
  "pv_mouse_key_handler (dispatch_modifiers P H eq t v) = pv_mouse_key_handler v"
  "pv_pressed_buttons (dispatch_modifiers P H eq t v) = pv_pressed_buttons v"
  by (simp_all add: dispatch_modifiers_def)

lemma sync_caps_lock_fields [simp]:
  "ked_pressed_keys (pv_dispatcher (sync_caps_lock en eq v)) = ked_pressed_keys (pv_dispatcher v)"
  "pv_queue (sync_caps_lock en eq v) = pv_queue v"
  by (auto simp: sync_caps_lock_def insert_pressed_modifier_flag_def erase_pressed_modifier_flag_def
      split: event.splits)

lemma poster_inv_manipulate:
  assumes inv: "poster_inv P H v" and room: "length (ked_pressed_keys (pv_dispatcher v)) < 31"
    and m: "pv_manipulate P H en s v = (r, en', s', v')"
  shows "poster_inv P H v'"
proof (cases "en_validity en = invalid")
  case True then show ?thesis using inv m by (simp add: pv_manipulate_def)
next
  case False
  let ?t = "en_time_stamp en"
  define v1 where "v1 = sync_caps_lock en (snd s) v"
  define v2 where "v2 = (if dispatches_before H en v1 then dispatch_modifiers P H (snd s) ?t v1 else v1)"
  define v3 where "v3 = update_sticky_modifiers_notification_message (snd (emplace_back_entry P en s)) v2"
  define v4 where "v4 = post_front_input_event P H en (snd (emplace_back_entry P en s)) v3"
  have "poster_inv P H v1" unfolding v1_def by (rule poster_inv_sync[OF inv])
  then have i2: "poster_inv P H v2" unfolding v2_def by (simp add: poster_inv_dispatch_modifiers)
  have "length (ked_pressed_keys (pv_dispatcher v2)) < 31"
    using room pressed_dispatch_modifiers(1)[of P H "q_modifier_flags (snd s)" ?t "keys_of v1"]
    unfolding v2_def by (auto simp: v1_def)
  then have room3: "length (ked_pressed_keys (pv_dispatcher v3)) < 31" by (simp add: v3_def)
  have "poster_inv P H v3" using i2 unfolding v3_def by (simp add: poster_inv_def)
  from poster_inv_front[OF this room3] have "poster_inv P H v4" unfolding v4_def .
  moreover have "v' = snd (snd (snd (pv_manipulate P H en s v)))" by (simp add: m)
  then have "v' = (if dispatches_after en
      then dispatch_modifiers P H (snd (emplace_back_entry P en s)) ?t v4 else v4)"
    using False by (simp only: pv_manipulate_def Let_def v4_def v3_def v2_def v1_def if_False snd_conv)
  ultimately show ?thesis by (simp add: poster_inv_dispatch_modifiers)
qed

lemma poster_run_inv: "poster_run P F A H v \<Longrightarrow> poster_inv P H v"
proof (induction rule: poster_run.induct)
  case (pv_start N)
  then show ?case
    using run_start mk_start[THEN mouse_key_run_inv] by (simp add: poster_inv_def poster_initial_def)
next
  case pv_entry then show ?case using poster_inv_manipulate by blast
next
  case (pv_released v en eq eq' v')
  then show ?case
    using poster_inv_buttons[of P H] poster_inv_dispatch_modifiers[OF pv_released.IH, of eq "en_time_stamp en"]
    by (auto simp: pv_handle_device_keys_and_pointing_buttons_are_released_event_def Let_def
        poster_inv_def mouse_key_inv_steps)
next
  case (pv_ungrabbed v d eq t)
  have "poster_inv P H (with_dispatcher (dispatch_key_up_events_by_device_id P H d t) v)"
    using pv_ungrabbed.IH by (simp add: poster_inv_def run_device)
  from poster_inv_dispatch_modifiers[OF poster_inv_buttons[OF this, of eq t], of eq t] show ?case
    unfolding pv_handle_device_ungrabbed_event_def Let_def
    by (simp add: poster_inv_def mouse_key_inv_steps)
next
  case pv_tap
  then show ?case
    by (simp add: pv_handle_pointing_device_event_from_event_tap_def poster_inv_dispatch_modifiers)
next
  case (pv_timer v oeq v')
  have inv: "mouse_key_inv (pv_mouse_key_handler v)" using pv_timer.IH by (simp add: poster_inv_def)
  then show ?case
    by (cases rule: mkh_timer_fire_cases[of "pv_mouse_key_handler v" P F A H oeq "pv_queue v"])
       (use pv_timer in \<open>auto simp: poster_inv_def pv_mouse_key_timer_def dispatcher_run_queue\<close>)
next
  case (pv_post v now sent w v')
  then show ?case
    using dispatcher_run_queue(5)[of P H "pv_dispatcher v" "pv_queue v" now]
    by (auto simp: poster_inv_def pv_async_post_events_def split: prod.splits)
next
  case pv_clear
  then show ?case by (simp add: poster_inv_def pv_clear_queue_def dispatcher_run_queue)
qed

subsection \<open>Keys are posted with their modifiers\<close>

text \<open>What \<open>pv_manipulate\<close> does with a press of a plain key.\<close>

lemma pv_manipulate_key_down:
  assumes "en_validity en = valid" "en_event en = Ev_momentary_switch_event e" "en_event_type en = key_down"
    and "mse_valid e" "\<not> mse_is_modifier e" "\<not> mse_is_pointing_button e"
    and "pv_manipulate P H en s v = (r, en', s', v')"
  shows "keys_of v' = dispatch_key_down_event P H (en_device_id en) (get_usage_pair e) (en_time_stamp en)
      (dispatch_modifier_key_event P H (q_modifier_flags (snd s)) (en_time_stamp en) (keys_of v))"
proof -
  have "sync_caps_lock en (snd s) v = v" using assms(2) by (simp add: sync_caps_lock_def)
  moreover have "dispatches_before H en v" "\<not> dispatches_after en"
    using assms(2,3,5) by (simp_all add: dispatches_before_def dispatches_after_def is_modifier_key_entry_def)
  moreover have "v' = snd (snd (snd (pv_manipulate P H en s v)))" by (simp add: assms(7))
  ultimately have "v' = post_front_input_event P H en (snd (emplace_back_entry P en s))
      (update_sticky_modifiers_notification_message (snd (emplace_back_entry P en s))
        (dispatch_modifiers P H (snd s) (en_time_stamp en) v))"
    using assms(1) by (simp add: pv_manipulate_def Let_def)
  then show ?thesis
    using assms(2-6) by (simp add: post_front_input_event_def post_momentary_switch_event_def Let_def)
qed

lemma dispatch_key_down_modifiers:
  assumes "report_fields_are_sets H keys mods" "\<not> mse_is_modifier (MSE u)"
  shows "pq_modifiers (snd (dispatch_key_down_event P H d u t s)) = pq_modifiers (snd s)"
  using enqueue_key(3)[OF assms(1) report_modifier_not_modifier[OF assms(2)]]
  by (simp add: dispatch_key_down_event_def split: prod.splits)

lemma emplace_back_key_event_keyboard:
  assumes "mse_page e = page_keyboard_or_keypad"
  shows "\<exists>t'. pq_events (emplace_back_key_event P H e et t q) =
     pq_events q @ [\<lparr>pe_value = Pe_keyboard_input (pq_modifiers (emplace_back_key_event P H e et t q))
                                                  (pq_keys (emplace_back_key_event P H e et t q)),
                     pe_time_stamp = t'\<rparr>]"
proof -
  obtain t' q1 where a: "adjust_time_stamp P t et (mse_is_modifier e) q = (t', q1)" by force
  have "pq_events q1 = pq_events q" using a by (auto simp: adjust_time_stamp_def Let_def)
  then show ?thesis
    by (simp add: emplace_back_key_event_def a assms Let_def) (simp add: push_post_event_def)
qed

text \<open>
  C2. A key goes out with the modifiers that are held when it is pressed: manipulating the press of
  a plain key first makes the reported modifiers those of the output queue's flag manager and then
  reports the key as pressed; for a key of the keyboard page that was up, the last report posted is
  the keyboard report that holds both. This is what makes a lazily released or changed modifier
  take effect before the key.
\<close>

theorem keys_are_posted_with_their_modifiers:
  assumes run: "poster_run P F A H v" and law: "report_fields_are_sets H keys mods"
    and room: "length (ked_pressed_keys (pv_dispatcher v)) < 31"
    and en: "en_validity en = valid" "en_event en = Ev_momentary_switch_event e" "en_event_type en = key_down"
      "mse_valid e" "\<not> mse_is_modifier e" "\<not> mse_is_pointing_button e"
    and m: "pv_manipulate P H en s v = (r, en', s', v')"
  shows "mods (pq_modifiers (pv_queue v')) =
      {x. \<exists>m. is_pressed m (q_modifier_flags (snd s)) \<and> make_hid_report_modifier m = Some x}
    \<and> (has_report (mse_page e) \<longrightarrow> mse_usage e \<in> reported_on keys (pv_queue v') (mse_page e))
    \<and> (mse_page e = page_keyboard_or_keypad \<and> \<not> key_event_exists (get_usage_pair e)
         (fst (dispatch_modifier_key_event P H (q_modifier_flags (snd s)) (en_time_stamp en) (keys_of v))) \<longrightarrow>
       (\<exists>es t. pq_events (pv_queue v') =
          es @ [\<lparr>pe_value = Pe_keyboard_input (pq_modifiers (pv_queue v')) (pq_keys (pv_queue v')),
                 pe_time_stamp = t\<rparr>]))"
proof -
  let ?fs = "q_modifier_flags (snd s)" and ?t = "en_time_stamp en" and ?u = "get_usage_pair e"
  let ?s1 = "dispatch_modifier_key_event P H ?fs ?t (keys_of v)"
  let ?s2 = "dispatch_key_down_event P H (en_device_id en) ?u ?t ?s1"
  have u: "MSE ?u = e" by simp
  have k: "keys_of v' = ?s2" by (rule pv_manipulate_key_down[OF en m])
  have q: "pv_queue v' = snd ?s2" using arg_cong[OF k, of snd] by simp
  have r0: "dispatcher_run P H (keys_of v)" using poster_run_inv[OF run] by (simp add: poster_inv_def)
  have r1: "dispatcher_run P H ?s1" by (rule run_modifiers[OF r0])
  have "length (ked_pressed_keys (fst ?s1)) < 31"
    using pressed_dispatch_modifiers(1)[of P H ?fs ?t "keys_of v"] room by simp
  then have r2: "dispatcher_run P H ?s2" using r1 en(5) by (intro run_key_down) simp_all
  have "mods (pq_modifiers (snd ?s2)) = mods (pq_modifiers (snd ?s1))"
    using dispatch_key_down_modifiers[OF law, of ?u] en(5) by simp
  also have "\<dots> = {x. \<exists>m. is_pressed m ?fs \<and> make_hid_report_modifier m = Some x}"
    using synchronised_reports[OF dispatcher_run_inv[OF r0 law] law] by blast
  finally have mo: "mods (pq_modifiers (snd ?s2)) = \<dots>" .
  have "?u \<in> snd ` set (ked_pressed_keys (fst ?s2))"
    by (auto simp: dispatch_key_down_event_def key_event_exists_iff split: prod.splits)
  then have "mse_usage e \<in> expected_on (fst ?s2) (mse_page e)" if "has_report (mse_page e)"
    using that by (cases ?u) (simp add: expected_on_def mse_page_def mse_usage_def)
  then have "mse_usage e \<in> reported_on keys (snd ?s2) (mse_page e)" if "has_report (mse_page e)"
    using dispatcher_run_inv[OF r2 law] that by (simp add: dispatcher_inv_def)
  moreover have "\<exists>es t. pq_events (snd ?s2) =
      es @ [\<lparr>pe_value = Pe_keyboard_input (pq_modifiers (snd ?s2)) (pq_keys (snd ?s2)), pe_time_stamp = t\<rparr>]"
    if "mse_page e = page_keyboard_or_keypad" "\<not> key_event_exists ?u (fst ?s1)"
  proof -
    have "snd ?s2 = emplace_back_key_event P H e key_down ?t (snd ?s1)"
      using that(2) by (simp add: dispatch_key_down_event_def enqueue_key_event_def case_prod_beta)
    then show ?thesis
      using emplace_back_key_event_keyboard[OF that(1), of P H key_down ?t "snd ?s1"] by metis
  qed
  ultimately show ?thesis using mo unfolding q by blast
qed

subsection \<open>An ungrabbed device leaves nothing down\<close>

text \<open>The pointing reports among what was appended to the queue.\<close>

definition pointing_inputs :: "'k post_event list \<Rightarrow> 'k pointing_input list" where
  "pointing_inputs es =
     List.map_filter (\<lambda>e. case pe_value e of Pe_pointing_input r \<Rightarrow> Some r | _ \<Rightarrow> None) es"

definition appends :: "'k post_queue \<Rightarrow> 'k post_queue \<Rightarrow> 'k pointing_input list \<Rightarrow> bool" where
  "appends q q' rs \<longleftrightarrow> (\<exists>es. pq_events q' = pq_events q @ es \<and> pointing_inputs es = rs)"

lemma pointing_inputs_append [simp]:
  "pointing_inputs [] = []" "pointing_inputs (es @ fs) = pointing_inputs es @ pointing_inputs fs"
  by (simp_all add: pointing_inputs_def map_filter_def)

lemma appends_refl: "appends q q []"
  by (auto simp: appends_def)

lemma appends_trans: "appends q q1 rs \<Longrightarrow> appends q1 q2 rs' \<Longrightarrow> appends q q2 (rs @ rs')"
  by (auto simp: appends_def)

lemma appends_key: "appends q (emplace_back_key_event P H e et t q) []"
proof -
  obtain t' q1 where a: "adjust_time_stamp P t et (mse_is_modifier e) q = (t', q1)" by force
  then have "pq_events q1 = pq_events q" by (auto simp: adjust_time_stamp_def Let_def)
  then show ?thesis
    by (simp add: emplace_back_key_event_def a Let_def appends_def)
      (simp add: pointing_inputs_def map_filter_def)
qed

lemma appends_enqueue: "appends q (enqueue_key_event P H u et t q) []"
  by (simp add: enqueue_key_event_def appends_key)

lemma appends_send_modifier: "appends q (send_modifier P H m et t q) []"
  by (simp add: send_modifier_def Let_def appends_enqueue appends_refl)

lemma appends_key_up: "appends (snd s) (snd (dispatch_key_up_event P H u t s)) []"
  by (simp add: dispatch_key_up_event_def appends_enqueue appends_refl split: prod.split)

lemma appends_caps_lock: "appends (snd s) (snd (send_caps_lock P H t s)) []"
proof -
  let ?u = "get_usage_pair (mse_of_modifier_flag mf_caps_lock)"
  obtain D q where d: "(if key_event_exists ?u (fst s) then dispatch_key_up_event P H ?u t s else s) = (D, q)" by force
  then have "appends (snd s) q []" using appends_key_up[of s P H ?u t] appends_refl by (auto split: if_splits)
  moreover have "appends q (enqueue_key_event P H ?u key_up t (enqueue_key_event P H ?u key_down t q)) ([] @ [])"
    by (rule appends_trans[OF appends_enqueue appends_enqueue])
  ultimately show ?thesis
    using appends_trans[of "snd s" q "[]"] unfolding send_caps_lock_def Let_def d prod.case snd_conv by fastforce
qed

lemma appends_modifier_flag: "appends (snd s) (snd (dispatch_modifier_flag P H fs t m s)) []"
proof -
  obtain D q where s: "s = (D, q)" by force
  have "appends q (snd (send_caps_lock P H t (D', q))) []" for D'
    using appends_caps_lock[of "(D', q)" P H t] by simp
  then show ?thesis
    by (simp add: s dispatch_modifier_flag_def Let_def appends_send_modifier appends_refl)
qed

lemma appends_dispatch_modifier: "appends (snd s) (snd (dispatch_modifier_key_event P H fs t s)) []"
proof -
  have "appends (snd s) (snd (foldl (\<lambda>s m. dispatch_modifier_flag P H fs t m s) s ms)) []" for ms
  proof (induction ms arbitrary: s)
    case (Cons m ms)
    show ?case
      using appends_trans[OF appends_modifier_flag[of s P H fs t m] Cons.IH[of "dispatch_modifier_flag P H fs t m s"]]
      by simp
  qed (simp add: appends_refl)
  then show ?thesis by (simp add: dispatch_modifier_key_event_def)
qed

lemma appends_device: "appends (snd s) (snd (dispatch_key_up_events_by_device_id P H d t s)) []"
proof (induction P H d t s rule: dispatch_key_up_events_by_device_id.induct)
  case (1 P H d t s)
  show ?case
  proof (cases "find (\<lambda>k. fst k = d) (ked_pressed_keys (fst s))")
    case None
    then show ?thesis by (simp add: dispatch_key_up_events_by_device_id.simps[of P H d t s] appends_refl)
  next
    case (Some k)
    from appends_trans[OF appends_key_up[of s P H "snd k" t] "1.IH"[OF Some]] Some show ?thesis
      by (simp add: dispatch_key_up_events_by_device_id.simps[of P H d t s])
  qed
qed

lemma post_changed_buttons_result:
  "pv_pressed_buttons (post_changed_buttons P H eq t v) = report_buttons H eq"
  "pv_dispatcher (post_changed_buttons P H eq t v) = pv_dispatcher v"
  "pv_mouse_key_handler (post_changed_buttons P H eq t v) = pv_mouse_key_handler v"
  "appends (pv_queue v) (pv_queue (post_changed_buttons P H eq t v))
     (if pv_pressed_buttons v = report_buttons H eq then [] else [empty_pointing_input (report_buttons H eq)])"
proof -
  obtain t' q1 where a: "adjust_time_stamp P t key_up False (pv_queue v) = (t', q1)" by force
  then have "pq_events q1 = pq_events (pv_queue v)" by (auto simp: adjust_time_stamp_def Let_def)
  then show "appends (pv_queue v) (pv_queue (post_changed_buttons P H eq t v))
     (if pv_pressed_buttons v = report_buttons H eq then [] else [empty_pointing_input (report_buttons H eq)])"
    by (simp add: post_changed_buttons_def Let_def appends_refl with_queue_def emplace_back_pointing_input_def a)
      (simp add: appends_def pointing_inputs_def map_filter_def)
qed (simp_all add: post_changed_buttons_def Let_def)

lemma with_dispatcher_queue: "pv_queue (with_dispatcher f v) = snd (f (keys_of v))"
  by (simp add: with_dispatcher_def split: prod.split)

text \<open>
  What \<open>handle_device_ungrabbed_event\<close> leaves: the dispatcher counts no key of the device as pressed,
  the reports hold the keys counted as pressed and fn, the modifiers of the queue's flag manager
  and the buttons of its button manager, and no mouse key of the device moves the pointer. The one
  pointing report it appends, if the buttons changed, is that of the buttons left.
\<close>

lemma device_ungrabbed_result:
  assumes run: "poster_run P F A H v" and law: "report_fields_are_sets H keys mods"
    and v': "v' = pv_handle_device_ungrabbed_event P H d eq t v"
  shows "d \<notin> fst ` set (ked_pressed_keys (pv_dispatcher v'))"
    and "reported_on keys (pv_queue v') p = expected_on (pv_dispatcher v') p"
    and "mods (pq_modifiers (pv_queue v')) =
        {x. \<exists>m. is_pressed m (q_modifier_flags eq) \<and> make_hid_report_modifier m = Some x}"
    and "pv_pressed_buttons v' = report_buttons H eq"
    and "appends (pv_queue v) (pv_queue v')
      (if pv_pressed_buttons v = report_buttons H eq then [] else [empty_pointing_input (report_buttons H eq)])"
    and "d \<notin> fst ` set (mkh_entries (pv_mouse_key_handler v'))"
proof -
  define v1 where "v1 = with_dispatcher (dispatch_key_up_events_by_device_id P H d t) v"
  define v2 where "v2 = post_changed_buttons P H eq t v1"
  have e: "v' = with_mouse_keys (erase_mouse_keys_by_device_id d t) (dispatch_modifiers P H eq t v2)"
    unfolding v' by (simp add: pv_handle_device_ungrabbed_event_def v2_def v1_def Let_def)
  have i: "poster_inv P H v" by (rule poster_run_inv[OF run])
  then have inv: "dispatcher_inv keys mods (keys_of v)"
    using dispatcher_run_inv[OF _ law] unfolding poster_inv_def by blast
  have "poster_inv P H v1" using i by (simp add: v1_def poster_inv_def run_device)
  then have i2: "poster_inv P H v2" unfolding v2_def by (rule poster_inv_buttons)
  then have inv2: "dispatcher_inv keys mods (keys_of v2)"
    using dispatcher_run_inv[OF _ law] unfolding poster_inv_def by blast
  have "d \<notin> fst ` set (ked_pressed_keys (pv_dispatcher v2))"
    using inv_device[OF law inv, where P = P and d = d and t = t] by (simp add: v2_def v1_def post_changed_buttons_result)
  then show "d \<notin> fst ` set (ked_pressed_keys (pv_dispatcher v'))"
    using pressed_dispatch_modifiers(2)[of P H "q_modifier_flags eq" t "keys_of v2"] by (auto simp: e)
  have "dispatcher_inv keys mods (keys_of v')"
    unfolding e using inv_dispatch_modifier_key_event[OF law inv2] by simp
  then show "reported_on keys (pv_queue v') p = expected_on (pv_dispatcher v') p"
    by (simp add: dispatcher_inv_def)
  show "mods (pq_modifiers (pv_queue v')) =
      {x. \<exists>m. is_pressed m (q_modifier_flags eq) \<and> make_hid_report_modifier m = Some x}"
    unfolding e using synchronised_reports[OF inv2 law, of P "q_modifier_flags eq" t] by simp
  show "pv_pressed_buttons v' = report_buttons H eq"
    by (simp add: e v2_def post_changed_buttons_result)
  show "d \<notin> fst ` set (mkh_entries (pv_mouse_key_handler v'))"
    by (auto simp: e erase_mouse_keys_by_device_id_def mkh_erase_if_def start_timer_def Let_def)
  have "appends (pv_queue v) (pv_queue v1) []"
    using appends_device[of "keys_of v" P H d t] by (simp add: v1_def with_dispatcher_queue)
  moreover have "appends (pv_queue v2) (pv_queue v') []"
    using appends_dispatch_modifier[of "keys_of v2" P H "q_modifier_flags eq" t]
    by (simp add: e dispatch_modifiers_def with_dispatcher_queue with_mouse_keys_def)
  moreover have "pv_pressed_buttons v1 = pv_pressed_buttons v"
    by (simp add: v1_def with_dispatcher_def split: prod.split)
  ultimately show "appends (pv_queue v) (pv_queue v')
      (if pv_pressed_buttons v = report_buttons H eq then [] else [empty_pointing_input (report_buttons H eq)])"
    using post_changed_buttons_result(4)[of v1 P H eq t] unfolding v2_def[symmetric]
    by (metis (no_types, lifting) append_Nil append_Nil2 appends_trans)
qed

subsection \<open>Witnesses\<close>

definition sample_poster :: "(usage set \<times> hid_report_modifier set) poster" where
  "sample_poster = poster_initial pair_hid_report_ops (Some nmm_initial)"

text \<open>The a key is pressed while left shift is held.\<close>

definition sample_shift_queue :: event_queue where
  "sample_shift_queue =
     sample_queue\<lparr>q_modifier_flags := [make_active_modifier_flag increase mf_left_shift 1]\<rparr>"

lemma sample_shift_pressed_flags: "is_pressed m (q_modifier_flags sample_shift_queue) \<longleftrightarrow> m = mf_left_shift"
  by (auto simp: sample_shift_queue_def is_pressed_def make_active_modifier_flag_def get_count_def)

lemma sample_poster_run: "poster_run P F A pair_hid_report_ops sample_poster"
  unfolding sample_poster_def by (rule pv_start)

theorem keys_are_posted_with_their_modifiers_witness:
  "\<exists>v'. pv_manipulate witness_platform pair_hid_report_ops (sample_key_entry (mse 7 4) key_down 5)
        (witness_world, sample_shift_queue) sample_poster =
      (mr_passed, (sample_key_entry (mse 7 4) key_down 5)\<lparr>en_validity := invalid\<rparr>,
       emplace_back_entry witness_platform (sample_key_entry (mse 7 4) key_down 5)
         (witness_world, sample_shift_queue), v')
     \<and> snd (pq_modifiers (pv_queue v')) = {hid_left_shift}
     \<and> 4 \<in> reported_on fst (pv_queue v') page_keyboard_or_keypad"
proof -
  let ?en = "sample_key_entry (mse 7 4) key_down 5"
  obtain r en' s' v' where m: "pv_manipulate witness_platform pair_hid_report_ops ?en
      (witness_world, sample_shift_queue) sample_poster = (r, en', s', v')" by (metis prod_cases4)
  have en: "en_validity ?en = valid" "en_event ?en = Ev_momentary_switch_event (mse 7 4)"
    "en_event_type ?en = key_down"
    by (simp_all add: sample_key_entry_def make_entry_def)
  have k: "mse_valid (mse 7 4)" "\<not> mse_is_modifier (mse 7 4)" "\<not> mse_is_pointing_button (mse 7 4)"
    by (simp_all add: mse_test_defs)
  have room: "length (ked_pressed_keys (pv_dispatcher sample_poster)) < 31"
    by (simp add: sample_poster_def poster_initial_def key_event_dispatcher_initial_def)
  have "r = mr_passed \<and> en' = ?en\<lparr>en_validity := invalid\<rparr>
      \<and> s' = emplace_back_entry witness_platform ?en (witness_world, sample_shift_queue)"
    using m en(1) by (auto simp: pv_manipulate_def Let_def)
  then show ?thesis
    using m keys_are_posted_with_their_modifiers[OF sample_poster_run pair_hid_report_ops_are_sets room en k m]
    by (simp add: sample_shift_pressed_flags has_report_def)
qed

end
