(* ===== verification/Scroll_Counter.thy ===== *)
theory Scroll_Counter
  imports Event_Queue_Utility
begin

text \<open>
  \<open>src/share/manipulator/manipulators/mouse_motion_to_scroll/\<close>: \<open>options.hpp\<close>,
  \<open>counter_chunk_value.hpp\<close>, \<open>counter_direction.hpp\<close>, \<open>counter_entry.hpp\<close> and \<open>counter.hpp\<close>. The
  counter gathers pointing motions in chunks, locks the direction of the larger one, and its timer
  turns the totals into scroll motions that slow down.

  Arithmetic on doubles is rounded by the hardware, so quotients, products and the fourth power are
  parameters. The lemmas show that the timer stops, that wheels turn in one direction at a
  time, and how \<open>round_up\<close> and the conversion to \<open>int\<close> behave at their edges.
\<close>

subsection \<open>options\<close>

record scroll_options =
  so_momentum_scroll_enabled :: bool
  so_speed_multiplier :: rat
  so_recent_time_duration :: milliseconds
  so_threshold :: int
  so_direction_lock_threshold :: int
  so_scroll_event_interval_threshold :: milliseconds

definition scroll_options_default :: scroll_options where
  "scroll_options_default =
     \<lparr>so_momentum_scroll_enabled = True, so_speed_multiplier = 1, so_recent_time_duration = 100,
      so_threshold = 128, so_direction_lock_threshold = 4, so_scroll_event_interval_threshold = 100\<rparr>"

definition set_speed_multiplier :: "rat \<Rightarrow> scroll_options \<Rightarrow> scroll_options" where
  "set_speed_multiplier v o' = o'\<lparr>so_speed_multiplier := (if v \<le> 0 then 1 else v)\<rparr>"

definition set_recent_time_duration :: "milliseconds \<Rightarrow> scroll_options \<Rightarrow> scroll_options" where
  "set_recent_time_duration v o' = o'\<lparr>so_recent_time_duration := (if v < 1 then 100 else v)\<rparr>"

definition set_threshold :: "int \<Rightarrow> scroll_options \<Rightarrow> scroll_options" where
  "set_threshold v o' = o'\<lparr>so_threshold := (if v \<le> 0 then 128 else v)\<rparr>"

definition set_direction_lock_threshold :: "int \<Rightarrow> scroll_options \<Rightarrow> scroll_options" where
  "set_direction_lock_threshold v o' = o'\<lparr>so_direction_lock_threshold := (if v \<le> 0 then 4 else v)\<rparr>"

definition set_scroll_event_interval_threshold :: "milliseconds \<Rightarrow> scroll_options \<Rightarrow> scroll_options" where
  "set_scroll_event_interval_threshold v o' =
     o'\<lparr>so_scroll_event_interval_threshold := (if v < 1 then 100 else v)\<rparr>"

definition set_momentum_scroll_enabled :: "bool \<Rightarrow> scroll_options \<Rightarrow> scroll_options" where
  "set_momentum_scroll_enabled v o' = o'\<lparr>so_momentum_scroll_enabled := v\<rparr>"

text \<open>Options as the setters make them, in any order.\<close>

inductive scroll_options_reachable :: "scroll_options \<Rightarrow> bool" where
  "scroll_options_reachable scroll_options_default"
| "scroll_options_reachable o' \<Longrightarrow> scroll_options_reachable (set_momentum_scroll_enabled b o')"
| "scroll_options_reachable o' \<Longrightarrow> scroll_options_reachable (set_speed_multiplier r o')"
| "scroll_options_reachable o' \<Longrightarrow> scroll_options_reachable (set_recent_time_duration n o')"
| "scroll_options_reachable o' \<Longrightarrow> scroll_options_reachable (set_threshold n o')"
| "scroll_options_reachable o' \<Longrightarrow> scroll_options_reachable (set_direction_lock_threshold n o')"
| "scroll_options_reachable o' \<Longrightarrow> scroll_options_reachable (set_scroll_event_interval_threshold n o')"

lemma scroll_options_positive:
  "scroll_options_reachable o' \<Longrightarrow>
   0 < so_threshold o' \<and> 0 < so_direction_lock_threshold o' \<and> 0 < so_recent_time_duration o'
   \<and> 0 < so_scroll_event_interval_threshold o' \<and> 0 < so_speed_multiplier o'"
  by (induction rule: scroll_options_reachable.induct)
     (simp_all add: scroll_options_default_def set_momentum_scroll_enabled_def set_speed_multiplier_def
       set_recent_time_duration_def set_threshold_def set_direction_lock_threshold_def
       set_scroll_event_interval_threshold_def)

subsection \<open>counter_chunk_value\<close>

datatype sign = sign_zero | sign_plus | sign_minus

definition make_sign :: "int \<Rightarrow> sign" where
  "make_sign v = (if v > 0 then sign_plus else if v < 0 then sign_minus else sign_zero)"

record chunk_value =
  cv_plus_value :: int
  cv_minus_value :: int
  cv_abs_total :: int
  cv_last_sign :: sign

definition chunk_value_initial :: chunk_value where
  "chunk_value_initial =
     \<lparr>cv_plus_value = 0, cv_minus_value = 0, cv_abs_total = 0, cv_last_sign = sign_zero\<rparr>"

definition cv_add :: "int \<Rightarrow> chunk_value \<Rightarrow> chunk_value" where
  "cv_add v c =
     (let c1 = (if v > 0 then c\<lparr>cv_plus_value := cv_plus_value c + v, cv_last_sign := sign_plus\<rparr>
                else if v < 0 then c\<lparr>cv_minus_value := cv_minus_value c + v, cv_last_sign := sign_minus\<rparr>
                else c)
      in c1\<lparr>cv_abs_total := cv_abs_total c1 + \<bar>v\<bar>\<rparr>)"

definition make_accumulated_value :: "chunk_value \<Rightarrow> int" where
  "make_accumulated_value c =
     (let abs_p = \<bar>cv_plus_value c\<bar>; abs_m = \<bar>cv_minus_value c\<bar>
      in if abs_p > abs_m then cv_plus_value c
         else if abs_p < abs_m then cv_minus_value c
         else case cv_last_sign c of
                sign_zero \<Rightarrow> 0
              | sign_plus \<Rightarrow> cv_plus_value c
              | sign_minus \<Rightarrow> cv_minus_value c)"

subsection \<open>counter\<close>

datatype counter_direction = cd_none | cd_vertical | cd_horizontal

record counter_entry =
  ce_x :: int
  ce_y :: int
  ce_time_point :: milliseconds

record scroll_arithmetic =
  sca_divide :: "rat \<Rightarrow> rat \<Rightarrow> rat"
  sca_times :: "rat \<Rightarrow> rat \<Rightarrow> rat"
  sca_pow4 :: "rat \<Rightarrow> rat"
  sca_int :: "rat \<Rightarrow> int"

text \<open>
  \<open>momentum_minus_\<close> has no initial value in the constructor; \<open>process_entries\<close> sets it before the
  totals can differ from zero. The last field tells whether the timer runs.
\<close>

record scroll_counter =
  sc_entries :: "counter_entry list"
  sc_last_entry_time_point :: "milliseconds option"
  sc_last_scroll_time_point :: "milliseconds option"
  sc_counter_direction :: counter_direction
  sc_chunks_x :: "(milliseconds \<times> int) list"
  sc_chunks_y :: "(milliseconds \<times> int) list"
  sc_total_x :: int
  sc_total_y :: int
  sc_momentum_x :: int
  sc_momentum_y :: int
  sc_momentum_minus :: int
  sc_momentum_count :: int
  sc_momentum_wait :: int
  sc_timer :: bool

definition scroll_counter_initial :: "int \<Rightarrow> scroll_counter" where
  "scroll_counter_initial momentum_minus =
     \<lparr>sc_entries = [], sc_last_entry_time_point = None, sc_last_scroll_time_point = None,
      sc_counter_direction = cd_none, sc_chunks_x = [], sc_chunks_y = [], sc_total_x = 0, sc_total_y = 0,
      sc_momentum_x = 0, sc_momentum_y = 0, sc_momentum_minus = momentum_minus,
      sc_momentum_count = 0, sc_momentum_wait = 0, sc_timer = False\<rparr>"

definition counter_update :: "pointing_motion \<Rightarrow> milliseconds \<Rightarrow> scroll_counter \<Rightarrow> scroll_counter" where
  "counter_update m t c =
     c\<lparr>sc_entries := sc_entries c @ [\<lparr>ce_x = pm_x m, ce_y = pm_y m, ce_time_point = t\<rparr>], sc_timer := True\<rparr>"

text \<open>The timer keeps running and \<open>momentum_minus_\<close> its value.\<close>

definition counter_reset :: "scroll_counter \<Rightarrow> scroll_counter" where
  "counter_reset c = (scroll_counter_initial (sc_momentum_minus c))\<lparr>sc_timer := sc_timer c\<rparr>"

subsection \<open>process_entries\<close>

definition erase_chunks :: "scroll_options \<Rightarrow> milliseconds \<Rightarrow> (milliseconds \<times> int) list \<Rightarrow> (milliseconds \<times> int) list" where
  "erase_chunks o' t cs =
     filter (\<lambda>p. \<not> (t - fst p > so_recent_time_duration o' * so_direction_lock_threshold o')) cs"

definition accumulate_abs :: "(milliseconds \<times> int) list \<Rightarrow> int" where
  "accumulate_abs cs = foldl (\<lambda>a b. a + \<bar>snd b\<bar>) 0 cs"

text \<open>The loop that takes the entries of the first chunk.\<close>

fun take_chunk ::
    "milliseconds \<Rightarrow> milliseconds \<Rightarrow> counter_entry list \<Rightarrow> chunk_value \<times> chunk_value \<times> milliseconds option \<Rightarrow>
     counter_entry list \<times> chunk_value \<times> chunk_value \<times> milliseconds option" where
  "take_chunk front recent [] acc = ([], acc)"
| "take_chunk front recent (e # es) (cx, cy, latest) =
     (if ce_time_point e - front \<le> recent
      then take_chunk front recent es (cv_add (ce_x e) cx, cv_add (ce_y e) cy, Some (ce_time_point e))
      else (e # es, cx, cy, latest))"

definition reset_direction :: "scroll_counter \<Rightarrow> scroll_counter" where
  "reset_direction c =
     (let tx = accumulate_abs (sc_chunks_x c); ty = accumulate_abs (sc_chunks_y c)
      in case sc_counter_direction c of
           cd_horizontal \<Rightarrow> if ty > tx then c\<lparr>sc_counter_direction := cd_none\<rparr> else c
         | cd_vertical \<Rightarrow> if tx > ty then c\<lparr>sc_counter_direction := cd_none\<rparr> else c
         | cd_none \<Rightarrow> c)"

definition set_direction :: "scroll_options \<Rightarrow> chunk_value \<Rightarrow> chunk_value \<Rightarrow> scroll_counter \<Rightarrow> scroll_counter" where
  "set_direction o' cx cy c =
     (if sc_counter_direction c = cd_none
      then c\<lparr>sc_counter_direction := (if cv_abs_total cx > cv_abs_total cy then cd_horizontal else cd_vertical),
             sc_total_x := 0, sc_total_y := 0, sc_momentum_x := 0, sc_momentum_y := 0,
             sc_momentum_minus := so_threshold o'\<rparr>
      else c)"

text \<open>The resets when a value has another sign than its total; both results are needed later.\<close>

definition reset_changed_signs ::
    "scroll_options \<Rightarrow> int \<Rightarrow> int \<Rightarrow> bool \<times> scroll_counter \<Rightarrow> bool \<times> scroll_counter" where
  "reset_changed_signs o' x y s =
     (let s1 = (if x \<noteq> 0 \<and> make_sign (sc_total_x (snd s)) \<noteq> make_sign x
                then (True, (snd s)\<lparr>sc_total_x := 0, sc_momentum_x := 0, sc_momentum_minus := so_threshold o'\<rparr>)
                else s)
      in if y \<noteq> 0 \<and> make_sign (sc_total_y (snd s1)) \<noteq> make_sign y
         then (True, (snd s1)\<lparr>sc_total_y := 0, sc_momentum_y := 0, sc_momentum_minus := so_threshold o'\<rparr>)
         else s1)"

definition enlarge :: "int \<Rightarrow> int \<Rightarrow> int" where
  "enlarge least v = (if 0 < v then max v least else if v < 0 then min v (- least) else v)"

definition enlarge_totals :: "scroll_options \<Rightarrow> scroll_counter \<Rightarrow> scroll_counter" where
  "enlarge_totals o' c =
     (let least = (if so_threshold o' = 0 then 1 else so_threshold o')
      in c\<lparr>sc_total_x := enlarge least (sc_total_x c), sc_total_y := enlarge least (sc_total_y c)\<rparr>)"

definition momentum_minus_of :: "scroll_arithmetic \<Rightarrow> scroll_options \<Rightarrow> int \<Rightarrow> int \<Rightarrow> int" where
  "momentum_minus_of S o' tx ty =
     (let value = sca_divide S (of_int (max \<bar>tx\<bar> \<bar>ty\<bar>)) (of_int (so_threshold o'));
          value' = (if value > 10 then 10 else value);
          minus = sca_int S (sca_divide S (of_int (so_threshold o')) (sca_pow4 S value'))
      in if minus \<le> 0 then 1 else minus)"

text \<open>\<open>x *= multiplier\<close> converts the product back to \<open>int\<close>.\<close>

definition multiply_assign :: "scroll_arithmetic \<Rightarrow> rat \<Rightarrow> int \<Rightarrow> int" where
  "multiply_assign S multiplier x = sca_int S (sca_times S (of_int x) multiplier)"

text \<open>The first chunk and the counter without it; the flag tells that no recent chunk was left.\<close>

definition gather_chunk ::
    "scroll_options \<Rightarrow> milliseconds \<Rightarrow> scroll_counter \<Rightarrow> bool \<times> chunk_value \<times> chunk_value \<times> scroll_counter" where
  "gather_chunk o' front c =
     (let cs_x = erase_chunks o' front (sc_chunks_x c);
          cs_y = erase_chunks o' front (sc_chunks_y c);
          initial = (cs_x = [] \<and> cs_y = [])
      in case take_chunk front (so_recent_time_duration o') (sc_entries c)
                (chunk_value_initial, chunk_value_initial, sc_last_entry_time_point c) of
           (es, chunk_x, chunk_y, latest) \<Rightarrow>
             (initial, chunk_x, chunk_y,
              c\<lparr>sc_entries := es, sc_last_entry_time_point := latest,
                sc_counter_direction := (if initial then cd_none else sc_counter_direction c),
                sc_chunks_x := cs_x @ [(front, make_accumulated_value chunk_x)],
                sc_chunks_y := cs_y @ [(front, make_accumulated_value chunk_y)]\<rparr>))"

text \<open>\<open>rate\<close> is \<open>make_mouse_motion_to_scroll_speed_rate\<close> of the profile's parameters.\<close>

definition accumulate_totals ::
    "scroll_arithmetic \<Rightarrow> rat \<Rightarrow> scroll_options \<Rightarrow> int \<Rightarrow> int \<Rightarrow> scroll_counter \<Rightarrow> scroll_counter" where
  "accumulate_totals S rate o' x y c =
     (let multiplier = sca_times S rate (so_speed_multiplier o')
      in c\<lparr>sc_total_x := sc_total_x c + multiply_assign S multiplier x,
           sc_total_y := sc_total_y c + multiply_assign S multiplier y\<rparr>)"

definition update_momentum :: "scroll_arithmetic \<Rightarrow> scroll_options \<Rightarrow> bool \<Rightarrow> scroll_counter \<Rightarrow> scroll_counter" where
  "update_momentum S o' initial c =
     (if sc_total_x c = 0 \<and> sc_total_y c = 0 then c
      else (let c1 = (if initial then enlarge_totals o' c else c)
            in c1\<lparr>sc_momentum_minus :=
                    min (sc_momentum_minus c1) (momentum_minus_of S o' (sc_total_x c1) (sc_total_y c1)),
                  sc_last_scroll_time_point := None, sc_momentum_count := 0, sc_momentum_wait := 0\<rparr>))"

definition process_chunk ::
    "scroll_arithmetic \<Rightarrow> rat \<Rightarrow> scroll_options \<Rightarrow> milliseconds \<Rightarrow> scroll_counter \<Rightarrow> scroll_counter" where
  "process_chunk S rate o' front c =
     (case gather_chunk o' front c of
        (initial, chunk_x, chunk_y, c1) \<Rightarrow>
          (let c2 = set_direction o' chunk_x chunk_y (reset_direction c1);
               x = (if sc_counter_direction c2 = cd_vertical then 0 else make_accumulated_value chunk_x);
               y = (if sc_counter_direction c2 = cd_horizontal then 0 else make_accumulated_value chunk_y)
           in case reset_changed_signs o' x y (initial, c2) of
                (initial', c3) \<Rightarrow> update_momentum S o' initial' (accumulate_totals S rate o' x y c3)))"

definition process_entries ::
    "scroll_arithmetic \<Rightarrow> rat \<Rightarrow> scroll_options \<Rightarrow> milliseconds \<Rightarrow> scroll_counter \<Rightarrow> bool \<times> scroll_counter" where
  "process_entries S rate o' now c =
     (case sc_entries c of
        [] \<Rightarrow> (False, c)
      | e # _ \<Rightarrow>
          (if now - ce_time_point e \<le> so_recent_time_duration o' then (True, c)
           else (True, process_chunk S rate o' (ce_time_point e) c)))"

subsection \<open>scroll\<close>

definition round_up :: "rat \<Rightarrow> int" where
  "round_up v = (if v > 0 then \<lceil>v\<rceil> else if v < 0 then \<lceil>v\<rceil> - 1 else 0)"

text \<open>
  The two loops of \<open>convert\<close>, on the value and the result. With momentum scroll they stop after one
  round. The loops may not end.
\<close>

partial_function (option) convert_down :: "int \<Rightarrow> bool \<Rightarrow> int \<times> int \<Rightarrow> (int \<times> int) option" where
  "convert_down th momentum s =
     (if fst s \<ge> th
      then (if momentum then Some (fst s - th, snd s + 1)
            else convert_down th momentum (fst s - th, snd s + 1))
      else Some s)"

partial_function (option) convert_up :: "int \<Rightarrow> bool \<Rightarrow> int \<times> int \<Rightarrow> (int \<times> int) option" where
  "convert_up th momentum s =
     (if fst s \<le> - th
      then (if momentum then Some (fst s + th, snd s - 1)
            else convert_up th momentum (fst s + th, snd s - 1))
      else Some s)"

text \<open>The new value and the result.\<close>

definition convert :: "scroll_options \<Rightarrow> int \<Rightarrow> (int \<times> int) option" where
  "convert o' v =
     (case convert_down (so_threshold o') (so_momentum_scroll_enabled o') (v, 0) of
        None \<Rightarrow> None
      | Some s \<Rightarrow> convert_up (so_threshold o') (so_momentum_scroll_enabled o') s)"

definition reduce :: "int \<Rightarrow> int \<Rightarrow> int" where
  "reduce v amount =
     (if v > 0 then v - min amount v else if v < 0 then v + min amount (- v) else v)"

text \<open>
  The result of \<open>scroll\<close>: whether the timer continues, the motion for \<open>scroll_event_arrived\<close>, the
  counter. \<open>momentum_count_\<close> would have to overflow to become zero after the increment.
\<close>

definition scroll_scale :: "scroll_arithmetic \<Rightarrow> scroll_options \<Rightarrow> int \<Rightarrow> rat" where
  "scroll_scale S o' momentum_count =
     (if \<not> so_momentum_scroll_enabled o' \<and> momentum_count > 1 then 0
      else sca_divide S 1 (of_int momentum_count))"

definition scroll ::
    "scroll_arithmetic \<Rightarrow> scroll_options \<Rightarrow> milliseconds \<Rightarrow> scroll_counter \<Rightarrow>
     (bool \<times> pointing_motion option \<times> scroll_counter) option" where
  "scroll S o' now c =
     (if sc_momentum_wait c > 0
      then Some (True, None, c\<lparr>sc_momentum_wait := sc_momentum_wait c - 1\<rparr>)
      else
        (let n = sc_momentum_count c + 1; c1 = c\<lparr>sc_momentum_count := n\<rparr>
         in if n = 0 then Some (False, None, c1)
            else if (case sc_last_scroll_time_point c of
                       None \<Rightarrow> False
                     | Some t \<Rightarrow> now - t > so_scroll_event_interval_threshold o')
            then Some (False, None, c1)
            else
              (let scale = scroll_scale S o' n;
                   mx = sc_momentum_x c + round_up (sca_times S (of_int (sc_total_x c)) scale);
                   my = sc_momentum_y c + round_up (sca_times S (of_int (sc_total_y c)) scale)
               in case (convert o' mx, convert o' my) of
                    (Some (mx', x), Some (my', y)) \<Rightarrow>
                      (let tx = reduce (sc_total_x c) (sc_momentum_minus c);
                           ty = reduce (sc_total_y c) (sc_momentum_minus c);
                           moved = (x \<noteq> 0 \<or> y \<noteq> 0);
                           motion = (if moved
                                     then Some \<lparr>pm_x = 0, pm_y = 0, pm_vertical_wheel = - y, pm_horizontal_wheel = x\<rparr>
                                     else None);
                           c2 = c1\<lparr>sc_momentum_x := mx', sc_momentum_y := my', sc_total_x := tx, sc_total_y := ty,
                                   sc_last_scroll_time_point := (if moved then Some now else sc_last_scroll_time_point c)\<rparr>
                       in if tx = 0 \<and> ty = 0 then Some (False, motion, c2)
                          else Some (True, motion,
                                 if so_momentum_scroll_enabled o' then c2\<lparr>sc_momentum_wait := min n 10\<rparr> else c2))
                  | _ \<Rightarrow> None)))"

text \<open>One run of the timer.\<close>

definition counter_timer ::
    "scroll_arithmetic \<Rightarrow> rat \<Rightarrow> scroll_options \<Rightarrow> milliseconds \<Rightarrow> scroll_counter \<Rightarrow>
     (pointing_motion option \<times> scroll_counter) option" where
  "counter_timer S rate o' now c =
     (if \<not> sc_timer c then Some (None, c)
      else case process_entries S rate o' now c of
             (b1, c1) \<Rightarrow>
               (case scroll S o' now c1 of
                  None \<Rightarrow> None
                | Some (b2, motion, c2) \<Rightarrow> Some (motion, c2\<lparr>sc_timer := (b1 \<or> b2)\<rparr>)))"

subsection \<open>Rounding and conversion\<close>

text \<open>
  \<open>round_up\<close> moves away from zero, but a negative value without a fraction is moved by one as well.
\<close>

lemma round_up_integers:
  "round_up (of_int n) = (if n < 0 then n - 1 else n)"
  by (simp add: round_up_def)

lemma round_up_zero [simp]: "round_up 0 = 0"
  by (simp add: round_up_def)

lemma reduce_abs:
  assumes "1 \<le> amount"
  shows "\<bar>reduce v amount\<bar> \<le> \<bar>v\<bar>" "v \<noteq> 0 \<Longrightarrow> \<bar>reduce v amount\<bar> \<le> \<bar>v\<bar> - 1"
  using assms by (auto simp: reduce_def min_def)

lemma reduce_zero [simp]: "reduce 0 a = 0"
  by (simp add: reduce_def)

lemma convert_down_ends:
  assumes "0 < th"
  shows "\<exists>s'. convert_down th momentum s = Some s'"
proof (induction "nat (fst s)" arbitrary: s rule: less_induct)
  case less
  show ?case
  proof (cases "fst s \<ge> th \<and> \<not> momentum")
    case True
    then show ?thesis using True assms less[of "(fst s - th, snd s + 1)"] by (subst convert_down.simps) auto
  next
    case False
    then show ?thesis using assms by (subst convert_down.simps) auto
  qed
qed

lemma convert_up_ends:
  assumes "0 < th"
  shows "\<exists>s'. convert_up th momentum s = Some s'"
proof (induction "nat (- fst s)" arbitrary: s rule: less_induct)
  case less
  show ?case
  proof (cases "fst s \<le> - th \<and> \<not> momentum")
    case True
    then show ?thesis using assms less[of "(fst s + th, snd s - 1)"] by (subst convert_up.simps) auto
  next
    case False
    then show ?thesis by (subst convert_up.simps) auto
  qed
qed

lemma convert_ends: "0 < so_threshold o' \<Longrightarrow> \<exists>v' r. convert o' v = Some (v', r)"
  using convert_down_ends[of "so_threshold o'" "so_momentum_scroll_enabled o'" "(v, 0)"]
    convert_up_ends[of "so_threshold o'" "so_momentum_scroll_enabled o'"]
  by (fastforce simp: convert_def)

lemma convert_zero: "0 < so_threshold o' \<Longrightarrow> convert o' 0 = Some (0, 0)"
  by (simp add: convert_def convert_down.simps[of _ _ "(0, 0)"] convert_up.simps[of _ _ "(0, 0)"])

subsection \<open>Runs of the counter\<close>

text \<open>
  The motions a run sends with the counter it leaves. Zero is exact in floating point arithmetic.
\<close>

definition zero_is_exact :: "scroll_arithmetic \<Rightarrow> bool" where
  "zero_is_exact S \<longleftrightarrow> (\<forall>r. sca_times S 0 r = 0) \<and> sca_int S 0 = 0"

inductive counter_run ::
    "scroll_arithmetic \<Rightarrow> rat \<Rightarrow> scroll_options \<Rightarrow> scroll_counter \<Rightarrow> pointing_motion list \<Rightarrow> bool" for S rate o' where
  ct_start: "counter_run S rate o' (scroll_counter_initial m) []"
| ct_update: "counter_run S rate o' c ms \<Longrightarrow> counter_run S rate o' (counter_update m t c) ms"
| ct_reset: "counter_run S rate o' c ms \<Longrightarrow> counter_run S rate o' (counter_reset c) ms"
| ct_timer: "counter_run S rate o' c ms \<Longrightarrow> counter_timer S rate o' now c = Some (motion, c') \<Longrightarrow>
    counter_run S rate o' c' (ms @ (case motion of None \<Rightarrow> [] | Some m \<Rightarrow> [m]))"

definition counter_inv :: "scroll_counter \<Rightarrow> bool" where
  "counter_inv c \<longleftrightarrow>
     (sc_counter_direction c \<noteq> cd_none \<longrightarrow> 1 \<le> sc_momentum_minus c)
     \<and> (sc_counter_direction c \<noteq> cd_vertical \<longrightarrow> sc_total_y c = 0 \<and> sc_momentum_y c = 0)
     \<and> (sc_counter_direction c \<noteq> cd_horizontal \<longrightarrow> sc_total_x c = 0 \<and> sc_momentum_x c = 0)
     \<and> 0 \<le> sc_momentum_count c \<and> 0 \<le> sc_momentum_wait c"

lemma reset_direction_fields [simp]:
  "sc_momentum_count (reset_direction c) = sc_momentum_count c"
  "sc_momentum_wait (reset_direction c) = sc_momentum_wait c"
  by (simp_all add: reset_direction_def Let_def split: counter_direction.splits)

lemma set_direction_inv:
  assumes "0 < so_threshold o'" "counter_inv c \<or> sc_counter_direction c = cd_none \<and> 0 \<le> sc_momentum_count c \<and> 0 \<le> sc_momentum_wait c"
  shows "counter_inv (set_direction o' cx cy c)" "sc_counter_direction (set_direction o' cx cy c) \<noteq> cd_none"
  using assms by (auto simp: set_direction_def counter_inv_def)

lemma reset_direction_inv:
  assumes "counter_inv c \<or> sc_counter_direction c = cd_none"
  shows "counter_inv (reset_direction c) \<or> sc_counter_direction (reset_direction c) = cd_none"
  using assms by (cases "sc_counter_direction c") (auto simp: reset_direction_def Let_def)

lemma reset_changed_signs_inv:
  assumes "0 < so_threshold o'" "counter_inv (snd s)"
  shows "counter_inv (snd (reset_changed_signs o' x y s))"
    "sc_counter_direction (snd (reset_changed_signs o' x y s)) = sc_counter_direction (snd s)"
  using assms by (auto simp: reset_changed_signs_def counter_inv_def Let_def)

lemma enlarge_zero [simp]: "enlarge l 0 = 0"
  by (simp add: enlarge_def)

lemma momentum_minus_of_positive: "1 \<le> momentum_minus_of S o' tx ty"
  by (simp add: momentum_minus_of_def Let_def)

lemma gather_chunk_inv:
  assumes "counter_inv c" "gather_chunk o' front c = (initial, cx, cy, c1)"
  shows "counter_inv c1 \<or> sc_counter_direction c1 = cd_none"
    "0 \<le> sc_momentum_count c1" "0 \<le> sc_momentum_wait c1"
  using assms by (auto simp: gather_chunk_def Let_def counter_inv_def split: prod.splits if_splits)

lemma update_momentum_inv:
  assumes "counter_inv c"
  shows "counter_inv (update_momentum S o' initial c)"
proof -
  have "counter_inv (enlarge_totals o' c)"
    using assms by (auto simp: enlarge_totals_def counter_inv_def Let_def)
  then show ?thesis
    using assms momentum_minus_of_positive[of S o'] by (auto simp: update_momentum_def counter_inv_def Let_def)
qed

lemma process_chunk_inv:
  assumes th: "0 < so_threshold o'" and z: "zero_is_exact S" and inv: "counter_inv c"
  shows "counter_inv (process_chunk S rate o' front c)"
proof -
  obtain initial cx cy c1 where g: "gather_chunk o' front c = (initial, cx, cy, c1)" by (metis prod_cases4)
  define c2 where "c2 = set_direction o' cx cy (reset_direction c1)"
  define x where "x = (if sc_counter_direction c2 = cd_vertical then 0 else make_accumulated_value cx)"
  define y where "y = (if sc_counter_direction c2 = cd_horizontal then 0 else make_accumulated_value cy)"
  obtain initial' c3 where r: "reset_changed_signs o' x y (initial, c2) = (initial', c3)" by force
  note g1 = gather_chunk_inv[OF inv g]
  from reset_direction_inv[OF g1(1)] have i2: "counter_inv c2" and d2: "sc_counter_direction c2 \<noteq> cd_none"
    unfolding c2_def using set_direction_inv[OF th] g1(2,3) by auto
  have i3: "counter_inv c3" and d3: "sc_counter_direction c3 = sc_counter_direction c2"
    using reset_changed_signs_inv[OF th, of "(initial, c2)" x y] i2 r by simp_all
  have "multiply_assign S mu 0 = 0" for mu using z by (simp add: multiply_assign_def zero_is_exact_def)
  then have "counter_inv (accumulate_totals S rate o' x y c3)"
    using i3 d3 d2 unfolding accumulate_totals_def x_def y_def counter_inv_def Let_def
    by (cases "sc_counter_direction c2") auto
  moreover have "process_chunk S rate o' front c = update_momentum S o' initial' (accumulate_totals S rate o' x y c3)"
    unfolding process_chunk_def g prod.case Let_def c2_def[symmetric] x_def[symmetric] y_def[symmetric] r ..
  ultimately show ?thesis by (simp add: update_momentum_inv)
qed

lemma process_entries_inv:
  assumes "0 < so_threshold o'" "zero_is_exact S" "counter_inv c"
  shows "counter_inv (snd (process_entries S rate o' now c))"
  using process_chunk_inv[OF assms] assms(3) by (simp add: process_entries_def split: list.split)

text \<open>A call of \<open>scroll\<close> returns, keeps the invariant and sends motions along one axis.\<close>

lemma scroll_result:
  assumes th: "0 < so_threshold o'" and z: "zero_is_exact S" and inv: "counter_inv c"
  obtains b motion c' where "scroll S o' now c = Some (b, motion, c')" "counter_inv c'"
    "\<And>m. motion = Some m \<Longrightarrow> pm_vertical_wheel m = 0 \<or> pm_horizontal_wheel m = 0"
    "b \<Longrightarrow> 11 * (\<bar>sc_total_x c'\<bar> + \<bar>sc_total_y c'\<bar>) + sc_momentum_wait c'
      < 11 * (\<bar>sc_total_x c\<bar> + \<bar>sc_total_y c\<bar>) + sc_momentum_wait c"
    "sc_entries c' = sc_entries c"
proof (cases "sc_momentum_wait c > 0")
  case True
  then show ?thesis
    using inv by (intro that[of True None "c\<lparr>sc_momentum_wait := sc_momentum_wait c - 1\<rparr>"])
      (auto simp: scroll_def counter_inv_def)
next
  case wait: False
  let ?n = "sc_momentum_count c + 1"
  let ?c1 = "c\<lparr>sc_momentum_count := ?n\<rparr>"
  have n: "?n \<noteq> 0" using inv by (simp add: counter_inv_def)
  show ?thesis
  proof (cases "case sc_last_scroll_time_point c of None \<Rightarrow> False
      | Some t \<Rightarrow> now - t > so_scroll_event_interval_threshold o'")
    case True
    then show ?thesis
      using inv wait n by (intro that[of False None ?c1]) (auto simp: scroll_def counter_inv_def Let_def)
  next
    case late: False
    let ?scale = "scroll_scale S o' ?n"
    let ?mx = "sc_momentum_x c + round_up (sca_times S (of_int (sc_total_x c)) ?scale)"
    let ?my = "sc_momentum_y c + round_up (sca_times S (of_int (sc_total_y c)) ?scale)"
    let ?tx = "reduce (sc_total_x c) (sc_momentum_minus c)"
    let ?ty = "reduce (sc_total_y c) (sc_momentum_minus c)"
    obtain mx x where x: "convert o' ?mx = Some (mx, x)" using convert_ends[OF th] by blast
    obtain my y where y: "convert o' ?my = Some (my, y)" using convert_ends[OF th] by blast
    have y0: "my = 0" "y = 0" "sc_total_y c = 0" if "sc_counter_direction c \<noteq> cd_vertical"
      using that inv y z convert_zero[OF th] by (simp_all add: counter_inv_def zero_is_exact_def)
    have x0: "mx = 0" "x = 0" "sc_total_x c = 0" if "sc_counter_direction c \<noteq> cd_horizontal"
      using that inv x z convert_zero[OF th] by (simp_all add: counter_inv_def zero_is_exact_def)
    define motion where "motion = (if x \<noteq> 0 \<or> y \<noteq> 0
        then Some \<lparr>pm_x = 0, pm_y = 0, pm_vertical_wheel = - y, pm_horizontal_wheel = x\<rparr> else None)"
    define c2 where "c2 = ?c1\<lparr>sc_momentum_x := mx, sc_momentum_y := my, sc_total_x := ?tx, sc_total_y := ?ty,
        sc_last_scroll_time_point := (if x \<noteq> 0 \<or> y \<noteq> 0 then Some now else sc_last_scroll_time_point c)\<rparr>"
    define c3 where "c3 = (if so_momentum_scroll_enabled o' then c2\<lparr>sc_momentum_wait := min ?n 10\<rparr> else c2)"
    have result: "scroll S o' now c =
        (if ?tx = 0 \<and> ?ty = 0 then Some (False, motion, c2) else Some (True, motion, c3))"
      using wait late n x y by (simp add: scroll_def Let_def motion_def c2_def c3_def)
    have axis: "pm_vertical_wheel m = 0 \<or> pm_horizontal_wheel m = 0" if "motion = Some m" for m
      using that x0(2) y0(2) by (cases "sc_counter_direction c") (auto simp: motion_def split: if_splits)
    have i2: "counter_inv c2"
      using inv x0 y0 by (auto simp: counter_inv_def c2_def)
    then have i3: "counter_inv c3" by (auto simp: counter_inv_def c3_def c2_def)
    have less: "11 * (\<bar>?tx\<bar> + \<bar>?ty\<bar>) + 10 < 11 * (\<bar>sc_total_x c\<bar> + \<bar>sc_total_y c\<bar>)"
      if "\<not> (?tx = 0 \<and> ?ty = 0)"
    proof -
      have nz: "sc_total_x c \<noteq> 0 \<or> sc_total_y c \<noteq> 0" using that by auto
      then have mm: "1 \<le> sc_momentum_minus c" using inv by (auto simp: counter_inv_def)
      have "\<bar>?tx\<bar> + \<bar>?ty\<bar> \<le> \<bar>sc_total_x c\<bar> + \<bar>sc_total_y c\<bar> - 1"
        using nz reduce_abs[OF mm, of "sc_total_x c"] reduce_abs[OF mm, of "sc_total_y c"]
        by (cases "sc_total_x c = 0"; cases "sc_total_y c = 0") simp_all
      moreover have "a \<le> b - 1 \<Longrightarrow> 11 * a + 10 < 11 * b" for a b :: int by simp
      ultimately show ?thesis by blast
    qed
    show ?thesis
    proof (cases "?tx = 0 \<and> ?ty = 0")
      case True
      then show ?thesis using that[of False motion c2] result i2 axis by (simp add: c2_def)
    next
      case False
      have w: "sc_momentum_wait c3 \<le> 10" "sc_total_x c3 = ?tx" "sc_total_y c3 = ?ty" "sc_entries c3 = sc_entries c"
        using wait inv by (simp_all add: c3_def c2_def counter_inv_def)
      have "11 * (\<bar>sc_total_x c3\<bar> + \<bar>sc_total_y c3\<bar>) + sc_momentum_wait c3
          < 11 * (\<bar>sc_total_x c\<bar> + \<bar>sc_total_y c\<bar>) + sc_momentum_wait c"
        using less[OF False] w inv by (simp add: counter_inv_def)
      then show ?thesis using that[of True motion c3] result i3 axis w(4) False by simp
    qed
  qed
qed

lemma counter_timer_result:
  assumes th: "0 < so_threshold o'" and z: "zero_is_exact S" and inv: "counter_inv c"
  obtains motion c' where "counter_timer S rate o' now c = Some (motion, c')" "counter_inv c'"
    "\<And>m. motion = Some m \<Longrightarrow> pm_vertical_wheel m = 0 \<or> pm_horizontal_wheel m = 0"
    "sc_entries c = [] \<Longrightarrow> sc_entries c' = []"
    "sc_entries c = [] \<Longrightarrow> sc_timer c' \<Longrightarrow>
      11 * (\<bar>sc_total_x c'\<bar> + \<bar>sc_total_y c'\<bar>) + sc_momentum_wait c'
      < 11 * (\<bar>sc_total_x c\<bar> + \<bar>sc_total_y c\<bar>) + sc_momentum_wait c"
    "\<not> sc_timer c \<Longrightarrow> c' = c"
proof (cases "sc_timer c")
  case False
  then show ?thesis using inv by (intro that[of None c]) (auto simp: counter_timer_def)
next
  case True
  obtain b1 c1 where p: "process_entries S rate o' now c = (b1, c1)" by force
  have i1: "counter_inv c1" using process_entries_inv[OF th z inv, of rate now] p by simp
  obtain b2 motion c2 where s: "scroll S o' now c1 = Some (b2, motion, c2)" "counter_inv c2"
    "\<And>m. motion = Some m \<Longrightarrow> pm_vertical_wheel m = 0 \<or> pm_horizontal_wheel m = 0"
    "b2 \<Longrightarrow> 11 * (\<bar>sc_total_x c2\<bar> + \<bar>sc_total_y c2\<bar>) + sc_momentum_wait c2
      < 11 * (\<bar>sc_total_x c1\<bar> + \<bar>sc_total_y c1\<bar>) + sc_momentum_wait c1"
    "sc_entries c2 = sc_entries c1"
    using scroll_result[OF th z i1] by metis
  have e: "b1 = False" "c1 = c" if "sc_entries c = []" using p that by (simp_all add: process_entries_def)
  have "counter_timer S rate o' now c = Some (motion, c2\<lparr>sc_timer := (b1 \<or> b2)\<rparr>)"
    using True p s(1) by (simp add: counter_timer_def)
  moreover have "counter_inv (c2\<lparr>sc_timer := (b1 \<or> b2)\<rparr>)" using s(2) by (simp add: counter_inv_def)
  moreover have "11 * (\<bar>sc_total_x c2\<bar> + \<bar>sc_total_y c2\<bar>) + sc_momentum_wait c2
      < 11 * (\<bar>sc_total_x c\<bar> + \<bar>sc_total_y c\<bar>) + sc_momentum_wait c" if "sc_entries c = []" "b1 \<or> b2"
    using s(4) e[OF that(1)] that(2) by auto
  moreover have "sc_entries c2 = []" if "sc_entries c = []" using s(5) e(2)[OF that] that by simp
  ultimately show ?thesis
    using s(3) True by (intro that[of motion "c2\<lparr>sc_timer := (b1 \<or> b2)\<rparr>"]) simp_all
qed

lemma counter_inv_start: "counter_inv (scroll_counter_initial m)"
  by (simp add: counter_inv_def scroll_counter_initial_def)

lemma counter_run_inv:
  assumes "0 < so_threshold o'" "zero_is_exact S"
  shows "counter_run S rate o' c ms \<Longrightarrow>
    counter_inv c \<and> (\<forall>m\<in>set ms. pm_vertical_wheel m = 0 \<or> pm_horizontal_wheel m = 0)"
proof (induction rule: counter_run.induct)
  case ct_start then show ?case by (simp add: counter_inv_start)
next
  case ct_update then show ?case by (simp add: counter_inv_def counter_update_def)
next
  case (ct_reset c ms)
  then show ?case using counter_inv_start by (auto simp: counter_inv_def counter_reset_def scroll_counter_initial_def)
next
  case (ct_timer c ms now motion c')
  have inv: "counter_inv c" using ct_timer.IH by simp
  show ?case
    by (rule counter_timer_result[OF assms inv, of rate now])
       (use ct_timer in \<open>auto split: option.splits\<close>)
qed

text \<open>
  Scrolling is not diagonal: whatever motions arrive and whenever the counter is reset or its timer
  runs, a scroll motion it sends turns either the vertical or the horizontal wheel, because the
  direction lock clears the other axis.
\<close>

theorem scroll_motions_follow_one_axis:
  assumes "counter_run S rate o' c ms" "scroll_options_reachable o'" "zero_is_exact S"
  shows "\<forall>m\<in>set ms. pm_vertical_wheel m = 0 \<or> pm_horizontal_wheel m = 0"
  using counter_run_inv[OF _ assms(3,1)] scroll_options_positive[OF assms(2)] by blast

text \<open>Running the timer at the given times.\<close>

fun counter_timers ::
    "scroll_arithmetic \<Rightarrow> rat \<Rightarrow> scroll_options \<Rightarrow> milliseconds list \<Rightarrow> scroll_counter \<Rightarrow> scroll_counter option" where
  "counter_timers S rate o' [] c = Some c"
| "counter_timers S rate o' (now # nows) c =
     (case counter_timer S rate o' now c of
        None \<Rightarrow> None
      | Some (motion, c') \<Rightarrow> counter_timers S rate o' nows c')"

lemma counter_timers_stop:
  assumes th: "0 < so_threshold o'" and z: "zero_is_exact S"
  shows "counter_inv c \<Longrightarrow> sc_entries c = [] \<Longrightarrow>
    11 * (\<bar>sc_total_x c\<bar> + \<bar>sc_total_y c\<bar>) + sc_momentum_wait c < int (length nows) \<Longrightarrow>
    \<exists>c'. counter_timers S rate o' nows c = Some c' \<and> \<not> sc_timer c'"
proof (induction nows arbitrary: c)
  case Nil
  then show ?case by (auto simp: counter_inv_def)
next
  case (Cons now nows)
  obtain motion c' where t: "counter_timer S rate o' now c = Some (motion, c')" "counter_inv c'"
    "sc_entries c' = []" "sc_timer c' \<Longrightarrow>
      11 * (\<bar>sc_total_x c'\<bar> + \<bar>sc_total_y c'\<bar>) + sc_momentum_wait c'
      < 11 * (\<bar>sc_total_x c\<bar> + \<bar>sc_total_y c\<bar>) + sc_momentum_wait c"
    using counter_timer_result[OF th z Cons.prems(1), of rate now] Cons.prems(2) by metis
  show ?case
  proof (cases "sc_timer c'")
    case True
    then have "11 * (\<bar>sc_total_x c'\<bar> + \<bar>sc_total_y c'\<bar>) + sc_momentum_wait c' < int (length nows)"
      using t(4) Cons.prems(3) by simp
    then show ?thesis using Cons.IH[OF t(2,3)] t(1) by simp
  next
    case False
    then have "counter_timers S rate o' nows c' = Some c'"
      by (induction nows) (simp_all add: counter_timer_def)
    then show ?thesis using False t(1) by simp
  qed
qed

text \<open>
  C40. Scrolling stops: once every arrived motion was processed, the loops of the counter end on every
  run of its timer, and after more runs than eleven times the totals plus the waiting time the timer
  has stopped, because every run that scrolls lowers a total by at least one and waits at most ten
  runs.
\<close>

theorem scroll_timer_stops:
  assumes "counter_run S rate o' c ms" "scroll_options_reachable o'" "zero_is_exact S" "sc_entries c = []"
    and "11 * (\<bar>sc_total_x c\<bar> + \<bar>sc_total_y c\<bar>) + sc_momentum_wait c < int (length nows)"
  shows "\<exists>c'. counter_timers S rate o' nows c = Some c' \<and> \<not> sc_timer c'"
  using counter_timers_stop[OF _ assms(3) _ assms(4,5)] counter_run_inv[OF _ assms(3,1)]
    scroll_options_positive[OF assms(2)] by blast

subsection \<open>Witnesses and edges\<close>

definition exact_scroll_arithmetic :: "(rat \<Rightarrow> int) \<Rightarrow> scroll_arithmetic" where
  "exact_scroll_arithmetic overflow =
     \<lparr>sca_divide = (/), sca_times = (*), sca_pow4 = (\<lambda>r. r ^ 4),
      sca_int = fp_to_int \<lparr>fp_multiply = (\<lambda>i r. of_int i * r), fp_int_overflow = overflow\<rparr>\<rparr>"

lemma exact_zero: "zero_is_exact (exact_scroll_arithmetic f)"
  by (simp add: zero_is_exact_def exact_scroll_arithmetic_def fp_to_int_def rat_truncate_def)

text \<open>
  With totals of 1 or 2 and the default threshold, the quotient whose conversion to \<open>int\<close> lowers the
  momentum is at least 2 to the power of 31, so the conversion is undefined in C++.
\<close>

lemma small_totals_overflow:
  "momentum_minus_of (exact_scroll_arithmetic f) scroll_options_default 2 0 =
     (if f (2 ^ 31) \<le> 0 then 1 else f (2 ^ 31))"
proof -
  have "(128 :: rat) / (2 / 128) ^ 4 = 2 ^ 31" by (simp add: power_divide)
  then show ?thesis
    by (simp add: momentum_minus_of_def exact_scroll_arithmetic_def scroll_options_default_def fp_to_int_def
        rat_truncate_def Let_def)
qed

text \<open>A motion of 200 to the right, after its chunk was processed once.\<close>

definition sample_scroll_start :: scroll_counter where
  "sample_scroll_start =
     counter_update \<lparr>pm_x = 200, pm_y = 3, pm_vertical_wheel = 0, pm_horizontal_wheel = 0\<rparr> 1000
       (scroll_counter_initial 0)"

definition sample_scroll_counter :: scroll_counter where
  "sample_scroll_counter =
     (let c = process_chunk (exact_scroll_arithmetic (\<lambda>_. 0)) 1 scroll_options_default 1000 sample_scroll_start
      in c\<lparr>sc_momentum_count := 1, sc_momentum_x := 72, sc_total_x := 179, sc_momentum_wait := 1,
           sc_last_scroll_time_point := Some 1200\<rparr>)"

lemma convert_momentum:
  "so_momentum_scroll_enabled o' \<Longrightarrow> 0 < so_threshold o' \<Longrightarrow> 0 \<le> v \<Longrightarrow>
   convert o' v = Some (if so_threshold o' \<le> v then (v - so_threshold o', 1) else (v, 0))"
  by (simp add: convert_def convert_down.simps[of _ _ "(v, 0)"] convert_up.simps[of _ _ "(v, 0)"]
      convert_up.simps[of _ _ "(v - so_threshold o', 1)"])

lemma sample_scroll_chunk:
  "process_chunk (exact_scroll_arithmetic (\<lambda>_. 0)) 1 scroll_options_default 1000 sample_scroll_start =
     sample_scroll_start\<lparr>sc_entries := [], sc_last_entry_time_point := Some 1000,
       sc_counter_direction := cd_horizontal, sc_chunks_x := [(1000, 200)], sc_chunks_y := [(1000, 3)],
       sc_total_x := 200, sc_momentum_minus := 21\<rparr>"
proof -
  have q: "(128 :: rat) / (25 / 16) ^ 4 = 8388608 / 390625" by (simp add: power_divide)
  have f: "\<lfloor>8388608 / 390625 :: rat\<rfloor> = 21" by (simp add: floor_eq_iff)
  have m: "momentum_minus_of (exact_scroll_arithmetic (\<lambda>_. 0)) scroll_options_default 200 0 = 21"
    by (simp add: momentum_minus_of_def exact_scroll_arithmetic_def scroll_options_default_def fp_to_int_def
        rat_truncate_def Let_def q f)
  have "multiply_assign (exact_scroll_arithmetic (\<lambda>_. 0)) 1 200 = 200"
    "multiply_assign (exact_scroll_arithmetic (\<lambda>_. 0)) 1 0 = 0"
    by (simp_all add: multiply_assign_def exact_scroll_arithmetic_def fp_to_int_def rat_truncate_def)
  then show ?thesis
    using m
    by (simp add: process_chunk_def gather_chunk_def sample_scroll_start_def counter_update_def
        scroll_counter_initial_def erase_chunks_def cv_add_def chunk_value_initial_def make_accumulated_value_def
        reset_direction_def set_direction_def reset_changed_signs_def make_sign_def accumulate_totals_def
        update_momentum_def enlarge_totals_def enlarge_def scroll_options_default_def Let_def
        exact_scroll_arithmetic_def)
qed

lemma sample_scroll_timer:
  "counter_timer (exact_scroll_arithmetic (\<lambda>_. 0)) 1 scroll_options_default 1200 sample_scroll_start =
     Some (Some \<lparr>pm_x = 0, pm_y = 0, pm_vertical_wheel = 0, pm_horizontal_wheel = 1\<rparr>, sample_scroll_counter)"
proof -
  have p: "process_entries (exact_scroll_arithmetic (\<lambda>_. 0)) 1 scroll_options_default 1200 sample_scroll_start =
      (True, process_chunk (exact_scroll_arithmetic (\<lambda>_. 0)) 1 scroll_options_default 1000 sample_scroll_start)"
    by (simp add: process_entries_def sample_scroll_start_def counter_update_def scroll_counter_initial_def
        scroll_options_default_def)
  show ?thesis
    unfolding counter_timer_def p sample_scroll_counter_def sample_scroll_chunk Let_def
    by (simp add: scroll_def Let_def sample_scroll_start_def counter_update_def scroll_counter_initial_def
        convert_momentum scroll_options_default_def scroll_scale_def exact_scroll_arithmetic_def round_up_def
        reduce_def)
qed

lemma sample_scroll_run:
  "counter_run (exact_scroll_arithmetic (\<lambda>_. 0)) 1 scroll_options_default sample_scroll_counter
     [\<lparr>pm_x = 0, pm_y = 0, pm_vertical_wheel = 0, pm_horizontal_wheel = 1\<rparr>]"
proof -
  have "counter_run (exact_scroll_arithmetic (\<lambda>_. 0)) 1 scroll_options_default sample_scroll_start []"
    unfolding sample_scroll_start_def by (intro ct_update ct_start)
  from ct_timer[OF this sample_scroll_timer] show ?thesis by simp
qed

lemma sample_scroll_state:
  "sc_entries sample_scroll_counter = []" "sc_total_x sample_scroll_counter = 179"
  "sc_total_y sample_scroll_counter = 0" "sc_momentum_wait sample_scroll_counter = 1"
  unfolding sample_scroll_counter_def sample_scroll_chunk Let_def
  by (simp_all add: sample_scroll_start_def counter_update_def scroll_counter_initial_def)

theorem scroll_motions_follow_one_axis_witness:
  "pm_vertical_wheel \<lparr>pm_x = 0, pm_y = 0, pm_vertical_wheel = 0, pm_horizontal_wheel = 1\<rparr> = 0
   \<or> pm_horizontal_wheel \<lparr>pm_x = 0, pm_y = 0, pm_vertical_wheel = 0, pm_horizontal_wheel = 1\<rparr> = 0"
  using scroll_motions_follow_one_axis[OF sample_scroll_run scroll_options_reachable.intros(1) exact_zero]
  by simp

theorem scroll_timer_stops_witness:
  "\<exists>c'. counter_timers (exact_scroll_arithmetic (\<lambda>_. 0)) 1 scroll_options_default
      (replicate 2000 1300) sample_scroll_counter = Some c' \<and> \<not> sc_timer c'"
  by (rule scroll_timer_stops[OF sample_scroll_run scroll_options_reachable.intros(1) exact_zero])
     (simp_all add: sample_scroll_state)

end
