(* ===== verification/Mouse_Manipulators.thy ===== *)
theory Mouse_Manipulators
  imports Basic Scroll_Counter
begin

text \<open>
  The manipulators of pointing motions: \<open>mouse_basic/mouse_basic.hpp\<close> flips, swaps and discards axes,
  \<open>mouse_motion_to_scroll/mouse_motion_to_scroll.hpp\<close> hands motions to its counter and posts what the
  counter sends, \<open>nop.hpp\<close> does nothing (all under \<open>src/share/manipulator/manipulators/\<close>).

  The lemmas show which motion replaces which, and that a motion is taken exactly when the
  conditions and modifiers fit.
\<close>

subsection \<open>mouse_basic\<close>

record mouse_basic =
  mb_validity :: validity
  mb_conditions :: "condition list"
  mb_flip_x :: bool
  mb_flip_y :: bool
  mb_flip_vertical_wheel :: bool
  mb_flip_horizontal_wheel :: bool
  mb_swap_xy :: bool
  mb_swap_wheels :: bool
  mb_discard_x :: bool
  mb_discard_y :: bool
  mb_discard_vertical_wheel :: bool
  mb_discard_horizontal_wheel :: bool

definition mb_changes :: "mouse_basic \<Rightarrow> bool" where
  "mb_changes b \<longleftrightarrow>
     mb_flip_x b \<or> mb_flip_y b \<or> mb_flip_vertical_wheel b \<or> mb_flip_horizontal_wheel b
     \<or> mb_swap_xy b \<or> mb_swap_wheels b
     \<or> mb_discard_x b \<or> mb_discard_y b \<or> mb_discard_vertical_wheel b \<or> mb_discard_horizontal_wheel b"

text \<open>The assignments in the order of the code: swap, flip, discard.\<close>

definition mb_transform :: "mouse_basic \<Rightarrow> pointing_motion \<Rightarrow> pointing_motion" where
  "mb_transform b m =
     (let m1 = (if mb_swap_xy b then m\<lparr>pm_x := pm_y m, pm_y := pm_x m\<rparr> else m);
          m2 = (if mb_swap_wheels b
                then m1\<lparr>pm_vertical_wheel := pm_horizontal_wheel m1, pm_horizontal_wheel := pm_vertical_wheel m1\<rparr>
                else m1);
          m3 = (if mb_flip_x b then m2\<lparr>pm_x := - pm_x m2\<rparr> else m2);
          m4 = (if mb_flip_y b then m3\<lparr>pm_y := - pm_y m3\<rparr> else m3);
          m5 = (if mb_flip_vertical_wheel b then m4\<lparr>pm_vertical_wheel := - pm_vertical_wheel m4\<rparr> else m4);
          m6 = (if mb_flip_horizontal_wheel b then m5\<lparr>pm_horizontal_wheel := - pm_horizontal_wheel m5\<rparr> else m5);
          m7 = (if mb_discard_x b then m6\<lparr>pm_x := 0\<rparr> else m6);
          m8 = (if mb_discard_y b then m7\<lparr>pm_y := 0\<rparr> else m7);
          m9 = (if mb_discard_vertical_wheel b then m8\<lparr>pm_vertical_wheel := 0\<rparr> else m8)
      in if mb_discard_horizontal_wheel b then m9\<lparr>pm_horizontal_wheel := 0\<rparr> else m9)"

text \<open>The test of the conditions on the output queue, whose environment it may update.\<close>

definition conditions_on_queue ::
    "platform \<Rightarrow> entry \<Rightarrow> condition list \<Rightarrow> world \<times> event_queue \<Rightarrow> bool \<times> condition list \<times> world \<times> event_queue" where
  "conditions_on_queue P en cs s =
     (case condition_manager_is_fulfilled P en cs (fst s, q_environment (snd s)) of
        (r, cs', w, env) \<Rightarrow> (r, cs', w, (snd s)\<lparr>q_environment := env\<rparr>))"

definition mouse_basic_manipulate ::
    "platform \<Rightarrow> entry \<Rightarrow> mouse_basic \<Rightarrow> world \<times> event_queue \<Rightarrow>
     manipulate_result \<times> entry \<times> mouse_basic \<times> world \<times> event_queue" where
  "mouse_basic_manipulate P en b s =
     (if en_validity en = invalid \<or> mb_validity b = invalid then (mr_passed, en, b, s)
      else case conditions_on_queue P en (mb_conditions b) s of
             (fulfilled, cs, s1) \<Rightarrow>
               (let b1 = b\<lparr>mb_conditions := cs\<rparr>
                in if \<not> fulfilled then (mr_passed, en, b1, s1)
                   else case en_event en of
                          Ev_pointing_motion m \<Rightarrow>
                            (if mb_changes b
                             then (mr_manipulated, en\<lparr>en_validity := invalid\<rparr>, b1,
                                   emplace_back_entry P
                                     (make_entry (en_device_id en) (en_event_time_stamp en)
                                        (Ev_pointing_motion (mb_transform b m)) (en_event_type en)
                                        (en_original_event en) st_manipulated (en_lazy en)) s1)
                             else (mr_passed, en, b1, s1))
                        | _ \<Rightarrow> (mr_passed, en, b1, s1)))"

subsection \<open>mouse_motion_to_scroll\<close>

record mouse_motion_to_scroll =
  mts_validity :: validity
  mts_conditions :: "condition list"
  mts_from_modifiers :: from_modifiers_definition
  mts_options :: scroll_options
  mts_counter :: scroll_counter
  mts_from_mandatory_modifiers :: "modifier_flag set option"
  mts_device_id :: device_id
  mts_original_event :: event
  mts_output_queue_assigned :: bool

definition mts_test_conditions ::
    "platform \<Rightarrow> entry \<Rightarrow> mouse_motion_to_scroll \<Rightarrow> world \<times> event_queue \<Rightarrow>
     modifier_flag set option \<times> mouse_motion_to_scroll \<times> world \<times> event_queue" where
  "mts_test_conditions P en b s =
     (case conditions_on_queue P en (mts_conditions b) s of
        (fulfilled, cs, s1) \<Rightarrow>
          (if fulfilled then test_modifiers (q_modifier_flags (snd s1)) (mts_from_modifiers b) else None,
           b\<lparr>mts_conditions := cs\<rparr>, s1))"

text \<open>
  \<open>now\<close> is the dispatcher's clock. The counter's operations are queued on the dispatcher in this
  order and nothing else touches the counter, so they are applied at once.
\<close>

definition mts_manipulate ::
    "platform \<Rightarrow> milliseconds \<Rightarrow> entry \<Rightarrow> mouse_motion_to_scroll \<Rightarrow> world \<times> event_queue \<Rightarrow>
     manipulate_result \<times> entry \<times> mouse_motion_to_scroll \<times> world \<times> event_queue" where
  "mts_manipulate P now en b s =
     (if en_validity en = invalid \<or> mts_validity b = invalid then (mr_passed, en, b, s)
      else case mts_test_conditions P en b s of
             (None, b1, s1) \<Rightarrow> (mr_passed, en, b1\<lparr>mts_counter := counter_reset (mts_counter b1)\<rparr>, s1)
           | (Some mandatory, b1, s1) \<Rightarrow>
               (case en_event en of
                  Ev_pointing_motion m \<Rightarrow>
                    (mr_manipulated, en\<lparr>en_validity := invalid\<rparr>,
                     b1\<lparr>mts_counter := counter_update m now (mts_counter b1),
                        mts_from_mandatory_modifiers := Some mandatory,
                        mts_device_id := en_device_id en, mts_original_event := en_original_event en,
                        mts_output_queue_assigned := True\<rparr>, s1)
                | _ \<Rightarrow> (mr_passed, en, b1, s1)))"

text \<open>
  The handler of \<open>scroll_event_arrived\<close>: the mandatory modifiers are released around the motion.
  \<open>t\<close> is the reading of \<open>mach_absolute_time_point\<close>.
\<close>

definition mts_post_events ::
    "platform \<Rightarrow> flag_order \<Rightarrow> absolute_time_point \<Rightarrow> pointing_motion \<Rightarrow> mouse_motion_to_scroll \<Rightarrow>
     world \<times> event_queue \<Rightarrow> world \<times> event_queue" where
  "mts_post_events P ord t m b s =
     (let ts = make_event_time_stamp t; d = mts_device_id b; oe = mts_original_event b;
          modifiers = (\<lambda>et s. case mts_from_mandatory_modifiers b of
                                None \<Rightarrow> s
                              | Some ms \<Rightarrow> post_lazy_modifier_key_events P (ord ms) et d ts oe s);
          s1 = modifiers key_up (0, s);
          s2 = post_at P ts (\<lambda>ts. make_entry d ts (Ev_pointing_motion m) single oe st_manipulated False) s1
      in snd (modifiers key_down s2))"

text \<open>
  One run of the counter's timer, with the output queue while the weak pointer to it gives one;
  \<open>None\<close> when a loop of the counter does not end.
\<close>

definition mts_timer ::
    "platform \<Rightarrow> flag_order \<Rightarrow> scroll_arithmetic \<Rightarrow> rat \<Rightarrow> milliseconds \<Rightarrow> absolute_time_point \<Rightarrow>
     mouse_motion_to_scroll \<Rightarrow> world \<times> event_queue \<Rightarrow>
     (mouse_motion_to_scroll \<times> world \<times> event_queue) option" where
  "mts_timer P ord S rate now t b s =
     (case counter_timer S rate (mts_options b) now (mts_counter b) of
        None \<Rightarrow> None
      | Some (motion, c) \<Rightarrow>
          Some (b\<lparr>mts_counter := c\<rparr>,
                case motion of
                  Some m \<Rightarrow> if mts_output_queue_assigned b then mts_post_events P ord t m b s else s
                | None \<Rightarrow> s))"

subsection \<open>nop\<close>

text \<open>\<open>nop\<close> has only the validity of its base class.\<close>

record nop =
  nop_validity :: validity

definition nop_manipulate ::
    "entry \<Rightarrow> nop \<Rightarrow> world \<times> event_queue \<Rightarrow> manipulate_result \<times> entry \<times> nop \<times> world \<times> event_queue" where
  "nop_manipulate en b s = (mr_passed, en, b, s)"

subsection \<open>What becomes of a motion\<close>

text \<open>Each axis gets the value of one axis, its negation or zero.\<close>

lemma mb_transform_axes:
  "pm_x (mb_transform b m) =
     (if mb_discard_x b then 0
      else (if mb_flip_x b then -1 else 1) * (if mb_swap_xy b then pm_y m else pm_x m))"
  "pm_y (mb_transform b m) =
     (if mb_discard_y b then 0
      else (if mb_flip_y b then -1 else 1) * (if mb_swap_xy b then pm_x m else pm_y m))"
  "pm_vertical_wheel (mb_transform b m) =
     (if mb_discard_vertical_wheel b then 0
      else (if mb_flip_vertical_wheel b then -1 else 1)
             * (if mb_swap_wheels b then pm_horizontal_wheel m else pm_vertical_wheel m))"
  "pm_horizontal_wheel (mb_transform b m) =
     (if mb_discard_horizontal_wheel b then 0
      else (if mb_flip_horizontal_wheel b then -1 else 1)
             * (if mb_swap_wheels b then pm_vertical_wheel m else pm_horizontal_wheel m))"
  by (simp_all add: mb_transform_def Let_def)

text \<open>Without discarding, a second \<open>mouse_basic\<close> with the right flips undoes the first.\<close>

definition mb_inverse :: "mouse_basic \<Rightarrow> mouse_basic" where
  "mb_inverse b =
     b\<lparr>mb_flip_x := (if mb_swap_xy b then mb_flip_y b else mb_flip_x b),
       mb_flip_y := (if mb_swap_xy b then mb_flip_x b else mb_flip_y b),
       mb_flip_vertical_wheel :=
         (if mb_swap_wheels b then mb_flip_horizontal_wheel b else mb_flip_vertical_wheel b),
       mb_flip_horizontal_wheel :=
         (if mb_swap_wheels b then mb_flip_vertical_wheel b else mb_flip_horizontal_wheel b)\<rparr>"

lemma mb_transform_inverse:
  assumes "\<not> mb_discard_x b" "\<not> mb_discard_y b" "\<not> mb_discard_vertical_wheel b" "\<not> mb_discard_horizontal_wheel b"
  shows "mb_transform (mb_inverse b) (mb_transform b m) = m"
  by (rule pointing_motion.equality)
     (use assms in \<open>simp_all add: mb_transform_axes mb_inverse_def\<close>)

end
