(* ===== verification/Manipulator_Manager.thy ===== *)
theory Manipulator_Manager
  imports Post_Event_To_Virtual_Devices Mouse_Manipulators
begin

text \<open>
  \<open>src/share/manipulator/manipulator_manager.hpp\<close> and \<open>manipulator_managers_connector.hpp\<close>: a manager
  lets its manipulators see the front event of an input queue and moves the event to an output
  queue; the connector chains managers through shared queues.

  The classes derived from \<open>manipulators::base\<close> are the constructors of a datatype and a virtual
  function is a function on it. The lemmas show that every event leaves the input queue exactly
  once and in order, what happens to it on each branch, when the loops end, that an ungrabbed device
  leaves nothing down on the virtual devices, and that manipulators that still hold keys are never
  removed.
\<close>

subsection \<open>Manipulators\<close>

datatype 'k manipulator =
    M_basic basic
  | M_mouse_basic mouse_basic
  | M_mouse_motion_to_scroll mouse_motion_to_scroll
  | M_post_event_to_virtual_devices "'k poster"
  | M_nop nop

text \<open>What the manipulators take from outside, and the clock of the dispatcher.\<close>

record 'k machine =
  mc_platform :: platform
  mc_hid :: "'k hid_report_ops"
  mc_flag_order :: flag_order
  mc_when_now :: milliseconds

fun manipulator_validity :: "'k manipulator \<Rightarrow> validity" where
  "manipulator_validity (M_basic b) = b_validity b"
| "manipulator_validity (M_mouse_basic b) = mb_validity b"
| "manipulator_validity (M_mouse_motion_to_scroll b) = mts_validity b"
| "manipulator_validity (M_post_event_to_virtual_devices v) = valid"
| "manipulator_validity (M_nop n) = nop_validity n"

fun set_validity :: "validity \<Rightarrow> 'k manipulator \<Rightarrow> 'k manipulator" where
  "set_validity x (M_basic b) = M_basic (b\<lparr>b_validity := x\<rparr>)"
| "set_validity x (M_mouse_basic b) = M_mouse_basic (b\<lparr>mb_validity := x\<rparr>)"
| "set_validity x (M_mouse_motion_to_scroll b) = M_mouse_motion_to_scroll (b\<lparr>mts_validity := x\<rparr>)"
| "set_validity x (M_post_event_to_virtual_devices v) = M_post_event_to_virtual_devices v"
| "set_validity x (M_nop n) = M_nop (n\<lparr>nop_validity := x\<rparr>)"

fun manipulator_active :: "'k manipulator \<Rightarrow> bool" where
  "manipulator_active (M_basic b) = basic_active b"
| "manipulator_active (M_post_event_to_virtual_devices v) = pv_active v"
| "manipulator_active _ = False"

fun manipulator_needs_virtual_hid_pointing :: "'k manipulator \<Rightarrow> bool" where
  "manipulator_needs_virtual_hid_pointing (M_basic b) = basic_needs_virtual_hid_pointing b"
| "manipulator_needs_virtual_hid_pointing (M_mouse_basic b) = True"
| "manipulator_needs_virtual_hid_pointing (M_mouse_motion_to_scroll b) = True"
| "manipulator_needs_virtual_hid_pointing (M_post_event_to_virtual_devices v) = False"
| "manipulator_needs_virtual_hid_pointing (M_nop n) = False"

fun already_manipulated :: "entry \<Rightarrow> 'k manipulator \<Rightarrow> bool" where
  "already_manipulated en (M_basic b) = basic_already_manipulated en b"
| "already_manipulated en _ = False"

text \<open>
  One call of \<open>manipulate\<close> for the front entry \<open>en\<close> of an input queue with the entries \<open>rest\<close> behind
  it; \<open>None\<close> when a loop does not end.
\<close>

fun manipulator_manipulate ::
    "'k machine \<Rightarrow> absolute_time_point \<Rightarrow> entry \<Rightarrow> entry list \<Rightarrow> 'k manipulator \<Rightarrow> world \<times> event_queue \<Rightarrow>
     (manipulate_result \<times> entry \<times> 'k manipulator \<times> world \<times> event_queue) option" where
  "manipulator_manipulate M now en rest (M_basic b) s =
     (case basic_manipulate (mc_platform M) (mc_flag_order M) now en (en # rest) b s of
        None \<Rightarrow> None
      | Some (r, en', b', s') \<Rightarrow> Some (r, en', M_basic b', s'))"
| "manipulator_manipulate M now en rest (M_mouse_basic b) s =
     (case mouse_basic_manipulate (mc_platform M) en b s of
        (r, en', b', s') \<Rightarrow> Some (r, en', M_mouse_basic b', s'))"
| "manipulator_manipulate M now en rest (M_mouse_motion_to_scroll b) s =
     (case mts_manipulate (mc_platform M) (mc_when_now M) en b s of
        (r, en', b', s') \<Rightarrow> Some (r, en', M_mouse_motion_to_scroll b', s'))"
| "manipulator_manipulate M now en rest (M_post_event_to_virtual_devices v) s =
     (case pv_manipulate (mc_platform M) (mc_hid M) en s v of
        (r, en', s', v') \<Rightarrow> Some (r, en', M_post_event_to_virtual_devices v', s'))"
| "manipulator_manipulate M now en rest (M_nop n) s =
     (case nop_manipulate en n s of (r, en', n', s') \<Rightarrow> Some (r, en', M_nop n', s'))"

fun handle_released ::
    "'k machine \<Rightarrow> entry \<Rightarrow> 'k manipulator \<Rightarrow> event_queue \<Rightarrow> 'k manipulator \<times> event_queue" where
  "handle_released M en (M_post_event_to_virtual_devices v) oq =
     (case pv_handle_device_keys_and_pointing_buttons_are_released_event (mc_platform M) (mc_hid M) en oq v of
        (oq', v') \<Rightarrow> (M_post_event_to_virtual_devices v', oq'))"
| "handle_released M en m oq = (m, oq)"

fun handle_ungrabbed ::
    "'k machine \<Rightarrow> device_id \<Rightarrow> event_queue \<Rightarrow> absolute_time_point \<Rightarrow> 'k manipulator \<Rightarrow> 'k manipulator" where
  "handle_ungrabbed M d oq t (M_basic b) = M_basic (basic_handle_device_ungrabbed_event d b)"
| "handle_ungrabbed M d oq t (M_post_event_to_virtual_devices v) =
     M_post_event_to_virtual_devices
       (pv_handle_device_ungrabbed_event (mc_platform M) (mc_hid M) d oq t v)"
| "handle_ungrabbed M d oq t m = m"

fun handle_event_tap :: "'k machine \<Rightarrow> entry \<Rightarrow> event_queue \<Rightarrow> 'k manipulator \<Rightarrow> 'k manipulator" where
  "handle_event_tap M en oq (M_basic b) = M_basic (basic_handle_pointing_device_event_from_event_tap en b)"
| "handle_event_tap M en oq (M_post_event_to_virtual_devices v) =
     M_post_event_to_virtual_devices
       (pv_handle_pointing_device_event_from_event_tap (mc_platform M) (mc_hid M) en oq v)"
| "handle_event_tap M en oq m = m"

subsection \<open>manipulator_manager::manipulate\<close>

fun handle_released_all ::
    "'k machine \<Rightarrow> entry \<Rightarrow> 'k manipulator list \<Rightarrow> event_queue \<Rightarrow> 'k manipulator list \<times> event_queue" where
  "handle_released_all M en [] oq = ([], oq)"
| "handle_released_all M en (m # ms) oq =
     (case handle_released M en m oq of
        (m', oq1) \<Rightarrow> (case handle_released_all M en ms oq1 of (ms', oq2) \<Rightarrow> (m' # ms', oq2)))"

text \<open>The loop over the manipulators; the flag tells that one of them needs to wait.\<close>

fun manipulate_all ::
    "'k machine \<Rightarrow> absolute_time_point \<Rightarrow> entry list \<Rightarrow> entry \<Rightarrow> 'k manipulator list \<Rightarrow> world \<times> event_queue \<Rightarrow>
     (bool \<times> entry \<times> 'k manipulator list \<times> world \<times> event_queue) option" where
  "manipulate_all M now rest en [] s = Some (False, en, [], s)"
| "manipulate_all M now rest en (m # ms) s =
     (case manipulator_manipulate M now en rest m s of
        None \<Rightarrow> None
      | Some (r, en1, m', s1) \<Rightarrow>
          (if r = mr_needs_wait_until_time_stamp then Some (True, en1, m' # ms, s1)
           else case manipulate_all M now rest en1 ms s1 of
                  None \<Rightarrow> None
                | Some (wait, en2, ms', s2) \<Rightarrow> Some (wait, en2, m' # ms', s2)))"

text \<open>The switch on the type of the front event, up to the label \<open>finish\<close>.\<close>

fun is_manipulated_event :: "event \<Rightarrow> bool" where
  "is_manipulated_event (Ev_momentary_switch_event _) = True"
| "is_manipulated_event (Ev_pointing_motion _) = True"
| "is_manipulated_event (Ev_shell_command _) = True"
| "is_manipulated_event (Ev_select_input_source _) = True"
| "is_manipulated_event (Ev_set_notification_message _) = True"
| "is_manipulated_event (Ev_mouse_key _) = True"
| "is_manipulated_event (Ev_sticky_modifier _ _) = True"
| "is_manipulated_event (Ev_software_function _) = True"
| "is_manipulated_event Ev_stop_keyboard_repeat = True"
| "is_manipulated_event (Ev_caps_lock_state_changed _) = True"
| "is_manipulated_event (Ev_system_preferences_properties_changed _) = True"
| "is_manipulated_event _ = False"

definition manipulate_front ::
    "'k machine \<Rightarrow> absolute_time_point \<Rightarrow> entry list \<Rightarrow> entry \<Rightarrow> 'k manipulator list \<Rightarrow> world \<times> event_queue \<Rightarrow>
     (bool \<times> entry \<times> 'k manipulator list \<times> world \<times> event_queue) option" where
  "manipulate_front M now rest en ms s =
     (let d = en_device_id en; w = fst s; oq = snd s in
      if en_event en = Ev_device_keys_and_pointing_buttons_are_released
      then (case handle_released_all M en ms
                   (queue_erase_all_active_pointing_buttons_except_lock d
                      (queue_erase_all_active_modifier_flags_except_lock_and_sticky d oq)) of
              (ms', oq') \<Rightarrow> Some (False, en, ms', w, oq'))
      else if en_event en = Ev_device_ungrabbed
      then (let oq' = queue_erase_all_active_pointing_buttons d (queue_erase_all_active_modifier_flags d oq)
            in Some (False, en, map (handle_ungrabbed M d oq' (en_time_stamp en)) ms, w, oq'))
      else if en_event en = Ev_pointing_device_event_from_event_tap
      then Some (False, en, map (handle_event_tap M en oq) ms, s)
      else if is_manipulated_event (en_event en)
      then (if en_validity en = valid \<and> list_ex (already_manipulated en) ms
            then Some (False, en\<lparr>en_validity := invalid\<rparr>, ms, s)
            else manipulate_all M now rest en ms s)
      else Some (False, en, ms, s))"

definition remove_invalid_manipulators :: "'k manipulator list \<Rightarrow> 'k manipulator list" where
  "remove_invalid_manipulators ms =
     erase_if (\<lambda>m. manipulator_validity m = invalid \<and> \<not> manipulator_active m) ms"

definition invalidate_manipulators :: "'k manipulator list \<Rightarrow> 'k manipulator list" where
  "invalidate_manipulators ms = remove_invalid_manipulators (map (set_validity invalid) ms)"

definition push_back_manipulator :: "'k manipulator \<Rightarrow> 'k manipulator list \<Rightarrow> 'k manipulator list" where
  "push_back_manipulator m ms = ms @ [m]"

definition manager_needs_virtual_hid_pointing :: "'k manipulator list \<Rightarrow> bool" where
  "manager_needs_virtual_hid_pointing ms = list_ex manipulator_needs_virtual_hid_pointing ms"

text \<open>
  The state of a call: the manipulators, the global state, the input and the output queue, all
  alive. \<open>reorder\<close> is the setting of the core configuration. The result tells whether to call again.
\<close>

type_synonym 'k manager_state = "'k manipulator list \<times> world \<times> event_queue \<times> event_queue"

definition manager_manipulate ::
    "'k machine \<Rightarrow> absolute_time_point \<Rightarrow> bool \<Rightarrow> 'k manager_state \<Rightarrow> (bool \<times> 'k manager_state) option" where
  "manager_manipulate M now reorder st =
     (case st of (ms, w, iq, oq) \<Rightarrow>
        case q_events iq of
          [] \<Rightarrow> Some (False, remove_invalid_manipulators ms, w, iq, oq)
        | en # rest \<Rightarrow>
            (case manipulate_front M now rest en ms (w, oq) of
               None \<Rightarrow> None
             | Some (wait, en', ms', w', oq') \<Rightarrow>
                 (let iq' = iq\<lparr>q_events := en' # rest\<rparr>
                  in if wait then Some (False, remove_invalid_manipulators ms', w', iq', oq')
                     else (let (w2, oq2) = (if en_validity en' = valid
                                            then emplace_back_entry (mc_platform M) en' (w', oq') else (w', oq'));
                               oq3 = (if reorder then sort_events oq2 else oq2)
                           in Some (True, ms', w2, erase_front_event iq', oq3)))))"

lemma manager_manipulate_shrinks:
  assumes "manager_manipulate M now reorder (ms, w, iq, oq) = Some (True, ms', w', iq', oq')"
  shows "length (q_events iq') < length (q_events iq)"
  using assms
  by (auto simp: manager_manipulate_def Let_def erase_front_event_def split: list.splits option.splits
      if_splits prod.splits)

text \<open>\<open>connection::manipulate\<close>: the loop ends because the input queue gets shorter.\<close>

function connection_manipulate ::
    "'k machine \<Rightarrow> absolute_time_point \<Rightarrow> bool \<Rightarrow> 'k manager_state \<Rightarrow> 'k manager_state option" where
  "connection_manipulate M now reorder st =
     (case manager_manipulate M now reorder st of
        None \<Rightarrow> None
      | Some (processed, st') \<Rightarrow> if processed then connection_manipulate M now reorder st' else Some st')"
  by pat_completeness auto
termination
proof (relation "measure (\<lambda>(M, now, reorder, ms, w, iq, oq). length (q_events iq))")
  fix M :: "'k machine" and now reorder and st :: "'k manager_state" and y x y'
  assume a: "manager_manipulate M now reorder st = Some y" "(x, y') = y" x
  obtain ms w iq oq where st: "st = (ms, w, iq, oq)" by (metis prod_cases4)
  obtain ms' w' iq' oq' where y: "y' = (ms', w', iq', oq')" by (metis prod_cases4)
  show "((M, now, reorder, y'), M, now, reorder, st)
    \<in> measure (\<lambda>(M, now, reorder, ms, w, iq, oq). length (q_events iq))"
    using manager_manipulate_shrinks[of M now reorder ms w iq oq ms' w' iq' oq'] a st y by simp
qed simp

declare connection_manipulate.simps [simp del]

subsection \<open>manipulator_managers_connector\<close>

text \<open>
  Managers and queues are shared objects, so a connection holds their indices: the manager, the
  input queue and the output queue.
\<close>

record connection =
  cn_manager :: nat
  cn_input :: nat
  cn_output :: nat

record 'k connector =
  ct_connections :: "connection list"
  ct_managers :: "'k manipulator list list"
  ct_queues :: "event_queue list"

definition emplace_back_connection :: "nat \<Rightarrow> nat \<Rightarrow> nat \<Rightarrow> 'k connector \<Rightarrow> 'k connector" where
  "emplace_back_connection m i o' c =
     c\<lparr>ct_connections := ct_connections c @ [\<lparr>cn_manager = m, cn_input = i, cn_output = o'\<rparr>]\<rparr>"

text \<open>The second overload continues from the output queue of the last connection, or throws.\<close>

definition emplace_back_next_connection :: "nat \<Rightarrow> nat \<Rightarrow> 'k connector \<Rightarrow> 'k connector option" where
  "emplace_back_next_connection m o' c =
     (if ct_connections c = [] then None
      else Some (emplace_back_connection m (cn_output (last (ct_connections c))) o' c))"

definition connector_step ::
    "'k machine \<Rightarrow> absolute_time_point \<Rightarrow> bool \<Rightarrow> connection \<Rightarrow> world \<times> 'k connector \<Rightarrow> (world \<times> 'k connector) option" where
  "connector_step M now reorder n s =
     (case s of (w, c) \<Rightarrow>
        case connection_manipulate M now reorder
               (ct_managers c ! cn_manager n, w, ct_queues c ! cn_input n, ct_queues c ! cn_output n) of
          None \<Rightarrow> None
        | Some (ms, w', iq, oq) \<Rightarrow>
            Some (w', c\<lparr>ct_managers := (ct_managers c)[cn_manager n := ms],
                        ct_queues := (ct_queues c)[cn_input n := iq, cn_output n := oq]\<rparr>))"

fun connector_steps ::
    "'k machine \<Rightarrow> absolute_time_point \<Rightarrow> bool \<Rightarrow> connection list \<Rightarrow> world \<times> 'k connector \<Rightarrow> (world \<times> 'k connector) option" where
  "connector_steps M now reorder [] s = Some s"
| "connector_steps M now reorder (n # ns) s =
     (case connector_step M now reorder n s of
        None \<Rightarrow> None
      | Some s' \<Rightarrow> connector_steps M now reorder ns s')"

definition connector_manipulate ::
    "'k machine \<Rightarrow> absolute_time_point \<Rightarrow> bool \<Rightarrow> world \<times> 'k connector \<Rightarrow> (world \<times> 'k connector) option" where
  "connector_manipulate M now reorder s = connector_steps M now reorder (ct_connections (snd s)) s"

definition connector_invalidate_manipulators :: "'k connector \<Rightarrow> 'k connector" where
  "connector_invalidate_manipulators c =
     foldl (\<lambda>c n. c\<lparr>ct_managers := (ct_managers c)[cn_manager n :=
                      invalidate_manipulators (ct_managers c ! cn_manager n)]\<rparr>) c (ct_connections c)"

definition queue_set_core_configuration :: "core_configuration \<Rightarrow> event_queue \<Rightarrow> event_queue" where
  "queue_set_core_configuration cc q =
     q\<lparr>q_environment := (q_environment q)\<lparr>env_core_configuration := cc\<rparr>\<rparr>"

definition connector_set_core_configuration :: "core_configuration \<Rightarrow> 'k connector \<Rightarrow> 'k connector" where
  "connector_set_core_configuration cc c =
     foldl (\<lambda>c n.
         let qs = (ct_queues c)[cn_input n := queue_set_core_configuration cc (ct_queues c ! cn_input n)]
         in c\<lparr>ct_queues := qs[cn_output n := queue_set_core_configuration cc (qs ! cn_output n)]\<rparr>)
       c (ct_connections c)"

definition connector_needs_virtual_hid_pointing :: "'k connector \<Rightarrow> bool" where
  "connector_needs_virtual_hid_pointing c \<longleftrightarrow>
     list_ex (\<lambda>n. manager_needs_virtual_hid_pointing (ct_managers c ! cn_manager n)) (ct_connections c)"

definition input_event_time_stamp_with_input_delay :: "event_queue \<Rightarrow> absolute_time_point option" where
  "input_event_time_stamp_with_input_delay q =
     (case q_events q of [] \<Rightarrow> None | en # _ \<Rightarrow> Some (make_time_stamp_with_input_delay (en_event_time_stamp en)))"

definition min_input_event_time_stamp :: "'k connector \<Rightarrow> absolute_time_point option" where
  "min_input_event_time_stamp c =
     foldl (\<lambda>result n.
         case input_event_time_stamp_with_input_delay (ct_queues c ! cn_input n) of
           None \<Rightarrow> result
         | Some t \<Rightarrow> (case result of None \<Rightarrow> Some t | Some r \<Rightarrow> if t < r then Some t else result))
       None (ct_connections c)"

subsection \<open>One event at a time\<close>

lemma erase_front_events [simp]: "q_events (erase_front_event q) = tl (q_events q)"
  by (simp add: erase_front_event_def Let_def)

text \<open>The branches of a call as a rule.\<close>

lemma manager_manipulate_cases:
  assumes "manager_manipulate M now reorder (ms, w, iq, oq) = Some (b, ms', w', iq', oq')"
  obtains (empty) "q_events iq = []" "\<not> b" "ms' = remove_invalid_manipulators ms" "w' = w" "iq' = iq" "oq' = oq"
  | (wait) en rest en' ms1 where "q_events iq = en # rest" "\<not> b"
      "manipulate_front M now rest en ms (w, oq) = Some (True, en', ms1, w', oq')"
      "ms' = remove_invalid_manipulators ms1" "iq' = iq\<lparr>q_events := en' # rest\<rparr>"
  | (moved) en rest en' w1 oq1 w2 oq2 where "q_events iq = en # rest" b
      "manipulate_front M now rest en ms (w, oq) = Some (False, en', ms', w1, oq1)"
      "(w2, oq2) = (if en_validity en' = valid then emplace_back_entry (mc_platform M) en' (w1, oq1) else (w1, oq1))"
      "w' = w2" "oq' = (if reorder then sort_events oq2 else oq2)"
      "iq' = erase_front_event (iq\<lparr>q_events := en' # rest\<rparr>)"
proof (cases "q_events iq")
  case Nil
  then show ?thesis using assms by (intro empty) (auto simp: manager_manipulate_def)
next
  case (Cons en rest)
  obtain wt en' ms1 w1 oq1 where f: "manipulate_front M now rest en ms (w, oq) = Some (wt, en', ms1, w1, oq1)"
    using assms Cons by (auto simp: manager_manipulate_def split: option.splits)
  show ?thesis
  proof (cases wt)
    case True
    then have "\<not> b" "ms' = remove_invalid_manipulators ms1" "w' = w1" "oq' = oq1" "iq' = iq\<lparr>q_events := en' # rest\<rparr>"
      using assms Cons f by (simp_all add: manager_manipulate_def Let_def)
    then show ?thesis using wait[of en rest en' ms1] Cons f True by simp
  next
    case False
    obtain w2 oq2 where p: "(w2, oq2) =
        (if en_validity en' = valid then emplace_back_entry (mc_platform M) en' (w1, oq1) else (w1, oq1))"
      by (metis prod.collapse)
    have "b" "ms' = ms1" "w' = w2" "oq' = (if reorder then sort_events oq2 else oq2)"
      "iq' = erase_front_event (iq\<lparr>q_events := en' # rest\<rparr>)"
      using assms Cons f False by (simp_all add: manager_manipulate_def Let_def flip: p)
    then show ?thesis using moved[of en rest en' w1 oq1 w2 oq2] Cons f False p by simp
  qed
qed

text \<open>
  Events leave a queue one at a time, in order and never twice: a call of \<open>manipulate\<close> that asks to
  be called again erased exactly the front of the input queue, any other call left the number of
  entries and all entries behind the front as they were; on an empty queue only manipulators that
  are invalid and inactive disappear.
\<close>

theorem manager_moves_one_event:
  assumes "manager_manipulate M now reorder (ms, w, iq, oq) = Some (b, ms', w', iq', oq')"
  shows "(b \<longrightarrow> q_events iq \<noteq> [] \<and> q_events iq' = tl (q_events iq))
    \<and> (\<not> b \<longrightarrow> length (q_events iq') = length (q_events iq) \<and> tl (q_events iq') = tl (q_events iq))
    \<and> (q_events iq = [] \<longrightarrow> (w', iq', oq') = (w, iq, oq) \<and>
         ms' = filter (\<lambda>m. manipulator_validity m = valid \<or> manipulator_active m) ms)"
  using assms
proof (cases rule: manager_manipulate_cases)
  case empty
  have "remove_invalid_manipulators ms = filter (\<lambda>m. manipulator_validity m = valid \<or> manipulator_active m) ms"
    unfolding remove_invalid_manipulators_def erase_if_def
    by (rule filter_cong) (auto, metis validity.exhaust)
  then show ?thesis using empty by simp
next
  case wait then show ?thesis by simp
next
  case moved then show ?thesis by simp
qed

subsection \<open>Managers that never wait\<close>

fun is_basic :: "'k manipulator \<Rightarrow> bool" where
  "is_basic (M_basic b) = True"
| "is_basic _ = False"

lemma manipulator_manipulate_returns:
  assumes "\<not> is_basic m"
  shows "\<exists>r en' m' s'. manipulator_manipulate M now en rest m s = Some (r, en', m', s')
    \<and> r \<noteq> mr_needs_wait_until_time_stamp \<and> \<not> is_basic m'"
proof (cases m)
  case (M_basic b) then show ?thesis using assms by simp
next
  case (M_mouse_basic b)
  then show ?thesis
    by (auto simp: mouse_basic_manipulate_def Let_def split: prod.splits event.splits)
next
  case (M_mouse_motion_to_scroll b)
  then show ?thesis
    by (auto simp: mts_manipulate_def Let_def split: prod.splits event.splits option.splits)
next
  case (M_post_event_to_virtual_devices v)
  then show ?thesis by (auto simp: pv_manipulate_def Let_def)
next
  case (M_nop n) then show ?thesis by (auto simp: nop_manipulate_def)
qed

lemma manipulate_all_returns:
  "list_all (\<lambda>m. \<not> is_basic m) ms \<Longrightarrow>
   \<exists>en' ms' s'. manipulate_all M now rest en ms s = Some (False, en', ms', s') \<and> list_all (\<lambda>m. \<not> is_basic m) ms'"
proof (induction ms arbitrary: en s)
  case Nil then show ?case by simp
next
  case (Cons m ms)
  obtain r en1 m' s1 where m: "manipulator_manipulate M now en rest m s = Some (r, en1, m', s1)"
    "r \<noteq> mr_needs_wait_until_time_stamp" "\<not> is_basic m'"
    using manipulator_manipulate_returns[of m M now en rest s] Cons.prems by auto
  obtain en2 ms' s2 where "manipulate_all M now rest en1 ms s1 = Some (False, en2, ms', s2)"
    "list_all (\<lambda>m. \<not> is_basic m) ms'"
    using Cons by fastforce
  then show ?case using m by simp
qed

lemma handle_released_all_basic:
  "list_all (\<lambda>m. \<not> is_basic m) ms \<Longrightarrow> list_all (\<lambda>m. \<not> is_basic m) (fst (handle_released_all M en ms oq))"
proof (induction ms arbitrary: oq)
  case Nil then show ?case by simp
next
  case (Cons m ms)
  have "\<not> is_basic (fst (handle_released M en m oq))"
    using Cons.prems by (cases m) (auto split: prod.splits)
  then show ?case using Cons by (simp add: case_prod_beta)
qed

lemma manipulate_front_returns:
  assumes "list_all (\<lambda>m. \<not> is_basic m) ms"
  shows "\<exists>en' ms' s'. manipulate_front M now rest en ms s = Some (False, en', ms', s') \<and> list_all (\<lambda>m. \<not> is_basic m) ms'"
proof -
  have u: "\<not> is_basic (handle_ungrabbed M d oq t m)" "\<not> is_basic (handle_event_tap M e oq m)"
    if "\<not> is_basic m" for d oq t m e
    using that by (cases m; simp)+
  obtain ms' oq' where r: "handle_released_all M en ms
      (queue_erase_all_active_pointing_buttons_except_lock (en_device_id en)
        (queue_erase_all_active_modifier_flags_except_lock_and_sticky (en_device_id en) (snd s))) = (ms', oq')"
    by force
  have rb: "list_all (\<lambda>m. \<not> is_basic m) ms'" using handle_released_all_basic[OF assms] r by (metis fst_conv)
  show ?thesis
    using manipulate_all_returns[OF assms, of M now rest en s] assms rb u
    by (simp add: manipulate_front_def Let_def r list_all_iff)
qed

text \<open>
  A stage without basic manipulators never holds anything back: the loops of the connection end
  with the input queue empty, whatever was in it (the last stage, with the manipulator that posts to
  the virtual devices, is of this kind).
\<close>

theorem stage_without_basic_drains_its_input:
  assumes "list_all (\<lambda>m. \<not> is_basic m) ms"
  shows "\<exists>ms' w' iq' oq'. connection_manipulate M now reorder (ms, w, iq, oq) = Some (ms', w', iq', oq')
    \<and> q_events iq' = []"
  using assms
proof (induction "length (q_events iq)" arbitrary: ms w iq oq)
  case 0
  then show ?case by (simp add: connection_manipulate.simps[of _ _ _ "(ms, w, iq, oq)"] manager_manipulate_def)
next
  case (Suc n)
  obtain en rest where q: "q_events iq = en # rest" "n = length rest" using Suc.hyps(2) by (cases "q_events iq") auto
  obtain en' ms' w1 oq1 where f: "manipulate_front M now rest en ms (w, oq) = Some (False, en', ms', w1, oq1)"
    "list_all (\<lambda>m. \<not> is_basic m) ms'"
    using manipulate_front_returns[OF Suc.prems, of M now rest en "(w, oq)"] by (metis prod.collapse)
  obtain w2 iq2 oq2 where m: "manager_manipulate M now reorder (ms, w, iq, oq) = Some (True, ms', w2, iq2, oq2)"
    "q_events iq2 = rest"
    using q f by (simp add: manager_manipulate_def Let_def case_prod_beta)
  then show ?case
    using Suc.hyps(1)[of iq2 ms' w2 oq2] q f(2)
    by (simp add: connection_manipulate.simps[of _ _ _ "(ms, w, iq, oq)"])
qed

subsection \<open>An ungrabbed device leaves nothing down\<close>

lemma pressed_after_erase:
  assumes "pbm_is_pressed u (erase_all_active_pointing_buttons d bs)"
  shows "\<exists>b\<in>set bs. apb_usage_pair b = u \<and> apb_device b \<noteq> d"
proof (rule ccontr)
  assume "\<not> ?thesis"
  then have "\<forall>b\<in>set (erase_all_active_pointing_buttons d bs). apb_usage_pair b \<noteq> u"
    by (auto simp: erase_all_active_pointing_buttons_def erase_if_def)
  moreover have "foldl (\<lambda>count b. if apb_usage_pair b = u then count + apb_count b else count) c cs = c"
    if "\<forall>b\<in>set cs. apb_usage_pair b \<noteq> u" for c cs
    using that by (induction cs) simp_all
  ultimately show False using assms by (simp add: pbm_is_pressed_def)
qed

text \<open>
  C5. A device that is ungrabbed leaves nothing down on the virtual devices: whatever was posted
  before, after the manager handled the event \<open>device_ungrabbed\<close> no modifier flag and no button of the
  output queue is pressed by the device, and the dispatcher counts no key and the mouse keys hold no
  entry of the device. The reports hold exactly the keys counted as pressed (and fn) and the
  modifiers of the output queue; \<open>pressed_buttons_\<close>, the buttons it reported last, are those of the output
  queue, in a report appended now if they changed.
\<close>

theorem ungrabbed_device_leaves_nothing_down:
  assumes "poster_run (mc_platform M) F A (mc_hid M) v" "report_fields_are_sets (mc_hid M) keys mods"
    and "en_event en = Ev_device_ungrabbed" "k < length ms" "ms ! k = M_post_event_to_virtual_devices v"
    and "manipulate_front M now rest en ms (w, oq) = Some (waits, en', ms', w', oq')"
  shows "\<exists>v'. ms' ! k = M_post_event_to_virtual_devices v'
    \<and> en_device_id en \<notin> fst ` set (ked_pressed_keys (pv_dispatcher v'))
    \<and> en_device_id en \<notin> fst ` set (mkh_entries (pv_mouse_key_handler v'))
    \<and> en_device_id en \<notin> amf_device ` set (q_modifier_flags oq')
    \<and> (\<forall>u. pbm_is_pressed u (q_pointing_buttons oq') \<longrightarrow>
         (\<exists>b\<in>set (q_pointing_buttons oq). apb_usage_pair b = u \<and> apb_device b \<noteq> en_device_id en))
    \<and> (\<forall>p. reported_on keys (pv_queue v') p = expected_on (pv_dispatcher v') p)
    \<and> mods (pq_modifiers (pv_queue v')) =
        {x. \<exists>m. is_pressed m (q_modifier_flags oq') \<and> make_hid_report_modifier m = Some x}
    \<and> pv_pressed_buttons v' = report_buttons (mc_hid M) oq'
    \<and> appends (pv_queue v) (pv_queue v')
        (if pv_pressed_buttons v = report_buttons (mc_hid M) oq' then []
         else [empty_pointing_input (report_buttons (mc_hid M) oq')])"
proof -
  let ?d = "en_device_id en"
  let ?v = "pv_handle_device_ungrabbed_event (mc_platform M) (mc_hid M) ?d oq' (en_time_stamp en) v"
  have oq': "oq' = queue_erase_all_active_pointing_buttons ?d (queue_erase_all_active_modifier_flags ?d oq)"
    and ms': "ms' = map (handle_ungrabbed M ?d oq' (en_time_stamp en)) ms"
    using assms(3,6) by (auto simp: manipulate_front_def Let_def)
  have "?d \<notin> amf_device ` set (q_modifier_flags oq')"
    by (auto simp: oq' queue_erase_all_active_pointing_buttons_def queue_erase_all_active_modifier_flags_def
        mfm_erase_all_active_modifier_flags_def erase_if_def)
  moreover have "\<exists>b\<in>set (q_pointing_buttons oq). apb_usage_pair b = u \<and> apb_device b \<noteq> ?d"
    if "pbm_is_pressed u (q_pointing_buttons oq')" for u
    using pressed_after_erase[of u ?d "q_pointing_buttons oq"] that
    by (simp add: oq' queue_erase_all_active_pointing_buttons_def queue_erase_all_active_modifier_flags_def)
  moreover have "ms' ! k = M_post_event_to_virtual_devices ?v" using assms(4,5) by (simp add: ms')
  ultimately show ?thesis
    using device_ungrabbed_result[OF assms(1,2) refl, of ?d oq' "en_time_stamp en"] by blast
qed

subsection \<open>Removing manipulators\<close>

lemma active_set_validity [simp]: "manipulator_active (set_validity x m) = manipulator_active m"
  by (cases m) (simp_all add: basic_active_def)

text \<open>
  Reloading a profile does not strand pressed keys: invalidating the manipulators of a manager
  keeps, in order, exactly those that are active (still hold a manipulated key, or have something
  to post) and the one that posts to the virtual devices, and everything kept except the latter is
  invalid, so it starts nothing new and disappears once it is inactive.
\<close>

theorem invalidation_keeps_active_manipulators:
  "invalidate_manipulators ms =
     map (set_validity invalid)
       (filter (\<lambda>m. manipulator_active m \<or> (\<exists>v. m = M_post_event_to_virtual_devices v)) ms)
   \<and> list_all (\<lambda>m. manipulator_validity m = invalid \<or> (\<exists>v. m = M_post_event_to_virtual_devices v))
       (invalidate_manipulators ms)
   \<and> remove_invalid_manipulators (invalidate_manipulators ms) = invalidate_manipulators ms"
proof -
  have v: "manipulator_validity (set_validity invalid m) = invalid \<longleftrightarrow>
      \<not> (\<exists>v. m = M_post_event_to_virtual_devices v)" for m :: "'a manipulator"
    by (cases m) simp_all
  have "invalidate_manipulators ms =
     map (set_validity invalid)
       (filter (\<lambda>m. manipulator_active m \<or> (\<exists>v. m = M_post_event_to_virtual_devices v)) ms)"
    unfolding invalidate_manipulators_def remove_invalid_manipulators_def erase_if_def filter_map o_def
    by (rule arg_cong[of _ _ "map _"], rule filter_cong) (auto simp: v)
  moreover have "manipulator_validity (set_validity invalid m) = invalid
      \<or> (\<exists>v. set_validity invalid m = M_post_event_to_virtual_devices v)" for m :: "'a manipulator"
    by (cases m) simp_all
  moreover have "remove_invalid_manipulators (invalidate_manipulators ms) = invalidate_manipulators ms"
    by (simp add: invalidate_manipulators_def remove_invalid_manipulators_def)
  ultimately show ?thesis by (simp add: list_all_iff)
qed

subsection \<open>The earliest waiting event\<close>

definition waiting_time_stamps :: "'k connector \<Rightarrow> absolute_time_point list" where
  "waiting_time_stamps c =
     List.map_filter (\<lambda>n. input_event_time_stamp_with_input_delay (ct_queues c ! cn_input n)) (ct_connections c)"

text \<open>
  \<open>min_input_event_time_stamp\<close>, which decides when the grabber wakes up again, is the least time
  stamp with input delay of the front events of the connections' input queues, and absent exactly
  when all of them are empty.
\<close>

theorem min_input_event_time_stamp_is_least:
  "min_input_event_time_stamp c =
     (if waiting_time_stamps c = [] then None else Some (Min (set (waiting_time_stamps c))))"
proof -
  let ?f = "\<lambda>n. input_event_time_stamp_with_input_delay (ct_queues c ! cn_input n)"
  let ?g = "\<lambda>result n. case ?f n of None \<Rightarrow> result
      | Some t \<Rightarrow> (case result of None \<Rightarrow> Some t | Some r \<Rightarrow> if t < r then Some t else result)"
  have "foldl ?g None ns = (if List.map_filter ?f ns = [] then None else Some (Min (set (List.map_filter ?f ns))))"
    for ns :: "connection list"
  proof (induction ns rule: rev_induct)
    case Nil then show ?case by (simp add: List.map_filter_def)
  next
    case (snoc n ns)
    have a: "List.map_filter ?f (ns @ [n]) = List.map_filter ?f ns @ (case ?f n of None \<Rightarrow> [] | Some t \<Rightarrow> [t])"
      by (simp add: List.map_filter_def split: option.split)
    show ?case
    proof (cases "?f n")
      case None then show ?thesis using snoc a by simp
    next
      case (Some t)
      show ?thesis
      proof (cases "List.map_filter ?f ns = []")
        case True then show ?thesis using snoc a Some by simp
      next
        case False
        let ?m = "Min (set (List.map_filter ?f ns))"
        have "Min (set (List.map_filter ?f (ns @ [n]))) = min t ?m" using False a Some by simp
        moreover have "foldl ?g None (ns @ [n]) = Some (if t < ?m then t else ?m)" using snoc Some False by simp
        moreover have "List.map_filter ?f (ns @ [n]) \<noteq> []" using a Some by simp
        ultimately show ?thesis by (simp only: if_False) (simp add: min_def)
      qed
    qed
  qed
  then show ?thesis by (simp add: min_input_event_time_stamp_def waiting_time_stamps_def)
qed

subsection \<open>Witnesses\<close>

definition sample_machine :: "(usage set \<times> hid_report_modifier set) machine" where
  "sample_machine =
     \<lparr>mc_platform = witness_platform, mc_hid = pair_hid_report_ops, mc_flag_order = enumeration_order,
      mc_when_now = 0\<rparr>"

definition sample_input_queue :: event_queue where
  "sample_input_queue =
     sample_queue\<lparr>q_events := [sample_key_entry (mse 7 4) key_down 5, sample_key_entry (mse 7 4) key_up 6]\<rparr>"

theorem manager_moves_one_event_witness:
  "\<exists>w' iq' oq'. manager_manipulate sample_machine 9 False
       ([M_nop \<lparr>nop_validity = valid\<rparr>], witness_world, sample_input_queue, sample_queue) =
     Some (True, [M_nop \<lparr>nop_validity = valid\<rparr>], w', iq', oq')
   \<and> q_events iq' = [sample_key_entry (mse 7 4) key_up 6]"
proof -
  obtain w' iq' oq' where e: "manager_manipulate sample_machine 9 False
       ([M_nop \<lparr>nop_validity = valid\<rparr>], witness_world, sample_input_queue, sample_queue) =
     Some (True, [M_nop \<lparr>nop_validity = valid\<rparr>], w', iq', oq')"
    by (simp add: manager_manipulate_def sample_input_queue_def manipulate_front_def nop_manipulate_def
        sample_key_entry_def make_entry_def Let_def case_prod_beta)
  then show ?thesis
    using manager_moves_one_event[OF e] by (simp add: sample_input_queue_def)
qed

theorem stage_without_basic_drains_its_input_witness:
  "\<exists>ms' w' iq' oq'. connection_manipulate sample_machine 9 True
      ([M_post_event_to_virtual_devices sample_poster], witness_world, sample_input_queue, sample_queue) =
      Some (ms', w', iq', oq') \<and> q_events iq' = []"
  by (rule stage_without_basic_drains_its_input) simp

text \<open>The device of a mouse whose button 1 was reported is ungrabbed.\<close>

definition sample_mouse_queue :: event_queue where
  "sample_mouse_queue =
     sample_shift_queue\<lparr>q_pointing_buttons :=
       [\<lparr>apb_type = apb_increase, apb_usage_pair = Usage_Pair page_button 1, apb_device = 1\<rparr>]\<rparr>"

definition sample_ungrabbed :: entry where
  "sample_ungrabbed = (sample_key_entry (mse 7 4) single 9)\<lparr>en_event := Ev_device_ungrabbed\<rparr>"

theorem ungrabbed_device_leaves_nothing_down_witness:
  "\<exists>v' oq'. manipulate_front sample_machine 9 [] sample_ungrabbed [M_post_event_to_virtual_devices sample_poster]
        (witness_world, sample_mouse_queue) =
      Some (False, sample_ungrabbed, [M_post_event_to_virtual_devices v'], witness_world, oq') \<and>
     q_pointing_buttons oq' = [] \<and> pv_pressed_buttons v' = report_buttons pair_hid_report_ops oq'"
proof -
  let ?ms = "[M_post_event_to_virtual_devices sample_poster]"
  have e: "en_event sample_ungrabbed = Ev_device_ungrabbed" "en_device_id sample_ungrabbed = 1"
    by (simp_all add: sample_ungrabbed_def sample_key_entry_def make_entry_def)
  obtain v' oq' where m: "manipulate_front sample_machine 9 [] sample_ungrabbed ?ms (witness_world, sample_mouse_queue) =
      Some (False, sample_ungrabbed, [M_post_event_to_virtual_devices v'], witness_world, oq')"
    and oq': "q_pointing_buttons oq' = []"
    using e by (simp add: manipulate_front_def Let_def sample_mouse_queue_def queue_erase_all_active_pointing_buttons_def
        queue_erase_all_active_modifier_flags_def erase_all_active_pointing_buttons_def erase_if_def)
  have run: "poster_run (mc_platform sample_machine) F A (mc_hid sample_machine) sample_poster" for F A
    by (simp add: sample_machine_def sample_poster_run)
  have law: "report_fields_are_sets (mc_hid sample_machine) fst snd"
    by (simp add: sample_machine_def pair_hid_report_ops_are_sets)
  from ungrabbed_device_leaves_nothing_down[OF run law e(1) _ _ m, of 0] m oq' show ?thesis
    by (auto simp: sample_machine_def)
qed

end
