(* ===== verification/Json.thy ===== *)
theory Json
  imports Prelude "HOL-Library.Char_ord" "HOL-Library.List_Lexorder" "HOL-Library.Log_Nat"
begin

text \<open>
  JSON values and the helpers of \<open>src/share/json_utility.hpp\<close> and of the bundled \<open>pqrs/json.hpp\<close>
  the configuration is read and written with.

  A \<open>nlohmann::json\<close> object is a \<open>std::map\<close>: its members are kept in the order of their keys,
  compared byte by byte, each key once. The model keeps the same list. An exception is a value
  \<open>Inl e\<close>; \<open>Unmarshal_error\<close> carries the parts of its message, so that the prefixes added by the
  catch clauses are visible, and the parts that are dumped values stay values. Text of a
  configuration file is parsed by the bundled library, which is not modelled: the development
  starts from the parsed value.
\<close>

subsection \<open>Values\<close>

datatype json =
    JNull
  | JBool bool
  | JInt int
  | JFloat rat
  | JString string
  | JArray "json list"
  | JObject "(string \<times> json) list"

fun json_is_object :: "json \<Rightarrow> bool" where
  "json_is_object (JObject _) = True"
| "json_is_object _ = False"

fun json_is_array :: "json \<Rightarrow> bool" where
  "json_is_array (JArray _) = True"
| "json_is_array _ = False"

fun json_is_string :: "json \<Rightarrow> bool" where
  "json_is_string (JString _) = True"
| "json_is_string _ = False"

fun json_is_boolean :: "json \<Rightarrow> bool" where
  "json_is_boolean (JBool _) = True"
| "json_is_boolean _ = False"

fun json_is_number :: "json \<Rightarrow> bool" where
  "json_is_number (JInt _) = True"
| "json_is_number (JFloat _) = True"
| "json_is_number _ = False"

text \<open>
  \<open>empty()\<close> answers true for null and for a container without elements; a string is never
  empty, and has size 1.
\<close>

fun json_empty :: "json \<Rightarrow> bool" where
  "json_empty JNull = True"
| "json_empty (JArray js) = (js = [])"
| "json_empty (JObject ms) = (ms = [])"
| "json_empty _ = False"

fun json_size :: "json \<Rightarrow> nat" where
  "json_size JNull = 0"
| "json_size (JArray js) = length js"
| "json_size (JObject ms) = length ms"
| "json_size _ = 1"

text \<open>The elements a loop over an array visits.\<close>

fun json_elements :: "json \<Rightarrow> json list" where
  "json_elements (JArray js) = js"
| "json_elements _ = []"

subsection \<open>Members of an object\<close>

fun put_member :: "string \<Rightarrow> 'a \<Rightarrow> (string \<times> 'a) list \<Rightarrow> (string \<times> 'a) list" where
  "put_member k v [] = [(k, v)]"
| "put_member k v ((k', v') # ms) =
     (if k = k' then (k, v) # ms
      else if k < k' then (k, v) # (k', v') # ms
      else (k', v') # put_member k v ms)"

definition erase_member :: "string \<Rightarrow> (string \<times> 'a) list \<Rightarrow> (string \<times> 'a) list" where
  "erase_member k ms = filter (\<lambda>m. fst m \<noteq> k) ms"

fun json_items :: "json \<Rightarrow> (string \<times> json) list" where
  "json_items (JObject ms) = ms"
| "json_items _ = []"

definition json_find :: "json \<Rightarrow> string \<Rightarrow> json option" where
  "json_find j k = map_of (json_items j) k"

text \<open>\<open>json[key] = value\<close> on an object; null becomes an object, any other value throws.\<close>

definition json_set :: "string \<Rightarrow> json \<Rightarrow> json \<Rightarrow> json" where
  "json_set k v j =
     (case j of
        JObject ms \<Rightarrow> JObject (put_member k v ms)
      | JNull \<Rightarrow> JObject [(k, v)]
      | _ \<Rightarrow> j)"

definition json_erase :: "string \<Rightarrow> json \<Rightarrow> json" where
  "json_erase k j = (case j of JObject ms \<Rightarrow> JObject (erase_member k ms) | _ \<Rightarrow> j)"

lemma map_of_put_member [simp]: "map_of (put_member k v ms) = (map_of ms)(k \<mapsto> v)"
  by (induction ms) (auto simp: fun_eq_iff)

lemma map_of_erase_member [simp]: "map_of (erase_member k ms) = (map_of ms)(k := None)"
  by (induction ms) (auto simp: erase_member_def fun_eq_iff)

lemma json_find_set [simp]:
  "json_is_object j \<Longrightarrow> json_find (json_set k v j) k' = (if k' = k then Some v else json_find j k')"
  by (cases j) (auto simp: json_find_def json_set_def)

lemma json_find_erase [simp]:
  "json_find (json_erase k j) k' = (if k' = k then None else json_find j k')"
  by (cases j) (auto simp: json_find_def json_erase_def)

lemma json_is_object_set [simp]: "json_is_object j \<Longrightarrow> json_is_object (json_set k v j)"
  by (cases j) (auto simp: json_set_def)

lemma json_is_object_erase [simp]: "json_is_object (json_erase k j) = json_is_object j"
  by (cases j) (auto simp: json_erase_def)

lemma json_find_not_object: "\<not> json_is_object j \<Longrightarrow> json_find j k = None"
  by (cases j) (auto simp: json_find_def)

text \<open>Every object the program handles keeps its members in strictly increasing key order.\<close>

definition members_ok :: "(string \<times> 'a) list \<Rightarrow> bool" where
  "members_ok ms \<longleftrightarrow> sorted_wrt (<) (map fst ms)"

fun json_ok :: "json \<Rightarrow> bool" where
  "json_ok (JArray js) = list_all json_ok js"
| "json_ok (JObject ms) = (members_ok ms \<and> list_all (\<lambda>m. json_ok (snd m)) ms)"
| "json_ok _ = True"

lemma set_put_member: "set (put_member k v ms) \<subseteq> insert (k, v) (set ms)"
  by (induction ms) (auto split: if_splits)

lemma put_member_ok: "members_ok ms \<Longrightarrow> members_ok (put_member k v ms)"
proof (induction ms)
  case (Cons m ms)
  have "fst x \<in> insert k (fst ` set ms)" if "x \<in> set (put_member k v ms)" for x
    using set_put_member[of k v ms] that by auto
  with Cons show ?case
    by (cases m) (fastforce simp: members_ok_def not_less)
qed (simp add: members_ok_def)

lemma erase_member_ok: "members_ok ms \<Longrightarrow> members_ok (erase_member k ms)"
  by (induction ms) (auto simp: members_ok_def erase_member_def)

lemma json_set_ok: "json_ok j \<Longrightarrow> json_ok v \<Longrightarrow> json_ok (json_set k v j)"
proof (cases j)
  case (JObject ms)
  assume "json_ok j" "json_ok v"
  then show ?thesis using set_put_member[of k v ms] JObject
    by (auto simp: json_set_def put_member_ok list_all_iff)
qed (auto simp: json_set_def members_ok_def)

lemma json_erase_ok: "json_ok j \<Longrightarrow> json_ok (json_erase k j)"
  by (cases j) (auto simp: json_erase_def erase_member_ok list_all_iff, auto simp: erase_member_def)

lemma members_ok_distinct: "members_ok ms \<Longrightarrow> distinct (map fst ms)"
  by (induction ms) (auto simp: members_ok_def)

text \<open>Two objects in key order with the same members are the same.\<close>

lemma members_by_keys:
  "distinct (map fst ms) \<Longrightarrow> map (\<lambda>k. (k, the (map_of ms k))) (map fst ms) = ms"
  by (auto intro!: map_idI simp: map_of_eq_Some_iff)

lemma members_ok_eqI:
  assumes "members_ok ms" "members_ok ns" "map_of ms = map_of ns"
  shows "ms = ns"
proof -
  have "map fst ms = map fst ns"
  proof (rule sorted_distinct_set_unique)
    show "set (map fst ms) = set (map fst ns)"
      using assms(3) by (simp add: dom_map_of_conv_image_fst[symmetric])
  qed (use assms(1,2) in \<open>simp_all add: members_ok_distinct members_ok_def strict_sorted_imp_sorted\<close>)
  then show ?thesis
    using assms members_by_keys members_ok_distinct by metis
qed

subsection \<open>Exceptions\<close>

datatype message_part = Text string | Dump json

type_synonym message = "message_part list"

text \<open>
  \<open>Unmarshal_error\<close> is \<open>pqrs::json::unmarshal_error\<close>, \<open>Json_type_error\<close> the exception of
  \<open>nlohmann::json\<close> for a value of another type, \<open>Parse_error\<close> the one for a text that is no JSON. \<open>Undefined_conversion\<close> stands for the conversion of a
  floating-point number to an integer type that cannot hold it, which C++ leaves undefined, and
  \<open>Bad_variant_access\<close> for an object that reads without error but throws
  \<open>std::bad_variant_access\<close> at every later use of its value.
\<close>

datatype json_error =
    Unmarshal_error message | Json_type_error | Parse_error | Undefined_conversion | Bad_variant_access

fun ok_bind :: "'e + 'a \<Rightarrow> ('a \<Rightarrow> 'e + 'b) \<Rightarrow> 'e + 'b" where
  "ok_bind (Inl e) f = Inl e"
| "ok_bind (Inr x) f = f x"

lemma ok_bind_Inr_conv [simp]: "ok_bind r f = Inr y \<longleftrightarrow> (\<exists>x. r = Inr x \<and> f x = Inr y)"
  by (cases r) auto

lemma ok_bind_assoc: "ok_bind (ok_bind r f) g = ok_bind r (\<lambda>x. ok_bind (f x) g)"
  by (cases r) auto

fun map_ok :: "('a \<Rightarrow> 'e + 'b) \<Rightarrow> 'a list \<Rightarrow> 'e + 'b list" where
  "map_ok f [] = Inr []"
| "map_ok f (x # xs) = ok_bind (f x) (\<lambda>y. ok_bind (map_ok f xs) (\<lambda>ys. Inr (y # ys)))"

lemma map_ok_Inr: "map_ok f xs = Inr ys \<Longrightarrow> length ys = length xs \<and> list_all2 (\<lambda>x y. f x = Inr y) xs ys"
  by (induction xs arbitrary: ys) auto

lemma map_ok_all: "(\<And>x. x \<in> set xs \<Longrightarrow> f x = Inr (g x)) \<Longrightarrow> map_ok f xs = Inr (map g xs)"
  by (induction xs) auto

text \<open>The catch clauses that prefix the message of an \<open>unmarshal_error\<close> and throw it again.\<close>

fun rethrow_with :: "message \<Rightarrow> json_error + 'a \<Rightarrow> json_error + 'a" where
  "rethrow_with m (Inl (Unmarshal_error e)) = Inl (Unmarshal_error (m @ e))"
| "rethrow_with m r = r"

lemma rethrow_with_Inr [simp]: "rethrow_with m r = Inr x \<longleftrightarrow> r = Inr x"
  by (cases "(m, r)" rule: rethrow_with.cases) auto

definition backquoted :: "string \<Rightarrow> string" where
  "backquoted k = ''`'' @ k @ ''`''"

definition must_be :: "string \<Rightarrow> string \<Rightarrow> json \<Rightarrow> json_error" where
  "must_be name kind j =
     Unmarshal_error [Text (name @ '' must be '' @ kind @ '', but is `''), Dump j, Text ''`'']"

definition requires_array :: "json \<Rightarrow> string \<Rightarrow> json_error + unit" where
  "requires_array j name = (if json_is_array j then Inr () else Inl (must_be name ''array'' j))"

definition requires_boolean :: "json \<Rightarrow> string \<Rightarrow> json_error + unit" where
  "requires_boolean j name = (if json_is_boolean j then Inr () else Inl (must_be name ''boolean'' j))"

definition requires_number :: "json \<Rightarrow> string \<Rightarrow> json_error + unit" where
  "requires_number j name = (if json_is_number j then Inr () else Inl (must_be name ''number'' j))"

definition requires_object :: "json \<Rightarrow> string \<Rightarrow> json_error + unit" where
  "requires_object j name = (if json_is_object j then Inr () else Inl (must_be name ''object'' j))"

definition requires_string :: "json \<Rightarrow> string \<Rightarrow> json_error + unit" where
  "requires_string j name = (if json_is_string j then Inr () else Inl (must_be name ''string'' j))"

lemma requires_object_Inr [simp]: "requires_object j name = Inr u \<longleftrightarrow> json_is_object j"
  by (cases u) (simp add: requires_object_def)

lemma requires_array_Inr [simp]: "requires_array j name = Inr u \<longleftrightarrow> json_is_array j"
  by (cases u) (simp add: requires_array_def)

lemma requires_boolean_Inr [simp]: "requires_boolean j name = Inr u \<longleftrightarrow> json_is_boolean j"
  by (cases u) (simp add: requires_boolean_def)

lemma requires_number_Inr [simp]: "requires_number j name = Inr u \<longleftrightarrow> json_is_number j"
  by (cases u) (simp add: requires_number_def)

lemma requires_string_Inr [simp]: "requires_string j name = Inr u \<longleftrightarrow> json_is_string j"
  by (cases u) (simp add: requires_string_def)

subsection \<open>Conversions of \<open>get\<close>\<close>

fun json_get_bool :: "json \<Rightarrow> json_error + bool" where
  "json_get_bool (JBool b) = Inr b"
| "json_get_bool _ = Inl Json_type_error"

fun json_get_string :: "json \<Rightarrow> json_error + string" where
  "json_get_string (JString s) = Inr s"
| "json_get_string _ = Inl Json_type_error"

text \<open>
  \<open>get<int>\<close> casts the stored number: a 64-bit integer is reduced modulo \<open>2 ^ 32\<close>, a
  \<open>double\<close> is truncated and must then fit.
\<close>

definition int32_of :: "int \<Rightarrow> int" where
  "int32_of n = (n + 2 ^ 31) mod 2 ^ 32 - 2 ^ 31"

definition truncate_double :: "rat \<Rightarrow> int" where
  "truncate_double r = (if r < 0 then \<lceil>r\<rceil> else \<lfloor>r\<rfloor>)"

fun json_get_int :: "json \<Rightarrow> json_error + int" where
  "json_get_int (JInt n) = Inr (int32_of n)"
| "json_get_int (JFloat r) =
     (let n = truncate_double r
      in if - (2 ^ 31) \<le> n \<and> n < 2 ^ 31 then Inr n else Inl Undefined_conversion)"
| "json_get_int (JBool b) = Inr (if b then 1 else 0)"
| "json_get_int _ = Inl Json_type_error"

text \<open>\<open>get\<close> of a strong typedef over \<open>uint64_t\<close>.\<close>

fun json_get_uint64 :: "json \<Rightarrow> json_error + int" where
  "json_get_uint64 (JInt n) = Inr (n mod 2 ^ 64)"
| "json_get_uint64 (JFloat r) =
     (let n = truncate_double r in if 0 \<le> n \<and> n < 2 ^ 64 then Inr n else Inl Undefined_conversion)"
| "json_get_uint64 j = Inl (must_be ''json'' ''number'' j)"

text \<open>\<open>get<int64_t>\<close>, and \<open>get<size_t>\<close> with 64 bits.\<close>

fun json_get_int64 :: "json \<Rightarrow> json_error + int" where
  "json_get_int64 (JInt n) = Inr ((n + 2 ^ 63) mod 2 ^ 64 - 2 ^ 63)"
| "json_get_int64 (JFloat r) =
     (let n = truncate_double r
      in if - (2 ^ 63) \<le> n \<and> n < 2 ^ 63 then Inr n else Inl Undefined_conversion)"
| "json_get_int64 (JBool b) = Inr (if b then 1 else 0)"
| "json_get_int64 _ = Inl Json_type_error"

fun json_get_size :: "json \<Rightarrow> json_error + nat" where
  "json_get_size (JInt n) = Inr (nat (n mod 2 ^ 64))"
| "json_get_size (JFloat r) =
     (let n = truncate_double r
      in if 0 \<le> n \<and> n < 2 ^ 64 then Inr (nat n) else Inl Undefined_conversion)"
| "json_get_size (JBool b) = Inr (if b then 1 else 0)"
| "json_get_size _ = Inl Json_type_error"

text \<open>\<open>get<double>\<close> of an integer rounds to the nearest \<open>double\<close>, ties to an even significand.\<close>

definition double_of_int :: "int \<Rightarrow> rat" where
  "double_of_int n =
     (let a = \<bar>n\<bar>;
          u = 2 ^ (floorlog 2 (nat a) - 53);
          q = a div u;
          r = a mod u
      in of_int (sgn n * u * (if 2 * r > u \<or> 2 * r = u \<and> odd q then q + 1 else q)))"

fun json_get_double :: "json \<Rightarrow> json_error + rat" where
  "json_get_double (JInt n) = Inr (double_of_int n)"
| "json_get_double (JFloat r) = Inr r"
| "json_get_double (JBool b) = Inr (if b then 1 else 0)"
| "json_get_double _ = Inl Json_type_error"

lemma int32_of_id: "- (2 ^ 31) \<le> n \<Longrightarrow> n < 2 ^ 31 \<Longrightarrow> int32_of n = n"
  by (simp add: int32_of_def mod_pos_pos_trivial)

lemma int32_of_bounds: "- (2 ^ 31) \<le> int32_of n \<and> int32_of n < 2 ^ 31"
  unfolding int32_of_def by (simp add: pos_mod_bound pos_mod_sign less_diff_eq[symmetric])

lemma double_of_int_exact: "\<bar>n\<bar> < 2 ^ 53 \<Longrightarrow> double_of_int n = of_int n"
proof -
  assume "\<bar>n\<bar> < 2 ^ 53"
  then have "nat \<bar>n\<bar> < 2 ^ 53" by (simp add: nat_less_iff)
  then have "floorlog 2 (nat \<bar>n\<bar>) \<le> 53"
    by (metis floorlog_leI less_le one_less_numeral_iff semiring_norm(76) zero_le_numeral zero_less_numeral)
  then show ?thesis by (simp add: double_of_int_def sgn_if abs_if)
qed

subsection \<open>Strings saved as an array of lines\<close>

abbreviation newline :: char where
  "newline \<equiv> CHR 0x0A"

fun unmarshal_lines :: "json list \<Rightarrow> string list option" where
  "unmarshal_lines [] = Some []"
| "unmarshal_lines (JString l # js) = map_option ((#) l) (unmarshal_lines js)"
| "unmarshal_lines (_ # js) = None"

definition string_error :: "string \<Rightarrow> json \<Rightarrow> json_error" where
  "string_error k j =
     Unmarshal_error [Text (backquoted k @ '' must be array of string, or string, but is `''), Dump j, Text ''`'']"

definition unmarshal_string :: "string \<Rightarrow> json \<Rightarrow> json_error + string" where
  "unmarshal_string k j =
     (case j of
        JString s \<Rightarrow> Inr s
      | JArray js \<Rightarrow>
          (case unmarshal_lines js of
             Some ls \<Rightarrow> Inr (butlast (concat (map (\<lambda>l. l @ [newline]) ls)))
           | None \<Rightarrow> Inl (string_error k j))
      | _ \<Rightarrow> Inl (string_error k j))"

text \<open>The lines \<open>std::getline\<close> reads from a string stream, one after the other.\<close>

fun getlines :: "string \<Rightarrow> string list" where
  "getlines [] = []"
| "getlines (c # cs) =
     (if c = newline then [] # getlines cs
      else case getlines cs of [] \<Rightarrow> [[c]] | l # ls \<Rightarrow> (c # l) # ls)"

definition marshal_string :: "string \<Rightarrow> json" where
  "marshal_string s =
     (if newline \<notin> set s then JString s else JArray (map JString (getlines s)))"

lemma unmarshal_lines_strings [simp]: "unmarshal_lines (map JString ls) = Some ls"
  by (induction ls) auto

lemma getlines_Nil_iff [simp]: "getlines s = [] \<longleftrightarrow> s = []"
  by (cases s) (auto split: list.splits)

lemma concat_getlines:
  "concat (map (\<lambda>l. l @ [newline]) (getlines s)) =
     (if s = [] \<or> last s = newline then s else s @ [newline])"
  by (induction s) (auto split: list.splits)

text \<open>A string is read back as itself, but a string of several lines loses a final newline.\<close>

lemma unmarshal_marshal_string:
  "unmarshal_string k (marshal_string s) =
     Inr (if s \<noteq> [] \<and> last s = newline then butlast s else s)"
  by (auto simp: marshal_string_def unmarshal_string_def concat_getlines dest: last_in_set)

definition storable_string :: "string \<Rightarrow> bool" where
  "storable_string s \<longleftrightarrow> s = [] \<or> last s \<noteq> newline"

lemma marshalled_string_is_string_or_array:
  "unmarshal_string k j = Inr s \<Longrightarrow> json_is_string j \<or> json_is_array j"
  by (cases j) (auto simp: unmarshal_string_def)

end
