(* ===== verification/Configuration_Json_Helper.thy ===== *)
theory Configuration_Json_Helper
  imports Json
begin

text \<open>
  \<open>src/share/core_configuration/configuration_json_helper.hpp\<close>: the members of a configuration
  class that are read from and written to JSON.

  A \<open>value_t<T>\<close> refers to a member of its class and keeps the key, the default and the origin
  of the value. The model keeps the member's value in the entry itself, so a class is the JSON
  it was made from with its entries, and a member is found by its key where the code finds it
  by its address. The type \<open>T\<close> of an entry is the constructor of its default value. Objects and
  arrays are read and written through the class's constructor and \<open>to_json\<close>, which are
  arguments; reading an array keeps the entries read before an error.
\<close>

subsection \<open>Entries\<close>

datatype config_value =
    Config_bool bool
  | Config_int int
  | Config_double rat
  | Config_string string
  | Config_milliseconds milliseconds

datatype value_origin = Default_value | From_json

datatype error_handling = strict | loose

record value_t =
  vt_key :: string
  vt_value :: config_value
  vt_default_value :: config_value
  vt_origin :: value_origin

definition value_t_initial :: "string \<times> config_value \<Rightarrow> value_t" where
  "value_t_initial d =
     \<lparr>vt_key = fst d, vt_value = snd d, vt_default_value = snd d, vt_origin = Default_value\<rparr>"

definition set_default :: "config_value \<Rightarrow> value_t \<Rightarrow> value_t" where
  "set_default d v =
     (let v1 = v\<lparr>vt_default_value := d\<rparr>
      in if vt_origin v = Default_value then v1\<lparr>vt_value := d\<rparr> else v1)"

text \<open>What \<open>update_value\<close> reads for an entry of each type.\<close>

fun unmarshal_value :: "string \<Rightarrow> config_value \<Rightarrow> json \<Rightarrow> json_error + config_value" where
  "unmarshal_value k (Config_string _) j =
     ok_bind (unmarshal_string k j) (\<lambda>s. Inr (Config_string s))"
| "unmarshal_value k (Config_milliseconds _) j =
     ok_bind (requires_number j (backquoted k)) (\<lambda>_.
     ok_bind (json_get_int j) (\<lambda>n. Inr (Config_milliseconds n)))"
| "unmarshal_value k (Config_bool _) j =
     ok_bind (requires_boolean j (backquoted k)) (\<lambda>_.
     ok_bind (json_get_bool j) (\<lambda>b. Inr (Config_bool b)))"
| "unmarshal_value k (Config_int _) j =
     ok_bind (requires_number j (backquoted k)) (\<lambda>_.
     ok_bind (json_get_int j) (\<lambda>n. Inr (Config_int n)))"
| "unmarshal_value k (Config_double _) j =
     ok_bind (requires_number j (backquoted k)) (\<lambda>_.
     ok_bind (json_get_double j) (\<lambda>r. Inr (Config_double r)))"

fun marshal_value :: "config_value \<Rightarrow> json" where
  "marshal_value (Config_string s) = marshal_string s"
| "marshal_value (Config_milliseconds n) = JInt n"
| "marshal_value (Config_bool b) = JBool b"
| "marshal_value (Config_int n) = JInt n"
| "marshal_value (Config_double r) = JFloat r"

text \<open>
  An exception is thrown again under strict handling and only logged under loose handling,
  where the entry keeps its value.
\<close>

definition update_value :: "error_handling \<Rightarrow> json \<Rightarrow> value_t \<Rightarrow> json_error + value_t" where
  "update_value eh j v =
     ok_bind (requires_object j ''json'') (\<lambda>_.
       case json_find j (vt_key v) of
         None \<Rightarrow> Inr v
       | Some x \<Rightarrow>
           (case unmarshal_value (vt_key v) (vt_default_value v) x of
              Inr y \<Rightarrow> Inr (v\<lparr>vt_value := y, vt_origin := From_json\<rparr>)
            | Inl e \<Rightarrow> if eh = strict \<or> e = Undefined_conversion then Inl e else Inr v))"

definition update_json :: "value_t \<Rightarrow> json \<Rightarrow> json" where
  "update_json v j =
     (if vt_value v \<noteq> vt_default_value v then json_set (vt_key v) (marshal_value (vt_value v)) j
      else json_erase (vt_key v) j)"

subsection \<open>\<open>helper_values\<close>\<close>

type_synonym helper_values = "value_t list"

fun update_values :: "error_handling \<Rightarrow> json \<Rightarrow> helper_values \<Rightarrow> json_error + helper_values" where
  "update_values eh j [] = Inr []"
| "update_values eh j (v # vs) =
     ok_bind (update_value eh j v) (\<lambda>v'. ok_bind (update_values eh j vs) (\<lambda>vs'. Inr (v' # vs')))"

fun update_values_json :: "helper_values \<Rightarrow> json \<Rightarrow> json" where
  "update_values_json [] j = j"
| "update_values_json (v # vs) j = update_values_json vs (update_json v j)"

definition find_value :: "string \<Rightarrow> helper_values \<Rightarrow> value_t option" where
  "find_value k vs = find (\<lambda>v. vt_key v = k) vs"

definition find_default_value :: "string \<Rightarrow> config_value \<Rightarrow> helper_values \<Rightarrow> config_value" where
  "find_default_value k fallback vs =
     (case find_value k vs of Some v \<Rightarrow> vt_default_value v | None \<Rightarrow> fallback)"

definition set_default_value :: "string \<Rightarrow> config_value \<Rightarrow> helper_values \<Rightarrow> helper_values" where
  "set_default_value k d vs = map (\<lambda>v. if vt_key v = k then set_default d v else v) vs"

text \<open>Reading and assigning a member of the class.\<close>

definition set_member :: "string \<Rightarrow> config_value \<Rightarrow> helper_values \<Rightarrow> helper_values" where
  "set_member k x vs = map (\<lambda>v. if vt_key v = k then v\<lparr>vt_value := x\<rparr> else v) vs"

definition member_value :: "string \<Rightarrow> helper_values \<Rightarrow> config_value option" where
  "member_value k vs = map_option vt_value (find_value k vs)"

definition bool_member :: "string \<Rightarrow> helper_values \<Rightarrow> bool" where
  "bool_member k vs = (case member_value k vs of Some (Config_bool b) \<Rightarrow> b | _ \<Rightarrow> False)"

definition int_member :: "string \<Rightarrow> helper_values \<Rightarrow> int" where
  "int_member k vs = (case member_value k vs of Some (Config_int n) \<Rightarrow> n | _ \<Rightarrow> 0)"

definition double_member :: "string \<Rightarrow> helper_values \<Rightarrow> rat" where
  "double_member k vs = (case member_value k vs of Some (Config_double r) \<Rightarrow> r | _ \<Rightarrow> 0)"

definition string_member :: "string \<Rightarrow> helper_values \<Rightarrow> string" where
  "string_member k vs = (case member_value k vs of Some (Config_string s) \<Rightarrow> s | _ \<Rightarrow> [])"

definition milliseconds_member :: "string \<Rightarrow> helper_values \<Rightarrow> milliseconds" where
  "milliseconds_member k vs = (case member_value k vs of Some (Config_milliseconds n) \<Rightarrow> n | _ \<Rightarrow> 0)"

subsection \<open>Objects and arrays\<close>

definition update_object ::
    "string \<Rightarrow> (json \<Rightarrow> json_error + 'a) \<Rightarrow> json \<Rightarrow> 'a \<Rightarrow> json_error + 'a" where
  "update_object k create j x =
     (case json_find j k of
        None \<Rightarrow> Inr x
      | Some y \<Rightarrow> rethrow_with [Text (backquoted k @ '' error: '')] (create y))"

definition update_object_json :: "string \<Rightarrow> ('a \<Rightarrow> json) \<Rightarrow> 'a \<Rightarrow> json \<Rightarrow> json" where
  "update_object_json k to_json x j =
     (if \<not> json_empty (to_json x) then json_set k (to_json x) j else json_erase k j)"

fun push_entries ::
    "string \<Rightarrow> (json \<Rightarrow> json_error + 'a) \<Rightarrow> json list \<Rightarrow> 'a list \<Rightarrow> 'a list \<times> json_error option" where
  "push_entries k create [] xs = (xs, None)"
| "push_entries k create (j # js) xs =
     (case rethrow_with [Text (backquoted k @ '' entry error: '')] (create j) of
        Inl e \<Rightarrow> (xs, Some e)
      | Inr x \<Rightarrow> push_entries k create js (xs @ [x]))"

definition update_array ::
    "string \<Rightarrow> (json \<Rightarrow> json_error + 'a) \<Rightarrow> json \<Rightarrow> 'a list \<Rightarrow> 'a list \<times> json_error option" where
  "update_array k create j xs =
     (case requires_object j ''json'' of
        Inl e \<Rightarrow> (xs, Some e)
      | Inr _ \<Rightarrow>
          (case json_find j k of
             None \<Rightarrow> (xs, None)
           | Some y \<Rightarrow>
               (case requires_array y (backquoted k) of
                  Inl e \<Rightarrow> (xs, Some e)
                | Inr _ \<Rightarrow> push_entries k create (case y of JArray js \<Rightarrow> js | _ \<Rightarrow> []) xs)))"

definition update_array_json :: "string \<Rightarrow> ('a \<Rightarrow> json) \<Rightarrow> 'a list \<Rightarrow> json \<Rightarrow> json" where
  "update_array_json k to_json xs j =
     (let js = filter (\<lambda>jj. \<not> json_empty jj) (map to_json xs)
      in if js \<noteq> [] then json_set k (JArray js) j else json_erase k j)"

subsection \<open>Values that can be stored\<close>

text \<open>
  A member of type \<open>int\<close> holds a 32-bit number; a string survives when it does not end with a
  newline.
\<close>

fun storable_value :: "config_value \<Rightarrow> config_value \<Rightarrow> bool" where
  "storable_value (Config_bool _) (Config_bool _) = True"
| "storable_value (Config_int _) (Config_int n) = (- (2 ^ 31) \<le> n \<and> n < 2 ^ 31)"
| "storable_value (Config_double _) (Config_double _) = True"
| "storable_value (Config_string _) (Config_string s) = storable_string s"
| "storable_value (Config_milliseconds _) (Config_milliseconds n) = (- (2 ^ 31) \<le> n \<and> n < 2 ^ 31)"
| "storable_value _ _ = False"

lemma unmarshal_marshal_value:
  "storable_value d x \<Longrightarrow> unmarshal_value k d (marshal_value x) = Inr x"
  by (induction d x rule: storable_value.induct)
     (auto simp: requires_number_def requires_boolean_def int32_of_id unmarshal_marshal_string
        storable_string_def)

lemma unmarshal_value_kind:
  "unmarshal_value k d j = Inr x \<Longrightarrow>
     (case (d, x) of
        (Config_bool _, Config_bool _) \<Rightarrow> True | (Config_int _, Config_int _) \<Rightarrow> True
      | (Config_double _, Config_double _) \<Rightarrow> True | (Config_string _, Config_string _) \<Rightarrow> True
      | (Config_milliseconds _, Config_milliseconds _) \<Rightarrow> True | _ \<Rightarrow> False)"
  by (cases d) auto

subsection \<open>What \<open>update_json\<close> writes\<close>

lemma json_is_object_update_json [simp]: "json_is_object j \<Longrightarrow> json_is_object (update_json v j)"
  by (simp add: update_json_def)

lemma json_is_object_update_values_json [simp]:
  "json_is_object j \<Longrightarrow> json_is_object (update_values_json vs j)"
  by (induction vs arbitrary: j) simp_all

lemma find_update_json:
  "json_is_object j \<Longrightarrow>
   json_find (update_json v j) k =
     (if k = vt_key v
      then (if vt_value v \<noteq> vt_default_value v then Some (marshal_value (vt_value v)) else None)
      else json_find j k)"
  by (simp add: update_json_def)

lemma find_update_values_json_other:
  "json_is_object j \<Longrightarrow> k \<notin> vt_key ` set vs \<Longrightarrow>
   json_find (update_values_json vs j) k = json_find j k"
  by (induction vs arbitrary: j) (simp_all add: find_update_json)

lemma find_update_values_json:
  "json_is_object j \<Longrightarrow> distinct (map vt_key vs) \<Longrightarrow> v \<in> set vs \<Longrightarrow>
   json_find (update_values_json vs j) (vt_key v) =
     (if vt_value v \<noteq> vt_default_value v then Some (marshal_value (vt_value v)) else None)"
proof (induction vs arbitrary: j)
  case (Cons w vs)
  then show ?case
    by (cases "v = w")
       (auto simp: find_update_values_json_other find_update_json)
qed simp

lemma marshal_value_ok: "json_ok (marshal_value x)"
  by (cases x) (simp_all add: marshal_string_def list_all_iff)

lemma update_values_json_ok: "json_ok j \<Longrightarrow> json_ok (update_values_json vs j)"
  by (induction vs arbitrary: j) (simp_all add: update_json_def json_set_ok json_erase_ok marshal_value_ok)

subsection \<open>Reading back what was written\<close>

definition saved :: "value_t \<Rightarrow> value_t" where
  "saved v = v\<lparr>vt_origin := if vt_value v = vt_default_value v then Default_value else From_json\<rparr>"

definition initial :: "value_t \<Rightarrow> value_t" where
  "initial v = value_t_initial (vt_key v, vt_default_value v)"

definition storable :: "value_t \<Rightarrow> bool" where
  "storable v \<longleftrightarrow> storable_value (vt_default_value v) (vt_value v)"

lemma update_value_read_back:
  assumes "json_is_object j" "storable v"
    "json_find j (vt_key v) =
       (if vt_value v \<noteq> vt_default_value v then Some (marshal_value (vt_value v)) else None)"
  shows "update_value eh j (initial v) = Inr (saved v)"
  using assms
  by (cases v) (auto simp: update_value_def initial_def value_t_initial_def saved_def storable_def
      requires_object_def unmarshal_marshal_value)

lemma update_values_read_back_aux:
  "json_is_object j \<Longrightarrow>
   (\<And>v. v \<in> set vs \<Longrightarrow> storable v \<and> json_find j (vt_key v) =
       (if vt_value v \<noteq> vt_default_value v then Some (marshal_value (vt_value v)) else None)) \<Longrightarrow>
   update_values eh j (map initial vs) = Inr (map saved vs)"
  by (induction vs) (auto simp: update_value_read_back)

lemma update_values_read_back:
  assumes "json_is_object j" "distinct (map vt_key vs)" "list_all storable vs"
    "\<And>v. v \<in> set vs \<Longrightarrow> json_find j' (vt_key v) = json_find (update_values_json vs j) (vt_key v)"
    "json_is_object j'"
  shows "update_values eh j' (map initial vs) = Inr (map saved vs)"
  using assms by (intro update_values_read_back_aux)
    (auto simp: list_all_iff find_update_values_json)

lemma update_values_keys:
  "update_values eh j vs = Inr vs' \<Longrightarrow>
   map vt_key vs' = map vt_key vs \<and> map vt_default_value vs' = map vt_default_value vs"
  by (induction vs arbitrary: vs')
     (auto simp: update_value_def split: option.splits sum.splits if_splits)

text \<open>Under loose handling only a value that is no object or an undefined conversion fails.\<close>

lemma update_value_loose:
  "update_value loose j v = Inl e \<Longrightarrow>
   e = Undefined_conversion \<or> \<not> json_is_object j"
  by (auto simp: update_value_def requires_object_def split: option.splits sum.splits if_splits)

lemma update_values_loose:
  "update_values loose j vs = Inl e \<Longrightarrow> e = Undefined_conversion \<or> \<not> json_is_object j"
proof (induction vs)
  case (Cons v vs)
  then show ?case
    by (cases "update_value loose j v"; cases "update_values loose j vs")
       (auto dest: update_value_loose)
qed simp

subsection \<open>Members\<close>

lemma find_value_set_member:
  "find_value k (set_member k' x vs) =
     map_option (\<lambda>v. if k = k' then v\<lparr>vt_value := x\<rparr> else v) (find_value k vs)"
  by (induction vs) (auto simp: find_value_def set_member_def)

lemma member_value_set_member [simp]:
  "member_value k (set_member k' x vs) =
     (if k = k' then map_option (\<lambda>_. x) (member_value k vs) else member_value k vs)"
  by (auto simp: member_value_def find_value_set_member option.map_comp comp_def)

lemma member_value_key: "k \<in> vt_key ` set vs \<longleftrightarrow> member_value k vs \<noteq> None"
  by (auto simp: member_value_def find_value_def find_None_iff)

lemma find_value_saved: "find_value k (map saved vs) = map_option saved (find_value k vs)"
  by (induction vs) (auto simp: find_value_def saved_def)

lemma member_value_saved [simp]: "member_value k (map saved vs) = member_value k vs"
  by (simp add: member_value_def find_value_saved option.map_comp comp_def saved_def)

lemma set_member_keys [simp]:
  "map vt_key (set_member k x vs) = map vt_key vs"
  "map vt_default_value (set_member k x vs) = map vt_default_value vs"
  by (auto simp: set_member_def)

lemma set_member_storable:
  "list_all storable vs \<Longrightarrow>
   (\<And>v. v \<in> set vs \<Longrightarrow> vt_key v = k \<Longrightarrow> storable_value (vt_default_value v) x) \<Longrightarrow>
   list_all storable (set_member k x vs)"
  by (auto simp: set_member_def storable_def list_all_iff)

subsection \<open>Classes held by another class\<close>

text \<open>
  What \<open>object_t\<close> and \<open>array_t\<close> need of the class they hold: the constructor reads what
  \<open>to_json\<close> wrote, up to the JSON and the origins the object remembers; and for an object that
  is left out when its JSON is empty, that such an object equals a fresh one.
\<close>

locale configuration_class =
  fixes create :: "json \<Rightarrow> json_error + 'a"
    and to_json :: "'a \<Rightarrow> json"
    and view :: "'a \<Rightarrow> 'v"
    and valid :: "'a \<Rightarrow> bool"
  assumes read_back: "valid x \<Longrightarrow> \<exists>y. create (to_json x) = Inr y \<and> view y = view x"
begin

lemma push_entries_read_back:
  "list_all valid xs \<Longrightarrow>
   \<exists>ys. push_entries k create (map to_json xs) zs = (zs @ ys, None) \<and> map view ys = map view xs"
proof (induction xs arbitrary: zs)
  case (Cons x xs)
  then obtain y where y: "create (to_json x) = Inr y" "view y = view x"
    using read_back by auto
  from Cons.IH[of "zs @ [y]"] Cons.prems obtain ys
    where "push_entries k create (map to_json xs) (zs @ [y]) = ((zs @ [y]) @ ys, None)"
      "map view ys = map view xs" by auto
  with y show ?case by (intro exI[of _ "y # ys"]) simp
qed simp

lemma array_read_back:
  assumes "list_all valid xs" "json_is_object j"
  shows "\<exists>ys. update_array k create (update_array_json k to_json xs j) [] = (ys, None) \<and>
    map view ys = map view (filter (\<lambda>x. \<not> json_empty (to_json x)) xs)"
proof -
  let ?xs = "filter (\<lambda>x. \<not> json_empty (to_json x)) xs"
  have "list_all valid ?xs" using assms(1) by (auto simp: list_all_iff)
  from push_entries_read_back[OF this, of k "[]"] obtain ys
    where "push_entries k create (map to_json ?xs) [] = (ys, None)" "map view ys = map view ?xs"
    by auto
  moreover have "filter (\<lambda>jj. \<not> json_empty jj) (map to_json xs) = map to_json ?xs"
    by (simp add: filter_map comp_def)
  ultimately show ?thesis
    using assms(2) by (auto simp: update_array_def update_array_json_def Let_def
        requires_object_def requires_array_def)
qed

end

locale configuration_object = configuration_class create to_json view valid
  for create :: "json \<Rightarrow> json_error + 'a" and to_json :: "'a \<Rightarrow> json"
    and view :: "'a \<Rightarrow> 'v" and valid :: "'a \<Rightarrow> bool" +
  fixes fresh :: 'a
  assumes empty_is_fresh: "valid x \<Longrightarrow> json_empty (to_json x) \<Longrightarrow> view x = view fresh"
begin

lemma object_read_back:
  assumes "valid x" "json_find j k = json_find (update_object_json k to_json x j0) k" "json_is_object j0"
  shows "\<exists>y. update_object k create j fresh = Inr y \<and> view y = view x"
proof (cases "json_empty (to_json x)")
  case True
  then show ?thesis
    using assms empty_is_fresh[OF assms(1)] by (simp add: update_object_def update_object_json_def)
next
  case False
  then show ?thesis
    using assms read_back[OF assms(1)] by (auto simp: update_object_def update_object_json_def)
qed

end

subsection \<open>Classes with values only\<close>

record settings =
  st_json :: json
  st_values :: helper_values

type_synonym defaults = "(string \<times> config_value) list"

definition create_settings :: "defaults \<Rightarrow> error_handling \<Rightarrow> json \<Rightarrow> json_error + settings" where
  "create_settings ds eh j =
     ok_bind (requires_object j ''json'') (\<lambda>_.
     ok_bind (update_values eh j (map value_t_initial ds)) (\<lambda>vs.
     Inr \<lparr>st_json = j, st_values = vs\<rparr>))"

definition settings_to_json :: "settings \<Rightarrow> json" where
  "settings_to_json st = update_values_json (st_values st) (st_json st)"

definition assign :: "string \<Rightarrow> config_value \<Rightarrow> settings \<Rightarrow> settings" where
  "assign k x st = st\<lparr>st_values := set_member k x (st_values st)\<rparr>"

definition settings_view :: "settings \<Rightarrow> (string \<times> config_value) list" where
  "settings_view st = map (\<lambda>v. (vt_key v, vt_value v)) (st_values st)"

definition settings_ok :: "defaults \<Rightarrow> settings \<Rightarrow> bool" where
  "settings_ok ds st \<longleftrightarrow>
     json_is_object (st_json st) \<and> distinct (map fst ds) \<and>
     map vt_key (st_values st) = map fst ds \<and> map vt_default_value (st_values st) = map snd ds \<and>
     list_all storable (st_values st)"

lemma map_initial:
  "map vt_key vs = map fst ds \<Longrightarrow> map vt_default_value vs = map snd ds \<Longrightarrow>
   map value_t_initial ds = map initial vs"
  by (induction vs arbitrary: ds) (auto simp: initial_def)

lemma settings_to_json_object [simp]: "settings_ok ds st \<Longrightarrow> json_is_object (settings_to_json st)"
  by (simp add: settings_to_json_def settings_ok_def)

lemma settings_read_back:
  assumes "settings_ok ds st"
  shows "create_settings ds eh (settings_to_json st) =
    Inr \<lparr>st_json = settings_to_json st, st_values = map saved (st_values st)\<rparr>"
proof -
  have "update_values eh (settings_to_json st) (map initial (st_values st)) = Inr (map saved (st_values st))"
    using assms by (intro update_values_read_back[of "st_json st"])
      (auto simp: settings_ok_def settings_to_json_def)
  then show ?thesis
    using assms map_initial[of "st_values st" ds]
    by (simp add: create_settings_def requires_object_def settings_ok_def settings_to_json_def)
qed

lemma map_saved_view: "map (\<lambda>v. (vt_key v, vt_value v)) (map saved vs) = map (\<lambda>v. (vt_key v, vt_value v)) vs"
  by (simp add: saved_def)

lemma settings_empty_defaults:
  assumes "settings_ok ds st" "json_empty (settings_to_json st)"
  shows "settings_view st = ds"
proof -
  have find: "json_find (settings_to_json st) k = None" for k
    using assms(2) by (cases "settings_to_json st") (auto simp: json_find_def)
  have "vt_value v = vt_default_value v" if "v \<in> set (st_values st)" for v
    using find[of "vt_key v"] assms(1) that find_update_values_json[of "st_json st" "st_values st" v]
    by (auto simp: settings_ok_def settings_to_json_def split: if_splits)
  then have "settings_view st = map (\<lambda>v. (vt_key v, vt_default_value v)) (st_values st)"
    by (simp add: settings_view_def)
  also have "\<dots> = zip (map vt_key (st_values st)) (map vt_default_value (st_values st))"
    by (simp add: zip_map_map zip_same_conv_map)
  also have "\<dots> = ds" using assms(1) by (simp add: settings_ok_def zip_map_fst_snd)
  finally show ?thesis .
qed

lemma assign_ok:
  assumes "settings_ok ds st" "\<And>d. (k, d) \<in> set ds \<Longrightarrow> storable_value d x"
  shows "settings_ok ds (assign k x st)"
proof -
  have zip: "ds = zip (map vt_key (st_values st)) (map vt_default_value (st_values st))"
    using assms(1) by (simp add: settings_ok_def zip_map_fst_snd)
  have "(vt_key v, vt_default_value v) \<in> set ds" if "v \<in> set (st_values st)" for v
    using that by (subst zip) (auto simp: zip_map_map zip_same_conv_map)
  with assms show ?thesis
    by (auto simp: settings_ok_def assign_def intro!: set_member_storable)
qed

lemma storable_value_default:
  "unmarshal_value k d j = Inr x \<Longrightarrow> storable_value d d \<Longrightarrow>
   (case x of Config_string s \<Rightarrow> storable_string s | _ \<Rightarrow> True) \<Longrightarrow> storable_value d x"
  using int32_of_bounds[of "case j of JInt n \<Rightarrow> n | _ \<Rightarrow> 0"]
  by (cases d; cases j) (auto simp: Let_def split: if_splits)

end
