(* ===== verification/Configuration_Details.thy ===== *)
theory Configuration_Details
  imports Configuration_Json_Helper "HOL-Library.Multiset"
begin

text \<open>
  The classes of \<open>src/share/core_configuration/details\<close> that hold values only (virtual_hid_keyboard,
  parameters, complex_modifications_parameters, global_configuration, the entries of
  machine_specific), the complex modifications rules, and \<open>src/share/vector_utility.hpp\<close>. Every
  such class is the \<open>settings\<close> of its default values; the interpretations give their round trips.
\<close>

subsection \<open>Moving an element\<close>

definition swap :: "nat \<Rightarrow> 'a list \<Rightarrow> 'a list" where
  "swap i v = v[i := v ! Suc i, Suc i := v ! i]"

text \<open>The loop to the right runs \<open>n\<close> times from \<open>i\<close>; the loop to the left stops at \<open>destination\<close>.\<close>

fun move_right :: "nat \<Rightarrow> nat \<Rightarrow> 'a list \<Rightarrow> 'a list" where
  "move_right 0 i v = v"
| "move_right (Suc n) i v = move_right n (Suc i) (swap i v)"

fun move_left :: "nat \<Rightarrow> nat \<Rightarrow> 'a list \<Rightarrow> 'a list" where
  "move_left d i v =
     (if d \<le> i then (let v' = swap i v in if i = 0 then v' else move_left d (i - 1) v') else v)"

declare move_left.simps [simp del]

definition move_element :: "nat \<Rightarrow> nat \<Rightarrow> 'a list \<Rightarrow> 'a list" where
  "move_element source destination v =
     (if source \<ge> length v \<or> destination > length v then v
      else if source < destination then move_right (destination - 1 - source) source v
      else if destination < source then move_left destination (source - 1) v
      else v)"

lemma swap_append: "length xs = i \<Longrightarrow> swap i (xs @ a # b # ys) = xs @ b # a # ys"
  by (simp add: swap_def list_update_append nth_append)

lemma move_right_append:
  "length ys = n \<Longrightarrow> move_right n (length xs) (xs @ a # ys @ zs) = xs @ ys @ a # zs"
proof (induction ys arbitrary: n xs)
  case (Cons y ys)
  then obtain m where "n = Suc m" "length ys = m" by (cases n) auto
  with Cons.IH[of m "xs @ [y]"] show ?case by (simp add: swap_append)
qed simp

lemma move_left_append:
  "ys \<noteq> [] \<Longrightarrow> move_left (length xs) (length xs + length ys - 1) (xs @ ys @ a # zs) = xs @ a # ys @ zs"
proof (induction ys arbitrary: zs rule: rev_induct)
  case (snoc y ys)
  have swapped: "swap (length xs + length ys) (xs @ (ys @ [y]) @ a # zs) = xs @ ys @ a # y # zs"
    using swap_append[of "xs @ ys" _ y a zs] by simp
  show ?case
  proof (cases "ys = []")
    case True
    then show ?thesis using swapped
      by (cases "length xs") (simp_all add: move_left.simps[of "length xs"] move_left.simps)
  next
    case False
    then show ?thesis using swapped snoc.IH[OF False, of "y # zs"]
      by (subst move_left.simps) (simp add: Let_def)
  qed
qed simp

lemma split_right:
  assumes "s < d" "d \<le> length v"
  shows "take s v @ v ! s # drop (Suc s) (take d v) @ drop d v = v"
proof -
  have "drop (Suc s) (take d v) @ drop d v = drop (Suc s) v"
    using assms by (metis (no_types) Suc_leI append_take_drop_id drop_append length_take min.absorb2
        diff_is_0_eq drop_0)
  then show ?thesis using assms by (metis Cons_nth_drop_Suc append_take_drop_id less_le_trans)
qed

lemma split_left:
  assumes "d < s" "s < length v"
  shows "take d v @ drop d (take s v) @ v ! s # drop (Suc s) v = v"
proof -
  have "take d v @ drop d (take s v) = take s v"
    using assms by (metis append_take_drop_id less_imp_le_nat min.absorb1 take_take)
  then show ?thesis using assms by (metis Cons_nth_drop_Suc append_assoc append_take_drop_id)
qed

text \<open>
  Within bounds the element leaves its place and is inserted before the one that was at
  \<open>destination\<close> (or at the end).
\<close>

lemma move_element_eq:
  assumes "source < length v" "destination \<le> length v"
  shows "move_element source destination v =
    (if source < destination
     then take source v @ drop (Suc source) (take destination v) @ v ! source # drop destination v
     else take destination v @ v ! source # drop destination (take source v) @ drop (Suc source) v)"
proof -
  consider "source < destination" | "destination < source" | "source = destination" by linarith
  then show ?thesis
  proof cases
    case 1
    let ?ys = "drop (Suc source) (take destination v)"
    have v: "take source v @ v ! source # ?ys @ drop destination v = v"
      using split_right[OF 1 assms(2)] .
    have "move_right (destination - 1 - source) (length (take source v))
        (take source v @ v ! source # ?ys @ drop destination v) =
      take source v @ ?ys @ v ! source # drop destination v"
      by (rule move_right_append) (use assms 1 in simp)
    with v show ?thesis using assms 1 by (simp add: move_element_def)
  next
    case 2
    let ?ys = "drop destination (take source v)"
    have v: "take destination v @ ?ys @ v ! source # drop (Suc source) v = v"
      using split_left[OF 2 assms(1)] .
    have "move_left (length (take destination v)) (length (take destination v) + length ?ys - 1)
        (take destination v @ ?ys @ v ! source # drop (Suc source) v) =
      take destination v @ v ! source # ?ys @ drop (Suc source) v"
      by (rule move_left_append) (use assms 2 in auto)
    with v show ?thesis using assms 2 by (simp add: move_element_def min_def split: if_splits)
  next
    case 3
    then show ?thesis using assms by (simp add: move_element_def id_take_nth_drop[symmetric])
  qed
qed

lemma mset_move_element: "mset (move_element source destination v) = mset v"
proof (cases "source < length v \<and> destination \<le> length v \<and> source \<noteq> destination")
  case True
  then consider "source < destination" | "destination < source" by linarith
  then show ?thesis
  proof cases
    case 1
    have "mset v = mset (take source v @ v ! source # drop (Suc source) (take destination v) @ drop destination v)"
      using split_right[OF 1, of v] True by simp
    then show ?thesis using move_element_eq[of source v destination] True 1 by simp
  next
    case 2
    have "mset v = mset (take destination v @ drop destination (take source v) @ v ! source # drop (Suc source) v)"
      using split_left[OF 2, of v] True by simp
    then show ?thesis using move_element_eq[of source v destination] True 2 by simp
  qed
qed (auto simp: move_element_def)

subsection \<open>virtual_hid_keyboard\<close>

definition virtual_hid_keyboard_values :: defaults where
  "virtual_hid_keyboard_values =
     [(''keyboard_type_v2'', Config_string []),
      (''mouse_key_xy_scale'', Config_int 100),
      (''indicate_sticky_modifier_keys_state'', Config_bool True)]"

definition virtual_hid_keyboard :: "error_handling \<Rightarrow> json \<Rightarrow> json_error + settings" where
  "virtual_hid_keyboard = create_settings virtual_hid_keyboard_values"

definition get_keyboard_type_v2 :: "settings \<Rightarrow> string" where
  "get_keyboard_type_v2 st = string_member ''keyboard_type_v2'' (st_values st)"
definition set_keyboard_type_v2 :: "string \<Rightarrow> settings \<Rightarrow> settings" where
  "set_keyboard_type_v2 x = assign ''keyboard_type_v2'' (Config_string x)"

definition get_mouse_key_xy_scale :: "settings \<Rightarrow> int" where
  "get_mouse_key_xy_scale st = int_member ''mouse_key_xy_scale'' (st_values st)"
definition set_mouse_key_xy_scale :: "int \<Rightarrow> settings \<Rightarrow> settings" where
  "set_mouse_key_xy_scale x = assign ''mouse_key_xy_scale'' (Config_int (if x < 0 then 0 else x))"

definition get_indicate_sticky_modifier_keys_state :: "settings \<Rightarrow> bool" where
  "get_indicate_sticky_modifier_keys_state st = bool_member ''indicate_sticky_modifier_keys_state'' (st_values st)"
definition set_indicate_sticky_modifier_keys_state :: "bool \<Rightarrow> settings \<Rightarrow> settings" where
  "set_indicate_sticky_modifier_keys_state x = assign ''indicate_sticky_modifier_keys_state'' (Config_bool x)"

datatype iokit_keyboard_type = iso | jis | ansi

definition get_iokit_keyboard_type :: "settings \<Rightarrow> iokit_keyboard_type" where
  "get_iokit_keyboard_type st =
     (if get_keyboard_type_v2 st = ''iso'' then iso
      else if get_keyboard_type_v2 st = ''jis'' then jis
      else ansi)"

subsection \<open>parameters\<close>

definition parameters_values :: defaults where
  "parameters_values =
     [(''delay_milliseconds_before_open_device'', Config_milliseconds 1000)]"

definition parameters :: "error_handling \<Rightarrow> json \<Rightarrow> json_error + settings" where
  "parameters = create_settings parameters_values"

definition get_delay_milliseconds_before_open_device :: "settings \<Rightarrow> milliseconds" where
  "get_delay_milliseconds_before_open_device st = milliseconds_member ''delay_milliseconds_before_open_device'' (st_values st)"
definition set_delay_milliseconds_before_open_device :: "milliseconds \<Rightarrow> settings \<Rightarrow> settings" where
  "set_delay_milliseconds_before_open_device x = assign ''delay_milliseconds_before_open_device'' (Config_milliseconds x)"

subsection \<open>global_configuration\<close>

definition global_configuration_values :: defaults where
  "global_configuration_values =
     [(''check_for_updates_on_startup'', Config_bool True),
      (''show_in_menu_bar'', Config_bool True),
      (''show_profile_name_in_menu_bar'', Config_bool False),
      (''show_additional_menu_items'', Config_bool False),
      (''enable_notification_window'', Config_bool True),
      (''ask_for_confirmation_before_quitting'', Config_bool True),
      (''unsafe_ui'', Config_bool False),
      (''filter_useless_events_from_specific_devices'', Config_bool True),
      (''reorder_same_timestamp_input_events_to_prioritize_modifiers'', Config_bool True)]"

definition global_configuration :: "error_handling \<Rightarrow> json \<Rightarrow> json_error + settings" where
  "global_configuration = create_settings global_configuration_values"

definition get_check_for_updates_on_startup :: "settings \<Rightarrow> bool" where
  "get_check_for_updates_on_startup st = bool_member ''check_for_updates_on_startup'' (st_values st)"
definition set_check_for_updates_on_startup :: "bool \<Rightarrow> settings \<Rightarrow> settings" where
  "set_check_for_updates_on_startup x = assign ''check_for_updates_on_startup'' (Config_bool x)"

definition get_show_in_menu_bar :: "settings \<Rightarrow> bool" where
  "get_show_in_menu_bar st = bool_member ''show_in_menu_bar'' (st_values st)"
definition set_show_in_menu_bar :: "bool \<Rightarrow> settings \<Rightarrow> settings" where
  "set_show_in_menu_bar x = assign ''show_in_menu_bar'' (Config_bool x)"

definition get_show_profile_name_in_menu_bar :: "settings \<Rightarrow> bool" where
  "get_show_profile_name_in_menu_bar st = bool_member ''show_profile_name_in_menu_bar'' (st_values st)"
definition set_show_profile_name_in_menu_bar :: "bool \<Rightarrow> settings \<Rightarrow> settings" where
  "set_show_profile_name_in_menu_bar x = assign ''show_profile_name_in_menu_bar'' (Config_bool x)"

definition get_show_additional_menu_items :: "settings \<Rightarrow> bool" where
  "get_show_additional_menu_items st = bool_member ''show_additional_menu_items'' (st_values st)"
definition set_show_additional_menu_items :: "bool \<Rightarrow> settings \<Rightarrow> settings" where
  "set_show_additional_menu_items x = assign ''show_additional_menu_items'' (Config_bool x)"

definition get_enable_notification_window :: "settings \<Rightarrow> bool" where
  "get_enable_notification_window st = bool_member ''enable_notification_window'' (st_values st)"
definition set_enable_notification_window :: "bool \<Rightarrow> settings \<Rightarrow> settings" where
  "set_enable_notification_window x = assign ''enable_notification_window'' (Config_bool x)"

definition get_ask_for_confirmation_before_quitting :: "settings \<Rightarrow> bool" where
  "get_ask_for_confirmation_before_quitting st = bool_member ''ask_for_confirmation_before_quitting'' (st_values st)"
definition set_ask_for_confirmation_before_quitting :: "bool \<Rightarrow> settings \<Rightarrow> settings" where
  "set_ask_for_confirmation_before_quitting x = assign ''ask_for_confirmation_before_quitting'' (Config_bool x)"

definition get_unsafe_ui :: "settings \<Rightarrow> bool" where
  "get_unsafe_ui st = bool_member ''unsafe_ui'' (st_values st)"
definition set_unsafe_ui :: "bool \<Rightarrow> settings \<Rightarrow> settings" where
  "set_unsafe_ui x = assign ''unsafe_ui'' (Config_bool x)"

definition get_filter_useless_events_from_specific_devices :: "settings \<Rightarrow> bool" where
  "get_filter_useless_events_from_specific_devices st = bool_member ''filter_useless_events_from_specific_devices'' (st_values st)"
definition set_filter_useless_events_from_specific_devices :: "bool \<Rightarrow> settings \<Rightarrow> settings" where
  "set_filter_useless_events_from_specific_devices x = assign ''filter_useless_events_from_specific_devices'' (Config_bool x)"

definition get_reorder_same_timestamp_input_events_to_prioritize_modifiers :: "settings \<Rightarrow> bool" where
  "get_reorder_same_timestamp_input_events_to_prioritize_modifiers st = bool_member ''reorder_same_timestamp_input_events_to_prioritize_modifiers'' (st_values st)"
definition set_reorder_same_timestamp_input_events_to_prioritize_modifiers :: "bool \<Rightarrow> settings \<Rightarrow> settings" where
  "set_reorder_same_timestamp_input_events_to_prioritize_modifiers x = assign ''reorder_same_timestamp_input_events_to_prioritize_modifiers'' (Config_bool x)"

subsection \<open>complex_modifications_parameters\<close>

definition complex_modifications_parameters_values :: defaults where
  "complex_modifications_parameters_values =
     [(''basic.simultaneous_threshold_milliseconds'', Config_int 50),
      (''basic.to_if_alone_timeout_milliseconds'', Config_int 1000),
      (''basic.to_if_held_down_threshold_milliseconds'', Config_int 500),
      (''basic.to_delayed_action_delay_milliseconds'', Config_int 500),
      (''mouse_motion_to_scroll.speed'', Config_int 100)]"

definition adjust_value :: "string \<Rightarrow> int option \<Rightarrow> int option \<Rightarrow> helper_values \<Rightarrow> helper_values" where
  "adjust_value k lower upper vs =
     (case find_value k vs of
        None \<Rightarrow> vs
      | Some _ \<Rightarrow>
          (let n = int_member k vs;
               n1 = (case lower of Some l \<Rightarrow> max n l | None \<Rightarrow> n);
               n2 = (case upper of Some u \<Rightarrow> min n1 u | None \<Rightarrow> n1)
           in set_member k (Config_int n2) vs))"

definition adjust_values :: "settings \<Rightarrow> settings" where
  "adjust_values st = st\<lparr>st_values :=
     adjust_value ''mouse_motion_to_scroll.speed'' (Some 1) (Some 10000)
     (adjust_value ''basic.to_delayed_action_delay_milliseconds'' (Some 0) None
     (adjust_value ''basic.to_if_held_down_threshold_milliseconds'' (Some 0) None
     (adjust_value ''basic.to_if_alone_timeout_milliseconds'' (Some 0) None
     (adjust_value ''basic.simultaneous_threshold_milliseconds'' (Some 0) (Some 1000) (st_values st)))))\<rparr>"

definition complex_modifications_parameters :: "error_handling \<Rightarrow> json \<Rightarrow> json_error + settings" where
  "complex_modifications_parameters eh j =
     ok_bind (create_settings complex_modifications_parameters_values eh j) (\<lambda>st. Inr (adjust_values st))"

text \<open>An exception leaves the object with the entries updated before it; no caller uses it then.\<close>

definition update_parameters :: "error_handling \<Rightarrow> json \<Rightarrow> settings \<Rightarrow> json_error + settings" where
  "update_parameters eh j st =
     ok_bind (requires_object j ''json'') (\<lambda>_.
     ok_bind (update_values eh j (st_values st)) (\<lambda>vs.
     Inr (adjust_values (st\<lparr>st_values := vs\<rparr>))))"

definition get_basic_simultaneous_threshold_milliseconds :: "settings \<Rightarrow> int" where
  "get_basic_simultaneous_threshold_milliseconds st = int_member ''basic.simultaneous_threshold_milliseconds'' (st_values st)"
definition set_basic_simultaneous_threshold_milliseconds :: "int \<Rightarrow> settings \<Rightarrow> settings" where
  "set_basic_simultaneous_threshold_milliseconds x st =
     adjust_values (assign ''basic.simultaneous_threshold_milliseconds'' (Config_int x) st)"

definition get_basic_to_if_alone_timeout_milliseconds :: "settings \<Rightarrow> int" where
  "get_basic_to_if_alone_timeout_milliseconds st = int_member ''basic.to_if_alone_timeout_milliseconds'' (st_values st)"
definition set_basic_to_if_alone_timeout_milliseconds :: "int \<Rightarrow> settings \<Rightarrow> settings" where
  "set_basic_to_if_alone_timeout_milliseconds x st =
     adjust_values (assign ''basic.to_if_alone_timeout_milliseconds'' (Config_int x) st)"

definition get_basic_to_if_held_down_threshold_milliseconds :: "settings \<Rightarrow> int" where
  "get_basic_to_if_held_down_threshold_milliseconds st = int_member ''basic.to_if_held_down_threshold_milliseconds'' (st_values st)"
definition set_basic_to_if_held_down_threshold_milliseconds :: "int \<Rightarrow> settings \<Rightarrow> settings" where
  "set_basic_to_if_held_down_threshold_milliseconds x st =
     adjust_values (assign ''basic.to_if_held_down_threshold_milliseconds'' (Config_int x) st)"

definition get_basic_to_delayed_action_delay_milliseconds :: "settings \<Rightarrow> int" where
  "get_basic_to_delayed_action_delay_milliseconds st = int_member ''basic.to_delayed_action_delay_milliseconds'' (st_values st)"
definition set_basic_to_delayed_action_delay_milliseconds :: "int \<Rightarrow> settings \<Rightarrow> settings" where
  "set_basic_to_delayed_action_delay_milliseconds x st =
     adjust_values (assign ''basic.to_delayed_action_delay_milliseconds'' (Config_int x) st)"

definition get_mouse_motion_to_scroll_speed :: "settings \<Rightarrow> int" where
  "get_mouse_motion_to_scroll_speed st = int_member ''mouse_motion_to_scroll.speed'' (st_values st)"
definition set_mouse_motion_to_scroll_speed :: "int \<Rightarrow> settings \<Rightarrow> settings" where
  "set_mouse_motion_to_scroll_speed x st =
     adjust_values (assign ''mouse_motion_to_scroll.speed'' (Config_int x) st)"

text \<open>The division of \<open>make_mouse_motion_to_scroll_speed_rate\<close> before its rounding to \<open>double\<close>.\<close>

definition make_mouse_motion_to_scroll_speed_rate :: "settings \<Rightarrow> rat" where
  "make_mouse_motion_to_scroll_speed_rate st = of_int (get_mouse_motion_to_scroll_speed st) / 100"

subsection \<open>machine_specific\<close>

definition machine_specific_entry_values :: defaults where
  "machine_specific_entry_values = [(''enable_multitouch_extension'', Config_bool False)]"

definition machine_specific_entry :: "error_handling \<Rightarrow> json \<Rightarrow> json_error + settings" where
  "machine_specific_entry = create_settings machine_specific_entry_values"

definition get_enable_multitouch_extension :: "settings \<Rightarrow> bool" where
  "get_enable_multitouch_extension st = bool_member ''enable_multitouch_extension'' (st_values st)"
definition set_enable_multitouch_extension :: "bool \<Rightarrow> settings \<Rightarrow> settings" where
  "set_enable_multitouch_extension x = assign ''enable_multitouch_extension'' (Config_bool x)"

text \<open>
  The entries are an unordered map; they are kept by key here, and nothing depends on the order
  in which they are written.
\<close>

record machine_specific =
  msp_json :: json
  msp_error_handling :: error_handling
  msp_entries :: "(string \<times> settings) list"

fun machine_specific_items ::
    "error_handling \<Rightarrow> (string \<times> json) list \<Rightarrow> (string \<times> settings) list \<Rightarrow>
     json_error + (string \<times> settings) list" where
  "machine_specific_items eh [] es = Inr es"
| "machine_specific_items eh ((k, v) # ms) es =
     (if json_is_object v
      then ok_bind (machine_specific_entry eh v) (\<lambda>e. machine_specific_items eh ms (put_member k e es))
      else machine_specific_items eh ms es)"

definition create_machine_specific :: "error_handling \<Rightarrow> json \<Rightarrow> json_error + machine_specific" where
  "create_machine_specific eh j =
     ok_bind (requires_object j ''json'') (\<lambda>_.
     ok_bind (machine_specific_items eh (json_items j) []) (\<lambda>es.
     Inr \<lparr>msp_json = j, msp_error_handling = eh, msp_entries = es\<rparr>))"

fun machine_specific_write :: "(string \<times> settings) list \<Rightarrow> json \<Rightarrow> json" where
  "machine_specific_write [] j = j"
| "machine_specific_write ((k, e) # es) j =
     machine_specific_write es
       (let x = settings_to_json e in if \<not> json_empty x then json_set k x j else json_erase k j)"

definition machine_specific_to_json :: "machine_specific \<Rightarrow> json" where
  "machine_specific_to_json m = machine_specific_write (msp_entries m) (msp_json m)"

text \<open>\<open>get_entry\<close> adds a fresh entry for an unknown machine; its construction cannot fail.\<close>

definition get_entry :: "string \<Rightarrow> machine_specific \<Rightarrow> settings \<times> machine_specific" where
  "get_entry i m =
     (case map_of (msp_entries m) i of
        Some e \<Rightarrow> (e, m)
      | None \<Rightarrow>
          (case machine_specific_entry (msp_error_handling m) (JObject []) of
             Inr e \<Rightarrow> (e, m\<lparr>msp_entries := put_member i e (msp_entries m)\<rparr>)
           | Inl _ \<Rightarrow> (\<lparr>st_json = JObject [], st_values = []\<rparr>, m)))"

definition update_entry :: "string \<Rightarrow> (settings \<Rightarrow> settings) \<Rightarrow> machine_specific \<Rightarrow> machine_specific" where
  "update_entry i f m =
     (let em = get_entry i m
      in (snd em)\<lparr>msp_entries := put_member i (f (fst em)) (msp_entries (snd em))\<rparr>)"

subsection \<open>The value classes are stored faithfully\<close>

definition fresh_settings :: "defaults \<Rightarrow> settings" where
  "fresh_settings ds = \<lparr>st_json = JObject [], st_values = map value_t_initial ds\<rparr>"

lemma update_values_fresh: "update_values eh (JObject []) vs = Inr vs"
  by (induction vs) (auto simp: update_value_def requires_object_def json_find_def)

lemma create_settings_fresh: "create_settings ds eh (JObject []) = Inr (fresh_settings ds)"
  by (simp add: create_settings_def fresh_settings_def requires_object_def update_values_fresh)

lemma fresh_settings_view [simp]: "settings_view (fresh_settings ds) = ds"
  by (simp add: fresh_settings_def settings_view_def value_t_initial_def comp_def)

lemma settings_configuration_object:
  "configuration_object (create_settings ds eh) settings_to_json settings_view (settings_ok ds) (fresh_settings ds)"
proof unfold_locales
  fix x :: settings
  assume ok: "settings_ok ds x"
  show "\<exists>y. create_settings ds eh (settings_to_json x) = Inr y \<and> settings_view y = settings_view x"
    by (simp add: settings_read_back[OF ok] settings_view_def saved_def comp_def)
  show "settings_view x = settings_view (fresh_settings ds)" if "json_empty (settings_to_json x)"
    by (simp add: settings_empty_defaults[OF ok that])
qed

interpretation virtual_hid_keyboard: configuration_object "virtual_hid_keyboard eh" settings_to_json
    settings_view "settings_ok virtual_hid_keyboard_values" "fresh_settings virtual_hid_keyboard_values"
  for eh
  unfolding virtual_hid_keyboard_def by (rule settings_configuration_object)

interpretation parameters: configuration_object "parameters eh" settings_to_json
    settings_view "settings_ok parameters_values" "fresh_settings parameters_values"
  for eh
  unfolding parameters_def by (rule settings_configuration_object)

interpretation global_configuration: configuration_object "global_configuration eh" settings_to_json
    settings_view "settings_ok global_configuration_values" "fresh_settings global_configuration_values"
  for eh
  unfolding global_configuration_def by (rule settings_configuration_object)

interpretation machine_specific_entry: configuration_object "machine_specific_entry eh" settings_to_json
    settings_view "settings_ok machine_specific_entry_values" "fresh_settings machine_specific_entry_values"
  for eh
  unfolding machine_specific_entry_def by (rule settings_configuration_object)

lemma fresh_settings_ok:
  "distinct (map fst ds) \<Longrightarrow> \<forall>d\<in>set ds. storable_value (snd d) (snd d) \<Longrightarrow> settings_ok ds (fresh_settings ds)"
  by (auto simp: settings_ok_def fresh_settings_def value_t_initial_def storable_def list_all_iff)

subsection \<open>Parameters stay in their ranges\<close>

lemma set_member_same:
  "distinct (map vt_key vs) \<Longrightarrow> member_value k vs = Some x \<Longrightarrow> set_member k x vs = vs"
proof -
  assume d: "distinct (map vt_key vs)" and m: "member_value k vs = Some x"
  have "vt_value v = x" if "v \<in> set vs" "vt_key v = k" for v
    using d m that
    by (induction vs) (auto simp: member_value_def find_value_def split: if_splits)
  then show ?thesis by (auto simp: set_member_def intro!: map_idI)
qed

lemma member_value_adjust_value:
  "member_value k (adjust_value k' l u vs) =
     (if k = k' then map_option (\<lambda>_. Config_int
        (let n = int_member k' vs; n1 = (case l of Some a \<Rightarrow> max n a | None \<Rightarrow> n)
         in case u of Some b \<Rightarrow> min n1 b | None \<Rightarrow> n1)) (member_value k vs)
      else member_value k vs)"
proof (cases "find_value k' vs")
  case None
  then show ?thesis by (auto simp: adjust_value_def member_value_def)
next
  case (Some v)
  then show ?thesis by (simp add: adjust_value_def Let_def)
qed

definition in_range :: "string \<Rightarrow> int \<Rightarrow> int option \<Rightarrow> helper_values \<Rightarrow> bool" where
  "in_range k lower upper vs \<longleftrightarrow>
     (case member_value k vs of
        Some (Config_int n) \<Rightarrow> lower \<le> n \<and> (case upper of Some u \<Rightarrow> n \<le> u | None \<Rightarrow> True)
      | _ \<Rightarrow> False)"

definition parameters_in_range :: "settings \<Rightarrow> bool" where
  "parameters_in_range st \<longleftrightarrow>
     in_range ''basic.simultaneous_threshold_milliseconds'' 0 (Some 1000) (st_values st) \<and>
     in_range ''basic.to_if_alone_timeout_milliseconds'' 0 None (st_values st) \<and>
     in_range ''basic.to_if_held_down_threshold_milliseconds'' 0 None (st_values st) \<and>
     in_range ''basic.to_delayed_action_delay_milliseconds'' 0 None (st_values st) \<and>
     in_range ''mouse_motion_to_scroll.speed'' 1 (Some 10000) (st_values st)"

lemma in_range_adjust_value_other:
  "k \<noteq> k' \<Longrightarrow> in_range k a b (adjust_value k' l u vs) = in_range k a b vs"
  by (simp add: in_range_def member_value_adjust_value)

lemma in_range_adjust_value:
  "member_value k vs \<noteq> None \<Longrightarrow> (case u of Some b \<Rightarrow> l \<le> b | None \<Rightarrow> True) \<Longrightarrow>
   in_range k l u (adjust_value k (Some l) u vs)"
  by (auto simp: in_range_def member_value_adjust_value Let_def split: option.splits)

lemma adjust_value_in_range:
  assumes "distinct (map vt_key vs)" "in_range k l u vs"
  shows "adjust_value k (Some l) u vs = vs"
proof -
  from assms(2) obtain n where n: "member_value k vs = Some (Config_int n)" "l \<le> n"
    "case u of Some b \<Rightarrow> n \<le> b | None \<Rightarrow> True"
    by (auto simp: in_range_def split: option.splits config_value.splits)
  then have "int_member k vs = n" by (simp add: int_member_def)
  moreover obtain v where "find_value k vs = Some v"
    using n(1) by (auto simp: member_value_def)
  ultimately show ?thesis
    using n set_member_same[OF assms(1) n(1)]
    by (auto simp: adjust_value_def max_def min_def split: option.splits)
qed

lemma adjust_value_keys [simp]:
  "map vt_key (adjust_value k l u vs) = map vt_key vs"
  "map vt_default_value (adjust_value k l u vs) = map vt_default_value vs"
  by (simp_all add: adjust_value_def Let_def split: option.split)

lemma adjust_value_member_None [simp]:
  "(member_value k (adjust_value k' l u vs) = None) = (member_value k vs = None)"
  by (simp add: member_value_adjust_value)

definition parameter_keys :: "settings \<Rightarrow> bool" where
  "parameter_keys st \<longleftrightarrow> map vt_key (st_values st) = map fst complex_modifications_parameters_values \<and>
     map vt_default_value (st_values st) = map snd complex_modifications_parameters_values"

lemma parameter_members:
  "parameter_keys st \<Longrightarrow> k \<in> fst ` set complex_modifications_parameters_values \<Longrightarrow>
   member_value k (st_values st) \<noteq> None"
  by (metis list.set_map member_value_key parameter_keys_def)

lemma adjust_values_in_range:
  assumes "parameter_keys st"
  shows "parameters_in_range (adjust_values st)"
  using parameter_members[OF assms]
  by (simp add: parameters_in_range_def adjust_values_def in_range_adjust_value_other
      in_range_adjust_value complex_modifications_parameters_values_def)

lemma adjust_values_keys: "parameter_keys st \<Longrightarrow> parameter_keys (adjust_values st)"
  by (simp add: parameter_keys_def adjust_values_def)

lemma parameter_keys_distinct: "parameter_keys st \<Longrightarrow> distinct (map vt_key (st_values st))"
  by (simp add: parameter_keys_def complex_modifications_parameters_values_def)

lemma adjust_values_id:
  assumes "parameter_keys st" "parameters_in_range st"
  shows "adjust_values st = st"
  using assms(2) parameter_keys_distinct[OF assms(1)]
  by (simp add: adjust_values_def adjust_value_in_range parameters_in_range_def)

lemma create_settings_keys:
  "create_settings ds eh j = Inr st \<Longrightarrow>
   map vt_key (st_values st) = map fst ds \<and> map vt_default_value (st_values st) = map snd ds"
  by (auto simp: create_settings_def value_t_initial_def comp_def dest!: update_values_keys)

lemma complex_modifications_parameters_keys:
  "create_settings complex_modifications_parameters_values eh j = Inr st \<Longrightarrow> parameter_keys st"
  by (simp add: parameter_keys_def create_settings_keys)

lemma update_parameters_keys:
  "update_parameters eh j st = Inr st' \<Longrightarrow> parameter_keys st \<Longrightarrow>
   \<exists>vs. parameter_keys (st\<lparr>st_values := vs\<rparr>) \<and> st' = adjust_values (st\<lparr>st_values := vs\<rparr>)"
  unfolding update_parameters_def
  by (auto simp: parameter_keys_def dest!: update_values_keys)

lemma assign_keys [simp]: "parameter_keys (assign k x st) = parameter_keys st"
  by (simp add: parameter_keys_def assign_def)

inductive parameters_reachable :: "settings \<Rightarrow> bool" where
  pr_create: "complex_modifications_parameters eh j = Inr st \<Longrightarrow> parameters_reachable st"
| pr_update: "parameters_reachable st \<Longrightarrow> update_parameters eh j st = Inr st' \<Longrightarrow> parameters_reachable st'"
| pr_set_1: "parameters_reachable st \<Longrightarrow>
    parameters_reachable (set_basic_simultaneous_threshold_milliseconds x st)"
| pr_set_2: "parameters_reachable st \<Longrightarrow>
    parameters_reachable (set_basic_to_if_alone_timeout_milliseconds x st)"
| pr_set_3: "parameters_reachable st \<Longrightarrow>
    parameters_reachable (set_basic_to_if_held_down_threshold_milliseconds x st)"
| pr_set_4: "parameters_reachable st \<Longrightarrow>
    parameters_reachable (set_basic_to_delayed_action_delay_milliseconds x st)"
| pr_set_5: "parameters_reachable st \<Longrightarrow> parameters_reachable (set_mouse_motion_to_scroll_speed x st)"

lemma parameters_reachable_inv:
  "parameters_reachable st \<Longrightarrow> parameter_keys st \<and> parameters_in_range st"
proof (induction rule: parameters_reachable.induct)
  case (pr_create eh j st)
  then show ?case
    by (auto simp: complex_modifications_parameters_def
        dest!: complex_modifications_parameters_keys intro: adjust_values_keys adjust_values_in_range)
next
  case (pr_update st eh j st')
  then show ?case
    by (auto dest!: update_parameters_keys intro: adjust_values_keys adjust_values_in_range)
qed (simp_all add: adjust_values_keys adjust_values_in_range
      set_basic_simultaneous_threshold_milliseconds_def set_basic_to_if_alone_timeout_milliseconds_def
      set_basic_to_if_held_down_threshold_milliseconds_def
      set_basic_to_delayed_action_delay_milliseconds_def set_mouse_motion_to_scroll_speed_def)

text \<open>
  Whatever JSON is read, under either error handling, and whatever values are assigned, the
  complex modification parameters stay in their ranges: the simultaneous threshold between 0 and
  1000 ms, the other times not negative, the scroll speed between 1 and 10000.
\<close>

theorem parameters_stay_in_range:
  assumes "parameters_reachable st"
  shows "0 \<le> get_basic_simultaneous_threshold_milliseconds st \<and>
    get_basic_simultaneous_threshold_milliseconds st \<le> 1000 \<and>
    0 \<le> get_basic_to_if_alone_timeout_milliseconds st \<and>
    0 \<le> get_basic_to_if_held_down_threshold_milliseconds st \<and>
    0 \<le> get_basic_to_delayed_action_delay_milliseconds st \<and>
    1 \<le> get_mouse_motion_to_scroll_speed st \<and> get_mouse_motion_to_scroll_speed st \<le> 10000"
  using parameters_reachable_inv[OF assms]
  by (auto simp: parameters_in_range_def in_range_def int_member_def
      get_basic_simultaneous_threshold_milliseconds_def get_basic_to_if_alone_timeout_milliseconds_def
      get_basic_to_if_held_down_threshold_milliseconds_def
      get_basic_to_delayed_action_delay_milliseconds_def get_mouse_motion_to_scroll_speed_def
      split: option.splits config_value.splits)

theorem parameters_stay_in_range_witness:
  "let st = set_mouse_motion_to_scroll_speed (- 5)
       (adjust_values (fresh_settings complex_modifications_parameters_values))
   in 0 \<le> get_basic_simultaneous_threshold_milliseconds st \<and>
     get_basic_simultaneous_threshold_milliseconds st \<le> 1000 \<and>
     0 \<le> get_basic_to_if_alone_timeout_milliseconds st \<and>
     0 \<le> get_basic_to_if_held_down_threshold_milliseconds st \<and>
     0 \<le> get_basic_to_delayed_action_delay_milliseconds st \<and>
     1 \<le> get_mouse_motion_to_scroll_speed st \<and> get_mouse_motion_to_scroll_speed st \<le> 10000"
  unfolding Let_def
  by (rule parameters_stay_in_range, rule pr_set_5, rule pr_create[of loose "JObject []"])
    (simp add: complex_modifications_parameters_def create_settings_fresh)

text \<open>Parameters whose values fit an \<open>int\<close> are read back as they were written.\<close>

definition parameters_valid :: "settings \<Rightarrow> bool" where
  "parameters_valid st \<longleftrightarrow>
     settings_ok complex_modifications_parameters_values st \<and> parameters_in_range st"

lemma parameters_valid_keys: "parameters_valid st \<Longrightarrow> parameter_keys st"
  by (simp add: parameters_valid_def settings_ok_def parameter_keys_def)

lemma saved_parameters:
  assumes "parameters_valid st"
  shows "complex_modifications_parameters eh (settings_to_json st) =
    Inr \<lparr>st_json = settings_to_json st, st_values = map saved (st_values st)\<rparr>"
proof -
  let ?st = "\<lparr>st_json = settings_to_json st, st_values = map saved (st_values st)\<rparr>"
  have "parameter_keys ?st"
    using parameters_valid_keys[OF assms] by (simp add: parameter_keys_def saved_def comp_def)
  moreover have "parameters_in_range ?st"
    using assms by (simp add: parameters_valid_def parameters_in_range_def in_range_def)
  ultimately show ?thesis
    using assms by (simp add: complex_modifications_parameters_def parameters_valid_def
        settings_read_back adjust_values_id)
qed

interpretation complex_modifications_parameters: configuration_object
    "complex_modifications_parameters eh" settings_to_json settings_view parameters_valid
    "fresh_settings complex_modifications_parameters_values"
  for eh
proof unfold_locales
  fix st assume ok: "parameters_valid st"
  show "\<exists>y. complex_modifications_parameters eh (settings_to_json st) = Inr y \<and> settings_view y = settings_view st"
    by (simp add: saved_parameters[OF ok] settings_view_def saved_def comp_def)
  show "settings_view st = settings_view (fresh_settings complex_modifications_parameters_values)"
    if "json_empty (settings_to_json st)"
    using ok that by (simp add: parameters_valid_def settings_empty_defaults)
qed

end
