(* ===== verification/Complex_Modifications.thy ===== *)
theory Complex_Modifications
  imports Configuration_Details
begin

text \<open>
  \<open>complex_modifications_rule.hpp\<close> and \<open>complex_modifications.hpp\<close> of
  \<open>src/share/core_configuration/details/profile\<close>: the rules of a profile with their manipulators
  and parameters. The JSON of a manipulator is kept as it is; only its conditions, description
  and parameters are looked at here.
\<close>

subsection \<open>A manipulator of a rule\<close>

record rule_manipulator =
  rm_json :: json
  rm_conditions :: "json list"
  rm_parameters :: settings
  rm_description :: string

fun rule_manipulator_items ::
    "error_handling \<Rightarrow> (string \<times> json) list \<Rightarrow> rule_manipulator \<Rightarrow> json_error + rule_manipulator" where
  "rule_manipulator_items eh [] m = Inr m"
| "rule_manipulator_items eh ((k, v) # ms) m =
     ok_bind
       (if k = ''conditions''
        then ok_bind (requires_array v (backquoted k)) (\<lambda>_.
             Inr (m\<lparr>rm_conditions := rm_conditions m @ json_elements v\<rparr>))
        else if k = ''parameters''
        then ok_bind (update_parameters eh v (rm_parameters m)) (\<lambda>p. Inr (m\<lparr>rm_parameters := p\<rparr>))
        else if k = ''description''
        then ok_bind (requires_string v (backquoted k)) (\<lambda>_.
             ok_bind (json_get_string v) (\<lambda>s. Inr (m\<lparr>rm_description := s\<rparr>)))
        else Inr m)
       (rule_manipulator_items eh ms)"

definition create_rule_manipulator ::
    "error_handling \<Rightarrow> settings \<Rightarrow> json \<Rightarrow> json_error + rule_manipulator" where
  "create_rule_manipulator eh parent j =
     ok_bind (complex_modifications_parameters eh (settings_to_json parent)) (\<lambda>p.
     ok_bind (requires_object j ''json'') (\<lambda>_.
     rule_manipulator_items eh (json_items j)
       \<lparr>rm_json = j, rm_conditions = [], rm_parameters = p, rm_description = []\<rparr>))"

subsection \<open>complex_modifications_rule\<close>

record complex_modifications_rule =
  cmr_json :: json
  cmr_manipulators :: "rule_manipulator list"
  cmr_values :: helper_values
  cmr_description :: string

definition rule_values :: defaults where
  "rule_values = [(''enabled'', Config_bool True)]"

definition rule_item ::
    "error_handling \<Rightarrow> settings \<Rightarrow> string \<Rightarrow> json \<Rightarrow> rule_manipulator list \<times> string \<Rightarrow>
     json_error + rule_manipulator list \<times> string" where
  "rule_item eh ps k v r =
     (if k = ''manipulators''
      then ok_bind (requires_array v (backquoted k)) (\<lambda>_.
           ok_bind (map_ok (\<lambda>j. rethrow_with [Text (backquoted k @ '' entry error: '')]
                                  (create_rule_manipulator eh ps j)) (json_elements v)) (\<lambda>rms.
           Inr (fst r @ rms, snd r)))
      else if k = ''description''
      then ok_bind (requires_string v (backquoted k)) (\<lambda>_.
           ok_bind (json_get_string v) (\<lambda>s. Inr (fst r, s)))
      else if k = ''available_since''
      then ok_bind (requires_string v (backquoted k)) (\<lambda>_. Inr r)
      else Inr r)"

fun rule_items ::
    "error_handling \<Rightarrow> settings \<Rightarrow> (string \<times> json) list \<Rightarrow> rule_manipulator list \<times> string \<Rightarrow>
     json_error + rule_manipulator list \<times> string" where
  "rule_items eh ps [] r = Inr r"
| "rule_items eh ps ((k, v) # ms) r = ok_bind (rule_item eh ps k v r) (rule_items eh ps ms)"

definition default_description :: "rule_manipulator list \<Rightarrow> string" where
  "default_description rms =
     (case find (\<lambda>m. rm_description m \<noteq> []) rms of Some m \<Rightarrow> rm_description m | None \<Rightarrow> [])"

definition create_rule ::
    "error_handling \<Rightarrow> settings \<Rightarrow> json \<Rightarrow> json_error + complex_modifications_rule" where
  "create_rule eh ps j =
     ok_bind (requires_object j ''json'') (\<lambda>_.
     ok_bind (update_values eh j (map value_t_initial rule_values)) (\<lambda>vs.
     ok_bind (rule_items eh ps (json_items j) ([], [])) (\<lambda>r.
     if fst r = [] then Inl (Unmarshal_error [Text ''`manipulators` is missing or empty in '', Dump j])
     else Inr \<lparr>cmr_json = j, cmr_manipulators = fst r, cmr_values = vs,
               cmr_description = (if snd r = [] then default_description (fst r) else snd r)\<rparr>)))"

definition rule_to_json :: "complex_modifications_rule \<Rightarrow> json" where
  "rule_to_json r = update_values_json (cmr_values r) (cmr_json r)"

definition get_enabled :: "complex_modifications_rule \<Rightarrow> bool" where
  "get_enabled r = bool_member ''enabled'' (cmr_values r)"

definition set_enabled :: "bool \<Rightarrow> complex_modifications_rule \<Rightarrow> complex_modifications_rule" where
  "set_enabled b r = r\<lparr>cmr_values := set_member ''enabled'' (Config_bool b) (cmr_values r)\<rparr>"

subsection \<open>complex_modifications\<close>

record complex_modifications =
  cmo_json :: json
  cmo_parameters :: settings
  cmo_rules :: "complex_modifications_rule list"

definition create_complex_modifications ::
    "error_handling \<Rightarrow> json \<Rightarrow> json_error + complex_modifications" where
  "create_complex_modifications eh j =
     ok_bind (complex_modifications_parameters eh (JObject [])) (\<lambda>p0.
     ok_bind (requires_object j ''json'') (\<lambda>_.
     ok_bind (update_object ''parameters'' (complex_modifications_parameters eh) j p0) (\<lambda>p.
     ok_bind (case json_find j ''rules'' of
                Some (JArray js) \<Rightarrow> map_ok (create_rule eh p) js
              | _ \<Rightarrow> Inr []) (\<lambda>rs.
     Inr \<lparr>cmo_json = j, cmo_parameters = p, cmo_rules = rs\<rparr>))))"

definition complex_modifications_to_json :: "complex_modifications \<Rightarrow> json" where
  "complex_modifications_to_json c =
     (let j = update_object_json ''parameters'' settings_to_json (cmo_parameters c) (cmo_json c);
          rules_json = filter (\<lambda>jj. \<not> json_empty jj) (map rule_to_json (cmo_rules c))
      in if json_empty (JArray rules_json) then json_erase ''rules'' j
         else json_set ''rules'' (JArray rules_json) j)"

definition push_front_rule ::
    "complex_modifications_rule \<Rightarrow> complex_modifications \<Rightarrow> complex_modifications" where
  "push_front_rule r c = c\<lparr>cmo_rules := r # cmo_rules c\<rparr>"

definition replace_rule ::
    "nat \<Rightarrow> complex_modifications_rule \<Rightarrow> complex_modifications \<Rightarrow> complex_modifications" where
  "replace_rule i r c =
     (if i < length (cmo_rules c) then c\<lparr>cmo_rules := (cmo_rules c)[i := r]\<rparr> else c)"

definition erase_rule :: "nat \<Rightarrow> complex_modifications \<Rightarrow> complex_modifications" where
  "erase_rule i c =
     (if i < length (cmo_rules c)
      then c\<lparr>cmo_rules := take i (cmo_rules c) @ drop (Suc i) (cmo_rules c)\<rparr> else c)"

definition move_rule :: "nat \<Rightarrow> nat \<Rightarrow> complex_modifications \<Rightarrow> complex_modifications" where
  "move_rule source destination c =
     c\<lparr>cmo_rules := move_element source destination (cmo_rules c)\<rparr>"

subsection \<open>A manipulator inherits the parameters of its profile\<close>

lemma rule_manipulator_items_parameters:
  "rule_manipulator_items eh ms m = Inr m' \<Longrightarrow> ''parameters'' \<notin> fst ` set ms \<Longrightarrow>
   rm_parameters m' = rm_parameters m"
  by (induction ms arbitrary: m) (auto split: if_splits)

text \<open>
  A manipulator without parameters of its own has exactly the values of the profile's
  parameters, whichever of them were set: they are handed down through their JSON, which leaves
  out the defaults.
\<close>

theorem manipulator_inherits_parameters:
  assumes "create_rule_manipulator eh parent j = Inr m" "json_find j ''parameters'' = None"
    and "parameters_valid parent"
  shows "settings_view (rm_parameters m) = settings_view parent"
proof -
  from assms(1) saved_parameters[OF assms(3), of eh]
  have items: "rule_manipulator_items eh (json_items j)
      \<lparr>rm_json = j, rm_conditions = [],
       rm_parameters = \<lparr>st_json = settings_to_json parent, st_values = map saved (st_values parent)\<rparr>,
       rm_description = []\<rparr> = Inr m"
    by (auto simp: create_rule_manipulator_def)
  moreover have "''parameters'' \<notin> fst ` set (json_items j)"
    using assms(2) by (simp add: json_find_def map_of_eq_None_iff)
  ultimately have "rm_parameters m = \<lparr>st_json = settings_to_json parent, st_values = map saved (st_values parent)\<rparr>"
    using rule_manipulator_items_parameters[OF items] by simp
  then show ?thesis by (simp add: settings_view_def saved_def comp_def)
qed

subsection \<open>Saving a rule\<close>

lemma rule_items_put_other:
  assumes "k \<notin> {''manipulators'', ''description'', ''available_since''}"
  shows "rule_items eh ps (put_member k v ms) = rule_items eh ps ms"
proof -
  have "rule_item eh ps k w = Inr" for w using assms by (auto simp: rule_item_def)
  then show ?thesis by (induction ms) (auto intro!: ext)
qed

lemma rule_items_erase_other:
  assumes "k \<notin> {''manipulators'', ''description'', ''available_since''}"
  shows "rule_items eh ps (erase_member k ms) = rule_items eh ps ms"
proof -
  have "rule_item eh ps k w = Inr" for w using assms by (auto simp: rule_item_def)
  then show ?thesis by (induction ms) (auto intro!: ext simp: erase_member_def)
qed

lemma rule_items_update_json:
  assumes "vt_key v = ''enabled''" "json_is_object j"
  shows "rule_items eh ps (json_items (update_json v j)) r = rule_items eh ps (json_items j) r"
  using assms
  by (cases j) (auto simp: update_json_def json_set_def json_erase_def
      rule_items_put_other rule_items_erase_other)

lemma rule_enabled_entry:
  assumes "update_values eh j (map value_t_initial rule_values) = Inr vs"
  obtains v where "vs = [v]" "vt_key v = ''enabled''" "vt_default_value v = Config_bool True"
  using assms
  by (auto simp: rule_values_def update_value_def value_t_initial_def split: option.splits sum.splits if_splits)

text \<open>
  Switching a rule on or off survives saving and loading, and everything else of the rule
  stays: read back from its JSON under the same parameters the rule has the same manipulators
  and description, and is enabled as it was set.
\<close>

theorem rule_enabled_round_trip:
  assumes "create_rule eh ps j = Inr r"
  shows "\<exists>r'. create_rule eh ps (rule_to_json (set_enabled b r)) = Inr r' \<and>
    cmr_manipulators r' = cmr_manipulators r \<and> cmr_description r' = cmr_description r \<and>
    get_enabled r' = b"
proof -
  from assms obtain vs x where vs: "update_values eh j (map value_t_initial rule_values) = Inr vs"
    and obj: "json_is_object j" and items: "rule_items eh ps (json_items j) ([], []) = Inr x"
    and ne: "fst x \<noteq> []"
    and r: "r = \<lparr>cmr_json = j, cmr_manipulators = fst x, cmr_values = vs,
      cmr_description = (if snd x = [] then default_description (fst x) else snd x)\<rparr>"
    by (auto simp: create_rule_def split: if_splits)
  from rule_enabled_entry[OF vs] obtain v where v: "vs = [v]" "vt_key v = ''enabled''"
    "vt_default_value v = Config_bool True" by metis
  let ?v = "v\<lparr>vt_value := Config_bool b\<rparr>"
  have json: "rule_to_json (set_enabled b r) = update_json ?v j"
    using r v by (simp add: rule_to_json_def set_enabled_def set_member_def)
  have "update_value eh (update_json ?v j) (initial ?v) = Inr (saved ?v)"
    using obj v by (intro update_value_read_back) (auto simp: storable_def find_update_json)
  then have read: "update_values eh (update_json ?v j) (map value_t_initial rule_values) = Inr [saved ?v]"
    using v by (simp add: rule_values_def initial_def)
  have "rule_items eh ps (json_items (update_json ?v j)) ([], []) = Inr x"
    using rule_items_update_json[of ?v j] v obj items by simp
  then show ?thesis
    using obj read ne r v unfolding json
    by (auto simp: create_rule_def requires_object_def get_enabled_def bool_member_def
        member_value_def find_value_def saved_def)
qed

text \<open>Moving a rule changes the order only, and every rule is kept.\<close>

lemma move_rule_keeps_rules: "mset (cmo_rules (move_rule s d c)) = mset (cmo_rules c)"
  by (simp add: move_rule_def mset_move_element)

subsection \<open>Instances\<close>

definition sample_parent :: settings where
  "sample_parent = fresh_settings complex_modifications_parameters_values"

lemma sample_parent_valid: "parameters_valid sample_parent"
proof -
  have "settings_ok complex_modifications_parameters_values sample_parent"
    unfolding sample_parent_def
    by (rule fresh_settings_ok) (simp_all add: complex_modifications_parameters_values_def)
  moreover have "parameters_in_range sample_parent"
    by (simp add: parameters_in_range_def in_range_def sample_parent_def fresh_settings_def
        complex_modifications_parameters_values_def member_value_def find_value_def value_t_initial_def)
  ultimately show ?thesis by (simp add: parameters_valid_def)
qed

definition sample_rule_json :: json where
  "sample_rule_json =
     JObject [(''manipulators'', JArray [JObject [(''description'', JString ''hyper''), (''type'', JString ''basic'')]])]"

lemma sample_manipulator_created:
  "\<exists>m. create_rule_manipulator strict sample_parent
      (JObject [(''description'', JString ''hyper''), (''type'', JString ''basic'')]) = Inr m"
  by (simp add: create_rule_manipulator_def saved_parameters[OF sample_parent_valid] requires_object_def
      requires_string_def)

theorem manipulator_inherits_parameters_witness:
  "\<exists>m. create_rule_manipulator strict sample_parent
      (JObject [(''description'', JString ''hyper''), (''type'', JString ''basic'')]) = Inr m \<and>
    settings_view (rm_parameters m) = settings_view sample_parent"
proof -
  obtain m where m: "create_rule_manipulator strict sample_parent
      (JObject [(''description'', JString ''hyper''), (''type'', JString ''basic'')]) = Inr m"
    using sample_manipulator_created by blast
  from manipulator_inherits_parameters[OF m _ sample_parent_valid] m show ?thesis
    by (auto simp: json_find_def)
qed

lemma sample_rule_created: "\<exists>r. create_rule strict sample_parent sample_rule_json = Inr r"
  using sample_manipulator_created
  by (auto simp: create_rule_def sample_rule_json_def requires_object_def rule_values_def update_value_def
      value_t_initial_def json_find_def rule_item_def requires_array_def)

theorem rule_enabled_round_trip_witness:
  "\<exists>r r'. create_rule strict sample_parent sample_rule_json = Inr r \<and>
    create_rule strict sample_parent (rule_to_json (set_enabled False r)) = Inr r' \<and>
    cmr_manipulators r' = cmr_manipulators r \<and> cmr_description r' = cmr_description r \<and>
    get_enabled r' = False"
proof -
  obtain r where r: "create_rule strict sample_parent sample_rule_json = Inr r"
    using sample_rule_created by blast
  from rule_enabled_round_trip[OF r, of False] r show ?thesis by blast
qed

end
