(* ===== verification/Simple_Modifications.thy ===== *)
theory Simple_Modifications
  imports Json "HOL-Library.Multiset" "HOL-Library.Countable"
begin

text \<open>
  \<open>src/share/core_configuration/details/profile/simple_modifications.hpp\<close>: the simple modifications
  and the fn function keys of a profile or device, pairs of dumped JSON texts in natural order.

  The texts are written and parsed by the bundled JSON library and ordered by a bundled natural
  comparison; both are parameters. What the code relies on: a dumped value is parsed back as
  itself (\<open>dump_parses\<close>, for the values of the model, whose numbers are unbounded), and sorting
  permutes (\<open>sort_permutes\<close>).
\<close>

record json_text =
  jt_dump :: "json \<Rightarrow> string"
  jt_parse :: "string \<Rightarrow> json option"
  jt_natural_sort :: "(string \<times> string) list \<Rightarrow> (string \<times> string) list"

definition dump_parses :: "json_text \<Rightarrow> bool" where
  "dump_parses T \<longleftrightarrow> (\<forall>j. json_ok j \<longrightarrow> jt_parse T (jt_dump T j) = Some j)"

definition sort_permutes :: "json_text \<Rightarrow> bool" where
  "sort_permutes T \<longleftrightarrow> (\<forall>ps. mset (jt_natural_sort T ps) = mset ps)"

type_synonym simple_modifications = "(string \<times> string) list"

subsection \<open>Reading\<close>

text \<open>\<open>erase(key)\<close> of a value that is not an object throws.\<close>

definition erase_or_throw :: "string \<Rightarrow> json \<Rightarrow> json_error + json" where
  "erase_or_throw k j = (if json_is_object j then Inr (json_erase k j) else Inl Json_type_error)"

definition migrate_to_json :: "json \<Rightarrow> json" where
  "migrate_to_json j =
     (if json_is_object j
      then (let r = json_erase [] j in if json_empty r then JArray [] else JArray [r])
      else j)"

definition erase_by_from_json_string :: "json_text \<Rightarrow> string \<Rightarrow> simple_modifications \<Rightarrow> simple_modifications" where
  "erase_by_from_json_string T from ps =
     (case jt_parse T from of
        None \<Rightarrow> ps
      | Some f \<Rightarrow> erase_if (\<lambda>p. fst p = jt_dump T f) ps)"

definition replace_definition :: "json_text \<Rightarrow> string \<Rightarrow> string \<Rightarrow> simple_modifications \<Rightarrow> simple_modifications" where
  "replace_definition T from to ps = erase_by_from_json_string T from ps @ [(from, to)]"

text \<open>The loop over the members of an entry; unknown keys are logged.\<close>

fun entry_members ::
    "json_text \<Rightarrow> (string \<times> json) list \<Rightarrow> string option \<times> string option \<Rightarrow>
     json_error + string option \<times> string option" where
  "entry_members T [] r = Inr r"
| "entry_members T ((k, v) # ms) r =
     (if k = ''from''
      then ok_bind (erase_or_throw [] v) (\<lambda>f. entry_members T ms (Some (jt_dump T f), snd r))
      else if k = ''to'' then entry_members T ms (fst r, Some (jt_dump T (migrate_to_json v)))
      else entry_members T ms r)"

fun update_entries :: "json_text \<Rightarrow> json list \<Rightarrow> simple_modifications \<Rightarrow> json_error + simple_modifications" where
  "update_entries T [] ps = Inr ps"
| "update_entries T (j # js) ps =
     (if json_is_object j
      then ok_bind (entry_members T (json_items j) (None, None)) (\<lambda>r.
             update_entries T js
               (case r of (Some f, Some t) \<Rightarrow> replace_definition T f t ps | _ \<Rightarrow> ps))
      else update_entries T js ps)"

text \<open>
  The oldest format maps key names to key names. The value is a string there, and
  \<open>value.empty()\<close> is false for every string.
\<close>

definition v1_from :: "json_text \<Rightarrow> string \<Rightarrow> string" where
  "v1_from T k = (if k \<noteq> [] then jt_dump T (JObject [(''key_code'', JString k)]) else ''{}'')"

definition v1_to :: "json_text \<Rightarrow> json \<Rightarrow> string" where
  "v1_to T v = (if \<not> json_empty v then jt_dump T (JArray [JObject [(''key_code'', v)]]) else ''{}'')"

fun update_v1 :: "json_text \<Rightarrow> (string \<times> json) list \<Rightarrow> simple_modifications \<Rightarrow> simple_modifications" where
  "update_v1 T [] ps = ps"
| "update_v1 T ((k, v) # ms) ps =
     update_v1 T ms
       (if json_is_string v then replace_definition T (v1_from T k) (v1_to T v) ps else ps)"

definition update_simple_modifications ::
    "json_text \<Rightarrow> json \<Rightarrow> simple_modifications \<Rightarrow> json_error + simple_modifications" where
  "update_simple_modifications T j ps =
     (case j of
        JArray js \<Rightarrow> ok_bind (update_entries T js ps) (\<lambda>ps'. Inr (jt_natural_sort T ps'))
      | JObject ms \<Rightarrow> Inr (jt_natural_sort T (update_v1 T ms ps))
      | _ \<Rightarrow> Inl (Unmarshal_error [Text ''json must be array or object, but is `'', Dump j, Text ''`'']))"

subsection \<open>Writing\<close>

definition is_default :: "json \<Rightarrow> json \<Rightarrow> json list \<Rightarrow> bool" where
  "is_default f t defaults \<longleftrightarrow>
     list_ex (\<lambda>j. json_find j ''from'' = Some f \<and> json_find j ''to'' = Some t) defaults"

fun write_pairs :: "json_text \<Rightarrow> json list \<Rightarrow> string list \<Rightarrow> simple_modifications \<Rightarrow> json list" where
  "write_pairs T defaults froms [] = []"
| "write_pairs T defaults froms (p # ps) =
     (case (jt_parse T (fst p), jt_parse T (snd p)) of
        (Some f, Some t) \<Rightarrow>
          (if json_is_object f \<and> json_is_array t \<and> \<not> json_empty f \<and> \<not> json_empty t \<and>
              fst p \<notin> set froms
           then (if is_default f t defaults then [] else [JObject [(''from'', f), (''to'', t)]])
                @ write_pairs T defaults (fst p # froms) ps
           else write_pairs T defaults froms ps)
      | _ \<Rightarrow> write_pairs T defaults froms ps)"

definition simple_modifications_to_json :: "json_text \<Rightarrow> json \<Rightarrow> simple_modifications \<Rightarrow> json" where
  "simple_modifications_to_json T default_json ps =
     JArray (write_pairs T (case default_json of JArray js \<Rightarrow> js | _ \<Rightarrow> []) [] ps)"

subsection \<open>Editing\<close>

definition push_back_pair :: "json_text \<Rightarrow> simple_modifications \<Rightarrow> simple_modifications" where
  "push_back_pair T ps = ps @ [(jt_dump T (JObject []), jt_dump T (JArray []))]"

definition erase_pair :: "nat \<Rightarrow> simple_modifications \<Rightarrow> simple_modifications" where
  "erase_pair i ps = (if i < length ps then take i ps @ drop (Suc i) ps else ps)"

definition replace_pair :: "json_text \<Rightarrow> nat \<Rightarrow> string \<Rightarrow> string \<Rightarrow> simple_modifications \<Rightarrow> simple_modifications" where
  "replace_pair T i from to ps =
     (case (jt_parse T from, jt_parse T to) of
        (Some f, Some t) \<Rightarrow>
          (if i < length ps then ps[i := (jt_dump T f, jt_dump T (migrate_to_json t))] else ps)
      | _ \<Rightarrow> ps)"

fun replace_first_second :: "string \<Rightarrow> string \<Rightarrow> simple_modifications \<Rightarrow> simple_modifications" where
  "replace_first_second f t [] = []"
| "replace_first_second f t (p # ps) =
     (if fst p = f then (fst p, t) # ps else p # replace_first_second f t ps)"

definition replace_second :: "json_text \<Rightarrow> string \<Rightarrow> string \<Rightarrow> simple_modifications \<Rightarrow> simple_modifications" where
  "replace_second T from to ps =
     (case (jt_parse T from, jt_parse T to) of
        (Some f, Some t) \<Rightarrow> replace_first_second (jt_dump T f) (jt_dump T (migrate_to_json t)) ps
      | _ \<Rightarrow> ps)"

subsection \<open>Reading is a sequence of map updates\<close>

text \<open>The definitions an array of entries gives, in order, or the exception one of them throws.\<close>

fun definitions_of :: "json_text \<Rightarrow> json list \<Rightarrow> json_error + (string \<times> string) list" where
  "definitions_of T [] = Inr []"
| "definitions_of T (j # js) =
     (if json_is_object j
      then ok_bind (entry_members T (json_items j) (None, None)) (\<lambda>r.
           ok_bind (definitions_of T js) (\<lambda>ds.
             Inr (case r of (Some f, Some t) \<Rightarrow> (f, t) # ds | _ \<Rightarrow> ds)))
      else definitions_of T js)"

definition override :: "('a \<rightharpoonup> 'b) \<Rightarrow> ('a \<times> 'b) list \<Rightarrow> ('a \<rightharpoonup> 'b)" where
  "override m ds = foldl (\<lambda>m d. m(fst d \<mapsto> snd d)) m ds"

lemma override_Nil [simp]: "override m [] = m"
  by (simp add: override_def)

lemma override_Cons [simp]: "override m (d # ds) = override (m(fst d \<mapsto> snd d)) ds"
  by (simp add: override_def)

lemma override_append: "override m (ds @ es) = override (override m ds) es"
  by (simp add: override_def)

lemma override_map_of: "override m ds = m ++ map_of (rev ds)"
  by (induction ds rule: rev_induct) (auto simp: override_append fun_eq_iff map_add_def)

definition dumped :: "json_text \<Rightarrow> string \<Rightarrow> bool" where
  "dumped T s \<longleftrightarrow> (\<exists>j. json_ok j \<and> s = jt_dump T j)"

lemma dumpedI: "json_ok j \<Longrightarrow> dumped T (jt_dump T j)"
  by (auto simp: dumped_def)

lemma erase_by_from_dumped:
  "dump_parses T \<Longrightarrow> dumped T f \<Longrightarrow> erase_by_from_json_string T f ps = erase_if (\<lambda>p. fst p = f) ps"
  by (auto simp: erase_by_from_json_string_def dump_parses_def dumped_def)

lemma map_of_erase_if_fst: "map_of (erase_if (\<lambda>p. fst p = f) ps) = (map_of ps)(f := None)"
  by (induction ps) (auto simp: fun_eq_iff)

lemma replace_definition_map:
  assumes "dump_parses T" "dumped T f"
  shows "map_of (replace_definition T f t ps) = (map_of ps)(f \<mapsto> t)"
  unfolding replace_definition_def erase_by_from_dumped[OF assms]
  by (auto simp: map_add_def map_of_erase_if_fst fun_eq_iff split: option.splits)

lemma replace_definition_distinct:
  assumes "dump_parses T" "dumped T f" "distinct (map fst ps)"
  shows "distinct (map fst (replace_definition T f t ps))"
  using assms(3) unfolding replace_definition_def erase_by_from_dumped[OF assms(1,2)]
  by (auto simp: erase_if_def distinct_map intro: inj_on_subset)

lemma json_items_ok: "json_ok j \<Longrightarrow> list_all (\<lambda>m. json_ok (snd m)) (json_items j)"
  by (cases j) auto

lemma entry_members_dumped:
  assumes "entry_members T ms r = Inr r'" "list_all (\<lambda>m. json_ok (snd m)) ms"
    "\<And>f. fst r = Some f \<Longrightarrow> dumped T f" "fst r' = Some f'"
  shows "dumped T f'"
  using assms
proof (induction T ms r rule: entry_members.induct)
  case (2 T k v ms r)
  have "dumped T (jt_dump T x)" if "erase_or_throw [] v = Inr x" for x
    using that 2(5) by (auto simp: erase_or_throw_def json_erase_ok split: if_splits intro!: dumpedI)
  with 2 show ?case by (auto split: if_splits)
qed auto

lemma update_entries_map:
  assumes "dump_parses T" "distinct (map fst ps)" "list_all json_ok js" "update_entries T js ps = Inr ps'"
  shows "\<exists>ds. definitions_of T js = Inr ds \<and> map_of ps' = override (map_of ps) ds \<and>
    distinct (map fst ps')"
  using assms(2-)
proof (induction js arbitrary: ps)
  case (Cons j js)
  show ?case
  proof (cases "json_is_object j")
    case False
    with Cons show ?thesis by simp
  next
    case True
    then obtain f t where r: "entry_members T (json_items j) (None, None) = Inr (f, t)"
      using Cons.prems(3) by (auto split: prod.splits)
    show ?thesis
    proof (cases "f = None \<or> t = None")
      case True
      then have "update_entries T js ps = Inr ps'"
        using Cons.prems(3) r \<open>json_is_object j\<close> by (auto split: option.splits)
      with Cons r True \<open>json_is_object j\<close> show ?thesis
        by (auto split: option.splits)
    next
      case False
      then obtain f' t' where ft: "f = Some f'" "t = Some t'" by auto
      have "dumped T f'"
        using entry_members_dumped[OF r] json_items_ok Cons.prems(2) ft by simp
      note step = replace_definition_map[OF assms(1) this, of t' ps]
        replace_definition_distinct[OF assms(1) this Cons.prems(1), of t']
      with Cons.IH[of "replace_definition T f' t' ps"] Cons.prems(2,3) r ft \<open>json_is_object j\<close>
      show ?thesis by (auto simp: fun_upd_def)
    qed
  qed
qed simp

lemma map_of_mset:
  assumes "distinct (map fst ps)" "mset qs = mset ps"
  shows "map_of qs = map_of ps" "distinct (map fst qs)"
proof -
  show d: "distinct (map fst qs)"
    using assms by (metis mset_eq_imp_distinct_iff mset_map)
  have "set qs = set ps" using assms(2) by (metis set_mset_mset)
  then have "map_of qs k = Some v \<longleftrightarrow> map_of ps k = Some v" for k v
    using d assms(1) by (simp add: map_of_eq_Some_iff)
  then show "map_of qs = map_of ps" by (metis option.exhaust ext)
qed

text \<open>
  Reading simple modifications in the array format overrides the definitions of the same
  \<open>from\<close> one after the other, the last one winning, keeps all others, and leaves at most one
  definition per \<open>from\<close>, whatever order the sort puts them in.
\<close>

theorem simple_modifications_update_overrides:
  assumes "dump_parses T" "sort_permutes T" "distinct (map fst ps)" "json_ok (JArray js)"
    "update_simple_modifications T (JArray js) ps = Inr ps'"
  shows "\<exists>ds. definitions_of T js = Inr ds \<and> map_of ps' = override (map_of ps) ds \<and>
    distinct (map fst ps')"
proof -
  from assms(5) obtain qs where qs: "update_entries T js ps = Inr qs" "ps' = jt_natural_sort T qs"
    by (auto simp: update_simple_modifications_def)
  from update_entries_map[OF assms(1,3) _ qs(1)] assms(4) obtain ds
    where ds: "definitions_of T js = Inr ds" "map_of qs = override (map_of ps) ds" "distinct (map fst qs)"
    by auto
  have "mset ps' = mset qs" using assms(2) qs(2) by (simp add: sort_permutes_def)
  from map_of_mset[OF ds(3) this] ds show ?thesis by auto
qed

subsection \<open>Writing and reading back\<close>

text \<open>
  A pair that is written holds the dumps of a non-empty \<open>from\<close> object and a non-empty array
  \<open>to\<close> that is not the default.
\<close>

definition written :: "json_text \<Rightarrow> json list \<Rightarrow> string \<times> string \<Rightarrow> bool" where
  "written T defaults p \<longleftrightarrow>
     (case (jt_parse T (fst p), jt_parse T (snd p)) of
        (Some f, Some t) \<Rightarrow>
          json_is_object f \<and> json_is_array t \<and> \<not> json_empty f \<and> \<not> json_empty t \<and> \<not> is_default f t defaults
      | _ \<Rightarrow> False)"

definition dumped_pair :: "json_text \<Rightarrow> string \<times> string \<Rightarrow> bool" where
  "dumped_pair T p \<longleftrightarrow>
     (\<exists>f t. p = (jt_dump T f, jt_dump T t) \<and> json_ok f \<and> json_ok t \<and> json_is_object f \<and> json_erase [] f = f)"

lemma definitions_of_append:
  "definitions_of T (js @ ks) =
     ok_bind (definitions_of T js) (\<lambda>ds. ok_bind (definitions_of T ks) (\<lambda>es. Inr (ds @ es)))"
proof (induction js)
  case (Cons j js)
  then show ?case
    by (cases "entry_members T (json_items j) (None, None)"; cases "definitions_of T js";
        cases "definitions_of T ks") (auto split: option.splits prod.splits)
qed (cases "definitions_of T ks"; simp)

lemma written_entry:
  assumes "dump_parses T" "dumped_pair T p" "written T D p"
    "jt_parse T (fst p) = Some f" "jt_parse T (snd p) = Some t"
  shows "definitions_of T [JObject [(''from'', f), (''to'', t)]] = Inr [p]"
proof -
  obtain f' t' where p: "p = (jt_dump T f', jt_dump T t')" "json_ok f'" "json_ok t'" "json_is_object f'"
    "json_erase [] f' = f'"
    using assms(2) by (auto simp: dumped_pair_def)
  then have "f = f'" "t = t'" using assms(1,4,5) by (auto simp: dump_parses_def)
  moreover have "json_is_array t" using assms(3-5) by (auto simp: written_def)
  then have "migrate_to_json t = t" by (cases t) (auto simp: migrate_to_json_def)
  ultimately show ?thesis using p by (simp add: erase_or_throw_def)
qed

lemma definitions_of_write_pairs:
  assumes "dump_parses T"
  shows "list_all (dumped_pair T) ps \<Longrightarrow> distinct (map fst ps) \<Longrightarrow> set froms \<inter> fst ` set ps = {} \<Longrightarrow>
    definitions_of T (write_pairs T D froms ps) = Inr (filter (written T D) ps)"
proof (induction ps arbitrary: froms)
  case (Cons p ps)
  then obtain f t where p: "p = (jt_dump T f, jt_dump T t)" "json_ok f" "json_ok t" "json_is_object f"
    by (auto simp: dumped_pair_def)
  then have parse: "jt_parse T (fst p) = Some f" "jt_parse T (snd p) = Some t"
    using assms by (auto simp: dump_parses_def)
  have tail: "definitions_of T (write_pairs T D (fst p # froms) ps) = Inr (filter (written T D) ps)"
    "definitions_of T (write_pairs T D froms ps) = Inr (filter (written T D) ps)"
    using Cons by auto
  have new: "fst p \<notin> set froms" using Cons.prems(3) by auto
  show ?case
  proof (cases "written T D p")
    case True
    from written_entry[OF assms _ True parse] Cons.prems(1)
    have "definitions_of T [JObject [(''from'', f), (''to'', t)]] = Inr [p]" by simp
    moreover have "write_pairs T D froms (p # ps) =
        [JObject [(''from'', f), (''to'', t)]] @ write_pairs T D (fst p # froms) ps"
      using True parse new by (simp add: written_def)
    ultimately show ?thesis using True tail(1) by (simp only: definitions_of_append) simp
  next
    case False
    then have "write_pairs T D froms (p # ps) = write_pairs T D (fst p # froms) ps \<or>
        write_pairs T D froms (p # ps) = write_pairs T D froms ps"
      using parse new by (cases "is_default f t D") (auto simp: written_def)
    with False tail show ?thesis by auto
  qed
qed simp

lemma update_entries_Inr:
  "definitions_of T js = Inr ds \<Longrightarrow> \<exists>ps'. update_entries T js ps = Inr ps'"
  by (induction js arbitrary: ds ps) (auto split: if_splits)

lemma write_pairs_ok:
  assumes "dump_parses T"
  shows "list_all (dumped_pair T) ps \<Longrightarrow> list_all json_ok (write_pairs T D froms ps)"
proof (induction ps arbitrary: froms)
  case (Cons p ps)
  then obtain f t where "p = (jt_dump T f, jt_dump T t)" "json_ok f" "json_ok t"
    by (auto simp: dumped_pair_def)
  moreover from this have "jt_parse T (fst p) = Some f" "jt_parse T (snd p) = Some t"
    using assms by (auto simp: dump_parses_def)
  ultimately show ?case using Cons by (auto simp: members_ok_def)
qed simp

lemma map_of_overridden:
  assumes "distinct (map fst ps)" "dom (map_of ps0) \<subseteq> fst ` set ps"
    "\<And>p. p \<in> set ps \<Longrightarrow> P p \<or> map_of ps0 (fst p) = Some (snd p)"
  shows "override (map_of ps0) (filter P ps) = map_of ps"
proof
  fix k
  have d: "distinct (map fst (rev (filter P ps)))"
    using assms(1) by (simp add: rev_map[symmetric] distinct_map_filter)
  show "override (map_of ps0) (filter P ps) k = map_of ps k"
  proof (cases "map_of ps k")
    case None
    then have "k \<notin> fst ` set ps" by (simp add: map_of_eq_None_iff)
    moreover from this have "map_of (rev (filter P ps)) k = None" by (auto simp: map_of_eq_None_iff)
    ultimately show ?thesis
      using None assms(2) by (auto simp: override_map_of map_add_def)
  next
    case (Some v)
    then have mem: "(k, v) \<in> set ps" by (rule map_of_SomeD)
    show ?thesis
    proof (cases "P (k, v)")
      case True
      then have "map_of (rev (filter P ps)) k = Some v"
        using mem d by (simp add: map_of_eq_Some_iff)
      then show ?thesis using Some by (simp add: override_map_of map_add_def)
    next
      case False
      then have "k \<notin> fst ` set (filter P ps)"
        using eq_key_imp_eq_value[OF assms(1) _ mem] by auto
      then have "map_of (rev (filter P ps)) k = None" by (auto simp: map_of_eq_None_iff)
      then show ?thesis using Some False assms(3)[OF mem] by (simp add: override_map_of map_add_def)
    qed
  qed
qed

lemma simple_modifications_read_back:
  assumes "dump_parses T" "sort_permutes T" "list_all (dumped_pair T) ps"
    "distinct (map fst ps)" "distinct (map fst ps0)" "dom (map_of ps0) \<subseteq> fst ` set ps"
    "\<forall>p\<in>set ps. written T defaults p \<or> map_of ps0 (fst p) = Some (snd p)"
  shows "\<exists>ps'. update_simple_modifications T (simple_modifications_to_json T (JArray defaults) ps) ps0 = Inr ps' \<and>
    map_of ps' = map_of ps"
proof -
  let ?js = "write_pairs T defaults [] ps"
  have defs: "definitions_of T ?js = Inr (filter (written T defaults) ps)"
    by (rule definitions_of_write_pairs[OF assms(1,3,4)]) simp
  obtain qs where qs: "update_entries T ?js ps0 = Inr qs"
    using update_entries_Inr[OF defs] by blast
  from update_entries_map[OF assms(1,5) write_pairs_ok[OF assms(1,3)] qs] defs
  have "map_of qs = override (map_of ps0) (filter (written T defaults) ps)" "distinct (map fst qs)"
    by auto
  then have "map_of qs = map_of ps" "distinct (map fst qs)"
    using map_of_overridden[OF assms(4,6)] assms(7) by auto
  moreover have "mset (jt_natural_sort T qs) = mset qs" using assms(2) by (simp add: sort_permutes_def)
  ultimately have "map_of (jt_natural_sort T qs) = map_of ps"
    using map_of_mset(1)[of qs "jt_natural_sort T qs"] by simp
  with qs show ?thesis
    by (simp add: simple_modifications_to_json_def update_simple_modifications_def)
qed

text \<open>
  Simple modifications read back from their JSON over the definitions \<open>ps0\<close> that are loaded
  first answer every \<open>from\<close> as before, provided every pair was written or is one of \<open>ps0\<close> and
  \<open>ps0\<close> defines nothing else.
\<close>

theorem simple_modifications_round_trip:
  assumes "dump_parses T" "sort_permutes T" "list_all (dumped_pair T) ps"
    "distinct (map fst ps)" "distinct (map fst ps0)" "dom (map_of ps0) \<subseteq> fst ` set ps"
    "\<forall>p\<in>set ps. written T defaults p \<or> map_of ps0 (fst p) = Some (snd p)"
  shows "\<exists>ps'. update_simple_modifications T (simple_modifications_to_json T (JArray defaults) ps) ps0 = Inr ps' \<and>
    map_of ps' = map_of ps"
  using simple_modifications_read_back[OF assms] .

text \<open>
  In the oldest format a key mapped to the empty name gives a \<open>to\<close> with an empty key code, not the
  empty definition the test for emptiness is there for.
\<close>

lemma v1_empty_name_is_kept:
  "v1_to T (JString []) = jt_dump T (JArray [JObject [(''key_code'', JString [])]])"
  by (simp add: v1_to_def)

subsection \<open>Instances\<close>

text \<open>A text form that satisfies the two laws: the values are numbered, the number is written in unary.\<close>

instance json :: countable
  by countable_datatype

definition unary_json_text :: json_text where
  "unary_json_text =
     \<lparr>jt_dump = \<lambda>j. replicate (to_nat j) CHR ''|'',
      jt_parse = \<lambda>s. Some (from_nat (length s)),
      jt_natural_sort = \<lambda>ps. ps\<rparr>"

lemma unary_dump_parses: "dump_parses unary_json_text"
  by (simp add: dump_parses_def unary_json_text_def)

lemma unary_sort_permutes: "sort_permutes unary_json_text"
  by (simp add: sort_permutes_def unary_json_text_def)

definition sample_from :: json where
  "sample_from = JObject [(''key_code'', JString ''caps_lock'')]"

definition sample_to :: "string \<Rightarrow> json" where
  "sample_to k = JArray [JObject [(''key_code'', JString k)]]"

definition sample_pair :: "string \<Rightarrow> string \<times> string" where
  "sample_pair k = (jt_dump unary_json_text sample_from, jt_dump unary_json_text (sample_to k))"

lemma sample_pair_dumped: "dumped_pair unary_json_text (sample_pair k)"
  unfolding dumped_pair_def sample_pair_def
  by (rule exI[of _ sample_from], rule exI[of _ "sample_to k"])
     (simp add: sample_from_def sample_to_def members_ok_def json_erase_def erase_member_def)

lemma sample_pair_parsed:
  "jt_parse unary_json_text (fst (sample_pair k)) = Some sample_from"
  "jt_parse unary_json_text (snd (sample_pair k)) = Some (sample_to k)"
  by (simp_all add: sample_pair_def unary_json_text_def)

lemma sample_pair_written: "written unary_json_text [] (sample_pair k)"
  by (simp add: written_def sample_pair_parsed) (simp add: is_default_def sample_from_def sample_to_def)

theorem simple_modifications_round_trip_witness:
  "\<exists>ps'. update_simple_modifications unary_json_text
      (simple_modifications_to_json unary_json_text (JArray []) [sample_pair ''escape'']) [] = Inr ps' \<and>
    map_of ps' = map_of [sample_pair ''escape'']"
  by (rule simple_modifications_round_trip[OF unary_dump_parses unary_sort_permutes])
     (simp_all add: sample_pair_dumped sample_pair_written)

lemma sample_update:
  "update_simple_modifications unary_json_text
     (JArray [JObject [(''from'', sample_from), (''to'', sample_to ''tab'')]]) [sample_pair ''escape''] =
   Inr [sample_pair ''tab'']"
  by (simp add: update_simple_modifications_def erase_or_throw_def replace_definition_def
      erase_by_from_json_string_def sample_pair_def sample_from_def sample_to_def json_erase_def
      erase_member_def migrate_to_json_def)
     (simp add: unary_json_text_def)

theorem simple_modifications_update_overrides_witness:
  "\<exists>ds. definitions_of unary_json_text [JObject [(''from'', sample_from), (''to'', sample_to ''tab'')]] = Inr ds \<and>
    map_of [sample_pair ''tab''] = override (map_of [sample_pair ''escape'']) ds \<and>
    distinct (map fst [sample_pair ''tab''])"
  by (rule simple_modifications_update_overrides[OF unary_dump_parses unary_sort_permutes _ _ sample_update])
     (simp_all add: sample_from_def sample_to_def members_ok_def)

end
