(* ===== verification/Device_Configuration.thy ===== *)
theory Device_Configuration
  imports Configuration_Json_Helper Simple_Modifications Device_Properties Expressions
begin

text \<open>
  The JSON of \<open>src/share/types/device_identifiers.hpp\<close> and the configuration of a device,
  \<open>src/share/core_configuration/details/profile/device.hpp\<close>: its values, its simple modifications
  and fn function keys, the defaults that depend on the kind of device, and the setters, which
  keep two exclusive settings apart. A default value that is a \<open>double\<close> literal is the rational
  number of the \<open>double\<close>.
\<close>

subsection \<open>device_identifiers\<close>

text \<open>Identifiers remember the JSON they were read from; it is not part of their equality.\<close>

record stored_identifiers =
  si_json :: json
  si_identifiers :: device_identifiers

definition identifiers_item ::
    "string \<Rightarrow> json \<Rightarrow> device_identifiers \<Rightarrow> json_error + device_identifiers" where
  "identifiers_item k v d =
     (if k = ''vendor_id''
      then ok_bind (requires_number v (backquoted k)) (\<lambda>_. ok_bind (json_get_uint64 v) (\<lambda>n. Inr (d\<lparr>di_vendor_id := n\<rparr>)))
      else if k = ''product_id''
      then ok_bind (requires_number v (backquoted k)) (\<lambda>_. ok_bind (json_get_uint64 v) (\<lambda>n. Inr (d\<lparr>di_product_id := n\<rparr>)))
      else if k = ''device_address''
      then ok_bind (requires_string v (backquoted k)) (\<lambda>_. ok_bind (json_get_string v) (\<lambda>s. Inr (d\<lparr>di_device_address := s\<rparr>)))
      else if k = ''is_keyboard''
      then ok_bind (requires_boolean v (backquoted k)) (\<lambda>_. ok_bind (json_get_bool v) (\<lambda>b. Inr (d\<lparr>di_is_keyboard := b\<rparr>)))
      else if k = ''is_pointing_device''
      then ok_bind (requires_boolean v (backquoted k)) (\<lambda>_. ok_bind (json_get_bool v) (\<lambda>b. Inr (d\<lparr>di_is_pointing_device := b\<rparr>)))
      else if k = ''is_game_pad''
      then ok_bind (requires_boolean v (backquoted k)) (\<lambda>_. ok_bind (json_get_bool v) (\<lambda>b. Inr (d\<lparr>di_is_game_pad := b\<rparr>)))
      else if k = ''is_consumer''
      then ok_bind (requires_boolean v (backquoted k)) (\<lambda>_. ok_bind (json_get_bool v) (\<lambda>b. Inr (d\<lparr>di_is_consumer := b\<rparr>)))
      else if k = ''is_virtual_device''
      then ok_bind (requires_boolean v (backquoted k)) (\<lambda>_. ok_bind (json_get_bool v) (\<lambda>b. Inr (d\<lparr>di_is_virtual_device := b\<rparr>)))
      else Inr d)"

fun identifiers_items ::
    "(string \<times> json) list \<Rightarrow> device_identifiers \<Rightarrow> json_error + device_identifiers" where
  "identifiers_items [] d = Inr d"
| "identifiers_items ((k, v) # ms) d = ok_bind (identifiers_item k v d) (identifiers_items ms)"

definition no_identifiers :: device_identifiers where
  "no_identifiers =
     \<lparr>di_vendor_id = 0, di_product_id = 0, di_is_keyboard = False, di_is_pointing_device = False,
      di_is_game_pad = False, di_is_consumer = False, di_is_virtual_device = False,
      di_device_address = []\<rparr>"

definition create_identifiers :: "json \<Rightarrow> json_error + stored_identifiers" where
  "create_identifiers j =
     ok_bind (requires_object j ''json'') (\<lambda>_.
     ok_bind (identifiers_items (json_items j) no_identifiers) (\<lambda>d.
     Inr \<lparr>si_json = j, si_identifiers = d\<rparr>))"

definition set_or_erase :: "string \<Rightarrow> bool \<Rightarrow> json \<Rightarrow> json \<Rightarrow> json" where
  "set_or_erase k b v j = (if b then json_set k v j else json_erase k j)"

definition identifiers_to_json :: "stored_identifiers \<Rightarrow> json" where
  "identifiers_to_json s =
     (let d = si_identifiers s
      in set_or_erase ''device_address'' (di_device_address d \<noteq> []) (JString (di_device_address d))
        (set_or_erase ''is_virtual_device'' (di_is_virtual_device d) (JBool (di_is_virtual_device d))
        (set_or_erase ''is_consumer'' (di_is_consumer d) (JBool (di_is_consumer d))
        (set_or_erase ''is_game_pad'' (di_is_game_pad d) (JBool (di_is_game_pad d))
        (set_or_erase ''is_pointing_device'' (di_is_pointing_device d) (JBool (di_is_pointing_device d))
        (set_or_erase ''is_keyboard'' (di_is_keyboard d) (JBool (di_is_keyboard d))
        (set_or_erase ''product_id'' (di_product_id d \<noteq> 0) (JInt (di_product_id d))
        (set_or_erase ''vendor_id'' (di_vendor_id d \<noteq> 0) (JInt (di_vendor_id d)) (si_json s)))))))))"

lemma find_set_or_erase [simp]:
  "json_is_object j \<Longrightarrow>
   json_find (set_or_erase k b v j) k' = (if k' = k then (if b then Some v else None) else json_find j k')"
  by (simp add: set_or_erase_def)

lemma object_set_or_erase [simp]: "json_is_object j \<Longrightarrow> json_is_object (set_or_erase k b v j)"
  by (simp add: set_or_erase_def)

lemma set_or_erase_ok [simp]: "json_ok j \<Longrightarrow> json_ok v \<Longrightarrow> json_ok (set_or_erase k b v j)"
  by (simp add: set_or_erase_def json_set_ok json_erase_ok)

text \<open>The identifiers \<open>d\<close> with the fields of the keys in \<open>K\<close> taken from \<open>d0\<close>.\<close>

definition merge_identifiers ::
    "string set \<Rightarrow> device_identifiers \<Rightarrow> device_identifiers \<Rightarrow> device_identifiers" where
  "merge_identifiers K d0 d =
     \<lparr>di_vendor_id = if ''vendor_id'' \<in> K then di_vendor_id d0 else di_vendor_id d,
      di_product_id = if ''product_id'' \<in> K then di_product_id d0 else di_product_id d,
      di_is_keyboard = if ''is_keyboard'' \<in> K then di_is_keyboard d0 else di_is_keyboard d,
      di_is_pointing_device = if ''is_pointing_device'' \<in> K then di_is_pointing_device d0 else di_is_pointing_device d,
      di_is_game_pad = if ''is_game_pad'' \<in> K then di_is_game_pad d0 else di_is_game_pad d,
      di_is_consumer = if ''is_consumer'' \<in> K then di_is_consumer d0 else di_is_consumer d,
      di_is_virtual_device = if ''is_virtual_device'' \<in> K then di_is_virtual_device d0 else di_is_virtual_device d,
      di_device_address = if ''device_address'' \<in> K then di_device_address d0 else di_device_address d\<rparr>"

lemma merge_identifiers_merge:
  "merge_identifiers K d0 (merge_identifiers L d0 d) = merge_identifiers (K \<union> L) d0 d"
  by (rule device_identifiers.equality) (simp_all add: merge_identifiers_def)

lemma merge_identifiers_empty [simp]: "merge_identifiers {} d0 d = d"
  by (simp add: merge_identifiers_def)

lemma identifiers_items_merge:
  "(\<And>k v d. (k, v) \<in> set ms \<Longrightarrow> identifiers_item k v d = Inr (merge_identifiers {k} d0 d)) \<Longrightarrow>
   identifiers_items ms d = Inr (merge_identifiers (fst ` set ms) d0 d)"
proof (induction ms arbitrary: d)
  case (Cons m ms)
  obtain k v where m: "m = (k, v)" by (cases m)
  have "identifiers_items ms (merge_identifiers {k} d0 d) =
      Inr (merge_identifiers (fst ` set ms) d0 (merge_identifiers {k} d0 d))"
    by (rule Cons.IH) (use Cons.prems in simp)
  then show ?case using Cons.prems[of k v d] m by (simp add: merge_identifiers_merge)
qed simp

definition identifiers_valid :: "stored_identifiers \<Rightarrow> bool" where
  "identifiers_valid s \<longleftrightarrow>
     json_is_object (si_json s) \<and> json_ok (si_json s) \<and>
     0 \<le> di_vendor_id (si_identifiers s) \<and> di_vendor_id (si_identifiers s) < 2 ^ 64 \<and>
     0 \<le> di_product_id (si_identifiers s) \<and> di_product_id (si_identifiers s) < 2 ^ 64"

lemma json_ok_find: "json_ok j \<Longrightarrow> (k, v) \<in> set (json_items j) \<Longrightarrow> json_find j k = Some v"
  by (cases j) (auto simp: json_find_def members_ok_distinct)

lemma json_find_dom: "k \<in> fst ` set (json_items j) \<longleftrightarrow> json_find j k \<noteq> None"
  by (simp add: json_find_def map_of_eq_None_iff)

lemma identifiers_to_json_object: "json_is_object (si_json s) \<Longrightarrow> json_is_object (identifiers_to_json s)"
  by (simp add: identifiers_to_json_def Let_def)

lemma identifiers_to_json_ok: "json_ok (si_json s) \<Longrightarrow> json_ok (identifiers_to_json s)"
  by (simp add: identifiers_to_json_def Let_def)

lemma find_identifiers_to_json:
  assumes "json_is_object (si_json s)" "d = si_identifiers s"
  shows "json_find (identifiers_to_json s) ''vendor_id'' = (if di_vendor_id d \<noteq> 0 then Some (JInt (di_vendor_id d)) else None)"
    and "json_find (identifiers_to_json s) ''product_id'' = (if di_product_id d \<noteq> 0 then Some (JInt (di_product_id d)) else None)"
    and "json_find (identifiers_to_json s) ''is_keyboard'' = (if di_is_keyboard d then Some (JBool True) else None)"
    and "json_find (identifiers_to_json s) ''is_pointing_device'' = (if di_is_pointing_device d then Some (JBool True) else None)"
    and "json_find (identifiers_to_json s) ''is_game_pad'' = (if di_is_game_pad d then Some (JBool True) else None)"
    and "json_find (identifiers_to_json s) ''is_consumer'' = (if di_is_consumer d then Some (JBool True) else None)"
    and "json_find (identifiers_to_json s) ''is_virtual_device'' = (if di_is_virtual_device d then Some (JBool True) else None)"
    and "json_find (identifiers_to_json s) ''device_address'' = (if di_device_address d \<noteq> [] then Some (JString (di_device_address d)) else None)"
  using assms by (simp_all add: identifiers_to_json_def Let_def)

lemma merge_identifiers_single:
  "merge_identifiers {''vendor_id''} d0 d = d\<lparr>di_vendor_id := di_vendor_id d0\<rparr>"
  "merge_identifiers {''product_id''} d0 d = d\<lparr>di_product_id := di_product_id d0\<rparr>"
  "merge_identifiers {''is_keyboard''} d0 d = d\<lparr>di_is_keyboard := di_is_keyboard d0\<rparr>"
  "merge_identifiers {''is_pointing_device''} d0 d = d\<lparr>di_is_pointing_device := di_is_pointing_device d0\<rparr>"
  "merge_identifiers {''is_game_pad''} d0 d = d\<lparr>di_is_game_pad := di_is_game_pad d0\<rparr>"
  "merge_identifiers {''is_consumer''} d0 d = d\<lparr>di_is_consumer := di_is_consumer d0\<rparr>"
  "merge_identifiers {''is_virtual_device''} d0 d = d\<lparr>di_is_virtual_device := di_is_virtual_device d0\<rparr>"
  "merge_identifiers {''device_address''} d0 d = d\<lparr>di_device_address := di_device_address d0\<rparr>"
  by (cases d; simp add: merge_identifiers_def)+

definition identifier_keys :: "string list" where
  "identifier_keys = [''vendor_id'', ''product_id'', ''is_keyboard'', ''is_pointing_device'',
     ''is_game_pad'', ''is_consumer'', ''is_virtual_device'', ''device_address'']"

lemma unknown_identifier_key:
  assumes "k \<notin> set identifier_keys"
  shows "identifiers_item k v d = Inr d" "merge_identifiers {k} d0 d = d"
proof -
  show "identifiers_item k v d = Inr d"
    using assms by (simp add: identifiers_item_def identifier_keys_def)
  show "merge_identifiers {k} d0 d = d"
    by (rule device_identifiers.equality) (use assms in \<open>auto simp: merge_identifiers_def identifier_keys_def\<close>)
qed

lemma identifiers_item_written:
  assumes "identifiers_valid s" "json_find (identifiers_to_json s) k = Some v"
  shows "identifiers_item k v d = Inr (merge_identifiers {k} (si_identifiers s) d)"
proof (cases "k \<in> set identifier_keys")
  case False
  then show ?thesis by (simp add: unknown_identifier_key)
next
  case True
  have o: "json_is_object (si_json s)" using assms(1) by (simp add: identifiers_valid_def)
  note found = find_identifiers_to_json[OF o refl]
  from True have "k = ''vendor_id'' \<or> k = ''product_id'' \<or> k = ''is_keyboard'' \<or>
      k = ''is_pointing_device'' \<or> k = ''is_game_pad'' \<or> k = ''is_consumer'' \<or>
      k = ''is_virtual_device'' \<or> k = ''device_address''"
    by (simp add: identifier_keys_def)
  then show ?thesis
  proof (elim disjE)
    assume k: "k = ''vendor_id''"
    show ?thesis using assms found(1) unfolding k
      by (auto simp: identifiers_item_def merge_identifiers_single requires_number_def requires_string_def
          requires_boolean_def identifiers_valid_def split: if_splits)
  next
    assume k: "k = ''product_id''"
    show ?thesis using assms found(2) unfolding k
      by (auto simp: identifiers_item_def merge_identifiers_single requires_number_def requires_string_def
          requires_boolean_def identifiers_valid_def split: if_splits)
  next
    assume k: "k = ''is_keyboard''"
    show ?thesis using assms(2) found(3) unfolding k
      by (auto simp: identifiers_item_def merge_identifiers_single requires_number_def requires_string_def
          requires_boolean_def split: if_splits)
  next
    assume k: "k = ''is_pointing_device''"
    show ?thesis using assms(2) found(4) unfolding k
      by (auto simp: identifiers_item_def merge_identifiers_single requires_number_def requires_string_def
          requires_boolean_def split: if_splits)
  next
    assume k: "k = ''is_game_pad''"
    show ?thesis using assms(2) found(5) unfolding k
      by (auto simp: identifiers_item_def merge_identifiers_single requires_number_def requires_string_def
          requires_boolean_def split: if_splits)
  next
    assume k: "k = ''is_consumer''"
    show ?thesis using assms(2) found(6) unfolding k
      by (auto simp: identifiers_item_def merge_identifiers_single requires_number_def requires_string_def
          requires_boolean_def split: if_splits)
  next
    assume k: "k = ''is_virtual_device''"
    show ?thesis using assms(2) found(7) unfolding k
      by (auto simp: identifiers_item_def merge_identifiers_single requires_number_def requires_string_def
          requires_boolean_def split: if_splits)
  next
    assume k: "k = ''device_address''"
    show ?thesis using assms(2) found(8) unfolding k
      by (auto simp: identifiers_item_def merge_identifiers_single requires_number_def requires_string_def
          requires_boolean_def split: if_splits)
  qed
qed

lemma device_identifiers_read_back:
  assumes "identifiers_valid s"
  shows "create_identifiers (identifiers_to_json s) =
    Inr \<lparr>si_json = identifiers_to_json s, si_identifiers = si_identifiers s\<rparr>"
proof -
  let ?j = "identifiers_to_json s" and ?d = "si_identifiers s"
  have o: "json_is_object (si_json s)" and obj: "json_is_object ?j" and ok: "json_ok ?j"
    using assms by (simp_all add: identifiers_valid_def identifiers_to_json_object identifiers_to_json_ok)
  have "identifiers_items (json_items ?j) no_identifiers =
      Inr (merge_identifiers (fst ` set (json_items ?j)) ?d no_identifiers)"
    by (rule identifiers_items_merge) (rule identifiers_item_written[OF assms], rule json_ok_find[OF ok])
  also have "merge_identifiers (fst ` set (json_items ?j)) ?d no_identifiers = ?d"
    unfolding merge_identifiers_def json_find_dom find_identifiers_to_json[OF o refl]
    by (rule device_identifiers.equality) (simp_all add: no_identifiers_def)
  finally show ?thesis using obj by (simp add: create_identifiers_def requires_object_def)
qed

subsection \<open>Default values of a device\<close>

text \<open>The default formulas are the trimmed raw strings of the constructor, given by their lines.\<close>

fun join_lines :: "string list \<Rightarrow> string" where
  "join_lines [] = []"
| "join_lines [l] = l"
| "join_lines (l # ls) = l @ newline # join_lines ls"

definition default_stick_x_formula :: string where
  "default_stick_x_formula = join_lines
     [''var m:= 0;'',
      '''',
      ''if (continued_movement == false) {'',
      ''  m := delta_magnitude * 16;'',
      ''} else if (absolute_magnitude < 1.5) {'',
      ''  m := absolute_magnitude * 8;'',
      ''} else if (absolute_magnitude < 2) {'',
      ''  m := absolute_magnitude * 12;'',
      ''} else {'',
      ''  m := absolute_magnitude * 24;'',
      ''};'',
      '''',
      ''cos(radian) * m;'']"

definition default_stick_y_formula :: string where
  "default_stick_y_formula = join_lines
     [''var m:= 0;'',
      '''',
      ''if (continued_movement == false) {'',
      ''  m := delta_magnitude * 16;'',
      ''} else if (absolute_magnitude < 1.5) {'',
      ''  m := absolute_magnitude * 8;'',
      ''} else if (absolute_magnitude < 2) {'',
      ''  m := absolute_magnitude * 12;'',
      ''} else {'',
      ''  m := absolute_magnitude * 24;'',
      ''};'',
      '''',
      ''sin(radian) * m;'']"

definition default_stick_vertical_wheel_formula :: string where
  "default_stick_vertical_wheel_formula = join_lines
     [''var m := 0;'',
      '''',
      ''if (abs(cos(radian)) < abs(sin(radian))) {'',
      ''  if (continued_movement == false) {'',
      ''    m := delta_magnitude;'',
      ''  } else {'',
      ''    m := absolute_magnitude * 0.1;'',
      ''  };'',
      ''};'',
      '''',
      ''sin(radian) * m;'']"

definition default_stick_horizontal_wheel_formula :: string where
  "default_stick_horizontal_wheel_formula = join_lines
     [''var m := 0;'',
      '''',
      ''if (abs(cos(radian)) > abs(sin(radian))) {'',
      ''  if (continued_movement == false) {'',
      ''    m := delta_magnitude;'',
      ''  } else {'',
      ''    m := absolute_magnitude * 0.1;'',
      ''  };'',
      ''};'',
      '''',
      ''cos(radian) * m;'']"

definition device_values :: defaults where
  "device_values =
     [(''ignore'', Config_bool False),
      (''manipulate_caps_lock_led'', Config_bool False),
      (''ignore_vendor_events'', Config_bool False),
      (''treat_as_built_in_keyboard'', Config_bool False),
      (''disable_built_in_keyboard_if_exists'', Config_bool False),
      (''pointing_motion_xy_multiplier'', Config_double 1),
      (''pointing_motion_wheels_multiplier'', Config_double 1),
      (''mouse_flip_x'', Config_bool False),
      (''mouse_flip_y'', Config_bool False),
      (''mouse_flip_vertical_wheel'', Config_bool False),
      (''mouse_flip_horizontal_wheel'', Config_bool False),
      (''mouse_swap_xy'', Config_bool False),
      (''mouse_swap_wheels'', Config_bool False),
      (''mouse_discard_x'', Config_bool False),
      (''mouse_discard_y'', Config_bool False),
      (''mouse_discard_vertical_wheel'', Config_bool False),
      (''mouse_discard_horizontal_wheel'', Config_bool False),
      (''game_pad_swap_sticks'', Config_bool False),
      (''game_pad_xy_stick_deadzone'', Config_double (3602879701896397 / 36028797018963968)),
      (''game_pad_xy_stick_delta_magnitude_detection_threshold'', Config_double (5764607523034235 / 288230376151711744)),
      (''game_pad_xy_stick_continued_movement_absolute_magnitude_threshold'', Config_double 1),
      (''game_pad_xy_stick_continued_movement_interval_milliseconds'', Config_int 20),
      (''game_pad_wheels_stick_deadzone'', Config_double (3602879701896397 / 36028797018963968)),
      (''game_pad_wheels_stick_delta_magnitude_detection_threshold'', Config_double (5764607523034235 / 288230376151711744)),
      (''game_pad_wheels_stick_continued_movement_absolute_magnitude_threshold'', Config_double 1),
      (''game_pad_wheels_stick_continued_movement_interval_milliseconds'', Config_int 10),
      (''game_pad_stick_x_formula'', Config_string default_stick_x_formula),
      (''game_pad_stick_y_formula'', Config_string default_stick_y_formula),
      (''game_pad_stick_vertical_wheel_formula'', Config_string default_stick_vertical_wheel_formula),
      (''game_pad_stick_horizontal_wheel_formula'', Config_string default_stick_horizontal_wheel_formula)]"

text \<open>\<open>trim_copy\<close> removes white space at both ends.\<close>

definition is_space :: "char \<Rightarrow> bool" where
  "is_space c \<longleftrightarrow> of_char c \<in> {9, 10, 11, 12, 13, 32 :: nat}"

definition trim_copy :: "string \<Rightarrow> string" where
  "trim_copy s = rev (dropWhile is_space (rev (dropWhile is_space s)))"

subsection \<open>The configuration of a device\<close>

record device =
  dv_json :: json
  dv_identifiers :: stored_identifiers
  dv_values :: helper_values
  dv_simple_modifications :: simple_modifications
  dv_fn_function_keys :: simple_modifications

text \<open>
  Setting both would disable the device for good, so the second of the two is cleared.
\<close>

definition coordinate_between_properties :: "device \<Rightarrow> device" where
  "coordinate_between_properties d =
     (if bool_member ''treat_as_built_in_keyboard'' (dv_values d) \<and>
         bool_member ''disable_built_in_keyboard_if_exists'' (dv_values d)
      then d\<lparr>dv_values := set_member ''disable_built_in_keyboard_if_exists'' (Config_bool False) (dv_values d)\<rparr>
      else d)"

definition device_assign :: "string \<Rightarrow> config_value \<Rightarrow> device \<Rightarrow> device" where
  "device_assign k x d = coordinate_between_properties (d\<lparr>dv_values := set_member k x (dv_values d)\<rparr>)"

definition device_default_fn_function_keys :: "json list" where
  "device_default_fn_function_keys =
     map (\<lambda>f. JObject [(''from'', JObject [(''key_code'', JString f)]), (''to'', JObject [])])
       [''f1'', ''f2'', ''f3'', ''f4'', ''f5'', ''f6'', ''f7'', ''f8'', ''f9'', ''f10'', ''f11'', ''f12'']"

definition device_item :: "json_text \<Rightarrow> string \<Rightarrow> json \<Rightarrow> device \<Rightarrow> json_error + device" where
  "device_item T k v d =
     (if k = ''identifiers''
      then ok_bind (rethrow_with [Text (backquoted k @ '' error: '')] (create_identifiers v)) (\<lambda>i.
           Inr (d\<lparr>dv_identifiers := i\<rparr>))
      else if k = ''simple_modifications''
      then ok_bind (rethrow_with [Text (backquoted k @ '' error: '')]
             (update_simple_modifications T v (dv_simple_modifications d))) (\<lambda>s.
           Inr (d\<lparr>dv_simple_modifications := s\<rparr>))
      else if k = ''fn_function_keys''
      then ok_bind (rethrow_with [Text (backquoted k @ '' error: '')]
             (update_simple_modifications T v (dv_fn_function_keys d))) (\<lambda>s.
           Inr (d\<lparr>dv_fn_function_keys := s\<rparr>))
      else Inr d)"

fun device_items :: "json_text \<Rightarrow> (string \<times> json) list \<Rightarrow> device \<Rightarrow> json_error + device" where
  "device_items T [] d = Inr d"
| "device_items T ((k, v) # ms) d = ok_bind (device_item T k v d) (device_items T ms)"

definition is_ignored_by_default :: "device_identifiers \<Rightarrow> bool" where
  "is_ignored_by_default i \<longleftrightarrow>
     di_is_pointing_device i \<or> di_is_game_pad i \<or> di_is_consumer i \<or> di_vendor_id i = 0x1050"

definition set_special_defaults :: "device_identifiers \<Rightarrow> helper_values \<Rightarrow> helper_values" where
  "set_special_defaults i vs =
     (let vs1 = (if is_ignored_by_default i then set_default_value ''ignore'' (Config_bool True) vs else vs)
      in if di_is_keyboard i then set_default_value ''manipulate_caps_lock_led'' (Config_bool True) vs1 else vs1)"

definition create_device :: "json_text \<Rightarrow> error_handling \<Rightarrow> json \<Rightarrow> json_error + device" where
  "create_device T eh j =
     ok_bind (update_simple_modifications T (JArray device_default_fn_function_keys) []) (\<lambda>fn.
     ok_bind (requires_object j ''json'') (\<lambda>_.
     ok_bind (update_values eh j (map value_t_initial device_values)) (\<lambda>vs.
     ok_bind (device_items T (json_items j)
       \<lparr>dv_json = j, dv_identifiers = \<lparr>si_json = JObject [], si_identifiers = no_identifiers\<rparr>,
        dv_values = vs, dv_simple_modifications = [], dv_fn_function_keys = fn\<rparr>) (\<lambda>d.
     Inr (coordinate_between_properties
       (d\<lparr>dv_values := set_special_defaults (si_identifiers (dv_identifiers d)) (dv_values d)\<rparr>))))))"

definition device_to_json :: "json_text \<Rightarrow> device \<Rightarrow> json" where
  "device_to_json T d =
     (let j = json_set ''identifiers'' (identifiers_to_json (dv_identifiers d))
                (update_values_json (dv_values d) (dv_json d));
          sm = simple_modifications_to_json T (JArray []) (dv_simple_modifications d);
          fn = simple_modifications_to_json T (JArray device_default_fn_function_keys) (dv_fn_function_keys d);
          j1 = set_or_erase ''simple_modifications'' (\<not> json_empty sm) sm j;
          j2 = set_or_erase ''fn_function_keys'' (\<not> json_empty fn) fn j1
      in if json_size j2 = 1 then json_erase ''identifiers'' j2 else j2)"

definition get_ignore :: "device \<Rightarrow> bool" where
  "get_ignore d = bool_member ''ignore'' (dv_values d)"
definition set_ignore :: "bool \<Rightarrow> device \<Rightarrow> device" where
  "set_ignore x = device_assign ''ignore'' (Config_bool x)"

definition get_manipulate_caps_lock_led :: "device \<Rightarrow> bool" where
  "get_manipulate_caps_lock_led d = bool_member ''manipulate_caps_lock_led'' (dv_values d)"
definition set_manipulate_caps_lock_led :: "bool \<Rightarrow> device \<Rightarrow> device" where
  "set_manipulate_caps_lock_led x = device_assign ''manipulate_caps_lock_led'' (Config_bool x)"

definition get_ignore_vendor_events :: "device \<Rightarrow> bool" where
  "get_ignore_vendor_events d = bool_member ''ignore_vendor_events'' (dv_values d)"
definition set_ignore_vendor_events :: "bool \<Rightarrow> device \<Rightarrow> device" where
  "set_ignore_vendor_events x = device_assign ''ignore_vendor_events'' (Config_bool x)"

definition get_treat_as_built_in_keyboard :: "device \<Rightarrow> bool" where
  "get_treat_as_built_in_keyboard d = bool_member ''treat_as_built_in_keyboard'' (dv_values d)"
definition set_treat_as_built_in_keyboard :: "bool \<Rightarrow> device \<Rightarrow> device" where
  "set_treat_as_built_in_keyboard x = device_assign ''treat_as_built_in_keyboard'' (Config_bool x)"

definition get_disable_built_in_keyboard_if_exists :: "device \<Rightarrow> bool" where
  "get_disable_built_in_keyboard_if_exists d = bool_member ''disable_built_in_keyboard_if_exists'' (dv_values d)"
definition set_disable_built_in_keyboard_if_exists :: "bool \<Rightarrow> device \<Rightarrow> device" where
  "set_disable_built_in_keyboard_if_exists x = device_assign ''disable_built_in_keyboard_if_exists'' (Config_bool x)"

definition get_pointing_motion_xy_multiplier :: "device \<Rightarrow> rat" where
  "get_pointing_motion_xy_multiplier d = double_member ''pointing_motion_xy_multiplier'' (dv_values d)"
definition set_pointing_motion_xy_multiplier :: "rat \<Rightarrow> device \<Rightarrow> device" where
  "set_pointing_motion_xy_multiplier x = device_assign ''pointing_motion_xy_multiplier'' (Config_double x)"

definition get_pointing_motion_wheels_multiplier :: "device \<Rightarrow> rat" where
  "get_pointing_motion_wheels_multiplier d = double_member ''pointing_motion_wheels_multiplier'' (dv_values d)"
definition set_pointing_motion_wheels_multiplier :: "rat \<Rightarrow> device \<Rightarrow> device" where
  "set_pointing_motion_wheels_multiplier x = device_assign ''pointing_motion_wheels_multiplier'' (Config_double x)"

definition get_mouse_flip_x :: "device \<Rightarrow> bool" where
  "get_mouse_flip_x d = bool_member ''mouse_flip_x'' (dv_values d)"
definition set_mouse_flip_x :: "bool \<Rightarrow> device \<Rightarrow> device" where
  "set_mouse_flip_x x = device_assign ''mouse_flip_x'' (Config_bool x)"

definition get_mouse_flip_y :: "device \<Rightarrow> bool" where
  "get_mouse_flip_y d = bool_member ''mouse_flip_y'' (dv_values d)"
definition set_mouse_flip_y :: "bool \<Rightarrow> device \<Rightarrow> device" where
  "set_mouse_flip_y x = device_assign ''mouse_flip_y'' (Config_bool x)"

definition get_mouse_flip_vertical_wheel :: "device \<Rightarrow> bool" where
  "get_mouse_flip_vertical_wheel d = bool_member ''mouse_flip_vertical_wheel'' (dv_values d)"
definition set_mouse_flip_vertical_wheel :: "bool \<Rightarrow> device \<Rightarrow> device" where
  "set_mouse_flip_vertical_wheel x = device_assign ''mouse_flip_vertical_wheel'' (Config_bool x)"

definition get_mouse_flip_horizontal_wheel :: "device \<Rightarrow> bool" where
  "get_mouse_flip_horizontal_wheel d = bool_member ''mouse_flip_horizontal_wheel'' (dv_values d)"
definition set_mouse_flip_horizontal_wheel :: "bool \<Rightarrow> device \<Rightarrow> device" where
  "set_mouse_flip_horizontal_wheel x = device_assign ''mouse_flip_horizontal_wheel'' (Config_bool x)"

definition get_mouse_swap_xy :: "device \<Rightarrow> bool" where
  "get_mouse_swap_xy d = bool_member ''mouse_swap_xy'' (dv_values d)"
definition set_mouse_swap_xy :: "bool \<Rightarrow> device \<Rightarrow> device" where
  "set_mouse_swap_xy x = device_assign ''mouse_swap_xy'' (Config_bool x)"

definition get_mouse_swap_wheels :: "device \<Rightarrow> bool" where
  "get_mouse_swap_wheels d = bool_member ''mouse_swap_wheels'' (dv_values d)"
definition set_mouse_swap_wheels :: "bool \<Rightarrow> device \<Rightarrow> device" where
  "set_mouse_swap_wheels x = device_assign ''mouse_swap_wheels'' (Config_bool x)"

definition get_mouse_discard_x :: "device \<Rightarrow> bool" where
  "get_mouse_discard_x d = bool_member ''mouse_discard_x'' (dv_values d)"
definition set_mouse_discard_x :: "bool \<Rightarrow> device \<Rightarrow> device" where
  "set_mouse_discard_x x = device_assign ''mouse_discard_x'' (Config_bool x)"

definition get_mouse_discard_y :: "device \<Rightarrow> bool" where
  "get_mouse_discard_y d = bool_member ''mouse_discard_y'' (dv_values d)"
definition set_mouse_discard_y :: "bool \<Rightarrow> device \<Rightarrow> device" where
  "set_mouse_discard_y x = device_assign ''mouse_discard_y'' (Config_bool x)"

definition get_mouse_discard_vertical_wheel :: "device \<Rightarrow> bool" where
  "get_mouse_discard_vertical_wheel d = bool_member ''mouse_discard_vertical_wheel'' (dv_values d)"
definition set_mouse_discard_vertical_wheel :: "bool \<Rightarrow> device \<Rightarrow> device" where
  "set_mouse_discard_vertical_wheel x = device_assign ''mouse_discard_vertical_wheel'' (Config_bool x)"

definition get_mouse_discard_horizontal_wheel :: "device \<Rightarrow> bool" where
  "get_mouse_discard_horizontal_wheel d = bool_member ''mouse_discard_horizontal_wheel'' (dv_values d)"
definition set_mouse_discard_horizontal_wheel :: "bool \<Rightarrow> device \<Rightarrow> device" where
  "set_mouse_discard_horizontal_wheel x = device_assign ''mouse_discard_horizontal_wheel'' (Config_bool x)"

definition get_game_pad_swap_sticks :: "device \<Rightarrow> bool" where
  "get_game_pad_swap_sticks d = bool_member ''game_pad_swap_sticks'' (dv_values d)"
definition set_game_pad_swap_sticks :: "bool \<Rightarrow> device \<Rightarrow> device" where
  "set_game_pad_swap_sticks x = device_assign ''game_pad_swap_sticks'' (Config_bool x)"

definition get_game_pad_xy_stick_deadzone :: "device \<Rightarrow> rat" where
  "get_game_pad_xy_stick_deadzone d = double_member ''game_pad_xy_stick_deadzone'' (dv_values d)"
definition set_game_pad_xy_stick_deadzone :: "rat \<Rightarrow> device \<Rightarrow> device" where
  "set_game_pad_xy_stick_deadzone x = device_assign ''game_pad_xy_stick_deadzone'' (Config_double x)"

definition get_game_pad_xy_stick_delta_magnitude_detection_threshold :: "device \<Rightarrow> rat" where
  "get_game_pad_xy_stick_delta_magnitude_detection_threshold d = double_member ''game_pad_xy_stick_delta_magnitude_detection_threshold'' (dv_values d)"
definition set_game_pad_xy_stick_delta_magnitude_detection_threshold :: "rat \<Rightarrow> device \<Rightarrow> device" where
  "set_game_pad_xy_stick_delta_magnitude_detection_threshold x = device_assign ''game_pad_xy_stick_delta_magnitude_detection_threshold'' (Config_double x)"

definition get_game_pad_xy_stick_continued_movement_absolute_magnitude_threshold :: "device \<Rightarrow> rat" where
  "get_game_pad_xy_stick_continued_movement_absolute_magnitude_threshold d = double_member ''game_pad_xy_stick_continued_movement_absolute_magnitude_threshold'' (dv_values d)"
definition set_game_pad_xy_stick_continued_movement_absolute_magnitude_threshold :: "rat \<Rightarrow> device \<Rightarrow> device" where
  "set_game_pad_xy_stick_continued_movement_absolute_magnitude_threshold x = device_assign ''game_pad_xy_stick_continued_movement_absolute_magnitude_threshold'' (Config_double x)"

definition get_game_pad_xy_stick_continued_movement_interval_milliseconds :: "device \<Rightarrow> int" where
  "get_game_pad_xy_stick_continued_movement_interval_milliseconds d = int_member ''game_pad_xy_stick_continued_movement_interval_milliseconds'' (dv_values d)"
definition set_game_pad_xy_stick_continued_movement_interval_milliseconds :: "int \<Rightarrow> device \<Rightarrow> device" where
  "set_game_pad_xy_stick_continued_movement_interval_milliseconds x = device_assign ''game_pad_xy_stick_continued_movement_interval_milliseconds'' (Config_int x)"

definition get_game_pad_wheels_stick_deadzone :: "device \<Rightarrow> rat" where
  "get_game_pad_wheels_stick_deadzone d = double_member ''game_pad_wheels_stick_deadzone'' (dv_values d)"
definition set_game_pad_wheels_stick_deadzone :: "rat \<Rightarrow> device \<Rightarrow> device" where
  "set_game_pad_wheels_stick_deadzone x = device_assign ''game_pad_wheels_stick_deadzone'' (Config_double x)"

definition get_game_pad_wheels_stick_delta_magnitude_detection_threshold :: "device \<Rightarrow> rat" where
  "get_game_pad_wheels_stick_delta_magnitude_detection_threshold d = double_member ''game_pad_wheels_stick_delta_magnitude_detection_threshold'' (dv_values d)"
definition set_game_pad_wheels_stick_delta_magnitude_detection_threshold :: "rat \<Rightarrow> device \<Rightarrow> device" where
  "set_game_pad_wheels_stick_delta_magnitude_detection_threshold x = device_assign ''game_pad_wheels_stick_delta_magnitude_detection_threshold'' (Config_double x)"

definition get_game_pad_wheels_stick_continued_movement_absolute_magnitude_threshold :: "device \<Rightarrow> rat" where
  "get_game_pad_wheels_stick_continued_movement_absolute_magnitude_threshold d = double_member ''game_pad_wheels_stick_continued_movement_absolute_magnitude_threshold'' (dv_values d)"
definition set_game_pad_wheels_stick_continued_movement_absolute_magnitude_threshold :: "rat \<Rightarrow> device \<Rightarrow> device" where
  "set_game_pad_wheels_stick_continued_movement_absolute_magnitude_threshold x = device_assign ''game_pad_wheels_stick_continued_movement_absolute_magnitude_threshold'' (Config_double x)"

definition get_game_pad_wheels_stick_continued_movement_interval_milliseconds :: "device \<Rightarrow> int" where
  "get_game_pad_wheels_stick_continued_movement_interval_milliseconds d = int_member ''game_pad_wheels_stick_continued_movement_interval_milliseconds'' (dv_values d)"
definition set_game_pad_wheels_stick_continued_movement_interval_milliseconds :: "int \<Rightarrow> device \<Rightarrow> device" where
  "set_game_pad_wheels_stick_continued_movement_interval_milliseconds x = device_assign ''game_pad_wheels_stick_continued_movement_interval_milliseconds'' (Config_int x)"

definition get_game_pad_stick_x_formula :: "device \<Rightarrow> string" where
  "get_game_pad_stick_x_formula d = string_member ''game_pad_stick_x_formula'' (dv_values d)"
definition set_game_pad_stick_x_formula :: "string \<Rightarrow> device \<Rightarrow> device" where
  "set_game_pad_stick_x_formula x = device_assign ''game_pad_stick_x_formula'' (Config_string (trim_copy x))"

definition get_game_pad_stick_y_formula :: "device \<Rightarrow> string" where
  "get_game_pad_stick_y_formula d = string_member ''game_pad_stick_y_formula'' (dv_values d)"
definition set_game_pad_stick_y_formula :: "string \<Rightarrow> device \<Rightarrow> device" where
  "set_game_pad_stick_y_formula x = device_assign ''game_pad_stick_y_formula'' (Config_string (trim_copy x))"

definition get_game_pad_stick_vertical_wheel_formula :: "device \<Rightarrow> string" where
  "get_game_pad_stick_vertical_wheel_formula d = string_member ''game_pad_stick_vertical_wheel_formula'' (dv_values d)"
definition set_game_pad_stick_vertical_wheel_formula :: "string \<Rightarrow> device \<Rightarrow> device" where
  "set_game_pad_stick_vertical_wheel_formula x = device_assign ''game_pad_stick_vertical_wheel_formula'' (Config_string (trim_copy x))"

definition get_game_pad_stick_horizontal_wheel_formula :: "device \<Rightarrow> string" where
  "get_game_pad_stick_horizontal_wheel_formula d = string_member ''game_pad_stick_horizontal_wheel_formula'' (dv_values d)"
definition set_game_pad_stick_horizontal_wheel_formula :: "string \<Rightarrow> device \<Rightarrow> device" where
  "set_game_pad_stick_horizontal_wheel_formula x = device_assign ''game_pad_stick_horizontal_wheel_formula'' (Config_string (trim_copy x))"

text \<open>A formula is tried on one position of the stick; what it computes is a parameter.\<close>

definition set_formula_variable :: "string \<Rightarrow> rat \<Rightarrow> expression_wrapper \<Rightarrow> expression_wrapper" where
  "set_formula_variable name r e = snd (ew_set_variable name (Finite r) e)"

definition validate_stick_formula :: "platform \<Rightarrow> string \<Rightarrow> bool" where
  "validate_stick_formula P formula =
     (let e0 = compile_expression P formula;
          e1 = set_formula_variable ''radian'' 0 e0;
          e2 = set_formula_variable ''delta_magnitude'' (3602879701896397 / 36028797018963968) e1;
          e3 = set_formula_variable ''absolute_magnitude'' (1 / 2) e2;
          e4 = set_formula_variable ''continued_movement'' 1 e3
      in \<not> double_isnan (fst (ew_value P e4)))"

subsection \<open>The two built-in keyboard settings exclude each other\<close>

lemma bool_member_set_member:
  "bool_member k (set_member k' (Config_bool b) vs) =
     (if k = k' then member_value k vs \<noteq> None \<and> b else bool_member k vs)"
  by (auto simp: bool_member_def split: option.splits)

lemma coordinate_excludes:
  "\<not> (get_treat_as_built_in_keyboard (coordinate_between_properties d) \<and>
      get_disable_built_in_keyboard_if_exists (coordinate_between_properties d))"
  by (simp add: coordinate_between_properties_def get_treat_as_built_in_keyboard_def
      get_disable_built_in_keyboard_if_exists_def bool_member_set_member)

text \<open>A device as it is constructed and changed: every setter is an assignment to a member.\<close>

inductive device_reachable :: "json_text \<Rightarrow> device \<Rightarrow> bool" for T where
  dr_create: "create_device T eh j = Inr d \<Longrightarrow> device_reachable T d"
| dr_assign: "device_reachable T d \<Longrightarrow> device_reachable T (device_assign k x d)"
| dr_simple_modifications: "device_reachable T d \<Longrightarrow> device_reachable T (d\<lparr>dv_simple_modifications := s\<rparr>)"
| dr_fn_function_keys: "device_reachable T d \<Longrightarrow> device_reachable T (d\<lparr>dv_fn_function_keys := s\<rparr>)"

text \<open>
  C33. However a device is read and set, it is never both treated as the built-in keyboard and set
  to disable the built-in keyboard, which would disable the device itself.
\<close>

theorem device_never_disables_itself:
  assumes "device_reachable T d"
  shows "\<not> (get_treat_as_built_in_keyboard d \<and> get_disable_built_in_keyboard_if_exists d)"
  using assms
proof (induction rule: device_reachable.induct)
  case (dr_create eh j d)
  then obtain d0 where "d = coordinate_between_properties d0" by (auto simp: create_device_def)
  then show ?case using coordinate_excludes by simp
next
  case (dr_assign d k x)
  show ?case unfolding device_assign_def by (rule coordinate_excludes)
qed (simp_all add: get_treat_as_built_in_keyboard_def get_disable_built_in_keyboard_if_exists_def)

subsection \<open>Defaults that depend on the device\<close>

definition special_value :: "device_identifiers \<Rightarrow> string \<Rightarrow> config_value option" where
  "special_value i k =
     (if k = ''ignore'' \<and> is_ignored_by_default i \<or> k = ''manipulate_caps_lock_led'' \<and> di_is_keyboard i
      then Some (Config_bool True) else None)"

definition special_entry :: "device_identifiers \<Rightarrow> value_t \<Rightarrow> value_t" where
  "special_entry i v = (case special_value i (vt_key v) of None \<Rightarrow> v | Some d \<Rightarrow> set_default d v)"

lemma vt_key_set_default [simp]: "vt_key (set_default d v) = vt_key v"
  by (simp add: set_default_def Let_def)

lemma set_default_value_if:
  "(if b then set_default_value k x vs else vs) = map (\<lambda>v. if b \<and> vt_key v = k then set_default x v else v) vs"
  by (simp add: set_default_value_def)

lemma special_entry_steps:
  "(let w = (if is_ignored_by_default i \<and> vt_key v = ''ignore'' then set_default (Config_bool True) v else v)
    in if di_is_keyboard i \<and> vt_key w = ''manipulate_caps_lock_led'' then set_default (Config_bool True) w else w)
   = special_entry i v"
  by (cases "vt_key v = ''ignore''") (simp_all add: special_entry_def special_value_def Let_def)

lemma set_special_defaults_map: "set_special_defaults i vs = map (special_entry i) vs"
  unfolding set_special_defaults_def Let_def set_default_value_if map_map comp_def
    special_entry_steps[symmetric] ..

definition entry_view :: "value_t \<Rightarrow> string \<times> config_value" where
  "entry_view v = (vt_key v, vt_value v)"

lemma member_value_map_of: "member_value k vs = map_of (map entry_view vs) k"
  by (induction vs) (auto simp: member_value_def find_value_def entry_view_def)

lemma member_value_view:
  "map entry_view vs = map entry_view ws \<Longrightarrow> member_value k vs = member_value k ws"
  by (simp add: member_value_map_of)

text \<open>An entry of a device with identifiers \<open>i\<close> that can be stored.\<close>

definition device_entry_valid :: "device_identifiers \<Rightarrow> string \<times> config_value \<Rightarrow> value_t \<Rightarrow> bool" where
  "device_entry_valid i d v \<longleftrightarrow>
     vt_key v = fst d \<and>
     vt_default_value v = (case special_value i (fst d) of None \<Rightarrow> snd d | Some x \<Rightarrow> x) \<and>
     storable_value (snd d) (vt_value v)"

lemma device_entry_read_back:
  assumes "device_entry_valid i d v" "json_is_object j"
    "json_find j (vt_key v) =
       (if vt_value v \<noteq> vt_default_value v then Some (marshal_value (vt_value v)) else None)"
  shows "\<exists>u. update_value eh j (value_t_initial d) = Inr u \<and> entry_view (special_entry i u) = entry_view v"
  using assms
  by (auto simp: update_value_def value_t_initial_def requires_object_def device_entry_valid_def
      unmarshal_marshal_value special_entry_def set_default_def entry_view_def split: option.splits)

lemma device_entries_read_back:
  assumes "list_all2 (device_entry_valid i) ds vs" "json_is_object j"
    "\<And>v. v \<in> set vs \<Longrightarrow> json_find j (vt_key v) =
       (if vt_value v \<noteq> vt_default_value v then Some (marshal_value (vt_value v)) else None)"
  shows "\<exists>us. update_values eh j (map value_t_initial ds) = Inr us \<and>
    map entry_view (set_special_defaults i us) = map entry_view vs"
  using assms(1,3)
proof (induction rule: list_all2_induct)
  case (Cons d ds v vs)
  obtain u where u: "update_value eh j (value_t_initial d) = Inr u" "entry_view (special_entry i u) = entry_view v"
    using device_entry_read_back[OF Cons.hyps(1) assms(2), of eh] Cons.prems by auto
  obtain us where "update_values eh j (map value_t_initial ds) = Inr us"
    "map entry_view (set_special_defaults i us) = map entry_view vs"
    using Cons.IH Cons.prems by auto
  with u show ?case by (intro exI[of _ "u # us"]) (simp add: set_special_defaults_map)
qed (simp add: set_special_defaults_map)

lemma device_items_values:
  "device_items T ms d = Inr d' \<Longrightarrow> dv_values d' = dv_values d \<and> dv_json d' = dv_json d"
  by (induction T ms d rule: device_items.induct) (auto simp: device_item_def split: if_splits)

lemma bool_member_coordinate:
  "k \<noteq> ''disable_built_in_keyboard_if_exists'' \<Longrightarrow>
   bool_member k (dv_values (coordinate_between_properties d)) = bool_member k (dv_values d)"
  by (simp add: coordinate_between_properties_def bool_member_set_member)

lemma create_deviceE:
  assumes "create_device T eh j = Inr d"
  obtains fn vs d0 where "json_is_object j" "update_values eh j (map value_t_initial device_values) = Inr vs"
    "device_items T (json_items j)
       \<lparr>dv_json = j, dv_identifiers = \<lparr>si_json = JObject [], si_identifiers = no_identifiers\<rparr>,
        dv_values = vs, dv_simple_modifications = [], dv_fn_function_keys = fn\<rparr> = Inr d0"
    "dv_values d0 = vs"
    "d = coordinate_between_properties
       (d0\<lparr>dv_values := set_special_defaults (si_identifiers (dv_identifiers d0)) vs\<rparr>)"
proof -
  from assms obtain fn vs d0 where d0: "json_is_object j"
    "update_values eh j (map value_t_initial device_values) = Inr vs"
    "device_items T (json_items j)
       \<lparr>dv_json = j, dv_identifiers = \<lparr>si_json = JObject [], si_identifiers = no_identifiers\<rparr>,
        dv_values = vs, dv_simple_modifications = [], dv_fn_function_keys = fn\<rparr> = Inr d0"
    "d = coordinate_between_properties
       (d0\<lparr>dv_values := set_special_defaults (si_identifiers (dv_identifiers d0)) (dv_values d0)\<rparr>)"
    by (auto simp: create_device_def)
  have "dv_values d0 = vs" using device_items_values[OF d0(3)] by simp
  with d0 that show thesis by simp
qed

text \<open>
  A device is ignored as its configuration says; where it says nothing, pointing devices, game
  pads, consumer devices and tokens of vendor 0x1050 are ignored and all others are not.
\<close>

theorem device_ignore_default:
  assumes "create_device T eh j = Inr d"
  shows "get_ignore d =
    (case json_find j ''ignore'' of
       Some (JBool b) \<Rightarrow> b
     | _ \<Rightarrow> is_ignored_by_default (si_identifiers (dv_identifiers d)))"
  using assms
proof (rule create_deviceE)
  fix fn vs d0
  assume obj: "json_is_object j"
    and vs: "update_values eh j (map value_t_initial device_values) = Inr vs"
    and d: "d = coordinate_between_properties
       (d0\<lparr>dv_values := set_special_defaults (si_identifiers (dv_identifiers d0)) vs\<rparr>)"
  let ?i = "si_identifiers (dv_identifiers d0)"
  from vs obtain u us where u: "vs = u # us"
    "update_value eh j (value_t_initial (''ignore'', Config_bool False)) = Inr u"
    by (auto simp: device_values_def)
  then have key: "vt_key u = ''ignore''"
    by (auto simp: update_value_def value_t_initial_def split: option.splits sum.splits if_splits)
  have "get_ignore d = bool_member ''ignore'' (special_entry ?i u # map (special_entry ?i) us)"
    using d u(1) by (simp add: get_ignore_def bool_member_coordinate set_special_defaults_map)
  also have "\<dots> = (vt_value (special_entry ?i u) = Config_bool True)"
    using key by (auto simp: bool_member_def member_value_def find_value_def special_entry_def
        split: option.splits config_value.splits)
  also have "\<dots> = (case json_find j ''ignore'' of Some (JBool b) \<Rightarrow> b | _ \<Rightarrow> is_ignored_by_default ?i)"
  proof (cases "json_find j ''ignore''")
    case None
    then have "u = value_t_initial (''ignore'', Config_bool False)"
      using u(2) obj by (simp add: update_value_def value_t_initial_def)
    with None show ?thesis
      by (simp add: special_entry_def special_value_def set_default_def value_t_initial_def Let_def)
  next
    case (Some x)
    then show ?thesis
      using u(2) obj
      by (cases x) (auto simp: update_value_def value_t_initial_def special_entry_def special_value_def
          set_default_def requires_object_def requires_boolean_def Let_def split: if_splits)
  qed
  also have "?i = si_identifiers (dv_identifiers d)"
    using d by (simp add: coordinate_between_properties_def)
  finally show ?thesis .
qed

subsection \<open>A device is read back as it was written\<close>

lemma rethrow_with_ok [simp]: "r = Inr x \<Longrightarrow> rethrow_with m r = Inr x"
  by simp

text \<open>
  The loop over the members of a device whose keys are distinct, when everything it reads can be
  read: each of the three members is read once, from what the constructor started with.
\<close>

lemma device_items_read:
  assumes "distinct (map fst ms)"
    "\<And>v. map_of ms ''identifiers'' = Some v \<Longrightarrow> create_identifiers v = Inr i"
    "\<And>v. map_of ms ''simple_modifications'' = Some v \<Longrightarrow>
       update_simple_modifications T v (dv_simple_modifications d) = Inr s"
    "\<And>v. map_of ms ''fn_function_keys'' = Some v \<Longrightarrow>
       update_simple_modifications T v (dv_fn_function_keys d) = Inr f"
  shows "device_items T ms d = Inr
    (d\<lparr>dv_identifiers := (if map_of ms ''identifiers'' = None then dv_identifiers d else i),
      dv_simple_modifications :=
        (if map_of ms ''simple_modifications'' = None then dv_simple_modifications d else s),
      dv_fn_function_keys := (if map_of ms ''fn_function_keys'' = None then dv_fn_function_keys d else f)\<rparr>)"
  using assms
proof (induction ms arbitrary: d)
  case (Cons m ms)
  obtain k v where m: "m = (k, v)" by (cases m)
  have fresh: "map_of ms k = None" using Cons.prems(1) m by (simp add: map_of_eq_None_iff)
  have d: "distinct (map fst ms)" using Cons.prems(1) by simp
  consider "k = ''identifiers''" | "k = ''simple_modifications''" | "k = ''fn_function_keys''"
    | "k \<notin> {''identifiers'', ''simple_modifications'', ''fn_function_keys''}" by blast
  then show ?case
  proof cases
    case 1
    have "device_item T k v d = Inr (d\<lparr>dv_identifiers := i\<rparr>)"
      using Cons.prems(2)[of v] m 1 by (simp add: device_item_def)
    moreover have "device_items T ms (d\<lparr>dv_identifiers := i\<rparr>) = Inr
      (d\<lparr>dv_identifiers := i,
        dv_simple_modifications :=
          (if map_of ms ''simple_modifications'' = None then dv_simple_modifications d else s),
        dv_fn_function_keys := (if map_of ms ''fn_function_keys'' = None then dv_fn_function_keys d else f)\<rparr>)"
      by (subst Cons.IH[OF d]) (use Cons.prems(3,4) fresh 1 m in simp_all)
    ultimately show ?thesis using m 1 by simp
  next
    case 2
    have "device_item T k v d = Inr (d\<lparr>dv_simple_modifications := s\<rparr>)"
      using Cons.prems(3)[of v] m 2 by (simp add: device_item_def)
    moreover have "device_items T ms (d\<lparr>dv_simple_modifications := s\<rparr>) = Inr
      (d\<lparr>dv_identifiers := (if map_of ms ''identifiers'' = None then dv_identifiers d else i),
        dv_simple_modifications := s,
        dv_fn_function_keys := (if map_of ms ''fn_function_keys'' = None then dv_fn_function_keys d else f)\<rparr>)"
      by (subst Cons.IH[OF d]) (use Cons.prems(2,4) fresh 2 m in simp_all)
    ultimately show ?thesis using m 2 by simp
  next
    case 3
    have "device_item T k v d = Inr (d\<lparr>dv_fn_function_keys := f\<rparr>)"
      using Cons.prems(4)[of v] m 3 by (simp add: device_item_def)
    moreover have "device_items T ms (d\<lparr>dv_fn_function_keys := f\<rparr>) = Inr
      (d\<lparr>dv_identifiers := (if map_of ms ''identifiers'' = None then dv_identifiers d else i),
        dv_simple_modifications :=
          (if map_of ms ''simple_modifications'' = None then dv_simple_modifications d else s),
        dv_fn_function_keys := f\<rparr>)"
      by (subst Cons.IH[OF d]) (use Cons.prems(2,3) fresh 3 m in simp_all)
    ultimately show ?thesis using m 3 by simp
  next
    case 4
    then have "device_item T k v d = Inr d" by (simp add: device_item_def)
    moreover have ne: "''identifiers'' \<noteq> k" "''simple_modifications'' \<noteq> k" "''fn_function_keys'' \<noteq> k"
      using 4 by auto
    moreover have "device_items T ms d = Inr
      (d\<lparr>dv_identifiers := (if map_of ms ''identifiers'' = None then dv_identifiers d else i),
        dv_simple_modifications :=
          (if map_of ms ''simple_modifications'' = None then dv_simple_modifications d else s),
        dv_fn_function_keys := (if map_of ms ''fn_function_keys'' = None then dv_fn_function_keys d else f)\<rparr>)"
      by (rule Cons.IH[OF d]) (use Cons.prems(2-4) ne m in simp_all)
    ultimately show ?thesis using m 4 by simp
  qed
qed simp

text \<open>
  A device that can be stored: its identifiers fit their JSON, its values are of their types and
  ranges, and its simple modifications and fn function keys are pairs the writer keeps or that
  are loaded first when it is read.
\<close>

definition modifications_valid ::
    "json_text \<Rightarrow> json list \<Rightarrow> simple_modifications \<Rightarrow> simple_modifications \<Rightarrow> bool" where
  "modifications_valid T D ps0 ps \<longleftrightarrow>
     list_all (dumped_pair T) ps \<and> distinct (map fst ps) \<and> distinct (map fst ps0) \<and>
     dom (map_of ps0) \<subseteq> fst ` set ps \<and>
     (\<forall>p\<in>set ps. written T D p \<or> map_of ps0 (fst p) = Some (snd p))"

definition device_valid :: "json_text \<Rightarrow> simple_modifications \<Rightarrow> device \<Rightarrow> bool" where
  "device_valid T fn0 d \<longleftrightarrow>
     json_is_object (dv_json d) \<and> json_ok (dv_json d) \<and> identifiers_valid (dv_identifiers d) \<and>
     list_all2 (device_entry_valid (si_identifiers (dv_identifiers d))) device_values (dv_values d) \<and>
     \<not> (get_treat_as_built_in_keyboard d \<and> get_disable_built_in_keyboard_if_exists d) \<and>
     modifications_valid T [] [] (dv_simple_modifications d) \<and>
     modifications_valid T device_default_fn_function_keys fn0 (dv_fn_function_keys d)"

lemma modifications_read_back:
  assumes "dump_parses T" "sort_permutes T" "modifications_valid T D ps0 ps"
  shows "\<exists>ps'. update_simple_modifications T (simple_modifications_to_json T (JArray D) ps) ps0 = Inr ps' \<and>
    map_of ps' = map_of ps"
  by (rule simple_modifications_read_back[OF assms(1,2)])
    (use assms(3)[unfolded modifications_valid_def] in blast)+

text \<open>When nothing is written the definitions loaded first are all there are.\<close>

lemma modifications_not_written:
  assumes "dump_parses T" "modifications_valid T D ps0 ps"
    "json_empty (simple_modifications_to_json T (JArray D) ps)"
  shows "map_of ps0 = map_of ps"
proof -
  have "write_pairs T D [] ps = []" using assms(3) by (simp add: simple_modifications_to_json_def)
  with definitions_of_write_pairs[OF assms(1), of ps "[]" D] assms(2)
  have "filter (written T D) ps = []" by (simp add: modifications_valid_def)
  with map_of_overridden[of ps ps0 "written T D"] assms(2)
  show ?thesis by (auto simp: modifications_valid_def)
qed

lemma device_keys:
  assumes "list_all2 (device_entry_valid i) device_values vs"
  shows "map vt_key vs = map fst device_values"
proof -
  have "list_all2 (device_entry_valid i) ds vs \<Longrightarrow> map vt_key vs = map fst ds" for ds
    by (induction rule: list_all2_induct) (auto simp: device_entry_valid_def)
  with assms show ?thesis by blast
qed

lemma distinct_device_values: "distinct (map fst device_values)"
  by (simp add: device_values_def)

lemma not_device_values:
  "''identifiers'' \<notin> fst ` set device_values" "''simple_modifications'' \<notin> fst ` set device_values"
  "''fn_function_keys'' \<notin> fst ` set device_values"
  by (simp_all add: device_values_def)

lemma device_to_json_find:
  assumes "device_valid T fn0 d" "\<not> json_empty (device_to_json T d)"
  defines "sm \<equiv> simple_modifications_to_json T (JArray []) (dv_simple_modifications d)"
    and "fn \<equiv> simple_modifications_to_json T (JArray device_default_fn_function_keys) (dv_fn_function_keys d)"
  shows "json_is_object (device_to_json T d)"
    and "json_find (device_to_json T d) k =
      (if k = ''fn_function_keys'' then (if json_empty fn then None else Some fn)
       else if k = ''simple_modifications'' then (if json_empty sm then None else Some sm)
       else if k = ''identifiers'' then Some (identifiers_to_json (dv_identifiers d))
       else json_find (update_values_json (dv_values d) (dv_json d)) k)"
proof -
  let ?j = "json_set ''identifiers'' (identifiers_to_json (dv_identifiers d))
    (update_values_json (dv_values d) (dv_json d))"
  let ?j2 = "set_or_erase ''fn_function_keys'' (\<not> json_empty fn) fn
    (set_or_erase ''simple_modifications'' (\<not> json_empty sm) sm ?j)"
  have obj: "json_is_object (update_values_json (dv_values d) (dv_json d))"
    using assms(1) by (simp add: device_valid_def)
  have j2: "device_to_json T d = (if json_size ?j2 = 1 then json_erase ''identifiers'' ?j2 else ?j2)"
    by (simp add: device_to_json_def Let_def sm_def fn_def)
  have find: "json_find ?j2 ''identifiers'' \<noteq> None" using obj by simp
  have "json_empty (json_erase ''identifiers'' ?j2)" if "json_size ?j2 = 1"
  proof -
    have "json_is_object ?j2" using obj by simp
    then obtain ms where ms: "?j2 = JObject ms" by (elim json_is_object.elims) blast+
    with that obtain m where "ms = [m]" by (cases ms) auto
    with find ms show ?thesis
      by (auto simp: json_find_def json_erase_def erase_member_def split: if_splits)
  qed
  with j2 assms(2) have eq: "device_to_json T d = ?j2" by (auto split: if_splits)
  show "json_is_object (device_to_json T d)" using obj unfolding eq by simp
  show "json_find (device_to_json T d) k =
      (if k = ''fn_function_keys'' then (if json_empty fn then None else Some fn)
       else if k = ''simple_modifications'' then (if json_empty sm then None else Some sm)
       else if k = ''identifiers'' then Some (identifiers_to_json (dv_identifiers d))
       else json_find (update_values_json (dv_values d) (dv_json d)) k)"
    using obj unfolding eq by simp
qed

lemma device_to_json_ok:
  assumes "device_valid T fn0 d" "dump_parses T"
  shows "json_ok (device_to_json T d)"
proof -
  have "json_ok (update_values_json (dv_values d) (dv_json d))"
    "json_ok (identifiers_to_json (dv_identifiers d))"
    using assms(1)
    by (simp_all add: device_valid_def update_values_json_ok identifiers_to_json_ok identifiers_valid_def)
  moreover have "json_ok (simple_modifications_to_json T (JArray D) ps)"
    if "modifications_valid T D ps0 ps" for D ps0 ps
    using that write_pairs_ok[OF assms(2)]
    by (simp add: simple_modifications_to_json_def modifications_valid_def)
  ultimately show ?thesis
    using assms(1) by (auto simp: device_to_json_def Let_def device_valid_def json_set_ok json_erase_ok)
qed

lemma coordinate_id:
  "\<not> (get_treat_as_built_in_keyboard d \<and> get_disable_built_in_keyboard_if_exists d) \<Longrightarrow>
   coordinate_between_properties d = d"
  by (auto simp: coordinate_between_properties_def get_treat_as_built_in_keyboard_def
      get_disable_built_in_keyboard_if_exists_def)

lemma bool_member_view:
  "map entry_view vs = map entry_view ws \<Longrightarrow> bool_member k vs = bool_member k ws"
  by (simp add: bool_member_def member_value_view[of vs ws])

lemma device_values_read_back:
  assumes "device_valid T fn0 d" "\<not> json_empty (device_to_json T d)"
  shows "\<exists>us. update_values eh (device_to_json T d) (map value_t_initial device_values) = Inr us \<and>
    map entry_view (set_special_defaults (si_identifiers (dv_identifiers d)) us) = map entry_view (dv_values d)"
proof (rule device_entries_read_back)
  show entries: "list_all2 (device_entry_valid (si_identifiers (dv_identifiers d))) device_values (dv_values d)"
    using assms(1) by (simp add: device_valid_def)
  show "json_is_object (device_to_json T d)" by (rule device_to_json_find(1)[OF assms])
  fix v assume v: "v \<in> set (dv_values d)"
  have keys: "map vt_key (dv_values d) = map fst device_values" by (rule device_keys[OF entries])
  then have "vt_key v \<in> fst ` set device_values" using v by (metis image_eqI list.set_map)
  then have "vt_key v \<noteq> ''identifiers''" "vt_key v \<noteq> ''simple_modifications''" "vt_key v \<noteq> ''fn_function_keys''"
    using not_device_values by metis+
  moreover have "json_is_object (dv_json d)" using assms(1) by (simp add: device_valid_def)
  moreover have "distinct (map vt_key (dv_values d))" using keys distinct_device_values by simp
  ultimately show "json_find (device_to_json T d) (vt_key v) =
      (if vt_value v \<noteq> vt_default_value v then Some (marshal_value (vt_value v)) else None)"
    using v by (simp add: device_to_json_find(2)[OF assms] find_update_values_json)
qed

text \<open>
  C14. A device that can be stored (\<open>device_valid\<close>) and has settings of its own is read back from its
  JSON with the same identifiers, values, simple modifications and fn function keys, also the values
  whose default depends on the kind of device. It can be stored when its identifiers are unsigned
  with 64 bits; its values are of their types, integers with 32 bits, a formula without a newline
  at its end; it is not treated as built in while it disables the built-in keyboard; its pairs have
  different \<open>from\<close> sides and, unless a pair is one of the defaults, complete sides that are no
  default; and no default fn function key was erased. What else the editor can leave in a device,
  incomplete pairs and erased defaults, the code does not write.
\<close>

theorem device_round_trip:
  assumes "dump_parses T" "sort_permutes T" "device_valid T fn0 d"
    "update_simple_modifications T (JArray device_default_fn_function_keys) [] = Inr fn0"
    "\<not> json_empty (device_to_json T d)"
  shows "\<exists>d'. create_device T eh (device_to_json T d) = Inr d' \<and>
    si_identifiers (dv_identifiers d') = si_identifiers (dv_identifiers d) \<and>
    map entry_view (dv_values d') = map entry_view (dv_values d) \<and>
    map_of (dv_simple_modifications d') = map_of (dv_simple_modifications d) \<and>
    map_of (dv_fn_function_keys d') = map_of (dv_fn_function_keys d)"
proof -
  let ?J = "device_to_json T d" and ?i = "si_identifiers (dv_identifiers d)"
  let ?ids = "\<lparr>si_json = identifiers_to_json (dv_identifiers d), si_identifiers = ?i\<rparr>"
  let ?sm = "simple_modifications_to_json T (JArray []) (dv_simple_modifications d)"
  let ?fn = "simple_modifications_to_json T (JArray device_default_fn_function_keys) (dv_fn_function_keys d)"
  note find = device_to_json_find(2)[OF assms(3,5)]
  note obj = device_to_json_find(1)[OF assms(3,5)]
  have valid: "modifications_valid T [] [] (dv_simple_modifications d)"
    "modifications_valid T device_default_fn_function_keys fn0 (dv_fn_function_keys d)"
    "identifiers_valid (dv_identifiers d)"
    using assms(3) by (simp_all add: device_valid_def)
  obtain us where us: "update_values eh ?J (map value_t_initial device_values) = Inr us"
    "map entry_view (set_special_defaults ?i us) = map entry_view (dv_values d)"
    using device_values_read_back[OF assms(3,5)] by blast
  obtain s where s: "update_simple_modifications T ?sm [] = Inr s" "map_of s = map_of (dv_simple_modifications d)"
    using modifications_read_back[OF assms(1,2) valid(1)] by blast
  obtain f where f: "update_simple_modifications T ?fn fn0 = Inr f" "map_of f = map_of (dv_fn_function_keys d)"
    using modifications_read_back[OF assms(1,2) valid(2)] by blast
  let ?d0 = "\<lparr>dv_json = ?J, dv_identifiers = \<lparr>si_json = JObject [], si_identifiers = no_identifiers\<rparr>,
    dv_values = us, dv_simple_modifications = [], dv_fn_function_keys = fn0\<rparr>"
  let ?d1 = "\<lparr>dv_json = ?J, dv_identifiers = ?ids, dv_values = us,
    dv_simple_modifications = (if json_empty ?sm then [] else s),
    dv_fn_function_keys = (if json_empty ?fn then fn0 else f)\<rparr>"
  have distinct: "distinct (map fst (json_items ?J))"
    using device_to_json_ok[OF assms(3,1)] by (cases ?J) (auto dest: members_ok_distinct)
  have items: "device_items T (json_items ?J) ?d0 = Inr ?d1"
    by (subst device_items_read[OF distinct, where i = ?ids and s = s and f = f])
      (use device_identifiers_read_back[OF valid(3)] s(1) f(1) in
        \<open>simp_all add: json_find_def[symmetric] find split: if_splits\<close>)
  let ?d' = "?d1\<lparr>dv_values := set_special_defaults ?i us\<rparr>"
  have "coordinate_between_properties ?d' = ?d'"
    using assms(3) us(2)
    by (intro coordinate_id)
      (simp add: device_valid_def get_treat_as_built_in_keyboard_def
        get_disable_built_in_keyboard_if_exists_def bool_member_view[OF us(2)])
  then have "create_device T eh ?J = Inr ?d'"
    using assms(4) obj us(1) items by (simp add: create_device_def requires_object_def)
  moreover have "map_of (dv_simple_modifications ?d') = map_of (dv_simple_modifications d)"
    using s(2) modifications_not_written[OF assms(1) valid(1)] by simp
  moreover have "map_of (dv_fn_function_keys ?d') = map_of (dv_fn_function_keys d)"
    using f(2) modifications_not_written[OF assms(1) valid(2)] by simp
  ultimately show ?thesis using us(2) by simp
qed

subsection \<open>Instances\<close>

lemma unary_json_text_simps:
  "(jt_dump unary_json_text a = jt_dump unary_json_text b) = (a = b)"
  "jt_parse unary_json_text (jt_dump unary_json_text a) = Some a"
  "jt_natural_sort unary_json_text ps = ps"
  by (auto simp: unary_json_text_def dest: arg_cong[where f = length])

definition sample_fn_function_keys :: simple_modifications where
  "sample_fn_function_keys =
     map (\<lambda>f. (jt_dump unary_json_text (JObject [(''key_code'', JString f)]), jt_dump unary_json_text (JArray [])))
       [''f1'', ''f2'', ''f3'', ''f4'', ''f5'', ''f6'', ''f7'', ''f8'', ''f9'', ''f10'', ''f11'', ''f12'']"

lemma sample_fn_function_keys_loaded:
  "update_simple_modifications unary_json_text (JArray device_default_fn_function_keys) [] =
   Inr sample_fn_function_keys"
  by (simp add: update_simple_modifications_def device_default_fn_function_keys_def erase_or_throw_def
      json_erase_def erase_member_def migrate_to_json_def Let_def replace_definition_def
      erase_by_from_json_string_def unary_json_text_simps sample_fn_function_keys_def)

definition sample_identifiers :: stored_identifiers where
  "sample_identifiers =
     \<lparr>si_json = JObject [],
      si_identifiers = no_identifiers\<lparr>di_vendor_id := 1452, di_product_id := 610, di_is_keyboard := True\<rparr>\<rparr>"

definition sample_device :: device where
  "sample_device =
     \<lparr>dv_json = JObject [], dv_identifiers = sample_identifiers,
      dv_values = set_member ''ignore'' (Config_bool True)
        (map (special_entry (si_identifiers sample_identifiers)) (map value_t_initial device_values)),
      dv_simple_modifications = [sample_pair ''escape''],
      dv_fn_function_keys = sample_fn_function_keys\<rparr>"

lemma join_lines_last: "ls \<noteq> [] \<Longrightarrow> last ls \<noteq> [] \<Longrightarrow> join_lines ls \<noteq> [] \<and> last (join_lines ls) = last (last ls)"
  by (induction ls rule: join_lines.induct) auto

lemma storable_join_lines:
  "ls \<noteq> [] \<Longrightarrow> last ls \<noteq> [] \<Longrightarrow> last (last ls) \<noteq> newline \<Longrightarrow> storable_string (join_lines ls)"
  by (simp add: storable_string_def join_lines_last)

lemma default_formulas_storable:
  "storable_string default_stick_x_formula" "storable_string default_stick_y_formula"
  "storable_string default_stick_vertical_wheel_formula" "storable_string default_stick_horizontal_wheel_formula"
  unfolding default_stick_x_formula_def default_stick_y_formula_def
    default_stick_vertical_wheel_formula_def default_stick_horizontal_wheel_formula_def
  by (rule storable_join_lines; simp)+

lemma sample_entries_valid:
  "list_all2 (device_entry_valid (si_identifiers sample_identifiers)) device_values (dv_values sample_device)"
proof -
  have one: "device_entry_valid i d
      (if fst d = ''ignore'' then (special_entry i (value_t_initial d))\<lparr>vt_value := Config_bool True\<rparr>
       else special_entry i (value_t_initial d))"
    if "storable_value (snd d) (snd d)"
      "fst d = ''ignore'' \<or> fst d = ''manipulate_caps_lock_led'' \<Longrightarrow> snd d = Config_bool False" for i d
    using that by (auto simp: device_entry_valid_def special_entry_def special_value_def value_t_initial_def
        set_default_def Let_def)
  have vals: "\<forall>d\<in>set device_values. storable_value (snd d) (snd d) \<and>
      (fst d = ''ignore'' \<or> fst d = ''manipulate_caps_lock_led'' \<longrightarrow> snd d = Config_bool False)"
    by (simp add: device_values_def default_formulas_storable)
  have key: "vt_key (special_entry i (value_t_initial d)) = fst d" for i d
    by (simp add: special_entry_def value_t_initial_def split: option.split)
  let ?i = "si_identifiers sample_identifiers"
  let ?e = "\<lambda>d. if fst d = ''ignore'' then (special_entry ?i (value_t_initial d))\<lparr>vt_value := Config_bool True\<rparr>
    else special_entry ?i (value_t_initial d)"
  have "\<forall>d\<in>set device_values. device_entry_valid ?i d (?e d)" using vals one by blast
  moreover have "dv_values sample_device = map ?e device_values"
    by (simp add: sample_device_def set_member_def key)
  ultimately show ?thesis by (simp add: list_all2_map2 list_all2_same)
qed

lemma sample_device_valid: "device_valid unary_json_text sample_fn_function_keys sample_device"
proof -
  have "modifications_valid unary_json_text [] [] [sample_pair ''escape'']"
    by (simp add: modifications_valid_def sample_pair_dumped sample_pair_written)
  moreover have "modifications_valid unary_json_text device_default_fn_function_keys
      sample_fn_function_keys sample_fn_function_keys"
  proof -
    have "dumped_pair unary_json_text
        (jt_dump unary_json_text (JObject [(''key_code'', JString f)]), jt_dump unary_json_text (JArray []))" for f
      unfolding dumped_pair_def
      by (intro exI[of _ "JObject [(''key_code'', JString f)]"] exI[of _ "JArray []"])
        (simp add: members_ok_def json_erase_def erase_member_def)
    moreover have d: "distinct (map fst sample_fn_function_keys)"
      by (simp add: sample_fn_function_keys_def unary_json_text_simps)
    ultimately show ?thesis
      by (auto simp: modifications_valid_def sample_fn_function_keys_def unary_json_text_simps)
  qed
  moreover have "\<not> (get_treat_as_built_in_keyboard sample_device)"
    by (simp add: get_treat_as_built_in_keyboard_def sample_device_def bool_member_def member_value_def
        find_value_def set_member_def device_values_def value_t_initial_def special_entry_def
        special_value_def set_default_def)
  ultimately show ?thesis
    using sample_entries_valid
    by (simp add: device_valid_def sample_device_def sample_identifiers_def identifiers_valid_def no_identifiers_def
        members_ok_def)
qed

lemma sample_device_written: "\<not> json_empty (device_to_json unary_json_text sample_device)"
proof
  assume "json_empty (device_to_json unary_json_text sample_device)"
  then have "json_find (device_to_json unary_json_text sample_device) ''simple_modifications'' = None"
    by (cases "device_to_json unary_json_text sample_device") (auto simp: json_find_def)
  moreover have "\<not> json_empty (simple_modifications_to_json unary_json_text (JArray []) [sample_pair ''escape''])"
    by (simp add: simple_modifications_to_json_def sample_pair_parsed is_default_def)
      (simp add: sample_from_def sample_to_def)
  moreover have "dv_simple_modifications sample_device = [sample_pair ''escape'']"
    "dv_json sample_device = JObject []"
    by (simp_all add: sample_device_def)
  ultimately show False by (simp add: device_to_json_def Let_def split: if_splits)
qed

theorem device_round_trip_witness:
  "\<exists>d'. create_device unary_json_text loose (device_to_json unary_json_text sample_device) = Inr d' \<and>
    si_identifiers (dv_identifiers d') = si_identifiers (dv_identifiers sample_device) \<and>
    map entry_view (dv_values d') = map entry_view (dv_values sample_device) \<and>
    map_of (dv_simple_modifications d') = map_of (dv_simple_modifications sample_device) \<and>
    map_of (dv_fn_function_keys d') = map_of (dv_fn_function_keys sample_device)"
  by (rule device_round_trip[OF unary_dump_parses unary_sort_permutes sample_device_valid
      sample_fn_function_keys_loaded sample_device_written])

text \<open>A pointing device that the configuration says nothing of.\<close>

lemma update_values_absent:
  "json_is_object j \<Longrightarrow> (\<And>v. v \<in> set vs \<Longrightarrow> json_find j (vt_key v) = None) \<Longrightarrow> update_values eh j vs = Inr vs"
  by (induction vs) (simp_all add: update_value_def requires_object_def)

definition sample_pointing_json :: json where
  "sample_pointing_json = JObject [(''identifiers'', JObject [(''is_pointing_device'', JBool True)])]"

lemma sample_pointing_device:
  "\<exists>d. create_device unary_json_text strict sample_pointing_json = Inr d \<and>
    di_is_pointing_device (si_identifiers (dv_identifiers d))"
proof -
  have "json_find sample_pointing_json (vt_key v) = None" if "v \<in> set (map value_t_initial device_values)" for v
  proof -
    have "vt_key v \<in> fst ` set device_values" using that by (force simp: value_t_initial_def)
    then have "vt_key v \<noteq> ''identifiers''" using not_device_values(1) by metis
    then show ?thesis by (simp add: sample_pointing_json_def json_find_def)
  qed
  then have "update_values strict sample_pointing_json (map value_t_initial device_values) =
      Inr (map value_t_initial device_values)"
    by (intro update_values_absent) (simp_all add: sample_pointing_json_def)
  then show ?thesis
    by (simp add: create_device_def sample_fn_function_keys_loaded requires_object_def)
      (simp add: sample_pointing_json_def device_item_def create_identifiers_def requires_object_def
        identifiers_item_def requires_boolean_def coordinate_between_properties_def)
qed

theorem device_ignore_default_witness:
  "\<exists>d. create_device unary_json_text strict sample_pointing_json = Inr d \<and> get_ignore d"
proof -
  obtain d where d: "create_device unary_json_text strict sample_pointing_json = Inr d"
    "di_is_pointing_device (si_identifiers (dv_identifiers d))"
    using sample_pointing_device by blast
  have "get_ignore d"
    using device_ignore_default[OF d(1)] d(2)
    by (simp add: sample_pointing_json_def json_find_def is_ignored_by_default_def)
  with d(1) show ?thesis by blast
qed

theorem device_never_disables_itself_witness:
  "\<exists>d. create_device unary_json_text strict sample_pointing_json = Inr d \<and>
    \<not> (get_treat_as_built_in_keyboard (set_disable_built_in_keyboard_if_exists True (set_treat_as_built_in_keyboard True d)) \<and>
       get_disable_built_in_keyboard_if_exists (set_disable_built_in_keyboard_if_exists True (set_treat_as_built_in_keyboard True d)))"
proof -
  obtain d where d: "create_device unary_json_text strict sample_pointing_json = Inr d"
    using sample_pointing_device by blast
  have "device_reachable unary_json_text (set_disable_built_in_keyboard_if_exists True (set_treat_as_built_in_keyboard True d))"
    unfolding set_disable_built_in_keyboard_if_exists_def set_treat_as_built_in_keyboard_def
    by (intro dr_assign dr_create[OF d])
  from device_never_disables_itself[OF this] d show ?thesis by blast
qed

end
