(* ===== verification/Connected_Devices.thy ===== *)
theory Connected_Devices
  imports Device_Configuration
begin

text \<open>
  The JSON of \<open>src/share/device_properties.hpp\<close> and the list of connected devices,
  \<open>src/share/connected_devices/connected_devices.hpp\<close>. The list is written to a file by one process
  and read by others; the file access and the parser are not modelled.
\<close>

subsection \<open>JSON of device_properties\<close>

text \<open>\<open>get\<close> of the two IOKit numbers, which are typedefs over \<open>uint64_t\<close>.\<close>

definition get_device_id :: "json \<Rightarrow> json_error + device_id" where
  "get_device_id j = ok_bind (json_get_uint64 j) (\<lambda>n. Inr (nat n))"

definition device_properties_item ::
    "string \<Rightarrow> json \<Rightarrow> initialization_parameters \<Rightarrow> json_error + initialization_parameters" where
  "device_properties_item k v p =
     (if k = ''device_id''
      then ok_bind (requires_number v (backquoted k)) (\<lambda>_.
           ok_bind (get_device_id v) (\<lambda>n. Inr (p\<lparr>ip_device_id := n\<rparr>)))
      else if k = ''device_identifiers''
      then ok_bind (create_identifiers v) (\<lambda>s. let i = si_identifiers s in
           Inr (p\<lparr>ip_vendor_id := di_vendor_id i, ip_product_id := di_product_id i,
                  ip_device_address := di_device_address i, ip_is_keyboard := di_is_keyboard i,
                  ip_is_pointing_device := di_is_pointing_device i, ip_is_game_pad := di_is_game_pad i,
                  ip_is_consumer := di_is_consumer i\<rparr>))
      else if k = ''location_id''
      then ok_bind (requires_number v (backquoted k)) (\<lambda>_.
           ok_bind (json_get_uint64 v) (\<lambda>n. Inr (p\<lparr>ip_location_id := n\<rparr>)))
      else if k = ''manufacturer''
      then ok_bind (requires_string v (backquoted k)) (\<lambda>_.
           ok_bind (json_get_string v) (\<lambda>s. Inr (p\<lparr>ip_manufacturer := s\<rparr>)))
      else if k = ''product''
      then ok_bind (requires_string v (backquoted k)) (\<lambda>_.
           ok_bind (json_get_string v) (\<lambda>s. Inr (p\<lparr>ip_product := s\<rparr>)))
      else if k = ''serial_number''
      then ok_bind (requires_string v (backquoted k)) (\<lambda>_.
           ok_bind (json_get_string v) (\<lambda>s. Inr (p\<lparr>ip_serial_number := s\<rparr>)))
      else if k = ''transport''
      then ok_bind (requires_string v (backquoted k)) (\<lambda>_.
           ok_bind (json_get_string v) (\<lambda>s. Inr (p\<lparr>ip_transport := s\<rparr>)))
      else Inr p)"

fun device_properties_items ::
    "(string \<times> json) list \<Rightarrow> initialization_parameters \<Rightarrow> json_error + initialization_parameters" where
  "device_properties_items [] p = Inr p"
| "device_properties_items ((k, v) # ms) p = ok_bind (device_properties_item k v p) (device_properties_items ms)"

definition read_device_properties :: "json \<Rightarrow> json_error + device_properties" where
  "read_device_properties j =
     ok_bind (requires_object j ''json'') (\<lambda>_.
     ok_bind (device_properties_items (json_items j) initialization_parameters_default) (\<lambda>p.
     Inr (make_device_properties p)))"

text \<open>
  The writer starts from null, and the first assignment makes it an object. The identifiers of
  device properties have no JSON of their own.
\<close>

definition put_if :: "bool \<Rightarrow> string \<Rightarrow> json \<Rightarrow> json \<Rightarrow> json" where
  "put_if b k v j = (if b then json_set k v j else j)"

definition device_properties_to_json :: "device_properties \<Rightarrow> json" where
  "device_properties_to_json d =
     put_if (dp_is_apple d) ''is_apple'' (JBool (dp_is_apple d))
     (put_if (dp_is_built_in_touch_bar d) ''is_built_in_touch_bar'' (JBool (dp_is_built_in_touch_bar d))
     (put_if (dp_is_built_in_pointing_device d) ''is_built_in_pointing_device'' (JBool (dp_is_built_in_pointing_device d))
     (put_if (dp_is_built_in_keyboard d) ''is_built_in_keyboard'' (JBool (dp_is_built_in_keyboard d))
     (put_if (dp_transport d \<noteq> []) ''transport'' (JString (dp_transport d))
     (put_if (dp_serial_number d \<noteq> []) ''serial_number'' (JString (dp_serial_number d))
     (put_if (dp_product d \<noteq> []) ''product'' (JString (dp_product d))
     (put_if (dp_manufacturer d \<noteq> []) ''manufacturer'' (JString (dp_manufacturer d))
     (put_if (dp_location_id d \<noteq> 0) ''location_id'' (JInt (dp_location_id d))
     (json_set ''device_identifiers''
        (identifiers_to_json \<lparr>si_json = JObject [], si_identifiers = dp_device_identifiers d\<rparr>)
     (json_set ''device_id'' (JInt (int (dp_device_id d))) JNull))))))))))"

subsection \<open>connected_devices\<close>

record connected_devices =
  cod_loaded :: bool
  cod_devices :: "device_properties list"

text \<open>
  The constructor from a file, given the parsed content (\<open>None\<close> when the file cannot be opened or
  does not parse). An exception keeps the devices read before it.
\<close>

fun read_devices :: "json list \<Rightarrow> device_properties list \<Rightarrow> device_properties list \<times> bool" where
  "read_devices [] ds = (ds, True)"
| "read_devices (j # js) ds =
     (case read_device_properties j of
        Inl _ \<Rightarrow> (ds, False)
      | Inr d \<Rightarrow> read_devices js (ds @ [d]))"

definition load_connected_devices :: "json option \<Rightarrow> connected_devices" where
  "load_connected_devices content =
     (case content of
        None \<Rightarrow> \<lparr>cod_loaded = False, cod_devices = []\<rparr>
      | Some (JArray js) \<Rightarrow>
          (let r = read_devices js [] in \<lparr>cod_loaded = snd r, cod_devices = fst r\<rparr>)
      | Some _ \<Rightarrow> \<lparr>cod_loaded = True, cod_devices = []\<rparr>)"

definition connected_devices_to_json :: "connected_devices \<Rightarrow> json" where
  "connected_devices_to_json c = JArray (map device_properties_to_json (cod_devices c))"

definition find_device :: "device_identifiers \<Rightarrow> connected_devices \<Rightarrow> device_properties option" where
  "find_device i c = find (\<lambda>d. dp_device_identifiers d = i) (cod_devices c)"

text \<open>\<open>std::sort\<close> by \<open>compare\<close>, as an insertion sort: the order is total on devices that are told apart.\<close>

fun insert_device :: "device_properties \<Rightarrow> device_properties list \<Rightarrow> device_properties list" where
  "insert_device d [] = [d]"
| "insert_device d (e # es) =
     (if device_properties_compare e d then e # insert_device d es else d # e # es)"

fun sort_devices :: "device_properties list \<Rightarrow> device_properties list" where
  "sort_devices [] = []"
| "sort_devices (d # ds) = insert_device d (sort_devices ds)"

definition push_back_device :: "device_properties \<Rightarrow> connected_devices \<Rightarrow> connected_devices" where
  "push_back_device d c =
     (if find_device (dp_device_identifiers d) c \<noteq> None then c
      else c\<lparr>cod_devices := sort_devices (cod_devices c @ [d])\<rparr>)"

definition clear_devices :: "connected_devices \<Rightarrow> connected_devices" where
  "clear_devices c = c\<lparr>cod_devices := []\<rparr>"

lemma find_append:
  "find P (xs @ ys) = (case find P xs of None \<Rightarrow> find P ys | Some x \<Rightarrow> Some x)"
  by (induction xs) auto

lemma set_insert_device [simp]: "set (insert_device d ds) = insert d (set ds)"
  by (induction ds) auto

lemma mset_insert_device [simp]: "mset (insert_device d ds) = add_mset d (mset ds)"
  by (induction ds) auto

lemma mset_sort_devices [simp]: "mset (sort_devices ds) = mset ds"
  by (induction ds) auto

lemma set_sort_devices [simp]: "set (sort_devices ds) = set ds"
  by (metis mset_sort_devices set_mset_mset)

definition sorted_devices :: "device_properties list \<Rightarrow> bool" where
  "sorted_devices ds \<longleftrightarrow> sorted_wrt (\<lambda>a b. \<not> device_properties_compare b a) ds"

lemma compare_trans:
  "\<not> device_properties_compare b a \<Longrightarrow> \<not> device_properties_compare c b \<Longrightarrow> \<not> device_properties_compare c a"
  by (simp add: compare_iff_key)

lemma compare_asym: "device_properties_compare a b \<Longrightarrow> \<not> device_properties_compare b a"
  by (simp add: compare_iff_key)

lemma insert_device_sorted: "sorted_devices ds \<Longrightarrow> sorted_devices (insert_device d ds)"
proof (induction ds)
  case (Cons e es)
  have "\<not> device_properties_compare x d" if "\<not> device_properties_compare e d" "x \<in> set es" for x
    using compare_trans[OF that(1)] Cons.prems that(2) by (simp add: sorted_devices_def)
  with Cons show ?case
    by (auto simp: sorted_devices_def dest: compare_asym)
qed (simp add: sorted_devices_def)

lemma sort_devices_sorted: "sorted_devices (sort_devices ds)"
  by (induction ds) (simp_all add: insert_device_sorted, simp add: sorted_devices_def)

definition connected_devices_inv :: "connected_devices \<Rightarrow> bool" where
  "connected_devices_inv c \<longleftrightarrow>
     sorted_devices (cod_devices c) \<and> distinct (map dp_device_identifiers (cod_devices c))"

lemma push_back_device_inv:
  assumes "connected_devices_inv c"
  shows "connected_devices_inv (push_back_device d c)"
proof (cases "find_device (dp_device_identifiers d) c")
  case None
  then have "distinct (map dp_device_identifiers (cod_devices c @ [d]))"
    using assms by (auto simp: find_device_def find_None_iff connected_devices_inv_def)
  moreover have "mset (map dp_device_identifiers (sort_devices ds)) = mset (map dp_device_identifiers ds)" for ds
    by simp
  ultimately have "distinct (map dp_device_identifiers (sort_devices (cod_devices c @ [d])))"
    by (metis mset_eq_imp_distinct_iff)
  with None show ?thesis
    by (simp add: push_back_device_def connected_devices_inv_def sort_devices_sorted)
next
  case Some
  with assms show ?thesis by (simp add: push_back_device_def)
qed

text \<open>
  The list of connected devices filled from empty holds every kind of device pushed to it, the
  first one of equal identifiers, once each, in the order of \<open>compare\<close>.
\<close>

theorem connected_devices_hold_each_device_once:
  "let c = foldl (\<lambda>c d. push_back_device d c) \<lparr>cod_loaded = b, cod_devices = []\<rparr> ds
   in sorted_devices (cod_devices c) \<and> distinct (map dp_device_identifiers (cod_devices c)) \<and>
      (\<forall>i. find_device i c = find (\<lambda>d. dp_device_identifiers d = i) ds)"
proof -
  let ?f = "\<lambda>ds. foldl (\<lambda>c d. push_back_device d c) \<lparr>cod_loaded = b, cod_devices = []\<rparr> ds"
  have find_sorted: "find (\<lambda>d. dp_device_identifiers d = i) (sort_devices es) =
      find (\<lambda>d. dp_device_identifiers d = i) es"
    if "distinct (map dp_device_identifiers es)" for es i
  proof -
    have u: "x = y" if "x \<in> set es" "y \<in> set es" "dp_device_identifiers x = dp_device_identifiers y" for x y
      using that \<open>distinct (map dp_device_identifiers es)\<close> by (auto simp: distinct_map dest: inj_onD)
    show ?thesis
    proof (cases "find (\<lambda>d. dp_device_identifiers d = i) es")
      case None
      then have "find (\<lambda>d. dp_device_identifiers d = i) (sort_devices es) = None"
        by (simp add: find_None_iff)
      with None show ?thesis by simp
    next
      case (Some x)
      then have x: "x \<in> set es" "dp_device_identifiers x = i"
        by (auto simp: find_Some_iff)
      then obtain y where y: "find (\<lambda>d. dp_device_identifiers d = i) (sort_devices es) = Some y"
        by (cases "find (\<lambda>d. dp_device_identifiers d = i) (sort_devices es)") (auto simp: find_None_iff)
      then have "y \<in> set es" "dp_device_identifiers y = i"
        by (auto simp: find_Some_iff dest: nth_mem)
      with x u Some y show ?thesis by metis
    qed
  qed
  have "connected_devices_inv (?f ds) \<and>
      (\<forall>i. find_device i (?f ds) = find (\<lambda>d. dp_device_identifiers d = i) ds)"
  proof (induction ds rule: rev_induct)
    case Nil
    then show ?case by (simp add: connected_devices_inv_def sorted_devices_def find_device_def)
  next
    case (snoc d ds)
    let ?c = "?f ds"
    have inv: "connected_devices_inv (push_back_device d ?c)" using snoc push_back_device_inv by simp
    moreover have "find_device i (push_back_device d ?c) = find (\<lambda>d. dp_device_identifiers d = i) (ds @ [d])" for i
    proof (cases "find_device (dp_device_identifiers d) ?c")
      case None
      then have dist: "distinct (map dp_device_identifiers (cod_devices ?c @ [d]))"
        using snoc by (auto simp: find_device_def find_None_iff connected_devices_inv_def)
      from find_sorted[OF dist] None snoc show ?thesis
        by (simp add: push_back_device_def find_device_def find_append split: option.splits)
    next
      case (Some e)
      with snoc show ?thesis
        by (auto simp: push_back_device_def find_append split: option.splits)
    qed
    ultimately show ?case by simp
  qed
  then show ?thesis by (simp add: Let_def connected_devices_inv_def)
qed

end
