(* ===== verification/Core_Configuration.thy ===== *)
theory Core_Configuration
  imports Complex_Modifications Connected_Devices
begin

text \<open>
  A profile, \<open>src/share/core_configuration/details/profile.hpp\<close>, and the configuration,
  \<open>src/share/core_configuration/core_configuration.hpp\<close>, with the selection and editing of profiles
  and the backups made when it is saved.

  Reading the file is split at the parser: \<open>config_file\<close> says what the file system and the parser
  answer. An error keeps what was read before it, as the members of the object do in the code.
\<close>

subsection \<open>Profiles\<close>

record profile =
  pfl_json :: json
  pfl_error_handling :: error_handling
  pfl_values :: helper_values
  pfl_parameters :: settings
  pfl_simple_modifications :: simple_modifications
  pfl_fn_function_keys :: simple_modifications
  pfl_complex_modifications :: complex_modifications
  pfl_virtual_hid_keyboard :: settings
  pfl_devices :: "device list"

definition profile_values :: defaults where
  "profile_values = [(''name'', Config_string []), (''selected'', Config_bool False)]"

definition fn_entry :: "string \<Rightarrow> string \<Rightarrow> string \<Rightarrow> json" where
  "fn_entry f k v =
     JObject [(''from'', JObject [(''key_code'', JString f)]), (''to'', JArray [JObject [(k, JString v)]])]"

definition profile_default_fn_function_keys :: "json list" where
  "profile_default_fn_function_keys =
     [fn_entry ''f1'' ''consumer_key_code'' ''display_brightness_decrement'',
      fn_entry ''f2'' ''consumer_key_code'' ''display_brightness_increment'',
      fn_entry ''f3'' ''apple_vendor_keyboard_key_code'' ''mission_control'',
      fn_entry ''f4'' ''apple_vendor_keyboard_key_code'' ''spotlight'',
      fn_entry ''f5'' ''consumer_key_code'' ''dictation'',
      fn_entry ''f6'' ''key_code'' ''f6'',
      fn_entry ''f7'' ''consumer_key_code'' ''rewind'',
      fn_entry ''f8'' ''consumer_key_code'' ''play_or_pause'',
      fn_entry ''f9'' ''consumer_key_code'' ''fast_forward'',
      fn_entry ''f10'' ''consumer_key_code'' ''mute'',
      fn_entry ''f11'' ''consumer_key_code'' ''volume_decrement'',
      fn_entry ''f12'' ''consumer_key_code'' ''volume_increment'']"

definition array_result :: "'a list \<times> json_error option \<Rightarrow> json_error + 'a list" where
  "array_result r = (case snd r of None \<Rightarrow> Inr (fst r) | Some e \<Rightarrow> Inl e)"

definition profile_item ::
    "json_text \<Rightarrow> error_handling \<Rightarrow> string \<Rightarrow> json \<Rightarrow> profile \<Rightarrow> json_error + profile" where
  "profile_item T eh k v p =
     (if k = ''simple_modifications''
      then ok_bind (rethrow_with [Text (backquoted k @ '' error: '')]
             (update_simple_modifications T v (pfl_simple_modifications p))) (\<lambda>s.
           Inr (p\<lparr>pfl_simple_modifications := s\<rparr>))
      else if k = ''fn_function_keys''
      then ok_bind (rethrow_with [Text (backquoted k @ '' error: '')]
             (update_simple_modifications T v (pfl_fn_function_keys p))) (\<lambda>s.
           Inr (p\<lparr>pfl_fn_function_keys := s\<rparr>))
      else if k = ''complex_modifications''
      then ok_bind (rethrow_with [Text (backquoted k @ '' error: '')] (create_complex_modifications eh v)) (\<lambda>c.
           Inr (p\<lparr>pfl_complex_modifications := c\<rparr>))
      else Inr p)"

fun profile_items ::
    "json_text \<Rightarrow> error_handling \<Rightarrow> (string \<times> json) list \<Rightarrow> profile \<Rightarrow> json_error + profile" where
  "profile_items T eh [] p = Inr p"
| "profile_items T eh ((k, v) # ms) p = ok_bind (profile_item T eh k v p) (profile_items T eh ms)"

definition create_profile :: "json_text \<Rightarrow> error_handling \<Rightarrow> json \<Rightarrow> json_error + profile" where
  "create_profile T eh j =
     ok_bind (create_complex_modifications loose (JObject [])) (\<lambda>cm.
     ok_bind (update_simple_modifications T (JArray profile_default_fn_function_keys) []) (\<lambda>fn.
     ok_bind (requires_object j ''json'') (\<lambda>_.
     ok_bind (update_values eh j (map value_t_initial profile_values)) (\<lambda>vs.
     ok_bind (update_object ''parameters'' (parameters eh) j (fresh_settings parameters_values)) (\<lambda>ps.
     ok_bind (update_object ''virtual_hid_keyboard'' (virtual_hid_keyboard eh) j
       (fresh_settings virtual_hid_keyboard_values)) (\<lambda>vhk.
     ok_bind (array_result (update_array ''devices'' (create_device T eh) j [])) (\<lambda>ds.
     profile_items T eh (json_items j)
       \<lparr>pfl_json = j, pfl_error_handling = eh, pfl_values = vs, pfl_parameters = ps,
        pfl_simple_modifications = [], pfl_fn_function_keys = fn, pfl_complex_modifications = cm,
        pfl_virtual_hid_keyboard = vhk, pfl_devices = ds\<rparr>)))))))"

definition profile_to_json :: "json_text \<Rightarrow> profile \<Rightarrow> json" where
  "profile_to_json T p =
     (let j = update_array_json ''devices'' (device_to_json T) (pfl_devices p)
                (update_object_json ''virtual_hid_keyboard'' settings_to_json (pfl_virtual_hid_keyboard p)
                (update_object_json ''parameters'' settings_to_json (pfl_parameters p)
                (update_values_json (pfl_values p) (pfl_json p))));
          sm = simple_modifications_to_json T (JArray []) (pfl_simple_modifications p);
          fn = simple_modifications_to_json T (JArray profile_default_fn_function_keys) (pfl_fn_function_keys p);
          cm = complex_modifications_to_json (pfl_complex_modifications p)
      in set_or_erase ''complex_modifications'' (\<not> json_empty cm) cm
         (set_or_erase ''fn_function_keys'' (\<not> json_empty fn) fn
         (set_or_erase ''simple_modifications'' (\<not> json_empty sm) sm j)))"

definition get_name :: "profile \<Rightarrow> string" where
  "get_name p = string_member ''name'' (pfl_values p)"

definition set_name :: "string \<Rightarrow> profile \<Rightarrow> profile" where
  "set_name x p = p\<lparr>pfl_values := set_member ''name'' (Config_string x) (pfl_values p)\<rparr>"

definition get_selected :: "profile \<Rightarrow> bool" where
  "get_selected p = bool_member ''selected'' (pfl_values p)"

definition set_selected :: "bool \<Rightarrow> profile \<Rightarrow> profile" where
  "set_selected x p = p\<lparr>pfl_values := set_member ''selected'' (Config_bool x) (pfl_values p)\<rparr>"

text \<open>\<open>get_device\<close> adds an entry for identifiers it does not know.\<close>

definition profile_find_device :: "device_identifiers \<Rightarrow> profile \<Rightarrow> device option" where
  "profile_find_device i p = find (\<lambda>d. si_identifiers (dv_identifiers d) = i) (pfl_devices p)"

definition get_device ::
    "json_text \<Rightarrow> stored_identifiers \<Rightarrow> profile \<Rightarrow> json_error + device \<times> profile" where
  "get_device T i p =
     (case profile_find_device (si_identifiers i) p of
        Some d \<Rightarrow> Inr (d, p)
      | None \<Rightarrow>
          ok_bind (create_device T (pfl_error_handling p)
            (JObject [(''identifiers'', identifiers_to_json i)])) (\<lambda>d.
          Inr (d, p\<lparr>pfl_devices := pfl_devices p @ [d]\<rparr>)))"

definition is_not_connected :: "json_text \<Rightarrow> connected_devices \<Rightarrow> device \<Rightarrow> bool" where
  "is_not_connected T c d \<longleftrightarrow>
     find_device (si_identifiers (dv_identifiers d)) c = None \<and> \<not> json_empty (device_to_json T d)"

definition not_connected_devices_count :: "json_text \<Rightarrow> connected_devices \<Rightarrow> profile \<Rightarrow> nat" where
  "not_connected_devices_count T c p = length (filter (is_not_connected T c) (pfl_devices p))"

definition erase_not_connected_devices :: "json_text \<Rightarrow> connected_devices \<Rightarrow> profile \<Rightarrow> profile" where
  "erase_not_connected_devices T c p = p\<lparr>pfl_devices := erase_if (is_not_connected T c) (pfl_devices p)\<rparr>"

subsection \<open>The configuration\<close>

record configuration =
  cfg_json :: json
  cfg_error_handling :: error_handling
  cfg_loaded :: bool
  cfg_parse_error :: "json_error option"
  cfg_global :: settings
  cfg_machine_specific :: machine_specific
  cfg_profiles :: "profile list"

text \<open>
  What the file system and the parser answer for \<open>file_path\<close>: whether it exists, is owned by root
  or by the expected user, can be opened, and its value or the parser's exception.
\<close>

record config_file =
  cf_exists :: bool
  cf_owned_by_root :: bool
  cf_owned_by_expected :: bool
  cf_opened :: bool
  cf_parsed :: "json_error + json"

definition initial_configuration :: "error_handling \<Rightarrow> json_error + configuration" where
  "initial_configuration eh =
     ok_bind (global_configuration eh (JObject [])) (\<lambda>g.
     ok_bind (create_machine_specific eh (JObject [])) (\<lambda>m.
     Inr \<lparr>cfg_json = JObject [], cfg_error_handling = eh, cfg_loaded = False, cfg_parse_error = None,
          cfg_global = g, cfg_machine_specific = m, cfg_profiles = []\<rparr>))"

text \<open>\<open>helper_values_.update_value\<close>: the three members in order, until one throws.\<close>

definition update_configuration :: "json_text \<Rightarrow> json \<Rightarrow> configuration \<Rightarrow> configuration \<times> json_error option" where
  "update_configuration T j c =
     (let eh = cfg_error_handling c in
      case update_object ''global'' (global_configuration eh) j (cfg_global c) of
        Inl e \<Rightarrow> (c, Some e)
      | Inr g \<Rightarrow>
          (let c1 = c\<lparr>cfg_global := g\<rparr> in
           case update_object ''machine_specific'' (create_machine_specific eh) j (cfg_machine_specific c1) of
             Inl e \<Rightarrow> (c1, Some e)
           | Inr m \<Rightarrow>
               (let c2 = c1\<lparr>cfg_machine_specific := m\<rparr>;
                    r = update_array ''profiles'' (create_profile T eh) j (cfg_profiles c2)
                in (c2\<lparr>cfg_profiles := fst r\<rparr>, snd r))))"

definition load_configuration :: "json_text \<Rightarrow> config_file \<Rightarrow> configuration \<Rightarrow> configuration" where
  "load_configuration T f c =
     (if \<not> cf_exists f \<or> \<not> (cf_owned_by_root f \<or> cf_owned_by_expected f) \<or> \<not> cf_opened f then c
      else case cf_parsed f of
        Inl e \<Rightarrow> c\<lparr>cfg_parse_error := Some e\<rparr>
      | Inr j \<Rightarrow>
          (let r = update_configuration T j (c\<lparr>cfg_json := j\<rparr>)
           in case snd r of
                None \<Rightarrow> (fst r)\<lparr>cfg_loaded := True\<rparr>
              | Some e \<Rightarrow> (fst r)\<lparr>cfg_parse_error := Some e\<rparr>))"

definition create_configuration ::
    "json_text \<Rightarrow> error_handling \<Rightarrow> config_file \<Rightarrow> json_error + configuration" where
  "create_configuration T eh f =
     ok_bind (initial_configuration eh) (\<lambda>c0.
       (let c = load_configuration T f c0
        in if cfg_profiles c = []
           then ok_bind (create_profile T eh
                  (JObject [(''name'', JString ''Default profile''), (''selected'', JBool True)])) (\<lambda>p.
                Inr (c\<lparr>cfg_profiles := [p]\<rparr>))
           else Inr c))"

definition configuration_to_json :: "json_text \<Rightarrow> configuration \<Rightarrow> json" where
  "configuration_to_json T c =
     update_array_json ''profiles'' (profile_to_json T) (cfg_profiles c)
     (update_object_json ''machine_specific'' machine_specific_to_json (cfg_machine_specific c)
     (update_object_json ''global'' settings_to_json (cfg_global c) (cfg_json c)))"

definition set_profile_name :: "nat \<Rightarrow> string \<Rightarrow> configuration \<Rightarrow> configuration" where
  "set_profile_name i name c =
     (if i < length (cfg_profiles c)
      then c\<lparr>cfg_profiles := (cfg_profiles c)[i := set_name name (cfg_profiles c ! i)]\<rparr> else c)"

definition select_profile :: "nat \<Rightarrow> configuration \<Rightarrow> configuration" where
  "select_profile i c =
     (if i < length (cfg_profiles c)
      then c\<lparr>cfg_profiles := map (\<lambda>(n, p). set_selected (n = i) p)
                              (zip [0..<length (cfg_profiles c)] (cfg_profiles c))\<rparr>
      else c)"

definition push_back_profile :: "json_text \<Rightarrow> configuration \<Rightarrow> json_error + configuration" where
  "push_back_profile T c =
     ok_bind (create_profile T (cfg_error_handling c) (JObject [(''name'', JString ''New profile'')])) (\<lambda>p.
     Inr (c\<lparr>cfg_profiles := cfg_profiles c @ [p]\<rparr>))"

definition duplicate_profile :: "json_text \<Rightarrow> profile \<Rightarrow> configuration \<Rightarrow> json_error + configuration" where
  "duplicate_profile T p c =
     ok_bind (create_profile T (cfg_error_handling c) (profile_to_json T p)) (\<lambda>q.
     Inr (c\<lparr>cfg_profiles := cfg_profiles c @ [set_selected False (set_name (get_name q @ '' (copy)'') q)]\<rparr>))"

definition erase_profile :: "nat \<Rightarrow> configuration \<Rightarrow> configuration" where
  "erase_profile i c =
     (if i < length (cfg_profiles c) \<and> length (cfg_profiles c) > 1
      then c\<lparr>cfg_profiles := take i (cfg_profiles c) @ drop (Suc i) (cfg_profiles c)\<rparr> else c)"

definition move_profile :: "nat \<Rightarrow> nat \<Rightarrow> configuration \<Rightarrow> configuration" where
  "move_profile source destination c =
     c\<lparr>cfg_profiles := move_element source destination (cfg_profiles c)\<rparr>"

text \<open>\<open>profiles_[0]\<close> of an empty vector is undefined; the option says whether there is one.\<close>

definition get_selected_profile :: "configuration \<Rightarrow> profile option" where
  "get_selected_profile c =
     (case find get_selected (cfg_profiles c) of
        Some p \<Rightarrow> Some p
      | None \<Rightarrow> (case cfg_profiles c of [] \<Rightarrow> None | p # _ \<Rightarrow> Some p))"

subsection \<open>Backups\<close>

text \<open>
  The user's files: the content of \<open>karabiner.json\<close>, and the files of the backup directory that
  match \<open>karabiner_????????.json\<close>, in the order of their names, as \<open>std::sort\<close> puts the paths found.
  The directory is \<open>None\<close> when the home directory is unknown. \<open>format\<close> is the bundled formatter.
\<close>

record user_files =
  uf_configuration :: "string option"
  uf_backups :: "(string \<times> string) list option"

fun padded_digits :: "nat \<Rightarrow> nat \<Rightarrow> string" where
  "padded_digits 0 n = []"
| "padded_digits (Suc w) n = padded_digits w (n div 10) @ [char_of (48 + n mod 10)]"

text \<open>The name of today's backup; \<open>year\<close>, \<open>month\<close> and \<open>day\<close> are those of the local clock.\<close>

definition backup_name :: "nat \<times> nat \<times> nat \<Rightarrow> string" where
  "backup_name date =
     (case date of (year, month, day) \<Rightarrow>
        ''karabiner_'' @ padded_digits 4 year @ padded_digits 2 month @ padded_digits 2 day @ ''.json'')"

definition make_backup_file :: "nat \<times> nat \<times> nat \<Rightarrow> user_files \<Rightarrow> user_files" where
  "make_backup_file today u =
     (case (uf_configuration u, uf_backups u) of
        (Some content, Some bs) \<Rightarrow>
          (if map_of bs (backup_name today) \<noteq> None then u
           else u\<lparr>uf_backups := Some (put_member (backup_name today) content bs)\<rparr>)
      | _ \<Rightarrow> u)"

definition keep_count :: nat where
  "keep_count = 20"

definition remove_old_backup_files :: "user_files \<Rightarrow> user_files" where
  "remove_old_backup_files u =
     (case uf_backups u of
        None \<Rightarrow> u
      | Some bs \<Rightarrow>
          (if length bs > keep_count then u\<lparr>uf_backups := Some (drop (length bs - keep_count) bs)\<rparr> else u))"

definition sync_save_to_file ::
    "json_text \<Rightarrow> (json \<Rightarrow> string) \<Rightarrow> nat \<times> nat \<times> nat \<Rightarrow> configuration \<Rightarrow> user_files \<Rightarrow> user_files" where
  "sync_save_to_file T format today c u =
     (remove_old_backup_files (make_backup_file today u))
       \<lparr>uf_configuration := Some (format (configuration_to_json T c))\<rparr>"

text \<open>Saves that follow one another on any days.\<close>

fun saves :: "json_text \<Rightarrow> (json \<Rightarrow> string) \<Rightarrow> ((nat \<times> nat \<times> nat) \<times> configuration) list \<Rightarrow> user_files \<Rightarrow> user_files" where
  "saves T format [] u = u"
| "saves T format (s # ss) u = saves T format ss (sync_save_to_file T format (fst s) (snd s) u)"

definition backups_ok :: "user_files \<Rightarrow> bool" where
  "backups_ok u \<longleftrightarrow> (case uf_backups u of None \<Rightarrow> True | Some bs \<Rightarrow> members_ok bs \<and> length bs \<le> keep_count)"

lemma members_ok_drop: "members_ok bs \<Longrightarrow> members_ok (drop n bs)"
  by (simp add: members_ok_def drop_map[symmetric] sorted_wrt_drop)

lemma sync_save_backups_ok:
  "(case uf_backups u of None \<Rightarrow> True | Some bs \<Rightarrow> members_ok bs) \<Longrightarrow> backups_ok (sync_save_to_file T format d c u)"
  by (auto simp: sync_save_to_file_def make_backup_file_def remove_old_backup_files_def backups_ok_def
      put_member_ok members_ok_drop split: option.splits)

lemma saves_backups_ok: "backups_ok u \<Longrightarrow> backups_ok (saves T format ss u)"
proof (induction ss arbitrary: u)
  case (Cons s ss)
  then have "backups_ok (sync_save_to_file T format (fst s) (snd s) u)"
    by (intro sync_save_backups_ok) (auto simp: backups_ok_def split: option.splits)
  then show ?case using Cons.IH by simp
qed simp

text \<open>The backups that remain are the last twenty, so one remains if fewer than twenty follow it.\<close>

lemma map_of_last_members:
  assumes "members_ok bs" "map_of bs k = Some v" "0 < n"
  shows "map_of (drop (length bs - n) bs) k =
    (if length (filter (\<lambda>b. k < fst b) bs) < n then Some v else None)"
proof -
  have dist: "distinct (map fst bs)" by (rule members_ok_distinct[OF assms(1)])
  obtain xs ys where bs: "bs = xs @ (k, v) # ys"
    using assms(2) by (meson map_of_SomeD split_list)
  have order: "\<forall>x\<in>set xs. fst x < k" "\<forall>y\<in>set ys. k < fst y"
    using assms(1) by (auto simp: bs members_ok_def sorted_wrt_append)
  have "filter (\<lambda>b. k < fst b) xs = []" "filter (\<lambda>b. k < fst b) ys = ys"
    using order by (auto simp: filter_empty_conv dest: less_not_sym)
  then have later: "filter (\<lambda>b. k < fst b) bs = ys" by (simp add: bs)
  show ?thesis
  proof (cases "length ys < n")
    case True
    then have "drop (length bs - n) bs = drop (length bs - n) xs @ (k, v) # ys" by (simp add: bs)
    moreover have "map_of (drop (length bs - n) xs) k = None"
      using order(1) by (auto simp: map_of_eq_None_iff dest: in_set_dropD)
    ultimately show ?thesis using True later by (simp add: map_add_def)
  next
    case False
    then have "drop (length bs - n) bs = drop (length ys - n) ys" using assms(3) by (simp add: bs Suc_diff_le)
    moreover have "map_of (drop (length ys - n) ys) k = None"
      using order(2) by (auto simp: map_of_eq_None_iff dest: in_set_dropD)
    ultimately show ?thesis using False later by simp
  qed
qed

lemma later_members_put:
  "length (filter (\<lambda>b. k < fst b) (put_member k v bs)) = length (filter (\<lambda>b. k < fst b) bs)"
  by (induction bs) auto

text \<open>
  C21. A save keeps the content it replaces, while there is a configuration file and a known home
  directory: today's backup holds the content the file had before the first save of the day, and
  goes on holding it, unless twenty backups have later names, which takes a clock that was set back.
  Only the backups with the smallest names are removed, so that at most 20 remain.
\<close>

theorem save_keeps_previous_content:
  assumes "uf_configuration u = Some content" "uf_backups u = Some bs" "members_ok bs"
  shows "\<exists>bs'. uf_backups (sync_save_to_file T format today c u) = Some bs' \<and> length bs' \<le> 20 \<and>
    map_of bs' (backup_name today) =
      (if length (filter (\<lambda>b. backup_name today < fst b) bs) < 20
       then Some (case map_of bs (backup_name today) of None \<Rightarrow> content | Some old \<Rightarrow> old) else None) \<and>
    uf_configuration (sync_save_to_file T format today c u) = Some (format (configuration_to_json T c))"
proof -
  let ?n = "backup_name today"
  define bs1 where "bs1 = (if map_of bs ?n \<noteq> None then bs else put_member ?n content bs)"
  have b1: "uf_backups (make_backup_file today u) = Some bs1"
    using assms(1,2) by (auto simp: make_backup_file_def bs1_def)
  have ok1: "members_ok bs1" using assms(3) by (simp add: bs1_def put_member_ok)
  let ?v = "case map_of bs ?n of None \<Rightarrow> content | Some old \<Rightarrow> old"
  have v1: "map_of bs1 ?n = Some ?v" by (auto simp: bs1_def)
  have later: "length (filter (\<lambda>b. ?n < fst b) bs1) = length (filter (\<lambda>b. ?n < fst b) bs)"
    by (simp add: bs1_def later_members_put)
  let ?bs2 = "drop (length bs1 - keep_count) bs1"
  have "uf_backups (sync_save_to_file T format today c u) = Some ?bs2"
    using b1 by (simp add: sync_save_to_file_def remove_old_backup_files_def)
  then show ?thesis
    using map_of_last_members[OF ok1 v1, of keep_count] later
    by (simp add: keep_count_def sync_save_to_file_def)
qed

subsection \<open>There is always a profile, and selecting one selects it alone\<close>

definition profile_ok :: "profile \<Rightarrow> bool" where
  "profile_ok p \<longleftrightarrow> map vt_key (pfl_values p) = [''name'', ''selected'']"

definition configuration_ok :: "configuration \<Rightarrow> bool" where
  "configuration_ok c \<longleftrightarrow> cfg_profiles c \<noteq> [] \<and> list_all profile_ok (cfg_profiles c)"

lemma profile_items_values: "profile_items T eh ms p = Inr p' \<Longrightarrow> pfl_values p' = pfl_values p"
  by (induction ms arbitrary: p) (auto simp: profile_item_def split: if_splits)

lemma create_profile_ok: "create_profile T eh j = Inr p \<Longrightarrow> profile_ok p"
proof -
  assume "create_profile T eh j = Inr p"
  then obtain vs where "update_values eh j (map value_t_initial profile_values) = Inr vs" "pfl_values p = vs"
    by (auto simp: create_profile_def dest!: profile_items_values simp del: update_values.simps)
  then show ?thesis
    using update_values_keys by (fastforce simp: profile_ok_def profile_values_def value_t_initial_def)
qed

lemma push_entries_all:
  "push_entries k create js xs = (ys, e) \<Longrightarrow> (\<And>j x. create j = Inr x \<Longrightarrow> P x) \<Longrightarrow>
   list_all P xs \<Longrightarrow> list_all P ys"
  by (induction js arbitrary: xs) (auto split: sum.splits)

lemma update_array_all:
  "update_array k create j xs = (ys, e) \<Longrightarrow> (\<And>j x. create j = Inr x \<Longrightarrow> P x) \<Longrightarrow>
   list_all P xs \<Longrightarrow> list_all P ys"
  by (auto simp: update_array_def split: sum.splits option.splits intro: push_entries_all)

lemma load_configuration_profiles:
  assumes "list_all profile_ok (cfg_profiles c)"
  shows "list_all profile_ok (cfg_profiles (load_configuration T f c))"
proof -
  have "list_all profile_ok (cfg_profiles (fst (update_configuration T j c')))"
    if "cfg_profiles c' = cfg_profiles c" for j c'
    using that assms update_array_all[of "''profiles''" "create_profile T (cfg_error_handling c')" j
        "cfg_profiles c" _ _ profile_ok] create_profile_ok
    by (auto simp: update_configuration_def Let_def split: sum.splits prod.splits)
      (metis prod.collapse)
  then show ?thesis
    using assms by (auto simp: load_configuration_def Let_def split: sum.splits option.splits)
qed

lemma create_configuration_ok:
  assumes "create_configuration T eh f = Inr c"
  shows "configuration_ok c"
proof -
  obtain c0 where c0: "initial_configuration eh = Inr c0" using assms by (auto simp: create_configuration_def)
  then have "cfg_profiles c0 = []" by (auto simp: initial_configuration_def)
  then have ok: "list_all profile_ok (cfg_profiles (load_configuration T f c0))"
    by (intro load_configuration_profiles) simp
  show ?thesis
  proof (cases "cfg_profiles (load_configuration T f c0) = []")
    case True
    then obtain p where "create_profile T eh
        (JObject [(''name'', JString ''Default profile''), (''selected'', JBool True)]) = Inr p"
      "cfg_profiles c = [p]"
      using assms c0 by (auto simp: create_configuration_def Let_def)
    then show ?thesis by (simp add: configuration_ok_def create_profile_ok)
  next
    case False
    then have "c = load_configuration T f c0" using assms c0 by (simp add: create_configuration_def Let_def)
    with False ok show ?thesis by (simp add: configuration_ok_def)
  qed
qed

lemma profile_ok_set [simp]:
  "profile_ok (set_name x p) = profile_ok p" "profile_ok (set_selected b p) = profile_ok p"
  by (simp_all add: profile_ok_def set_name_def set_selected_def)

text \<open>
  What the program does with a configuration: the operations above, and changes of a profile that
  leave its name and selection alone (\<open>cr_edit\<close>: its devices, modifications and parameters).
\<close>

inductive configuration_reachable :: "json_text \<Rightarrow> configuration \<Rightarrow> bool" for T where
  cr_create: "create_configuration T eh f = Inr c \<Longrightarrow> configuration_reachable T c"
| cr_rename: "configuration_reachable T c \<Longrightarrow> configuration_reachable T (set_profile_name i n c)"
| cr_select: "configuration_reachable T c \<Longrightarrow> configuration_reachable T (select_profile i c)"
| cr_push: "configuration_reachable T c \<Longrightarrow> push_back_profile T c = Inr c' \<Longrightarrow> configuration_reachable T c'"
| cr_duplicate: "configuration_reachable T c \<Longrightarrow> duplicate_profile T p c = Inr c' \<Longrightarrow> configuration_reachable T c'"
| cr_erase: "configuration_reachable T c \<Longrightarrow> configuration_reachable T (erase_profile i c)"
| cr_move: "configuration_reachable T c \<Longrightarrow> configuration_reachable T (move_profile s d c)"
| cr_edit: "configuration_reachable T c \<Longrightarrow> i < length (cfg_profiles c) \<Longrightarrow>
    pfl_values p = pfl_values (cfg_profiles c ! i) \<Longrightarrow>
    configuration_reachable T (c\<lparr>cfg_profiles := (cfg_profiles c)[i := p]\<rparr>)"

lemma find_SomeD: "find P xs = Some x \<Longrightarrow> x \<in> set xs \<and> P x"
  by (induction xs) (auto split: if_splits)

lemma list_all_mset: "mset xs = mset ys \<Longrightarrow> list_all P xs = list_all P ys"
  by (metis list_all_iff set_mset_mset)

lemma length_select: "length (cfg_profiles (select_profile i c)) = length (cfg_profiles c)"
  by (simp add: select_profile_def)

lemma nth_select:
  "i < length (cfg_profiles c) \<Longrightarrow> n < length (cfg_profiles c) \<Longrightarrow>
   cfg_profiles (select_profile i c) ! n = set_selected (n = i) (cfg_profiles c ! n)"
  by (simp add: select_profile_def)

lemma configuration_reachable_ok: "configuration_reachable T c \<Longrightarrow> configuration_ok c"
proof (induction rule: configuration_reachable.induct)
  case (cr_create eh f c)
  then show ?case by (rule create_configuration_ok)
next
  case (cr_rename c i n)
  then show ?case
    by (auto simp: configuration_ok_def set_profile_name_def list_all_length nth_list_update)
next
  case (cr_select c i)
  then show ?case
  proof (cases "i < length (cfg_profiles c)")
    case True
    then have "list_all profile_ok (cfg_profiles (select_profile i c))"
      using cr_select.IH by (auto simp: configuration_ok_def list_all_length length_select nth_select)
    moreover have "cfg_profiles (select_profile i c) \<noteq> []"
      using cr_select.IH length_select[of i c] by (auto simp: configuration_ok_def)
    ultimately show ?thesis by (simp add: configuration_ok_def)
  qed (simp add: select_profile_def)
next
  case (cr_push c c')
  then show ?case by (auto simp: push_back_profile_def configuration_ok_def create_profile_ok)
next
  case (cr_duplicate c p c')
  then show ?case by (auto simp: duplicate_profile_def configuration_ok_def create_profile_ok)
next
  case (cr_erase c i)
  then show ?case
    by (auto simp: erase_profile_def configuration_ok_def list_all_iff dest: in_set_takeD in_set_dropD)
next
  case (cr_move c s d)
  have m: "mset (cfg_profiles (move_profile s d c)) = mset (cfg_profiles c)"
    by (simp add: move_profile_def mset_move_element)
  then have "cfg_profiles (move_profile s d c) \<noteq> []"
    using cr_move.IH by (auto simp: configuration_ok_def)
  with list_all_mset[OF m] cr_move.IH show ?case by (simp add: configuration_ok_def)
next
  case (cr_edit c i p)
  then show ?case
    by (auto simp: configuration_ok_def list_all_length nth_list_update profile_ok_def)
qed

text \<open>
  C15. However the configuration file was read, also when it is missing, not owned by the user or
  broken, and whatever is done with the profiles, there is a profile, so the selected profile is
  one of them and never read past the end of an empty list.
\<close>

theorem configuration_has_selected_profile:
  assumes "configuration_reachable T c"
  shows "\<exists>p. get_selected_profile c = Some p \<and> p \<in> set (cfg_profiles c)"
proof -
  obtain p ps where ps: "cfg_profiles c = p # ps"
    using configuration_reachable_ok[OF assms] by (cases "cfg_profiles c") (auto simp: configuration_ok_def)
  show ?thesis
  proof (cases "find get_selected (cfg_profiles c)")
    case None
    with ps show ?thesis by (simp add: get_selected_profile_def)
  next
    case (Some q)
    with find_SomeD[OF Some] show ?thesis by (simp add: get_selected_profile_def)
  qed
qed

lemma get_selected_set_selected:
  assumes "profile_ok p"
  shows "get_selected (set_selected b p) = b"
proof -
  obtain x y where "pfl_values p = [x, y]" "vt_key x = ''name''" "vt_key y = ''selected''"
    using assms by (auto simp: profile_ok_def)
  then show ?thesis
    by (simp add: get_selected_def set_selected_def bool_member_def member_value_def find_value_def set_member_def)
qed

text \<open>
  Selecting the profile at a valid index makes it the selected one and unselects every other;
  nothing else of any profile changes.
\<close>

theorem select_profile_selects_one:
  assumes "configuration_reachable T c" "i < length (cfg_profiles c)"
  shows "get_selected_profile (select_profile i c) = Some (set_selected True (cfg_profiles c ! i)) \<and>
    map get_selected (cfg_profiles (select_profile i c)) = map (\<lambda>n. n = i) [0..<length (cfg_profiles c)]"
proof -
  have ok: "profile_ok (cfg_profiles c ! n)" if "n < length (cfg_profiles c)" for n
    using configuration_reachable_ok[OF assms(1)] that by (simp add: configuration_ok_def list_all_length)
  let ?ps = "cfg_profiles (select_profile i c)"
  have sel: "map get_selected ?ps = map (\<lambda>n. n = i) [0..<length (cfg_profiles c)]"
    by (rule nth_equalityI) (use assms(2) ok in \<open>simp_all add: length_select nth_select get_selected_set_selected\<close>)
  have "find get_selected ?ps = Some (?ps ! i)"
    unfolding find_Some_iff
    by (rule exI[of _ i])
      (use assms(2) ok in \<open>auto simp: length_select nth_select get_selected_set_selected\<close>)
  then show ?thesis using sel assms(2) by (simp add: get_selected_profile_def nth_select)
qed

text \<open>A part of the file reads when its constructor does not throw; a missing member is not read.\<close>

definition reads :: "(json \<Rightarrow> json_error + 'a) \<Rightarrow> json \<Rightarrow> bool" where
  "reads create j \<longleftrightarrow> (case create j of Inl _ \<Rightarrow> False | Inr _ \<Rightarrow> True)"

definition member_reads :: "string \<Rightarrow> (json \<Rightarrow> json_error + 'a) \<Rightarrow> json \<Rightarrow> bool" where
  "member_reads k create j \<longleftrightarrow> (case json_find j k of None \<Rightarrow> True | Some v \<Rightarrow> reads create v)"

definition member_elements :: "string \<Rightarrow> json \<Rightarrow> json list" where
  "member_elements k j = (case json_find j k of Some (JArray js) \<Rightarrow> js | _ \<Rightarrow> [])"

definition absent_or_array :: "string \<Rightarrow> json \<Rightarrow> bool" where
  "absent_or_array k j \<longleftrightarrow> (case json_find j k of None \<Rightarrow> True | Some v \<Rightarrow> json_is_array v)"

text \<open>What an array gives: the elements in front of the first that does not read.\<close>

definition read_elements :: "(json \<Rightarrow> json_error + 'a) \<Rightarrow> json list \<Rightarrow> 'a list" where
  "read_elements create js = map (\<lambda>j. projr (create j)) (takeWhile (reads create) js)"

lemma reads_simps:
  "reads create j \<Longrightarrow> create j = Inr (projr (create j))"
  "\<not> reads create j \<longleftrightarrow> (\<exists>e. create j = Inl e)"
  by (auto simp: reads_def split: sum.splits)

lemma rethrow_with_Inl: "(\<exists>e. rethrow_with m r = Inl e) \<longleftrightarrow> (\<exists>e. r = Inl e)"
  by (cases "(m, r)" rule: rethrow_with.cases) auto

lemma push_entries_read:
  "fst (push_entries k create js xs) = xs @ read_elements create js"
  "snd (push_entries k create js xs) = None \<longleftrightarrow> list_all (reads create) js"
proof (induction js arbitrary: xs)
  case (Cons j js)
  { case 1
    show ?case
      using Cons.IH(1) rethrow_with_Inl[of "[Text (backquoted k @ '' entry error: '')]" "create j"]
      by (auto simp: reads_def read_elements_def split: sum.splits)
  next
    case 2
    show ?case
      using Cons.IH(2) rethrow_with_Inl[of "[Text (backquoted k @ '' entry error: '')]" "create j"]
      by (auto simp: reads_def split: sum.splits) }
qed (simp_all add: read_elements_def)

lemma update_array_read:
  "snd (update_array k create j xs) = None \<longleftrightarrow>
     json_is_object j \<and> absent_or_array k j \<and> list_all (reads create) (member_elements k j)"
  "fst (update_array k create j xs) = xs @ read_elements create (member_elements k j)"
  by (auto simp: update_array_def requires_object_def requires_array_def absent_or_array_def
      member_elements_def push_entries_read read_elements_def json_find_not_object
      split: option.splits json.splits)

lemma update_object_read:
  "(\<exists>e. update_object k create j x = Inl e) \<longleftrightarrow> \<not> member_reads k create j"
  by (auto simp: update_object_def member_reads_def rethrow_with_Inl reads_def split: option.splits sum.splits)

definition global_of :: "error_handling \<Rightarrow> json \<Rightarrow> settings \<Rightarrow> settings" where
  "global_of eh j g = (case json_find j ''global'' of None \<Rightarrow> g | Some v \<Rightarrow> projr (global_configuration eh v))"

text \<open>The three parts in order: each is taken over when it and those before it read.\<close>

lemma update_configuration_parts:
  fixes T j c
  defines "eh \<equiv> cfg_error_handling c" and "r \<equiv> update_configuration T j c"
  defines "g \<equiv> member_reads ''global'' (global_configuration eh) j"
    and "m \<equiv> member_reads ''machine_specific'' (create_machine_specific eh) j"
  shows "snd r = None \<longleftrightarrow> g \<and> m \<and> json_is_object j \<and> absent_or_array ''profiles'' j \<and>
      list_all (reads (create_profile T eh)) (member_elements ''profiles'' j)"
    and "cfg_profiles (fst r) =
      (if g \<and> m then cfg_profiles c @ read_elements (create_profile T eh) (member_elements ''profiles'' j)
       else cfg_profiles c)"
    and "cfg_global (fst r) = (if g then global_of eh j (cfg_global c) else cfg_global c)"
    and "cfg_loaded (fst r) = cfg_loaded c" "cfg_parse_error (fst r) = cfg_parse_error c"
proof -
  have global: "g \<longleftrightarrow> (\<exists>x. update_object ''global'' (global_configuration eh) j (cfg_global c) = Inr x)"
    using update_object_read[of "''global''" "global_configuration eh" j "cfg_global c"]
    unfolding g_def by (metis Inl_Inr_False sum.exhaust)
  have machine: "m \<longleftrightarrow> (\<exists>x. update_object ''machine_specific'' (create_machine_specific eh) j (cfg_machine_specific c) = Inr x)"
    using update_object_read[of "''machine_specific''" "create_machine_specific eh" j "cfg_machine_specific c"]
    unfolding m_def by (metis Inl_Inr_False sum.exhaust)
  have taken: "x = global_of eh j (cfg_global c)"
    if "update_object ''global'' (global_configuration eh) j (cfg_global c) = Inr x" for x
    using that by (auto simp: update_object_def global_of_def split: option.splits)
  note parts = r_def update_configuration_def Let_def eh_def[symmetric] update_array_read
  show "snd r = None \<longleftrightarrow> g \<and> m \<and> json_is_object j \<and> absent_or_array ''profiles'' j \<and>
      list_all (reads (create_profile T eh)) (member_elements ''profiles'' j)"
    "cfg_profiles (fst r) =
      (if g \<and> m then cfg_profiles c @ read_elements (create_profile T eh) (member_elements ''profiles'' j)
       else cfg_profiles c)"
    "cfg_global (fst r) = (if g then global_of eh j (cfg_global c) else cfg_global c)"
    "cfg_loaded (fst r) = cfg_loaded c" "cfg_parse_error (fst r) = cfg_parse_error c"
    using global machine taken by (auto simp: parts split: sum.splits)
qed

definition file_opens :: "config_file \<Rightarrow> bool" where
  "file_opens f \<longleftrightarrow> cf_exists f \<and> (cf_owned_by_root f \<or> cf_owned_by_expected f) \<and> cf_opened f"

lemma create_configuration_loads:
  assumes "create_configuration T eh f = Inr c"
  obtains c0 where "initial_configuration eh = Inr c0"
    "cfg_loaded c = cfg_loaded (load_configuration T f c0)"
    "cfg_parse_error c = cfg_parse_error (load_configuration T f c0)"
    "cfg_global c = cfg_global (load_configuration T f c0)"
    "cfg_profiles (load_configuration T f c0) \<noteq> [] \<Longrightarrow> cfg_profiles c = cfg_profiles (load_configuration T f c0)"
proof -
  obtain c0 where c0: "initial_configuration eh = Inr c0" using assms by (auto simp: create_configuration_def)
  show thesis
    by (rule that[OF c0]) (use assms c0 in \<open>auto simp: create_configuration_def Let_def split: if_splits\<close>)
qed

lemma loaded_configuration:
  assumes "initial_configuration eh = Inr c0" "file_opens f" "cf_parsed f = Inr j"
    and "r = update_configuration T j (c0\<lparr>cfg_json := j\<rparr>)"
  shows "cfg_loaded (load_configuration T f c0) \<longleftrightarrow> snd r = None"
    and "cfg_parse_error (load_configuration T f c0) = snd r"
    and "cfg_global (load_configuration T f c0) = cfg_global (fst r)"
    and "cfg_profiles (load_configuration T f c0) = cfg_profiles (fst r)"
proof -
  have load: "load_configuration T f c0 =
      (case snd r of None \<Rightarrow> (fst r)\<lparr>cfg_loaded := True\<rparr> | Some e \<Rightarrow> (fst r)\<lparr>cfg_parse_error := Some e\<rparr>)"
    using assms(2,3) unfolding assms(4) by (auto simp: load_configuration_def file_opens_def Let_def)
  have "cfg_loaded (fst r) = False" "cfg_parse_error (fst r) = None"
    using assms(1) update_configuration_parts(4,5)[of T j "c0\<lparr>cfg_json := j\<rparr>"]
    by (auto simp: assms(4) initial_configuration_def)
  then show "cfg_loaded (load_configuration T f c0) \<longleftrightarrow> snd r = None"
    "cfg_parse_error (load_configuration T f c0) = snd r"
    "cfg_global (load_configuration T f c0) = cfg_global (fst r)"
    "cfg_profiles (load_configuration T f c0) = cfg_profiles (fst r)"
    unfolding load by (simp_all split: option.split)
qed

lemma unloaded_configuration:
  assumes "initial_configuration eh = Inr c0" "\<not> file_opens f \<or> cf_parsed f = Inl e"
  shows "\<not> cfg_loaded (load_configuration T f c0)"
    and "cfg_parse_error (load_configuration T f c0) = (if file_opens f then Some e else None)"
proof -
  have load: "load_configuration T f c0 = (if file_opens f then c0\<lparr>cfg_parse_error := Some e\<rparr> else c0)"
    using assms(2) by (auto simp: load_configuration_def file_opens_def)
  have "cfg_loaded c0 = False" "cfg_parse_error c0 = None" using assms(1) by (auto simp: initial_configuration_def)
  then show "\<not> cfg_loaded (load_configuration T f c0)"
    "cfg_parse_error (load_configuration T f c0) = (if file_opens f then Some e else None)"
    unfolding load by simp_all
qed

text \<open>
  C16. A configuration counts as loaded exactly when the file exists, is owned by root or the user,
  opens and parses to an object whose \<open>global\<close> and \<open>machine_specific\<close>, where present, read and whose
  \<open>profiles\<close>, where present, is an array with elements that read. If a file that opens is not loaded,
  the error is remembered, and what was read before it stays in force: \<open>global\<close>, and the profiles in
  front of the first that does not read.
\<close>

theorem configuration_loaded_iff:
  assumes "create_configuration T eh f = Inr c"
  shows "(cfg_loaded c \<longleftrightarrow> file_opens f \<and>
      (case cf_parsed f of Inl _ \<Rightarrow> False
       | Inr j \<Rightarrow> json_is_object j \<and> member_reads ''global'' (global_configuration eh) j \<and>
           member_reads ''machine_specific'' (create_machine_specific eh) j \<and> absent_or_array ''profiles'' j \<and>
           list_all (reads (create_profile T eh)) (member_elements ''profiles'' j))) \<and>
    (cfg_parse_error c = None \<longleftrightarrow> cfg_loaded c \<or> \<not> file_opens f) \<and>
    (\<forall>j. file_opens f \<and> cf_parsed f = Inr j \<and> member_reads ''global'' (global_configuration eh) j \<longrightarrow>
      cfg_global c = projr (global_configuration eh (case json_find j ''global'' of None \<Rightarrow> JObject [] | Some v \<Rightarrow> v)) \<and>
      (member_reads ''machine_specific'' (create_machine_specific eh) j \<and>
       read_elements (create_profile T eh) (member_elements ''profiles'' j) \<noteq> [] \<longrightarrow>
         cfg_profiles c = read_elements (create_profile T eh) (member_elements ''profiles'' j)))"
proof (rule create_configuration_loads[OF assms])
  fix c0
  assume c0: "initial_configuration eh = Inr c0"
    and loads: "cfg_loaded c = cfg_loaded (load_configuration T f c0)"
      "cfg_parse_error c = cfg_parse_error (load_configuration T f c0)"
      "cfg_global c = cfg_global (load_configuration T f c0)"
      "cfg_profiles (load_configuration T f c0) \<noteq> [] \<Longrightarrow> cfg_profiles c = cfg_profiles (load_configuration T f c0)"
  show ?thesis
  proof (cases "\<exists>j. file_opens f \<and> cf_parsed f = Inr j")
    case False
    then obtain e where "\<not> file_opens f \<or> cf_parsed f = Inl e" by (metis sum.exhaust)
    from unloaded_configuration[OF c0 this] this False loads(1,2) show ?thesis by (auto split: sum.splits)
  next
    case True
    then obtain j where j: "file_opens f" "cf_parsed f = Inr j" by blast
    define r where "r = update_configuration T j (c0\<lparr>cfg_json := j\<rparr>)"
    note c = loaded_configuration[OF c0 j r_def]
    have i: "cfg_error_handling c0 = eh" "cfg_profiles c0 = []" "global_configuration eh (JObject []) = Inr (cfg_global c0)"
      using c0 by (auto simp: initial_configuration_def)
    note parts = update_configuration_parts(1-3)[of T j "c0\<lparr>cfg_json := j\<rparr>", simplified, folded r_def, unfolded i, simplified]
    have "cfg_loaded c \<longleftrightarrow> json_is_object j \<and> member_reads ''global'' (global_configuration eh) j \<and>
        member_reads ''machine_specific'' (create_machine_specific eh) j \<and> absent_or_array ''profiles'' j \<and>
        list_all (reads (create_profile T eh)) (member_elements ''profiles'' j)"
      unfolding loads(1) c(1) parts(1) by blast
    moreover have "cfg_parse_error c = None \<longleftrightarrow> cfg_loaded c"
      using loads(1,2) c(1,2) by simp
    moreover have "cfg_global c = projr (global_configuration eh
        (case json_find j ''global'' of None \<Rightarrow> JObject [] | Some v \<Rightarrow> v))"
      if "member_reads ''global'' (global_configuration eh) j"
      using that parts(3) loads(3) c(3) i by (simp add: global_of_def split: option.split)
    moreover have "cfg_profiles c = read_elements (create_profile T eh) (member_elements ''profiles'' j)"
      if "member_reads ''global'' (global_configuration eh) j"
        "member_reads ''machine_specific'' (create_machine_specific eh) j"
        "read_elements (create_profile T eh) (member_elements ''profiles'' j) \<noteq> []"
      using that parts(2) loads(4) c(4) i(1,2) by simp
    ultimately show ?thesis using j by simp
  qed
qed

subsection \<open>Instances\<close>

definition missing_file :: config_file where
  "missing_file = \<lparr>cf_exists = False, cf_owned_by_root = False, cf_owned_by_expected = False,
     cf_opened = False, cf_parsed = Inl Json_type_error\<rparr>"

lemma fn_entry_loaded:
  "definitions_of T [fn_entry f k v] =
     Inr [(jt_dump T (JObject [(''key_code'', JString f)]), jt_dump T (JArray [JObject [(k, JString v)]]))]"
  by (simp add: fn_entry_def erase_or_throw_def json_erase_def erase_member_def migrate_to_json_def)

lemma profile_fn_function_keys_loaded:
  "\<exists>fn. update_simple_modifications T (JArray profile_default_fn_function_keys) [] = Inr fn"
proof -
  have "\<exists>ds. definitions_of T profile_default_fn_function_keys = Inr ds"
    by (simp add: profile_default_fn_function_keys_def fn_entry_def erase_or_throw_def)
  then show ?thesis
    using update_entries_Inr[of T profile_default_fn_function_keys _ "[]"]
    by (auto simp: update_simple_modifications_def)
qed

lemma fresh_complex_modifications:
  "\<exists>cm. create_complex_modifications eh (JObject []) = Inr cm"
  by (simp add: create_complex_modifications_def complex_modifications_parameters_def create_settings_fresh
      requires_object_def update_object_def json_find_def)

lemma named_profile_created:
  assumes "json_is_object j" "fst ` set (json_items j) \<subseteq> {''name'', ''selected''}"
    "update_values eh j (map value_t_initial profile_values) = Inr vs"
  shows "\<exists>p. create_profile T eh j = Inr p \<and> pfl_values p = vs"
proof -
  obtain cm where cm: "create_complex_modifications loose (JObject []) = Inr cm"
    using fresh_complex_modifications by blast
  obtain fn where fn: "update_simple_modifications T (JArray profile_default_fn_function_keys) [] = Inr fn"
    using profile_fn_function_keys_loaded by blast
  have none: "json_find j k = None" if "k \<notin> {''name'', ''selected''}" for k
    using assms(2) that by (auto simp: json_find_def map_of_eq_None_iff)
  have "profile_items T eh ms p = Inr p" if "fst ` set ms \<subseteq> {''name'', ''selected''}" for ms p
    using that by (induction ms arbitrary: p) (auto simp: profile_item_def)
  then show ?thesis
    using assms cm fn none
    by (simp add: create_profile_def requires_object_def update_object_def update_array_def array_result_def)
qed

lemma default_profile_created:
  "\<exists>p. create_profile T eh (JObject [(''name'', JString ''Default profile''), (''selected'', JBool True)]) = Inr p"
proof -
  have "update_values eh (JObject [(''name'', JString ''Default profile''), (''selected'', JBool True)])
      (map value_t_initial profile_values) =
    Inr [\<lparr>vt_key = ''name'', vt_value = Config_string ''Default profile'',
          vt_default_value = Config_string [], vt_origin = From_json\<rparr>,
         \<lparr>vt_key = ''selected'', vt_value = Config_bool True,
          vt_default_value = Config_bool False, vt_origin = From_json\<rparr>]"
    by (simp add: profile_values_def update_value_def value_t_initial_def requires_object_def
        unmarshal_string_def requires_boolean_def json_find_def)
  from named_profile_created[OF _ _ this] show ?thesis by auto
qed

lemma missing_file_configuration:
  "\<exists>c c0. initial_configuration eh = Inr c0 \<and> create_configuration T eh missing_file = Inr c \<and>
     cfg_json c0 = JObject [] \<and> length (cfg_profiles c) = 1"
  using default_profile_created[of T eh]
  by (auto simp: create_configuration_def initial_configuration_def global_configuration_def
      create_settings_fresh create_machine_specific_def requires_object_def load_configuration_def
      missing_file_def)

theorem configuration_has_selected_profile_witness:
  "\<exists>c p. create_configuration unary_json_text loose missing_file = Inr c \<and>
     get_selected_profile (erase_profile 0 c) = Some p \<and> p \<in> set (cfg_profiles (erase_profile 0 c))"
proof -
  obtain c where c: "create_configuration unary_json_text loose missing_file = Inr c"
    using missing_file_configuration by blast
  have "configuration_reachable unary_json_text (erase_profile 0 c)"
    by (intro cr_erase cr_create[OF c])
  from configuration_has_selected_profile[OF this] c show ?thesis by blast
qed

theorem select_profile_selects_one_witness:
  "\<exists>c. create_configuration unary_json_text loose missing_file = Inr c \<and>
     get_selected_profile (select_profile 0 c) = Some (set_selected True (cfg_profiles c ! 0)) \<and>
     map get_selected (cfg_profiles (select_profile 0 c)) = map (\<lambda>n. n = 0) [0..<length (cfg_profiles c)]"
proof -
  obtain c where c: "create_configuration unary_json_text loose missing_file = Inr c" "length (cfg_profiles c) = 1"
    using missing_file_configuration[of loose unary_json_text] by blast
  from select_profile_selects_one[OF cr_create[OF c(1)], of 0] c show ?thesis by auto
qed

text \<open>A file whose second profile is not an object.\<close>

definition broken_profile_file :: config_file where
  "broken_profile_file = \<lparr>cf_exists = True, cf_owned_by_root = False, cf_owned_by_expected = True, cf_opened = True,
     cf_parsed = Inr (JObject [(''profiles'',
       JArray [JObject [(''name'', JString ''Default profile''), (''selected'', JBool True)], JNull])])\<rparr>"

theorem configuration_loaded_iff_witness:
  "\<exists>c p. create_configuration unary_json_text strict broken_profile_file = Inr c \<and>
     \<not> cfg_loaded c \<and> cfg_parse_error c \<noteq> None \<and> cfg_profiles c = [p] \<and>
     create_profile unary_json_text strict
       (JObject [(''name'', JString ''Default profile''), (''selected'', JBool True)]) = Inr p"
proof -
  obtain p where p: "create_profile unary_json_text strict
      (JObject [(''name'', JString ''Default profile''), (''selected'', JBool True)]) = Inr p"
    using default_profile_created by blast
  have bad: "\<not> reads (create_profile unary_json_text strict) JNull"
    by (auto simp: reads_def create_profile_def requires_object_def split: sum.splits)
  obtain c where c: "create_configuration unary_json_text strict broken_profile_file = Inr c"
    using p missing_file_configuration[of strict unary_json_text]
    by (cases "cfg_profiles (load_configuration unary_json_text broken_profile_file
          (projr (initial_configuration strict))) = []") (auto simp: create_configuration_def Let_def)
  from configuration_loaded_iff[OF c] c p bad show ?thesis
    by (auto simp: broken_profile_file_def file_opens_def member_reads_def absent_or_array_def member_elements_def
        json_find_def read_elements_def reads_def)
qed

definition sample_user_files :: user_files where
  "sample_user_files = \<lparr>uf_configuration = Some ''{}'', uf_backups = Some []\<rparr>"

theorem save_keeps_previous_content_witness:
  "\<forall>c. \<exists>bs'. uf_backups (sync_save_to_file unary_json_text (jt_dump unary_json_text) (2024, 2, 29) c sample_user_files) = Some bs' \<and>
    length bs' \<le> 20 \<and> map_of bs' (backup_name (2024, 2, 29)) = Some ''{}'' \<and>
    uf_configuration (sync_save_to_file unary_json_text (jt_dump unary_json_text) (2024, 2, 29) c sample_user_files) =
      Some (jt_dump unary_json_text (configuration_to_json unary_json_text c))"
proof
  fix c
  show "\<exists>bs'. uf_backups (sync_save_to_file unary_json_text (jt_dump unary_json_text) (2024, 2, 29) c sample_user_files) = Some bs' \<and>
    length bs' \<le> 20 \<and> map_of bs' (backup_name (2024, 2, 29)) = Some ''{}'' \<and>
    uf_configuration (sync_save_to_file unary_json_text (jt_dump unary_json_text) (2024, 2, 29) c sample_user_files) =
      Some (jt_dump unary_json_text (configuration_to_json unary_json_text c))"
    using save_keeps_previous_content[of sample_user_files "''{}''" "[]" unary_json_text
        "jt_dump unary_json_text" "(2024, 2, 29)" c]
    by (simp add: sample_user_files_def members_ok_def)
qed

end
