(* ===== verification/Value_Json.thy ===== *)
theory Value_Json
  imports Json Key_Codes Event_Queue
begin

text \<open>
  The JSON form of the value types of \<open>src/share/types\<close>: momentary switch events, modifier flags,
  sticky modifier types, pointing motions, mouse keys, variable values, set_variable,
  notification messages, software functions and virtual HID device states, and the input source
  specifiers of the bundled \<open>pqrs/osx/input_source_selector\<close>.

  Reading an expression compiles it and keeps the object in the shared heap, so a reading passes
  a loader, the world with the next free expression id. A reading that throws gives an error and no
  loader: the objects it created are released with it. The theory shows that what is written is
  read back.
\<close>

subsection \<open>Readings\<close>

record loader =
  ld_world :: world
  ld_next :: expression_id

type_synonym 'a reading = "loader \<Rightarrow> json_error + 'a \<times> loader"

definition rd_return :: "'a \<Rightarrow> 'a reading" where
  "rd_return x l = Inr (x, l)"

definition rd_throw :: "json_error \<Rightarrow> 'a reading" where
  "rd_throw e l = Inl e"

definition rd_bind :: "'a reading \<Rightarrow> ('a \<Rightarrow> 'b reading) \<Rightarrow> 'b reading" where
  "rd_bind m f l = ok_bind (m l) (\<lambda>r. f (fst r) (snd r))"

definition rd_lift :: "json_error + 'a \<Rightarrow> 'a reading" where
  "rd_lift r l = ok_bind r (\<lambda>x. Inr (x, l))"

definition rd_rethrow :: "message \<Rightarrow> 'a reading \<Rightarrow> 'a reading" where
  "rd_rethrow m r l = rethrow_with m (r l)"

text \<open>The range-based loops: every element changes what was read so far, or the loop throws.\<close>

fun rd_fold :: "('j \<Rightarrow> 's \<Rightarrow> 's reading) \<Rightarrow> 'j list \<Rightarrow> 's \<Rightarrow> 's reading" where
  "rd_fold f [] s = rd_return s"
| "rd_fold f (j # js) s = rd_bind (f j s) (rd_fold f js)"

fun rd_map :: "('j \<Rightarrow> 'a reading) \<Rightarrow> 'j list \<Rightarrow> 'a list reading" where
  "rd_map f [] = rd_return []"
| "rd_map f (j # js) = rd_bind (f j) (\<lambda>x. rd_bind (rd_map f js) (\<lambda>xs. rd_return (x # xs)))"

fun ok_items :: "(string \<Rightarrow> json \<Rightarrow> 's \<Rightarrow> json_error + 's) \<Rightarrow> (string \<times> json) list \<Rightarrow> 's \<Rightarrow> json_error + 's" where
  "ok_items f [] s = Inr s"
| "ok_items f ((k, v) # ms) s = ok_bind (f k v s) (ok_items f ms)"

lemma rd_simps [simp]:
  "rd_return x l = Inr (y, l') \<longleftrightarrow> y = x \<and> l' = l"
  "rd_throw e l \<noteq> Inr z"
  "rd_bind m f l = Inr z \<longleftrightarrow> (\<exists>x l'. m l = Inr (x, l') \<and> f x l' = Inr z)"
  "rd_lift r l = Inr (y, l') \<longleftrightarrow> r = Inr y \<and> l' = l"
  "rd_rethrow msg m l = Inr w \<longleftrightarrow> m l = Inr w"
  by (auto simp: rd_return_def rd_throw_def rd_bind_def rd_lift_def rd_rethrow_def)

lemma rd_fold_invariant:
  assumes "rd_fold f js s l = Inr (s', l')" "Q s"
    and "\<And>j s l s' l'. j \<in> set js \<Longrightarrow> f j s l = Inr (s', l') \<Longrightarrow> Q s \<Longrightarrow> Q s'"
  shows "Q s'"
  using assms
proof (induction js arbitrary: s l)
  case (Cons j js)
  then obtain s1 l1 where "f j s l = Inr (s1, l1)" "rd_fold f js s1 l1 = Inr (s', l')" by auto
  with Cons show ?case by (meson list.set_intros)
qed simp

lemma rd_map_all:
  assumes "rd_map f js l = Inr (xs, l')" "\<And>j l x l'. j \<in> set js \<Longrightarrow> f j l = Inr (x, l') \<Longrightarrow> Q x"
  shows "list_all Q xs"
  using assms
proof (induction js arbitrary: l xs)
  case (Cons j js)
  then obtain x l1 ys where "f j l = Inr (x, l1)" "rd_map f js l1 = Inr (ys, l')" "xs = x # ys" by auto
  with Cons show ?case by (auto simp del: rd_map.simps) (metis list.set_intros)+
qed simp

subsection \<open>Fields and messages\<close>

definition number_field :: "string \<Rightarrow> (json \<Rightarrow> json_error + 'a) \<Rightarrow> json \<Rightarrow> json_error + 'a" where
  "number_field k get v = ok_bind (requires_number v (backquoted k)) (\<lambda>_. get v)"

definition string_field :: "string \<Rightarrow> json \<Rightarrow> json_error + string" where
  "string_field k v = ok_bind (requires_string v (backquoted k)) (\<lambda>_. json_get_string v)"

definition boolean_field :: "string \<Rightarrow> json \<Rightarrow> json_error + bool" where
  "boolean_field k v = ok_bind (requires_boolean v (backquoted k)) (\<lambda>_. json_get_bool v)"

definition plain_string :: "json \<Rightarrow> json_error + string" where
  "plain_string j = ok_bind (requires_string j ''json'') (\<lambda>_. json_get_string j)"

definition unknown_key :: "string \<Rightarrow> json_error" where
  "unknown_key k = Unmarshal_error [Text (''unknown key: '' @ backquoted k)]"

definition unknown_key_in :: "string \<Rightarrow> json \<Rightarrow> json_error" where
  "unknown_key_in k j = Unmarshal_error [Text (''unknown key '' @ backquoted k @ '' in `''), Dump j, Text ''`'']"

definition unknown_value :: "string \<Rightarrow> string \<Rightarrow> json_error" where
  "unknown_value what s = Unmarshal_error [Text (''unknown '' @ what @ '': '' @ backquoted s)]"

definition at_key :: "string \<Rightarrow> message" where
  "at_key k = [Text (backquoted k @ '' error: '')]"

definition at_entry :: "string \<Rightarrow> message" where
  "at_entry k = [Text (backquoted k @ '' entry error: '')]"

lemma field_Inr [simp]:
  "number_field k get v = Inr x \<longleftrightarrow> json_is_number v \<and> get v = Inr x"
  "string_field k v = Inr s \<longleftrightarrow> v = JString s"
  "boolean_field k v = Inr b \<longleftrightarrow> v = JBool b"
  "plain_string v = Inr s \<longleftrightarrow> v = JString s"
  by (cases v; auto simp: number_field_def string_field_def boolean_field_def plain_string_def)+

subsection \<open>momentary_switch_event\<close>

definition usage_pair_from_json :: "string \<Rightarrow> json \<Rightarrow> json_error + usage_pair" where
  "usage_pair_from_json k v =
     (let get = (\<lambda>x. case mse_from_json_item k x of
                         Some p \<Rightarrow> Inr p
                       | None \<Rightarrow> Inl (Unmarshal_error [Text (''unknown '' @ k @ '': `''), Dump v, Text ''`'']))
      in if json_is_string v then ok_bind (json_get_string v) (\<lambda>s. get (Json_string s))
         else if json_is_number v then ok_bind (json_get_int v) (\<lambda>n. get (Json_number n))
         else Inl (Unmarshal_error
                     [Text (backquoted k @ '' must be string or number, but is `''), Dump v, Text ''`'']))"

definition mse_keys :: "string list" where
  "mse_keys =
     [''key_code'', ''consumer_key_code'', ''apple_vendor_keyboard_key_code'',
      ''apple_vendor_top_case_key_code'', ''generic_desktop'', ''pointing_button'']"

definition momentary_switch_event_from_json :: "json \<Rightarrow> json_error + momentary_switch_event" where
  "momentary_switch_event_from_json j =
     ok_bind (requires_object j ''json'') (\<lambda>_.
     ok_items (\<lambda>k v e. if k \<in> set mse_keys
                        then ok_bind (usage_pair_from_json k v) (\<lambda>p. Inr (MSE p))
                        else Inl (unknown_key k))
       (json_items j) (mse page_undefined usage_undefined))"

text \<open>An event that is in no table is written as a string.\<close>

definition momentary_switch_event_to_json :: "momentary_switch_event \<Rightarrow> json" where
  "momentary_switch_event_to_json e =
     (case mse_to_json e of None \<Rightarrow> JString ''unsupported'' | Some (k, n) \<Rightarrow> JObject [(k, JString n)])"

subsection \<open>modifier_flag, sticky_modifier_type\<close>

definition modifier_flag_to_json :: "modifier_flag \<Rightarrow> json" where
  "modifier_flag_to_json f = (case get_modifier_flag_name f of Some n \<Rightarrow> JString n | None \<Rightarrow> JNull)"

definition modifier_flag_from_json :: "json \<Rightarrow> json_error + modifier_flag" where
  "modifier_flag_from_json j =
     ok_bind (plain_string j) (\<lambda>s.
     case find (\<lambda>f. get_modifier_flag_name f = Some s) (mf_zero # all_modifier_flags) of
       Some f \<Rightarrow> Inr f
     | None \<Rightarrow> Inl (unknown_value ''modifier_flag'' s))"

fun sticky_modifier_type_to_json :: "sticky_modifier_type \<Rightarrow> json" where
  "sticky_modifier_type_to_json sm_on = JString ''on''"
| "sticky_modifier_type_to_json sm_off = JString ''off''"
| "sticky_modifier_type_to_json sm_toggle = JString ''toggle''"

definition sticky_modifier_type_from_json :: "json \<Rightarrow> json_error + sticky_modifier_type" where
  "sticky_modifier_type_from_json j =
     ok_bind (plain_string j) (\<lambda>s.
     if s = ''on'' then Inr sm_on
     else if s = ''off'' then Inr sm_off
     else if s = ''toggle'' then Inr sm_toggle
     else Inl (unknown_value ''value'' s))"

subsection \<open>pointing_motion, mouse_key\<close>

definition pointing_motion_to_json :: "pointing_motion \<Rightarrow> json" where
  "pointing_motion_to_json m =
     json_set ''horizontal_wheel'' (JInt (pm_horizontal_wheel m))
       (json_set ''vertical_wheel'' (JInt (pm_vertical_wheel m))
         (json_set ''y'' (JInt (pm_y m)) (json_set ''x'' (JInt (pm_x m)) JNull)))"

definition pointing_motion_item :: "string \<Rightarrow> json \<Rightarrow> pointing_motion \<Rightarrow> json_error + pointing_motion" where
  "pointing_motion_item k v m =
     (if k = ''x'' then ok_bind (number_field k json_get_int v) (\<lambda>n. Inr (m\<lparr>pm_x := n\<rparr>))
      else if k = ''y'' then ok_bind (number_field k json_get_int v) (\<lambda>n. Inr (m\<lparr>pm_y := n\<rparr>))
      else if k = ''vertical_wheel''
      then ok_bind (number_field k json_get_int v) (\<lambda>n. Inr (m\<lparr>pm_vertical_wheel := n\<rparr>))
      else if k = ''horizontal_wheel''
      then ok_bind (number_field k json_get_int v) (\<lambda>n. Inr (m\<lparr>pm_horizontal_wheel := n\<rparr>))
      else Inr m)"

definition pointing_motion_default :: pointing_motion where
  "pointing_motion_default = \<lparr>pm_x = 0, pm_y = 0, pm_vertical_wheel = 0, pm_horizontal_wheel = 0\<rparr>"

definition pointing_motion_from_json :: "json \<Rightarrow> json_error + pointing_motion" where
  "pointing_motion_from_json j =
     ok_bind (requires_object j ''json'') (\<lambda>_.
     ok_items pointing_motion_item (json_items j) pointing_motion_default)"

definition mouse_key_to_json :: "mouse_key \<Rightarrow> json" where
  "mouse_key_to_json m =
     json_set ''speed_multiplier'' (JFloat (mk_speed_multiplier m))
       (json_set ''horizontal_wheel'' (JInt (mk_horizontal_wheel m))
         (json_set ''vertical_wheel'' (JInt (mk_vertical_wheel m))
           (json_set ''y'' (JInt (mk_y m)) (json_set ''x'' (JInt (mk_x m)) JNull))))"

definition mouse_key_item :: "string \<Rightarrow> json \<Rightarrow> mouse_key \<Rightarrow> json_error + mouse_key" where
  "mouse_key_item k v m =
     (if k = ''x'' then ok_bind (number_field k json_get_int v) (\<lambda>n. Inr (m\<lparr>mk_x := n\<rparr>))
      else if k = ''y'' then ok_bind (number_field k json_get_int v) (\<lambda>n. Inr (m\<lparr>mk_y := n\<rparr>))
      else if k = ''vertical_wheel''
      then ok_bind (number_field k json_get_int v) (\<lambda>n. Inr (m\<lparr>mk_vertical_wheel := n\<rparr>))
      else if k = ''horizontal_wheel''
      then ok_bind (number_field k json_get_int v) (\<lambda>n. Inr (m\<lparr>mk_horizontal_wheel := n\<rparr>))
      else if k = ''speed_multiplier''
      then ok_bind (number_field k json_get_double v) (\<lambda>r. Inr (m\<lparr>mk_speed_multiplier := r\<rparr>))
      else Inl (unknown_key k))"

definition mouse_key_from_json :: "json \<Rightarrow> json_error + mouse_key" where
  "mouse_key_from_json j =
     ok_bind (requires_object j ''json'') (\<lambda>_. ok_items mouse_key_item (json_items j) mouse_key_default)"

subsection \<open>Variable values and set_variable\<close>

fun variable_value_to_json :: "variable_value \<Rightarrow> json" where
  "variable_value_to_json (Var_int n) = JInt n"
| "variable_value_to_json (Var_bool b) = JBool b"
| "variable_value_to_json (Var_string s) = JString s"

definition variable_value_from_json :: "json \<Rightarrow> json_error + variable_value" where
  "variable_value_from_json j =
     (if json_is_number j then ok_bind (json_get_int64 j) (\<lambda>n. Inr (Var_int n))
      else if json_is_boolean j then ok_bind (json_get_bool j) (\<lambda>b. Inr (Var_bool b))
      else if json_is_string j then ok_bind (json_get_string j) (\<lambda>s. Inr (Var_string s))
      else Inl (Unmarshal_error
                  [Text ''json must be number, boolean or string, but is `'', Dump j, Text ''`'']))"

text \<open>\<open>compile\<close> and the first evaluation, whose NaN shows that the expression is not valid.\<close>

definition unmarshal_expression_string :: "platform \<Rightarrow> string \<Rightarrow> json \<Rightarrow> expression_id reading" where
  "unmarshal_expression_string P k j l =
     ok_bind (unmarshal_string k j) (\<lambda>s.
     case ew_value P (compile_expression P s) of
       (v, e) \<Rightarrow>
         (if double_isnan v
          then Inl (Unmarshal_error [Text (backquoted k @ '' error: invalid expression `''), Dump j, Text ''`''])
          else Inr (ld_next l,
                    \<lparr>ld_world = (ld_world l)\<lparr>w_expressions := (w_expressions (ld_world l))(ld_next l \<mapsto> e)\<rparr>,
                     ld_next = Suc (ld_next l)\<rparr>)))"

definition set_variable_default :: set_variable where
  "set_variable_default =
     \<lparr>sv_name = None, sv_value = None, sv_expression = None, sv_key_up_value = None,
      sv_key_up_expression = None, sv_type = sv_set\<rparr>"

definition set_variable_item :: "platform \<Rightarrow> string \<times> json \<Rightarrow> set_variable \<Rightarrow> set_variable reading" where
  "set_variable_item P kv m =
     (case kv of (k, v) \<Rightarrow>
        if k = ''name''
        then rd_bind (rd_lift (string_field k v)) (\<lambda>s. rd_return (m\<lparr>sv_name := Some s\<rparr>))
        else if k = ''value''
        then rd_bind (rd_lift (variable_value_from_json v)) (\<lambda>x. rd_return (m\<lparr>sv_value := Some x\<rparr>))
        else if k = ''expression''
        then rd_bind (unmarshal_expression_string P k v) (\<lambda>i. rd_return (m\<lparr>sv_expression := Some i\<rparr>))
        else if k = ''key_up_value''
        then rd_bind (rd_lift (variable_value_from_json v)) (\<lambda>x. rd_return (m\<lparr>sv_key_up_value := Some x\<rparr>))
        else if k = ''key_up_expression''
        then rd_bind (unmarshal_expression_string P k v) (\<lambda>i. rd_return (m\<lparr>sv_key_up_expression := Some i\<rparr>))
        else if k = ''type''
        then rd_bind (rd_lift (string_field k v)) (\<lambda>s.
             if s = ''set'' then rd_return (m\<lparr>sv_type := sv_set\<rparr>)
             else if s = ''unset'' then rd_return (m\<lparr>sv_type := sv_unset\<rparr>)
             else rd_throw (unknown_value ''type'' s))
        else rd_throw (unknown_key k))"

definition set_variable_from_json :: "platform \<Rightarrow> json \<Rightarrow> set_variable reading" where
  "set_variable_from_json P j =
     rd_bind (rd_lift (requires_object j ''json'')) (\<lambda>_.
     rd_fold (set_variable_item P) (json_items j) set_variable_default)"

definition set_if :: "string \<Rightarrow> json option \<Rightarrow> json \<Rightarrow> json" where
  "set_if k v j = (case v of Some x \<Rightarrow> json_set k x j | None \<Rightarrow> j)"

definition expression_to_json :: "world \<Rightarrow> expression_id option \<Rightarrow> json option" where
  "expression_to_json w x =
     (case x of
        None \<Rightarrow> None
      | Some i \<Rightarrow> map_option (\<lambda>e. marshal_string (ew_expression_string e)) (w_expressions w i))"

fun set_variable_type_name :: "set_variable_type \<Rightarrow> string" where
  "set_variable_type_name sv_set = ''set''"
| "set_variable_type_name sv_unset = ''unset''"

definition set_variable_to_json :: "world \<Rightarrow> set_variable \<Rightarrow> json" where
  "set_variable_to_json w m =
     json_set ''type'' (JString (set_variable_type_name (sv_type m)))
       (set_if ''key_up_expression'' (expression_to_json w (sv_key_up_expression m))
         (set_if ''key_up_value'' (map_option variable_value_to_json (sv_key_up_value m))
           (set_if ''expression'' (expression_to_json w (sv_expression m))
             (set_if ''value'' (map_option variable_value_to_json (sv_value m))
               (set_if ''name'' (map_option JString (sv_name m)) (JObject []))))))"

subsection \<open>notification_message\<close>

definition notification_message_to_json :: "notification_message \<Rightarrow> json" where
  "notification_message_to_json m = JObject [(''id'', JString (nm_id m)), (''text'', JString (nm_text m))]"

text \<open>The field names of these messages are not quoted.\<close>

definition notification_message_item ::
    "string \<Rightarrow> json \<Rightarrow> notification_message \<Rightarrow> json_error + notification_message" where
  "notification_message_item k v m =
     (if k = ''id''
      then ok_bind (requires_string v k) (\<lambda>_. ok_bind (json_get_string v) (\<lambda>s. Inr (m\<lparr>nm_id := s\<rparr>)))
      else if k = ''text''
      then ok_bind (requires_string v k) (\<lambda>_. ok_bind (json_get_string v) (\<lambda>s. Inr (m\<lparr>nm_text := s\<rparr>)))
      else Inl (unknown_key k))"

definition notification_message_from_json :: "json \<Rightarrow> json_error + notification_message" where
  "notification_message_from_json j =
     ok_bind (requires_object j ''json'') (\<lambda>_.
     ok_items notification_message_item (json_items j) \<lparr>nm_id = [], nm_text = []\<rparr>)"

subsection \<open>virtual_hid_devices_state\<close>

definition virtual_hid_devices_state_to_json :: "virtual_hid_devices_state \<Rightarrow> json" where
  "virtual_hid_devices_state_to_json s =
     json_set ''virtual_hid_pointing_ready'' (JBool (virtual_hid_pointing_ready s))
       (json_set ''virtual_hid_keyboard_ready'' (JBool (virtual_hid_keyboard_ready s)) JNull)"

definition virtual_hid_devices_state_item ::
    "string \<Rightarrow> json \<Rightarrow> virtual_hid_devices_state \<Rightarrow> json_error + virtual_hid_devices_state" where
  "virtual_hid_devices_state_item k v s =
     (if k = ''virtual_hid_keyboard_ready''
      then ok_bind (boolean_field k v) (\<lambda>b. Inr (s\<lparr>virtual_hid_keyboard_ready := b\<rparr>))
      else if k = ''virtual_hid_pointing_ready''
      then ok_bind (boolean_field k v) (\<lambda>b. Inr (s\<lparr>virtual_hid_pointing_ready := b\<rparr>))
      else Inl (unknown_key k))"

definition virtual_hid_devices_state_from_json :: "json \<Rightarrow> json_error + virtual_hid_devices_state" where
  "virtual_hid_devices_state_from_json j =
     ok_bind (requires_object j ''json'') (\<lambda>_.
     ok_items virtual_hid_devices_state_item (json_items j)
       \<lparr>virtual_hid_keyboard_ready = False, virtual_hid_pointing_ready = False\<rparr>)"

subsection \<open>Input source specifiers\<close>

definition specifier_to_json :: "input_source_specifier \<Rightarrow> json" where
  "specifier_to_json s =
     set_if ''input_mode_id'' (map_option JString (iss_input_mode_id s))
       (set_if ''input_source_id'' (map_option JString (iss_input_source_id s))
         (set_if ''language'' (map_option JString (iss_language s)) (JObject [])))"

text \<open>A string that is no regular expression is refused.\<close>

definition regex_field :: "platform \<Rightarrow> string \<Rightarrow> json \<Rightarrow> json_error + string" where
  "regex_field P k v =
     ok_bind (string_field k v) (\<lambda>s.
     case pf_regex_error P s of
       None \<Rightarrow> Inr s
     | Some what \<Rightarrow> Inl (Unmarshal_error [Text (what @ '': `\"'' @ k @ ''\":''), Dump v, Text ''`'']))"

definition specifier_item ::
    "platform \<Rightarrow> string \<Rightarrow> json \<Rightarrow> input_source_specifier \<Rightarrow> json_error + input_source_specifier" where
  "specifier_item P k v s =
     (if k = ''language'' then ok_bind (regex_field P k v) (\<lambda>r. Inr (s\<lparr>iss_language := Some r\<rparr>))
      else if k = ''input_source_id''
      then ok_bind (regex_field P k v) (\<lambda>r. Inr (s\<lparr>iss_input_source_id := Some r\<rparr>))
      else if k = ''input_mode_id''
      then ok_bind (regex_field P k v) (\<lambda>r. Inr (s\<lparr>iss_input_mode_id := Some r\<rparr>))
      else Inl (unknown_key k))"

definition specifier_from_json :: "platform \<Rightarrow> json \<Rightarrow> json_error + input_source_specifier" where
  "specifier_from_json P j =
     ok_bind (requires_object j ''json'') (\<lambda>_.
     ok_items (specifier_item P) (json_items j)
       \<lparr>iss_language = None, iss_input_source_id = None, iss_input_mode_id = None\<rparr>)"

subsection \<open>software_function\<close>

definition is_space :: "char \<Rightarrow> bool" where
  "is_space c \<longleftrightarrow> c \<in> set [CHR '' '', CHR 0x09, CHR 0x0A, CHR 0x0B, CHR 0x0C, CHR 0x0D]"

definition is_digit :: "char \<Rightarrow> bool" where
  "is_digit c \<longleftrightarrow> 48 \<le> (of_char c :: nat) \<and> (of_char c :: nat) \<le> 57"

definition digits_value :: "string \<Rightarrow> int" where
  "digits_value ds = foldl (\<lambda>n c. 10 * n + (of_char c - 48)) 0 ds"

text \<open>\<open>std::stoi\<close> skips white space and ignores what follows the digits; \<open>None\<close> is an exception.\<close>

definition stoi :: "string \<Rightarrow> int option" where
  "stoi s =
     (let t = dropWhile is_space s;
          u = (case t of c # cs \<Rightarrow> if c = CHR ''-'' \<or> c = CHR ''+'' then cs else t | [] \<Rightarrow> t);
          ds = takeWhile is_digit u;
          n = (if t \<noteq> [] \<and> hd t = CHR ''-'' then - digits_value ds else digits_value ds)
      in if ds = [] \<or> n < - (2 ^ 31) \<or> n \<ge> 2 ^ 31 then None else Some n)"

definition matches_percent :: "string \<Rightarrow> bool" where
  "matches_percent s \<longleftrightarrow>
     length s \<ge> 2 \<and> last s = CHR ''%'' \<and> list_all is_digit (butlast s)"

definition position_value_from_json :: "json \<Rightarrow> json_error + int \<times> position_type" where
  "position_value_from_json j =
     (if json_is_number j then ok_bind (json_get_int j) (\<lambda>n. Inr (n, pos_point))
      else if json_is_string j
      then ok_bind (json_get_string j) (\<lambda>s.
           case (if matches_percent s then map_option (\<lambda>n. (n, pos_percent)) (stoi (butlast s))
                 else map_option (\<lambda>n. (n, pos_point)) (stoi s)) of
             Some p \<Rightarrow> Inr p
           | None \<Rightarrow> Inl (Unmarshal_error [Text (''unsupported format: '' @ backquoted s)]))
      else Inl (Unmarshal_error [Text ''json must be number or string, but is `'', Dump j, Text ''`'']))"

fun decimal :: "nat \<Rightarrow> string" where
  "decimal n =
     (if n < 10 then [char_of (48 + n)] else decimal (n div 10) @ [char_of (48 + n mod 10)])"

declare decimal.simps [simp del]

definition decimal_int :: "int \<Rightarrow> string" where
  "decimal_int n = (if n < 0 then CHR ''-'' # decimal (nat (- n)) else decimal (nat n))"

definition position_value_to_json :: "int \<times> position_type \<Rightarrow> json" where
  "position_value_to_json p =
     (case snd p of pos_point \<Rightarrow> JInt (fst p) | pos_percent \<Rightarrow> JString (decimal_int (fst p) @ ''%''))"

text \<open>\<open>point_value\<close>: the multiplication is in \<open>int\<close>, the division truncates.\<close>

definition point_value :: "int \<Rightarrow> int \<times> position_type \<Rightarrow> int" where
  "point_value bounds p =
     (case snd p of
        pos_point \<Rightarrow> fst p
      | pos_percent \<Rightarrow> sgn (bounds * fst p) * (\<bar>bounds * fst p\<bar> div 100))"

definition uint32_of :: "int \<Rightarrow> nat" where
  "uint32_of n = nat (n mod 2 ^ 32)"


definition cg_event_double_click_item :: "string \<Rightarrow> json \<Rightarrow> nat \<Rightarrow> json_error + nat" where
  "cg_event_double_click_item k v b =
     (if k = ''button'' then ok_bind (number_field k json_get_int v) (\<lambda>n. Inr (uint32_of n))
      else Inl (unknown_key k))"

definition cg_event_double_click_from_json :: "json \<Rightarrow> json_error + software_function" where
  "cg_event_double_click_from_json j =
     ok_bind (requires_object j ''json'') (\<lambda>_.
     ok_bind (ok_items cg_event_double_click_item (json_items j) 0) (\<lambda>b.
     Inr (Sf_cg_event_double_click b)))"

definition sleep_system_item :: "string \<Rightarrow> json \<Rightarrow> milliseconds \<Rightarrow> json_error + milliseconds" where
  "sleep_system_item k v d =
     (if k = ''delay_milliseconds'' then number_field k json_get_int v else Inl (unknown_key k))"

definition iokit_power_management_sleep_system_from_json :: "json \<Rightarrow> json_error + software_function" where
  "iokit_power_management_sleep_system_from_json j =
     ok_bind (requires_object j ''json'') (\<lambda>_.
     ok_bind (ok_items sleep_system_item (json_items j) 500) (\<lambda>d.
     Inr (Sf_iokit_power_management_sleep_system d)))"

type_synonym open_application = "string option \<times> string option \<times> nat option"

definition open_application_item ::
    "string \<Rightarrow> json \<Rightarrow> open_application \<Rightarrow> json_error + open_application" where
  "open_application_item k v a =
     (case a of (b, f, h) \<Rightarrow>
        if k = ''bundle_identifier'' then ok_bind (string_field k v) (\<lambda>s. Inr (Some s, f, h))
        else if k = ''file_path'' then ok_bind (string_field k v) (\<lambda>s. Inr (b, Some s, h))
        else if k = ''frontmost_application_history_index''
        then ok_bind (number_field k json_get_size v) (\<lambda>n. Inr (b, f, Some n))
        else Inl (unknown_key k))"

definition open_application_from_json :: "json \<Rightarrow> json_error + software_function" where
  "open_application_from_json j =
     ok_bind (requires_object j ''json'') (\<lambda>_.
     ok_bind (ok_items open_application_item (json_items j) (None, None, None)) (\<lambda>a.
     case a of (b, f, h) \<Rightarrow> Inr (Sf_open_application b f h)))"

type_synonym cursor_position = "(int \<times> position_type) \<times> (int \<times> position_type) \<times> nat option"

definition set_mouse_cursor_position_item ::
    "string \<Rightarrow> json \<Rightarrow> cursor_position \<Rightarrow> json_error + cursor_position" where
  "set_mouse_cursor_position_item k v c =
     (case c of (x, y, s) \<Rightarrow>
        if k = ''x'' then ok_bind (position_value_from_json v) (\<lambda>p. Inr (p, y, s))
        else if k = ''y'' then ok_bind (position_value_from_json v) (\<lambda>p. Inr (x, p, s))
        else if k = ''screen'' then ok_bind (number_field k json_get_int v) (\<lambda>n. Inr (x, y, Some (uint32_of n)))
        else Inl (unknown_key k))"

definition set_mouse_cursor_position_from_json :: "json \<Rightarrow> json_error + software_function" where
  "set_mouse_cursor_position_from_json j =
     ok_bind (requires_object j ''json'') (\<lambda>_.
     ok_bind (ok_items set_mouse_cursor_position_item (json_items j)
                ((0, pos_point), (0, pos_point), None)) (\<lambda>c.
     case c of (x, y, s) \<Rightarrow> Inr (Sf_set_mouse_cursor_position x y s)))"

definition software_function_item ::
    "string \<Rightarrow> json \<Rightarrow> software_function \<Rightarrow> json_error + software_function" where
  "software_function_item k v f =
     (if k = ''cg_event_double_click'' then rethrow_with (at_key k) (cg_event_double_click_from_json v)
      else if k = ''iokit_power_management_sleep_system''
      then rethrow_with (at_key k) (iokit_power_management_sleep_system_from_json v)
      else if k = ''open_application'' then rethrow_with (at_key k) (open_application_from_json v)
      else if k = ''set_mouse_cursor_position''
      then rethrow_with (at_key k) (set_mouse_cursor_position_from_json v)
      else Inl (unknown_key k))"

definition software_function_from_json :: "json \<Rightarrow> json_error + software_function" where
  "software_function_from_json j =
     ok_bind (requires_object j ''json'') (\<lambda>_. ok_items software_function_item (json_items j) Sf_none)"

text \<open>
  An object without fields is written as null, so an \<open>open_application\<close> without any field reads
  back as an error.
\<close>

fun software_function_to_json :: "software_function \<Rightarrow> json" where
  "software_function_to_json Sf_none = JNull"
| "software_function_to_json (Sf_cg_event_double_click b) =
     JObject [(''cg_event_double_click'', json_set ''button'' (JInt (int b)) JNull)]"
| "software_function_to_json (Sf_iokit_power_management_sleep_system d) =
     JObject [(''iokit_power_management_sleep_system'', json_set ''delay_milliseconds'' (JInt d) JNull)]"
| "software_function_to_json (Sf_open_application b f h) =
     JObject [(''open_application'',
       set_if ''frontmost_application_history_index'' (map_option (\<lambda>n. JInt (int n)) h)
         (set_if ''file_path'' (map_option JString f) (set_if ''bundle_identifier'' (map_option JString b) JNull)))]"
| "software_function_to_json (Sf_set_mouse_cursor_position x y s) =
     JObject [(''set_mouse_cursor_position'',
       set_if ''screen'' (map_option (\<lambda>n. JInt (int n)) s)
         (json_set ''y'' (position_value_to_json y) (json_set ''x'' (position_value_to_json x) JNull)))]"

subsection \<open>Round trips\<close>

lemma modifier_flag_round_trip:
  "f \<noteq> mf_end \<Longrightarrow> modifier_flag_from_json (modifier_flag_to_json f) = Inr f"
  by (cases f)
    (simp_all add: modifier_flag_to_json_def modifier_flag_from_json_def all_modifier_flags_def
      plain_string_def requires_string_def)

lemma sticky_modifier_type_round_trip:
  "sticky_modifier_type_from_json (sticky_modifier_type_to_json t) = Inr t"
  by (cases t) (simp_all add: sticky_modifier_type_from_json_def plain_string_def requires_string_def)

definition int32 :: "int \<Rightarrow> bool" where
  "int32 n \<longleftrightarrow> - (2 ^ 31) \<le> n \<and> n < 2 ^ 31"

lemma number_field_int [simp]: "int32 n \<Longrightarrow> number_field k json_get_int (JInt n) = Inr n"
  by (simp add: number_field_def requires_number_def int32_def int32_of_id)

lemma pointing_motion_round_trip:
  assumes "int32 (pm_x m)" "int32 (pm_y m)" "int32 (pm_vertical_wheel m)" "int32 (pm_horizontal_wheel m)"
  shows "pointing_motion_from_json (pointing_motion_to_json m) = Inr m"
  using assms
  by (simp add: pointing_motion_from_json_def pointing_motion_to_json_def json_set_def requires_object_def
      pointing_motion_item_def pointing_motion_default_def)

lemma mouse_key_round_trip:
  assumes "int32 (mk_x m)" "int32 (mk_y m)" "int32 (mk_vertical_wheel m)" "int32 (mk_horizontal_wheel m)"
  shows "mouse_key_from_json (mouse_key_to_json m) = Inr m"
  using assms
  by (simp add: mouse_key_from_json_def mouse_key_to_json_def json_set_def requires_object_def
      mouse_key_item_def mouse_key_default_def number_field_def requires_number_def int32_def int32_of_id)


lemma of_char_digit: "d < 10 \<Longrightarrow> (of_char (char_of (48 + d)) :: nat) = 48 + d" for d :: nat
  by (simp add: take_bit_nat_def)

lemma decimal_digits: "decimal n \<noteq> [] \<and> list_all is_digit (decimal n)"
proof (induction n rule: decimal.induct)
  case (1 n)
  have digit: "d < 10 \<Longrightarrow> is_digit (char_of (48 + d))" for d :: nat
    using of_char_digit[of d] by (simp add: is_digit_def del: of_char_of)
  show ?case using 1 digit[of n] digit[of "n mod 10"] by (subst (1 2) decimal.simps) simp
qed

lemma digits_value_append [simp]:
  "digits_value (ds @ [c]) = 10 * digits_value ds + (of_char c - 48)"
  by (simp add: digits_value_def)

lemma digit_value: "d < 10 \<Longrightarrow> (of_char (char_of (48 + d)) :: int) = 48 + int d" for d :: nat
  using of_char_digit[of d] by (metis of_nat_add of_nat_numeral of_nat_of_char)

lemma digits_value_decimal: "digits_value (decimal n) = int n"
proof (induction n rule: decimal.induct)
  case (1 n)
  show ?case
  proof (cases "n < 10")
    case True
    then show ?thesis
      by (subst decimal.simps) (simp add: digits_value_def digit_value del: of_char_of)
  next
    case False
    have "int (n mod 10) = int n mod 10" "int (n div 10) = int n div 10"
      by (simp_all add: zmod_int zdiv_int)
    with 1 False digit_value[of "n mod 10"] show ?thesis
      by (subst decimal.simps) (simp del: of_char_of)
  qed
qed

lemma digit_facts: "is_digit c \<Longrightarrow> \<not> is_space c \<and> c \<noteq> CHR ''-'' \<and> c \<noteq> CHR ''+''"
  by (auto simp: is_digit_def is_space_def)

lemma stoi_digits:
  assumes "ds \<noteq> []" "list_all is_digit ds" "digits_value ds < 2 ^ 31" "0 \<le> digits_value ds"
  shows "stoi ds = Some (digits_value ds)"
proof -
  obtain c cs where ds: "ds = c # cs" using assms(1) by (cases ds) auto
  then have "\<not> is_space c" "c \<noteq> CHR ''-''" "c \<noteq> CHR ''+''"
    using assms(2) digit_facts by auto
  moreover have tw: "takeWhile is_digit cs = cs"
    using assms(2) ds by (simp add: takeWhile_eq_all_conv list_all_iff)
  ultimately show ?thesis using assms ds by (simp add: stoi_def Let_def tw del: takeWhile_eq_all_conv)
qed

lemma position_value_round_trip:
  assumes "int32 (fst p)" "snd p = pos_percent \<longrightarrow> 0 \<le> fst p"
  shows "position_value_from_json (position_value_to_json p) = Inr p"
proof (cases "snd p")
  case pos_point
  then show ?thesis using assms(1)
    by (cases p) (simp add: position_value_from_json_def position_value_to_json_def int32_def int32_of_id)
next
  case pos_percent
  let ?n = "nat (fst p)"
  have "digits_value (decimal ?n) = fst p" using assms(2) pos_percent digits_value_decimal by simp
  moreover have "length (decimal ?n) \<ge> 1" using decimal_digits[of ?n] by (simp add: Suc_leI)
  ultimately show ?thesis
    using pos_percent assms decimal_digits[of ?n] stoi_digits[of "decimal ?n"]
    by (cases p) (simp add: position_value_from_json_def position_value_to_json_def decimal_int_def
        matches_percent_def int32_def)
qed

lemma uint32_of_int32: "n < 2 ^ 32 \<Longrightarrow> uint32_of (int32_of (int n)) = n"
proof -
  assume "n < 2 ^ 32"
  have "(int n + 2 ^ 31) mod 2 ^ 32 - 2 ^ 31 = int n + (- ((int n + 2 ^ 31) div 2 ^ 32)) * 2 ^ 32"
    by (simp add: minus_mult_div_eq_mod[symmetric])
  then have "((int n + 2 ^ 31) mod 2 ^ 32 - 2 ^ 31) mod 2 ^ 32 = int n mod 2 ^ 32"
    by (metis mod_mult_self1)
  then show ?thesis using \<open>n < 2 ^ 32\<close> by (simp add: uint32_of_def int32_of_def)
qed

lemma number_field_uint32:
  "n < 2 ^ 32 \<Longrightarrow> \<exists>i. number_field k json_get_int (JInt (int n)) = Inr i \<and> uint32_of i = n"
  by (simp add: number_field_def requires_number_def uint32_of_int32)

fun storable_software_function :: "software_function \<Rightarrow> bool" where
  "storable_software_function Sf_none \<longleftrightarrow> False"
| "storable_software_function (Sf_cg_event_double_click b) \<longleftrightarrow> b < 2 ^ 32"
| "storable_software_function (Sf_iokit_power_management_sleep_system d) \<longleftrightarrow> int32 d"
| "storable_software_function (Sf_open_application b f h) \<longleftrightarrow>
     (b \<noteq> None \<or> f \<noteq> None \<or> h \<noteq> None) \<and> (\<forall>n. h = Some n \<longrightarrow> n < 2 ^ 64)"
| "storable_software_function (Sf_set_mouse_cursor_position x y s) \<longleftrightarrow>
     int32 (fst x) \<and> (snd x = pos_percent \<longrightarrow> 0 \<le> fst x) \<and>
     int32 (fst y) \<and> (snd y = pos_percent \<longrightarrow> 0 \<le> fst y) \<and> (\<forall>n. s = Some n \<longrightarrow> n < 2 ^ 32)"

lemma software_function_round_trip:
  "storable_software_function f \<Longrightarrow> software_function_from_json (software_function_to_json f) = Inr f"
proof (cases f)
  case (Sf_cg_event_double_click b)
  assume "storable_software_function f"
  with Sf_cg_event_double_click show ?thesis
    by (simp add: software_function_from_json_def software_function_item_def requires_object_def
        cg_event_double_click_from_json_def cg_event_double_click_item_def json_set_def
        number_field_def requires_number_def uint32_of_int32)
next
  case (Sf_iokit_power_management_sleep_system d)
  assume "storable_software_function f"
  with Sf_iokit_power_management_sleep_system show ?thesis
    by (simp add: software_function_from_json_def software_function_item_def requires_object_def
        iokit_power_management_sleep_system_from_json_def sleep_system_item_def json_set_def)
next
  case (Sf_open_application b f' h)
  assume "storable_software_function f"
  with Sf_open_application show ?thesis
    by (cases b; cases f'; cases h;
        simp add: software_function_from_json_def software_function_item_def requires_object_def
          open_application_from_json_def open_application_item_def json_set_def set_if_def
          number_field_def requires_number_def string_field_def requires_string_def nat_mod_as_int)
next
  case (Sf_set_mouse_cursor_position x y s)
  assume "storable_software_function f"
  with Sf_set_mouse_cursor_position position_value_round_trip[of x] position_value_round_trip[of y]
  show ?thesis
    by (cases s;
        simp add: software_function_from_json_def software_function_item_def requires_object_def
          set_mouse_cursor_position_from_json_def set_mouse_cursor_position_item_def json_set_def
          set_if_def number_field_def requires_number_def uint32_of_int32)
qed simp

end
