(* ===== verification/Definition_Json.thy ===== *)
theory Definition_Json
  imports Value_Json Definitions
begin

text \<open>
  How the definitions of manipulators are read: \<open>event_definition::handle_json\<close>, the constructors of
  \<open>to_event_definition\<close> and \<open>simultaneous_options\<close>, \<open>from_json\<close> of \<open>from_modifiers_definition\<close> and
  \<open>from_event_definition\<close>, \<open>make_modifiers\<close>, the constructors of the conditions and
  \<open>src/share/manipulator/condition_factory.hpp\<close>.

  The theory shows what a definition that reads is good for: a from definition has keys to match and
  nothing else, a to definition makes an event (or is a sticky modifier without a value).
\<close>

subsection \<open>modifier_definition\<close>

definition get_modifier_definition :: "json \<Rightarrow> json_error + modifier" where
  "get_modifier_definition j =
     ok_bind (string_field ''modifier'' j) (\<lambda>s.
     case modifier_from_json s of
       Some m \<Rightarrow> Inr m
     | None \<Rightarrow> Inl (Unmarshal_error [Text (''unknown modifier: '' @ backquoted s)]))"

definition make_modifiers :: "json \<Rightarrow> json_error + modifier set" where
  "make_modifiers j =
     (case j of
        JString s \<Rightarrow> ok_bind (get_modifier_definition j) (\<lambda>m. Inr {m})
      | JArray js \<Rightarrow> ok_bind (map_ok get_modifier_definition js) (\<lambda>ms. Inr (set ms))
      | _ \<Rightarrow> Inl (Unmarshal_error [Text ''json must be array or string, but is `'', Dump j, Text ''`'']))"

definition from_modifiers_item ::
    "json \<Rightarrow> string \<Rightarrow> json \<Rightarrow> from_modifiers_definition \<Rightarrow> json_error + from_modifiers_definition" where
  "from_modifiers_item j k v d =
     (if k = ''mandatory''
      then ok_bind (rethrow_with (at_key k) (make_modifiers v)) (\<lambda>ms. Inr (d\<lparr>fmd_mandatory_modifiers := ms\<rparr>))
      else if k = ''optional''
      then ok_bind (rethrow_with (at_key k) (make_modifiers v)) (\<lambda>ms. Inr (d\<lparr>fmd_optional_modifiers := ms\<rparr>))
      else if k = ''description'' then Inr d
      else Inl (unknown_key_in k j))"

definition from_modifiers_default :: from_modifiers_definition where
  "from_modifiers_default = \<lparr>fmd_mandatory_modifiers = {}, fmd_optional_modifiers = {}\<rparr>"

definition from_modifiers_from_json :: "json \<Rightarrow> json_error + from_modifiers_definition" where
  "from_modifiers_from_json j =
     ok_bind (requires_object j ''json'') (\<lambda>_.
     ok_items (from_modifiers_item j) (json_items j) from_modifiers_default)"

subsection \<open>event_definition\<close>

datatype definition_type =
    Dt_none | Dt_momentary_switch_event | Dt_any | Dt_shell_command | Dt_select_input_source
  | Dt_set_variable | Dt_set_notification_message | Dt_mouse_key | Dt_sticky_modifier
  | Dt_software_function

text \<open>While a definition is read, its \<open>type_\<close> and \<open>value_\<close> are set one after the other.\<close>

record definition_state =
  ds_type :: definition_type
  ds_value :: event_definition

definition definition_state_initial :: definition_state where
  "definition_state_initial = \<lparr>ds_type = Dt_none, ds_value = Ed_none\<rparr>"

definition check_type :: "json \<Rightarrow> definition_state \<Rightarrow> json_error + unit" where
  "check_type j d =
     (if ds_type d \<noteq> Dt_none
      then Inl (Unmarshal_error [Text ''multiple types are specified: `'', Dump j, Text ''`''])
      else Inr ())"

definition any_type_names :: "(string \<times> any_type) list" where
  "any_type_names =
     [(''key_code'', any_key_code), (''consumer_key_code'', any_consumer_key_code),
      (''apple_vendor_keyboard_key_code'', any_apple_vendor_keyboard_key_code),
      (''apple_vendor_top_case_key_code'', any_apple_vendor_top_case_key_code),
      (''pointing_button'', any_pointing_button)]"

definition any_type_from_json :: "string \<Rightarrow> json \<Rightarrow> json_error + any_type" where
  "any_type_from_json k v =
     ok_bind (string_field k v) (\<lambda>s.
     case map_of any_type_names s of
       Some t \<Rightarrow> Inr t
     | None \<Rightarrow> Inl (Unmarshal_error [Text (''unknown '' @ backquoted k @ '': `''), Dump v, Text ''`'']))"

definition input_source_specifiers_from_json ::
    "platform \<Rightarrow> string \<Rightarrow> json \<Rightarrow> json_error + input_source_specifier list" where
  "input_source_specifiers_from_json P k v =
     (case v of
        JObject _ \<Rightarrow> rethrow_with (at_key k) (ok_bind (specifier_from_json P v) (\<lambda>s. Inr [s]))
      | JArray js \<Rightarrow> rethrow_with (at_key k) (map_ok (specifier_from_json P) js)
      | _ \<Rightarrow> Inl (Unmarshal_error
                  [Text (backquoted k @ '' must be object or array of objects, but is `''), Dump v, Text ''`'']))"

definition checked_set_variable :: "platform \<Rightarrow> string \<Rightarrow> json \<Rightarrow> set_variable reading" where
  "checked_set_variable P k v =
     rd_bind (rd_rethrow (at_key k) (set_variable_from_json P v)) (\<lambda>m.
     if sv_name m = None
     then rd_throw (Unmarshal_error [Text (''`'' @ k @ ''.name` is not found in `''), Dump v, Text ''`''])
     else if sv_type m = sv_set \<and> sv_value m = None \<and> sv_expression m = None
             \<and> sv_key_up_value m = None \<and> sv_key_up_expression m = None
     then rd_throw (Unmarshal_error
            [Text (''none of `'' @ k @ ''.value`, `'' @ k @ ''.expression`, `'' @ k @ ''.key_up_value`, or `''
                   @ k @ ''.key_up_expression` are not found in `''), Dump v, Text ''`''])
     else rd_return m)"

text \<open>
  The members of a sticky_modifier object: each replaces the value, so the last one wins, and an
  empty object leaves the definition without a value.
\<close>

definition sticky_modifier_item :: "string \<Rightarrow> string \<Rightarrow> json \<Rightarrow> event_definition \<Rightarrow> json_error + event_definition" where
  "sticky_modifier_item key k v d =
     rethrow_with (at_key key)
       (ok_bind (modifier_flag_from_json (JString k)) (\<lambda>f.
        ok_bind (sticky_modifier_type_from_json v) (\<lambda>t. Inr (Ed_sticky_modifier f t))))"

text \<open>A key that gives the definition its type and value.\<close>

definition take_definition ::
    "json \<Rightarrow> definition_state \<Rightarrow> definition_type \<Rightarrow> event_definition reading \<Rightarrow>
     (bool \<times> definition_state) reading" where
  "take_definition j d t r =
     rd_bind (rd_lift (check_type j d)) (\<lambda>_.
     rd_bind r (\<lambda>x. rd_return (True, \<lparr>ds_type = t, ds_value = x\<rparr>)))"

text \<open>\<open>handle_json\<close> returns whether the key was one of its own, and the changed definition.\<close>

definition handle_json ::
    "platform \<Rightarrow> string \<Rightarrow> json \<Rightarrow> json \<Rightarrow> definition_state \<Rightarrow> (bool \<times> definition_state) reading" where
  "handle_json P key v j d =
     (let own = take_definition j d
      in if key \<in> set mse_keys
         then own Dt_momentary_switch_event
                (rd_lift (rethrow_with (at_key key)
                   (ok_bind (momentary_switch_event_from_json (JObject [(key, v)]))
                      (\<lambda>e. Inr (Ed_momentary_switch_event e)))))
         else if key = ''any''
         then own Dt_any (rd_lift (ok_bind (any_type_from_json key v) (\<lambda>t. Inr (Ed_any t))))
         else if key = ''shell_command''
         then own Dt_shell_command (rd_lift (ok_bind (string_field key v) (\<lambda>s. Inr (Ed_shell_command s))))
         else if key = ''select_input_source''
         then own Dt_select_input_source
                (rd_lift (ok_bind (input_source_specifiers_from_json P key v)
                   (\<lambda>ss. Inr (Ed_select_input_source ss))))
         else if key = ''set_variable''
         then own Dt_set_variable
                (rd_bind (checked_set_variable P key v) (\<lambda>m. rd_return (Ed_set_variable m)))
         else if key = ''set_notification_message''
         then own Dt_set_notification_message
                (rd_lift (rethrow_with (at_key key)
                   (ok_bind (notification_message_from_json v) (\<lambda>m. Inr (Ed_set_notification_message m)))))
         else if key = ''mouse_key''
         then own Dt_mouse_key
                (rd_lift (rethrow_with (at_key key)
                   (ok_bind (mouse_key_from_json v) (\<lambda>m. Inr (Ed_mouse_key m)))))
         else if key = ''sticky_modifier''
         then own Dt_sticky_modifier
                (rd_lift (ok_bind (requires_object v (backquoted key)) (\<lambda>_.
                   ok_items (sticky_modifier_item key) (json_items v) (ds_value d))))
         else if key = ''software_function''
         then own Dt_software_function
                (rd_lift (rethrow_with (at_key key)
                   (ok_bind (software_function_from_json v) (\<lambda>f. Inr (Ed_software_function f)))))
         else rd_return (key = ''description'', d))"

fun type_of_definition :: "event_definition \<Rightarrow> definition_type" where
  "type_of_definition Ed_none = Dt_none"
| "type_of_definition (Ed_momentary_switch_event e) = Dt_momentary_switch_event"
| "type_of_definition (Ed_any t) = Dt_any"
| "type_of_definition (Ed_shell_command s) = Dt_shell_command"
| "type_of_definition (Ed_select_input_source ss) = Dt_select_input_source"
| "type_of_definition (Ed_set_variable v) = Dt_set_variable"
| "type_of_definition (Ed_set_notification_message m) = Dt_set_notification_message"
| "type_of_definition (Ed_mouse_key k) = Dt_mouse_key"
| "type_of_definition (Ed_sticky_modifier m t) = Dt_sticky_modifier"
| "type_of_definition Ed_sticky_modifier_without_value = Dt_sticky_modifier"
| "type_of_definition (Ed_software_function f) = Dt_software_function"

text \<open>
  The type names the alternative the value has; only a sticky modifier may be left without a value.
\<close>

definition state_ok :: "definition_state \<Rightarrow> bool" where
  "state_ok d \<longleftrightarrow>
     ds_type d = type_of_definition (ds_value d)
     \<or> ds_type d = Dt_sticky_modifier \<and> ds_value d = Ed_none"

definition definition_of_state :: "definition_state \<Rightarrow> event_definition" where
  "definition_of_state d =
     (if ds_type d = Dt_sticky_modifier \<and> ds_value d = Ed_none then Ed_sticky_modifier_without_value
      else ds_value d)"



subsection \<open>Conditions\<close>

text \<open>The \<open>type\<close> member of a condition; the kind follows from the name.\<close>

definition condition_type_from_json ::
    "string \<Rightarrow> string \<Rightarrow> json \<Rightarrow> json_error + condition_type" where
  "condition_type_from_json name k v =
     ok_bind (requires_string v k) (\<lambda>_.
     ok_bind (json_get_string v) (\<lambda>t.
     if t = name @ ''_if'' then Inr ct_if
     else if t = name @ ''_unless'' then Inr ct_unless
     else Inl (Unmarshal_error [Text (''unknown type '' @ backquoted t)])))"

definition device_condition_type_from_json :: "string \<Rightarrow> json \<Rightarrow> json_error + device_condition_type" where
  "device_condition_type_from_json k v =
     ok_bind (requires_string v k) (\<lambda>_.
     ok_bind (json_get_string v) (\<lambda>t.
     if t = ''device_if'' then Inr device_if
     else if t = ''device_unless'' then Inr device_unless
     else if t = ''device_exists_if'' then Inr device_exists_if
     else if t = ''device_exists_unless'' then Inr device_exists_unless
     else Inl (Unmarshal_error [Text (''unknown type '' @ backquoted t)])))"

definition device_definition_empty :: device_definition where
  "device_definition_empty =
     \<lparr>dd_vendor_id = None, dd_product_id = None, dd_location_id = None, dd_device_address = None,
      dd_is_keyboard = None, dd_is_pointing_device = None, dd_is_game_pad = None, dd_is_consumer = None,
      dd_is_touch_bar = None, dd_is_built_in_keyboard = None\<rparr>"

definition identifiers_entry :: "string \<Rightarrow> string" where
  "identifiers_entry k = ''identifiers entry '' @ backquoted k"

definition entry_boolean :: "string \<Rightarrow> json \<Rightarrow> json_error + bool" where
  "entry_boolean k v = ok_bind (requires_boolean v (identifiers_entry k)) (\<lambda>_. json_get_bool v)"

text \<open>A location id is read as \<open>int\<close> and converted to the unsigned 64-bit type.\<close>

definition device_definition_item ::
    "json \<Rightarrow> string \<Rightarrow> json \<Rightarrow> device_definition \<Rightarrow> json_error + device_definition" where
  "device_definition_item j k v d =
     (if k = ''vendor_id''
      then ok_bind (requires_number v (identifiers_entry k)) (\<lambda>_.
           ok_bind (json_get_uint64 v) (\<lambda>n. Inr (d\<lparr>dd_vendor_id := Some n\<rparr>)))
      else if k = ''product_id''
      then ok_bind (requires_number v (identifiers_entry k)) (\<lambda>_.
           ok_bind (json_get_uint64 v) (\<lambda>n. Inr (d\<lparr>dd_product_id := Some n\<rparr>)))
      else if k = ''location_id''
      then ok_bind (requires_number v (identifiers_entry k)) (\<lambda>_.
           ok_bind (json_get_int v) (\<lambda>n. Inr (d\<lparr>dd_location_id := Some (n mod 2 ^ 64)\<rparr>)))
      else if k = ''device_address''
      then ok_bind (requires_string v (identifiers_entry k)) (\<lambda>_.
           ok_bind (json_get_string v) (\<lambda>s. Inr (d\<lparr>dd_device_address := Some s\<rparr>)))
      else if k = ''is_keyboard'' then ok_bind (entry_boolean k v) (\<lambda>b. Inr (d\<lparr>dd_is_keyboard := Some b\<rparr>))
      else if k = ''is_pointing_device''
      then ok_bind (entry_boolean k v) (\<lambda>b. Inr (d\<lparr>dd_is_pointing_device := Some b\<rparr>))
      else if k = ''is_game_pad'' then ok_bind (entry_boolean k v) (\<lambda>b. Inr (d\<lparr>dd_is_game_pad := Some b\<rparr>))
      else if k = ''is_consumer'' then ok_bind (entry_boolean k v) (\<lambda>b. Inr (d\<lparr>dd_is_consumer := Some b\<rparr>))
      else if k = ''is_touch_bar'' then ok_bind (entry_boolean k v) (\<lambda>b. Inr (d\<lparr>dd_is_touch_bar := Some b\<rparr>))
      else if k = ''is_built_in_keyboard''
      then ok_bind (entry_boolean k v) (\<lambda>b. Inr (d\<lparr>dd_is_built_in_keyboard := Some b\<rparr>))
      else if k = ''description'' then Inr d
      else Inl (unknown_key_in k j))"

text \<open>Entries without any known member are dropped.\<close>

definition handle_identifiers_json :: "json \<Rightarrow> json_error + device_definition list" where
  "handle_identifiers_json v =
     ok_bind (map_ok (\<lambda>j. ok_bind (requires_object j ''identifiers entry'') (\<lambda>_.
                         ok_items (device_definition_item j) (json_items j) device_definition_empty))
                (json_elements v)) (\<lambda>ds.
     Inr (filter device_definition_valid ds))"

definition device_condition_from_json :: "json \<Rightarrow> json_error + condition" where
  "device_condition_from_json j =
     ok_bind (requires_object j ''json'') (\<lambda>_.
     ok_bind (ok_items (\<lambda>k v c.
         if k = ''type'' then ok_bind (device_condition_type_from_json k v) (\<lambda>t. Inr (t, snd c))
         else if k = ''identifiers''
         then ok_bind (requires_array v (backquoted k)) (\<lambda>_.
              ok_bind (handle_identifiers_json v) (\<lambda>ds. Inr (fst c, snd c @ ds)))
         else if k = ''description'' then Inr c
         else Inl (unknown_key_in k j)) (json_items j) (device_if, [])) (\<lambda>c.
     Inr (C_device (fst c) (snd c))))"

text \<open>\<open>value_ = value.get<int>()\<close> of a boolean, converted back to \<open>bool\<close>.\<close>

definition not_found_in :: "string \<Rightarrow> json \<Rightarrow> json_error" where
  "not_found_in k j = Unmarshal_error [Text (backquoted k @ '' is not found in `''), Dump j, Text ''`'']"

definition event_changed_from_json :: "json \<Rightarrow> json_error + condition" where
  "event_changed_from_json j =
     ok_bind (requires_object j ''json'') (\<lambda>_.
     ok_bind (ok_items (\<lambda>k v c.
         if k = ''type''
         then ok_bind (condition_type_from_json ''event_changed'' k v) (\<lambda>t. Inr (t, snd c))
         else if k = ''value''
         then ok_bind (requires_boolean v (backquoted k)) (\<lambda>_.
              ok_bind (json_get_int v) (\<lambda>n. Inr (fst c, Some (n \<noteq> 0))))
         else if k = ''description'' then Inr c
         else Inl (unknown_key_in k j)) (json_items j) (ct_if, None)) (\<lambda>c.
     if snd c = None then Inl (not_found_in ''value'' j)
     else Inr (C_event_changed (fst c) (snd c))))"

definition expression_condition_from_json :: "platform \<Rightarrow> json \<Rightarrow> (condition_type \<times> expression_id option) reading" where
  "expression_condition_from_json P j =
     rd_bind (rd_lift (requires_object j ''json'')) (\<lambda>_.
     rd_fold (\<lambda>kv c.
         case kv of (k, v) \<Rightarrow>
           if k = ''type''
           then rd_bind (rd_lift (condition_type_from_json ''expression'' k v)) (\<lambda>t. rd_return (t, snd c))
           else if k = ''expression''
           then rd_bind (unmarshal_expression_string P k v) (\<lambda>i. rd_return (fst c, Some i))
           else if k = ''description'' then rd_return c
           else rd_throw (unknown_key_in k j)) (json_items j) (ct_if, None))"

text \<open>The strings of an array that must be regular expressions.\<close>

definition regexes_from_json :: "platform \<Rightarrow> string \<Rightarrow> json \<Rightarrow> json_error + string list" where
  "regexes_from_json P k v =
     ok_bind (requires_array v (backquoted k)) (\<lambda>_.
     map_ok (\<lambda>j. ok_bind (requires_string j (k @ '' entry'')) (\<lambda>_.
                 ok_bind (json_get_string j) (\<lambda>s.
                 case pf_regex_error P s of
                   None \<Rightarrow> Inr s
                 | Some what \<Rightarrow> Inl (Unmarshal_error [Text (what @ '': `'' @ k @ '':''), Dump v, Text ''`'']))))
       (json_elements v))"

definition frontmost_application_from_json :: "platform \<Rightarrow> json \<Rightarrow> json_error + condition" where
  "frontmost_application_from_json P j =
     ok_bind (requires_object j ''json'') (\<lambda>_.
     ok_bind (ok_items (\<lambda>k v c.
         if k = ''type''
         then ok_bind (condition_type_from_json ''frontmost_application'' k v) (\<lambda>t. Inr (c\<lparr>fa_type := t\<rparr>))
         else if k = ''bundle_identifiers''
         then ok_bind (regexes_from_json P k v) (\<lambda>rs.
              Inr (c\<lparr>fa_bundle_identifiers := fa_bundle_identifiers c @ rs\<rparr>))
         else if k = ''file_paths''
         then ok_bind (regexes_from_json P k v) (\<lambda>rs. Inr (c\<lparr>fa_file_paths := fa_file_paths c @ rs\<rparr>))
         else if k = ''description'' then Inr c
         else Inl (unknown_key_in k j)) (json_items j)
       \<lparr>fa_type = ct_if, fa_bundle_identifiers = [], fa_file_paths = [], fa_cached_result = None\<rparr>) (\<lambda>c.
     Inr (C_frontmost_application c)))"

definition input_source_from_json :: "platform \<Rightarrow> json \<Rightarrow> json_error + condition" where
  "input_source_from_json P j =
     ok_bind (requires_object j ''json'') (\<lambda>_.
     ok_bind (ok_items (\<lambda>k v c.
         if k = ''type''
         then ok_bind (condition_type_from_json ''input_source'' k v) (\<lambda>t. Inr (c\<lparr>is_type := t\<rparr>))
         else if k = ''input_sources''
         then ok_bind (requires_array v (backquoted k)) (\<lambda>_.
              ok_bind (map_ok (\<lambda>x. rethrow_with (at_entry k) (specifier_from_json P x)) (json_elements v)) (\<lambda>ss.
              Inr (c\<lparr>is_input_source_specifiers := is_input_source_specifiers c @ ss\<rparr>)))
         else if k = ''description'' then Inr c
         else Inl (unknown_key_in k j)) (json_items j)
       \<lparr>is_type = ct_if, is_input_source_specifiers = [], is_cached_result = None\<rparr>) (\<lambda>c.
     Inr (C_input_source c)))"

definition keyboard_type_from_json :: "json \<Rightarrow> json_error + condition" where
  "keyboard_type_from_json j =
     ok_bind (requires_object j ''json'') (\<lambda>_.
     ok_bind (ok_items (\<lambda>k v c.
         if k = ''type'' then ok_bind (condition_type_from_json ''keyboard_type'' k v) (\<lambda>t. Inr (t, snd c))
         else if k = ''keyboard_types''
         then ok_bind (requires_array v (backquoted k)) (\<lambda>_.
              ok_bind (map_ok (\<lambda>x. ok_bind (requires_string x ''keyboard_types entry'') (\<lambda>_. json_get_string x))
                         (json_elements v)) (\<lambda>ss.
              Inr (fst c, snd c @ ss)))
         else if k = ''description'' then Inr c
         else Inl (unknown_key_in k j)) (json_items j) (ct_if, [])) (\<lambda>c.
     Inr (C_keyboard_type (fst c) (snd c))))"

definition variable_from_json :: "json \<Rightarrow> json_error + condition" where
  "variable_from_json j =
     ok_bind (requires_object j ''json'') (\<lambda>_.
     ok_bind (ok_items (\<lambda>k v c.
         case c of (t, name, x) \<Rightarrow>
           if k = ''type'' then ok_bind (condition_type_from_json ''variable'' k v) (\<lambda>t'. Inr (t', name, x))
           else if k = ''name'' then ok_bind (string_field k v) (\<lambda>s. Inr (t, Some s, x))
           else if k = ''value'' then ok_bind (variable_value_from_json v) (\<lambda>y. Inr (t, name, Some y))
           else if k = ''description'' then Inr c
           else Inl (unknown_key_in k j)) (json_items j) (ct_if, None, None)) (\<lambda>c.
     case c of
       (t, Some name, Some x) \<Rightarrow> Inr (C_variable t name x)
     | (t, None, _) \<Rightarrow> Inl (not_found_in ''name'' j)
     | (t, Some name, None) \<Rightarrow> Inl (not_found_in ''value'' j)))"


subsection \<open>condition_factory\<close>

text \<open>
  A condition with an expression registers it with the global manager. Without an expression the
  manager gets an expired pointer, which its next walk drops, and the condition never holds.
\<close>

definition make_expression_condition :: "platform \<Rightarrow> json \<Rightarrow> condition reading" where
  "make_expression_condition P j =
     rd_bind (expression_condition_from_json P j) (\<lambda>c l.
     case snd c of
       None \<Rightarrow> rd_return (C_expression (fst c) None) l
     | Some i \<Rightarrow> rd_return (C_expression (fst c) (Some i)) (l\<lparr>ld_world := cem_insert i (ld_world l)\<rparr>))"

definition if_or_unless :: "string \<Rightarrow> string \<Rightarrow> bool" where
  "if_or_unless name t \<longleftrightarrow> t = name @ ''_if'' \<or> t = name @ ''_unless''"

definition make_condition :: "platform \<Rightarrow> json \<Rightarrow> condition reading" where
  "make_condition P j =
     (case json_find j ''type'' of
        None \<Rightarrow> rd_throw (Unmarshal_error [Text ''condition type is not specified in `'', Dump j, Text ''`''])
      | Some tj \<Rightarrow>
          rd_bind (rd_lift (requires_string tj ''condition type'')) (\<lambda>_.
          rd_bind (rd_lift (json_get_string tj)) (\<lambda>t.
          if if_or_unless ''device'' t \<or> if_or_unless ''device_exists'' t
          then rd_lift (device_condition_from_json j)
          else if if_or_unless ''event_changed'' t then rd_lift (event_changed_from_json j)
          else if if_or_unless ''expression'' t then make_expression_condition P j
          else if if_or_unless ''frontmost_application'' t then rd_lift (frontmost_application_from_json P j)
          else if if_or_unless ''input_source'' t then rd_lift (input_source_from_json P j)
          else if if_or_unless ''variable'' t then rd_lift (variable_from_json j)
          else if if_or_unless ''keyboard_type'' t then rd_lift (keyboard_type_from_json j)
          else rd_throw (Unmarshal_error
                 [Text (''unknown condition type '' @ backquoted t @ '' in `''), Dump j, Text ''`'']))))"

text \<open>The conditions the grabber makes itself, through their JSON.\<close>

definition make_device_if_condition :: "device_identifiers \<Rightarrow> json_error + condition" where
  "make_device_if_condition d =
     device_condition_from_json
       (json_set ''identifiers''
          (JArray [JObject (put_member ''is_pointing_device'' (JBool (di_is_pointing_device d))
                     (put_member ''is_keyboard'' (JBool (di_is_keyboard d))
                       (put_member ''product_id'' (JInt (di_product_id d))
                         (put_member ''vendor_id'' (JInt (di_vendor_id d)) []))))])
          (json_set ''type'' (JString ''device_if'') JNull))"

definition make_device_unless_touch_bar_condition :: "json_error + condition" where
  "make_device_unless_touch_bar_condition =
     device_condition_from_json
       (json_set ''identifiers'' (JArray [JObject [(''is_touch_bar'', JBool True)]])
          (json_set ''type'' (JString ''device_unless'') JNull))"

definition make_event_changed_if_condition :: "bool \<Rightarrow> json_error + condition" where
  "make_event_changed_if_condition b =
     event_changed_from_json
       (json_set ''value'' (JBool b) (json_set ''type'' (JString ''event_changed_if'') JNull))"

definition make_frontmost_application_unless_condition ::
    "platform \<Rightarrow> string list \<Rightarrow> json_error + condition" where
  "make_frontmost_application_unless_condition P ss =
     frontmost_application_from_json P
       (json_set ''bundle_identifiers'' (JArray (map JString ss))
          (json_set ''type'' (JString ''frontmost_application_unless'') JNull))"

subsection \<open>to_event_definition\<close>

record to_state =
  ts_definition :: definition_state
  ts_modifiers :: "modifier set"
  ts_lazy :: bool
  ts_repeat :: bool
  ts_halt :: bool
  ts_hold_down_milliseconds :: milliseconds
  ts_conditions :: "condition list"

definition to_state_initial :: to_state where
  "to_state_initial =
     \<lparr>ts_definition = definition_state_initial, ts_modifiers = {}, ts_lazy = False, ts_repeat = True,
      ts_halt = False, ts_hold_down_milliseconds = 0, ts_conditions = []\<rparr>"

definition to_event_definition_item :: "platform \<Rightarrow> json \<Rightarrow> string \<times> json \<Rightarrow> to_state \<Rightarrow> to_state reading" where
  "to_event_definition_item P j kv t =
     (case kv of (k, v) \<Rightarrow>
        rd_bind (handle_json P k v j (ts_definition t)) (\<lambda>(handled, d).
        if handled then rd_return (t\<lparr>ts_definition := d\<rparr>)
        else if k = ''modifiers''
        then rd_bind (rd_lift (rethrow_with (at_key k) (make_modifiers v))) (\<lambda>ms. rd_return (t\<lparr>ts_modifiers := ms\<rparr>))
        else if k = ''lazy'' then rd_bind (rd_lift (boolean_field k v)) (\<lambda>b. rd_return (t\<lparr>ts_lazy := b\<rparr>))
        else if k = ''repeat'' then rd_bind (rd_lift (boolean_field k v)) (\<lambda>b. rd_return (t\<lparr>ts_repeat := b\<rparr>))
        else if k = ''halt'' then rd_bind (rd_lift (boolean_field k v)) (\<lambda>b. rd_return (t\<lparr>ts_halt := b\<rparr>))
        else if k = ''hold_down_milliseconds'' \<or> k = ''held_down_milliseconds''
        then rd_bind (rd_lift (number_field k json_get_int v)) (\<lambda>n.
             rd_return (t\<lparr>ts_hold_down_milliseconds := n\<rparr>))
        else if k = ''conditions''
        then rd_bind (rd_lift (requires_array v (backquoted k))) (\<lambda>_.
             rd_bind (rd_map (make_condition P) (json_elements v)) (\<lambda>cs.
             rd_return (t\<lparr>ts_conditions := ts_conditions t @ cs\<rparr>)))
        else rd_throw (unknown_key_in k j)))"

definition invalid_type :: "json \<Rightarrow> json_error" where
  "invalid_type j = Unmarshal_error [Text ''event type is invalid: `'', Dump j, Text ''`'']"

definition to_event_definition_from_json :: "platform \<Rightarrow> json \<Rightarrow> to_event_definition reading" where
  "to_event_definition_from_json P j =
     rd_bind (rd_lift (requires_object j ''json'')) (\<lambda>_.
     rd_bind (rd_fold (to_event_definition_item P j) (json_items j) to_state_initial) (\<lambda>t.
     if ds_type (ts_definition t) = Dt_none \<or> ds_type (ts_definition t) = Dt_any
     then rd_throw (invalid_type j)
     else rd_return \<lparr>to_event_definition = definition_of_state (ts_definition t),
                     to_modifiers = ts_modifiers t, to_lazy = ts_lazy t,
                     to_repeat = ts_repeat t, to_halt = ts_halt t,
                     to_hold_down_milliseconds = ts_hold_down_milliseconds t,
                     to_conditions = ts_conditions t\<rparr>))"

text \<open>The members that take one definition or an array of them.\<close>

definition to_event_definitions_from_json ::
    "platform \<Rightarrow> string \<Rightarrow> json \<Rightarrow> to_event_definition list reading" where
  "to_event_definitions_from_json P k v =
     (case v of
        JObject _ \<Rightarrow>
          rd_rethrow (at_key k) (rd_bind (to_event_definition_from_json P v) (\<lambda>t. rd_return [t]))
      | JArray js \<Rightarrow> rd_rethrow (at_entry k) (rd_map (to_event_definition_from_json P) js)
      | _ \<Rightarrow> rd_throw (Unmarshal_error
               [Text (backquoted k @ '' must be object or array, but is `''), Dump v, Text ''`'']))"

subsection \<open>simultaneous_options\<close>

definition key_order_from_json :: "json \<Rightarrow> json_error + key_order" where
  "key_order_from_json j =
     ok_bind (plain_string j) (\<lambda>s.
     if s = ''insensitive'' then Inr insensitive
     else if s = ''strict'' then Inr strict
     else if s = ''strict_inverse'' then Inr strict_inverse
     else Inl (unknown_value ''value'' s))"

definition key_up_when_from_json :: "json \<Rightarrow> json_error + key_up_when" where
  "key_up_when_from_json j =
     ok_bind (plain_string j) (\<lambda>s.
     if s = ''any'' then Inr key_up_when_any
     else if s = ''all'' then Inr key_up_when_all
     else Inl (unknown_value ''value'' s))"

definition simultaneous_options_item ::
    "platform \<Rightarrow> json \<Rightarrow> string \<times> json \<Rightarrow> simultaneous_options \<Rightarrow> simultaneous_options reading" where
  "simultaneous_options_item P j kv so =
     (case kv of (k, v) \<Rightarrow>
        if k = ''detect_key_down_uninterruptedly''
        then rd_bind (rd_lift (boolean_field k v)) (\<lambda>b.
             rd_return (so\<lparr>so_detect_key_down_uninterruptedly := b\<rparr>))
        else if k = ''key_down_order''
        then rd_bind (rd_lift (rethrow_with (at_key k) (key_order_from_json v))) (\<lambda>r.
             rd_return (so\<lparr>so_key_down_order := r\<rparr>))
        else if k = ''key_up_order''
        then rd_bind (rd_lift (rethrow_with (at_key k) (key_order_from_json v))) (\<lambda>r.
             rd_return (so\<lparr>so_key_up_order := r\<rparr>))
        else if k = ''key_up_when''
        then rd_bind (rd_lift (rethrow_with (at_key k) (key_up_when_from_json v))) (\<lambda>r.
             rd_return (so\<lparr>so_key_up_when := r\<rparr>))
        else if k = ''to_after_key_up''
        then rd_bind (to_event_definitions_from_json P k v) (\<lambda>ts.
             rd_return (so\<lparr>so_to_after_key_up := so_to_after_key_up so @ ts\<rparr>))
        else if k = ''description'' then rd_return so
        else rd_throw (unknown_key_in k j))"

definition simultaneous_options_from_json :: "platform \<Rightarrow> json \<Rightarrow> simultaneous_options reading" where
  "simultaneous_options_from_json P j =
     rd_bind (rd_lift (requires_object j ''json'')) (\<lambda>_.
     rd_fold (simultaneous_options_item P j) (json_items j) simultaneous_options_default)"

subsection \<open>from_event_definition\<close>

record from_state =
  fs_default :: definition_state
  fs_definitions :: "definition_state list"
  fs_modifiers :: from_modifiers_definition
  fs_simultaneous_options :: simultaneous_options

definition from_state_initial :: from_state where
  "from_state_initial =
     \<lparr>fs_default = definition_state_initial, fs_definitions = [], fs_modifiers = from_modifiers_default,
      fs_simultaneous_options = simultaneous_options_default\<rparr>"

text \<open>
  An entry of \<open>simultaneous\<close>. The message about a missing event dumps the whole \<open>from\<close>, the one
  about an unknown key lacks its closing quote.
\<close>

definition simultaneous_entry :: "platform \<Rightarrow> string \<Rightarrow> json \<Rightarrow> json \<Rightarrow> definition_state reading" where
  "simultaneous_entry P k json j =
     rd_bind (rd_lift (requires_object j (backquoted k @ '' entry''))) (\<lambda>_.
     rd_bind (rd_fold (\<lambda>(k', v') d.
                rd_bind (handle_json P k' v' j d) (\<lambda>(handled, d').
                if handled then rd_return d'
                else rd_throw (Unmarshal_error
                       [Text (''unknown key: '' @ backquoted k' @ '' in `''), Dump j]))) (json_items j)
                definition_state_initial) (\<lambda>d.
     if ds_type d = Dt_none then rd_throw (invalid_type json) else rd_return d))"

definition from_event_definition_item :: "platform \<Rightarrow> json \<Rightarrow> string \<times> json \<Rightarrow> from_state \<Rightarrow> from_state reading" where
  "from_event_definition_item P j kv f =
     (case kv of (k, v) \<Rightarrow>
        rd_bind (handle_json P k v j (fs_default f)) (\<lambda>(handled, d).
        if handled then rd_return (f\<lparr>fs_default := d\<rparr>)
        else if k = ''modifiers''
        then rd_bind (rd_lift (rethrow_with (at_key k) (from_modifiers_from_json v))) (\<lambda>ms.
             rd_return (f\<lparr>fs_modifiers := ms\<rparr>))
        else if k = ''simultaneous''
        then rd_bind (rd_lift (requires_array v (backquoted k))) (\<lambda>_.
             rd_bind (rd_map (simultaneous_entry P k j) (json_elements v)) (\<lambda>ds.
             rd_return (f\<lparr>fs_definitions := fs_definitions f @ ds\<rparr>)))
        else if k = ''simultaneous_options''
        then rd_bind (rd_rethrow (at_key k) (simultaneous_options_from_json P v)) (\<lambda>so.
             rd_return (f\<lparr>fs_simultaneous_options := so\<rparr>))
        else rd_throw (Unmarshal_error
               [Text (''`from` error: unknown key '' @ backquoted k @ '' in `''), Dump j, Text ''`''])))"

definition from_event_definition_from_json :: "platform \<Rightarrow> json \<Rightarrow> from_event_definition reading" where
  "from_event_definition_from_json P j =
     rd_bind (rd_lift (requires_object j ''json'')) (\<lambda>_.
     rd_bind (rd_fold (from_event_definition_item P j) (json_items j) from_state_initial) (\<lambda>f.
     let ds = (if fs_definitions f = [] \<and> ds_type (fs_default f) \<noteq> Dt_none
               then [fs_default f] else fs_definitions f)
     in if ds = []
        then rd_throw (Unmarshal_error [Text ''event is not specified: `'', Dump j, Text ''`''])
        else if \<not> list_all (\<lambda>d. ds_type d = Dt_momentary_switch_event \<or> ds_type d = Dt_any) ds
        then rd_throw (invalid_type j)
        else rd_return \<lparr>from_event_definitions = map ds_value ds, from_modifiers = fs_modifiers f,
                        from_simultaneous_options = fs_simultaneous_options f\<rparr>))"


subsection \<open>What a definition that reads is good for\<close>

lemma ok_items_invariant:
  assumes "ok_items f ms s = Inr s'" "Q s"
    and "\<And>k v s s'. f k v s = Inr s' \<Longrightarrow> Q s \<Longrightarrow> Q s'"
  shows "Q s'"
  using assms
proof (induction f ms s rule: ok_items.induct)
  case (2 f k v ms s)
  then obtain s1 where "f k v s = Inr s1" "ok_items f ms s1 = Inr s'" by auto
  with 2 show ?case by blast
qed simp

lemma sticky_modifier_items:
  "ok_items (sticky_modifier_item key) ms x = Inr y \<Longrightarrow>
   x = Ed_none \<or> type_of_definition x = Dt_sticky_modifier \<Longrightarrow>
   y = Ed_none \<or> type_of_definition y = Dt_sticky_modifier"
  by (erule ok_items_invariant) (auto simp: sticky_modifier_item_def)

lemma take_definition_ok:
  assumes "take_definition j d t r l = Inr ((handled, d'), l')"
    and "\<And>l x l'. ds_type d = Dt_none \<Longrightarrow> r l = Inr (x, l') \<Longrightarrow>
      type_of_definition x = t \<or> t = Dt_sticky_modifier \<and> x = Ed_none"
  shows "state_ok d'"
proof -
  obtain x l1 where "r l = Inr (x, l1)" "d' = \<lparr>ds_type = t, ds_value = x\<rparr>" "ds_type d = Dt_none"
    using assms(1) by (auto simp: take_definition_def check_type_def split: if_splits)
  with assms(2) show ?thesis by (fastforce simp: state_ok_def)
qed

lemma state_ok_none: "state_ok d \<Longrightarrow> ds_type d = Dt_none \<Longrightarrow> ds_value d = Ed_none"
  by (cases "ds_value d") (auto simp: state_ok_def)

lemma handle_json_state_ok:
  assumes "handle_json P key v j d l = Inr ((handled, d'), l')" "state_ok d"
  shows "state_ok d'"
  using assms(1) unfolding handle_json_def Let_def
  by (simp only: split: if_split_asm)
    (auto simp: assms(2) state_ok_none[OF assms(2)] elim!: take_definition_ok dest: sticky_modifier_items)

lemma state_ok_initial: "state_ok definition_state_initial"
  by (simp add: state_ok_def definition_state_initial_def)

lemma to_event_definition_items_ok:
  assumes "rd_fold (to_event_definition_item P j) ms t l = Inr (t', l')" "state_ok (ts_definition t)"
  shows "state_ok (ts_definition t')"
  using assms
proof (rule rd_fold_invariant[where Q = "\<lambda>t. state_ok (ts_definition t)"])
  fix kv s l s' l'
  assume step: "to_event_definition_item P j kv s l = Inr (s', l')" and ok: "state_ok (ts_definition s)"
  obtain k v where kv: "kv = (k, v)" by force
  obtain h d l1 where h: "handle_json P k v j (ts_definition s) l = Inr ((h, d), l1)"
    using step by (auto simp: to_event_definition_item_def kv)
  have "state_ok d" using handle_json_state_ok[OF h ok] .
  then show "state_ok (ts_definition s')"
    using step ok h by (simp add: to_event_definition_item_def kv split: if_split_asm; elim exE conjE; simp)
qed

text \<open>
  A to definition that reads makes an event: whatever JSON it was read from, there is never a
  definition that is posted as nothing, except a sticky modifier without a value.
\<close>

definition to_ok :: "to_event_definition \<Rightarrow> bool" where
  "to_ok t \<longleftrightarrow>
     to_event (to_event_definition t) \<noteq> None
     \<or> to_event_definition t = Ed_sticky_modifier_without_value"

lemma to_event_definition_ok:
  assumes "to_event_definition_from_json P j l = Inr (t, l')"
  shows "to_ok t"
proof -
  obtain s l1 where s: "rd_fold (to_event_definition_item P j) (json_items j) to_state_initial l = Inr (s, l1)"
    and ty: "ds_type (ts_definition s) \<noteq> Dt_none" "ds_type (ts_definition s) \<noteq> Dt_any"
    and t: "to_event_definition t = definition_of_state (ts_definition s)"
    using assms by (simp add: to_event_definition_from_json_def, elim exE conjE) (simp split: if_split_asm; fastforce)
  have "state_ok (ts_definition s)"
    using to_event_definition_items_ok[OF s] by (simp add: to_state_initial_def state_ok_initial)
  with ty t show ?thesis
    by (cases "ds_value (ts_definition s)") (auto simp: to_ok_def state_ok_def definition_of_state_def)
qed

lemma sticky_modifier_may_be_empty:
  "to_event_definition_from_json P (JObject [(''sticky_modifier'', JObject [])]) l =
     Inr (to_event_definition_default Ed_sticky_modifier_without_value, l)"
  by (simp add: to_event_definition_from_json_def to_event_definition_item_def requires_object_def
      handle_json_def take_definition_def check_type_def to_state_initial_def definition_state_initial_def
      definition_of_state_def to_event_definition_default_def mse_keys_def rd_bind_def rd_lift_def
      rd_return_def)

definition key_definition :: "event_definition \<Rightarrow> bool" where
  "key_definition d \<longleftrightarrow> (case d of Ed_momentary_switch_event _ \<Rightarrow> True | Ed_any _ \<Rightarrow> True | _ \<Rightarrow> False)"

lemma state_ok_key:
  "state_ok d \<Longrightarrow> ds_type d = Dt_momentary_switch_event \<or> ds_type d = Dt_any \<Longrightarrow> key_definition (ds_value d)"
  by (cases "ds_value d") (auto simp: state_ok_def key_definition_def)

lemma simultaneous_entry_ok:
  assumes "simultaneous_entry P k json j l = Inr (d, l')"
  shows "state_ok d"
proof -
  obtain l1 l2 where "rd_fold (\<lambda>(k', v') d. rd_bind (handle_json P k' v' j d) (\<lambda>(handled, d').
      if handled then rd_return d'
      else rd_throw (Unmarshal_error [Text (''unknown key: '' @ backquoted k' @ '' in `''), Dump j])))
      (json_items j) definition_state_initial l1 = Inr (d, l2)"
    using assms by (auto simp: simultaneous_entry_def split: if_splits)
  then show ?thesis
    by (rule rd_fold_invariant[where Q = state_ok])
      (auto simp: state_ok_initial dest: handle_json_state_ok split: if_splits)
qed

definition from_state_ok :: "from_state \<Rightarrow> bool" where
  "from_state_ok f \<longleftrightarrow> state_ok (fs_default f) \<and> list_all state_ok (fs_definitions f)"

lemma from_event_definition_items_ok:
  assumes "rd_fold (from_event_definition_item P j) ms f l = Inr (f', l')" "from_state_ok f"
  shows "from_state_ok f'"
  using assms
proof (rule rd_fold_invariant[where Q = from_state_ok])
  fix kv s l s' l'
  assume step: "from_event_definition_item P j kv s l = Inr (s', l')" and ok: "from_state_ok s"
  have entries: "list_all state_ok ds"
    if "rd_map (simultaneous_entry P k j) (json_elements v) l = Inr (ds, l')" for k v l ds l'
    using that by (rule rd_map_all) (rule simultaneous_entry_ok)
  from step ok show "from_state_ok s'"
    by (cases kv, simp add: from_event_definition_item_def, elim exE conjE)
      (simp split: if_split_asm; auto simp: from_state_ok_def dest: handle_json_state_ok entries)
qed

text \<open>
  A from definition that reads has at least one event to match, and all of them are keys,
  buttons or a whole class of them: nothing a device cannot send.
\<close>

lemma from_event_definition_has_keys:
  assumes "from_event_definition_from_json P j l = Inr (f, l')"
  shows "from_event_definitions f \<noteq> [] \<and> list_all key_definition (from_event_definitions f)"
proof -
  obtain s l1 where s: "rd_fold (from_event_definition_item P j) (json_items j) from_state_initial l = Inr (s, l1)"
    and f: "\<exists>ds. ds \<noteq> [] \<and> from_event_definitions f = map ds_value ds \<and>
      list_all (\<lambda>d. ds_type d = Dt_momentary_switch_event \<or> ds_type d = Dt_any) ds \<and>
      (ds = [fs_default s] \<or> ds = fs_definitions s)"
    using assms unfolding from_event_definition_from_json_def Let_def
    by (simp, elim exE conjE) (simp split: if_split_asm; fastforce)
  have "from_state_ok s"
    using from_event_definition_items_ok[OF s]
    by (simp add: from_state_ok_def from_state_initial_def state_ok_initial)
  with f show ?thesis
    by (auto simp: from_state_ok_def list_all_iff intro!: state_ok_key)
qed


subsection \<open>Reading leaves the expressions in use alone\<close>

text \<open>
  From \<open>l\<close> to \<open>l'\<close> only new expression objects appeared: the old ones, the clock and the variables of
  the condition expression manager are as before, and the manager knows the same expressions and
  then some of the new ones.
\<close>

definition extends :: "loader \<Rightarrow> loader \<Rightarrow> bool" where
  "extends l l' \<longleftrightarrow>
     ld_next l \<le> ld_next l'
     \<and> (\<forall>i<ld_next l. w_expressions (ld_world l') i = w_expressions (ld_world l) i)
     \<and> w_clock_reads (ld_world l') = w_clock_reads (ld_world l)
     \<and> cem_variables (w_condition_expression_manager (ld_world l')) =
         cem_variables (w_condition_expression_manager (ld_world l))
     \<and> cem_string_variables (w_condition_expression_manager (ld_world l')) =
         cem_string_variables (w_condition_expression_manager (ld_world l))
     \<and> (\<exists>is. cem_expressions (w_condition_expression_manager (ld_world l')) =
           cem_expressions (w_condition_expression_manager (ld_world l)) @ is \<and>
         set is \<subseteq> {ld_next l..<ld_next l'})"

lemma extends_refl [simp, intro]: "extends l l"
  by (simp add: extends_def)

lemma extends_trans: "extends l m \<Longrightarrow> extends m n \<Longrightarrow> extends l n"
  unfolding extends_def by (elim conjE exE, intro conjI) (auto intro!: exI[of _ "_ @ _"])

lemma extends_next: "extends l l' \<Longrightarrow> ld_next l \<le> ld_next l'"
  by (simp add: extends_def)

definition quiet :: "'a reading \<Rightarrow> bool" where
  "quiet m \<longleftrightarrow> (\<forall>l x l'. m l = Inr (x, l') \<longrightarrow> extends l l')"

named_theorems quiet_intros

lemma quiet_basic [quiet_intros]:
  "quiet (rd_return x)" "quiet (rd_throw e)" "quiet (rd_lift r)"
  by (simp_all add: quiet_def)

lemma quiet_bind [quiet_intros]: "quiet m \<Longrightarrow> (\<And>x. quiet (f x)) \<Longrightarrow> quiet (rd_bind m f)"
  unfolding quiet_def by (auto, blast intro: extends_trans)

lemma quiet_rethrow [quiet_intros]: "quiet m \<Longrightarrow> quiet (rd_rethrow msg m)"
  by (simp add: quiet_def)

lemma quiet_if [quiet_intros]: "(b \<Longrightarrow> quiet m) \<Longrightarrow> (\<not> b \<Longrightarrow> quiet n) \<Longrightarrow> quiet (if b then m else n)"
  by simp

lemma quiet_prod [quiet_intros]: "(\<And>a b. quiet (f a b)) \<Longrightarrow> quiet (case p of (a, b) \<Rightarrow> f a b)"
  "(\<And>a b. quiet (g a b s)) \<Longrightarrow> quiet ((case p of (a, b) \<Rightarrow> g a b) s)"
  by (cases p; simp)+

lemma quiet_option [quiet_intros]:
  "quiet m \<Longrightarrow> (\<And>x. quiet (f x)) \<Longrightarrow> quiet (case o' of None \<Rightarrow> m | Some x \<Rightarrow> f x)"
  by (cases o') simp_all

lemma quiet_json [quiet_intros]:
  "(\<And>js. quiet (f js)) \<Longrightarrow> (\<And>ms. quiet (g ms)) \<Longrightarrow> quiet m \<Longrightarrow>
   quiet (case j of JArray js \<Rightarrow> f js | JObject ms \<Rightarrow> g ms | _ \<Rightarrow> m)"
  by (cases j) simp_all

lemma quiet_fold [quiet_intros]: "(\<And>j s. quiet (f j s)) \<Longrightarrow> quiet (rd_fold f js s)"
  by (induction js arbitrary: s) (simp_all add: quiet_intros)

lemma quiet_map [quiet_intros]: "(\<And>j. quiet (f j)) \<Longrightarrow> quiet (rd_map f js)"
  by (induction js) (simp_all add: quiet_intros)

lemma unmarshal_expression_string_new:
  assumes "unmarshal_expression_string P k j l = Inr (i, l')"
  shows "i = ld_next l \<and> ld_next l' = Suc i \<and> w_expressions (ld_world l') i \<noteq> None \<and> extends l l'"
  using assms
  by (auto simp: unmarshal_expression_string_def extends_def split_beta split: if_split_asm)

lemma quiet_expression [quiet_intros]: "quiet (unmarshal_expression_string P k j)"
  by (auto simp: quiet_def dest: unmarshal_expression_string_new)

lemma quiet_set_variable [quiet_intros]: "quiet (checked_set_variable P k v)"
  unfolding checked_set_variable_def set_variable_from_json_def set_variable_item_def
  by (intro quiet_intros)

lemma quiet_handle_json [quiet_intros]: "quiet (handle_json P k v j d)"
  unfolding handle_json_def Let_def take_definition_def by (intro quiet_intros)

lemma rd_fold_invariant_loader:
  assumes "rd_fold f js s l = Inr (s', l')" "Q s l"
    and "\<And>j s l s' l'. f j s l = Inr (s', l') \<Longrightarrow> Q s l \<Longrightarrow> Q s' l'"
  shows "Q s' l'"
  using assms
proof (induction js arbitrary: s l)
  case (Cons j js)
  then obtain s1 l1 where "f j s l = Inr (s1, l1)" "rd_fold f js s1 l1 = Inr (s', l')" by auto
  with Cons show ?case by blast
qed simp

text \<open>The expression of a condition is a new one.\<close>

lemma expression_condition_new:
  assumes "expression_condition_from_json P j l = Inr (c, l')"
  shows "extends l l' \<and> (\<forall>i. snd c = Some i \<longrightarrow> ld_next l \<le> i \<and> i < ld_next l')"
proof -
  obtain l1 where "rd_fold (\<lambda>kv c. case kv of (k, v) \<Rightarrow>
      if k = ''type''
      then rd_bind (rd_lift (condition_type_from_json ''expression'' k v)) (\<lambda>t. rd_return (t, snd c))
      else if k = ''expression''
      then rd_bind (unmarshal_expression_string P k v) (\<lambda>i. rd_return (fst c, Some i))
      else if k = ''description'' then rd_return c
      else rd_throw (unknown_key_in k j)) (json_items j) (ct_if, None) l = Inr (c, l')"
    using assms by (auto simp: expression_condition_from_json_def)
  then show ?thesis
  proof (rule rd_fold_invariant_loader[where Q = "\<lambda>c l'. extends l l' \<and>
      (\<forall>i. snd c = Some i \<longrightarrow> ld_next l \<le> i \<and> i < ld_next l')"], goal_cases)
    case (2 kv c m c' m')
    obtain k v where kv: "kv = (k, v)" by force
    have "m' = m \<and> snd c' = snd c \<or> (extends m m' \<and> snd c' = Some (ld_next m) \<and> ld_next m' = Suc (ld_next m))"
      using 2(1)
      by (simp add: kv split: if_split_asm) (auto dest: unmarshal_expression_string_new)
    with 2(2) show ?case by (auto intro: extends_trans dest: extends_next)
  qed simp
qed


lemma cem_insert_extends:
  assumes "extends l l'" "ld_next l \<le> i" "i < ld_next l'"
  shows "extends l (l'\<lparr>ld_world := cem_insert i (ld_world l')\<rparr>)"
  using assms
  by (auto simp: extends_def cem_insert_def Let_def frame modify_expression_expressions)

lemma quiet_expression_condition [quiet_intros]: "quiet (make_expression_condition P j)"
  unfolding quiet_def
proof (intro allI impI)
  fix l x l'
  assume "make_expression_condition P j l = Inr (x, l')"
  then show "extends l l'"
    by (auto simp: make_expression_condition_def cem_insert_extends split: option.splits
        dest!: expression_condition_new)
qed

lemma quiet_make_condition [quiet_intros]: "quiet (make_condition P j)"
  unfolding make_condition_def by (intro quiet_intros)

lemma quiet_to_event_definition [quiet_intros]: "quiet (to_event_definition_from_json P j)"
  unfolding to_event_definition_from_json_def to_event_definition_item_def by (intro quiet_intros)

lemma quiet_to_event_definitions [quiet_intros]: "quiet (to_event_definitions_from_json P k v)"
  unfolding to_event_definitions_from_json_def by (intro quiet_intros)

lemma quiet_simultaneous_options [quiet_intros]: "quiet (simultaneous_options_from_json P j)"
  unfolding simultaneous_options_from_json_def simultaneous_options_item_def by (intro quiet_intros)

lemma quiet_from_event_definition [quiet_intros]: "quiet (from_event_definition_from_json P j)"
  unfolding from_event_definition_from_json_def from_event_definition_item_def simultaneous_entry_def Let_def
  by (intro quiet_intros)


subsection \<open>Well-formed definitions\<close>

definition from_ok :: "from_event_definition \<Rightarrow> bool" where
  "from_ok f \<longleftrightarrow>
     list_all key_definition (from_event_definitions f)
     \<and> list_all to_ok (so_to_after_key_up (from_simultaneous_options f))"

lemma to_event_definitions_ok:
  assumes "to_event_definitions_from_json P k v l = Inr (ts, l')"
  shows "list_all to_ok ts"
proof -
  have many: "list_all to_ok ts" if "rd_map (to_event_definition_from_json P) js l = Inr (ts, l')" for js ts l l'
    using that by (rule rd_map_all) (rule to_event_definition_ok)
  from assms show ?thesis
    by (cases v) (auto simp: to_event_definitions_from_json_def dest: many to_event_definition_ok)
qed

lemma simultaneous_options_ok:
  assumes "simultaneous_options_from_json P j l = Inr (so, l')"
  shows "list_all to_ok (so_to_after_key_up so)"
proof -
  have "rd_fold (simultaneous_options_item P j) (json_items j) simultaneous_options_default l = Inr (so, l')"
    using assms by (auto simp: simultaneous_options_from_json_def)
  then show ?thesis
  proof (rule rd_fold_invariant[where Q = "\<lambda>so. list_all to_ok (so_to_after_key_up so)"], goal_cases)
    case (2 kv so l so' l')
    obtain k v where "kv = (k, v)" by force
    with 2(2,3) show ?case
      by (simp add: simultaneous_options_item_def split: if_split_asm)
        (auto dest: to_event_definitions_ok)
  qed (simp add: simultaneous_options_default_def)
qed

lemma from_event_definition_simultaneous:
  assumes "from_event_definition_from_json P j l = Inr (f, l')"
  shows "list_all to_ok (so_to_after_key_up (from_simultaneous_options f))"
proof -
  obtain s l1 where fold: "rd_fold (from_event_definition_item P j) (json_items j) from_state_initial l = Inr (s, l1)"
    and f: "from_simultaneous_options f = fs_simultaneous_options s"
    using assms unfolding from_event_definition_from_json_def Let_def
    by (simp, elim exE conjE) (simp split: if_split_asm; fastforce)
  from fold have "list_all to_ok (so_to_after_key_up (fs_simultaneous_options s))"
  proof (rule rd_fold_invariant[where Q = "\<lambda>s. list_all to_ok (so_to_after_key_up (fs_simultaneous_options s))"], goal_cases)
    case (2 kv s l s' l')
    obtain k v where kv: "kv = (k, v)" by force
    obtain h d l1 where h: "handle_json P k v j (fs_default s) l = Inr ((h, d), l1)"
      using 2(2) by (auto simp: from_event_definition_item_def kv)
    with 2(2,3) show ?case
      by (simp add: from_event_definition_item_def kv split: if_split_asm)
        (elim exE conjE; simp add: simultaneous_options_ok)+
  qed (simp add: from_state_initial_def simultaneous_options_default_def)
  then show ?thesis by (simp add: f)
qed

lemma from_event_definition_ok:
  "from_event_definition_from_json P j l = Inr (f, l') \<Longrightarrow> from_ok f"
  using from_event_definition_has_keys from_event_definition_simultaneous unfolding from_ok_def by blast

end
