(* ===== verification/Manipulator_Factory.thy ===== *)
theory Manipulator_Factory
  imports Definition_Json Manipulator_Manager Complex_Modifications
begin

text \<open>
  From JSON to manipulators: the constructors of \<open>basic\<close> (with \<open>to_if_held_down\<close> and
  \<open>to_delayed_action\<close>), \<open>mouse_basic\<close> and \<open>mouse_motion_to_scroll\<close>,
  \<open>src/share/manipulator/manipulator_factory.hpp\<close>, the adding of manipulators to
  \<open>manipulator_manager\<close>, and \<open>update_complex_modifications_manipulators\<close> of
  \<open>src/core/grabber/include/grabber/device_grabber.hpp\<close>.

  The counter of \<open>mouse_motion_to_scroll\<close> leaves \<open>momentum_minus_\<close> without an initial value: it is the
  parameter \<open>momentum\<close>. The speed it takes from the parameters is an argument of its timer.

  The theory shows that a configuration with broken manipulators gives exactly the others, in
  order and each with all its conditions, and that replacing the manipulators leaves alone what the
  active ones use.
\<close>

subsection \<open>basic\<close>

definition create_to_if_held_down :: "platform \<Rightarrow> json \<Rightarrow> to_if_held_down reading" where
  "create_to_if_held_down P j =
     (let held = (\<lambda>ts. rd_return \<lparr>hd_to = ts, hd_front_input_event = None,
                         hd_current_manipulated_original_event = None, hd_current_held_down_id = 0,
                         hd_pending = []\<rparr>)
      in case j of
           JObject _ \<Rightarrow> rd_bind (to_event_definition_from_json P j) (\<lambda>t. held [t])
         | JArray js \<Rightarrow> rd_bind (rd_map (to_event_definition_from_json P) js) held
         | _ \<Rightarrow> rd_throw (Unmarshal_error
                  [Text ''json must be object or array, but is `'', Dump j, Text ''`'']))"

definition to_delayed_action_initial :: to_delayed_action where
  "to_delayed_action_initial =
     \<lparr>da_to_if_invoked = [], da_to_if_canceled = [], da_front_input_event = None,
      da_current_manipulated_original_event = None, da_current_delayed_action_id = 0, da_pending = []\<rparr>"

definition to_delayed_action_item ::
    "platform \<Rightarrow> json \<Rightarrow> string \<times> json \<Rightarrow> to_delayed_action \<Rightarrow> to_delayed_action reading" where
  "to_delayed_action_item P j kv a =
     (case kv of (k, v) \<Rightarrow>
        if k = ''to_if_invoked''
        then rd_bind (to_event_definitions_from_json P k v) (\<lambda>ts.
             rd_return (a\<lparr>da_to_if_invoked := da_to_if_invoked a @ ts\<rparr>))
        else if k = ''to_if_canceled''
        then rd_bind (to_event_definitions_from_json P k v) (\<lambda>ts.
             rd_return (a\<lparr>da_to_if_canceled := da_to_if_canceled a @ ts\<rparr>))
        else rd_throw (unknown_key_in k j))"

definition create_to_delayed_action :: "platform \<Rightarrow> json \<Rightarrow> to_delayed_action reading" where
  "create_to_delayed_action P j =
     rd_bind (rd_lift (requires_object j ''json'')) (\<lambda>_.
     rd_fold (to_delayed_action_item P j) (json_items j) to_delayed_action_initial)"

definition basic_parameters_of :: "settings \<Rightarrow> basic_parameters" where
  "basic_parameters_of ps =
     \<lparr>bp_simultaneous_threshold_milliseconds = get_basic_simultaneous_threshold_milliseconds ps,
      bp_to_if_alone_timeout_milliseconds = get_basic_to_if_alone_timeout_milliseconds ps,
      bp_to_if_held_down_threshold_milliseconds = get_basic_to_if_held_down_threshold_milliseconds ps,
      bp_to_delayed_action_delay_milliseconds = get_basic_to_delayed_action_delay_milliseconds ps\<rparr>"

definition from_event_definition_default :: from_event_definition where
  "from_event_definition_default =
     \<lparr>from_event_definitions = [], from_modifiers = from_modifiers_default,
      from_simultaneous_options = simultaneous_options_default\<rparr>"

text \<open>The second constructor, for simple modifications, gets its definitions ready made.\<close>

definition simple_basic ::
    "basic_parameters \<Rightarrow> from_event_definition \<Rightarrow> to_event_definition list \<Rightarrow> basic" where
  "simple_basic ps f ts =
     \<lparr>b_validity = valid, b_conditions = [], b_parameters = ps, b_from = f, b_to = ts,
      b_to_after_key_up = [], b_to_if_alone = [], b_to_if_held_down = None, b_to_delayed_action = None,
      b_manipulated_original_events = [], b_heap = []\<rparr>"

definition basic_item :: "platform \<Rightarrow> json \<Rightarrow> string \<times> json \<Rightarrow> basic \<Rightarrow> basic reading" where
  "basic_item P j kv b =
     (case kv of (k, v) \<Rightarrow>
        if k = ''from''
        then rd_bind (rd_rethrow (at_key k) (from_event_definition_from_json P v)) (\<lambda>f.
             rd_return (b\<lparr>b_from := f\<rparr>))
        else if k = ''to''
        then rd_bind (to_event_definitions_from_json P k v) (\<lambda>ts. rd_return (b\<lparr>b_to := b_to b @ ts\<rparr>))
        else if k = ''to_after_key_up''
        then rd_bind (to_event_definitions_from_json P k v) (\<lambda>ts.
             rd_return (b\<lparr>b_to_after_key_up := b_to_after_key_up b @ ts\<rparr>))
        else if k = ''to_if_alone''
        then rd_bind (to_event_definitions_from_json P k v) (\<lambda>ts.
             rd_return (b\<lparr>b_to_if_alone := b_to_if_alone b @ ts\<rparr>))
        else if k = ''to_if_held_down''
        then rd_bind (rd_rethrow (at_key k) (create_to_if_held_down P v)) (\<lambda>h.
             rd_return (b\<lparr>b_to_if_held_down := Some h\<rparr>))
        else if k = ''to_delayed_action''
        then rd_bind (rd_rethrow (at_key k) (create_to_delayed_action P v)) (\<lambda>a.
             rd_return (b\<lparr>b_to_delayed_action := Some a\<rparr>))
        else if k = ''description'' \<or> k = ''conditions'' \<or> k = ''parameters'' \<or> k = ''type'' then rd_return b
        else rd_throw (unknown_key_in k j))"

definition create_basic :: "platform \<Rightarrow> json \<Rightarrow> settings \<Rightarrow> basic reading" where
  "create_basic P j ps =
     rd_bind (rd_lift (requires_object j ''json'')) (\<lambda>_.
     rd_fold (basic_item P j) (json_items j)
       (simple_basic (basic_parameters_of ps) from_event_definition_default []))"

subsection \<open>mouse_basic\<close>

definition mouse_basic_initial :: mouse_basic where
  "mouse_basic_initial =
     \<lparr>mb_validity = valid, mb_conditions = [], mb_flip_x = False, mb_flip_y = False,
      mb_flip_vertical_wheel = False, mb_flip_horizontal_wheel = False, mb_swap_xy = False,
      mb_swap_wheels = False, mb_discard_x = False, mb_discard_y = False,
      mb_discard_vertical_wheel = False, mb_discard_horizontal_wheel = False\<rparr>"

text \<open>The names in the arrays; unknown names are ignored.\<close>

definition flip_name :: "string \<Rightarrow> mouse_basic \<Rightarrow> mouse_basic" where
  "flip_name s b =
     (if s = ''x'' then b\<lparr>mb_flip_x := True\<rparr>
      else if s = ''y'' then b\<lparr>mb_flip_y := True\<rparr>
      else if s = ''vertical_wheel'' then b\<lparr>mb_flip_vertical_wheel := True\<rparr>
      else if s = ''horizontal_wheel'' then b\<lparr>mb_flip_horizontal_wheel := True\<rparr>
      else b)"

definition swap_name :: "string \<Rightarrow> mouse_basic \<Rightarrow> mouse_basic" where
  "swap_name s b =
     (if s = ''xy'' then b\<lparr>mb_swap_xy := True\<rparr>
      else if s = ''wheels'' then b\<lparr>mb_swap_wheels := True\<rparr>
      else b)"

definition discard_name :: "string \<Rightarrow> mouse_basic \<Rightarrow> mouse_basic" where
  "discard_name s b =
     (if s = ''x'' then b\<lparr>mb_discard_x := True\<rparr>
      else if s = ''y'' then b\<lparr>mb_discard_y := True\<rparr>
      else if s = ''vertical_wheel'' then b\<lparr>mb_discard_vertical_wheel := True\<rparr>
      else if s = ''horizontal_wheel'' then b\<lparr>mb_discard_horizontal_wheel := True\<rparr>
      else b)"

definition names_field :: "string \<Rightarrow> json \<Rightarrow> json_error + string list" where
  "names_field k v =
     ok_bind (requires_array v (backquoted k)) (\<lambda>_.
     map_ok (\<lambda>j. ok_bind (requires_string j (''items in '' @ backquoted k)) (\<lambda>_. json_get_string j))
       (json_elements v))"

definition mouse_basic_item :: "json \<Rightarrow> string \<Rightarrow> json \<Rightarrow> mouse_basic \<Rightarrow> json_error + mouse_basic" where
  "mouse_basic_item j k v b =
     (if k = ''flip'' then ok_bind (names_field k v) (\<lambda>ns. Inr (fold flip_name ns b))
      else if k = ''swap'' then ok_bind (names_field k v) (\<lambda>ns. Inr (fold swap_name ns b))
      else if k = ''discard'' then ok_bind (names_field k v) (\<lambda>ns. Inr (fold discard_name ns b))
      else if k = ''description'' \<or> k = ''conditions'' \<or> k = ''parameters'' \<or> k = ''type'' then Inr b
      else Inl (unknown_key_in k j))"

definition create_mouse_basic :: "json \<Rightarrow> json_error + mouse_basic" where
  "create_mouse_basic j =
     ok_bind (requires_object j ''json'') (\<lambda>_.
     ok_items (mouse_basic_item j) (json_items j) mouse_basic_initial)"

subsection \<open>mouse_motion_to_scroll\<close>

definition scroll_options_item :: "string \<Rightarrow> json \<Rightarrow> scroll_options \<Rightarrow> json_error + scroll_options" where
  "scroll_options_item k v o' =
     (if k = ''momentum_scroll_enabled''
      then ok_bind (boolean_field k v) (\<lambda>b. Inr (o'\<lparr>so_momentum_scroll_enabled := b\<rparr>))
      else if k = ''speed_multiplier''
      then ok_bind (number_field k json_get_double v) (\<lambda>r. Inr (set_speed_multiplier r o'))
      else if k = ''threshold'' then ok_bind (number_field k json_get_int v) (\<lambda>n. Inr (set_threshold n o'))
      else if k = ''recent_time_duration_milliseconds''
      then ok_bind (number_field k json_get_int v) (\<lambda>n. Inr (set_recent_time_duration n o'))
      else if k = ''direction_lock_threshold''
      then ok_bind (number_field k json_get_int v) (\<lambda>n. Inr (set_direction_lock_threshold n o'))
      else if k = ''scroll_event_interval_milliseconds_threshold''
      then ok_bind (number_field k json_get_int v) (\<lambda>n. Inr (set_scroll_event_interval_threshold n o'))
      else Inr o')"

definition update_scroll_options :: "json \<Rightarrow> scroll_options \<Rightarrow> json_error + scroll_options" where
  "update_scroll_options j o' =
     ok_bind (requires_object j ''json'') (\<lambda>_. ok_items scroll_options_item (json_items j) o')"

definition mouse_motion_to_scroll_initial :: "int \<Rightarrow> mouse_motion_to_scroll" where
  "mouse_motion_to_scroll_initial momentum =
     \<lparr>mts_validity = valid, mts_conditions = [], mts_from_modifiers = from_modifiers_default,
      mts_options = scroll_options_default, mts_counter = scroll_counter_initial momentum,
      mts_from_mandatory_modifiers = None, mts_device_id = 0, mts_original_event = Ev_none,
      mts_output_queue_assigned = False\<rparr>"

definition scroll_from_item ::
    "string \<Rightarrow> json \<Rightarrow> string \<Rightarrow> json \<Rightarrow> mouse_motion_to_scroll \<Rightarrow> json_error + mouse_motion_to_scroll" where
  "scroll_from_item key value k v b =
     (if k = ''modifiers''
      then ok_bind (rethrow_with [Text (''`'' @ key @ ''.'' @ k @ ''` error: '')] (from_modifiers_from_json v))
             (\<lambda>ms. Inr (b\<lparr>mts_from_modifiers := ms\<rparr>))
      else Inl (Unmarshal_error
                  [Text (backquoted key @ '' error: unknown key '' @ backquoted k @ '' in `''), Dump value, Text ''`'']))"

definition mouse_motion_to_scroll_item ::
    "json \<Rightarrow> string \<Rightarrow> json \<Rightarrow> mouse_motion_to_scroll \<Rightarrow> json_error + mouse_motion_to_scroll" where
  "mouse_motion_to_scroll_item j k v b =
     (if k = ''from''
      then ok_bind (requires_object v (backquoted k)) (\<lambda>_.
           ok_items (scroll_from_item k v) (json_items v) b)
      else if k = ''options''
      then ok_bind (rethrow_with (at_key k) (update_scroll_options v (mts_options b))) (\<lambda>o'.
           Inr (b\<lparr>mts_options := o'\<rparr>))
      else if k = ''description'' \<or> k = ''conditions'' \<or> k = ''parameters'' \<or> k = ''type'' then Inr b
      else Inl (unknown_key_in k j))"

definition create_mouse_motion_to_scroll :: "int \<Rightarrow> json \<Rightarrow> json_error + mouse_motion_to_scroll" where
  "create_mouse_motion_to_scroll momentum j =
     ok_bind (requires_object j ''json'') (\<lambda>_.
     ok_items (mouse_motion_to_scroll_item j) (json_items j) (mouse_motion_to_scroll_initial momentum))"

subsection \<open>manipulator_factory, manipulator_manager\<close>

definition make_manipulator :: "platform \<Rightarrow> int \<Rightarrow> json \<Rightarrow> settings \<Rightarrow> 'k manipulator reading" where
  "make_manipulator P momentum j ps =
     (case json_find j ''type'' of
        None \<Rightarrow> rd_throw (Unmarshal_error [Text ''`type` must be specified: '', Dump j])
      | Some tj \<Rightarrow>
          rd_bind (rd_lift (json_get_string tj)) (\<lambda>t.
          if t = ''basic'' then rd_bind (create_basic P j ps) (\<lambda>b. rd_return (M_basic b))
          else if t = ''mouse_basic'' then rd_bind (rd_lift (create_mouse_basic j)) (\<lambda>b. rd_return (M_mouse_basic b))
          else if t = ''mouse_motion_to_scroll''
          then rd_bind (rd_lift (create_mouse_motion_to_scroll momentum j)) (\<lambda>b. rd_return (M_mouse_motion_to_scroll b))
          else rd_throw (Unmarshal_error [Text (''unknown type '' @ backquoted t)])))"

text \<open>The last two kinds never consult their condition manager.\<close>

fun push_back_condition :: "condition \<Rightarrow> 'k manipulator \<Rightarrow> 'k manipulator" where
  "push_back_condition c (M_basic b) = M_basic (b\<lparr>b_conditions := b_conditions b @ [c]\<rparr>)"
| "push_back_condition c (M_mouse_basic b) = M_mouse_basic (b\<lparr>mb_conditions := mb_conditions b @ [c]\<rparr>)"
| "push_back_condition c (M_mouse_motion_to_scroll b) =
     M_mouse_motion_to_scroll (b\<lparr>mts_conditions := mts_conditions b @ [c]\<rparr>)"
| "push_back_condition c (M_post_event_to_virtual_devices v) = M_post_event_to_virtual_devices v"
| "push_back_condition c (M_nop n) = M_nop n"

text \<open>
  The \<open>try\<close> around the making of a manipulator: every exception is logged and the manipulator is
  left out. The objects it made are released; of a condition's expression an expired pointer stays
  behind in the condition expression manager until the next walk drops it, so the loader is the one
  before.
\<close>

definition push_back_made ::
    "'k manipulator reading \<Rightarrow> 'k manipulator list \<times> loader \<Rightarrow> 'k manipulator list \<times> loader" where
  "push_back_made r s =
     (case r (snd s) of
        Inl e \<Rightarrow> s
      | Inr (m, l) \<Rightarrow> (fst s @ [m], l))"

definition push_back_manipulator_json ::
    "platform \<Rightarrow> int \<Rightarrow> json \<Rightarrow> settings \<Rightarrow> 'k manipulator list \<times> loader \<Rightarrow> 'k manipulator list \<times> loader" where
  "push_back_manipulator_json P momentum j ps = push_back_made (make_manipulator P momentum j ps)"

subsection \<open>update_complex_modifications_manipulators\<close>

definition make_rule_manipulator :: "platform \<Rightarrow> int \<Rightarrow> rule_manipulator \<Rightarrow> 'k manipulator reading" where
  "make_rule_manipulator P momentum rm =
     rd_bind (make_manipulator P momentum (rm_json rm) (rm_parameters rm)) (\<lambda>m.
     rd_fold (\<lambda>c m. rd_bind (make_condition P c) (\<lambda>c'. rd_return (push_back_condition c' m)))
       (rm_conditions rm) m)"

definition enabled_manipulators :: "complex_modifications_rule list \<Rightarrow> rule_manipulator list" where
  "enabled_manipulators rs = concat (map (\<lambda>r. if get_enabled r then cmr_manipulators r else []) rs)"

definition update_complex_modifications_manipulators ::
    "platform \<Rightarrow> int \<Rightarrow> complex_modifications_rule list \<Rightarrow> 'k manipulator list \<times> loader \<Rightarrow>
     'k manipulator list \<times> loader" where
  "update_complex_modifications_manipulators P momentum rs s =
     fold (\<lambda>rm. push_back_made (make_rule_manipulator P momentum rm)) (enabled_manipulators rs)
       (invalidate_manipulators (fst s), snd s)"


subsection \<open>Reading manipulators leaves the expressions in use alone\<close>

lemma quiet_to_if_held_down [quiet_intros]: "quiet (create_to_if_held_down P j)"
  unfolding create_to_if_held_down_def Let_def by (intro quiet_intros)

lemma quiet_to_delayed_action [quiet_intros]: "quiet (create_to_delayed_action P j)"
  unfolding create_to_delayed_action_def to_delayed_action_item_def by (intro quiet_intros)

lemma quiet_create_basic [quiet_intros]: "quiet (create_basic P j ps)"
  unfolding create_basic_def basic_item_def by (intro quiet_intros)

lemma quiet_make_manipulator [quiet_intros]: "quiet (make_manipulator P momentum j ps)"
  unfolding make_manipulator_def by (intro quiet_intros)

lemma quiet_make_rule_manipulator [quiet_intros]: "quiet (make_rule_manipulator P momentum rm)"
  unfolding make_rule_manipulator_def by (intro quiet_intros)

subsection \<open>Well-formed manipulators\<close>

definition held_down_ok :: "to_if_held_down \<Rightarrow> bool" where
  "held_down_ok h \<longleftrightarrow> list_all to_ok (hd_to h)"

definition delayed_action_ok :: "to_delayed_action \<Rightarrow> bool" where
  "delayed_action_ok a \<longleftrightarrow> list_all to_ok (da_to_if_invoked a) \<and> list_all to_ok (da_to_if_canceled a)"

definition basic_ok :: "basic \<Rightarrow> bool" where
  "basic_ok b \<longleftrightarrow>
     from_ok (b_from b) \<and> list_all to_ok (b_to b) \<and> list_all to_ok (b_to_after_key_up b)
     \<and> list_all to_ok (b_to_if_alone b) \<and> pred_option held_down_ok (b_to_if_held_down b)
     \<and> pred_option delayed_action_ok (b_to_delayed_action b)"

fun manipulator_ok :: "'k manipulator \<Rightarrow> bool" where
  "manipulator_ok (M_basic b) = basic_ok b"
| "manipulator_ok m = True"

lemma to_if_held_down_ok: "create_to_if_held_down P j l = Inr (h, l') \<Longrightarrow> held_down_ok h"
proof -
  have many: "list_all to_ok ts" if "rd_map (to_event_definition_from_json P) js l = Inr (ts, l')" for js ts l l'
    using that by (rule rd_map_all) (rule to_event_definition_ok)
  assume "create_to_if_held_down P j l = Inr (h, l')"
  then show ?thesis
    by (cases j) (auto simp: create_to_if_held_down_def Let_def held_down_ok_def
        dest: many to_event_definition_ok)
qed

lemma to_delayed_action_ok:
  assumes "create_to_delayed_action P j l = Inr (a, l')"
  shows "delayed_action_ok a"
proof -
  have "rd_fold (to_delayed_action_item P j) (json_items j) to_delayed_action_initial l = Inr (a, l')"
    using assms by (auto simp: create_to_delayed_action_def)
  then show ?thesis
  proof (rule rd_fold_invariant[where Q = delayed_action_ok], goal_cases)
    case (2 kv a l a' l')
    obtain k v where "kv = (k, v)" by force
    with 2(2,3) show ?case
      by (simp add: to_delayed_action_item_def delayed_action_ok_def split: if_split_asm)
        (auto dest: to_event_definitions_ok)
  qed (simp add: delayed_action_ok_def to_delayed_action_initial_def)
qed

lemma simple_basic_ok: "basic_ok (simple_basic ps f ts) \<longleftrightarrow> from_ok f \<and> list_all to_ok ts"
  by (simp add: basic_ok_def simple_basic_def)

lemma create_basic_ok:
  assumes "create_basic P j ps l = Inr (b, l')"
  shows "basic_ok b"
proof -
  have "rd_fold (basic_item P j) (json_items j)
      (simple_basic (basic_parameters_of ps) from_event_definition_default []) l = Inr (b, l')"
    using assms by (auto simp: create_basic_def)
  then show ?thesis
  proof (rule rd_fold_invariant[where Q = basic_ok], goal_cases)
    case 1
    show ?case
      by (simp add: simple_basic_ok from_ok_def from_event_definition_default_def simultaneous_options_default_def)
  next
    case (2 kv b l b' l')
    obtain k v where "kv = (k, v)" by force
    with 2(2,3) show ?case
      by (simp add: basic_item_def basic_ok_def split: if_split_asm)
        (auto dest: to_event_definitions_ok from_event_definition_ok to_if_held_down_ok to_delayed_action_ok)
  qed
qed

lemma push_back_condition_ok [simp]:
  "manipulator_ok (push_back_condition c m) \<longleftrightarrow> manipulator_ok m"
  "manipulator_validity (push_back_condition c m) = manipulator_validity m"
  by (cases m; simp add: basic_ok_def)+

lemma make_manipulator_ok:
  "make_manipulator P momentum j ps l = Inr (m, l') \<Longrightarrow> manipulator_ok m"
  by (auto simp: make_manipulator_def dest: create_basic_ok split: option.splits if_split_asm)

lemma make_rule_manipulator_ok:
  assumes "make_rule_manipulator P momentum rm l = Inr (m, l')"
  shows "manipulator_ok m"
proof -
  obtain m0 l0 where m0: "make_manipulator P momentum (rm_json rm) (rm_parameters rm) l = Inr (m0, l0)"
    and fold: "rd_fold (\<lambda>c m. rd_bind (make_condition P c) (\<lambda>c'. rd_return (push_back_condition c' m)))
      (rm_conditions rm) m0 l0 = Inr (m, l')"
    using assms by (auto simp: make_rule_manipulator_def)
  from fold make_manipulator_ok[OF m0] show ?thesis
    by (rule rd_fold_invariant) auto
qed

text \<open>What the loop that pushes made manipulators adds.\<close>

lemma push_back_made_extends:
  assumes "quiet r" "\<And>l m l'. r l = Inr (m, l') \<Longrightarrow> Q m"
  shows "\<exists>new. fst (push_back_made r s) = fst s @ new \<and> list_all Q new \<and> length new \<le> 1 \<and>
    extends (snd s) (snd (push_back_made r s))"
  using assms by (auto simp: push_back_made_def quiet_def split: sum.splits prod.splits)

lemma fold_push_back_made:
  assumes "\<And>x. x \<in> set xs \<Longrightarrow> quiet (r x)" "\<And>x l m l'. x \<in> set xs \<Longrightarrow> r x l = Inr (m, l') \<Longrightarrow> Q m"
  shows "\<exists>new. fst (fold (\<lambda>x. push_back_made (r x)) xs s) = fst s @ new \<and> list_all Q new \<and>
    length new \<le> length xs \<and> extends (snd s) (snd (fold (\<lambda>x. push_back_made (r x)) xs s))"
  using assms
proof (induction xs arbitrary: s)
  case (Cons x xs)
  have rx: "quiet (r x)" "r x l = Inr (m, l') \<Longrightarrow> Q m" for l m l'
    using Cons.prems(1) Cons.prems(2)[of x] by simp_all
  have rxs: "y \<in> set xs \<Longrightarrow> quiet (r y)" "y \<in> set xs \<Longrightarrow> r y l = Inr (m, l') \<Longrightarrow> Q m" for y l m l'
    using Cons.prems(1) Cons.prems(2)[of y] by simp_all
  obtain new1 where one: "fst (push_back_made (r x) s) = fst s @ new1" "list_all Q new1" "length new1 \<le> 1"
    "extends (snd s) (snd (push_back_made (r x) s))"
    using push_back_made_extends[OF rx(1), where Q = Q and s = s] rx(2) by blast
  obtain new2 where "fst (fold (\<lambda>x. push_back_made (r x)) xs (push_back_made (r x) s)) =
      fst (push_back_made (r x) s) @ new2" "list_all Q new2" "length new2 \<le> length xs"
    "extends (snd (push_back_made (r x) s)) (snd (fold (\<lambda>x. push_back_made (r x)) xs (push_back_made (r x) s)))"
    using Cons.IH[where s = "push_back_made (r x) s"] rxs by blast
  with one show ?case
    by (intro exI[of _ "new1 @ new2"]) (auto intro: extends_trans)
qed simp

text \<open>
  C17. Whatever rules the configuration has, reloading them keeps in front the invalidated
  manipulators that are still active, leaves every expression in use and the variables of the
  condition expression manager as they were, and adds at most one manipulator per enabled entry,
  each of them well formed: its from events are keys, each of its to
  definitions makes an event or is a sticky modifier without a value.
\<close>

theorem reloaded_manipulators_are_well_formed:
  "\<exists>new. fst (update_complex_modifications_manipulators P momentum rs (ms, l)) =
      invalidate_manipulators ms @ new \<and>
    list_all manipulator_ok new \<and> length new \<le> length (enabled_manipulators rs) \<and>
    extends l (snd (update_complex_modifications_manipulators P momentum rs (ms, l)))"
  using fold_push_back_made[of "enabled_manipulators rs" "make_rule_manipulator P momentum" manipulator_ok
      "(invalidate_manipulators ms, l)"]
  by (simp add: update_complex_modifications_manipulators_def quiet_make_rule_manipulator
      make_rule_manipulator_ok)

subsection \<open>Manipulators and conditions that do not read\<close>

definition condition_types :: "string list" where
  "condition_types =
     concat (map (\<lambda>n. [n @ ''_if'', n @ ''_unless''])
       [''device'', ''device_exists'', ''event_changed'', ''expression'', ''frontmost_application'',
        ''input_source'', ''variable'', ''keyboard_type''])"

definition manipulator_types :: "string list" where
  "manipulator_types = [''basic'', ''mouse_basic'', ''mouse_motion_to_scroll'']"

definition basic_keys :: "string list" where
  "basic_keys = [''from'', ''to'', ''to_after_key_up'', ''to_if_alone'', ''to_if_held_down'',
     ''to_delayed_action'', ''description'', ''conditions'', ''parameters'', ''type'']"

definition has_type_of :: "string list \<Rightarrow> json \<Rightarrow> bool" where
  "has_type_of ts j \<longleftrightarrow> json_find j ''type'' \<in> (\<lambda>t. Some (JString t)) ` set ts"

text \<open>
  A type that is missing, no string or unknown, and for \<open>basic\<close> a member with an unknown name.
\<close>

definition unreadable_manipulator :: "json \<Rightarrow> bool" where
  "unreadable_manipulator j \<longleftrightarrow>
     \<not> has_type_of manipulator_types j \<or>
     json_find j ''type'' = Some (JString ''basic'') \<and> \<not> fst ` set (json_items j) \<subseteq> set basic_keys"

lemma rd_fold_fails:
  assumes "x \<in> set xs" "\<And>s l. \<exists>e. f x s l = Inl e"
  shows "\<exists>e. rd_fold f xs s l = Inl e"
  using assms(1)
proof (induction xs arbitrary: s l)
  case (Cons y ys)
  show ?case
  proof (cases "f y s l")
    case (Inl e)
    then show ?thesis by (simp add: rd_bind_def)
  next
    case (Inr r)
    then have "x \<in> set ys" using assms(2)[of s l] Cons.prems by auto
    with Cons.IH[of "fst r" "snd r"] Inr show ?thesis by (simp add: rd_bind_def)
  qed
qed simp

lemma unreadable_condition_fails:
  assumes "\<not> has_type_of condition_types c"
  shows "\<exists>e. make_condition P c l = Inl e"
proof (cases "json_find c ''type''")
  case None
  then show ?thesis by (simp add: make_condition_def rd_throw_def)
next
  case (Some tj)
  then have "tj \<noteq> JString t" if "t \<in> set condition_types" for t
    using assms that by (auto simp: has_type_of_def)
  with Some show ?thesis
    by (cases tj)
      (auto simp: make_condition_def condition_types_def if_or_unless_def rd_bind_def rd_lift_def rd_throw_def
        requires_string_def)
qed

lemma unknown_basic_key_fails:
  assumes "(k, v) \<in> set (json_items j)" "k \<notin> set basic_keys"
  shows "\<exists>e. create_basic P j ps l = Inl e"
proof -
  have "\<exists>e. basic_item P j (k, v) b l = Inl e" for b l
    using assms(2) by (simp add: basic_item_def basic_keys_def rd_throw_def)
  then have "\<exists>e. rd_fold (basic_item P j) (json_items j) b l = Inl e" for b l
    by (rule rd_fold_fails[OF assms(1)])
  then show ?thesis
    by (cases "json_is_object j") (auto simp: create_basic_def rd_bind_def rd_lift_def requires_object_def)
qed

lemma unreadable_manipulator_fails:
  assumes "unreadable_manipulator j"
  shows "\<exists>e. make_manipulator P momentum j ps l = Inl e"
proof (cases "json_find j ''type''")
  case None
  then show ?thesis by (simp add: make_manipulator_def rd_throw_def)
next
  case (Some tj)
  show ?thesis
  proof (cases "json_find j ''type'' = Some (JString ''basic'')")
    case True
    then have "\<not> fst ` set (json_items j) \<subseteq> set basic_keys"
      using assms by (auto simp: unreadable_manipulator_def has_type_of_def manipulator_types_def)
    then obtain k v where "(k, v) \<in> set (json_items j)" "k \<notin> set basic_keys" by fastforce
    then obtain e where "create_basic P j ps l = Inl e" using unknown_basic_key_fails by blast
    with True show ?thesis
      by (auto simp: make_manipulator_def rd_bind_def rd_lift_def)
  next
    case False
    then show ?thesis
      using assms Some
      by (cases tj) (auto simp: make_manipulator_def unreadable_manipulator_def has_type_of_def
          manipulator_types_def rd_bind_def rd_lift_def rd_throw_def)
  qed
qed

text \<open>A manipulator with the conditions it was defined with, all of them, in order.\<close>

definition made_with_its_conditions :: "platform \<Rightarrow> int \<Rightarrow> rule_manipulator \<Rightarrow> 'k manipulator \<Rightarrow> bool" where
  "made_with_its_conditions P momentum rm m \<longleftrightarrow>
     (\<exists>m0 l0 l1 cs. make_manipulator P momentum (rm_json rm) (rm_parameters rm) l0 = Inr (m0, l1) \<and>
        list_all2 (\<lambda>c c'. \<exists>l l'. make_condition P c l = Inr (c', l')) (rm_conditions rm) cs \<and>
        m = fold push_back_condition cs m0)"

lemma rd_fold_conditions:
  "rd_fold (\<lambda>c m. rd_bind (make_condition P c) (\<lambda>c'. rd_return (push_back_condition c' m))) js m0 l = Inr (m, l') \<Longrightarrow>
   \<exists>cs. list_all2 (\<lambda>c c'. \<exists>l l'. make_condition P c l = Inr (c', l')) js cs \<and> m = fold push_back_condition cs m0"
proof (induction js arbitrary: m0 l)
  case (Cons j js)
  then obtain c l1 where c: "make_condition P j l = Inr (c, l1)"
    and rest: "rd_fold (\<lambda>c m. rd_bind (make_condition P c) (\<lambda>c'. rd_return (push_back_condition c' m))) js
      (push_back_condition c m0) l1 = Inr (m, l')"
    by auto
  from Cons.IH[OF rest] obtain cs where
    "list_all2 (\<lambda>c c'. \<exists>l l'. make_condition P c l = Inr (c', l')) js cs" "m = fold push_back_condition cs (push_back_condition c m0)"
    by blast
  with c show ?case by (intro exI[of _ "c # cs"]) auto
qed (simp add: rd_return_def)

lemma made_rule_manipulator:
  assumes "make_rule_manipulator P momentum rm l = Inr (m, l')"
  shows "made_with_its_conditions P momentum rm m"
proof -
  obtain m0 l1 where "make_manipulator P momentum (rm_json rm) (rm_parameters rm) l = Inr (m0, l1)"
    and "rd_fold (\<lambda>c m. rd_bind (make_condition P c) (\<lambda>c'. rd_return (push_back_condition c' m)))
      (rm_conditions rm) m0 l1 = Inr (m, l')"
    using assms by (auto simp: make_rule_manipulator_def)
  with rd_fold_conditions show ?thesis unfolding made_with_its_conditions_def by blast
qed

text \<open>What becomes of an entry of a rule: nothing, because it failed, or a manipulator.\<close>

fun rule_outcome :: "platform \<Rightarrow> int \<Rightarrow> rule_manipulator \<Rightarrow> 'k manipulator option \<Rightarrow> bool" where
  "rule_outcome P momentum rm None =
     (\<exists>l e. make_rule_manipulator P momentum rm l = (Inl e :: json_error + 'k manipulator \<times> loader))"
| "rule_outcome P momentum rm (Some m) = made_with_its_conditions P momentum rm m"

lemma fold_rule_outcomes:
  "\<exists>os. list_all2 (rule_outcome P momentum) rms os \<and>
     fst (fold (\<lambda>rm. push_back_made (make_rule_manipulator P momentum rm)) rms s) = fst s @ List.map_filter id os"
proof (induction rms arbitrary: s)
  case (Cons rm rms)
  define o' :: "'a manipulator option" where
    "o' = (case make_rule_manipulator P momentum rm (snd s) of Inl e \<Rightarrow> None | Inr r \<Rightarrow> Some (fst r))"
  let ?s = "push_back_made (make_rule_manipulator P momentum rm) s"
  have "rule_outcome P momentum rm o'"
    by (auto simp: o'_def split: sum.splits intro: made_rule_manipulator)
  moreover have "fst ?s = fst s @ List.map_filter id [o']"
    by (auto simp: push_back_made_def o'_def map_filter_def split: sum.splits)
  moreover obtain os where "list_all2 (rule_outcome P momentum) rms os"
    "fst (fold (\<lambda>rm. push_back_made (make_rule_manipulator P momentum rm)) rms ?s) = fst ?s @ List.map_filter id os"
    using Cons.IH by blast
  ultimately show ?case
    by (intro exI[of _ "o' # os"]) (auto simp: map_filter_def)
qed (auto simp: map_filter_def)

text \<open>
  C20. A broken entry of the rules is left out as a whole: if its type is missing or unknown, if a \<open>basic\<close>
  entry has an unknown member, or if one of its conditions has a missing or unknown type, the outcome
  is that of the rules without the entry. Whatever the rules, every manipulator added belongs to an
  entry and has all the conditions of the entry, in order; an entry without one failed to read.
\<close>

theorem broken_manipulator_is_left_out:
  assumes "enabled_manipulators rs = xs @ bad # ys" "enabled_manipulators rs' = xs @ ys"
    and "unreadable_manipulator (rm_json bad) \<or> list_ex (\<lambda>c. \<not> has_type_of condition_types c) (rm_conditions bad)"
  shows "update_complex_modifications_manipulators P momentum rs s =
      (update_complex_modifications_manipulators P momentum rs' s :: 'k manipulator list \<times> loader) \<and>
    (\<exists>os. list_all2 (rule_outcome P momentum) (enabled_manipulators rs) os \<and>
      fst (update_complex_modifications_manipulators P momentum rs s) =
        invalidate_manipulators (fst s) @ List.map_filter id os)"
proof
  have "\<exists>e. make_rule_manipulator P momentum bad l = (Inl e :: json_error + 'k manipulator \<times> loader)" for l
  proof (cases "make_manipulator P momentum (rm_json bad) (rm_parameters bad) l :: json_error + 'k manipulator \<times> loader")
    case (Inl e)
    then show ?thesis by (simp add: make_rule_manipulator_def rd_bind_def)
  next
    case (Inr r)
    have "\<exists>e. make_manipulator P momentum (rm_json bad) (rm_parameters bad) l =
        (Inl e :: json_error + 'k manipulator \<times> loader)" if "unreadable_manipulator (rm_json bad)"
      by (rule unreadable_manipulator_fails[OF that])
    with Inr obtain c where c: "c \<in> set (rm_conditions bad)" "\<not> has_type_of condition_types c"
      using assms(3) by (auto simp: list_ex_iff)
    have "\<exists>e. rd_bind (make_condition P c) (\<lambda>c'. rd_return (push_back_condition c' m)) l = Inl e"
      for m :: "'k manipulator" and l
      using unreadable_condition_fails[OF c(2), of P l] by (auto simp: rd_bind_def)
    then have "\<exists>e. rd_fold (\<lambda>c m. rd_bind (make_condition P c) (\<lambda>c'. rd_return (push_back_condition c' m)))
        (rm_conditions bad) (fst r) (snd r) = Inl e"
      by (rule rd_fold_fails[OF c(1)])
    with Inr show ?thesis by (simp add: make_rule_manipulator_def rd_bind_def)
  qed
  then have "push_back_made (make_rule_manipulator P momentum bad :: 'k manipulator reading) t = t" for t
    unfolding push_back_made_def by (metis (no_types, lifting) sum.case(1))
  then show "update_complex_modifications_manipulators P momentum rs s =
      (update_complex_modifications_manipulators P momentum rs' s :: 'k manipulator list \<times> loader)"
    using assms(1,2) by (simp add: update_complex_modifications_manipulators_def)
  show "\<exists>os. list_all2 (rule_outcome P momentum) (enabled_manipulators rs) os \<and>
      fst (update_complex_modifications_manipulators P momentum rs s) =
        invalidate_manipulators (fst s) @ List.map_filter id os"
    using fold_rule_outcomes[of P momentum "enabled_manipulators rs" "(invalidate_manipulators (fst s), snd s)"]
    by (simp add: update_complex_modifications_manipulators_def)
qed

subsection \<open>Examples\<close>

definition sample_loader :: loader where
  "sample_loader = \<lparr>ld_world = witness_world, ld_next = 10\<rparr>"

definition sample_rule :: "rule_manipulator list \<Rightarrow> complex_modifications_rule" where
  "sample_rule rms =
     \<lparr>cmr_json = JNull, cmr_manipulators = rms,
      cmr_values = [value_t_initial (''enabled'', Config_bool True)], cmr_description = []\<rparr>"

definition sample_rule_manipulator :: "json list \<Rightarrow> rule_manipulator" where
  "sample_rule_manipulator cs =
     \<lparr>rm_json = JObject [(''flip'', JArray [JString ''x'']), (''type'', JString ''mouse_basic'')],
      rm_conditions = cs, rm_parameters = sample_parent, rm_description = []\<rparr>"

lemma enabled_sample_rule: "enabled_manipulators [sample_rule rms] = rms"
  by (simp add: enabled_manipulators_def sample_rule_def get_enabled_def bool_member_def member_value_def
      find_value_def value_t_initial_def)

text \<open>Three times the same manipulator, the second with a condition of a type that does not exist.\<close>

theorem broken_manipulator_is_left_out_witness:
  "fst (update_complex_modifications_manipulators witness_platform 0
     [sample_rule [sample_rule_manipulator [],
        sample_rule_manipulator [JObject [(''type'', JString ''frontmost_if'')]], sample_rule_manipulator []]]
     ([], sample_loader)) =
   (replicate 2 (M_mouse_basic (mouse_basic_initial\<lparr>mb_flip_x := True\<rparr>)) :: unit manipulator list)"
proof -
  let ?g = "sample_rule_manipulator []" and ?b = "sample_rule_manipulator [JObject [(''type'', JString ''frontmost_if'')]]"
  have bad: "unreadable_manipulator (rm_json ?b) \<or> list_ex (\<lambda>c. \<not> has_type_of condition_types c) (rm_conditions ?b)"
    by (simp add: sample_rule_manipulator_def has_type_of_def condition_types_def json_find_def image_def)
  have good: "make_rule_manipulator witness_platform 0 ?g l =
      Inr (M_mouse_basic (mouse_basic_initial\<lparr>mb_flip_x := True\<rparr>) :: unit manipulator, l)" for l
    by (simp add: make_rule_manipulator_def make_manipulator_def sample_rule_manipulator_def json_find_def rd_bind_def
        rd_lift_def rd_return_def create_mouse_basic_def requires_object_def mouse_basic_item_def names_field_def
        requires_array_def requires_string_def flip_name_def)
  have "update_complex_modifications_manipulators witness_platform 0 [sample_rule [?g, ?b, ?g]] ([], sample_loader) =
      (update_complex_modifications_manipulators witness_platform 0 [sample_rule [?g, ?g]] ([], sample_loader)
        :: unit manipulator list \<times> loader)"
    by (rule broken_manipulator_is_left_out[where xs = "[?g]" and ys = "[?g]", OF _ _ bad, THEN conjunct1])
      (simp_all add: enabled_sample_rule)
  then show ?thesis
    by (simp add: update_complex_modifications_manipulators_def enabled_sample_rule push_back_made_def good
        invalidate_manipulators_def remove_invalid_manipulators_def erase_if_def numeral_2_eq_2)
qed

end
