(* ===== verification/Modification_Managers.thy ===== *)
theory Modification_Managers
  imports Manipulator_Factory Core_Configuration
begin

text \<open>
  \<open>simple_modifications_manipulator_manager.hpp\<close> and \<open>fn_function_keys_manipulator_manager.hpp\<close> of
  \<open>src/core/grabber/include/grabber/device_grabber_details\<close>: how the manipulators of the first and
  the third stage are made from the pairs of JSON texts of a profile and its devices.

  The theory shows that a device's modifications hold for that device only, and what the function
  keys become under both settings of macOS.
\<close>

subsection \<open>Access to members\<close>

text \<open>\<open>operator[]\<close> makes an object of null and throws for every other value.\<close>

definition json_at :: "string \<Rightarrow> json \<Rightarrow> json_error + json" where
  "json_at k j =
     (case j of
        JObject ms \<Rightarrow> Inr (case map_of ms k of Some v \<Rightarrow> v | None \<Rightarrow> JNull)
      | JNull \<Rightarrow> Inr JNull
      | _ \<Rightarrow> Inl Json_type_error)"

definition json_assign :: "string \<Rightarrow> json \<Rightarrow> json \<Rightarrow> json_error + json" where
  "json_assign k v j =
     (case j of
        JObject ms \<Rightarrow> Inr (json_set k v j)
      | JNull \<Rightarrow> Inr (json_set k v j)
      | _ \<Rightarrow> Inl Json_type_error)"

definition json_contains :: "string \<Rightarrow> json \<Rightarrow> bool" where
  "json_contains k j \<longleftrightarrow> json_find j k \<noteq> None"

fun json_push_back :: "json \<Rightarrow> json \<Rightarrow> json_error + json" where
  "json_push_back x JNull = Inr (JArray [x])"
| "json_push_back x (JArray js) = Inr (JArray (js @ [x]))"
| "json_push_back x _ = Inl Json_type_error"

text \<open>A loop over a value visits the elements of an array, the members of an object, or the value itself.\<close>

fun json_iterate :: "json \<Rightarrow> json list" where
  "json_iterate JNull = []"
| "json_iterate (JArray js) = js"
| "json_iterate (JObject ms) = map snd ms"
| "json_iterate j = [j]"

definition assign_modifiers :: "string \<Rightarrow> json \<Rightarrow> json \<Rightarrow> json_error + json" where
  "assign_modifiers k v j =
     ok_bind (json_at ''modifiers'' j) (\<lambda>m.
     ok_bind (json_assign k v m) (\<lambda>m'.
     json_assign ''modifiers'' m' j))"

definition parse_text :: "json_text \<Rightarrow> string \<Rightarrow> json_error + json" where
  "parse_text T s = (case jt_parse T s of Some j \<Rightarrow> Inr j | None \<Rightarrow> Inl Parse_error)"

definition default_parameters :: settings where
  "default_parameters =
     adjust_values \<lparr>st_json = JObject [],
                    st_values = map value_t_initial complex_modifications_parameters_values\<rparr>"

definition make_simple_basic ::
    "platform \<Rightarrow> json \<Rightarrow> to_event_definition list \<Rightarrow> 'k manipulator reading" where
  "make_simple_basic P from_json ts =
     rd_bind (from_event_definition_from_json P from_json) (\<lambda>f.
     rd_return (M_basic (simple_basic (basic_parameters_of default_parameters) f ts)))"

subsection \<open>simple_modifications_manipulator_manager\<close>

text \<open>
  \<open>make_manipulator\<close> gives a null pointer for an empty text and after an exception, which it logs;
  in the model it throws, and the manipulator is left out either way.
\<close>

definition make_simple_manipulator ::
    "json_text \<Rightarrow> platform \<Rightarrow> string \<times> string \<Rightarrow> 'k manipulator reading" where
  "make_simple_manipulator T P p =
     (if fst p = [] \<or> snd p = [] then rd_throw Parse_error
      else rd_bind (rd_lift (parse_text T (fst p))) (\<lambda>f.
           rd_bind (rd_lift (assign_modifiers ''optional'' (JArray [JString ''any'']) f)) (\<lambda>from_json.
           rd_bind (rd_lift (parse_text T (snd p))) (\<lambda>to_json.
           rd_bind (rd_map (to_event_definition_from_json P) (json_iterate to_json)) (\<lambda>ts.
           make_simple_basic P from_json ts)))))"

definition with_condition :: "json_error + condition \<Rightarrow> 'k manipulator \<Rightarrow> 'k manipulator reading" where
  "with_condition c m = rd_bind (rd_lift c) (\<lambda>c'. rd_return (push_back_condition c' m))"

definition device_condition :: "device \<Rightarrow> json_error + condition" where
  "device_condition d = make_device_if_condition (si_identifiers (dv_identifiers d))"

text \<open>The names of the options that are set.\<close>

definition set_names :: "(string \<times> bool) list \<Rightarrow> json list" where
  "set_names nbs = map (\<lambda>nb. JString (fst nb)) (filter snd nbs)"

definition device_flip :: "device \<Rightarrow> json list" where
  "device_flip d =
     set_names [(''x'', get_mouse_flip_x d), (''y'', get_mouse_flip_y d),
                (''vertical_wheel'', get_mouse_flip_vertical_wheel d),
                (''horizontal_wheel'', get_mouse_flip_horizontal_wheel d)]"

definition device_swap :: "device \<Rightarrow> json list" where
  "device_swap d = set_names [(''xy'', get_mouse_swap_xy d), (''wheels'', get_mouse_swap_wheels d)]"

definition device_discard :: "device \<Rightarrow> json list" where
  "device_discard d =
     set_names [(''x'', get_mouse_discard_x d), (''y'', get_mouse_discard_y d),
                (''vertical_wheel'', get_mouse_discard_vertical_wheel d),
                (''horizontal_wheel'', get_mouse_discard_horizontal_wheel d)]"

definition make_device_mouse_basic :: "device \<Rightarrow> 'k manipulator reading" where
  "make_device_mouse_basic d =
     rd_bind (rd_lift (create_mouse_basic
       (JObject [(''discard'', JArray (device_discard d)), (''flip'', JArray (device_flip d)),
                 (''swap'', JArray (device_swap d)), (''type'', JString ''mouse_basic'')]))) (\<lambda>b.
     with_condition (device_condition d) (M_mouse_basic b))"

definition device_simple_manipulators ::
    "json_text \<Rightarrow> platform \<Rightarrow> device \<Rightarrow> 'k manipulator list \<times> loader \<Rightarrow> 'k manipulator list \<times> loader" where
  "device_simple_manipulators T P d s =
     (let s1 = fold (\<lambda>p. push_back_made
                       (rd_bind (make_simple_manipulator T P p) (with_condition (device_condition d))))
                 (dv_simple_modifications d) s
      in if device_flip d \<noteq> [] \<or> device_swap d \<noteq> [] \<or> device_discard d \<noteq> []
         then push_back_made (make_device_mouse_basic d) s1 else s1)"

definition update_simple_manipulators ::
    "json_text \<Rightarrow> platform \<Rightarrow> profile \<Rightarrow> 'k manipulator list \<times> loader \<Rightarrow> 'k manipulator list \<times> loader" where
  "update_simple_manipulators T P p s =
     fold (\<lambda>pair. push_back_made (make_simple_manipulator T P pair)) (pfl_simple_modifications p)
       (fold (device_simple_manipulators T P) (pfl_devices p)
         (invalidate_manipulators (fst s), snd s))"

subsection \<open>fn_function_keys_manipulator_manager\<close>

definition f1_f12_key :: "string \<Rightarrow> bool" where
  "f1_f12_key s \<longleftrightarrow> s \<in> set (map (\<lambda>i. CHR ''f'' # decimal i) [1..<13])"

text \<open>\<open>key_code\<close> is converted to a string for the comparison, which throws for a number.\<close>

definition is_f1_f12 :: "json \<Rightarrow> json_error + bool" where
  "is_f1_f12 j =
     (case json_find j ''key_code'' of
        None \<Rightarrow> Inr False
      | Some v \<Rightarrow> ok_bind (json_get_string v) (\<lambda>s. Inr (f1_f12_key s)))"

definition push_back_fn :: "json \<Rightarrow> json_error + json" where
  "push_back_fn j =
     ok_bind (json_at ''modifiers'' j) (\<lambda>m.
     if json_contains ''fn'' m then Inr j
     else ok_bind (json_push_back (JString ''fn'') m) (\<lambda>m'. json_assign ''modifiers'' m' j))"

text \<open>
  F1 to F12 are sent with fn where macOS would take them for media keys; all other keys are sent
  with fn where fn had to be held, so that it is not tapped.
\<close>

definition function_key_to :: "bool \<Rightarrow> json \<Rightarrow> json_error + json" where
  "function_key_to fn j =
     ok_bind (is_f1_f12 j) (\<lambda>f. if f \<noteq> fn then push_back_fn j else Inr j)"

definition make_function_key_manipulator ::
    "json_text \<Rightarrow> platform \<Rightarrow> bool \<Rightarrow> string \<times> string \<Rightarrow> 'k manipulator reading" where
  "make_function_key_manipulator T P fn p =
     rd_bind (rd_lift (parse_text T (fst p))) (\<lambda>f.
     if json_empty f then rd_throw Parse_error
     else rd_bind (rd_lift (assign_modifiers ''mandatory''
                             (JArray (if fn then [JString ''fn''] else [])) f)) (\<lambda>f1.
          rd_bind (rd_lift (assign_modifiers ''optional'' (JArray [JString ''any'']) f1)) (\<lambda>from_json.
          rd_bind (rd_lift (parse_text T (snd p))) (\<lambda>to_json.
          if json_empty to_json then rd_throw Parse_error
          else rd_bind (rd_map (\<lambda>j. rd_bind (rd_lift (function_key_to fn j)) (to_event_definition_from_json P))
                         (json_iterate to_json)) (\<lambda>ts.
               make_simple_basic P from_json ts)))))"

definition make_simple_pair :: "platform \<Rightarrow> json \<Rightarrow> json \<Rightarrow> 'k manipulator reading" where
  "make_simple_pair P from_json to_json =
     rd_bind (to_event_definition_from_json P to_json) (\<lambda>t. make_simple_basic P from_json [t])"

definition fn_key_manipulator :: "platform \<Rightarrow> nat \<Rightarrow> 'k manipulator reading" where
  "fn_key_manipulator P i =
     (let key = JString (CHR ''f'' # decimal i)
      in make_simple_pair P
           (JObject [(''key_code'', key),
                     (''modifiers'', JObject [(''mandatory'', JArray [JString ''fn'']),
                                              (''optional'', JArray [JString ''any''])])])
           (JObject [(''key_code'', key), (''modifiers'', JArray [JString ''fn''])]))"

definition not_touch_bar_key :: "'k manipulator \<Rightarrow> 'k manipulator reading" where
  "not_touch_bar_key m =
     rd_bind (with_condition (make_event_changed_if_condition False) m)
       (with_condition make_device_unless_touch_bar_condition)"

definition touch_id_manipulator :: "platform \<Rightarrow> 'k manipulator reading" where
  "touch_id_manipulator P =
     make_simple_pair P
       (JObject [(''consumer_key_code'', JString ''menu''),
                 (''modifiers'', JObject [(''optional'', JArray [JString ''any''])])])
       (JObject [(''consumer_key_code'', JString ''al_terminal_lock_or_screensaver'')])"

definition application_launch_buttons :: "(string \<times> string) list" where
  "application_launch_buttons =
     [(''al_consumer_control_configuration'', ''Music.app''),
      (''al_word_processor'', ''Pages.app''),
      (''al_text_editor'', ''TextEdit.app''),
      (''al_spreadsheet'', ''Numbers.app''),
      (''al_presentation_app'', ''Keynote.app''),
      (''al_email_reader'', ''Mail.app''),
      (''al_calculator'', ''Calculator.app''),
      (''al_local_machine_browser'', ''Finder.app''),
      (''al_internet_browser'', ''Safari.app''),
      (''al_dictionary'', ''Dictionary.app'')]"

definition application_launch_manipulator :: "platform \<Rightarrow> string \<times> string \<Rightarrow> 'k manipulator reading" where
  "application_launch_manipulator P b =
     rd_bind (rd_lift (assign_modifiers ''mandatory'' (JArray [JString ''any''])
                         (JObject [(''consumer_key_code'', JString (fst b))]))) (\<lambda>from_json.
     make_simple_pair P from_json
       (JObject [(''shell_command'', JString (''open -a '' @ [CHR 0x27] @ snd b @ [CHR 0x27]))]))"

definition device_fn_manipulators ::
    "json_text \<Rightarrow> platform \<Rightarrow> bool \<Rightarrow> device \<Rightarrow> 'k manipulator list \<times> loader \<Rightarrow> 'k manipulator list \<times> loader" where
  "device_fn_manipulators T P fn d =
     fold (\<lambda>p. push_back_made
             (rd_bind (make_function_key_manipulator T P fn p) (\<lambda>m.
              rd_bind (not_touch_bar_key m) (with_condition (device_condition d)))))
       (dv_fn_function_keys d)"

definition update_fn_manipulators ::
    "json_text \<Rightarrow> platform \<Rightarrow> profile \<Rightarrow> system_preferences_properties \<Rightarrow>
     'k manipulator list \<times> loader \<Rightarrow> 'k manipulator list \<times> loader" where
  "update_fn_manipulators T P p spp s =
     (let fn = spp_use_fkeys_as_standard_function_keys spp;
          s1 = (if fn then (invalidate_manipulators (fst s), snd s)
                else fold (\<lambda>i. push_back_made (fn_key_manipulator P i)) [1..<13]
                       (invalidate_manipulators (fst s), snd s));
          s2 = fold (device_fn_manipulators T P fn) (pfl_devices p) s1;
          s3 = fold (\<lambda>pair. push_back_made
                        (rd_bind (make_function_key_manipulator T P fn pair) not_touch_bar_key))
                 (pfl_fn_function_keys p) s2;
          s4 = push_back_made (touch_id_manipulator P) s3
      in fold (\<lambda>b. push_back_made (application_launch_manipulator P b)) application_launch_buttons s4)"


subsection \<open>Conditions of the made manipulators\<close>

fun manipulator_conditions :: "'k manipulator \<Rightarrow> condition list" where
  "manipulator_conditions (M_basic b) = b_conditions b"
| "manipulator_conditions (M_mouse_basic b) = mb_conditions b"
| "manipulator_conditions (M_mouse_motion_to_scroll b) = mts_conditions b"
| "manipulator_conditions _ = []"

text \<open>The device an entry comes from is one the identifiers of \<open>d\<close> name.\<close>

definition comes_from :: "device_identifiers \<Rightarrow> entry \<Rightarrow> manipulator_environment \<Rightarrow> bool" where
  "comes_from d en env \<longleftrightarrow>
     (\<exists>dp. dpm_find (en_device_id en) (env_device_properties_manager env) = Some dp \<and>
       di_vendor_id (dp_device_identifiers dp) = di_vendor_id d \<and>
       di_product_id (dp_device_identifiers dp) = di_product_id d \<and>
       di_is_keyboard (dp_device_identifiers dp) = di_is_keyboard d \<and>
       di_is_pointing_device (dp_device_identifiers dp) = di_is_pointing_device d)"

definition identifiers_fit :: "device_identifiers \<Rightarrow> bool" where
  "identifiers_fit d \<longleftrightarrow>
     0 \<le> di_vendor_id d \<and> di_vendor_id d < 2 ^ 64 \<and> 0 \<le> di_product_id d \<and> di_product_id d < 2 ^ 64"

lemma make_device_if_condition_reads:
  assumes "identifiers_fit d"
  shows "make_device_if_condition d =
    Inr (C_device device_if
      [device_definition_empty
         \<lparr>dd_vendor_id := Some (di_vendor_id d), dd_product_id := Some (di_product_id d),
          dd_is_keyboard := Some (di_is_keyboard d), dd_is_pointing_device := Some (di_is_pointing_device d)\<rparr>])"
  using assms
  by (simp add: make_device_if_condition_def device_condition_from_json_def json_set_def requires_object_def
      requires_array_def handle_identifiers_json_def device_definition_item_def identifiers_fit_def
      requires_number_def entry_boolean_def requires_boolean_def device_condition_type_from_json_def
      requires_string_def device_definition_valid_def device_definition_empty_def)

definition device_only :: "device_identifiers \<Rightarrow> condition \<Rightarrow> bool" where
  "device_only d c \<longleftrightarrow>
     (\<forall>P en env v. condition_holds P en env v c \<longleftrightarrow> comes_from d en env)"

lemma make_device_if_condition_only:
  assumes "identifiers_fit d"
  obtains c where "make_device_if_condition d = Inr c" "device_only d c"
proof -
  let ?dd = "device_definition_empty
         \<lparr>dd_vendor_id := Some (di_vendor_id d), dd_product_id := Some (di_product_id d),
          dd_is_keyboard := Some (di_is_keyboard d), dd_is_pointing_device := Some (di_is_pointing_device d)\<rparr>"
  have "device_only d (C_device device_if [?dd])"
    by (auto simp: device_only_def condition_holds_def device_is_fulfilled_def comes_from_def
        device_definition_fulfilled_def device_definition_empty_def field_matches_def Let_def
        split: option.splits)
  with make_device_if_condition_reads[OF assms] that show ?thesis by blast
qed


definition for_device :: "device_identifiers \<Rightarrow> 'k manipulator \<Rightarrow> bool" where
  "for_device d m \<longleftrightarrow> (\<exists>c\<in>set (manipulator_conditions m). device_only d c)"

lemma with_condition_for_device:
  assumes "identifiers_fit d" "with_condition (make_device_if_condition d) m l = Inr (m', l')"
    "\<exists>b. m = M_basic b \<or> m = M_mouse_basic b'"
  shows "for_device d m'"
proof -
  obtain c where c: "make_device_if_condition d = Inr c" "device_only d c"
    using make_device_if_condition_only[OF assms(1)] .
  with assms(2,3) show ?thesis by (auto simp: with_condition_def for_device_def)
qed

lemma made_simple_is_basic:
  "make_simple_basic P f ts l = Inr (m, l') \<Longrightarrow> \<exists>b. m = M_basic b"
  by (auto simp: make_simple_basic_def)

lemma make_simple_manipulator_is_basic:
  assumes "make_simple_manipulator T P p l = Inr (m, l')"
  shows "\<exists>b. m = M_basic b"
  using assms unfolding make_simple_manipulator_def
  by (simp split: if_split_asm) (elim exE conjE, erule made_simple_is_basic)

lemma not_touch_bar_key_is_basic:
  assumes "not_touch_bar_key (M_basic b) l = Inr (m, l')"
  shows "\<exists>b. m = M_basic b"
  using assms by (auto simp: not_touch_bar_key_def with_condition_def)

lemma make_function_key_is_basic:
  assumes "make_function_key_manipulator T P fn p l = Inr (m, l')"
  shows "\<exists>b. m = M_basic b"
  using assms unfolding make_function_key_manipulator_def
  by (auto split: if_split_asm dest: made_simple_is_basic)

subsection \<open>The managers keep what is in use\<close>

lemma quiet_make_simple_basic [quiet_intros]: "quiet (make_simple_basic P f ts)"
  unfolding make_simple_basic_def by (intro quiet_intros)

lemma quiet_make_simple_manipulator [quiet_intros]: "quiet (make_simple_manipulator T P p)"
  unfolding make_simple_manipulator_def by (intro quiet_intros)

lemma quiet_with_condition [quiet_intros]: "quiet (with_condition c m)"
  unfolding with_condition_def by (intro quiet_intros)

lemma quiet_device_mouse_basic [quiet_intros]: "quiet (make_device_mouse_basic d)"
  unfolding make_device_mouse_basic_def by (intro quiet_intros)

lemma quiet_function_key [quiet_intros]: "quiet (make_function_key_manipulator T P fn p)"
  unfolding make_function_key_manipulator_def by (intro quiet_intros)

lemma quiet_simple_pair [quiet_intros]: "quiet (make_simple_pair P f t)"
  unfolding make_simple_pair_def by (intro quiet_intros)

lemma quiet_not_touch_bar_key [quiet_intros]: "quiet (not_touch_bar_key m)"
  unfolding not_touch_bar_key_def by (intro quiet_intros)

text \<open>A step of an update adds manipulators with a property behind the ones there were.\<close>

definition adds :: "('k manipulator \<Rightarrow> bool) \<Rightarrow>
    ('k manipulator list \<times> loader \<Rightarrow> 'k manipulator list \<times> loader) \<Rightarrow> bool" where
  "adds Q f \<longleftrightarrow> (\<forall>s. \<exists>new. fst (f s) = fst s @ new \<and> list_all Q new \<and> extends (snd s) (snd (f s)))"

lemma adds_push_back_made:
  "quiet r \<Longrightarrow> (\<And>l m l'. r l = Inr (m, l') \<Longrightarrow> Q m) \<Longrightarrow> adds Q (push_back_made r)"
  unfolding adds_def using push_back_made_extends by blast

lemma adds_id: "adds Q (\<lambda>s. s)"
  by (simp add: adds_def)

lemma adds_comp: "adds Q f \<Longrightarrow> adds Q g \<Longrightarrow> adds Q (\<lambda>s. g (f s))"
  unfolding adds_def
proof
  fix s assume f: "\<forall>s. \<exists>new. fst (f s) = fst s @ new \<and> list_all Q new \<and> extends (snd s) (snd (f s))"
    and g: "\<forall>s. \<exists>new. fst (g s) = fst s @ new \<and> list_all Q new \<and> extends (snd s) (snd (g s))"
  obtain n1 where "fst (f s) = fst s @ n1" "list_all Q n1" "extends (snd s) (snd (f s))" using f by blast
  moreover obtain n2 where "fst (g (f s)) = fst (f s) @ n2" "list_all Q n2" "extends (snd (f s)) (snd (g (f s)))"
    using g by blast
  ultimately show "\<exists>new. fst (g (f s)) = fst s @ new \<and> list_all Q new \<and> extends (snd s) (snd (g (f s)))"
    by (intro exI[of _ "n1 @ n2"]) (auto intro: extends_trans)
qed

lemma adds_fold: "(\<And>x. adds Q (f x)) \<Longrightarrow> adds Q (fold f xs)"
proof (induction xs)
  case Nil then show ?case by (simp add: adds_def)
next
  case (Cons x xs)
  then show ?case using adds_comp[of Q "f x" "fold f xs"] by (simp add: comp_def)
qed

lemma adds_mono: "adds Q f \<Longrightarrow> (\<And>m. Q m \<Longrightarrow> R m) \<Longrightarrow> adds R f"
  unfolding adds_def by (meson list_all_iff)

lemma adds_device_simple:
  assumes "identifiers_fit (si_identifiers (dv_identifiers d))"
  shows "adds (for_device (si_identifiers (dv_identifiers d)) :: 'k manipulator \<Rightarrow> bool)
      (device_simple_manipulators T P d)"
proof -
  note only = with_condition_for_device[OF assms]
  let ?Q = "for_device (si_identifiers (dv_identifiers d)) :: 'k manipulator \<Rightarrow> bool"
  have pairs: "adds ?Q (fold (\<lambda>p. push_back_made
      (rd_bind (make_simple_manipulator T P p) (with_condition (device_condition d)))) (dv_simple_modifications d))"
    by (intro adds_fold adds_push_back_made quiet_intros)
      (auto simp: device_condition_def dest!: make_simple_manipulator_is_basic intro: only)
  have mouse: "adds ?Q (push_back_made (make_device_mouse_basic d))"
    by (intro adds_push_back_made quiet_intros)
      (auto simp: make_device_mouse_basic_def device_condition_def intro: only)
  have "adds ?Q (\<lambda>s. if device_flip d \<noteq> [] \<or> device_swap d \<noteq> [] \<or> device_discard d \<noteq> []
      then push_back_made (make_device_mouse_basic d) s else s)"
    by (cases "device_flip d \<noteq> [] \<or> device_swap d \<noteq> [] \<or> device_discard d \<noteq> []")
      (simp_all only: mouse adds_id if_True if_False)
  from adds_comp[OF pairs this] show ?thesis
    by (simp add: device_simple_manipulators_def[abs_def] Let_def)
qed

lemma adds_device_fn:
  assumes "identifiers_fit (si_identifiers (dv_identifiers d))"
  shows "adds (for_device (si_identifiers (dv_identifiers d)) :: 'k manipulator \<Rightarrow> bool)
      (device_fn_manipulators T P fn d)"
  unfolding device_fn_manipulators_def
  by (intro adds_fold adds_push_back_made quiet_intros)
    (auto simp: device_condition_def dest!: make_function_key_is_basic not_touch_bar_key_is_basic
      intro: with_condition_for_device[OF assms])

lemma adds_fold_set: "(\<And>x. x \<in> set xs \<Longrightarrow> adds Q (f x)) \<Longrightarrow> adds Q (fold f xs)"
proof (induction xs)
  case Nil then show ?case by (simp add: adds_def)
next
  case (Cons x xs)
  then show ?case using adds_comp[of Q "f x" "fold f xs"] by (simp add: comp_def)
qed

text \<open>
  C18. What a device's settings add, simple modifications, mouse settings and fn function keys
  alike, holds for the device they were made for: each of the added manipulators has a condition
  that is fulfilled exactly for entries of a device with the vendor id, the product id and the flags
  of a keyboard and of a pointing device of the settings, whose numbers are unsigned with 64 bits. So
  a reload of the first stage leaves the invalidated manipulators still in use, then manipulators
  for devices of the profile, then at most one for each simple modification of the profile itself.
\<close>

theorem device_settings_hold_for_the_device:
  assumes "\<forall>d\<in>set (pfl_devices p). identifiers_fit (si_identifiers (dv_identifiers d))"
  shows "(\<forall>d\<in>set (pfl_devices p).
      adds (for_device (si_identifiers (dv_identifiers d)) :: 'k manipulator \<Rightarrow> bool) (device_simple_manipulators T P d) \<and>
      adds (for_device (si_identifiers (dv_identifiers d)) :: 'k manipulator \<Rightarrow> bool) (device_fn_manipulators T P fn d)) \<and>
    (\<exists>for_devices others. fst (update_simple_manipulators T P p (ms :: 'k manipulator list, l)) =
        invalidate_manipulators ms @ for_devices @ others \<and>
      list_all (\<lambda>m. \<exists>d\<in>set (pfl_devices p). for_device (si_identifiers (dv_identifiers d)) m) for_devices \<and>
      length others \<le> length (pfl_simple_modifications p))"
proof -
  let ?Q = "\<lambda>m :: 'k manipulator. \<exists>d\<in>set (pfl_devices p). for_device (si_identifiers (dv_identifiers d)) m"
  let ?s = "fold (device_simple_manipulators T P) (pfl_devices p) (invalidate_manipulators ms, l)"
  have "adds ?Q (fold (device_simple_manipulators T P) (pfl_devices p))"
  proof (rule adds_fold_set)
    fix d assume "d \<in> set (pfl_devices p)"
    then show "adds ?Q (device_simple_manipulators T P d)"
      using adds_device_simple[of d T P] assms by (auto elim: adds_mono)
  qed
  then obtain new where new: "fst ?s = invalidate_manipulators ms @ new" "list_all ?Q new"
    unfolding adds_def by (metis fst_conv)
  obtain rest where rest: "fst (fold (\<lambda>pair. push_back_made (make_simple_manipulator T P pair))
      (pfl_simple_modifications p) ?s) = fst ?s @ rest" "length rest \<le> length (pfl_simple_modifications p)"
    using fold_push_back_made[of "pfl_simple_modifications p" "make_simple_manipulator T P" "\<lambda>_. True" ?s]
    by (auto intro: quiet_intros)
  have "fst (update_simple_manipulators T P p (ms, l)) = invalidate_manipulators ms @ new @ rest"
    using new(1) rest(1) by (simp add: update_simple_manipulators_def)
  with new(2) rest(2) assms show ?thesis
    by (blast intro: adds_device_simple adds_device_fn)
qed

subsection \<open>Function keys\<close>

definition function_key :: "nat \<Rightarrow> momentary_switch_event" where
  "function_key i = mse page_keyboard_or_keypad (57 + int i)"

definition fn_modifiers :: from_modifiers_definition where
  "fn_modifiers = \<lparr>fmd_mandatory_modifiers = {md_fn}, fmd_optional_modifiers = {md_any}\<rparr>"

definition fn_key_basic :: "nat \<Rightarrow> basic" where
  "fn_key_basic i =
     simple_basic (basic_parameters_of default_parameters)
       \<lparr>from_event_definitions = [Ed_momentary_switch_event (function_key i)], from_modifiers = fn_modifiers,
        from_simultaneous_options = simultaneous_options_default\<rparr>
       [(to_event_definition_default (Ed_momentary_switch_event (function_key i)))\<lparr>to_modifiers := {md_fn}\<rparr>]"

definition function_key_reads :: "nat \<Rightarrow> bool" where
  "function_key_reads i \<longleftrightarrow>
     momentary_switch_event_from_json (JObject [(''key_code'', JString (CHR ''f'' # decimal i))]) =
       Inr (function_key i)"

lemma function_key_reads_1: "list_all function_key_reads [1, 2, 3]" by code_simp
lemma function_key_reads_4: "list_all function_key_reads [4, 5, 6]" by code_simp
lemma function_key_reads_7: "list_all function_key_reads [7, 8, 9]" by code_simp
lemma function_key_reads_10: "list_all function_key_reads [10, 11, 12]" by code_simp

lemma function_key_names: "i \<in> set [1..<13] \<Longrightarrow> function_key_reads i"
proof -
  assume "i \<in> set [1..<13]"
  then have "i \<in> set ([1, 2, 3] @ [4, 5, 6] @ [7, 8, 9] @ [10, 11, 12])" by (simp add: upt_rec eval_nat_numeral)
  then show ?thesis
    using function_key_reads_1 function_key_reads_4 function_key_reads_7 function_key_reads_10
    by (auto simp only: list_all_iff set_append Un_iff)
qed

lemma modifiers_read:
  "make_modifiers (JArray [JString ''fn'']) = Inr {md_fn}"
  "make_modifiers (JArray [JString ''any'']) = Inr {md_any}"
  by (simp_all add: make_modifiers_def get_modifier_definition_def string_field_def requires_string_def
      modifier_from_json_def modifier_names_def)

lemma key_code_is_handled:
  assumes "momentary_switch_event_from_json (JObject [(''key_code'', v)]) = Inr e"
  shows "handle_json P ''key_code'' v j definition_state_initial l =
    Inr ((True, \<lparr>ds_type = Dt_momentary_switch_event, ds_value = Ed_momentary_switch_event e\<rparr>), l)"
  using assms
  by (simp add: handle_json_def mse_keys_def take_definition_def check_type_def definition_state_initial_def)

lemma modifiers_are_not_handled:
  "handle_json P ''modifiers'' v j d l = Inr ((False, d), l)"
  by (simp add: handle_json_def mse_keys_def)

lemma fn_modifiers_read:
  "from_modifiers_from_json (JObject [(''mandatory'', JArray [JString ''fn'']), (''optional'', JArray [JString ''any''])]) =
    Inr fn_modifiers"
  by (simp add: from_modifiers_from_json_def requires_object_def from_modifiers_item_def modifiers_read
      from_modifiers_default_def fn_modifiers_def)

lemma fn_key_manipulator_reads:
  assumes "i \<in> set [1..<13]"
  shows "fn_key_manipulator P i l = Inr (M_basic (fn_key_basic i), l)"
proof -
  note key = key_code_is_handled[OF function_key_names[OF assms, unfolded function_key_reads_def]]
  show ?thesis
    by (simp add: fn_key_manipulator_def make_simple_pair_def make_simple_basic_def
        to_event_definition_from_json_def to_event_definition_item_def requires_object_def
        from_event_definition_from_json_def from_event_definition_item_def to_state_initial_def
        from_state_initial_def key modifiers_are_not_handled modifiers_read fn_modifiers_read
        definition_of_state_def fn_key_basic_def to_event_definition_default_def Let_def)
qed

lemma adds_function_keys: "adds (\<lambda>m. True) (device_fn_manipulators T P fn d)"
  unfolding device_fn_manipulators_def by (intro adds_fold adds_push_back_made quiet_intros TrueI)

lemma adds_launch_buttons:
  "adds (\<lambda>m. True) (fold (\<lambda>b. push_back_made (application_launch_manipulator P b)) bs)"
  unfolding application_launch_manipulator_def by (intro adds_fold adds_push_back_made quiet_intros TrueI)

lemma fold_fn_key_manipulators:
  "set is \<subseteq> set [1..<13] \<Longrightarrow>
   fold (\<lambda>i. push_back_made (fn_key_manipulator P i)) is s =
     (fst s @ map (\<lambda>i. M_basic (fn_key_basic i)) is, snd s)"
  by (induction "is" arbitrary: s) (simp_all add: push_back_made_def fn_key_manipulator_reads del: set_upt)

lemma update_fn_manipulators_prefix:
  assumes "\<not> spp_use_fkeys_as_standard_function_keys spp"
  shows "\<exists>rest. fst (update_fn_manipulators T P p spp (ms, l)) =
    invalidate_manipulators ms @ map (\<lambda>i. M_basic (fn_key_basic i)) [1..<13] @ rest"
proof -
  let ?f2 = "fold (device_fn_manipulators T P False) (pfl_devices p)"
  let ?f3 = "fold (\<lambda>pair. push_back_made (rd_bind (make_function_key_manipulator T P False pair) not_touch_bar_key))
    (pfl_fn_function_keys p)"
  let ?f5 = "fold (\<lambda>b. push_back_made (application_launch_manipulator P b)) application_launch_buttons"
  have a: "adds (\<lambda>m. True) ?f2" by (intro adds_fold adds_function_keys)
  have b: "adds (\<lambda>m. True) ?f3" by (intro adds_fold adds_push_back_made quiet_intros TrueI)
  have c: "adds (\<lambda>m. True) (push_back_made (touch_id_manipulator P))"
    unfolding touch_id_manipulator_def by (intro adds_push_back_made quiet_intros TrueI)
  have "adds (\<lambda>m. True) (\<lambda>s. ?f5 (push_back_made (touch_id_manipulator P) (?f3 (?f2 s))))"
    using adds_comp[OF adds_comp[OF adds_comp[OF a b] c] adds_launch_buttons] .
  then obtain rest where "fst (?f5 (push_back_made (touch_id_manipulator P) (?f3 (?f2
      (invalidate_manipulators ms @ map (\<lambda>i. M_basic (fn_key_basic i)) [1..<13], l))))) =
      (invalidate_manipulators ms @ map (\<lambda>i. M_basic (fn_key_basic i)) [1..<13]) @ rest"
    unfolding adds_def by (metis fst_conv)
  then show ?thesis
    using assms fold_fn_key_manipulators[of "[1..<13]" P "(invalidate_manipulators ms, l)"]
    by (simp add: update_fn_manipulators_def Let_def del: upt.simps upt_rec_numeral)
qed

lemma fn_modifiers_accept:
  "test_modifiers fs fn_modifiers \<noteq> None \<longleftrightarrow> is_pressed mf_fn fs"
  by (simp add: test_modifiers_def fn_modifiers_def all_modifiers_def test_modifier_def)

text \<open>
  C19. With the function keys set to control the hardware, the third stage begins with twelve
  manipulators for F1 to F12: each takes just its key, while fn is held and whatever else is, and
  sends that key with fn, which macOS then takes for the plain function key.
\<close>

theorem fn_with_function_key_sends_function_key:
  assumes "\<not> spp_use_fkeys_as_standard_function_keys spp" "i \<in> set [1..<13]"
  shows "\<exists>b. fst (update_fn_manipulators T P p spp (ms, l)) ! (length (invalidate_manipulators ms) + (i - 1)) =
      (M_basic b :: 'k manipulator) \<and>
    (\<forall>ev. test_from_event ev (b_from b) \<longleftrightarrow> ev = Ev_momentary_switch_event (function_key i)) \<and>
    (\<forall>fs. test_modifiers fs (from_modifiers (b_from b)) \<noteq> None \<longleftrightarrow> is_pressed mf_fn fs) \<and>
    map (\<lambda>t. (to_event (to_event_definition t), make_modifier_events t)) (b_to b) =
      [(Some (Ev_momentary_switch_event (function_key i)), [mse_of_modifier_flag mf_fn])]"
proof -
  obtain rest where "fst (update_fn_manipulators T P p spp (ms, l)) =
      invalidate_manipulators ms @ map (\<lambda>i. M_basic (fn_key_basic i)) [1..<13] @ (rest :: 'k manipulator list)"
    using update_fn_manipulators_prefix[OF assms(1)] by blast
  then have "fst (update_fn_manipulators T P p spp (ms, l)) ! (length (invalidate_manipulators ms) + (i - 1)) =
      (M_basic (fn_key_basic i) :: 'k manipulator)"
    using assms(2) by (auto simp: nth_append simp del: upt.simps upt_rec_numeral)
  moreover have "test_from_event ev (b_from (fn_key_basic i)) \<longleftrightarrow> ev = Ev_momentary_switch_event (function_key i)" for ev
    by (cases ev) (auto simp: test_from_event_def fn_key_basic_def simple_basic_def test_event_def)
  ultimately show ?thesis
    by (intro exI[of _ "fn_key_basic i"])
      (simp add: fn_key_basic_def simple_basic_def fn_modifiers_accept[simplified] make_modifier_events_def
        to_event_definition_default_def all_modifiers_def mse_valid_def)
qed


text \<open>
  The modifiers of a to definition may be a single name, but adding fn to it needs an array: a
  function key whose definition names its modifier by a string is lost when fn has to be added.
\<close>

lemma string_modifiers_lose_function_key:
  assumes "jt_parse T t = Some (JArray [JObject [(''key_code'', JString k), (''modifiers'', JString m)]])"
    and "f1_f12_key k \<noteq> fn"
  shows "make_function_key_manipulator T P fn (f, t) l \<noteq> Inr r"
  using assms
  by (auto simp: make_function_key_manipulator_def parse_text_def function_key_to_def is_f1_f12_def
      json_find_def push_back_fn_def json_at_def json_contains_def split: if_split_asm)

lemma string_modifiers_read:
  "make_modifiers (JString ''left_shift'') = Inr {md_left_shift}"
  by (simp add: make_modifiers_def get_modifier_definition_def string_field_def requires_string_def
      modifier_from_json_def modifier_names_def)

text \<open>
  The condition made for a device leaves out its address, so it holds for a device that differs
  in the address only and has settings of its own.
\<close>

lemma device_condition_ignores_address:
  "make_device_if_condition (d\<lparr>di_device_address := a\<rparr>) = make_device_if_condition d"
  by (simp add: make_device_if_condition_def)

subsection \<open>Examples\<close>

definition sample_profile :: profile where
  "sample_profile =
     \<lparr>pfl_json = JObject [], pfl_error_handling = loose, pfl_values = [], pfl_parameters = sample_parent,
      pfl_simple_modifications = [], pfl_fn_function_keys = [],
      pfl_complex_modifications = \<lparr>cmo_json = JObject [], cmo_parameters = sample_parent, cmo_rules = []\<rparr>,
      pfl_virtual_hid_keyboard = sample_parent, pfl_devices = []\<rparr>"

theorem fn_with_function_key_sends_function_key_witness:
  "\<exists>b. fst (update_fn_manipulators unary_json_text witness_platform sample_profile
      \<lparr>spp_use_fkeys_as_standard_function_keys = False, spp_scroll_direction_is_natural = True\<rparr>
      ([] :: unit manipulator list, sample_loader)) ! 2 = M_basic b \<and>
    test_from_event (Ev_momentary_switch_event (mse 7 60)) (b_from b)"
  using fn_with_function_key_sends_function_key[of
      "\<lparr>spp_use_fkeys_as_standard_function_keys = False, spp_scroll_direction_is_natural = True\<rparr>" 3
      unary_json_text witness_platform sample_profile "[] :: unit manipulator list" sample_loader]
  by (auto simp: invalidate_manipulators_def remove_invalid_manipulators_def erase_if_def function_key_def numeral_2_eq_2)

lemma sample_device_fits: "identifiers_fit (si_identifiers (dv_identifiers sample_device))"
  by (simp add: sample_device_def sample_identifiers_def identifiers_fit_def)

theorem device_settings_hold_for_the_device_witness:
  "\<exists>for_devices. fst (update_simple_manipulators unary_json_text witness_platform
       (sample_profile\<lparr>pfl_devices := [sample_device]\<rparr>) ([] :: unit manipulator list, sample_loader)) = for_devices \<and>
     list_all (for_device (si_identifiers (dv_identifiers sample_device))) for_devices"
  using device_settings_hold_for_the_device[of "sample_profile\<lparr>pfl_devices := [sample_device]\<rparr>"
      unary_json_text witness_platform False "[] :: unit manipulator list" sample_loader]
  by (simp add: sample_device_fits sample_profile_def invalidate_manipulators_def
      remove_invalid_manipulators_def erase_if_def)

end
