(* ===== verification/Hid_Monitor.thy ===== *)
theory Hid_Monitor
  imports Event_Queue_Utility
begin

text \<open>
  What an entry of the grabber has of its device: the monitor that opens the device and queues its
  values (\<open>src/vendor/vendor/include/pqrs/osx/iokit_hid_queue_value_monitor.hpp\<close>), the converter that
  mends their time stamps (\<open>device_grabber_details/hid_queue_values_converter.hpp\<close>) and the
  manager of the caps lock LED (\<open>src/share/hid_keyboard_caps_lock_led_state_manager.hpp\<close>).

  The monitor is called from the dispatcher thread and works in a run loop thread, so the jobs of
  the run loop and the time while \<open>IOHIDDeviceOpen\<close> runs are part of its state. The theory shows
  that the monitor's idea of the device is right unless something is requested while the device is
  being opened, that a requested device gets opened, and that time stamps never go back.
\<close>

subsection \<open>iokit_hid_queue_value_monitor\<close>

datatype open_option = opt_none | opt_seize

datatype run_loop_job = Rl_start_timer | Rl_start | Rl_stop

datatype monitor_signal = Sig_started | Sig_stopped | Sig_error int

text \<open>
  \<open>hm_opening\<close> holds the options while \<open>IOHIDDeviceOpen\<close> runs; \<open>hm_device\<close> is how the operating system
  has the device open.
\<close>

record hid_monitor =
  hm_requested :: "open_option option"
  hm_current :: "open_option option"
  hm_timer :: bool
  hm_queue :: bool
  hm_last_open_error :: int
  hm_jobs :: "run_loop_job list"
  hm_opening :: "open_option option"
  hm_device :: "open_option option"

definition monitor_initial :: hid_monitor where
  "monitor_initial =
     \<lparr>hm_requested = None, hm_current = None, hm_timer = False, hm_queue = False,
      hm_last_open_error = 0, hm_jobs = [], hm_opening = None, hm_device = None\<rparr>"

definition monitor_async_start :: "open_option \<Rightarrow> hid_monitor \<Rightarrow> hid_monitor" where
  "monitor_async_start o' m = m\<lparr>hm_requested := Some o', hm_jobs := hm_jobs m @ [Rl_start_timer]\<rparr>"

definition monitor_async_stop :: "hid_monitor \<Rightarrow> hid_monitor" where
  "monitor_async_stop m = m\<lparr>hm_requested := None, hm_jobs := hm_jobs m @ [Rl_stop]\<rparr>"

definition monitor_seized :: "hid_monitor \<Rightarrow> bool" where
  "monitor_seized m \<longleftrightarrow> hm_current m = Some opt_seize"

text \<open>\<open>stop\<close>; the flag is \<open>check_requested_open_options\<close>.\<close>

definition monitor_stop :: "bool \<Rightarrow> hid_monitor \<Rightarrow> hid_monitor \<times> monitor_signal list" where
  "monitor_stop check m =
     (if hm_current m = None \<or> check \<and> hm_requested m \<noteq> None then (m, [])
      else (m\<lparr>hm_queue := False, hm_current := None, hm_device := None\<rparr>, [Sig_stopped]))"

text \<open>
  \<open>start\<close> up to the call of \<open>IOHIDDeviceOpen\<close>, and from its return with the code \<open>r\<close>, 0 for success.
  What is requested is read again when the device is open.
\<close>

definition monitor_start :: "hid_monitor \<Rightarrow> hid_monitor \<times> monitor_signal list" where
  "monitor_start m =
     (if hm_requested m = None \<or> hm_requested m = hm_current m then (m\<lparr>hm_timer := False\<rparr>, [])
      else case monitor_stop False m of
             (m1, sigs) \<Rightarrow> (m1\<lparr>hm_queue := True, hm_opening := hm_requested m\<rparr>, sigs))"

definition monitor_opened :: "int \<Rightarrow> hid_monitor \<Rightarrow> hid_monitor \<times> monitor_signal list" where
  "monitor_opened r m =
     (if r \<noteq> 0
      then (m\<lparr>hm_opening := None, hm_last_open_error := r\<rparr>,
            if hm_last_open_error m \<noteq> r then [Sig_error r] else [])
      else (m\<lparr>hm_opening := None, hm_device := hm_opening m, hm_current := hm_requested m,
              hm_timer := False\<rparr>, [Sig_started]))"

text \<open>The jobs of the run loop; the timer calls its function at once and then every interval.\<close>

fun monitor_job :: "run_loop_job \<Rightarrow> hid_monitor \<Rightarrow> hid_monitor \<times> monitor_signal list" where
  "monitor_job Rl_start_timer m = (m\<lparr>hm_timer := True\<rparr>, [])"
| "monitor_job Rl_start m = monitor_start m"
| "monitor_job Rl_stop m = monitor_stop True m"

datatype monitor_event = Me_timer | Me_job | Me_opened int | Me_removed

text \<open>While the device is being opened the run loop does nothing else.\<close>

fun monitor_step :: "monitor_event \<Rightarrow> hid_monitor \<Rightarrow> hid_monitor \<times> monitor_signal list" where
  "monitor_step Me_timer m =
     (if hm_timer m then (m\<lparr>hm_jobs := hm_jobs m @ [Rl_start]\<rparr>, []) else (m, []))"
| "monitor_step Me_job m =
     (case hm_jobs m of
        [] \<Rightarrow> (m, [])
      | j # js \<Rightarrow> if hm_opening m \<noteq> None then (m, []) else monitor_job j (m\<lparr>hm_jobs := js\<rparr>))"
| "monitor_step (Me_opened r) m = (if hm_opening m = None then (m, []) else monitor_opened r m)"
| "monitor_step Me_removed m = (if hm_opening m \<noteq> None then (m, []) else monitor_stop False m)"

text \<open>Values are dropped while the monitor does not count the device as open.\<close>

definition monitor_values_available :: "iokit_hid_value list \<Rightarrow> hid_monitor \<Rightarrow> iokit_hid_value list option" where
  "monitor_values_available vs m =
     (if hm_queue m \<and> hm_current m \<noteq> None then Some vs else None)"

subsection \<open>hid_queue_values_converter\<close>

text \<open>A time stamp before the last one of the device becomes the last one.\<close>

fun make_hid_values ::
    "absolute_time_point \<Rightarrow> iokit_hid_value list \<Rightarrow> iokit_hid_value list \<times> absolute_time_point" where
  "make_hid_values last_time_stamp [] = ([], last_time_stamp)"
| "make_hid_values last_time_stamp (v # vs) =
     (if hv_time_stamp v < last_time_stamp
      then (case make_hid_values last_time_stamp vs of
              (ws, t) \<Rightarrow> (v\<lparr>hv_time_stamp := last_time_stamp\<rparr> # ws, t))
      else (case make_hid_values (hv_time_stamp v) vs of (ws, t) \<Rightarrow> (v # ws, t)))"

subsection \<open>hid_keyboard_caps_lock_led_state_manager\<close>

text \<open>The element of the LED, when the device has one, is given by its logical range.\<close>

record led_manager =
  lm_element :: "(int \<times> int) option"
  lm_state :: "led_state option"
  lm_started :: bool
  lm_timer :: bool

definition led_manager_initial :: "(int \<times> int) option \<Rightarrow> led_manager" where
  "led_manager_initial e = \<lparr>lm_element = e, lm_state = None, lm_started = False, lm_timer = False\<rparr>"

definition led_make_integer_value :: "led_manager \<Rightarrow> int option" where
  "led_make_integer_value m =
     (case (lm_state m, lm_element m) of
        (Some s, Some (logical_min, logical_max)) \<Rightarrow> Some (if s = led_on then logical_max else logical_min)
      | _ \<Rightarrow> None)"

text \<open>
  The value \<open>update_caps_lock_led\<close> writes: none, because an unconditional return stands before
  the writing.
\<close>

definition led_update :: "led_manager \<Rightarrow> int option" where
  "led_update m = None"

text \<open>\<open>set_state\<close> also tells whether an update is given to the dispatcher.\<close>

definition led_set_state :: "led_state option \<Rightarrow> led_manager \<Rightarrow> led_manager \<times> bool" where
  "led_set_state s m = (if lm_state m = s then (m, False) else (m\<lparr>lm_state := s\<rparr>, True))"

definition led_start :: "led_manager \<Rightarrow> led_manager" where
  "led_start m = (if \<not> lm_started m then m\<lparr>lm_started := True, lm_timer := True\<rparr> else m)"

definition led_stop :: "led_manager \<Rightarrow> led_manager" where
  "led_stop m = (if lm_started m then m\<lparr>lm_started := False, lm_timer := False\<rparr> else m)"

subsection \<open>Runs of a monitor\<close>

text \<open>Everything that can happen to a monitor, with the signals it gave.\<close>

datatype monitor_action = Ma_start open_option | Ma_stop | Ma_event monitor_event

fun monitor_act :: "monitor_action \<Rightarrow> hid_monitor \<Rightarrow> hid_monitor \<times> monitor_signal list" where
  "monitor_act (Ma_start o') m = (monitor_async_start o' m, [])"
| "monitor_act Ma_stop m = (monitor_async_stop m, [])"
| "monitor_act (Ma_event e) m = monitor_step e m"

text \<open>In a calm run nothing is requested while the device is being opened.\<close>

fun calm_action :: "monitor_action \<Rightarrow> hid_monitor \<Rightarrow> bool" where
  "calm_action (Ma_event e) m \<longleftrightarrow> True"
| "calm_action _ m \<longleftrightarrow> hm_opening m = None"

fun monitor_run :: "monitor_action list \<Rightarrow> hid_monitor \<times> monitor_signal list \<Rightarrow> hid_monitor \<times> monitor_signal list" where
  "monitor_run [] s = s"
| "monitor_run (a # as) s =
     monitor_run as (case monitor_act a (fst s) of (m, sigs) \<Rightarrow> (m, snd s @ sigs))"

fun calm_run :: "monitor_action list \<Rightarrow> hid_monitor \<Rightarrow> bool" where
  "calm_run [] m \<longleftrightarrow> True"
| "calm_run (a # as) m \<longleftrightarrow> calm_action a m \<and> calm_run as (fst (monitor_act a m))"

text \<open>The signals alternate, beginning with started.\<close>

fun alternating :: "bool \<Rightarrow> monitor_signal list \<Rightarrow> bool option" where
  "alternating up [] = Some up"
| "alternating up (Sig_started # ss) = (if up then None else alternating True ss)"
| "alternating up (Sig_stopped # ss) = (if up then alternating False ss else None)"
| "alternating up (Sig_error r # ss) = alternating up ss"

lemma alternating_append:
  "alternating up (ss @ ts) = (case alternating up ss of None \<Rightarrow> None | Some up' \<Rightarrow> alternating up' ts)"
  by (induction up ss rule: alternating.induct) auto

definition monitor_inv :: "hid_monitor \<Rightarrow> bool" where
  "monitor_inv m \<longleftrightarrow>
     hm_current m = hm_device m
     \<and> (hm_opening m \<noteq> None \<longrightarrow> hm_opening m = hm_requested m \<and> hm_current m = None \<and> hm_queue m)
     \<and> (hm_current m \<noteq> None \<longrightarrow> hm_queue m)"

definition run_ok :: "hid_monitor \<times> monitor_signal list \<Rightarrow> bool" where
  "run_ok s \<longleftrightarrow> monitor_inv (fst s) \<and> alternating False (snd s) = Some (hm_current (fst s) \<noteq> None)"

lemma monitor_stop_ok:
  assumes "monitor_inv m" "hm_opening m = None" "monitor_stop check m = (m', sigs)"
  shows "monitor_inv m' \<and> alternating (hm_current m \<noteq> None) sigs = Some (hm_current m' \<noteq> None)
    \<and> hm_opening m' = None \<and> hm_requested m' = hm_requested m"
  using assms by (auto simp: monitor_stop_def monitor_inv_def split: if_splits)

lemma monitor_act_ok:
  assumes "monitor_inv m" "calm_action a m" "monitor_act a m = (m', sigs)"
  shows "monitor_inv m' \<and> alternating (hm_current m \<noteq> None) sigs = Some (hm_current m' \<noteq> None)"
proof (cases a)
  case (Ma_event e)
  have stop: "monitor_inv n \<Longrightarrow> hm_opening n = None \<Longrightarrow> hm_current n = hm_current m \<Longrightarrow> monitor_stop c n = (m', sigs) \<Longrightarrow>
      ?thesis" for n c
    using monitor_stop_ok[of n c] by simp
  have inv: "monitor_inv (m\<lparr>hm_jobs := js\<rparr>)" for js using assms(1) by (auto simp: monitor_inv_def)
  show ?thesis
  proof (cases e)
    case Me_job
    then consider (idle) "m' = m" "sigs = []"
      | (job) j js where "hm_jobs m = j # js" "hm_opening m = None" "monitor_job j (m\<lparr>hm_jobs := js\<rparr>) = (m', sigs)"
      using assms(3) Ma_event by (auto split: list.splits if_splits)
    then show ?thesis
    proof cases
      case (job j js)
      then show ?thesis
      proof (cases j)
        case Rl_start
        let ?n = "m\<lparr>hm_jobs := js\<rparr>"
        obtain m1 ss where s: "monitor_stop False ?n = (m1, ss)" by force
        have "monitor_inv m1 \<and> alternating (hm_current m \<noteq> None) ss = Some (hm_current m1 \<noteq> None)
            \<and> hm_opening m1 = None \<and> hm_requested m1 = hm_requested m \<and> hm_current m1 = None"
          using monitor_stop_ok[OF inv _ s] s job(2) by (auto simp: monitor_stop_def split: if_splits)
        then show ?thesis
          using job Rl_start inv[of js] s by (auto simp: monitor_start_def monitor_inv_def split: if_splits)
      next
        case Rl_start_timer
        then show ?thesis using job assms(1) by (auto simp: monitor_inv_def)
      next
        case Rl_stop
        then show ?thesis using job by (intro stop[OF inv[of js], of True]) simp_all
      qed
    qed (use assms(1) in simp)
  next
    case (Me_opened r)
    then show ?thesis using assms Ma_event
      by (auto simp: monitor_opened_def monitor_inv_def split: if_splits)
  next
    case Me_removed
    then show ?thesis using assms Ma_event stop[of m] by (auto split: if_splits)
  qed (use assms Ma_event in \<open>auto simp: monitor_inv_def split: if_splits\<close>)
qed (use assms in \<open>auto simp: monitor_async_start_def monitor_async_stop_def monitor_inv_def\<close>)

lemma monitor_run_ok: "run_ok s \<Longrightarrow> calm_run as (fst s) \<Longrightarrow> run_ok (monitor_run as s)"
proof (induction as s rule: monitor_run.induct)
  case (2 a as s)
  obtain m sigs where a: "monitor_act a (fst s) = (m, sigs)" by force
  have "run_ok (m, snd s @ sigs)"
    using 2(2,3) monitor_act_ok[of "fst s" a m sigs] a by (auto simp: run_ok_def alternating_append)
  then show ?case using 2(1,3) a by simp
qed simp

text \<open>
  C22. Unless something is requested while the device is being opened, the monitor knows how the device
  is open, seized means seized, and its signals alternate, beginning with started.
\<close>

theorem monitor_knows_its_device:
  assumes "calm_run as monitor_initial" "monitor_run as (monitor_initial, []) = (m, sigs)"
  shows "(monitor_seized m \<longleftrightarrow> hm_device m = Some opt_seize) \<and>
    alternating False sigs = Some (hm_device m \<noteq> None)"
proof -
  have "run_ok (monitor_initial, [])" by (simp add: run_ok_def monitor_inv_def monitor_initial_def)
  with assms have "run_ok (m, sigs)" using monitor_run_ok by force
  then show ?thesis by (auto simp: run_ok_def monitor_inv_def monitor_seized_def)
qed

theorem monitor_knows_its_device_witness:
  "fst (monitor_run [Ma_start opt_seize, Ma_event Me_job, Ma_event Me_timer, Ma_event Me_job, Ma_event (Me_opened 0)]
      (monitor_initial, [])) =
    monitor_initial\<lparr>hm_requested := Some opt_seize, hm_current := Some opt_seize, hm_queue := True,
      hm_device := Some opt_seize\<rparr> \<and>
   monitor_seized (monitor_initial\<lparr>hm_requested := Some opt_seize, hm_current := Some opt_seize,
      hm_queue := True, hm_device := Some opt_seize\<rparr>)"
proof -
  let ?as = "[Ma_start opt_seize, Ma_event Me_job, Ma_event Me_timer, Ma_event Me_job, Ma_event (Me_opened 0)]"
  let ?m = "monitor_initial\<lparr>hm_requested := Some opt_seize, hm_current := Some opt_seize, hm_queue := True,
      hm_device := Some opt_seize\<rparr>"
  have c: "calm_run ?as monitor_initial" by code_simp
  have r: "monitor_run ?as (monitor_initial, []) = (?m, [Sig_started])" by code_simp
  from monitor_knows_its_device[OF c r] r show ?thesis by simp
qed

text \<open>
  When the grabber lets a device go while it is being opened, the monitor takes the device for
  closed although it is seized: its values are dropped and stopping does nothing.
\<close>

lemma stop_while_opening_leaves_seized:
  assumes "monitor_run [Ma_start opt_seize, Ma_event Me_job, Ma_event Me_timer, Ma_event Me_job, Ma_stop,
      Ma_event (Me_opened 0), Ma_event Me_job] (monitor_initial, []) = (m, sigs)"
  shows "hm_device m = Some opt_seize" "\<not> monitor_seized m" "monitor_values_available vs m = None"
    "fst (monitor_stop c m) = m"
  using assms
  by (auto simp: monitor_initial_def monitor_async_start_def monitor_async_stop_def monitor_start_def
      monitor_stop_def monitor_opened_def monitor_seized_def monitor_values_available_def)

text \<open>
  A requested device is opened: with an idle run loop the next run of the timer and a successful
  open make the request current.
\<close>

lemma monitor_settles:
  assumes "hm_requested m = Some o'" "hm_timer m" "hm_jobs m = []" "hm_opening m = None"
  shows "\<exists>sigs m'. monitor_run [Ma_event Me_timer, Ma_event Me_job, Ma_event (Me_opened 0)] (m, []) = (m', sigs) \<and>
    hm_current m' = Some o' \<and> \<not> hm_timer m'"
  using assms
  by (auto simp: monitor_start_def monitor_stop_def monitor_opened_def split: prod.splits if_splits)

text \<open>Time stamps of a device never go back, within a batch and from one batch to the next.\<close>

lemma make_hid_values_sorted:
  assumes "make_hid_values t vs = (ws, t')"
  shows "sorted (map hv_time_stamp ws) \<and> (\<forall>w\<in>set ws. t \<le> hv_time_stamp w \<and> hv_time_stamp w \<le> t') \<and> t \<le> t'
    \<and> map (hv_time_stamp_update (\<lambda>_. 0)) ws = map (hv_time_stamp_update (\<lambda>_. 0)) vs"
  using assms
proof (induction t vs arbitrary: ws rule: make_hid_values.induct)
  case (2 t v vs)
  then show ?case by (force split: if_splits prod.splits)
qed simp

end
