(* ===== verification/Game_Pad_Stick.thy ===== *)
theory Game_Pad_Stick
  imports Hid_Monitor Device_Configuration
begin

text \<open>
  \<open>device_grabber_details/game_pad_stick_converter.hpp\<close>: the sticks of a game pad become pointer and
  wheel motions. Sensor values give the angle and the magnitude of a stick; formulas of the user
  turn them into speeds, whose fractions are carried over; a stick that is tilted far enough keeps
  a timer posting motions.

  Trigonometry, roots and rounding are parameters (\<open>stick_arithmetic\<close>), as is the clock.
  The theory shows that motion ends when the sticks are released, that every motion fits a report,
  and that no fraction of a motion gets lost.
\<close>

subsection \<open>Arithmetic\<close>

text \<open>
  \<open>sa_round\<close> is the double nearest to an exact result whose absolute value is below \<open>sa_limit\<close>,
  \<open>sa_int_overflow\<close> what a double out of range becomes as \<open>int\<close>, which is undefined.
\<close>

record stick_arithmetic =
  sa_atan2 :: "rat \<Rightarrow> rat \<Rightarrow> rat"
  sa_sqrt :: "rat \<Rightarrow> rat"
  sa_round :: "rat \<Rightarrow> rat"
  sa_limit :: rat
  sa_int_overflow :: "double \<Rightarrow> int"
  sa_clock :: "nat \<Rightarrow> absolute_time_point"

definition double_neg :: "double \<Rightarrow> double" where
  "double_neg d = (case d of Nan \<Rightarrow> Nan | Infinite p \<Rightarrow> Infinite (\<not> p) | Finite r \<Rightarrow> Finite (- r))"

definition double_add :: "stick_arithmetic \<Rightarrow> double \<Rightarrow> double \<Rightarrow> double" where
  "double_add A x y =
     (case (x, y) of
        (Finite a, Finite b) \<Rightarrow>
          if \<bar>a + b\<bar> < sa_limit A then Finite (sa_round A (a + b)) else Infinite (a + b > 0)
      | (Infinite p, Finite b) \<Rightarrow> Infinite p
      | (Finite a, Infinite q) \<Rightarrow> Infinite q
      | (Infinite p, Infinite q) \<Rightarrow> if p = q then Infinite p else Nan
      | _ \<Rightarrow> Nan)"

definition double_trunc :: "double \<Rightarrow> double" where
  "double_trunc d = (case d of Finite r \<Rightarrow> Finite (of_int (rat_truncate r)) | _ \<Rightarrow> d)"

definition double_to_int :: "stick_arithmetic \<Rightarrow> double \<Rightarrow> int" where
  "double_to_int A d =
     (case d of
        Finite r \<Rightarrow> if - (2 ^ 31) \<le> rat_truncate r \<and> rat_truncate r < 2 ^ 31 then rat_truncate r
                    else sa_int_overflow A d
      | _ \<Rightarrow> sa_int_overflow A d)"

definition nan_to_zero :: "double \<Rightarrow> double" where
  "nan_to_zero d = (if double_isnan d then Finite 0 else d)"

subsection \<open>stick_sensor, stick\<close>

definition update_stick_sensor_value :: "stick_arithmetic \<Rightarrow> int \<Rightarrow> int \<Rightarrow> int \<Rightarrow> rat" where
  "update_stick_sensor_value A logical_max logical_min integer_value =
     (if logical_max \<noteq> logical_min
      then sa_round A (sa_round A (sa_round A
             (sa_round A (of_int (integer_value - logical_min)) / sa_round A (of_int (logical_max - logical_min)))
             - 1 / 2) * 2)
      else 0)"

record stick =
  sk_horizontal :: rat
  sk_vertical :: rat
  sk_radian :: rat
  sk_absolute_magnitude :: rat
  sk_delta_magnitude :: rat
  sk_previous_absolute_magnitude :: rat
  sk_deadzone :: rat
  sk_delta_magnitude_detection_threshold :: rat
  sk_continued_movement_absolute_magnitude_threshold :: rat
  sk_continued_movement_interval_milliseconds :: int

definition stick_initial :: stick where
  "stick_initial =
     \<lparr>sk_horizontal = 0, sk_vertical = 0, sk_radian = 0, sk_absolute_magnitude = 0,
      sk_delta_magnitude = 0, sk_previous_absolute_magnitude = 0, sk_deadzone = 0,
      sk_delta_magnitude_detection_threshold = 0,
      sk_continued_movement_absolute_magnitude_threshold = 1,
      sk_continued_movement_interval_milliseconds = 0\<rparr>"

definition sk_continued_movement :: "stick \<Rightarrow> bool" where
  "sk_continued_movement s \<longleftrightarrow>
     sk_absolute_magnitude s \<ge> sk_continued_movement_absolute_magnitude_threshold s"

definition sk_get_continued_movement_interval_milliseconds :: "stick \<Rightarrow> milliseconds" where
  "sk_get_continued_movement_interval_milliseconds s =
     (if sk_continued_movement s then sk_continued_movement_interval_milliseconds s else 0)"

text \<open>
  Small changes of the magnitude are ignored until they have added up, except where the stick keeps
  the pointer moving; in the dead zone it counts as released.
\<close>

definition sk_update_values :: "stick_arithmetic \<Rightarrow> stick \<Rightarrow> stick" where
  "sk_update_values A s =
     (let s1 = s\<lparr>sk_radian := sa_atan2 A (sk_vertical s) (sk_horizontal s),
                 sk_absolute_magnitude :=
                   min 1 (sa_sqrt A (sa_round A (sa_round A (sk_vertical s ^ 2) + sa_round A (sk_horizontal s ^ 2))))\<rparr>;
          dm = max 0 (sa_round A (sk_absolute_magnitude s1 - sk_previous_absolute_magnitude s1));
          s2 = (if \<not> sk_continued_movement s1 \<and> 0 < dm \<and> dm < sk_delta_magnitude_detection_threshold s1
                then s1\<lparr>sk_delta_magnitude := 0\<rparr>
                else s1\<lparr>sk_delta_magnitude := dm,
                        sk_previous_absolute_magnitude := sk_absolute_magnitude s1\<rparr>)
      in if sk_absolute_magnitude s2 \<le> sk_deadzone s2
         then s2\<lparr>sk_delta_magnitude := 0, sk_absolute_magnitude := 0\<rparr> else s2)"

subsection \<open>event_value\<close>

record event_value =
  ev_value :: double
  ev_remainder :: double

definition event_value_initial :: event_value where
  "event_value_initial = \<lparr>ev_value = Finite 0, ev_remainder = Finite 0\<rparr>"

definition truncated_value :: "stick_arithmetic \<Rightarrow> event_value \<Rightarrow> int \<times> event_value" where
  "truncated_value A e =
     (let truncated = double_trunc (double_add A (ev_value e) (ev_remainder e))
      in (max (min (double_to_int A truncated) 127) (-127),
          e\<lparr>ev_remainder := double_add A (ev_remainder e)
                              (double_add A (ev_value e) (double_neg truncated))\<rparr>))"

subsection \<open>game_pad_stick_converter\<close>

datatype movement_mode = mm_none | mm_xy | mm_wheels

text \<open>
  The formulas belong to the converter, so they are kept in it. Of the timer it counts whether it is
  enabled and the interval its function captured.
\<close>

record stick_converter =
  gp_device_id :: device_id
  gp_xy :: stick
  gp_wheels :: stick
  gp_x_value :: event_value
  gp_y_value :: event_value
  gp_horizontal_wheel_value :: event_value
  gp_vertical_wheel_value :: event_value
  gp_timer_enabled :: bool
  gp_timer_captured_interval :: milliseconds
  gp_timer_interval :: milliseconds
  gp_timer_count :: int
  gp_mode :: movement_mode
  gp_x_formula :: expression_wrapper
  gp_y_formula :: expression_wrapper
  gp_vertical_wheel_formula :: expression_wrapper
  gp_horizontal_wheel_formula :: expression_wrapper
  gp_swap_sticks :: bool
  gp_clock_reads :: nat

definition gp_set_core_configuration :: "platform \<Rightarrow> device \<Rightarrow> stick_converter \<Rightarrow> stick_converter" where
  "gp_set_core_configuration P d g =
     g\<lparr>gp_xy := (gp_xy g)\<lparr>
         sk_deadzone := get_game_pad_xy_stick_deadzone d,
         sk_delta_magnitude_detection_threshold :=
           get_game_pad_xy_stick_delta_magnitude_detection_threshold d,
         sk_continued_movement_absolute_magnitude_threshold :=
           get_game_pad_xy_stick_continued_movement_absolute_magnitude_threshold d,
         sk_continued_movement_interval_milliseconds :=
           get_game_pad_xy_stick_continued_movement_interval_milliseconds d\<rparr>,
       gp_wheels := (gp_wheels g)\<lparr>
         sk_deadzone := get_game_pad_wheels_stick_deadzone d,
         sk_delta_magnitude_detection_threshold :=
           get_game_pad_wheels_stick_delta_magnitude_detection_threshold d,
         sk_continued_movement_absolute_magnitude_threshold :=
           get_game_pad_wheels_stick_continued_movement_absolute_magnitude_threshold d,
         sk_continued_movement_interval_milliseconds :=
           get_game_pad_wheels_stick_continued_movement_interval_milliseconds d\<rparr>,
       gp_x_formula := compile_expression P (get_game_pad_stick_x_formula d),
       gp_y_formula := compile_expression P (get_game_pad_stick_y_formula d),
       gp_vertical_wheel_formula := compile_expression P (get_game_pad_stick_vertical_wheel_formula d),
       gp_horizontal_wheel_formula := compile_expression P (get_game_pad_stick_horizontal_wheel_formula d),
       gp_swap_sticks := get_game_pad_swap_sticks d\<rparr>"

definition create_stick_converter :: "platform \<Rightarrow> device_id \<Rightarrow> device \<Rightarrow> stick_converter" where
  "create_stick_converter P i d =
     gp_set_core_configuration P d
       \<lparr>gp_device_id = i, gp_xy = stick_initial, gp_wheels = stick_initial,
        gp_x_value = event_value_initial, gp_y_value = event_value_initial,
        gp_horizontal_wheel_value = event_value_initial, gp_vertical_wheel_value = event_value_initial,
        gp_timer_enabled = False, gp_timer_captured_interval = 0, gp_timer_interval = 0,
        gp_timer_count = 0, gp_mode = mm_none,
        gp_x_formula = compile_expression P [], gp_y_formula = compile_expression P [],
        gp_vertical_wheel_formula = compile_expression P [],
        gp_horizontal_wheel_formula = compile_expression P [], gp_swap_sticks = False,
        gp_clock_reads = 0\<rparr>"

subsection \<open>Posting\<close>

definition set_stick_variables ::
    "rat \<Rightarrow> rat \<Rightarrow> rat \<Rightarrow> bool \<Rightarrow> expression_wrapper \<Rightarrow> expression_wrapper" where
  "set_stick_variables radian delta_magnitude absolute_magnitude continued e =
     snd (ew_set_variable ''continued_movement'' (Finite (if continued then 1 else 0))
       (snd (ew_set_variable ''absolute_magnitude'' (Finite absolute_magnitude)
         (snd (ew_set_variable ''delta_magnitude'' (Finite delta_magnitude)
           (snd (ew_set_variable ''radian'' (Finite radian) e)))))))"

text \<open>While a stick keeps the pointer moving, the tilt of the other one makes it faster.\<close>

definition stick_magnitudes ::
    "stick_arithmetic \<Rightarrow> bool \<Rightarrow> stick \<Rightarrow> stick \<Rightarrow> rat \<times> rat" where
  "stick_magnitudes A continued s secondary =
     (if continued \<and> sk_continued_movement s
      then (sa_round A (sk_delta_magnitude s + sk_absolute_magnitude secondary),
            sa_round A (sk_absolute_magnitude s + sk_absolute_magnitude secondary))
      else (sk_delta_magnitude s, sk_absolute_magnitude s))"

definition update_formulas :: "stick_arithmetic \<Rightarrow> stick_converter \<Rightarrow> stick_converter" where
  "update_formulas A g =
     (let c = (gp_mode g = mm_xy); m = stick_magnitudes A c (gp_xy g) (gp_wheels g);
          f = set_stick_variables (sk_radian (gp_xy g)) (fst m) (snd m) c;
          c' = (gp_mode g = mm_wheels); m' = stick_magnitudes A c' (gp_wheels g) (gp_xy g);
          f' = set_stick_variables (sk_radian (gp_wheels g)) (fst m') (snd m') c'
      in g\<lparr>gp_x_formula := f (gp_x_formula g), gp_y_formula := f (gp_y_formula g),
           gp_vertical_wheel_formula := f' (gp_vertical_wheel_formula g),
           gp_horizontal_wheel_formula := f' (gp_horizontal_wheel_formula g)\<rparr>)"

definition xy_hid_values :: "platform \<Rightarrow> stick_converter \<Rightarrow> (double \<times> double) \<times> stick_converter" where
  "xy_hid_values P g =
     (case ew_value P (gp_x_formula g) of (x, fx) \<Rightarrow>
      case ew_value P (gp_y_formula g) of (y, fy) \<Rightarrow>
        ((nan_to_zero x, nan_to_zero y), g\<lparr>gp_x_formula := fx, gp_y_formula := fy\<rparr>))"

definition wheels_hid_values :: "platform \<Rightarrow> stick_converter \<Rightarrow> (double \<times> double) \<times> stick_converter" where
  "wheels_hid_values P g =
     (case ew_value P (gp_horizontal_wheel_formula g) of (h, fh) \<Rightarrow>
      case ew_value P (gp_vertical_wheel_formula g) of (v, fv) \<Rightarrow>
        ((nan_to_zero h, double_neg (nan_to_zero v)),
         g\<lparr>gp_horizontal_wheel_formula := fh, gp_vertical_wheel_formula := fv\<rparr>))"

definition stick_entry :: "device_id \<Rightarrow> absolute_time_point \<Rightarrow> pointing_motion \<Rightarrow> entry" where
  "stick_entry d t m =
     make_entry d (make_event_time_stamp t) (Ev_pointing_motion m) single (Ev_pointing_motion m)
       st_original False"

definition post_motion ::
    "stick_arithmetic \<Rightarrow> pointing_motion \<Rightarrow> stick_converter \<Rightarrow> entry list \<times> stick_converter" where
  "post_motion A m g =
     (if pm_is_zero m then ([], g)
      else ([stick_entry (gp_device_id g) (sa_clock A (gp_clock_reads g)) m],
            g\<lparr>gp_clock_reads := Suc (gp_clock_reads g)\<rparr>))"

definition post_xy_event :: "stick_arithmetic \<Rightarrow> stick_converter \<Rightarrow> entry list \<times> stick_converter" where
  "post_xy_event A g =
     (case truncated_value A (gp_x_value g) of (x, xv) \<Rightarrow>
      case truncated_value A (gp_y_value g) of (y, yv) \<Rightarrow>
        post_motion A \<lparr>pm_x = x, pm_y = y, pm_vertical_wheel = 0, pm_horizontal_wheel = 0\<rparr>
          (g\<lparr>gp_x_value := xv, gp_y_value := yv\<rparr>))"

definition post_wheels_event :: "stick_arithmetic \<Rightarrow> stick_converter \<Rightarrow> entry list \<times> stick_converter" where
  "post_wheels_event A g =
     (case truncated_value A (gp_vertical_wheel_value g) of (v, vv) \<Rightarrow>
      case truncated_value A (gp_horizontal_wheel_value g) of (h, hv) \<Rightarrow>
        post_motion A \<lparr>pm_x = 0, pm_y = 0, pm_vertical_wheel = v, pm_horizontal_wheel = h\<rparr>
          (g\<lparr>gp_vertical_wheel_value := vv, gp_horizontal_wheel_value := hv\<rparr>))"

definition post_stick_event ::
    "stick_arithmetic \<Rightarrow> platform \<Rightarrow> movement_mode \<Rightarrow> stick_converter \<Rightarrow> entry list \<times> stick_converter" where
  "post_stick_event A P mode g =
     (case xy_hid_values P (update_formulas A g) of ((x, y), g1) \<Rightarrow>
      case wheels_hid_values P
             (g1\<lparr>gp_x_value := (gp_x_value g1)\<lparr>ev_value := x\<rparr>,
                 gp_y_value := (gp_y_value g1)\<lparr>ev_value := y\<rparr>\<rparr>) of ((h, v), g2) \<Rightarrow>
        (let g3 = g2\<lparr>gp_horizontal_wheel_value := (gp_horizontal_wheel_value g2)\<lparr>ev_value := h\<rparr>,
                     gp_vertical_wheel_value := (gp_vertical_wheel_value g2)\<lparr>ev_value := v\<rparr>\<rparr>
         in case mode of
              mm_none \<Rightarrow> ([], g3)
            | mm_xy \<Rightarrow> post_xy_event A g3
            | mm_wheels \<Rightarrow> post_wheels_event A g3))"

subsection \<open>Continued movement\<close>

definition update_continued_movement_timer ::
    "stick_arithmetic \<Rightarrow> platform \<Rightarrow> movement_mode \<Rightarrow> milliseconds \<Rightarrow> stick_converter \<Rightarrow>
     entry list \<times> stick_converter" where
  "update_continued_movement_timer A P mode interval g =
     (if interval = 0
      then (if gp_mode g = mm_none then post_stick_event A P mode g
            else if \<not> sk_continued_movement (gp_xy g) \<and> \<not> sk_continued_movement (gp_wheels g)
            then ([], g\<lparr>gp_mode := mm_none, gp_timer_enabled := False\<rparr>)
            else ([], g))
      else if \<not> gp_timer_enabled g
      then ([], g\<lparr>gp_mode := mode, gp_timer_count := 0, gp_timer_enabled := True,
                  gp_timer_captured_interval := interval, gp_timer_interval := 300\<rparr>)
      else ([], g))"

text \<open>The function of the timer; a call that was pending when the timer was stopped still runs.\<close>

definition continued_movement_timer ::
    "stick_arithmetic \<Rightarrow> platform \<Rightarrow> stick_converter \<Rightarrow> entry list \<times> stick_converter" where
  "continued_movement_timer A P g =
     (let g1 = g\<lparr>gp_timer_count := gp_timer_count g + 1\<rparr>
      in if gp_timer_count g1 = 1 then ([], g1)
         else case post_stick_event A P (gp_mode g1) g1 of
                (es, g2) \<Rightarrow>
                  (es, if gp_timer_count g1 = 2
                       then g2\<lparr>gp_timer_interval := gp_timer_captured_interval g2\<rparr> else g2))"

definition update_xy ::
    "stick_arithmetic \<Rightarrow> platform \<Rightarrow> (stick \<Rightarrow> stick) \<Rightarrow> stick_converter \<Rightarrow> entry list \<times> stick_converter" where
  "update_xy A P f g =
     (let g1 = g\<lparr>gp_xy := sk_update_values A (f (gp_xy g))\<rparr>
      in update_continued_movement_timer A P mm_xy
           (sk_get_continued_movement_interval_milliseconds (gp_xy g1)) g1)"

definition update_wheels ::
    "stick_arithmetic \<Rightarrow> platform \<Rightarrow> (stick \<Rightarrow> stick) \<Rightarrow> stick_converter \<Rightarrow> entry list \<times> stick_converter" where
  "update_wheels A P f g =
     (let g1 = g\<lparr>gp_wheels := sk_update_values A (f (gp_wheels g))\<rparr>
      in update_continued_movement_timer A P mm_wheels
           (sk_get_continued_movement_interval_milliseconds (gp_wheels g1)) g1)"

subsection \<open>convert\<close>

abbreviation (input) usage_gd_z :: usage where "usage_gd_z \<equiv> 50"
abbreviation (input) usage_gd_rz :: usage where "usage_gd_rz \<equiv> 53"

definition convert_value ::
    "stick_arithmetic \<Rightarrow> platform \<Rightarrow> iokit_hid_value \<Rightarrow> stick_converter \<Rightarrow> entry list \<times> stick_converter" where
  "convert_value A P v g =
     (case (hv_usage_page v, hv_usage v, hv_logical_max v, hv_logical_min v) of
        (Some _, Some _, Some mx, Some mn) \<Rightarrow>
          (if mx = mn then ([], g)
           else let x = update_stick_sensor_value A mx mn (hv_integer_value v);
                    horizontal = sk_horizontal_update (\<lambda>_. x);
                    vertical = sk_vertical_update (\<lambda>_. x);
                    swap = gp_swap_sticks g
                in if conforms_to v page_generic_desktop usage_gd_x
                   then (if swap then update_wheels A P horizontal g else update_xy A P horizontal g)
                   else if conforms_to v page_generic_desktop usage_gd_y
                   then (if swap then update_wheels A P vertical g else update_xy A P vertical g)
                   else if conforms_to v page_generic_desktop usage_gd_rz
                   then (if swap then update_xy A P vertical g else update_wheels A P vertical g)
                   else if conforms_to v page_generic_desktop usage_gd_z
                   then (if swap then update_xy A P horizontal g else update_wheels A P horizontal g)
                   else ([], g))
      | _ \<Rightarrow> ([], g))"

fun convert_values ::
    "stick_arithmetic \<Rightarrow> platform \<Rightarrow> iokit_hid_value list \<Rightarrow> stick_converter \<Rightarrow> entry list \<times> stick_converter" where
  "convert_values A P [] g = ([], g)"
| "convert_values A P (v # vs) g =
     (case convert_value A P v g of (es, g1) \<Rightarrow>
      case convert_values A P vs g1 of (es', g2) \<Rightarrow> (es @ es', g2))"

subsection \<open>Reachable converters\<close>

inductive stick_reachable :: "stick_arithmetic \<Rightarrow> platform \<Rightarrow> stick_converter \<Rightarrow> bool" for A P where
  created: "stick_reachable A P (create_stick_converter P i d)"
| configured: "stick_reachable A P g \<Longrightarrow> stick_reachable A P (gp_set_core_configuration P d g)"
| converted: "stick_reachable A P g \<Longrightarrow> stick_reachable A P (snd (convert_value A P v g))"
| timer: "stick_reachable A P g \<Longrightarrow> stick_reachable A P (snd (continued_movement_timer A P g))"

definition mode_ok :: "stick_converter \<Rightarrow> bool" where
  "mode_ok g \<longleftrightarrow> (gp_timer_enabled g \<longleftrightarrow> gp_mode g \<noteq> mm_none)"

text \<open>Posting changes the values and the formulas only.\<close>

lemma post_motion_frame:
  "gp_mode (snd (post_motion A m g)) = gp_mode g" "gp_timer_enabled (snd (post_motion A m g)) = gp_timer_enabled g"
  "gp_xy (snd (post_motion A m g)) = gp_xy g" "gp_wheels (snd (post_motion A m g)) = gp_wheels g"
  by (simp_all add: post_motion_def)

lemma post_stick_event_frame:
  "gp_mode (snd (post_stick_event A P mode g)) = gp_mode g"
  "gp_timer_enabled (snd (post_stick_event A P mode g)) = gp_timer_enabled g"
  "gp_xy (snd (post_stick_event A P mode g)) = gp_xy g" "gp_wheels (snd (post_stick_event A P mode g)) = gp_wheels g"
  by (cases mode; simp add: post_stick_event_def update_formulas_def xy_hid_values_def wheels_hid_values_def
      post_xy_event_def post_wheels_event_def post_motion_frame Let_def split_beta)+

lemma post_stick_event_none: "fst (post_stick_event A P mm_none g) = []"
  by (simp add: post_stick_event_def split_beta Let_def)

lemma update_timer_mode:
  assumes "update_continued_movement_timer A P mode interval g = (es, g')" "mode_ok g" "mode \<noteq> mm_none"
    and "interval \<noteq> 0 \<Longrightarrow> sk_continued_movement (gp_xy g) \<or> sk_continued_movement (gp_wheels g)"
  shows "mode_ok g' \<and> gp_xy g' = gp_xy g \<and> gp_wheels g' = gp_wheels g \<and>
    (gp_mode g' \<noteq> mm_none \<longrightarrow> sk_continued_movement (gp_xy g') \<or> sk_continued_movement (gp_wheels g'))"
proof -
  have "g' = snd (update_continued_movement_timer A P mode interval g)" by (simp add: assms(1))
  then show ?thesis
    using assms(2-4) by (auto simp: update_continued_movement_timer_def mode_ok_def post_stick_event_frame)
qed

text \<open>What moves a stick.\<close>

definition stick_update ::
    "stick_arithmetic \<Rightarrow> platform \<Rightarrow> (stick_converter \<Rightarrow> entry list \<times> stick_converter) \<Rightarrow> bool" where
  "stick_update A P u \<longleftrightarrow> (\<exists>f. u = update_xy A P f \<or> u = update_wheels A P f)"

lemma stick_update_mode:
  assumes "stick_update A P u" "u g = (es, g')" "mode_ok g"
  shows "mode_ok g' \<and>
    (gp_mode g' \<noteq> mm_none \<longrightarrow> sk_continued_movement (gp_xy g') \<or> sk_continued_movement (gp_wheels g'))"
proof -
  have interval: "sk_get_continued_movement_interval_milliseconds s \<noteq> 0 \<Longrightarrow> sk_continued_movement s" for s
    by (simp add: sk_get_continued_movement_interval_milliseconds_def split: if_splits)
  have frame: "a \<and> b \<and> c \<and> d \<Longrightarrow> a \<and> d" for a b c d :: bool by simp
  obtain f where "u = update_xy A P f \<or> u = update_wheels A P f"
    using assms(1) by (auto simp: stick_update_def)
  then show ?thesis
  proof
    assume "u = update_xy A P f"
    then show ?thesis
      using assms(2,3) interval
      by (intro update_timer_mode[of A P mm_xy
            "sk_get_continued_movement_interval_milliseconds (sk_update_values A (f (gp_xy g)))"
            "g\<lparr>gp_xy := sk_update_values A (f (gp_xy g))\<rparr>" es g', THEN frame])
        (simp_all add: update_xy_def Let_def mode_ok_def)
  next
    assume "u = update_wheels A P f"
    then show ?thesis
      using assms(2,3) interval
      by (intro update_timer_mode[of A P mm_wheels
            "sk_get_continued_movement_interval_milliseconds (sk_update_values A (f (gp_wheels g)))"
            "g\<lparr>gp_wheels := sk_update_values A (f (gp_wheels g))\<rparr>" es g', THEN frame])
        (simp_all add: update_wheels_def Let_def mode_ok_def)
  qed
qed

lemma convert_value_cases:
  obtains "convert_value A P v g = ([], g)" | u where "stick_update A P u" "convert_value A P v g = u g"
proof -
  have "convert_value A P v g = ([], g) \<or> (\<exists>u. stick_update A P u \<and> convert_value A P v g = u g)"
    unfolding convert_value_def stick_update_def Let_def
    by (auto split: option.splits)
  with that show ?thesis by blast
qed

lemma reachable_mode_ok: "stick_reachable A P g \<Longrightarrow> mode_ok g"
proof (induction rule: stick_reachable.induct)
  case (converted g v)
  then show ?case
    by (cases rule: convert_value_cases[of A P v g])
      (simp_all, metis prod.exhaust_sel stick_update_mode)
next
  case (timer g)
  then show ?case
    by (simp add: continued_movement_timer_def Let_def split_beta mode_ok_def post_stick_event_frame)
qed (simp_all add: create_stick_converter_def gp_set_core_configuration_def mode_ok_def)

text \<open>
  C31. Releasing the sticks stops the motion, whatever happened before: as soon as a value of one stick
  arrives and neither stick is tilted far enough to keep the pointer moving, the timer is off, and
  a call of it that is still pending posts nothing.
\<close>

theorem released_sticks_stop_moving:
  assumes "stick_reachable A P g" "stick_update A P u" "u g = (es, g')"
    and "\<not> sk_continued_movement (gp_xy g')" "\<not> sk_continued_movement (gp_wheels g')"
  shows "\<not> gp_timer_enabled g' \<and> fst (continued_movement_timer A P g') = []"
proof -
  have "mode_ok g' \<and> gp_mode g' = mm_none"
    using stick_update_mode[OF assms(2,3) reachable_mode_ok[OF assms(1)]] assms(4,5) by blast
  then show ?thesis
    by (auto simp: mode_ok_def continued_movement_timer_def Let_def split_beta post_stick_event_none)
qed

subsection \<open>Motions\<close>

definition fits_report :: "pointing_motion \<Rightarrow> bool" where
  "fits_report m \<longleftrightarrow> \<bar>pm_x m\<bar> \<le> 127 \<and> \<bar>pm_y m\<bar> \<le> 127 \<and> \<bar>pm_vertical_wheel m\<bar> \<le> 127 \<and> \<bar>pm_horizontal_wheel m\<bar> \<le> 127"

lemma truncated_value_bounds: "\<bar>fst (truncated_value A e)\<bar> \<le> 127"
  by (simp add: truncated_value_def Let_def)

lemma post_stick_event_fits:
  "en \<in> set (fst (post_stick_event A P mode g)) \<Longrightarrow>
   \<exists>m. en_event en = Ev_pointing_motion m \<and> fits_report m \<and> \<not> pm_is_zero m"
  using truncated_value_bounds
  by (cases mode)
    (auto simp: post_stick_event_def post_xy_event_def post_wheels_event_def post_motion_def stick_entry_def
      make_entry_def fits_report_def Let_def split_beta split: if_splits)

lemma stick_motions_fit_reports:
  "en \<in> set (fst (continued_movement_timer A P g)) \<or> en \<in> set (fst (convert_values A P vs g)) \<Longrightarrow>
   \<exists>m. en_event en = Ev_pointing_motion m \<and> fits_report m \<and> \<not> pm_is_zero m"
proof (induction vs arbitrary: g)
  case Nil
  then show ?case
    by (auto simp: continued_movement_timer_def Let_def split_beta split: if_splits dest: post_stick_event_fits)
next
  case (Cons v vs)
  have upd: "en \<in> set (fst (update_continued_movement_timer A P mode i g)) \<Longrightarrow>
      \<exists>m. en_event en = Ev_pointing_motion m \<and> fits_report m \<and> \<not> pm_is_zero m" for mode i g
    by (auto simp: update_continued_movement_timer_def split: if_splits dest: post_stick_event_fits)
  have one: "en \<in> set (fst (convert_value A P v g)) \<Longrightarrow>
      \<exists>m. en_event en = Ev_pointing_motion m \<and> fits_report m \<and> \<not> pm_is_zero m"
    by (rule convert_value_cases[of A P v g])
      (auto simp: stick_update_def update_xy_def update_wheels_def Let_def dest: upd)
  from Cons show ?case
    by (auto simp: split_beta dest: one)
qed

subsection \<open>Fractions are carried over\<close>

text \<open>The successive values of one axis and what is posted for them.\<close>

fun axis_run :: "stick_arithmetic \<Rightarrow> rat list \<Rightarrow> event_value \<Rightarrow> int list \<times> event_value" where
  "axis_run A [] e = ([], e)"
| "axis_run A (v # vs) e =
     (case truncated_value A (e\<lparr>ev_value := Finite v\<rparr>) of (n, e1) \<Rightarrow>
      case axis_run A vs e1 of (ns, e2) \<Rightarrow> (n # ns, e2))"

text \<open>
  Rounding moves a sum below 256 by at most \<open>e\<close>; the doubles there are at most 2 to the power -45
  apart, so with the nearest of them \<open>e\<close> is 2 to the power -46.
\<close>

definition rounds_within :: "rat \<Rightarrow> stick_arithmetic \<Rightarrow> bool" where
  "rounds_within e A \<longleftrightarrow> (\<forall>r. \<bar>r\<bar> < 256 \<longrightarrow> \<bar>sa_round A r - r\<bar> \<le> e) \<and> 256 \<le> sa_limit A"

lemma rat_truncate_of_int [simp]: "rat_truncate (of_int n) = n"
  by (simp add: rat_truncate_def)

lemma rat_truncate_near: "\<bar>of_int (rat_truncate r) - r\<bar> < 1"
proof (cases "0 \<le> r")
  case True
  then show ?thesis using floor_correct[of r] by (simp add: rat_truncate_def)
next
  case False
  then show ?thesis using ceiling_correct[of r] by (simp add: rat_truncate_def)
qed

lemma rat_truncate_less: "\<bar>r\<bar> < of_int k \<Longrightarrow> \<bar>rat_truncate r\<bar> < k"
proof (cases "0 \<le> r")
  case True
  assume "\<bar>r\<bar> < of_int k"
  with True have "\<lfloor>r\<rfloor> < k" "0 \<le> \<lfloor>r\<rfloor>" by (simp_all add: floor_less_iff)
  with True show ?thesis by (simp add: rat_truncate_def)
next
  case False
  assume "\<bar>r\<bar> < of_int k"
  with False have "of_int (- k) < r" by simp
  then have "- k < \<lceil>r\<rceil>" using less_ceiling_iff by blast
  moreover have "\<lceil>r\<rceil> \<le> 0" using False by (simp add: ceiling_le_iff)
  ultimately show ?thesis using False by (simp add: rat_truncate_def)
qed

lemma double_add_near:
  assumes "rounds_within e A" "\<bar>x + y\<bar> < 256"
  obtains z where "double_add A (Finite x) (Finite y) = Finite z" "\<bar>z - (x + y)\<bar> \<le> e"
  using assms by (auto simp: double_add_def rounds_within_def)

text \<open>
  One step: what is posted and what is carried over make up the speed and what was carried over
  before, but for the rounding of the two subtractions.
\<close>

lemma truncated_value_near:
  assumes "rounds_within e A" "e \<le> 1 / 16" "\<bar>v\<bar> \<le> 126" "\<bar>r\<bar> < 1 + 3 * e"
  obtains n r' where "truncated_value A \<lparr>ev_value = Finite v, ev_remainder = Finite r\<rparr> =
      (n, \<lparr>ev_value = Finite v, ev_remainder = Finite r'\<rparr>)"
    and "\<bar>r'\<bar> < 1 + 3 * e" "\<bar>of_int n + r' - (v + r)\<bar> \<le> 2 * e"
proof -
  have "\<bar>v + r\<bar> < 256" using assms(2-4) by linarith
  then obtain s where s: "double_add A (Finite v) (Finite r) = Finite s" "\<bar>s - (v + r)\<bar> \<le> e"
    using double_add_near[OF assms(1)] by blast
  let ?t = "rat_truncate s"
  have near: "\<bar>of_int ?t - s\<bar> < 1" by (rule rat_truncate_near)
  have "\<bar>s\<bar> < of_int 128" using s(2) assms(2-4) by simp
  then have t: "\<bar>?t\<bar> < 128" by (rule rat_truncate_less)
  then have "\<bar>of_int ?t :: rat\<bar> < 128" by linarith
  then have "\<bar>v + - of_int ?t\<bar> < 256" using assms(3) by linarith
  then obtain u where u: "double_add A (Finite v) (Finite (- of_int ?t)) = Finite u" "\<bar>u - (v + - of_int ?t)\<bar> \<le> e"
    using double_add_near[OF assms(1)] by blast
  have "\<bar>r + u\<bar> < 256" using u(2) near s(2) assms(2-4) by linarith
  then obtain r' where r': "double_add A (Finite r) (Finite u) = Finite r'" "\<bar>r' - (r + u)\<bar> \<le> e"
    using double_add_near[OF assms(1)] by blast
  have "truncated_value A \<lparr>ev_value = Finite v, ev_remainder = Finite r\<rparr> =
      (?t, \<lparr>ev_value = Finite v, ev_remainder = Finite r'\<rparr>)"
    using t s(1) u(1) r'(1)
    by (auto simp: truncated_value_def double_trunc_def double_neg_def double_to_int_def Let_def)
  moreover have "\<bar>r'\<bar> < 1 + 3 * e" "\<bar>of_int ?t + r' - (v + r)\<bar> \<le> 2 * e"
    using near s(2) u(2) r'(2) by linarith+
  ultimately show thesis by (rule that)
qed

text \<open>
  C32. Fractions are carried over: what is posted for a sequence of speeds differs from their exact
  sum by less than one, plus what rounding adds, which is at most \<open>2 e\<close> for each speed and \<open>3 e\<close> once.
  The speeds are any doubles between -126 and 126, so that a report holds them with what is carried
  over; \<open>e\<close> bounds the rounding of a sum below 256 (2 to the power -46 for doubles).
\<close>

theorem stick_keeps_fractions:
  assumes "rounds_within e A" "0 \<le> e" "e \<le> 1 / 16" "list_all (\<lambda>v. \<bar>v\<bar> \<le> 126) vs"
  shows "\<bar>of_int (sum_list (fst (axis_run A vs event_value_initial))) - sum_list vs\<bar> <
    1 + (2 * of_nat (length vs) + 3) * e"
proof -
  have "\<exists>r'. \<bar>r'\<bar> < 1 + 3 * e \<and>
      \<bar>of_int (sum_list (fst (axis_run A vs \<lparr>ev_value = x, ev_remainder = Finite r\<rparr>))) + r' - (sum_list vs + r)\<bar>
        \<le> 2 * of_nat (length vs) * e" if "\<bar>r\<bar> < 1 + 3 * e" for r x
    using assms(4) that
  proof (induction vs arbitrary: r x)
    case (Cons v vs)
    obtain n r' where r': "truncated_value A \<lparr>ev_value = Finite v, ev_remainder = Finite r\<rparr> =
        (n, \<lparr>ev_value = Finite v, ev_remainder = Finite r'\<rparr>)"
      "\<bar>r'\<bar> < 1 + 3 * e" "\<bar>of_int n + r' - (v + r)\<bar> \<le> 2 * e"
      using truncated_value_near[OF assms(1,3), of v r] Cons.prems by auto
    obtain q where q: "\<bar>q\<bar> < 1 + 3 * e" "\<bar>of_int (sum_list (fst (axis_run A vs
        \<lparr>ev_value = Finite v, ev_remainder = Finite r'\<rparr>))) + q - (sum_list vs + r')\<bar> \<le> 2 * of_nat (length vs) * e"
      using Cons.IH[of r' "Finite v"] Cons.prems r'(2) by auto
    have "2 * of_nat (length (v # vs)) * e = 2 * of_nat (length vs) * e + 2 * e" by (simp add: algebra_simps)
    with r' q show ?case by (intro exI[of _ q]) (simp add: split_beta)
  qed simp
  from this[of 0 "Finite 0"] obtain r' where "\<bar>r'\<bar> < 1 + 3 * e"
    "\<bar>of_int (sum_list (fst (axis_run A vs event_value_initial))) + r' - sum_list vs\<bar> \<le> 2 * of_nat (length vs) * e"
    using assms(2) by (auto simp: event_value_initial_def)
  then show ?thesis by (simp add: distrib_right)
qed

subsection \<open>Examples\<close>

text \<open>Sums without rounding; the examples take roots of 0 only and no angles.\<close>

definition exact_stick_arithmetic :: stick_arithmetic where
  "exact_stick_arithmetic =
     \<lparr>sa_atan2 = (\<lambda>v h. 0), sa_sqrt = (\<lambda>r. r), sa_round = (\<lambda>r. r), sa_limit = 2 ^ 1024,
      sa_int_overflow = (\<lambda>_. 0), sa_clock = int\<rparr>"

text \<open>Rounding to multiples of 2 to the power -45; a tenth is not one of them.\<close>

definition grid_stick_arithmetic :: stick_arithmetic where
  "grid_stick_arithmetic =
     exact_stick_arithmetic\<lparr>sa_round := (\<lambda>r. of_int (round (r * 2 ^ 45)) / 2 ^ 45)\<rparr>"

lemma grid_rounds_within: "rounds_within (1 / 2 ^ 46) grid_stick_arithmetic"
proof -
  have "\<bar>of_int (round (r * 2 ^ 45)) / 2 ^ 45 - r\<bar> \<le> 1 / 2 ^ 46" for r :: rat
  proof -
    have "\<bar>of_int (round (r * 2 ^ 45)) - r * 2 ^ 45\<bar> \<le> 1 / 2" by (rule of_int_round_abs_le)
    then have "\<bar>(of_int (round (r * 2 ^ 45)) - r * 2 ^ 45) / 2 ^ 45\<bar> \<le> 1 / 2 / 2 ^ 45"
      by (simp only: abs_divide) (simp add: divide_le_cancel)
    then show ?thesis by (simp add: diff_divide_distrib)
  qed
  then show ?thesis by (simp add: rounds_within_def grid_stick_arithmetic_def exact_stick_arithmetic_def)
qed

theorem stick_keeps_fractions_witness:
  "\<bar>of_int (sum_list (fst (axis_run grid_stick_arithmetic (replicate 10 (1 / 10)) event_value_initial))) - 1\<bar> <
    1 + 23 / (2 ^ 46 :: rat)"
proof -
  have "sum_list (replicate 10 (1 / 10 :: rat)) = 1" by (simp add: sum_list_replicate)
  then show ?thesis
    using stick_keeps_fractions[OF grid_rounds_within, of "replicate 10 (1 / 10)"]
    by (simp add: list_all_iff)
qed

definition sample_stick_converter :: stick_converter where
  "sample_stick_converter = create_stick_converter witness_platform 3 sample_device"

lemma sample_sticks_are_released:
  defines "g \<equiv> snd (update_xy exact_stick_arithmetic witness_platform (sk_horizontal_update (\<lambda>_. 0)) sample_stick_converter)"
  shows "\<not> sk_continued_movement (gp_xy g)" "\<not> sk_continued_movement (gp_wheels g)"
proof -
  have one: "get_game_pad_xy_stick_continued_movement_absolute_magnitude_threshold sample_device = 1"
    "get_game_pad_wheels_stick_continued_movement_absolute_magnitude_threshold sample_device = 1"
    by (simp_all add: get_game_pad_xy_stick_continued_movement_absolute_magnitude_threshold_def
        get_game_pad_wheels_stick_continued_movement_absolute_magnitude_threshold_def double_member_def
        sample_device_def member_value_def find_value_def set_member_def device_values_def value_t_initial_def
        special_entry_def special_value_def set_default_def)
  show "\<not> sk_continued_movement (gp_xy g)" "\<not> sk_continued_movement (gp_wheels g)"
    using one
    by (simp_all add: g_def update_xy_def update_continued_movement_timer_def Let_def post_stick_event_frame
        sample_stick_converter_def create_stick_converter_def gp_set_core_configuration_def
        sk_continued_movement_def sk_update_values_def stick_initial_def exact_stick_arithmetic_def)
qed

theorem released_sticks_stop_moving_witness:
  "\<not> gp_timer_enabled (snd (update_xy exact_stick_arithmetic witness_platform (sk_horizontal_update (\<lambda>_. 0))
      sample_stick_converter)) \<and>
   fst (continued_movement_timer exact_stick_arithmetic witness_platform
      (snd (update_xy exact_stick_arithmetic witness_platform (sk_horizontal_update (\<lambda>_. 0))
        sample_stick_converter))) = []"
proof (rule released_sticks_stop_moving)
  show "stick_reachable exact_stick_arithmetic witness_platform sample_stick_converter"
    unfolding sample_stick_converter_def by (rule stick_reachable.created)
  show "stick_update exact_stick_arithmetic witness_platform
      (update_xy exact_stick_arithmetic witness_platform (sk_horizontal_update (\<lambda>_. 0)))"
    by (auto simp: stick_update_def)
  show "\<not> sk_continued_movement (gp_xy (snd (update_xy exact_stick_arithmetic witness_platform
      (sk_horizontal_update (\<lambda>_. 0)) sample_stick_converter)))"
    by (rule sample_sticks_are_released(1))
  show "\<not> sk_continued_movement (gp_wheels (snd (update_xy exact_stick_arithmetic witness_platform
      (sk_horizontal_update (\<lambda>_. 0)) sample_stick_converter)))"
    by (rule sample_sticks_are_released(2))
qed (rule prod.collapse[symmetric])

end
