(* ===== verification/Device_Entry.thy ===== *)
theory Device_Entry
  imports Modification_Managers Game_Pad_Stick Probable_Stuck_Events
begin

text \<open>
  What the grabber keeps of a device, \<open>src/core/grabber/include/grabber/device_grabber_details/entry.hpp\<close>:
  the properties of the device, its monitor, the trackers of its keys, its LED and the converter of
  its sticks. An entry has the configuration of the grabber, which every operation takes here.

  \<open>profile::get_device\<close> remembers the devices it creates, in a mutable member. The answers do not
  depend on it, and such a device makes no simple modification: both are shown here, so the model
  asks the profile that was loaded. An exception of \<open>get_device\<close> is \<open>None\<close> below and cannot
  happen for a device of IOKit and a JSON library that reads what it wrote.
\<close>

subsection \<open>The settings of a device\<close>

definition device_settings :: "json_text \<Rightarrow> configuration \<Rightarrow> device_identifiers \<Rightarrow> device option" where
  "device_settings T c i =
     (case get_selected_profile c of
        None \<Rightarrow> None
      | Some p \<Rightarrow> (case get_device T \<lparr>si_json = JObject [], si_identifiers = i\<rparr> p of
                      Inl _ \<Rightarrow> None | Inr (d, _) \<Rightarrow> Some d))"

definition device_setting :: "(device \<Rightarrow> bool) \<Rightarrow> json_text \<Rightarrow> configuration \<Rightarrow> device_identifiers \<Rightarrow> bool" where
  "device_setting f T c i = (case device_settings T c i of None \<Rightarrow> False | Some d \<Rightarrow> f d)"

text \<open>
  What the path of an event reads of the configuration, which always has a selected profile
  (theory \<open>Core_Configuration\<close>).
\<close>

definition environment_configuration :: "json_text \<Rightarrow> configuration \<Rightarrow> core_configuration" where
  "environment_configuration T c =
     (let k = (case get_selected_profile c of None \<Rightarrow> None | Some p \<Rightarrow> Some (pfl_virtual_hid_keyboard p))
      in \<lparr>cc_treat_as_built_in_keyboard = device_setting get_treat_as_built_in_keyboard T c,
          cc_keyboard_type_v2 = (case k of None \<Rightarrow> [] | Some s \<Rightarrow> get_keyboard_type_v2 s),
          cc_mouse_key_xy_scale = (case k of None \<Rightarrow> 100 | Some s \<Rightarrow> get_mouse_key_xy_scale s),
          cc_indicate_sticky_modifier_keys_state =
            (case k of None \<Rightarrow> True | Some s \<Rightarrow> get_indicate_sticky_modifier_keys_state s)\<rparr>)"

subsection \<open>State\<close>

datatype grabbable_state =
  gs_none | gs_grabbable | gs_ungrabbable_temporarily | gs_ungrabbable_permanently | gs_end

record grabber_entry =
  ge_properties :: device_properties
  ge_probable_stuck_events :: probable_stuck_events_manager
  ge_pressed_keys :: pressed_keys
  ge_led :: led_manager
  ge_monitor :: hid_monitor
  ge_stick_converter :: "stick_converter option"
  ge_last_time_stamp :: absolute_time_point
  ge_device_name :: string
  ge_device_short_name :: string
  ge_disabled :: bool

text \<open>What IOKit says of a device: its properties, its names and the range of its caps lock LED.\<close>

record iokit_device =
  io_parameters :: initialization_parameters
  io_name :: string
  io_short_name :: string
  io_led :: "(int \<times> int) option"

definition create_entry :: "device_id \<Rightarrow> iokit_device \<Rightarrow> grabber_entry" where
  "create_entry d io =
     \<lparr>ge_properties = make_device_properties ((io_parameters io)\<lparr>ip_device_id := d\<rparr>),
      ge_probable_stuck_events = psem_initial, ge_pressed_keys = {},
      ge_led = led_manager_initial (io_led io), ge_monitor = monitor_initial,
      ge_stick_converter = None, ge_last_time_stamp = 0, ge_device_name = io_name io,
      ge_device_short_name = io_short_name io, ge_disabled = False\<rparr>"

abbreviation ge_identifiers :: "grabber_entry \<Rightarrow> device_identifiers" where
  "ge_identifiers e \<equiv> dp_device_identifiers (ge_properties e)"

abbreviation ge_device_id :: "grabber_entry \<Rightarrow> device_id" where
  "ge_device_id e \<equiv> dp_device_id (ge_properties e)"

abbreviation ge_virtual :: "grabber_entry \<Rightarrow> bool" where
  "ge_virtual e \<equiv> di_is_virtual_device (ge_identifiers e)"

definition entry_seized :: "grabber_entry \<Rightarrow> bool" where
  "entry_seized e = monitor_seized (ge_monitor e)"

subsection \<open>Questions\<close>

definition needs_to_observe_device :: "grabber_entry \<Rightarrow> bool" where
  "needs_to_observe_device e \<longleftrightarrow> ge_virtual e"

definition needs_to_seize_device :: "json_text \<Rightarrow> configuration \<Rightarrow> grabber_entry \<Rightarrow> bool" where
  "needs_to_seize_device T c e =
     (if ge_virtual e then False
      else if ge_disabled e then True
      else device_setting (\<lambda>d. \<not> get_ignore d) T c (ge_identifiers e))"

definition is_disable_built_in_keyboard_if_exists :: "json_text \<Rightarrow> configuration \<Rightarrow> grabber_entry \<Rightarrow> bool" where
  "is_disable_built_in_keyboard_if_exists T c e =
     (if ge_virtual e then False
      else if dp_is_built_in_keyboard (ge_properties e) \<or> dp_is_built_in_pointing_device (ge_properties e)
              \<or> dp_is_built_in_touch_bar (ge_properties e) then False
      else device_setting get_disable_built_in_keyboard_if_exists T c (ge_identifiers e))"

definition entry_is_built_in_keyboard :: "json_text \<Rightarrow> configuration \<Rightarrow> grabber_entry \<Rightarrow> bool" where
  "entry_is_built_in_keyboard T c e =
     determine_is_built_in_keyboard (environment_configuration T c) (ge_properties e)"

subsection \<open>Operations\<close>

definition set_disabled :: "bool \<Rightarrow> grabber_entry \<Rightarrow> grabber_entry" where
  "set_disabled b e = (if ge_virtual e then e else e\<lparr>ge_disabled := b\<rparr>)"

text \<open>The starting and stopping of the LED manager are given to the dispatcher; here they are done at once.\<close>

definition control_caps_lock_led :: "json_text \<Rightarrow> configuration \<Rightarrow> grabber_entry \<Rightarrow> grabber_entry" where
  "control_caps_lock_led T c e =
     (if ge_virtual e then e
      else if device_setting get_manipulate_caps_lock_led T c (ge_identifiers e) \<and> entry_seized e
      then e\<lparr>ge_led := led_start (ge_led e)\<rparr>
      else e\<lparr>ge_led := led_stop (ge_led e)\<rparr>)"

definition entry_set_core_configuration ::
    "json_text \<Rightarrow> platform \<Rightarrow> configuration \<Rightarrow> grabber_entry \<Rightarrow> grabber_entry" where
  "entry_set_core_configuration T P c e =
     (let e1 = control_caps_lock_led T c e in
      case (ge_stick_converter e1, device_settings T c (ge_identifiers e1)) of
        (Some g, Some d) \<Rightarrow> e1\<lparr>ge_stick_converter := Some (gp_set_core_configuration P d g)\<rparr>
      | _ \<Rightarrow> e1)"

definition async_start_queue_value_monitor ::
    "json_text \<Rightarrow> configuration \<Rightarrow> grabbable_state \<Rightarrow> grabber_entry \<Rightarrow> grabber_entry" where
  "async_start_queue_value_monitor T c st e =
     (let start = (\<lambda>opt. e\<lparr>ge_monitor := monitor_async_start opt (ge_monitor e)\<rparr>) in
      if ge_virtual e then start opt_none
      else case st of
          gs_grabbable \<Rightarrow> start (if needs_to_seize_device T c e then opt_seize else opt_none)
        | gs_ungrabbable_temporarily \<Rightarrow> start opt_none
        | _ \<Rightarrow> e)"

definition async_stop_queue_value_monitor :: "grabber_entry \<Rightarrow> grabber_entry" where
  "async_stop_queue_value_monitor e = e\<lparr>ge_monitor := monitor_async_stop (ge_monitor e)\<rparr>"

definition set_caps_lock_led_state :: "led_state option \<Rightarrow> grabber_entry \<Rightarrow> grabber_entry" where
  "set_caps_lock_led_state s e = e\<lparr>ge_led := fst (led_set_state s (ge_led e))\<rparr>"

text \<open>The handlers of the monitor's signals that the entry connects.\<close>

definition entry_started :: "json_text \<Rightarrow> platform \<Rightarrow> configuration \<Rightarrow> grabber_entry \<Rightarrow> grabber_entry" where
  "entry_started T P c e =
     (let e1 = control_caps_lock_led T c e in
      if entry_seized e1
      then (let e2 = e1\<lparr>ge_probable_stuck_events := psem_clear (ge_probable_stuck_events e1)\<rparr> in
            case device_settings T c (ge_identifiers e2) of
              Some d \<Rightarrow>
                if di_is_game_pad (ge_identifiers e2)
                then e2\<lparr>ge_stick_converter := Some (create_stick_converter P (ge_device_id e2) d)\<rparr> else e2
            | None \<Rightarrow> e2)
      else e1)"

definition entry_stopped :: "json_text \<Rightarrow> configuration \<Rightarrow> grabber_entry \<Rightarrow> grabber_entry" where
  "entry_stopped T c e = (control_caps_lock_led T c e)\<lparr>ge_stick_converter := None\<rparr>"

subsection \<open>Values\<close>

text \<open>Values that are dropped: vendor events where they are to be ignored, and the noise of one game pad.\<close>

definition is_vendor_value :: "iokit_hid_value \<Rightarrow> bool" where
  "is_vendor_value v \<longleftrightarrow>
     (case hv_usage_page v of
        None \<Rightarrow> False
      | Some p \<Rightarrow> p = page_apple_vendor_top_case \<or> 0xff00 \<le> p \<and> p \<le> 0xffff)"

definition is_noise_value :: "iokit_hid_value \<Rightarrow> bool" where
  "is_noise_value v \<longleftrightarrow>
     hv_usage_page v = Some page_button
     \<or> hv_usage_page v = Some page_generic_desktop
       \<and> hv_usage v \<in> {Some usage_gd_x, Some usage_gd_y, Some usage_gd_z, Some usage_gd_rz}"

definition eliminates_value :: "configuration \<Rightarrow> device \<Rightarrow> device_properties \<Rightarrow> iokit_hid_value \<Rightarrow> bool" where
  "eliminates_value c d dp v \<longleftrightarrow>
     get_ignore_vendor_events d \<and> \<not> dp_is_apple dp \<and> is_vendor_value v
     \<or> get_filter_useless_events_from_specific_devices (cfg_global c)
       \<and> is_nintendo_pro_controller_0x057e_0x2009 (dp_device_identifiers dp)
       \<and> dp_transport dp = ''USB'' \<and> is_noise_value v"

text \<open>
  The handler of \<open>values_arrived\<close>: the entries it signals, those of the stick converter, which are
  given to the dispatcher, and what it changes.
\<close>

definition entry_values_arrived ::
    "json_text \<Rightarrow> floating_point \<Rightarrow> stick_arithmetic \<Rightarrow> platform \<Rightarrow> configuration \<Rightarrow> iokit_hid_value list \<Rightarrow>
     grabber_entry \<times> hat_switch_converter \<Rightarrow> entry list \<times> entry list \<times> grabber_entry \<times> hat_switch_converter" where
  "entry_values_arrived T F A P c vs s =
     (case s of (e, hat) \<Rightarrow>
      case device_settings T c (ge_identifiers e) of
        None \<Rightarrow> ([], [], e, hat)
      | Some d \<Rightarrow>
          (case make_hid_values (ge_last_time_stamp e) vs of (ws, t) \<Rightarrow>
            (let hid_values = erase_if (eliminates_value c d (ge_properties e)) ws in
             case make_entries F (ge_properties e) hid_values
                    \<lparr>mep_pointing_motion_xy_multiplier = get_pointing_motion_xy_multiplier d,
                     mep_pointing_motion_wheels_multiplier = get_pointing_motion_wheels_multiplier d\<rparr> hat of
               (ens, hat') \<Rightarrow>
             case insert_released_events (ge_device_id e) ens (ge_pressed_keys e) of (ens', pk) \<Rightarrow>
               (let e1 = e\<lparr>ge_last_time_stamp := t, ge_pressed_keys := pk\<rparr> in
                case ge_stick_converter e1 of
                  None \<Rightarrow> (ens', [], e1, hat')
                | Some g \<Rightarrow> (case convert_values A P hid_values g of
                                (sticks, g') \<Rightarrow> (ens', sticks, e1\<lparr>ge_stick_converter := Some g'\<rparr>, hat'))))))"

subsection \<open>Asking for a device changes nothing\<close>

text \<open>The devices a profile knows after it was asked for some.\<close>

fun ask_devices :: "json_text \<Rightarrow> device_identifiers list \<Rightarrow> profile \<Rightarrow> profile" where
  "ask_devices T [] p = p"
| "ask_devices T (i # is) p =
     ask_devices T is (case get_device T \<lparr>si_json = JObject [], si_identifiers = i\<rparr> p of
                         Inl _ \<Rightarrow> p | Inr (_, p') \<Rightarrow> p')"

text \<open>The identifiers of a device of IOKit, and a JSON library that loads the default function keys.\<close>

definition iokit_identifiers :: "device_identifiers \<Rightarrow> bool" where
  "iokit_identifiers i \<longleftrightarrow> identifiers_valid \<lparr>si_json = JObject [], si_identifiers = i\<rparr>"

definition loads_function_keys :: "json_text \<Rightarrow> simple_modifications \<Rightarrow> bool" where
  "loads_function_keys T fn0 \<longleftrightarrow>
     update_simple_modifications T (JArray device_default_fn_function_keys) [] = Inr fn0 \<and>
     list_all (\<lambda>p. case jt_parse T (snd p) of Some j \<Rightarrow> json_empty j | None \<Rightarrow> True) fn0"

definition unknown_device :: "simple_modifications \<Rightarrow> device_identifiers \<Rightarrow> device" where
  "unknown_device fn0 i =
     \<lparr>dv_json = JObject [(''identifiers'', identifiers_to_json \<lparr>si_json = JObject [], si_identifiers = i\<rparr>)],
      dv_identifiers = \<lparr>si_json = identifiers_to_json \<lparr>si_json = JObject [], si_identifiers = i\<rparr>,
                        si_identifiers = i\<rparr>,
      dv_values = map (special_entry i) (map value_t_initial device_values),
      dv_simple_modifications = [], dv_fn_function_keys = fn0\<rparr>"

lemma unknown_device_member:
  assumes "map_of device_values k = Some (Config_bool b)"
  shows "bool_member k (dv_values (unknown_device fn0 i)) = (b \<or> special_value i k \<noteq> None)"
proof -
  have "member_value k (map (special_entry i) (map value_t_initial ds)) =
      (case map_of ds k of None \<Rightarrow> None
       | Some x \<Rightarrow> Some (case special_value i k of None \<Rightarrow> x
                          | Some y \<Rightarrow> vt_value (set_default y (value_t_initial (k, x)))))" for ds
    by (induction ds) (auto simp: member_value_def find_value_def special_entry_def value_t_initial_def
        split: option.splits)
  with assms show ?thesis
    by (auto simp: bool_member_def unknown_device_def special_value_def set_default_def value_t_initial_def Let_def
        split: option.splits if_splits)
qed

lemma device_flags_default:
  "map_of device_values ''ignore'' = Some (Config_bool False)"
  "map_of device_values ''treat_as_built_in_keyboard'' = Some (Config_bool False)"
  "map_of device_values ''disable_built_in_keyboard_if_exists'' = Some (Config_bool False)"
  "map_of device_values ''mouse_flip_x'' = Some (Config_bool False)"
  "map_of device_values ''mouse_flip_y'' = Some (Config_bool False)"
  "map_of device_values ''mouse_flip_vertical_wheel'' = Some (Config_bool False)"
  "map_of device_values ''mouse_flip_horizontal_wheel'' = Some (Config_bool False)"
  "map_of device_values ''mouse_swap_xy'' = Some (Config_bool False)"
  "map_of device_values ''mouse_swap_wheels'' = Some (Config_bool False)"
  "map_of device_values ''mouse_discard_x'' = Some (Config_bool False)"
  "map_of device_values ''mouse_discard_y'' = Some (Config_bool False)"
  "map_of device_values ''mouse_discard_vertical_wheel'' = Some (Config_bool False)"
  "map_of device_values ''mouse_discard_horizontal_wheel'' = Some (Config_bool False)"
  by (simp_all add: device_values_def)

lemma unknown_device_settings:
  "\<not> get_treat_as_built_in_keyboard (unknown_device fn0 i)"
  "\<not> get_disable_built_in_keyboard_if_exists (unknown_device fn0 i)"
  "device_flip (unknown_device fn0 i) = []" "device_swap (unknown_device fn0 i) = []"
  "device_discard (unknown_device fn0 i) = []"
  by (simp_all add: get_treat_as_built_in_keyboard_def get_disable_built_in_keyboard_if_exists_def device_flip_def
      device_swap_def device_discard_def set_names_def get_mouse_flip_x_def get_mouse_flip_y_def
      get_mouse_flip_vertical_wheel_def get_mouse_flip_horizontal_wheel_def get_mouse_swap_xy_def
      get_mouse_swap_wheels_def get_mouse_discard_x_def get_mouse_discard_y_def
      get_mouse_discard_vertical_wheel_def get_mouse_discard_horizontal_wheel_def
      device_flags_default[THEN unknown_device_member] special_value_def)

lemma unknown_device_ignored: "get_ignore (unknown_device fn0 i) = is_ignored_by_default i"
  by (simp add: get_ignore_def device_flags_default[THEN unknown_device_member] special_value_def)

lemma unknown_device_created:
  assumes "iokit_identifiers i" "loads_function_keys T fn0"
  shows "create_device T eh (JObject [(''identifiers'',
      identifiers_to_json \<lparr>si_json = JObject [], si_identifiers = i\<rparr>)]) = Inr (unknown_device fn0 i)"
proof -
  let ?s = "\<lparr>si_json = JObject [], si_identifiers = i\<rparr>"
  let ?j = "JObject [(''identifiers'', identifiers_to_json ?s)]"
  have "json_find ?j (vt_key v) = None" if "v \<in> set (map value_t_initial device_values)" for v
  proof -
    have "vt_key v \<in> fst ` set device_values" using that by (force simp: value_t_initial_def)
    then have "vt_key v \<noteq> ''identifiers''" using not_device_values(1) by metis
    then show ?thesis by (simp add: json_find_def)
  qed
  then have "update_values eh ?j (map value_t_initial device_values) = Inr (map value_t_initial device_values)"
    by (intro update_values_absent) simp_all
  moreover have "create_identifiers (identifiers_to_json ?s) =
      Inr \<lparr>si_json = identifiers_to_json ?s, si_identifiers = i\<rparr>"
    using device_identifiers_read_back[of ?s] assms(1) by (simp add: iokit_identifiers_def)
  moreover have "coordinate_between_properties (unknown_device fn0 i) = unknown_device fn0 i"
    using unknown_device_settings(1)[of fn0 i]
    by (simp add: coordinate_between_properties_def get_treat_as_built_in_keyboard_def)
  ultimately show ?thesis
    using assms(2) unfolding loads_function_keys_def
    by (simp add: create_device_def requires_object_def device_item_def set_special_defaults_map unknown_device_def)
qed

lemma get_device_known:
  assumes "iokit_identifiers i" "loads_function_keys T fn0"
  shows "get_device T \<lparr>si_json = JObject [], si_identifiers = i\<rparr> p =
    (case profile_find_device i p of
       Some d \<Rightarrow> Inr (d, p)
     | None \<Rightarrow> Inr (unknown_device fn0 i, p\<lparr>pfl_devices := pfl_devices p @ [unknown_device fn0 i]\<rparr>))"
  using unknown_device_created[OF assms] by (simp add: get_device_def split: option.splits)

lemma find_unknown_device:
  "profile_find_device i (p\<lparr>pfl_devices := pfl_devices p @ [unknown_device fn0 i']\<rparr>) =
    (case profile_find_device i p of
       Some d \<Rightarrow> Some d
     | None \<Rightarrow> if i' = i then Some (unknown_device fn0 i') else None)"
proof -
  have "find Q (xs @ [x]) = (case find Q xs of Some y \<Rightarrow> Some y | None \<Rightarrow> if Q x then Some x else None)"
    for Q and xs :: "device list" and x
    by (induction xs) simp_all
  then show ?thesis by (auto simp: profile_find_device_def unknown_device_def split: option.splits)
qed

text \<open>What a device that was only asked for adds to the manipulators.\<close>

lemma unknown_device_manipulators:
  assumes "loads_function_keys T fn0"
  shows "device_simple_manipulators T P (unknown_device fn0 i) s = s"
    and "device_fn_manipulators T P fn (unknown_device fn0 i) s = s"
proof -
  show "device_simple_manipulators T P (unknown_device fn0 i) s = s"
    by (simp add: device_simple_manipulators_def unknown_device_settings)
      (simp add: unknown_device_def)
  have empty: "parse_text T t = Inl e \<or> parse_text T t = Inr j \<and> json_empty j \<Longrightarrow>
      push_back_made (rd_bind (make_function_key_manipulator T P fn (f, t)) k) s = s"
    for t e j f and k :: "'a manipulator \<Rightarrow> 'a manipulator reading" and s
    by (auto simp: push_back_made_def make_function_key_manipulator_def rd_bind_def rd_lift_def rd_throw_def
        split: sum.splits prod.splits if_splits)
  have "fold (\<lambda>p. push_back_made (rd_bind (make_function_key_manipulator T P fn p) k)) ps s = s"
    if "list_all (\<lambda>p. case jt_parse T (snd p) of Some j \<Rightarrow> json_empty j | None \<Rightarrow> True) ps"
    for ps and k :: "'a manipulator \<Rightarrow> 'a manipulator reading" and s
    using that
  proof (induction ps arbitrary: s)
    case (Cons p ps)
    then have "push_back_made (rd_bind (make_function_key_manipulator T P fn p) k) s = s"
      using empty[of "snd p" Parse_error _ "fst p"]
      by (cases "jt_parse T (snd p)") (simp_all add: parse_text_def)
    then show ?case using Cons by simp
  qed simp
  then show "device_fn_manipulators T P fn (unknown_device fn0 i) s = s"
    using assms by (simp add: device_fn_manipulators_def loads_function_keys_def unknown_device_def)
qed

text \<open>
  Asking a profile for devices, which makes it remember the ones it did not know, changes neither
  the settings of any device nor the manipulators made from the profile.
\<close>

theorem asking_for_devices_changes_nothing:
  assumes "loads_function_keys T fn0" "list_all iokit_identifiers (i # ids)"
  shows "map_sum id fst (get_device T \<lparr>si_json = JObject [], si_identifiers = i\<rparr> (ask_devices T ids p)) =
      map_sum id fst (get_device T \<lparr>si_json = JObject [], si_identifiers = i\<rparr> p) \<and>
    update_simple_manipulators T P (ask_devices T ids p) s = update_simple_manipulators T P p s \<and>
    update_fn_manipulators T P (ask_devices T ids p) spp s = update_fn_manipulators T P p spp s"
  using assms(2)
proof (induction ids arbitrary: p)
  case (Cons i' ids)
  define p' where "p' = p\<lparr>pfl_devices := pfl_devices p @ [unknown_device fn0 i']\<rparr>"
  have same: "map_sum id fst (get_device T \<lparr>si_json = JObject [], si_identifiers = i\<rparr> p') =
      map_sum id fst (get_device T \<lparr>si_json = JObject [], si_identifiers = i\<rparr> p)"
    if "profile_find_device i' p = None"
    using Cons.prems assms(1) that
    by (auto simp: get_device_known[OF _ assms(1)] p'_def find_unknown_device split: option.splits)
  have more: "update_simple_manipulators T P p' s = update_simple_manipulators T P p s"
    "update_fn_manipulators T P p' spp s = update_fn_manipulators T P p spp s"
    by (simp_all add: update_simple_manipulators_def update_fn_manipulators_def p'_def Let_def
        unknown_device_manipulators[OF assms(1)])
  have ask: "ask_devices T (i' # ids) p = ask_devices T ids (if profile_find_device i' p = None then p' else p)"
    using Cons.prems by (simp add: get_device_known[OF _ assms(1)] p'_def split: option.splits)
  show ?case
    unfolding ask using Cons.IH[of p] Cons.IH[of p'] Cons.prems same more by (simp add: id_def split: if_split)
qed simp

text \<open>An ignored device by default: what the settings of a device that is not in the configuration say.\<close>

lemma device_settings_known:
  assumes "iokit_identifiers i" "loads_function_keys T fn0" "get_selected_profile c = Some p"
  shows "device_settings T c i = Some (case profile_find_device i p of Some d \<Rightarrow> d | None \<Rightarrow> unknown_device fn0 i)"
  using assms by (simp add: device_settings_def get_device_known split: option.splits)

text \<open>The default function keys load with the JSON text of the examples.\<close>

lemma sample_function_keys_load: "loads_function_keys unary_json_text sample_fn_function_keys"
  using sample_fn_function_keys_loaded
  by (simp add: loads_function_keys_def sample_fn_function_keys_def unary_json_text_simps)

theorem asking_for_devices_changes_nothing_witness:
  "map_sum id fst (get_device unary_json_text \<lparr>si_json = JObject [], si_identifiers = no_identifiers\<rparr>
      (ask_devices unary_json_text [no_identifiers\<lparr>di_vendor_id := 1\<rparr>] sample_profile)) =
    map_sum id fst (get_device unary_json_text \<lparr>si_json = JObject [], si_identifiers = no_identifiers\<rparr> sample_profile)"
proof -
  have "list_all iokit_identifiers [no_identifiers, no_identifiers\<lparr>di_vendor_id := 1\<rparr>]"
    by (simp add: iokit_identifiers_def identifiers_valid_def no_identifiers_def members_ok_def)
  from asking_for_devices_changes_nothing[OF sample_function_keys_load this] show ?thesis by blast
qed

end
