(* ===== verification/Device_Grabber.thy ===== *)
theory Device_Grabber
  imports Device_Entry
begin

text \<open>
  The grabber, \<open>src/core/grabber/include/grabber/device_grabber.hpp\<close>: it decides which devices are
  seized, forwards what seized devices send to the merged queue, drives the managers of
  manipulators and keeps the virtual devices and the notification messages up to date.

  All methods run in the thread of the dispatcher, so the state has the functions that wait there;
  the functions given to it with a delay may run at any time. Calls of the client of the virtual
  devices are recorded. Logging is not modelled, nor is the killing of the components when a device
  may not be opened. The work of the message manager and of the LED managers is given to the
  dispatcher by the code and done at once here. The order of the entries, which the code leaves to
  a hash table, is that of their creation.
\<close>

subsection \<open>State\<close>

datatype virtual_hid_call =
    Vc_keyboard_initialize "(int \<times> int) option"
  | Vc_keyboard_terminate
  | Vc_pointing_initialize
  | Vc_pointing_terminate
  | Vc_start
  | Vc_stop

datatype grabber_job =
    Gj_start
  | Gj_grab_devices
  | Gj_ungrab_devices
  | Gj_set_system_preferences system_preferences_properties
  | Gj_post_set_variable set_variable
  | Gj_post_frontmost_application application
  | Gj_post_input_source input_source_properties
  | Gj_post_system_preferences
  | Gj_post_virtual_hid_devices_state
  | Gj_input_event_arrived
  | Gj_manipulate absolute_time_point
  | Gj_post_events
  | Gj_signal device_id monitor_signal
  | Gj_values device_id "iokit_hid_value list"
  | Gj_stick device_id entry

text \<open>
  The connector has the four managers, the last of which holds the poster, and the five queues, the
  first of which is the merged input queue and the last the posted one.
\<close>

record 'k grabber =
  gb_configuration :: configuration
  gb_entries :: "(device_id \<times> grabber_entry) list"
  gb_devices_state :: virtual_hid_devices_state
  gb_system_sleeping :: bool
  gb_last_caps_lock_state :: "bool option"
  gb_system_preferences :: system_preferences_properties
  gb_connector :: "'k connector"
  gb_loader :: loader
  gb_hat :: hat_switch_converter
  gb_jobs :: "grabber_job list"
  gb_delayed :: "(milliseconds \<times> grabber_job) list"
  gb_client :: "virtual_hid_call list"
  gb_sent :: "'k post_event_value list"
  gb_devices_json :: connected_devices
  gb_matched_delay :: milliseconds
  gb_clock_reads :: nat

text \<open>What the grabber takes from outside.\<close>

record 'k surroundings =
  su_machine :: "'k machine"
  su_floating_point :: floating_point
  su_sticks :: stick_arithmetic
  su_text :: json_text
  su_clock :: "nat \<Rightarrow> absolute_time_point"
  su_momentum :: int

abbreviation su_platform :: "'k surroundings \<Rightarrow> platform" where
  "su_platform G \<equiv> mc_platform (su_machine G)"

definition enqueue :: "grabber_job \<Rightarrow> 'k grabber \<Rightarrow> 'k grabber" where
  "enqueue j g = g\<lparr>gb_jobs := gb_jobs g @ [j]\<rparr>"

definition enqueue_after :: "milliseconds \<Rightarrow> grabber_job \<Rightarrow> 'k grabber \<Rightarrow> 'k grabber" where
  "enqueue_after ms j g = (if ms \<le> 0 then enqueue j g else g\<lparr>gb_delayed := gb_delayed g @ [(ms, j)]\<rparr>)"

definition call_client :: "virtual_hid_call \<Rightarrow> 'k grabber \<Rightarrow> 'k grabber" where
  "call_client c g = g\<lparr>gb_client := gb_client g @ [c]\<rparr>"

definition read_clock :: "'k surroundings \<Rightarrow> 'k grabber \<Rightarrow> absolute_time_point \<times> 'k grabber" where
  "read_clock G g = (su_clock G (gb_clock_reads g), g\<lparr>gb_clock_reads := Suc (gb_clock_reads g)\<rparr>)"

text \<open>A destroyed entry takes back what its monitor and its converter gave to the dispatcher.\<close>

definition job_of_device :: "device_id \<Rightarrow> grabber_job \<Rightarrow> bool" where
  "job_of_device d j \<longleftrightarrow>
     (case j of Gj_signal d' _ \<Rightarrow> d' = d | Gj_values d' _ \<Rightarrow> d' = d | Gj_stick d' _ \<Rightarrow> d' = d | _ \<Rightarrow> False)"

definition drop_jobs :: "(grabber_job \<Rightarrow> bool) \<Rightarrow> 'k grabber \<Rightarrow> 'k grabber" where
  "drop_jobs Q g = g\<lparr>gb_jobs := erase_if Q (gb_jobs g)\<rparr>"

definition find_entry :: "device_id \<Rightarrow> 'k grabber \<Rightarrow> grabber_entry option" where
  "find_entry d g = map_of (gb_entries g) d"

definition change_entry :: "device_id \<Rightarrow> (grabber_entry \<Rightarrow> grabber_entry) \<Rightarrow> 'k grabber \<Rightarrow> 'k grabber" where
  "change_entry d f g = g\<lparr>gb_entries := map (\<lambda>(d', e). (d', if d' = d then f e else e)) (gb_entries g)\<rparr>"

definition update_all_entries :: "(grabber_entry \<Rightarrow> grabber_entry) \<Rightarrow> 'k grabber \<Rightarrow> 'k grabber" where
  "update_all_entries f g = g\<lparr>gb_entries := map (\<lambda>(d, e). (d, f e)) (gb_entries g)\<rparr>"

text \<open>The notification message manager is shared with the poster.\<close>

fun notify_poster ::
    "(notification_message_manager \<Rightarrow> notification_message_manager) \<Rightarrow> 'k manipulator \<Rightarrow> 'k manipulator" where
  "notify_poster f (M_post_event_to_virtual_devices v) =
     M_post_event_to_virtual_devices (v\<lparr>pv_notification := map_option f (pv_notification v)\<rparr>)"
| "notify_poster f m = m"

definition with_notification ::
    "(notification_message_manager \<Rightarrow> notification_message_manager) \<Rightarrow> 'k grabber \<Rightarrow> 'k grabber" where
  "with_notification f g =
     g\<lparr>gb_connector := (gb_connector g)\<lparr>ct_managers :=
         (ct_managers (gb_connector g))[3 := map (notify_poster f) (ct_managers (gb_connector g) ! 3)]\<rparr>\<rparr>"

subsection \<open>Events for the merged queue\<close>

definition push_merged :: "'k surroundings \<Rightarrow> entry \<Rightarrow> 'k grabber \<Rightarrow> 'k grabber" where
  "push_merged G en g =
     (case emplace_back_entry (su_platform G) en (ld_world (gb_loader g), ct_queues (gb_connector g) ! 0) of
        (w, q) \<Rightarrow>
          g\<lparr>gb_loader := (gb_loader g)\<lparr>ld_world := w\<rparr>,
            gb_connector := (gb_connector g)\<lparr>ct_queues := (ct_queues (gb_connector g))[0 := q]\<rparr>\<rparr>)"

text \<open>An entry the grabber makes itself: its event is also its original event.\<close>

definition push_event ::
    "'k surroundings \<Rightarrow> device_id \<Rightarrow> event_type \<Rightarrow> event \<Rightarrow> 'k grabber \<Rightarrow> 'k grabber" where
  "push_event G d t ev g =
     (case read_clock G g of
        (now, g1) \<Rightarrow> push_merged G (make_entry d (make_event_time_stamp now) ev t ev st_virtual_event False) g1)"

definition post_virtual_event :: "'k surroundings \<Rightarrow> device_id \<Rightarrow> event \<Rightarrow> 'k grabber \<Rightarrow> 'k grabber" where
  "post_virtual_event G d ev g = enqueue Gj_input_event_arrived (push_event G d single ev g)"

definition post_device_grabbed_event :: "'k surroundings \<Rightarrow> device_properties \<Rightarrow> 'k grabber \<Rightarrow> 'k grabber" where
  "post_device_grabbed_event G dp = post_virtual_event G (dp_device_id dp) (Ev_device_grabbed dp)"

definition post_device_ungrabbed_event :: "'k surroundings \<Rightarrow> device_id \<Rightarrow> 'k grabber \<Rightarrow> 'k grabber" where
  "post_device_ungrabbed_event G d = post_virtual_event G d Ev_device_ungrabbed"

definition post_caps_lock_state_changed_event :: "'k surroundings \<Rightarrow> bool \<Rightarrow> 'k grabber \<Rightarrow> 'k grabber" where
  "post_caps_lock_state_changed_event G b =
     post_virtual_event G 0 (Ev_caps_lock_state_changed (if b then 1 else 0))"

definition post_set_variable_event :: "'k surroundings \<Rightarrow> set_variable \<Rightarrow> 'k grabber \<Rightarrow> 'k grabber" where
  "post_set_variable_event G v g =
     enqueue Gj_input_event_arrived
       (push_event G 0 key_up (Ev_set_variable v) (push_event G 0 key_down (Ev_set_variable v) g))"

text \<open>An event of the event tap has the event it saw as its original event.\<close>

definition pointing_device_event_arrived ::
    "'k surroundings \<Rightarrow> event_type \<Rightarrow> event \<Rightarrow> 'k grabber \<Rightarrow> 'k grabber" where
  "pointing_device_event_arrived G t ev g =
     (case read_clock G g of
        (now, g1) \<Rightarrow>
          enqueue Gj_input_event_arrived
            (push_merged G (make_entry 0 (make_event_time_stamp now) Ev_pointing_device_event_from_event_tap t ev
                              st_virtual_event False) g1))"

subsection \<open>Grabbing\<close>

definition needs_prepare_virtual_hid_pointing_device :: "'k surroundings \<Rightarrow> 'k grabber \<Rightarrow> bool" where
  "needs_prepare_virtual_hid_pointing_device G g \<longleftrightarrow>
     list_ex (\<lambda>(d, e). needs_to_seize_device (su_text G) (gb_configuration g) e
               \<and> (di_is_pointing_device (ge_identifiers e) \<or> di_is_game_pad (ge_identifiers e))) (gb_entries g)
     \<or> connector_needs_virtual_hid_pointing (gb_connector g)"

definition stuck_message :: "json_text \<Rightarrow> grabber_entry \<Rightarrow> momentary_switch_event \<Rightarrow> string" where
  "stuck_message T e ev =
     ''Probable stuck key detected!'' @ newline # newline # ge_device_short_name e
     @ '' is ignored temporarily until '' @ jt_dump T (momentary_switch_event_to_json ev) @ '' is pressed again.''
     @ newline # newline # ''Key may have been held when keyboard was grabbed. ''
     @ ''Is the keyboard reconnecting while in use?''"

text \<open>The state of a device, and the notification message that is set for it, if one is.\<close>

definition make_grabbable_state ::
    "'k surroundings \<Rightarrow> 'k grabber \<Rightarrow> grabber_entry \<Rightarrow> grabbable_state \<times> string option" where
  "make_grabbable_state G g e =
     (if needs_to_observe_device e then (gs_grabbable, None)
      else if \<not> needs_to_seize_device (su_text G) (gb_configuration g) e then (gs_ungrabbable_permanently, None)
      else if gb_system_sleeping g then (gs_ungrabbable_temporarily, None)
      else if \<not> virtual_hid_keyboard_ready (gb_devices_state g) then (gs_ungrabbable_temporarily, Some [])
      else if needs_prepare_virtual_hid_pointing_device G g \<and> \<not> virtual_hid_pointing_ready (gb_devices_state g)
      then (gs_ungrabbable_temporarily, Some [])
      else case find_probable_stuck_event (ge_probable_stuck_events e) of
             Some ev \<Rightarrow> (gs_ungrabbable_temporarily, Some (stuck_message (su_text G) e ev))
           | None \<Rightarrow> (gs_grabbable, Some []))"

definition request_for ::
    "'k surroundings \<Rightarrow> 'k grabber \<Rightarrow> grabber_entry \<Rightarrow> grabber_entry" where
  "request_for G g e =
     (case fst (make_grabbable_state G g e) of
        gs_grabbable \<Rightarrow> async_start_queue_value_monitor (su_text G) (gb_configuration g) gs_grabbable e
      | gs_ungrabbable_temporarily \<Rightarrow>
          async_start_queue_value_monitor (su_text G) (gb_configuration g) gs_ungrabbable_temporarily e
      | _ \<Rightarrow> async_stop_queue_value_monitor e)"

definition grab_device :: "'k surroundings \<Rightarrow> device_id \<Rightarrow> 'k grabber \<Rightarrow> 'k grabber" where
  "grab_device G d g =
     (case find_entry d g of
        None \<Rightarrow> g
      | Some e \<Rightarrow>
          (let g1 = change_entry d (\<lambda>_. request_for G g e) g in
           case snd (make_grabbable_state G g e) of
             None \<Rightarrow> g1
           | Some m \<Rightarrow>
               with_notification (set_device_ungrabbable_temporarily_message (ge_device_id e) m) g1))"

definition grab_devices :: "'k surroundings \<Rightarrow> 'k grabber \<Rightarrow> 'k grabber" where
  "grab_devices G g = fold (grab_device G) (map fst (gb_entries g)) g"

definition ungrab_devices :: "'k grabber \<Rightarrow> 'k grabber" where
  "ungrab_devices g = update_all_entries async_stop_queue_value_monitor g"

subsection \<open>Disabled devices, virtual devices, LEDs\<close>

definition need_to_disable_built_in_keyboard :: "'k surroundings \<Rightarrow> 'k grabber \<Rightarrow> bool" where
  "need_to_disable_built_in_keyboard G g \<longleftrightarrow>
     list_ex (\<lambda>(d, e). is_disable_built_in_keyboard_if_exists (su_text G) (gb_configuration g) e) (gb_entries g)"

definition update_devices_disabled :: "'k surroundings \<Rightarrow> 'k grabber \<Rightarrow> 'k grabber" where
  "update_devices_disabled G g =
     update_all_entries
       (\<lambda>e. set_disabled (entry_is_built_in_keyboard (su_text G) (gb_configuration g) e
                           \<and> need_to_disable_built_in_keyboard G g) e) g"

text \<open>The product of each keyboard type; an unknown one would leave the parameters as they are.\<close>

definition virtual_hid_keyboard_parameters :: "iokit_keyboard_type \<Rightarrow> (int \<times> int) option" where
  "virtual_hid_keyboard_parameters t =
     (case t of ansi \<Rightarrow> Some (0x05ac, 0x024f) | iso \<Rightarrow> Some (0x05ac, 0x0250) | jis \<Rightarrow> Some (0x05ac, 0x0251))"

definition update_virtual_hid_keyboard :: "'k grabber \<Rightarrow> 'k grabber" where
  "update_virtual_hid_keyboard g =
     (case get_selected_profile (gb_configuration g) of
        None \<Rightarrow> g
      | Some p \<Rightarrow> call_client (Vc_keyboard_initialize
          (virtual_hid_keyboard_parameters (get_iokit_keyboard_type (pfl_virtual_hid_keyboard p)))) g)"

definition update_virtual_hid_pointing :: "'k surroundings \<Rightarrow> 'k grabber \<Rightarrow> 'k grabber" where
  "update_virtual_hid_pointing G g =
     (if needs_prepare_virtual_hid_pointing_device G g then call_client Vc_pointing_initialize g
      else call_client Vc_pointing_terminate g)"

definition update_caps_lock_led :: "'k grabber \<Rightarrow> 'k grabber" where
  "update_caps_lock_led g =
     update_all_entries (set_caps_lock_led_state
       (case gb_last_caps_lock_state g of None \<Rightarrow> None | Some b \<Rightarrow> Some (if b then led_on else led_off))) g"

definition output_devices_json :: "'k grabber \<Rightarrow> 'k grabber" where
  "output_devices_json g =
     g\<lparr>gb_devices_json := fold (\<lambda>(d, e). push_back_device (ge_properties e)) (gb_entries g)
                            \<lparr>cod_loaded = False, cod_devices = []\<rparr>\<rparr>"

text \<open>What most handlers end with.\<close>

definition reconsider_devices :: "'k surroundings \<Rightarrow> 'k grabber \<Rightarrow> 'k grabber" where
  "reconsider_devices G g = enqueue Gj_grab_devices (update_devices_disabled G g)"

subsection \<open>Values of a device\<close>

fun stuck_updates ::
    "device_state \<Rightarrow> entry list \<Rightarrow> probable_stuck_events_manager \<Rightarrow> bool \<times> probable_stuck_events_manager" where
  "stuck_updates st [] s = (False, s)"
| "stuck_updates st (en # ens) s =
     (case event_mse (en_event en) of
        None \<Rightarrow> stuck_updates st ens s
      | Some ev \<Rightarrow>
          (case psem_update ev (en_event_type en) st s of (b, s1) \<Rightarrow>
           case stuck_updates st ens s1 of (b', s2) \<Rightarrow> (b \<or> b', s2)))"

definition caps_lock_event_arrived :: "'k surroundings \<Rightarrow> entry \<Rightarrow> 'k grabber \<Rightarrow> 'k grabber" where
  "caps_lock_event_arrived G en g =
     (case en_event en of
        Ev_caps_lock_state_changed n \<Rightarrow>
          update_caps_lock_led
            (post_caps_lock_state_changed_event G (n \<noteq> 0) (g\<lparr>gb_last_caps_lock_state := Some (n \<noteq> 0)\<rparr>))
      | _ \<Rightarrow> g)"

definition requeued :: "entry \<Rightarrow> entry" where
  "requeued en =
     make_entry (en_device_id en) (en_event_time_stamp en) (en_event en) (en_event_type en)
       (en_original_event en) (en_state en) False"

definition sort_merged :: "'k grabber \<Rightarrow> 'k grabber" where
  "sort_merged g =
     (if get_reorder_same_timestamp_input_events_to_prioritize_modifiers (cfg_global (gb_configuration g))
      then g\<lparr>gb_connector := (gb_connector g)\<lparr>ct_queues :=
               (ct_queues (gb_connector g))[0 := sort_events (ct_queues (gb_connector g) ! 0)]\<rparr>\<rparr>
      else g)"

definition forwards :: "grabber_entry \<Rightarrow> bool" where
  "forwards e \<longleftrightarrow> \<not> ge_disabled e \<and> entry_seized e"

definition values_arrived :: "'k surroundings \<Rightarrow> device_id \<Rightarrow> entry list \<Rightarrow> 'k grabber \<Rightarrow> 'k grabber" where
  "values_arrived G d ens g =
     (case find_entry d g of
        None \<Rightarrow> g
      | Some e \<Rightarrow>
          if ge_virtual e then fold (caps_lock_event_arrived G) ens g
          else (case stuck_updates (if entry_seized e then seized else observed) ens (ge_probable_stuck_events e) of
                  (regrab, s) \<Rightarrow>
                  (let g1 = change_entry d (\<lambda>e. e\<lparr>ge_probable_stuck_events := s\<rparr>) g;
                       g2 = (if forwards e then fold (\<lambda>en. push_merged G (requeued en)) ens g1 else g1);
                       g3 = sort_merged g2;
                       g4 = (if regrab then grab_device G d g3 else g3)
                   in if forwards e \<and> ens \<noteq> [] then enqueue Gj_input_event_arrived g4 else g4)))"

subsection \<open>Devices come and go\<close>

definition is_stick_job :: "device_id \<Rightarrow> grabber_job \<Rightarrow> bool" where
  "is_stick_job d j \<longleftrightarrow> (case j of Gj_stick d' _ \<Rightarrow> d' = d | _ \<Rightarrow> False)"

fun put_entry :: "device_id \<Rightarrow> grabber_entry \<Rightarrow> (device_id \<times> grabber_entry) list \<Rightarrow> (device_id \<times> grabber_entry) list" where
  "put_entry d e [] = [(d, e)]"
| "put_entry d e (x # xs) = (if fst x = d then (d, e) # xs else x # put_entry d e xs)"

definition device_matched :: "'k surroundings \<Rightarrow> device_id \<Rightarrow> iokit_device \<Rightarrow> 'k grabber \<Rightarrow> 'k grabber" where
  "device_matched G d io g =
     (let g1 = (drop_jobs (job_of_device d) g)\<lparr>gb_entries := put_entry d (create_entry d io) (gb_entries g)\<rparr>
      in reconsider_devices G (update_virtual_hid_pointing G (output_devices_json g1)))"

definition device_terminated :: "'k surroundings \<Rightarrow> device_id \<Rightarrow> 'k grabber \<Rightarrow> 'k grabber" where
  "device_terminated G d g =
     (let g1 = (case find_entry d g of
                  None \<Rightarrow> g
                | Some e \<Rightarrow>
                    (let g0 = (if di_is_keyboard (ge_identifiers e) \<and> ge_virtual e
                               then call_client Vc_start (enqueue Gj_ungrab_devices (call_client Vc_stop g)) else g)
                     in (drop_jobs (job_of_device d) g0)\<lparr>gb_entries := erase_if (\<lambda>x. fst x = d) (gb_entries g)\<rparr>));
          g2 = with_notification (nmm_erase_device d) g1;
          g3 = output_devices_json (g2\<lparr>gb_hat := hat_erase_device d (gb_hat g2)\<rparr>)
      in reconsider_devices G (update_virtual_hid_pointing G (post_device_ungrabbed_event G d g3)))"

definition monitor_started :: "'k surroundings \<Rightarrow> device_id \<Rightarrow> 'k grabber \<Rightarrow> 'k grabber" where
  "monitor_started G d g =
     (let g1 = change_entry d (entry_started (su_text G) (su_platform G) (gb_configuration g)) g in
      case find_entry d g1 of
        None \<Rightarrow> g1
      | Some e \<Rightarrow>
          (let g2 = (if entry_seized e \<and> di_is_game_pad (ge_identifiers e) then drop_jobs (is_stick_job d) g1 else g1)
           in update_virtual_hid_pointing G (update_caps_lock_led (post_device_grabbed_event G (ge_properties e) g2))))"

definition monitor_stopped :: "'k surroundings \<Rightarrow> device_id \<Rightarrow> 'k grabber \<Rightarrow> 'k grabber" where
  "monitor_stopped G d g =
     (let g1 = change_entry d (entry_stopped (su_text G) (gb_configuration g)) g in
      case find_entry d g1 of
        None \<Rightarrow> g1
      | Some e \<Rightarrow> update_virtual_hid_pointing G
                    (post_device_ungrabbed_event G d (drop_jobs (is_stick_job d) g1)))"

text \<open>The values a monitor passes on, and a call of the timer of a stick converter.\<close>

definition device_values_arrived :: "'k surroundings \<Rightarrow> device_id \<Rightarrow> iokit_hid_value list \<Rightarrow> 'k grabber \<Rightarrow> 'k grabber" where
  "device_values_arrived G d vs g =
     (case find_entry d g of
        None \<Rightarrow> g
      | Some e \<Rightarrow>
          (case entry_values_arrived (su_text G) (su_floating_point G) (su_sticks G) (su_platform G)
                  (gb_configuration g) vs (e, gb_hat g) of
             (ens, sticks, e', hat) \<Rightarrow>
               fold (\<lambda>en. enqueue (Gj_stick d en)) sticks
                 (values_arrived G d ens ((change_entry d (\<lambda>_. e') g)\<lparr>gb_hat := hat\<rparr>))))"

definition stick_timer :: "'k surroundings \<Rightarrow> device_id \<Rightarrow> 'k grabber \<Rightarrow> 'k grabber" where
  "stick_timer G d g =
     (case find_entry d g of
        None \<Rightarrow> g
      | Some e \<Rightarrow>
          (case ge_stick_converter e of
             None \<Rightarrow> g
           | Some sc \<Rightarrow>
               (case continued_movement_timer (su_sticks G) (su_platform G) sc of
                  (ens, sc') \<Rightarrow> fold (\<lambda>en. enqueue (Gj_stick d en)) ens
                                 (change_entry d (\<lambda>e. e\<lparr>ge_stick_converter := Some sc'\<rparr>) g))))"

subsection \<open>The virtual devices and the system\<close>

definition client_connected :: "'k surroundings \<Rightarrow> 'k grabber \<Rightarrow> 'k grabber" where
  "client_connected G g =
     reconsider_devices G (update_virtual_hid_pointing G (update_virtual_hid_keyboard g))"

definition keyboard_ready :: "'k surroundings \<Rightarrow> bool \<Rightarrow> 'k grabber \<Rightarrow> 'k grabber" where
  "keyboard_ready G ready g =
     (if virtual_hid_keyboard_ready (gb_devices_state g) = ready then g
      else (let g1 = enqueue Gj_post_virtual_hid_devices_state
                       (g\<lparr>gb_devices_state := (gb_devices_state g)\<lparr>virtual_hid_keyboard_ready := ready\<rparr>\<rparr>);
                g2 = (if ready then g1 else update_virtual_hid_keyboard (call_client Vc_keyboard_terminate g1))
            in reconsider_devices G g2))"

definition pointing_ready :: "'k surroundings \<Rightarrow> bool \<Rightarrow> 'k grabber \<Rightarrow> 'k grabber" where
  "pointing_ready G ready g =
     (if virtual_hid_pointing_ready (gb_devices_state g) = ready then g
      else (let g1 = enqueue Gj_post_virtual_hid_devices_state
                       (g\<lparr>gb_devices_state := (gb_devices_state g)\<lparr>virtual_hid_pointing_ready := ready\<rparr>\<rparr>);
                g2 = (if ready then g1 else update_virtual_hid_pointing G (call_client Vc_pointing_terminate g1))
            in reconsider_devices G g2))"

definition set_system_sleeping :: "'k surroundings \<Rightarrow> bool \<Rightarrow> 'k grabber \<Rightarrow> 'k grabber" where
  "set_system_sleeping G b g = reconsider_devices G (g\<lparr>gb_system_sleeping := b\<rparr>)"

subsection \<open>The configuration\<close>

definition with_manager ::
    "nat \<Rightarrow> ('k manipulator list \<times> loader \<Rightarrow> 'k manipulator list \<times> loader) \<Rightarrow> 'k grabber \<Rightarrow> 'k grabber" where
  "with_manager i f g =
     (case f (ct_managers (gb_connector g) ! i, gb_loader g) of
        (ms, l) \<Rightarrow>
          g\<lparr>gb_loader := l,
            gb_connector := (gb_connector g)\<lparr>ct_managers := (ct_managers (gb_connector g))[i := ms]\<rparr>\<rparr>)"

definition update_fn_manager :: "'k surroundings \<Rightarrow> 'k grabber \<Rightarrow> 'k grabber" where
  "update_fn_manager G g =
     (case get_selected_profile (gb_configuration g) of
        None \<Rightarrow> g
      | Some p \<Rightarrow> with_manager 2
          (update_fn_manipulators (su_text G) (su_platform G) p (gb_system_preferences g)) g)"

definition core_configuration_updated :: "'k surroundings \<Rightarrow> configuration \<Rightarrow> 'k grabber \<Rightarrow> 'k grabber" where
  "core_configuration_updated G c g =
     (let g1 = update_all_entries (entry_set_core_configuration (su_text G) (su_platform G) c)
                 (g\<lparr>gb_configuration := c\<rparr>);
          g2 = g1\<lparr>gb_connector := connector_set_core_configuration
                     (environment_configuration (su_text G) c) (gb_connector g1)\<rparr>
      in case get_selected_profile c of
           None \<Rightarrow> g2
         | Some p \<Rightarrow>
             (let g3 = g2\<lparr>gb_matched_delay := get_delay_milliseconds_before_open_device (pfl_parameters p)\<rparr>;
                  g4 = with_manager 0 (update_simple_manipulators (su_text G) (su_platform G) p) g3;
                  g5 = update_fn_manager G g4;
                  g6 = with_manager 1 (update_complex_modifications_manipulators (su_platform G) (su_momentum G)
                         (cmo_rules (pfl_complex_modifications p))) g5
              in enqueue Gj_post_system_preferences
                   (reconsider_devices G (update_virtual_hid_pointing G (update_virtual_hid_keyboard g6)))))"

definition grabber_set_system_preferences ::
    "'k surroundings \<Rightarrow> system_preferences_properties \<Rightarrow> 'k grabber \<Rightarrow> 'k grabber" where
  "grabber_set_system_preferences G spp g =
     enqueue Gj_post_system_preferences (update_fn_manager G (g\<lparr>gb_system_preferences := spp\<rparr>))"

definition grabber_stop :: "'k grabber \<Rightarrow> 'k grabber" where
  "grabber_stop g = call_client Vc_stop (enqueue Gj_ungrab_devices g)"

text \<open>
  \<open>async_start\<close>: the event tap and the monitor of the configuration, whose signals are the moves
  below, are created, and the client of the virtual devices is started.
\<close>

definition grabber_start :: "'k grabber \<Rightarrow> 'k grabber" where
  "grabber_start g = call_client Vc_start g"

subsection \<open>The functions of the dispatcher\<close>

fun poster_of :: "'k manipulator list \<Rightarrow> 'k poster option" where
  "poster_of [] = None"
| "poster_of (M_post_event_to_virtual_devices v # ms) = Some v"
| "poster_of (_ # ms) = poster_of ms"

fun set_poster :: "'k poster \<Rightarrow> 'k manipulator \<Rightarrow> 'k manipulator" where
  "set_poster v (M_post_event_to_virtual_devices _) = M_post_event_to_virtual_devices v"
| "set_poster v m = m"

text \<open>The handler of \<open>async_post_events\<close>: what is due goes to the client, and the rest is tried again.\<close>

definition post_events :: "'k surroundings \<Rightarrow> 'k grabber \<Rightarrow> 'k grabber" where
  "post_events G g =
     (case poster_of (ct_managers (gb_connector g) ! 3) of
        None \<Rightarrow> g
      | Some v \<Rightarrow>
          (case read_clock G g of (now, g1) \<Rightarrow>
           case pv_async_post_events (su_platform G) now v of (sent, delay, v') \<Rightarrow>
             (let g2 = g1\<lparr>gb_sent := gb_sent g1 @ sent,
                          gb_connector := (gb_connector g1)\<lparr>ct_managers := (ct_managers (gb_connector g1))
                            [3 := map (set_poster v') (ct_managers (gb_connector g1) ! 3)]\<rparr>\<rparr>
              in case delay of None \<Rightarrow> g2 | Some ms \<Rightarrow> enqueue_after ms Gj_post_events g2)))"

text \<open>\<open>manipulate\<close>; \<open>None\<close> stands for what the connector's \<open>None\<close> stands for.\<close>

definition grabber_manipulate :: "'k surroundings \<Rightarrow> absolute_time_point \<Rightarrow> 'k grabber \<Rightarrow> 'k grabber option" where
  "grabber_manipulate G now g =
     (case connector_manipulate (su_machine G) now
             (get_reorder_same_timestamp_input_events_to_prioritize_modifiers (cfg_global (gb_configuration g)))
             (ld_world (gb_loader g), gb_connector g) of
        None \<Rightarrow> None
      | Some (w, c) \<Rightarrow>
          (let g1 = enqueue Gj_post_events
                      (g\<lparr>gb_loader := (gb_loader g)\<lparr>ld_world := w\<rparr>,
                         gb_connector := c\<lparr>ct_queues := (ct_queues c)[4 := clear_events (ct_queues c ! 4)]\<rparr>\<rparr>)
           in case min_input_event_time_stamp (gb_connector g1) of
                None \<Rightarrow> Some g1
              | Some t \<Rightarrow>
                  Some (enqueue_after
                    (if now < t then pf_make_milliseconds (su_platform G) (t - now) else 0)
                    (Gj_manipulate t) g1)))"

fun run_job :: "'k surroundings \<Rightarrow> grabber_job \<Rightarrow> 'k grabber \<Rightarrow> 'k grabber option" where
  "run_job G Gj_start g = Some (grabber_start g)"
| "run_job G Gj_grab_devices g = Some (grab_devices G g)"
| "run_job G Gj_ungrab_devices g = Some (ungrab_devices g)"
| "run_job G (Gj_set_system_preferences spp) g = Some (grabber_set_system_preferences G spp g)"
| "run_job G (Gj_post_set_variable v) g = Some (post_set_variable_event G v g)"
| "run_job G (Gj_post_frontmost_application a) g =
     Some (post_virtual_event G 0 (Ev_frontmost_application_changed a) g)"
| "run_job G (Gj_post_input_source p) g = Some (post_virtual_event G 0 (Ev_input_source_changed p) g)"
| "run_job G Gj_post_system_preferences g =
     Some (post_virtual_event G 0 (Ev_system_preferences_properties_changed (gb_system_preferences g)) g)"
| "run_job G Gj_post_virtual_hid_devices_state g =
     Some (post_virtual_event G 0 (Ev_virtual_hid_devices_state_changed (gb_devices_state g)) g)"
| "run_job G Gj_input_event_arrived g = (case read_clock G g of (now, g1) \<Rightarrow> grabber_manipulate G now g1)"
| "run_job G (Gj_manipulate now) g = grabber_manipulate G now g"
| "run_job G Gj_post_events g = Some (post_events G g)"
| "run_job G (Gj_signal d Sig_started) g = Some (monitor_started G d g)"
| "run_job G (Gj_signal d Sig_stopped) g = Some (monitor_stopped G d g)"
| "run_job G (Gj_signal d (Sig_error r)) g = Some g"
| "run_job G (Gj_values d vs) g = Some (device_values_arrived G d vs g)"
| "run_job G (Gj_stick d en) g = Some (values_arrived G d [en] g)"

definition run_next_job :: "'k surroundings \<Rightarrow> 'k grabber \<Rightarrow> 'k grabber option" where
  "run_next_job G g =
     (case gb_jobs g of [] \<Rightarrow> Some g | j # js \<Rightarrow> run_job G j (g\<lparr>gb_jobs := js\<rparr>))"

subsection \<open>Monitors at work\<close>

text \<open>A step of the monitor of a device; its signals and values are given to the dispatcher.\<close>

definition monitor_works :: "device_id \<Rightarrow> monitor_event \<Rightarrow> 'k grabber \<Rightarrow> 'k grabber" where
  "monitor_works d ev g =
     (case find_entry d g of
        None \<Rightarrow> g
      | Some e \<Rightarrow>
          (case monitor_step ev (ge_monitor e) of
             (m, sigs) \<Rightarrow> fold (\<lambda>s. enqueue (Gj_signal d s)) sigs (change_entry d (\<lambda>e. e\<lparr>ge_monitor := m\<rparr>) g)))"

definition monitor_has_values :: "device_id \<Rightarrow> iokit_hid_value list \<Rightarrow> 'k grabber \<Rightarrow> 'k grabber" where
  "monitor_has_values d vs g =
     (case find_entry d g of
        None \<Rightarrow> g
      | Some e \<Rightarrow>
          (case monitor_values_available vs (ge_monitor e) of
             None \<Rightarrow> g | Some ws \<Rightarrow> enqueue (Gj_values d ws) g))"

subsection \<open>The beginning\<close>

definition initial_environment :: "string \<Rightarrow> core_configuration \<Rightarrow> manipulator_environment" where
  "initial_environment machine_identifier cc =
     \<lparr>env_karabiner_machine_identifier = machine_identifier, env_device_properties_manager = Map.empty,
      env_frontmost_application =
        \<lparr>app_bundle_identifier = None, app_bundle_path = None, app_file_path = None, app_pid = None\<rparr>,
      env_input_source_properties =
        \<lparr>isp_input_source_id = None, isp_localized_name = None, isp_input_mode_id = None,
         isp_languages = [], isp_first_language = None\<rparr>,
      env_variables = Map.empty, env_core_configuration = cc,
      env_virtual_hid_devices_state =
        \<lparr>virtual_hid_keyboard_ready = False, virtual_hid_pointing_ready = False\<rparr>\<rparr>"

definition initial_queue :: "string \<Rightarrow> core_configuration \<Rightarrow> event_queue" where
  "initial_queue machine_identifier cc =
     \<lparr>q_events = [], q_modifier_flags = [], q_pointing_buttons = [],
      q_environment = initial_environment machine_identifier cc, q_time_stamp_delay = 0\<rparr>"

definition initial_connector :: "'k surroundings \<Rightarrow> string \<Rightarrow> core_configuration \<Rightarrow> 'k connector option" where
  "initial_connector G machine_identifier cc =
     (let c0 = emplace_back_connection 0 0 1
          \<lparr>ct_connections = [],
           ct_managers = [[], [], [], push_back_manipulator
             (M_post_event_to_virtual_devices (poster_initial (mc_hid (su_machine G)) (Some nmm_initial))) []],
           ct_queues = replicate 5 (initial_queue machine_identifier cc)\<rparr>
      in case emplace_back_next_connection 1 2 c0 of
           None \<Rightarrow> None
         | Some c1 \<Rightarrow> (case emplace_back_next_connection 2 3 c1 of
                          None \<Rightarrow> None
                        | Some c2 \<Rightarrow> emplace_back_next_connection 3 4 c2))"

definition grabber_initial :: "'k surroundings \<Rightarrow> string \<Rightarrow> configuration \<Rightarrow> 'k grabber option" where
  "grabber_initial G machine_identifier c =
     (case initial_connector G machine_identifier (environment_configuration (su_text G) c) of
        None \<Rightarrow> None
      | Some ct \<Rightarrow>
          Some \<lparr>gb_configuration = c, gb_entries = [],
                gb_devices_state = \<lparr>virtual_hid_keyboard_ready = False, virtual_hid_pointing_ready = False\<rparr>,
                gb_system_sleeping = False, gb_last_caps_lock_state = None,
                gb_system_preferences =
                  \<lparr>spp_use_fkeys_as_standard_function_keys = False, spp_scroll_direction_is_natural = True\<rparr>,
                gb_connector = ct, gb_loader = \<lparr>ld_world = world_initial, ld_next = 0\<rparr>, gb_hat = Map.empty,
                gb_jobs = [], gb_delayed = [], gb_client = [], gb_sent = [],
                gb_devices_json = \<lparr>cod_loaded = False, cod_devices = []\<rparr>, gb_matched_delay = 1000,
                gb_clock_reads = 0\<rparr>)"

subsection \<open>Runs of the grabber\<close>

text \<open>
  What other threads give to the dispatcher, and everything else that can happen. The timers of the
  manipulators, which add entries to the queues of their managers, belong to the theories of the
  manipulators and are not composed here.
\<close>

fun public_job :: "grabber_job \<Rightarrow> bool" where
  "public_job (Gj_signal _ _) = False"
| "public_job (Gj_values _ _) = False"
| "public_job (Gj_stick _ _) = False"
| "public_job (Gj_manipulate _) = False"
| "public_job Gj_post_events = False"
| "public_job _ = True"

inductive grabber_moves :: "'k surroundings \<Rightarrow> 'k grabber \<Rightarrow> 'k grabber \<Rightarrow> bool" for G where
  gm_job: "run_next_job G g = Some g' \<Longrightarrow> grabber_moves G g g'"
| gm_delayed: "gb_delayed g = xs @ (ms, j) # ys \<Longrightarrow> grabber_moves G g (enqueue j (g\<lparr>gb_delayed := xs @ ys\<rparr>))"
| gm_matched: "grabber_moves G g (device_matched G d io g)"
| gm_terminated: "grabber_moves G g (device_terminated G d g)"
| gm_monitor: "grabber_moves G g (monitor_works d ev g)"
| gm_values: "grabber_moves G g (monitor_has_values d vs g)"
| gm_stick_timer: "grabber_moves G g (stick_timer G d g)"
| gm_event_tap: "grabber_moves G g (pointing_device_event_arrived G t event g)"
| gm_connected: "grabber_moves G g (client_connected G g)"
| gm_keyboard_ready: "grabber_moves G g (keyboard_ready G ready g)"
| gm_pointing_ready: "grabber_moves G g (pointing_ready G ready g)"
| gm_sleeping: "grabber_moves G g (set_system_sleeping G b g)"
| gm_updated: "configuration_reachable (su_text G) c \<Longrightarrow> grabber_moves G g (core_configuration_updated G c g)"
| gm_stop: "grabber_moves G g (grabber_stop g)"

inductive grabber_reachable :: "'k surroundings \<Rightarrow> 'k grabber \<Rightarrow> bool" for G where
  gr_initial: "create_configuration (su_text G) loose missing_file = Inr c \<Longrightarrow>
    grabber_initial G machine_identifier c = Some g \<Longrightarrow> grabber_reachable G g"
| gr_requested: "grabber_reachable G g \<Longrightarrow> public_job j \<Longrightarrow> grabber_reachable G (enqueue j g)"
| gr_moves: "grabber_reachable G g \<Longrightarrow> grabber_moves G g g' \<Longrightarrow> grabber_reachable G g'"

end
