(* ===== verification/Grabber_Invariants.thy ===== *)
theory Grabber_Invariants
  imports Device_Grabber
begin

text \<open>
  Every run of the grabber: which devices are disabled and which may be seized, that nothing a
  device sends is forwarded unless the device is seized and enabled, and that no event stays in a
  queue without a function of the dispatcher that will look at it.
\<close>

subsection \<open>What the operations leave alone\<close>

named_theorems grabber_frame

lemma enqueue_frame [grabber_frame]:
  "gb_entries (enqueue j g) = gb_entries g" "gb_configuration (enqueue j g) = gb_configuration g"
  "gb_devices_state (enqueue j g) = gb_devices_state g" "gb_system_sleeping (enqueue j g) = gb_system_sleeping g"
  "gb_connector (enqueue j g) = gb_connector g" "gb_delayed (enqueue j g) = gb_delayed g"
  "gb_jobs (enqueue j g) = gb_jobs g @ [j]"
  by (simp_all add: enqueue_def)

lemma call_client_frame [grabber_frame]:
  "gb_entries (call_client j g) = gb_entries g" "gb_configuration (call_client j g) = gb_configuration g"
  "gb_devices_state (call_client j g) = gb_devices_state g" "gb_system_sleeping (call_client j g) = gb_system_sleeping g"
  "gb_connector (call_client j g) = gb_connector g" "gb_delayed (call_client j g) = gb_delayed g"
  "gb_jobs (call_client j g) = gb_jobs g"
  by (simp_all add: call_client_def)

lemma push_event_frame [grabber_frame]:
  "gb_entries (push_merged G en g) = gb_entries g" "gb_configuration (push_merged G en g) = gb_configuration g"
  "gb_devices_state (push_merged G en g) = gb_devices_state g"
  "gb_system_sleeping (push_merged G en g) = gb_system_sleeping g"
  "gb_delayed (push_merged G en g) = gb_delayed g" "gb_jobs (push_merged G en g) = gb_jobs g"
  "ct_connections (gb_connector (push_merged G en g)) = ct_connections (gb_connector g)"
  "length (ct_queues (gb_connector (push_merged G en g))) = length (ct_queues (gb_connector g))"
  "gb_entries (push_event G d t ev g) = gb_entries g" "gb_configuration (push_event G d t ev g) = gb_configuration g"
  "gb_devices_state (push_event G d t ev g) = gb_devices_state g"
  "gb_system_sleeping (push_event G d t ev g) = gb_system_sleeping g"
  "gb_delayed (push_event G d t ev g) = gb_delayed g" "gb_jobs (push_event G d t ev g) = gb_jobs g"
  "ct_connections (gb_connector (push_event G d t ev g)) = ct_connections (gb_connector g)"
  "length (ct_queues (gb_connector (push_event G d t ev g))) = length (ct_queues (gb_connector g))"
  by (simp_all add: push_event_def read_clock_def push_merged_def split: prod.splits)

lemma fold_push_frame [grabber_frame]:
  "gb_entries (fold (\<lambda>en. push_merged G (f en)) ens g) = gb_entries g"
  "gb_configuration (fold (\<lambda>en. push_merged G (f en)) ens g) = gb_configuration g"
  "gb_devices_state (fold (\<lambda>en. push_merged G (f en)) ens g) = gb_devices_state g"
  "gb_system_sleeping (fold (\<lambda>en. push_merged G (f en)) ens g) = gb_system_sleeping g"
  "gb_delayed (fold (\<lambda>en. push_merged G (f en)) ens g) = gb_delayed g"
  "gb_jobs (fold (\<lambda>en. push_merged G (f en)) ens g) = gb_jobs g"
  "ct_connections (gb_connector (fold (\<lambda>en. push_merged G (f en)) ens g)) = ct_connections (gb_connector g)"
  "length (ct_queues (gb_connector (fold (\<lambda>en. push_merged G (f en)) ens g))) = length (ct_queues (gb_connector g))"
  by (induction ens arbitrary: g) (simp_all add: grabber_frame)

lemma change_entry_frame [grabber_frame]:
  "gb_configuration (change_entry d f g) = gb_configuration g"
  "gb_devices_state (change_entry d f g) = gb_devices_state g"
  "gb_system_sleeping (change_entry d f g) = gb_system_sleeping g"
  "gb_delayed (change_entry d f g) = gb_delayed g" "gb_jobs (change_entry d f g) = gb_jobs g"
  "gb_connector (change_entry d f g) = gb_connector g"
  "gb_configuration (update_all_entries h g) = gb_configuration g"
  "gb_devices_state (update_all_entries h g) = gb_devices_state g"
  "gb_system_sleeping (update_all_entries h g) = gb_system_sleeping g"
  "gb_delayed (update_all_entries h g) = gb_delayed g" "gb_jobs (update_all_entries h g) = gb_jobs g"
  "gb_connector (update_all_entries h g) = gb_connector g"
  by (simp_all add: change_entry_def update_all_entries_def)

lemma with_notification_frame [grabber_frame]:
  "gb_entries (with_notification h g) = gb_entries g" "gb_configuration (with_notification h g) = gb_configuration g"
  "gb_devices_state (with_notification h g) = gb_devices_state g"
  "gb_system_sleeping (with_notification h g) = gb_system_sleeping g"
  "gb_delayed (with_notification h g) = gb_delayed g" "gb_jobs (with_notification h g) = gb_jobs g"
  "ct_connections (gb_connector (with_notification h g)) = ct_connections (gb_connector g)"
  "ct_queues (gb_connector (with_notification h g)) = ct_queues (gb_connector g)"
  by (simp_all add: with_notification_def)

lemma update_pointing_frame [grabber_frame]:
  "gb_entries (update_virtual_hid_pointing G g) = gb_entries g"
  "gb_configuration (update_virtual_hid_pointing G g) = gb_configuration g"
  "gb_devices_state (update_virtual_hid_pointing G g) = gb_devices_state g"
  "gb_system_sleeping (update_virtual_hid_pointing G g) = gb_system_sleeping g"
  "gb_delayed (update_virtual_hid_pointing G g) = gb_delayed g" "gb_jobs (update_virtual_hid_pointing G g) = gb_jobs g"
  "gb_connector (update_virtual_hid_pointing G g) = gb_connector g"
  by (simp_all add: update_virtual_hid_pointing_def grabber_frame)

lemma update_keyboard_frame [grabber_frame]:
  "gb_entries (update_virtual_hid_keyboard g) = gb_entries g"
  "gb_configuration (update_virtual_hid_keyboard g) = gb_configuration g"
  "gb_devices_state (update_virtual_hid_keyboard g) = gb_devices_state g"
  "gb_system_sleeping (update_virtual_hid_keyboard g) = gb_system_sleeping g"
  "gb_delayed (update_virtual_hid_keyboard g) = gb_delayed g" "gb_jobs (update_virtual_hid_keyboard g) = gb_jobs g"
  "gb_connector (update_virtual_hid_keyboard g) = gb_connector g"
  by (simp_all add: update_virtual_hid_keyboard_def grabber_frame split: option.splits)

lemma drop_jobs_frame [grabber_frame]:
  "gb_entries (drop_jobs Q g) = gb_entries g" "gb_configuration (drop_jobs Q g) = gb_configuration g"
  "gb_devices_state (drop_jobs Q g) = gb_devices_state g" "gb_system_sleeping (drop_jobs Q g) = gb_system_sleeping g"
  "gb_delayed (drop_jobs Q g) = gb_delayed g" "gb_connector (drop_jobs Q g) = gb_connector g"
  "gb_jobs (drop_jobs Q g) = erase_if Q (gb_jobs g)"
  by (simp_all add: drop_jobs_def)

lemma output_devices_frame [grabber_frame]:
  "gb_entries (output_devices_json g) = gb_entries g" "gb_configuration (output_devices_json g) = gb_configuration g"
  "gb_devices_state (output_devices_json g) = gb_devices_state g"
  "gb_system_sleeping (output_devices_json g) = gb_system_sleeping g"
  "gb_delayed (output_devices_json g) = gb_delayed g" "gb_jobs (output_devices_json g) = gb_jobs g"
  "gb_connector (output_devices_json g) = gb_connector g"
  by (simp_all add: output_devices_json_def)

subsection \<open>Which devices are disabled, and which are seized\<close>

definition well_kept :: "'k grabber \<Rightarrow> bool" where
  "well_kept g \<longleftrightarrow>
     distinct (map fst (gb_entries g)) \<and> (\<forall>(d, e)\<in>set (gb_entries g). ge_virtual e \<longrightarrow> \<not> ge_disabled e)"

definition disabled_as_asked :: "'k surroundings \<Rightarrow> 'k grabber \<Rightarrow> bool" where
  "disabled_as_asked G g \<longleftrightarrow>
     (\<forall>(d, e)\<in>set (gb_entries g). ge_disabled e \<longleftrightarrow>
        \<not> ge_virtual e \<and> entry_is_built_in_keyboard (su_text G) (gb_configuration g) e
        \<and> need_to_disable_built_in_keyboard G g)"

text \<open>What must hold while the seizing of a device is requested.\<close>

definition seizes_pointing :: "'k surroundings \<Rightarrow> 'k grabber \<Rightarrow> bool" where
  "seizes_pointing G g \<longleftrightarrow>
     (\<exists>(d, e)\<in>set (gb_entries g). needs_to_seize_device (su_text G) (gb_configuration g) e
        \<and> (di_is_pointing_device (ge_identifiers e) \<or> di_is_game_pad (ge_identifiers e)))"

definition may_seize :: "'k surroundings \<Rightarrow> 'k grabber \<Rightarrow> grabber_entry \<Rightarrow> bool" where
  "may_seize G g e \<longleftrightarrow>
     needs_to_seize_device (su_text G) (gb_configuration g) e
     \<and> \<not> gb_system_sleeping g \<and> virtual_hid_keyboard_ready (gb_devices_state g)
     \<and> (seizes_pointing G g \<longrightarrow> virtual_hid_pointing_ready (gb_devices_state g))
     \<and> find_probable_stuck_event (ge_probable_stuck_events e) = None"

definition seize_ok :: "'k surroundings \<Rightarrow> 'k grabber \<Rightarrow> grabber_entry \<Rightarrow> bool" where
  "seize_ok G g e \<longleftrightarrow> (hm_requested (ge_monitor e) = Some opt_seize \<longrightarrow> may_seize G g e)"

definition seized_as_allowed :: "'k surroundings \<Rightarrow> 'k grabber \<Rightarrow> bool" where
  "seized_as_allowed G g \<longleftrightarrow>
     Gj_grab_devices \<in> set (gb_jobs g) \<or> (\<forall>(d, e)\<in>set (gb_entries g). seize_ok G g e)"

definition entry_facts :: "grabber_entry \<Rightarrow> device_properties \<times> bool" where
  "entry_facts e = (ge_properties e, ge_disabled e)"

definition same_facts :: "'k grabber \<Rightarrow> 'k grabber \<Rightarrow> bool" where
  "same_facts g g' \<longleftrightarrow>
     gb_configuration g' = gb_configuration g \<and> gb_devices_state g' = gb_devices_state g
     \<and> gb_system_sleeping g' = gb_system_sleeping g
     \<and> map (\<lambda>(d, e). (d, entry_facts e)) (gb_entries g') = map (\<lambda>(d, e). (d, entry_facts e)) (gb_entries g)"

lemma facts_cong:
  "entry_facts e' = entry_facts e \<Longrightarrow> needs_to_seize_device T c e' = needs_to_seize_device T c e"
  "entry_facts e' = entry_facts e \<Longrightarrow> entry_is_built_in_keyboard T c e' = entry_is_built_in_keyboard T c e"
  "entry_facts e' = entry_facts e \<Longrightarrow>
    is_disable_built_in_keyboard_if_exists T c e' = is_disable_built_in_keyboard_if_exists T c e"
  by (simp_all add: entry_facts_def needs_to_seize_device_def entry_is_built_in_keyboard_def
      is_disable_built_in_keyboard_if_exists_def)

lemma same_facts_ex:
  assumes "map (\<lambda>(d, e). (d, entry_facts e)) xs = map (\<lambda>(d, e). (d, entry_facts e)) ys"
    and "\<And>e e'. entry_facts e' = entry_facts e \<Longrightarrow> Q e' = Q e"
  shows "(\<exists>(d, e)\<in>set xs. Q e) \<longleftrightarrow> (\<exists>(d, e)\<in>set ys. Q e)" "(\<forall>(d, e)\<in>set xs. Q e) \<longleftrightarrow> (\<forall>(d, e)\<in>set ys. Q e)"
proof -
  have "length xs = length ys" using arg_cong[OF assms(1), of length] by simp
  then have "(\<exists>(d, e)\<in>set xs. Q e) = (\<exists>(d, e)\<in>set ys. Q e) \<and> (\<forall>(d, e)\<in>set xs. Q e) = (\<forall>(d, e)\<in>set ys. Q e)"
    using assms(1)
  proof (induction xs ys rule: list_induct2)
    case (Cons x xs y ys)
    have "Q (snd x) = Q (snd y)" using Cons.prems by (intro assms(2)) (auto simp: split_beta)
    with Cons show ?case by (auto simp: split_beta)
  qed simp
  then show "(\<exists>(d, e)\<in>set xs. Q e) \<longleftrightarrow> (\<exists>(d, e)\<in>set ys. Q e)" "(\<forall>(d, e)\<in>set xs. Q e) \<longleftrightarrow> (\<forall>(d, e)\<in>set ys. Q e)"
    by blast+
qed

lemma same_facts_questions:
  assumes "same_facts g g'"
  shows "seizes_pointing G g' = seizes_pointing G g"
    and "need_to_disable_built_in_keyboard G g' = need_to_disable_built_in_keyboard G g"
proof -
  have c: "gb_configuration g' = gb_configuration g"
    and m: "map (\<lambda>(d, e). (d, entry_facts e)) (gb_entries g') = map (\<lambda>(d, e). (d, entry_facts e)) (gb_entries g)"
    using assms by (simp_all add: same_facts_def)
  show "seizes_pointing G g' = seizes_pointing G g"
    unfolding seizes_pointing_def c
    by (rule same_facts_ex(1)[OF m]) (simp add: needs_to_seize_device_def entry_facts_def)
  have "(\<exists>(d, e)\<in>set (gb_entries g'). is_disable_built_in_keyboard_if_exists (su_text G) (gb_configuration g) e) =
      (\<exists>(d, e)\<in>set (gb_entries g). is_disable_built_in_keyboard_if_exists (su_text G) (gb_configuration g) e)"
    by (rule same_facts_ex(1)[OF m]) (simp add: is_disable_built_in_keyboard_if_exists_def entry_facts_def)
  then show "need_to_disable_built_in_keyboard G g' = need_to_disable_built_in_keyboard G g"
    by (simp add: need_to_disable_built_in_keyboard_def c list_ex_iff)
qed

lemma same_facts_kept:
  assumes "same_facts g g'"
  shows "disabled_as_asked G g' = disabled_as_asked G g" "well_kept g' = well_kept g"
proof -
  have c: "gb_configuration g' = gb_configuration g"
    and m: "map (\<lambda>(d, e). (d, entry_facts e)) (gb_entries g') = map (\<lambda>(d, e). (d, entry_facts e)) (gb_entries g)"
    using assms by (simp_all add: same_facts_def)
  show "disabled_as_asked G g' = disabled_as_asked G g"
    unfolding disabled_as_asked_def c same_facts_questions(2)[OF assms]
    by (rule same_facts_ex(2)[OF m]) (simp add: entry_is_built_in_keyboard_def entry_facts_def)
  have "map fst (gb_entries g') = map fst (gb_entries g)"
    using arg_cong[OF m, of "map fst"] by (simp add: comp_def split_beta)
  moreover have "(\<forall>(d, e)\<in>set (gb_entries g'). ge_virtual e \<longrightarrow> \<not> ge_disabled e) =
      (\<forall>(d, e)\<in>set (gb_entries g). ge_virtual e \<longrightarrow> \<not> ge_disabled e)"
    by (rule same_facts_ex(2)[OF m]) (simp add: entry_facts_def)
  ultimately show "well_kept g' = well_kept g"
    unfolding well_kept_def by simp
qed

subsection \<open>Calm operations\<close>

text \<open>
  An operation is calm when no fact changes, a pending attempt to grab the devices stays pending, and
  no seizing is requested or found stuck keys under it, unless the device may be seized.
\<close>

definition seize_kept :: "grabber_entry \<Rightarrow> grabber_entry \<Rightarrow> bool" where
  "seize_kept e e' \<longleftrightarrow>
     (hm_requested (ge_monitor e') = Some opt_seize \<longrightarrow>
        hm_requested (ge_monitor e) = Some opt_seize
        \<and> (find_probable_stuck_event (ge_probable_stuck_events e) = None \<longrightarrow>
             find_probable_stuck_event (ge_probable_stuck_events e') = None))"

definition calm_entry :: "'k surroundings \<Rightarrow> 'k grabber \<Rightarrow> grabber_entry \<Rightarrow> grabber_entry \<Rightarrow> bool" where
  "calm_entry G g e e' \<longleftrightarrow> entry_facts e' = entry_facts e \<and> (seize_kept e e' \<or> seize_ok G g e')"

definition calm :: "'k surroundings \<Rightarrow> 'k grabber \<Rightarrow> 'k grabber \<Rightarrow> bool" where
  "calm G g g' \<longleftrightarrow>
     gb_configuration g' = gb_configuration g \<and> gb_devices_state g' = gb_devices_state g
     \<and> gb_system_sleeping g' = gb_system_sleeping g
     \<and> (Gj_grab_devices \<in> set (gb_jobs g) \<longrightarrow> Gj_grab_devices \<in> set (gb_jobs g'))
     \<and> list_all2 (\<lambda>x y. fst y = fst x \<and> calm_entry G g (snd x) (snd y)) (gb_entries g) (gb_entries g')"

lemma calm_same_facts: "calm G g g' \<Longrightarrow> same_facts g g'"
proof -
  have "list_all2 (\<lambda>x y. fst y = fst x \<and> calm_entry G g (snd x) (snd y)) xs ys \<Longrightarrow>
      map (\<lambda>(d, e). (d, entry_facts e)) ys = map (\<lambda>(d, e). (d, entry_facts e)) xs"
    for xs ys :: "(device_id \<times> grabber_entry) list"
    by (induction rule: list_all2_induct) (auto simp: calm_entry_def split_beta)
  then show "calm G g g' \<Longrightarrow> same_facts g g'" by (simp add: calm_def same_facts_def)
qed

lemma seize_ok_cong:
  assumes "same_facts g g'"
  shows "seize_ok G g' e = seize_ok G g e"
  using assms same_facts_questions(1)[OF assms] by (simp add: seize_ok_def may_seize_def same_facts_def)

lemma seize_kept_ok:
  assumes "seize_kept e e'" "entry_facts e' = entry_facts e" "seize_ok G g e"
  shows "seize_ok G g e'"
  using assms by (auto simp: seize_kept_def seize_ok_def may_seize_def needs_to_seize_device_def entry_facts_def)

lemma calm_entry_trans:
  assumes "calm_entry G g e e'" "calm_entry G g e' e''"
  shows "calm_entry G g e e''"
  using assms seize_kept_ok[of e' e'' G g] by (auto simp: calm_entry_def seize_kept_def)

lemma calm_trans:
  assumes "calm G g g'" "calm G g' g''"
  shows "calm G g g''"
proof -
  have "calm_entry G g' e e' = calm_entry G g e e'" for e e'
    by (simp add: calm_entry_def seize_ok_cong[OF calm_same_facts[OF assms(1)]])
  then have later: "list_all2 (\<lambda>x y. fst y = fst x \<and> calm_entry G g (snd x) (snd y)) (gb_entries g') (gb_entries g'')"
    using assms(2) by (simp add: calm_def)
  have before: "list_all2 (\<lambda>x y. fst y = fst x \<and> calm_entry G g (snd x) (snd y)) (gb_entries g) (gb_entries g')"
    using assms(1) by (simp add: calm_def)
  have trans: "fst y = fst x \<and> calm_entry G g (snd x) (snd y) \<Longrightarrow> fst z = fst y \<and> calm_entry G g (snd y) (snd z) \<Longrightarrow>
      fst z = fst x \<and> calm_entry G g (snd x) (snd z)" for x y z :: "device_id \<times> grabber_entry"
    using calm_entry_trans by auto
  have "list_all2 (\<lambda>x y. fst y = fst x \<and> calm_entry G g (snd x) (snd y)) (gb_entries g) (gb_entries g'')"
    using list_all2_trans[of _ _ "\<lambda>x y. fst y = fst x \<and> calm_entry G g (snd x) (snd y)", OF trans before later] .
  then show ?thesis using assms by (simp add: calm_def)
qed

lemma calm_keeps:
  assumes "calm G g g'"
  shows "well_kept g' = well_kept g" "disabled_as_asked G g' = disabled_as_asked G g"
    "seized_as_allowed G g \<Longrightarrow> seized_as_allowed G g'"
proof -
  note same = calm_same_facts[OF assms]
  show "well_kept g' = well_kept g" "disabled_as_asked G g' = disabled_as_asked G g"
    using same_facts_kept[OF same] by simp_all
  have "\<forall>y\<in>set ys. seize_ok G g (snd y)"
    if "list_all2 (\<lambda>x y. fst y = fst x \<and> calm_entry G g (snd x) (snd y)) xs ys" "\<forall>x\<in>set xs. seize_ok G g (snd x)"
    for xs ys :: "(device_id \<times> grabber_entry) list"
    using that by (induction rule: list_all2_induct) (auto simp: calm_entry_def intro: seize_kept_ok)
  then show "seized_as_allowed G g \<Longrightarrow> seized_as_allowed G g'"
    using assms by (auto simp: seized_as_allowed_def calm_def seize_ok_cong[OF same] split_beta)
qed

lemma calm_entry_refl: "calm_entry G g e e"
  by (simp add: calm_entry_def seize_kept_def)

lemma calm_same_entries:
  assumes "gb_entries g' = gb_entries g" "gb_configuration g' = gb_configuration g"
    "gb_devices_state g' = gb_devices_state g" "gb_system_sleeping g' = gb_system_sleeping g"
    "Gj_grab_devices \<in> set (gb_jobs g) \<Longrightarrow> Gj_grab_devices \<in> set (gb_jobs g')"
  shows "calm G g g'"
  using assms by (auto simp: calm_def calm_entry_refl intro: list.rel_refl)

lemma calm_refl: "calm G g g"
  by (rule calm_same_entries) simp_all

lemma calm_update_all:
  assumes "\<And>d e. (d, e) \<in> set (gb_entries g) \<Longrightarrow> calm_entry G g e (f e)"
  shows "calm G g (update_all_entries f g)"
proof -
  have "list_all2 (\<lambda>x y. fst y = fst x \<and> calm_entry G g (snd x) (snd y)) xs (map (\<lambda>(d, e). (d, f e)) xs)"
    if "set xs \<subseteq> set (gb_entries g)" for xs
    using that by (induction xs) (auto simp: split_beta intro: assms)
  then show ?thesis by (simp add: calm_def update_all_entries_def)
qed

lemma found_entry: "well_kept g \<Longrightarrow> (d, e) \<in> set (gb_entries g) \<Longrightarrow> find_entry d g = Some e"
  by (simp add: well_kept_def find_entry_def)

lemma calm_change:
  assumes "well_kept g" "\<And>e. find_entry d g = Some e \<Longrightarrow> calm_entry G g e (f e)"
  shows "calm G g (change_entry d f g)"
proof -
  have "list_all2 (\<lambda>x y. fst y = fst x \<and> calm_entry G g (snd x) (snd y)) xs
      (map (\<lambda>(d', e). (d', if d' = d then f e else e)) xs)"
    if "set xs \<subseteq> set (gb_entries g)" for xs
    using that found_entry[OF assms(1)] by (induction xs) (auto simp: split_beta calm_entry_refl intro: assms(2))
  then show ?thesis by (simp add: calm_def change_entry_def)
qed

lemma calm_fold:
  assumes "\<And>x g. well_kept g \<Longrightarrow> calm G g (f x g)" "well_kept g"
  shows "calm G g (fold f xs g)"
  using assms(2)
proof (induction xs arbitrary: g)
  case (Cons x xs)
  then have "calm G g (f x g)" by (intro assms(1))
  moreover from this have "calm G (f x g) (fold f xs (f x g))"
    using Cons calm_keeps(1) by blast
  ultimately show ?case by (auto intro: calm_trans)
qed (simp add: calm_refl)

subsection \<open>Requests\<close>

lemma request_for_ok: "entry_facts (request_for G g e) = entry_facts e" "seize_ok G g (request_for G g e)"
proof -
  have req: "hm_requested (monitor_async_start o' m) = Some o'" "hm_requested (monitor_async_stop m) = None" for o' m
    by (simp_all add: monitor_async_start_def monitor_async_stop_def)
  show "entry_facts (request_for G g e) = entry_facts e"
    by (simp add: request_for_def async_start_queue_value_monitor_def async_stop_queue_value_monitor_def
        entry_facts_def split: grabbable_state.splits)
  have allowed: "may_seize G g e" if "fst (make_grabbable_state G g e) = gs_grabbable" "\<not> ge_virtual e"
    using that
    by (auto simp: make_grabbable_state_def needs_to_observe_device_def may_seize_def seizes_pointing_def
        needs_prepare_virtual_hid_pointing_device_def list_ex_iff split: if_splits option.splits)
  have same: "may_seize G g (e\<lparr>ge_monitor := m\<rparr>) = may_seize G g e" for m
    by (simp add: may_seize_def needs_to_seize_device_def)
  show "seize_ok G g (request_for G g e)"
    using allowed
    by (auto simp: request_for_def async_start_queue_value_monitor_def async_stop_queue_value_monitor_def
        seize_ok_def req same split: grabbable_state.splits if_splits)
qed

lemma calm_with_notification: "calm G g (with_notification h g)"
  by (rule calm_same_entries) (simp_all add: grabber_frame)

lemma calm_grab_device:
  assumes "well_kept g"
  shows "calm G g (grab_device G d g)"
proof (cases "find_entry d g")
  case None
  then show ?thesis by (simp add: grab_device_def calm_refl)
next
  case (Some e)
  have "calm G g (change_entry d (\<lambda>_. request_for G g e) g)"
    using Some by (intro calm_change[OF assms]) (simp add: calm_entry_def request_for_ok)
  then show ?thesis
    using Some by (auto simp: grab_device_def Let_def intro: calm_trans[OF _ calm_with_notification] split: option.splits)
qed

lemma entries_change_entry:
  "(d', e') \<in> set (gb_entries (change_entry d f g)) \<longleftrightarrow>
    (\<exists>e. (d', e) \<in> set (gb_entries g) \<and> e' = (if d' = d then f e else e))"
  by (auto simp: change_entry_def image_iff Bex_def)

lemma find_change_entry: "find_entry d' (change_entry d f g) =
    map_option (if d' = d then f else (\<lambda>e. e)) (find_entry d' g)"
proof -
  have "map_of (map (\<lambda>(d', e). (d', if d' = d then f e else e)) xs) d' =
      map_option (if d' = d then f else (\<lambda>e. e)) (map_of xs d')" for xs
    by (induction xs) auto
  then show ?thesis by (simp add: find_entry_def change_entry_def)
qed

lemma entries_grab_device:
  "gb_entries (grab_device G d g) =
    (case find_entry d g of None \<Rightarrow> gb_entries g
     | Some e \<Rightarrow> gb_entries (change_entry d (\<lambda>_. request_for G g e) g))"
  by (simp add: grab_device_def Let_def grabber_frame split: option.splits)

lemma grabbed_device_ok:
  assumes "well_kept g" "find_entry d (grab_device G d g) = Some e"
  shows "seize_ok G (grab_device G d g) e"
proof -
  have "seize_ok G g e"
    using assms(2) request_for_ok(2)
    by (auto simp: find_entry_def[of d "grab_device G d g"] entries_grab_device find_entry_def[symmetric]
        find_change_entry split: option.splits)
  then show ?thesis
    using seize_ok_cong[OF calm_same_facts[OF calm_grab_device[OF assms(1), of G d]]] by simp
qed

lemma grab_devices_allowed:
  assumes "well_kept g"
  shows "seized_as_allowed G (grab_devices G g)"
proof -
  have step: "(\<forall>(d', e)\<in>set (gb_entries (grab_device G d g)). d' \<in> insert d S \<longrightarrow> seize_ok G (grab_device G d g) e)"
    if "well_kept g" "\<forall>(d', e)\<in>set (gb_entries g). d' \<in> S \<longrightarrow> seize_ok G g e" for d g S
  proof -
    note calm = calm_grab_device[OF that(1), of G d]
    have kept: "well_kept (grab_device G d g)" using calm_keeps(1)[OF calm] that(1) by simp
    have "seize_ok G (grab_device G d g) e" if "(d', e) \<in> set (gb_entries (grab_device G d g))" "d' \<noteq> d" "d' \<in> S" for d' e
    proof -
      have "(d', e) \<in> set (gb_entries g)"
        using that by (auto simp: entries_grab_device entries_change_entry split: option.splits)
      with \<open>\<forall>(d', e)\<in>set (gb_entries g). d' \<in> S \<longrightarrow> seize_ok G g e\<close> that
      show ?thesis by (auto simp: seize_ok_cong[OF calm_same_facts[OF calm]])
    qed
    then show ?thesis
      using grabbed_device_ok[OF that(1)] found_entry[OF kept] by blast
  qed
  have "\<forall>(d', e)\<in>set (gb_entries (fold (grab_device G) ds g)). d' \<in> S \<union> set ds \<longrightarrow> seize_ok G (fold (grab_device G) ds g) e"
    if "well_kept g" "\<forall>(d', e)\<in>set (gb_entries g). d' \<in> S \<longrightarrow> seize_ok G g e" for ds S g
    using that
  proof (induction ds arbitrary: g S)
    case (Cons d ds)
    have "well_kept (grab_device G d g)" using calm_keeps(1)[OF calm_grab_device[OF Cons.prems(1)]] Cons.prems(1) by simp
    from Cons.IH[OF this step[OF Cons.prems]] show ?case by simp
  qed simp
  from this[of g "{}" "map fst (gb_entries g)"] assms
  have ok: "\<forall>(d, e)\<in>set (gb_entries (grab_devices G g)). d \<in> fst ` set (gb_entries g) \<longrightarrow> seize_ok G (grab_devices G g) e"
    by (simp add: grab_devices_def)
  have "calm G g (grab_devices G g)"
    unfolding grab_devices_def by (rule calm_fold[OF calm_grab_device assms])
  from calm_same_facts[OF this] have "map (\<lambda>(d, e). (d, entry_facts e)) (gb_entries (grab_devices G g)) =
      map (\<lambda>(d, e). (d, entry_facts e)) (gb_entries g)"
    by (simp add: same_facts_def)
  from arg_cong[OF this, of "map fst"] have "map fst (gb_entries (grab_devices G g)) = map fst (gb_entries g)"
    by (simp add: comp_def split_beta)
  then have "fst ` set (gb_entries (grab_devices G g)) = fst ` set (gb_entries g)"
    by (metis set_map)
  with ok show ?thesis by (force simp: seized_as_allowed_def)
qed

subsection \<open>The handlers are calm or end in a new look at the devices\<close>

lemma post_virtual_event_frame [grabber_frame]:
  "gb_entries (post_virtual_event G d ev g) = gb_entries g"
  "gb_configuration (post_virtual_event G d ev g) = gb_configuration g"
  "gb_devices_state (post_virtual_event G d ev g) = gb_devices_state g"
  "gb_system_sleeping (post_virtual_event G d ev g) = gb_system_sleeping g"
  "gb_jobs (post_virtual_event G d ev g) = gb_jobs g @ [Gj_input_event_arrived]"
  "ct_connections (gb_connector (post_virtual_event G d ev g)) = ct_connections (gb_connector g)"
  by (simp_all add: post_virtual_event_def grabber_frame)

lemma calm_post: "calm G g (post_virtual_event G' d ev g)"
  "calm G g (post_set_variable_event G' v g)" "calm G g (pointing_device_event_arrived G' t ev g)"
  by (intro calm_same_entries;
      simp add: post_set_variable_event_def pointing_device_event_arrived_def read_clock_def grabber_frame)+

lemma calm_enqueue: "calm G g (enqueue j g)"
  by (rule calm_same_entries) (simp_all add: grabber_frame)

lemma calm_pointing: "calm G g (update_virtual_hid_pointing G g)"
  by (rule calm_same_entries) (simp_all add: grabber_frame)

lemma calm_drop_stick_jobs: "calm G g (drop_jobs (is_stick_job d) g)"
  by (rule calm_same_entries) (simp_all add: grabber_frame is_stick_job_def)

lemma control_caps_lock_led_frame [grabber_frame]:
  "entry_facts (control_caps_lock_led T c e) = entry_facts e"
  "ge_properties (control_caps_lock_led T c e) = ge_properties e"
  "ge_disabled (control_caps_lock_led T c e) = ge_disabled e"
  "ge_monitor (control_caps_lock_led T c e) = ge_monitor e"
  "ge_probable_stuck_events (control_caps_lock_led T c e) = ge_probable_stuck_events e"
  by (simp_all add: control_caps_lock_led_def entry_facts_def)

lemma calm_entry_handlers:
  "calm_entry G g e (entry_started T P c e)" "calm_entry G g e (entry_stopped T c e)"
  "calm_entry G g e (set_caps_lock_led_state s e)" "calm_entry G g e (async_stop_queue_value_monitor e)"
  "entry_facts (entry_set_core_configuration T P c e) = entry_facts e"
  by (simp_all add: entry_started_def entry_stopped_def set_caps_lock_led_state_def calm_entry_def seize_kept_def
      async_stop_queue_value_monitor_def monitor_async_stop_def entry_set_core_configuration_def entry_facts_def
      psem_clear_def find_probable_stuck_event_def grabber_frame Let_def split: option.splits)

lemma calm_caps_lock_led: "calm G g (update_caps_lock_led g)"
  unfolding update_caps_lock_led_def by (rule calm_update_all) (rule calm_entry_handlers)

lemma calm_caps_lock_event: "calm G g (caps_lock_event_arrived G' en g)"
proof (cases "en_event en")
  case (Ev_caps_lock_state_changed n)
  have "calm G g (post_caps_lock_state_changed_event G' b (g\<lparr>gb_last_caps_lock_state := x\<rparr>))" for b x
    by (rule calm_same_entries) (simp_all add: post_caps_lock_state_changed_event_def grabber_frame)
  then show ?thesis
    using Ev_caps_lock_state_changed by (simp add: caps_lock_event_arrived_def) (metis calm_caps_lock_led calm_trans)
qed (simp_all add: caps_lock_event_arrived_def calm_refl)

lemma calm_monitor_started:
  assumes "well_kept g"
  shows "calm G g (monitor_started G d g)"
proof -
  define g1 where "g1 = change_entry d (entry_started (su_text G) (su_platform G) (gb_configuration g)) g"
  have g1: "calm G g g1" unfolding g1_def by (rule calm_change[OF assms]) (rule calm_entry_handlers)
  show ?thesis
  proof (cases "find_entry d g1")
    case (Some e)
    define g2 where "g2 = (if entry_seized e \<and> di_is_game_pad (ge_identifiers e) then drop_jobs (is_stick_job d) g1 else g1)"
    have "calm G g1 g2" by (simp add: g2_def calm_drop_stick_jobs calm_refl)
    moreover have "calm G g2 (update_virtual_hid_pointing G
        (update_caps_lock_led (post_device_grabbed_event G (ge_properties e) g2)))"
      unfolding post_device_grabbed_event_def by (meson calm_post(1) calm_caps_lock_led calm_pointing calm_trans)
    ultimately show ?thesis
      using g1 Some by (simp add: monitor_started_def g1_def[symmetric] g2_def[symmetric] Let_def) (meson calm_trans)
  qed (use g1 in \<open>simp add: monitor_started_def g1_def[symmetric] Let_def\<close>)
qed

lemma calm_monitor_stopped:
  assumes "well_kept g"
  shows "calm G g (monitor_stopped G d g)"
proof -
  define g1 where "g1 = change_entry d (entry_stopped (su_text G) (gb_configuration g)) g"
  have g1: "calm G g g1" unfolding g1_def by (rule calm_change[OF assms]) (rule calm_entry_handlers)
  have "calm G g1 (update_virtual_hid_pointing G (post_device_ungrabbed_event G d (drop_jobs (is_stick_job d) g1)))"
    unfolding post_device_ungrabbed_event_def by (meson calm_post(1) calm_drop_stick_jobs calm_pointing calm_trans)
  with g1 show ?thesis
    by (auto simp: monitor_stopped_def g1_def[symmetric] Let_def intro: calm_trans split: option.splits)
qed

lemma calm_fold_enqueue: "calm G g (fold (\<lambda>x. enqueue (f x)) xs g)"
proof (induction xs arbitrary: g)
  case (Cons x xs)
  then show ?case using calm_trans[OF calm_enqueue Cons] by simp
qed (simp add: calm_refl)

lemma monitor_step_requested: "hm_requested (fst (monitor_step ev m)) = hm_requested m"
proof -
  have "hm_requested (fst (monitor_job j m)) = hm_requested m" for j m
    by (cases j) (auto simp: monitor_stop_def monitor_start_def)
  then show ?thesis
    by (cases ev) (auto simp: monitor_stop_def monitor_opened_def split: list.splits)
qed

lemma calm_monitor_works:
  assumes "well_kept g"
  shows "calm G g (monitor_works d ev g)"
proof (cases "find_entry d g")
  case (Some e)
  obtain m sigs where m: "monitor_step ev (ge_monitor e) = (m, sigs)" by force
  then have "hm_requested m = hm_requested (ge_monitor e)" using monitor_step_requested[of ev "ge_monitor e"] by simp
  then have "calm G g (change_entry d (\<lambda>e. e\<lparr>ge_monitor := m\<rparr>) g)"
    using Some by (intro calm_change[OF assms]) (simp add: calm_entry_def entry_facts_def seize_kept_def)
  from calm_trans[OF this calm_fold_enqueue] show ?thesis using Some m by (simp add: monitor_works_def)
qed (simp add: monitor_works_def calm_refl)

lemma stuck_updates_unchanged:
  "stuck_updates st ens s = (False, s') \<Longrightarrow> find_probable_stuck_event s' = find_probable_stuck_event s"
proof (induction ens arbitrary: s)
  case (Cons en ens)
  have "find_probable_stuck_event (snd (psem_update ev t st s)) = find_probable_stuck_event s"
    if "\<not> fst (psem_update ev t st s)" for ev t
    using that by (auto simp: psem_update_def Let_def split: if_splits)
  with Cons show ?case
    by (cases "event_mse (en_event en)") (auto split: prod.splits, metis fst_conv snd_conv)
qed simp

lemma sort_merged_frame [grabber_frame]:
  "gb_entries (sort_merged g) = gb_entries g" "gb_configuration (sort_merged g) = gb_configuration g"
  "gb_devices_state (sort_merged g) = gb_devices_state g" "gb_system_sleeping (sort_merged g) = gb_system_sleeping g"
  "gb_jobs (sort_merged g) = gb_jobs g" "gb_delayed (sort_merged g) = gb_delayed g"
  "ct_connections (gb_connector (sort_merged g)) = ct_connections (gb_connector g)"
  "length (ct_queues (gb_connector (sort_merged g))) = length (ct_queues (gb_connector g))"
  by (simp_all add: sort_merged_def)

lemma change_change: "gb_entries g' = gb_entries (change_entry d f g) \<Longrightarrow>
    gb_entries (change_entry d (\<lambda>_. x) g') = gb_entries (change_entry d (\<lambda>_. x) g)"
  by (auto simp: change_entry_def)

lemma calm_values_arrived:
  assumes "well_kept g"
  shows "calm G g (values_arrived G d ens g)"
proof (cases "find_entry d g")
  case None
  then show ?thesis by (simp add: values_arrived_def calm_refl)
next
  case (Some e)
  show ?thesis
  proof (cases "ge_virtual e")
    case True
    then show ?thesis
      using Some calm_fold[OF calm_caps_lock_event assms] by (simp add: values_arrived_def)
  next
    case False
    define st where "st = (if entry_seized e then seized else observed)"
    obtain regrab s where s: "stuck_updates st ens (ge_probable_stuck_events e) = (regrab, s)" by force
    define f where "f = (\<lambda>e :: grabber_entry. e\<lparr>ge_probable_stuck_events := s\<rparr>)"
    define g1 where "g1 = change_entry d f g"
    define g3 where "g3 = sort_merged (if forwards e then fold (\<lambda>en. push_merged G (requeued en)) ens g1 else g1)"
    have g3: "gb_entries g3 = gb_entries g1" "gb_configuration g3 = gb_configuration g"
      "gb_devices_state g3 = gb_devices_state g" "gb_system_sleeping g3 = gb_system_sleeping g" "gb_jobs g3 = gb_jobs g"
      by (simp_all add: g3_def g1_def grabber_frame)
    have facts: "entry_facts (f e) = entry_facts e" for e by (simp add: f_def entry_facts_def)
    have "calm G g (if regrab then grab_device G d g3 else g3)"
    proof (cases regrab)
      case True
      have same: "same_facts g g3"
        using g3 facts by (auto simp: same_facts_def g1_def change_entry_def)
      have "find_entry d g3 = Some (f e)"
        using g3(1) Some by (simp add: find_entry_def g1_def) (simp add: find_entry_def[symmetric] find_change_entry)
      then have entries: "gb_entries (grab_device G d g3) = gb_entries (change_entry d (\<lambda>_. request_for G g3 (f e)) g)"
        using change_change[of g3 d f g] g3(1) by (simp add: entries_grab_device g1_def)
      have "calm G g (change_entry d (\<lambda>_. request_for G g3 (f e)) g)"
        using Some request_for_ok[of G g3 "f e"] facts[of e] seize_ok_cong[OF same]
        by (intro calm_change[OF assms]) (simp add: calm_entry_def)
      moreover have "calm G (change_entry d (\<lambda>_. request_for G g3 (f e)) g) (grab_device G d g3)"
        using entries g3 by (intro calm_same_entries)
          (simp_all add: grab_device_def Let_def grabber_frame split: option.splits)
      ultimately show ?thesis using True by (auto intro: calm_trans)
    next
      case False
      then have "find_probable_stuck_event s = find_probable_stuck_event (ge_probable_stuck_events e)"
        using s by (intro stuck_updates_unchanged[of st ens]) simp
      then have "calm G g g1"
        unfolding g1_def using Some facts[of e]
        by (intro calm_change[OF assms]) (simp add: calm_entry_def seize_kept_def f_def)
      moreover have "calm G g1 g3"
        using g3 by (intro calm_same_entries) (simp_all add: g1_def grabber_frame)
      ultimately show ?thesis using False by (auto intro: calm_trans)
    qed
    then have g4: "calm G g (enqueue j (if regrab then grab_device G d g3 else g3))"
      "calm G g (if regrab then grab_device G d g3 else g3)" for j
      by (blast intro: calm_trans[OF _ calm_enqueue])+
    have "values_arrived G d ens g =
        (if forwards e \<and> ens \<noteq> [] then enqueue Gj_input_event_arrived (if regrab then grab_device G d g3 else g3)
         else (if regrab then grab_device G d g3 else g3))"
      using Some False s unfolding values_arrived_def st_def g3_def g1_def f_def by (simp add: Let_def)
    then show ?thesis using g4 by presburger
  qed
qed

lemma entry_values_arrived_frame:
  assumes "entry_values_arrived T F A P c vs (e, hat) = (ens, sticks, e', hat')"
  shows "entry_facts e' = entry_facts e" "ge_monitor e' = ge_monitor e"
    "ge_probable_stuck_events e' = ge_probable_stuck_events e"
  using assms by (auto simp: entry_values_arrived_def entry_facts_def Let_def split: option.splits prod.splits)

lemma calm_device_values_arrived:
  assumes "well_kept g"
  shows "calm G g (device_values_arrived G d vs g)"
proof (cases "find_entry d g")
  case (Some e)
  obtain ens sticks e' hat where v: "entry_values_arrived (su_text G) (su_floating_point G) (su_sticks G) (su_platform G)
      (gb_configuration g) vs (e, gb_hat g) = (ens, sticks, e', hat)"
    using prod_cases4 by blast
  let ?g1 = "(change_entry d (\<lambda>_. e') g)\<lparr>gb_hat := hat\<rparr>"
  have "calm G g (change_entry d (\<lambda>_. e') g)"
    using Some entry_values_arrived_frame[OF v] by (intro calm_change[OF assms]) (simp add: calm_entry_def seize_kept_def)
  moreover have "calm G (change_entry d (\<lambda>_. e') g) ?g1" by (rule calm_same_entries) simp_all
  ultimately have g1: "calm G g ?g1" by (rule calm_trans)
  then have "calm G ?g1 (values_arrived G d ens ?g1)" using assms by (intro calm_values_arrived) (simp add: calm_keeps(1))
  from calm_trans[OF calm_trans[OF g1 this] calm_fold_enqueue] show ?thesis
    using Some v by (simp add: device_values_arrived_def)
qed (simp add: device_values_arrived_def calm_refl)

lemma calm_stick_timer:
  assumes "well_kept g"
  shows "calm G g (stick_timer G d g)"
proof -
  have "calm G g (change_entry d (\<lambda>e. e\<lparr>ge_stick_converter := x\<rparr>) g)" for x
    by (intro calm_change[OF assms]) (simp add: calm_entry_def entry_facts_def seize_kept_def)
  note step = calm_trans[OF this calm_fold_enqueue]
  show ?thesis by (auto simp: stick_timer_def calm_refl intro: step split: option.splits prod.splits)
qed

lemma with_manager_frame [grabber_frame]:
  "gb_entries (with_manager i f g) = gb_entries g" "gb_configuration (with_manager i f g) = gb_configuration g"
  "gb_devices_state (with_manager i f g) = gb_devices_state g"
  "gb_system_sleeping (with_manager i f g) = gb_system_sleeping g"
  "gb_jobs (with_manager i f g) = gb_jobs g" "gb_delayed (with_manager i f g) = gb_delayed g"
  "ct_connections (gb_connector (with_manager i f g)) = ct_connections (gb_connector g)"
  "ct_queues (gb_connector (with_manager i f g)) = ct_queues (gb_connector g)"
  by (simp_all add: with_manager_def split: prod.splits)

lemma update_fn_frame [grabber_frame]:
  "gb_entries (update_fn_manager G g) = gb_entries g" "gb_configuration (update_fn_manager G g) = gb_configuration g"
  "gb_devices_state (update_fn_manager G g) = gb_devices_state g"
  "gb_system_sleeping (update_fn_manager G g) = gb_system_sleeping g"
  "gb_jobs (update_fn_manager G g) = gb_jobs g" "gb_delayed (update_fn_manager G g) = gb_delayed g"
  "ct_connections (gb_connector (update_fn_manager G g)) = ct_connections (gb_connector g)"
  "ct_queues (gb_connector (update_fn_manager G g)) = ct_queues (gb_connector g)"
  by (simp_all add: update_fn_manager_def grabber_frame split: option.splits)

lemma enqueue_after_frame [grabber_frame]:
  "gb_entries (enqueue_after ms j g) = gb_entries g" "gb_configuration (enqueue_after ms j g) = gb_configuration g"
  "gb_devices_state (enqueue_after ms j g) = gb_devices_state g"
  "gb_system_sleeping (enqueue_after ms j g) = gb_system_sleeping g"
  "gb_connector (enqueue_after ms j g) = gb_connector g" "set (gb_jobs g) \<subseteq> set (gb_jobs (enqueue_after ms j g))"
  by (auto simp: enqueue_after_def grabber_frame)

lemma calm_manipulate: "grabber_manipulate G now g = Some g' \<Longrightarrow> calm G g g'"
  by (rule calm_same_entries)
    (auto simp: grabber_manipulate_def Let_def grabber_frame enqueue_after_def split: option.splits if_splits)

lemma calm_post_events: "calm G g (post_events G g)"
proof (cases "poster_of (ct_managers (gb_connector g) ! 3)")
  case (Some v)
  obtain sent delay v' where p: "pv_async_post_events (su_platform G) (su_clock G (gb_clock_reads g)) v = (sent, delay, v')"
    using prod_cases3 by blast
  show ?thesis
    using Some p
    by (intro calm_same_entries)
      (auto simp: post_events_def read_clock_def Let_def grabber_frame enqueue_after_def split: option.splits)
qed (simp add: post_events_def calm_refl)

lemma calm_set_system_preferences: "calm G g (grabber_set_system_preferences G spp g)"
  by (rule calm_same_entries) (simp_all add: grabber_set_system_preferences_def grabber_frame)

lemma calm_run_job:
  assumes "well_kept g" "run_job G j g = Some g'"
  shows "calm G g g'"
proof -
  have ungrab: "calm G g (ungrab_devices g)"
    unfolding ungrab_devices_def by (rule calm_update_all) (rule calm_entry_handlers)
  have grab: "calm G g (grab_devices G g)"
    unfolding grab_devices_def by (rule calm_fold[OF calm_grab_device assms(1)])
  have later: "calm G g g'" if "grabber_manipulate G now (snd (read_clock G g)) = Some g'" for now
  proof -
    have "calm G g (snd (read_clock G g))" by (rule calm_same_entries) (simp_all add: read_clock_def)
    from calm_trans[OF this calm_manipulate[OF that]] show ?thesis .
  qed
  have start: "calm G g (grabber_start g)"
    by (rule calm_same_entries) (simp_all add: grabber_start_def grabber_frame)
  show ?thesis
    using assms ungrab grab later start
    by (cases "(G, j, g)" rule: run_job.cases)
      (auto simp: calm_post calm_refl calm_post_events calm_set_system_preferences calm_device_values_arrived
        calm_monitor_started calm_monitor_stopped calm_values_arrived split_beta intro: calm_manipulate)
qed

subsection \<open>Every run\<close>

definition kept :: "'k surroundings \<Rightarrow> 'k grabber \<Rightarrow> bool" where
  "kept G g \<longleftrightarrow> well_kept g \<and> disabled_as_asked G g \<and> seized_as_allowed G g"

lemma calm_kept: "calm G g g' \<Longrightarrow> kept G g \<Longrightarrow> kept G g'"
  using calm_keeps[of G g g'] by (simp add: kept_def)

lemma kept_well: "kept G g \<Longrightarrow> well_kept g"
  by (simp add: kept_def)

lemma reconsider_kept:
  assumes "well_kept g"
  shows "kept G (reconsider_devices G g)"
proof -
  define b where "b = need_to_disable_built_in_keyboard G g"
  define f where "f = (\<lambda>e. set_disabled (entry_is_built_in_keyboard (su_text G) (gb_configuration g) e \<and> b) e)"
  have entries: "gb_entries (reconsider_devices G g) = map (\<lambda>(d, e). (d, f e)) (gb_entries g)"
    "gb_configuration (reconsider_devices G g) = gb_configuration g"
    by (simp_all add: reconsider_devices_def update_devices_disabled_def update_all_entries_def grabber_frame f_def b_def)
  have f: "ge_properties (f e) = ge_properties e" for e by (simp add: f_def set_disabled_def)
  have "need_to_disable_built_in_keyboard G (reconsider_devices G g) = b"
    by (simp add: need_to_disable_built_in_keyboard_def entries b_def list_ex_iff split_beta
        is_disable_built_in_keyboard_if_exists_def f)
  then have "disabled_as_asked G (reconsider_devices G g)"
    using assms by (auto simp: disabled_as_asked_def entries well_kept_def entry_is_built_in_keyboard_def f)
      (auto simp: f_def set_disabled_def entry_is_built_in_keyboard_def split: if_splits)
  moreover have "well_kept (reconsider_devices G g)"
    using assms by (auto simp: well_kept_def entries comp_def split_beta f f_def set_disabled_def split: if_splits)
  moreover have "seized_as_allowed G (reconsider_devices G g)"
    by (simp add: seized_as_allowed_def reconsider_devices_def grabber_frame)
  ultimately show ?thesis by (simp add: kept_def)
qed

lemma keys_put_entry: "distinct (map fst xs) \<Longrightarrow> distinct (map fst (put_entry d e xs)) \<and>
    fst ` set (put_entry d e xs) = insert d (fst ` set xs)"
  by (induction xs) (auto simp: image_iff)

lemma set_put_entry: "set (put_entry d e xs) \<subseteq> insert (d, e) (set xs)"
  by (induction xs) auto

lemma matched_kept:
  assumes "well_kept g"
  shows "kept G (device_matched G d io g)"
proof -
  let ?g1 = "(drop_jobs (job_of_device d) g)\<lparr>gb_entries := put_entry d (create_entry d io) (gb_entries g)\<rparr>"
  have "\<not> ge_disabled (create_entry d io)" by (simp add: create_entry_def)
  then have "well_kept ?g1"
    using assms keys_put_entry[of "gb_entries g" d] set_put_entry[of d "create_entry d io" "gb_entries g"]
    by (auto simp: well_kept_def)
  then show ?thesis
    unfolding device_matched_def Let_def
    by (intro reconsider_kept) (simp add: well_kept_def grabber_frame)
qed

lemma terminated_kept:
  assumes "well_kept g"
  shows "kept G (device_terminated G d g)"
proof -
  have "distinct (map fst (erase_if (\<lambda>x. fst x = d) xs))" if "distinct (map fst xs)" for xs :: "(device_id \<times> grabber_entry) list"
    using that by (induction xs) auto
  with assms have w: "well_kept (g0\<lparr>gb_entries := erase_if (\<lambda>x. fst x = d) (gb_entries g)\<rparr>)" for g0
    by (auto simp: well_kept_def)
  show ?thesis
    unfolding device_terminated_def Let_def
    by (intro reconsider_kept)
      (use assms w in \<open>auto simp: well_kept_def grabber_frame post_device_ungrabbed_event_def split: option.splits\<close>)
qed

lemma configuration_reachable_selected:
  "configuration_reachable T c \<Longrightarrow> get_selected_profile c \<noteq> None"
  using configuration_reachable_ok[of T c]
  by (cases "cfg_profiles c") (auto simp: configuration_ok_def get_selected_profile_def split: option.splits)

lemma updated_kept:
  assumes "well_kept g" "configuration_reachable (su_text G) c"
  shows "kept G (core_configuration_updated G c g)"
proof -
  let ?g1 = "update_all_entries (entry_set_core_configuration (su_text G) (su_platform G) c) (g\<lparr>gb_configuration := c\<rparr>)"
  obtain p where p: "get_selected_profile c = Some p" using configuration_reachable_selected[OF assms(2)] by blast
  have "well_kept ?g1"
    using assms(1) calm_entry_handlers(5)[of "su_text G" "su_platform G" c]
    by (auto simp: well_kept_def update_all_entries_def comp_def split_beta entry_facts_def)
  then have w: "well_kept (g'\<lparr>gb_entries := gb_entries ?g1\<rparr>)" for g' :: "'a grabber"
    by (simp add: well_kept_def)
  show ?thesis
    unfolding core_configuration_updated_def Let_def
    by (simp add: p, rule calm_kept[OF calm_enqueue], rule reconsider_kept)
      (use \<open>well_kept ?g1\<close> in \<open>simp add: well_kept_def grabber_frame update_all_entries_def\<close>)
qed

lemma initial_kept: "grabber_initial G i c = Some g \<Longrightarrow> kept G g"
  by (auto simp: grabber_initial_def kept_def well_kept_def disabled_as_asked_def seized_as_allowed_def
      split: option.splits)

lemma run_next_job_kept:
  assumes "kept G g" "run_next_job G g = Some g'"
  shows "kept G g'"
proof (cases "gb_jobs g")
  case Nil
  then show ?thesis using assms by (simp add: run_next_job_def)
next
  case (Cons j js)
  let ?g = "g\<lparr>gb_jobs := js\<rparr>"
  have run: "run_job G j ?g = Some g'" using assms(2) Cons by (simp add: run_next_job_def)
  have w: "well_kept ?g" using assms(1) by (simp add: kept_def well_kept_def)
  show ?thesis
  proof (cases "j = Gj_grab_devices")
    case True
    have d: "disabled_as_asked G ?g"
      using assms(1) by (simp add: kept_def disabled_as_asked_def need_to_disable_built_in_keyboard_def)
    show ?thesis
      using calm_keeps(1,2)[OF calm_run_job[OF w run]] w d grab_devices_allowed[OF w, of G] run True
      by (simp add: kept_def)
  next
    case False
    then have "calm G g ?g" using Cons by (intro calm_same_entries) auto
    from calm_trans[OF this calm_run_job[OF w run]] assms(1) show ?thesis by (rule calm_kept)
  qed
qed

lemma handlers_kept:
  assumes "well_kept g"
  shows "kept G (client_connected G g)" "kept G (set_system_sleeping G b g)"
  using assms by (auto simp: client_connected_def set_system_sleeping_def well_kept_def grabber_frame
      intro!: reconsider_kept)

lemma ready_kept:
  assumes "kept G g"
  shows "kept G (keyboard_ready G ready g)" "kept G (pointing_ready G ready g)"
proof -
  have w: "well_kept g" using assms by (simp add: kept_def)
  show "kept G (keyboard_ready G ready g)"
    using assms w by (auto simp: keyboard_ready_def Let_def well_kept_def grabber_frame intro!: reconsider_kept)
  show "kept G (pointing_ready G ready g)"
    using assms w by (auto simp: pointing_ready_def Let_def well_kept_def grabber_frame intro!: reconsider_kept)
qed

lemma moves_kept: "grabber_moves G g g' \<Longrightarrow> kept G g \<Longrightarrow> kept G g'"
proof (induction rule: grabber_moves.induct)
  case (gm_delayed g xs ms j ys)
  have "calm G g (g\<lparr>gb_delayed := xs @ ys\<rparr>)" by (rule calm_same_entries) simp_all
  then show ?case using gm_delayed calm_kept calm_enqueue by blast
next
  case (gm_values g d vs)
  have "calm G g (monitor_has_values d vs g)"
    by (auto simp: monitor_has_values_def calm_enqueue calm_refl split: option.splits)
  then show ?case using gm_values calm_kept by blast
next
  case (gm_stop g)
  have "calm G g (grabber_stop g)" by (rule calm_same_entries) (simp_all add: grabber_stop_def grabber_frame)
  then show ?case using gm_stop calm_kept by blast
qed (auto intro: run_next_job_kept matched_kept terminated_kept updated_kept
    calm_kept[OF calm_monitor_works] calm_kept[OF calm_stick_timer] calm_kept[OF calm_post(3)] handlers_kept ready_kept
    kept_well)

lemma reachable_kept: "grabber_reachable G g \<Longrightarrow> kept G g"
  by (induction rule: grabber_reachable.induct)
    (auto intro: initial_kept calm_kept[OF calm_enqueue] moves_kept)

text \<open>
  C11. In every run of the grabber exactly the built-in keyboards are disabled, also those the
  configuration treats as one, and only while a device that is neither virtual nor built in asks
  for it; a virtual device is never disabled.
\<close>

theorem keyboard_is_disabled_when_asked:
  assumes "grabber_reachable G g" "find_entry d g = Some e"
  shows "ge_disabled e \<longleftrightarrow>
    \<not> ge_virtual e \<and> entry_is_built_in_keyboard (su_text G) (gb_configuration g) e \<and>
    (\<exists>e'\<in>snd ` set (gb_entries g). is_disable_built_in_keyboard_if_exists (su_text G) (gb_configuration g) e')"
proof -
  have "disabled_as_asked G g" using reachable_kept[OF assms(1)] by (simp add: kept_def)
  moreover have "(d, e) \<in> set (gb_entries g)" using assms(2) by (auto simp: find_entry_def dest: map_of_SomeD)
  moreover have "need_to_disable_built_in_keyboard G g \<longleftrightarrow>
      (\<exists>e'\<in>snd ` set (gb_entries g). is_disable_built_in_keyboard_if_exists (su_text G) (gb_configuration g) e')"
    by (simp add: need_to_disable_built_in_keyboard_def list_ex_iff split_beta)
  ultimately show ?thesis
    unfolding disabled_as_asked_def by blast
qed

text \<open>
  C3. In every run of the grabber, once no attempt to grab the devices is waiting, a device whose
  seizing is requested is not virtual, is disabled or not ignored, the system is awake, the virtual
  keyboard is ready, so is the virtual pointing device if a pointing device or game pad is to be
  seized, and no key of the device is probably stuck: keys of a seized device can be posted.
\<close>

theorem devices_are_seized_only_when_allowed:
  assumes "grabber_reachable G g" "find_entry d g = Some e" "Gj_grab_devices \<notin> set (gb_jobs g)"
    and "hm_requested (ge_monitor e) = Some opt_seize"
  shows "\<not> ge_virtual e \<and>
    (ge_disabled e \<or> device_setting (\<lambda>s. \<not> get_ignore s) (su_text G) (gb_configuration g) (ge_identifiers e)) \<and>
    \<not> gb_system_sleeping g \<and> virtual_hid_keyboard_ready (gb_devices_state g) \<and>
    (di_is_pointing_device (ge_identifiers e) \<or> di_is_game_pad (ge_identifiers e) \<longrightarrow>
       virtual_hid_pointing_ready (gb_devices_state g)) \<and>
    find_probable_stuck_event (ge_probable_stuck_events e) = None"
proof -
  have in_g: "(d, e) \<in> set (gb_entries g)" using assms(2) by (auto simp: find_entry_def dest: map_of_SomeD)
  have "seized_as_allowed G g" using reachable_kept[OF assms(1)] by (simp add: kept_def)
  with in_g assms(3,4) have m: "may_seize G g e" by (auto simp: seized_as_allowed_def seize_ok_def)
  then have "needs_to_seize_device (su_text G) (gb_configuration g) e" by (simp add: may_seize_def)
  moreover from this in_g have "di_is_pointing_device (ge_identifiers e) \<or> di_is_game_pad (ge_identifiers e) \<Longrightarrow>
      seizes_pointing G g"
    by (auto simp: seizes_pointing_def)
  ultimately show ?thesis
    using m by (auto simp: may_seize_def needs_to_seize_device_def split: if_splits)
qed

subsection \<open>Examples\<close>

definition sample_surroundings :: "(usage set \<times> hid_report_modifier set) surroundings" where
  "sample_surroundings =
     \<lparr>su_machine = sample_machine, su_floating_point = exact_floating_point, su_sticks = exact_stick_arithmetic,
      su_text = unary_json_text, su_clock = int, su_momentum = 0\<rparr>"

definition sample_keyboard :: iokit_device where
  "sample_keyboard =
     \<lparr>io_parameters = initialization_parameters_default\<lparr>ip_vendor_id := 1452, ip_is_keyboard := True\<rparr>,
      io_name = ''keyboard'', io_short_name = ''keyboard'', io_led = None\<rparr>"

lemma default_configuration:
  "\<exists>c p. create_configuration unary_json_text loose missing_file = Inr c \<and> get_selected_profile c = Some p \<and>
    pfl_devices p = []"
proof -
  obtain c c0 where c: "create_configuration unary_json_text loose missing_file = Inr c"
    "initial_configuration loose = Inr c0" "length (cfg_profiles c) = 1"
    using missing_file_configuration[of loose unary_json_text] by blast
  then obtain p where p: "cfg_profiles c = [p]" by (auto simp: length_Suc_conv)
  have "cfg_profiles (load_configuration unary_json_text missing_file c0) = []"
    using c(2) by (auto simp: load_configuration_def missing_file_def initial_configuration_def)
  then have created: "create_profile unary_json_text loose
      (JObject [(''name'', JString ''Default profile''), (''selected'', JBool True)]) = Inr p"
    using c(1,2) p by (auto simp: create_configuration_def Let_def)
  have "pfl_devices p = []"
    using created
    by (auto simp: create_profile_def profile_item_def update_array_def array_result_def requires_object_def json_find_def)
  moreover have "get_selected_profile c = Some p" using p by (simp add: get_selected_profile_def)
  ultimately show ?thesis using c(1) by blast
qed

text \<open>The virtual keyboard becomes ready, a keyboard is connected, and the waiting functions run.\<close>

definition sample_entry :: grabber_entry where
  "sample_entry = create_entry 7 sample_keyboard"

lemma sample_entry_facts:
  "\<not> ge_virtual sample_entry" "\<not> ge_disabled sample_entry" "\<not> is_ignored_by_default (ge_identifiers sample_entry)"
  "\<not> di_is_pointing_device (ge_identifiers sample_entry)" "\<not> di_is_game_pad (ge_identifiers sample_entry)"
  "iokit_identifiers (ge_identifiers sample_entry)" "\<not> dp_is_built_in_keyboard (ge_properties sample_entry)"
  "ge_probable_stuck_events sample_entry = psem_initial" "ge_device_id sample_entry = 7"
  by (simp_all add: sample_entry_def create_entry_def sample_keyboard_def make_device_properties_def Let_def
      initialization_parameters_default_def make_device_identifiers_def is_karabiner_virtual_hid_device_def
      is_ignored_by_default_def iokit_identifiers_def identifiers_valid_def members_ok_def touch_bar_product_def)

lemma notification_keeps_needs:
  "connector_needs_virtual_hid_pointing (gb_connector (with_notification h g)) =
    connector_needs_virtual_hid_pointing (gb_connector g)"
proof -
  have "manipulator_needs_virtual_hid_pointing (notify_poster h m) = manipulator_needs_virtual_hid_pointing m"
    for m :: "'a manipulator"
    by (cases m) simp_all
  then have "list_ex manipulator_needs_virtual_hid_pointing (map (notify_poster h) ms) =
      list_ex manipulator_needs_virtual_hid_pointing ms" for ms :: "'a manipulator list"
    by (induction ms) simp_all
  then have "manager_needs_virtual_hid_pointing (mss[3 := map (notify_poster h) (mss ! 3)] ! i) =
      manager_needs_virtual_hid_pointing (mss ! i)" for mss :: "'a manipulator list list" and i
    by (cases "3 < length mss")
      (simp_all add: manager_needs_virtual_hid_pointing_def nth_list_update list_update_beyond)
  then show ?thesis by (simp add: connector_needs_virtual_hid_pointing_def with_notification_def)
qed

lemma grab_device_rest:
  "gb_jobs (grab_device G d g) = gb_jobs g" "gb_configuration (grab_device G d g) = gb_configuration g"
  "gb_devices_state (grab_device G d g) = gb_devices_state g"
  "gb_system_sleeping (grab_device G d g) = gb_system_sleeping g"
  "connector_needs_virtual_hid_pointing (gb_connector (grab_device G d g)) =
    connector_needs_virtual_hid_pointing (gb_connector g)"
  by (simp_all add: grab_device_def Let_def grabber_frame notification_keeps_needs split: option.splits)

lemma sample_grabber_run:
  "\<exists>g e. grabber_reachable sample_surroundings g \<and> find_entry 7 g = Some e \<and> Gj_grab_devices \<notin> set (gb_jobs g) \<and>
     hm_requested (ge_monitor e) = Some opt_seize"
proof -
  let ?G = sample_surroundings
  obtain c p where c: "create_configuration unary_json_text loose missing_file = Inr c"
    "get_selected_profile c = Some p" "pfl_devices p = []"
    using default_configuration by blast
  have jtext: "su_text ?G = unary_json_text" by (simp add: sample_surroundings_def)
  obtain g0 where g0: "grabber_initial ?G [] c = Some g0" "gb_entries g0 = []" "gb_jobs g0 = []"
    "gb_devices_state g0 = \<lparr>virtual_hid_keyboard_ready = False, virtual_hid_pointing_ready = False\<rparr>"
    "gb_configuration g0 = c" "\<not> gb_system_sleeping g0" "\<not> connector_needs_virtual_hid_pointing (gb_connector g0)"
    by (simp add: grabber_initial_def initial_connector_def emplace_back_next_connection_def
        emplace_back_connection_def Let_def push_back_manipulator_def connector_needs_virtual_hid_pointing_def
        manager_needs_virtual_hid_pointing_def)
  have r0: "grabber_reachable ?G g0" by (rule gr_initial[OF _ g0(1)]) (simp add: jtext c(1))
  define g1 where "g1 = keyboard_ready ?G True g0"
  define g2 where "g2 = device_matched ?G 7 sample_keyboard g1"
  have r2: "grabber_reachable ?G g2" unfolding g2_def g1_def by (intro gr_moves[OF _ gm_matched] gr_moves[OF _ gm_keyboard_ready] r0)
  have settings: "device_settings unary_json_text c i = Some (unknown_device sample_fn_function_keys i)"
    if "iokit_identifiers i" for i
    using device_settings_known[OF that sample_function_keys_load c(2)] c(3) by (simp add: profile_find_device_def)
  have seize: "needs_to_seize_device unary_json_text c sample_entry"
    by (simp add: needs_to_seize_device_def sample_entry_facts device_setting_def settings unknown_device_ignored)
  have no_need: "\<not> entry_is_built_in_keyboard unary_json_text c sample_entry"
    by (simp add: entry_is_built_in_keyboard_def determine_is_built_in_keyboard_def environment_configuration_def
        Let_def device_setting_def settings unknown_device_settings sample_entry_facts)
  have g2: "gb_entries g2 = [(7, sample_entry)]" "gb_configuration g2 = c" "\<not> gb_system_sleeping g2"
    "virtual_hid_keyboard_ready (gb_devices_state g2)"
    "gb_jobs g2 = [Gj_post_virtual_hid_devices_state, Gj_grab_devices, Gj_grab_devices]"
    "gb_connector g2 = gb_connector g0"
    using g0 no_need sample_entry_facts(2)
    by (simp_all add: g2_def g1_def device_matched_def keyboard_ready_def reconsider_devices_def Let_def
        update_devices_disabled_def update_all_entries_def grabber_frame sample_entry_def[symmetric] jtext
        set_disabled_def erase_if_none job_of_device_def)
  define g3 where "g3 = post_virtual_event ?G 0 (Ev_virtual_hid_devices_state_changed (gb_devices_state g2))
      (g2\<lparr>gb_jobs := [Gj_grab_devices, Gj_grab_devices]\<rparr>)"
  have r3: "grabber_reachable ?G g3"
    by (rule gr_moves[OF r2 gm_job]) (simp add: run_next_job_def g2(5) g3_def)
  have g3: "gb_entries g3 = [(7, sample_entry)]" "gb_configuration g3 = c" "\<not> gb_system_sleeping g3"
    "virtual_hid_keyboard_ready (gb_devices_state g3)"
    "gb_jobs g3 = [Gj_grab_devices, Gj_grab_devices, Gj_input_event_arrived]"
    "\<not> connector_needs_virtual_hid_pointing (gb_connector g3)"
    using g2 g0(7) by (simp_all add: g3_def grabber_frame, simp add: post_virtual_event_def enqueue_def push_event_def
        read_clock_def push_merged_def connector_needs_virtual_hid_pointing_def split: prod.splits)
  have request: "hm_requested (ge_monitor (request_for ?G g e)) = Some opt_seize"
    if "gb_entries g = [(7, e)]" "entry_facts e = entry_facts sample_entry"
      "ge_probable_stuck_events e = psem_initial" "gb_configuration g = c" "\<not> gb_system_sleeping g"
      "virtual_hid_keyboard_ready (gb_devices_state g)" "\<not> connector_needs_virtual_hid_pointing (gb_connector g)"
    for g e
  proof -
    have props: "ge_properties e = ge_properties sample_entry" and s: "needs_to_seize_device unary_json_text c e"
      using that(2) seize by (auto simp: entry_facts_def needs_to_seize_device_def split: if_splits)
    have "fst (make_grabbable_state ?G g e) = gs_grabbable"
      using that(1,3-7) s props sample_entry_facts
      by (simp add: make_grabbable_state_def needs_to_observe_device_def jtext find_probable_stuck_event_def
          psem_initial_def needs_prepare_virtual_hid_pointing_device_def)
    then show ?thesis
      using s props sample_entry_facts(1) that(4)
      by (simp add: request_for_def async_start_queue_value_monitor_def jtext monitor_async_start_def)
  qed
  have one: "gb_entries (grab_devices ?G g) = [(7, request_for ?G g e)]" if "gb_entries g = [(7, e)]" for g e
    using that by (simp add: grab_devices_def entries_grab_device find_entry_def change_entry_def)
  have rest: "gb_jobs (grab_devices ?G g) = gb_jobs g" "gb_configuration (grab_devices ?G g) = gb_configuration g"
      "gb_devices_state (grab_devices ?G g) = gb_devices_state g"
      "gb_system_sleeping (grab_devices ?G g) = gb_system_sleeping g"
      "connector_needs_virtual_hid_pointing (gb_connector (grab_devices ?G g)) =
        connector_needs_virtual_hid_pointing (gb_connector g)" if "gb_entries g = [(7, e)]" for g e
    using that by (simp_all add: grab_devices_def grab_device_rest)
  have same: "entry_facts (request_for ?G g sample_entry) = entry_facts sample_entry"
    "ge_probable_stuck_events (request_for ?G g sample_entry) = psem_initial" for g
    by (rule request_for_ok(1))
      (simp add: request_for_def async_start_queue_value_monitor_def async_stop_queue_value_monitor_def
        sample_entry_facts(8) split: grabbable_state.splits)
  define g4 where "g4 = grab_devices ?G (g3\<lparr>gb_jobs := [Gj_grab_devices, Gj_input_event_arrived]\<rparr>)"
  define g5 where "g5 = grab_devices ?G (g4\<lparr>gb_jobs := [Gj_input_event_arrived]\<rparr>)"
  have r4: "grabber_reachable ?G g4"
    by (rule gr_moves[OF r3 gm_job]) (simp add: run_next_job_def g3(5) g4_def)
  obtain e4 where g4: "gb_entries g4 = [(7, e4)]" "entry_facts e4 = entry_facts sample_entry"
    "ge_probable_stuck_events e4 = psem_initial" "gb_configuration g4 = c" "\<not> gb_system_sleeping g4"
    "virtual_hid_keyboard_ready (gb_devices_state g4)" "\<not> connector_needs_virtual_hid_pointing (gb_connector g4)"
    "gb_jobs g4 = [Gj_grab_devices, Gj_input_event_arrived]"
    using g3 same one[of "g3\<lparr>gb_jobs := [Gj_grab_devices, Gj_input_event_arrived]\<rparr>" sample_entry]
      rest[of "g3\<lparr>gb_jobs := [Gj_grab_devices, Gj_input_event_arrived]\<rparr>" sample_entry]
    by (simp add: g4_def)
  have r5: "grabber_reachable ?G g5"
    by (rule gr_moves[OF r4 gm_job]) (simp add: run_next_job_def g4(8) g5_def)
  have "gb_entries g5 = [(7, request_for ?G (g4\<lparr>gb_jobs := [Gj_input_event_arrived]\<rparr>) e4)]"
    "gb_jobs g5 = [Gj_input_event_arrived]"
    using g4(1) one[of "g4\<lparr>gb_jobs := [Gj_input_event_arrived]\<rparr>" e4]
      rest(1)[of "g4\<lparr>gb_jobs := [Gj_input_event_arrived]\<rparr>" e4] by (simp_all add: g5_def)
  moreover have "hm_requested (ge_monitor (request_for ?G (g4\<lparr>gb_jobs := [Gj_input_event_arrived]\<rparr>) e4)) = Some opt_seize"
    using g4 by (intro request) simp_all
  ultimately show ?thesis using r5 by (auto simp: find_entry_def)
qed

theorem keyboard_is_disabled_when_asked_witness:
  "\<exists>g e. grabber_reachable sample_surroundings g \<and> find_entry 7 g = Some e \<and>
     (ge_disabled e \<longleftrightarrow> \<not> ge_virtual e \<and>
        entry_is_built_in_keyboard (su_text sample_surroundings) (gb_configuration g) e \<and>
        (\<exists>e'\<in>snd ` set (gb_entries g).
           is_disable_built_in_keyboard_if_exists (su_text sample_surroundings) (gb_configuration g) e'))"
proof -
  obtain g e where g: "grabber_reachable sample_surroundings g" "find_entry 7 g = Some e"
    using sample_grabber_run by blast
  from keyboard_is_disabled_when_asked[OF g] g show ?thesis by blast
qed

theorem devices_are_seized_only_when_allowed_witness:
  "\<exists>g e. grabber_reachable sample_surroundings g \<and> find_entry 7 g = Some e \<and>
     hm_requested (ge_monitor e) = Some opt_seize \<and> \<not> ge_virtual e \<and> \<not> gb_system_sleeping g \<and>
     virtual_hid_keyboard_ready (gb_devices_state g)"
proof -
  obtain g e where g: "grabber_reachable sample_surroundings g" "find_entry 7 g = Some e"
    "Gj_grab_devices \<notin> set (gb_jobs g)" "hm_requested (ge_monitor e) = Some opt_seize"
    using sample_grabber_run by blast
  from devices_are_seized_only_when_allowed[OF g] g show ?thesis by blast
qed

end
