(* ===== verification/Grabber_Liveness.thy ===== *)
theory Grabber_Liveness
  imports Grabber_Invariants
begin

text \<open>
  What becomes of events: only what a seized and enabled device sends gets into the merged queue, and
  as long as an event waits in the input queue of a manager, a function of the dispatcher that looks
  at the queues is waiting too.
\<close>

subsection \<open>What gets into the merged queue\<close>

definition merged_queue :: "'k grabber \<Rightarrow> event_queue" where
  "merged_queue g = ct_queues (gb_connector g) ! 0"

lemma merged_push:
  assumes "ct_queues (gb_connector g) \<noteq> []"
  shows "q_events (merged_queue (push_merged G en g)) =
      q_events (merged_queue g) @ [delay_entry (q_time_stamp_delay (merged_queue g)) en]"
    "q_time_stamp_delay (merged_queue (push_merged G en g)) = q_time_stamp_delay (merged_queue g)"
    "ct_queues (gb_connector (push_merged G en g)) \<noteq> []"
  using assms by (simp_all add: merged_queue_def push_merged_def emplace_back_entry_def split: prod.splits)

lemma merged_pushes:
  assumes "ct_queues (gb_connector g) \<noteq> []"
  shows "q_events (merged_queue (fold (\<lambda>en. push_merged G (f en)) ens g)) =
    q_events (merged_queue g) @ map (\<lambda>en. delay_entry (q_time_stamp_delay (merged_queue g)) (f en)) ens"
  using assms
proof (induction ens arbitrary: g)
  case (Cons en ens)
  show ?case using Cons.IH[OF merged_push(3)[OF Cons.prems]] merged_push[OF Cons.prems] by simp
qed simp

lemma merged_frame [grabber_frame]:
  "merged_queue (change_entry d h g) = merged_queue g" "merged_queue (with_notification k g) = merged_queue g"
  "merged_queue (enqueue j g) = merged_queue g" "merged_queue (grab_device G d g) = merged_queue g"
  by (simp_all add: merged_queue_def grab_device_def Let_def grabber_frame split: option.splits)

lemma mset_sort_events: "mset (q_events (sort_events q)) = mset (q_events q)"
  using sort_events_from_spec[OF sort_events_from_start, of "q_events q"] by (simp add: sort_events_def)

lemma merged_sort: "mset (q_events (merged_queue (sort_merged g))) = mset (q_events (merged_queue g))"
  by (cases "ct_queues (gb_connector g)") (simp_all add: merged_queue_def sort_merged_def mset_sort_events)

text \<open>
  C6. What a device that is not virtual sends gets into the merged queue, unchanged but for the delay
  of the queue, if it is seized and enabled, and else nothing does; of what waits there nothing gets
  lost: it is reordered at most.
\<close>

theorem only_seized_enabled_devices_are_heard:
  assumes "find_entry d g = Some e" "\<not> ge_virtual e" "ct_queues (gb_connector g) \<noteq> []"
  shows "mset (q_events (merged_queue (values_arrived G d ens g))) =
    mset (q_events (merged_queue g)) +
    (if ge_disabled e \<or> \<not> entry_seized e then {#}
     else mset (map (\<lambda>en. delay_entry (q_time_stamp_delay (merged_queue g)) (requeued en)) ens))"
proof -
  obtain regrab s where s: "stuck_updates (if entry_seized e then seized else observed) ens
      (ge_probable_stuck_events e) = (regrab, s)" by force
  define g1 where "g1 = change_entry d (\<lambda>e. e\<lparr>ge_probable_stuck_events := s\<rparr>) g"
  define g2 where "g2 = (if forwards e then fold (\<lambda>en. push_merged G (requeued en)) ens g1 else g1)"
  define g4 where "g4 = (if regrab then grab_device G d (sort_merged g2) else sort_merged g2)"
  have "ct_queues (gb_connector g1) \<noteq> []" using assms(3) by (simp add: g1_def grabber_frame)
  from merged_pushes[OF this, of G requeued ens]
  have "mset (q_events (merged_queue g2)) = mset (q_events (merged_queue g)) +
    (if ge_disabled e \<or> \<not> entry_seized e then {#}
     else mset (map (\<lambda>en. delay_entry (q_time_stamp_delay (merged_queue g)) (requeued en)) ens))"
    by (auto simp: g2_def forwards_def g1_def merged_frame)
  then have "mset (q_events (merged_queue g4)) = mset (q_events (merged_queue g)) +
    (if ge_disabled e \<or> \<not> entry_seized e then {#}
     else mset (map (\<lambda>en. delay_entry (q_time_stamp_delay (merged_queue g)) (requeued en)) ens))"
    by (simp only: g4_def merged_frame merged_sort split: if_split) simp
  moreover have "values_arrived G d ens g =
      (if forwards e \<and> ens \<noteq> [] then enqueue Gj_input_event_arrived g4 else g4)"
    using assms(1,2) s by (simp add: values_arrived_def Let_def g4_def g2_def g1_def)
  ultimately show ?thesis by (auto simp: merged_frame)
qed

subsection \<open>Events that wait\<close>

definition nothing_waits :: "'k grabber \<Rightarrow> bool" where
  "nothing_waits g \<longleftrightarrow>
     list_all (\<lambda>n. q_events (ct_queues (gb_connector g) ! cn_input n) = []) (ct_connections (gb_connector g))"

fun looks_at_queues :: "grabber_job \<Rightarrow> bool" where
  "looks_at_queues Gj_input_event_arrived = True"
| "looks_at_queues (Gj_manipulate _) = True"
| "looks_at_queues _ = False"

definition will_look :: "'k grabber \<Rightarrow> bool" where
  "will_look g \<longleftrightarrow> list_ex looks_at_queues (gb_jobs g) \<or> list_ex (\<lambda>x. looks_at_queues (snd x)) (gb_delayed g)"

definition not_stranded :: "'k grabber \<Rightarrow> bool" where
  "not_stranded g \<longleftrightarrow> will_look g \<or> nothing_waits g"

definition lively :: "'k grabber \<Rightarrow> 'k grabber \<Rightarrow> bool" where
  "lively g g' \<longleftrightarrow> (will_look g \<longrightarrow> will_look g') \<and> (nothing_waits g \<longrightarrow> will_look g' \<or> nothing_waits g')"

lemma lively_trans: "lively g g' \<Longrightarrow> lively g' g'' \<Longrightarrow> lively g g''"
  by (auto simp: lively_def)

lemma lively_refl: "lively g g"
  by (simp add: lively_def)

lemma lively_keeps: "lively g g' \<Longrightarrow> not_stranded g \<Longrightarrow> not_stranded g'"
  by (auto simp: lively_def not_stranded_def)

lemma lively_looks: "Gj_input_event_arrived \<in> set (gb_jobs g') \<Longrightarrow> lively g g'"
  by (auto simp: lively_def will_look_def list_ex_iff intro!: bexI[of _ Gj_input_event_arrived])

lemma lively_same_queues:
  assumes "ct_connections (gb_connector g') = ct_connections (gb_connector g)"
    "\<And>i. q_events (ct_queues (gb_connector g') ! i) = [] \<longleftrightarrow> q_events (ct_queues (gb_connector g) ! i) = []"
    "\<And>j. j \<in> set (gb_jobs g) \<Longrightarrow> looks_at_queues j \<Longrightarrow> j \<in> set (gb_jobs g')" "set (gb_delayed g) \<subseteq> set (gb_delayed g')"
  shows "lively g g'"
  using assms by (auto simp: lively_def nothing_waits_def will_look_def list_ex_iff)

lemma lively_fold: "(\<And>x g. lively g (f x g)) \<Longrightarrow> lively g (fold f xs g)"
proof (induction xs arbitrary: g)
  case (Cons x xs)
  then show ?case using lively_trans by fastforce
qed (simp add: lively_refl)

lemma lively_enqueue: "lively g (enqueue j g)" "lively g (change_entry d h g)" "lively g (update_all_entries k g)"
  "lively g (update_virtual_hid_pointing G g)" "lively g (update_virtual_hid_keyboard g)" "lively g (call_client c g)"
  "lively g (output_devices_json g)" "lively g (with_notification l g)" "lively g (reconsider_devices G' g)"
  "lively g (enqueue_after ms j g)"
  by (rule lively_same_queues;
      force simp: grabber_frame reconsider_devices_def update_devices_disabled_def enqueue_after_def)+

text \<open>The same after something else that is lively.\<close>

lemmas lively_chain = lively_enqueue[THEN lively_trans[rotated]]

lemma lively_post: "lively g (post_virtual_event G d ev g')"
  by (rule lively_looks) (simp add: grabber_frame)

lemma posted_led_pointing:
  "Gj_input_event_arrived \<in> set (gb_jobs (update_virtual_hid_pointing G (update_caps_lock_led (post_virtual_event G' d ev g))))"
  "Gj_input_event_arrived \<in> set (gb_jobs (update_virtual_hid_pointing G (post_virtual_event G' d ev g)))"
  "Gj_input_event_arrived \<in> set (gb_jobs (update_caps_lock_led (post_virtual_event G' d ev g)))"
  by (simp_all add: grabber_frame update_caps_lock_led_def)

lemma lively_signals: "lively g (monitor_started G d g)" "lively g (monitor_stopped G d g)"
proof -
  show "lively g (monitor_started G d g)"
    by (auto simp: monitor_started_def Let_def post_device_grabbed_event_def posted_led_pointing
        intro: lively_enqueue lively_looks split: option.splits)
  show "lively g (monitor_stopped G d g)"
    by (auto simp: monitor_stopped_def Let_def post_device_ungrabbed_event_def posted_led_pointing
        intro: lively_enqueue lively_looks split: option.splits)
qed

lemma lively_grab_device: "lively g (grab_device G d g)"
  by (auto simp: grab_device_def Let_def intro: lively_trans lively_enqueue lively_refl split: option.splits)

lemma lively_sort: "lively g (sort_merged g)"
proof -
  have "q_events (sort_events q) = [] \<longleftrightarrow> q_events q = []" for q
    using mset_sort_events[of q] by (metis mset_zero_iff)
  then show ?thesis
    by (intro lively_same_queues)
      (cases "ct_queues (gb_connector g)"; auto simp: sort_merged_def nth_Cons split: nat.splits)+
qed

lemma lively_values_arrived: "lively g (values_arrived G d ens g)"
proof -
  have caps: "lively g (caps_lock_event_arrived G en g)" for en g
    by (auto simp: caps_lock_event_arrived_def post_caps_lock_state_changed_event_def posted_led_pointing
        lively_refl intro: lively_looks split: event.splits)
  show ?thesis
  proof (cases "find_entry d g")
    case (Some e)
    obtain regrab s where s: "stuck_updates (if entry_seized e then seized else observed) ens
        (ge_probable_stuck_events e) = (regrab, s)" by force
    define g1 where "g1 = change_entry d (\<lambda>e. e\<lparr>ge_probable_stuck_events := s\<rparr>) g"
    have g1: "lively g g1" unfolding g1_def by (rule lively_enqueue)
    have "lively g (if regrab then grab_device G d (sort_merged g1) else sort_merged g1)"
      using g1 lively_sort[of g1] lively_grab_device[of "sort_merged g1" G d] by (auto intro: lively_trans)
    moreover have "lively g (enqueue Gj_input_event_arrived g')" for g'
      by (rule lively_looks) (simp add: grabber_frame)
    moreover have "\<not> (forwards e \<and> ens \<noteq> []) \<Longrightarrow> ge_virtual e \<or> values_arrived G d ens g =
        (if regrab then grab_device G d (sort_merged g1) else sort_merged g1)"
      using Some s by (auto simp: values_arrived_def Let_def g1_def)
    ultimately show ?thesis
      using Some s lively_fold[OF caps] by (cases "forwards e \<and> ens \<noteq> []") (auto simp: values_arrived_def Let_def lively_refl)
  qed (simp add: values_arrived_def lively_refl)
qed

lemma lively_device_values: "lively g (device_values_arrived G d vs g)"
proof -
  have step: "lively g (fold (\<lambda>en. enqueue (Gj_stick d en)) sticks
      (values_arrived G d ens ((change_entry d h g)\<lparr>gb_hat := hat\<rparr>)))" for sticks ens h hat
  proof -
    have "lively (change_entry d h g) ((change_entry d h g)\<lparr>gb_hat := hat\<rparr>)"
      by (rule lively_same_queues) simp_all
    note changed = lively_trans[OF lively_enqueue(2) this]
    show ?thesis by (rule lively_trans[OF lively_trans[OF changed lively_values_arrived] lively_fold[OF lively_enqueue(1)]])
  qed
  show ?thesis
    by (auto simp: device_values_arrived_def lively_refl intro: step split: option.splits prod.splits)
qed

lemma lively_stick_timer: "lively g (stick_timer G d g)"
  by (auto simp: stick_timer_def lively_refl split: option.splits prod.splits
      intro: lively_trans[OF lively_enqueue(2) lively_fold[OF lively_enqueue(1)]])

lemma lively_monitor: "lively g (monitor_works d ev g)" "lively g (monitor_has_values d vs g)"
proof -
  show "lively g (monitor_works d ev g)"
    by (auto simp: monitor_works_def lively_refl split: option.splits prod.splits
        intro: lively_trans[OF lively_enqueue(2) lively_fold[OF lively_enqueue(1)]])
  show "lively g (monitor_has_values d vs g)"
    by (auto simp: monitor_has_values_def lively_refl lively_enqueue split: option.splits)
qed

lemma lively_drop_jobs: "lively g (drop_jobs (job_of_device d) g)"
proof -
  have "looks_at_queues j \<Longrightarrow> \<not> job_of_device d j" for j
    by (cases j) (simp_all add: job_of_device_def)
  then show ?thesis by (intro lively_same_queues) (auto simp: grabber_frame)
qed

lemma lively_matched: "lively g (device_matched G d io g)"
proof -
  let ?g = "(drop_jobs (job_of_device d) g)\<lparr>gb_entries := put_entry d (create_entry d io) (gb_entries g)\<rparr>"
  have "lively (drop_jobs (job_of_device d) g) ?g" by (rule lively_same_queues) simp_all
  then have "lively g ?g" by (rule lively_trans[OF lively_drop_jobs])
  then show ?thesis
    unfolding device_matched_def Let_def by (intro lively_chain)
qed

lemma lively_terminated: "lively g (device_terminated G d g)"
  by (rule lively_looks)
    (simp add: device_terminated_def Let_def reconsider_devices_def update_devices_disabled_def grabber_frame
      post_device_ungrabbed_event_def)

lemma lively_ready: "lively g (keyboard_ready G ready g)" "lively g (pointing_ready G ready g)"
    "lively g (client_connected G g)" "lively g (set_system_sleeping G b g)" "lively g (grabber_stop g)"
    "lively g (pointing_device_event_arrived G t ev g)"
proof -
  have a: "lively g (g\<lparr>gb_devices_state := x\<rparr>)" "lively g (g\<lparr>gb_system_sleeping := b\<rparr>)" for g :: "'a grabber" and x b
    by (rule lively_same_queues; simp)+
  show "lively g (keyboard_ready G ready g)" "lively g (pointing_ready G ready g)"
    unfolding keyboard_ready_def pointing_ready_def Let_def
    by (auto intro!: lively_chain a lively_refl)
  show "lively g (client_connected G g)" "lively g (set_system_sleeping G b g)" "lively g (grabber_stop g)"
    unfolding client_connected_def set_system_sleeping_def grabber_stop_def
    by (intro lively_chain a lively_refl)+
  show "lively g (pointing_device_event_arrived G t ev g)"
    by (rule lively_looks) (simp add: pointing_device_event_arrived_def read_clock_def grabber_frame)
qed

lemma set_queue_configuration_events:
  "q_events (qs[k := queue_set_core_configuration cc (qs ! k)] ! i) = q_events (qs ! i)"
  by (cases "k < length qs") (auto simp: nth_list_update queue_set_core_configuration_def list_update_beyond)

lemma set_core_configuration_steps:
  fixes c :: "'k connector" and cc :: core_configuration
  defines "step \<equiv> (\<lambda>c :: 'k connector. \<lambda>n.
         let qs = (ct_queues c)[cn_input n := queue_set_core_configuration cc (ct_queues c ! cn_input n)]
         in c\<lparr>ct_queues := qs[cn_output n := queue_set_core_configuration cc (qs ! cn_output n)]\<rparr>)"
  shows "q_events (ct_queues (foldl step c ns) ! i) = q_events (ct_queues c ! i)"
    "ct_connections (foldl step c ns) = ct_connections c"
  unfolding step_def by (induction ns arbitrary: c) (simp_all add: Let_def set_queue_configuration_events)

lemma set_core_configuration_events:
  "q_events (ct_queues (connector_set_core_configuration cc c) ! i) = q_events (ct_queues c ! i)"
  "ct_connections (connector_set_core_configuration cc c) = ct_connections c"
  unfolding connector_set_core_configuration_def by (rule set_core_configuration_steps)+

lemma lively_managers: "lively g (with_manager i f g)" "lively g (update_fn_manager G g)" "lively g (post_events G g)"
    "lively g (grabber_set_system_preferences G spp g)"
proof -
  show "lively g (with_manager i f g)" "lively g (update_fn_manager G g)"
    by (rule lively_same_queues; simp add: grabber_frame)+
  show "lively g (post_events G g)"
    by (rule lively_same_queues)
      (auto simp: post_events_def read_clock_def Let_def grabber_frame enqueue_after_def pv_async_post_events_def
        split: option.splits prod.splits)
  show "lively g (grabber_set_system_preferences G spp g)"
    by (rule lively_same_queues) (simp_all add: grabber_set_system_preferences_def grabber_frame)
qed

lemma lively_updated: "lively g (core_configuration_updated G c g)"
proof -
  define g1 where "g1 = update_all_entries (entry_set_core_configuration (su_text G) (su_platform G) c)
      (g\<lparr>gb_configuration := c\<rparr>)"
  define g2 where "g2 = g1\<lparr>gb_connector := connector_set_core_configuration
      (environment_configuration (su_text G) c) (gb_connector g1)\<rparr>"
  have g2: "lively g g2"
    by (rule lively_same_queues) (simp_all add: g2_def g1_def grabber_frame set_core_configuration_events)
  have "lively g2 (g2\<lparr>gb_matched_delay := x\<rparr>)" for x by (rule lively_same_queues) simp_all
  from lively_trans[OF g2 this] have g3: "lively g (g2\<lparr>gb_matched_delay := x\<rparr>)" for x .
  show ?thesis
  proof (cases "get_selected_profile c")
    case None
    then show ?thesis using g2 by (simp add: core_configuration_updated_def Let_def g1_def[symmetric] g2_def[symmetric])
  next
    case (Some p)
    then show ?thesis
      unfolding core_configuration_updated_def Let_def g1_def[symmetric] g2_def[symmetric]
      by simp (intro lively_chain lively_managers[THEN lively_trans[rotated]] g3)
  qed
qed

text \<open>Looking at the queues empties them or looks again later.\<close>

lemma no_min_no_events:
  assumes "min_input_event_time_stamp c = None"
  shows "list_all (\<lambda>n. q_events (ct_queues c ! cn_input n) = []) (ct_connections c)"
proof -
  define f where "f = (\<lambda>result (n :: connection).
         case input_event_time_stamp_with_input_delay (ct_queues c ! cn_input n) of
           None \<Rightarrow> result
         | Some t \<Rightarrow> (case result of None \<Rightarrow> Some t | Some r \<Rightarrow> if t < r then Some t else result))"
  have some: "foldl f (Some r) ns \<noteq> None" for r ns
  proof (induction ns arbitrary: r)
    case (Cons n ns)
    have "\<exists>r'. f (Some r) n = Some r'" by (auto simp: f_def split: option.splits)
    then show ?case using Cons.IH by auto
  qed simp
  have first: "f None n = None \<Longrightarrow> q_events (ct_queues c ! cn_input n) = []" for n
    by (auto simp: f_def input_event_time_stamp_with_input_delay_def split: option.splits list.splits)
  have "foldl f None ns = None \<Longrightarrow> list_all (\<lambda>n. q_events (ct_queues c ! cn_input n) = []) ns" for ns
  proof (induction ns)
    case (Cons n ns)
    then show ?case using some first[of n] by (cases "f None n") auto
  qed simp
  with assms show ?thesis by (simp add: min_input_event_time_stamp_def f_def)
qed

lemma manipulate_not_stranded:
  assumes "grabber_manipulate G now g = Some g'"
  shows "not_stranded g'"
proof -
  have looks: "will_look (enqueue_after ms (Gj_manipulate t) g)" for ms t and g :: "'a grabber"
    by (simp add: will_look_def enqueue_after_def enqueue_def)
  have quiet: "min_input_event_time_stamp (gb_connector g) = None \<Longrightarrow> nothing_waits g" for g :: "'a grabber"
    unfolding nothing_waits_def by (rule no_min_no_events)
  show ?thesis
    using assms by (auto simp: grabber_manipulate_def Let_def not_stranded_def looks quiet split: option.splits)
qed

lemma run_job_lively: "\<not> looks_at_queues j \<Longrightarrow> run_job G j g = Some g' \<Longrightarrow> lively g g'"
proof -
  have grab: "lively g (grab_devices G g)"
    unfolding grab_devices_def by (rule lively_fold) (rule lively_grab_device)
  have ungrab: "lively g (ungrab_devices g)" unfolding ungrab_devices_def by (rule lively_enqueue)
  have var: "lively g (post_set_variable_event G v g)" for v
    by (rule lively_looks) (simp add: post_set_variable_event_def grabber_frame)
  have start: "lively g (grabber_start g)" unfolding grabber_start_def by (rule lively_enqueue)
  show "\<not> looks_at_queues j \<Longrightarrow> run_job G j g = Some g' \<Longrightarrow> lively g g'"
    using grab ungrab var start
    by (cases "(G, j, g)" rule: run_job.cases)
      (auto simp: lively_post lively_refl lively_managers lively_device_values lively_signals lively_values_arrived)
qed

lemma run_next_job_not_stranded:
  assumes "not_stranded g" "run_next_job G g = Some g'"
  shows "not_stranded g'"
proof (cases "gb_jobs g")
  case Nil
  then show ?thesis using assms by (simp add: run_next_job_def)
next
  case (Cons j js)
  have run: "run_job G j (g\<lparr>gb_jobs := js\<rparr>) = Some g'" using assms(2) Cons by (simp add: run_next_job_def)
  show ?thesis
  proof (cases "looks_at_queues j")
    case True
    then show ?thesis
      using run by (cases j rule: looks_at_queues.cases) (auto simp: split_beta dest: manipulate_not_stranded)
  next
    case False
    then have "lively g (g\<lparr>gb_jobs := js\<rparr>)" using Cons by (intro lively_same_queues) auto
    from lively_trans[OF this run_job_lively[OF False run]] assms(1) show ?thesis by (rule lively_keeps)
  qed
qed

lemma lively_delayed:
  assumes "gb_delayed g = xs @ (ms, j) # ys"
  shows "lively g (enqueue j (g\<lparr>gb_delayed := xs @ ys\<rparr>))"
  using assms by (auto simp: lively_def will_look_def nothing_waits_def enqueue_def)

lemma moves_not_stranded: "grabber_moves G g g' \<Longrightarrow> not_stranded g \<Longrightarrow> not_stranded g'"
proof (induction rule: grabber_moves.induct)
  case (gm_delayed g xs ms j ys)
  then show ?case using lively_delayed lively_keeps by blast
qed (auto intro: run_next_job_not_stranded lively_keeps[OF lively_matched]
    lively_keeps[OF lively_terminated] lively_keeps[OF lively_monitor(1)] lively_keeps[OF lively_monitor(2)]
    lively_keeps[OF lively_stick_timer] lively_keeps[OF lively_ready(1)] lively_keeps[OF lively_ready(2)]
    lively_keeps[OF lively_ready(3)] lively_keeps[OF lively_ready(4)] lively_keeps[OF lively_ready(5)]
    lively_keeps[OF lively_ready(6)] lively_keeps[OF lively_updated])

text \<open>
  C7. No event is stranded: in every run of the grabber, whenever an event waits in the input queue of
  a manager of manipulators, a function that will look at the queues is waiting in the dispatcher,
  now or after a delay.
\<close>

theorem no_event_is_stranded:
  assumes "grabber_reachable G g" "n \<in> set (ct_connections (gb_connector g))"
    and "q_events (ct_queues (gb_connector g) ! cn_input n) \<noteq> []"
  shows "\<exists>j\<in>set (gb_jobs g) \<union> snd ` set (gb_delayed g). j = Gj_input_event_arrived \<or> (\<exists>t. j = Gj_manipulate t)"
proof -
  have "not_stranded g"
    using assms(1)
  proof (induction rule: grabber_reachable.induct)
    case (gr_initial c machine_identifier g)
    have "nothing_waits g"
      using gr_initial(2) by (auto simp: grabber_initial_def initial_connector_def emplace_back_next_connection_def
          emplace_back_connection_def Let_def nothing_waits_def initial_queue_def split: option.splits)
    then show ?case by (simp add: not_stranded_def)
  qed (auto intro: moves_not_stranded lively_keeps[OF lively_enqueue(1)])
  moreover have "\<not> nothing_waits g" using assms(2,3) by (auto simp: nothing_waits_def list_all_iff)
  ultimately have "\<exists>j\<in>set (gb_jobs g) \<union> snd ` set (gb_delayed g). looks_at_queues j"
    by (auto simp: not_stranded_def will_look_def list_ex_iff)
  moreover have "looks_at_queues j \<Longrightarrow> j = Gj_input_event_arrived \<or> (\<exists>t. j = Gj_manipulate t)" for j
    by (cases j) simp_all
  ultimately show ?thesis by blast
qed

subsection \<open>Examples\<close>

definition sample_connector :: "(usage set \<times> hid_report_modifier set) connector" where
  "sample_connector =
     \<lparr>ct_connections = [\<lparr>cn_manager = 0, cn_input = 0, cn_output = 1\<rparr>, \<lparr>cn_manager = 1, cn_input = 1, cn_output = 2\<rparr>,
        \<lparr>cn_manager = 2, cn_input = 2, cn_output = 3\<rparr>, \<lparr>cn_manager = 3, cn_input = 3, cn_output = 4\<rparr>],
      ct_managers = [[], [], [], [M_post_event_to_virtual_devices
        (poster_initial (mc_hid (su_machine sample_surroundings)) (Some nmm_initial))]],
      ct_queues = replicate 5 (initial_queue [] (environment_configuration unary_json_text
        (case create_configuration unary_json_text loose missing_file of Inr c \<Rightarrow> c)))\<rparr>"

lemma sample_initial:
  "\<exists>g. grabber_reachable sample_surroundings g \<and> gb_connector g = sample_connector"
proof -
  obtain c where c: "create_configuration unary_json_text loose missing_file = Inr c"
    using default_configuration by blast
  then obtain g where "grabber_initial sample_surroundings [] c = Some g" "gb_connector g = sample_connector"
    by (simp add: grabber_initial_def initial_connector_def emplace_back_next_connection_def
        emplace_back_connection_def Let_def push_back_manipulator_def sample_connector_def sample_surroundings_def)
  moreover from this(1) have "grabber_reachable sample_surroundings g"
    using c by (intro gr_initial[of _ c]) (simp_all add: sample_surroundings_def)
  ultimately show ?thesis by blast
qed

theorem no_event_is_stranded_witness:
  "\<exists>g n j. grabber_reachable sample_surroundings g \<and> n \<in> set (ct_connections (gb_connector g)) \<and>
     q_events (ct_queues (gb_connector g) ! cn_input n) \<noteq> [] \<and>
     j \<in> set (gb_jobs g) \<union> snd ` set (gb_delayed g) \<and> (j = Gj_input_event_arrived \<or> (\<exists>t. j = Gj_manipulate t))"
proof -
  obtain g0 where g0: "grabber_reachable sample_surroundings g0" "gb_connector g0 = sample_connector"
    using sample_initial by blast
  define g where "g = pointing_device_event_arrived sample_surroundings single Ev_none g0"
  have r: "grabber_reachable sample_surroundings g" unfolding g_def by (rule gr_moves[OF g0(1) gm_event_tap])
  have n: "\<lparr>cn_manager = 0, cn_input = 0, cn_output = 1\<rparr> \<in> set (ct_connections (gb_connector g))"
    by (simp add: g_def pointing_device_event_arrived_def read_clock_def grabber_frame g0(2) sample_connector_def)
  have "ct_queues sample_connector \<noteq> []" by (simp add: sample_connector_def)
  then have e: "q_events (ct_queues (gb_connector g) ! cn_input \<lparr>cn_manager = 0, cn_input = 0, cn_output = 1\<rparr>) \<noteq> []"
    by (simp add: g_def pointing_device_event_arrived_def read_clock_def enqueue_def push_merged_def g0(2)
        emplace_back_entry_def split: prod.splits)
  from no_event_is_stranded[OF r n e] r n e show ?thesis by blast
qed

definition sample_seized_entry :: grabber_entry where
  "sample_seized_entry = sample_entry\<lparr>ge_monitor := monitor_initial\<lparr>hm_current := Some opt_seize\<rparr>\<rparr>"

theorem only_seized_enabled_devices_are_heard_witness:
  "\<exists>g. find_entry 7 g = Some sample_seized_entry \<and>
     mset (q_events (merged_queue (values_arrived sample_surroundings 7 [sample_key_entry (mse 7 4) key_down 5] g))) =
     {#sample_key_entry (mse 7 4) key_down 5#}"
proof -
  obtain g0 where g0: "grabber_reachable sample_surroundings g0" "gb_connector g0 = sample_connector"
    using sample_initial by blast
  define g where "g = g0\<lparr>gb_entries := [(7, sample_seized_entry)]\<rparr>"
  have found: "find_entry 7 g = Some sample_seized_entry" by (simp add: g_def find_entry_def)
  have v: "\<not> ge_virtual sample_seized_entry" "\<not> (ge_disabled sample_seized_entry \<or> \<not> entry_seized sample_seized_entry)"
    using sample_entry_facts by (simp_all add: sample_seized_entry_def entry_seized_def monitor_seized_def)
  have q: "ct_queues (gb_connector g) \<noteq> []" "q_events (merged_queue g) = []" "q_time_stamp_delay (merged_queue g) = 0"
    by (simp_all add: g_def g0(2) sample_connector_def merged_queue_def initial_queue_def)
  have same: "delay_entry 0 (requeued (sample_key_entry (mse 7 4) key_down 5)) = sample_key_entry (mse 7 4) key_down 5"
    by (simp add: delay_entry_def requeued_def sample_key_entry_def make_entry_def)
  have "mset (q_events (merged_queue (values_arrived sample_surroundings 7 [sample_key_entry (mse 7 4) key_down 5] g))) =
      {#sample_key_entry (mse 7 4) key_down 5#}"
    unfolding only_seized_enabled_devices_are_heard[OF found v(1) q(1)] using v(2) q(2,3) same by simp
  with found show ?thesis by blast
qed

end
