(* ===== verification/Messages.thy ===== *)
theory Messages
  imports Value_Json
begin

text \<open>
  What the processes send each other: the kinds of messages (\<open>src/share/types/operation_type.hpp\<close>), the
  JSON form of what they carry (the bundled \<open>pqrs/osx/system_preferences\<close>,
  \<open>frontmost_application_monitor\<close> and \<open>input_source\<close>), and the messages of
  \<open>src/share/grabber_client.hpp\<close>, \<open>src/share/console_user_server_client.hpp\<close> and
  \<open>session_monitor_receiver_client.hpp\<close>.

  Sockets and the MessagePack form of JSON are not modelled: a message is the JSON value that the
  receiver unpacks, or a buffer that is empty or does not unpack. The theory shows that what is
  carried is read back.
\<close>

subsection \<open>operation_type\<close>

datatype operation_type =
    op_none | op_console_user_id_changed | op_connect_console_user_server | op_system_preferences_updated
  | op_frontmost_application_changed | op_input_source_changed | op_get_manipulator_environment
  | op_manipulator_environment | op_connect_multitouch_extension | op_set_app_icon | op_set_variables
  | op_get_system_variables | op_system_variables | op_shell_command_execution | op_select_input_source
  | op_software_function | op_end

definition operation_type_names :: "(operation_type \<times> json) list" where
  "operation_type_names =
     [(op_none, JNull),
      (op_console_user_id_changed, JString ''console_user_id_changed''),
      (op_connect_console_user_server, JString ''connect_console_user_server''),
      (op_system_preferences_updated, JString ''system_preferences_updated''),
      (op_frontmost_application_changed, JString ''frontmost_application_changed''),
      (op_input_source_changed, JString ''input_source_changed''),
      (op_get_manipulator_environment, JString ''get_manipulator_environment''),
      (op_manipulator_environment, JString ''manipulator_environment''),
      (op_connect_multitouch_extension, JString ''connect_multitouch_extension''),
      (op_set_app_icon, JString ''set_app_icon''),
      (op_set_variables, JString ''set_variables''),
      (op_get_system_variables, JString ''get_system_variables''),
      (op_system_variables, JString ''system_variables''),
      (op_shell_command_execution, JString ''shell_command_execution''),
      (op_select_input_source, JString ''select_input_source''),
      (op_software_function, JString ''software_function''),
      (op_end, JString ''end_'')]"

text \<open>A value without an entry, as an operation or as JSON, becomes the first one.\<close>

definition operation_type_to_json :: "operation_type \<Rightarrow> json" where
  "operation_type_to_json t = (case map_of operation_type_names t of Some j \<Rightarrow> j | None \<Rightarrow> JNull)"

definition operation_type_from_json :: "json \<Rightarrow> operation_type" where
  "operation_type_from_json j =
     (case find (\<lambda>x. snd x = j) operation_type_names of Some x \<Rightarrow> fst x | None \<Rightarrow> op_none)"

lemma operation_type_round_trip [simp]: "operation_type_from_json (operation_type_to_json t) = t"
  by (cases t) (simp_all add: operation_type_to_json_def operation_type_from_json_def operation_type_names_def)

subsection \<open>Fields of a message\<close>

text \<open>\<open>at\<close> throws when the value is no object or has no such member.\<close>

definition json_member_at :: "string \<Rightarrow> json \<Rightarrow> json_error + json" where
  "json_member_at k j = (case json_find j k of Some v \<Rightarrow> Inr v | None \<Rightarrow> Inl Json_type_error)"

text \<open>\<open>get<uint32_t>\<close>.\<close>

fun json_get_uint32 :: "json \<Rightarrow> json_error + nat" where
  "json_get_uint32 (JInt n) = Inr (nat (n mod 2 ^ 32))"
| "json_get_uint32 (JFloat r) =
     (let n = truncate_double r in if 0 \<le> n \<and> n < 2 ^ 32 then Inr (nat n) else Inl Undefined_conversion)"
| "json_get_uint32 (JBool b) = Inr (if b then 1 else 0)"
| "json_get_uint32 _ = Inl Json_type_error"

text \<open>\<open>items()\<close> numbers the elements of an array and visits a plain value once, without a key.\<close>

fun json_all_items :: "json \<Rightarrow> (string \<times> json) list" where
  "json_all_items JNull = []"
| "json_all_items (JObject ms) = ms"
| "json_all_items (JArray js) = zip (map decimal [0..<length js]) js"
| "json_all_items j = [([], j)]"

datatype buffer = Empty_buffer | Broken_buffer | Packed json

definition op_message :: "operation_type \<Rightarrow> (string \<times> json) list \<Rightarrow> json" where
  "op_message t ms =
     JObject (fold (\<lambda>(k, v). put_member k v) ms [(''operation_type'', operation_type_to_json t)])"

lemma op_message_type [simp]:
  "\<forall>m\<in>set ms. fst m \<noteq> ''operation_type'' \<Longrightarrow>
     json_member_at ''operation_type'' (op_message t ms) = Inr (operation_type_to_json t)"
proof -
  have "map_of (fold (\<lambda>(k, v). put_member k v) ms xs) ''operation_type'' = map_of xs ''operation_type''"
    if "\<forall>m\<in>set ms. fst m \<noteq> ''operation_type''" for xs
    using that by (induction ms arbitrary: xs) auto
  then show "\<forall>m\<in>set ms. fst m \<noteq> ''operation_type'' \<Longrightarrow> ?thesis"
    by (simp add: op_message_def json_member_at_def json_find_def)
qed

lemma op_message_field [simp]:
  "k \<noteq> ''operation_type'' \<Longrightarrow> json_member_at k (op_message t [(k, v)]) = Inr v"
  by (simp add: op_message_def json_member_at_def json_find_def)

subsection \<open>The contract of a value in a message\<close>

text \<open>
  Sender and receiver of a message agree on how a value is written and read, for the values that can
  be stored; lists of values follow. Every kind of value below keeps the contract.
\<close>

locale carried =
  fixes to_json :: "'a \<Rightarrow> json"
    and from_json :: "json \<Rightarrow> json_error + 'a"
    and storable :: "'a \<Rightarrow> bool"
  assumes read_back: "storable x \<Longrightarrow> from_json (to_json x) = Inr x"
begin

lemma list_read_back: "list_all storable xs \<Longrightarrow> map_ok from_json (map to_json xs) = Inr xs"
  by (induction xs) (simp_all add: read_back)

end

subsection \<open>What messages carry\<close>

definition system_preferences_to_json :: "system_preferences_properties \<Rightarrow> json" where
  "system_preferences_to_json p =
     JObject [(''scroll_direction_is_natural'', JBool (spp_scroll_direction_is_natural p)),
              (''use_fkeys_as_standard_function_keys'', JBool (spp_use_fkeys_as_standard_function_keys p))]"

definition system_preferences_initial :: system_preferences_properties where
  "system_preferences_initial =
     \<lparr>spp_use_fkeys_as_standard_function_keys = False, spp_scroll_direction_is_natural = True\<rparr>"

definition system_preferences_item ::
    "string \<Rightarrow> json \<Rightarrow> system_preferences_properties \<Rightarrow> json_error + system_preferences_properties" where
  "system_preferences_item k v p =
     (if k = ''use_fkeys_as_standard_function_keys''
      then ok_bind (boolean_field k v) (\<lambda>b. Inr (p\<lparr>spp_use_fkeys_as_standard_function_keys := b\<rparr>))
      else if k = ''scroll_direction_is_natural''
      then ok_bind (boolean_field k v) (\<lambda>b. Inr (p\<lparr>spp_scroll_direction_is_natural := b\<rparr>))
      else Inl (unknown_key k))"

definition system_preferences_from_json :: "json \<Rightarrow> json_error + system_preferences_properties" where
  "system_preferences_from_json j =
     ok_bind (requires_object j ''json'') (\<lambda>_.
     ok_items system_preferences_item (json_items j) system_preferences_initial)"

definition application_initial :: application where
  "application_initial =
     \<lparr>app_bundle_identifier = None, app_bundle_path = None, app_file_path = None, app_pid = None\<rparr>"

definition application_to_json :: "application \<Rightarrow> json" where
  "application_to_json a =
     set_if ''pid'' (map_option JInt (app_pid a))
       (set_if ''file_path'' (map_option JString (app_file_path a))
         (set_if ''bundle_path'' (map_option JString (app_bundle_path a))
           (set_if ''bundle_identifier'' (map_option JString (app_bundle_identifier a)) (JObject []))))"

definition application_item :: "string \<Rightarrow> json \<Rightarrow> application \<Rightarrow> json_error + application" where
  "application_item k v a =
     (if k = ''bundle_identifier'' then ok_bind (string_field k v) (\<lambda>s. Inr (a\<lparr>app_bundle_identifier := Some s\<rparr>))
      else if k = ''bundle_path'' then ok_bind (string_field k v) (\<lambda>s. Inr (a\<lparr>app_bundle_path := Some s\<rparr>))
      else if k = ''file_path'' then ok_bind (string_field k v) (\<lambda>s. Inr (a\<lparr>app_file_path := Some s\<rparr>))
      else if k = ''pid'' then ok_bind (number_field k json_get_int v) (\<lambda>n. Inr (a\<lparr>app_pid := Some n\<rparr>))
      else Inl (unknown_key k))"

definition application_from_json :: "json \<Rightarrow> json_error + application" where
  "application_from_json j =
     ok_bind (requires_object j ''json'') (\<lambda>_. ok_items application_item (json_items j) application_initial)"

definition input_source_initial :: input_source_properties where
  "input_source_initial =
     \<lparr>isp_input_source_id = None, isp_localized_name = None, isp_input_mode_id = None,
      isp_languages = [], isp_first_language = None\<rparr>"

definition input_source_properties_to_json :: "input_source_properties \<Rightarrow> json" where
  "input_source_properties_to_json p =
     set_if ''first_language'' (map_option JString (isp_first_language p))
       (set_if ''languages''
         (if isp_languages p \<noteq> [] then Some (JArray (map JString (isp_languages p))) else None)
         (set_if ''input_mode_id'' (map_option JString (isp_input_mode_id p))
           (set_if ''localized_name'' (map_option JString (isp_localized_name p))
             (set_if ''input_source_id'' (map_option JString (isp_input_source_id p)) (JObject [])))))"

definition languages_field :: "string \<Rightarrow> json \<Rightarrow> json_error + string list" where
  "languages_field k v =
     ok_bind (requires_array v (backquoted k)) (\<lambda>_.
     map_ok (\<lambda>x. ok_bind (requires_string x (backquoted k @ '' entry'')) (\<lambda>_. json_get_string x))
       (json_elements v))"

definition input_source_properties_item ::
    "string \<Rightarrow> json \<Rightarrow> input_source_properties \<Rightarrow> json_error + input_source_properties" where
  "input_source_properties_item k v p =
     (if k = ''input_source_id'' then ok_bind (string_field k v) (\<lambda>s. Inr (p\<lparr>isp_input_source_id := Some s\<rparr>))
      else if k = ''localized_name'' then ok_bind (string_field k v) (\<lambda>s. Inr (p\<lparr>isp_localized_name := Some s\<rparr>))
      else if k = ''input_mode_id'' then ok_bind (string_field k v) (\<lambda>s. Inr (p\<lparr>isp_input_mode_id := Some s\<rparr>))
      else if k = ''languages'' then ok_bind (languages_field k v) (\<lambda>ls. Inr (p\<lparr>isp_languages := ls\<rparr>))
      else if k = ''first_language'' then ok_bind (string_field k v) (\<lambda>s. Inr (p\<lparr>isp_first_language := Some s\<rparr>))
      else Inl (unknown_key k))"

definition input_source_properties_from_json :: "json \<Rightarrow> json_error + input_source_properties" where
  "input_source_properties_from_json j =
     ok_bind (requires_object j ''json'') (\<lambda>_. ok_items input_source_properties_item (json_items j) input_source_initial)"

lemma system_preferences_round_trip: "system_preferences_from_json (system_preferences_to_json p) = Inr p"
  by (simp add: system_preferences_from_json_def system_preferences_to_json_def system_preferences_item_def
      requires_object_def)

interpretation preferences: carried system_preferences_to_json system_preferences_from_json "\<lambda>_. True"
  by unfold_locales (rule system_preferences_round_trip)

definition storable_application :: "application \<Rightarrow> bool" where
  "storable_application a \<longleftrightarrow> (case app_pid a of Some n \<Rightarrow> int32 n | None \<Rightarrow> True)"

lemma string_field_string: "string_field k (JString s) = Inr s"
  by simp

lemma application_round_trip:
  "storable_application a \<Longrightarrow> application_from_json (application_to_json a) = Inr a"
  by (cases a; cases "app_bundle_identifier a"; cases "app_bundle_path a"; cases "app_file_path a";
      cases "app_pid a")
    (simp_all add: application_from_json_def application_to_json_def application_item_def requires_object_def
      json_set_def set_if_def application_initial_def storable_application_def string_field_string)

interpretation application: carried application_to_json application_from_json storable_application
  by unfold_locales (rule application_round_trip)

lemma languages_read_back: "languages_field k (JArray (map JString ls)) = Inr ls"
proof -
  have "map_ok (\<lambda>x. ok_bind (requires_string x (backquoted k @ '' entry'')) (\<lambda>_. json_get_string x))
      (map JString ls) = Inr (map (\<lambda>x. case x of JString s \<Rightarrow> s | _ \<Rightarrow> []) (map JString ls))"
    by (rule map_ok_all) (auto simp: requires_string_def)
  then show ?thesis by (simp add: languages_field_def requires_array_def comp_def)
qed

lemma input_source_round_trip: "input_source_properties_from_json (input_source_properties_to_json p) = Inr p"
  by (cases p; cases "isp_input_source_id p"; cases "isp_localized_name p"; cases "isp_input_mode_id p";
      cases "isp_first_language p"; cases "isp_languages p = []")
    (simp_all add: input_source_properties_from_json_def input_source_properties_to_json_def input_source_properties_item_def requires_object_def
      json_set_def set_if_def input_source_initial_def string_field_string languages_read_back)

interpretation input_source: carried input_source_properties_to_json input_source_properties_from_json "\<lambda>_. True"
  by unfold_locales (rule input_source_round_trip)

subsection \<open>Values of variables\<close>

definition int64 :: "int \<Rightarrow> bool" where
  "int64 n \<longleftrightarrow> - (2 ^ 63) \<le> n \<and> n < 2 ^ 63"

fun storable_variable_value :: "variable_value \<Rightarrow> bool" where
  "storable_variable_value (Var_int n) \<longleftrightarrow> int64 n"
| "storable_variable_value v \<longleftrightarrow> True"

lemma int64_get [simp]: "int64 n \<Longrightarrow> json_get_int64 (JInt n) = Inr n"
  by (simp add: int64_def mod_pos_pos_trivial)

lemma storable_value_round_trip [simp]:
  "storable_variable_value v \<Longrightarrow> variable_value_from_json (variable_value_to_json v) = Inr v"
  by (cases v) (simp_all add: variable_value_from_json_def del: json_get_int64.simps)

interpretation variable: carried variable_value_to_json variable_value_from_json storable_variable_value
  by unfold_locales (rule storable_value_round_trip)

subsection \<open>Lists of input source specifiers\<close>

definition specifiers_get :: "platform \<Rightarrow> json \<Rightarrow> json_error + input_source_specifier list" where
  "specifiers_get P j = (if json_is_array j then map_ok (specifier_from_json P) (json_elements j) else Inl Json_type_error)"

definition specifier_ok :: "platform \<Rightarrow> input_source_specifier \<Rightarrow> bool" where
  "specifier_ok P s \<longleftrightarrow>
     (\<forall>r. iss_language s = Some r \<or> iss_input_source_id s = Some r \<or> iss_input_mode_id s = Some r \<longrightarrow>
        pf_regex_error P r = None)"

lemma regex_field_string: "pf_regex_error P s = None \<Longrightarrow> regex_field P k (JString s) = Inr s"
  by (simp add: regex_field_def string_field_string)

lemma specifier_round_trip: "specifier_ok P s \<Longrightarrow> specifier_from_json P (specifier_to_json s) = Inr s"
  by (cases s; cases "iss_language s"; cases "iss_input_source_id s"; cases "iss_input_mode_id s")
    (simp_all add: specifier_ok_def specifier_from_json_def specifier_to_json_def specifier_item_def
      requires_object_def json_set_def set_if_def regex_field_string)

interpretation specifier: carried specifier_to_json "specifier_from_json P" "specifier_ok P"
  by unfold_locales (rule specifier_round_trip)

lemma specifiers_round_trip:
  "list_all (specifier_ok P) ss \<Longrightarrow> specifiers_get P (JArray (map specifier_to_json ss)) = Inr ss"
  by (simp add: specifiers_get_def specifier.list_read_back)

subsection \<open>grabber_client\<close>

text \<open>A client of the grabber: whether it was started, and what it gave to its socket.\<close>

record grabber_client =
  gc_started :: bool
  gc_sent :: "json list"

definition grabber_client_initial :: grabber_client where
  "grabber_client_initial = \<lparr>gc_started = False, gc_sent = []\<rparr>"

definition gc_async_start :: "grabber_client \<Rightarrow> grabber_client" where
  "gc_async_start c = (if gc_started c then c else c\<lparr>gc_started := True\<rparr>)"

definition gc_stop :: "grabber_client \<Rightarrow> grabber_client" where
  "gc_stop c = (if gc_started c then c\<lparr>gc_started := False\<rparr> else c)"

definition gc_send :: "json \<Rightarrow> grabber_client \<Rightarrow> grabber_client" where
  "gc_send j c = (if gc_started c then c\<lparr>gc_sent := gc_sent c @ [j]\<rparr> else c)"

definition gc_connect_console_user_server :: "string \<Rightarrow> grabber_client \<Rightarrow> grabber_client" where
  "gc_connect_console_user_server path =
     gc_send (op_message op_connect_console_user_server [(''user_core_configuration_file_path'', JString path)])"

definition gc_system_preferences_updated :: "system_preferences_properties \<Rightarrow> grabber_client \<Rightarrow> grabber_client" where
  "gc_system_preferences_updated p =
     gc_send (op_message op_system_preferences_updated
       [(''system_preferences_properties'', system_preferences_to_json p)])"

definition gc_frontmost_application_changed :: "application \<Rightarrow> grabber_client \<Rightarrow> grabber_client" where
  "gc_frontmost_application_changed a =
     gc_send (op_message op_frontmost_application_changed [(''frontmost_application'', application_to_json a)])"

definition gc_input_source_changed :: "input_source_properties \<Rightarrow> grabber_client \<Rightarrow> grabber_client" where
  "gc_input_source_changed p =
     gc_send (op_message op_input_source_changed [(''input_source_properties'', input_source_properties_to_json p)])"

definition gc_get_manipulator_environment :: "grabber_client \<Rightarrow> grabber_client" where
  "gc_get_manipulator_environment = gc_send (op_message op_get_manipulator_environment [])"

definition gc_get_system_variables :: "grabber_client \<Rightarrow> grabber_client" where
  "gc_get_system_variables = gc_send (op_message op_get_system_variables [])"

definition gc_connect_multitouch_extension :: "grabber_client \<Rightarrow> grabber_client" where
  "gc_connect_multitouch_extension = gc_send (op_message op_connect_multitouch_extension [])"

definition gc_set_app_icon :: "int \<Rightarrow> grabber_client \<Rightarrow> grabber_client" where
  "gc_set_app_icon n = gc_send (op_message op_set_app_icon [(''number'', JInt n)])"

definition gc_set_variables :: "json \<Rightarrow> grabber_client \<Rightarrow> grabber_client" where
  "gc_set_variables vs = gc_send (op_message op_set_variables [(''variables'', vs)])"

subsection \<open>console_user_server_client, session_monitor_receiver_client\<close>

text \<open>What these clients send, given whether they are started.\<close>

definition client_sends :: "bool \<Rightarrow> json \<Rightarrow> json list" where
  "client_sends started j = (if started then [j] else [])"

definition cusc_shell_command_execution :: "bool \<Rightarrow> string \<Rightarrow> json list" where
  "cusc_shell_command_execution started s =
     client_sends started (op_message op_shell_command_execution [(''shell_command'', JString s)])"

definition cusc_select_input_source :: "bool \<Rightarrow> input_source_specifier list \<Rightarrow> json list" where
  "cusc_select_input_source started ss =
     client_sends started (op_message op_select_input_source
       [(''input_source_specifiers'', JArray (map specifier_to_json ss))])"

definition cusc_software_function :: "bool \<Rightarrow> software_function \<Rightarrow> json list" where
  "cusc_software_function started f =
     client_sends started (op_message op_software_function [(''software_function'', software_function_to_json f)])"

definition smc_console_user_id_changed :: "bool \<Rightarrow> nat \<Rightarrow> bool \<Rightarrow> json list" where
  "smc_console_user_id_changed started uid on_console =
     client_sends started (op_message op_console_user_id_changed
       [(''user_id'', JInt (int uid)), (''on_console'', JBool on_console)])"

end
