(* ===== verification/Event_Json.thy ===== *)
theory Event_Json
  imports Messages
begin

text \<open>
  The JSON form of events and entries: \<open>src/share/event_queue/event.hpp\<close>, \<open>event_time_stamp.hpp\<close>,
  \<open>state.hpp\<close>, \<open>entry.hpp\<close> and \<open>src/share/types/event_type.hpp\<close>.

  Reading does not keep the type of an event and its value together: each is taken from a member of
  its own, and an exception leaves what was read so far. So this theory has the pair of the two, as
  the class has, and the factory functions, which choose both, as a function into it. It shows that
  an entry made by them survives writing and reading, up to whole milliseconds of its times.
\<close>

subsection \<open>Type and value\<close>

datatype event_kind =
    Ek_none | Ek_momentary_switch_event | Ek_pointing_motion | Ek_shell_command | Ek_select_input_source
  | Ek_set_variable | Ek_set_notification_message | Ek_mouse_key | Ek_sticky_modifier | Ek_software_function
  | Ek_stop_keyboard_repeat | Ek_device_keys_and_pointing_buttons_are_released | Ek_device_grabbed
  | Ek_device_ungrabbed | Ek_caps_lock_state_changed | Ek_pointing_device_event_from_event_tap
  | Ek_frontmost_application_changed | Ek_input_source_changed | Ek_system_preferences_properties_changed
  | Ek_virtual_hid_devices_state_changed

fun event_kind_name :: "event_kind \<Rightarrow> string" where
  "event_kind_name Ek_none = ''none''"
| "event_kind_name Ek_momentary_switch_event = ''momentary_switch_event''"
| "event_kind_name Ek_pointing_motion = ''pointing_motion''"
| "event_kind_name Ek_shell_command = ''shell_command''"
| "event_kind_name Ek_select_input_source = ''select_input_source''"
| "event_kind_name Ek_set_variable = ''set_variable''"
| "event_kind_name Ek_set_notification_message = ''set_notification_message''"
| "event_kind_name Ek_mouse_key = ''mouse_key''"
| "event_kind_name Ek_sticky_modifier = ''sticky_modifier''"
| "event_kind_name Ek_software_function = ''software_function''"
| "event_kind_name Ek_stop_keyboard_repeat = ''stop_keyboard_repeat''"
| "event_kind_name Ek_device_keys_and_pointing_buttons_are_released =
     ''device_keys_and_pointing_buttons_are_released''"
| "event_kind_name Ek_device_grabbed = ''device_grabbed''"
| "event_kind_name Ek_device_ungrabbed = ''device_ungrabbed''"
| "event_kind_name Ek_caps_lock_state_changed = ''caps_lock_state_changed''"
| "event_kind_name Ek_pointing_device_event_from_event_tap = ''pointing_device_event_from_event_tap''"
| "event_kind_name Ek_frontmost_application_changed = ''frontmost_application_changed''"
| "event_kind_name Ek_input_source_changed = ''input_source_changed''"
| "event_kind_name Ek_system_preferences_properties_changed = ''system_preferences_properties_changed''"
| "event_kind_name Ek_virtual_hid_devices_state_changed = ''virtual_hid_devices_state_changed''"

definition named_event_kinds :: "event_kind list" where
  "named_event_kinds =
     [Ek_momentary_switch_event, Ek_pointing_motion, Ek_shell_command, Ek_select_input_source,
      Ek_set_variable, Ek_set_notification_message, Ek_mouse_key, Ek_sticky_modifier, Ek_software_function,
      Ek_stop_keyboard_repeat, Ek_device_keys_and_pointing_buttons_are_released, Ek_device_grabbed,
      Ek_device_ungrabbed, Ek_caps_lock_state_changed, Ek_pointing_device_event_from_event_tap,
      Ek_frontmost_application_changed, Ek_input_source_changed, Ek_system_preferences_properties_changed,
      Ek_virtual_hid_devices_state_changed]"

definition event_kind_from_name :: "string \<Rightarrow> event_kind" where
  "event_kind_from_name s =
     (case find (\<lambda>k. s = event_kind_name k) named_event_kinds of Some k \<Rightarrow> k | None \<Rightarrow> Ek_none)"

datatype event_payload =
    Pl_momentary_switch_event momentary_switch_event
  | Pl_pointing_motion pointing_motion
  | Pl_integer int
  | Pl_string string
  | Pl_specifiers "input_source_specifier list"
  | Pl_set_variable set_variable
  | Pl_notification_message notification_message
  | Pl_mouse_key mouse_key
  | Pl_sticky_modifier modifier_flag sticky_modifier_type
  | Pl_software_function software_function
  | Pl_application application
  | Pl_input_source input_source_properties
  | Pl_device_properties device_properties
  | Pl_system_preferences system_preferences_properties
  | Pl_virtual_hid_devices_state virtual_hid_devices_state
  | Pl_monostate

record typed_event =
  te_type :: event_kind
  te_value :: event_payload

definition typed_event_default :: typed_event where
  "typed_event_default = \<lparr>te_type = Ek_none, te_value = Pl_monostate\<rparr>"

text \<open>The constructors and the factory functions.\<close>

fun typed_event_of :: "event \<Rightarrow> typed_event" where
  "typed_event_of Ev_none = typed_event_default"
| "typed_event_of (Ev_momentary_switch_event e) =
     \<lparr>te_type = Ek_momentary_switch_event, te_value = Pl_momentary_switch_event e\<rparr>"
| "typed_event_of (Ev_pointing_motion m) = \<lparr>te_type = Ek_pointing_motion, te_value = Pl_pointing_motion m\<rparr>"
| "typed_event_of (Ev_shell_command s) = \<lparr>te_type = Ek_shell_command, te_value = Pl_string s\<rparr>"
| "typed_event_of (Ev_select_input_source ss) =
     \<lparr>te_type = Ek_select_input_source, te_value = Pl_specifiers ss\<rparr>"
| "typed_event_of (Ev_set_variable v) = \<lparr>te_type = Ek_set_variable, te_value = Pl_set_variable v\<rparr>"
| "typed_event_of (Ev_set_notification_message m) =
     \<lparr>te_type = Ek_set_notification_message, te_value = Pl_notification_message m\<rparr>"
| "typed_event_of (Ev_mouse_key m) = \<lparr>te_type = Ek_mouse_key, te_value = Pl_mouse_key m\<rparr>"
| "typed_event_of (Ev_sticky_modifier f t) =
     \<lparr>te_type = Ek_sticky_modifier, te_value = Pl_sticky_modifier f t\<rparr>"
| "typed_event_of (Ev_software_function f) =
     \<lparr>te_type = Ek_software_function, te_value = Pl_software_function f\<rparr>"
| "typed_event_of Ev_stop_keyboard_repeat = \<lparr>te_type = Ek_stop_keyboard_repeat, te_value = Pl_monostate\<rparr>"
| "typed_event_of Ev_device_keys_and_pointing_buttons_are_released =
     \<lparr>te_type = Ek_device_keys_and_pointing_buttons_are_released, te_value = Pl_monostate\<rparr>"
| "typed_event_of (Ev_device_grabbed dp) = \<lparr>te_type = Ek_device_grabbed, te_value = Pl_device_properties dp\<rparr>"
| "typed_event_of Ev_device_ungrabbed = \<lparr>te_type = Ek_device_ungrabbed, te_value = Pl_monostate\<rparr>"
| "typed_event_of (Ev_caps_lock_state_changed n) =
     \<lparr>te_type = Ek_caps_lock_state_changed, te_value = Pl_integer n\<rparr>"
| "typed_event_of Ev_pointing_device_event_from_event_tap =
     \<lparr>te_type = Ek_pointing_device_event_from_event_tap, te_value = Pl_monostate\<rparr>"
| "typed_event_of (Ev_frontmost_application_changed a) =
     \<lparr>te_type = Ek_frontmost_application_changed, te_value = Pl_application a\<rparr>"
| "typed_event_of (Ev_input_source_changed p) =
     \<lparr>te_type = Ek_input_source_changed, te_value = Pl_input_source p\<rparr>"
| "typed_event_of (Ev_system_preferences_properties_changed p) =
     \<lparr>te_type = Ek_system_preferences_properties_changed, te_value = Pl_system_preferences p\<rparr>"
| "typed_event_of (Ev_virtual_hid_devices_state_changed s) =
     \<lparr>te_type = Ek_virtual_hid_devices_state_changed, te_value = Pl_virtual_hid_devices_state s\<rparr>"

subsection \<open>Writing an event\<close>

text \<open>The member of a value, which is written when the type asks for this kind of value.\<close>

definition payload_member :: "world \<Rightarrow> event_payload \<Rightarrow> (event_kind \<times> string \<times> json) option" where
  "payload_member w v =
     (case v of
        Pl_momentary_switch_event e \<Rightarrow>
          Some (Ek_momentary_switch_event, ''momentary_switch_event'', momentary_switch_event_to_json e)
      | Pl_pointing_motion m \<Rightarrow> Some (Ek_pointing_motion, ''pointing_motion'', pointing_motion_to_json m)
      | Pl_integer n \<Rightarrow> Some (Ek_caps_lock_state_changed, ''caps_lock_state_changed'', JInt n)
      | Pl_string s \<Rightarrow> Some (Ek_shell_command, ''shell_command'', JString s)
      | Pl_specifiers ss \<Rightarrow>
          Some (Ek_select_input_source, ''input_source_specifiers'', JArray (map specifier_to_json ss))
      | Pl_set_variable x \<Rightarrow> Some (Ek_set_variable, ''set_variable'', set_variable_to_json w x)
      | Pl_notification_message m \<Rightarrow>
          Some (Ek_set_notification_message, ''set_notification_message'', notification_message_to_json m)
      | Pl_mouse_key m \<Rightarrow> Some (Ek_mouse_key, ''mouse_key'', mouse_key_to_json m)
      | Pl_sticky_modifier f t \<Rightarrow>
          Some (Ek_sticky_modifier, ''sticky_modifier'',
                JArray [modifier_flag_to_json f, sticky_modifier_type_to_json t])
      | Pl_software_function f \<Rightarrow>
          Some (Ek_software_function, ''software_function'', software_function_to_json f)
      | Pl_application a \<Rightarrow>
          Some (Ek_frontmost_application_changed, ''frontmost_application'', application_to_json a)
      | Pl_input_source p \<Rightarrow>
          Some (Ek_input_source_changed, ''input_source_properties'', input_source_properties_to_json p)
      | Pl_system_preferences p \<Rightarrow>
          Some (Ek_system_preferences_properties_changed, ''system_preferences_properties'',
                system_preferences_to_json p)
      | Pl_virtual_hid_devices_state s \<Rightarrow>
          Some (Ek_virtual_hid_devices_state_changed, ''virtual_hid_devices_state'',
                virtual_hid_devices_state_to_json s)
      | _ \<Rightarrow> None)"

definition event_to_json :: "world \<Rightarrow> typed_event \<Rightarrow> json" where
  "event_to_json w e =
     (let j = json_set ''type'' (JString (event_kind_name (te_type e))) JNull in
      case payload_member w (te_value e) of
        None \<Rightarrow> j
      | Some (t, k, v) \<Rightarrow> if te_type e = t then json_set k v j else j)"

subsection \<open>Reading an event\<close>

text \<open>\<open>get\<close> of a pair; every exception of the JSON library counts as a type error.\<close>

definition json_array_at :: "nat \<Rightarrow> json \<Rightarrow> json_error + json" where
  "json_array_at n j =
     (case j of JArray js \<Rightarrow> if n < length js then Inr (js ! n) else Inl Json_type_error | _ \<Rightarrow> Inl Json_type_error)"

definition sticky_modifier_get :: "json \<Rightarrow> json_error + event_payload" where
  "sticky_modifier_get j =
     ok_bind (json_array_at 0 j) (\<lambda>a. ok_bind (modifier_flag_from_json a) (\<lambda>f.
     ok_bind (json_array_at 1 j) (\<lambda>b. ok_bind (sticky_modifier_type_from_json b) (\<lambda>t.
     Inr (Pl_sticky_modifier f t)))))"

definition payload_get :: "platform \<Rightarrow> string \<Rightarrow> json \<Rightarrow> event_payload reading option" where
  "payload_get P k v =
     (if k = ''momentary_switch_event'' then Some (rd_lift (ok_bind (momentary_switch_event_from_json v)
        (\<lambda>x. Inr (Pl_momentary_switch_event x))))
      else if k = ''pointing_motion'' then Some (rd_lift (ok_bind (pointing_motion_from_json v)
        (\<lambda>x. Inr (Pl_pointing_motion x))))
      else if k = ''caps_lock_state_changed'' then Some (rd_lift (ok_bind (json_get_int64 v)
        (\<lambda>x. Inr (Pl_integer x))))
      else if k = ''shell_command'' then Some (rd_lift (ok_bind (json_get_string v) (\<lambda>x. Inr (Pl_string x))))
      else if k = ''input_source_specifiers'' then Some (rd_lift (ok_bind (specifiers_get P v)
        (\<lambda>x. Inr (Pl_specifiers x))))
      else if k = ''set_variable'' then Some (rd_bind (set_variable_from_json P v)
        (\<lambda>x. rd_return (Pl_set_variable x)))
      else if k = ''set_notification_message'' then Some (rd_lift (ok_bind (notification_message_from_json v)
        (\<lambda>x. Inr (Pl_notification_message x))))
      else if k = ''mouse_key'' then Some (rd_lift (ok_bind (mouse_key_from_json v) (\<lambda>x. Inr (Pl_mouse_key x))))
      else if k = ''sticky_modifier'' then Some (rd_lift (sticky_modifier_get v))
      else if k = ''software_function'' then Some (rd_lift (ok_bind (software_function_from_json v)
        (\<lambda>x. Inr (Pl_software_function x))))
      else if k = ''frontmost_application'' then Some (rd_lift (ok_bind (application_from_json v)
        (\<lambda>x. Inr (Pl_application x))))
      else if k = ''input_source_properties'' then Some (rd_lift (ok_bind (input_source_properties_from_json v)
        (\<lambda>x. Inr (Pl_input_source x))))
      else if k = ''system_preferences_properties'' then Some (rd_lift (ok_bind (system_preferences_from_json v)
        (\<lambda>x. Inr (Pl_system_preferences x))))
      else if k = ''virtual_hid_devices_state'' then Some (rd_lift (ok_bind (virtual_hid_devices_state_from_json v)
        (\<lambda>x. Inr (Pl_virtual_hid_devices_state x))))
      else None)"

definition event_item :: "platform \<Rightarrow> string \<times> json \<Rightarrow> typed_event \<Rightarrow> typed_event reading" where
  "event_item P kv e =
     (if fst kv = ''type''
      then rd_bind (rd_lift (json_get_string (snd kv))) (\<lambda>s. rd_return (e\<lparr>te_type := event_kind_from_name s\<rparr>))
      else case payload_get P (fst kv) (snd kv) of
             None \<Rightarrow> rd_return e
           | Some r \<Rightarrow> rd_bind r (\<lambda>v. rd_return (e\<lparr>te_value := v\<rparr>)))"

text \<open>The loop over the members, which an exception ends.\<close>

fun event_items :: "platform \<Rightarrow> (string \<times> json) list \<Rightarrow> typed_event \<Rightarrow> loader \<Rightarrow> typed_event \<times> loader" where
  "event_items P [] e l = (e, l)"
| "event_items P (kv # kvs) e l =
     (case event_item P kv e l of Inl _ \<Rightarrow> (e, l) | Inr (e', l') \<Rightarrow> event_items P kvs e' l')"

definition event_make_from_json :: "platform \<Rightarrow> json \<Rightarrow> loader \<Rightarrow> typed_event \<times> loader" where
  "event_make_from_json P j l =
     (if json_is_object j then event_items P (json_items j) typed_event_default l else (typed_event_default, l))"


subsection \<open>Times, states, entries\<close>

text \<open>\<open>find<T>\<close>: a value that does not convert is as good as none.\<close>

definition json_find_as :: "(json \<Rightarrow> json_error + 'a) \<Rightarrow> json \<Rightarrow> string \<Rightarrow> 'a option" where
  "json_find_as get j k =
     (case json_find j k of
        None \<Rightarrow> None
      | Some v \<Rightarrow> (case get v of Inl _ \<Rightarrow> None | Inr x \<Rightarrow> Some x))"

text \<open>The representation of \<open>std::chrono::milliseconds\<close> is signed.\<close>

definition milliseconds_of :: "nat \<Rightarrow> milliseconds" where
  "milliseconds_of n = (int n + 2 ^ 63) mod 2 ^ 64 - 2 ^ 63"

definition event_time_stamp_to_json :: "platform \<Rightarrow> event_time_stamp \<Rightarrow> json" where
  "event_time_stamp_to_json P t =
     JObject [(''input_delay_duration'', JInt (pf_make_milliseconds P (ets_input_delay_duration t))),
              (''time_stamp'', JInt (pf_make_milliseconds P (ets_time_stamp t)))]"

definition event_time_stamp_from_json :: "platform \<Rightarrow> json \<Rightarrow> event_time_stamp" where
  "event_time_stamp_from_json P j =
     (let t = (case json_find_as json_get_size j ''time_stamp'' of
                 None \<Rightarrow> 0 | Some n \<Rightarrow> pf_make_absolute_time_duration P (milliseconds_of n));
          d = (case json_find_as json_get_size j ''input_delay_duration'' of
                 None \<Rightarrow> 0 | Some n \<Rightarrow> pf_make_absolute_time_duration P (milliseconds_of n))
      in \<lparr>ets_time_stamp = t, ets_input_delay_duration = d\<rparr>)"

fun event_state_to_json :: "event_state \<Rightarrow> json" where
  "event_state_to_json st_original = JString ''original''"
| "event_state_to_json st_manipulated = JString ''manipulated''"
| "event_state_to_json st_virtual_event = JString ''virtual_event''"

definition event_state_from_json :: "json \<Rightarrow> json_error + event_state" where
  "event_state_from_json j =
     ok_bind (plain_string j) (\<lambda>s.
     if s = ''original'' then Inr st_original
     else if s = ''manipulated'' then Inr st_manipulated
     else if s = ''virtual_event'' then Inr st_virtual_event
     else Inl (unknown_value ''state'' s))"

fun event_type_to_json :: "event_type \<Rightarrow> json" where
  "event_type_to_json key_down = JString ''key_down''"
| "event_type_to_json key_up = JString ''key_up''"
| "event_type_to_json single = JString ''single''"

definition event_type_from_json :: "json \<Rightarrow> json_error + event_type" where
  "event_type_from_json j =
     ok_bind (json_get_string j) (\<lambda>s.
     Inr (if s = ''key_up'' then key_up else if s = ''single'' then single else key_down))"

text \<open>An entry with events as they are read; the validity can be any number.\<close>

record typed_entry =
  ty_device_id :: device_id
  ty_event_time_stamp :: event_time_stamp
  ty_validity :: int
  ty_state :: event_state
  ty_lazy :: bool
  ty_event :: typed_event
  ty_event_type :: event_type
  ty_original_event :: typed_event

definition typed_entry_of :: "entry \<Rightarrow> typed_entry" where
  "typed_entry_of e =
     \<lparr>ty_device_id = en_device_id e, ty_event_time_stamp = en_event_time_stamp e,
      ty_validity = (case en_validity e of invalid \<Rightarrow> 0 | valid \<Rightarrow> 1), ty_state = en_state e, ty_lazy = en_lazy e,
      ty_event = typed_event_of (en_event e), ty_event_type = en_event_type e,
      ty_original_event = typed_event_of (en_original_event e)\<rparr>"

definition entry_to_json :: "platform \<Rightarrow> world \<Rightarrow> typed_entry \<Rightarrow> json" where
  "entry_to_json P w e =
     JObject [(''device_id'', JInt (int (ty_device_id e))), (''event'', event_to_json w (ty_event e)),
              (''event_time_stamp'', event_time_stamp_to_json P (ty_event_time_stamp e)),
              (''event_type'', event_type_to_json (ty_event_type e)), (''lazy'', JBool (ty_lazy e)),
              (''original_event'', event_to_json w (ty_original_event e)),
              (''state'', event_state_to_json (ty_state e)), (''validity'', JInt (ty_validity e))]"

definition or_else :: "'a option \<Rightarrow> 'a \<Rightarrow> 'a" where
  "or_else x y = (case x of Some z \<Rightarrow> z | None \<Rightarrow> y)"

definition event_member :: "platform \<Rightarrow> json \<Rightarrow> string \<Rightarrow> loader \<Rightarrow> typed_event \<times> loader" where
  "event_member P j k l =
     (case json_find j k of None \<Rightarrow> (typed_event_default, l) | Some v \<Rightarrow> event_make_from_json P v l)"

text \<open>Of all members only the event type can make the reading of an entry fail.\<close>

definition entry_make_from_json :: "platform \<Rightarrow> json \<Rightarrow> typed_entry reading" where
  "entry_make_from_json P j l =
     (if \<not> json_is_object j
      then Inr (\<lparr>ty_device_id = 0, ty_event_time_stamp = make_event_time_stamp 0, ty_validity = 1,
                ty_state = st_original, ty_lazy = False, ty_event = typed_event_default,
                ty_event_type = key_down, ty_original_event = typed_event_default\<rparr>, l)
      else (case event_member P j ''event'' l of (ev, l1) \<Rightarrow>
            ok_bind (case json_find j ''event_type'' of None \<Rightarrow> Inr key_down | Some v \<Rightarrow> event_type_from_json v) (\<lambda>et.
            case event_member P j ''original_event'' l1 of (oe, l2) \<Rightarrow>
              Inr (\<lparr>ty_device_id = or_else (json_find_as json_get_uint32 j ''device_id'') 0,
                    ty_event_time_stamp =
                      (case json_find j ''event_time_stamp'' of
                         None \<Rightarrow> make_event_time_stamp 0 | Some v \<Rightarrow> event_time_stamp_from_json P v),
                    ty_validity = or_else (json_find_as json_get_int j ''validity'') 1,
                    ty_state = or_else (json_find_as event_state_from_json j ''state'') st_original,
                    ty_lazy = or_else (json_find_as json_get_bool j ''lazy'') False,
                    ty_event = ev, ty_event_type = et, ty_original_event = oe\<rparr>, l2))))"


subsection \<open>Round trips\<close>

definition storable_momentary_switch_event :: "momentary_switch_event \<Rightarrow> bool" where
  "storable_momentary_switch_event e \<longleftrightarrow>
     (case mse_to_json e of None \<Rightarrow> False | Some (k, n) \<Rightarrow> n \<noteq> ''unsupported'') \<and> e \<noteq> mse page_keyboard_or_keypad 0x7f"

text \<open>Expressions are left out: reading one compiles it anew.\<close>

definition storable_set_variable :: "set_variable \<Rightarrow> bool" where
  "storable_set_variable v \<longleftrightarrow>
     sv_expression v = None \<and> sv_key_up_expression v = None \<and>
     (case sv_value v of None \<Rightarrow> True | Some x \<Rightarrow> storable_variable_value x) \<and>
     (case sv_key_up_value v of None \<Rightarrow> True | Some x \<Rightarrow> storable_variable_value x)"

fun storable_event :: "platform \<Rightarrow> event \<Rightarrow> bool" where
  "storable_event P (Ev_momentary_switch_event e) \<longleftrightarrow> storable_momentary_switch_event e"
| "storable_event P (Ev_pointing_motion m) \<longleftrightarrow>
     int32 (pm_x m) \<and> int32 (pm_y m) \<and> int32 (pm_vertical_wheel m) \<and> int32 (pm_horizontal_wheel m)"
| "storable_event P (Ev_select_input_source ss) \<longleftrightarrow> list_all (specifier_ok P) ss"
| "storable_event P (Ev_set_variable v) \<longleftrightarrow> storable_set_variable v"
| "storable_event P (Ev_mouse_key m) \<longleftrightarrow>
     int32 (mk_x m) \<and> int32 (mk_y m) \<and> int32 (mk_vertical_wheel m) \<and> int32 (mk_horizontal_wheel m)"
| "storable_event P (Ev_sticky_modifier f t) \<longleftrightarrow> f \<noteq> mf_end"
| "storable_event P (Ev_software_function f) \<longleftrightarrow> storable_software_function f"
| "storable_event P (Ev_device_grabbed dp) \<longleftrightarrow> False"
| "storable_event P (Ev_caps_lock_state_changed n) \<longleftrightarrow> int64 n"
| "storable_event P (Ev_frontmost_application_changed a) \<longleftrightarrow> storable_application a"
| "storable_event P e \<longleftrightarrow> True"

lemma event_kind_round_trip [simp]: "event_kind_from_name (event_kind_name t) = t"
  by (cases t) (simp_all add: event_kind_from_name_def named_event_kinds_def)

lemma momentary_switch_event_round_trip:
  assumes "storable_momentary_switch_event e"
  shows "momentary_switch_event_from_json (momentary_switch_event_to_json e) = Inr e"
proof -
  obtain k n where kn: "mse_to_json e = Some (k, n)" "n \<noteq> ''unsupported''"
    using assms by (auto simp: storable_momentary_switch_event_def split: option.splits)
  have "mse_from_json [(k, Json_string n)] e = Some e"
    using momentary_switch_event_json_round_trip[OF kn] assms by (simp add: storable_momentary_switch_event_def)
  then obtain p where p: "mse_from_json_item k (Json_string n) = Some p" "MSE p = e"
    by (auto split: option.splits)
  have "k \<in> set mse_keys" using kn(1) by (auto simp: mse_to_json_def mse_keys_def Let_def split: if_splits)
  with p kn show ?thesis
    by (simp add: momentary_switch_event_from_json_def momentary_switch_event_to_json_def requires_object_def
        usage_pair_from_json_def Let_def)
qed

lemma set_variable_round_trip:
  assumes "storable_set_variable v"
  shows "set_variable_from_json P (set_variable_to_json w v) l = Inr (v, l)"
proof -
  obtain n x e kx ke t where v: "v = \<lparr>sv_name = n, sv_value = x, sv_expression = e, sv_key_up_value = kx,
      sv_key_up_expression = ke, sv_type = t\<rparr>" by (cases v)
  show ?thesis
    using assms
    by (cases n; cases x; cases kx; cases t)
      (simp_all add: v storable_set_variable_def set_variable_from_json_def set_variable_to_json_def set_if_def
        json_set_def expression_to_json_def requires_object_def 
        set_variable_default_def set_variable_item_def)
qed


lemma event_item_type: "event_item P (''type'', JString (event_kind_name t)) e l = Inr (e\<lparr>te_type := t\<rparr>, l)"
  by (simp add: event_item_def)

lemma event_item_value:
  "payload_get P k v = Some r \<Longrightarrow> k \<noteq> ''type'' \<Longrightarrow> r l = Inr (x, l) \<Longrightarrow>
     event_item P (k, v) e l = Inr (e\<lparr>te_value := x\<rparr>, l)"
  by (simp add: event_item_def)

lemma event_without_member:
  "payload_member w v = None \<Longrightarrow> event_make_from_json P (event_to_json w \<lparr>te_type = t, te_value = v\<rparr>) l =
     (\<lparr>te_type = t, te_value = Pl_monostate\<rparr>, l)"
  by (simp add: event_make_from_json_def event_to_json_def json_set_def event_item_type typed_event_default_def)

lemma event_with_member:
  assumes "payload_member w v = Some m" "payload_get P (fst (snd m)) (snd (snd m)) = Some r" "fst m = t"
    and "fst (snd m) \<noteq> ''type''" "r l = Inr (v, l)"
  shows "event_make_from_json P (event_to_json w \<lparr>te_type = t, te_value = v\<rparr>) l = (\<lparr>te_type = t, te_value = v\<rparr>, l)"
  using assms(1,3,4) event_item_value[OF assms(2,4,5)]
  by (cases m) (simp add: event_make_from_json_def event_to_json_def json_set_def event_item_type
      typed_event_default_def Let_def)

lemma payload_gets:
  "payload_get P ''momentary_switch_event'' v = Some (rd_lift (ok_bind (momentary_switch_event_from_json v) (\<lambda>x. Inr (Pl_momentary_switch_event x))))"
  "payload_get P ''pointing_motion'' v = Some (rd_lift (ok_bind (pointing_motion_from_json v) (\<lambda>x. Inr (Pl_pointing_motion x))))"
  "payload_get P ''caps_lock_state_changed'' v = Some (rd_lift (ok_bind (json_get_int64 v) (\<lambda>x. Inr (Pl_integer x))))"
  "payload_get P ''shell_command'' v = Some (rd_lift (ok_bind (json_get_string v) (\<lambda>x. Inr (Pl_string x))))"
  "payload_get P ''input_source_specifiers'' v = Some (rd_lift (ok_bind (specifiers_get P v) (\<lambda>x. Inr (Pl_specifiers x))))"
  "payload_get P ''set_variable'' v = Some (rd_bind (set_variable_from_json P v) (\<lambda>x. rd_return (Pl_set_variable x)))"
  "payload_get P ''set_notification_message'' v = Some (rd_lift (ok_bind (notification_message_from_json v) (\<lambda>x. Inr (Pl_notification_message x))))"
  "payload_get P ''mouse_key'' v = Some (rd_lift (ok_bind (mouse_key_from_json v) (\<lambda>x. Inr (Pl_mouse_key x))))"
  "payload_get P ''sticky_modifier'' v = Some (rd_lift (sticky_modifier_get v))"
  "payload_get P ''software_function'' v = Some (rd_lift (ok_bind (software_function_from_json v) (\<lambda>x. Inr (Pl_software_function x))))"
  "payload_get P ''frontmost_application'' v = Some (rd_lift (ok_bind (application_from_json v) (\<lambda>x. Inr (Pl_application x))))"
  "payload_get P ''input_source_properties'' v = Some (rd_lift (ok_bind (input_source_properties_from_json v) (\<lambda>x. Inr (Pl_input_source x))))"
  "payload_get P ''system_preferences_properties'' v = Some (rd_lift (ok_bind (system_preferences_from_json v) (\<lambda>x. Inr (Pl_system_preferences x))))"
  "payload_get P ''virtual_hid_devices_state'' v = Some (rd_lift (ok_bind (virtual_hid_devices_state_from_json v) (\<lambda>x. Inr (Pl_virtual_hid_devices_state x))))"
  by (simp_all add: payload_get_def)

lemma notification_message_round_trip: "notification_message_from_json (notification_message_to_json m) = Inr m"
  by (simp add: notification_message_from_json_def notification_message_to_json_def notification_message_item_def
      requires_object_def requires_string_def)

lemma virtual_hid_devices_state_round_trip:
  "virtual_hid_devices_state_from_json (virtual_hid_devices_state_to_json s) = Inr s"
  by (simp add: virtual_hid_devices_state_from_json_def virtual_hid_devices_state_to_json_def
      virtual_hid_devices_state_item_def requires_object_def json_set_def boolean_field_def requires_boolean_def)

lemmas payload_trips = momentary_switch_event_round_trip pointing_motion_round_trip specifiers_round_trip
  set_variable_round_trip notification_message_round_trip mouse_key_round_trip modifier_flag_round_trip
  sticky_modifier_type_round_trip software_function_round_trip application_round_trip input_source_round_trip
  system_preferences_round_trip virtual_hid_devices_state_round_trip

lemma event_round_trip:
  assumes "storable_event P e"
  shows "event_make_from_json P (event_to_json w (typed_event_of e)) l = (typed_event_of e, l)"
  using assms
  by (cases e)
    (simp_all add: typed_event_default_def event_without_member payload_member_def,
     (rule event_with_member, simp add: payload_member_def, simp add: payload_gets, simp, simp,
        simp add: payload_trips sticky_modifier_get_def json_array_at_def int64_def mod_pos_pos_trivial)+)


text \<open>Times are written in whole milliseconds, and a device id is read with 32 bits.\<close>

definition in_milliseconds :: "platform \<Rightarrow> absolute_time_duration \<Rightarrow> absolute_time_duration" where
  "in_milliseconds P t = pf_make_absolute_time_duration P (pf_make_milliseconds P t)"

definition milliseconds_ok :: "platform \<Rightarrow> absolute_time_duration \<Rightarrow> bool" where
  "milliseconds_ok P t \<longleftrightarrow> 0 \<le> pf_make_milliseconds P t \<and> pf_make_milliseconds P t < 2 ^ 63"

lemma milliseconds_read:
  "0 \<le> n \<Longrightarrow> n < 2 ^ 63 \<Longrightarrow> json_get_size (JInt n) = Inr (nat n) \<and> milliseconds_of (nat n) = n"
  by (simp add: milliseconds_of_def mod_pos_pos_trivial)

lemma event_time_stamp_round_trip:
  assumes "milliseconds_ok P (ets_time_stamp t)" "milliseconds_ok P (ets_input_delay_duration t)"
  shows "event_time_stamp_from_json P (event_time_stamp_to_json P t) =
    \<lparr>ets_time_stamp = in_milliseconds P (ets_time_stamp t),
     ets_input_delay_duration = in_milliseconds P (ets_input_delay_duration t)\<rparr>"
  using assms milliseconds_read[of "pf_make_milliseconds P (ets_time_stamp t)"]
    milliseconds_read[of "pf_make_milliseconds P (ets_input_delay_duration t)"]
  by (simp add: event_time_stamp_from_json_def event_time_stamp_to_json_def json_find_as_def json_find_def
      in_milliseconds_def milliseconds_ok_def Let_def del: json_get_size.simps)

definition storable_entry :: "platform \<Rightarrow> entry \<Rightarrow> bool" where
  "storable_entry P e \<longleftrightarrow>
     en_device_id e < 2 ^ 32 \<and> storable_event P (en_event e) \<and> storable_event P (en_original_event e) \<and>
     milliseconds_ok P (ets_time_stamp (en_event_time_stamp e)) \<and>
     milliseconds_ok P (ets_input_delay_duration (en_event_time_stamp e))"

definition entry_in_milliseconds :: "platform \<Rightarrow> entry \<Rightarrow> entry" where
  "entry_in_milliseconds P e =
     e\<lparr>en_event_time_stamp :=
        \<lparr>ets_time_stamp = in_milliseconds P (ets_time_stamp (en_event_time_stamp e)),
         ets_input_delay_duration = in_milliseconds P (ets_input_delay_duration (en_event_time_stamp e))\<rparr>\<rparr>"

lemma event_state_round_trip: "event_state_from_json (event_state_to_json s) = Inr s"
  by (cases s) (simp_all add: event_state_from_json_def plain_string_def requires_string_def)

lemma event_type_round_trip: "event_type_from_json (event_type_to_json t) = Inr t"
  by (cases t) (simp_all add: event_type_from_json_def)

text \<open>C29. An entry whose device id has 32 bits and whose events can be stored is written and read back as
  itself, with its times in whole milliseconds and without any change of the expressions: every type of
  event but the grabbing of a device, every key with a name, every message, and both events of the entry.\<close>

theorem entry_json_round_trip:
  assumes "storable_entry P e"
  shows "entry_make_from_json P (entry_to_json P w (typed_entry_of e)) l =
    Inr (typed_entry_of (entry_in_milliseconds P e), l)"
proof -
  have "json_get_uint32 (JInt (int (en_device_id e))) = Inr (en_device_id e)"
    using assms by (simp add: storable_entry_def nat_mod_distrib flip: zmod_int)
  then show ?thesis
    using assms
    by (cases "en_validity e")
      (simp_all add: entry_make_from_json_def entry_to_json_def typed_entry_of_def json_find_def json_find_as_def
        or_else_def event_member_def storable_entry_def event_round_trip event_type_round_trip event_state_round_trip
        event_time_stamp_round_trip entry_in_milliseconds_def int32_of_def del: json_get_uint32.simps)
qed


subsection \<open>Examples\<close>

definition sample_stored_entry :: entry where
  "sample_stored_entry =
     make_entry 7 \<lparr>ets_time_stamp = 20500000, ets_input_delay_duration = 3000000\<rparr> (Ev_sticky_modifier mf_left_shift sm_toggle)
       key_up (Ev_momentary_switch_event (mse 1 144)) st_manipulated True"

theorem entry_json_round_trip_witness:
  "entry_make_from_json witness_platform
     (entry_to_json witness_platform witness_world (typed_entry_of sample_stored_entry)) \<lparr>ld_world = witness_world, ld_next = 0\<rparr> =
   Inr (typed_entry_of (sample_stored_entry
          \<lparr>en_event_time_stamp := \<lparr>ets_time_stamp = 20000000, ets_input_delay_duration = 3000000\<rparr>\<rparr>),
        \<lparr>ld_world = witness_world, ld_next = 0\<rparr>)"
proof -
  have "mse_to_json (mse 1 144) = Some (''generic_desktop'', ''dpad_up'')"
    by (simp add: mse_to_json_def Let_def key_code_target_def consumer_key_code_target_def
        apple_vendor_keyboard_target_def apple_vendor_top_case_target_def pointing_button_target_def
        generic_desktop_target_def make_name_def find_pair_def generic_desktop_name_value_pairs_def)
  then have "storable_entry witness_platform sample_stored_entry"
    by (simp add: storable_entry_def sample_stored_entry_def make_entry_def storable_momentary_switch_event_def
        mse_def milliseconds_ok_def witness_platform_def)
  moreover have "entry_in_milliseconds witness_platform sample_stored_entry = sample_stored_entry
      \<lparr>en_event_time_stamp := \<lparr>ets_time_stamp = 20000000, ets_input_delay_duration = 3000000\<rparr>\<rparr>"
    by (simp add: entry_in_milliseconds_def in_milliseconds_def sample_stored_entry_def make_entry_def
        witness_platform_def)
  ultimately show ?thesis using entry_json_round_trip[of witness_platform sample_stored_entry] by simp
qed

text \<open>
  The ids of devices are registry entry ids with 64 bits. The reader asks for 32, so a larger id is
  read as another one.
\<close>

lemma wide_device_id_is_cut:
  "map_sum id (\<lambda>(e, l). ty_device_id e)
     (entry_make_from_json P (entry_to_json P w (typed_entry_of (sample_stored_entry\<lparr>en_device_id := 2 ^ 32 + 7\<rparr>))) l) = Inr 7"
  by (simp add: entry_make_from_json_def entry_to_json_def typed_entry_of_def json_find_def json_find_as_def
      or_else_def sample_stored_entry_def make_entry_def event_type_from_json_def event_member_def split_beta)

end
