(* ===== verification/Console_User_Server.thy ===== *)
theory Console_User_Server
  imports Messages Core_Configuration
begin

text \<open>
  The process of the user who is at the console, \<open>src/core/console_user_server\<close>: it tells the grabber
  what the user's session looks like and does what the grabber cannot do as root. Here are
  \<open>components_manager.hpp\<close>, \<open>software_function_handler.hpp\<close>, \<open>updater_process_manager.hpp\<close> and
  \<open>src/share/monitor/configuration_monitor.hpp\<close>, which the grabber uses too.

  A handler returns the actions it takes outside the process and the new state. What macOS answers
  (which applications run, the displays) is a parameter. The theory shows which application a
  history index opens, that a broken configuration never replaces a good one, that orders of the
  grabber arrive, and that the parts of the server live and die together.
\<close>

subsection \<open>software_function_handler\<close>

text \<open>What the session answers: running applications, displays and the sizes of their bounds.\<close>

record session_environment =
  se_running_by_file_path :: "string \<Rightarrow> bool"
  se_running_by_bundle_identifier :: "string \<Rightarrow> bool"
  se_active_displays :: "nat list"
  se_display_of_cursor :: "nat option"
  se_display_size :: "nat \<Rightarrow> int \<times> int"

datatype session_action =
    Sa_ask_for_trust
  | Sa_double_click nat
  | Sa_sleep_after milliseconds
  | Sa_open_by_bundle_identifier string
  | Sa_open_by_file_path string
  | Sa_move_cursor nat "int \<times> int"

record software_function_handler =
  sfh_check_trusted :: bool
  sfh_history :: "application list"

definition software_function_handler_initial :: software_function_handler where
  "software_function_handler_initial = \<lparr>sfh_check_trusted = False, sfh_history = []\<rparr>"

definition history_max_size :: nat where
  "history_max_size = 20"

definition add_frontmost_application_history ::
    "application \<Rightarrow> software_function_handler \<Rightarrow> software_function_handler" where
  "add_frontmost_application_history a h =
     h\<lparr>sfh_history := take history_max_size (a # erase_if (\<lambda>b. b = a) (sfh_history h))\<rparr>"

text \<open>The bundle path decides whether an application runs, and the bundle identifier if there is none.\<close>

definition application_runs :: "session_environment \<Rightarrow> application \<Rightarrow> bool" where
  "application_runs E a =
     (case app_bundle_path a of
        Some p \<Rightarrow> se_running_by_file_path E p
      | None \<Rightarrow> (case app_bundle_identifier a of
                  Some b \<Rightarrow> se_running_by_bundle_identifier E b | None \<Rightarrow> False))"

fun history_target ::
    "session_environment \<Rightarrow> nat \<Rightarrow> application list \<Rightarrow> application option \<Rightarrow> application option" where
  "history_target E i [] t = t"
| "history_target E i (a # as) t =
     (if \<not> application_runs E a then history_target E i as t
      else if i > 0 then history_target E (i - 1) as (Some a)
      else Some a)"

definition open_target :: "application \<Rightarrow> session_action list" where
  "open_target a =
     (case app_bundle_path a of
        Some p \<Rightarrow> [Sa_open_by_file_path p]
      | None \<Rightarrow> (case app_bundle_identifier a of Some b \<Rightarrow> [Sa_open_by_bundle_identifier b] | None \<Rightarrow> []))"

definition execute_open_application ::
    "session_environment \<Rightarrow> open_application \<Rightarrow> application list \<Rightarrow> session_action list" where
  "execute_open_application E oa hs =
     (case oa of (b, f, i) \<Rightarrow>
        (case b of
           Some x \<Rightarrow> [Sa_open_by_bundle_identifier x]
         | None \<Rightarrow>
             (case f of
                Some x \<Rightarrow> [Sa_open_by_file_path x]
              | None \<Rightarrow>
                  (case i of
                     Some n \<Rightarrow> (case history_target E n hs None of Some a \<Rightarrow> open_target a | None \<Rightarrow> [])
                   | None \<Rightarrow> []))))"

definition get_target_display_id :: "session_environment \<Rightarrow> nat option \<Rightarrow> nat option" where
  "get_target_display_id E screen =
     (case screen of
        Some n \<Rightarrow> if n < length (se_active_displays E) then Some (se_active_displays E ! n) else None
      | None \<Rightarrow> se_display_of_cursor E)"

definition get_point :: "int \<times> int \<Rightarrow> int \<times> position_type \<Rightarrow> int \<times> position_type \<Rightarrow> int \<times> int" where
  "get_point bounds x y = (point_value (fst bounds) x, point_value (snd bounds) y)"

definition execute_software_function ::
    "session_environment \<Rightarrow> software_function \<Rightarrow> software_function_handler \<Rightarrow>
     session_action list \<times> software_function_handler" where
  "execute_software_function E f h =
     (case f of
        Sf_cg_event_double_click b \<Rightarrow>
          ((if sfh_check_trusted h then [] else [Sa_ask_for_trust]) @ [Sa_double_click b],
           h\<lparr>sfh_check_trusted := True\<rparr>)
      | Sf_iokit_power_management_sleep_system d \<Rightarrow> ([Sa_sleep_after d], h)
      | Sf_open_application b p i \<Rightarrow> (execute_open_application E (b, p, i) (sfh_history h), h)
      | Sf_set_mouse_cursor_position x y screen \<Rightarrow>
          ((case get_target_display_id E screen of
              Some d \<Rightarrow> [Sa_move_cursor d (get_point (se_display_size E d) x y)]
            | None \<Rightarrow> []), h)
      | Sf_none \<Rightarrow> ([], h))"

subsection \<open>The history of frontmost applications\<close>

lemma take_filter_neq: "take n (filter (\<lambda>b. b \<noteq> a) (take (Suc n) as)) = take n (filter (\<lambda>b. b \<noteq> a) as)"
  if "distinct as"
  using that
proof (induction as arbitrary: n)
  case (Cons x xs)
  show ?case
  proof (cases "x = a")
    case True
    with Cons.prems have "filter (\<lambda>b. b \<noteq> a) xs = xs" "filter (\<lambda>b. b \<noteq> a) (take n xs) = take n xs"
      by (auto intro!: filter_True dest: in_set_takeD)
    with True show ?thesis by simp
  next
    case False
    with Cons show ?thesis by (cases n) auto
  qed
qed simp

lemma remdups_snoc: "remdups (as @ [a]) = filter (\<lambda>b. b \<noteq> a) (remdups as) @ [a]"
  by (induction as) auto

lemma history_of_additions:
  "sfh_history (fold add_frontmost_application_history as software_function_handler_initial) =
     take history_max_size (rev (remdups as))"
proof (induction as rule: rev_induct)
  case (snoc a as)
  then show ?case
    using take_filter_neq[of "rev (remdups as)" 19 a]
    by (simp add: add_frontmost_application_history_def history_max_size_def erase_if_def remdups_snoc
        rev_filter numeral_eq_Suc del: take_Suc_Cons)
      (simp add: numeral_eq_Suc)
qed (simp add: software_function_handler_initial_def)

lemma history_target_filter:
  "history_target E i as t =
     (let rs = filter (application_runs E) as in if rs = [] then t else Some (rs ! min i (length rs - 1)))"
proof (induction E i as t rule: history_target.induct)
  case (2 E i a as t)
  then show ?case
    by (cases "filter (application_runs E) as") (auto simp: Let_def nth_Cons' min_def)
qed simp

text \<open>
  What tells one application from another for the user: where its bundle is and what it is called.
  Entries of the history are compared with the path of the executable and the process id as well.
\<close>

definition app_identity :: "application \<Rightarrow> string option \<times> string option" where
  "app_identity a = (app_bundle_path a, app_bundle_identifier a)"

lemma remdups_map_inj: "inj_on f (set xs) \<Longrightarrow> remdups (map f xs) = map f (remdups xs)"
proof (induction xs)
  case (Cons x xs)
  then have "f x \<in> f ` set xs \<longleftrightarrow> x \<in> set xs" by (auto simp: inj_on_def)
  with Cons show ?case by (simp add: inj_on_def)
qed simp

text \<open>
  C30. Opening by history index: whatever came to the front, the index counts the running ones among
  the last twenty different entries, newest first, and an index that is too large means the oldest of
  them. Entries differ when bundle identifier, bundle path, file path or process id differ. As long
  as every application came to the front in one process, these are the last twenty different
  applications.
\<close>

theorem history_index_counts_running_applications:
  "execute_open_application E (None, None, Some n)
      (sfh_history (fold add_frontmost_application_history as software_function_handler_initial)) =
    (let rs = filter (application_runs E) (take 20 (rev (remdups as)))
     in if rs = [] then [] else open_target (rs ! min n (length rs - 1))) \<and>
   (inj_on app_identity (set as) \<longrightarrow>
     map app_identity (take 20 (rev (remdups as))) = take 20 (rev (remdups (map app_identity as))))"
  by (simp add: execute_open_application_def history_of_additions history_max_size_def
      history_target_filter Let_def remdups_map_inj take_map rev_map)

text \<open>
  Applications are the same only with the same process id, so an application that was started again
  is in the history twice, and running, once for each of its processes.
\<close>

lemma restarted_application_is_counted_twice:
  assumes "app_bundle_path a = Some p" "se_running_by_file_path E p" "app_pid a \<noteq> i"
  shows "execute_open_application E (None, None, Some 1)
      (sfh_history (fold add_frontmost_application_history [b, a, a\<lparr>app_pid := i\<rparr>] software_function_handler_initial)) =
    [Sa_open_by_file_path p]"
proof -
  have "a\<lparr>app_pid := i\<rparr> \<noteq> a" "a \<noteq> a\<lparr>app_pid := i\<rparr>" using assms(3) by (metis application.select_convs(4) application.surjective application.update_convs(4))+
  then show ?thesis using assms(1,2)
    by (auto simp: execute_open_application_def add_frontmost_application_history_def erase_if_def
        history_max_size_def software_function_handler_initial_def application_runs_def open_target_def)
qed


subsection \<open>configuration_monitor\<close>

record configuration_monitor =
  cm_configuration :: "configuration option"
  cm_parse_error :: "json_error option"

definition configuration_monitor_initial :: configuration_monitor where
  "configuration_monitor_initial = \<lparr>cm_configuration = None, cm_parse_error = None\<rparr>"

text \<open>
  The file to read when a file has changed. The system-wide configuration is only used while the
  user has none; without a console user server both paths are the same.
\<close>

definition file_to_load :: "(string \<Rightarrow> config_file) \<Rightarrow> string \<Rightarrow> string \<Rightarrow> string \<Rightarrow> string option" where
  "file_to_load files user_path system_path changed =
     (if cf_exists (files user_path)
      then if changed \<noteq> user_path \<and> changed = system_path then None else Some changed
      else if changed = user_path \<and> cf_exists (files system_path) then Some system_path
      else Some changed)"

text \<open>The configuration that is signalled, if one is. An exception of the constructor ends the handler.\<close>

definition configuration_file_changed ::
    "json_text \<Rightarrow> error_handling \<Rightarrow> string \<Rightarrow> string \<Rightarrow> (string \<Rightarrow> config_file) \<Rightarrow> string \<Rightarrow>
     configuration_monitor \<Rightarrow> configuration option \<times> configuration_monitor" where
  "configuration_file_changed T eh user_path system_path files changed m =
     (case file_to_load files user_path system_path changed of
        None \<Rightarrow> (None, m)
      | Some path \<Rightarrow>
          (case create_configuration T eh (files path) of
             Inl e \<Rightarrow> (None, m)
           | Inr c \<Rightarrow>
               (let m1 = m\<lparr>cm_parse_error := cfg_parse_error c\<rparr> in
                case cm_configuration m of
                  None \<Rightarrow> (Some c, m1\<lparr>cm_configuration := Some c\<rparr>)
                | Some c0 \<Rightarrow>
                    if \<not> cfg_loaded c then (None, m1)
                    else if configuration_to_json T c0 = configuration_to_json T c then (None, m1)
                    else (Some c, m1\<lparr>cm_configuration := Some c\<rparr>))))"

text \<open>What a monitor signals over a sequence of changes, each with the files as they were then.\<close>

fun monitor_changes ::
    "json_text \<Rightarrow> error_handling \<Rightarrow> string \<Rightarrow> string \<Rightarrow> ((string \<Rightarrow> config_file) \<times> string) list \<Rightarrow>
     configuration_monitor \<Rightarrow> configuration list \<times> configuration_monitor" where
  "monitor_changes T eh user_path system_path [] m = ([], m)"
| "monitor_changes T eh user_path system_path ((files, changed) # fs) m =
     (case configuration_file_changed T eh user_path system_path files changed m of
        (signalled, m1) \<Rightarrow>
          (case monitor_changes T eh user_path system_path fs m1 of
             (cs, m2) \<Rightarrow> ((case signalled of None \<Rightarrow> cs | Some c \<Rightarrow> c # cs), m2)))"

fun neighbours :: "('a \<Rightarrow> 'a \<Rightarrow> bool) \<Rightarrow> 'a list \<Rightarrow> bool" where
  "neighbours R (x # y # xs) \<longleftrightarrow> R x y \<and> neighbours R (y # xs)"
| "neighbours R _ \<longleftrightarrow> True"

definition signals_follow :: "json_text \<Rightarrow> configuration option \<Rightarrow> configuration list \<Rightarrow> bool" where
  "signals_follow T c0 cs \<longleftrightarrow>
     list_all cfg_loaded (case c0 of None \<Rightarrow> tl cs | Some _ \<Rightarrow> cs)
     \<and> neighbours (\<lambda>c c'. configuration_to_json T c \<noteq> configuration_to_json T c')
         (case c0 of None \<Rightarrow> cs | Some c \<Rightarrow> c # cs)"

lemma configuration_change_cases:
  obtains (same) "fst (configuration_file_changed T eh u s files p m) = None"
    "cm_configuration (snd (configuration_file_changed T eh u s files p m)) = cm_configuration m"
  | (new) c path where "fst (configuration_file_changed T eh u s files p m) = Some c"
    "cm_configuration (snd (configuration_file_changed T eh u s files p m)) = Some c"
    "create_configuration T eh (files path) = Inr c" "file_to_load files u s p = Some path"
    "\<And>c0. cm_configuration m = Some c0 \<Longrightarrow>
       cfg_loaded c \<and> configuration_to_json T c0 \<noteq> configuration_to_json T c"
proof -
  consider "file_to_load files u s p = None"
    | path e where "file_to_load files u s p = Some path" "create_configuration T eh (files path) = Inl e"
    | path c where "file_to_load files u s p = Some path" "create_configuration T eh (files path) = Inr c"
    by (metis option.exhaust sum.exhaust)
  then show ?thesis
  proof cases
    case (3 path c)
    show ?thesis
    proof (cases "\<exists>c0. cm_configuration m = Some c0 \<and>
        (\<not> cfg_loaded c \<or> configuration_to_json T c0 = configuration_to_json T c)")
      case True
      with 3 show ?thesis by (intro that(1)) (auto simp: configuration_file_changed_def Let_def)
    next
      case False
      with 3 show ?thesis
        by (intro that(2)[of c path]) (auto simp: configuration_file_changed_def Let_def split: option.splits)
    qed
  qed (auto intro!: that(1) simp: configuration_file_changed_def)
qed

lemma monitor_changes_follow:
  "monitor_changes T eh u s fs m = (cs, m') \<Longrightarrow>
     signals_follow T (cm_configuration m) cs \<and>
     cm_configuration m' = (if cs = [] then cm_configuration m else Some (last cs))"
proof (induction fs arbitrary: m cs)
  case (Cons fp fs)
  obtain files p where fp: "fp = (files, p)" by force
  let ?m = "snd (configuration_file_changed T eh u s files p m)"
  obtain ds where ds: "monitor_changes T eh u s fs ?m = (ds, m')"
    "cs = (case fst (configuration_file_changed T eh u s files p m) of None \<Rightarrow> ds | Some c \<Rightarrow> c # ds)"
    using Cons.prems fp by (auto split: prod.splits)
  show ?case
  proof (cases rule: configuration_change_cases[of T eh u s files p m])
    case same
    then show ?thesis using Cons.IH[OF ds(1)] ds(2) by simp
  next
    case (new c path)
    then show ?thesis using Cons.IH[OF ds(1)] ds(2)
      by (cases "cm_configuration m") (auto simp: signals_follow_def)
  qed
qed (auto simp: signals_follow_def split: option.splits)

text \<open>
  C27. Whatever happens to the files, a broken or missing file never replaces a configuration: every
  configuration signalled after the first one was loaded without error, it differs from the one
  before, and the last one signalled is the one in force.
\<close>

theorem broken_file_keeps_configuration:
  assumes "monitor_changes T eh user_path system_path fs configuration_monitor_initial = (cs, m)"
  shows "list_all cfg_loaded (tl cs) \<and>
    neighbours (\<lambda>c c'. configuration_to_json T c \<noteq> configuration_to_json T c') cs \<and>
    cm_configuration m = (if cs = [] then None else Some (last cs))"
  using monitor_changes_follow[OF assms] by (simp add: signals_follow_def configuration_monitor_initial_def)

text \<open>While the user has a configuration file, the system-wide one is not looked at.\<close>

lemma system_configuration_ignored:
  "cf_exists (files u) \<Longrightarrow> s \<noteq> u \<Longrightarrow> configuration_file_changed T eh u s files s m = (None, m)"
  by (simp add: configuration_file_changed_def file_to_load_def)

theorem broken_file_keeps_configuration_witness:
  "\<exists>c. create_configuration unary_json_text loose missing_file = Inr c \<and>
     fst (monitor_changes unary_json_text loose ''u'' ''s''
       [(\<lambda>_. missing_file, ''u''), (\<lambda>_. missing_file, ''s'')] configuration_monitor_initial) = [c] \<and>
     list_all cfg_loaded (tl [c])"
proof -
  obtain c where c: "create_configuration unary_json_text loose missing_file = Inr c"
    using missing_file_configuration by blast
  have l: "\<not> cfg_loaded c" using missing_file_configuration[of loose unary_json_text] c
    by (auto simp: create_configuration_def load_configuration_def missing_file_def initial_configuration_def
        Let_def split: if_splits)
  let ?fs = "[(\<lambda>_. missing_file, ''u''), (\<lambda>_. missing_file, ''s'')]"
  have r: "fst (monitor_changes unary_json_text loose ''u'' ''s'' ?fs configuration_monitor_initial) = [c]"
    using c l by (simp add: configuration_file_changed_def file_to_load_def configuration_monitor_initial_def
        missing_file_def Let_def)
  from broken_file_keeps_configuration[of unary_json_text loose "''u''" "''s''" ?fs "[c]"
      "snd (monitor_changes unary_json_text loose ''u'' ''s'' ?fs configuration_monitor_initial)"] r c
  show ?thesis by (metis prod.collapse)
qed


subsection \<open>components_manager\<close>

text \<open>The child components live together; \<open>updater_process_manager\<close> is the flag of its one check.\<close>

record console_children =
  ch_configuration_monitor :: configuration_monitor
  ch_update_checked :: bool
  ch_software_function_handler :: software_function_handler

definition start_child_components :: console_children where
  "start_child_components =
     \<lparr>ch_configuration_monitor = configuration_monitor_initial, ch_update_checked = False,
      ch_software_function_handler = software_function_handler_initial\<rparr>"

record console_user_server =
  cu_on_console :: "bool option"
  cu_client :: "grabber_client option"
  cu_children :: "console_children option"

definition console_user_server_initial :: console_user_server where
  "console_user_server_initial = \<lparr>cu_on_console = None, cu_client = None, cu_children = None\<rparr>"

datatype console_action =
    Ca_check_version
  | Ca_make_user_directory
  | Ca_menu bool
  | Ca_multitouch_extension bool
  | Ca_notification_window bool
  | Ca_launch_settings
  | Ca_check_for_updates_after milliseconds
  | Ca_select_input_source "input_source_specifier list"
  | Ca_run_shell_command string
  | Ca_session session_action

definition start_grabber_client :: "console_user_server \<Rightarrow> console_user_server" where
  "start_grabber_client s =
     (if cu_client s \<noteq> None then s
      else if cu_on_console s \<noteq> Some True then s
      else s\<lparr>cu_client := Some (gc_async_start grabber_client_initial)\<rparr>)"

definition stop_grabber_client :: "console_user_server \<Rightarrow> console_user_server" where
  "stop_grabber_client s = s\<lparr>cu_client := None, cu_children := None\<rparr>"

definition on_console_changed :: "bool \<Rightarrow> console_user_server \<Rightarrow> console_action list \<times> console_user_server" where
  "on_console_changed b s =
     ([Ca_check_version, Ca_make_user_directory],
      start_grabber_client (stop_grabber_client (s\<lparr>cu_on_console := Some b\<rparr>)))"

text \<open>The signals of the client; they come only while there is one.\<close>

definition grabber_connected :: "string \<Rightarrow> console_user_server \<Rightarrow> console_action list \<times> console_user_server" where
  "grabber_connected configuration_path s =
     (case cu_client s of
        None \<Rightarrow> ([], s)
      | Some c \<Rightarrow> ([Ca_check_version],
          s\<lparr>cu_client := Some (gc_connect_console_user_server configuration_path c),
            cu_children := Some start_child_components\<rparr>))"

definition grabber_disconnected :: "console_user_server \<Rightarrow> console_action list \<times> console_user_server" where
  "grabber_disconnected s =
     (if cu_client s = None then ([], s) else ([Ca_check_version], s\<lparr>cu_children := None\<rparr>))"

definition heartbeat_deadline_exceeded :: "console_user_server \<Rightarrow> console_action list \<times> console_user_server" where
  "heartbeat_deadline_exceeded s =
     (if cu_client s = None then ([], s) else ([], start_grabber_client (stop_grabber_client s)))"

text \<open>A message of the grabber. An exception in the handler ends it: the message is ignored.\<close>

definition console_message ::
    "platform \<Rightarrow> session_environment \<Rightarrow> json \<Rightarrow> console_user_server \<Rightarrow>
     json_error + console_action list \<times> console_user_server" where
  "console_message P E j s =
     ok_bind (json_member_at ''operation_type'' j) (\<lambda>t.
     case operation_type_from_json t of
       op_select_input_source \<Rightarrow>
         ok_bind (json_member_at ''input_source_specifiers'' j) (\<lambda>v.
         ok_bind (specifiers_get P v) (\<lambda>ss.
         Inr ((if cu_children s = None then [] else [Ca_select_input_source ss]), s)))
     | op_shell_command_execution \<Rightarrow>
         ok_bind (json_member_at ''shell_command'' j) (\<lambda>v.
         ok_bind (json_get_string v) (\<lambda>c.
         Inr ((if cu_children s = None then [] else [Ca_run_shell_command c]), s)))
     | op_software_function \<Rightarrow>
         (case cu_children s of
            None \<Rightarrow> Inr ([], s)
          | Some ch \<Rightarrow>
              ok_bind (json_member_at ''software_function'' j) (\<lambda>v.
              ok_bind (software_function_from_json v) (\<lambda>f.
              case execute_software_function E f (ch_software_function_handler ch) of
                (as, h) \<Rightarrow> Inr (map Ca_session as,
                                s\<lparr>cu_children := Some (ch\<lparr>ch_software_function_handler := h\<rparr>)\<rparr>))))
     | _ \<Rightarrow> Inr ([], s))"

definition console_received ::
    "platform \<Rightarrow> session_environment \<Rightarrow> buffer \<Rightarrow> console_user_server \<Rightarrow> console_action list \<times> console_user_server" where
  "console_received P E b s =
     (case b of
        Packed j \<Rightarrow> if cu_client s = None then ([], s)
                    else (case console_message P E j s of Inl e \<Rightarrow> ([], s) | Inr r \<Rightarrow> r)
      | _ \<Rightarrow> ([], s))"

text \<open>The configuration of the user, by which the agents of the session are started and stopped.\<close>

definition configuration_actions :: "string \<Rightarrow> configuration \<Rightarrow> console_action list" where
  "configuration_actions machine_identifier c =
     [Ca_menu (get_show_in_menu_bar (cfg_global c) \<or> get_show_profile_name_in_menu_bar (cfg_global c)),
      Ca_multitouch_extension
        (get_enable_multitouch_extension (fst (get_entry machine_identifier (cfg_machine_specific c)))),
      Ca_notification_window (get_enable_notification_window (cfg_global c))]
     @ (case get_selected_profile c of
          None \<Rightarrow> []
        | Some p \<Rightarrow> if get_keyboard_type_v2 (pfl_virtual_hid_keyboard p) = [] then [Ca_launch_settings] else [])"

text \<open>\<open>updater_process_manager\<close> checks once, with the first configuration: \<open>checked\<close> is its flag.\<close>

definition updater_configuration_updated :: "configuration \<Rightarrow> bool \<Rightarrow> console_action list \<times> bool" where
  "updater_configuration_updated c checked =
     (if checked then ([], checked)
      else (if get_check_for_updates_on_startup (cfg_global c) then [Ca_check_for_updates_after 30000] else [], True))"

definition user_configuration_updated ::
    "string \<Rightarrow> configuration \<Rightarrow> console_user_server \<Rightarrow> console_action list \<times> console_user_server" where
  "user_configuration_updated machine_identifier c s =
     (case cu_children s of
        None \<Rightarrow> ([], s)
      | Some ch \<Rightarrow>
          (case updater_configuration_updated c (ch_update_checked ch) of
             (checks, checked) \<Rightarrow>
               (configuration_actions machine_identifier c @ checks,
                s\<lparr>cu_children := Some (ch\<lparr>ch_update_checked := checked\<rparr>)\<rparr>)))"

definition tell_grabber :: "(grabber_client \<Rightarrow> grabber_client) \<Rightarrow> console_user_server \<Rightarrow> console_user_server" where
  "tell_grabber f s = s\<lparr>cu_client := map_option f (cu_client s)\<rparr>"

definition session_system_preferences_changed ::
    "system_preferences_properties \<Rightarrow> console_user_server \<Rightarrow> console_user_server" where
  "session_system_preferences_changed p s =
     (if cu_children s = None then s else tell_grabber (gc_system_preferences_updated p) s)"

definition is_event_viewer :: "application \<Rightarrow> bool" where
  "is_event_viewer a \<longleftrightarrow>
     app_bundle_identifier a \<in> {Some ''org.pqrs.Karabiner.EventViewer'', Some ''org.pqrs.Karabiner-EventViewer''}"

definition session_frontmost_application_changed :: "application \<Rightarrow> console_user_server \<Rightarrow> console_user_server" where
  "session_frontmost_application_changed a s =
     (case cu_children s of
        None \<Rightarrow> s
      | Some ch \<Rightarrow>
          (let s1 = s\<lparr>cu_children := Some (ch\<lparr>ch_software_function_handler :=
                       add_frontmost_application_history a (ch_software_function_handler ch)\<rparr>)\<rparr>
           in if is_event_viewer a then s1 else tell_grabber (gc_frontmost_application_changed a) s1))"

definition session_input_source_changed :: "input_source_properties \<Rightarrow> console_user_server \<Rightarrow> console_user_server" where
  "session_input_source_changed p s =
     (if cu_children s = None then s else tell_grabber (gc_input_source_changed p) s)"

subsection \<open>Runs of the server\<close>

inductive console_run ::
    "platform \<Rightarrow> session_environment \<Rightarrow> string \<Rightarrow> console_user_server \<Rightarrow> bool" for P E i where
  cn_initial: "console_run P E i console_user_server_initial"
| cn_console: "console_run P E i s \<Longrightarrow> console_run P E i (snd (on_console_changed b s))"
| cn_connected: "console_run P E i s \<Longrightarrow> console_run P E i (snd (grabber_connected path s))"
| cn_disconnected: "console_run P E i s \<Longrightarrow> console_run P E i (snd (grabber_disconnected s))"
| cn_heartbeat: "console_run P E i s \<Longrightarrow> console_run P E i (snd (heartbeat_deadline_exceeded s))"
| cn_received: "console_run P E i s \<Longrightarrow> console_run P E i (snd (console_received P E b s))"
| cn_configuration: "console_run P E i s \<Longrightarrow> console_run P E i (snd (user_configuration_updated i c s))"
| cn_preferences: "console_run P E i s \<Longrightarrow> console_run P E i (session_system_preferences_changed p s)"
| cn_frontmost: "console_run P E i s \<Longrightarrow> console_run P E i (session_frontmost_application_changed a s)"
| cn_input_source: "console_run P E i s \<Longrightarrow> console_run P E i (session_input_source_changed q s)"

definition parts_ok :: "console_user_server \<Rightarrow> bool" where
  "parts_ok s \<longleftrightarrow>
     (cu_children s \<noteq> None \<longrightarrow> cu_client s \<noteq> None) \<and>
     (case cu_client s of None \<Rightarrow> True | Some c \<Rightarrow> cu_on_console s = Some True \<and> gc_started c)"

lemma gc_started_after [simp]:
  "gc_started (gc_send j c) = gc_started c" "gc_started (gc_connect_console_user_server path c) = gc_started c"
  "gc_started (gc_system_preferences_updated p c) = gc_started c"
  "gc_started (gc_frontmost_application_changed a c) = gc_started c"
  "gc_started (gc_input_source_changed q c) = gc_started c"
  by (simp_all add: gc_send_def gc_connect_console_user_server_def gc_system_preferences_updated_def
      gc_frontmost_application_changed_def gc_input_source_changed_def)

lemma console_message_state:
  assumes "console_message P E j s = Inr (as, s')"
  shows "s' = s \<or> (\<exists>ch. cu_children s \<noteq> None \<and> s' = s\<lparr>cu_children := Some ch\<rparr>)"
proof -
  obtain t where t: "json_member_at ''operation_type'' j = Inr t"
    using assms by (auto simp: console_message_def)
  show ?thesis
  proof (cases "operation_type_from_json t = op_software_function")
    case True
    with assms t show ?thesis
      by (cases "cu_children s") (auto simp: console_message_def split_beta)
  next
    case False
    with assms t show ?thesis
      by (cases "operation_type_from_json t") (auto simp: console_message_def)
  qed
qed

lemma console_message_parts:
  "parts_ok s \<Longrightarrow> console_message P E j s = Inr (as, s') \<Longrightarrow> parts_ok s'"
  using console_message_state[of P E j s as s'] by (auto simp: parts_ok_def)

text \<open>
  The parts of the server live and die together: in every run the child components, which watch the
  user's session, exist only with a client of the grabber, and the client only while the user is
  known to be at the console.
\<close>

theorem console_parts_live_together:
  assumes "console_run P E i s"
  shows "(cu_children s \<noteq> None \<longrightarrow> cu_client s \<noteq> None) \<and>
    (cu_client s \<noteq> None \<longrightarrow> cu_on_console s = Some True)"
proof -
  have "parts_ok s"
    using assms
  proof (induction rule: console_run.induct)
    case (cn_received s b)
    then show ?case
      using console_message_parts[of s P E]
      by (auto simp: console_received_def split: buffer.splits sum.splits)
  qed (auto simp: parts_ok_def console_user_server_initial_def on_console_changed_def start_grabber_client_def
      stop_grabber_client_def gc_async_start_def grabber_client_initial_def grabber_connected_def
      grabber_disconnected_def heartbeat_deadline_exceeded_def user_configuration_updated_def split_beta tell_grabber_def
      session_system_preferences_changed_def session_frontmost_application_changed_def
      session_input_source_changed_def Let_def split: option.splits)
  then show ?thesis by (auto simp: parts_ok_def split: option.splits)
qed


subsection \<open>Orders of the grabber\<close>

text \<open>
  C28. Orders of the grabber arrive: while the server watches the session, every shell command, every
  choice of an input source by regular expressions that compile and every software function in the
  ranges of its numbers that the grabber sends is executed as it was meant, and nothing else changes.
\<close>

theorem grabber_orders_arrive:
  assumes "cu_client s \<noteq> None" "cu_children s = Some ch"
    and "list_all (specifier_ok P) ss" "storable_software_function f"
  shows "map (\<lambda>j. console_received P E (Packed j) s) (cusc_shell_command_execution True c) =
      [([Ca_run_shell_command c], s)] \<and>
    map (\<lambda>j. console_received P E (Packed j) s) (cusc_select_input_source True ss) =
      [([Ca_select_input_source ss], s)] \<and>
    map (\<lambda>j. console_received P E (Packed j) s) (cusc_software_function True f) =
      [(map Ca_session (fst (execute_software_function E f (ch_software_function_handler ch))),
        s\<lparr>cu_children := Some (ch\<lparr>ch_software_function_handler :=
            snd (execute_software_function E f (ch_software_function_handler ch))\<rparr>)\<rparr>)]"
  using assms
  by (simp add: console_received_def console_message_def cusc_shell_command_execution_def
      cusc_select_input_source_def cusc_software_function_def client_sends_def specifiers_round_trip
      software_function_round_trip split_beta)

subsection \<open>Examples\<close>

definition sample_session :: session_environment where
  "sample_session =
     \<lparr>se_running_by_file_path = (\<lambda>_. True), se_running_by_bundle_identifier = (\<lambda>_. True),
      se_active_displays = [1], se_display_of_cursor = Some 1, se_display_size = (\<lambda>_. (1920, 1080))\<rparr>"

definition sample_console :: console_user_server where
  "sample_console =
     \<lparr>cu_on_console = Some True,
      cu_client = Some (gc_connect_console_user_server ''karabiner.json'' (gc_async_start grabber_client_initial)),
      cu_children = Some start_child_components\<rparr>"

definition sample_application :: "string \<Rightarrow> int \<Rightarrow> application" where
  "sample_application p i =
     \<lparr>app_bundle_identifier = None, app_bundle_path = Some p, app_file_path = None, app_pid = Some i\<rparr>"

theorem history_index_counts_running_applications_witness:
  "execute_open_application sample_session (None, None, Some 1)
      (sfh_history (fold add_frontmost_application_history
         [sample_application ''mail'' 1, sample_application ''terminal'' 2, sample_application ''safari'' 3,
          sample_application ''terminal'' 2] software_function_handler_initial)) =
    [Sa_open_by_file_path ''safari''] \<and>
   map app_identity (take 20 (rev (remdups
     [sample_application ''mail'' 1, sample_application ''terminal'' 2, sample_application ''safari'' 3,
      sample_application ''terminal'' 2]))) =
     [(Some ''terminal'', None), (Some ''safari'', None), (Some ''mail'', None)]"
  using history_index_counts_running_applications[of sample_session 1
      "[sample_application ''mail'' 1, sample_application ''terminal'' 2, sample_application ''safari'' 3,
        sample_application ''terminal'' 2]"]
  by (simp add: sample_application_def app_identity_def application_runs_def sample_session_def open_target_def
      inj_on_def)

theorem grabber_orders_arrive_witness:
  "map (\<lambda>j. console_received witness_platform sample_session (Packed j) sample_console)
      (cusc_software_function True (Sf_set_mouse_cursor_position (50, pos_percent) (7, pos_point) None)) =
    [([Ca_session (Sa_move_cursor 1 (960, 7))], sample_console)]"
  using grabber_orders_arrive[of sample_console start_child_components witness_platform "[]"
      "Sf_set_mouse_cursor_position (50, pos_percent) (7, pos_point) None" sample_session "[]"]
  by (simp add: sample_console_def int32_def execute_software_function_def sample_session_def
      get_target_display_id_def get_point_def point_value_def start_child_components_def)

theorem console_parts_live_together_witness:
  "cu_children sample_console \<noteq> None \<and> cu_client sample_console \<noteq> None \<and> cu_on_console sample_console = Some True"
proof -
  have "sample_console = snd (grabber_connected ''karabiner.json'' (snd (on_console_changed True console_user_server_initial)))"
    by (simp add: sample_console_def grabber_connected_def on_console_changed_def start_grabber_client_def
        stop_grabber_client_def console_user_server_initial_def)
  then have "console_run witness_platform sample_session [] sample_console"
    using console_run.intros by metis
  from console_parts_live_together[OF this] show ?thesis by (simp add: sample_console_def)
qed

end
