(* ===== verification/Grabber_Receiver.thy ===== *)
theory Grabber_Receiver
  imports Messages Grabber_Liveness
begin

text \<open>
  The receiver, \<open>src/core/grabber/include/grabber/receiver.hpp\<close>: it starts and stops the grabber as
  the user's console server comes and goes, and passes on what the clients tell. It remembers what
  it was told of the session, so that a grabber that is started later knows it too.

  The sockets and the verification of a peer are not modelled: a reply is an action with the end
  point it goes to. The theory shows that whatever runs as grabber is one of the runs of theory
  \<open>Device_Grabber\<close>, that it learns the system preferences that were told last, and that the
  messages of the clients have their effects.
\<close>

subsection \<open>State\<close>

datatype receiver_action =
    Ra_connect_console_user_server string
  | Ra_connect_multitouch_extension string
  | Ra_save_app_icon int
  | Ra_launch_app_icon_switcher
  | Ra_send_verified string json
  | Ra_send_exempt string json

datatype environment_query = Eq_environment string | Eq_system_variables string

text \<open>
  \<open>rc_console_client\<close> holds the configuration file of the server that is connected or connecting,
  \<open>rc_configuration_file\<close> the one the grabber reads, \<open>rc_queries\<close> the functions given to
  \<open>async_invoke_with_manipulator_environment\<close> that wait in the dispatcher of the grabber.
\<close>

record 'k receiver =
  rc_console_client :: "string option"
  rc_multitouch_client :: bool
  rc_grabber :: "'k grabber option"
  rc_configuration_file :: string
  rc_queries :: "environment_query list"
  rc_system_preferences :: system_preferences_properties
  rc_frontmost_application :: application
  rc_input_source :: input_source_properties

definition system_configuration_file :: string where
  "system_configuration_file = ''/Library/Application Support/org.pqrs/config/karabiner.json''"

definition tell_device_grabber :: "grabber_job \<Rightarrow> 'k receiver \<Rightarrow> 'k receiver" where
  "tell_device_grabber j r = r\<lparr>rc_grabber := map_option (enqueue j) (rc_grabber r)\<rparr>"

subsection \<open>Starting and stopping the grabber\<close>

text \<open>A new grabber has the default configuration until its monitor has read a file.\<close>

definition new_grabber :: "'k surroundings \<Rightarrow> string \<Rightarrow> 'k grabber option" where
  "new_grabber G machine_identifier =
     (case create_configuration (su_text G) loose missing_file of
        Inl _ \<Rightarrow> None
      | Inr c \<Rightarrow> grabber_initial G machine_identifier c)"

definition start_device_grabber :: "'k surroundings \<Rightarrow> string \<Rightarrow> string \<Rightarrow> 'k receiver \<Rightarrow> 'k receiver" where
  "start_device_grabber G machine_identifier path r =
     (if rc_grabber r \<noteq> None then r
      else tell_device_grabber Gj_start
             (tell_device_grabber (Gj_post_input_source (rc_input_source r))
               (tell_device_grabber (Gj_post_frontmost_application (rc_frontmost_application r))
                 (tell_device_grabber (Gj_set_system_preferences (rc_system_preferences r))
                   (r\<lparr>rc_grabber := new_grabber G machine_identifier, rc_configuration_file := path\<rparr>)))))"

definition stop_device_grabber :: "'k receiver \<Rightarrow> 'k receiver" where
  "stop_device_grabber r = (if rc_grabber r = None then r else r\<lparr>rc_grabber := None, rc_queries := []\<rparr>)"

definition restart_device_grabber :: "'k surroundings \<Rightarrow> string \<Rightarrow> string \<Rightarrow> 'k receiver \<Rightarrow> 'k receiver" where
  "restart_device_grabber G machine_identifier path r =
     start_device_grabber G machine_identifier path (stop_device_grabber r)"

text \<open>The flag says whether the system-wide configuration file exists.\<close>

definition start_grabbing_if_system_core_configuration_file_exists ::
    "'k surroundings \<Rightarrow> string \<Rightarrow> bool \<Rightarrow> 'k receiver \<Rightarrow> 'k receiver" where
  "start_grabbing_if_system_core_configuration_file_exists G machine_identifier exists r =
     (if exists then restart_device_grabber G machine_identifier system_configuration_file r else r)"

definition receiver_initial :: "'k surroundings \<Rightarrow> string \<Rightarrow> bool \<Rightarrow> 'k receiver" where
  "receiver_initial G machine_identifier exists =
     start_grabbing_if_system_core_configuration_file_exists G machine_identifier exists
       \<lparr>rc_console_client = None, rc_multitouch_client = False, rc_grabber = None, rc_configuration_file = [],
        rc_queries = [], rc_system_preferences = system_preferences_initial,
        rc_frontmost_application = application_initial, rc_input_source = input_source_initial\<rparr>"

text \<open>The signals of the client of the console server.\<close>

definition console_client_connected :: "'k surroundings \<Rightarrow> string \<Rightarrow> 'k receiver \<Rightarrow> 'k receiver" where
  "console_client_connected G machine_identifier r =
     (case rc_console_client r of
        None \<Rightarrow> r
      | Some path \<Rightarrow> restart_device_grabber G machine_identifier path r)"

definition console_client_lost :: "'k surroundings \<Rightarrow> string \<Rightarrow> bool \<Rightarrow> 'k receiver \<Rightarrow> 'k receiver" where
  "console_client_lost G machine_identifier exists r =
     (if rc_console_client r = None then r
      else start_grabbing_if_system_core_configuration_file_exists G machine_identifier exists
             (stop_device_grabber (r\<lparr>rc_console_client := None\<rparr>)))"

subsection \<open>Variables\<close>

definition named_variable :: "string \<Rightarrow> variable_value option \<Rightarrow> set_variable_type \<Rightarrow> set_variable" where
  "named_variable name v t =
     \<lparr>sv_name = Some name, sv_value = v, sv_expression = None, sv_key_up_value = None,
      sv_key_up_expression = None, sv_type = t\<rparr>"

text \<open>The variables before the first one that does not read are posted.\<close>

fun post_variables :: "(string \<times> json) list \<Rightarrow> 'k receiver \<Rightarrow> 'k receiver" where
  "post_variables [] r = r"
| "post_variables ((k, v) # kvs) r =
     (case variable_value_from_json v of
        Inl _ \<Rightarrow> r
      | Inr x \<Rightarrow> post_variables kvs (tell_device_grabber (Gj_post_set_variable (named_variable k (Some x) sv_set)) r))"

definition multitouch_variable_names :: "string list" where
  "multitouch_variable_names =
     [''multitouch_extension_finger_count_upper_quarter_area'',
      ''multitouch_extension_finger_count_lower_quarter_area'',
      ''multitouch_extension_finger_count_left_quarter_area'',
      ''multitouch_extension_finger_count_right_quarter_area'',
      ''multitouch_extension_finger_count_upper_half_area'',
      ''multitouch_extension_finger_count_lower_half_area'',
      ''multitouch_extension_finger_count_left_half_area'',
      ''multitouch_extension_finger_count_right_half_area'',
      ''multitouch_extension_finger_count_total'',
      ''multitouch_extension_palm_count_upper_half_area'',
      ''multitouch_extension_palm_count_lower_half_area'',
      ''multitouch_extension_palm_count_left_half_area'',
      ''multitouch_extension_palm_count_right_half_area'',
      ''multitouch_extension_palm_count_total'']"

definition clear_multitouch_extension_environment_variables :: "'k receiver \<Rightarrow> 'k receiver" where
  "clear_multitouch_extension_environment_variables r =
     fold (\<lambda>n. tell_device_grabber (Gj_post_set_variable (named_variable n None sv_unset)))
       multitouch_variable_names r"

definition multitouch_client_lost :: "'k receiver \<Rightarrow> 'k receiver" where
  "multitouch_client_lost r =
     (if rc_multitouch_client r
      then clear_multitouch_extension_environment_variables (r\<lparr>rc_multitouch_client := False\<rparr>) else r)"

subsection \<open>Messages\<close>

text \<open>An exception ends the handler; what it did before stays, which matters for variables only.\<close>

definition receiver_message :: "string \<Rightarrow> json \<Rightarrow> 'k receiver \<Rightarrow> json_error + receiver_action list \<times> 'k receiver" where
  "receiver_message endpoint j r =
     ok_bind (json_member_at ''operation_type'' j) (\<lambda>t.
     case operation_type_from_json t of
       op_connect_console_user_server \<Rightarrow>
         ok_bind (json_member_at ''user_core_configuration_file_path'' j) (\<lambda>v.
         ok_bind (json_get_string v) (\<lambda>path.
         Inr (if endpoint = [] then ([], r\<lparr>rc_console_client := None\<rparr>)
              else ([Ra_connect_console_user_server endpoint], r\<lparr>rc_console_client := Some path\<rparr>))))
     | op_system_preferences_updated \<Rightarrow>
         ok_bind (json_member_at ''system_preferences_properties'' j) (\<lambda>v.
         ok_bind (system_preferences_from_json v) (\<lambda>p.
         Inr ([], tell_device_grabber (Gj_set_system_preferences p) (r\<lparr>rc_system_preferences := p\<rparr>))))
     | op_frontmost_application_changed \<Rightarrow>
         ok_bind (json_member_at ''frontmost_application'' j) (\<lambda>v.
         ok_bind (application_from_json v) (\<lambda>a.
         Inr ([], tell_device_grabber (Gj_post_frontmost_application a) (r\<lparr>rc_frontmost_application := a\<rparr>))))
     | op_input_source_changed \<Rightarrow>
         ok_bind (json_member_at ''input_source_properties'' j) (\<lambda>v.
         ok_bind (input_source_properties_from_json v) (\<lambda>p.
         Inr ([], tell_device_grabber (Gj_post_input_source p) (r\<lparr>rc_input_source := p\<rparr>))))
     | op_get_manipulator_environment \<Rightarrow>
         Inr ([], if rc_grabber r = None then r else r\<lparr>rc_queries := rc_queries r @ [Eq_environment endpoint]\<rparr>)
     | op_connect_multitouch_extension \<Rightarrow>
         Inr ([Ra_connect_multitouch_extension endpoint], r\<lparr>rc_multitouch_client := True\<rparr>)
     | op_set_app_icon \<Rightarrow>
         ok_bind (json_member_at ''number'' j) (\<lambda>v.
         ok_bind (json_get_int v) (\<lambda>n.
         Inr ([Ra_save_app_icon n, Ra_launch_app_icon_switcher], r)))
     | op_set_variables \<Rightarrow>
         (if rc_grabber r = None then Inr ([], r)
          else ok_bind (json_member_at ''variables'' j) (\<lambda>v. Inr ([], post_variables (json_all_items v) r)))
     | op_get_system_variables \<Rightarrow>
         Inr ([], if rc_grabber r = None then r else r\<lparr>rc_queries := rc_queries r @ [Eq_system_variables endpoint]\<rparr>)
     | _ \<Rightarrow> Inr ([], r))"

definition receiver_received :: "string \<Rightarrow> buffer \<Rightarrow> 'k receiver \<Rightarrow> receiver_action list \<times> 'k receiver" where
  "receiver_received endpoint b r =
     (case b of
        Packed j \<Rightarrow> (case receiver_message endpoint j r of Inl _ \<Rightarrow> ([], r) | Inr x \<Rightarrow> x)
      | _ \<Rightarrow> ([], r))"

subsection \<open>Replies\<close>

text \<open>
  The environment of the complex modifications, as JSON; \<open>names\<close> lists the variables, which the code
  keeps in a hash table and JSON in the order of their names.
\<close>

definition input_source_summary :: "input_source_properties \<Rightarrow> json" where
  "input_source_summary p =
     set_if ''input_mode_id'' (map_option JString (isp_input_mode_id p))
       (set_if ''input_source_id'' (map_option JString (isp_input_source_id p))
         (set_if ''language'' (map_option JString (isp_first_language p)) JNull))"

definition variables_to_json :: "string list \<Rightarrow> manipulator_environment \<Rightarrow> json" where
  "variables_to_json names env =
     JObject (fold (\<lambda>n. put_member n (variable_value_to_json (get_variable n env))) names [])"

definition environment_to_json :: "string list \<Rightarrow> manipulator_environment \<Rightarrow> json" where
  "environment_to_json names env =
     JObject [(''frontmost_application'', application_to_json (env_frontmost_application env)),
              (''input_source'', input_source_summary (env_input_source_properties env)),
              (''karabiner_machine_identifier'', JString (env_karabiner_machine_identifier env)),
              (''variables'', variables_to_json names env),
              (''virtual_hid_devices_state'',
               virtual_hid_devices_state_to_json (env_virtual_hid_devices_state env))]"

definition manipulator_environment_of :: "'k grabber \<Rightarrow> manipulator_environment" where
  "manipulator_environment_of g = q_environment (ct_queues (gb_connector g) ! 2)"

definition system_variables_to_json :: "manipulator_environment \<Rightarrow> json" where
  "system_variables_to_json env =
     JObject (map (\<lambda>n. (n, variable_value_to_json (get_variable n env)))
       [''system.scroll_direction_is_natural'', ''system.use_fkeys_as_standard_function_keys''])"

definition answer_query :: "string list \<Rightarrow> 'k receiver \<Rightarrow> receiver_action list \<times> 'k receiver" where
  "answer_query names r =
     (case (rc_grabber r, rc_queries r) of
        (Some g, q # qs) \<Rightarrow>
          ((case q of
              Eq_environment endpoint \<Rightarrow>
                [Ra_send_verified endpoint (op_message op_manipulator_environment
                   [(''manipulator_environment'', environment_to_json names (manipulator_environment_of g))])]
            | Eq_system_variables endpoint \<Rightarrow>
                [Ra_send_exempt endpoint (op_message op_system_variables
                   [(''system_variables'', system_variables_to_json (manipulator_environment_of g))])]),
           r\<lparr>rc_queries := qs\<rparr>)
      | _ \<Rightarrow> ([], r))"

subsection \<open>Runs of the receiver\<close>

inductive receiver_moves :: "'k surroundings \<Rightarrow> string \<Rightarrow> 'k receiver \<Rightarrow> 'k receiver \<Rightarrow> bool" for G i where
  rm_received: "receiver_moves G i r (snd (receiver_received endpoint b r))"
| rm_connected: "receiver_moves G i r (console_client_connected G i r)"
| rm_lost: "receiver_moves G i r (console_client_lost G i exists r)"
| rm_multitouch: "receiver_moves G i r (multitouch_client_lost r)"
| rm_answer: "receiver_moves G i r (snd (answer_query names r))"
| rm_grabber: "rc_grabber r = Some g \<Longrightarrow> grabber_moves G g g' \<Longrightarrow> receiver_moves G i r (r\<lparr>rc_grabber := Some g'\<rparr>)"

inductive receiver_run :: "'k surroundings \<Rightarrow> string \<Rightarrow> 'k receiver \<Rightarrow> bool" for G i where
  rr_initial: "receiver_run G i (receiver_initial G i exists)"
| rr_moves: "receiver_run G i r \<Longrightarrow> receiver_moves G i r r' \<Longrightarrow> receiver_run G i r'"

subsection \<open>What the grabber knows of the system preferences\<close>

text \<open>The preferences the grabber has once the functions that wait in its dispatcher have run.\<close>

fun learned_preferences :: "grabber_job list \<Rightarrow> system_preferences_properties \<Rightarrow> system_preferences_properties" where
  "learned_preferences [] p = p"
| "learned_preferences (Gj_set_system_preferences q # js) p = learned_preferences js q"
| "learned_preferences (j # js) p = learned_preferences js p"

fun sets_preferences :: "grabber_job \<Rightarrow> bool" where
  "sets_preferences (Gj_set_system_preferences q) = True"
| "sets_preferences j = False"

text \<open>All of a grabber that bears on its preferences; most operations leave it as it is.\<close>

definition preferences_view ::
    "'k grabber \<Rightarrow> system_preferences_properties \<times> grabber_job list \<times> (milliseconds \<times> grabber_job) list" where
  "preferences_view g =
     (gb_system_preferences g, filter sets_preferences (gb_jobs g), filter (sets_preferences \<circ> snd) (gb_delayed g))"

definition told_preferences :: "'k grabber \<Rightarrow> system_preferences_properties" where
  "told_preferences g = learned_preferences (gb_jobs g) (gb_system_preferences g)"

lemma learned_preferences_skip: "\<not> sets_preferences j \<Longrightarrow> learned_preferences (j # js) p = learned_preferences js p"
  by (cases j) simp_all

lemma learned_preferences_filter:
  "learned_preferences (filter sets_preferences js) p = learned_preferences js p"
proof (induction js arbitrary: p)
  case (Cons j js)
  then show ?case by (cases j) simp_all
qed simp

lemma learned_preferences_append:
  "learned_preferences (js @ ks) p = learned_preferences ks (learned_preferences js p)"
proof (induction js arbitrary: p)
  case (Cons j js)
  then show ?case by (cases j) simp_all
qed simp

named_theorems view

lemma view_parts [view]:
  "\<not> sets_preferences j \<Longrightarrow> preferences_view (enqueue j g) = preferences_view g"
  "preferences_view (call_client c g) = preferences_view g"
  "preferences_view (change_entry d f g) = preferences_view g"
  "preferences_view (update_all_entries h g) = preferences_view g"
  "preferences_view (with_notification l g) = preferences_view g"
  "preferences_view (output_devices_json g) = preferences_view g"
  "preferences_view (sort_merged g) = preferences_view g"
  by (simp_all add: preferences_view_def enqueue_def call_client_def change_entry_def update_all_entries_def
      with_notification_def output_devices_json_def sort_merged_def)

lemma view_enqueue_after [view]: "\<not> sets_preferences j \<Longrightarrow> preferences_view (enqueue_after ms j g) = preferences_view g"
  by (simp add: enqueue_after_def view preferences_view_def enqueue_def)

lemma view_read_clock [view]: "preferences_view (snd (read_clock G g)) = preferences_view g"
  by (simp add: read_clock_def preferences_view_def)

lemma view_fields [view]:
  "preferences_view (g\<lparr>gb_configuration := c\<rparr>) = preferences_view g"
  "preferences_view (g\<lparr>gb_entries := es\<rparr>) = preferences_view g"
  "preferences_view (g\<lparr>gb_devices_state := st\<rparr>) = preferences_view g"
  "preferences_view (g\<lparr>gb_system_sleeping := b\<rparr>) = preferences_view g"
  "preferences_view (g\<lparr>gb_last_caps_lock_state := cl\<rparr>) = preferences_view g"
  "preferences_view (g\<lparr>gb_connector := ct\<rparr>) = preferences_view g"
  "preferences_view (g\<lparr>gb_loader := l\<rparr>) = preferences_view g"
  "preferences_view (g\<lparr>gb_hat := hat\<rparr>) = preferences_view g"
  "preferences_view (g\<lparr>gb_sent := sent\<rparr>) = preferences_view g"
  "preferences_view (g\<lparr>gb_matched_delay := ms\<rparr>) = preferences_view g"
  by (simp_all add: preferences_view_def)

lemma view_drop_jobs [view]:
  "(\<And>j. Q j \<Longrightarrow> \<not> sets_preferences j) \<Longrightarrow> preferences_view (drop_jobs Q g) = preferences_view g"
  by (auto simp: preferences_view_def drop_jobs_def erase_if_def intro!: filter_cong)

lemma not_preferences_jobs [view]:
  "job_of_device d j \<Longrightarrow> \<not> sets_preferences j" "is_stick_job d j \<Longrightarrow> \<not> sets_preferences j"
  by (cases j; simp add: job_of_device_def is_stick_job_def)+

lemma view_fold: "(\<And>x g. preferences_view (f x g) = preferences_view g) \<Longrightarrow>
    preferences_view (fold f xs g) = preferences_view g"
  by (induction xs arbitrary: g) simp_all


lemma view_fold_enqueue [view]: "(\<And>x. \<not> sets_preferences (f x)) \<Longrightarrow>
    preferences_view (fold (\<lambda>x. enqueue (f x)) xs g) = preferences_view g"
  by (rule view_fold) (simp add: view)

lemma view_push_merged [view]: "preferences_view (push_merged G en g) = preferences_view g"
  by (simp add: push_merged_def split_beta view)

lemma view_push_event [view]: "preferences_view (push_event G d t ev g) = preferences_view g"
  using view_read_clock[of G g] by (simp add: push_event_def split_beta view)

lemma view_post_virtual_event [view]: "preferences_view (post_virtual_event G d ev g) = preferences_view g"
  by (simp add: post_virtual_event_def view)

lemma view_posts [view]:
  "preferences_view (post_device_grabbed_event G dp g) = preferences_view g"
  "preferences_view (post_device_ungrabbed_event G d g) = preferences_view g"
  "preferences_view (post_caps_lock_state_changed_event G b g) = preferences_view g"
  "preferences_view (post_set_variable_event G v g) = preferences_view g"
  by (simp_all add: post_device_grabbed_event_def post_device_ungrabbed_event_def
      post_caps_lock_state_changed_event_def post_set_variable_event_def view)

lemma view_event_tap [view]: "preferences_view (pointing_device_event_arrived G t ev g) = preferences_view g"
  using view_read_clock[of G g] by (simp add: pointing_device_event_arrived_def split_beta view)

lemma view_update_virtual [view]:
  "preferences_view (update_virtual_hid_keyboard g) = preferences_view g"
  "preferences_view (update_virtual_hid_pointing G g) = preferences_view g"
  "preferences_view (update_caps_lock_led g) = preferences_view g"
  "preferences_view (ungrab_devices g) = preferences_view g"
  "preferences_view (reconsider_devices G g) = preferences_view g"
  by (simp_all add: update_virtual_hid_keyboard_def update_virtual_hid_pointing_def update_caps_lock_led_def
      ungrab_devices_def reconsider_devices_def update_devices_disabled_def view split: option.split)

lemma view_grab_device [view]: "preferences_view (grab_device G d g) = preferences_view g"
  by (simp add: grab_device_def Let_def view split: option.split)

lemma view_grab_devices [view]: "preferences_view (grab_devices G g) = preferences_view g"
  unfolding grab_devices_def by (rule view_fold) (rule view_grab_device)

lemma view_caps_lock_event [view]: "preferences_view (caps_lock_event_arrived G en g) = preferences_view g"
  by (simp add: caps_lock_event_arrived_def view split: event.split)

lemma view_values_arrived [view]: "preferences_view (values_arrived G d ens g) = preferences_view g"
  using view_fold[of "caps_lock_event_arrived G"] view_fold[of "\<lambda>en. push_merged G (requeued en)"]
  by (simp add: values_arrived_def Let_def split_beta view split: option.split)

lemma view_monitor_signals [view]:
  "preferences_view (monitor_started G d g) = preferences_view g"
  "preferences_view (monitor_stopped G d g) = preferences_view g"
  by (simp_all add: monitor_started_def monitor_stopped_def Let_def view split: option.split)

lemma view_device_values [view]: "preferences_view (device_values_arrived G d vs g) = preferences_view g"
  by (simp add: device_values_arrived_def split_beta view split: option.split)

lemma view_stick_timer [view]: "preferences_view (stick_timer G d g) = preferences_view g"
  by (simp add: stick_timer_def split_beta view split: option.split)

lemma view_monitor [view]:
  "preferences_view (monitor_works d ev g) = preferences_view g"
  "preferences_view (monitor_has_values d vs g) = preferences_view g"
  by (simp_all add: monitor_works_def monitor_has_values_def split_beta view split: option.split)

lemma view_matched [view]: "preferences_view (device_matched G d io g) = preferences_view g"
  by (simp add: device_matched_def Let_def view)

lemma view_terminated [view]: "preferences_view (device_terminated G d g) = preferences_view g"
  by (simp add: device_terminated_def Let_def view split: option.split)

lemma view_system [view]:
  "preferences_view (client_connected G g) = preferences_view g"
  "preferences_view (keyboard_ready G ready g) = preferences_view g"
  "preferences_view (pointing_ready G ready g) = preferences_view g"
  "preferences_view (set_system_sleeping G b g) = preferences_view g"
  "preferences_view (grabber_stop g) = preferences_view g"
  "preferences_view (grabber_start g) = preferences_view g"
  by (simp_all add: client_connected_def keyboard_ready_def pointing_ready_def set_system_sleeping_def
      grabber_stop_def grabber_start_def Let_def view)

lemma view_with_manager [view]: "preferences_view (with_manager i k g) = preferences_view g"
  by (simp add: with_manager_def split_beta view)

lemma view_fn_manager [view]: "preferences_view (update_fn_manager G g) = preferences_view g"
  by (simp add: update_fn_manager_def view split: option.split)

lemma view_updated [view]: "preferences_view (core_configuration_updated G c g) = preferences_view g"
  by (simp add: core_configuration_updated_def Let_def view split: option.split)

lemma view_post_events [view]: "preferences_view (post_events G g) = preferences_view g"
  using view_read_clock[of G g]
  by (simp add: post_events_def Let_def split_beta view split: option.split)

lemma view_manipulate: "grabber_manipulate G now g = Some g' \<Longrightarrow> preferences_view g' = preferences_view g"
  by (auto simp: grabber_manipulate_def Let_def view split: option.splits prod.splits)


lemma view_run_job: "\<not> sets_preferences j \<Longrightarrow> run_job G j g = Some g' \<Longrightarrow> preferences_view g' = preferences_view g"
proof (induction G j g rule: run_job.induct)
  case (10 G g)
  then show ?case
    using view_manipulate[of G "fst (read_clock G g)" "snd (read_clock G g)" g'] by (simp add: split_beta view)
next
  case (11 G now g)
  then show ?case using view_manipulate[of G now g g'] by simp
qed (auto simp: view)

lemma told_from_view: "preferences_view g' = preferences_view g \<Longrightarrow> told_preferences g' = told_preferences g"
  using learned_preferences_filter[of "gb_jobs g"] learned_preferences_filter[of "gb_jobs g'"]
  by (simp add: preferences_view_def told_preferences_def)

text \<open>What waits with a delay is no change of the preferences.\<close>

definition told_well :: "system_preferences_properties \<Rightarrow> 'k grabber \<Rightarrow> bool" where
  "told_well p g \<longleftrightarrow> told_preferences g = p \<and> filter (sets_preferences \<circ> snd) (gb_delayed g) = []"

lemma told_well_view: "preferences_view g' = preferences_view g \<Longrightarrow> told_well p g \<Longrightarrow> told_well p g'"
  using told_from_view[of g' g] by (simp add: told_well_def preferences_view_def)

lemma told_well_enqueue: "told_well p g \<Longrightarrow> \<not> sets_preferences j \<Longrightarrow> told_well p (enqueue j g)"
  by (rule told_well_view[rotated]) (simp_all add: view)

lemma told_well_told: "told_well p g \<Longrightarrow> told_well q (enqueue (Gj_set_system_preferences q) g)"
  by (simp add: told_well_def told_preferences_def enqueue_def learned_preferences_append)

lemma told_well_job:
  assumes "run_next_job G g = Some g'" "told_well p g"
  shows "told_well p g'"
proof (cases "gb_jobs g")
  case Nil
  then show ?thesis using assms by (simp add: run_next_job_def)
next
  case (Cons j js)
  show ?thesis
  proof (cases "sets_preferences j")
    case True
    then obtain q where j: "j = Gj_set_system_preferences q" by (cases j) simp_all
    let ?g = "update_fn_manager G (g\<lparr>gb_jobs := js, gb_system_preferences := q\<rparr>)"
    have "told_well p (g\<lparr>gb_jobs := js, gb_system_preferences := q\<rparr>)"
      using assms Cons j by (simp add: told_well_def told_preferences_def)
    then have "told_well p ?g" by (rule told_well_view[OF view_fn_manager])
    then have "told_well p (enqueue Gj_post_system_preferences ?g)" by (rule told_well_enqueue) simp
    moreover have "g' = enqueue Gj_post_system_preferences ?g"
      using assms(1) Cons j by (simp add: run_next_job_def grabber_set_system_preferences_def)
    ultimately show ?thesis by simp
  next
    case False
    have "told_well p (g\<lparr>gb_jobs := js\<rparr>)"
      using assms Cons learned_preferences_skip[OF False] by (simp add: told_well_def told_preferences_def)
    moreover have "run_job G j (g\<lparr>gb_jobs := js\<rparr>) = Some g'" using assms(1) Cons by (simp add: run_next_job_def)
    ultimately show ?thesis by (rule told_well_view[OF view_run_job[OF False], rotated])
  qed
qed

lemma told_well_delayed:
  "gb_delayed g = xs @ (ms, j) # ys \<Longrightarrow> told_well p g \<Longrightarrow> told_well p (enqueue j (g\<lparr>gb_delayed := xs @ ys\<rparr>))"
  by (rule told_well_enqueue) (auto simp: told_well_def told_preferences_def split: if_splits)

lemma told_well_moves: "grabber_moves G g g' \<Longrightarrow> told_well p g \<Longrightarrow> told_well p g'"
proof (induction rule: grabber_moves.induct)
  case (gm_job g g')
  then show ?case by (rule told_well_job)
next
  case (gm_delayed g xs ms j ys)
  then show ?case by (rule told_well_delayed)
qed (erule told_well_view[rotated]; simp add: view)+


subsection \<open>The receiver keeps one run of the grabber, and tells it the truth\<close>

definition receiver_sound :: "'k surroundings \<Rightarrow> 'k receiver \<Rightarrow> bool" where
  "receiver_sound G r \<longleftrightarrow>
     (case rc_grabber r of None \<Rightarrow> True | Some g \<Rightarrow> grabber_reachable G g \<and> told_well (rc_system_preferences r) g)"

lemma sound_fields [simp]:
  "receiver_sound G (r\<lparr>rc_queries := qs\<rparr>) = receiver_sound G r"
  "receiver_sound G (r\<lparr>rc_frontmost_application := a\<rparr>) = receiver_sound G r"
  "receiver_sound G (r\<lparr>rc_input_source := p\<rparr>) = receiver_sound G r"
  "receiver_sound G (r\<lparr>rc_console_client := c\<rparr>) = receiver_sound G r"
  "receiver_sound G (r\<lparr>rc_multitouch_client := b\<rparr>) = receiver_sound G r"
  by (simp_all add: receiver_sound_def split: option.split)

lemma sound_tell:
  "receiver_sound G r \<Longrightarrow> public_job j \<Longrightarrow> \<not> sets_preferences j \<Longrightarrow> receiver_sound G (tell_device_grabber j r)"
  by (auto simp: receiver_sound_def tell_device_grabber_def gr_requested told_well_enqueue split: option.splits)

lemma sound_told:
  "receiver_sound G r \<Longrightarrow>
     receiver_sound G (tell_device_grabber (Gj_set_system_preferences p) (r\<lparr>rc_system_preferences := p\<rparr>))"
  by (auto simp: receiver_sound_def tell_device_grabber_def gr_requested told_well_told split: option.splits)

lemma new_grabber_reachable: "new_grabber G i = Some g \<Longrightarrow> grabber_reachable G g"
  by (auto simp: new_grabber_def split: sum.splits intro: gr_initial)

lemma told_well_initial: "new_grabber G i = Some g \<Longrightarrow> told_well q (enqueue (Gj_set_system_preferences q) g)"
  by (auto simp: new_grabber_def grabber_initial_def told_well_def told_preferences_def enqueue_def
      split: sum.splits option.splits)

lemma sound_start: "receiver_sound G r \<Longrightarrow> receiver_sound G (start_device_grabber G i path r)"
proof (cases "rc_grabber r")
  case None
  let ?r = "tell_device_grabber (Gj_set_system_preferences (rc_system_preferences r))
              (r\<lparr>rc_grabber := new_grabber G i, rc_configuration_file := path\<rparr>)"
  have "receiver_sound G ?r"
    by (cases "new_grabber G i")
      (auto simp: receiver_sound_def tell_device_grabber_def told_well_initial gr_requested new_grabber_reachable)
  then show ?thesis using None by (simp add: start_device_grabber_def sound_tell)
qed (simp add: start_device_grabber_def)

lemma sound_restart: "receiver_sound G (restart_device_grabber G i path r)"
  unfolding restart_device_grabber_def
  by (rule sound_start) (simp add: receiver_sound_def stop_device_grabber_def)

lemma sound_if_exists:
  "receiver_sound G r \<Longrightarrow> receiver_sound G (start_grabbing_if_system_core_configuration_file_exists G i exists r)"
  by (simp add: start_grabbing_if_system_core_configuration_file_exists_def sound_restart)

lemma sound_connected: "receiver_sound G r \<Longrightarrow> receiver_sound G (console_client_connected G i r)"
  by (simp add: console_client_connected_def sound_restart split: option.split)

lemma sound_stopped: "receiver_sound G (stop_device_grabber r)"
  by (simp add: stop_device_grabber_def receiver_sound_def)

lemma sound_lost: "receiver_sound G r \<Longrightarrow> receiver_sound G (console_client_lost G i exists r)"
  by (simp add: console_client_lost_def sound_if_exists sound_stopped)

lemma sound_variables: "receiver_sound G r \<Longrightarrow> receiver_sound G (post_variables kvs r)"
  by (induction kvs r rule: post_variables.induct) (auto simp: sound_tell split: sum.splits)

lemma sound_unset: "receiver_sound G r \<Longrightarrow>
    receiver_sound G (fold (\<lambda>n. tell_device_grabber (Gj_post_set_variable (h n))) ns r)"
  by (induction ns arbitrary: r) (simp_all add: sound_tell)

lemma sound_multitouch_lost: "receiver_sound G r \<Longrightarrow> receiver_sound G (multitouch_client_lost r)"
  unfolding multitouch_client_lost_def clear_multitouch_extension_environment_variables_def
  by (simp add: sound_unset)

lemma sound_answer: "receiver_sound G r \<Longrightarrow> receiver_sound G (snd (answer_query names r))"
  by (auto simp: answer_query_def receiver_sound_def split: option.splits list.splits)

lemma sound_message: "receiver_message endpoint j r = Inr (acts, r') \<Longrightarrow> receiver_sound G r \<Longrightarrow> receiver_sound G r'"
proof -
  assume m: "receiver_message endpoint j r = Inr (acts, r')" and s: "receiver_sound G r"
  then obtain t where "json_member_at ''operation_type'' j = Inr t" by (auto simp: receiver_message_def)
  then show ?thesis using m s
    by (cases "operation_type_from_json t")
      (auto simp: receiver_message_def sound_variables intro!: sound_told sound_tell split: if_splits)
qed


lemma moves_sound: "receiver_moves G i r r' \<Longrightarrow> receiver_sound G r \<Longrightarrow> receiver_sound G r'"
proof (induction rule: receiver_moves.induct)
  case (rm_received r endpoint b)
  then show ?case
    by (auto simp: receiver_received_def sound_message split: buffer.split sum.split)
next
  case (rm_grabber r g g')
  then show ?case using gr_moves told_well_moves by (simp add: receiver_sound_def) blast
qed (simp_all add: sound_connected sound_lost sound_multitouch_lost sound_answer)

lemma run_sound: "receiver_run G i r \<Longrightarrow> receiver_sound G r"
proof (induction rule: receiver_run.induct)
  case (rr_initial exists)
  show ?case unfolding receiver_initial_def by (rule sound_if_exists) (simp add: receiver_sound_def)
next
  case (rr_moves r r')
  then show ?case using moves_sound by blast
qed

text \<open>C23. Whatever the clients say and however connections come and go, the grabber a receiver has is
  one of the runs of the grabber, as the receiver only ever creates a new one or gives functions to its
  dispatcher: what theories \<open>Grabber_Invariants\<close> and \<open>Grabber_Liveness\<close> show of a run holds of it. And
  once the functions that wait in its dispatcher have run, it has the system preferences the receiver
  was told last, also when it was started, restarted or reconfigured after they were told.\<close>

theorem receiver_keeps_an_informed_grabber:
  assumes "receiver_run G i r" "rc_grabber r = Some g"
  shows "grabber_reachable G g \<and>
    learned_preferences (gb_jobs g) (gb_system_preferences g) = rc_system_preferences r"
  using run_sound[OF assms(1)] assms(2) by (simp add: receiver_sound_def told_well_def told_preferences_def)

subsection \<open>News for the grabber\<close>

definition variables_message :: "(string \<times> variable_value) list \<Rightarrow> json" where
  "variables_message kvs = JObject (map (\<lambda>(k, v). (k, variable_value_to_json v)) kvs)"

lemma post_variables_all:
  "list_all (storable_variable_value \<circ> snd) kvs \<Longrightarrow>
     post_variables (map (\<lambda>(k, v). (k, variable_value_to_json v)) kvs) r =
     fold (\<lambda>x. tell_device_grabber (Gj_post_set_variable (named_variable (fst x) (Some (snd x)) sv_set))) kvs r"
  by (induction kvs arbitrary: r) (auto simp: variable.read_back)

lemma tell_all:
  "rc_grabber r = Some g \<Longrightarrow> fold (\<lambda>x. tell_device_grabber (h x)) xs r =
     r\<lparr>rc_grabber := Some (g\<lparr>gb_jobs := gb_jobs g @ map h xs\<rparr>)\<rparr>"
proof (induction xs arbitrary: r g)
  case (Cons x xs)
  have "rc_grabber (tell_device_grabber (h x) r) = Some (enqueue (h x) g)"
    using Cons.prems by (simp add: tell_device_grabber_def)
  from Cons.IH[OF this] Cons.prems show ?case by (simp add: tell_device_grabber_def enqueue_def)
qed simp

text \<open>C24. News reaches the grabber. What a started client sends when the system preferences, the
  frontmost application or the input source changed, and when variables are set, makes the receiver
  remember it, where it remembers such things, and gives a running grabber exactly the functions that
  take it over, the variables in their order.\<close>

theorem news_reaches_the_grabber:
  assumes "gc_started c" "rc_grabber r = Some g" "storable_application a" "list_all (storable_variable_value \<circ> snd) kvs"
  shows "map (\<lambda>c'. map (\<lambda>j. receiver_received endpoint (Packed j) r) (drop (length (gc_sent c)) (gc_sent c')))
      [gc_system_preferences_updated p c, gc_frontmost_application_changed a c, gc_input_source_changed q c,
       gc_set_variables (variables_message kvs) c] =
    [[([], r\<lparr>rc_system_preferences := p, rc_grabber := Some (enqueue (Gj_set_system_preferences p) g)\<rparr>)],
     [([], r\<lparr>rc_frontmost_application := a, rc_grabber := Some (enqueue (Gj_post_frontmost_application a) g)\<rparr>)],
     [([], r\<lparr>rc_input_source := q, rc_grabber := Some (enqueue (Gj_post_input_source q) g)\<rparr>)],
     [([], r\<lparr>rc_grabber := Some (g\<lparr>gb_jobs := gb_jobs g @
        map (\<lambda>x. Gj_post_set_variable (named_variable (fst x) (Some (snd x)) sv_set)) kvs\<rparr>)\<rparr>)]]"
proof -
  let ?h = "\<lambda>x. Gj_post_set_variable (named_variable (fst x) (Some (snd x)) sv_set)"
  have "post_variables (map (\<lambda>(k, v). (k, variable_value_to_json v)) kvs) r =
      r\<lparr>rc_grabber := Some (g\<lparr>gb_jobs := gb_jobs g @ map ?h kvs\<rparr>)\<rparr>"
    using post_variables_all[OF assms(4), of r] tell_all[OF assms(2), of ?h kvs] by simp
  then show ?thesis
    using assms
    by (simp add: gc_system_preferences_updated_def gc_frontmost_application_changed_def gc_input_source_changed_def
        gc_set_variables_def gc_send_def receiver_received_def receiver_message_def preferences.read_back
        application.read_back input_source.read_back tell_device_grabber_def variables_message_def)
qed

subsection \<open>Examples\<close>

lemma sample_new_grabber:
  "\<exists>g. new_grabber sample_surroundings [] = Some g \<and> gb_connector g = sample_connector \<and> gb_jobs g = []"
proof -
  obtain c where c: "create_configuration unary_json_text loose missing_file = Inr c"
    using default_configuration by blast
  then show ?thesis
    by (simp add: new_grabber_def grabber_initial_def initial_connector_def emplace_back_next_connection_def
        emplace_back_connection_def Let_def push_back_manipulator_def sample_connector_def sample_surroundings_def)
qed

definition sample_preferences :: system_preferences_properties where
  "sample_preferences = system_preferences_initial\<lparr>spp_use_fkeys_as_standard_function_keys := True\<rparr>"

text \<open>A receiver that hears of the preferences before a console server connects.\<close>

definition sample_receiver :: "(usage set \<times> hid_report_modifier set) receiver" where
  "sample_receiver =
     console_client_connected sample_surroundings []
       (snd (receiver_received ''socket''
               (Packed (op_message op_connect_console_user_server
                  [(''user_core_configuration_file_path'', JString ''karabiner.json'')]))
         (snd (receiver_received ''socket''
                 (Packed (op_message op_system_preferences_updated
                    [(''system_preferences_properties'', system_preferences_to_json sample_preferences)]))
           (receiver_initial sample_surroundings [] False)))))"

lemma sample_receiver_run: "receiver_run sample_surroundings [] sample_receiver"
  unfolding sample_receiver_def by (rule rr_initial rr_moves receiver_moves.intros)+

lemma sample_receiver_grabber:
  "\<exists>g0. new_grabber sample_surroundings [] = Some g0 \<and> rc_system_preferences sample_receiver = sample_preferences \<and>
     rc_grabber sample_receiver = Some (enqueue Gj_start (enqueue (Gj_post_input_source input_source_initial)
       (enqueue (Gj_post_frontmost_application application_initial)
         (enqueue (Gj_set_system_preferences sample_preferences) g0))))"
  using sample_new_grabber
  by (auto simp: sample_receiver_def receiver_received_def receiver_message_def receiver_initial_def
      console_client_connected_def restart_device_grabber_def stop_device_grabber_def start_device_grabber_def
      tell_device_grabber_def start_grabbing_if_system_core_configuration_file_exists_def system_preferences_round_trip)


theorem receiver_keeps_an_informed_grabber_witness:
  "\<exists>g. rc_grabber sample_receiver = Some g \<and> gb_jobs g \<noteq> [] \<and> grabber_reachable sample_surroundings g \<and>
     learned_preferences (gb_jobs g) (gb_system_preferences g) = sample_preferences"
proof -
  obtain g where g: "rc_grabber sample_receiver = Some g" "gb_jobs g \<noteq> []"
    and p: "rc_system_preferences sample_receiver = sample_preferences"
    using sample_receiver_grabber by (auto simp: enqueue_def)
  from receiver_keeps_an_informed_grabber[OF sample_receiver_run g(1)] g p show ?thesis by simp
qed

theorem news_reaches_the_grabber_witness:
  "\<exists>g. rc_grabber sample_receiver = Some g \<and>
     map (\<lambda>j. receiver_received ''socket'' (Packed j) sample_receiver)
       (gc_sent (gc_set_variables (variables_message [(''layer'', Var_int 1), (''mode'', Var_string ''vi'')])
          (gc_async_start grabber_client_initial))) =
     [([], sample_receiver\<lparr>rc_grabber := Some (g\<lparr>gb_jobs := gb_jobs g @
        [Gj_post_set_variable (named_variable ''layer'' (Some (Var_int 1)) sv_set),
         Gj_post_set_variable (named_variable ''mode'' (Some (Var_string ''vi'')) sv_set)]\<rparr>)\<rparr>)]"
proof -
  obtain g where g: "rc_grabber sample_receiver = Some g" using sample_receiver_grabber by blast
  have c: "gc_started (gc_async_start grabber_client_initial)" "gc_sent (gc_async_start grabber_client_initial) = []"
    by (simp_all add: gc_async_start_def grabber_client_initial_def)
  have "map (\<lambda>c'. map (\<lambda>j. receiver_received ''socket'' (Packed j) sample_receiver)
      (drop 0 (gc_sent c'))) [gc_set_variables
        (variables_message [(''layer'', Var_int 1), (''mode'', Var_string ''vi'')]) (gc_async_start grabber_client_initial)] =
    [[([], sample_receiver\<lparr>rc_grabber := Some (g\<lparr>gb_jobs := gb_jobs g @
        [Gj_post_set_variable (named_variable ''layer'' (Some (Var_int 1)) sv_set),
         Gj_post_set_variable (named_variable ''mode'' (Some (Var_string ''vi'')) sv_set)]\<rparr>)\<rparr>)]]"
    using news_reaches_the_grabber[OF c(1) g, of application_initial
        "[(''layer'', Var_int 1), (''mode'', Var_string ''vi'')]" "''socket''" sample_preferences input_source_initial] c(2)
    by (simp add: storable_application_def application_initial_def int64_def)
  with g show ?thesis by simp
qed

end
