(* ===== verification/Session_Monitor.thy ===== *)
theory Session_Monitor
  imports Grabber_Receiver
begin

text \<open>
  Who sits at the console: the session monitor of each user,
  \<open>src/core/session_monitor/include/session_monitor/components_manager.hpp\<close>, the server the
  monitors report to, \<open>src/core/grabber/include/grabber/session_monitor_receiver.hpp\<close>, and the
  components of the grabber process, \<open>components_manager.hpp\<close> beside it, which start a receiver
  (theory \<open>Grabber_Receiver\<close>) for the user at the console.

  The version monitor, which ends the process, the monitor of the event system and the directories
  of the sockets are not modelled. The theory shows that the receiver is always that of the user the
  reports name, once the functions given to the dispatcher have run, and that the reports a monitor
  repeats every three seconds change nothing.
\<close>

subsection \<open>The monitor of a user\<close>

record session_monitor =
  sm_user :: nat
  sm_client_started :: bool
  sm_on_console :: bool

definition session_monitor_initial :: "nat \<Rightarrow> session_monitor" where
  "session_monitor_initial uid = \<lparr>sm_user = uid, sm_client_started = False, sm_on_console = False\<rparr>"

definition sm_async_start :: "session_monitor \<Rightarrow> session_monitor" where
  "sm_async_start m = m\<lparr>sm_client_started := True\<rparr>"

text \<open>Called when the client has connected, when the state of the session changed, and by the timer.\<close>

definition send_to_receiver :: "session_monitor \<Rightarrow> json list" where
  "send_to_receiver m = smc_console_user_id_changed (sm_client_started m) (sm_user m) (sm_on_console m)"

definition sm_on_console_changed :: "bool \<Rightarrow> session_monitor \<Rightarrow> json list \<times> session_monitor" where
  "sm_on_console_changed b m = (let m' = m\<lparr>sm_on_console := b\<rparr> in (send_to_receiver m', m'))"

subsection \<open>session_monitor_receiver\<close>

text \<open>
  The signal \<open>current_console_user_id_changed\<close> is given to the dispatcher: with its value when a
  report arrived, without one, to be read when it runs, when a client was closed.
\<close>

datatype session_job = Sj_changed "nat option" | Sj_changed_to_current | Sj_erase_client nat

record session_receiver =
  sr_current :: "nat option"
  sr_clients :: "nat list"
  sr_jobs :: "session_job list"

definition session_receiver_initial :: session_receiver where
  "session_receiver_initial = \<lparr>sr_current = None, sr_clients = [], sr_jobs = []\<rparr>"

definition register_session_monitor_client :: "nat \<Rightarrow> session_receiver \<Rightarrow> session_receiver" where
  "register_session_monitor_client uid s =
     (if uid \<in> set (sr_clients s) then s else s\<lparr>sr_clients := sr_clients s @ [uid]\<rparr>)"

definition session_client_closed :: "nat \<Rightarrow> session_receiver \<Rightarrow> session_receiver" where
  "session_client_closed uid s =
     (let s1 = (if sr_current s = Some uid
                then s\<lparr>sr_current := None, sr_jobs := sr_jobs s @ [Sj_changed_to_current]\<rparr> else s)
      in s1\<lparr>sr_jobs := sr_jobs s1 @ [Sj_erase_client uid]\<rparr>)"

definition console_user_changed :: "nat \<Rightarrow> bool \<Rightarrow> session_receiver \<Rightarrow> session_receiver" where
  "console_user_changed uid on_console s =
     (let new_value = (if on_console then Some uid else if sr_current s = Some uid then None else sr_current s)
      in if sr_current s \<noteq> new_value
         then s\<lparr>sr_current := new_value, sr_jobs := sr_jobs s @ [Sj_changed new_value]\<rparr> else s)"

text \<open>An exception ends the handler before anything was changed.\<close>

definition session_message :: "string \<Rightarrow> json \<Rightarrow> session_receiver \<Rightarrow> json_error + session_receiver" where
  "session_message endpoint j s =
     ok_bind (json_member_at ''operation_type'' j) (\<lambda>t.
     if operation_type_from_json t = op_console_user_id_changed
     then ok_bind (json_member_at ''user_id'' j) (\<lambda>u.
          ok_bind (json_get_uint32 u) (\<lambda>uid.
          ok_bind (json_member_at ''on_console'' j) (\<lambda>c.
          ok_bind (json_get_bool c) (\<lambda>on_console.
          let s1 = console_user_changed uid on_console s
          in Inr (if endpoint \<noteq> [] then register_session_monitor_client uid s1 else s1)))))
     else Inr s)"

definition session_received :: "string \<Rightarrow> buffer \<Rightarrow> session_receiver \<Rightarrow> session_receiver" where
  "session_received endpoint b s =
     (case b of
        Packed j \<Rightarrow> (case session_message endpoint j s of Inl _ \<Rightarrow> s | Inr s' \<Rightarrow> s')
      | _ \<Rightarrow> s)"

subsection \<open>The components of the grabber process\<close>

record 'k grabber_components =
  cm_session :: session_receiver
  cm_receiver :: "(nat \<times> 'k receiver) option"

text \<open>A receiver is made for the user whose console server it talks to, user 0 if there is none.\<close>

definition start_receiver ::
    "'k surroundings \<Rightarrow> string \<Rightarrow> bool \<Rightarrow> nat \<Rightarrow> 'k grabber_components \<Rightarrow> 'k grabber_components" where
  "start_receiver G machine_identifier exists uid c =
     c\<lparr>cm_receiver := Some (uid, receiver_initial G machine_identifier exists)\<rparr>"

definition components_start :: "'k surroundings \<Rightarrow> string \<Rightarrow> bool \<Rightarrow> 'k grabber_components" where
  "components_start G machine_identifier exists =
     start_receiver G machine_identifier exists 0
       \<lparr>cm_session = session_receiver_initial, cm_receiver = None\<rparr>"

definition current_console_user_id_changed ::
    "'k surroundings \<Rightarrow> string \<Rightarrow> bool \<Rightarrow> nat option \<Rightarrow> 'k grabber_components \<Rightarrow> 'k grabber_components" where
  "current_console_user_id_changed G machine_identifier exists uid c =
     start_receiver G machine_identifier exists (case uid of Some u \<Rightarrow> u | None \<Rightarrow> 0) c"

fun run_session_job ::
    "'k surroundings \<Rightarrow> string \<Rightarrow> bool \<Rightarrow> session_job \<Rightarrow> 'k grabber_components \<Rightarrow> 'k grabber_components" where
  "run_session_job G i exists (Sj_changed u) c = current_console_user_id_changed G i exists u c"
| "run_session_job G i exists Sj_changed_to_current c =
     current_console_user_id_changed G i exists (sr_current (cm_session c)) c"
| "run_session_job G i exists (Sj_erase_client uid) c =
     c\<lparr>cm_session := (cm_session c)\<lparr>sr_clients := removeAll uid (sr_clients (cm_session c))\<rparr>\<rparr>"

definition run_next_session_job ::
    "'k surroundings \<Rightarrow> string \<Rightarrow> bool \<Rightarrow> 'k grabber_components \<Rightarrow> 'k grabber_components" where
  "run_next_session_job G i exists c =
     (case sr_jobs (cm_session c) of
        [] \<Rightarrow> c
      | j # js \<Rightarrow> run_session_job G i exists j (c\<lparr>cm_session := (cm_session c)\<lparr>sr_jobs := js\<rparr>\<rparr>))"

text \<open>A report, a closed client, a function of the dispatcher, a step of the receiver.\<close>

inductive components_run :: "'k surroundings \<Rightarrow> string \<Rightarrow> 'k grabber_components \<Rightarrow> bool" for G i where
  cr_start: "components_run G i (components_start G i exists)"
| cr_received: "components_run G i c \<Longrightarrow>
    components_run G i (c\<lparr>cm_session := session_received endpoint b (cm_session c)\<rparr>)"
| cr_closed: "components_run G i c \<Longrightarrow> components_run G i (c\<lparr>cm_session := session_client_closed uid (cm_session c)\<rparr>)"
| cr_job: "components_run G i c \<Longrightarrow> components_run G i (run_next_session_job G i exists c)"
| cr_receiver: "components_run G i c \<Longrightarrow> cm_receiver c = Some (uid, r) \<Longrightarrow> receiver_moves G i r r' \<Longrightarrow>
    components_run G i (c\<lparr>cm_receiver := Some (uid, r')\<rparr>)"


subsection \<open>The receiver is that of the user at the console\<close>

text \<open>The user the receiver is for once the waiting functions have run.\<close>

fun user_after :: "nat option \<Rightarrow> session_job list \<Rightarrow> nat \<Rightarrow> nat" where
  "user_after cur [] u = u"
| "user_after cur (Sj_changed v # js) u = user_after cur js (case v of Some n \<Rightarrow> n | None \<Rightarrow> 0)"
| "user_after cur (Sj_changed_to_current # js) u = user_after cur js (case cur of Some n \<Rightarrow> n | None \<Rightarrow> 0)"
| "user_after cur (Sj_erase_client _ # js) u = user_after cur js u"

definition settled :: "'k surroundings \<Rightarrow> string \<Rightarrow> 'k grabber_components \<Rightarrow> bool" where
  "settled G i c \<longleftrightarrow>
     (case cm_receiver c of
        None \<Rightarrow> False
      | Some (u, r) \<Rightarrow>
          receiver_run G i r \<and>
          user_after (sr_current (cm_session c)) (sr_jobs (cm_session c)) u =
            (case sr_current (cm_session c) of Some n \<Rightarrow> n | None \<Rightarrow> 0))"

lemma user_after_append:
  "user_after cur (js @ ks) u = user_after cur ks (user_after cur js u)"
  by (induction cur js u rule: user_after.induct) simp_all

text \<open>A change of the current user only touches what is read before the new function runs.\<close>

lemma settled_same:
  "sr_current s' = sr_current (cm_session c) \<Longrightarrow> sr_jobs s' = sr_jobs (cm_session c) \<Longrightarrow>
     settled G i (c\<lparr>cm_session := s'\<rparr>) = settled G i c"
  by (simp add: settled_def split: option.split)

lemma settled_new_job:
  "settled G i c \<Longrightarrow> sr_jobs s' = js @ [Sj_changed (sr_current s')] \<Longrightarrow> settled G i (c\<lparr>cm_session := s'\<rparr>)"
  "settled G i c \<Longrightarrow> sr_jobs s' = js @ [Sj_changed_to_current, Sj_erase_client u] \<Longrightarrow> settled G i (c\<lparr>cm_session := s'\<rparr>)"
  by (auto simp: settled_def user_after_append split: option.splits)

lemma settled_changed:
  "settled G i c \<Longrightarrow> settled G i (c\<lparr>cm_session := console_user_changed uid b (cm_session c)\<rparr>)"
  by (cases "console_user_changed uid b (cm_session c) = cm_session c")
    (auto simp: console_user_changed_def Let_def settled_same intro: settled_new_job(1))

lemma settled_message:
  assumes "session_message endpoint j (cm_session c) = Inr s'" "settled G i c"
  shows "settled G i (c\<lparr>cm_session := s'\<rparr>)"
proof -
  have "settled G i (c\<lparr>cm_session := register_session_monitor_client uid (console_user_changed uid b (cm_session c))\<rparr>)"
    for uid b
    using settled_changed[OF assms(2), of uid b]
      settled_same[of "register_session_monitor_client uid (console_user_changed uid b (cm_session c))"
        "c\<lparr>cm_session := console_user_changed uid b (cm_session c)\<rparr>" G i]
    by (simp add: register_session_monitor_client_def)
  then show ?thesis
    using assms settled_changed[OF assms(2)] by (auto simp: session_message_def Let_def split: if_splits)
qed

lemma settled_closed: "settled G i c \<Longrightarrow> settled G i (c\<lparr>cm_session := session_client_closed uid (cm_session c)\<rparr>)"
  by (cases "sr_current (cm_session c) = Some uid")
    (auto simp: session_client_closed_def Let_def settled_def user_after_append split: option.splits)

lemma settled_job:
  "settled G i c \<Longrightarrow> settled G i (run_next_session_job G i exists c)"
proof (cases "sr_jobs (cm_session c)")
  case (Cons j js)
  assume "settled G i c"
  with Cons show ?thesis
    by (cases j) (auto simp: settled_def run_next_session_job_def current_console_user_id_changed_def
        start_receiver_def rr_initial split: option.splits)
qed (simp add: run_next_session_job_def)

lemma run_settled: "components_run G i c \<Longrightarrow> settled G i c"
proof (induction rule: components_run.induct)
  case (cr_start exists)
  show ?case
    by (simp add: settled_def components_start_def start_receiver_def session_receiver_initial_def rr_initial)
next
  case (cr_received c endpoint b)
  then show ?case
    using settled_message[of endpoint _ c]
    by (auto simp: session_received_def split: buffer.split sum.split)
next
  case (cr_closed c uid)
  then show ?case by (simp add: settled_closed)
next
  case (cr_job c exists)
  then show ?case by (simp add: settled_job)
next
  case (cr_receiver c uid r r')
  then show ?case using rr_moves by (auto simp: settled_def)
qed


text \<open>C25. The receiver is that of the user at the console: whatever session monitors report and whichever
  of their connections end, in any order and between any steps of the receiver, as soon as no function
  waits in the dispatcher the receiver was started for the user the server knows to be at the console,
  or for user 0 when there is none, and it is in one of its own runs.\<close>

theorem receiver_is_for_the_console_user:
  assumes "components_run G i c" "sr_jobs (cm_session c) = []"
  shows "\<exists>r. cm_receiver c = Some (case sr_current (cm_session c) of Some u \<Rightarrow> u | None \<Rightarrow> 0, r) \<and> receiver_run G i r"
  using run_settled[OF assms(1)] assms(2) by (auto simp: settled_def split: option.splits)

text \<open>C26. The report of a session monitor arrives: the server takes over the user of a session that is on
  the console, forgets the user of one that is not, and tells the components when this changed anything.
  A report that repeats what is known, which a monitor sends every three seconds, gives no function to
  the dispatcher, so that it never restarts the receiver.\<close>

theorem session_reports_arrive:
  assumes "sm_client_started m" "sm_user m < 2 ^ 32"
    and "s' = fold (\<lambda>j. session_received endpoint (Packed j)) (send_to_receiver m) s"
  shows "sr_current s' = (if sm_on_console m then Some (sm_user m)
      else if sr_current s = Some (sm_user m) then None else sr_current s) \<and>
    sr_jobs s' = sr_jobs s @ (if sr_current s' = sr_current s then [] else [Sj_changed (sr_current s')])"
proof -
  have "json_get_uint32 (JInt (int (sm_user m))) = Inr (sm_user m)"
    using assms(2) by (simp add: nat_mod_distrib flip: zmod_int)
  then show ?thesis
    using assms(1,3)
    by (auto simp: send_to_receiver_def smc_console_user_id_changed_def client_sends_def session_received_def
        session_message_def op_message_def json_member_at_def json_find_def console_user_changed_def
        register_session_monitor_client_def Let_def simp del: json_get_uint32.simps)
qed

subsection \<open>Examples\<close>

text \<open>User 501 comes to the console.\<close>

definition sample_components :: "(usage set \<times> hid_report_modifier set) grabber_components" where
  "sample_components =
     run_next_session_job sample_surroundings [] False
       ((components_start sample_surroundings [] False)\<lparr>cm_session :=
          session_received ''monitor'' (Packed (op_message op_console_user_id_changed
            [(''user_id'', JInt 501), (''on_console'', JBool True)])) session_receiver_initial\<rparr>)"

lemma sample_components_session:
  "cm_session sample_components = \<lparr>sr_current = Some 501, sr_clients = [501], sr_jobs = []\<rparr>"
  by (simp add: sample_components_def run_next_session_job_def session_received_def session_message_def
      op_message_def json_member_at_def json_find_def console_user_changed_def
      register_session_monitor_client_def session_receiver_initial_def current_console_user_id_changed_def
      start_receiver_def components_start_def Let_def)

lemma sample_components_run: "components_run sample_surroundings [] sample_components"
proof -
  have "cm_session (components_start sample_surroundings [] False) = session_receiver_initial"
    by (simp add: components_start_def start_receiver_def)
  then show ?thesis unfolding sample_components_def using cr_job[OF cr_received[OF cr_start]] by metis
qed

theorem receiver_is_for_the_console_user_witness:
  "\<exists>r. cm_receiver sample_components = Some (501, r) \<and> receiver_run sample_surroundings [] r"
  using receiver_is_for_the_console_user[OF sample_components_run] sample_components_session by simp

definition sample_session_monitor :: session_monitor where
  "sample_session_monitor = snd (sm_on_console_changed True (sm_async_start (session_monitor_initial 501)))"

theorem session_reports_arrive_witness:
  "sr_current (fold (\<lambda>j. session_received ''monitor'' (Packed j)) (send_to_receiver sample_session_monitor)
      session_receiver_initial) = Some 501 \<and>
   sr_jobs (fold (\<lambda>j. session_received ''monitor'' (Packed j)) (send_to_receiver sample_session_monitor)
      session_receiver_initial) = [Sj_changed (Some 501)]"
proof -
  have "sm_client_started sample_session_monitor" "sm_on_console sample_session_monitor"
    "sm_user sample_session_monitor = 501" "sr_current session_receiver_initial = None"
    "sr_jobs session_receiver_initial = []"
    by (simp_all add: sample_session_monitor_def sm_on_console_changed_def sm_async_start_def
        session_monitor_initial_def session_receiver_initial_def Let_def)
  then show ?thesis
    using session_reports_arrive[OF _ _ refl, of sample_session_monitor "''monitor''" session_receiver_initial] by simp
qed

end
