(* ===== verification/Spec2Isabelle.thy ===== *)
theory Spec2Isabelle
  imports Scoped_Modifier_Flags Pointing_Button_Manager Key_Trackers Probable_Stuck_Events
    Event_Queue Key_Codes Event_Queue_Utility Conditions Definitions Event_Sender Basic
    Basic_Balance Basic_Decisions Post_Queue Key_Event_Dispatcher Mouse_Key_Handler
    Notification_Message Post_Event_To_Virtual_Devices Scroll_Counter Mouse_Manipulators
    Manipulator_Manager Complex_Modifications Simple_Modifications Connected_Devices Core_Configuration
    Value_Json Definition_Json Manipulator_Factory Modification_Managers
    Hid_Monitor Game_Pad_Stick Device_Entry Device_Grabber Grabber_Invariants Grabber_Liveness
    Messages Event_Json Console_User_Server Grabber_Receiver Session_Monitor
begin

text \<open>
  Karabiner-Elements: the path of a key event through the grabber, and the processes around it.

  The session monitor of each user tells the grabber process who is at the console. The process
  then makes a receiver for this user; the user's console server connects to it, tells it what the
  session is like, and executes what it orders. The receiver starts a device grabber, which seizes
  devices as the configuration says. HID values of a seized device become entries of the merged
  queue. Manipulators move entries from queue to queue, replacing what their definitions match; the
  last queue is posted to the virtual devices. The modelled C++ is under src/src/share,
  src/src/core/grabber/include, src/src/core/console_user_server/include and
  src/src/core/session_monitor/include.

  \<^bold>\<open>Theories and code\<close>
  \<^item> Prelude, Types: lemma collections, generic list and option lemmas; enumerations, modifier flags
    and momentary switch events (share/types/).
  \<^item> Key_Codes: key name tables and the JSON form of momentary switch events
    (share/types/momentary_switch_event_details/, momentary_switch_event.hpp).
  \<^item> Modifier_Flag_Manager, Scoped_Modifier_Flags, Pointing_Button_Manager: what is pressed
    (share/modifier_flag_manager*, pointing_button_manager.hpp).
  \<^item> Key_Trackers, Probable_Stuck_Events: keyboard repeat, pressed keys, hat switch, stuck keys.
  \<^item> Device_Properties: device identifiers, properties and their manager.
  \<^item> Expressions: exprtk expression objects, the condition expression manager, variables, and the
    \<open>platform\<close> and \<open>world\<close> records shared by all theories.
  \<^item> Event_Queue, Event_Queue_Utility: event_queue::queue with manipulator_environment, and
    share/event_queue/utility.hpp.
  \<^item> Conditions, Definitions: manipulator conditions, modifier, from and to event definitions.
  \<^item> Event_Sender, Basic: the basic manipulator (manipulators/basic/) with its senders and timers.
  \<^item> Basic_Balance, Basic_Decisions: no stuck keys in any run of a basic manipulator, up to what an
    ungrabbed device drops; key up handling and waiting.
  \<^item> Scroll_Counter, Mouse_Manipulators: mouse_motion_to_scroll/, mouse_basic/ and nop.hpp.
  \<^item> Post_Queue, Key_Event_Dispatcher, Mouse_Key_Handler, Post_Event_To_Virtual_Devices: the last
    manipulator (post_event_to_virtual_devices/) and the reports it posts; Notification_Message:
    notification_message_manager.hpp, which it tells about sticky modifiers.
  \<^item> Manipulator_Manager: manipulator_manager.hpp and manipulator_managers_connector.hpp, where the
    manipulators are the constructors of one datatype, and what is left down by an ungrabbed device.
  \<^item> Json, Configuration_Json_Helper: JSON values, their exceptions and the members of a configuration
    class (share/json_utility.hpp, configuration_json_helper.hpp); Configuration_Details,
    Complex_Modifications, Simple_Modifications, Device_Configuration: the classes of
    core_configuration/details/; Connected_Devices: share/connected_devices/; Core_Configuration:
    profile.hpp and core_configuration.hpp, with loading, saving and backups.
  \<^item> Value_Json, Definition_Json, Manipulator_Factory: from JSON to manipulators: the values, the
    definitions and conditions (condition_factory.hpp), manipulator_factory.hpp and the rules
    device_grabber.hpp turns into manipulators; Modification_Managers: the managers of simple
    modifications and fn function keys (device_grabber_details/).
  \<^item> Hid_Monitor: the states in which a device is opened and closed
    (vendor's pqrs/osx/iokit_hid_queue_value_monitor.hpp); Game_Pad_Stick: game_pad_stick_converter.hpp;
    Device_Entry: device_grabber_details/entry.hpp with the values it converts and the LED manager.
  \<^item> Device_Grabber: device_grabber.hpp, as a record with the functions that wait in its dispatcher,
    and the relation \<open>grabber_moves\<close> of everything that can happen to it; Grabber_Invariants,
    Grabber_Liveness: which devices are seized and heard, and that no event is left waiting.
  \<^item> Messages: operation_type.hpp, the JSON of what messages carry, grabber_client.hpp,
    console_user_server_client.hpp and session_monitor_receiver_client.hpp; Event_Json: the JSON of
    event.hpp and entry.hpp.
  \<^item> Console_User_Server: configuration_monitor.hpp and the components_manager.hpp,
    software_function_handler.hpp and updater_process_manager.hpp of the console user server.
  \<^item> Grabber_Receiver: receiver.hpp, composed with the grabber; Session_Monitor: the session monitor,
    session_monitor_receiver.hpp and the grabber's components_manager.hpp, composed with the receiver.

  \<^bold>\<open>State and effects\<close>
  A queue is the record \<open>event_queue\<close>; every operation that can evaluate an expression or read the
  clock threads the pair \<open>world \<times> event_queue\<close>, because expression objects and the condition
  expression manager are global in the code. Reading JSON that may hold an expression threads a
  \<open>loader\<close>, the world with the next free expression id, and gives no loader when it throws. Objects
  shared through smart pointers live in heaps (expressions by id, records of manipulated keys by
  creation index). Callbacks given to the
  dispatcher are pending pairs of the id that was current and the delay; a run may execute them at
  any later time. Device ids are natural numbers, time stamps and counters integers, doubles
  rationals with the special values of \<open>double\<close>; casts that can overflow are written out.
  The functions that the grabber, its monitors and the session receiver give to the dispatcher are
  lists of jobs in their records, run in order; requests to other processes are returned as actions
  or collected in the record (\<open>gb_client\<close>, \<open>gc_sent\<close>). A message is the JSON value that is packed.

  \<^bold>\<open>Parameters\<close>
  What is not in the repository is an argument: the \<open>platform\<close> record (system clock, rounding of
  doubles, exprtk compilation and evaluation, regular expressions, conversion of time units),
  \<open>floating_point\<close>, the driver's HID reports, and the order in which an unordered set is walked
  (\<open>flag_order\<close>, assumed to enumerate the set once). For the configuration: the text form of JSON
  and the sort of its definitions (\<open>json_text\<close>, assumed to parse what it dumps and to permute), the
  formatter of saved files, and what the file system and the parser answer (\<open>config_file\<close>). The
  momentum of a new mouse_motion_to_scroll is a parameter too: its member is not initialised.
  The grabber takes its \<open>surroundings\<close>: the driver, a clock, \<open>stick_arithmetic\<close> (the operations on
  doubles the sticks use, of which one property assumes a bound of their rounding), and for a device
  what IOKit says of it (\<open>iokit_device\<close>). \<open>session_environment\<close> is what the console user server asks
  the system: running applications, displays and their sizes. The driver's reports are assumed to be
  sets of usages (\<open>report_fields_are_sets\<close>) for every usage; the arrays of the driver hold 16 bits and
  take 0 for an empty place, so for 0 and wider usages this assumes more than the driver gives.

  \<^bold>\<open>Lemma groups\<close>
  Refinements (modifier flag and pointing button managers against tables of what is pressed),
  functional behaviour per operation, round trips of names, the locale \<open>cached_test\<close> for conditions
  with a remembered answer, and the balance of presses and releases: \<open>balance\<close> counts presses minus
  releases in a list of entries, \<open>sends\<close> gives it for every sender, \<open>advances\<close> composes it over calls,
  and \<open>basic_run\<close> over runs, where the records an ungrabbed device dropped are kept as a ghost set. For the virtual devices the relations \<open>dispatcher_run\<close>, \<open>mouse_key_run\<close>
  and \<open>poster_run\<close> collect everything that can happen to a component, and an invariant of each gives
  what the reports hold; \<open>counter_run\<close> and \<open>nmm_run\<close> do the same for scrolling and notifications. Configuration classes:
  the locales \<open>configuration_class\<close> and \<open>configuration_object\<close> state once that assigning a member and
  reading back what was written agree, and are interpreted on every class; reachable devices and
  configurations have invariants, and devices, rules and simple modifications round trips. Readings:
  \<open>quiet\<close> says that a reading only adds expression objects (the introduction rules \<open>quiet_intros\<close>
  follow the program), \<open>adds\<close> that an update appends manipulators with a property; the predicates
  ending in \<open>ok\<close> say what a definition that reads is good for; \<open>reads\<close> and \<open>member_reads\<close> say which
  parts of a configuration read, and \<open>rule_outcome\<close> what becomes of an entry of the rules.
  Processes: the collections \<open>grabber_frame\<close> and \<open>view\<close> say what an operation of the grabber leaves alone,
  the relations \<open>calm\<close> and \<open>lively\<close> between states compose the invariants and the liveness over the
  handlers, and \<open>moves\<close> lemmas lift them to runs. \<open>grabber_reachable\<close>, \<open>receiver_run\<close>, \<open>console_run\<close> and
  \<open>components_run\<close> are the runs of each process part, and each contains those of the part inside it.
  The locale \<open>carried\<close> is the contract of a value in a message, kept by each kind of value.

  \<^bold>\<open>Bounds and fuel\<close>
  Loops that may not end return an option and their termination is proved where it holds (the
  sorting of a queue, the constructor of scoped_modifier_flags without lock entries, the count
  converters, the scroll counter with its timer). The loop of a connection recurs on the length of
  its input queue. Report fields hold at most 32 keys, so the reachable states of the virtual
  keyboard are those with at most 31 keys of \<open>pressed_keys_\<close> down, which leaves room for fn and caps
  lock. Sums of mouse keys and the totals of the scroll counter are unbounded integers: where the
  code's signed integers overflow its behaviour is undefined.

  \<^bold>\<open>Not modelled\<close>
  IOKit, the sockets with MessagePack and the verification of peers, files and file monitors, the
  version monitor and the components that end a process, logging and wake-up notifications; the
  parser of the configuration file. libkrbn, whose functions forward from C to operations that are
  modelled, the user interfaces, the command line tools and the editor for rules found on disk. The
  timers of the manipulators are modelled with the manipulators and do not run inside the grabber of
  Device_Grabber; the order in which its entries, a hash table, are walked is that of their creation.
\<close>

end
